(* ===== verification/Nazg_Prelude.thy ===== *)
theory Nazg_Prelude
  imports Main "HOL-Library.Char_ord" "HOL-Library.List_Lexorder"
begin

text \<open>
  Shared vocabulary of the development: the parts of the C++ standard library that the nazg
  sources use, and the interfaces (locales) that several components implement.

  \<^item> \<open>std::string\<close> is \<^typ>\<open>string\<close>; positions are \<^typ>\<open>nat\<close>, \<open>npos\<close> is \<^const>\<open>None\<close>.
    \<open>find_first_not_of\<close>, \<open>find_last_not_of\<close>, \<open>substr\<close>, \<open>std::getline\<close>, \<open>istream >> word\<close>,
    \<open>std::to_string\<close>, \<open>std::stoi\<close> and the \<open><cctype>\<close> predicates (C locale) are functions here.
  \<^item> \<open>std::map\<close> is an association list kept strictly sorted by key (\<open>std_map_wf\<close>), because
    the sources iterate over maps in key order.
  \<^item> Interfaces: \<open>kv_table\<close> and \<open>kv_store\<close> (put, get, erase and their laws), \<open>fifo_queue\<close> (the \<open>std::queue\<close>
    contract), \<open>step_invariant\<close> (an invariant kept by every step of a component) and \<open>codec\<close>
    (an encoder with a decoder that inverts it).
\<close>

section \<open>Proof collections\<close>

named_theorems string_defs \<open>definitions of the string library, for evaluation\<close>
named_theorems std_map_laws \<open>lookup laws of the ordered map\<close>

section \<open>Strings\<close>

subsection \<open>Positions and substrings\<close>

definition substr :: "'a list \<Rightarrow> nat \<Rightarrow> nat \<Rightarrow> 'a list" where
  "substr s pos n = take n (drop pos s)"

primrec find_first :: "('a \<Rightarrow> bool) \<Rightarrow> 'a list \<Rightarrow> nat option" where
  "find_first P [] = None"
| "find_first P (x # xs) = (if P x then Some 0 else map_option Suc (find_first P xs))"

definition find_char :: "'a \<Rightarrow> 'a list \<Rightarrow> nat option" where
  "find_char c s = find_first (\<lambda>x. x = c) s"

definition find_first_not_of :: "'a list \<Rightarrow> 'a list \<Rightarrow> nat option" where
  "find_first_not_of cs s = find_first (\<lambda>x. x \<notin> set cs) s"

definition find_last_not_of :: "'a list \<Rightarrow> 'a list \<Rightarrow> nat option" where
  "find_last_not_of cs s =
     map_option (\<lambda>i. length s - 1 - i) (find_first (\<lambda>x. x \<notin> set cs) (rev s))"

lemma find_first_None_iff: "find_first P xs = None \<longleftrightarrow> (\<forall>x\<in>set xs. \<not> P x)"
  by (induction xs) auto

lemma find_first_Some:
  "find_first P xs = Some i \<Longrightarrow> i < length xs \<and> P (xs ! i) \<and> take i xs = takeWhile (\<lambda>x. \<not> P x) xs
     \<and> drop i xs = dropWhile (\<lambda>x. \<not> P x) xs"
  by (induction xs arbitrary: i) (auto split: if_splits)

lemma find_char_None_iff [simp]: "find_char c s = None \<longleftrightarrow> c \<notin> set s"
  by (auto simp: find_char_def find_first_None_iff)

lemma find_char_Some:
  assumes "find_char c s = Some i"
  shows "i < length s" "take i s = takeWhile (\<lambda>x. x \<noteq> c) s"
    "drop (Suc i) s = tl (dropWhile (\<lambda>x. x \<noteq> c) s)"
proof -
  from assms have *: "i < length s" "take i s = takeWhile (\<lambda>x. x \<noteq> c) s"
    "drop i s = dropWhile (\<lambda>x. x \<noteq> c) s"
    unfolding find_char_def by (auto dest: find_first_Some)
  then show "i < length s" "take i s = takeWhile (\<lambda>x. x \<noteq> c) s" by simp_all
  from *(3) show "drop (Suc i) s = tl (dropWhile (\<lambda>x. x \<noteq> c) s)"
    by (metis drop_Suc tl_drop)
qed

lemma find_char_append: "c \<notin> set s \<Longrightarrow> find_char c (s @ c # ys) = Some (length s)"
  by (induction s) (auto simp: find_char_def)

text \<open>
  The trimming idiom of the sources: find the first and the last position that holds no blank
  and keep what lies between them; a string of blanks only becomes empty.
\<close>

definition trim_of :: "'a list \<Rightarrow> 'a list \<Rightarrow> 'a list" where
  "trim_of cs s =
     (case (find_first_not_of cs s, find_last_not_of cs s) of
        (Some i, Some j) \<Rightarrow> substr s i (j - i + 1)
      | _ \<Rightarrow> [])"

definition strip :: "('a \<Rightarrow> bool) \<Rightarrow> 'a list \<Rightarrow> 'a list" where
  "strip P s = rev (dropWhile P (rev (dropWhile P s)))"

lemma dropWhile_Nil_iff_all: "dropWhile P s = [] \<longleftrightarrow> (\<forall>x\<in>set s. P x)"
  by (simp add: dropWhile_eq_Nil_conv)

lemma strip_Nil_iff: "strip P s = [] \<longleftrightarrow> (\<forall>x\<in>set s. P x)"
proof
  assume *: "strip P s = []"
  have "dropWhile P s = []"
  proof (cases "dropWhile P s")
    case (Cons a as)
    then have "\<not> P a" by (metis hd_dropWhile list.distinct(1) list.sel(1))
    moreover have "a \<in> set (rev (dropWhile P s))" using Cons by simp
    ultimately show ?thesis using * unfolding strip_def rev_is_Nil_conv dropWhile_Nil_iff_all by blast
  qed
  then show "\<forall>x\<in>set s. P x" by (simp add: dropWhile_Nil_iff_all)
next
  assume "\<forall>x\<in>set s. P x"
  then have "dropWhile P s = []" by (simp add: dropWhile_Nil_iff_all)
  then show "strip P s = []" by (simp only: strip_def rev.simps dropWhile.simps)
qed

lemma trim_of_strip: "trim_of cs s = strip (\<lambda>x. x \<in> set cs) s"
proof (cases "find_first (\<lambda>x. x \<notin> set cs) s")
  case None
  then have "\<forall>x\<in>set s. x \<in> set cs" by (auto simp: find_first_None_iff)
  then have "strip (\<lambda>x. x \<in> set cs) s = []" by (simp add: strip_Nil_iff)
  with None show ?thesis by (simp add: trim_of_def find_first_not_of_def)
next
  case (Some i)
  let ?P = "\<lambda>x. x \<in> set cs"
  from find_first_Some [OF Some] have i: "i < length s" "s ! i \<notin> set cs" "drop i s = dropWhile ?P s"
    by auto
  have "find_first (\<lambda>x. x \<notin> set cs) (rev s) \<noteq> None"
    using i by (auto simp: find_first_None_iff)
  then obtain k where k: "find_first (\<lambda>x. x \<notin> set cs) (rev s) = Some k" by blast
  from find_first_Some [OF k] have k': "k < length s" "rev s ! k \<notin> set cs"
    "drop k (rev s) = dropWhile ?P (rev s)" by auto
  let ?j = "length s - 1 - k"
  have "i \<le> ?j"
  proof (rule ccontr)
    assume "\<not> i \<le> ?j"
    then have "?j < i" by simp
    moreover have "take i s = takeWhile ?P s" using find_first_Some [OF Some] by simp
    ultimately have "s ! ?j \<in> set cs"
      by (metis i(1) length_take less_imp_le min.absorb2 nth_mem nth_take set_takeWhileD)
    moreover have "s ! ?j = rev s ! k" using k'(1) by (simp add: rev_nth)
    ultimately show False using k'(2) by simp
  qed
  have *: "dropWhile ?P (rev (drop i s)) = drop k (rev (drop i s))"
  proof -
    have kl: "k < length s - i" using \<open>i \<le> ?j\<close> i(1) k'(1) by linarith
    have tk: "take k (rev s) = takeWhile ?P (rev s)" using find_first_Some [OF k] by simp
    have "takeWhile ?P (rev (drop i s)) = take k (rev (drop i s))"
    proof (rule takeWhile_eq_take_P_nth)
      fix n assume "n < k"
      then have "rev s ! n \<in> set (take k (rev s))" using k'(1)
        by (metis (no_types, lifting) in_set_conv_nth length_rev length_take min.absorb4 nth_take)
      then have "?P (rev s ! n)" unfolding tk by (rule set_takeWhileD [THEN conjunct2])
      then show "?P (rev (drop i s) ! n)" using \<open>n < k\<close> kl by (simp add: rev_drop)
    next
      show "\<not> ?P (rev (drop i s) ! k)" using kl k'(2) by (simp add: rev_drop)
    qed
    then show ?thesis using kl by (simp add: dropWhile_eq_drop)
  qed
  have "strip ?P s = rev (drop k (rev (drop i s)))"
    using * i(3) by (simp add: strip_def)
  also have "\<dots> = take (length s - i - k) (drop i s)" by (subst rev_drop) simp
  also have "length s - i - k = ?j - i + 1" using \<open>i \<le> ?j\<close> i(1) k'(1) by linarith
  finally show ?thesis using Some k
    by (simp add: trim_of_def find_first_not_of_def find_last_not_of_def substr_def)
qed

lemma strip_idem [simp]: "strip P (strip P s) = strip P s"
proof (cases "dropWhile P s")
  case Nil
  then have "strip P s = []" by (simp only: strip_def rev.simps dropWhile.simps)
  then show ?thesis by (simp only: strip_def rev.simps dropWhile.simps)
next
  case (Cons a as)
  then have a: "\<not> P a" by (metis hd_dropWhile list.distinct(1) list.sel(1))
  have "\<exists>bs. rev (dropWhile P (rev (a # as))) = a # bs"
    using a by (cases "\<forall>x\<in>set as. P x") (auto simp: dropWhile_append intro: exI [of _ "rev _"])
  then obtain bs where bs: "rev (dropWhile P (rev (a # as))) = a # bs" by blast
  then have "dropWhile P (rev (a # bs)) = rev (a # bs)"
    by (metis dropWhile_idem rev_rev_ident)
  then show ?thesis using a bs Cons by (simp add: strip_def)
qed


lemma strip_all: "\<forall>x\<in>set s. P x \<Longrightarrow> strip P s = []"
  by (simp add: strip_Nil_iff)

lemma set_strip: "set (strip P s) \<subseteq> set s"
  by (auto simp: strip_def) (metis set_dropWhileD set_rev)

lemma strip_id: "s = [] \<or> (\<not> P (hd s) \<and> \<not> P (last s)) \<Longrightarrow> strip P s = s"
proof (cases s)
  case (Cons a as)
  assume "s = [] \<or> (\<not> P (hd s) \<and> \<not> P (last s))"
  with Cons have "\<not> P a" "\<not> P (last s)" by auto
  then have "dropWhile P s = s" using Cons by simp
  moreover have "dropWhile P (rev s) = rev s"
    using \<open>\<not> P (last s)\<close> Cons by (metis dropWhile.simps(2) hd_rev list.collapse list.distinct(1) rev_is_Nil_conv)
  ultimately show ?thesis by (simp add: strip_def)
qed (simp add: strip_def)

subsection \<open>Characters (the C locale)\<close>

definition isspace :: "char \<Rightarrow> bool" where
  "isspace c \<longleftrightarrow> c \<in> {CHR '' '', CHR 0x09, CHR 0x0A, CHR 0x0B, CHR 0x0C, CHR 0x0D}"

definition isdigit :: "char \<Rightarrow> bool" where
  "isdigit c \<longleftrightarrow> 48 \<le> (of_char c :: nat) \<and> (of_char c :: nat) \<le> 57"

definition isupper :: "char \<Rightarrow> bool" where
  "isupper c \<longleftrightarrow> 65 \<le> (of_char c :: nat) \<and> (of_char c :: nat) \<le> 90"

definition islower :: "char \<Rightarrow> bool" where
  "islower c \<longleftrightarrow> 97 \<le> (of_char c :: nat) \<and> (of_char c :: nat) \<le> 122"

definition isalpha :: "char \<Rightarrow> bool" where
  "isalpha c \<longleftrightarrow> isupper c \<or> islower c"

definition ispunct :: "char \<Rightarrow> bool" where
  "ispunct c \<longleftrightarrow> 33 \<le> (of_char c :: nat) \<and> (of_char c :: nat) \<le> 126 \<and> \<not> isalpha c \<and> \<not> isdigit c"

definition tolower :: "char \<Rightarrow> char" where
  "tolower c = (if isupper c then char_of ((of_char c :: nat) + 32) else c)"

lemma tolower_idem [simp]: "tolower (tolower c) = tolower c"
proof (cases "isupper c")
  case True
  then have "(of_char c :: nat) + 32 < 256" "97 \<le> (of_char c :: nat) + 32"
    by (auto simp: isupper_def)
  then have "(of_char (char_of ((of_char c :: nat) + 32)) :: nat) = of_char c + 32"
    by (simp only: of_char_of mod_less)
  then show ?thesis using True \<open>97 \<le> _\<close> by (simp add: tolower_def isupper_def)
qed (simp add: tolower_def)

subsection \<open>Lines and words\<close>

function getlines :: "char \<Rightarrow> string \<Rightarrow> string list" where
  "getlines d s =
     (if s = [] then []
      else takeWhile (\<lambda>x. x \<noteq> d) s #
           (case dropWhile (\<lambda>x. x \<noteq> d) s of [] \<Rightarrow> [] | _ # r \<Rightarrow> getlines d r))"
  by pat_completeness auto
termination
proof (relation "measure (\<lambda>(d, s). length s)", simp, clarsimp)
  fix d :: char and s r :: string and x
  assume "dropWhile (\<lambda>x. x \<noteq> d) s = x # r"
  then have "length (x # r) \<le> length s" by (metis length_dropWhile_le)
  then show "length r < length s" by simp
qed

declare getlines.simps [simp del]

lemma getlines_Nil [simp]: "getlines d [] = []"
  by (simp add: getlines.simps)

lemma getlines_no_delim: "l \<in> set (getlines d s) \<Longrightarrow> d \<notin> set l"
proof (induction d s rule: getlines.induct)
  case (1 d s)
  show ?case
  proof (cases "s = []")
    case False
    with "1.prems" consider "l = takeWhile (\<lambda>x. x \<noteq> d) s"
      | x r where "dropWhile (\<lambda>x. x \<noteq> d) s = x # r" "l \<in> set (getlines d r)"
      by (cases "dropWhile (\<lambda>x. x \<noteq> d) s") (auto simp: getlines.simps [of d s] dropWhile_eq_Nil_conv)
    then show ?thesis
      using "1.IH" [OF False] by cases (auto dest: set_takeWhileD)
  qed (use "1.prems" in simp)
qed

lemma getlines_single:
  assumes "d \<notin> set l" "l \<noteq> []"
  shows "getlines d l = [l]"
proof -
  have "takeWhile (\<lambda>x. x \<noteq> d) l = l" "dropWhile (\<lambda>x. x \<noteq> d) l = []"
    using assms(1) by (auto simp: takeWhile_eq_all_conv dropWhile_eq_Nil_conv)
  then show ?thesis using assms(2)
    by (simp add: getlines.simps [of d l] del: dropWhile_eq_Nil_conv takeWhile_eq_all_conv)
qed

lemma getlines_Cons:
  assumes "d \<notin> set l"
  shows "getlines d (l @ d # r) = l # getlines d r"
proof -
  have "takeWhile (\<lambda>x. x \<noteq> d) (l @ d # r) = l" "dropWhile (\<lambda>x. x \<noteq> d) (l @ d # r) = d # r"
    using assms by (auto simp: takeWhile_append dropWhile_append)
  then show ?thesis by (simp add: getlines.simps [of d "l @ d # r"])
qed

definition nl :: char where
  "nl = CHR 0x0A"

definition unlines :: "string list \<Rightarrow> string" where
  "unlines ls = concat (map (\<lambda>l. l @ [nl]) ls)"

lemma getlines_unlines: "\<forall>l\<in>set ls. nl \<notin> set l \<Longrightarrow> getlines nl (unlines ls) = ls"
  by (induction ls) (simp_all add: unlines_def getlines_Cons)

lemma length_drop_word:
  assumes "dropWhile isspace s \<noteq> []"
  shows "length (dropWhile (\<lambda>x. \<not> isspace x) (dropWhile isspace s)) < length s"
proof -
  from assms obtain a as where t: "dropWhile isspace s = a # as" and "\<not> isspace a"
    by (metis hd_dropWhile list.exhaust list.sel(1))
  then have "length (dropWhile (\<lambda>x. \<not> isspace x) (dropWhile isspace s)) \<le> length as"
    by (simp add: length_dropWhile_le)
  also have "\<dots> < length (dropWhile isspace s)" using t by simp
  also have "\<dots> \<le> length s" by (rule length_dropWhile_le)
  finally show ?thesis .
qed

function words :: "string \<Rightarrow> string list" where
  "words s =
     (let t = dropWhile isspace s in
      if t = [] then []
      else takeWhile (\<lambda>x. \<not> isspace x) t # words (dropWhile (\<lambda>x. \<not> isspace x) t))"
  by pat_completeness auto
termination
  by (relation "measure length") (simp, simp add: length_drop_word del: dropWhile_eq_Nil_conv)

declare words.simps [simp del]

lemma words_nonblank: "w \<in> set (words s) \<Longrightarrow> w \<noteq> [] \<and> (\<forall>c\<in>set w. \<not> isspace c)"
proof (induction s rule: words.induct)
  case (1 s)
  let ?t = "dropWhile isspace s"
  have ne: "?t \<noteq> []" using "1.prems" by (subst (asm) words.simps) (auto simp: Let_def split: if_splits)
  then obtain a as where t: "?t = a # as" and a: "\<not> isspace a"
    by (metis hd_dropWhile list.exhaust list.sel(1))
  from "1.prems" ne consider "w = takeWhile (\<lambda>x. \<not> isspace x) ?t"
    | "w \<in> set (words (dropWhile (\<lambda>x. \<not> isspace x) ?t))"
    by (subst (asm) words.simps) (auto simp: Let_def split: if_splits)
  then show ?case
  proof cases
    case 1
    then show ?thesis using t a by (auto dest: set_takeWhileD)
  next
    case 2
    then show ?thesis by (rule "1.IH" [OF refl ne])
  qed
qed

lemma words_blank: "\<forall>c\<in>set s. isspace c \<Longrightarrow> words s = []"
  by (simp add: words.simps [of s] Let_def)

lemma words_skip: "isspace c \<Longrightarrow> words (c # s) = words s"
  by (simp add: words.simps [of "c # s"] words.simps [of s])

lemma words_Cons:
  assumes "w \<noteq> []" "\<forall>c\<in>set w. \<not> isspace c" "r = [] \<or> isspace (hd r)"
  shows "words (w @ r) = w # words r"
proof -
  from assms(1,2) obtain a as where w: "w = a # as" "\<not> isspace a" by (cases w) auto
  then have 1: "dropWhile isspace (w @ r) = w @ r" by simp
  have 2: "takeWhile (\<lambda>x. \<not> isspace x) (w @ r) = w" "dropWhile (\<lambda>x. \<not> isspace x) (w @ r) = r"
    using assms(2,3) by (cases r; auto simp: takeWhile_append dropWhile_append)+
  show ?thesis using assms(1) by (simp add: words.simps [of "w @ r"] 1 2 Let_def del: dropWhile_eq_Nil_conv)
qed

primrec join_with :: "string \<Rightarrow> string list \<Rightarrow> string" where
  "join_with sep [] = []"
| "join_with sep (w # ws) = (if ws = [] then w else w @ sep @ join_with sep ws)"

lemma words_join:
  assumes "\<forall>w\<in>set ws. w \<noteq> [] \<and> (\<forall>c\<in>set w. \<not> isspace c)" "sep \<noteq> []" "\<forall>c\<in>set sep. isspace c"
  shows "words (join_with sep ws) = ws"
  using assms(1)
proof (induction ws)
  case (Cons w ws)
  have skip: "words (sep @ r) = words r" for r
    using assms(3) by (induction sep) (auto simp: words_skip)
  have "hd (sep @ r) = hd sep" "isspace (hd sep)" for r using assms(2,3) by (auto simp: hd_append)
  then show ?case using Cons words_Cons [of w "[]"] words_Cons [of w "sep @ join_with sep ws"]
    by (auto simp: skip words_blank)
qed (simp add: words_blank)

subsection \<open>Numbers as text\<close>

fun nat_digits :: "nat \<Rightarrow> string" where
  "nat_digits n =
     (if n < 10 then [char_of (48 + n)] else nat_digits (n div 10) @ [char_of (48 + n mod 10)])"

declare nat_digits.simps [simp del]

definition to_string :: "int \<Rightarrow> string" where
  "to_string i = (if i < 0 then CHR ''-'' # nat_digits (nat (- i)) else nat_digits (nat i))"

definition digits_value :: "string \<Rightarrow> nat" where
  "digits_value s = foldl (\<lambda>a c. 10 * a + (of_char c - 48)) 0 s"

text \<open>\<open>strtol\<close> in base 10: leading blanks, a sign, the longest run of digits; the rest is ignored.\<close>

definition parse_int_prefix :: "string \<Rightarrow> int option" where
  "parse_int_prefix s =
     (let t = dropWhile isspace s;
          neg = (t \<noteq> [] \<and> hd t = CHR ''-'');
          u = (if t \<noteq> [] \<and> (hd t = CHR ''-'' \<or> hd t = CHR ''+'') then tl t else t);
          ds = takeWhile isdigit u
      in if ds = [] then None
         else Some (if neg then - int (digits_value ds) else int (digits_value ds)))"

definition checked_range :: "nat \<Rightarrow> int option \<Rightarrow> int option" where
  "checked_range w r =
     (case r of None \<Rightarrow> None
      | Some i \<Rightarrow> if - (2 ^ (w - 1)) \<le> i \<and> i < 2 ^ (w - 1) then Some i else None)"

text \<open>\<open>std::stoi\<close> and \<open>std::stoll\<close>; \<^const>\<open>None\<close> stands for the exceptions they throw.\<close>

definition stoi :: "string \<Rightarrow> int option" where
  "stoi s = checked_range 32 (parse_int_prefix s)"

definition stoll :: "string \<Rightarrow> int option" where
  "stoll s = checked_range 64 (parse_int_prefix s)"

lemma digit_char:
  assumes "n < 10"
  shows "isdigit (char_of (48 + n))" "(of_char (char_of (48 + n)) :: nat) = 48 + n"
    "\<not> isspace (char_of (48 + n))" "char_of (48 + n) \<noteq> CHR ''-''" "char_of (48 + n) \<noteq> CHR ''+''"
proof -
  show v: "(of_char (char_of (48 + n)) :: nat) = 48 + n" using assms by (simp only: of_char_of) simp
  then show "isdigit (char_of (48 + n))" using assms by (simp add: isdigit_def)
  have "char_of (48 + n) \<noteq> c" if "(of_char c :: nat) < 48" for c
    using v that by (metis leD le_add1)
  from this [of "CHR ''-''"] this [of "CHR ''+''"] this [of "CHR '' ''"] this [of "CHR 0x09"]
    this [of "CHR 0x0A"] this [of "CHR 0x0B"] this [of "CHR 0x0C"] this [of "CHR 0x0D"]
  show "\<not> isspace (char_of (48 + n))" "char_of (48 + n) \<noteq> CHR ''-''" "char_of (48 + n) \<noteq> CHR ''+''"
    by (simp_all add: isspace_def)
qed

lemma digits_value_snoc: "digits_value (s @ [c]) = 10 * digits_value s + (of_char c - 48)"
  by (simp add: digits_value_def)

lemma nat_digits_props:
  "nat_digits n \<noteq> [] \<and> (\<forall>c\<in>set (nat_digits n). isdigit c) \<and> digits_value (nat_digits n) = n"
proof (induction n rule: nat_digits.induct)
  case (1 n)
  show ?case
  proof (cases "n < 10")
    case True
    then show ?thesis
      using digit_char [of n] by (simp add: nat_digits.simps [of n] digits_value_def)
  next
    case False
    then have IH: "nat_digits (n div 10) \<noteq> [] \<and> (\<forall>c\<in>set (nat_digits (n div 10)). isdigit c)
       \<and> digits_value (nat_digits (n div 10)) = n div 10" by (rule "1.IH")
    have m: "n mod 10 < 10" by simp
    have "digits_value (nat_digits n) = 10 * (n div 10) + n mod 10"
      using False IH digit_char(2) [OF m] by (simp add: nat_digits.simps [of n] digits_value_snoc)
    then show ?thesis using False IH digit_char [OF m] by (simp add: nat_digits.simps [of n])
  qed
qed

lemma isdigit_not_special: "isdigit c \<Longrightarrow> \<not> isspace c \<and> c \<noteq> CHR ''-'' \<and> c \<noteq> CHR ''+''"
  by (auto simp: isdigit_def isspace_def)

lemma nat_digits_hd:
  "\<not> isspace (hd (nat_digits n)) \<and> hd (nat_digits n) \<noteq> CHR ''-'' \<and> hd (nat_digits n) \<noteq> CHR ''+''"
  by (rule isdigit_not_special) (use nat_digits_props [of n] in simp)

lemma dropWhile_hd_id: "s = [] \<or> \<not> P (hd s) \<Longrightarrow> dropWhile P s = s"
  by (cases s) auto

lemma takeWhile_nat_digits [simp]: "takeWhile isdigit (nat_digits n) = nat_digits n"
  using nat_digits_props [of n] by (simp add: takeWhile_eq_all_conv)

lemma parse_int_prefix_to_string: "parse_int_prefix (to_string i) = Some i"
proof (cases "i < 0")
  case True
  have "\<not> isspace (CHR ''-'')" by (simp add: isspace_def)
  then show ?thesis using True nat_digits_props [of "nat (- i)"]
    by (simp add: parse_int_prefix_def to_string_def)
next
  case False
  have "dropWhile isspace (nat_digits (nat i)) = nat_digits (nat i)"
    by (rule dropWhile_hd_id) (simp add: nat_digits_hd)
  then show ?thesis using False nat_digits_props [of "nat i"] nat_digits_hd [of "nat i"]
    by (simp add: parse_int_prefix_def to_string_def Let_def)
qed

lemma stoi_to_string: "- (2 ^ 31) \<le> i \<Longrightarrow> i < 2 ^ 31 \<Longrightarrow> stoi (to_string i) = Some i"
  by (simp add: stoi_def checked_range_def parse_int_prefix_to_string)

lemma stoll_to_string: "- (2 ^ 63) \<le> i \<Longrightarrow> i < 2 ^ 63 \<Longrightarrow> stoll (to_string i) = Some i"
  by (simp add: stoll_def checked_range_def parse_int_prefix_to_string)

section \<open>Interfaces\<close>

subsection \<open>Keyed stores\<close>

text \<open>A table that is filled key by key, and a store from which entries can also be erased.\<close>

locale kv_table =
  fixes empty :: "'m"
    and put :: "'k \<Rightarrow> 'v \<Rightarrow> 'm \<Rightarrow> 'm"
    and get :: "'m \<Rightarrow> 'k \<Rightarrow> 'v option"
    and ok :: "'m \<Rightarrow> bool"
  assumes get_empty: "get empty k = None"
    and get_put: "ok m \<Longrightarrow> get (put k v m) k' = (if k' = k then Some v else get m k')"
    and ok_empty: "ok empty"
    and ok_put: "ok m \<Longrightarrow> ok (put k v m)"
begin

lemma ok_put_all: "ok m \<Longrightarrow> ok (fold (\<lambda>(k, v). put k v) kvs m)"
  by (induction kvs arbitrary: m) (auto intro: ok_put)

lemma get_put_all:
  "ok m \<Longrightarrow> get (fold (\<lambda>(k, v). put k v) kvs m) k =
     (case map_of (rev kvs) k of None \<Rightarrow> get m k | Some v \<Rightarrow> Some v)"
proof (induction kvs rule: rev_induct)
  case (snoc kv kvs)
  obtain a b where "kv = (a, b)" by (cases kv)
  with snoc show ?case by (simp add: get_put ok_put_all)
qed simp

lemma get_load:
  "get (fold (\<lambda>(k, v). put k v) kvs empty) k = map_of (rev kvs) k"
  by (simp add: get_put_all ok_empty get_empty split: option.split)

end

locale kv_store = kv_table empty put get ok
  for empty :: "'m"
    and put :: "'k \<Rightarrow> 'v \<Rightarrow> 'm \<Rightarrow> 'm"
    and get :: "'m \<Rightarrow> 'k \<Rightarrow> 'v option"
    and erase :: "'k \<Rightarrow> 'm \<Rightarrow> 'm"
    and ok :: "'m \<Rightarrow> bool" +
  assumes get_erase: "ok m \<Longrightarrow> get (erase k m) k' = (if k' = k then None else get m k')"
    and ok_erase: "ok m \<Longrightarrow> ok (erase k m)"
begin

lemma put_then_erase: "ok m \<Longrightarrow> get m k = None \<Longrightarrow> get (erase k (put k v m)) k' = get m k'"
  by (simp add: get_erase get_put ok_put)

end

subsection \<open>First-in first-out queues\<close>

locale fifo_queue =
  fixes empty :: "'q"
    and push :: "'a \<Rightarrow> 'q \<Rightarrow> 'q"
    and pop :: "'q \<Rightarrow> ('a \<times> 'q) option"
    and content :: "'q \<Rightarrow> 'a list"
  assumes content_empty: "content empty = []"
    and content_push: "content (push x q) = content q @ [x]"
    and pop_None: "pop q = None \<longleftrightarrow> content q = []"
    and pop_Some: "pop q = Some (x, q') \<Longrightarrow> content q = x # content q'"
begin

lemma content_push_all: "content (fold push xs q) = content q @ xs"
  by (induction xs arbitrary: q) (auto simp: content_push)

lemma pop_length: "pop q = Some (x, q') \<Longrightarrow> length (content q') < length (content q)"
  by (simp add: pop_Some)

end

subsection \<open>Step systems with an invariant\<close>

locale step_invariant =
  fixes step :: "'s \<Rightarrow> 's \<Rightarrow> bool"
    and inv :: "'s \<Rightarrow> bool"
  assumes inv_step: "inv s \<Longrightarrow> step s t \<Longrightarrow> inv t"
begin

lemma inv_steps: "step\<^sup>*\<^sup>* s t \<Longrightarrow> inv s \<Longrightarrow> inv t"
  by (induction rule: rtranclp_induct) (auto intro: inv_step)

end

subsection \<open>Codecs\<close>

locale codec =
  fixes enc :: "'a \<Rightarrow> 'b"
    and dec :: "'b \<Rightarrow> 'a option"
    and valid :: "'a \<Rightarrow> bool"
  assumes dec_enc: "valid x \<Longrightarrow> dec (enc x) = Some x"
begin

lemma enc_inj: "valid x \<Longrightarrow> valid y \<Longrightarrow> enc x = enc y \<Longrightarrow> x = y"
  by (metis dec_enc option.inject)

lemma enc_inj_on: "inj_on enc {x. valid x}"
  by (auto intro: inj_onI enc_inj)

end

section \<open>Ordered maps\<close>

type_synonym ('k, 'v) std_map = "('k \<times> 'v) list"

definition std_map_wf :: "('k::linorder, 'v) std_map \<Rightarrow> bool" where
  "std_map_wf m \<longleftrightarrow> sorted_wrt (<) (map fst m)"

definition map_get :: "('k, 'v) std_map \<Rightarrow> 'k \<Rightarrow> 'v option" where
  "map_get m k = map_of m k"

fun map_put :: "'k::linorder \<Rightarrow> 'v \<Rightarrow> ('k, 'v) std_map \<Rightarrow> ('k, 'v) std_map" where
  "map_put k v [] = [(k, v)]"
| "map_put k v ((k', v') # m) =
     (if k < k' then (k, v) # (k', v') # m
      else if k = k' then (k, v) # m
      else (k', v') # map_put k v m)"

definition map_erase :: "'k \<Rightarrow> ('k, 'v) std_map \<Rightarrow> ('k, 'v) std_map" where
  "map_erase k m = filter (\<lambda>kv. fst kv \<noteq> k) m"

lemma map_get_Nil [simp]: "map_get [] k = None"
  by (simp add: map_get_def)

lemma map_get_put: "map_get (map_put k v m) k' = (if k' = k then Some v else map_get m k')"
  by (induction k v m rule: map_put.induct) (auto simp: map_get_def)

lemma map_get_erase: "map_get (map_erase k m) k' = (if k' = k then None else map_get m k')"
  by (induction m) (auto simp: map_get_def map_erase_def)

lemma set_map_put: "kv \<in> set (map_put k v m) \<Longrightarrow> kv = (k, v) \<or> kv \<in> set m"
  by (induction k v m rule: map_put.induct) (auto split: if_splits)

lemma map_get_in_set: "map_get m k = Some v \<Longrightarrow> (k, v) \<in> set m"
  by (simp add: map_get_def map_of_SomeD)

lemma keys_map_put: "set (map fst (map_put k v m)) = insert k (set (map fst m))"
  by (induction k v m rule: map_put.induct) auto

lemma std_map_wf_put: "std_map_wf m \<Longrightarrow> std_map_wf (map_put k v m)"
proof (induction k v m rule: map_put.induct)
  case (2 k v k' v' m)
  consider "k < k'" | "k = k'" | "k' < k" by fastforce
  then show ?case
  proof cases
    case 3
    then have "std_map_wf (map_put k v m)" using 2 by (auto simp: std_map_wf_def)
    moreover have "\<forall>x\<in>set (map fst (map_put k v m)). k' < x"
      unfolding keys_map_put using 2(2) 3 by (auto simp: std_map_wf_def)
    moreover have "\<not> k < k'" "k \<noteq> k'" using 3 by auto
    ultimately show ?thesis by (simp add: std_map_wf_def)
  qed (use 2 in \<open>auto simp: std_map_wf_def\<close>)
qed (simp add: std_map_wf_def)

lemma std_map_wf_erase: "std_map_wf m \<Longrightarrow> std_map_wf (map_erase k m)"
  by (induction m) (auto simp: std_map_wf_def map_erase_def)

lemma std_map_wf_distinct: "std_map_wf m \<Longrightarrow> distinct (map fst m)"
  unfolding std_map_wf_def by (simp add: strict_sorted_iff)

lemma map_put_last: "\<forall>x\<in>set (map fst m). x < k \<Longrightarrow> map_put k v m = m @ [(k, v)]"
proof (induction m)
  case (Cons kv m)
  obtain a b where "kv = (a, b)" by (cases kv)
  with Cons show ?case by auto
qed simp

lemma fold_map_put_sorted: "std_map_wf m \<Longrightarrow> fold (\<lambda>(k, v). map_put k v) m [] = m"
proof (induction m rule: rev_induct)
  case (snoc kv m)
  obtain k v where "kv = (k, v)" by (cases kv)
  with snoc show ?case by (auto simp: std_map_wf_def sorted_wrt_append intro!: map_put_last)
qed simp

interpretation std_map: kv_store "[]" map_put map_get map_erase std_map_wf
  by unfold_locales
    (auto simp: map_get_put map_get_erase std_map_wf_put std_map_wf_erase, simp_all add: map_get_def std_map_wf_def)

text \<open>A \<open>std::queue\<close> is a list, pushed at the back and popped at the front.\<close>

definition queue_push :: "'a \<Rightarrow> 'a list \<Rightarrow> 'a list" where
  "queue_push x q = q @ [x]"

definition queue_pop :: "'a list \<Rightarrow> ('a \<times> 'a list) option" where
  "queue_pop q = (case q of [] \<Rightarrow> None | x # q' \<Rightarrow> Some (x, q'))"

interpretation std_queue: fifo_queue "[]" queue_push queue_pop "\<lambda>q. q"
  by unfold_locales (auto simp: queue_push_def queue_pop_def split: list.splits)

declare map_get_put [std_map_laws] map_get_erase [std_map_laws] std_map_wf_put [std_map_laws]
  std_map_wf_erase [std_map_laws]

declare substr_def [string_defs] find_char_def [string_defs] trim_of_strip [string_defs]
  strip_def [string_defs] isspace_def [string_defs] isdigit_def [string_defs]

end
