(* ===== verification/Tui_Layout.thy ===== *)
theory Tui_Layout
  imports Complex_Main Nazg_Prelude
begin

text \<open>
  The pane layout of the terminal multiplexer: \<open>Layout\<close> in
  \<open>modules/tui/include/tui/managers/layout.hpp\<close> and \<open>modules/tui/src/managers/layout.cpp\<close>.

  A \<open>Layout::Node\<close> tree with owning pointers is a value tree: a leaf holds a pane, a split
  holds its direction, its ratio and two children. A pane pointer is a number; a pointer to a
  node inside the tree is the path that leads to it. The ratio is a rational; the only ratio the
  code ever stores is \<open>0.5f\<close>, and \<open>width * 0.5f\<close> is exact in single precision for every width
  up to \<open>2^24\<close>, so the exact product is the computed one for terminal sizes.

  The theorems: positions tile the area exactly, splitting inserts the new pane right after its
  target, snapshots restore, and directional navigation returns a nearest pane. The removal of a
  pane, which depends on the order of memory operations, is modelled in \<open>Tui_Layout_Heap\<close>.
\<close>

section \<open>Data\<close>

type_synonym pane_ptr = nat

datatype split_direction = HORIZONTAL | VERTICAL

datatype node =
    Leaf pane_ptr
  | Split split_direction rat node node

record rect =
  rect_x :: int
  rect_y :: int
  rect_width :: int
  rect_height :: int

type_synonym layout = "node option"

section \<open>Operations\<close>

definition set_root_pane :: "pane_ptr \<Rightarrow> layout" where
  "set_root_pane p = Some (Leaf p)"

fun find_node :: "node \<Rightarrow> pane_ptr \<Rightarrow> bool list option" where
  "find_node (Leaf q) p = (if q = p then Some [] else None)"
| "find_node (Split d r lt rt) p =
     (case find_node lt p of
        Some path \<Rightarrow> Some (False # path)
      | None \<Rightarrow> map_option (\<lambda>path. True # path) (find_node rt p))"

fun set_at :: "bool list \<Rightarrow> node \<Rightarrow> node \<Rightarrow> node" where
  "set_at [] n t = n"
| "set_at (b # path) n (Leaf q) = Leaf q"
| "set_at (b # path) n (Split d r lt rt) =
     (if b then Split d r lt (set_at path n rt) else Split d r (set_at path n lt) rt)"

definition split_pane :: "layout \<Rightarrow> pane_ptr \<Rightarrow> pane_ptr \<Rightarrow> split_direction \<Rightarrow> bool \<times> layout" where
  "split_pane lay target_pane new_pane direction =
     (case lay of
        None \<Rightarrow> (False, lay)
      | Some tree \<Rightarrow>
          (case find_node tree target_pane of
             None \<Rightarrow> (False, lay)
           | Some path \<Rightarrow>
               (True, Some (set_at path
                  (Split direction (1/2) (Leaf target_pane) (Leaf new_pane)) tree))))"

fun collect_panes :: "node \<Rightarrow> pane_ptr list" where
  "collect_panes (Leaf p) = [p]"
| "collect_panes (Split d r lt rt) = collect_panes lt @ collect_panes rt"

definition get_all_panes :: "layout \<Rightarrow> pane_ptr list" where
  "get_all_panes lay = (case lay of None \<Rightarrow> [] | Some tree \<Rightarrow> collect_panes tree)"

subsection \<open>Positions\<close>

text \<open>\<open>static_cast<int>\<close> of a floating value truncates towards zero, as does integer division.\<close>

definition trunc_int :: "rat \<Rightarrow> int" where
  "trunc_int q = (if 0 \<le> q then \<lfloor>q\<rfloor> else \<lceil>q\<rceil>)"

definition half_int :: "int \<Rightarrow> int" where
  "half_int w = (if 0 \<le> w then w div 2 else - ((- w) div 2))"

fun calculate_positions_recursive :: "node \<Rightarrow> rect \<Rightarrow> (pane_ptr \<times> rect) list" where
  "calculate_positions_recursive (Leaf p) area = [(p, area)]"
| "calculate_positions_recursive (Split HORIZONTAL ratio lt rt) area =
     (let split_x = rect_x area + trunc_int (of_int (rect_width area) * ratio);
          left_width = split_x - rect_x area;
          left_area = area\<lparr>rect_width := left_width\<rparr>;
          right_area = area\<lparr>rect_x := split_x, rect_width := rect_width area - left_width\<rparr>
      in calculate_positions_recursive lt left_area @ calculate_positions_recursive rt right_area)"
| "calculate_positions_recursive (Split VERTICAL ratio lt rt) area =
     (let split_y = rect_y area + trunc_int (of_int (rect_height area) * ratio);
          top_height = split_y - rect_y area;
          left_area = area\<lparr>rect_height := top_height\<rparr>;
          right_area = area\<lparr>rect_y := split_y, rect_height := rect_height area - top_height\<rparr>
      in calculate_positions_recursive lt left_area @ calculate_positions_recursive rt right_area)"

definition calculate_positions :: "layout \<Rightarrow> rect \<Rightarrow> (pane_ptr \<times> rect) list" where
  "calculate_positions lay area =
     (case lay of None \<Rightarrow> [] | Some tree \<Rightarrow> calculate_positions_recursive tree area)"

definition in_rect :: "int \<Rightarrow> int \<Rightarrow> rect \<Rightarrow> bool" where
  "in_rect x y r \<longleftrightarrow> x \<ge> rect_x r \<and> x < rect_x r + rect_width r
     \<and> y \<ge> rect_y r \<and> y < rect_y r + rect_height r"

definition get_pane_at_position :: "layout \<Rightarrow> int \<Rightarrow> int \<Rightarrow> rect \<Rightarrow> pane_ptr option" where
  "get_pane_at_position lay x y area =
     map_option fst (List.find (\<lambda>pr. in_rect x y (snd pr)) (calculate_positions lay area))"

subsection \<open>Directional navigation\<close>

definition center_x :: "rect \<Rightarrow> int" where
  "center_x r = rect_x r + half_int (rect_width r)"

definition center_y :: "rect \<Rightarrow> int" where
  "center_y r = rect_y r + half_int (rect_height r)"

text \<open>The \<open>switch\<close> on the direction: is the pane on the right side, and how far is it?\<close>

definition correct_direction :: "char \<Rightarrow> int \<Rightarrow> int \<Rightarrow> bool" where
  "correct_direction direction dx dy =
     (if direction = CHR ''h'' then dx < 0
      else if direction = CHR ''l'' then dx > 0
      else if direction = CHR ''k'' then dy < 0
      else if direction = CHR ''j'' then dy > 0
      else False)"

definition direction_distance :: "char \<Rightarrow> int \<Rightarrow> int \<Rightarrow> int" where
  "direction_distance direction dx dy =
     (if direction = CHR ''h'' then - dx + \<bar>dy\<bar>
      else if direction = CHR ''l'' then dx + \<bar>dy\<bar>
      else if direction = CHR ''k'' then - dy + \<bar>dx\<bar>
      else if direction = CHR ''j'' then dy + \<bar>dx\<bar>
      else 0)"

definition INT_MAX :: int where "INT_MAX = 2147483647"

definition navigation_area :: rect where
  "navigation_area = \<lparr>rect_x = 0, rect_y = 0, rect_width = 100, rect_height = 100\<rparr>"

definition consider_pane ::
  "pane_ptr \<Rightarrow> rect \<Rightarrow> char \<Rightarrow> pane_ptr option \<times> int \<Rightarrow> pane_ptr \<times> rect \<Rightarrow> pane_ptr option \<times> int" where
  "consider_pane current current_rect direction acc pr =
     (case acc of (best, best_distance) \<Rightarrow>
        if fst pr = current then (best, best_distance)
        else
          let dx = center_x (snd pr) - center_x current_rect;
              dy = center_y (snd pr) - center_y current_rect;
              distance = direction_distance direction dx dy
          in if correct_direction direction dx dy \<and> distance < best_distance
             then (Some (fst pr), distance) else (best, best_distance))"

definition get_pane_in_direction :: "layout \<Rightarrow> pane_ptr \<Rightarrow> char \<Rightarrow> pane_ptr option" where
  "get_pane_in_direction lay current direction =
     (let positions = calculate_positions lay navigation_area in
      case List.find (\<lambda>pr. fst pr = current) positions of
        None \<Rightarrow> None
      | Some (_, current_rect) \<Rightarrow>
          fst (foldl (consider_pane current current_rect direction) (None, INT_MAX) positions))"

subsection \<open>Snapshots\<close>

datatype snap_node =
    SnapLeaf nat
  | SnapSplit split_direction rat snap_node snap_node

record snapshot =
  snap_root :: "snap_node option"
  leaf_count :: nat

fun clone_node :: "node \<Rightarrow> nat \<Rightarrow> snap_node \<times> nat" where
  "clone_node (Leaf p) leaf_counter = (SnapLeaf leaf_counter, Suc leaf_counter)"
| "clone_node (Split d r lt rt) leaf_counter =
     (case clone_node lt leaf_counter of
        (lt', c1) \<Rightarrow> (case clone_node rt c1 of (rt', c2) \<Rightarrow> (SnapSplit d r lt' rt', c2)))"

definition take_snapshot :: "layout \<Rightarrow> snapshot" where
  "take_snapshot lay =
     (case lay of
        None \<Rightarrow> \<lparr>snap_root = None, leaf_count = 0\<rparr>
      | Some tree \<Rightarrow>
          (case clone_node tree 0 of (n, c) \<Rightarrow> \<lparr>snap_root = Some n, leaf_count = c\<rparr>))"

fun build_node :: "pane_ptr list \<Rightarrow> snap_node \<Rightarrow> node option" where
  "build_node leaves (SnapLeaf i) =
     (if i \<ge> length leaves then None else Some (Leaf (leaves ! i)))"
| "build_node leaves (SnapSplit d r lt rt) =
     (case (build_node leaves lt, build_node leaves rt) of
        (Some lt', Some rt') \<Rightarrow> Some (Split d r lt' rt')
      | _ \<Rightarrow> None)"

definition restore_from_snapshot :: "layout \<Rightarrow> snapshot \<Rightarrow> pane_ptr list \<Rightarrow> bool \<times> layout" where
  "restore_from_snapshot lay snap leaves =
     (case snap_root snap of
        None \<Rightarrow> (leaves = [], None)
      | Some n \<Rightarrow>
          if leaf_count snap \<noteq> length leaves then (False, lay)
          else (case build_node leaves n of
                  None \<Rightarrow> (False, lay)
                | Some tree \<Rightarrow> (True, Some tree)))"

section \<open>Searching and splitting\<close>

lemma find_node_None_iff: "find_node t p = None \<longleftrightarrow> p \<notin> set (collect_panes t)"
  by (induction t) (auto split: option.splits)

lemma collect_panes_ne [simp]: "collect_panes t \<noteq> []"
  by (induction t) auto

text \<open>A split puts the new pane directly after the first occurrence of its target.\<close>

fun insert_after :: "'a \<Rightarrow> 'a \<Rightarrow> 'a list \<Rightarrow> 'a list" where
  "insert_after x y [] = []"
| "insert_after x y (z # zs) = (if z = x then z # y # zs else z # insert_after x y zs)"

lemma insert_after_append:
  "insert_after x y (xs @ ys) =
     (if x \<in> set xs then insert_after x y xs @ ys else xs @ insert_after x y ys)"
  by (induction xs) auto

lemma set_insert_after: "set (insert_after x y xs) = (if x \<in> set xs then insert y (set xs) else set xs)"
  by (induction xs) auto

lemma distinct_insert_after: "y \<notin> set xs \<Longrightarrow> distinct (insert_after x y xs) = distinct xs"
  by (induction xs) (auto simp: set_insert_after)

lemma length_insert_after: "x \<in> set xs \<Longrightarrow> length (insert_after x y xs) = Suc (length xs)"
  by (induction xs) auto

lemma collect_set_at:
  "find_node t p = Some path \<Longrightarrow>
     collect_panes (set_at path (Split d r (Leaf p) (Leaf q)) t) = insert_after p q (collect_panes t)"
proof (induction t arbitrary: path)
  case (Split d' r' lt rt)
  show ?case
  proof (cases "find_node lt p")
    case None
    then have "p \<notin> set (collect_panes lt)" by (simp add: find_node_None_iff)
    then show ?thesis using None Split by (auto simp: insert_after_append)
  next
    case (Some a)
    then have "p \<in> set (collect_panes lt)" by (metis find_node_None_iff option.distinct(1))
    then show ?thesis using Some Split by (auto simp: insert_after_append)
  qed
qed (auto split: if_splits)

lemma insert_after_notin: "x \<notin> set xs \<Longrightarrow> insert_after x y xs = xs"
  by (induction xs) auto

lemma split_pane_panes:
  "split_pane lay target new dir = (ok, lay') \<Longrightarrow>
     ok = (target \<in> set (get_all_panes lay)) \<and>
     get_all_panes lay' = insert_after target new (get_all_panes lay)"
proof (cases lay)
  case (Some t)
  assume *: "split_pane lay target new dir = (ok, lay')"
  show ?thesis
  proof (cases "find_node t target")
    case None
    then have "target \<notin> set (collect_panes t)" by (simp add: find_node_None_iff)
    with * Some None show ?thesis by (auto simp: split_pane_def get_all_panes_def insert_after_notin)
  next
    case (Some path)
    then have "target \<in> set (collect_panes t)" by (metis find_node_None_iff option.distinct(1))
    with * \<open>lay = Some t\<close> Some show ?thesis by (auto simp: split_pane_def get_all_panes_def collect_set_at)
  qed
qed (auto simp: split_pane_def get_all_panes_def)

section \<open>Positions tile the area\<close>

fun ratios_ok :: "node \<Rightarrow> bool" where
  "ratios_ok (Leaf p) = True"
| "ratios_ok (Split d r lt rt) = (0 \<le> r \<and> r \<le> 1 \<and> ratios_ok lt \<and> ratios_ok rt)"

definition layout_ratios_ok :: "layout \<Rightarrow> bool" where
  "layout_ratios_ok lay = (case lay of None \<Rightarrow> True | Some t \<Rightarrow> ratios_ok t)"

lemma ratios_ok_set_at: "ratios_ok t \<Longrightarrow> ratios_ok n \<Longrightarrow> ratios_ok (set_at path n t)"
  by (induction path n t rule: set_at.induct) auto

lemma split_pane_ratios:
  "layout_ratios_ok lay \<Longrightarrow> split_pane lay p q d = (ok, lay') \<Longrightarrow> layout_ratios_ok lay'"
  by (auto simp: split_pane_def layout_ratios_ok_def ratios_ok_set_at split: option.splits)

lemma trunc_int_bounds:
  assumes "0 \<le> w" "0 \<le> r" "r \<le> 1"
  shows "0 \<le> trunc_int (of_int w * r)" "trunc_int (of_int w * r) \<le> w"
proof -
  have nn: "0 \<le> of_int w * r" using assms by simp
  then show "0 \<le> trunc_int (of_int w * r)" by (simp add: trunc_int_def)
  have "of_int w * r \<le> of_int w * 1" using assms by (intro mult_left_mono) simp_all
  then have "\<lfloor>of_int w * r\<rfloor> \<le> \<lfloor>of_int w :: rat\<rfloor>" by (intro floor_mono) simp
  then show "trunc_int (of_int w * r) \<le> w" using nn by (simp add: trunc_int_def)
qed

definition sub_rect :: "rect \<Rightarrow> rect \<Rightarrow> bool" where
  "sub_rect r area \<longleftrightarrow> rect_x area \<le> rect_x r \<and> rect_y area \<le> rect_y r
     \<and> 0 \<le> rect_width r \<and> 0 \<le> rect_height r
     \<and> rect_x r + rect_width r \<le> rect_x area + rect_width area
     \<and> rect_y r + rect_height r \<le> rect_y area + rect_height area"

lemma sub_rect_trans: "sub_rect a b \<Longrightarrow> sub_rect b c \<Longrightarrow> sub_rect a c"
  by (auto simp: sub_rect_def)

definition left_part :: "split_direction \<Rightarrow> rat \<Rightarrow> rect \<Rightarrow> rect" where
  "left_part d r area = (case d of
      HORIZONTAL \<Rightarrow> area\<lparr>rect_width := trunc_int (of_int (rect_width area) * r)\<rparr>
    | VERTICAL \<Rightarrow> area\<lparr>rect_height := trunc_int (of_int (rect_height area) * r)\<rparr>)"

definition right_part :: "split_direction \<Rightarrow> rat \<Rightarrow> rect \<Rightarrow> rect" where
  "right_part d r area = (case d of
      HORIZONTAL \<Rightarrow> (let k = trunc_int (of_int (rect_width area) * r) in
         area\<lparr>rect_x := rect_x area + k, rect_width := rect_width area - k\<rparr>)
    | VERTICAL \<Rightarrow> (let k = trunc_int (of_int (rect_height area) * r) in
         area\<lparr>rect_y := rect_y area + k, rect_height := rect_height area - k\<rparr>))"

lemma positions_Split:
  "calculate_positions_recursive (Split d r lt rt) area =
     calculate_positions_recursive lt (left_part d r area)
       @ calculate_positions_recursive rt (right_part d r area)"
  by (cases d) (auto simp: Let_def left_part_def right_part_def)

lemma parts_sub_rect:
  assumes "0 \<le> rect_width area" "0 \<le> rect_height area" "0 \<le> r" "r \<le> 1"
  shows "sub_rect (left_part d r area) area" "sub_rect (right_part d r area) area"
  using trunc_int_bounds [OF assms(1,3,4)] trunc_int_bounds [OF assms(2,3,4)] assms(1,2)
  by (cases d; simp add: sub_rect_def left_part_def right_part_def Let_def)+

lemma parts_cover:
  assumes "0 \<le> rect_width area" "0 \<le> rect_height area" "0 \<le> r" "r \<le> 1"
  shows "in_rect x y area \<longleftrightarrow> in_rect x y (left_part d r area) \<or> in_rect x y (right_part d r area)"
    and "\<not> (in_rect x y (left_part d r area) \<and> in_rect x y (right_part d r area))"
  using trunc_int_bounds [OF assms(1,3,4)] trunc_int_bounds [OF assms(2,3,4)] assms(1,2)
  by (cases d; auto simp: in_rect_def left_part_def right_part_def Let_def)+

lemma positions_sub_rect:
  "ratios_ok t \<Longrightarrow> 0 \<le> rect_width area \<Longrightarrow> 0 \<le> rect_height area \<Longrightarrow>
     pr \<in> set (calculate_positions_recursive t area) \<Longrightarrow> sub_rect (snd pr) area"
proof (induction t arbitrary: area)
  case (Leaf p)
  then show ?case by (auto simp: sub_rect_def)
next
  case (Split d r lt rt)
  from Split.prems have r: "0 \<le> r" "r \<le> 1" by auto
  note parts = parts_sub_rect [OF Split.prems(2,3) r]
  from Split.prems(4) consider
      "pr \<in> set (calculate_positions_recursive lt (left_part d r area))"
    | "pr \<in> set (calculate_positions_recursive rt (right_part d r area))"
    unfolding positions_Split by auto
  then show ?case
  proof cases
    case 1
    with Split.IH(1) [of "left_part d r area"] Split.prems(1) parts(1) [of d]
    have "sub_rect (snd pr) (left_part d r area)" by (simp add: sub_rect_def)
    then show ?thesis using parts(1) by (rule sub_rect_trans)
  next
    case 2
    with Split.IH(2) [of "right_part d r area"] Split.prems(1) parts(2) [of d]
    have "sub_rect (snd pr) (right_part d r area)" by (simp add: sub_rect_def)
    then show ?thesis using parts(2) by (rule sub_rect_trans)
  qed
qed

lemma positions_tile_node:
  "ratios_ok t \<Longrightarrow> 0 \<le> rect_width area \<Longrightarrow> 0 \<le> rect_height area \<Longrightarrow>
     length (filter (\<lambda>pr. in_rect x y (snd pr)) (calculate_positions_recursive t area)) =
       (if in_rect x y area then 1 else 0)"
proof (induction t arbitrary: area)
  case (Split d r lt rt)
  from Split.prems have r: "0 \<le> r" "r \<le> 1" by auto
  note parts = parts_sub_rect [OF Split.prems(2,3) r, of d]
  from parts Split.prems(1) have
    "length (filter (\<lambda>pr. in_rect x y (snd pr)) (calculate_positions_recursive lt (left_part d r area)))
       = (if in_rect x y (left_part d r area) then 1 else 0)"
    "length (filter (\<lambda>pr. in_rect x y (snd pr)) (calculate_positions_recursive rt (right_part d r area)))
       = (if in_rect x y (right_part d r area) then 1 else 0)"
    using Split.IH(1) [of "left_part d r area"] Split.IH(2) [of "right_part d r area"]
    by (simp_all add: sub_rect_def)
  then show ?case
    using parts_cover [OF Split.prems(2,3) r, of x y d] by (auto simp: positions_Split)
qed simp

lemma positions_panes:
  "map fst (calculate_positions_recursive t area) = collect_panes t"
  by (induction t arbitrary: area) (simp_all add: positions_Split)

lemma calculate_positions_panes: "map fst (calculate_positions lay area) = get_all_panes lay"
  by (cases lay) (simp_all add: calculate_positions_def get_all_panes_def positions_panes)


text \<open>
  \<^bold>\<open>C1\<close> Tiling: with ratios between 0 and 1 and a non-negative area, every point of the area lies in the
  rectangle of exactly one pane, and a point outside the area in none.
\<close>

theorem positions_tile_area:
  assumes "layout_ratios_ok lay" "lay \<noteq> None" "0 \<le> rect_width area" "0 \<le> rect_height area"
  shows "length (filter (\<lambda>pr. in_rect x y (snd pr)) (calculate_positions lay area)) =
      (if in_rect x y area then 1 else 0)"
  using assms positions_tile_node
  by (cases lay) (auto simp: calculate_positions_def layout_ratios_ok_def)

definition demo_layout :: layout where
  "demo_layout = Some (Split HORIZONTAL (1/2) (Leaf 1) (Split VERTICAL (1/2) (Leaf 2) (Leaf 3)))"

theorem positions_tile_area_witness:
  "length (filter (\<lambda>pr. in_rect 79 23 (snd pr))
      (calculate_positions demo_layout \<lparr>rect_x = 0, rect_y = 0, rect_width = 80, rect_height = 24\<rparr>)) = 1"
  using positions_tile_area [of demo_layout "\<lparr>rect_x = 0, rect_y = 0, rect_width = 80, rect_height = 24\<rparr>" 79 23]
  by (simp add: demo_layout_def layout_ratios_ok_def in_rect_def)

section \<open>Hit testing\<close>

lemma find_Some_filter: "List.find P xs = Some x \<Longrightarrow> length (filter P xs) = 1 \<Longrightarrow> filter P xs = [x]"
  by (induction xs) (auto split: if_splits simp: filter_empty_conv)

lemma find_None_filter: "List.find P xs = None \<longleftrightarrow> filter P xs = []"
  by (induction xs) auto

lemma get_pane_at_position_iff:
  assumes "layout_ratios_ok lay" "lay \<noteq> None" "0 \<le> rect_width area" "0 \<le> rect_height area"
  shows "get_pane_at_position lay x y area \<noteq> None \<longleftrightarrow> in_rect x y area"
proof -
  have "length (filter (\<lambda>pr. in_rect x y (snd pr)) (calculate_positions lay area)) =
      (if in_rect x y area then 1 else 0)"
    using assms positions_tile_node
    by (cases lay) (auto simp: calculate_positions_def layout_ratios_ok_def)
  then show ?thesis
    by (auto simp: get_pane_at_position_def find_None_filter split: if_splits)
qed

section \<open>Directional navigation finds a nearest pane\<close>

definition nav_candidate :: "pane_ptr \<Rightarrow> rect \<Rightarrow> char \<Rightarrow> pane_ptr \<times> rect \<Rightarrow> bool" where
  "nav_candidate current cr direction pr \<longleftrightarrow> fst pr \<noteq> current
     \<and> correct_direction direction (center_x (snd pr) - center_x cr) (center_y (snd pr) - center_y cr)"

definition nav_distance :: "rect \<Rightarrow> char \<Rightarrow> pane_ptr \<times> rect \<Rightarrow> int" where
  "nav_distance cr direction pr =
     direction_distance direction (center_x (snd pr) - center_x cr) (center_y (snd pr) - center_y cr)"

lemma consider_pane_alt:
  "consider_pane cur cr d (b, bd) pr =
     (if nav_candidate cur cr d pr \<and> nav_distance cr d pr < bd
      then (Some (fst pr), nav_distance cr d pr) else (b, bd))"
  by (auto simp: consider_pane_def nav_candidate_def nav_distance_def Let_def)

lemma nav_fold:
  "foldl (consider_pane cur cr d) (b, bd) prs = (b', bd') \<Longrightarrow>
     bd' \<le> bd \<and> (\<forall>pr\<in>set prs. nav_candidate cur cr d pr \<longrightarrow> bd' \<le> nav_distance cr d pr) \<and>
     ((b', bd') = (b, bd) \<or>
      (\<exists>pr\<in>set prs. nav_candidate cur cr d pr \<and> b' = Some (fst pr) \<and> bd' = nav_distance cr d pr))"
proof (induction prs arbitrary: b bd)
  case (Cons pr prs)
  show ?case
  proof (cases "nav_candidate cur cr d pr \<and> nav_distance cr d pr < bd")
    case True
    with Cons.prems have
      "foldl (consider_pane cur cr d) (Some (fst pr), nav_distance cr d pr) prs = (b', bd')"
      by (simp add: consider_pane_alt)
    from Cons.IH [OF this] True show ?thesis by auto
  next
    case False
    with Cons.prems have "foldl (consider_pane cur cr d) (b, bd) prs = (b', bd')"
      by (auto simp: consider_pane_alt)
    from Cons.IH [OF this] False show ?thesis by auto
  qed
qed auto

lemma get_pane_in_direction_mem:
  assumes "get_pane_in_direction lay cur d = Some p"
  shows "p \<in> set (get_all_panes lay)"
proof -
  let ?ps = "calculate_positions lay navigation_area"
  from assms obtain c cr where c: "List.find (\<lambda>pr. fst pr = cur) ?ps = Some (c, cr)"
    by (auto simp: get_pane_in_direction_def Let_def split: option.splits)
  obtain b' bd' where f: "foldl (consider_pane cur cr d) (None, INT_MAX) ?ps = (b', bd')"
    by (metis surj_pair)
  have "b' = Some p" using assms c f by (simp add: get_pane_in_direction_def Let_def)
  with nav_fold [OF f] have "p \<in> fst ` set ?ps" by auto
  then show ?thesis by (metis calculate_positions_panes list.set_map)
qed

lemma nav_distance_small:
  assumes "sub_rect r navigation_area" "sub_rect cr navigation_area"
  shows "nav_distance cr d (p, r) < INT_MAX"
proof -
  have c: "0 \<le> center_x q \<and> center_x q \<le> 100 \<and> 0 \<le> center_y q \<and> center_y q \<le> 100"
    if "sub_rect q navigation_area" for q
    using that by (auto simp: sub_rect_def navigation_area_def center_x_def center_y_def half_int_def)
  show ?thesis using c [OF assms(1)] c [OF assms(2)]
    by (auto simp: nav_distance_def direction_distance_def INT_MAX_def abs_if)
qed

text \<open>
  Navigation: from a pane that is in the layout, \<open>get_pane_in_direction\<close> answers with no pane
  exactly when no other pane has its centre strictly on that side; otherwise its answer is such
  a pane, and no such pane is nearer in the metric of the code.
\<close>

lemma get_pane_in_direction_nearest:
  assumes "layout_ratios_ok lay"
    and cur: "List.find (\<lambda>pr. fst pr = cur) (calculate_positions lay navigation_area) = Some (cur, cr)"
  shows "case get_pane_in_direction lay cur d of
      None \<Rightarrow> \<forall>pr\<in>set (calculate_positions lay navigation_area). \<not> nav_candidate cur cr d pr
    | Some p \<Rightarrow> \<exists>r. (p, r) \<in> set (calculate_positions lay navigation_area)
        \<and> nav_candidate cur cr d (p, r)
        \<and> (\<forall>pr\<in>set (calculate_positions lay navigation_area).
             nav_candidate cur cr d pr \<longrightarrow> nav_distance cr d (p, r) \<le> nav_distance cr d pr)"
proof -
  let ?ps = "calculate_positions lay navigation_area"
  obtain b' bd' where f: "foldl (consider_pane cur cr d) (None, INT_MAX) ?ps = (b', bd')"
    by (metis surj_pair)
  have res: "get_pane_in_direction lay cur d = b'"
    using cur f by (simp add: get_pane_in_direction_def)
  have "sub_rect (snd pr) navigation_area" if "pr \<in> set ?ps" for pr
    using that assms(1) positions_sub_rect [of _ navigation_area pr]
    by (cases lay) (auto simp: calculate_positions_def layout_ratios_ok_def navigation_area_def)
  moreover have "(cur, cr) \<in> set ?ps" using cur by (metis find_Some_iff nth_mem)
  ultimately have small: "\<forall>pr\<in>set ?ps. nav_distance cr d pr < INT_MAX"
    by (metis nav_distance_small prod.collapse snd_conv)
  note n = nav_fold [OF f]
  show ?thesis
  proof (cases b')
    case None
    then have "bd' = INT_MAX" using n by auto
    then show ?thesis using None n small res by fastforce
  next
    case (Some p)
    then show ?thesis using n res by fastforce
  qed
qed

lemma get_pane_in_direction_nearest_example:
  "get_pane_in_direction demo_layout 1 (CHR ''l'') = Some 2 \<and>
   nav_candidate 1 \<lparr>rect_x = 0, rect_y = 0, rect_width = 50, rect_height = 100\<rparr> (CHR ''l'')
     (2, \<lparr>rect_x = 50, rect_y = 0, rect_width = 50, rect_height = 50\<rparr>)"
proof -
  let ?cr = "\<lparr>rect_x = 0, rect_y = 0, rect_width = 50, rect_height = 100\<rparr>"
  have t: "trunc_int (of_int 100 * (1/2)) = 50" by (simp add: trunc_int_def)
  have p: "calculate_positions demo_layout navigation_area =
     [(1, ?cr), (2, \<lparr>rect_x = 50, rect_y = 0, rect_width = 50, rect_height = 50\<rparr>),
      (3, \<lparr>rect_x = 50, rect_y = 50, rect_width = 50, rect_height = 50\<rparr>)]"
    using t by (simp add: demo_layout_def calculate_positions_def navigation_area_def Let_def)
  have r: "layout_ratios_ok demo_layout" by (simp add: demo_layout_def layout_ratios_ok_def)
  have c: "List.find (\<lambda>pr. fst pr = 1) (calculate_positions demo_layout navigation_area) = Some (1, ?cr)"
    by (simp add: p)
  have e: "get_pane_in_direction demo_layout 1 (CHR ''l'') = Some 2"
    by (simp add: get_pane_in_direction_def p consider_pane_alt nav_candidate_def nav_distance_def
        correct_direction_def direction_distance_def center_x_def center_y_def half_int_def INT_MAX_def)
  show ?thesis using get_pane_in_direction_nearest [OF r c, of "CHR ''l''"] e by (auto simp: p)
qed

section \<open>Snapshots restore\<close>

fun shape_eq :: "node \<Rightarrow> node \<Rightarrow> bool" where
  "shape_eq (Leaf p) (Leaf q) = True"
| "shape_eq (Split d r a b) (Split d' r' a' b') = (d = d' \<and> r = r' \<and> shape_eq a a' \<and> shape_eq b b')"
| "shape_eq _ _ = False"

lemma clone_count: "clone_node t c = (s, c') \<Longrightarrow> c' = c + length (collect_panes t)"
  by (induction t arbitrary: c s c') (auto split: prod.splits, fastforce)

lemma build_clone:
  "clone_node t c = (s, c') \<Longrightarrow> c' \<le> length leaves \<Longrightarrow>
     \<exists>t'. build_node leaves s = Some t' \<and> shape_eq t t'
        \<and> collect_panes t' = take (c' - c) (drop c leaves)"
proof (induction t arbitrary: c s c')
  case (Leaf p)
  then show ?case by (auto simp: take_Suc_conv_app_nth hd_drop_conv_nth take_Suc)
next
  case (Split d r lt rt)
  obtain lt' c1 where l: "clone_node lt c = (lt', c1)" by fastforce
  obtain rt' where rr: "clone_node rt c1 = (rt', c')" and s: "s = SnapSplit d r lt' rt'"
    using Split.prems(1) l by (auto split: prod.splits)
  have c1: "c1 = c + length (collect_panes lt)" "c' = c1 + length (collect_panes rt)"
    using clone_count [OF l] clone_count [OF rr] by auto
  from Split.IH(1) [OF l] Split.prems(2) c1 obtain tl where
    tl: "build_node leaves lt' = Some tl" "shape_eq lt tl" "collect_panes tl = take (c1 - c) (drop c leaves)"
    by auto
  from Split.IH(2) [OF rr Split.prems(2)] obtain tr where
    tr: "build_node leaves rt' = Some tr" "shape_eq rt tr" "collect_panes tr = take (c' - c1) (drop c1 leaves)"
    by auto
  have "take (c1 - c) (drop c leaves) @ take (c' - c1) (drop c1 leaves) = take (c' - c) (drop c leaves)"
    using c1 by (simp add: take_add add.commute)
  then show ?case using tl tr s by simp
qed

lemma shape_eq_panes: "shape_eq a b \<Longrightarrow> collect_panes a = collect_panes b \<Longrightarrow> a = b"
proof (induction a b rule: shape_eq.induct)
  case (2 d r a b d' r' a' b')
  have "length (collect_panes a) = length (collect_panes a')" if "shape_eq a a'" for a a'
    using that by (induction a a' rule: shape_eq.induct) auto
  with 2 show ?case by (auto simp: append_eq_append_conv)
qed auto

lemma restore_snapshot_gen:
  assumes "lay = Some t" "length leaves = length (get_all_panes lay)"
  shows "\<exists>t'. restore_from_snapshot old (take_snapshot lay) leaves = (True, Some t')
      \<and> shape_eq t t' \<and> collect_panes t' = leaves \<and> (leaves = get_all_panes lay \<longrightarrow> Some t' = lay)"
proof -
  obtain s c where s: "clone_node t 0 = (s, c)" by fastforce
  from clone_count [OF s] assms have c: "c = length leaves" by (simp add: get_all_panes_def)
  from build_clone [OF s, of leaves] c obtain t' where
    "build_node leaves s = Some t'" "shape_eq t t'" "collect_panes t' = leaves" by auto
  moreover from this have "leaves = get_all_panes lay \<longrightarrow> t = t'"
    using assms(1) by (auto simp: get_all_panes_def intro: shape_eq_panes)
  ultimately show ?thesis using assms s c
    by (auto simp: restore_from_snapshot_def take_snapshot_def)
qed

text \<open>
  Snapshot round trip: restoring the snapshot of a layout onto as many panes as it had succeeds, keeps
  every split direction and ratio, and hands out the given panes in order; with the layout's own
  panes it gives the layout back.
\<close>

lemma restore_snapshot:
  assumes "lay = Some t" "length leaves = length (get_all_panes lay)"
  shows "\<exists>t'. restore_from_snapshot old (take_snapshot lay) leaves = (True, Some t')
      \<and> shape_eq t t' \<and> collect_panes t' = leaves \<and> (leaves = get_all_panes lay \<longrightarrow> Some t' = lay)"
  using assms by (rule restore_snapshot_gen)

lemma restore_snapshot_example:
  "\<exists>t'. restore_from_snapshot None (take_snapshot demo_layout) [7, 8, 9] = (True, Some t')
      \<and> collect_panes t' = [7, 8, 9]"
  using restore_snapshot [of demo_layout _ "[7, 8, 9]" None]
  by (simp add: demo_layout_def get_all_panes_def) blast

text \<open>
  Splitting: \<open>split_pane\<close> succeeds exactly when the target is in the layout; then the new pane
  follows its target in the pane order, every other pane keeps its place and the ratios stay
  between 0 and 1; otherwise nothing changes.
\<close>

lemma split_pane_correct:
  assumes "layout_ratios_ok lay" "split_pane lay target new dir = (ok, lay')"
  shows "ok = (target \<in> set (get_all_panes lay))
      \<and> get_all_panes lay' = insert_after target new (get_all_panes lay)
      \<and> layout_ratios_ok lay' \<and> (\<not> ok \<longrightarrow> lay' = lay)"
proof -
  have "\<not> ok \<longrightarrow> lay' = lay" using assms(2) by (auto simp: split_pane_def split: option.splits)
  then show ?thesis using split_pane_panes [OF assms(2)] split_pane_ratios [OF assms] by blast
qed

lemma split_pane_correct_example:
  "get_all_panes (snd (split_pane demo_layout 2 9 VERTICAL)) = [1, 2, 9, 3]"
  using split_pane_correct [of demo_layout 2 9 VERTICAL "fst (split_pane demo_layout 2 9 VERTICAL)"
      "snd (split_pane demo_layout 2 9 VERTICAL)"]
  by (simp add: demo_layout_def layout_ratios_ok_def get_all_panes_def)

end
