(* ===== verification/Tui_Layout_Heap.thy ===== *)
theory Tui_Layout_Heap
  imports Tui_Layout
begin

text \<open>
  \<open>Layout::remove_pane\<close> (\<open>modules/tui/src/managers/layout.cpp\<close>) on an explicit heap.

  The function promotes the sibling of the removed leaf with
  \<open>*parent = std::move(*promote_ptr); promote_ptr.reset();\<close> where \<open>promote_ptr\<close> refers to a
  member of \<open>*parent\<close>, so the outcome depends on the order in which the implicit move assignment
  of \<open>Layout::Node\<close> moves the members and frees what they owned. A node lives at an address of
  the heap; \<open>delete\<close> clears the address; an access to a cleared address is undefined behaviour,
  the value \<open>UseAfterFree\<close>. The recursions over pointers carry fuel; \<open>OutOfFuel\<close> never occurs on
  a heap that holds a tree once the fuel exceeds the height of the tree.
\<close>

section \<open>Heap, errors and primitive operations\<close>

type_synonym addr = nat

record hnode =
  h_pane :: "pane_ptr option"
  h_split_dir :: split_direction
  h_left :: "addr option"
  h_right :: "addr option"
  h_split_ratio :: rat

type_synonym heap = "addr \<Rightarrow> hnode option"

datatype heap_error = UseAfterFree addr | OutOfFuel

definition is_leaf :: "hnode \<Rightarrow> bool" where
  "is_leaf n \<longleftrightarrow> h_pane n \<noteq> None"

definition deref :: "heap \<Rightarrow> addr \<Rightarrow> heap_error + hnode" where
  "deref h a = (case h a of None \<Rightarrow> Inl (UseAfterFree a) | Some n \<Rightarrow> Inr n)"

definition heap_bind :: "'e + 'a \<Rightarrow> ('a \<Rightarrow> 'e + 'b) \<Rightarrow> 'e + 'b" where
  "heap_bind m f = (case m of Inl e \<Rightarrow> Inl e | Inr x \<Rightarrow> f x)"

lemma heap_bind_Inr [simp]: "heap_bind (Inr x) f = f x"
  by (simp add: heap_bind_def)

lemma heap_bind_Inl [simp]: "heap_bind (Inl e) f = Inl e"
  by (simp add: heap_bind_def)

text \<open>
  Destroying a \<open>std::unique_ptr<Node>\<close>: the members of the node are destroyed in reverse order
  of declaration (so the right child before the left one), then its storage is released.
\<close>

fun destroy :: "nat \<Rightarrow> heap \<Rightarrow> addr option \<Rightarrow> heap_error + heap" where
  "destroy n h None = Inr h"
| "destroy 0 h (Some a) = Inl OutOfFuel"
| "destroy (Suc n) h (Some a) =
     heap_bind (deref h a) (\<lambda>nd.
     heap_bind (destroy n h (h_right nd)) (\<lambda>h1.
     heap_bind (destroy n h1 (h_left nd)) (\<lambda>h2.
     Inr (h2(a := None)))))"

text \<open>
  The implicitly defined \<open>Node::operator=(Node&&)\<close> assigns the members in the order of their
  declaration: \<open>pane\<close>, \<open>split_dir\<close>, \<open>left\<close>, \<open>right\<close>, \<open>split_ratio\<close>. The two owning pointers are
  moved by \<open>reset(source.release())\<close>: the source pointer is emptied, the target pointer set, and
  what the target owned before is destroyed.
\<close>

definition assign_pane :: "heap \<Rightarrow> addr \<Rightarrow> addr \<Rightarrow> heap_error + heap" where
  "assign_pane h dst src =
     heap_bind (deref h src) (\<lambda>s. heap_bind (deref h dst) (\<lambda>d. Inr (h(dst \<mapsto> d\<lparr>h_pane := h_pane s\<rparr>))))"

definition assign_split_dir :: "heap \<Rightarrow> addr \<Rightarrow> addr \<Rightarrow> heap_error + heap" where
  "assign_split_dir h dst src =
     heap_bind (deref h src) (\<lambda>s. heap_bind (deref h dst) (\<lambda>d. Inr (h(dst \<mapsto> d\<lparr>h_split_dir := h_split_dir s\<rparr>))))"

definition move_left :: "nat \<Rightarrow> heap \<Rightarrow> addr \<Rightarrow> addr \<Rightarrow> heap_error + heap" where
  "move_left n h dst src =
     heap_bind (deref h src) (\<lambda>s.
       let p = h_left s; h1 = h(src \<mapsto> s\<lparr>h_left := None\<rparr>) in
       heap_bind (deref h1 dst) (\<lambda>d.
         destroy n (h1(dst \<mapsto> d\<lparr>h_left := p\<rparr>)) (h_left d)))"

definition move_right :: "nat \<Rightarrow> heap \<Rightarrow> addr \<Rightarrow> addr \<Rightarrow> heap_error + heap" where
  "move_right n h dst src =
     heap_bind (deref h src) (\<lambda>s.
       let p = h_right s; h1 = h(src \<mapsto> s\<lparr>h_right := None\<rparr>) in
       heap_bind (deref h1 dst) (\<lambda>d.
         destroy n (h1(dst \<mapsto> d\<lparr>h_right := p\<rparr>)) (h_right d)))"

definition assign_split_ratio :: "heap \<Rightarrow> addr \<Rightarrow> addr \<Rightarrow> heap_error + heap" where
  "assign_split_ratio h dst src =
     heap_bind (deref h src) (\<lambda>s. heap_bind (deref h dst) (\<lambda>d. Inr (h(dst \<mapsto> d\<lparr>h_split_ratio := h_split_ratio s\<rparr>))))"

definition move_assign :: "nat \<Rightarrow> heap \<Rightarrow> addr \<Rightarrow> addr \<Rightarrow> heap_error + heap" where
  "move_assign n h dst src =
     heap_bind (assign_pane h dst src) (\<lambda>h1.
     heap_bind (assign_split_dir h1 dst src) (\<lambda>h2.
     heap_bind (move_left n h2 dst src) (\<lambda>h3.
     heap_bind (move_right n h3 dst src) (\<lambda>h4.
     assign_split_ratio h4 dst src))))"

section \<open>Removing a pane\<close>

definition leaf_of :: "heap \<Rightarrow> addr option \<Rightarrow> pane_ptr \<Rightarrow> heap_error + bool" where
  "leaf_of h c target =
     (case c of None \<Rightarrow> Inr False
      | Some a \<Rightarrow> heap_bind (deref h a) (\<lambda>nd. Inr (is_leaf nd \<and> h_pane nd = Some target)))"

fun find_parent :: "nat \<Rightarrow> heap \<Rightarrow> addr option \<Rightarrow> pane_ptr \<Rightarrow> heap_error + addr option" where
  "find_parent n h None target = Inr None"
| "find_parent 0 h (Some a) target = Inl OutOfFuel"
| "find_parent (Suc n) h (Some a) target =
     heap_bind (deref h a) (\<lambda>nd.
       if is_leaf nd then Inr None
       else heap_bind (leaf_of h (h_left nd) target) (\<lambda>in_left.
         if in_left then Inr (Some a)
         else heap_bind (leaf_of h (h_right nd) target) (\<lambda>in_right.
           if in_right then Inr (Some a)
           else heap_bind (find_parent n h (h_left nd) target) (\<lambda>r.
             case r of Some b \<Rightarrow> Inr (Some b)
             | None \<Rightarrow> find_parent n h (h_right nd) target))))"

text \<open>
  \<open>heap_remove_pane\<close> returns the result of the call, the new heap and the new \<open>root_\<close>.
  \<open>promote_ptr.reset()\<close> destroys what that member of the parent owns \<^emph>\<open>after\<close> the assignment.
\<close>

definition heap_remove_pane ::
  "nat \<Rightarrow> heap \<Rightarrow> addr option \<Rightarrow> pane_ptr \<Rightarrow> heap_error + (bool \<times> heap \<times> addr option)" where
  "heap_remove_pane n h tree pane =
     (case tree of
        None \<Rightarrow> Inr (False, h, None)
      | Some r \<Rightarrow>
          heap_bind (deref h r) (\<lambda>rn.
            if is_leaf rn \<and> h_pane rn = Some pane
            then heap_bind (destroy n h (Some r)) (\<lambda>h'. Inr (True, h', None))
            else heap_bind (find_parent n h (Some r) pane) (\<lambda>fp.
              case fp of
                None \<Rightarrow> Inr (False, h, Some r)
              | Some parent \<Rightarrow>
                  heap_bind (deref h parent) (\<lambda>pn.
                  heap_bind (leaf_of h (h_left pn) pane) (\<lambda>removed_left.
                    case (if removed_left then h_right pn else h_left pn) of
                      None \<Rightarrow> Inr (False, h, Some r)
                    | Some promoted \<Rightarrow>
                        heap_bind (move_assign n h parent promoted) (\<lambda>h1.
                        heap_bind (deref h1 parent) (\<lambda>pn1.
                        let owned = (if removed_left then h_right pn1 else h_left pn1);
                            h2 = h1(parent \<mapsto> (if removed_left then pn1\<lparr>h_right := None\<rparr>
                                               else pn1\<lparr>h_left := None\<rparr>))
                        in heap_bind (destroy n h2 owned) (\<lambda>h3. Inr (True, h3, Some r)))))))))"

section \<open>Trees on the heap\<close>

fun tree_at :: "heap \<Rightarrow> addr \<Rightarrow> node \<Rightarrow> addr set \<Rightarrow> bool" where
  "tree_at h a (Leaf p) S =
     (\<exists>d r. h a = Some \<lparr>h_pane = Some p, h_split_dir = d, h_left = None, h_right = None, h_split_ratio = r\<rparr>
        \<and> S = {a})"
| "tree_at h a (Split d r lt rt) S =
     (\<exists>al ar Sl Sr. h a = Some \<lparr>h_pane = None, h_split_dir = d, h_left = Some al, h_right = Some ar,
          h_split_ratio = r\<rparr>
        \<and> tree_at h al lt Sl \<and> tree_at h ar rt Sr \<and> Sl \<inter> Sr = {} \<and> a \<notin> Sl \<union> Sr
        \<and> S = insert a (Sl \<union> Sr))"

fun height :: "node \<Rightarrow> nat" where
  "height (Leaf p) = 1"
| "height (Split d r lt rt) = Suc (max (height lt) (height rt))"

lemma tree_at_root: "tree_at h a t S \<Longrightarrow> a \<in> S"
  by (cases t) auto

lemma tree_at_alloc: "tree_at h a t S \<Longrightarrow> \<exists>nd. h a = Some nd"
  by (cases t) auto

lemma tree_at_cong: "\<forall>x\<in>S. h' x = h x \<Longrightarrow> tree_at h a t S \<Longrightarrow> tree_at h' a t S"
proof (induction t arbitrary: a S)
  case (Split d r lt rt)
  from Split.prems obtain al ar Sl Sr where
    *: "h a = Some \<lparr>h_pane = None, h_split_dir = d, h_left = Some al, h_right = Some ar, h_split_ratio = r\<rparr>"
      "tree_at h al lt Sl" "tree_at h ar rt Sr" "Sl \<inter> Sr = {}" "a \<notin> Sl \<union> Sr" "S = insert a (Sl \<union> Sr)"
    by auto
  moreover have "tree_at h' al lt Sl" "tree_at h' ar rt Sr"
    using Split.IH Split.prems(1) * by auto
  ultimately show ?case using Split.prems(1) by auto
qed auto

text \<open>Destroying a tree frees exactly its nodes.\<close>

lemma destroy_tree:
  "tree_at h a t S \<Longrightarrow> height t \<le> n \<Longrightarrow> destroy n h (Some a) = Inr (\<lambda>x. if x \<in> S then None else h x)"
proof (induction t arbitrary: n h a S)
  case (Leaf p)
  then obtain m where "n = Suc m" by (cases n) auto
  with Leaf show ?case by (auto simp: deref_def fun_eq_iff)
next
  case (Split d r lt rt)
  then obtain m where n: "n = Suc m" by (cases n) auto
  from Split.prems obtain al ar Sl Sr where
    *: "h a = Some \<lparr>h_pane = None, h_split_dir = d, h_left = Some al, h_right = Some ar, h_split_ratio = r\<rparr>"
      "tree_at h al lt Sl" "tree_at h ar rt Sr" "Sl \<inter> Sr = {}" "a \<notin> Sl \<union> Sr" "S = insert a (Sl \<union> Sr)"
    by auto
  let ?h1 = "\<lambda>x. if x \<in> Sr then None else h x"
  have 1: "destroy m h (Some ar) = Inr ?h1" using Split.IH(2) [OF *(3)] Split.prems(2) n by simp
  have "tree_at ?h1 al lt Sl" using *(2,4) by (intro tree_at_cong [OF _ *(2)]) auto
  then have 2: "destroy m ?h1 (Some al) = Inr (\<lambda>x. if x \<in> Sl then None else ?h1 x)"
    using Split.IH(1) Split.prems(2) n by simp
  show ?case using * n 1 2 by (auto simp: deref_def fun_eq_iff)
qed


section \<open>Finding the parent\<close>

lemma leaf_of_tree:
  "tree_at h a t S \<Longrightarrow> leaf_of h (Some a) p = Inr (t = Leaf p)"
  by (cases t) (auto simp: leaf_of_def deref_def is_leaf_def)

lemma find_parent_None:
  "tree_at h a t S \<Longrightarrow> height t \<le> n \<Longrightarrow> p \<notin> set (collect_panes t) \<Longrightarrow> find_parent n h (Some a) p = Inr None"
proof (induction t arbitrary: n a S)
  case (Leaf q)
  then obtain m where "n = Suc m" by (cases n) auto
  with Leaf show ?case by (auto simp: deref_def is_leaf_def)
next
  case (Split d r lt rt)
  then obtain m where n: "n = Suc m" by (cases n) auto
  from Split.prems(1) obtain al ar Sl Sr where
    *: "h a = Some \<lparr>h_pane = None, h_split_dir = d, h_left = Some al, h_right = Some ar, h_split_ratio = r\<rparr>"
      "tree_at h al lt Sl" "tree_at h ar rt Sr" by auto
  have "lt \<noteq> Leaf p" "rt \<noteq> Leaf p" using Split.prems(3) by auto
  moreover have "find_parent m h (Some al) p = Inr None" "find_parent m h (Some ar) p = Inr None"
    using Split.IH *(2,3) Split.prems(2,3) n by auto
  ultimately show ?case
    using n * by (simp add: deref_def is_leaf_def leaf_of_tree [OF *(2)] leaf_of_tree [OF *(3)])
qed

lemma find_parent_Some:
  "tree_at h a t S \<Longrightarrow> height t \<le> n \<Longrightarrow> p \<in> set (collect_panes t) \<Longrightarrow> t \<noteq> Leaf p \<Longrightarrow>
     \<exists>b d' r' lt' rt' S'. find_parent n h (Some a) p = Inr (Some b)
       \<and> tree_at h b (Split d' r' lt' rt') S' \<and> height (Split d' r' lt' rt') \<le> n
       \<and> (lt' = Leaf p \<or> rt' = Leaf p) \<and> S' \<subseteq> S"
proof (induction t arbitrary: n a S)
  case (Split d r lt rt)
  then obtain m where n: "n = Suc m" by (cases n) auto
  from Split.prems(1) obtain al ar Sl Sr where
    *: "h a = Some \<lparr>h_pane = None, h_split_dir = d, h_left = Some al, h_right = Some ar, h_split_ratio = r\<rparr>"
      "tree_at h al lt Sl" "tree_at h ar rt Sr" "Sl \<subseteq> S" "Sr \<subseteq> S" by auto
  note leafs = leaf_of_tree [OF *(2), of p] leaf_of_tree [OF *(3), of p]
  show ?case
  proof (cases "lt = Leaf p \<or> rt = Leaf p")
    case True
    then have "find_parent n h (Some a) p = Inr (Some a)"
      using n * leafs by (auto simp: deref_def is_leaf_def)
    then show ?thesis using True Split.prems(1,2) by blast
  next
    case False
    have hs: "height lt \<le> m" "height rt \<le> m" using Split.prems(2) n by auto
    have fp: "find_parent n h (Some a) p =
        heap_bind (find_parent m h (Some al) p) (\<lambda>r. case r of Some b \<Rightarrow> Inr (Some b)
          | None \<Rightarrow> find_parent m h (Some ar) p)"
      using n * leafs False by (simp add: deref_def is_leaf_def)
    show ?thesis
    proof (cases "p \<in> set (collect_panes lt)")
      case True
      from Split.IH(1) [OF *(2) hs(1) True] False obtain b d' r' lt' rt' S' where
        x: "find_parent m h (Some al) p = Inr (Some b)" "tree_at h b (Split d' r' lt' rt') S'"
          "height (Split d' r' lt' rt') \<le> m" "lt' = Leaf p \<or> rt' = Leaf p" "S' \<subseteq> S" using *(4,5) by blast
      then have "find_parent n h (Some a) p = Inr (Some b)" by (simp only: fp heap_bind_Inr option.case)
      moreover have "height (Split d' r' lt' rt') \<le> n" using x(3) n by linarith
      ultimately show ?thesis using x(2,4,5) by blast
    next
      case notin: False
      then have "p \<in> set (collect_panes rt)" using Split.prems(3) by simp
      from Split.IH(2) [OF *(3) hs(2) this] False obtain b d' r' lt' rt' S' where
        x: "find_parent m h (Some ar) p = Inr (Some b)" "tree_at h b (Split d' r' lt' rt') S'"
          "height (Split d' r' lt' rt') \<le> m" "lt' = Leaf p \<or> rt' = Leaf p" "S' \<subseteq> S" using *(4,5) by blast
      then have "find_parent n h (Some a) p = Inr (Some b)"
        by (simp only: fp find_parent_None [OF *(2) hs(1) notin] heap_bind_Inr option.case)
      moreover have "height (Split d' r' lt' rt') \<le> n" using x(3) n by linarith
      ultimately show ?thesis using x(2,4,5) by blast
    qed
  qed
qed simp

section \<open>The move assignment frees its source\<close>

lemma move_assign_left_removed:
  assumes t: "tree_at h b (Split d r (Leaf p) rt) S" and n: "2 \<le> n"
  shows "\<exists>ar\<in>S. h b = Some \<lparr>h_pane = None, h_split_dir = d, h_left = h_left (the (h b)), h_right = Some ar, h_split_ratio = r\<rparr>
     \<and> move_assign n h b ar = Inl (UseAfterFree ar)"
proof -
  obtain m where m: "n = Suc m" using n by (cases n) auto
  from t obtain al ar Sr d1 r1 where
    *: "h b = Some \<lparr>h_pane = None, h_split_dir = d, h_left = Some al, h_right = Some ar, h_split_ratio = r\<rparr>"
      "h al = Some \<lparr>h_pane = Some p, h_split_dir = d1, h_left = None, h_right = None, h_split_ratio = r1\<rparr>"
      "tree_at h ar rt Sr" "al \<notin> Sr" "b \<noteq> al" "b \<notin> Sr" "S = insert b (insert al Sr)" by auto
  then obtain sn where sn: "h ar = Some sn" using tree_at_alloc by blast
  have inS: "ar \<in> S" using tree_at_root [OF *(3)] *(7) by simp
  have ne: "ar \<noteq> al" "ar \<noteq> b" using * tree_at_root [OF *(3)] by auto
  have "move_assign n h b ar = Inl (UseAfterFree ar)"
    using * sn ne m
    by (simp add: move_assign_def assign_pane_def assign_split_dir_def move_left_def move_right_def
        assign_split_ratio_def deref_def Let_def)
  then show ?thesis using * inS by auto
qed

lemma move_assign_right_removed:
  assumes t: "tree_at h b (Split d r lt rt) S" and n: "height (Split d r lt rt) \<le> n"
  shows "\<exists>al\<in>S. h b = Some \<lparr>h_pane = None, h_split_dir = d, h_left = Some al, h_right = h_right (the (h b)), h_split_ratio = r\<rparr>
     \<and> move_assign n h b al = Inl (UseAfterFree al)"
proof -
  from t obtain al ar Sl Sr where
    *: "h b = Some \<lparr>h_pane = None, h_split_dir = d, h_left = Some al, h_right = Some ar, h_split_ratio = r\<rparr>"
      "tree_at h al lt Sl" "b \<notin> Sl" "Sl \<subseteq> S" by auto
  have inS: "al \<in> S" using tree_at_root [OF *(2)] *(4) by blast
  obtain m where m: "n = Suc m" using n by (cases n) auto
  obtain sn where sn: "h al = Some sn" using tree_at_alloc [OF *(2)] by blast
  have ne: "al \<noteq> b" using *(2,3) tree_at_root by blast
  let ?h = "h(al \<mapsto> sn\<lparr>h_left := None\<rparr>, b \<mapsto> \<lparr>h_pane = h_pane sn, h_split_dir = h_split_dir sn,
     h_left = h_left sn, h_right = Some ar, h_split_ratio = r\<rparr>)"
  have "\<exists>h'. destroy m ?h (h_right sn) = Inr h'"
  proof (cases lt)
    case (Leaf q)
    then show ?thesis using *(2) sn by auto
  next
    case (Split d2 r2 l2 rr2)
    with *(2) sn obtain c Sc where c: "h_right sn = Some c" "tree_at h c rr2 Sc" "al \<notin> Sc" "Sc \<subseteq> Sl"
      by auto blast
    then have "tree_at ?h c rr2 Sc" using *(3) by (intro tree_at_cong [OF _ c(2)]) auto
    then show ?thesis using destroy_tree [of ?h c rr2 Sc m] c n m Split by auto
  qed
  then obtain h' where h': "destroy m ?h (h_right sn) = Inr h'" by blast
  have "move_assign n h b al = Inl (UseAfterFree al)"
    using * sn ne m h'
    by (simp add: move_assign_def assign_pane_def assign_split_dir_def move_left_def move_right_def
        assign_split_ratio_def deref_def Let_def fun_upd_twist)
  then show ?thesis using * inS by auto
qed

lemma heap_remove_pane_uaf:
  assumes "tree_at h r (Split d q lt rt) S" "p \<in> set (collect_panes (Split d q lt rt))"
    and "height (Split d q lt rt) \<le> n"
  shows "\<exists>a\<in>S. heap_remove_pane n h (Some r) p = Inl (UseAfterFree a)"
proof -
  from find_parent_Some [OF assms(1,3,2)] obtain b d' r' lt' rt' S' where
    b: "find_parent n h (Some r) p = Inr (Some b)" "tree_at h b (Split d' r' lt' rt') S'"
      "height (Split d' r' lt' rt') \<le> n" "lt' = Leaf p \<or> rt' = Leaf p" "S' \<subseteq> S" by blast
  from assms(1) obtain rn where rn: "h r = Some rn" "\<not> is_leaf rn" by (auto simp: is_leaf_def)
  from b(2) obtain al ar Sl where
    bn: "h b = Some \<lparr>h_pane = None, h_split_dir = d', h_left = Some al, h_right = Some ar, h_split_ratio = r'\<rparr>"
      "tree_at h al lt' Sl" by auto
  have h2: "2 \<le> n" using b(3) by (cases lt') auto
  show ?thesis
  proof (cases "lt' = Leaf p")
    case True
    with move_assign_left_removed [of h b d' r' p rt' S' n] b(2) bn h2
    have ma: "move_assign n h b ar = Inl (UseAfterFree ar)" "ar \<in> S'" by auto
    then have "heap_remove_pane n h (Some r) p = Inl (UseAfterFree ar)"
      using b(1) rn bn True leaf_of_tree [OF bn(2), of p]
      by (simp add: heap_remove_pane_def deref_def)
    then show ?thesis using ma(2) b(5) by blast
  next
    case False
    from move_assign_right_removed [OF b(2,3)] bn
    have ma: "move_assign n h b al = Inl (UseAfterFree al)" "al \<in> S'" by auto
    then have "heap_remove_pane n h (Some r) p = Inl (UseAfterFree al)"
      using b(1) rn bn False leaf_of_tree [OF bn(2), of p]
      by (simp add: heap_remove_pane_def deref_def)
    then show ?thesis using ma(2) b(5) by blast
  qed
qed

text \<open>
  \<^bold>\<open>C6\<close> Use after free: on a heap that holds a layout tree with at least one split, removing a pane of
  that tree always reads the promoted sibling node after it has been freed.
\<close>

theorem remove_pane_use_after_free:
  assumes "tree_at h r (Split d q lt rt) S" "p \<in> set (collect_panes (Split d q lt rt))"
    and "height (Split d q lt rt) \<le> n"
  shows "\<exists>a. heap_remove_pane n h (Some r) p = Inl (UseAfterFree a)"
  using heap_remove_pane_uaf [OF assms] by blast

definition demo_heap :: heap where
  "demo_heap = [0 \<mapsto> \<lparr>h_pane = None, h_split_dir = HORIZONTAL, h_left = Some 1, h_right = Some 2, h_split_ratio = 1/2\<rparr>,
     1 \<mapsto> \<lparr>h_pane = Some 10, h_split_dir = HORIZONTAL, h_left = None, h_right = None, h_split_ratio = 1/2\<rparr>,
     2 \<mapsto> \<lparr>h_pane = Some 11, h_split_dir = HORIZONTAL, h_left = None, h_right = None, h_split_ratio = 1/2\<rparr>]"

theorem remove_pane_use_after_free_witness:
  "\<exists>a. heap_remove_pane 2 demo_heap (Some 0) 11 = Inl (UseAfterFree a)"
proof -
  have "tree_at demo_heap 0 (Split HORIZONTAL (1/2) (Leaf 10) (Leaf 11)) {0, 1, 2}"
    by (auto simp: demo_heap_def intro!: exI [of _ "1/2"])
  from remove_pane_use_after_free [OF this, of 11 2] show ?thesis by simp
qed

text \<open>The cases that stay defined: the root is the pane itself, or the pane is not in the layout.\<close>

lemma heap_remove_pane_root:
  "tree_at h r (Leaf p) S \<Longrightarrow> 0 < n \<Longrightarrow>
     heap_remove_pane n h (Some r) p = Inr (True, \<lambda>x. if x = r then None else h x, None)"
  using destroy_tree [of h r "Leaf p" S n]
  by (auto simp: heap_remove_pane_def deref_def is_leaf_def)

lemma heap_remove_pane_absent:
  "tree_at h r t S \<Longrightarrow> height t \<le> n \<Longrightarrow> p \<notin> set (collect_panes t) \<Longrightarrow>
     heap_remove_pane n h (Some r) p = Inr (False, h, Some r)"
  using find_parent_None [of h r t S n p] leaf_of_tree [of h r t S p]
  by (cases t) (auto simp: heap_remove_pane_def deref_def is_leaf_def)

section \<open>Removal on value trees\<close>

text \<open>
  The layout's view of the same call, used by the window model: it fails, empties the layout, or
  runs into undefined behaviour.
\<close>

datatype remove_outcome = Removed layout | NotRemoved layout | UndefinedBehaviour

definition remove_pane :: "layout \<Rightarrow> pane_ptr \<Rightarrow> remove_outcome" where
  "remove_pane lay p =
     (case lay of
        None \<Rightarrow> NotRemoved None
      | Some t \<Rightarrow>
          if t = Leaf p then Removed None
          else if p \<in> set (collect_panes t) then UndefinedBehaviour
          else NotRemoved (Some t))"

text \<open>
  What it means that the heap and the pointer \<open>root_\<close> hold a layout after a call that began with a
  tree on the addresses \<open>S\<close>: an empty layout has a null root and every node of the old tree freed.
\<close>

definition holds :: "heap \<Rightarrow> addr option \<Rightarrow> layout \<Rightarrow> addr set \<Rightarrow> bool" where
  "holds h tree lay S \<longleftrightarrow>
     (case lay of
        None \<Rightarrow> tree = None \<and> (\<forall>x\<in>S. h x = None)
      | Some t \<Rightarrow> (\<exists>a. tree = Some a \<and> tree_at h a t S))"

text \<open>
  \<^bold>\<open>C7\<close> Refinement: on every heap that holds the layout's tree, and with fuel for its height, the
  heap-level call does what the value-level one says. Where it returns, its result says whether the
  pane was removed, the new heap and the new \<open>root_\<close> hold the layout of the value-level call - the
  tree as it was, or a null root with the nodes freed - and no address outside the tree is touched;
  where it does not, the access to freed storage is at a node of the tree and the value-level
  outcome is undefined behaviour.
\<close>

theorem remove_pane_refines:
  assumes "tree_at h r t S" "height t \<le> n"
  shows "case heap_remove_pane n h (Some r) p of
       Inl e \<Rightarrow> (\<exists>a\<in>S. e = UseAfterFree a) \<and> remove_pane (Some t) p = UndefinedBehaviour
     | Inr (ok, h', tree') \<Rightarrow>
         (\<exists>lay'. remove_pane (Some t) p = (if ok then Removed lay' else NotRemoved lay') \<and> holds h' tree' lay' S)
         \<and> (\<forall>x. x \<notin> S \<longrightarrow> h' x = h x)"
proof (cases "p \<in> set (collect_panes t)")
  case False
  then have "remove_pane (Some t) p = NotRemoved (Some t)" by (auto simp: remove_pane_def)
  then show ?thesis using heap_remove_pane_absent [OF assms False] assms(1) by (simp add: holds_def)
next
  case True
  show ?thesis
  proof (cases t)
    case (Leaf q)
    then have "t = Leaf p" "S = {r}" using True assms(1) by auto
    then show ?thesis using heap_remove_pane_root [of h r p S n] assms
      by (simp add: holds_def remove_pane_def)
  next
    case (Split d q lt rt)
    from heap_remove_pane_uaf [of h r d q lt rt S p n] assms True Split
    obtain a where "a \<in> S" "heap_remove_pane n h (Some r) p = Inl (UseAfterFree a)" by blast
    then show ?thesis using True Split by (auto simp: remove_pane_def)
  qed
qed

theorem remove_pane_refines_witness:
  "(case heap_remove_pane 1 (demo_heap(3 := demo_heap 1)) (Some 3) 10 of
      Inl e \<Rightarrow> False
    | Inr (ok, h', tree') \<Rightarrow> ok \<and> tree' = None \<and> h' 3 = None \<and> h' 0 = demo_heap 0)
   \<and> heap_remove_pane 2 demo_heap (Some 0) 11 \<noteq> Inr (True, demo_heap, Some 0)"
proof -
  have "tree_at (demo_heap(3 := demo_heap 1)) 3 (Leaf 10) {3}"
    by (auto simp: demo_heap_def intro!: exI [of _ "1/2"])
  note a = remove_pane_refines [OF this, of 1 10]
  have "tree_at demo_heap 0 (Split HORIZONTAL (1/2) (Leaf 10) (Leaf 11)) {0, 1, 2}"
    by (auto simp: demo_heap_def intro!: exI [of _ "1/2"])
  note b = remove_pane_refines [OF this, of 2 11]
  show ?thesis using a b by (auto simp: remove_pane_def holds_def split: sum.splits if_splits)
qed

end
