(* ===== verification/Tui_Window.thy ===== *)
theory Tui_Window
  imports Tui_Layout_Heap
begin

text \<open>
  A window of the multiplexer: class \<open>Window\<close> in \<open>modules/tui/include/tui/window.hpp\<close> and
  \<open>modules/tui/src/window.cpp\<close>. Panes are numbers; \<open>w_next\<close> stands for the allocator (the next
  pane address never used before), \<open>w_pane_active\<close> and \<open>w_pane_shell\<close> for the fields of the pane
  objects, \<open>w_reaped\<close> for the panes handed to the \<open>PaneReaper\<close>. Each operation holds the window
  mutex for its whole body, so it is one step. \<open>close_active\<close> may run into undefined behaviour
  (\<^const>\<open>None\<close>), see \<open>Tui_Layout_Heap\<close>.

  The theorems: the window invariant (layout, pane list, active pane, zoom and saved layout agree)
  is kept by every step, saving and restoring keep the shape of the layout, and closing a pane is
  never defined.
\<close>

record window =
  w_panes :: "pane_ptr list"
  w_active :: "pane_ptr option"
  w_layout :: layout
  w_default_shell :: string
  w_name :: string
  w_zoomed :: bool
  w_zoom_target :: "pane_ptr option"
  w_saved :: "(snapshot \<times> nat) option"
  w_pane_active :: "pane_ptr \<Rightarrow> bool"
  w_pane_shell :: "pane_ptr \<Rightarrow> string"
  w_next :: nat
  w_reaped :: "pane_ptr list"

section \<open>Operations\<close>

definition create_pane :: "string \<Rightarrow> window \<Rightarrow> pane_ptr \<times> window" where
  "create_pane shell w =
     (let p = w_next w in
      (p, w\<lparr>w_panes := w_panes w @ [p], w_next := Suc p,
            w_pane_active := (w_pane_active w)(p := False),
            w_pane_shell := (w_pane_shell w)(p := shell)\<rparr>))"

definition new_window :: "string \<Rightarrow> window" where
  "new_window shell =
     (let w0 = \<lparr>w_panes = [], w_active = None, w_layout = None, w_default_shell = shell, w_name = [],
                w_zoomed = False, w_zoom_target = None, w_saved = None, w_pane_active = (\<lambda>_. False),
                w_pane_shell = (\<lambda>_. []), w_next = 0, w_reaped = []\<rparr>
      in case create_pane shell w0 of (p, w1) \<Rightarrow> w1\<lparr>w_active := Some p, w_layout := set_root_pane p\<rparr>)"

definition set_active_locked :: "pane_ptr option \<Rightarrow> window \<Rightarrow> window" where
  "set_active_locked pane w =
     (let w1 = (case w_active w of None \<Rightarrow> w
                | Some a \<Rightarrow> w\<lparr>w_pane_active := (w_pane_active w)(a := False)\<rparr>);
          w2 = w1\<lparr>w_active := pane\<rparr>
      in case pane of None \<Rightarrow> w2
         | Some p \<Rightarrow>
             let w3 = w2\<lparr>w_pane_active := (w_pane_active w2)(p := True)\<rparr>
             in if w_zoomed w3 then w3\<lparr>w_zoom_target := Some p\<rparr> else w3)"

definition split_active :: "split_direction \<Rightarrow> string \<Rightarrow> window \<Rightarrow> pane_ptr option \<times> window" where
  "split_active direction shell w =
     (case w_active w of
        None \<Rightarrow> (None, w)
      | Some a \<Rightarrow>
          let w1 = (if w_zoomed w then w\<lparr>w_zoomed := False, w_zoom_target := None\<rparr> else w);
              shell_cmd = (if shell = [] then w_default_shell w1 else shell)
          in case create_pane shell_cmd w1 of (new_pane, w2) \<Rightarrow>
             case split_pane (w_layout w2) a new_pane direction of (ok, lay) \<Rightarrow>
               if \<not> ok
               then (None, w2\<lparr>w_layout := lay, w_panes := filter (\<lambda>p. p \<noteq> new_pane) (w_panes w2)\<rparr>)
               else (Some new_pane, set_active_locked (Some new_pane) (w2\<lparr>w_layout := lay\<rparr>)))"

definition close_active :: "window \<Rightarrow> (bool \<times> window) option" where
  "close_active w =
     (if w_active w = None \<or> length (w_panes w) \<le> 1 then Some (False, w)
      else
        let a = the (w_active w);
            w1 = (if w_zoomed w \<and> w_active w = w_zoom_target w
                  then w\<lparr>w_zoomed := False, w_zoom_target := None\<rparr> else w)
        in case remove_pane (w_layout w1) a of
             UndefinedBehaviour \<Rightarrow> None
           | NotRemoved lay \<Rightarrow> Some (False, w1\<lparr>w_layout := lay\<rparr>)
           | Removed lay \<Rightarrow>
               let w2 = w1\<lparr>w_layout := lay\<rparr>;
                   remaining = get_all_panes lay;
                   new_active = (case remaining of [] \<Rightarrow> None | x # _ \<Rightarrow> Some x);
                   w3 = (if a \<in> set (w_panes w2)
                         then w2\<lparr>w_panes := remove1 a (w_panes w2), w_reaped := w_reaped w2 @ [a]\<rparr>
                         else w2)
               in Some (True, set_active_locked new_active w3))"

definition navigate :: "char \<Rightarrow> window \<Rightarrow> bool \<times> window" where
  "navigate direction w =
     (case w_active w of
        None \<Rightarrow> (False, w)
      | Some a \<Rightarrow>
          (case get_pane_in_direction (w_layout w) a direction of
             None \<Rightarrow> (False, w)
           | Some nxt \<Rightarrow> (True, set_active_locked (Some nxt) w)))"

definition toggle_zoom :: "window \<Rightarrow> bool \<times> window" where
  "toggle_zoom w =
     (if w_active w = None then (False, w)
      else if w_zoomed w then (True, w\<lparr>w_zoomed := False, w_zoom_target := None\<rparr>)
      else (True, w\<lparr>w_zoomed := True, w_zoom_target := w_active w\<rparr>))"

definition save_layout :: "window \<Rightarrow> bool \<times> window" where
  "save_layout w =
     (if w_layout w = None \<or> w_panes w = [] then (False, w)
      else
        let snap = take_snapshot (w_layout w) in
        if leaf_count snap = 0 then (False, w)
        else
          let leaves = get_all_panes (w_layout w);
              active_index = (case w_active w of None \<Rightarrow> 0
                 | Some a \<Rightarrow> (case find_char a leaves of None \<Rightarrow> 0 | Some i \<Rightarrow> i))
          in (True, w\<lparr>w_saved := Some (snap, active_index)\<rparr>))"

definition restore_layout :: "window \<Rightarrow> bool \<times> window" where
  "restore_layout w =
     (case w_saved w of
        None \<Rightarrow> (False, w)
      | Some (snap, saved_index) \<Rightarrow>
          if leaf_count snap = 0 then (False, w)
          else
            let new_panes = [w_next w ..< w_next w + leaf_count snap];
                w1 = w\<lparr>w_next := w_next w + leaf_count snap,
                       w_pane_active := (\<lambda>p. if p \<in> set new_panes then False else w_pane_active w p),
                       w_pane_shell := (\<lambda>p. if p \<in> set new_panes then w_default_shell w
                                            else w_pane_shell w p)\<rparr>
            in case restore_from_snapshot None snap new_panes of (ok, lay) \<Rightarrow>
                 if \<not> ok then (False, w1)
                 else if new_panes = [] then (False, w1)
                 else
                   let active_index = (if saved_index \<ge> length new_panes then 0 else saved_index);
                       w2 = w1\<lparr>w_panes := new_panes, w_layout := lay, w_zoomed := False,
                               w_zoom_target := None\<rparr>;
                       w3 = set_active_locked (Some (new_panes ! active_index)) w2
                   in (True, w3\<lparr>w_reaped := w_reaped w3 @ w_panes w\<rparr>))"

definition set_name :: "string \<Rightarrow> window \<Rightarrow> window" where
  "set_name name w = w\<lparr>w_name := name\<rparr>"

text \<open>\<open>send_input\<close> picks the pane object that owns the active pointer.\<close>

definition send_input_target :: "window \<Rightarrow> pane_ptr option" where
  "send_input_target w = List.find (\<lambda>p. Some p = w_active w) (w_panes w)"

section \<open>Invariant\<close>

definition saved_ok :: "(snapshot \<times> nat) option \<Rightarrow> bool" where
  "saved_ok sv \<longleftrightarrow> (case sv of None \<Rightarrow> True
     | Some (snap, i) \<Rightarrow> (\<exists>t. snap = take_snapshot (Some t) \<and> ratios_ok t \<and> i < leaf_count snap))"

definition window_ok :: "window \<Rightarrow> bool" where
  "window_ok w \<longleftrightarrow>
     distinct (w_panes w) \<and> (\<forall>p\<in>set (w_panes w). p < w_next w)
     \<and> distinct (get_all_panes (w_layout w)) \<and> set (get_all_panes (w_layout w)) = set (w_panes w)
     \<and> layout_ratios_ok (w_layout w)
     \<and> (\<exists>a. w_active w = Some a \<and> a \<in> set (w_panes w)
          \<and> (\<forall>p\<in>set (w_panes w). w_pane_active w p \<longrightarrow> p = a))
     \<and> w_zoom_target w = (if w_zoomed w then w_active w else None)
     \<and> saved_ok (w_saved w)"


text \<open>
  The constructor stores the first pane without calling \<open>Pane::set_active\<close>, so its own flag is
  still off; the invariant asks only that no other pane is flagged.
\<close>

lemma window_okI:
  assumes "distinct (w_panes w)" "\<And>p. p \<in> set (w_panes w) \<Longrightarrow> p < w_next w"
    and "distinct (get_all_panes (w_layout w))" "set (get_all_panes (w_layout w)) = set (w_panes w)"
    and "layout_ratios_ok (w_layout w)" "w_active w = Some a" "a \<in> set (w_panes w)"
    and "\<And>p. p \<in> set (w_panes w) \<Longrightarrow> w_pane_active w p \<Longrightarrow> p = a"
    and "w_zoom_target w = (if w_zoomed w then w_active w else None)" "saved_ok (w_saved w)"
  shows "window_ok w"
  unfolding window_ok_def using assms by blast

lemma window_okE:
  assumes "window_ok w"
  obtains a where "distinct (w_panes w)" "\<forall>p\<in>set (w_panes w). p < w_next w"
    "distinct (get_all_panes (w_layout w))" "set (get_all_panes (w_layout w)) = set (w_panes w)"
    "layout_ratios_ok (w_layout w)" "w_active w = Some a" "a \<in> set (w_panes w)"
    "\<forall>p\<in>set (w_panes w). w_pane_active w p \<longrightarrow> p = a"
    "w_zoom_target w = (if w_zoomed w then w_active w else None)" "saved_ok (w_saved w)"
  using assms unfolding window_ok_def by blast

lemma new_window_ok: "window_ok (new_window shell)"
  by (rule window_okI [where a = 0])
    (auto simp: new_window_def create_pane_def set_root_pane_def get_all_panes_def layout_ratios_ok_def
      saved_ok_def Let_def)

lemma set_active_locked_simps [simp]:
  "w_panes (set_active_locked q w) = w_panes w" "w_layout (set_active_locked q w) = w_layout w"
  "w_next (set_active_locked q w) = w_next w" "w_zoomed (set_active_locked q w) = w_zoomed w"
  "w_saved (set_active_locked q w) = w_saved w" "w_active (set_active_locked q w) = q"
  "w_default_shell (set_active_locked q w) = w_default_shell w"
  "w_reaped (set_active_locked q w) = w_reaped w"
  by (auto simp: set_active_locked_def Let_def split: option.split)

lemma set_active_locked_zoom:
  "w_zoom_target w = (if w_zoomed w then z else None) \<Longrightarrow>
     w_zoom_target (set_active_locked (Some p) w) = (if w_zoomed w then Some p else None)"
  by (auto simp: set_active_locked_def Let_def split: option.split)

lemma set_active_locked_flag_eq:
  "w_pane_active (set_active_locked (Some p) w) =
     (case w_active w of None \<Rightarrow> w_pane_active w | Some a \<Rightarrow> (w_pane_active w)(a := False))(p := True)"
  by (auto simp: set_active_locked_def Let_def split: option.split)

lemma set_active_locked_flags:
  "\<forall>x\<in>S. w_pane_active w x \<longrightarrow> w_active w = Some x \<Longrightarrow> x \<in> S \<Longrightarrow>
     w_pane_active (set_active_locked (Some p) w) x \<Longrightarrow> x = p"
  by (cases "w_active w") (auto simp: set_active_locked_flag_eq split: if_splits)

lemma unzoom_noop:
  "w_zoom_target w = (if w_zoomed w then z else None) \<Longrightarrow>
     (if w_zoomed w then w\<lparr>w_zoomed := False, w_zoom_target := None\<rparr> else w)
       = w\<lparr>w_zoomed := False, w_zoom_target := None\<rparr>"
  by (cases w) auto

lemma set_active_locked_ok:
  assumes "window_ok w" "p \<in> set (w_panes w)"
  shows "window_ok (set_active_locked (Some p) w)"
proof -
  from assms(1) obtain a where *: "distinct (w_panes w)" "\<forall>p\<in>set (w_panes w). p < w_next w"
    "distinct (get_all_panes (w_layout w))" "set (get_all_panes (w_layout w)) = set (w_panes w)"
    "layout_ratios_ok (w_layout w)" "w_active w = Some a" "a \<in> set (w_panes w)"
    "\<forall>p\<in>set (w_panes w). w_pane_active w p \<longrightarrow> p = a"
    "w_zoom_target w = (if w_zoomed w then w_active w else None)" "saved_ok (w_saved w)"
    by (rule window_okE)
  show ?thesis
    by (rule window_okI [where a = p])
      (use * assms(2) set_active_locked_zoom [OF *(9)] set_active_locked_flags [of "set (w_panes w)" w _ p]
        in auto)
qed

lemma split_active_ok:
  assumes ok: "window_ok w" and step: "split_active d shell w = (r, w')"
  shows "window_ok w' \<and> r = Some (w_next w)
     \<and> get_all_panes (w_layout w') = insert_after (the (w_active w)) (w_next w) (get_all_panes (w_layout w))
     \<and> w_active w' = r \<and> \<not> w_zoomed w'"
proof -
  from ok obtain a where *: "distinct (w_panes w)" "\<forall>p\<in>set (w_panes w). p < w_next w"
    "distinct (get_all_panes (w_layout w))" "set (get_all_panes (w_layout w)) = set (w_panes w)"
    "layout_ratios_ok (w_layout w)" "w_active w = Some a" "a \<in> set (w_panes w)"
    "\<forall>p\<in>set (w_panes w). w_pane_active w p \<longrightarrow> p = a"
    "w_zoom_target w = (if w_zoomed w then w_active w else None)" "saved_ok (w_saved w)"
    by (rule window_okE)
  let ?n = "w_next w"
  let ?sh = "if shell = [] then w_default_shell w else shell"
  let ?w2 = "w\<lparr>w_zoomed := False, w_zoom_target := None, w_panes := w_panes w @ [?n], w_next := Suc ?n,
     w_pane_active := (w_pane_active w)(?n := False), w_pane_shell := (w_pane_shell w)(?n := ?sh)\<rparr>"
  obtain okf lay where sp: "split_pane (w_layout w) a ?n d = (okf, lay)" by fastforce
  from split_pane_panes [OF sp] * have okf: "okf"
    and lay: "get_all_panes lay = insert_after a ?n (get_all_panes (w_layout w))" by auto
  have w': "w' = set_active_locked (Some ?n) (?w2\<lparr>w_layout := lay\<rparr>)" "r = Some ?n"
    using step sp okf *(6)
    by (auto simp: split_active_def create_pane_def unzoom_noop [OF *(9)] Let_def)
  have n: "?n \<notin> set (w_panes w)" using *(2) by auto
  have ac: "a \<in> set (get_all_panes (w_layout w))" using *(4,7) by simp
  have "window_ok w'"
  proof (rule window_okI [where a = ?n])
    show "distinct (get_all_panes (w_layout w'))"
      using w' lay n *(3,4) by (simp add: distinct_insert_after)
    show "set (get_all_panes (w_layout w')) = set (w_panes w')"
      using w' lay ac *(4) by (auto simp: set_insert_after)
    show "layout_ratios_ok (w_layout w')" using w' split_pane_ratios [OF *(5) sp] by simp
    show "w_zoom_target w' = (if w_zoomed w' then w_active w' else None)"
      using w' set_active_locked_zoom [of "?w2\<lparr>w_layout := lay\<rparr>" None ?n] by simp
    fix p assume p: "p \<in> set (w_panes w')" "w_pane_active w' p"
    have "\<forall>x\<in>set (w_panes w'). w_pane_active (?w2\<lparr>w_layout := lay\<rparr>) x \<longrightarrow>
        w_active (?w2\<lparr>w_layout := lay\<rparr>) = Some x"
      using w'(1) *(6,8) by simp
    then show "p = ?n" by (rule set_active_locked_flags) (use p w'(1) in simp_all)
  qed (use w' * n in auto)
  then show ?thesis using w' lay *(6) by simp
qed

lemma navigate_ok:
  assumes ok: "window_ok w" and step: "navigate d w = (r, w')"
  shows "window_ok w'"
proof -
  from ok obtain a where *: "set (get_all_panes (w_layout w)) = set (w_panes w)"
    "layout_ratios_ok (w_layout w)" "w_active w = Some a" "a \<in> set (w_panes w)"
    by (rule window_okE)
  show ?thesis
  proof (cases "get_pane_in_direction (w_layout w) a d")
    case None
    then show ?thesis using step ok * by (simp add: navigate_def)
  next
    case (Some p)
    have "p \<in> set (get_all_panes (w_layout w))"
      using get_pane_in_direction_mem [OF Some] .
    then show ?thesis using step ok * Some set_active_locked_ok [OF ok, of p]
      by (auto simp: navigate_def)
  qed
qed


lemma toggle_zoom_ok: "window_ok w \<Longrightarrow> toggle_zoom w = (r, w') \<Longrightarrow> window_ok w'"
  by (auto simp: toggle_zoom_def window_ok_def split: if_splits)

lemma set_name_ok: "window_ok w \<Longrightarrow> window_ok (set_name n w)"
  by (simp add: set_name_def window_ok_def)

lemma window_ok_layout: "window_ok w \<Longrightarrow> \<exists>t. w_layout w = Some t"
  by (erule window_okE) (cases "w_layout w", auto simp: get_all_panes_def)

lemma leaf_count_snapshot: "leaf_count (take_snapshot (Some t)) = length (collect_panes t)"
  by (cases "clone_node t 0") (auto simp: take_snapshot_def dest: clone_count)

lemma save_layout_eq:
  assumes ok: "window_ok w" and t: "w_layout w = Some t" and a: "w_active w = Some a"
  shows "\<exists>i. i < length (collect_panes t) \<and> collect_panes t ! i = a
     \<and> save_layout w = (True, w\<lparr>w_saved := Some (take_snapshot (Some t), i)\<rparr>)"
proof -
  from ok a t have p: "a \<in> set (collect_panes t)" "w_panes w \<noteq> []"
    by (auto elim!: window_okE simp: get_all_panes_def)
  then have "find_char a (collect_panes t) \<noteq> None" by simp
  then obtain i where i: "find_char a (collect_panes t) = Some i" by blast
  then have "i < length (collect_panes t)" "collect_panes t ! i = a"
    unfolding find_char_def by (auto dest: find_first_Some)
  then show ?thesis using i p a t
    by (auto simp: save_layout_def leaf_count_snapshot get_all_panes_def Let_def)
qed

lemma save_layout_ok:
  assumes "window_ok w" "save_layout w = (r, w')"
  shows "window_ok w'"
proof -
  obtain t where t: "w_layout w = Some t" using window_ok_layout [OF assms(1)] by blast
  obtain a where a: "w_active w = Some a" using assms(1) by (rule window_okE)
  from save_layout_eq [OF assms(1) t a] assms(2) obtain i where
    "i < length (collect_panes t)" "w' = w\<lparr>w_saved := Some (take_snapshot (Some t), i)\<rparr>" by auto
  moreover have "ratios_ok t" using assms(1) t by (auto elim!: window_okE simp: layout_ratios_ok_def)
  ultimately show ?thesis using assms(1)
    by (auto simp: window_ok_def saved_ok_def leaf_count_snapshot)
qed

text \<open>
  Restoring a saved layout: the panes are \<open>n\<close> fresh ones, the shape is the saved one, and the pane
  at the saved position is active.
\<close>

lemma ratios_ok_shape: "shape_eq t t' \<Longrightarrow> ratios_ok t \<Longrightarrow> ratios_ok t'"
  by (induction t t' rule: shape_eq.induct) auto

lemma restore_layout_eq:
  assumes sv: "w_saved w = Some (take_snapshot (Some t), i)" and i: "i < length (collect_panes t)"
    and r: "restore_layout w = (res, w')"
  shows "res \<and> (\<exists>t'. w_layout w' = Some t' \<and> shape_eq t t' \<and> collect_panes t' = w_panes w')
     \<and> w_panes w' = [w_next w ..< w_next w + length (collect_panes t)]
     \<and> w_active w' = Some (w_panes w' ! i) \<and> \<not> w_zoomed w' \<and> w_zoom_target w' = None
     \<and> w_next w' = w_next w + length (collect_panes t) \<and> w_saved w' = w_saved w
     \<and> w_reaped w' = w_reaped w @ w_panes w
     \<and> (\<forall>p\<in>set (w_panes w'). w_pane_active w' p \<longrightarrow> w_active w' = Some p)"
proof -
  define n where "n = length (collect_panes t)"
  define ps where "ps = [w_next w ..< w_next w + n]"
  have ne: "ps \<noteq> []" "0 < n" "length ps = n" by (simp_all add: ps_def n_def)
  from restore_snapshot_gen [of "Some t" t ps None] obtain t' where
    t': "restore_from_snapshot None (take_snapshot (Some t)) ps = (True, Some t')"
      "shape_eq t t'" "collect_panes t' = ps" using ne by (auto simp: get_all_panes_def n_def)
  define w2 where "w2 = w\<lparr>w_next := w_next w + n,
       w_pane_active := (\<lambda>p. if p \<in> set ps then False else w_pane_active w p),
       w_pane_shell := (\<lambda>p. if p \<in> set ps then w_default_shell w else w_pane_shell w p),
       w_panes := ps, w_layout := Some t', w_zoomed := False, w_zoom_target := None\<rparr>"
  have lc: "leaf_count (take_snapshot (Some t)) = n" by (simp add: leaf_count_snapshot n_def)
  have w': "res" "w' = set_active_locked (Some (ps ! i)) w2
      \<lparr>w_reaped := w_reaped (set_active_locked (Some (ps ! i)) w2) @ w_panes w\<rparr>"
    using r sv t'(1) ne i
    by (simp_all add: restore_layout_def lc Let_def ps_def [symmetric] n_def [symmetric] w2_def
        del: set_active_locked_simps)
  have z: "w_zoom_target (set_active_locked (Some (ps ! i)) w2) = None"
    using set_active_locked_zoom [of w2 None "ps ! i"] by (simp add: w2_def)
  have fl: "\<forall>p\<in>set ps. w_pane_active (set_active_locked (Some (ps ! i)) w2) p \<longrightarrow> ps ! i = p"
    by (auto simp: set_active_locked_flag_eq w2_def split: option.splits if_splits)
  have "w_panes w' = ps" "w_layout w' = Some t'" "w_active w' = Some (ps ! i)" "\<not> w_zoomed w'"
    "w_zoom_target w' = None" "w_next w' = w_next w + n" "w_saved w' = w_saved w"
    "w_reaped w' = w_reaped w @ w_panes w"
    "w_pane_active w' = w_pane_active (set_active_locked (Some (ps ! i)) w2)"
    using z by (simp_all add: w'(2)) (simp_all add: w2_def)
  then show ?thesis using w'(1) t' fl by (simp add: ps_def n_def)
qed

lemma restore_layout_ok:
  assumes ok: "window_ok w" and r: "restore_layout w = (res, w')"
  shows "window_ok w'"
proof (cases "w_saved w")
  case None
  then show ?thesis using ok r by (simp add: restore_layout_def)
next
  case (Some sv)
  then obtain t i where sv: "w_saved w = Some (take_snapshot (Some t), i)"
    and t: "ratios_ok t" and i: "i < length (collect_panes t)"
    using ok by (cases sv) (auto elim!: window_okE simp: saved_ok_def leaf_count_snapshot)
  note * = restore_layout_eq [OF sv i r]
  then obtain t' where t': "w_layout w' = Some t'" "shape_eq t t'" "collect_panes t' = w_panes w'" by blast
  from * i have mem: "w_panes w' ! i \<in> set (w_panes w')" by simp
  show ?thesis
    by (rule window_okI [where a = "w_panes w' ! i"])
      (use * t' t ratios_ok_shape mem sv i in
        \<open>auto simp: get_all_panes_def layout_ratios_ok_def saved_ok_def leaf_count_snapshot\<close>)
qed

section \<open>Closing a pane\<close>

lemma two_panes_split:
  assumes "window_ok w" "1 < length (w_panes w)" "w_active w = Some a"
  shows "remove_pane (w_layout w) a = UndefinedBehaviour"
proof -
  from assms(1) obtain t where t: "w_layout w = Some t" using window_ok_layout by blast
  from assms(1,3) have "a \<in> set (collect_panes t)" "set (collect_panes t) = set (w_panes w)"
    "distinct (w_panes w)"
    using t by (simp_all add: window_ok_def get_all_panes_def)
  moreover have "t \<noteq> Leaf a"
  proof
    assume "t = Leaf a"
    with calculation have "set (w_panes w) = {a}" by simp
    then have "card (set (w_panes w)) = 1" by simp
    then have "length (w_panes w) = 1" using distinct_card [OF calculation(3)] by simp
    then show False using assms(2) by simp
  qed
  ultimately show ?thesis using t by (simp add: remove_pane_def)
qed

lemma close_active_eq:
  assumes "window_ok w"
  shows "close_active w = (if length (w_panes w) \<le> 1 then Some (False, w) else None)"
proof -
  obtain a where "w_active w = Some a" using assms by (rule window_okE)
  then show ?thesis using two_panes_split [OF assms, of a]
    by (auto simp: close_active_def Let_def)
qed

section \<open>Every step keeps the invariant\<close>

inductive window_step :: "window \<Rightarrow> window \<Rightarrow> bool" where
  ws_split: "split_active d sh w = (r, w') \<Longrightarrow> window_step w w'"
| ws_close: "close_active w = Some (r, w') \<Longrightarrow> window_step w w'"
| ws_navigate: "navigate d w = (r, w') \<Longrightarrow> window_step w w'"
| ws_focus: "p \<in> set (w_panes w) \<Longrightarrow> window_step w (set_active_locked (Some p) w)"
| ws_zoom: "toggle_zoom w = (r, w') \<Longrightarrow> window_step w w'"
| ws_save: "save_layout w = (r, w') \<Longrightarrow> window_step w w'"
| ws_restore: "restore_layout w = (r, w') \<Longrightarrow> window_step w w'"
| ws_name: "window_step w (set_name n w)"

lemma window_step_ok: "window_ok w \<Longrightarrow> window_step w w' \<Longrightarrow> window_ok w'"
proof (erule window_step.cases)
  fix v r v' assume "window_ok w" "w = v" "w' = v'" "close_active v = Some (r, v')"
  then show ?thesis using close_active_eq [of w] by (auto split: if_splits)
qed (auto intro: split_active_ok [THEN conjunct1] navigate_ok set_active_locked_ok toggle_zoom_ok
    save_layout_ok restore_layout_ok set_name_ok)

interpretation window_run: step_invariant window_step window_ok
  by unfold_locales (rule window_step_ok)

text \<open>
  Window invariant: from a new window, every sequence of splits, closes, navigations, focus changes,
  zooms, saves, restores and renames reaches a window whose layout shows exactly its panes, once
  each, with one active pane among them, the zoom on the active pane or off, and a saved layout
  that can be restored.
\<close>

lemma window_invariant:
  "window_step\<^sup>*\<^sup>* (new_window shell) w \<Longrightarrow> window_ok w"
  by (rule window_run.inv_steps [OF _ new_window_ok])

lemma window_invariant_example:
  "window_ok (snd (split_active VERTICAL [] (new_window ''/bin/sh'')))"
proof -
  have "window_step (new_window ''/bin/sh'') (snd (split_active VERTICAL [] (new_window ''/bin/sh'')))"
    by (rule ws_split [where r = "fst (split_active VERTICAL [] (new_window ''/bin/sh''))"]) simp
  then show ?thesis by (rule window_invariant [OF r_into_rtranclp])
qed

text \<open>
  Closing a pane: in every window that satisfies the invariant, \<open>close_active\<close> either
  refuses (one pane) or runs into the undefined behaviour of \<open>Layout::remove_pane\<close>; it never
  closes a pane with defined behaviour.
\<close>

lemma close_active_never_defined:
  assumes "window_ok w"
  shows "close_active w = (if length (w_panes w) \<le> 1 then Some (False, w) else None)"
  using assms by (rule close_active_eq)

lemma close_active_never_defined_example:
  "close_active (snd (split_active VERTICAL [] (new_window ''/bin/sh''))) = None"
proof -
  let ?w = "snd (split_active VERTICAL [] (new_window ''/bin/sh''))"
  have ok: "window_ok ?w"
    using split_active_ok [OF new_window_ok, of VERTICAL "[]" "''/bin/sh''"
        "fst (split_active VERTICAL [] (new_window ''/bin/sh''))" ?w] by simp
  have "length (w_panes ?w) = 2"
    by (simp add: new_window_def create_pane_def split_active_def set_root_pane_def split_pane_def Let_def)
  then show ?thesis using close_active_never_defined [OF ok] by simp
qed

text \<open>
  Save and restore: right after \<open>save_layout\<close>, \<open>restore_layout\<close> succeeds; it replaces every pane by a
  fresh one, keeps the splits, makes the pane at the position of the formerly active one active,
  switches the zoom off and hands all old panes to the reaper.
\<close>

lemma save_then_restore:
  assumes "window_ok w"
  shows "case restore_layout (snd (save_layout w)) of (res, w') \<Rightarrow>
     res \<and> window_ok w' \<and> (\<exists>t t'. w_layout w = Some t \<and> w_layout w' = Some t' \<and> shape_eq t t'
        \<and> (\<exists>i < length (collect_panes t). w_active w = Some (collect_panes t ! i)
              \<and> w_active w' = Some (collect_panes t' ! i)))
     \<and> set (w_panes w') \<inter> set (w_panes w) = {} \<and> \<not> w_zoomed w'
     \<and> w_reaped w' = w_reaped w @ w_panes w"
proof -
  obtain t where t: "w_layout w = Some t" using window_ok_layout [OF assms] by blast
  obtain a where a: "w_active w = Some a" using assms by (rule window_okE)
  from save_layout_eq [OF assms t a] obtain i where
    i: "i < length (collect_panes t)" "collect_panes t ! i = a"
      "save_layout w = (True, w\<lparr>w_saved := Some (take_snapshot (Some t), i)\<rparr>)" by auto
  let ?w1 = "w\<lparr>w_saved := Some (take_snapshot (Some t), i)\<rparr>"
  obtain res w' where r: "restore_layout ?w1 = (res, w')" by fastforce
  note * = restore_layout_eq [of ?w1 t i, OF _ i(1) r]
  have "window_ok w'" using save_layout_ok [OF assms i(3)] r by (rule restore_layout_ok)
  moreover have "\<forall>p\<in>set (w_panes w). p < w_next w" using assms by (rule window_okE)
  ultimately show ?thesis using * i t a r by fastforce
qed

lemma save_then_restore_example:
  "fst (restore_layout (snd (save_layout (new_window ''/bin/sh''))))"
  using save_then_restore [OF new_window_ok, of "''/bin/sh''"] by (auto split: prod.splits)

end
