(* ===== verification/Tui_Modes.thy ===== *)
theory Tui_Modes
  imports Nazg_Prelude
begin

text \<open>
  The mode machine of the multiplexer: \<open>ModeManager\<close> in
  \<open>modules/tui/include/tui/managers/mode_manager.hpp\<close> and \<open>modules/tui/src/managers/mode_manager.cpp\<close>.
  The steady clock is an argument in nanoseconds; the calls of the registered callback are
  collected in \<open>mm_changes\<close> (old mode, new mode), in order.
\<close>

datatype mode = NORMAL | INSERT | VISUAL | COMMAND | PREFIX

primrec mode_rank :: "mode \<Rightarrow> nat" where
  "mode_rank NORMAL = 0"
| "mode_rank INSERT = 1"
| "mode_rank VISUAL = 2"
| "mode_rank COMMAND = 3"
| "mode_rank PREFIX = 4"

lemma mode_rank_inj: "mode_rank a = mode_rank b \<longleftrightarrow> a = b"
  by (cases a; cases b) simp_all

text \<open>\<open>std::map\<close> orders enumerators by their value.\<close>

instantiation mode :: linorder
begin

definition less_eq_mode :: "mode \<Rightarrow> mode \<Rightarrow> bool" where
  "less_eq_mode a b \<longleftrightarrow> mode_rank a \<le> mode_rank b"

definition less_mode :: "mode \<Rightarrow> mode \<Rightarrow> bool" where
  "less_mode a b \<longleftrightarrow> mode_rank a < mode_rank b"

instance
  by standard (auto simp: less_eq_mode_def less_mode_def mode_rank_inj)

end

record mode_manager =
  mm_current :: mode
  mm_previous :: mode
  mm_prefix_active :: bool
  mm_prefix_time :: int
  mm_prefix_timeout_ms :: int
  mm_callback :: bool
  mm_changes :: "(mode \<times> mode) list"

section \<open>Operations\<close>

definition initial_modes :: mode_manager where
  "initial_modes = \<lparr>mm_current = INSERT, mm_previous = INSERT, mm_prefix_active = False,
     mm_prefix_time = 0, mm_prefix_timeout_ms = 1000, mm_callback = False, mm_changes = []\<rparr>"

definition on_mode_change :: "mode_manager \<Rightarrow> mode_manager" where
  "on_mode_change m = m\<lparr>mm_callback := True\<rparr>"

definition enter :: "mode \<Rightarrow> mode_manager \<Rightarrow> bool \<times> mode_manager" where
  "enter mode m =
     (if mm_current m = mode then (False, m)
      else
        let old_mode = mm_current m;
            m1 = m\<lparr>mm_previous := mm_current m, mm_current := mode\<rparr>;
            m2 = (if mode \<noteq> PREFIX then m1\<lparr>mm_prefix_active := False\<rparr> else m1);
            m3 = (if mm_callback m2 then m2\<lparr>mm_changes := mm_changes m2 @ [(old_mode, mode)]\<rparr> else m2)
        in (True, m3))"

definition exit_to_previous :: "mode_manager \<Rightarrow> bool \<times> mode_manager" where
  "exit_to_previous m =
     (if mm_current m = mm_previous m then (False, m) else enter (mm_previous m) m)"

definition activate_prefix :: "int \<Rightarrow> int \<Rightarrow> mode_manager \<Rightarrow> mode_manager" where
  "activate_prefix now timeout_ms m =
     snd (enter PREFIX (m\<lparr>mm_prefix_active := True, mm_prefix_timeout_ms := timeout_ms,
                          mm_prefix_time := now\<rparr>))"

definition deactivate_prefix :: "mode_manager \<Rightarrow> mode_manager" where
  "deactivate_prefix m =
     (let m1 = m\<lparr>mm_prefix_active := False\<rparr>
      in if mm_current m1 = PREFIX then snd (exit_to_previous m1) else m1)"

text \<open>\<open>duration_cast<milliseconds>\<close> truncates towards zero.\<close>

definition elapsed_ms :: "int \<Rightarrow> int \<Rightarrow> int" where
  "elapsed_ms now start =
     (if start \<le> now then (now - start) div 1000000 else - ((start - now) div 1000000))"

definition check_prefix_timeout :: "int \<Rightarrow> mode_manager \<Rightarrow> bool \<times> mode_manager" where
  "check_prefix_timeout now m =
     (if \<not> mm_prefix_active m then (False, m)
      else if elapsed_ms now (mm_prefix_time m) \<ge> mm_prefix_timeout_ms m
      then (True, deactivate_prefix m) else (False, m))"

primrec mode_name :: "mode \<Rightarrow> string" where
  "mode_name NORMAL = ''NORMAL''"
| "mode_name INSERT = ''INSERT''"
| "mode_name VISUAL = ''VISUAL''"
| "mode_name COMMAND = ''COMMAND''"
| "mode_name PREFIX = ''PREFIX''"

section \<open>Invariant\<close>

definition modes_ok :: "mode_manager \<Rightarrow> bool" where
  "modes_ok m \<longleftrightarrow> (mm_prefix_active m \<longrightarrow> mm_current m = PREFIX)
     \<and> (mm_current m = mm_previous m \<longrightarrow> mm_current m = INSERT)"

inductive mode_step :: "mode_manager \<Rightarrow> mode_manager \<Rightarrow> bool" where
  ms_enter: "mode_step m (snd (enter k m))"
| ms_exit: "mode_step m (snd (exit_to_previous m))"
| ms_activate: "mode_step m (activate_prefix now t m)"
| ms_deactivate: "mode_step m (deactivate_prefix m)"
| ms_timeout: "mode_step m (snd (check_prefix_timeout now m))"
| ms_callback: "mode_step m (on_mode_change m)"

inductive_cases mode_stepE: "mode_step m m'"

lemma enter_fields:
  "mm_current (snd (enter k m)) = k"
  "mm_previous (snd (enter k m)) = (if mm_current m = k then mm_previous m else mm_current m)"
  "mm_prefix_active (snd (enter k m)) = (mm_prefix_active m \<and> (mm_current m = k \<or> k = PREFIX))"
  by (auto simp: enter_def Let_def)

lemma enter_ok: "modes_ok m \<Longrightarrow> modes_ok (snd (enter k m))"
  by (auto simp: modes_ok_def enter_fields)

lemma exit_ok: "modes_ok m \<Longrightarrow> modes_ok (snd (exit_to_previous m))"
  by (auto simp: exit_to_previous_def enter_ok)

lemma activate_ok: "modes_ok m \<Longrightarrow> modes_ok (activate_prefix now t m)"
  by (auto simp: modes_ok_def activate_prefix_def enter_fields)

lemma deactivate_fields:
  assumes "modes_ok m"
  shows "\<not> mm_prefix_active (deactivate_prefix m)" "mm_current (deactivate_prefix m) \<noteq> PREFIX"
    "modes_ok (deactivate_prefix m)"
    "mm_current m = PREFIX \<Longrightarrow> mm_current (deactivate_prefix m) = mm_previous m"
  using assms by (auto simp: modes_ok_def deactivate_prefix_def exit_to_previous_def enter_fields Let_def)

lemma mode_step_ok: "modes_ok m \<Longrightarrow> mode_step m m' \<Longrightarrow> modes_ok m'"
  by (erule mode_stepE)
    (auto simp: enter_ok exit_ok activate_ok deactivate_fields(3) check_prefix_timeout_def
       on_mode_change_def modes_ok_def [of "_\<lparr>mm_callback := True\<rparr>"], auto simp: modes_ok_def)

interpretation mode_run: step_invariant mode_step modes_ok
  by unfold_locales (rule mode_step_ok)

lemma initial_modes_ok: "modes_ok initial_modes"
  by (simp add: modes_ok_def initial_modes_def)

text \<open>
  Mode invariant: along every run of the mode machine a pending prefix key implies \<open>PREFIX\<close> mode,
  and \<open>deactivate_prefix\<close> always leaves \<open>PREFIX\<close> mode with no prefix pending, so a timeout
  or an unknown key cannot strand the user there.
\<close>

lemma prefix_mode_never_stuck:
  assumes "mode_step\<^sup>*\<^sup>* initial_modes m"
  shows "(mm_prefix_active m \<longrightarrow> mm_current m = PREFIX)
     \<and> mm_current (deactivate_prefix m) \<noteq> PREFIX \<and> \<not> mm_prefix_active (deactivate_prefix m)
     \<and> (mm_prefix_active m \<longrightarrow> elapsed_ms now (mm_prefix_time m) \<ge> mm_prefix_timeout_ms m \<longrightarrow>
          fst (check_prefix_timeout now m) \<and> mm_current (snd (check_prefix_timeout now m)) \<noteq> PREFIX)"
proof -
  have ok: "modes_ok m" by (rule mode_run.inv_steps [OF assms initial_modes_ok])
  then show ?thesis using deactivate_fields [OF ok]
    by (auto simp: modes_ok_def check_prefix_timeout_def)
qed

lemma prefix_mode_never_stuck_example:
  "mm_current (deactivate_prefix (activate_prefix 0 1000 initial_modes)) \<noteq> PREFIX"
proof -
  have "mode_step\<^sup>*\<^sup>* initial_modes (activate_prefix 0 1000 initial_modes)"
    by (rule r_into_rtranclp) (rule ms_activate)
  from prefix_mode_never_stuck [OF this] show ?thesis by blast
qed

text \<open>
  Prefix round trip: pressing the prefix key and leaving prefix mode again returns to the mode
  the user was in; the callback, when set, sees exactly the two changes.
\<close>

lemma prefix_round_trip:
  assumes "mm_current m \<noteq> PREFIX"
  shows "case deactivate_prefix (activate_prefix now t m) of m' \<Rightarrow>
     mm_current m' = mm_current m \<and> mm_previous m' = PREFIX \<and> \<not> mm_prefix_active m'
     \<and> mm_changes m' = mm_changes m @
         (if mm_callback m then [(mm_current m, PREFIX), (PREFIX, mm_current m)] else [])"
  using assms
  by (auto simp: activate_prefix_def deactivate_prefix_def exit_to_previous_def enter_def Let_def)

end
