(* ===== verification/Tui_Keys.thy ===== *)
theory Tui_Keys
  imports Tui_Modes "HOL-Library.Product_Lexorder"
begin

text \<open>
  Key bindings: \<open>KeyManager\<close> in \<open>modules/tui/include/tui/managers/key_manager.hpp\<close> and
  \<open>modules/tui/src/managers/key_manager.cpp\<close>. The terminal library's \<open>Event\<close> is seen only through
  what the sources ask of it: which named key it equals, whether it is a character event, and the
  bytes of the character.
\<close>

section \<open>Events and bindings\<close>

datatype named_key =
    ArrowLeft | ArrowRight | ArrowUp | ArrowDown | Backspace | Delete | Home | End | PageUp | PageDown
  | Tab | TabReverse | Return | Escape | F1 | F2 | F3 | F4 | F5 | F6 | F7 | F8 | F9 | F10 | F11 | F12

record event =
  ev_named :: "named_key option"
  ev_is_character :: bool
  ev_character :: string

record key_binding =
  kb_key :: string
  kb_command :: string
  kb_description :: string
  kb_mode :: mode
  kb_is_prefix :: bool

type_synonym key_table = "(mode \<times> bool, (string, key_binding) std_map) std_map"

primrec named_key_string :: "named_key \<Rightarrow> string" where
  "named_key_string ArrowLeft = ''ArrowLeft''"
| "named_key_string ArrowRight = ''ArrowRight''"
| "named_key_string ArrowUp = ''ArrowUp''"
| "named_key_string ArrowDown = ''ArrowDown''"
| "named_key_string Backspace = ''Backspace''"
| "named_key_string Delete = ''Delete''"
| "named_key_string Home = ''Home''"
| "named_key_string End = ''End''"
| "named_key_string PageUp = ''PageUp''"
| "named_key_string PageDown = ''PageDown''"
| "named_key_string Tab = ''Tab''"
| "named_key_string TabReverse = ''Shift-Tab''"
| "named_key_string Return = ''Return''"
| "named_key_string Escape = ''Escape''"
| "named_key_string F1 = ''F1''"
| "named_key_string F2 = ''F2''"
| "named_key_string F3 = ''F3''"
| "named_key_string F4 = ''F4''"
| "named_key_string F5 = ''F5''"
| "named_key_string F6 = ''F6''"
| "named_key_string F7 = ''F7''"
| "named_key_string F8 = ''F8''"
| "named_key_string F9 = ''F9''"
| "named_key_string F10 = ''F10''"
| "named_key_string F11 = ''F11''"
| "named_key_string F12 = ''F12''"

text \<open>
  The code point arithmetic \<open>'A' + (code - 1)\<close> is on \<open>int\<close>; for the NUL byte it gives \<open>'@'\<close>.
\<close>

definition event_to_key_string :: "event \<Rightarrow> string" where
  "event_to_key_string ev =
     (case ev_named ev of
        Some k \<Rightarrow> named_key_string k
      | None \<Rightarrow>
          if ev_is_character ev then
            (case ev_character ev of
               [] \<Rightarrow> []
             | c # _ \<Rightarrow>
                 let code = (of_char c :: nat) in
                 if code = 2 then ''Ctrl-B''
                 else if code = 3 then ''Ctrl-C''
                 else if code = 4 then ''Ctrl-D''
                 else if code < 32 then ''Ctrl-'' @ [char_of (64 + code)]
                 else ev_character ev)
          else [])"

section \<open>Operations\<close>

definition bind :: "key_binding \<Rightarrow> key_table \<Rightarrow> bool \<times> key_table" where
  "bind b kt =
     (let key = (kb_mode b, kb_is_prefix b);
          inner = (case map_get kt key of None \<Rightarrow> [] | Some t \<Rightarrow> t)
      in (True, map_put key (map_put (kb_key b) b inner) kt))"

definition unbind :: "string \<Rightarrow> mode \<Rightarrow> bool \<Rightarrow> key_table \<Rightarrow> bool \<times> key_table" where
  "unbind key m pfx kt =
     (case map_get kt (m, pfx) of
        None \<Rightarrow> (False, kt)
      | Some t \<Rightarrow> (map_get t key \<noteq> None, map_put (m, pfx) (map_erase key t) kt))"

definition lookup_by_key :: "key_table \<Rightarrow> string \<Rightarrow> mode \<Rightarrow> bool \<Rightarrow> string option" where
  "lookup_by_key kt key m pfx =
     (case map_get kt (m, pfx) of
        None \<Rightarrow> None
      | Some t \<Rightarrow> map_option kb_command (map_get t key))"

definition lookup :: "key_table \<Rightarrow> event \<Rightarrow> mode \<Rightarrow> bool \<Rightarrow> string option" where
  "lookup kt ev m pfx =
     (let key_str = event_to_key_string ev;
          found = (if key_str \<noteq> [] then lookup_by_key kt key_str m pfx else None)
      in case found of
           Some cmd \<Rightarrow> Some cmd
         | None \<Rightarrow>
             if ev_is_character ev then
               (case ev_character ev of
                  [] \<Rightarrow> None
                | c # _ \<Rightarrow> if tolower c \<noteq> c then lookup_by_key kt [tolower c] m pfx else None)
             else None)"

definition get_bindings :: "key_table \<Rightarrow> mode \<Rightarrow> bool \<Rightarrow> key_binding list" where
  "get_bindings kt m pfx = (case map_get kt (m, pfx) of None \<Rightarrow> [] | Some t \<Rightarrow> map snd t)"

definition clear_bindings :: "key_table \<Rightarrow> key_table" where
  "clear_bindings kt = []"

definition prefix_binding :: "string \<Rightarrow> string \<Rightarrow> string \<Rightarrow> key_binding" where
  "prefix_binding k c d = \<lparr>kb_key = k, kb_command = c, kb_description = d, kb_mode = PREFIX, kb_is_prefix = True\<rparr>"

definition normal_binding :: "string \<Rightarrow> string \<Rightarrow> string \<Rightarrow> key_binding" where
  "normal_binding k c d = \<lparr>kb_key = k, kb_command = c, kb_description = d, kb_mode = NORMAL, kb_is_prefix = False\<rparr>"

definition default_bindings :: "key_binding list" where
  "default_bindings =
    [prefix_binding ''c'' ''new-window'' ''Create new window'',
     prefix_binding ''|'' ''split-vertical'' ''Split pane vertically'',
     prefix_binding ''_'' ''split-horizontal'' ''Split pane horizontally'',
     prefix_binding ''x'' ''kill-pane'' ''Close current pane'',
     prefix_binding ''d'' ''kill-pane'' ''Close current pane'',
     prefix_binding ''X'' ''kill-window'' ''Close current window'',
     prefix_binding ''&'' ''kill-window'' ''Close current window'',
     prefix_binding ''h'' ''navigate-left'' ''Navigate to pane on left'',
     prefix_binding ''j'' ''navigate-down'' ''Navigate to pane below'',
     prefix_binding ''k'' ''navigate-up'' ''Navigate to pane above'',
     prefix_binding ''l'' ''navigate-right'' ''Navigate to pane on right'',
     prefix_binding ''n'' ''next-window'' ''Switch to next window'',
     prefix_binding ''p'' ''previous-window'' ''Switch to previous window'',
     prefix_binding ''o'' ''last-window'' ''Switch to last window'',
     prefix_binding ''+'' ''toggle-zoom'' ''Toggle pane zoom'',
     prefix_binding ''z'' ''toggle-zoom'' ''Toggle pane zoom'',
     prefix_binding ''q'' ''quit'' ''Quit application'',
     prefix_binding ''?'' ''help'' ''Show help'',
     prefix_binding ''Ctrl-S'' ''save-layout'' ''Save layout'',
     prefix_binding ''Ctrl-R'' ''restore-layout'' ''Restore layout'',
     prefix_binding '':'' ''command-mode'' ''Enter command mode'',
     prefix_binding ''['' ''copy-mode'' ''Enter copy/visual mode'',
     prefix_binding ''r'' ''rename-window'' ''Rename current window'',
     prefix_binding ''ArrowLeft'' ''navigate-left'' ''Navigate to pane on left'',
     prefix_binding ''ArrowRight'' ''navigate-right'' ''Navigate to pane on right'',
     prefix_binding ''ArrowUp'' ''navigate-up'' ''Navigate to pane above'',
     prefix_binding ''ArrowDown'' ''navigate-down'' ''Navigate to pane below'',
     normal_binding ''i'' ''enter-insert-mode'' ''Enter insert mode'',
     normal_binding ''v'' ''enter-visual-mode'' ''Enter visual mode'',
     normal_binding '':'' ''enter-command-mode'' ''Enter command mode'',
     normal_binding ''Escape'' ''enter-normal-mode'' ''Enter normal mode'',
     normal_binding ''F7'' ''quit'' ''Quit application'',
     normal_binding ''Ctrl-D'' ''quit'' ''Quit application'']"

definition load_defaults :: "key_table \<Rightarrow> key_table" where
  "load_defaults kt = fold (\<lambda>b t. snd (bind b t)) default_bindings kt"

definition new_key_manager :: key_table where
  "new_key_manager = load_defaults []"

definition binding_line :: "key_binding \<Rightarrow> string" where
  "binding_line b = ''  '' @ kb_key b @ '' - '' @ kb_description b @ [CHR 0x0A]"

definition keys_help_text :: "key_table \<Rightarrow> string" where
  "keys_help_text kt =
     ''=== Key Bindings ==='' @ [CHR 0x0A, CHR 0x0A] @
     ''Prefix Commands (Ctrl-B + key):'' @ [CHR 0x0A] @
     concat (map binding_line (get_bindings kt PREFIX True)) @
     [CHR 0x0A] @ ''Normal Mode:'' @ [CHR 0x0A] @
     concat (map binding_line (get_bindings kt NORMAL False))"

section \<open>The table as a keyed store\<close>

definition keys_ok :: "key_table \<Rightarrow> bool" where
  "keys_ok kt \<longleftrightarrow> std_map_wf kt \<and>
     (\<forall>((m, pfx), t)\<in>set kt. std_map_wf t \<and>
        (\<forall>(k, b)\<in>set t. kb_key b = k \<and> kb_mode b = m \<and> kb_is_prefix b = pfx))"

definition find_binding :: "key_table \<Rightarrow> mode \<times> bool \<times> string \<Rightarrow> key_binding option" where
  "find_binding kt mk =
     (case mk of (m, pfx, key) \<Rightarrow> Option.bind (map_get kt (m, pfx)) (\<lambda>t. map_get t key))"

definition put_binding :: "mode \<times> bool \<times> string \<Rightarrow> string \<times> string \<Rightarrow> key_table \<Rightarrow> key_table" where
  "put_binding mk v kt =
     (case (mk, v) of ((m, pfx, key), (c, d)) \<Rightarrow>
        snd (bind \<lparr>kb_key = key, kb_command = c, kb_description = d, kb_mode = m, kb_is_prefix = pfx\<rparr> kt))"

definition get_binding :: "key_table \<Rightarrow> mode \<times> bool \<times> string \<Rightarrow> (string \<times> string) option" where
  "get_binding kt mk = map_option (\<lambda>b. (kb_command b, kb_description b)) (find_binding kt mk)"

definition erase_binding :: "mode \<times> bool \<times> string \<Rightarrow> key_table \<Rightarrow> key_table" where
  "erase_binding mk kt = (case mk of (m, pfx, key) \<Rightarrow> snd (unbind key m pfx kt))"

lemma find_binding_bind:
  "find_binding (snd (bind b kt)) mk =
     (if mk = (kb_mode b, kb_is_prefix b, kb_key b) then Some b else find_binding kt mk)"
  by (cases mk) (auto simp: find_binding_def bind_def std_map_laws Let_def split: option.splits)

lemma find_binding_unbind:
  "find_binding (snd (unbind key m pfx kt)) mk =
     (if mk = (m, pfx, key) then None else find_binding kt mk)"
  by (cases mk) (auto simp: find_binding_def unbind_def std_map_laws split: option.splits)

lemma lookup_by_key_find: "lookup_by_key kt key m pfx = map_option kb_command (find_binding kt (m, pfx, key))"
  by (auto simp: lookup_by_key_def find_binding_def split: option.splits)

lemma bind_ok: "keys_ok kt \<Longrightarrow> keys_ok (snd (bind b kt))"
  unfolding keys_ok_def
proof (elim conjE, intro conjI ballI)
  assume wf: "std_map_wf kt" and inner: "\<forall>((m, pfx), t)\<in>set kt. std_map_wf t \<and>
        (\<forall>(k, b)\<in>set t. kb_key b = k \<and> kb_mode b = m \<and> kb_is_prefix b = pfx)"
  show "std_map_wf (snd (bind b kt))" using wf by (simp add: bind_def Let_def std_map_wf_put)
  fix e assume "e \<in> set (snd (bind b kt))"
  then consider "e = ((kb_mode b, kb_is_prefix b), map_put (kb_key b) b
       (case map_get kt (kb_mode b, kb_is_prefix b) of None \<Rightarrow> [] | Some t \<Rightarrow> t))" | "e \<in> set kt"
    by (auto simp: bind_def Let_def dest: set_map_put)
  then show "case e of (x, xa) \<Rightarrow> (case x of (m, pfx) \<Rightarrow> \<lambda>t. std_map_wf t \<and>
        (\<forall>(k, b)\<in>set t. kb_key b = k \<and> kb_mode b = m \<and> kb_is_prefix b = pfx)) xa"
  proof cases
    case 1
    show ?thesis
    proof (cases "map_get kt (kb_mode b, kb_is_prefix b)")
      case None
      with 1 show ?thesis by (simp add: std_map_wf_def)
    next
      case (Some t)
      with inner have "std_map_wf t \<and>
        (\<forall>(k, b')\<in>set t. kb_key b' = k \<and> kb_mode b' = kb_mode b \<and> kb_is_prefix b' = kb_is_prefix b)"
        by (auto dest!: map_get_in_set)
      with 1 Some show ?thesis by (auto simp: std_map_wf_put dest!: set_map_put)
    qed
  qed (use inner in auto)
qed

lemma unbind_ok:
  assumes "keys_ok kt"
  shows "keys_ok (snd (unbind key m pfx kt))"
proof (cases "map_get kt (m, pfx)")
  case (Some t)
  then have t: "((m, pfx), t) \<in> set kt" by (rule map_get_in_set)
  with assms have "std_map_wf (map_erase key t)" "\<forall>(k, b)\<in>set (map_erase key t). kb_key b = k \<and> kb_mode b = m \<and> kb_is_prefix b = pfx"
    by (auto simp: keys_ok_def std_map_wf_erase, auto simp: map_erase_def)
  with assms Some show ?thesis
    by (auto simp: keys_ok_def unbind_def std_map_wf_put dest!: set_map_put)
qed (use assms in \<open>simp add: unbind_def\<close>)

interpretation key_store: kv_store "[]" put_binding get_binding erase_binding keys_ok
  by unfold_locales
    (auto simp: put_binding_def get_binding_def erase_binding_def find_binding_bind find_binding_unbind
       bind_ok unbind_ok split: prod.splits, simp_all add: find_binding_def map_get_def keys_ok_def std_map_wf_def split: prod.splits)

section \<open>Properties\<close>

lemma put_binding_bind:
  "put_binding (kb_mode b, kb_is_prefix b, kb_key b) (kb_command b, kb_description b) = (\<lambda>t. snd (bind b t))"
  by (rule ext, cases b) (simp add: put_binding_def)

lemma find_binding_keyed:
  assumes "keys_ok kt" "find_binding kt (m, pfx, key) = Some b"
  shows "kb_mode b = m \<and> kb_is_prefix b = pfx \<and> kb_key b = key"
  using assms by (auto simp: keys_ok_def find_binding_def dest!: map_get_in_set split: Option.bind_splits)

lemma load_defaults_put:
  "load_defaults kt = fold (\<lambda>(k, v). put_binding k v)
     (map (\<lambda>b. ((kb_mode b, kb_is_prefix b, kb_key b), (kb_command b, kb_description b))) default_bindings) kt"
  by (simp add: load_defaults_def fold_map comp_def put_binding_bind)

lemma keys_ok_defaults: "keys_ok new_key_manager"
  unfolding new_key_manager_def load_defaults_put by (rule key_store.ok_put_all) (rule key_store.ok_empty)

lemma default_lookup:
  "lookup_by_key new_key_manager key m pfx =
     map_option fst (map_of (rev (map (\<lambda>b. ((kb_mode b, kb_is_prefix b, kb_key b), (kb_command b, kb_description b)))
        default_bindings)) (m, pfx, key))"
proof -
  have "lookup_by_key new_key_manager key m pfx = map_option fst (get_binding new_key_manager (m, pfx, key))"
    by (simp add: lookup_by_key_find get_binding_def option.map_comp comp_def)
  then show ?thesis by (simp add: new_key_manager_def load_defaults_put key_store.get_load)
qed

text \<open>
  Binding and lookup: after \<open>bind\<close>, pressing the bound key in the bound mode finds the command;
  an upper-case letter with no binding of its own falls back to its lower-case binding and never
  overrides an exact one; after \<open>unbind\<close> the exact binding is gone and no other is touched.
\<close>

lemma bind_then_lookup:
  assumes "event_to_key_string ev = kb_key b" "kb_key b \<noteq> []"
  shows "lookup (snd (bind b kt)) ev (kb_mode b) (kb_is_prefix b) = Some (kb_command b)
     \<and> (ev_is_character ev \<longrightarrow> ev_character ev = [c] \<longrightarrow> tolower c \<noteq> c \<longrightarrow>
          lookup (snd (unbind (kb_key b) (kb_mode b) (kb_is_prefix b) (snd (bind b kt)))) ev (kb_mode b) (kb_is_prefix b) =
            (if [tolower c] = kb_key b then None else lookup_by_key kt [tolower c] (kb_mode b) (kb_is_prefix b)))
     \<and> (\<forall>key m pfx. (m, pfx, key) \<noteq> (kb_mode b, kb_is_prefix b, kb_key b) \<longrightarrow>
          lookup_by_key (snd (unbind (kb_key b) (kb_mode b) (kb_is_prefix b) (snd (bind b kt)))) key m pfx =
            lookup_by_key kt key m pfx)"
  using assms by (auto simp: lookup_def Let_def lookup_by_key_find find_binding_bind find_binding_unbind)

lemma bind_then_lookup_example:
  "lookup (snd (bind (prefix_binding ''Q'' ''quit'' ''Quit'') new_key_manager))
     \<lparr>ev_named = None, ev_is_character = True, ev_character = ''Q''\<rparr> PREFIX True = Some ''quit''"
  using bind_then_lookup [of "\<lparr>ev_named = None, ev_is_character = True, ev_character = ''Q''\<rparr>"
     "prefix_binding ''Q'' ''quit'' ''Quit''" new_key_manager]
  by (simp add: event_to_key_string_def prefix_binding_def)

text \<open>
  Default table: a fresh key manager is well formed, answers exactly the documented table (no
  default binding shadows another), and binds nothing in \<open>INSERT\<close> mode, where every key goes to the
  pane.
\<close>

lemma default_key_table:
  "keys_ok new_key_manager
   \<and> (\<forall>b\<in>set default_bindings. find_binding new_key_manager (kb_mode b, kb_is_prefix b, kb_key b) = Some b)
   \<and> (\<forall>ev pfx. lookup new_key_manager ev INSERT pfx = None)"
proof (intro conjI allI ballI)
  fix b assume b: "b \<in> set default_bindings"
  let ?kv = "\<lambda>b. ((kb_mode b, kb_is_prefix b, kb_key b), (kb_command b, kb_description b))"
  have "distinct (map fst (rev (map ?kv default_bindings)))"
    by (simp add: default_bindings_def prefix_binding_def normal_binding_def)
  with b have "get_binding new_key_manager (fst (?kv b)) = Some (snd (?kv b))"
    unfolding new_key_manager_def load_defaults_put key_store.get_load
    by (auto intro!: map_of_is_SomeI)
  then obtain b' where "find_binding new_key_manager (kb_mode b, kb_is_prefix b, kb_key b) = Some b'"
    "kb_command b' = kb_command b" "kb_description b' = kb_description b"
    by (auto simp: get_binding_def)
  with find_binding_keyed [OF keys_ok_defaults this(1)]
  show "find_binding new_key_manager (kb_mode b, kb_is_prefix b, kb_key b) = Some b"
    by simp
next
  fix ev pfx
  have "lookup_by_key new_key_manager key INSERT pfx = None" for key
    by (simp add: default_lookup default_bindings_def prefix_binding_def normal_binding_def)
  then show "lookup new_key_manager ev INSERT pfx = None"
    by (auto simp: lookup_def Let_def split: list.split)
qed (rule keys_ok_defaults)

end
