(* ===== verification/Tui_Menus.thy ===== *)
theory Tui_Menus
  imports Tui_Keys
begin

text \<open>
  Menu navigation: \<open>MenuManager\<close> in \<open>modules/tui/include/tui/managers/menu_manager.hpp\<close> and
  \<open>modules/tui/src/managers/menu_manager.cpp\<close>. The virtual methods of \<open>Menu\<close>
  (\<open>modules/tui/include/tui/menu.hpp\<close>) that the manager calls are the fields of a \<open>menu_class\<close>.
  The lifecycle hooks act on the menu object and on what menus change in the context they were
  built with: the key bindings and the status message, the record \<open>screen\<close>. The manager's pointer
  to the context is \<open>mn_ctx\<close>: the modes it switches itself and the screen it hands to the hooks.
  The calls of the hooks are collected in \<open>mn_hooks\<close> in order. A null pointer is \<^const>\<open>None\<close>.
\<close>

record screen =
  sc_keys :: key_table
  sc_status :: string

type_synonym seen_context = "(mode_manager \<times> screen) option"

type_synonym menu_state = "(string, string) std_map"

record 'm menu_class =
  mc_preserve_state :: "'m \<Rightarrow> bool"
  mc_save_state :: "'m \<Rightarrow> menu_state"
  mc_restore_state :: "menu_state \<Rightarrow> 'm \<Rightarrow> 'm"
  mc_build :: "'m \<Rightarrow> 'm"
  mc_on_load :: "'m \<times> screen \<Rightarrow> 'm \<times> screen"
  mc_on_unload :: "'m \<times> screen \<Rightarrow> 'm \<times> screen"
  mc_on_resume :: "'m \<times> screen \<Rightarrow> 'm \<times> screen"

datatype hook = OnLoad | OnUnload | OnResume

record 'm menu_entry =
  me_menu :: "'m option"
  me_saved_state :: menu_state
  me_menu_id :: string

record 'm menu_manager =
  mn_factories :: "(string, 'm option) std_map"
  mn_stack :: "'m menu_entry list"
  mn_forward_stack :: "string list"
  mn_ctx :: seen_context
  mn_hooks :: "(hook \<times> string) list"

section \<open>Operations\<close>

definition new_menu_manager :: "'m menu_manager" where
  "new_menu_manager = \<lparr>mn_factories = [], mn_stack = [], mn_forward_stack = [], mn_ctx = None, mn_hooks = []\<rparr>"

definition set_context :: "mode_manager \<times> screen \<Rightarrow> 'm menu_manager \<Rightarrow> 'm menu_manager" where
  "set_context ctx mn = mn\<lparr>mn_ctx := Some ctx\<rparr>"

definition register_menu :: "string \<Rightarrow> 'm option \<Rightarrow> 'm menu_manager \<Rightarrow> 'm menu_manager" where
  "register_menu i factory mn = mn\<lparr>mn_factories := map_put i factory (mn_factories mn)\<rparr>"

definition is_registered :: "'m menu_manager \<Rightarrow> string \<Rightarrow> bool" where
  "is_registered mn i \<longleftrightarrow> map_get (mn_factories mn) i \<noteq> None"

definition list_registered :: "'m menu_manager \<Rightarrow> string list" where
  "list_registered mn = map fst (mn_factories mn)"

definition current_menu :: "'m menu_manager \<Rightarrow> 'm option" where
  "current_menu mn = (if mn_stack mn = [] then None else me_menu (last (mn_stack mn)))"

definition stack_depth :: "'m menu_manager \<Rightarrow> nat" where
  "stack_depth mn = length (mn_stack mn)"

definition update_mode_for_active_menu :: "'m menu_manager \<Rightarrow> 'm menu_manager" where
  "update_mode_for_active_menu mn =
     (case mn_ctx mn of
        None \<Rightarrow> mn
      | Some (modes, sc) \<Rightarrow>
          if current_menu mn \<noteq> None then mn\<lparr>mn_ctx := Some (snd (enter NORMAL modes), sc)\<rparr>
          else mn\<lparr>mn_ctx := Some (snd (enter INSERT modes), sc)\<rparr>)"

text \<open>
  Calling a hook of a menu. No menu is built, so none is on the stack, without a context.
\<close>

definition run_hook :: "('m \<times> screen \<Rightarrow> 'm \<times> screen) \<Rightarrow> 'm \<Rightarrow> seen_context \<Rightarrow> 'm \<times> seen_context" where
  "run_hook h m ctx =
     (case ctx of
        None \<Rightarrow> (m, None)
      | Some (modes, sc) \<Rightarrow> (case h (m, sc) of (m', sc') \<Rightarrow> (m', Some (modes, sc'))))"

text \<open>Save the state of an entry that wants it, then call its \<open>on_unload\<close> hook.\<close>

definition save_entry :: "'m menu_class \<Rightarrow> 'm menu_entry \<Rightarrow> 'm menu_entry" where
  "save_entry mc e =
     (case me_menu e of
        Some m \<Rightarrow> if mc_preserve_state mc m then e\<lparr>me_saved_state := mc_save_state mc m\<rparr> else e
      | None \<Rightarrow> e)"

definition unload_entry ::
  "'m menu_class \<Rightarrow> 'm menu_entry \<Rightarrow> seen_context \<Rightarrow> 'm menu_entry \<times> seen_context \<times> (hook \<times> string) list" where
  "unload_entry mc e ctx =
     (case me_menu e of
        Some m \<Rightarrow> (case run_hook (mc_on_unload mc) m ctx of (m', ctx') \<Rightarrow>
          (e\<lparr>me_menu := Some m'\<rparr>, ctx', [(OnUnload, me_menu_id e)]))
      | None \<Rightarrow> (e, ctx, []))"

definition leave_top :: "'m menu_class \<Rightarrow> 'm menu_manager \<Rightarrow> 'm menu_manager" where
  "leave_top mc mn =
     (if mn_stack mn = [] then mn
      else
        let (e, ctx, hs) = unload_entry mc (save_entry mc (last (mn_stack mn))) (mn_ctx mn)
        in mn\<lparr>mn_stack := butlast (mn_stack mn) @ [e], mn_ctx := ctx, mn_hooks := mn_hooks mn @ hs\<rparr>)"

definition load :: "'m menu_class \<Rightarrow> string \<Rightarrow> 'm menu_manager \<Rightarrow> bool \<times> 'm menu_manager" where
  "load mc menu_id mn =
     (case map_get (mn_factories mn) menu_id of
        None \<Rightarrow> (False, mn)
      | Some factory \<Rightarrow>
          let mn1 = leave_top mc mn in
          (case factory of
             None \<Rightarrow> (False, mn1)
           | Some m \<Rightarrow>
               if mn_ctx mn1 = None then (False, mn1)
               else
                 let (m', ctx) = run_hook (mc_on_load mc) (mc_build mc m) (mn_ctx mn1);
                     entry = \<lparr>me_menu = Some m', me_saved_state = [], me_menu_id = menu_id\<rparr>;
                     mn2 = mn1\<lparr>mn_ctx := ctx,
                               mn_hooks := mn_hooks mn1 @ [(OnLoad, menu_id)],
                               mn_stack := mn_stack mn1 @ [entry],
                               mn_forward_stack := []\<rparr>
                 in (True, update_mode_for_active_menu mn2)))"

definition resume_entry ::
  "'m menu_class \<Rightarrow> 'm menu_entry \<Rightarrow> seen_context \<Rightarrow> 'm menu_entry \<times> seen_context \<times> (hook \<times> string) list" where
  "resume_entry mc e ctx =
     (case me_menu e of
        None \<Rightarrow> (e, ctx, [])
      | Some m \<Rightarrow>
          let m' = (if mc_preserve_state mc m \<and> me_saved_state e \<noteq> []
                    then mc_restore_state mc (me_saved_state e) m else m);
              (m'', ctx') = run_hook (mc_on_resume mc) m' ctx
          in (e\<lparr>me_menu := Some m''\<rparr>, ctx', [(OnResume, me_menu_id e)]))"

definition menu_back :: "'m menu_class \<Rightarrow> 'm menu_manager \<Rightarrow> bool \<times> 'm menu_manager" where
  "menu_back mc mn =
     (if length (mn_stack mn) \<le> 1 then (False, mn)
      else
        let current_id = me_menu_id (last (mn_stack mn));
            mn1 = leave_top mc mn;
            mn2 = mn1\<lparr>mn_stack := butlast (mn_stack mn1),
                      mn_forward_stack := mn_forward_stack mn1 @ [current_id]\<rparr>;
            (e, ctx, hs) = resume_entry mc (last (mn_stack mn2)) (mn_ctx mn2);
            mn3 = mn2\<lparr>mn_stack := butlast (mn_stack mn2) @ [e], mn_ctx := ctx, mn_hooks := mn_hooks mn2 @ hs\<rparr>
        in (True, update_mode_for_active_menu mn3))"

definition forward :: "'m menu_class \<Rightarrow> 'm menu_manager \<Rightarrow> bool \<times> 'm menu_manager" where
  "forward mc mn =
     (if mn_forward_stack mn = [] then (False, mn)
      else
        let menu_id = last (mn_forward_stack mn);
            saved = butlast (mn_forward_stack mn);
            (result, mn1) = load mc menu_id (mn\<lparr>mn_forward_stack := saved\<rparr>);
            mn2 = mn1\<lparr>mn_forward_stack := saved\<rparr>
        in (result, if result then update_mode_for_active_menu mn2 else mn2))"

fun unload_all :: "'m menu_class \<Rightarrow> 'm menu_entry list \<Rightarrow> seen_context \<Rightarrow> seen_context \<times> (hook \<times> string) list" where
  "unload_all mc [] ctx = (ctx, [])"
| "unload_all mc (e # es) ctx =
     (case unload_entry mc e ctx of (_, ctx', hs) \<Rightarrow> apsnd ((@) hs) (unload_all mc es ctx'))"

definition clear_stack :: "'m menu_class \<Rightarrow> 'm menu_manager \<Rightarrow> 'm menu_manager" where
  "clear_stack mc mn =
     (case unload_all mc (mn_stack mn) (mn_ctx mn) of (ctx, hs) \<Rightarrow>
        update_mode_for_active_menu
          (mn\<lparr>mn_hooks := mn_hooks mn @ hs, mn_ctx := ctx, mn_stack := [], mn_forward_stack := []\<rparr>))"

section \<open>Field lemmas\<close>

definition stack_ids :: "'m menu_manager \<Rightarrow> string list" where
  "stack_ids mn = map me_menu_id (mn_stack mn)"

definition seen_modes :: "'m menu_manager \<Rightarrow> mode_manager option" where
  "seen_modes mn = map_option fst (mn_ctx mn)"

lemma update_mode_fields [simp]:
  "mn_factories (update_mode_for_active_menu mn) = mn_factories mn"
  "mn_stack (update_mode_for_active_menu mn) = mn_stack mn"
  "mn_forward_stack (update_mode_for_active_menu mn) = mn_forward_stack mn"
  "mn_hooks (update_mode_for_active_menu mn) = mn_hooks mn"
  "mn_ctx (update_mode_for_active_menu mn) =
     map_option (apfst (\<lambda>c. snd (enter (if current_menu mn \<noteq> None then NORMAL else INSERT) c))) (mn_ctx mn)"
  by (auto simp: update_mode_for_active_menu_def split: option.split)

lemma save_entry_fields [simp]:
  "me_menu (save_entry mc e) = me_menu e" "me_menu_id (save_entry mc e) = me_menu_id e"
  by (auto simp: save_entry_def split: option.split)

lemma run_hook_seen [simp]: "map_option fst (snd (run_hook h m ctx)) = map_option fst ctx"
  "(snd (run_hook h m ctx) = None) = (ctx = None)"
  by (auto simp: run_hook_def split: option.split prod.split)

lemma run_hook_Some [simp]:
  "run_hook h m (Some (modes, sc)) = (fst (h (m, sc)), Some (modes, snd (h (m, sc))))"
  by (simp add: run_hook_def case_prod_beta)

lemma unload_entry_fields [simp]:
  "me_menu (fst (unload_entry mc e ctx)) = map_option (\<lambda>m. fst (run_hook (mc_on_unload mc) m ctx)) (me_menu e)"
  "me_menu_id (fst (unload_entry mc e ctx)) = me_menu_id e"
  "me_saved_state (fst (unload_entry mc e ctx)) = me_saved_state e"
  "map_option fst (fst (snd (unload_entry mc e ctx))) = map_option fst ctx"
  "(fst (snd (unload_entry mc e ctx)) = None) = (ctx = None)"
  "snd (snd (unload_entry mc e ctx)) = (if me_menu e = None then [] else [(OnUnload, me_menu_id e)])"
  by (auto simp: unload_entry_def case_prod_beta split: option.split)

lemma resume_entry_fields [simp]:
  "me_menu_id (fst (resume_entry mc e ctx)) = me_menu_id e"
  "(me_menu (fst (resume_entry mc e ctx)) = None) = (me_menu e = None)"
  "(\<exists>m. me_menu (fst (resume_entry mc e ctx)) = Some m) = (\<exists>m. me_menu e = Some m)"
  "map_option fst (fst (snd (resume_entry mc e ctx))) = map_option fst ctx"
  "(fst (snd (resume_entry mc e ctx)) = None) = (ctx = None)"
  "snd (snd (resume_entry mc e ctx)) = (if me_menu e = None then [] else [(OnResume, me_menu_id e)])"
  by (auto simp: resume_entry_def Let_def case_prod_beta split: option.split)

lemma unload_all_seen [simp]: "map_option fst (fst (unload_all mc es ctx)) = map_option fst ctx"
  by (induction es arbitrary: ctx) (simp_all add: case_prod_beta)

lemma leave_top_fields [simp]:
  "mn_factories (leave_top mc mn) = mn_factories mn"
  "mn_forward_stack (leave_top mc mn) = mn_forward_stack mn"
  "(mn_ctx (leave_top mc mn) = None) = (mn_ctx mn = None)"
  "seen_modes (leave_top mc mn) = seen_modes mn"
  "mn_ctx (leave_top mc mn) =
     (if mn_stack mn = [] then mn_ctx mn
      else fst (snd (unload_entry mc (save_entry mc (last (mn_stack mn))) (mn_ctx mn))))"
  "mn_stack (leave_top mc mn) =
     (if mn_stack mn = [] then []
      else butlast (mn_stack mn) @ [fst (unload_entry mc (save_entry mc (last (mn_stack mn))) (mn_ctx mn))])"
  "mn_hooks (leave_top mc mn) =
     mn_hooks mn @ (if current_menu mn = None then [] else [(OnUnload, me_menu_id (last (mn_stack mn)))])"
  by (simp_all add: leave_top_def current_menu_def Let_def case_prod_beta seen_modes_def)

lemma map_id_replace_last:
  "xs \<noteq> [] \<Longrightarrow> f e = f (last xs) \<Longrightarrow> map f (butlast xs @ [e]) = map f xs"
  by (metis append_butlast_last_id list.simps(8,9) map_append)

lemma stack_ids_leave_top [simp]: "stack_ids (leave_top mc mn) = stack_ids mn"
proof (cases "mn_stack mn = []")
  case False
  then show ?thesis unfolding stack_ids_def leave_top_fields
    by (simp only: if_False) (rule map_id_replace_last, simp_all)
qed (simp add: stack_ids_def)

definition loaded_menu :: "'m menu_class \<Rightarrow> 'm \<Rightarrow> seen_context \<Rightarrow> 'm" where
  "loaded_menu mc m ctx = fst (run_hook (mc_on_load mc) (mc_build mc m) ctx)"

lemma load_cases:
  "load mc i mn =
     (if map_get (mn_factories mn) i = None then (False, mn)
      else if map_get (mn_factories mn) i = Some None \<or> mn_ctx mn = None then (False, leave_top mc mn)
      else let m = the (the (map_get (mn_factories mn) i)); mn1 = leave_top mc mn in
           (True, update_mode_for_active_menu (mn1
             \<lparr>mn_ctx := snd (run_hook (mc_on_load mc) (mc_build mc m) (mn_ctx mn1)),
              mn_hooks := mn_hooks mn1 @ [(OnLoad, i)],
              mn_stack := mn_stack mn1 @
                [\<lparr>me_menu = Some (loaded_menu mc m (mn_ctx mn1)), me_saved_state = [], me_menu_id = i\<rparr>],
              mn_forward_stack := []\<rparr>)))"
  by (auto simp: load_def Let_def case_prod_beta loaded_menu_def simp del: leave_top_fields(5,6,7) split: option.split)

section \<open>Invariant\<close>

text \<open>
  Nothing on the stack is null, everything on either stack can be created again, and the registry
  is an ordered map.
\<close>

definition menus_ok :: "'m menu_manager \<Rightarrow> bool" where
  "menus_ok mn \<longleftrightarrow> std_map_wf (mn_factories mn)
     \<and> (\<forall>e\<in>set (mn_stack mn). me_menu e \<noteq> None)
     \<and> (\<forall>i\<in>set (stack_ids mn) \<union> set (mn_forward_stack mn). is_registered mn i)
     \<and> (mn_stack mn = [] \<longrightarrow> mn_forward_stack mn = [])"

inductive menu_step :: "'m menu_class \<Rightarrow> 'm menu_manager \<Rightarrow> 'm menu_manager \<Rightarrow> bool" for mc where
  mn_step_context: "menu_step mc mn (set_context ctx mn)"
| mn_step_register: "menu_step mc mn (register_menu i f mn)"
| mn_step_load: "menu_step mc mn (snd (load mc i mn))"
| mn_step_back: "menu_step mc mn (snd (menu_back mc mn))"
| mn_step_forward: "menu_step mc mn (snd (forward mc mn))"
| mn_step_clear: "menu_step mc mn (clear_stack mc mn)"

inductive_cases menu_stepE: "menu_step mc mn mn'"

lemma menus_okI:
  assumes "std_map_wf (mn_factories mn)" "\<forall>e\<in>set (mn_stack mn). me_menu e \<noteq> None"
    "\<forall>i\<in>set (stack_ids mn) \<union> set (mn_forward_stack mn). map_get (mn_factories mn) i \<noteq> None"
    "mn_stack mn = [] \<longrightarrow> mn_forward_stack mn = []"
  shows "menus_ok mn"
  using assms by (simp add: menus_ok_def is_registered_def)

lemma leave_top_ok: "menus_ok mn \<Longrightarrow> menus_ok (leave_top mc mn)"
  unfolding menus_ok_def is_registered_def stack_ids_leave_top
  by (auto dest: in_set_butlastD)

lemma update_mode_ok: "menus_ok (update_mode_for_active_menu mn) = menus_ok mn"
  by (simp add: menus_ok_def is_registered_def stack_ids_def)

lemma load_ok:
  assumes "menus_ok mn"
  shows "menus_ok (snd (load mc i mn))"
proof -
  have "menus_ok (leave_top mc mn)" using assms by (rule leave_top_ok)
  moreover define mn1 where "mn1 = leave_top mc mn"
  moreover have "mn_factories mn1 = mn_factories mn" by (simp add: mn1_def)
  ultimately show ?thesis using assms unfolding load_cases mn1_def [symmetric]
    by (auto simp: update_mode_ok) (auto simp: menus_ok_def is_registered_def stack_ids_def)
qed

lemma back_cases:
  assumes "mn_stack mn = es @ [e, e']"
    and "ctx = fst (snd (unload_entry mc (save_entry mc e') (mn_ctx mn)))"
  shows "menu_back mc mn = (True, update_mode_for_active_menu (mn\<lparr>
     mn_stack := es @ [fst (resume_entry mc e ctx)],
     mn_ctx := fst (snd (resume_entry mc e ctx)),
     mn_forward_stack := mn_forward_stack mn @ [me_menu_id e'],
     mn_hooks := mn_hooks mn @ (if me_menu e' = None then [] else [(OnUnload, me_menu_id e')])
       @ (if me_menu e = None then [] else [(OnResume, me_menu_id e)])\<rparr>))"
proof -
  have b: "butlast (es @ [e, x]) = es @ [e]" "butlast (es @ [e]) = es" for x by (simp_all add: butlast_append)
  have "mn_stack (leave_top mc mn) = es @ [e, fst (unload_entry mc (save_entry mc e') (mn_ctx mn))]"
    using assms by (simp add: b)
  moreover have "last (butlast (mn_stack (leave_top mc mn))) = e" "butlast (butlast (mn_stack (leave_top mc mn))) = es"
    by (simp_all only: calculation b last_snoc)
  ultimately show ?thesis using assms
    by (auto simp: menu_back_def Let_def case_prod_beta current_menu_def
        intro!: arg_cong [where f = update_mode_for_active_menu] menu_manager.equality)
qed

lemma back_ok:
  assumes "menus_ok mn"
  shows "menus_ok (snd (menu_back mc mn))"
proof (cases "length (mn_stack mn) \<le> 1")
  case False
  then obtain es e e' where s: "mn_stack mn = es @ [e, e']"
    by (cases "mn_stack mn" rule: rev_cases; cases "butlast (mn_stack mn)" rule: rev_cases) auto
  then show ?thesis using assms unfolding back_cases [OF s refl]
    by (auto simp: update_mode_ok) (auto simp: menus_ok_def is_registered_def stack_ids_def)
qed (use assms in \<open>simp add: menu_back_def\<close>)

lemma forward_ok:
  assumes "menus_ok mn"
  shows "menus_ok (snd (forward mc mn))"
proof (cases "mn_forward_stack mn = []")
  case False
  define saved where "saved = butlast (mn_forward_stack mn)"
  define mn0 where "mn0 = mn\<lparr>mn_forward_stack := saved\<rparr>"
  have sub: "set saved \<subseteq> set (mn_forward_stack mn)" by (auto simp: saved_def dest: in_set_butlastD)
  have "menus_ok mn0" using assms sub False by (auto simp: menus_ok_def is_registered_def stack_ids_def mn0_def)
  then have ok1: "menus_ok (snd (load mc (last (mn_forward_stack mn)) mn0))" by (rule load_ok)
  define mn1 where "mn1 = snd (load mc (last (mn_forward_stack mn)) mn0)"
  have "mn_factories mn1 = mn_factories mn" "mn_stack mn1 \<noteq> []"
    using assms False by (auto simp: mn1_def load_cases mn0_def menus_ok_def)
  then have "menus_ok (mn1\<lparr>mn_forward_stack := saved\<rparr>)"
    using ok1 assms sub by (auto simp: menus_ok_def is_registered_def stack_ids_def mn1_def)
  then show ?thesis using False
    by (simp add: forward_def Let_def saved_def mn1_def mn0_def update_mode_ok case_prod_beta)
qed (use assms in \<open>simp add: forward_def\<close>)

lemma menu_step_ok: "menus_ok mn \<Longrightarrow> menu_step mc mn mn' \<Longrightarrow> menus_ok mn'"
proof (erule menu_stepE)
  fix i f assume "menus_ok mn" "mn' = register_menu i f mn"
  then show "menus_ok mn'"
    by (auto simp: menus_ok_def register_menu_def is_registered_def stack_ids_def std_map_laws)
next
  assume "menus_ok mn" "mn' = clear_stack mc mn"
  then show "menus_ok mn'"
    by (simp add: clear_stack_def update_mode_ok case_prod_beta) (simp add: menus_ok_def stack_ids_def is_registered_def)
qed (auto simp: load_ok back_ok forward_ok, auto simp: menus_ok_def set_context_def is_registered_def stack_ids_def)

interpretation menu_run: step_invariant "menu_step mc" menus_ok
  by unfold_locales (rule menu_step_ok)

section \<open>Properties\<close>

text \<open>
  Navigation history: whatever the sequence of registrations, loads, backs, forwards and
  clears, no null menu is ever on the stack, every id on the back or forward stack is registered,
  and forward history exists only above a non-empty stack.
\<close>

lemma menu_navigation_invariant:
  assumes "(menu_step mc)\<^sup>*\<^sup>* new_menu_manager mn"
  shows "(mn_stack mn \<noteq> [] \<longrightarrow> current_menu mn \<noteq> None)
     \<and> (\<forall>i\<in>set (stack_ids mn) \<union> set (mn_forward_stack mn). is_registered mn i)
     \<and> (mn_forward_stack mn \<noteq> [] \<longrightarrow> mn_stack mn \<noteq> [])"
proof -
  have "menus_ok (new_menu_manager :: 'a menu_manager)"
    by (simp add: menus_ok_def new_menu_manager_def std_map_wf_def stack_ids_def)
  then have "menus_ok mn" by (rule menu_run.inv_steps [OF assms])
  then show ?thesis by (auto simp: menus_ok_def current_menu_def)
qed

definition plain_screen :: screen where
  "plain_screen = \<lparr>sc_keys = new_key_manager, sc_status = []\<rparr>"

definition plain_menus :: "string menu_class" where
  "plain_menus = \<lparr>mc_preserve_state = (\<lambda>_. True), mc_save_state = (\<lambda>m. [(''x'', m)]),
     mc_restore_state = (\<lambda>st m. case map_get st ''x'' of Some v \<Rightarrow> v | None \<Rightarrow> m), mc_build = id,
     mc_on_load = id, mc_on_unload = apfst (\<lambda>m. []), mc_on_resume = id\<rparr>"

lemma menu_navigation_invariant_example:
  "current_menu (snd (load plain_menus ''a'' (set_context (initial_modes, plain_screen)
     (register_menu ''a'' (Some ''m'') new_menu_manager)))) \<noteq> None"
proof -
  let ?mn0 = "new_menu_manager :: string menu_manager"
  let ?mn1 = "register_menu ''a'' (Some ''m'') ?mn0"
  let ?mn2 = "set_context (initial_modes, plain_screen) ?mn1"
  let ?mn3 = "snd (load plain_menus ''a'' ?mn2)"
  have "menu_step plain_menus ?mn0 ?mn1" "menu_step plain_menus ?mn1 ?mn2" "menu_step plain_menus ?mn2 ?mn3"
    by (rule mn_step_register mn_step_context mn_step_load)+
  then have "(menu_step plain_menus)\<^sup>*\<^sup>* ?mn0 ?mn3"
    by (blast intro: converse_rtranclp_into_rtranclp)
  moreover have "mn_stack ?mn3 \<noteq> []"
    by (simp add: load_cases register_menu_def set_context_def new_menu_manager_def map_get_def Let_def)
  ultimately show ?thesis using menu_navigation_invariant by blast
qed

text \<open>
  Back and forward are inverse on the navigation history: from two or more menus, \<open>back\<close> shows the menu
  below and remembers the one left, and a following \<open>forward\<close> brings back the same ids on both stacks,
  with a menu showing in \<open>NORMAL\<close> mode.
\<close>

lemma back_then_forward:
  assumes "menus_ok mn" "mn_stack mn = es @ [e, e']" "mn_ctx mn \<noteq> None"
    "map_get (mn_factories mn) (me_menu_id e') = Some (Some m)"
  shows "case menu_back mc mn of (r1, mn1) \<Rightarrow> case forward mc mn1 of (r2, mn2) \<Rightarrow>
     r1 \<and> r2 \<and> stack_ids mn1 = map me_menu_id es @ [me_menu_id e]
     \<and> mn_forward_stack mn1 = mn_forward_stack mn @ [me_menu_id e']
     \<and> stack_ids mn2 = stack_ids mn \<and> mn_forward_stack mn2 = mn_forward_stack mn
     \<and> (\<exists>sc. current_menu mn2 = Some (fst (mc_on_load mc (mc_build mc m, sc))))
     \<and> map_option mm_current (seen_modes mn2) = Some NORMAL"
proof -
  define mn1 where "mn1 = snd (menu_back mc mn)"
  define ctx where "ctx = fst (snd (unload_entry mc (save_entry mc e') (mn_ctx mn)))"
  have b: "menu_back mc mn = (True, mn1)"
    and f1: "mn_forward_stack mn1 = mn_forward_stack mn @ [me_menu_id e']"
    and s1: "mn_stack mn1 = es @ [fst (resume_entry mc e ctx)]"
    and c1: "mn_ctx mn1 \<noteq> None" and r1: "mn_factories mn1 = mn_factories mn"
    using assms(3) by (simp_all add: mn1_def ctx_def back_cases [OF assms(2) refl])
  define mn2 where "mn2 = snd (forward mc mn1)"
  define mn0 where "mn0 = mn1\<lparr>mn_forward_stack := mn_forward_stack mn\<rparr>"
  have ids0: "stack_ids mn0 = map me_menu_id es @ [me_menu_id e]"
    by (simp add: mn0_def stack_ids_def s1)
  define mn3 where "mn3 = snd (load mc (me_menu_id e') mn0)"
  have l: "load mc (me_menu_id e') mn0 = (True, mn3)"
    using c1 r1 assms(4) by (simp add: mn3_def load_cases mn0_def Let_def)
  have i3: "stack_ids mn3 = stack_ids (leave_top mc mn0) @ [me_menu_id e']"
    using c1 r1 assms(4) by (simp add: mn3_def load_cases mn0_def stack_ids_def Let_def)
  obtain modes sc where c0: "mn_ctx (leave_top mc mn0) = Some (modes, sc)"
    using c1 leave_top_fields(3) [of mc mn0] by (auto simp: mn0_def simp del: leave_top_fields)
  have c3: "current_menu mn3 = Some (fst (mc_on_load mc (mc_build mc m, sc)))" "seen_modes mn3 \<noteq> None"
    using c1 r1 assms(4) c0
    by (auto simp: mn3_def load_cases mn0_def current_menu_def loaded_menu_def seen_modes_def Let_def simp del: leave_top_fields(5))
  have fw: "forward mc mn1 = (True, update_mode_for_active_menu (mn3\<lparr>mn_forward_stack := mn_forward_stack mn\<rparr>))"
    using l f1 by (simp add: forward_def mn0_def)
  have "map_option mm_current (seen_modes (snd (forward mc mn1))) = Some NORMAL"
    using c3 fw by (auto simp: enter_fields current_menu_def seen_modes_def)
  moreover have "stack_ids mn3 = stack_ids mn"
    using i3 ids0 assms(2) by (simp add: stack_ids_def [of mn])
  moreover have "stack_ids mn1 = map me_menu_id es @ [me_menu_id e]" by (simp add: stack_ids_def s1)
  moreover have "stack_ids (update_mode_for_active_menu (mn3\<lparr>mn_forward_stack := x\<rparr>)) = stack_ids mn3"
    "current_menu (update_mode_for_active_menu (mn3\<lparr>mn_forward_stack := x\<rparr>)) = current_menu mn3" for x
    by (simp_all add: stack_ids_def current_menu_def)
  ultimately show ?thesis using b f1 fw c3(1) by auto
qed

lemma menus_ok_two:
  "menus_ok \<lparr>mn_factories = [(''a'', Some ''ma''), (''b'', Some ''mb'')],
     mn_stack = [\<lparr>me_menu = Some ''ma'', me_saved_state = [], me_menu_id = ''a''\<rparr>,
                 \<lparr>me_menu = Some ''mb'', me_saved_state = [], me_menu_id = ''b''\<rparr>],
     mn_forward_stack = [], mn_ctx = Some (initial_modes, plain_screen), mn_hooks = []\<rparr>"
  by (simp add: menus_ok_def std_map_wf_def is_registered_def stack_ids_def map_get_def)

lemma back_then_forward_example:
  "stack_ids (snd (forward plain_menus (snd (menu_back plain_menus
     \<lparr>mn_factories = [(''a'', Some ''ma''), (''b'', Some ''mb'')],
     mn_stack = [\<lparr>me_menu = Some ''ma'', me_saved_state = [], me_menu_id = ''a''\<rparr>,
                 \<lparr>me_menu = Some ''mb'', me_saved_state = [], me_menu_id = ''b''\<rparr>],
     mn_forward_stack = [], mn_ctx = Some (initial_modes, plain_screen), mn_hooks = []\<rparr>)))) = [''a'', ''b'']"
  using back_then_forward [OF menus_ok_two, of "[]", simplified, of _ _ "''mb''" plain_menus]
  by (auto simp: map_get_def stack_ids_def split: prod.splits)

text \<open>
  State preservation: opening another menu and coming back gives the first menu back with the state
  it had when it was left (restored from what \<open>save_state\<close> returned, when it asks for that and the
  saved state is not empty), then resumed; the hooks run in the order unload, load, unload, resume.
\<close>

lemma load_then_back_restores:
  assumes "mn_stack mn = es @ [e]" "me_menu e = Some m" "mn_ctx mn = Some (modes, sc)"
    "map_get (mn_factories mn) i = Some (Some m')"
    "mc_preserve_state mc m" "mc_on_unload mc (m, sc) = (m1, sc1)" "mc_preserve_state mc m1" "mc_save_state mc m \<noteq> []"
    "mc_on_load mc (mc_build mc m', sc1) = (m2, sc2)" "snd (mc_on_unload mc (m2, sc2)) = sc3"
  shows "case menu_back mc (snd (load mc i mn)) of (r, mn') \<Rightarrow>
     r \<and> current_menu mn' = Some (fst (mc_on_resume mc (mc_restore_state mc (mc_save_state mc m) m1, sc3)))
     \<and> butlast (mn_stack mn') = es \<and> mn_forward_stack mn' = [i]
     \<and> mn_hooks mn' = mn_hooks mn @ [(OnUnload, me_menu_id e), (OnLoad, i), (OnUnload, i), (OnResume, me_menu_id e)]"
proof -
  define e1 where "e1 = fst (unload_entry mc (save_entry mc e) (mn_ctx mn))"
  define e2 where "e2 = \<lparr>me_menu = Some m2, me_saved_state = [], me_menu_id = i\<rparr>"
  define mn1 where "mn1 = snd (load mc i mn)"
  have u: "fst (snd (unload_entry mc (save_entry mc e) (mn_ctx mn))) = Some (modes, sc1)"
    using assms(2,3,6) by (simp add: unload_entry_def)
  have s: "mn_stack mn1 = es @ [e1, e2]" and f: "mn_forward_stack mn1 = []"
    and c: "\<exists>modes. mn_ctx mn1 = Some (modes, sc2)"
    and h: "mn_hooks mn1 = mn_hooks mn @ [(OnUnload, me_menu_id e), (OnLoad, i)]"
    using assms(1-4,9) u by (auto simp: mn1_def load_cases e1_def e2_def current_menu_def Let_def loaded_menu_def)
  have e1: "me_menu e1 = Some m1" "me_saved_state e1 = mc_save_state mc m" "me_menu_id e1 = me_menu_id e"
    using assms(2,3,5,6) by (simp_all add: e1_def save_entry_def)
  have u2: "\<exists>modes. fst (snd (unload_entry mc (save_entry mc e2) (mn_ctx mn1))) = Some (modes, sc3)"
    using c assms(10) by (auto simp: unload_entry_def e2_def save_entry_def)
  show ?thesis using e1 f h assms(7,8) u2
    by (auto simp: mn1_def [symmetric] back_cases [OF s refl] current_menu_def resume_entry_def e2_def)
qed

lemma load_then_back_restores_example:
  "current_menu (snd (menu_back plain_menus (snd (load plain_menus ''b''
     \<lparr>mn_factories = [(''b'', Some ''mb'')],
     mn_stack = [\<lparr>me_menu = Some ''ma'', me_saved_state = [], me_menu_id = ''a''\<rparr>],
     mn_forward_stack = [], mn_ctx = Some (initial_modes, plain_screen), mn_hooks = []\<rparr>)))) = Some ''ma''"
  using load_then_back_restores [of "\<lparr>mn_factories = [(''b'', Some ''mb'')],
     mn_stack = [\<lparr>me_menu = Some ''ma'', me_saved_state = [], me_menu_id = ''a''\<rparr>],
     mn_forward_stack = [], mn_ctx = Some (initial_modes, plain_screen), mn_hooks = []\<rparr>" "[]"
     "\<lparr>me_menu = Some ''ma'', me_saved_state = [], me_menu_id = ''a''\<rparr>" "''ma''" initial_modes plain_screen "''b''" "''mb''"
     plain_menus "[]" plain_screen "''mb''" plain_screen plain_screen]
  by (auto simp: map_get_def plain_menus_def split: prod.splits)

text \<open>
  A failed load is not clean: when the factory of a registered menu yields nothing, \<open>load\<close> returns
  \<open>false\<close> and keeps the navigation history, but the menu still shown has already been unloaded and
  is not resumed.
\<close>

lemma failed_load_unloads_current:
  assumes "map_get (mn_factories mn) i = Some None" "current_menu mn = Some m" "mn_ctx mn = Some (modes, sc)"
  shows "case load mc i mn of (r, mn') \<Rightarrow>
     \<not> r \<and> stack_ids mn' = stack_ids mn \<and> mn_forward_stack mn' = mn_forward_stack mn
     \<and> current_menu mn' = Some (fst (mc_on_unload mc (m, sc)))
     \<and> mn_hooks mn' = mn_hooks mn @ [(OnUnload, last (stack_ids mn))]"
  using assms by (auto simp: load_cases current_menu_def last_map stack_ids_def [of mn] split: if_splits)

lemma failed_load_unloads_current_example:
  "current_menu (snd (load plain_menus ''b''
     \<lparr>mn_factories = [(''b'', None)],
     mn_stack = [\<lparr>me_menu = Some ''ma'', me_saved_state = [], me_menu_id = ''a''\<rparr>],
     mn_forward_stack = [], mn_ctx = Some (initial_modes, plain_screen), mn_hooks = []\<rparr>)) = Some []"
  using failed_load_unloads_current [of "\<lparr>mn_factories = [(''b'', None)],
     mn_stack = [\<lparr>me_menu = Some ''ma'', me_saved_state = [], me_menu_id = ''a''\<rparr>],
     mn_forward_stack = [], mn_ctx = Some (initial_modes, plain_screen), mn_hooks = []\<rparr>" "''b''" "''ma''" initial_modes plain_screen plain_menus]
  by (auto simp: map_get_def current_menu_def plain_menus_def split: prod.splits)

end
