(* ===== verification/Tui_Commands.thy ===== *)
theory Tui_Commands
  imports Nazg_Prelude
begin

text \<open>
  Named commands of the multiplexer: \<open>CommandManager\<close> in
  \<open>modules/tui/include/tui/managers/command_manager.hpp\<close> and
  \<open>modules/tui/src/managers/command_manager.cpp\<close>. A command function transforms the context and
  either returns a result or throws (\<^const>\<open>None\<close>); an empty \<open>std::function\<close> is \<^const>\<open>None\<close>.
\<close>

type_synonym 'ctx command_func = "'ctx \<Rightarrow> string list \<Rightarrow> bool option \<times> 'ctx"

record 'ctx command =
  cmd_name :: string
  cmd_description :: string
  cmd_usage :: string
  cmd_func :: "'ctx command_func option"

type_synonym 'ctx command_manager = "(string, 'ctx command) std_map"

section \<open>Operations\<close>

definition register_command :: "'ctx command \<Rightarrow> 'ctx command_manager \<Rightarrow> bool \<times> 'ctx command_manager" where
  "register_command cmd cm =
     (if cmd_name cmd = [] \<or> cmd_func cmd = None then (False, cm)
      else (True, map_put (cmd_name cmd) cmd cm))"

definition register_simple ::
  "string \<Rightarrow> string \<Rightarrow> 'ctx command_func option \<Rightarrow> 'ctx command_manager \<Rightarrow> bool \<times> 'ctx command_manager" where
  "register_simple name description func cm =
     register_command \<lparr>cmd_name = name, cmd_description = description, cmd_usage = name, cmd_func = func\<rparr> cm"

definition unregister_command :: "string \<Rightarrow> 'ctx command_manager \<Rightarrow> bool \<times> 'ctx command_manager" where
  "unregister_command name cm = (map_get cm name \<noteq> None, map_erase name cm)"

definition has_command :: "'ctx command_manager \<Rightarrow> string \<Rightarrow> bool" where
  "has_command cm name \<longleftrightarrow> map_get cm name \<noteq> None"

definition get_command :: "'ctx command_manager \<Rightarrow> string \<Rightarrow> 'ctx command option" where
  "get_command cm name = map_get cm name"

definition get_all_commands :: "'ctx command_manager \<Rightarrow> 'ctx command list" where
  "get_all_commands cm = map snd cm"

definition execute :: "'ctx command_manager \<Rightarrow> 'ctx \<Rightarrow> string \<Rightarrow> string list \<Rightarrow> bool \<times> 'ctx" where
  "execute cm ctx name args =
     (case map_get cm name of
        None \<Rightarrow> (False, ctx)
      | Some cmd \<Rightarrow>
          (case cmd_func cmd of
             None \<Rightarrow> (False, ctx)
           | Some f \<Rightarrow>
               (case f ctx args of
                  (None, ctx') \<Rightarrow> (False, ctx')
                | (Some b, ctx') \<Rightarrow> (b, ctx'))))"

definition parse_cmdline :: "string \<Rightarrow> string \<times> string list" where
  "parse_cmdline cmdline = (case words cmdline of [] \<Rightarrow> ([], []) | w # ws \<Rightarrow> (w, ws))"

definition execute_line :: "'ctx command_manager \<Rightarrow> 'ctx \<Rightarrow> string \<Rightarrow> bool \<times> 'ctx" where
  "execute_line cm ctx cmdline =
     (case parse_cmdline cmdline of (name, args) \<Rightarrow>
        if name = [] then (False, ctx) else execute cm ctx name args)"

definition commands_help_text :: "'ctx command_manager \<Rightarrow> string" where
  "commands_help_text cm =
     ''=== Available Commands ==='' @ [CHR 0x0A, CHR 0x0A] @
     concat (map (\<lambda>(name, cmd). ''  '' @ cmd_usage cmd @ [CHR 0x0A] @ ''    '' @ cmd_description cmd
       @ [CHR 0x0A, CHR 0x0A]) cm)"

section \<open>The registry invariant\<close>

definition commands_ok :: "'ctx command_manager \<Rightarrow> bool" where
  "commands_ok cm \<longleftrightarrow> std_map_wf cm \<and>
     (\<forall>(k, c)\<in>set cm. cmd_name c = k \<and> k \<noteq> [] \<and> cmd_func c \<noteq> None)"

lemma register_command_ok: "commands_ok cm \<Longrightarrow> commands_ok (snd (register_command c cm))"
  by (auto simp: commands_ok_def register_command_def std_map_wf_put dest!: set_map_put)

lemma unregister_command_ok: "commands_ok cm \<Longrightarrow> commands_ok (snd (unregister_command n cm))"
proof -
  assume *: "commands_ok cm"
  then have "std_map_wf (map_erase n cm)" by (simp add: commands_ok_def std_map_wf_erase)
  with * show ?thesis by (auto simp: commands_ok_def unregister_command_def map_erase_def)
qed

text \<open>
  Registered under its own name, a valid command is a keyed store entry: the laws of
  \<open>kv_store\<close> hold for registering, looking up and unregistering.
\<close>

definition put_func ::
  "string \<Rightarrow> 'ctx command_func \<Rightarrow> 'ctx command_manager \<Rightarrow> 'ctx command_manager" where
  "put_func name f cm = map_put name \<lparr>cmd_name = name, cmd_description = [], cmd_usage = name, cmd_func = Some f\<rparr> cm"

definition get_func :: "'ctx command_manager \<Rightarrow> string \<Rightarrow> 'ctx command_func option" where
  "get_func cm name = Option.bind (get_command cm name) cmd_func"

interpretation command_store: kv_store "[]" put_func get_func map_erase std_map_wf
  by unfold_locales
    (simp_all add: put_func_def get_func_def get_command_def std_map_laws, simp_all add: map_get_def std_map_wf_def)

section \<open>Properties\<close>

lemma commands_okD:
  "commands_ok cm \<Longrightarrow> map_get cm k = Some c \<Longrightarrow> cmd_name c = k \<and> k \<noteq> [] \<and> cmd_func c \<noteq> None"
  unfolding commands_ok_def map_get_def by (auto dest!: map_of_SomeD)

lemma execute_line_words:
  "execute_line cm ctx line =
     (case words line of [] \<Rightarrow> (False, ctx) | w # ws \<Rightarrow> execute cm ctx w ws)"
  using words_nonblank [of _ line]
  by (auto simp: execute_line_def parse_cmdline_def split: list.split)

text \<open>
  Command lines: in a well-formed registry, registering a valid command keeps the registry
  well formed, and a line typed as the command name and its blank-free arguments runs exactly that
  function on exactly those arguments: its result is returned, and a throwing function gives
  \<open>false\<close> with whatever it already did to the context.
\<close>

lemma registered_command_runs:
  assumes "commands_ok cm" "cmd_func c = Some f" "\<forall>w\<in>set (cmd_name c # args). w \<noteq> [] \<and> (\<forall>x\<in>set w. \<not> isspace x)"
  shows "fst (register_command c cm) \<and> commands_ok (snd (register_command c cm))
     \<and> execute_line (snd (register_command c cm)) ctx (join_with '' '' (cmd_name c # args)) =
         (case f ctx args of (None, ctx') \<Rightarrow> (False, ctx') | (Some b, ctx') \<Rightarrow> (b, ctx'))"
proof -
  have "words (join_with '' '' (cmd_name c # args)) = cmd_name c # args"
    by (rule words_join) (use assms(3) in \<open>simp_all add: isspace_def\<close>)
  moreover have "fst (register_command c cm)" "map_get (snd (register_command c cm)) (cmd_name c) = Some c"
    using assms by (auto simp: register_command_def map_get_put)
  ultimately show ?thesis using assms(2) register_command_ok [OF assms(1), of c]
    by (simp add: execute_line_words execute_def)
qed

text \<open>
  Isolation of commands: registering or unregistering one command leaves the outcome of every
  line whose first word is another name unchanged, and after \<open>unregister_command\<close> every line with
  that name is refused with the context untouched; a blank line is refused too.
\<close>

lemma commands_isolated:
  "(\<forall>w ws. words line = w # ws \<longrightarrow> w \<noteq> cmd_name c \<longrightarrow>
       execute_line (snd (register_command c cm)) ctx line = execute_line cm ctx line)
   \<and> (\<forall>w ws. words line = w # ws \<longrightarrow>
       execute_line (snd (unregister_command n cm)) ctx line =
         (if w = n then (False, ctx) else execute_line cm ctx line))
   \<and> (words line = [] \<longrightarrow> execute_line cm ctx line = (False, ctx))"
  by (auto simp: execute_line_words execute_def register_command_def unregister_command_def std_map_laws)

end
