(* ===== verification/Config_Store.thy ===== *)
theory Config_Store
  imports Nazg_Prelude
begin

text \<open>
  Configuration: the reader and the typed getters of \<open>modules/config/src/config.cpp\<close>, and the
  environment references and default directories of \<open>modules/config/src/parser.cpp\<close>. The process
  environment and the file's content are arguments.
\<close>

type_synonym environment = "string \<Rightarrow> string option"

type_synonym config_data = "(string, (string, string) std_map) std_map"

section \<open>Default directories\<close>

text \<open>\<open>fs::path\<close> division by a relative path.\<close>

definition path_append :: "string \<Rightarrow> string \<Rightarrow> string" where
  "path_append dir name = (if dir = [] \<or> last dir = CHR ''/'' then dir @ name else dir @ ''/'' @ name)"

definition default_config_path :: "environment \<Rightarrow> string" where
  "default_config_path env =
     (case env ''XDG_CONFIG_HOME'' of
        Some xdg \<Rightarrow> path_append (path_append xdg ''nazg'') ''config.toml''
      | None \<Rightarrow>
          (case env ''HOME'' of
             Some home \<Rightarrow> path_append (path_append (path_append home ''.config'') ''nazg'') ''config.toml''
           | None \<Rightarrow> ''config.toml''))"

definition default_state_dir :: "environment \<Rightarrow> string" where
  "default_state_dir env =
     (case env ''XDG_STATE_HOME'' of
        Some xdg \<Rightarrow> path_append xdg ''nazg''
      | None \<Rightarrow>
          (case env ''HOME'' of
             Some home \<Rightarrow> path_append (path_append (path_append home ''.local'') ''state'') ''nazg''
           | None \<Rightarrow> ''.nazg''))"

definition default_cache_dir :: "environment \<Rightarrow> string" where
  "default_cache_dir env =
     (case env ''XDG_CACHE_HOME'' of
        Some xdg \<Rightarrow> path_append xdg ''nazg''
      | None \<Rightarrow>
          (case env ''HOME'' of
             Some home \<Rightarrow> path_append (path_append home ''.cache'') ''nazg''
           | None \<Rightarrow> ''.nazg_cache''))"

definition default_data_dir :: "environment \<Rightarrow> string" where
  "default_data_dir env =
     (case env ''XDG_DATA_HOME'' of
        Some xdg \<Rightarrow> path_append xdg ''nazg''
      | None \<Rightarrow>
          (case env ''HOME'' of
             Some home \<Rightarrow> path_append (path_append (path_append home ''.local'') ''share'') ''nazg''
           | None \<Rightarrow> ''.nazg_data''))"

definition default_bin_dir :: "environment \<Rightarrow> string" where
  "default_bin_dir env =
     (case env ''HOME'' of
        Some home \<Rightarrow> path_append (path_append home ''.local'') ''bin''
      | None \<Rightarrow> ''.'')"

section \<open>Environment references\<close>

text \<open>
  The regular expression \<open>\$\{([^}:]+)(?::-([^}]+))?\}|\$([A-Za-z_][A-Za-z0-9_]*)\<close> tried at one position:
  the variable, its default, and the rest of the input. No run of the expression can be matched
  shorter with success, so the greedy choices are the only ones.
\<close>

definition name_start :: "char \<Rightarrow> bool" where
  "name_start c \<longleftrightarrow> isalpha c \<or> c = CHR ''_''"

definition name_char :: "char \<Rightarrow> bool" where
  "name_char c \<longleftrightarrow> isalpha c \<or> isdigit c \<or> c = CHR ''_''"

definition match_braced :: "string \<Rightarrow> (string \<times> string \<times> string) option" where
  "match_braced s =
     (let var = takeWhile (\<lambda>c. c \<noteq> CHR ''}'' \<and> c \<noteq> CHR '':'') s;
          r = drop (length var) s
      in if var = [] then None
         else case r of
           [] \<Rightarrow> None
         | c # r1 \<Rightarrow>
             if c = CHR ''}'' then Some (var, [], r1)
             else (case r1 of
                     [] \<Rightarrow> None
                   | d # r2 \<Rightarrow>
                       if d \<noteq> CHR ''-'' then None
                       else
                         let dflt = takeWhile (\<lambda>c. c \<noteq> CHR ''}'') r2
                         in if dflt = [] then None
                            else (case drop (length dflt) r2 of [] \<Rightarrow> None | _ # r3 \<Rightarrow> Some (var, dflt, r3))))"

definition match_reference :: "string \<Rightarrow> (string \<times> string \<times> string) option" where
  "match_reference s =
     (case s of
        [] \<Rightarrow> None
      | c # r \<Rightarrow>
          if c \<noteq> CHR ''$'' then None
          else (case r of
                  [] \<Rightarrow> None
                | d # r1 \<Rightarrow>
                    if d = CHR ''{'' then match_braced r1
                    else if name_start d then
                      (let var = d # takeWhile name_char r1 in Some (var, [], drop (length var) r))
                    else None))"

lemma match_braced_shorter: "match_braced s = Some (var, dflt, rest) \<Longrightarrow> length rest < length s"
proof -
  assume m: "match_braced s = Some (var, dflt, rest)"
  let ?v = "takeWhile (\<lambda>c. c \<noteq> CHR ''}'' \<and> c \<noteq> CHR '':'') s"
  obtain c r1 where r: "drop (length ?v) s = c # r1"
    using m by (cases "drop (length ?v) s") (auto simp: match_braced_def Let_def split: if_splits)
  then have r1: "length r1 < length s" by (metis Suc_le_lessD length_Cons length_drop diff_le_self)
  from m r have "rest = r1 \<or> (\<exists>n. rest = drop n r1)"
    by (auto simp: match_braced_def Let_def split: if_splits list.splits)
      (metis drop_Suc_Cons drop_drop list.sel(3) drop_0 drop_Suc tl_drop)+
  with r1 show ?thesis by auto
qed

lemma match_reference_shorter: "match_reference s = Some (var, dflt, rest) \<Longrightarrow> length rest < length s"
  by (auto simp: match_reference_def Let_def dest: match_braced_shorter split: list.splits if_splits)

definition reference_value :: "environment \<Rightarrow> string \<Rightarrow> string \<Rightarrow> string" where
  "reference_value env var dflt = (case env var of Some v \<Rightarrow> v | None \<Rightarrow> dflt)"

function expand_env_vars :: "environment \<Rightarrow> string \<Rightarrow> string" where
  "expand_env_vars env s =
     (case match_reference s of
        Some (var, dflt, rest) \<Rightarrow> reference_value env var dflt @ expand_env_vars env rest
      | None \<Rightarrow> (case s of [] \<Rightarrow> [] | c # cs \<Rightarrow> c # expand_env_vars env cs))"
  by pat_completeness auto
termination
  by (relation "measure (\<lambda>(env, s). length s)") (auto dest: match_reference_shorter)

declare expand_env_vars.simps [simp del]

section \<open>The file\<close>

definition blanks :: string where
  "blanks = [CHR '' '', CHR 0x09]"

definition line_blanks :: string where
  "line_blanks = [CHR '' '', CHR 0x09, CHR 0x0D, CHR 0x0A]"

definition unquote_value :: "string \<Rightarrow> string" where
  "unquote_value value =
     (if length value \<ge> 2 \<and>
         ((hd value = CHR 0x22 \<and> last value = CHR 0x22) \<or> (hd value = CHR 0x27 \<and> last value = CHR 0x27))
      then substr value 1 (length value - 2) else value)"

definition config_put :: "string \<times> string \<Rightarrow> string \<Rightarrow> config_data \<Rightarrow> config_data" where
  "config_put sk value data =
     map_put (fst sk) (map_put (snd sk) value (case map_get data (fst sk) of None \<Rightarrow> [] | Some m \<Rightarrow> m)) data"

definition section_name :: "string \<Rightarrow> string" where
  "section_name line =
     (let inner = substr line 1 (length line - 2)
      in if find_first_not_of blanks inner = None then inner else trim_of blanks inner)"

text \<open>One line: the section it leaves and the data.\<close>

definition load_line :: "string \<Rightarrow> string \<times> config_data \<Rightarrow> string \<times> config_data" where
  "load_line raw st =
     (case st of (current_section, data) \<Rightarrow>
        if find_first_not_of line_blanks raw = None then st
        else
          let line = trim_of line_blanks raw in
          if line = [] \<or> hd line = CHR ''#'' then st
          else if hd line = CHR ''['' \<and> last line = CHR '']'' then (section_name line, data)
          else
            (case find_char (CHR ''='') line of
               None \<Rightarrow> st
             | Some eq_pos \<Rightarrow>
                 let key = trim_of blanks (take eq_pos line);
                     value = unquote_value (trim_of blanks (drop (eq_pos + 1) line))
                 in if current_section = [] then st
                    else (current_section, config_put (current_section, key) value data)))"

definition load_lines :: "string list \<Rightarrow> config_data" where
  "load_lines ls = snd (fold load_line ls ([], []))"

text \<open>A missing or unreadable file is \<^const>\<open>None\<close>.\<close>

definition load :: "string option \<Rightarrow> config_data" where
  "load file = (case file of None \<Rightarrow> [] | Some content \<Rightarrow> load_lines (getlines (CHR 0x0A) content))"

section \<open>Getters\<close>

definition has :: "config_data \<Rightarrow> string \<Rightarrow> string \<Rightarrow> bool" where
  "has data sec key = (case map_get data sec of None \<Rightarrow> False | Some m \<Rightarrow> map_get m key \<noteq> None)"

definition get_string :: "config_data \<Rightarrow> string \<Rightarrow> string \<Rightarrow> string \<Rightarrow> string" where
  "get_string data sec key default_val =
     (case map_get data sec of
        None \<Rightarrow> default_val
      | Some m \<Rightarrow> (case map_get m key of None \<Rightarrow> default_val | Some v \<Rightarrow> v))"

definition get_int :: "config_data \<Rightarrow> string \<Rightarrow> string \<Rightarrow> int \<Rightarrow> int" where
  "get_int data sec key default_val =
     (let val = get_string data sec key [] in
      if val = [] then default_val
      else case stoi val of Some i \<Rightarrow> i | None \<Rightarrow> default_val)"

definition get_bool :: "config_data \<Rightarrow> string \<Rightarrow> string \<Rightarrow> bool \<Rightarrow> bool" where
  "get_bool data sec key default_val =
     (let val = get_string data sec key [] in
      if val = [] then default_val
      else
        let lower = map tolower val in
        if lower \<in> {''true'', ''1'', ''yes'', ''on''} then True
        else if lower \<in> {''false'', ''0'', ''no'', ''off''} then False
        else default_val)"

definition keys :: "config_data \<Rightarrow> string \<Rightarrow> string list" where
  "keys data sec = (case map_get data sec of None \<Rightarrow> [] | Some m \<Rightarrow> map fst m)"

section \<open>The data as a table\<close>

definition config_get :: "config_data \<Rightarrow> string \<times> string \<Rightarrow> string option" where
  "config_get data sk = Option.bind (map_get data (fst sk)) (\<lambda>m. map_get m (snd sk))"

interpretation config_table: kv_table "[]" config_put config_get "\<lambda>_. True"
  by unfold_locales
    (auto simp: config_put_def config_get_def std_map_laws prod_eq_iff split: option.splits)

lemma get_string_get: "get_string data sec key d = (case config_get data (sec, key) of None \<Rightarrow> d | Some v \<Rightarrow> v)"
  by (auto simp: get_string_def config_get_def split: option.splits)

section \<open>Printing and reading back\<close>

definition entry_line :: "string \<times> string \<Rightarrow> string" where
  "entry_line kv = fst kv @ '' = '' @ [CHR 0x22] @ snd kv @ [CHR 0x22]"

definition section_lines :: "string \<times> (string \<times> string) list \<Rightarrow> string list" where
  "section_lines sec = (''['' @ fst sec @ '']'') # map entry_line (snd sec)"

definition config_lines :: "(string \<times> (string \<times> string) list) list \<Rightarrow> string list" where
  "config_lines secs = concat (map section_lines secs)"

definition config_entries :: "(string \<times> (string \<times> string) list) list \<Rightarrow> ((string \<times> string) \<times> string) list" where
  "config_entries secs = concat (map (\<lambda>(s, kvs). map (\<lambda>(k, v). ((s, k), v)) kvs) secs)"

definition section_ok :: "string \<Rightarrow> bool" where
  "section_ok s \<longleftrightarrow> s \<noteq> [] \<and> nl \<notin> set s \<and> hd s \<notin> set blanks \<and> last s \<notin> set blanks"

definition entry_ok :: "string \<times> string \<Rightarrow> bool" where
  "entry_ok kv \<longleftrightarrow> fst kv \<noteq> [] \<and> nl \<notin> set (fst kv) \<and> nl \<notin> set (snd kv) \<and> CHR ''='' \<notin> set (fst kv)
     \<and> hd (fst kv) \<notin> set line_blanks \<and> hd (fst kv) \<noteq> CHR ''#'' \<and> last (fst kv) \<notin> set blanks"

lemma trim_of_id: "s \<noteq> [] \<Longrightarrow> hd s \<notin> set cs \<Longrightarrow> last s \<notin> set cs \<Longrightarrow> trim_of cs s = s"
  by (simp add: trim_of_strip strip_id)

lemma find_first_not_of_hd: "s \<noteq> [] \<Longrightarrow> hd s \<notin> set cs \<Longrightarrow> find_first_not_of cs s \<noteq> None"
  by (cases s) (auto simp: find_first_not_of_def)

lemma strip_Cons_blank: "P c \<Longrightarrow> strip P (c # s) = strip P s"
  by (simp add: strip_def)

lemma strip_snoc_blank: "P c \<Longrightarrow> s \<noteq> [] \<Longrightarrow> \<not> P (hd s) \<Longrightarrow> \<not> P (last s) \<Longrightarrow> strip P (s @ [c]) = s"
  by (cases s) (auto simp: strip_def dropWhile_hd_id hd_rev [symmetric])

lemma blank_members [simp]:
  "CHR '' '' \<in> set blanks" "CHR 0x22 \<notin> set blanks" "CHR 0x22 \<notin> set line_blanks" "CHR ''['' \<notin> set line_blanks"
  "CHR '']'' \<notin> set line_blanks"
  by (simp_all add: blanks_def line_blanks_def)

lemma load_section_line:
  assumes "section_ok s"
  shows "load_line (''['' @ s @ '']'') (cur, data) = (s, data)"
proof -
  let ?l = "''['' @ s @ '']''"
  have t: "trim_of line_blanks ?l = ?l" by (rule trim_of_id) simp_all
  have f: "find_first_not_of line_blanks ?l \<noteq> None" by (rule find_first_not_of_hd) simp_all
  have "section_name ?l = s"
    using assms find_first_not_of_hd [of s blanks] trim_of_id [of s blanks]
    by (simp add: section_name_def substr_def section_ok_def)
  then show ?thesis using f unfolding load_line_def t Let_def by auto
qed

lemma load_entry_line:
  assumes "entry_ok kv" "cur \<noteq> []"
  shows "load_line (entry_line kv) (cur, data) = (cur, config_put (cur, fst kv) (snd kv) data)"
proof -
  obtain k v where kv: "kv = (k, v)" by (cases kv)
  note ok = assms(1) [unfolded entry_ok_def kv fst_conv snd_conv]
  let ?l = "entry_line kv"
  have l: "?l = k @ '' = '' @ [CHR 0x22] @ v @ [CHR 0x22]" by (simp add: entry_line_def kv)
  have hd: "hd ?l = hd k" "last ?l = CHR 0x22" "?l \<noteq> []" using ok by (simp_all add: l)
  have t: "trim_of line_blanks ?l = ?l" by (rule trim_of_id) (use hd ok in simp_all)
  have f: "find_first_not_of line_blanks ?l \<noteq> None" by (rule find_first_not_of_hd) (use hd ok in simp_all)
  have eq: "find_char (CHR ''='') ?l = Some (length (k @ '' ''))"
  proof -
    have "find_char c (s @ c # r) = Some (length s)" if "c \<notin> set s" for c :: char and s r
      using that by (induction s) (auto simp: find_char_def)
    from this [of "CHR ''=''" "k @ '' ''" "'' '' @ [CHR 0x22] @ v @ [CHR 0x22]"] ok
    show ?thesis by (simp add: l)
  qed
  have key: "trim_of blanks (take (length (k @ '' '')) ?l) = k"
  proof -
    have "set blanks \<subseteq> set line_blanks" by (auto simp: blanks_def line_blanks_def)
    then have "strip (\<lambda>x. x \<in> set blanks) (k @ '' '') = k" using ok by (intro strip_snoc_blank) auto
    then show ?thesis by (simp add: trim_of_strip l)
  qed
  have "trim_of blanks (drop (length (k @ '' '') + 1) ?l) = [CHR 0x22] @ v @ [CHR 0x22]"
  proof -
    have "strip (\<lambda>x. x \<in> set blanks) ([CHR 0x22] @ v @ [CHR 0x22]) = [CHR 0x22] @ v @ [CHR 0x22]"
      by (rule strip_id) simp
    then show ?thesis by (simp add: trim_of_strip l strip_Cons_blank)
  qed
  then have val: "unquote_value (trim_of blanks (drop (length (k @ '' '') + 1) ?l)) = v"
    by (simp add: unquote_value_def substr_def)
  have "hd ?l \<noteq> CHR ''#''" "last ?l \<noteq> CHR '']''" using hd ok by simp_all
  then show ?thesis using f hd(3) assms(2) unfolding load_line_def t Let_def eq option.case key val by (auto simp: kv)
qed

lemma load_section_lines:
  assumes "section_ok (fst sec)" "list_all entry_ok (snd sec)"
  shows "fold load_line (section_lines sec) (cur, data) =
     (fst sec, fold (\<lambda>(k, v). config_put k v) (map (\<lambda>(k, v). ((fst sec, k), v)) (snd sec)) data)"
proof -
  have ne: "fst sec \<noteq> []" using assms(1) by (simp add: section_ok_def)
  have "fold load_line (map entry_line kvs) (fst sec, data) =
     (fst sec, fold (\<lambda>(k, v). config_put k v) (map (\<lambda>(k, v). ((fst sec, k), v)) kvs) data)"
    if "list_all entry_ok kvs" for kvs data
    using that
  proof (induction kvs arbitrary: data)
    case (Cons kv kvs)
    then show ?case using load_entry_line [of kv "fst sec" data] ne by (cases kv) simp
  qed simp
  from this [OF assms(2)] show ?thesis
    using load_section_line [OF assms(1), of cur data] by (simp add: section_lines_def)
qed

lemma load_config_lines:
  assumes "list_all (\<lambda>(s, kvs). section_ok s \<and> list_all entry_ok kvs) secs"
  shows "snd (fold load_line (config_lines secs) (cur, data)) = fold (\<lambda>(k, v). config_put k v) (config_entries secs) data"
  using assms
proof (induction secs arbitrary: cur data)
  case (Cons sec secs)
  obtain s kvs where sec: "sec = (s, kvs)" by (cases sec)
  have "fold load_line (section_lines sec) (cur, data) =
     (s, fold (\<lambda>(k, v). config_put k v) (map (\<lambda>(k, v). ((s, k), v)) kvs) data)"
    using load_section_lines [of sec cur data] Cons.prems sec by simp
  moreover note Cons.IH [of s "fold (\<lambda>(k, v). config_put k v) (map (\<lambda>(k, v). ((s, k), v)) kvs) data"]
  ultimately show ?case using Cons.prems sec by (simp add: config_lines_def config_entries_def)
qed (simp add: config_lines_def config_entries_def)

section \<open>Properties\<close>

text \<open>
  \<^bold>\<open>C28\<close> Configuration round trip: a configuration printed with quoted values is read back exactly, for
  every section and key name the format can hold and every value without a newline (quotes, \<open>#\<close>,
  \<open>=\<close> and surrounding blanks included): a lookup gives the last value printed for the key, and the
  default when there is none.
\<close>

theorem config_round_trip:
  assumes "list_all (\<lambda>(s, kvs). section_ok s \<and> list_all entry_ok kvs) secs"
  shows "get_string (load (Some (unlines (config_lines secs)))) sec key d =
     (case map_of (rev (config_entries secs)) (sec, key) of None \<Rightarrow> d | Some v \<Rightarrow> v)"
proof -
  have "nl \<noteq> CHR ''[''" "nl \<noteq> CHR '']''" "nl \<noteq> CHR '' ''" "nl \<noteq> CHR ''=''" "nl \<noteq> CHR 0x22" by (simp_all add: nl_def)
  then have "\<forall>l\<in>set (config_lines secs). nl \<notin> set l"
    using assms unfolding list_all_iff
    by (fastforce simp: config_lines_def section_lines_def entry_line_def section_ok_def entry_ok_def)
  then have "getlines nl (unlines (config_lines secs)) = config_lines secs" by (rule getlines_unlines)
  then have "load (Some (unlines (config_lines secs))) = fold (\<lambda>(k, v). config_put k v) (config_entries secs) []"
    using load_config_lines [OF assms] by (simp add: load_def load_lines_def nl_def [symmetric])
  then show ?thesis by (simp add: get_string_get config_table.get_load)
qed

theorem config_round_trip_witness:
  "get_string (load (Some (unlines (config_lines [(''git'', [(''name'', ''a = b # c'')])])))) ''git'' ''name'' [] = ''a = b # c''"
  using config_round_trip [of "[(''git'', [(''name'', ''a = b # c'')])]" "''git''" "''name''" "[]"]
  by (simp add: section_ok_def entry_ok_def nl_def blanks_def line_blanks_def config_entries_def)

lemma match_reference_plain: "c \<noteq> CHR ''$'' \<Longrightarrow> match_reference (c # s) = None"
  by (simp add: match_reference_def)

lemma expand_plain: "CHR ''$'' \<notin> set pre \<Longrightarrow> expand_env_vars env (pre @ s) = pre @ expand_env_vars env s"
proof (induction pre)
  case (Cons c pre)
  then have "match_reference (c # pre @ s) = None" by (intro match_reference_plain) auto
  then have "expand_env_vars env (c # pre @ s) = c # expand_env_vars env (pre @ s)"
    by (simp add: expand_env_vars.simps [of env "c # pre @ s"])
  then show ?case using Cons by simp
qed simp

lemma expand_match:
  "match_reference s = Some (var, dflt, rest) \<Longrightarrow> expand_env_vars env s = reference_value env var dflt @ expand_env_vars env rest"
  by (subst expand_env_vars.simps) simp

lemma takeWhile_until: "\<forall>x\<in>set v. P x \<Longrightarrow> \<not> P c \<Longrightarrow> takeWhile P (v @ c # r) = v"
  by (induction v) auto

lemma match_braced_var:
  assumes "var \<noteq> []" "CHR ''}'' \<notin> set var" "CHR '':'' \<notin> set var"
  shows "match_braced (var @ ''}'' @ rest) = Some (var, [], rest)"
    "dflt \<noteq> [] \<Longrightarrow> CHR ''}'' \<notin> set dflt \<Longrightarrow> match_braced (var @ '':-'' @ dflt @ ''}'' @ rest) = Some (var, dflt, rest)"
proof -
  have v: "takeWhile (\<lambda>c. c \<noteq> CHR ''}'' \<and> c \<noteq> CHR '':'') (var @ c # r) = var" if "c = CHR ''}'' \<or> c = CHR '':''" for c r
    using assms(2,3) that by (intro takeWhile_until) auto
  show "match_braced (var @ ''}'' @ rest) = Some (var, [], rest)"
    using v [of "CHR ''}''" rest] assms(1) by (simp add: match_braced_def Let_def)
  assume "dflt \<noteq> []" "CHR ''}'' \<notin> set dflt"
  moreover have "takeWhile (\<lambda>c. c \<noteq> CHR ''}'') (dflt @ CHR ''}'' # rest) = dflt"
    using calculation(2) by (intro takeWhile_until) auto
  ultimately show "match_braced (var @ '':-'' @ dflt @ ''}'' @ rest) = Some (var, dflt, rest)"
    using v [of "CHR '':''" "CHR ''-'' # dflt @ CHR ''}'' # rest"] assms(1) by (simp add: match_braced_def Let_def)
qed

lemma match_bare_var:
  assumes "name_start c" "list_all name_char v" "rest = [] \<or> \<not> name_char (hd rest)"
  shows "match_reference (''$'' @ (c # v) @ rest) = Some (c # v, [], rest)"
proof -
  have "takeWhile name_char (v @ rest) = v"
    using assms(2,3) by (cases rest; induction v) auto
  moreover have "c \<noteq> CHR ''{''" using assms(1) by (auto simp: name_start_def isalpha_def isupper_def islower_def)
  ultimately show ?thesis using assms(1) by (simp add: match_reference_def Let_def)
qed

text \<open>
  Environment references: text without \<open>$\<close> is kept; \<open>$NAME\<close> and \<open>${NAME}\<close> are replaced by the value (nothing
  when unset), \<open>${NAME:-default}\<close> by the value or the default; the replacement is not expanded again
  and the text after the reference is treated the same way.
\<close>

lemma expand_references:
  assumes "CHR ''$'' \<notin> set pre" "var \<noteq> []" "CHR ''}'' \<notin> set var" "CHR '':'' \<notin> set var"
    "dflt \<noteq> []" "CHR ''}'' \<notin> set dflt"
  shows "expand_env_vars env pre = pre
     \<and> expand_env_vars env (pre @ ''${'' @ var @ ''}'' @ rest) =
         pre @ (case env var of Some v \<Rightarrow> v | None \<Rightarrow> []) @ expand_env_vars env rest
     \<and> expand_env_vars env (pre @ ''${'' @ var @ '':-'' @ dflt @ ''}'' @ rest) =
         pre @ (case env var of Some v \<Rightarrow> v | None \<Rightarrow> dflt) @ expand_env_vars env rest
     \<and> (name_start (hd var) \<longrightarrow> list_all name_char var \<longrightarrow> rest = [] \<or> \<not> name_char (hd rest) \<longrightarrow>
          expand_env_vars env (pre @ ''$'' @ var @ rest) =
            pre @ (case env var of Some v \<Rightarrow> v | None \<Rightarrow> []) @ expand_env_vars env rest)"
proof (intro conjI impI)
  have nil: "expand_env_vars env [] = []" by (simp add: expand_env_vars.simps match_reference_def)
  show "expand_env_vars env pre = pre" using expand_plain [OF assms(1), of env "[]"] nil by simp
  have "match_reference (''${'' @ var @ ''}'' @ rest) = Some (var, [], rest)"
    using match_braced_var(1) [OF assms(2-4)] by (simp add: match_reference_def)
  from expand_match [OF this]
  show "expand_env_vars env (pre @ ''${'' @ var @ ''}'' @ rest) =
         pre @ (case env var of Some v \<Rightarrow> v | None \<Rightarrow> []) @ expand_env_vars env rest"
    by (simp add: expand_plain [OF assms(1)] reference_value_def)
  have "match_reference (''${'' @ var @ '':-'' @ dflt @ ''}'' @ rest) = Some (var, dflt, rest)"
    using match_braced_var(2) [OF assms(2-6)] by (simp add: match_reference_def)
  from expand_match [OF this]
  show "expand_env_vars env (pre @ ''${'' @ var @ '':-'' @ dflt @ ''}'' @ rest) =
         pre @ (case env var of Some v \<Rightarrow> v | None \<Rightarrow> dflt) @ expand_env_vars env rest"
    by (simp add: expand_plain [OF assms(1)] reference_value_def)
  assume n: "name_start (hd var)" "list_all name_char var" "rest = [] \<or> \<not> name_char (hd rest)"
  obtain c v where var: "var = c # v" using assms(2) by (cases var) auto
  from match_bare_var [of c v rest] n have "match_reference (''$'' @ var @ rest) = Some (var, [], rest)" by (simp add: var)
  from expand_match [OF this]
  show "expand_env_vars env (pre @ ''$'' @ var @ rest) =
            pre @ (case env var of Some v \<Rightarrow> v | None \<Rightarrow> []) @ expand_env_vars env rest"
    by (simp add: expand_plain [OF assms(1)] reference_value_def)
qed

lemma expand_references_example:
  "expand_env_vars (\<lambda>v. if v = ''HOME'' then Some ''/u'' else None) (''x='' @ ''${'' @ ''HOME'' @ ''}'' @ []) = ''x='' @ ''/u'' @ expand_env_vars (\<lambda>v. if v = ''HOME'' then Some ''/u'' else None) []"
  using expand_references [of "''x=''" "''HOME''" "''d''" "\<lambda>v. if v = ''HOME'' then Some ''/u'' else None" "[]"]
  by simp

end
