(* ===== verification/Tui_Context.thy ===== *)
theory Tui_Context
  imports Tui_Window Tui_Menus Tui_Commands Tui_Keys Config_Store
begin

text \<open>
  The context of the multiplexer: class \<open>TUIContext\<close> in \<open>modules/tui/include/tui/tui_context.hpp\<close> and
  \<open>modules/tui/src/tui_context.cpp\<close>: the window list with the active and the last index, the status
  message, the quit flag, and the built-in commands that \<open>initialize\<close> registers.

  A window object is known by a number (its address), so that a command that got a pointer writes
  through it whatever happens to the list. The menu manager points back to the context; the modes
  it switches are the context's (\<open>with_menus\<close>). Closing a pane can run into undefined behaviour
  (\<open>Tui_Window\<close>): from then on \<open>tc_undefined\<close> is set and nothing is claimed. The command manager
  is outside the record because commands are functions on it; log lines are left out.
\<close>

record 'm tui_context =
  tc_windows :: "(nat \<times> window) list"
  tc_next :: nat
  tc_active :: int
  tc_last :: int
  tc_default_shell :: string
  tc_status :: string
  tc_quit :: bool
  tc_exit_loop :: bool
  tc_modes :: mode_manager
  tc_keys :: key_table
  tc_menus :: "'m menu_manager"
  tc_undefined :: bool

section \<open>Construction\<close>

definition pick_default_shell :: "environment \<Rightarrow> config_data option \<Rightarrow> string" where
  "pick_default_shell env cfg =
     (let shell = (case env ''SHELL'' of
                     Some s \<Rightarrow> if s \<noteq> [] then s else ''/bin/sh''
                   | None \<Rightarrow> ''/bin/sh'')
      in case cfg of None \<Rightarrow> shell | Some d \<Rightarrow> get_string d ''tui'' ''default_shell'' shell)"

definition new_context :: "environment \<Rightarrow> config_data option \<Rightarrow> 'm tui_context" where
  "new_context env cfg =
     \<lparr>tc_windows = [], tc_next = 0, tc_active = 0, tc_last = 0,
      tc_default_shell = pick_default_shell env cfg, tc_status = [], tc_quit = False, tc_exit_loop = False,
      tc_modes = initial_modes, tc_keys = new_key_manager, tc_menus = new_menu_manager, tc_undefined = False\<rparr>"

definition set_status_message :: "string \<Rightarrow> 'm tui_context \<Rightarrow> 'm tui_context" where
  "set_status_message msg c = c\<lparr>tc_status := msg\<rparr>"

section \<open>Windows\<close>

definition active_window :: "'m tui_context \<Rightarrow> (nat \<times> window) option" where
  "active_window c =
     (if tc_windows c = [] \<or> tc_active c < 0 \<or> tc_active c \<ge> int (length (tc_windows c)) then None
      else Some (tc_windows c ! nat (tc_active c)))"

text \<open>Writing through a window pointer.\<close>

definition put_window :: "nat \<Rightarrow> window \<Rightarrow> 'm tui_context \<Rightarrow> 'm tui_context" where
  "put_window i w c = c\<lparr>tc_windows := map (\<lambda>(j, v). if j = i then (j, w) else (j, v)) (tc_windows c)\<rparr>"

definition window_label :: "nat \<Rightarrow> string" where
  "window_label k = ''win-'' @ to_string (int k + 1)"

definition create_window :: "string \<Rightarrow> 'm tui_context \<Rightarrow> (nat \<times> window) \<times> 'm tui_context" where
  "create_window shell c =
     (let shell_cmd = (if shell = [] then tc_default_shell c else shell);
          new_index = length (tc_windows c);
          result = (tc_next c, set_name (window_label new_index) (new_window shell_cmd));
          c1 = c\<lparr>tc_windows := tc_windows c @ [result], tc_next := tc_next c + 1\<rparr>
      in (result, c1\<lparr>tc_last := tc_active c1, tc_active := int (length (tc_windows c1)) - 1\<rparr>))"

definition clamp_index :: "nat \<Rightarrow> int \<Rightarrow> int" where
  "clamp_index n i =
     (let i1 = (if i \<ge> int n then int n - 1 else i)
      in if i1 < 0 then 0 else i1)"

definition rename_all :: "(nat \<times> window) list \<Rightarrow> (nat \<times> window) list" where
  "rename_all ws = map (\<lambda>(k, (i, w)). (i, set_name (window_label k) w)) (enumerate 0 ws)"

definition close_window :: "nat \<Rightarrow> 'm tui_context \<Rightarrow> bool \<times> 'm tui_context" where
  "close_window i c =
     (if length (tc_windows c) \<le> 1 then (False, c)
      else if i \<notin> fst ` set (tc_windows c) then (False, c)
      else
        let other = (\<lambda>e. fst e \<noteq> i);
            ws = takeWhile other (tc_windows c) @ tl (dropWhile other (tc_windows c))
        in (True, c\<lparr>tc_windows := rename_all ws,
                    tc_active := clamp_index (length ws) (tc_active c),
                    tc_last := clamp_index (length ws) (tc_last c)\<rparr>))"

definition close_active_window :: "'m tui_context \<Rightarrow> bool \<times> 'm tui_context" where
  "close_active_window c =
     (case active_window c of None \<Rightarrow> (False, c) | Some (i, w) \<Rightarrow> close_window i c)"

definition focus_window :: "int \<Rightarrow> 'm tui_context \<Rightarrow> bool \<times> 'm tui_context" where
  "focus_window index c =
     (if index < 0 \<or> index \<ge> int (length (tc_windows c)) then (False, c)
      else if tc_active c = index then (True, c)
      else (True, c\<lparr>tc_last := tc_active c, tc_active := index\<rparr>))"

definition focus_next_window :: "'m tui_context \<Rightarrow> bool \<times> 'm tui_context" where
  "focus_next_window c =
     (if length (tc_windows c) \<le> 1 then (False, c)
      else (True, c\<lparr>tc_last := tc_active c, tc_active := (tc_active c + 1) mod int (length (tc_windows c))\<rparr>))"

definition focus_previous_window :: "'m tui_context \<Rightarrow> bool \<times> 'm tui_context" where
  "focus_previous_window c =
     (if length (tc_windows c) \<le> 1 then (False, c)
      else
        let a = tc_active c - 1
        in (True, c\<lparr>tc_last := tc_active c,
                    tc_active := (if a < 0 then int (length (tc_windows c)) - 1 else a)\<rparr>))"

definition focus_last_window :: "'m tui_context \<Rightarrow> bool \<times> 'm tui_context" where
  "focus_last_window c =
     (if length (tc_windows c) \<le> 1 \<or> tc_last c = tc_active c then (False, c)
      else
        let max_index = int (length (tc_windows c)) - 1;
            l = max 0 (min (tc_last c) max_index)
        in (True, c\<lparr>tc_last := tc_active c, tc_active := l\<rparr>))"

section \<open>Commands\<close>

type_synonym 'm tui_command = "'m tui_context command_func"

text \<open>The two ways most commands end.\<close>

definition report :: "string \<Rightarrow> string \<Rightarrow> bool \<times> 'm tui_context \<Rightarrow> bool option \<times> 'm tui_context" where
  "report ok failed r =
     (case r of (b, c) \<Rightarrow> if b then (Some True, set_status_message ok c)
                           else (Some False, set_status_message failed c))"

text \<open>A window operation through the pointer to the active window.\<close>

definition on_active :: "string \<Rightarrow> (window \<Rightarrow> bool \<times> window) \<Rightarrow> string \<Rightarrow> string \<Rightarrow> 'm tui_context \<Rightarrow> bool option \<times> 'm tui_context" where
  "on_active no_window f ok failed c =
     (case active_window c of
        None \<Rightarrow> (Some False, set_status_message no_window c)
      | Some (i, w) \<Rightarrow> (case f w of (b, w') \<Rightarrow> report ok failed (b, put_window i w' c)))"

definition first_arg :: "string list \<Rightarrow> string" where
  "first_arg args = (case args of [] \<Rightarrow> [] | a # _ \<Rightarrow> a)"

definition cmd_new_window :: "'m tui_command" where
  "cmd_new_window c args =
     (case create_window (first_arg args) c of
        ((i, w), c1) \<Rightarrow> (Some True, set_status_message (''Created window: '' @ w_name w) c1))"

definition cmd_kill_window :: "'m tui_command" where
  "cmd_kill_window c args = report ''Closed window'' ''Cannot close last window'' (close_active_window c)"

definition cmd_next_window :: "'m tui_command" where
  "cmd_next_window c args = report ''Next window'' ''Only one window'' (focus_next_window c)"

definition cmd_previous_window :: "'m tui_command" where
  "cmd_previous_window c args = report ''Previous window'' ''Only one window'' (focus_previous_window c)"

definition cmd_last_window :: "'m tui_command" where
  "cmd_last_window c args = report ''Last window'' ''No previous window'' (focus_last_window c)"

definition cmd_rename_window :: "'m tui_command" where
  "cmd_rename_window c args =
     (case active_window c of
        None \<Rightarrow> (Some False, set_status_message ''No active window'' c)
      | Some (i, w) \<Rightarrow>
          (case args of
             [] \<Rightarrow> (Some False, set_status_message ''Usage: rename-window <name>'' c)
           | a # _ \<Rightarrow> (Some True, set_status_message (''Renamed window to: '' @ a) (put_window i (set_name a w) c))))"

definition cmd_split :: "split_direction \<Rightarrow> string \<Rightarrow> 'm tui_command" where
  "cmd_split direction ok c args =
     on_active ''No active window'' (\<lambda>w. apfst (\<lambda>p. p \<noteq> None) (split_active direction (first_arg args) w))
       ok ''Split failed'' c"

definition cmd_kill_pane :: "'m tui_command" where
  "cmd_kill_pane c args =
     (case active_window c of
        None \<Rightarrow> (Some False, set_status_message ''No active window'' c)
      | Some (i, w) \<Rightarrow>
          (case close_active w of
             None \<Rightarrow> (Some False, c\<lparr>tc_undefined := True\<rparr>)
           | Some (b, w') \<Rightarrow> report ''Closed pane'' ''Cannot close last pane'' (b, put_window i w' c)))"

definition cmd_save_layout :: "'m tui_command" where
  "cmd_save_layout c args = on_active ''No active window'' save_layout ''Layout saved'' ''Could not save layout'' c"

definition cmd_restore_layout :: "'m tui_command" where
  "cmd_restore_layout c args = on_active ''No active window'' restore_layout ''Layout restored'' ''No saved layout'' c"

definition cmd_toggle_zoom :: "'m tui_command" where
  "cmd_toggle_zoom c args =
     (case active_window c of
        None \<Rightarrow> (Some False, set_status_message ''No active window'' c)
      | Some (i, w) \<Rightarrow>
          (case toggle_zoom w of (b, w') \<Rightarrow>
             report (if w_zoomed w' then ''Zoom on'' else ''Zoom off'') ''Zoom not available'' (b, put_window i w' c)))"

definition cmd_navigate :: "char \<Rightarrow> string \<Rightarrow> 'm tui_command" where
  "cmd_navigate direction ok c args =
     (case active_window c of
        None \<Rightarrow> (Some False, c)
      | Some (i, w) \<Rightarrow>
          (case navigate direction w of (b, w') \<Rightarrow>
             if b then (Some True, set_status_message ok (put_window i w' c))
             else (Some False, put_window i w' c)))"

definition cmd_enter_mode :: "mode \<Rightarrow> string \<Rightarrow> 'm tui_command" where
  "cmd_enter_mode m msg c args =
     (Some True, set_status_message msg (c\<lparr>tc_modes := snd (enter m (tc_modes c))\<rparr>))"

definition cmd_quit :: "'m tui_command" where
  "cmd_quit c args = (Some True, c\<lparr>tc_quit := True, tc_exit_loop := True\<rparr>)"

definition cmd_help :: "'m tui_command" where
  "cmd_help c args = (Some True, set_status_message ''See logs for help text'' c)"

text \<open>A call of the menu manager, which sees modes, keys and status message through its pointer to the context.\<close>

definition screen_of :: "'m tui_context \<Rightarrow> screen" where
  "screen_of c = \<lparr>sc_keys = tc_keys c, sc_status = tc_status c\<rparr>"

definition put_screen :: "screen \<Rightarrow> 'm tui_context \<Rightarrow> 'm tui_context" where
  "put_screen s c = c\<lparr>tc_keys := sc_keys s, tc_status := sc_status s\<rparr>"

definition with_menus :: "('m menu_manager \<Rightarrow> bool \<times> 'm menu_manager) \<Rightarrow> 'm tui_context \<Rightarrow> bool \<times> 'm tui_context" where
  "with_menus f c =
     (let mn = tc_menus c
      in case f (mn\<lparr>mn_ctx := map_option (\<lambda>_. (tc_modes c, screen_of c)) (mn_ctx mn)\<rparr>) of
           (b, mn') \<Rightarrow> (b, case mn_ctx mn' of
              None \<Rightarrow> c\<lparr>tc_menus := mn'\<rparr>
            | Some (modes, s) \<Rightarrow> put_screen s (c\<lparr>tc_menus := mn', tc_modes := modes\<rparr>)))"

definition cmd_load :: "'m menu_class \<Rightarrow> 'm tui_command" where
  "cmd_load mc c args =
     (case args of
        [] \<Rightarrow> (Some False, set_status_message ''Usage: :load <menu-id>'' c)
      | a # _ \<Rightarrow>
          if \<not> is_registered (tc_menus c) a then (Some False, set_status_message (''Unknown menu: '' @ a) c)
          else report (''Loaded: '' @ a) (''Failed to load: '' @ a) (with_menus (Tui_Menus.load mc a) c))"

definition cmd_back :: "'m menu_class \<Rightarrow> 'm tui_command" where
  "cmd_back mc c args = report ''Back'' ''Cannot go back'' (with_menus (menu_back mc) c)"

definition cmd_forward :: "'m menu_class \<Rightarrow> 'm tui_command" where
  "cmd_forward mc c args = report ''Forward'' ''Cannot go forward'' (with_menus (forward mc) c)"

definition cmd_menus :: "'m tui_command" where
  "cmd_menus c args =
     (Some True, set_status_message (''Registered menus: '' @ join_with '', '' (list_registered (tc_menus c))) c)"

definition cmd_home :: "'m menu_class \<Rightarrow> 'm tui_command" where
  "cmd_home mc c args =
     (Some True, set_status_message ''Welcome'' (snd (with_menus (\<lambda>mn. (True, clear_stack mc mn)) c)))"

definition builtin_commands :: "'m menu_class \<Rightarrow> (string \<times> string \<times> 'm tui_command) list" where
  "builtin_commands mc =
    [(''new-window'', ''Create a new window'', cmd_new_window),
     (''kill-window'', ''Close current window'', cmd_kill_window),
     (''next-window'', ''Switch to next window'', cmd_next_window),
     (''previous-window'', ''Switch to previous window'', cmd_previous_window),
     (''last-window'', ''Switch to last window'', cmd_last_window),
     (''rename-window'', ''Rename current window'', cmd_rename_window),
     (''split-vertical'', ''Split pane vertically'', cmd_split HORIZONTAL ''Split vertical''),
     (''split-horizontal'', ''Split pane horizontally'', cmd_split VERTICAL ''Split horizontal''),
     (''kill-pane'', ''Close current pane'', cmd_kill_pane),
     (''save-layout'', ''Save window layout'', cmd_save_layout),
     (''restore-layout'', ''Restore saved window layout'', cmd_restore_layout),
     (''toggle-zoom'', ''Toggle pane zoom'', cmd_toggle_zoom),
     (''navigate-left'', ''Navigate to pane on left'', cmd_navigate (CHR ''h'') ''Navigate: left''),
     (''navigate-right'', ''Navigate to pane on right'', cmd_navigate (CHR ''l'') ''Navigate: right''),
     (''navigate-up'', ''Navigate to pane above'', cmd_navigate (CHR ''k'') ''Navigate: up''),
     (''navigate-down'', ''Navigate to pane below'', cmd_navigate (CHR ''j'') ''Navigate: down''),
     (''enter-insert-mode'', ''Enter insert mode'', cmd_enter_mode INSERT ''INSERT mode''),
     (''enter-normal-mode'', ''Enter normal mode'', cmd_enter_mode NORMAL ''NORMAL mode''),
     (''enter-visual-mode'', ''Enter visual mode'', cmd_enter_mode VISUAL ''VISUAL mode''),
     (''enter-command-mode'', ''Enter command mode'', cmd_enter_mode COMMAND ''COMMAND mode''),
     (''command-mode'', ''Enter command mode'', cmd_enter_mode COMMAND ''COMMAND mode''),
     (''copy-mode'', ''Enter copy/visual mode'', cmd_enter_mode VISUAL ''VISUAL mode''),
     (''quit'', ''Quit application'', cmd_quit),
     (''q'', ''Quit application (alias for :quit)'', cmd_quit),
     (''help'', ''Show help'', cmd_help),
     (''load'', ''Load a menu'', cmd_load mc),
     (''back'', ''Go back to previous menu'', cmd_back mc),
     (''forward'', ''Go forward to next menu'', cmd_forward mc),
     (''menus'', ''List all registered menus'', cmd_menus),
     (''home'', ''Exit menu and return to welcome screen'', cmd_home mc)]"

definition initialize ::
  "'m menu_class \<Rightarrow> 'm tui_context \<Rightarrow> 'm tui_context command_manager \<Rightarrow> 'm tui_context \<times> 'm tui_context command_manager" where
  "initialize mc c cm =
     (c\<lparr>tc_menus := set_context (tc_modes c, screen_of c) (tc_menus c)\<rparr>,
      fold (\<lambda>(name, description, f) cm. snd (register_simple name description (Some f) cm))
        (builtin_commands mc) cm)"

section \<open>Invariant\<close>

definition indices_ok :: "nat \<Rightarrow> int \<Rightarrow> int \<Rightarrow> bool" where
  "indices_ok n active la \<longleftrightarrow> 0 \<le> active \<and> 0 \<le> la
     \<and> (if n = 0 then active = 0 \<and> la = 0 else active < int n \<and> la < int n)"

definition windows_ok :: "'m tui_context \<Rightarrow> bool" where
  "windows_ok c \<longleftrightarrow> distinct (map fst (tc_windows c))
     \<and> (\<forall>(i, w)\<in>set (tc_windows c). i < tc_next c \<and> window_ok w)
     \<and> indices_ok (length (tc_windows c)) (tc_active c) (tc_last c)"

text \<open>Everything agrees, unless a pane was closed with undefined behaviour.\<close>

definition context_ok :: "'m tui_context \<Rightarrow> bool" where
  "context_ok c \<longleftrightarrow> tc_undefined c \<or> (windows_ok c \<and> modes_ok (tc_modes c) \<and> menus_ok (tc_menus c))"

lemmas context_ok_simps = context_ok_def windows_ok_def set_status_message_def

lemma active_window_ok:
  assumes "windows_ok c" "active_window c = Some (i, w)"
  shows "window_ok w" "(i, w) \<in> set (tc_windows c)" "tc_windows c ! nat (tc_active c) = (i, w)"
proof -
  have "nat (tc_active c) < length (tc_windows c)" "tc_windows c ! nat (tc_active c) = (i, w)"
    using assms(2) by (auto simp: active_window_def split: if_splits)
  then show "tc_windows c ! nat (tc_active c) = (i, w)" "(i, w) \<in> set (tc_windows c)" by (auto simp: in_set_conv_nth)
  then show "window_ok w" using assms(1) by (auto simp: windows_ok_def)
qed

lemma put_window_ids [simp]: "map fst (tc_windows (put_window i w c)) = map fst (tc_windows c)"
  by (simp add: put_window_def case_prod_beta comp_def if_distrib [where f = fst] cong: if_cong)

lemma put_window_fields [simp]:
  "tc_next (put_window i w c) = tc_next c" "tc_active (put_window i w c) = tc_active c"
  "tc_last (put_window i w c) = tc_last c" "tc_modes (put_window i w c) = tc_modes c"
  "tc_menus (put_window i w c) = tc_menus c" "tc_undefined (put_window i w c) = tc_undefined c"
  "length (tc_windows (put_window i w c)) = length (tc_windows c)"
  by (simp_all add: put_window_def)

lemma put_window_ok: "windows_ok c \<Longrightarrow> window_ok w \<Longrightarrow> windows_ok (put_window i w c)"
  unfolding windows_ok_def put_window_ids put_window_fields by (auto simp: put_window_def split: if_splits)

lemma create_window_ok: "windows_ok c \<Longrightarrow> windows_ok (snd (create_window shell c))"
  by (auto simp: windows_ok_def create_window_def Let_def indices_ok_def set_name_ok new_window_ok split: if_splits)

lemma rename_all_ids [simp]: "map fst (rename_all ws) = map fst ws" "length (rename_all ws) = length ws"
  by (simp_all add: rename_all_def case_prod_beta comp_def, simp add: list_eq_iff_nth_eq nth_enumerate_eq)

lemma rename_all_set: "(i, w) \<in> set (rename_all ws) \<Longrightarrow> \<exists>n v. (i, v) \<in> set ws \<and> w = set_name n v"
  by (auto simp: rename_all_def in_set_enumerate_eq) (metis nth_mem)

lemma clamp_index_ok: "0 < n \<Longrightarrow> 0 \<le> clamp_index n i \<and> clamp_index n i < int n"
  by (auto simp: clamp_index_def Let_def)

lemma remove_first:
  assumes "distinct (map fst ws)" "k < length ws" "fst (ws ! k) = i"
  shows "takeWhile (\<lambda>e. fst e \<noteq> i) ws @ tl (dropWhile (\<lambda>e. fst e \<noteq> i) ws) = take k ws @ drop (Suc k) ws"
proof -
  have "takeWhile (\<lambda>e. fst e \<noteq> i) ws = take k ws"
    by (rule takeWhile_eq_take_P_nth) (use assms in \<open>auto simp: distinct_conv_nth\<close>)
  then show ?thesis using assms(2) by (simp add: dropWhile_eq_drop tl_drop drop_Suc)
qed

lemma close_window_eq:
  assumes "windows_ok c" "2 \<le> length (tc_windows c)" "k < length (tc_windows c)" "fst (tc_windows c ! k) = i"
  shows "close_window i c = (True, c\<lparr>
     tc_windows := rename_all (take k (tc_windows c) @ drop (Suc k) (tc_windows c)),
     tc_active := clamp_index (length (tc_windows c) - 1) (tc_active c),
     tc_last := clamp_index (length (tc_windows c) - 1) (tc_last c)\<rparr>)"
proof -
  have "i \<in> fst ` set (tc_windows c)" using assms(3,4) by (auto intro: rev_image_eqI [OF nth_mem])
  moreover define ws where "ws = take k (tc_windows c) @ drop (Suc k) (tc_windows c)"
  moreover have "length ws = length (tc_windows c) - 1" using assms(3) by (simp add: ws_def)
  ultimately show ?thesis using assms(1,2) unfolding close_window_def windows_ok_def Let_def
    by (simp add: remove_first [OF _ assms(3,4)] del: length_append)
qed

lemma close_window_ok:
  assumes "windows_ok c"
  shows "windows_ok (snd (close_window i c))"
proof (cases "length (tc_windows c) \<le> 1 \<or> i \<notin> fst ` set (tc_windows c)")
  case False
  then obtain k where k: "k < length (tc_windows c)" "fst (tc_windows c ! k) = i"
    by (auto simp: in_set_conv_nth)
  let ?ws = "take k (tc_windows c) @ drop (Suc k) (tc_windows c)"
  have sub: "set ?ws \<subseteq> set (tc_windows c)" by (auto dest: in_set_takeD in_set_dropD)
  have "distinct (map fst (take k (tc_windows c) @ drop k (tc_windows c)))"
    using assms by (simp add: windows_ok_def)
  then have "distinct (map fst ?ws)" using k(1)
    by (simp only: map_append distinct_append) (auto simp: Cons_nth_drop_Suc [symmetric])
  moreover have "length ?ws = length (tc_windows c) - 1" "0 < length (tc_windows c) - 1" using k(1) False by auto
  moreover have "\<forall>(j, w)\<in>set (rename_all ?ws). j < tc_next c \<and> window_ok w"
    using assms sub by (fastforce simp: windows_ok_def set_name_ok dest!: rename_all_set)
  ultimately show ?thesis using False clamp_index_ok [of "length (tc_windows c) - 1"]
    by (subst close_window_eq [OF assms _ k]) (auto simp: windows_ok_def indices_ok_def)
qed (use assms in \<open>auto simp: close_window_def\<close>)

lemma focus_ok:
  assumes "windows_ok c"
  shows "windows_ok (snd (focus_window k c))" "windows_ok (snd (focus_next_window c))"
    "windows_ok (snd (focus_previous_window c))" "windows_ok (snd (focus_last_window c))"
  using assms
  by (auto simp: windows_ok_def indices_ok_def focus_window_def focus_next_window_def
      focus_previous_window_def focus_last_window_def Let_def split: if_splits)

lemma window_ops_undefined [simp]:
  "tc_undefined (snd (create_window sh c)) = tc_undefined c"
  "tc_undefined (snd (close_window i c)) = tc_undefined c"
  "tc_undefined (snd (close_active_window c)) = tc_undefined c"
  "tc_undefined (snd (focus_next_window c)) = tc_undefined c"
  "tc_undefined (snd (focus_previous_window c)) = tc_undefined c"
  "tc_undefined (snd (focus_last_window c)) = tc_undefined c"
  by (auto simp: create_window_def close_window_def close_active_window_def focus_next_window_def
      focus_previous_window_def focus_last_window_def Let_def split: option.split)

section \<open>Commands keep the invariant\<close>

lemma context_okD: "context_ok c \<Longrightarrow> \<not> tc_undefined c \<Longrightarrow> windows_ok c \<and> modes_ok (tc_modes c) \<and> menus_ok (tc_menus c)"
  by (simp add: context_ok_def)

lemma context_ok_status [simp]: "context_ok (set_status_message m c) = context_ok c"
  by (simp add: context_ok_simps)

lemma context_ok_windows:
  assumes "context_ok c" "windows_ok c \<Longrightarrow> windows_ok c'"
    and "tc_undefined c' = tc_undefined c" "tc_modes c' = tc_modes c" "tc_menus c' = tc_menus c"
  shows "context_ok c'"
  using assms by (auto simp: context_ok_def)

lemma context_ok_put:
  assumes "context_ok c" "active_window c = Some (i, w)" "window_ok w \<Longrightarrow> window_ok w'"
  shows "context_ok (put_window i w' c)"
  by (rule context_ok_windows [OF assms(1)])
    (simp_all add: put_window_ok assms(3) active_window_ok(1) [OF _ assms(2)])

lemma report_ok [simp]: "context_ok (snd (report a b (r, c))) = context_ok c"
  by (simp add: report_def)

lemma report_ok_snd: "context_ok (snd r) \<Longrightarrow> context_ok (snd (report a b r))"
  by (cases r) simp

lemma on_active_ok:
  assumes "context_ok c" "\<And>w r w'. window_ok w \<Longrightarrow> f w = (r, w') \<Longrightarrow> window_ok w'"
  shows "context_ok (snd (on_active m f a b c))"
  using assms by (auto simp: on_active_def intro: context_ok_put split: option.split prod.split)

lemma window_commands_ok:
  assumes "context_ok c"
  shows "context_ok (snd (cmd_new_window c args))" "context_ok (snd (cmd_kill_window c args))"
    "context_ok (snd (cmd_next_window c args))" "context_ok (snd (cmd_previous_window c args))"
    "context_ok (snd (cmd_last_window c args))" "context_ok (snd (cmd_rename_window c args))"
proof -
  have fields: "tc_modes (snd (create_window sh c)) = tc_modes c" "tc_menus (snd (create_window sh c)) = tc_menus c"
    "tc_modes (snd (close_active_window c)) = tc_modes c" "tc_menus (snd (close_active_window c)) = tc_menus c"
    "tc_modes (snd (focus_next_window c)) = tc_modes c" "tc_menus (snd (focus_next_window c)) = tc_menus c"
    "tc_modes (snd (focus_previous_window c)) = tc_modes c" "tc_menus (snd (focus_previous_window c)) = tc_menus c"
    "tc_modes (snd (focus_last_window c)) = tc_modes c" "tc_menus (snd (focus_last_window c)) = tc_menus c" for sh
    by (auto simp: create_window_def close_active_window_def close_window_def focus_next_window_def
        focus_previous_window_def focus_last_window_def Let_def split: option.split)
  have "context_ok (snd (create_window sh c))" for sh
    by (rule context_ok_windows [OF assms]) (simp_all add: create_window_ok fields)
  then show "context_ok (snd (cmd_new_window c args))"
    by (auto simp: cmd_new_window_def split: prod.split) (metis snd_conv)
  have "windows_ok c \<Longrightarrow> windows_ok (snd (close_active_window c))"
    by (auto simp: close_active_window_def close_window_ok split: option.split)
  then show "context_ok (snd (cmd_kill_window c args))" unfolding cmd_kill_window_def
    by (intro report_ok_snd context_ok_windows [OF assms]) (simp_all add: fields)
  show "context_ok (snd (cmd_next_window c args))" "context_ok (snd (cmd_previous_window c args))"
    "context_ok (snd (cmd_last_window c args))"
    unfolding cmd_next_window_def cmd_previous_window_def cmd_last_window_def
    by (intro report_ok_snd context_ok_windows [OF assms]; simp add: fields focus_ok)+
  show "context_ok (snd (cmd_rename_window c args))"
    using assms by (auto simp: cmd_rename_window_def set_name_ok intro: context_ok_put split: option.split list.split)
qed

lemma pane_commands_ok:
  assumes "context_ok c"
  shows "context_ok (snd (cmd_split d m c args))" "context_ok (snd (cmd_kill_pane c args))"
    "context_ok (snd (cmd_save_layout c args))" "context_ok (snd (cmd_restore_layout c args))"
    "context_ok (snd (cmd_toggle_zoom c args))" "context_ok (snd (cmd_navigate x m c args))"
proof -
  show "context_ok (snd (cmd_split d m c args))"
    unfolding cmd_split_def
    by (rule on_active_ok [OF assms])
      (auto simp: apfst_def map_prod_def split: prod.splits dest: split_active_ok)
  show "context_ok (snd (cmd_save_layout c args))" "context_ok (snd (cmd_restore_layout c args))"
    unfolding cmd_save_layout_def cmd_restore_layout_def
    by (auto intro!: on_active_ok [OF assms] intro: save_layout_ok restore_layout_ok)
  show "context_ok (snd (cmd_toggle_zoom c args))"
    using assms by (auto simp: cmd_toggle_zoom_def intro: context_ok_put toggle_zoom_ok split: option.split prod.split)
  show "context_ok (snd (cmd_navigate x m c args))"
    using assms by (auto simp: cmd_navigate_def intro: context_ok_put navigate_ok split: option.split prod.split)
  show "context_ok (snd (cmd_kill_pane c args))"
    using assms by (auto simp: cmd_kill_pane_def context_ok_def [of "_\<lparr>tc_undefined := True\<rparr>"]
        intro!: context_ok_put intro: window_step_ok [OF _ ws_close] split: option.split prod.split)
qed

definition seen_modes_ok :: "'m menu_manager \<Rightarrow> bool" where
  "seen_modes_ok mn \<longleftrightarrow> (\<forall>m. seen_modes mn = Some m \<longrightarrow> modes_ok m)"

lemma update_mode_seen: "seen_modes_ok mn \<Longrightarrow> seen_modes_ok (update_mode_for_active_menu mn)"
  by (auto simp: seen_modes_ok_def seen_modes_def enter_ok)

lemma same_seen: "seen_modes mn = seen_modes mn' \<Longrightarrow> seen_modes_ok mn \<longleftrightarrow> seen_modes_ok mn'"
  by (simp add: seen_modes_ok_def)

lemma menu_ops_seen:
  assumes "seen_modes_ok mn"
  shows "seen_modes_ok (snd (Tui_Menus.load mc i mn))" "seen_modes_ok (snd (menu_back mc mn))"
    "seen_modes_ok (snd (forward mc mn))" "seen_modes_ok (clear_stack mc mn)"
proof -
  have fwd: "seen_modes (mn'\<lparr>mn_forward_stack := x\<rparr>) = seen_modes mn'" for mn' :: "'a menu_manager" and x
    by (simp add: seen_modes_def)
  have load: "seen_modes_ok (snd (Tui_Menus.load mc j mn'))" if "seen_modes_ok mn'" for j mn'
  proof -
    have "seen_modes_ok (leave_top mc mn')" using that by (simp add: seen_modes_ok_def)
    then show ?thesis using that
      by (auto simp: load_cases Let_def intro!: update_mode_seen) (auto simp: seen_modes_ok_def seen_modes_def)
  qed
  show "seen_modes_ok (snd (Tui_Menus.load mc i mn))" using assms by (rule load)
  show "seen_modes_ok (snd (menu_back mc mn))"
    using assms by (auto simp: menu_back_def Let_def case_prod_beta intro!: update_mode_seen)
      (auto simp: seen_modes_ok_def seen_modes_def)
  have "seen_modes_ok (snd (Tui_Menus.load mc (last (mn_forward_stack mn)) (mn\<lparr>mn_forward_stack := butlast (mn_forward_stack mn)\<rparr>)))"
    by (rule load) (use assms in \<open>simp add: seen_modes_ok_def fwd\<close>)
  then show "seen_modes_ok (snd (forward mc mn))"
    using assms by (auto simp: forward_def Let_def case_prod_beta same_seen [OF fwd] intro!: update_mode_seen)
  show "seen_modes_ok (clear_stack mc mn)" using assms
    by (auto simp: clear_stack_def case_prod_beta intro!: update_mode_seen) (auto simp: seen_modes_ok_def seen_modes_def)
qed

lemma context_ok_screen [simp]: "context_ok (put_screen s c) = context_ok c"
  by (simp add: context_ok_simps put_screen_def)

lemma with_menus_ok:
  assumes "context_ok c" "\<And>mn. menus_ok mn \<Longrightarrow> menus_ok (snd (f mn))" "\<And>mn. seen_modes_ok mn \<Longrightarrow> seen_modes_ok (snd (f mn))"
  shows "context_ok (snd (with_menus f c))"
proof -
  define mn where "mn = (tc_menus c)\<lparr>mn_ctx := map_option (\<lambda>_. (tc_modes c, screen_of c)) (mn_ctx (tc_menus c))\<rparr>"
  have "menus_ok mn = menus_ok (tc_menus c)"
    by (simp add: mn_def menus_ok_def is_registered_def stack_ids_def)
  moreover have "modes_ok (tc_modes c) \<Longrightarrow> seen_modes_ok mn" by (auto simp: mn_def seen_modes_ok_def seen_modes_def)
  moreover obtain b mn' where f: "f mn = (b, mn')" by fastforce
  ultimately have "\<not> tc_undefined c \<Longrightarrow> windows_ok c \<and> modes_ok (tc_modes c) \<and> menus_ok mn' \<and> seen_modes_ok mn'"
    using assms(1) assms(2,3) [of mn] by (simp add: context_ok_def)
  then show ?thesis
    by (auto simp: with_menus_def Let_def f mn_def [symmetric] context_ok_def [of "_\<lparr>tc_menus := _\<rparr>"]
        context_ok_def [of "_\<lparr>tc_menus := _, tc_modes := _\<rparr>"] windows_ok_def seen_modes_ok_def seen_modes_def
        split: option.split)
qed

lemma menu_commands_ok:
  assumes "context_ok c"
  shows "context_ok (snd (cmd_load mc c args))" "context_ok (snd (cmd_back mc c args))"
    "context_ok (snd (cmd_forward mc c args))" "context_ok (snd (cmd_home mc c args))"
  using assms
  by (auto simp: cmd_load_def cmd_back_def cmd_forward_def cmd_home_def menu_ops_seen load_ok back_ok forward_ok
      menu_step_ok [OF _ mn_step_clear] intro!: report_ok_snd with_menus_ok split: list.split)

lemma other_commands_ok:
  assumes "context_ok c"
  shows "context_ok (snd (cmd_enter_mode m msg c args))" "context_ok (snd (cmd_quit c args))"
    "context_ok (snd (cmd_help c args))" "context_ok (snd (cmd_menus c args))"
  using assms by (auto simp: cmd_enter_mode_def cmd_quit_def cmd_help_def cmd_menus_def context_ok_simps enter_ok)

lemma builtin_commands_ok:
  "\<forall>f\<in>set (map (snd \<circ> snd) (builtin_commands mc)). \<forall>c args. context_ok c \<longrightarrow> context_ok (snd (f c args))"
  by (simp add: builtin_commands_def window_commands_ok pane_commands_ok menu_commands_ok other_commands_ok)

lemma builtin_command_ok:
  "(name, description, f) \<in> set (builtin_commands mc) \<Longrightarrow> context_ok c \<Longrightarrow> context_ok (snd (f c args))"
  using builtin_commands_ok [of mc] by force

section \<open>The command table\<close>

lemma register_all:
  assumes "distinct (map fst cs)" "\<forall>c\<in>set cs. fst c \<noteq> []"
  shows "map_get (fold (\<lambda>(name, description, f) cm. snd (register_simple name description (Some f) cm)) cs cm) n =
    (case map_of cs n of None \<Rightarrow> map_get cm n
     | Some (d, f) \<Rightarrow> Some \<lparr>cmd_name = n, cmd_description = d, cmd_usage = n, cmd_func = Some f\<rparr>)"
  using assms
proof (induction cs arbitrary: cm)
  case (Cons x cs)
  obtain a d f where x: "x = (a, d, f)" by (cases x)
  have "map_of cs a = None" using Cons.prems(1) x by (auto simp: map_of_eq_None_iff)
  then show ?case using Cons x
    by (auto simp: register_simple_def register_command_def map_get_put split: option.split)
qed simp

lemma builtin_names: "distinct (map fst (builtin_commands mc))" "\<forall>c\<in>set (builtin_commands mc). fst c \<noteq> []"
  by (simp_all add: builtin_commands_def)

lemma execute_builtin:
  "execute (snd (initialize mc c0 cm)) c name args =
     (case map_of (builtin_commands mc) name of
        None \<Rightarrow> execute cm c name args
      | Some (d, f) \<Rightarrow> (case f c args of (r, c') \<Rightarrow> (r = Some True, c')))"
  by (auto simp: execute_def initialize_def register_all [OF builtin_names] split: option.splits prod.splits bool.splits)

lemma execute_ok:
  assumes "context_ok c"
  shows "context_ok (snd (execute (snd (initialize mc c0 [])) c name args))"
proof (cases "map_of (builtin_commands mc) name")
  case (Some df)
  obtain d f where df: "df = (d, f)" by (cases df)
  then have "context_ok (snd (f c args))" using Some assms by (blast dest: map_of_SomeD intro: builtin_command_ok)
  then show ?thesis using Some df by (simp add: execute_builtin case_prod_beta)
qed (simp add: execute_builtin, use assms in \<open>simp add: execute_def\<close>)

section \<open>Properties\<close>

lemma nth_without: "k < length xs \<Longrightarrow> i < length xs - 1 \<Longrightarrow>
    (take k xs @ drop (Suc k) xs) ! i = xs ! (if i < k then i else Suc i)"
  by (auto simp: nth_append min_def)

lemma active_window_nth: "m < length (tc_windows c) \<Longrightarrow> tc_active c = int m \<Longrightarrow> active_window c = Some (tc_windows c ! m)"
  by (auto simp: active_window_def)

lemma window_indices:
  assumes "windows_ok c" "2 \<le> length (tc_windows c)"
  obtains k l where "tc_active c = int k" "tc_last c = int l" "k < length (tc_windows c)" "l < length (tc_windows c)"
proof -
  have "0 \<le> tc_active c" "0 \<le> tc_last c" "tc_active c < int (length (tc_windows c))"
    "tc_last c < int (length (tc_windows c))"
    using assms by (auto simp: windows_ok_def indices_ok_def split: if_splits)
  then show thesis using that [of "nat (tc_active c)" "nat (tc_last c)"] by (simp add: nat_less_iff)
qed

lemma close_active_window_eq:
  assumes "windows_ok c" "2 \<le> length (tc_windows c)" "tc_active c = int k" "k < length (tc_windows c)"
  shows "close_active_window c = (True, c\<lparr>
     tc_windows := rename_all (take k (tc_windows c) @ drop (Suc k) (tc_windows c)),
     tc_active := (if Suc k < length (tc_windows c) then int k else int k - 1),
     tc_last := clamp_index (length (tc_windows c) - 1) (tc_last c)\<rparr>)"
proof -
  have "active_window c = Some (tc_windows c ! k)" using assms by (auto simp: active_window_def)
  moreover have "clamp_index (length (tc_windows c) - 1) (tc_active c) =
      (if Suc k < length (tc_windows c) then int k else int k - 1)"
    using assms(2-4) by (auto simp: clamp_index_def Let_def)
  ultimately show ?thesis
    using close_window_eq [OF assms(1,2) assms(4) refl] by (simp add: close_active_window_def case_prod_beta)
qed

lemma rename_all_nth: "i < length ws \<Longrightarrow> rename_all ws ! i = (fst (ws ! i), set_name (window_label i) (snd (ws ! i)))"
  by (simp add: rename_all_def nth_enumerate_eq case_prod_beta)

definition three_windows :: "nat tui_context" where
  "three_windows = snd (create_window [] (snd (create_window [] (snd (create_window [] (new_context (\<lambda>_. None) None))))))"

lemma new_context_windows_ok: "windows_ok (new_context env cfg)"
  by (simp add: windows_ok_def new_context_def indices_ok_def)

lemma three_windows_ok: "windows_ok three_windows"
  unfolding three_windows_def by (intro create_window_ok new_context_windows_ok)

lemma three_windows_facts:
  "tc_active three_windows = 2" "tc_last three_windows = 1"
  "map fst (tc_windows three_windows) = [0, 1, 2]" "length (tc_windows three_windows) = 3"
  by (simp_all add: three_windows_def create_window_def new_context_def Let_def)

text \<open>
  Closing the active window: with two or more windows it succeeds, removes exactly that window,
  keeps the others in order, and makes the next one active (the previous one when the last of the
  list was closed); every remaining window is renamed after its position.
\<close>

lemma close_active_window_correct:
  assumes "windows_ok c" "2 \<le> length (tc_windows c)"
  shows "case close_active_window c of (ok, c') \<Rightarrow>
     let k = nat (tc_active c); n = length (tc_windows c) in
     ok \<and> windows_ok c'
     \<and> map fst (tc_windows c') = map fst (take k (tc_windows c)) @ map fst (drop (Suc k) (tc_windows c))
     \<and> map (w_name \<circ> snd) (tc_windows c') = map window_label [0..<n - 1]
     \<and> map_option fst (active_window c') = Some (fst (tc_windows c ! (if Suc k < n then Suc k else k - 1)))"
proof -
  obtain k where k: "tc_active c = int k" "k < length (tc_windows c)" using assms by (rule window_indices)
  let ?n = "length (tc_windows c)" and ?ws = "take k (tc_windows c) @ drop (Suc k) (tc_windows c)"
  define m where "m = (if Suc k < ?n then k else k - 1)"
  have m: "m < ?n - 1" "(if m < k then m else Suc m) = (if Suc k < ?n then Suc k else k - 1)"
    using k(2) assms(2) by (auto simp: m_def)
  obtain c' where c': "close_active_window c = (True, c')" "tc_windows c' = rename_all ?ws" "tc_active c' = int m"
    using assms(2) k by (auto simp: m_def close_active_window_eq [OF assms k])
  have len: "length ?ws = ?n - 1" using k by simp
  have act: "active_window c' = Some (rename_all ?ws ! m)"
    using active_window_nth [of m c'] c' m(1) len by (simp del: length_append)
  show ?thesis unfolding c'(1) k(1) Let_def prod.case nat_int
  proof (intro conjI TrueI)
    show "windows_ok c'" using close_window_ok [OF assms(1)] assms(1) c'(1)
      by (auto simp: close_active_window_def split: option.splits) (metis snd_conv)
    show "map (w_name \<circ> snd) (tc_windows c') = map window_label [0..<?n - 1]"
      using len c'(2) by (auto simp: list_eq_iff_nth_eq rename_all_nth set_name_def simp del: length_append)
    show "map_option fst (active_window c') = Some (fst (tc_windows c ! (if Suc k < ?n then Suc k else k - 1)))"
      unfolding act option.map using m(1) len
      by (simp add: rename_all_nth nth_without [OF k(2)] m(2) del: length_append)
  qed (simp add: c'(2))
qed

lemma close_active_window_correct_example:
  "fst (close_active_window three_windows) \<and> map fst (tc_windows (snd (close_active_window three_windows))) = [0, 1]"
  using close_active_window_correct [OF three_windows_ok]
  by (simp add: three_windows_facts Let_def case_prod_beta flip: take_map drop_map)

text \<open>
  Last window after a close: the last index is not shifted when a window before it is closed, so
  \<open>last-window\<close> then goes to the window after the one that was used last.
\<close>

lemma last_window_after_close:
  assumes "windows_ok c" "tc_active c < tc_last c" "tc_last c + 1 < int (length (tc_windows c))"
  shows "map_option fst (active_window (snd (focus_last_window (snd (close_active_window c))))) =
           Some (fst (tc_windows c ! nat (tc_last c + 1)))
     \<and> fst (tc_windows c ! nat (tc_last c + 1)) \<noteq> fst (tc_windows c ! nat (tc_last c))"
proof -
  obtain k l where kl: "tc_active c = int k" "tc_last c = int l"
    using assms(1) nonneg_int_cases unfolding windows_ok_def indices_ok_def by metis
  let ?n = "length (tc_windows c)" and ?ws = "take k (tc_windows c) @ drop (Suc k) (tc_windows c)"
  have l: "k < l" "Suc l < ?n" using assms(2,3) by (simp_all add: kl)
  then have two: "2 \<le> ?n" and k: "k < ?n" by simp_all
  have d: "distinct (map fst (tc_windows c))" using assms(1) by (simp add: windows_ok_def)
  have len: "length ?ws = ?n - 1" using k by simp
  have "fst (rename_all ?ws ! l) = fst (tc_windows c ! Suc l)"
    using l len by (simp add: rename_all_nth nth_without [OF k] del: length_append)
  moreover have "clamp_index (?n - 1) (int l) = int l" using l by (auto simp: clamp_index_def Let_def)
  moreover have "nat (int l + 1) = Suc l" by simp
  moreover have "fst (tc_windows c ! Suc l) \<noteq> fst (tc_windows c ! l)"
    using l nth_eq_iff_index_eq [OF d, of "Suc l" l] by simp
  moreover obtain c' where c': "snd (close_active_window c) = c'" "tc_windows c' = rename_all ?ws"
      "tc_active c' = int k" "tc_last c' = int l"
    using l calculation(2) by (simp add: close_active_window_eq [OF assms(1) two kl(1) k] kl(2))
  moreover have "focus_last_window c' = (True, c'\<lparr>tc_last := int k, tc_active := int l\<rparr>)"
    using c' l len by (auto simp: focus_last_window_def Let_def min_def simp del: length_append)
  moreover from this have "active_window (snd (focus_last_window c')) = Some (rename_all ?ws ! l)"
    using active_window_nth [of l "snd (focus_last_window c')"] c' l len by (simp del: length_append)
  ultimately show ?thesis by (simp add: kl)
qed

lemma last_window_after_close_example:
  "map_option fst (active_window (snd (focus_last_window (snd (close_active_window
     (snd (focus_window 0 (snd (focus_window 1 three_windows))))))))) = Some 2"
proof -
  let ?c = "snd (focus_window 0 (snd (focus_window 1 three_windows)))"
  have "windows_ok ?c" by (intro focus_ok(1) three_windows_ok)
  moreover have "tc_active ?c = 0" "tc_last ?c = 1" "length (tc_windows ?c) = 3" "fst (tc_windows ?c ! 2) = 2"
    using nth_map [of 2 "tc_windows three_windows" fst] by (simp_all add: focus_window_def three_windows_facts)
  ultimately show ?thesis using last_window_after_close [of ?c] by simp
qed

lemma add_mod_inj: "i < n \<Longrightarrow> j < n \<Longrightarrow> (a + i) mod n = (a + j) mod n \<Longrightarrow> i = j" for a n :: nat
proof (induction i j rule: linorder_wlog)
  case (le i j)
  then have "n dvd j - i" using mod_eq_dvd_iff_nat [of "a + i" "a + j" n] by simp
  then show ?case using le by (auto dest: dvd_imp_le)
qed simp

lemma focus_next_iterate:
  assumes "windows_ok c" "2 \<le> length (tc_windows c)"
  shows "tc_windows (((snd \<circ> focus_next_window) ^^ j) c) = tc_windows c
     \<and> tc_active (((snd \<circ> focus_next_window) ^^ j) c) = (tc_active c + int j) mod int (length (tc_windows c))"
proof (induction j)
  case 0
  obtain k where "tc_active c = int k" "k < length (tc_windows c)" using assms by (rule window_indices)
  then show ?case by simp
qed (use assms(2) in \<open>auto simp: focus_next_window_def mod_simps algebra_simps\<close>)

text \<open>
  Window focus: repeating \<open>next-window\<close> visits every window, each exactly once per round;
  \<open>previous-window\<close> undoes \<open>next-window\<close>; and \<open>last-window\<close> twice returns to the state before.
\<close>

lemma focus_cycles:
  assumes "windows_ok c" "2 \<le> length (tc_windows c)"
  shows "bij_betw (\<lambda>j. nat (tc_active (((snd \<circ> focus_next_window) ^^ j) c)))
            {..<length (tc_windows c)} {..<length (tc_windows c)}
     \<and> tc_active (snd (focus_previous_window (snd (focus_next_window c)))) = tc_active c
     \<and> (tc_last c \<noteq> tc_active c \<longrightarrow> snd (focus_last_window (snd (focus_last_window c))) = c)"
proof -
  let ?n = "length (tc_windows c)"
  obtain a l where i: "tc_active c = int a" "tc_last c = int l" "a < ?n" "l < ?n" using assms by (rule window_indices)
  have eq: "nat (tc_active (((snd \<circ> focus_next_window) ^^ j) c)) = (a + j) mod ?n" for j
    unfolding focus_next_iterate [OF assms, THEN conjunct2] i(1)
    by (simp add: nat_mod_distrib flip: of_nat_add of_nat_mod)
  have inj: "inj_on (\<lambda>j. (a + j) mod ?n) {..<?n}"
    by (rule inj_onI) (simp add: add_mod_inj)
  have "(\<lambda>j. (a + j) mod ?n) ` {..<?n} \<subseteq> {..<?n}" using i(3) by (auto intro!: mod_less_divisor)
  then have "bij_betw (\<lambda>j. (a + j) mod ?n) {..<?n} {..<?n}"
    using inj endo_inj_surj [OF finite_lessThan _ inj] by (simp add: bij_betw_def)
  moreover have "tc_active (snd (focus_previous_window (snd (focus_next_window c)))) = tc_active c"
  proof -
    have "(int a + 1) mod int ?n = (if Suc a < ?n then int a + 1 else 0)" 
    proof (cases "Suc a < ?n")
      case False
      then have "int a + 1 = int ?n" using i(3) by linarith
      then show ?thesis using False by simp
    qed simp
    then show ?thesis using assms(2) i(1,3) by (auto simp: focus_next_window_def focus_previous_window_def Let_def)
  qed
  moreover have "tc_last c \<noteq> tc_active c \<longrightarrow> snd (focus_last_window (snd (focus_last_window c))) = c"
    using assms(2) i by (auto simp: focus_last_window_def Let_def)
  ultimately show ?thesis by (simp only: eq)
qed

lemma focus_cycles_example:
  "tc_active (snd (focus_previous_window (snd (focus_next_window three_windows)))) = 2"
  using focus_cycles [OF three_windows_ok]
  by (simp add: three_windows_facts)

text \<open>
  Default keys and built-in commands fit together: every default key binding names a command that
  \<open>initialize\<close> registers, whatever was registered before; all built-in names stay distinct.
\<close>

lemma default_keys_are_commands:
  "list_all (\<lambda>b. has_command (snd (initialize mc c cm)) (kb_command b)) default_bindings
   \<and> distinct (map fst (builtin_commands mc))"
proof -
  have "has_command (snd (initialize mc c cm)) n" if "n \<in> fst ` set (builtin_commands mc)" for n
  proof -
    from that have "map_of (builtin_commands mc) n \<noteq> None" by (simp add: map_of_eq_None_iff)
    then show ?thesis
      by (auto simp: has_command_def initialize_def register_all [OF builtin_names] split: option.split)
  qed
  moreover have "list_all (\<lambda>b. kb_command b \<in> fst ` set (builtin_commands mc)) default_bindings"
    by (simp add: default_bindings_def builtin_commands_def prefix_binding_def normal_binding_def)
  ultimately show ?thesis using builtin_names(1) by (auto simp: list_all_iff)
qed

end
