(* ===== verification/Tui_App.thy ===== *)
theory Tui_App
  imports Tui_Context
begin

text \<open>
  The application loop of the multiplexer as far as it reacts to input: \<open>TUIApp::handle_input\<close> and its
  helpers in \<open>modules/tui/src/tui.cpp\<close>, and the command bar in \<open>modules/tui/src/command_bar.cpp\<close>.

  An event of the terminal library is seen through what the sources ask of it: the key manager's
  view (\<open>Tui_Keys\<close>), its raw input and whether it is the custom refresh event. The steady clock is
  an argument. What a menu does with an event it is offered first (\<open>menu->root()->handle_event\<close>) is
  the virtual method \<open>offer\<close>, which can run commands: \<^const>\<open>None\<close> when the menu has no root, otherwise
  the answer and what it did to the context; \<open>Tui_Builtin\<close> has the one of the program's own menus.
  The bytes handed to panes are collected in \<open>ap_sent\<close>, with the window and the pane they went to.
\<close>

record app_event =
  ae_key :: event
  ae_input :: string
  ae_custom :: bool

type_synonym 'm menu_offer =
  "'m tui_context command_manager \<Rightarrow> 'm \<Rightarrow> app_event \<Rightarrow> 'm tui_context \<Rightarrow> (bool \<times> 'm tui_context) option"

record 'm tui_app =
  ap_ctx :: "'m tui_context"
  ap_commands :: "'m tui_context command_manager"
  ap_bar_active :: bool
  ap_bar_buffer :: string
  ap_saw_escape :: bool
  ap_sent :: "((nat \<times> pane_ptr) \<times> string) list"

text \<open>The key bindings are part of the context.\<close>

abbreviation ap_keys :: "'m tui_app \<Rightarrow> key_table" where
  "ap_keys a \<equiv> tc_keys (ap_ctx a)"

definition event_is :: "named_key \<Rightarrow> app_event \<Rightarrow> bool" where
  "event_is k ev \<longleftrightarrow> ev_named (ae_key ev) = Some k"

definition set_status :: "string \<Rightarrow> 'm tui_app \<Rightarrow> 'm tui_app" where
  "set_status msg a = a\<lparr>ap_ctx := set_status_message msg (ap_ctx a)\<rparr>"

definition set_modes :: "mode_manager \<Rightarrow> 'm tui_app \<Rightarrow> 'm tui_app" where
  "set_modes m a = a\<lparr>ap_ctx := (ap_ctx a)\<lparr>tc_modes := m\<rparr>\<rparr>"

section \<open>Command bar\<close>

definition bar_activate :: "'m tui_app \<Rightarrow> 'm tui_app" where
  "bar_activate a = a\<lparr>ap_bar_active := True, ap_bar_buffer := []\<rparr>"

definition bar_deactivate :: "'m tui_app \<Rightarrow> 'm tui_app" where
  "bar_deactivate a = a\<lparr>ap_bar_active := False, ap_bar_buffer := []\<rparr>"

definition execute_buffer :: "'m tui_app \<Rightarrow> bool \<times> 'm tui_app" where
  "execute_buffer a =
     (case words (ap_bar_buffer a) of
        [] \<Rightarrow> (True, bar_deactivate (set_status ''No command entered'' a))
      | command # args \<Rightarrow>
          (case execute (ap_commands a) (ap_ctx a) command args of
             (success, c) \<Rightarrow>
               (True, bar_deactivate (set_status
                  (if success then ''Command: '' @ command else ''Command failed: '' @ command) (a\<lparr>ap_ctx := c\<rparr>)))))"

definition isprint :: "char \<Rightarrow> bool" where
  "isprint c \<longleftrightarrow> 32 \<le> (of_char c :: nat) \<and> (of_char c :: nat) < 127"

definition bar_handle_event :: "app_event \<Rightarrow> 'm tui_app \<Rightarrow> bool \<times> 'm tui_app" where
  "bar_handle_event ev a =
     (if \<not> ap_bar_active a then (False, a)
      else if event_is Escape ev then (True, set_status ''Command cancelled'' (bar_deactivate a))
      else if event_is Backspace ev then (True, a\<lparr>ap_bar_buffer := butlast (ap_bar_buffer a)\<rparr>)
      else if event_is Return ev then execute_buffer a
      else if ev_is_character (ae_key ev) \<and> ev_character (ae_key ev) \<noteq> [] \<and> isprint (hd (ev_character (ae_key ev)))
      then (True, a\<lparr>ap_bar_buffer := ap_bar_buffer a @ ev_character (ae_key ev)\<rparr>)
      else (False, a))"

section \<open>Input\<close>

text \<open>\<open>win->send_input(data)\<close> for the active window, if there is one.\<close>

definition send_to :: "nat \<times> window \<Rightarrow> string \<Rightarrow> 'm tui_app \<Rightarrow> 'm tui_app" where
  "send_to iw data a =
     (case send_input_target (snd iw) of
        None \<Rightarrow> a
      | Some p \<Rightarrow> a\<lparr>ap_sent := ap_sent a @ [((fst iw, p), data)]\<rparr>)"

definition app_activate_prefix :: "int \<Rightarrow> 'm tui_app \<Rightarrow> 'm tui_app" where
  "app_activate_prefix now a = set_status ''PREFIX MODE'' (set_modes (activate_prefix now 1000 (tc_modes (ap_ctx a))) a)"

text \<open>Run a command found for a key: no arguments, and a message only when it fails.\<close>

definition run_key_command :: "string \<Rightarrow> 'm tui_app \<Rightarrow> 'm tui_app" where
  "run_key_command cmd a =
     (case execute (ap_commands a) (ap_ctx a) cmd [] of
        (success, c) \<Rightarrow>
          if success then a\<lparr>ap_ctx := c\<rparr> else set_status (''Command failed: '' @ cmd) (a\<lparr>ap_ctx := c\<rparr>))"

definition handle_prefix_input :: "app_event \<Rightarrow> 'm tui_app \<Rightarrow> bool \<times> 'm tui_app" where
  "handle_prefix_input ev a0 =
     (let a = a0\<lparr>ap_saw_escape := False\<rparr> in
      if ae_custom ev then (False, a)
      else
        let left = set_modes (deactivate_prefix (tc_modes (ap_ctx a))) a in
        (case lookup (ap_keys a) (ae_key ev) PREFIX True of
           Some cmd \<Rightarrow> (True, run_key_command cmd left)
         | None \<Rightarrow>
             if ae_input ev = [] \<or> ae_input ev = [CHR 0x00] then (True, left)
             else (False, set_status ''Unknown prefix command'' left)))"

primrec insert_key_bytes :: "named_key \<Rightarrow> string option" where
  "insert_key_bytes ArrowUp = Some [CHR 0x1B, CHR ''['', CHR ''A'']"
| "insert_key_bytes ArrowDown = Some [CHR 0x1B, CHR ''['', CHR ''B'']"
| "insert_key_bytes ArrowLeft = Some [CHR 0x1B, CHR ''['', CHR ''D'']"
| "insert_key_bytes ArrowRight = Some [CHR 0x1B, CHR ''['', CHR ''C'']"
| "insert_key_bytes Backspace = Some [CHR 0x7F]"
| "insert_key_bytes Delete = Some [CHR 0x1B, CHR ''['', CHR ''3'', CHR 0x7E]"
| "insert_key_bytes Home = Some [CHR 0x1B, CHR ''['', CHR ''H'']"
| "insert_key_bytes End = Some [CHR 0x1B, CHR ''['', CHR ''F'']"
| "insert_key_bytes PageUp = Some [CHR 0x1B, CHR ''['', CHR ''5'', CHR 0x7E]"
| "insert_key_bytes PageDown = Some [CHR 0x1B, CHR ''['', CHR ''6'', CHR 0x7E]"
| "insert_key_bytes Tab = Some [CHR 0x09]"
| "insert_key_bytes Return = Some [CHR 0x0D]"
| "insert_key_bytes TabReverse = None"
| "insert_key_bytes Escape = None"
| "insert_key_bytes F1 = None"
| "insert_key_bytes F2 = None"
| "insert_key_bytes F3 = None"
| "insert_key_bytes F4 = None"
| "insert_key_bytes F5 = None"
| "insert_key_bytes F6 = None"
| "insert_key_bytes F7 = None"
| "insert_key_bytes F8 = None"
| "insert_key_bytes F9 = None"
| "insert_key_bytes F10 = None"
| "insert_key_bytes F11 = None"
| "insert_key_bytes F12 = None"

definition quit_app :: "'m tui_app \<Rightarrow> 'm tui_app" where
  "quit_app a = a\<lparr>ap_ctx := (ap_ctx a)\<lparr>tc_quit := True, tc_exit_loop := True\<rparr>\<rparr>"

definition handle_insert_input :: "app_event \<Rightarrow> 'm tui_app \<Rightarrow> bool \<times> 'm tui_app" where
  "handle_insert_input ev a =
     (case active_window (ap_ctx a) of
        None \<Rightarrow> (False, a)
      | Some iw \<Rightarrow>
          if ev_is_character (ae_key ev) then
            (if ev_character (ae_key ev) = [CHR 0x04] then (True, quit_app a)
             else (True, send_to iw (ev_character (ae_key ev)) a))
          else
            (case ev_named (ae_key ev) of
               None \<Rightarrow> (False, a)
             | Some k \<Rightarrow>
                 (case insert_key_bytes k of
                    Some data \<Rightarrow> (True, send_to iw data a)
                  | None \<Rightarrow> if k = F7 then (True, quit_app a) else (False, a))))"

text \<open>NORMAL mode: the menu first, then the key bindings.\<close>

definition handle_normal_input :: "'m menu_offer \<Rightarrow> app_event \<Rightarrow> 'm tui_app \<Rightarrow> bool \<times> 'm tui_app" where
  "handle_normal_input offer ev a =
     (let offered = (case current_menu (tc_menus (ap_ctx a)) of None \<Rightarrow> None | Some m \<Rightarrow> offer (ap_commands a) m ev (ap_ctx a));
          (taken, a1) = (case offered of None \<Rightarrow> (False, a) | Some (t, c) \<Rightarrow> (t, a\<lparr>ap_ctx := c\<rparr>))
      in if taken then (True, a1)
         else (case lookup (ap_keys a1) (ae_key ev) NORMAL False of
                 Some cmd \<Rightarrow> (True, run_key_command cmd a1)
               | None \<Rightarrow> (False, a1)))"

definition is_prefix_byte :: "string \<Rightarrow> bool" where
  "is_prefix_byte s \<longleftrightarrow> s \<noteq> [] \<and> hd s = CHR 0x02"

definition handle_input :: "'m menu_offer \<Rightarrow> int \<Rightarrow> app_event \<Rightarrow> 'm tui_app \<Rightarrow> bool \<times> 'm tui_app" where
  "handle_input offer now ev a0 =
     (let a = set_modes (snd (check_prefix_timeout now (tc_modes (ap_ctx a0)))) a0 in
      if ae_custom ev then (False, a)
      else if ap_bar_active a then bar_handle_event ev a
      else
        let current_mode = mm_current (tc_modes (ap_ctx a)) in
        if ev_is_character (ae_key ev) \<and> is_prefix_byte (ev_character (ae_key ev)) then (True, app_activate_prefix now a)
        else if is_prefix_byte (ae_input ev) then (True, app_activate_prefix now a)
        else if event_is Escape ev then (True, a\<lparr>ap_saw_escape := True\<rparr>)
        else if ap_saw_escape a \<and> ev_is_character (ae_key ev) \<and> ev_character (ae_key ev) = ''b''
        then (True, app_activate_prefix now (a\<lparr>ap_saw_escape := False\<rparr>))
        else
          let a1 = (if ap_saw_escape a then
                      (let a' = a\<lparr>ap_saw_escape := False\<rparr> in
                       if current_mode = INSERT then
                         (case active_window (ap_ctx a') of None \<Rightarrow> a' | Some iw \<Rightarrow> send_to iw [CHR 0x1B] a')
                       else a')
                    else a)
          in if ev_is_character (ae_key ev) \<and> ev_character (ae_key ev) = '':''
             then (True, set_status ''Command mode'' (bar_activate a1))
             else if current_mode = PREFIX then handle_prefix_input ev a1
             else if current_mode = INSERT then handle_insert_input ev a1
             else if current_mode = NORMAL then handle_normal_input offer ev a1
             else (False, a1))"

text \<open>Construction, registration of menus, and the initialisation at the start of \<open>run\<close>.\<close>

definition register_menus :: "(string \<times> 'm option) list \<Rightarrow> 'm tui_context \<Rightarrow> 'm tui_context" where
  "register_menus ms c = c\<lparr>tc_menus := fold (\<lambda>(i, f). register_menu i f) ms (tc_menus c)\<rparr>"

definition start_app :: "'m menu_class \<Rightarrow> environment \<Rightarrow> config_data option \<Rightarrow> (string \<times> 'm option) list \<Rightarrow> 'm tui_app" where
  "start_app mc env cfg ms =
     (case initialize mc (register_menus ms (new_context env cfg)) [] of
        (c, cm) \<Rightarrow> \<lparr>ap_ctx = c, ap_commands = cm, ap_bar_active = False,
                    ap_bar_buffer = [], ap_saw_escape = False, ap_sent = []\<rparr>)"

text \<open>
  The hooks of a menu can register commands. A command is a function of the context, so the context does not hold the
  command manager, and what the hooks that have run so far registered (\<open>mn_hooks\<close> lists them) is entered when the
  input has been handled: nothing looks a command up between the hooks of an input and its end.
\<close>

type_synonym 'm registrations =
  "(hook \<times> string) list \<Rightarrow> 'm tui_context command_manager \<Rightarrow> 'm tui_context command_manager"

definition on_input :: "'m menu_offer \<Rightarrow> 'm registrations \<Rightarrow> int \<Rightarrow> app_event \<Rightarrow> 'm tui_app \<Rightarrow> bool \<times> 'm tui_app" where
  "on_input offer reg now ev a =
     apsnd (\<lambda>b. b\<lparr>ap_commands := reg (mn_hooks (tc_menus (ap_ctx b))) (ap_commands b)\<rparr>) (handle_input offer now ev a)"

inductive app_step :: "'m menu_offer \<Rightarrow> 'm registrations \<Rightarrow> 'm tui_app \<Rightarrow> 'm tui_app \<Rightarrow> bool" for offer reg where
  as_input: "app_step offer reg a (snd (on_input offer reg now ev a))"

inductive_cases app_stepE: "app_step offer reg a b"

section \<open>Invariants of the context\<close>

text \<open>
  An invariant of the context that the status message, a change of the mode and quitting do not touch is an invariant of
  the application, if commands and menus keep it.
\<close>

locale context_invariant =
  fixes good :: "'m tui_context \<Rightarrow> bool"
  assumes good_status: "good c \<Longrightarrow> good (c\<lparr>tc_status := msg\<rparr>)"
    and good_modes: "good c \<Longrightarrow> (modes_ok (tc_modes c) \<Longrightarrow> modes_ok m) \<Longrightarrow> good (c\<lparr>tc_modes := m\<rparr>)"
    and good_quit: "good c \<Longrightarrow> good (c\<lparr>tc_quit := True, tc_exit_loop := True\<rparr>)"

definition commands_keep :: "('m tui_context \<Rightarrow> bool) \<Rightarrow> 'm tui_context command_manager \<Rightarrow> bool" where
  "commands_keep good cm \<longleftrightarrow> (\<forall>c name args. good c \<longrightarrow> good (snd (execute cm c name args)))"

definition offer_ok :: "('m tui_context \<Rightarrow> bool) \<Rightarrow> 'm menu_offer \<Rightarrow> bool" where
  "offer_ok good offer \<longleftrightarrow> (\<forall>cm m ev c t c'. commands_keep good cm \<longrightarrow> good c \<longrightarrow> current_menu (tc_menus c) = Some m \<longrightarrow>
     offer cm m ev c = Some (t, c') \<longrightarrow> good c')"

definition registrations_ok :: "('m tui_context \<Rightarrow> bool) \<Rightarrow> 'm registrations \<Rightarrow> bool" where
  "registrations_ok good reg \<longleftrightarrow> (\<forall>hs cm. commands_keep good cm \<longrightarrow> commands_keep good (reg hs cm))"

definition sent_ok :: "((nat \<times> pane_ptr) \<times> string) list \<Rightarrow> bool" where
  "sent_ok sent \<longleftrightarrow> (\<forall>(p, d)\<in>set sent. d \<noteq> '':'' \<and> \<not> is_prefix_byte d)"

definition app_ok :: "('m tui_context \<Rightarrow> bool) \<Rightarrow> 'm tui_app \<Rightarrow> bool" where
  "app_ok good a \<longleftrightarrow> good (ap_ctx a) \<and> commands_keep good (ap_commands a)
     \<and> (\<not> ap_bar_active a \<longrightarrow> ap_bar_buffer a = []) \<and> sent_ok (ap_sent a)"

lemma insert_key_bytes_ok: "insert_key_bytes k = Some d \<Longrightarrow> d \<noteq> '':'' \<and> \<not> is_prefix_byte d"
  by (cases k) (auto simp: is_prefix_byte_def)

context context_invariant
begin

lemma set_status_ok: "app_ok good a \<Longrightarrow> app_ok good (set_status msg a)"
  by (simp add: app_ok_def set_status_def set_status_message_def good_status)

lemma set_modes_ok: "app_ok good a \<Longrightarrow> (modes_ok (tc_modes (ap_ctx a)) \<Longrightarrow> modes_ok m) \<Longrightarrow> app_ok good (set_modes m a)"
  by (auto simp: app_ok_def set_modes_def intro: good_modes)

lemma saw_escape_ok [simp]: "app_ok good (a\<lparr>ap_saw_escape := b\<rparr>) = app_ok good a"
  by (simp add: app_ok_def)

lemma bar_ok: "app_ok good a \<Longrightarrow> app_ok good (bar_activate a)" "app_ok good a \<Longrightarrow> app_ok good (bar_deactivate a)"
  by (simp_all add: app_ok_def bar_activate_def bar_deactivate_def)

lemma app_ok_ctx: "app_ok good a \<Longrightarrow> good c \<Longrightarrow> app_ok good (a\<lparr>ap_ctx := c\<rparr>)"
  by (simp add: app_ok_def)

lemma execute_app_ok:
  assumes "app_ok good a" "execute (ap_commands a) (ap_ctx a) cmd args = (b, c)"
  shows "app_ok good (a\<lparr>ap_ctx := c\<rparr>)"
proof (rule app_ok_ctx [OF assms(1)])
  have "good (snd (execute (ap_commands a) (ap_ctx a) cmd args))" using assms(1) by (simp add: app_ok_def commands_keep_def)
  then show "good c" by (simp add: assms(2))
qed

lemma run_key_command_ok: "app_ok good a \<Longrightarrow> app_ok good (run_key_command cmd a)"
  by (auto simp: run_key_command_def intro: execute_app_ok set_status_ok split: prod.split)

lemma bar_buffer_ok: "app_ok good a \<Longrightarrow> ap_bar_active a \<Longrightarrow> app_ok good (a\<lparr>ap_bar_buffer := s\<rparr>)"
  by (simp add: app_ok_def)

lemma execute_buffer_ok: "app_ok good a \<Longrightarrow> app_ok good (snd (execute_buffer a))"
  by (auto simp: execute_buffer_def intro!: bar_ok(2) set_status_ok intro: execute_app_ok split: list.split prod.split)

lemma bar_handle_event_ok: "app_ok good a \<Longrightarrow> app_ok good (snd (bar_handle_event ev a))"
  by (auto simp: bar_handle_event_def execute_buffer_ok bar_buffer_ok bar_ok(2) set_status_ok)

lemma send_to_ok: "app_ok good a \<Longrightarrow> d \<noteq> '':'' \<Longrightarrow> \<not> is_prefix_byte d \<Longrightarrow> app_ok good (send_to iw d a)"
  by (auto simp: send_to_def app_ok_def sent_ok_def split: option.split)

lemma quit_app_ok: "app_ok good a \<Longrightarrow> app_ok good (quit_app a)"
  unfolding quit_app_def by (rule app_ok_ctx) (auto simp: app_ok_def good_quit)

lemma handle_insert_input_ok:
  "app_ok good a \<Longrightarrow> ev_character (ae_key ev) \<noteq> '':'' \<or> \<not> ev_is_character (ae_key ev) \<Longrightarrow>
   \<not> (ev_is_character (ae_key ev) \<and> is_prefix_byte (ev_character (ae_key ev))) \<Longrightarrow> app_ok good (snd (handle_insert_input ev a))"
  by (auto simp: handle_insert_input_def intro: quit_app_ok intro!: send_to_ok dest: insert_key_bytes_ok split: option.split)

lemma handle_prefix_input_ok: "app_ok good a \<Longrightarrow> app_ok good (snd (handle_prefix_input ev a))"
  by (auto simp: handle_prefix_input_def Let_def deactivate_fields(3)
      intro!: run_key_command_ok set_modes_ok set_status_ok split: option.split)

lemma handle_normal_input_ok:
  assumes "app_ok good a" "offer_ok good offer"
  shows "app_ok good (snd (handle_normal_input offer ev a))"
proof -
  have "app_ok good (a\<lparr>ap_ctx := c\<rparr>)"
    if "current_menu (tc_menus (ap_ctx a)) = Some m" "offer (ap_commands a) m ev (ap_ctx a) = Some (t, c)" for m t c
    by (rule app_ok_ctx [OF assms(1)]) (use assms that in \<open>auto simp: offer_ok_def app_ok_def\<close>)
  then show ?thesis using assms(1)
    by (auto simp: handle_normal_input_def Let_def run_key_command_ok split: option.split)
qed

lemma handle_input_ok:
  assumes "app_ok good a0" "offer_ok good offer"
  shows "app_ok good (snd (handle_input offer now ev a0))"
proof -
  define a where "a = set_modes (snd (check_prefix_timeout now (tc_modes (ap_ctx a0)))) a0"
  have ok: "app_ok good a" unfolding a_def
    by (rule set_modes_ok [OF assms(1)]) (rule mode_step_ok [OF _ ms_timeout])
  have pre: "app_ok good (app_activate_prefix now a')" if "app_ok good a'" for a'
    unfolding app_activate_prefix_def using that by (auto intro!: set_status_ok set_modes_ok activate_ok)
  define a1 where "a1 = (if ap_saw_escape a then
      (let a' = a\<lparr>ap_saw_escape := False\<rparr> in
       if mm_current (tc_modes (ap_ctx a)) = INSERT then
         (case active_window (ap_ctx a') of None \<Rightarrow> a' | Some iw \<Rightarrow> send_to iw [CHR 0x1B] a')
       else a') else a)"
  have ok1: "app_ok good a1"
    using ok by (auto simp: a1_def Let_def is_prefix_byte_def intro!: send_to_ok split: option.split)
  show ?thesis
    unfolding handle_input_def Let_def a_def [symmetric] a1_def [unfolded Let_def, symmetric]
    using ok ok1 assms(2)
    by (auto simp: bar_handle_event_ok pre bar_ok handle_prefix_input_ok set_status_ok
        intro!: handle_insert_input_ok handle_normal_input_ok)
qed

lemma app_step_ok: "offer_ok good offer \<Longrightarrow> registrations_ok good reg \<Longrightarrow> app_ok good a \<Longrightarrow> app_step offer reg a b \<Longrightarrow> app_ok good b"
  using handle_input_ok [of a offer] by (elim app_stepE) (simp add: on_input_def app_ok_def registrations_ok_def)

end

interpretation consistent: context_invariant context_ok
  by unfold_locales (auto simp: context_ok_simps)

lemma register_menus_ok: "menus_ok mn \<Longrightarrow> menus_ok (fold (\<lambda>(i, f). register_menu i f) ms mn)"
  by (induction ms arbitrary: mn) (auto intro: menu_step_ok [OF _ mn_step_register])

lemma start_app_context: "context_ok (ap_ctx (start_app mc env cfg ms :: 'm tui_app))"
proof -
  have "menus_ok (new_menu_manager :: 'm menu_manager)"
    by (simp add: menus_ok_def new_menu_manager_def std_map_wf_def stack_ids_def)
  then have "menus_ok (tc_menus (register_menus ms (new_context env cfg :: 'm tui_context)))"
    by (simp add: register_menus_def new_context_def register_menus_ok)
  then have "menus_ok (set_context ctx (tc_menus (register_menus ms (new_context env cfg :: 'm tui_context))))" for ctx
    by (rule menu_step_ok [OF _ mn_step_context])
  then show ?thesis
    by (simp add: start_app_def initialize_def case_prod_beta context_ok_def windows_ok_def indices_ok_def register_menus_def
        new_context_def initial_modes_ok)
qed

lemma start_app_commands: "ap_commands (start_app mc env cfg ms) = snd (initialize mc (register_menus ms (new_context env cfg)) [])"
  by (simp add: start_app_def case_prod_beta)

lemma start_app_fields [simp]:
  "ap_bar_active (start_app mc env cfg ms) = False" "ap_bar_buffer (start_app mc env cfg ms) = []"
  "ap_sent (start_app mc env cfg ms) = []"
  by (simp_all add: start_app_def case_prod_beta)

lemma start_app_ok: "app_ok context_ok (start_app mc env cfg ms)"
  by (simp add: app_ok_def start_app_context start_app_commands commands_keep_def execute_ok sent_ok_def)

interpretation app_run: step_invariant "app_step offer reg"
  "\<lambda>a. offer_ok context_ok offer \<and> registrations_ok context_ok reg \<and> app_ok context_ok a"
  by unfold_locales (auto intro: consistent.app_step_ok)

lemma reachable_app_ok:
  "offer_ok context_ok offer \<Longrightarrow> registrations_ok context_ok reg \<Longrightarrow>
   (app_step offer reg)\<^sup>*\<^sup>* (start_app mc env cfg ms) a \<Longrightarrow> app_ok context_ok a"
  using app_run.inv_steps [of offer reg "start_app mc env cfg ms" a] start_app_ok by blast

section \<open>Properties\<close>

definition no_offer :: "'m menu_offer" where
  "no_offer = (\<lambda>cm m ev c. None)"

definition no_registrations :: "'m registrations" where
  "no_registrations = (\<lambda>hs cm. cm)"

definition char_event :: "char \<Rightarrow> app_event" where
  "char_event c = \<lparr>ae_key = \<lparr>ev_named = None, ev_is_character = True, ev_character = [c]\<rparr>, ae_input = [c], ae_custom = False\<rparr>"

definition demo_menus :: "nat menu_class" where
  "demo_menus = \<lparr>mc_preserve_state = (\<lambda>_. False), mc_save_state = (\<lambda>_. []), mc_restore_state = (\<lambda>_ m. m),
     mc_build = id, mc_on_load = id, mc_on_unload = id, mc_on_resume = id\<rparr>"

lemma no_offer_ok [simp]: "offer_ok good no_offer" "registrations_ok good no_registrations"
  by (simp_all add: offer_ok_def no_offer_def registrations_ok_def no_registrations_def)

text \<open>
  The colon key cannot be typed: in every run of the application, no pane is ever sent a colon
  (or input starting with the prefix byte), because \<open>handle_input\<close> opens the command bar for it in
  every mode, INSERT included.
\<close>

lemma colon_never_sent:
  assumes "offer_ok context_ok offer" "registrations_ok context_ok reg" "(app_step offer reg)\<^sup>*\<^sup>* (start_app mc env cfg ms) a"
  shows "\<forall>(p, d)\<in>set (ap_sent a). d \<noteq> '':'' \<and> \<not> is_prefix_byte d"
  using reachable_app_ok [OF assms] by (simp add: app_ok_def sent_ok_def)

lemma active_window_exists:
  assumes "windows_ok c" "tc_windows c \<noteq> []"
  shows "\<exists>i w. active_window c = Some (i, w) \<and> window_ok w"
proof -
  have "active_window c \<noteq> None" using assms by (auto simp: windows_ok_def indices_ok_def active_window_def)
  then show ?thesis using active_window_ok(1) [OF assms(1)] by fastforce
qed

lemma no_timeout: "\<not> mm_prefix_active m \<Longrightarrow> check_prefix_timeout now m = (False, m)"
  by (simp add: check_prefix_timeout_def)

lemma set_modes_same [simp]: "set_modes (tc_modes (ap_ctx a)) a = a"
  by (simp add: set_modes_def)

lemma find_eq_self: "p \<in> set ps \<Longrightarrow> List.find (\<lambda>q. q = p) ps = Some p"
  by (induction ps) auto

lemma handle_insert_char:
  assumes "\<not> ap_bar_active a" "\<not> ap_saw_escape a" "mm_current (tc_modes (ap_ctx a)) = INSERT"
    "\<not> mm_prefix_active (tc_modes (ap_ctx a))" "active_window (ap_ctx a) = Some (i, w)" "send_input_target w = Some p"
    "c \<noteq> CHR '':''" "c \<noteq> CHR 0x02" "c \<noteq> CHR 0x04"
  shows "handle_input offer now (char_event c) a = (True, a\<lparr>ap_sent := ap_sent a @ [((i, p), [c])]\<rparr>)"
  using assms by (simp add: handle_input_def Let_def no_timeout char_event_def is_prefix_byte_def event_is_def
      handle_insert_input_def send_to_def)

text \<open>
  Typing: in INSERT mode with no command bar, every text without colon and the two reserved control
  bytes is delivered to the active pane of the active window, byte for byte and in order, at whatever
  times the keys come, and changes nothing else.
\<close>

lemma typed_text_delivered:
  assumes "context_ok (ap_ctx a)" "\<not> tc_undefined (ap_ctx a)" "active_window (ap_ctx a) = Some (i, w)"
    and "\<not> ap_bar_active a" "\<not> ap_saw_escape a" "mm_current (tc_modes (ap_ctx a)) = INSERT"
    and "\<forall>(t, c)\<in>set ks. c \<notin> {CHR '':'', CHR 0x02, CHR 0x04}"
  shows "\<exists>p. w_active w = Some p \<and> p \<in> set (w_panes w)
     \<and> fold (\<lambda>(t, c) a. snd (handle_input offer t (char_event c) a)) ks a =
         a\<lparr>ap_sent := ap_sent a @ map (\<lambda>(t, c). ((i, p), [c])) ks\<rparr>"
proof -
  have ok: "windows_ok (ap_ctx a)" "modes_ok (tc_modes (ap_ctx a))" using context_okD [OF assms(1,2)] by auto
  have "window_ok w" using active_window_ok(1) [OF ok(1) assms(3)] .
  then obtain p where p: "w_active w = Some p" "p \<in> set (w_panes w)" by (rule window_okE)
  have t: "send_input_target w = Some p"
    using find_eq_self [OF p(2)] p(1) by (simp add: send_input_target_def)
  have m: "\<not> mm_prefix_active (tc_modes (ap_ctx a))" using ok(2) assms(6) by (auto simp: modes_ok_def)
  have "fold (\<lambda>(t, c) a. snd (handle_input offer t (char_event c) a)) ks a =
         a\<lparr>ap_sent := ap_sent a @ map (\<lambda>(t, c). ((i, p), [c])) ks\<rparr>"
    using assms(3-7) m
  proof (induction ks arbitrary: a)
    case (Cons x ks)
    obtain t' c where x: "x = (t', c)" by (cases x)
    show ?case using Cons.IH [of "a\<lparr>ap_sent := ap_sent a @ [((i, p), [c])]\<rparr>"] Cons.prems x
      by (simp add: handle_insert_char [OF _ _ _ _ _ t])
  qed simp
  with p show ?thesis by blast
qed

definition typing_app :: "nat tui_app" where
  "typing_app = (start_app demo_menus (\<lambda>_. None) None [])\<lparr>ap_ctx := snd (create_window [] (new_context (\<lambda>_. None) None))\<rparr>"

lemma typing_app_context:
  "context_ok (ap_ctx typing_app)" "\<not> tc_undefined (ap_ctx typing_app)" "\<not> ap_bar_active typing_app"
  "\<not> ap_saw_escape typing_app" "mm_current (tc_modes (ap_ctx typing_app)) = INSERT" "ap_sent typing_app = []"
  "active_window (ap_ctx typing_app) = Some (0, set_name (window_label 0) (new_window ''/bin/sh''))"
proof -
  have c: "ap_ctx typing_app = snd (create_window [] (new_context (\<lambda>_. None) None))" by (simp add: typing_app_def)
  have "windows_ok (ap_ctx typing_app)" unfolding c by (intro create_window_ok new_context_windows_ok)
  moreover have "modes_ok (tc_modes (ap_ctx typing_app))" "menus_ok (tc_menus (ap_ctx typing_app))"
    by (simp_all add: c create_window_def new_context_def Let_def initial_modes_ok menus_ok_def new_menu_manager_def
        std_map_wf_def stack_ids_def)
  ultimately show "context_ok (ap_ctx typing_app)" by (simp add: context_ok_def)
qed (simp_all add: typing_app_def start_app_def initialize_def create_window_def new_context_def Let_def
    active_window_def pick_default_shell_def initial_modes_def)

lemma typed_text_delivered_example:
  "map snd (ap_sent (fold (\<lambda>(t, c) a. snd (handle_input no_offer t (char_event c) a)) [(0, CHR ''l''), (5, CHR ''s'')] typing_app)) = [''l'', ''s'']"
  using typed_text_delivered [OF typing_app_context(1,2,7,3-5), of "[(0, CHR ''l''), (5, CHR ''s'')]" no_offer]
  by (auto simp: typing_app_context(6))

section \<open>Prefix keys\<close>

lemma activate_prefix_time:
  "mm_prefix_time (activate_prefix now t m) = now" "mm_prefix_timeout_ms (activate_prefix now t m) = t"
  "mm_current (activate_prefix now t m) = PREFIX"
  by (auto simp: activate_prefix_def enter_def Let_def)

lemma prefix_not_expired:
  assumes "t0 \<le> t1" "t1 - t0 < 1000000000"
  shows "check_prefix_timeout t1 (activate_prefix t0 1000 m) = (False, activate_prefix t0 1000 m)"
proof -
  have "elapsed_ms t1 t0 < 1000" using assms by (simp add: elapsed_ms_def)
  then show ?thesis by (simp add: check_prefix_timeout_def activate_prefix_time)
qed

text \<open>
  \<^bold>\<open>C23\<close> Prefix commands end to end: pressing Ctrl-B and, within a second, any key with a prefix binding
  (except the colon and Escape, which are taken before) runs exactly the bound command, with no
  arguments, in the mode the user was in before the prefix; a failure is reported in the status line.
\<close>

theorem prefix_key_runs_command:
  assumes "modes_ok (tc_modes (ap_ctx a))" "mm_current (tc_modes (ap_ctx a)) \<noteq> PREFIX"
    and "\<not> ap_bar_active a" "\<not> ap_saw_escape a" "t0 \<le> t1" "t1 - t0 < 1000000000"
    and "\<not> ae_custom ev" "\<not> is_prefix_byte (ae_input ev)" "\<not> event_is Escape ev"
    and "ev_is_character (ae_key ev) \<longrightarrow> ev_character (ae_key ev) \<noteq> '':'' \<and> \<not> is_prefix_byte (ev_character (ae_key ev))"
    and "lookup (ap_keys a) (ae_key ev) PREFIX True = Some cmd"
  shows "let m = deactivate_prefix (activate_prefix t0 1000 (tc_modes (ap_ctx a))) in
     handle_input offer t1 ev (snd (handle_input offer t0 (char_event (CHR 0x02)) a)) =
       (True, run_key_command cmd (set_status ''PREFIX MODE'' (set_modes m a)))
     \<and> mm_current m = mm_current (tc_modes (ap_ctx a)) \<and> \<not> mm_prefix_active m"
proof -
  let ?m0 = "tc_modes (ap_ctx a)"
  let ?m1 = "activate_prefix t0 1000 ?m0"
  have np: "\<not> mm_prefix_active ?m0" using assms(1,2) by (auto simp: modes_ok_def)
  have ok1: "modes_ok ?m1" using assms(1) by (rule activate_ok)
  have "mm_previous ?m1 = mm_current ?m0" using assms(2) by (simp add: activate_prefix_def enter_fields)
  then have m: "mm_current (deactivate_prefix ?m1) = mm_current ?m0" "\<not> mm_prefix_active (deactivate_prefix ?m1)"
    using deactivate_fields(1,4) [OF ok1] by (simp_all add: activate_prefix_time)
  have one: "handle_input offer t0 (char_event (CHR 0x02)) a = (True, set_status ''PREFIX MODE'' (set_modes ?m1 a))"
    using assms(3) np by (simp add: handle_input_def Let_def no_timeout char_event_def is_prefix_byte_def app_activate_prefix_def)
  define a1 where "a1 = set_status ''PREFIX MODE'' (set_modes ?m1 a)"
  have a1: "tc_modes (ap_ctx a1) = ?m1" "\<not> ap_bar_active a1" "\<not> ap_saw_escape a1" "ap_keys a1 = ap_keys a"
    "a1\<lparr>ap_saw_escape := False\<rparr> = a1" "set_modes m a1 = set_status ''PREFIX MODE'' (set_modes m a)" for m
    using assms(3,4) by (simp_all add: a1_def set_status_def set_modes_def set_status_message_def)
  have "set_modes (snd (check_prefix_timeout t1 (tc_modes (ap_ctx a1)))) a1 = a1"
    using set_modes_same [of a1] by (simp add: a1(1) prefix_not_expired [OF assms(5,6)])
  then have "handle_input offer t1 ev a1 = handle_prefix_input ev a1"
    unfolding handle_input_def Let_def using assms(7-10) a1(1-3) by (auto simp: activate_prefix_time)
  also have "\<dots> = (True, run_key_command cmd (set_modes (deactivate_prefix ?m1) a1))"
    unfolding handle_prefix_input_def Let_def a1(5) using assms(7,11) a1(1,4) by simp
  finally show ?thesis using m one by (simp add: Let_def a1_def [symmetric] a1(6))
qed

theorem prefix_key_runs_command_witness:
  "ap_ctx (snd (handle_input no_offer 100 (char_event (CHR ''q'')) (snd (handle_input no_offer 0 (char_event (CHR 0x02))
     (start_app demo_menus (\<lambda>_. None) None []))))) =
   (ap_ctx (start_app demo_menus (\<lambda>_. None) None []))
     \<lparr>tc_modes := deactivate_prefix (activate_prefix 0 1000 initial_modes), tc_status := ''PREFIX MODE'', tc_quit := True, tc_exit_loop := True\<rparr>"
proof -
  let ?a = "start_app demo_menus (\<lambda>_. None) None []"
  have "lookup (ap_keys ?a) (ae_key (char_event (CHR ''q''))) PREFIX True = Some ''quit''"
    by (simp add: start_app_def initialize_def register_menus_def new_context_def lookup_def event_to_key_string_def
        char_event_def default_lookup
        default_bindings_def prefix_binding_def normal_binding_def of_char_def Let_def)
  moreover have "tc_modes (ap_ctx ?a) = initial_modes" "\<not> ap_bar_active ?a" "\<not> ap_saw_escape ?a"
    by (simp_all add: start_app_def initialize_def register_menus_def new_context_def)
  moreover have "mm_current initial_modes \<noteq> PREFIX" by (simp add: initial_modes_def)
  moreover have "execute (ap_commands ?a) c ''quit'' [] = (True, c\<lparr>tc_quit := True, tc_exit_loop := True\<rparr>)" for c
    by (simp add: start_app_def case_prod_beta execute_builtin builtin_commands_def cmd_quit_def)
  ultimately show ?thesis
    using prefix_key_runs_command [of ?a 0 100 "char_event (CHR ''q'')" "''quit''" no_offer] initial_modes_ok
    by (simp add: char_event_def is_prefix_byte_def event_is_def Let_def run_key_command_def set_status_def set_modes_def
        set_status_message_def)
qed

text \<open>
  Dead bindings: the default table binds the colon (in PREFIX and NORMAL mode) and Escape (in NORMAL
  mode), but with no command bar open the input handler takes both keys before it looks at any
  binding: no command runs, and only the status line and an expired prefix change in the context.
\<close>

lemma colon_and_escape_bindings_dead:
  assumes "\<not> ae_custom ev" "\<not> ap_bar_active a" "\<not> is_prefix_byte (ae_input ev)"
    and "event_is Escape ev \<and> \<not> ev_is_character (ae_key ev) \<or> ev_is_character (ae_key ev) \<and> ev_character (ae_key ev) = '':''"
  shows "case handle_input offer now ev a of (taken, a') \<Rightarrow>
     taken \<and> ap_ctx a' = (ap_ctx a)\<lparr>tc_modes := snd (check_prefix_timeout now (tc_modes (ap_ctx a))), tc_status := tc_status (ap_ctx a')\<rparr>"
proof -
  have send: "ap_ctx (send_to iw d b) = ap_ctx b" for iw d and b :: "'a tui_app"
    by (simp add: send_to_def split: option.split)
  show ?thesis using assms
    by (auto simp: handle_input_def Let_def set_modes_def set_status_def set_status_message_def bar_activate_def
        is_prefix_byte_def send split: option.split)
qed

end
