(* ===== verification/System_Process.thy ===== *)
theory System_Process
  imports Nazg_Prelude
begin

text \<open>
  Running commands: \<open>modules/system/include/system/process.hpp\<close> and \<open>modules/system/src/process.cpp\<close>.
  What the operating system answers (\<open>popen\<close>, \<open>system\<close>, \<open>poll\<close>, \<open>read\<close>, \<open>waitpid\<close>) is an argument. The
  wait-status macros are those of the C library on the supported targets. For \<open>shell_quote\<close> the
  POSIX rules for quotes are stated as a reader, \<open>sh_read\<close>, which gives up (\<^const>\<open>None\<close>) on every character
  that would have a meaning to the shell outside quotes.
\<close>

section \<open>Results\<close>

record command_result =
  cr_exit_code :: int
  cr_output :: string

definition WIFEXITED :: "int \<Rightarrow> bool" where
  "WIFEXITED status \<longleftrightarrow> status mod 128 = 0"

definition WEXITSTATUS :: "int \<Rightarrow> int" where
  "WEXITSTATUS status = status div 256 mod 256"

definition WTERMSIG :: "int \<Rightarrow> int" where
  "WTERMSIG status = status mod 128"

definition WIFSIGNALED :: "int \<Rightarrow> bool" where
  "WIFSIGNALED status \<longleftrightarrow> 0 < status mod 128 \<and> status mod 128 < 127"

definition trim_newline :: "string \<Rightarrow> string" where
  "trim_newline out = (if out \<noteq> [] \<and> last out = CHR 0x0A then butlast out else out)"

definition status_code :: "int \<Rightarrow> int" where
  "status_code status = (if status = -1 then -1 else if WIFEXITED status then WEXITSTATUS status else status)"

text \<open>Each chunk read by \<open>fgets\<close> is appended as a C string, so it ends at its first NUL byte.\<close>

definition c_string :: "string \<Rightarrow> string" where
  "c_string s = takeWhile (\<lambda>c. c \<noteq> CHR 0x00) s"

definition exec_command :: "(string \<Rightarrow> (string list \<times> int) option) \<Rightarrow> string \<Rightarrow> command_result" where
  "exec_command popen cmd =
     (case popen (c_string cmd) of
        None \<Rightarrow> \<lparr>cr_exit_code = -1, cr_output = []\<rparr>
      | Some (chunks, status) \<Rightarrow>
          \<lparr>cr_exit_code = status_code status, cr_output = trim_newline (concat (map c_string chunks))\<rparr>)"

definition run_capture :: "(string \<Rightarrow> (string list \<times> int) option) \<Rightarrow> string \<Rightarrow> string" where
  "run_capture popen cmd = cr_output (exec_command popen cmd)"

definition run_command :: "(string \<Rightarrow> int) \<Rightarrow> string \<Rightarrow> int" where
  "run_command sys cmd = status_code (sys (c_string cmd))"

definition run_command_capture :: "(string \<Rightarrow> (string list \<times> int) option) \<Rightarrow> string \<Rightarrow> command_result" where
  "run_command_capture popen cmd = exec_command popen cmd"

section \<open>Running with a timeout\<close>

text \<open>
  One round of the loop sees one of these: data, end of file, an expired poll, an interrupted poll,
  or an error. The rounds are a list; running out of them means the call has not returned.
\<close>

datatype poll_event = Data string | Eof | Expired | Interrupted | PollError

fun read_loop :: "poll_event list \<Rightarrow> string \<Rightarrow> (string \<times> bool) option" where
  "read_loop [] output = None"
| "read_loop (Data chunk # evs) output = (if chunk = [] then Some (output, False) else read_loop evs (output @ chunk))"
| "read_loop (Eof # evs) output = Some (output, False)"
| "read_loop (Expired # evs) output = Some (output, True)"
| "read_loop (Interrupted # evs) output = read_loop evs output"
| "read_loop (PollError # evs) output = Some (output, False)"

text \<open>\<open>None\<close> for \<open>child\<close> is a failed \<open>pipe\<close> or \<open>fork\<close>.\<close>

definition run_command_with_timeout :: "(poll_event list \<times> int) option \<Rightarrow> command_result option" where
  "run_command_with_timeout child =
     (case child of
        None \<Rightarrow> Some \<lparr>cr_exit_code = -1, cr_output = []\<rparr>
      | Some (evs, status) \<Rightarrow>
          map_option (\<lambda>(output, timed_out).
            if timed_out then \<lparr>cr_exit_code = 124, cr_output = output\<rparr>
            else \<lparr>cr_exit_code = (if WIFEXITED status then WEXITSTATUS status
                                   else if WIFSIGNALED status then 128 + WTERMSIG status else status),
                  cr_output = trim_newline output\<rparr>) (read_loop evs []))"

section \<open>Quoting\<close>

definition shell_quote :: "string \<Rightarrow> string" where
  "shell_quote value =
     [CHR 0x27] @ concat (map (\<lambda>ch. if ch = CHR 0x27 then [CHR 0x27, CHR 0x22, CHR 0x27, CHR 0x22, CHR 0x27] else [ch]) value)
       @ [CHR 0x27]"

datatype sh_mode = Plain | Single | Double

definition sh_special :: "char \<Rightarrow> bool" where
  "sh_special c \<longleftrightarrow> c \<in> set ''$;&|<>()*?[]#~%!{}^'' \<or> c \<in> {CHR 0x60, CHR 0x5C, CHR 0x0A}"

fun sh_scan :: "sh_mode \<Rightarrow> string option \<Rightarrow> string \<Rightarrow> string list option" where
  "sh_scan Plain w [] = Some (case w of None \<Rightarrow> [] | Some x \<Rightarrow> [x])"
| "sh_scan Single w [] = None"
| "sh_scan Double w [] = None"
| "sh_scan Plain w (c # cs) =
     (let cur = (case w of None \<Rightarrow> [] | Some x \<Rightarrow> x) in
      if c = CHR '' '' \<or> c = CHR 0x09 then
        map_option (\<lambda>ws. (case w of None \<Rightarrow> [] | Some x \<Rightarrow> [x]) @ ws) (sh_scan Plain None cs)
      else if c = CHR 0x27 then sh_scan Single (Some cur) cs
      else if c = CHR 0x22 then sh_scan Double (Some cur) cs
      else if sh_special c then None
      else sh_scan Plain (Some (cur @ [c])) cs)"
| "sh_scan Single w (c # cs) =
     (let cur = (case w of None \<Rightarrow> [] | Some x \<Rightarrow> x) in
      if c = CHR 0x27 then sh_scan Plain (Some cur) cs else sh_scan Single (Some (cur @ [c])) cs)"
| "sh_scan Double w (c # cs) =
     (let cur = (case w of None \<Rightarrow> [] | Some x \<Rightarrow> x) in
      if c = CHR 0x22 then sh_scan Plain (Some cur) cs
      else if c = CHR ''$'' \<or> c = CHR 0x60 \<or> c = CHR 0x5C then None
      else sh_scan Double (Some (cur @ [c])) cs)"

definition sh_read :: "string \<Rightarrow> string list option" where
  "sh_read s = sh_scan Plain None s"

lemma scan_quoted:
  "sh_scan Single (Some w) (concat (map (\<lambda>ch. if ch = CHR 0x27 then [CHR 0x27, CHR 0x22, CHR 0x27, CHR 0x22, CHR 0x27] else [ch]) v)
     @ CHR 0x27 # rest) = sh_scan Plain (Some (w @ v)) rest"
  by (induction v arbitrary: w) auto

lemma scan_shell_quote:
  "sh_scan Plain w (shell_quote v @ rest) = sh_scan Plain (Some ((case w of None \<Rightarrow> [] | Some x \<Rightarrow> x) @ v)) rest"
  by (simp add: shell_quote_def scan_quoted)

lemma scan_quoted_words:
  "sh_scan Plain None (join_with '' '' (map shell_quote args)) = Some args"
proof (induction args)
  case (Cons a args)
  then show ?case
  proof (cases args)
    case Nil
    then show ?thesis using scan_shell_quote [of None a "[]"] by simp
  next
    case (Cons b bs)
    then show ?thesis using Cons.IH scan_shell_quote [of None a "CHR '' '' # join_with '' '' (map shell_quote args)"]
      by simp
  qed
qed simp

text \<open>A quoted argument list is a code for the list that the shell reads back.\<close>

interpretation shell_args: codec "\<lambda>args. join_with '' '' (map shell_quote args)" sh_read "\<lambda>_. True"
  by unfold_locales (simp add: sh_read_def scan_quoted_words)

text \<open>Text that needs no quoting is read as it stands.\<close>

definition plain_word :: "string \<Rightarrow> bool" where
  "plain_word w \<longleftrightarrow> w \<noteq> [] \<and> list_all (\<lambda>c. \<not> sh_special c \<and> c \<notin> {CHR '' '', CHR 0x09, CHR 0x27, CHR 0x22}) w"

lemma scan_plain_chars:
  "list_all (\<lambda>c. \<not> sh_special c \<and> c \<notin> {CHR '' '', CHR 0x09, CHR 0x27, CHR 0x22}) s \<Longrightarrow>
     sh_scan Plain (Some w) (s @ rest) = sh_scan Plain (Some (w @ s)) rest"
  by (induction s arbitrary: w) auto

lemma scan_plain_word: "plain_word w \<Longrightarrow> sh_scan Plain None (w @ rest) = sh_scan Plain (Some w) rest"
proof -
  assume "plain_word w"
  then obtain c cs where "w = c # cs" "list_all (\<lambda>c. \<not> sh_special c \<and> c \<notin> {CHR '' '', CHR 0x09, CHR 0x27, CHR 0x22}) (c # cs)"
    by (cases w) (auto simp: plain_word_def)
  then show ?thesis using scan_plain_chars [of cs "[c]" rest] by simp
qed

lemma read_plain_words: "list_all plain_word ws \<Longrightarrow> sh_read (join_with '' '' ws) = Some ws"
proof (induction ws)
  case (Cons w ws)
  then have w: "plain_word w" and IH: "sh_scan Plain None (join_with '' '' ws) = Some ws" by (simp_all add: sh_read_def)
  show ?case
  proof (cases "ws = []")
    case True
    then show ?thesis using scan_plain_word [OF w, of "[]"] by (simp add: sh_read_def)
  next
    case False
    then show ?thesis using scan_plain_word [OF w, of "CHR '' '' # join_with '' '' ws"] IH by (simp add: sh_read_def)
  qed
qed (simp add: sh_read_def)

lemma read_command_quoted:
  "plain_word cmd \<Longrightarrow> sh_read (cmd @ '' '' @ join_with '' '' (map shell_quote args)) = Some (cmd # args)"
  by (simp add: sh_read_def scan_plain_word scan_quoted_words)

section \<open>Properties\<close>

text \<open>
  \<^bold>\<open>C18\<close> No injection through quoted arguments: after a plain command name, any list of arguments quoted with
  \<open>shell_quote\<close> is read by the shell as exactly those words, whatever characters they hold (blanks,
  quotes, \<open>$\<close>, backquotes, \<open>;\<close>, newlines), and two argument lists that quote to the same text are equal.
\<close>

theorem shell_quote_exact:
  assumes "plain_word cmd" "CHR ''='' \<notin> set cmd"
  shows "sh_read (cmd @ '' '' @ join_with '' '' (map shell_quote args)) = Some (cmd # args)
     \<and> inj (\<lambda>args. join_with '' '' (map shell_quote args))"
  using read_command_quoted [OF assms(1)] shell_args.enc_inj_on by (simp add: inj_on_def inj_def)

theorem shell_quote_exact_witness:
  "sh_read (''rm '' @ join_with '' '' (map shell_quote [''a b; reboot'', ''$HOME''])) = Some [''rm'', ''a b; reboot'', ''$HOME'']"
  using shell_quote_exact [of "''rm''" "[''a b; reboot'', ''$HOME'']"] by (simp add: plain_word_def sh_special_def)

definition quiet :: "poll_event \<Rightarrow> bool" where
  "quiet e \<longleftrightarrow> e = Interrupted \<or> (\<exists>d. d \<noteq> [] \<and> e = Data d)"

definition data_of :: "poll_event \<Rightarrow> string" where
  "data_of e = (case e of Data d \<Rightarrow> d | _ \<Rightarrow> [])"

lemma read_loop_quiet:
  "list_all quiet pre \<Longrightarrow> read_loop (pre @ evs) out = read_loop evs (out @ concat (map data_of pre))"
  by (induction pre arbitrary: out) (auto simp: quiet_def data_of_def)

lemma read_loop_decisive: "\<not> quiet e \<Longrightarrow> read_loop (e # post) out = Some (out, e = Expired)"
  by (cases e) (auto simp: quiet_def)

text \<open>
  Timeout protocol: the call returns at the first decisive event (end of file, expired poll, error),
  and never before; the output is all data read until then. An expired poll gives exit code 124;
  otherwise the code is the child's exit status, or 128 plus its signal, with one trailing newline
  of the output removed. A child that keeps producing data keeps the call waiting.
\<close>

lemma timeout_result:
  assumes "list_all quiet pre" "\<not> quiet e"
  shows "run_command_with_timeout (Some (pre @ e # post, status)) =
       Some (let out = concat (map data_of pre) in
         if e = Expired then \<lparr>cr_exit_code = 124, cr_output = out\<rparr>
         else \<lparr>cr_exit_code = (if WIFEXITED status then WEXITSTATUS status
                               else if WIFSIGNALED status then 128 + WTERMSIG status else status),
               cr_output = trim_newline out\<rparr>)
     \<and> run_command_with_timeout (Some (pre, status)) = None"
proof
  have "read_loop (pre @ e # post) [] = Some (concat (map data_of pre), e = Expired)"
    by (simp add: read_loop_quiet [OF assms(1)] read_loop_decisive [OF assms(2)])
  then show "run_command_with_timeout (Some (pre @ e # post, status)) =
       Some (let out = concat (map data_of pre) in
         if e = Expired then \<lparr>cr_exit_code = 124, cr_output = out\<rparr>
         else \<lparr>cr_exit_code = (if WIFEXITED status then WEXITSTATUS status
                               else if WIFSIGNALED status then 128 + WTERMSIG status else status),
               cr_output = trim_newline out\<rparr>)"
    by (simp add: run_command_with_timeout_def Let_def)
  show "run_command_with_timeout (Some (pre, status)) = None"
    using read_loop_quiet [OF assms(1), of "[]" "[]"] by (simp add: run_command_with_timeout_def)
qed

lemma timeout_result_example:
  "run_command_with_timeout (Some ([Data ''a'', Interrupted] @ Expired # [], 0)) = Some \<lparr>cr_exit_code = 124, cr_output = ''a''\<rparr>"
  using timeout_result [of "[Data ''a'', Interrupted]" Expired "[]" 0]
  by (simp add: quiet_def data_of_def)

end
