(* ===== verification/Nexus_Sql.thy ===== *)
theory Nexus_Sql
  imports Nazg_Prelude System_Process "HOL-Library.Multiset"
begin

text \<open>
  The SQL of the Nexus module (\<open>src/modules/nexus/\<close>): the statements of \<open>store.cpp\<close> and the table
  declarations of \<open>migrations/*.sql\<close> are SQLite source text, and this theory gives the constructs
  they use their meaning.

  \<^item> A cell holds NULL, an integer or a text; a column has an affinity that turns the texts the
    driver binds (\<open>sqlite_driver.cpp\<close> binds every parameter as text, cut at the first NUL byte)
    into integers where they read as one and leaves every other text alone.
  \<^item> A table declaration (\<open>table_def\<close>) lists the columns with their NOT NULL and DEFAULT clauses, the
    UNIQUE keys and the foreign keys with their ON DELETE action; the primary key is always
    \<open>id INTEGER PRIMARY KEY AUTOINCREMENT\<close>.
  \<^item> A statement (\<open>sql_stmt\<close>) is an INSERT, an INSERT OR REPLACE, an INSERT with ON CONFLICT DO UPDATE, an UPDATE or a
    DELETE; \<open>run_stmt\<close> gives its effect on the tables, \<^const>\<open>None\<close> when a constraint refuses it.
  \<^item> A connection (\<open>sqlite\<close>) adds what the engine leaves open: which statements fail for reasons
    of I/O (\<open>io_fails\<close>, by statement number) and in which order a query visits the rows
    of a table (\<open>visit\<close>, any permutation), which is the order of rows that ORDER BY leaves equal.

  The main lemma is that every statement keeps the declared constraints (\<open>db_ok\<close>): distinct
  positive identifiers, NOT NULL, UNIQUE and referential integrity, also through cascading deletes.
\<close>

section \<open>Values\<close>

datatype sql_value = VNull | VInt int | VText string

datatype affinity = AInteger | AText

text \<open>NULL sorts before every integer, an integer before every text; texts compare bytewise.\<close>

fun value_le :: "sql_value \<Rightarrow> sql_value \<Rightarrow> bool" where
  "value_le VNull b = True"
| "value_le (VInt i) VNull = False"
| "value_le (VInt i) (VInt j) = (i \<le> j)"
| "value_le (VInt i) (VText t) = True"
| "value_le (VText s) (VText t) = (s \<le> t)"
| "value_le (VText s) b = False"

instantiation sql_value :: linorder
begin

definition less_eq_sql_value :: "sql_value \<Rightarrow> sql_value \<Rightarrow> bool" where
  "less_eq_sql_value a b = value_le a b"

definition less_sql_value :: "sql_value \<Rightarrow> sql_value \<Rightarrow> bool" where
  "less_sql_value a b = (value_le a b \<and> \<not> value_le b a)"

instance
proof
  fix a b c :: sql_value
  show "a < b \<longleftrightarrow> a \<le> b \<and> \<not> b \<le> a" by (simp add: less_eq_sql_value_def less_sql_value_def)
  show "a \<le> a" by (cases a) (simp_all add: less_eq_sql_value_def)
  show "a \<le> b \<Longrightarrow> b \<le> c \<Longrightarrow> a \<le> c"
    by (cases a; cases b; cases c) (simp_all add: less_eq_sql_value_def)
  show "a \<le> b \<Longrightarrow> b \<le> a \<Longrightarrow> a = b"
    by (cases a; cases b) (simp_all add: less_eq_sql_value_def)
  show "a \<le> b \<or> b \<le> a" by (cases a; cases b) (auto simp: less_eq_sql_value_def)
qed

end

lemma VInt_le [simp]: "VInt i \<le> VInt j \<longleftrightarrow> i \<le> j"
  by (simp add: less_eq_sql_value_def)

text \<open>
  \<open>sqlite3_bind_text (..., params[i].c_str (), -1, ...)\<close>: the bytes up to the first NUL. The integer
  affinity converts a text that is an optional sign followed by digits; the store only binds
  decimal renderings of \<open>int64_t\<close> values and, for a missing reference, the empty text.
\<close>

definition bind :: "string \<Rightarrow> sql_value" where
  "bind s = VText (c_string s)"

definition bind_int :: "int \<Rightarrow> sql_value" where
  "bind_int i = bind (to_string i)"

definition int_literal :: "string \<Rightarrow> int option" where
  "int_literal s =
     (let neg = (s \<noteq> [] \<and> hd s = CHR ''-'');
          u = (if s \<noteq> [] \<and> (hd s = CHR ''-'' \<or> hd s = CHR ''+'') then tl s else s)
      in if u \<noteq> [] \<and> list_all isdigit u
         then Some (if neg then - int (digits_value u) else int (digits_value u)) else None)"

fun coerce :: "affinity \<Rightarrow> sql_value \<Rightarrow> sql_value" where
  "coerce AInteger (VText s) = (case int_literal s of None \<Rightarrow> VText s | Some i \<Rightarrow> VInt i)"
| "coerce AText (VInt i) = VText (to_string i)"
| "coerce a v = v"

lemma int_literal_to_string: "int_literal (to_string i) = Some i"
proof -
  have d: "nat_digits n \<noteq> []" "list_all isdigit (nat_digits n)" "digits_value (nat_digits n) = n" for n
    using nat_digits_props [of n] by (auto simp: list_all_iff)
  show ?thesis
    using d [of "nat i"] d [of "nat (- i)"] nat_digits_hd [of "nat i"]
    by (auto simp: int_literal_def to_string_def Let_def)
qed

lemma nul_not_in_to_string: "CHR 0x00 \<notin> set (to_string i)"
proof -
  have "CHR 0x00 \<notin> set (nat_digits n)" for n
  proof
    assume "CHR 0x00 \<in> set (nat_digits n)"
    then have "isdigit (CHR 0x00)" using nat_digits_props [of n] by blast
    then show False by (simp add: isdigit_def)
  qed
  then show ?thesis by (simp add: to_string_def)
qed

lemma c_string_id: "CHR 0x00 \<notin> set s \<Longrightarrow> c_string s = s"
  unfolding c_string_def by (rule takeWhile_eq_all_conv [THEN iffD2]) auto

lemma c_string_idem [simp]: "c_string (c_string s) = c_string s"
  by (rule c_string_id) (auto simp: c_string_def dest: set_takeWhileD)

lemma coerce_bind_int [simp]: "coerce AInteger (bind_int i) = VInt i"
  by (simp add: bind_int_def bind_def c_string_id nul_not_in_to_string int_literal_to_string)

lemma coerce_bind_text [simp]: "coerce AText (bind s) = VText (c_string s)"
  by (simp add: bind_def)

lemma coerce_bind_empty [simp]: "coerce AInteger (bind []) = VText []"
  by (simp add: bind_def c_string_def int_literal_def)

section \<open>Tables\<close>

record column =
  cname :: string
  caff :: affinity
  not_null :: bool
  dflt :: sql_value

datatype on_delete = Cascade | Set_Null | No_Action

record table_def =
  tname :: string
  columns :: "column list"
  uniques :: "string list list"
  fkeys :: "(string \<times> string \<times> on_delete) list"

type_synonym cells = "(string \<times> sql_value) list"
type_synonym sql_row = "int \<times> cells"

record table =
  trows :: "sql_row list"
  seq :: int

type_synonym tables = "string \<Rightarrow> table"

definition empty_table :: table where
  "empty_table = \<lparr>trows = [], seq = 0\<rparr>"

definition cell :: "cells \<Rightarrow> string \<Rightarrow> sql_value" where
  "cell cs c = (case map_of cs c of None \<Rightarrow> VNull | Some v \<Rightarrow> v)"

definition val :: "sql_row \<Rightarrow> string \<Rightarrow> sql_value" where
  "val r c = (if c = ''id'' then VInt (fst r) else cell (snd r) c)"

definition find_def :: "table_def list \<Rightarrow> string \<Rightarrow> table_def option" where
  "find_def S t = find (\<lambda>d. tname d = t) S"

definition col_aff :: "table_def \<Rightarrow> string \<Rightarrow> affinity" where
  "col_aff d c =
     (if c = ''id'' then AInteger
      else case find (\<lambda>k. cname k = c) (columns d) of None \<Rightarrow> AText | Some k \<Rightarrow> caff k)"

text \<open>The cells of a new row: the listed values, coerced, and the defaults of the other columns.\<close>

definition new_cells :: "table_def \<Rightarrow> cells \<Rightarrow> cells" where
  "new_cells d vs =
     map (\<lambda>k. (cname k, case map_of vs (cname k) of None \<Rightarrow> dflt k | Some v \<Rightarrow> coerce (caff k) v)) (columns d)"

definition set_cells :: "table_def \<Rightarrow> cells \<Rightarrow> cells \<Rightarrow> cells" where
  "set_cells d vs cs =
     map (\<lambda>k. (cname k, case map_of vs (cname k) of None \<Rightarrow> cell cs (cname k)
                         | Some v \<Rightarrow> coerce (caff k) v)) (columns d)"

section \<open>Constraints\<close>

definition not_null_ok :: "table_def \<Rightarrow> cells \<Rightarrow> bool" where
  "not_null_ok d cs \<longleftrightarrow> list_all (\<lambda>k. not_null k \<longrightarrow> cell cs (cname k) \<noteq> VNull) (columns d)"

text \<open>Two rows collide on a UNIQUE key when all its columns agree and none of them is NULL.\<close>

definition same_key :: "string list \<Rightarrow> cells \<Rightarrow> cells \<Rightarrow> bool" where
  "same_key us a b \<longleftrightarrow> list_all (\<lambda>u. cell a u = cell b u \<and> cell a u \<noteq> VNull) us"

definition unique_ok :: "table_def \<Rightarrow> cells \<Rightarrow> sql_row list \<Rightarrow> bool" where
  "unique_ok d cs rs \<longleftrightarrow> list_all (\<lambda>us. list_all (\<lambda>r. \<not> same_key us cs (snd r)) rs) (uniques d)"

definition ids_of :: "table \<Rightarrow> int list" where
  "ids_of T = map fst (trows T)"

definition refers :: "tables \<Rightarrow> string \<Rightarrow> sql_value \<Rightarrow> bool" where
  "refers T p v \<longleftrightarrow> (case v of VNull \<Rightarrow> True | VInt i \<Rightarrow> i \<in> set (ids_of (T p)) | VText _ \<Rightarrow> False)"

definition fkeys_ok :: "table_def \<Rightarrow> tables \<Rightarrow> cells \<Rightarrow> bool" where
  "fkeys_ok d T cs \<longleftrightarrow> list_all (\<lambda>(c, p, _). refers T p (cell cs c)) (fkeys d)"

section \<open>Statements\<close>

definition max_rowid :: int where
  "max_rowid = 2 ^ 63 - 1"

definition append_row :: "string \<Rightarrow> cells \<Rightarrow> tables \<Rightarrow> tables" where
  "append_row t cs T =
     (let i = seq (T t) + 1 in T(t := \<lparr>trows = trows (T t) @ [(i, cs)], seq = i\<rparr>))"

definition sql_insert :: "table_def \<Rightarrow> cells \<Rightarrow> tables \<Rightarrow> (tables \<times> int option) option" where
  "sql_insert d vs T =
     (let t = tname d; cs = new_cells d vs in
      if seq (T t) < max_rowid \<and> not_null_ok d cs \<and> unique_ok d cs (trows (T t)) \<and> fkeys_ok d T cs
      then Some (append_row t cs T, Some (seq (T t) + 1))
      else None)"

text \<open>
  UPDATE ... SET ... WHERE: the rows that satisfy the condition get the new cells; the statement is
  refused as a whole when a changed row violates a constraint.
\<close>

fun pairwise_unique :: "table_def \<Rightarrow> sql_row list \<Rightarrow> bool" where
  "pairwise_unique d [] = True"
| "pairwise_unique d (r # rs) = (unique_ok d (snd r) rs \<and> pairwise_unique d rs)"

definition updated_rows :: "table_def \<Rightarrow> (sql_row \<Rightarrow> bool) \<Rightarrow> (sql_row \<Rightarrow> cells) \<Rightarrow> sql_row list \<Rightarrow> sql_row list" where
  "updated_rows d p f rs = map (\<lambda>r. if p r then (fst r, set_cells d (f r) (snd r)) else r) rs"

definition sql_update ::
  "table_def \<Rightarrow> (sql_row \<Rightarrow> bool) \<Rightarrow> (sql_row \<Rightarrow> cells) \<Rightarrow> tables \<Rightarrow> tables option" where
  "sql_update d p f T =
     (let t = tname d; rs = updated_rows d p f (trows (T t)) in
      if list_all (\<lambda>r. p r \<longrightarrow> (let cs = set_cells d (f r) (snd r) in not_null_ok d cs \<and> fkeys_ok d T cs))
           (trows (T t)) \<and> pairwise_unique d rs
      then Some (T(t := (T t)\<lparr>trows := rs\<rparr>)) else None)"

text \<open>
  INSERT ... ON CONFLICT (key) DO UPDATE SET c = excluded.c: when the key is taken, the row that
  holds it is updated in the named columns and no row is inserted.
\<close>

definition sql_upsert ::
  "table_def \<Rightarrow> cells \<Rightarrow> string list \<Rightarrow> string list \<Rightarrow> tables \<Rightarrow> (tables \<times> int option) option" where
  "sql_upsert d vs us sets T =
     (let cs = new_cells d vs in
      case find (\<lambda>r. same_key us cs (snd r)) (trows (T (tname d))) of
        None \<Rightarrow> sql_insert d vs T
      | Some r \<Rightarrow>
          if not_null_ok d cs
          then map_option (\<lambda>T'. (T', None))
                 (sql_update d (\<lambda>r'. fst r' = fst r) (\<lambda>_. map (\<lambda>c. (c, cell cs c)) sets) T)
          else None)"

text \<open>
  DELETE: a row dies when it is selected or when one of its ON DELETE CASCADE keys refers to a row
  that dies. The declarations are listed parents first, so one pass finds them all. References with
  SET NULL from surviving rows are cleared; one with NO ACTION refuses the statement.
\<close>

definition hits :: "(string \<Rightarrow> int list) \<Rightarrow> string \<Rightarrow> sql_value \<Rightarrow> bool" where
  "hits D p v \<longleftrightarrow> (case v of VInt i \<Rightarrow> i \<in> set (D p) | _ \<Rightarrow> False)"

definition doomed :: "table_def \<Rightarrow> (string \<Rightarrow> int list) \<Rightarrow> cells \<Rightarrow> bool" where
  "doomed d D cs \<longleftrightarrow>
     list_ex (\<lambda>(c, p, a). a = Cascade \<and> hits D p (cell cs c)) (fkeys d)"

definition dead_ids :: "table_def \<Rightarrow> string \<Rightarrow> (sql_row \<Rightarrow> bool) \<Rightarrow> tables \<Rightarrow> (string \<Rightarrow> int list) \<Rightarrow> int list" where
  "dead_ids d t p T D =
     map fst (filter (\<lambda>r. (tname d = t \<and> p r) \<or> doomed d D (snd r)) (trows (T (tname d))))"

definition dead_map :: "table_def list \<Rightarrow> string \<Rightarrow> (sql_row \<Rightarrow> bool) \<Rightarrow> tables \<Rightarrow> string \<Rightarrow> int list" where
  "dead_map S t p T = foldl (\<lambda>D d. D(tname d := dead_ids d t p T D)) (\<lambda>_. []) S"

definition nulled :: "table_def \<Rightarrow> (string \<Rightarrow> int list) \<Rightarrow> cells \<Rightarrow> string \<Rightarrow> bool" where
  "nulled d D cs k \<longleftrightarrow>
     list_ex (\<lambda>(c, p, a). c = k \<and> a = Set_Null \<and> hits D p (cell cs c)) (fkeys d)"

definition cleared :: "table_def \<Rightarrow> (string \<Rightarrow> int list) \<Rightarrow> cells \<Rightarrow> cells" where
  "cleared d D cs =
     map (\<lambda>k. (cname k, if nulled d D cs (cname k) then VNull else cell cs (cname k))) (columns d)"

definition blocks :: "table_def \<Rightarrow> (string \<Rightarrow> int list) \<Rightarrow> cells \<Rightarrow> bool" where
  "blocks d D cs \<longleftrightarrow>
     list_ex (\<lambda>(c, p, a). a = No_Action \<and> hits D p (cell cs c)) (fkeys d)"

definition surviving :: "table_def \<Rightarrow> (string \<Rightarrow> int list) \<Rightarrow> tables \<Rightarrow> sql_row list" where
  "surviving d D T = filter (\<lambda>r. fst r \<notin> set (D (tname d))) (trows (T (tname d)))"

definition sql_delete :: "table_def list \<Rightarrow> string \<Rightarrow> (sql_row \<Rightarrow> bool) \<Rightarrow> tables \<Rightarrow> tables option" where
  "sql_delete S t p T =
     (let D = dead_map S t p T in
      if list_ex (\<lambda>d. list_ex (\<lambda>r. blocks d D (snd r)) (surviving d D T)) S then None
      else Some (\<lambda>u. case find_def S u of
                       None \<Rightarrow> T u
                     | Some d \<Rightarrow> (T u)\<lparr>trows := map (\<lambda>r. (fst r, cleared d D (snd r))) (surviving d D T)\<rparr>))"

text \<open>
  INSERT OR REPLACE: the rows that collide with the new one on a UNIQUE key are deleted first, with
  the ON DELETE actions of their references; the new row gets a fresh identifier. A constraint that
  refuses the new row undoes the deletion too.
\<close>

definition collides :: "table_def \<Rightarrow> cells \<Rightarrow> sql_row \<Rightarrow> bool" where
  "collides d vs r \<longleftrightarrow> list_ex (\<lambda>us. same_key us (new_cells d vs) (snd r)) (uniques d)"

definition sql_replace ::
  "table_def list \<Rightarrow> table_def \<Rightarrow> cells \<Rightarrow> tables \<Rightarrow> (tables \<times> int option) option" where
  "sql_replace S d vs T =
     (case sql_delete S (tname d) (collides d vs) T of None \<Rightarrow> None | Some T' \<Rightarrow> sql_insert d vs T')"

datatype sql_stmt =
    Insert string cells
  | Replace string cells
  | Upsert string cells "string list" "string list"
  | Update string "sql_row \<Rightarrow> bool" "sql_row \<Rightarrow> cells"
  | Delete string "sql_row \<Rightarrow> bool"

fun run_stmt :: "table_def list \<Rightarrow> sql_stmt \<Rightarrow> tables \<Rightarrow> (tables \<times> int option) option" where
  "run_stmt S (Insert t vs) T = (case find_def S t of None \<Rightarrow> None | Some d \<Rightarrow> sql_insert d vs T)"
| "run_stmt S (Replace t vs) T = (case find_def S t of None \<Rightarrow> None | Some d \<Rightarrow> sql_replace S d vs T)"
| "run_stmt S (Upsert t vs us sets) T =
     (case find_def S t of None \<Rightarrow> None | Some d \<Rightarrow> sql_upsert d vs us sets T)"
| "run_stmt S (Update t p f) T =
     (case find_def S t of None \<Rightarrow> None | Some d \<Rightarrow> map_option (\<lambda>T'. (T', None)) (sql_update d p f T))"
| "run_stmt S (Delete t p) T =
     (case find_def S t of None \<Rightarrow> None | Some d \<Rightarrow> map_option (\<lambda>T'. (T', None)) (sql_delete S t p T))"

section \<open>Integrity\<close>

text \<open>
  What the declarations promise of a table: identifiers are distinct, positive and at most the
  AUTOINCREMENT counter, every row has the declared columns, NOT NULL, UNIQUE and the foreign keys
  hold. A schema is usable when it lists referenced tables first.
\<close>

definition row_ok :: "table_def \<Rightarrow> tables \<Rightarrow> cells \<Rightarrow> bool" where
  "row_ok d T cs \<longleftrightarrow> map fst cs = map cname (columns d) \<and> not_null_ok d cs \<and> fkeys_ok d T cs"

definition table_ok :: "table_def \<Rightarrow> tables \<Rightarrow> bool" where
  "table_ok d T \<longleftrightarrow>
     (let tb = T (tname d) in
      distinct (ids_of tb) \<and> list_all (\<lambda>i. 1 \<le> i \<and> i \<le> seq tb) (ids_of tb) \<and>
      0 \<le> seq tb \<and> seq tb \<le> max_rowid \<and>
      list_all (\<lambda>r. row_ok d T (snd r)) (trows tb) \<and> pairwise_unique d (trows tb))"

definition db_ok :: "table_def list \<Rightarrow> tables \<Rightarrow> bool" where
  "db_ok S T \<longleftrightarrow> list_all (\<lambda>d. table_ok d T) S"

definition def_ok :: "string list \<Rightarrow> table_def \<Rightarrow> bool" where
  "def_ok earlier d \<longleftrightarrow>
     distinct (map cname (columns d)) \<and> ''id'' \<notin> set (map cname (columns d)) \<and> tname d \<notin> set earlier \<and>
     list_all (\<lambda>(c, p, a). p \<in> set earlier \<and> c \<in> set (map cname (columns d)) \<and>
        (a = Set_Null \<longrightarrow> list_all (\<lambda>k. cname k = c \<longrightarrow> \<not> not_null k) (columns d))) (fkeys d)"

fun schema_from :: "string list \<Rightarrow> table_def list \<Rightarrow> bool" where
  "schema_from earlier [] = True"
| "schema_from earlier (d # S) = (def_ok earlier d \<and> schema_from (tname d # earlier) S)"

definition schema_ok :: "table_def list \<Rightarrow> bool" where
  "schema_ok S = schema_from [] S"

subsection \<open>Cells\<close>

lemma map_of_map_fst:
  "map_of (map (\<lambda>k. (f k, g k)) ks) c = (if c \<in> set (map f ks) then
     (case find (\<lambda>k. f k = c) ks of Some k \<Rightarrow> Some (g k) | None \<Rightarrow> None) else None)"
  by (induction ks) auto

lemma find_Some_in: "find P xs = Some x \<Longrightarrow> x \<in> set xs \<and> P x"
  by (induction xs) (auto split: if_splits)

lemma find_key:
  assumes "distinct (map f xs)" "x \<in> set xs"
  shows "find (\<lambda>y. f y = f x) xs = Some x"
  using assms
proof (induction xs)
  case (Cons a xs)
  then show ?case by (cases "a = x") (auto simp: image_iff)
qed simp

lemma cell_map:
  assumes "distinct (map cname ks)" "k \<in> set ks"
  shows "cell (map (\<lambda>k. (cname k, g k)) ks) (cname k) = g k"
  using find_key [OF assms] assms by (auto simp: cell_def map_of_map_fst)

lemma cell_map_other: "c \<notin> set (map cname ks) \<Longrightarrow> cell (map (\<lambda>k. (cname k, g k)) ks) c = VNull"
  by (simp add: cell_def map_of_map_fst)

lemma cell_map_by_name:
  "cell (map (\<lambda>k. (cname k, h (cname k))) ks) c = (if c \<in> set (map cname ks) then h c else VNull)"
  by (induction ks) (auto simp: cell_def)

lemma cell_cleared:
  "cell (cleared d D cs) c = (if c \<in> set (map cname (columns d)) \<and> \<not> nulled d D cs c then cell cs c else VNull)"
  unfolding cleared_def
  by (simp add: cell_map_by_name [where h = "\<lambda>c. if nulled d D cs c then VNull else cell cs c"])

lemma cleared_cell: "cell (cleared d D cs) c \<noteq> VNull \<Longrightarrow> cell (cleared d D cs) c = cell cs c \<and> \<not> nulled d D cs c"
  by (auto simp: cell_cleared split: if_splits)

lemma map_fst_new_cells [simp]:
  "map fst (new_cells d vs) = map cname (columns d)"
  "map fst (set_cells d vs cs) = map cname (columns d)"
  "map fst (cleared d D cs) = map cname (columns d)"
  by (simp_all add: new_cells_def set_cells_def cleared_def)

subsection \<open>Uniqueness\<close>

lemma same_key_sym: "same_key us a b = same_key us b a"
  by (auto simp: same_key_def list_all_iff)

lemma pairwise_unique_sorted_wrt:
  "pairwise_unique d rs = sorted_wrt (\<lambda>a b. \<forall>us\<in>set (uniques d). \<not> same_key us (snd a) (snd b)) rs"
  by (induction rs) (auto simp: unique_ok_def list_all_iff)

lemma pairwise_unique_snoc:
  "pairwise_unique d (rs @ [r]) = (pairwise_unique d rs \<and> unique_ok d (snd r) rs)"
  by (auto simp: pairwise_unique_sorted_wrt sorted_wrt_append unique_ok_def list_all_iff
      same_key_sym [of _ "snd r"])

lemma pairwise_unique_filter: "pairwise_unique d rs \<Longrightarrow> pairwise_unique d (filter P rs)"
  by (simp add: pairwise_unique_sorted_wrt sorted_wrt_filter)

lemma same_key_cleared: "same_key us (cleared d D a) (cleared d D b) \<Longrightarrow> same_key us a b"
  unfolding same_key_def list_all_iff by (metis cleared_cell)

lemma pairwise_unique_cleared:
  assumes "pairwise_unique d rs"
  shows "pairwise_unique d (map (\<lambda>r. (fst r, cleared d D (snd r))) rs)"
  using assms unfolding pairwise_unique_sorted_wrt sorted_wrt_map
  by (rule sorted_wrt_mono_rel [rotated]) (use same_key_cleared in auto)

subsection \<open>Schemas\<close>

lemma schema_from_split:
  "schema_from E (S1 @ d # S2) \<Longrightarrow> def_ok (rev (map tname S1) @ E) d"
  by (induction S1 arbitrary: E) auto

lemma schema_from_distinct:
  "schema_from E S \<Longrightarrow> distinct (map tname S) \<and> set (map tname S) \<inter> set E = {}"
proof (induction S arbitrary: E)
  case (Cons d S)
  from Cons.prems have "schema_from (tname d # E) S" "tname d \<notin> set E" by (simp_all add: def_ok_def)
  with Cons.IH [of "tname d # E"] show ?case by auto
qed simp

lemma schema_def:
  assumes "schema_ok S" "d \<in> set S"
  shows "\<exists>S1 S2. S = S1 @ d # S2 \<and> def_ok (rev (map tname S1)) d"
proof -
  from split_list [OF assms(2)] obtain S1 S2 where S: "S = S1 @ d # S2" by blast
  have "def_ok (rev (map tname S1)) d"
    using schema_from_split [of "[]" S1 d S2] assms(1) unfolding schema_ok_def S by simp
  with S show ?thesis by blast
qed

lemma schema_ok_distinct: "schema_ok S \<Longrightarrow> distinct (map tname S)"
  using schema_from_distinct [of "[]" S] by (simp add: schema_ok_def)

lemma find_def_iff: "schema_ok S \<Longrightarrow> find_def S t = Some d \<longleftrightarrow> d \<in> set S \<and> tname d = t"
  using find_key [of tname S d] schema_ok_distinct [of S] find_Some_in [of "\<lambda>d. tname d = t" S d]
  by (auto simp: find_def_def)

subsection \<open>Statements keep the constraints\<close>

lemma refers_mono: "refers T p v \<Longrightarrow> set (ids_of (T p)) \<subseteq> set (ids_of (T' p)) \<Longrightarrow> refers T' p v"
  by (auto simp: refers_def split: sql_value.splits)

lemma row_ok_mono:
  assumes "row_ok d T cs" "\<And>p. set (ids_of (T p)) \<subseteq> set (ids_of (T' p))"
  shows "row_ok d T' cs"
proof -
  have "refers T' p v" if "refers T p v" for p v using that assms(2) by (rule refers_mono)
  then show ?thesis using assms(1) unfolding row_ok_def fkeys_ok_def list_all_iff by blast
qed

lemma row_ok_fk: "row_ok d T cs \<Longrightarrow> (c, q, a) \<in> set (fkeys d) \<Longrightarrow> refers T q (cell cs c)"
  unfolding row_ok_def fkeys_ok_def list_all_iff by blast

lemma db_ok_table: "db_ok S T \<Longrightarrow> d \<in> set S \<Longrightarrow> table_ok d T"
  by (simp add: db_ok_def list_all_iff)

lemma table_ok_row: "table_ok d T \<Longrightarrow> r \<in> set (trows (T (tname d))) \<Longrightarrow> row_ok d T (snd r)"
  by (auto simp: table_ok_def list_all_iff Let_def)

lemma sql_insert_ok:
  assumes S: "schema_ok S" "d \<in> set S" and ok: "db_ok S T" and run: "sql_insert d vs T = Some (T', i)"
  shows "db_ok S T'"
proof -
  let ?t = "tname d" and ?cs = "new_cells d vs"
  from run have c: "seq (T ?t) < max_rowid" "not_null_ok d ?cs" "unique_ok d ?cs (trows (T ?t))"
    "fkeys_ok d T ?cs" and T': "T' = append_row ?t ?cs T"
    by (auto simp: sql_insert_def Let_def split: if_splits)
  have ids: "set (ids_of (T p)) \<subseteq> set (ids_of (T' p))" for p
    by (auto simp: T' append_row_def ids_of_def Let_def)
  have "row_ok d T ?cs" using c by (simp add: row_ok_def)
  then have new: "row_ok d T' ?cs" using ids by (rule row_ok_mono)
  have "table_ok e T'" if e: "e \<in> set S" for e
  proof (cases "tname e = ?t")
    case False
    moreover have "table_ok e T" using ok e by (simp add: db_ok_def list_all_iff)
    moreover from False have "T' (tname e) = T (tname e)" by (simp add: T' append_row_def Let_def)
    ultimately show ?thesis using row_ok_mono [OF _ ids]
      by (auto simp: table_ok_def Let_def list_all_iff)
  next
    case True
    then have "e = d" using e S schema_ok_distinct [OF S(1)] by (metis distinct_map inj_on_eq_iff)
    moreover have "table_ok d T" using ok S(2) by (simp add: db_ok_def list_all_iff)
    moreover have "row_ok d T' (snd r)" if "r \<in> set (trows (T ?t))" for r
    proof (rule row_ok_mono [OF _ ids])
      show "row_ok d T (snd r)" using \<open>table_ok d T\<close> that by (auto simp: table_ok_def Let_def list_all_iff)
    qed
    moreover have "T' ?t = \<lparr>trows = trows (T ?t) @ [(seq (T ?t) + 1, ?cs)], seq = seq (T ?t) + 1\<rparr>"
      by (simp add: T' append_row_def Let_def)
    ultimately show ?thesis using new c
      by (auto simp: table_ok_def Let_def list_all_iff pairwise_unique_snoc ids_of_def)
  qed
  then show ?thesis by (simp add: db_ok_def list_all_iff)
qed

lemma sql_update_ok:
  assumes S: "schema_ok S" "d \<in> set S" and ok: "db_ok S T" and run: "sql_update d p f T = Some T'"
  shows "db_ok S T'"
proof -
  let ?t = "tname d" and ?rs = "updated_rows d p f (trows (T (tname d)))"
  from run have c: "\<forall>r\<in>set (trows (T ?t)). p r \<longrightarrow>
      not_null_ok d (set_cells d (f r) (snd r)) \<and> fkeys_ok d T (set_cells d (f r) (snd r))"
    and u: "pairwise_unique d ?rs" and T': "T' = T(?t := (T ?t)\<lparr>trows := ?rs\<rparr>)"
    by (auto simp: sql_update_def Let_def list_all_iff split: if_splits)
  have same: "map fst ?rs = map fst (trows (T ?t))" by (simp add: updated_rows_def)
  then have ids: "ids_of (T' q) = ids_of (T q)" for q by (simp add: T' ids_of_def)
  have mono: "row_ok e T cs \<Longrightarrow> row_ok e T' cs" for e cs using row_ok_mono [of e T cs T'] ids by simp
  have "table_ok e T'" if e: "e \<in> set S" for e
  proof (cases "tname e = ?t")
    case False
    moreover have "table_ok e T" using ok e by (simp add: db_ok_def list_all_iff)
    ultimately show ?thesis using mono by (auto simp: table_ok_def Let_def list_all_iff T')
  next
    case True
    then have ed: "e = d" using e S schema_ok_distinct [OF S(1)] by (metis distinct_map inj_on_eq_iff)
    have tok: "table_ok d T" using ok S(2) by (simp add: db_ok_def list_all_iff)
    have "row_ok d T' (snd r)" if "r \<in> set ?rs" for r
    proof -
      from that obtain r0 where r0: "r0 \<in> set (trows (T ?t))"
        "r = (if p r0 then (fst r0, set_cells d (f r0) (snd r0)) else r0)"
        unfolding updated_rows_def set_map by blast
      then have "row_ok d T (snd r)" using tok c
        by (cases "p r0") (auto simp: row_ok_def table_ok_def list_all_iff Let_def)
      then show ?thesis by (rule mono)
    qed
    then show ?thesis using tok u ed
      by (simp add: table_ok_def Let_def list_all_iff ids [of ?t]) (simp add: T')
  qed
  then show ?thesis by (simp add: db_ok_def list_all_iff)
qed

lemma sql_upsert_ok:
  assumes S: "schema_ok S" "d \<in> set S" and ok: "db_ok S T" and run: "sql_upsert d vs us sets T = Some (T', i)"
  shows "db_ok S T'"
  using run sql_insert_ok [OF S ok] sql_update_ok [OF S ok]
  by (auto simp: sql_upsert_def Let_def split: option.splits if_splits)

text \<open>
  The map of dying rows is a fixed point of the cascade: every reference it follows leads to a
  table whose entry is already final.
\<close>

lemma foldl_fun_upd_other:
  "n \<notin> set (map tname S) \<Longrightarrow> foldl (\<lambda>D d. D(tname d := f d D)) D0 S n = D0 n"
  by (induction S arbitrary: D0) auto

lemma dead_map_closed:
  assumes S: "schema_ok S" "d \<in> set S"
  shows "dead_map S t p T (tname d) = dead_ids d t p T (dead_map S t p T)"
proof -
  from schema_def [OF S] obtain S1 S2 where spl: "S = S1 @ d # S2" and dok: "def_ok (rev (map tname S1)) d"
    by blast
  let ?F = "\<lambda>D d. D(tname d := dead_ids d t p T D)"
  let ?D1 = "foldl ?F (\<lambda>_. []) S1"
  have dist: "distinct (map tname S)" by (rule schema_ok_distinct [OF S(1)])
  have final: "dead_map S t p T = foldl ?F (?D1(tname d := dead_ids d t p T ?D1)) S2"
    by (simp add: dead_map_def spl)
  have par: "dead_map S t p T q = ?D1 q" if "(c, q, a) \<in> set (fkeys d)" for c q a
  proof -
    from dok that have "q \<in> set (map tname S1)" by (auto simp: def_ok_def list_all_iff)
    then have "q \<notin> set (map tname S2)" "q \<noteq> tname d" using dist unfolding spl by force+
    then show ?thesis unfolding final
      by (subst foldl_fun_upd_other [where f = "\<lambda>d D. dead_ids d t p T D"]) auto
  qed
  then have doom: "doomed d (dead_map S t p T) cs = doomed d ?D1 cs" for cs
  proof -
    have "hits (dead_map S t p T) q v = hits ?D1 q v" if "(c, q, a) \<in> set (fkeys d)" for c q a v
      unfolding hits_def par [OF that] ..
    then show ?thesis unfolding doomed_def list_ex_iff by fastforce
  qed
  have "dead_map S t p T (tname d) = dead_ids d t p T ?D1" unfolding final
    by (subst foldl_fun_upd_other [where f = "\<lambda>d D. dead_ids d t p T D"]) (use dist in \<open>auto simp: spl\<close>)
  then show ?thesis unfolding dead_ids_def doom .
qed

lemma sql_delete_rows:
  assumes S: "schema_ok S" "d \<in> set S" and run: "sql_delete S t p T = Some T'"
  shows "T' (tname d) = (T (tname d))\<lparr>trows := map (\<lambda>r. (fst r, cleared d (dead_map S t p T) (snd r)))
           (surviving d (dead_map S t p T) T)\<rparr>"
proof -
  have "find_def S (tname d) = Some d" using find_def_iff [OF S(1)] S(2) by simp
  then show ?thesis using run by (auto simp: sql_delete_def Let_def split: if_splits)
qed

lemma sql_delete_ok:
  assumes S: "schema_ok S" and ok: "db_ok S T" and run: "sql_delete S t p T = Some T'"
  shows "db_ok S T'"
proof -
  let ?D = "dead_map S t p T"
  have nb: "\<not> blocks d ?D (snd r)" if "d \<in> set S" "r \<in> set (surviving d ?D T)" for d r
    using run that by (auto simp: sql_delete_def Let_def list_ex_iff split: if_splits)
  have kept: "refers T' q (cell (cleared d ?D (snd r)) c)"
    if d: "d \<in> set S" and r: "r \<in> set (surviving d ?D T)" and fk: "(c, q, a) \<in> set (fkeys d)" for d r c q a
  proof -
    let ?v = "cell (cleared d ?D (snd r)) c"
    have old: "refers T q (cell (snd r) c)"
      using table_ok_row [OF db_ok_table [OF ok d], of r] r by (intro row_ok_fk [OF _ fk]) (simp add: surviving_def)
    have "\<not> hits ?D q (cell (snd r) c)" if "?v \<noteq> VNull"
    proof (cases a)
      case Cascade
      show ?thesis
      proof
        assume "hits ?D q (cell (snd r) c)"
        then have "doomed d ?D (snd r)" using fk Cascade unfolding doomed_def list_ex_iff by fastforce
        moreover have "r \<in> set (trows (T (tname d)))" using r by (simp add: surviving_def)
        ultimately have "fst r \<in> set (?D (tname d))"
          unfolding dead_map_closed [OF S d] dead_ids_def by auto
        with r show False by (simp add: surviving_def)
      qed
    next
      case Set_Null
      then show ?thesis using cleared_cell [OF that] fk unfolding nulled_def list_ex_iff by fastforce
    next
      case No_Action
      then show ?thesis using nb [OF d r] fk unfolding blocks_def list_ex_iff by fastforce
    qed
    moreover obtain e where e: "e \<in> set S" "tname e = q"
      using schema_def [OF S d] fk by (fastforce simp: def_ok_def list_all_iff)
    moreover have "ids_of (T' q) = filter (\<lambda>i. i \<notin> set (?D q)) (ids_of (T q))"
      using sql_delete_rows [OF S e(1) run] e(2) by (simp add: ids_of_def surviving_def filter_map comp_def)
    ultimately have "refers T' q (cell (snd r) c)" if "?v \<noteq> VNull"
      using that old by (cases "cell (snd r) c") (auto simp: refers_def hits_def)
    then show ?thesis using cleared_cell [of d ?D "snd r" c]
      by (cases "?v = VNull") (auto simp: refers_def)
  qed
  have "table_ok d T'" if d: "d \<in> set S" for d
  proof -
    have tok: "table_ok d T" using ok d by (simp add: db_ok_def list_all_iff)
    have "row_ok d T' (cleared d ?D (snd r))" if r: "r \<in> set (surviving d ?D T)" for r
    proof -
      from r tok have "not_null_ok d (snd r)" by (auto simp: surviving_def table_ok_def row_ok_def list_all_iff Let_def)
      moreover have "\<not> nulled d ?D (snd r) (cname k)" if "k \<in> set (columns d)" "not_null k" for k
        using schema_def [OF S d] that by (fastforce simp: nulled_def list_ex_iff def_ok_def list_all_iff)
      ultimately have "not_null_ok d (cleared d ?D (snd r))"
        by (auto simp: not_null_ok_def list_all_iff cell_cleared)
      then show ?thesis using kept [OF d r] by (auto simp: row_ok_def fkeys_ok_def list_all_iff)
    qed
    moreover have "pairwise_unique d (map (\<lambda>r. (fst r, cleared d ?D (snd r))) (surviving d ?D T))"
      using tok by (intro pairwise_unique_cleared) (simp add: surviving_def pairwise_unique_filter table_ok_def Let_def)
    ultimately show ?thesis using tok
      by (auto simp: table_ok_def Let_def sql_delete_rows [OF S d run] list_all_iff ids_of_def surviving_def
          comp_def distinct_map_filter)
  qed
  then show ?thesis by (simp add: db_ok_def list_all_iff)
qed

lemma sql_replace_ok:
  assumes S: "schema_ok S" "d \<in> set S" and ok: "db_ok S T" and run: "sql_replace S d vs T = Some (T', i)"
  shows "db_ok S T'"
proof -
  from run obtain T1 where "sql_delete S (tname d) (collides d vs) T = Some T1" "sql_insert d vs T1 = Some (T', i)"
    by (auto simp: sql_replace_def split: option.splits)
  then show ?thesis using sql_delete_ok [OF S(1) ok] sql_insert_ok [OF S] by blast
qed

lemma run_stmt_ok:
  assumes S: "schema_ok S" and ok: "db_ok S T" and run: "run_stmt S q T = Some (T', i)"
  shows "db_ok S T'"
  using run ok sql_insert_ok [OF S _ ok] sql_update_ok [OF S _ ok] sql_upsert_ok [OF S _ ok] sql_delete_ok [OF S ok]
    sql_replace_ok [OF S _ ok]
  by (cases q) (auto simp: find_def_iff [OF S] split: option.splits)

section \<open>Connections\<close>

text \<open>
  A connection: whether a database is open, the I/O failures to come (by statement number), the order
  in which queries visit a table, the number of statements run, the last inserted identifier and the
  tables. \<open>db_execute\<close> is \<open>SqliteDriver::execute\<close>; \<open>select\<close> is the row list of \<open>SqliteDriver::query\<close>
  for a WHERE clause, to be ordered and limited by the caller. An upsert that updates an existing row
  leaves \<open>last_insert_id\<close> as it was.
\<close>

record sqlite =
  db_open :: bool
  io_fails :: "nat \<Rightarrow> bool"
  visit :: "string \<Rightarrow> sql_row list \<Rightarrow> sql_row list"
  stmts :: nat
  last_rowid :: int
  tabs :: tables

definition db_execute :: "table_def list \<Rightarrow> sql_stmt \<Rightarrow> sqlite \<Rightarrow> sqlite \<times> bool" where
  "db_execute S q c =
     (if \<not> db_open c then (c, False)
      else let c' = c\<lparr>stmts := stmts c + 1\<rparr> in
        if io_fails c (stmts c) then (c', False)
        else case run_stmt S q (tabs c) of
               None \<Rightarrow> (c', False)
             | Some (T, None) \<Rightarrow> (c'\<lparr>tabs := T\<rparr>, True)
             | Some (T, Some i) \<Rightarrow> (c'\<lparr>tabs := T, last_rowid := i\<rparr>, True))"

definition last_insert_id :: "sqlite \<Rightarrow> int" where
  "last_insert_id c = (if db_open c then last_rowid c else -1)"

definition select :: "string \<Rightarrow> (sql_row \<Rightarrow> bool) \<Rightarrow> sqlite \<Rightarrow> sql_row list" where
  "select t p c = (if db_open c then filter p (visit c t (trows (tabs c t))) else [])"

definition order_asc :: "string \<Rightarrow> sql_row list \<Rightarrow> sql_row list" where
  "order_asc k rs = sort_key (\<lambda>r. val r k) rs"

definition order_desc :: "string \<Rightarrow> sql_row list \<Rightarrow> sql_row list" where
  "order_desc k rs = rev (sort_key (\<lambda>r. val r k) (rev rs))"

text \<open>LIMIT ?: a negative limit is no limit.\<close>

definition limit_rows :: "int \<Rightarrow> 'a list \<Rightarrow> 'a list" where
  "limit_rows n rs = (if n < 0 then rs else take (nat n) rs)"

text \<open>\<open>QueryResult::Row::get\<close> and \<open>get_int\<close> (\<open>connection.cpp\<close>), and the two ways the store renders a cell.\<close>

definition row_get :: "sql_row \<Rightarrow> string \<Rightarrow> string option" where
  "row_get r c = (case val r c of VNull \<Rightarrow> None | VInt i \<Rightarrow> Some (to_string i) | VText s \<Rightarrow> Some s)"

definition row_get_int :: "sql_row \<Rightarrow> string \<Rightarrow> int option" where
  "row_get_int r c = (case row_get r c of None \<Rightarrow> None | Some s \<Rightarrow> if s = [] then None else stoll s)"

definition get_text :: "sql_row \<Rightarrow> string \<Rightarrow> string" where
  "get_text r c = (case row_get r c of None \<Rightarrow> [] | Some s \<Rightarrow> s)"

definition get_num :: "sql_row \<Rightarrow> string \<Rightarrow> int" where
  "get_num r c = (case row_get_int r c of None \<Rightarrow> 0 | Some i \<Rightarrow> i)"

text \<open>The string maps most queries return: one entry per selected column; an absent text is
  empty or the given default, an absent number 0.\<close>

datatype out_column = TextCol string | IntCol string | TextOr string string

fun out_entry :: "sql_row \<Rightarrow> out_column \<Rightarrow> string \<times> string" where
  "out_entry r (TextCol c) = (c, get_text r c)"
| "out_entry r (IntCol c) = (c, to_string (get_num r c))"
| "out_entry r (TextOr c d) = (c, case row_get r c of None \<Rightarrow> d | Some s \<Rightarrow> s)"

definition row_map :: "out_column list \<Rightarrow> sql_row \<Rightarrow> (string, string) std_map" where
  "row_map cs r = fold (\<lambda>(k, v). map_put k v) (map (out_entry r) cs) []"

definition conn_ok :: "table_def list \<Rightarrow> sqlite \<Rightarrow> bool" where
  "conn_ok S c \<longleftrightarrow> db_ok S (tabs c)"

text \<open>The one law of the visiting order: every row is visited once.\<close>

definition visits_all :: "sqlite \<Rightarrow> bool" where
  "visits_all c \<longleftrightarrow> (\<forall>t rs. mset (visit c t rs) = mset rs)"

lemma db_execute_ok:
  assumes "schema_ok S" "conn_ok S c" "db_execute S q c = (c', b)"
  shows "conn_ok S c'"
  using assms run_stmt_ok [OF assms(1), of "tabs c" q]
  by (fastforce simp: db_execute_def conn_ok_def Let_def split: if_splits option.splits prod.splits)

lemma db_execute_frame:
  assumes "db_execute S q c = (c', b)"
  shows "db_open c' = db_open c" "io_fails c' = io_fails c" "visit c' = visit c"
  using assms by (auto simp: db_execute_def Let_def split: if_splits option.splits prod.splits)

lemma db_execute_refused: "db_execute S q c = (c', False) \<Longrightarrow> tabs c' = tabs c \<and> last_rowid c' = last_rowid c"
  by (auto simp: db_execute_def Let_def split: if_splits option.splits prod.splits)

lemma db_execute_done:
  "db_execute S q c = (c', True) \<Longrightarrow> db_open c \<and>
     (\<exists>i. run_stmt S q (tabs c) = Some (tabs c', i) \<and> last_rowid c' = (case i of None \<Rightarrow> last_rowid c | Some k \<Rightarrow> k))"
  by (auto simp: db_execute_def Let_def split: if_splits option.splits prod.splits)

lemma set_visit: "visits_all c \<Longrightarrow> set (visit c t rs) = set rs"
  by (metis visits_all_def mset_eq_setD)

lemma set_select: "visits_all c \<Longrightarrow> db_open c \<Longrightarrow> set (select t p c) = {r \<in> set (trows (tabs c t)). p r}"
  by (simp add: select_def set_visit)

lemma mset_select:
  "visits_all c \<Longrightarrow> db_open c \<Longrightarrow> mset (select t p c) = filter_mset p (mset (trows (tabs c t)))"
  by (simp add: select_def visits_all_def)

lemma set_order [simp]: "set (order_asc k rs) = set rs" "set (order_desc k rs) = set rs"
  by (simp_all add: order_asc_def order_desc_def)

lemma mset_order [simp]: "mset (order_asc k rs) = mset rs" "mset (order_desc k rs) = mset rs"
  by (simp_all add: order_asc_def order_desc_def)

lemma length_order [simp]: "length (order_asc k rs) = length rs" "length (order_desc k rs) = length rs"
  by (simp_all add: order_asc_def order_desc_def)

lemma sorted_order_desc: "sorted_wrt (\<lambda>a b. val b k \<le> val a k) (order_desc k rs)"
proof -
  have "sorted_wrt (\<lambda>a b. val a k \<le> val b k) (sort_key (\<lambda>r. val r k) (rev rs))"
    using sorted_sort_key [of "\<lambda>r. val r k" "rev rs"] by (simp add: sorted_map)
  then show ?thesis by (simp add: order_desc_def sorted_wrt_rev)
qed

lemma map_get_row_map: "map_get (row_map cs r) k = map_of (rev (map (out_entry r) cs)) k"
  unfolding row_map_def by (rule std_map.get_load)

lemma row_get_int_VInt:
  assumes "val r c = VInt i" "- (2 ^ 63) \<le> i" "i < 2 ^ 63"
  shows "row_get_int r c = Some i" "get_num r c = i"
proof -
  have "to_string i \<noteq> []" using nat_digits_props by (simp add: to_string_def)
  then show "row_get_int r c = Some i"
    using assms stoll_to_string [OF assms(2,3)] by (simp add: row_get_int_def row_get_def)
  then show "get_num r c = i" by (simp add: get_num_def)
qed

lemma get_text_VText [simp]: "val r c = VText s \<Longrightarrow> get_text r c = s"
  by (simp add: get_text_def row_get_def)

lemma row_id_range:
  assumes "db_ok S T" "d \<in> set S" "r \<in> set (trows (T (tname d)))"
  shows "1 \<le> fst r" "fst r < 2 ^ 63"
proof -
  have "table_ok d T" by (rule db_ok_table [OF assms(1,2)])
  then have "1 \<le> fst r \<and> fst r \<le> seq (T (tname d)) \<and> seq (T (tname d)) \<le> max_rowid"
    using assms(3) by (simp add: table_ok_def Let_def list_all_iff ids_of_def)
  then show "1 \<le> fst r" "fst r < 2 ^ 63" by (simp_all add: max_rowid_def)
qed

lemma get_num_id:
  assumes "db_ok S T" "d \<in> set S" "r \<in> set (trows (T (tname d)))"
  shows "get_num r ''id'' = fst r" "row_get_int r ''id'' = Some (fst r)"
proof -
  have "- (2 ^ 63) \<le> fst r" "fst r < 2 ^ 63" using row_id_range [OF assms] by simp_all
  then show "get_num r ''id'' = fst r" "row_get_int r ''id'' = Some (fst r)"
    using row_get_int_VInt [of r "''id''" "fst r"] by (simp_all add: val_def)
qed

section \<open>Rows by key\<close>

definition by_key :: "string list \<Rightarrow> sql_value list \<Rightarrow> sql_row list \<Rightarrow> sql_row option" where
  "by_key us kv rs = find (\<lambda>r. map (cell (snd r)) us = kv) rs"

definition by_id :: "int \<Rightarrow> sql_row list \<Rightarrow> sql_row option" where
  "by_id i rs = find (\<lambda>r. fst r = i) rs"

lemma same_key_iff: "same_key us a b \<longleftrightarrow> map (cell a) us = map (cell b) us \<and> VNull \<notin> set (map (cell a) us)"
  by (auto simp: same_key_def list_all_iff image_iff)

lemma find_map_same:
  "\<forall>r\<in>set rs. P (f r) = P r \<Longrightarrow> find P (map f rs) = map_option f (find P rs)"
  by (induction rs) auto

lemma find_None_all: "find P xs = None \<longleftrightarrow> (\<forall>x\<in>set xs. \<not> P x)"
  by (auto simp: find_None_iff)

lemma find_append_single: "find P (xs @ [y]) = (case find P xs of None \<Rightarrow> (if P y then Some y else None) | r \<Rightarrow> r)"
  by (induction xs) auto

lemma filter_eq_single: "distinct xs \<Longrightarrow> x \<in> set xs \<Longrightarrow> filter ((=) x) xs = [x]"
  by (induction xs) (auto simp: filter_empty_conv)

text \<open>When at most one row can satisfy a condition, a query finds it whatever the visiting order.\<close>

lemma select_unique:
  assumes "visits_all c" "db_open c" "distinct (trows (tabs c t))"
    and "\<And>r r'. r \<in> set (trows (tabs c t)) \<Longrightarrow> r' \<in> set (trows (tabs c t)) \<Longrightarrow> p r \<Longrightarrow> p r' \<Longrightarrow> r = r'"
  shows "select t p c = (case find p (trows (tabs c t)) of None \<Rightarrow> [] | Some r \<Rightarrow> [r])"
proof -
  let ?rs = "trows (tabs c t)"
  have m: "mset (select t p c) = filter_mset p (mset ?rs)" by (rule mset_select [OF assms(1,2)])
  show ?thesis
  proof (cases "find p ?rs")
    case None
    then have "filter_mset p (mset ?rs) = {#}" by (auto simp: find_None_all filter_mset_eq_conv)
    with m None show ?thesis by simp
  next
    case (Some r)
    then have r: "r \<in> set ?rs" "p r" by (auto dest: find_Some_in)
    then have "p x = ((=) r) x" if "x \<in> set ?rs" for x using assms(4) [OF r(1) that] by blast
    then have "filter p ?rs = filter ((=) r) ?rs" by (intro filter_cong refl)
    moreover have "filter ((=) r) ?rs = [r]" by (rule filter_eq_single [OF assms(3) r(1)])
    ultimately have "mset (select t p c) = {#r#}" using m by (metis mset_filter mset_single_iff)
    with Some show ?thesis by (simp add: mset_single_iff)
  qed
qed

lemma table_ok_distinct: "table_ok d T \<Longrightarrow> distinct (trows (T (tname d))) \<and> inj_on fst (set (trows (T (tname d))))"
  by (auto simp: table_ok_def Let_def ids_of_def distinct_map)

lemma table_ok_key_inj:
  assumes "table_ok d T" "us \<in> set (uniques d)" "r \<in> set (trows (T (tname d)))" "r' \<in> set (trows (T (tname d)))"
    "same_key us (snd r) (snd r')"
  shows "r = r'"
proof (rule ccontr)
  assume "r \<noteq> r'"
  have "pairwise_unique d (trows (T (tname d)))" using assms(1) by (simp add: table_ok_def Let_def)
  moreover obtain i j where ij: "i < length (trows (T (tname d)))" "j < length (trows (T (tname d)))"
    "r = trows (T (tname d)) ! i" "r' = trows (T (tname d)) ! j"
    using assms(3,4) by (metis in_set_conv_nth)
  moreover have "i \<noteq> j" using \<open>r \<noteq> r'\<close> ij by auto
  ultimately have "\<not> same_key us (snd r) (snd r')"
    using assms(2) same_key_sym unfolding pairwise_unique_sorted_wrt sorted_wrt_iff_nth_less
    by (metis linorder_neqE_nat)
  with assms(5) show False by simp
qed

lemma select_by_id:
  assumes "visits_all c" "db_open c" "table_ok d (tabs c)" "tname d = t"
  shows "select t (\<lambda>r. val r ''id'' = VInt i) c = (case by_id i (trows (tabs c t)) of None \<Rightarrow> [] | Some r \<Rightarrow> [r])"
  unfolding by_id_def using select_unique [of c t "\<lambda>r. fst r = i"] assms table_ok_distinct [OF assms(3)]
  by (auto simp: val_def inj_on_def)

lemma select_by_key:
  assumes "visits_all c" "db_open c" "table_ok d (tabs c)" "tname d = t" "us \<in> set (uniques d)" "VNull \<notin> set kv"
  shows "select t (\<lambda>r. map (cell (snd r)) us = kv) c = (case by_key us kv (trows (tabs c t)) of None \<Rightarrow> [] | Some r \<Rightarrow> [r])"
  unfolding by_key_def
proof (rule select_unique [OF assms(1,2)])
  show "distinct (trows (tabs c t))" using table_ok_distinct [OF assms(3)] assms(4) by simp
next
  fix r r' assume "r \<in> set (trows (tabs c t))" "r' \<in> set (trows (tabs c t))"
    "map (cell (snd r)) us = kv" "map (cell (snd r')) us = kv"
  moreover from this have "same_key us (snd r) (snd r')" using assms(6) unfolding same_key_iff by metis
  ultimately show "r = r'" using table_ok_key_inj [OF assms(3,5)] assms(4) by blast
qed

lemma cell_map_find:
  "cell (map (\<lambda>k. (cname k, g k)) ks) u = (case find (\<lambda>k. cname k = u) ks of None \<Rightarrow> VNull | Some k \<Rightarrow> g k)"
  by (induction ks) (auto simp: cell_def)

lemma cell_set_cells_other:
  assumes "u \<in> set (map cname (columns d))" "u \<notin> fst ` set vs"
  shows "cell (set_cells d vs cs) u = cell cs u"
proof -
  have "find (\<lambda>k. cname k = u) (columns d) \<noteq> None" using assms(1) by (auto simp: find_None_all)
  then obtain k where k: "find (\<lambda>k. cname k = u) (columns d) = Some k" by blast
  then have "cname k = u" by (auto dest: find_Some_in)
  moreover have "map_of vs u = None" using assms(2) by (simp add: map_of_eq_None_iff)
  ultimately show ?thesis by (simp add: set_cells_def cell_map_find k)
qed

text \<open>What an upsert does to the row of each key: the new key is written, every other one is kept.\<close>

lemma sql_upsert_by_key:
  assumes tok: "table_ok d T" and us: "us \<in> set (uniques d)" "set us \<subseteq> set (map cname (columns d))" "set us \<inter> set sets = {}"
    and nn: "VNull \<notin> set (map (cell (new_cells d vs)) us)"
    and run: "sql_upsert d vs us sets T = Some (T', i)"
  shows "by_key us kv (trows (T' (tname d))) =
     (if kv = map (cell (new_cells d vs)) us
      then (case by_key us kv (trows (T (tname d))) of
              None \<Rightarrow> Some (seq (T (tname d)) + 1, new_cells d vs)
            | Some r \<Rightarrow> Some (fst r, set_cells d (map (\<lambda>c. (c, cell (new_cells d vs) c)) sets) (snd r)))
      else by_key us kv (trows (T (tname d))))"
proof -
  let ?cs = "new_cells d vs" and ?rs = "trows (T (tname d))"
  let ?kv = "map (cell ?cs) us" and ?up = "map (\<lambda>c. (c, cell ?cs c)) sets"
  have fnd: "find (\<lambda>r. same_key us ?cs (snd r)) ?rs = by_key us ?kv ?rs"
    unfolding by_key_def same_key_iff using nn by (intro arg_cong2 [where f = find]) auto
  show ?thesis
  proof (cases "by_key us ?kv ?rs")
    case None
    then have "T' = append_row (tname d) ?cs T" using run fnd
      by (auto simp: sql_upsert_def sql_insert_def Let_def split: if_splits)
    then have "trows (T' (tname d)) = ?rs @ [(seq (T (tname d)) + 1, ?cs)]"
      by (simp add: append_row_def Let_def)
    then show ?thesis using None by (auto simp: by_key_def find_append_single split: option.splits)
  next
    case (Some r)
    let ?f = "\<lambda>r'. if fst r' = fst r then (fst r', set_cells d ?up (snd r')) else r'"
    have rows: "trows (T' (tname d)) = map ?f ?rs" using run fnd Some
      by (auto simp: sql_upsert_def sql_update_def updated_rows_def Let_def split: if_splits)
    have "cell (set_cells d ?up cs) u = cell cs u" if "u \<in> set us" for u cs
      using us(2,3) that by (intro cell_set_cells_other) (auto simp: image_image)
    then have key: "map (cell (snd (?f r'))) us = map (cell (snd r')) us" for r' by simp
    have upd: "by_key us kv (map ?f ?rs) = map_option ?f (by_key us kv ?rs)"
      unfolding by_key_def by (rule find_map_same) (simp only: key, simp)
    have r: "r \<in> set ?rs" "map (cell (snd r)) us = ?kv" using Some by (auto simp: by_key_def dest: find_Some_in)
    show ?thesis
    proof (cases "kv = ?kv")
      case True
      then show ?thesis using Some upd rows by simp
    next
      case False
      have "?f r' = r'" if "by_key us kv ?rs = Some r'" for r'
      proof -
        from that have "r' \<in> set ?rs" "map (cell (snd r')) us = kv" by (auto simp: by_key_def dest: find_Some_in)
        then show ?thesis using r False table_ok_distinct [OF tok] by (auto simp: inj_on_def)
      qed
      then show ?thesis using upd rows False by (cases "by_key us kv ?rs") auto
    qed
  qed
qed

text \<open>An upsert on the only unique key of a table is accepted whenever the row itself is acceptable.\<close>

lemma coerce_VNull_iff [simp]: "coerce a v = VNull \<longleftrightarrow> v = VNull"
  by (cases "(a, v)" rule: coerce.cases) (auto split: option.splits)

lemma cell_set_cells_in:
  assumes "distinct (map cname (columns d))" "k \<in> set (columns d)"
  shows "cell (set_cells d vs cs) (cname k) =
     (case map_of vs (cname k) of None \<Rightarrow> cell cs (cname k) | Some v \<Rightarrow> coerce (caff k) v)"
  unfolding set_cells_def by (rule cell_map [OF assms])

lemma map_of_self: "map_of (map (\<lambda>c. (c, f c)) cs) c = (if c \<in> set cs then Some (f c) else None)"
  by (induction cs) auto

lemma sql_upsert_accepted:
  assumes tok: "table_ok d T" and dist: "distinct (map cname (columns d))"
    and us: "uniques d = [us]" "set us \<subseteq> set (map cname (columns d))" "set us \<inter> set sets = {}"
    and new: "not_null_ok d (new_cells d vs)" "fkeys_ok d T (new_cells d vs)" "seq (T (tname d)) < max_rowid"
    and fk: "\<forall>(c, p, a)\<in>set (fkeys d). \<exists>k\<in>set (columns d). cname k = c \<and> caff k = AInteger"
  shows "\<exists>T' i. sql_upsert d vs us sets T = Some (T', i)"
proof (cases "find (\<lambda>r. same_key us (new_cells d vs) (snd r)) (trows (T (tname d)))")
  case None
  then have "unique_ok d (new_cells d vs) (trows (T (tname d)))"
    by (auto simp: unique_ok_def us(1) find_None_all list_all_iff)
  then show ?thesis using None new by (simp add: sql_upsert_def sql_insert_def Let_def)
next
  case (Some r)
  let ?up = "map (\<lambda>c. (c, cell (new_cells d vs) c)) sets" and ?rs = "trows (T (tname d))"
  let ?f = "\<lambda>r'. if fst r' = fst r then (fst r', set_cells d ?up (snd r')) else r'"
  have nn: "not_null_ok d (set_cells d ?up (snd r'))" if "r' \<in> set ?rs" for r'
    using new(1) table_ok_row [OF tok that]
    by (auto simp: not_null_ok_def list_all_iff cell_set_cells_in [OF dist] map_of_self row_ok_def)
  have fks: "fkeys_ok d T (set_cells d ?up (snd r'))" if r': "r' \<in> set ?rs" for r'
  proof -
    have "refers T p (cell (set_cells d ?up (snd r')) c)" if c: "(c, p, a) \<in> set (fkeys d)" for c p a
    proof -
      from fk c obtain k where k: "k \<in> set (columns d)" "cname k = c" "caff k = AInteger" by blast
      have "refers T p (cell (new_cells d vs) c)" "refers T p (cell (snd r') c)"
        using new(2) c row_ok_fk [OF table_ok_row [OF tok r'] c] by (auto simp: fkeys_ok_def list_all_iff)
      then show ?thesis using cell_set_cells_in [OF dist k(1), of ?up "snd r'"] k(2,3)
        by (cases "cell (new_cells d vs) c") (auto simp: map_of_self refers_def)
    qed
    then show ?thesis by (auto simp: fkeys_ok_def list_all_iff)
  qed
  have "cell (snd (?f r')) u = cell (snd r') u" if "u \<in> set us" for u r'
    using us(2,3) that cell_set_cells_other [of u d ?up "snd r'"] by (auto simp: image_image)
  then have "map (cell (snd (?f r'))) us = map (cell (snd r')) us" for r' by simp
  then have "same_key us (snd (?f a)) (snd (?f b)) = same_key us (snd a) (snd b)" for a b
    unfolding same_key_iff by simp
  then have "pairwise_unique d (map ?f ?rs) = pairwise_unique d ?rs"
    by (simp only: pairwise_unique_sorted_wrt sorted_wrt_map us(1) list.set ball_simps)
  then have "pairwise_unique d (map ?f ?rs)" using tok by (simp add: table_ok_def Let_def)
  then show ?thesis using Some nn fks new(1)
    by (auto simp: sql_upsert_def sql_update_def updated_rows_def Let_def list_all_iff)
qed

section \<open>Deleting from a table nothing refers to\<close>

definition unreferenced :: "table_def list \<Rightarrow> string \<Rightarrow> bool" where
  "unreferenced S t \<longleftrightarrow> list_all (\<lambda>d. list_all (\<lambda>(c, p, a). p \<noteq> t) (fkeys d)) S"

lemma cells_by_name: "distinct (map fst cs) \<Longrightarrow> map (\<lambda>n. (n, cell cs n)) (map fst cs) = cs"
proof (induction cs)
  case (Cons x cs)
  obtain a b where x: "x = (a, b)" by (cases x)
  have "map (\<lambda>n. (n, cell ((a, b) # cs) n)) (map fst cs) = map (\<lambda>n. (n, cell cs n)) (map fst cs)"
    using Cons.prems x by (intro map_cong refl) (auto simp: cell_def)
  moreover have "map (\<lambda>n. (n, cell cs n)) (map fst cs) = cs" using Cons by simp
  moreover have "cell ((a, b) # cs) a = b" by (simp add: cell_def)
  ultimately show ?case unfolding x by (simp only: list.map fst_conv)
qed simp

lemma cleared_id:
  assumes "map fst cs = map cname (columns d)" "distinct (map cname (columns d))"
    "\<And>k. \<not> nulled d D cs k"
  shows "cleared d D cs = cs"
proof -
  have "cleared d D cs = map (\<lambda>n. (n, cell cs n)) (map cname (columns d))"
    using assms(3) by (simp add: cleared_def)
  also have "\<dots> = cs" using cells_by_name [of cs] assms(1,2) by simp
  finally show ?thesis .
qed

lemma schema_columns_distinct: "schema_ok S \<Longrightarrow> d \<in> set S \<Longrightarrow> distinct (map cname (columns d))"
  using schema_def [of S d] by (auto simp: def_ok_def)

lemma sql_delete_unreferenced:
  assumes S: "schema_ok S" "d \<in> set S" and ok: "db_ok S T" and un: "unreferenced S (tname d)"
  shows "sql_delete S (tname d) p T =
     Some (T(tname d := (T (tname d))\<lparr>trows := filter (\<lambda>r. \<not> p r) (trows (T (tname d)))\<rparr>))"
proof -
  let ?t = "tname d" and ?D = "dead_map S (tname d) p T"
  have nohit: "\<not> hits (\<lambda>u. if u = ?t then D u else []) q v" if "e \<in> set S" "(c, q, a) \<in> set (fkeys e)" for e c q a v D
    using un that by (auto simp: unreferenced_def list_all_iff hits_def split: sql_value.splits)
  have other: "?D u = []" if "u \<noteq> ?t" for u
  proof -
    note u = that
    have "foldl (\<lambda>D d. D(tname d := dead_ids d ?t p T D)) D0 S' u = []"
      if "set S' \<subseteq> set S" "\<forall>u. u \<noteq> ?t \<longrightarrow> D0 u = []" for S' D0
      using that
    proof (induction S' arbitrary: D0)
      case (Cons e S')
      have D0: "D0 = (\<lambda>u. if u = ?t then D0 u else [])" using Cons.prems(2) by auto
      have nd: "\<not> doomed e D0 cs" for cs
        using nohit [of e _ _ _ D0] Cons.prems(1) D0 unfolding doomed_def list_ex_iff by fastforce
      have "dead_ids e ?t p T D0 = []" if "tname e \<noteq> ?t" using that nd by (simp add: dead_ids_def)
      then have "\<forall>u. u \<noteq> ?t \<longrightarrow> (D0(tname e := dead_ids e ?t p T D0)) u = []" using Cons.prems(2) by simp
      then show ?case using Cons.IH Cons.prems(1) by simp
    qed (use u in simp)
    then show ?thesis by (simp add: dead_map_def)
  qed
  then have D: "?D = (\<lambda>u. if u = ?t then ?D u else [])" by auto
  have nh: "\<not> hits ?D q v" if "e \<in> set S" "(c, q, a) \<in> set (fkeys e)" for e c q a v
    by (subst D) (rule nohit [OF that])
  have nb: "\<not> blocks e ?D cs" "\<not> nulled e ?D cs k" "\<not> doomed e ?D cs" if "e \<in> set S" for e cs k
    using nh [OF that] unfolding blocks_def nulled_def doomed_def list_ex_iff by fastforce+
  have Dt: "set (?D ?t) = fst ` {r \<in> set (trows (T ?t)). p r}"
    unfolding dead_map_closed [OF S] dead_ids_def using nb(3) [OF S(2)] by auto
  have surv: "surviving e ?D T = (if tname e = ?t then filter (\<lambda>r. \<not> p r) (trows (T ?t)) else trows (T (tname e)))"
    if "e \<in> set S" for e
  proof (cases "tname e = ?t")
    case True
    have "inj_on fst (set (trows (T ?t)))" using table_ok_distinct [OF db_ok_table [OF ok S(2)]] by simp
    then have "fst r \<notin> set (?D ?t) \<longleftrightarrow> \<not> p r" if "r \<in> set (trows (T ?t))" for r
      unfolding Dt using that by (subst inj_on_image_mem_iff) auto
    then show ?thesis using True by (simp add: surviving_def cong: filter_cong)
  qed (simp add: surviving_def other)
  have clr: "map (\<lambda>r. (fst r, cleared e ?D (snd r))) (surviving e ?D T) = surviving e ?D T" if e: "e \<in> set S" for e
  proof (rule map_idI)
    fix r assume "r \<in> set (surviving e ?D T)"
    then have "row_ok e T (snd r)" by (intro table_ok_row [OF db_ok_table [OF ok e]]) (simp add: surviving_def)
    then show "(fst r, cleared e ?D (snd r)) = r"
      using cleared_id [OF _ schema_columns_distinct [OF S(1) e] nb(2) [OF e]] by (simp add: row_ok_def)
  qed
  have "(case find_def S u of None \<Rightarrow> T u | Some e \<Rightarrow> (T u)\<lparr>trows := map (\<lambda>r. (fst r, cleared e ?D (snd r))) (surviving e ?D T)\<rparr>)
      = (T(?t := (T ?t)\<lparr>trows := filter (\<lambda>r. \<not> p r) (trows (T ?t))\<rparr>)) u" for u
  proof (cases "find_def S u")
    case None
    then have "u \<noteq> ?t" using find_def_iff [OF S(1), of ?t d] S(2) by auto
    with None show ?thesis by simp
  next
    case (Some e)
    then have e: "e \<in> set S" "tname e = u" by (auto simp: find_def_iff [OF S(1)])
    then show ?thesis using Some clr [OF e(1)] surv [OF e(1)] by simp
  qed
  then show ?thesis using nb(1) by (auto simp: sql_delete_def Let_def list_ex_iff fun_eq_iff)
qed

section \<open>Cascading deletes\<close>

lemma surviving_filter:
  assumes S: "schema_ok S" "d \<in> set S" and ok: "db_ok S T"
  shows "surviving d (dead_map S t p T) T =
     filter (\<lambda>r. \<not> ((tname d = t \<and> p r) \<or> doomed d (dead_map S t p T) (snd r))) (trows (T (tname d)))"
proof -
  let ?D = "dead_map S t p T" and ?rs = "trows (T (tname d))"
  let ?sel = "{r \<in> set ?rs. (tname d = t \<and> p r) \<or> doomed d ?D (snd r)}"
  have D: "set (?D (tname d)) = fst ` ?sel" unfolding dead_map_closed [OF S] dead_ids_def by simp
  have "inj_on fst (set ?rs)" using table_ok_distinct [OF db_ok_table [OF ok S(2)]] by simp
  then have "fst r \<in> set (?D (tname d)) \<longleftrightarrow> r \<in> ?sel" if "r \<in> set ?rs" for r
    unfolding D using that by (subst inj_on_image_mem_iff) auto
  then show ?thesis unfolding surviving_def by (intro filter_cong refl) auto
qed

lemma cleared_no_set_null:
  assumes S: "schema_ok S" "d \<in> set S" and ok: "db_ok S T" and no: "\<forall>(c, q, a)\<in>set (fkeys d). a \<noteq> Set_Null"
    and r: "r \<in> set (trows (T (tname d)))"
  shows "cleared d D (snd r) = snd r"
proof (rule cleared_id)
  show "map fst (snd r) = map cname (columns d)"
    using table_ok_row [OF db_ok_table [OF ok S(2)] r] by (simp add: row_ok_def)
  show "distinct (map cname (columns d))" by (rule schema_columns_distinct [OF S])
  show "\<not> nulled d D (snd r) k" for k using no by (auto simp: nulled_def list_ex_iff)
qed

lemma fkeys_ok_unreferenced:
  assumes "d \<in> set S" "unreferenced S t" "\<And>p. p \<noteq> t \<Longrightarrow> T' p = T p"
  shows "fkeys_ok d T' cs = fkeys_ok d T cs"
proof -
  have "refers T' p v = refers T p v" if "(c, p, a) \<in> set (fkeys d)" for c p a v
  proof -
    have "p \<noteq> t" using assms(1,2) that by (fastforce simp: unreferenced_def list_all_iff)
    then have "T' p = T p" by (rule assms(3))
    then show ?thesis unfolding refers_def by (simp only:)
  qed
  then show ?thesis unfolding fkeys_ok_def list_all_iff by fastforce
qed

lemma sql_replace_unreferenced:
  assumes S: "schema_ok S" "d \<in> set S" and ok: "db_ok S T" and un: "unreferenced S (tname d)"
    and new: "not_null_ok d (new_cells d vs)" "fkeys_ok d T (new_cells d vs)" "seq (T (tname d)) < max_rowid"
  shows "sql_replace S d vs T = Some (T(tname d := \<lparr>trows = filter (\<lambda>r. \<not> collides d vs r) (trows (T (tname d))) @
     [(seq (T (tname d)) + 1, new_cells d vs)], seq = seq (T (tname d)) + 1\<rparr>), Some (seq (T (tname d)) + 1))"
proof -
  let ?t = "tname d"
  let ?T = "T(?t := (T ?t)\<lparr>trows := filter (\<lambda>r. \<not> collides d vs r) (trows (T ?t))\<rparr>)"
  have "fkeys_ok d ?T (new_cells d vs)"
    using fkeys_ok_unreferenced [OF S(2) un, of ?T T] new(2) by simp
  moreover have "unique_ok d (new_cells d vs) (trows (?T ?t))"
    by (auto simp: unique_ok_def list_all_iff collides_def list_ex_iff)
  ultimately show ?thesis
    using new(1,3) sql_delete_unreferenced [OF S ok un]
    by (simp add: sql_replace_def sql_insert_def append_row_def Let_def)
qed

end
