(* ===== verification/Nexus_Schema.thy ===== *)
theory Nexus_Schema
  imports Nexus_Sql
begin

text \<open>
  The tables of the Nexus database, as \<open>src/modules/nexus/migrations/001_init.sql\<close> to
  \<open>012_encryption_metadata.sql\<close> declare them (columns added by a later ALTER TABLE are part of
  the definition). Values of type REAL are outside the model: the tables \<open>test_coverage\<close> and
  \<open>brain_failure_relationships\<close> and the column \<open>confidence_score\<close> of \<open>brain_recovery_actions\<close> are left
  out, and so are the tables \<open>schema_version\<close> and \<open>nazg_metadata\<close>. The list
  is ordered with referenced tables first, which \<open>nexus_schema_ok\<close> checks.
\<close>

section \<open>Columns\<close>

definition icol :: "string \<Rightarrow> column" where
  "icol n = \<lparr>cname = n, caff = AInteger, not_null = False, dflt = VNull\<rparr>"

definition icol_not_null :: "string \<Rightarrow> column" where
  "icol_not_null n = \<lparr>cname = n, caff = AInteger, not_null = True, dflt = VNull\<rparr>"

definition icol_default :: "string \<Rightarrow> int \<Rightarrow> column" where
  "icol_default n i = \<lparr>cname = n, caff = AInteger, not_null = False, dflt = VInt i\<rparr>"

definition tcol :: "string \<Rightarrow> column" where
  "tcol n = \<lparr>cname = n, caff = AText, not_null = False, dflt = VNull\<rparr>"

definition tcol_not_null :: "string \<Rightarrow> column" where
  "tcol_not_null n = \<lparr>cname = n, caff = AText, not_null = True, dflt = VNull\<rparr>"

definition tcol_default :: "string \<Rightarrow> string \<Rightarrow> column" where
  "tcol_default n s = \<lparr>cname = n, caff = AText, not_null = False, dflt = VText s\<rparr>"

lemmas column_defs = icol_def icol_not_null_def icol_default_def tcol_def tcol_not_null_def tcol_default_def

section \<open>Tables\<close>

definition projects_table :: table_def where
  "projects_table = \<lparr>tname = ''projects'',
     columns = [tcol_not_null ''root_path'', tcol ''name'', tcol ''language'', tcol ''detected_tools'',
       icol_not_null ''created_at'', icol_not_null ''updated_at''],
     uniques = [[''root_path'']],
     fkeys = []\<rparr>"

definition snapshots_table :: table_def where
  "snapshots_table = \<lparr>tname = ''snapshots'',
     columns = [icol_not_null ''project_id'', tcol_not_null ''tree_hash'', icol ''file_count'',
       icol ''total_bytes'', icol_not_null ''created_at''],
     uniques = [],
     fkeys = [(''project_id'', ''projects'', Cascade)]\<rparr>"

definition events_table :: table_def where
  "events_table = \<lparr>tname = ''events'',
     columns = [icol_not_null ''project_id'', tcol_not_null ''level'', tcol_not_null ''tag'',
       tcol_not_null ''message'', tcol ''metadata'', icol_not_null ''created_at''],
     uniques = [],
     fkeys = [(''project_id'', ''projects'', Cascade)]\<rparr>"

definition command_history_table :: table_def where
  "command_history_table = \<lparr>tname = ''command_history'',
     columns = [icol ''project_id'', tcol_not_null ''command'', tcol ''args'', icol ''exit_code'',
       icol ''duration_ms'', icol_not_null ''executed_at''],
     uniques = [],
     fkeys = [(''project_id'', ''projects'', Set_Null)]\<rparr>"

definition facts_table :: table_def where
  "facts_table = \<lparr>tname = ''facts'',
     columns = [icol_not_null ''project_id'', tcol_not_null ''namespace'', tcol_not_null ''key'',
       tcol_not_null ''value'', icol_not_null ''created_at'', icol_not_null ''updated_at''],
     uniques = [[''project_id'', ''namespace'', ''key'']],
     fkeys = [(''project_id'', ''projects'', Cascade)]\<rparr>"

definition git_servers_table :: table_def where
  "git_servers_table = \<lparr>tname = ''git_servers'',
     columns = [tcol_not_null ''label'', tcol_not_null ''type'', tcol_not_null ''host'',
       icol_default ''port'' 80, icol_default ''ssh_port'' 22, tcol ''ssh_user'',
       tcol ''repo_base_path'', tcol ''config_path'', tcol ''web_url'', tcol ''status'',
       icol ''installed_at'', icol ''last_check'', tcol ''config_hash'',
       icol ''config_modified'', icol_not_null ''created_at'', icol ''updated_at'',
       tcol ''admin_token''],
     uniques = [[''label'']],
     fkeys = []\<rparr>"

definition bare_repos_table :: table_def where
  "bare_repos_table = \<lparr>tname = ''bare_repos'',
     columns = [icol ''project_id'', tcol_not_null ''name'', tcol_not_null ''local_path'',
       tcol ''server_path'', icol ''server_id'', icol_default ''is_synced'' 0,
       icol ''last_sync'', icol_not_null ''created_at''],
     uniques = [],
     fkeys = [(''project_id'', ''projects'', No_Action),
       (''server_id'', ''git_servers'', No_Action)]\<rparr>"

definition bot_hosts_table :: table_def where
  "bot_hosts_table = \<lparr>tname = ''bot_hosts'',
     columns = [tcol_not_null ''label'', tcol_not_null ''address'', tcol ''ssh_config'',
       icol ''last_run_at'', tcol ''last_status'', icol_not_null ''created_at'',
       icol_not_null ''updated_at''],
     uniques = [[''label'']],
     fkeys = []\<rparr>"

definition bot_runs_table :: table_def where
  "bot_runs_table = \<lparr>tname = ''bot_runs'',
     columns = [tcol_not_null ''bot_name'', icol_not_null ''host_id'', icol_not_null ''started_at'',
       icol ''finished_at'', tcol_not_null ''status'', icol ''exit_code'', icol ''duration_ms''],
     uniques = [],
     fkeys = [(''host_id'', ''bot_hosts'', Cascade)]\<rparr>"

definition bot_reports_table :: table_def where
  "bot_reports_table = \<lparr>tname = ''bot_reports'',
     columns = [icol_not_null ''run_id'', tcol_not_null ''payload_json'', icol_not_null ''created_at''],
     uniques = [],
     fkeys = [(''run_id'', ''bot_runs'', Cascade)]\<rparr>"

definition test_runs_table :: table_def where
  "test_runs_table = \<lparr>tname = ''test_runs'',
     columns = [icol_not_null ''project_id'', tcol_not_null ''framework'', icol_not_null ''timestamp'',
       icol_not_null ''duration_ms'', icol_not_null ''exit_code'',
       icol_not_null ''total_tests'', icol_not_null ''passed'', icol_not_null ''failed'',
       icol_not_null ''skipped'', icol_not_null ''errors'', tcol ''triggered_by''],
     uniques = [],
     fkeys = [(''project_id'', ''projects'', No_Action)]\<rparr>"

definition test_results_table :: table_def where
  "test_results_table = \<lparr>tname = ''test_results'',
     columns = [icol_not_null ''run_id'', tcol ''suite'', tcol_not_null ''name'',
       tcol_not_null ''status'', icol ''duration_ms'', tcol ''message'', tcol ''file'',
       icol ''line''],
     uniques = [],
     fkeys = [(''run_id'', ''test_runs'', Cascade)]\<rparr>"

definition workspace_snapshots_table :: table_def where
  "workspace_snapshots_table = \<lparr>tname = ''workspace_snapshots'',
     columns = [icol_not_null ''project_id'', icol ''brain_snapshot_id'', tcol ''label'',
       tcol_not_null ''trigger_type'', icol_not_null ''timestamp'', tcol ''build_dir_hash'',
       tcol ''deps_manifest_hash'', tcol ''env_snapshot'', tcol ''system_info'',
       icol_default ''restore_count'' 0, icol_default ''is_clean_build'' 0,
       tcol ''git_commit'', tcol ''git_branch'', icol_not_null ''created_at'', tcol ''tags''],
     uniques = [],
     fkeys = [(''project_id'', ''projects'', Cascade),
       (''brain_snapshot_id'', ''snapshots'', Set_Null)]\<rparr>"

definition workspace_files_table :: table_def where
  "workspace_files_table = \<lparr>tname = ''workspace_files'',
     columns = [icol_not_null ''snapshot_id'', tcol_not_null ''file_path'',
       tcol_not_null ''file_type'', tcol_not_null ''file_hash'', icol ''file_size'',
       icol ''mtime''],
     uniques = [],
     fkeys = [(''snapshot_id'', ''workspace_snapshots'', Cascade)]\<rparr>"

definition workspace_restores_table :: table_def where
  "workspace_restores_table = \<lparr>tname = ''workspace_restores'',
     columns = [icol_not_null ''project_id'', icol_not_null ''from_snapshot_id'',
       tcol_not_null ''restore_type'', icol ''files_restored'', icol_not_null ''timestamp'',
       tcol ''reason'', icol_default ''success'' 0, icol ''duration_ms''],
     uniques = [],
     fkeys = [(''project_id'', ''projects'', Cascade),
       (''from_snapshot_id'', ''workspace_snapshots'', Cascade)]\<rparr>"

definition workspace_failures_table :: table_def where
  "workspace_failures_table = \<lparr>tname = ''workspace_failures'',
     columns = [icol_not_null ''project_id'', tcol_not_null ''failure_type'',
       tcol_not_null ''error_signature'', tcol ''error_message'', icol ''before_snapshot_id'',
       icol ''after_snapshot_id'', tcol ''changed_files'', tcol ''changed_deps'',
       icol_default ''resolved'' 0, tcol ''resolution_type'', tcol ''resolution_notes'',
       icol_not_null ''timestamp'', tcol ''error_location'', tcol ''command_executed'',
       icol ''exit_code'', tcol ''changed_env'', tcol ''changed_system'',
       tcol_default ''severity'' ''medium'', tcol ''tags_json'', icol ''resolved_at'',
       icol ''resolution_snapshot_id'', icol ''resolution_success''],
     uniques = [],
     fkeys = [(''project_id'', ''projects'', Cascade),
       (''before_snapshot_id'', ''workspace_snapshots'', Set_Null),
       (''after_snapshot_id'', ''workspace_snapshots'', Set_Null),
       (''resolution_snapshot_id'', ''workspace_snapshots'', Set_Null)]\<rparr>"

definition workspace_tags_table :: table_def where
  "workspace_tags_table = \<lparr>tname = ''workspace_tags'',
     columns = [icol_not_null ''project_id'', icol_not_null ''snapshot_id'',
       tcol_not_null ''tag_name'', tcol ''description'', icol_not_null ''created_at''],
     uniques = [[''project_id'', ''tag_name'']],
     fkeys = [(''project_id'', ''projects'', Cascade),
       (''snapshot_id'', ''workspace_snapshots'', Cascade)]\<rparr>"

definition brain_failure_patterns_table :: table_def where
  "brain_failure_patterns_table = \<lparr>tname = ''brain_failure_patterns'',
     columns = [icol_not_null ''project_id'', tcol_not_null ''pattern_signature'',
       tcol ''pattern_name'', tcol_not_null ''failure_type'', tcol ''error_regex'',
       tcol ''trigger_conditions_json'', icol_default ''occurrence_count'' 1,
       icol_not_null ''first_seen'', icol_not_null ''last_seen'', tcol ''failure_ids_json'',
       tcol ''resolution_strategies_json''],
     uniques = [[''project_id'', ''pattern_signature'']],
     fkeys = [(''project_id'', ''projects'', Cascade)]\<rparr>"

definition brain_recovery_actions_table :: table_def where
  "brain_recovery_actions_table = \<lparr>tname = ''brain_recovery_actions'',
     columns = [icol ''pattern_id'', icol ''failure_id'', tcol_not_null ''action_type'',
       tcol ''action_params_json'', tcol ''action_description'',
       icol_default ''attempted_count'' 0, icol_default ''success_count'' 0,
       icol_default ''failure_count'' 0, icol ''avg_execution_time_ms'',
       icol_default ''requires_user_confirmation'' 1, icol_not_null ''created_at'',
       icol ''last_attempted''],
     uniques = [],
     fkeys = [(''pattern_id'', ''brain_failure_patterns'', Cascade),
       (''failure_id'', ''workspace_failures'', Cascade)]\<rparr>"

definition brain_recovery_history_table :: table_def where
  "brain_recovery_history_table = \<lparr>tname = ''brain_recovery_history'',
     columns = [icol_not_null ''project_id'', icol_not_null ''failure_id'', icol ''action_id'',
       icol_not_null ''started_at'', icol ''completed_at'', icol ''success'',
       icol ''execution_time_ms'', tcol ''output_log'', icol ''verification_passed'',
       tcol ''restored_files_json'', tcol ''modified_configs_json'', tcol ''execution_mode'',
       icol_default ''user_approved'' 0],
     uniques = [],
     fkeys = [(''project_id'', ''projects'', Cascade),
       (''failure_id'', ''workspace_failures'', Cascade),
       (''action_id'', ''brain_recovery_actions'', Set_Null)]\<rparr>"

definition repo_migrations_table :: table_def where
  "repo_migrations_table = \<lparr>tname = ''repo_migrations'',
     columns = [icol ''server_id'', icol ''project_id'', tcol_not_null ''repo_name'',
       tcol ''source_path'', icol_not_null ''started_at'', icol ''completed_at'',
       tcol_default ''status'' ''pending'', icol ''branch_count'', icol ''tag_count'',
       icol ''size_bytes'', tcol ''error_message''],
     uniques = [],
     fkeys = [(''server_id'', ''git_servers'', Cascade),
       (''project_id'', ''projects'', No_Action)]\<rparr>"

definition git_server_health_table :: table_def where
  "git_server_health_table = \<lparr>tname = ''git_server_health'',
     columns = [icol_not_null ''server_id'', icol_not_null ''timestamp'', tcol_not_null ''status'',
       icol ''web_ui_reachable'', icol ''http_clone_works'', icol ''ssh_push_works'',
       tcol ''service_status'', icol ''repo_count'', icol ''total_size_bytes'',
       icol ''disk_used_pct'', icol ''disk_free_bytes'', tcol ''notes''],
     uniques = [],
     fkeys = [(''server_id'', ''git_servers'', Cascade)]\<rparr>"

definition servers_table :: table_def where
  "servers_table = \<lparr>tname = ''servers'',
     columns = [tcol_not_null ''label'', tcol_not_null ''host'', tcol ''agent_version'',
       tcol_default ''agent_status'' ''unknown'', icol ''last_heartbeat'',
       tcol ''capabilities'', tcol ''ssh_config'', icol_not_null ''created_at'',
       icol_not_null ''updated_at'', tcol_default ''agent_container_strategy'' ''binary'',
       tcol ''agent_container_local_tar'', tcol ''agent_container_remote_tar'',
       tcol ''agent_container_image''],
     uniques = [[''label'']],
     fkeys = []\<rparr>"

definition compose_files_table :: table_def where
  "compose_files_table = \<lparr>tname = ''compose_files'',
     columns = [icol_not_null ''server_id'', tcol_not_null ''file_path'', tcol ''project_name'',
       tcol_not_null ''services'', tcol ''networks'', tcol ''volumes'', tcol ''file_hash'',
       icol_not_null ''last_scan'', icol_not_null ''created_at'', icol_not_null ''updated_at''],
     uniques = [[''server_id'', ''file_path'']],
     fkeys = [(''server_id'', ''servers'', Cascade)]\<rparr>"

definition containers_table :: table_def where
  "containers_table = \<lparr>tname = ''containers'',
     columns = [icol_not_null ''server_id'', tcol_not_null ''container_id'', tcol_not_null ''name'',
       tcol_not_null ''image'', tcol_not_null ''state'', tcol ''status'', icol ''created'',
       tcol ''ports'', tcol ''volumes'', tcol ''networks'', icol ''compose_file_id'',
       tcol ''service_name'', tcol ''depends_on'', tcol ''labels'', tcol ''env_vars'',
       tcol ''health_status'', tcol ''restart_policy'', icol_not_null ''last_seen'',
       icol_not_null ''created_at'', icol_not_null ''updated_at''],
     uniques = [[''server_id'', ''container_id'']],
     fkeys = [(''server_id'', ''servers'', Cascade),
       (''compose_file_id'', ''compose_files'', Set_Null)]\<rparr>"

definition docker_images_table :: table_def where
  "docker_images_table = \<lparr>tname = ''docker_images'',
     columns = [icol_not_null ''server_id'', tcol_not_null ''image_id'', tcol ''repository'',
       tcol ''tag'', icol ''size_bytes'', icol ''created'', icol_not_null ''last_seen'',
       icol_not_null ''created_at'', icol_not_null ''updated_at''],
     uniques = [[''server_id'', ''image_id'']],
     fkeys = [(''server_id'', ''servers'', Cascade)]\<rparr>"

definition docker_networks_table :: table_def where
  "docker_networks_table = \<lparr>tname = ''docker_networks'',
     columns = [icol_not_null ''server_id'', tcol_not_null ''network_id'', tcol_not_null ''name'',
       tcol ''driver'', tcol ''scope'', tcol ''ipam_config'', icol_not_null ''last_seen'',
       icol_not_null ''created_at'', icol_not_null ''updated_at''],
     uniques = [[''server_id'', ''network_id'']],
     fkeys = [(''server_id'', ''servers'', Cascade)]\<rparr>"

definition docker_volumes_table :: table_def where
  "docker_volumes_table = \<lparr>tname = ''docker_volumes'',
     columns = [icol_not_null ''server_id'', tcol_not_null ''volume_name'', tcol ''driver'',
       tcol ''mountpoint'', tcol ''labels'', icol_not_null ''last_seen'',
       icol_not_null ''created_at'', icol_not_null ''updated_at''],
     uniques = [[''server_id'', ''volume_name'']],
     fkeys = [(''server_id'', ''servers'', Cascade)]\<rparr>"

definition docker_status_history_table :: table_def where
  "docker_status_history_table = \<lparr>tname = ''docker_status_history'',
     columns = [icol_not_null ''server_id'', tcol_not_null ''container_id'', tcol ''container_name'',
       tcol_not_null ''event_type'', tcol ''old_state'', tcol_not_null ''new_state'',
       tcol ''metadata'', icol_not_null ''timestamp''],
     uniques = [],
     fkeys = [(''server_id'', ''servers'', Cascade)]\<rparr>"

definition agent_updates_table :: table_def where
  "agent_updates_table = \<lparr>tname = ''agent_updates'',
     columns = [icol_not_null ''server_id'', tcol_not_null ''update_type'',
       tcol_not_null ''payload_json'', icol_default ''processed'' 0, tcol ''error_message'',
       icol_not_null ''timestamp''],
     uniques = [],
     fkeys = [(''server_id'', ''servers'', Cascade)]\<rparr>"

definition docker_commands_table :: table_def where
  "docker_commands_table = \<lparr>tname = ''docker_commands'',
     columns = [icol_not_null ''server_id'', tcol ''container_id'', tcol_not_null ''command'',
       tcol ''params'', tcol_not_null ''status'', icol ''exit_code'', tcol ''output'',
       tcol ''error'', tcol ''issued_by'', icol_not_null ''issued_at'', icol ''completed_at''],
     uniques = [],
     fkeys = [(''server_id'', ''servers'', Cascade)]\<rparr>"

definition docker_stacks_table :: table_def where
  "docker_stacks_table = \<lparr>tname = ''docker_stacks'',
     columns = [icol_not_null ''server_id'', tcol_not_null ''name'', tcol ''description'',
       icol_default ''priority'' 0, icol_default ''auto_restart'' 0,
       icol_default ''health_check_timeout'' 30, icol_not_null ''created_at'',
       icol_not_null ''updated_at''],
     uniques = [[''server_id'', ''name'']],
     fkeys = [(''server_id'', ''servers'', Cascade)]\<rparr>"

definition docker_stack_compose_files_table :: table_def where
  "docker_stack_compose_files_table = \<lparr>tname = ''docker_stack_compose_files'',
     columns = [icol_not_null ''stack_id'', icol_not_null ''compose_file_id'',
       icol_default ''execution_order'' 0, tcol ''env_file'', tcol ''compose_flags''],
     uniques = [[''stack_id'', ''compose_file_id'']],
     fkeys = [(''stack_id'', ''docker_stacks'', Cascade),
       (''compose_file_id'', ''compose_files'', Cascade)]\<rparr>"

definition docker_service_dependencies_table :: table_def where
  "docker_service_dependencies_table = \<lparr>tname = ''docker_service_dependencies'',
     columns = [icol_not_null ''server_id'', tcol_not_null ''service_name'',
       tcol_not_null ''depends_on_service'', tcol_default ''dependency_type'' ''soft'',
       icol ''compose_file_id'', icol_not_null ''created_at''],
     uniques = [[''server_id'', ''service_name'', ''depends_on_service'']],
     fkeys = [(''server_id'', ''servers'', Cascade),
       (''compose_file_id'', ''compose_files'', Set_Null)]\<rparr>"

definition docker_network_dependencies_table :: table_def where
  "docker_network_dependencies_table = \<lparr>tname = ''docker_network_dependencies'',
     columns = [icol_not_null ''server_id'', tcol_not_null ''service_name'',
       tcol_not_null ''network_name'', tcol ''static_ip'', icol_not_null ''created_at''],
     uniques = [[''server_id'', ''service_name'', ''network_name'']],
     fkeys = [(''server_id'', ''servers'', Cascade)]\<rparr>"

definition docker_orchestration_rules_table :: table_def where
  "docker_orchestration_rules_table = \<lparr>tname = ''docker_orchestration_rules'',
     columns = [icol_not_null ''server_id'', icol ''stack_id'', tcol_not_null ''rule_type'',
       tcol_not_null ''condition_json'', tcol_not_null ''action_json'',
       icol_default ''priority'' 0, icol_default ''enabled'' 1, tcol ''description'',
       icol_not_null ''created_at'', icol_not_null ''updated_at''],
     uniques = [],
     fkeys = [(''server_id'', ''servers'', Cascade),
       (''stack_id'', ''docker_stacks'', Cascade)]\<rparr>"

definition docker_issues_table :: table_def where
  "docker_issues_table = \<lparr>tname = ''docker_issues'',
     columns = [icol_not_null ''server_id'', tcol ''container_id'', tcol_not_null ''issue_type'',
       tcol_default ''severity'' ''medium'', tcol_not_null ''title'', tcol ''description'',
       tcol ''metadata_json'', icol_not_null ''detected_at'', icol ''resolved_at'',
       tcol ''resolution_action'', icol_default ''auto_resolve_attempted'' 0],
     uniques = [],
     fkeys = [(''server_id'', ''servers'', Cascade)]\<rparr>"

definition docker_orchestration_actions_table :: table_def where
  "docker_orchestration_actions_table = \<lparr>tname = ''docker_orchestration_actions'',
     columns = [icol_not_null ''server_id'', icol ''stack_id'', tcol_not_null ''action_type'',
       tcol_not_null ''target'', tcol ''reason'', tcol_default ''triggered_by'' ''manual'',
       tcol_default ''status'' ''pending'', icol_not_null ''started_at'',
       icol ''completed_at'', icol ''exit_code'', tcol ''output'', tcol ''error''],
     uniques = [],
     fkeys = [(''server_id'', ''servers'', Cascade),
       (''stack_id'', ''docker_stacks'', Set_Null)]\<rparr>"

section \<open>The schema\<close>

definition nexus_schema :: "table_def list" where
  "nexus_schema = [projects_table, snapshots_table, events_table,
     command_history_table, facts_table, git_servers_table,
     bare_repos_table, bot_hosts_table, bot_runs_table,
     bot_reports_table, test_runs_table, test_results_table,
     workspace_snapshots_table, workspace_files_table, workspace_restores_table,
     workspace_failures_table, workspace_tags_table, brain_failure_patterns_table,
     brain_recovery_actions_table, brain_recovery_history_table, repo_migrations_table,
     git_server_health_table, servers_table, compose_files_table,
     containers_table, docker_images_table, docker_networks_table,
     docker_volumes_table, docker_status_history_table, agent_updates_table,
     docker_commands_table, docker_stacks_table, docker_stack_compose_files_table,
     docker_service_dependencies_table, docker_network_dependencies_table, docker_orchestration_rules_table,
     docker_issues_table, docker_orchestration_actions_table]"

lemma nexus_schema_ok: "schema_ok nexus_schema"
  by code_simp

lemmas table_defs =
  projects_table_def snapshots_table_def events_table_def command_history_table_def
  facts_table_def git_servers_table_def bare_repos_table_def bot_hosts_table_def
  bot_runs_table_def bot_reports_table_def test_runs_table_def test_results_table_def
  workspace_snapshots_table_def workspace_files_table_def workspace_restores_table_def
  workspace_failures_table_def workspace_tags_table_def brain_failure_patterns_table_def
  brain_recovery_actions_table_def brain_recovery_history_table_def repo_migrations_table_def
  git_server_health_table_def servers_table_def compose_files_table_def containers_table_def
  docker_images_table_def docker_networks_table_def docker_volumes_table_def
  docker_status_history_table_def agent_updates_table_def docker_commands_table_def
  docker_stacks_table_def docker_stack_compose_files_table_def
  docker_service_dependencies_table_def docker_network_dependencies_table_def
  docker_orchestration_rules_table_def docker_issues_table_def
  docker_orchestration_actions_table_def

lemma table_names [simp]:
  "tname projects_table = ''projects''" "tname snapshots_table = ''snapshots''"
  "tname events_table = ''events''" "tname command_history_table = ''command_history''"
  "tname facts_table = ''facts''" "tname git_servers_table = ''git_servers''"
  "tname bare_repos_table = ''bare_repos''" "tname bot_hosts_table = ''bot_hosts''"
  "tname bot_runs_table = ''bot_runs''" "tname bot_reports_table = ''bot_reports''"
  "tname test_runs_table = ''test_runs''" "tname test_results_table = ''test_results''"
  "tname workspace_snapshots_table = ''workspace_snapshots''"
  "tname workspace_files_table = ''workspace_files''"
  "tname workspace_restores_table = ''workspace_restores''"
  "tname workspace_failures_table = ''workspace_failures''"
  "tname workspace_tags_table = ''workspace_tags''"
  "tname brain_failure_patterns_table = ''brain_failure_patterns''"
  "tname brain_recovery_actions_table = ''brain_recovery_actions''"
  "tname brain_recovery_history_table = ''brain_recovery_history''"
  "tname repo_migrations_table = ''repo_migrations''"
  "tname git_server_health_table = ''git_server_health''" "tname servers_table = ''servers''"
  "tname compose_files_table = ''compose_files''" "tname containers_table = ''containers''"
  "tname docker_images_table = ''docker_images''"
  "tname docker_networks_table = ''docker_networks''"
  "tname docker_volumes_table = ''docker_volumes''"
  "tname docker_status_history_table = ''docker_status_history''"
  "tname agent_updates_table = ''agent_updates''"
  "tname docker_commands_table = ''docker_commands''"
  "tname docker_stacks_table = ''docker_stacks''"
  "tname docker_stack_compose_files_table = ''docker_stack_compose_files''"
  "tname docker_service_dependencies_table = ''docker_service_dependencies''"
  "tname docker_network_dependencies_table = ''docker_network_dependencies''"
  "tname docker_orchestration_rules_table = ''docker_orchestration_rules''"
  "tname docker_issues_table = ''docker_issues''"
  "tname docker_orchestration_actions_table = ''docker_orchestration_actions''"
  by (simp_all add: table_defs)

lemma table_uniques [simp]:
  "uniques projects_table = [[''root_path'']]"
  "uniques snapshots_table = []"
  "uniques events_table = []"
  "uniques command_history_table = []"
  "uniques facts_table = [[''project_id'', ''namespace'', ''key'']]"
  "uniques git_servers_table = [[''label'']]"
  "uniques bare_repos_table = []"
  "uniques bot_hosts_table = [[''label'']]"
  "uniques bot_runs_table = []"
  "uniques bot_reports_table = []"
  "uniques test_runs_table = []"
  "uniques test_results_table = []"
  "uniques workspace_snapshots_table = []"
  "uniques workspace_files_table = []"
  "uniques workspace_restores_table = []"
  "uniques workspace_failures_table = []"
  "uniques workspace_tags_table = [[''project_id'', ''tag_name'']]"
  "uniques brain_failure_patterns_table = [[''project_id'', ''pattern_signature'']]"
  "uniques brain_recovery_actions_table = []"
  "uniques brain_recovery_history_table = []"
  "uniques repo_migrations_table = []"
  "uniques git_server_health_table = []"
  "uniques servers_table = [[''label'']]"
  "uniques compose_files_table = [[''server_id'', ''file_path'']]"
  "uniques containers_table = [[''server_id'', ''container_id'']]"
  "uniques docker_images_table = [[''server_id'', ''image_id'']]"
  "uniques docker_networks_table = [[''server_id'', ''network_id'']]"
  "uniques docker_volumes_table = [[''server_id'', ''volume_name'']]"
  "uniques docker_status_history_table = []"
  "uniques agent_updates_table = []"
  "uniques docker_commands_table = []"
  "uniques docker_stacks_table = [[''server_id'', ''name'']]"
  "uniques docker_stack_compose_files_table = [[''stack_id'', ''compose_file_id'']]"
  "uniques docker_service_dependencies_table = [[''server_id'', ''service_name'', ''depends_on_service'']]"
  "uniques docker_network_dependencies_table = [[''server_id'', ''service_name'', ''network_name'']]"
  "uniques docker_orchestration_rules_table = []"
  "uniques docker_issues_table = []"
  "uniques docker_orchestration_actions_table = []"
  by (simp_all add: table_defs)

lemma table_fkeys [simp]:
  "fkeys projects_table = []"
  "fkeys snapshots_table = [(''project_id'', ''projects'', Cascade)]"
  "fkeys events_table = [(''project_id'', ''projects'', Cascade)]"
  "fkeys command_history_table = [(''project_id'', ''projects'', Set_Null)]"
  "fkeys facts_table = [(''project_id'', ''projects'', Cascade)]"
  "fkeys git_servers_table = []"
  "fkeys bare_repos_table = [(''project_id'', ''projects'', No_Action), (''server_id'', ''git_servers'', No_Action)]"
  "fkeys bot_hosts_table = []"
  "fkeys bot_runs_table = [(''host_id'', ''bot_hosts'', Cascade)]"
  "fkeys bot_reports_table = [(''run_id'', ''bot_runs'', Cascade)]"
  "fkeys test_runs_table = [(''project_id'', ''projects'', No_Action)]"
  "fkeys test_results_table = [(''run_id'', ''test_runs'', Cascade)]"
  "fkeys workspace_snapshots_table = [(''project_id'', ''projects'', Cascade), (''brain_snapshot_id'', ''snapshots'', Set_Null)]"
  "fkeys workspace_files_table = [(''snapshot_id'', ''workspace_snapshots'', Cascade)]"
  "fkeys workspace_restores_table = [(''project_id'', ''projects'', Cascade), (''from_snapshot_id'', ''workspace_snapshots'', Cascade)]"
  "fkeys workspace_failures_table = [(''project_id'', ''projects'', Cascade), (''before_snapshot_id'', ''workspace_snapshots'', Set_Null), (''after_snapshot_id'', ''workspace_snapshots'', Set_Null), (''resolution_snapshot_id'', ''workspace_snapshots'', Set_Null)]"
  "fkeys workspace_tags_table = [(''project_id'', ''projects'', Cascade), (''snapshot_id'', ''workspace_snapshots'', Cascade)]"
  "fkeys brain_failure_patterns_table = [(''project_id'', ''projects'', Cascade)]"
  "fkeys brain_recovery_actions_table = [(''pattern_id'', ''brain_failure_patterns'', Cascade), (''failure_id'', ''workspace_failures'', Cascade)]"
  "fkeys brain_recovery_history_table = [(''project_id'', ''projects'', Cascade), (''failure_id'', ''workspace_failures'', Cascade), (''action_id'', ''brain_recovery_actions'', Set_Null)]"
  "fkeys repo_migrations_table = [(''server_id'', ''git_servers'', Cascade), (''project_id'', ''projects'', No_Action)]"
  "fkeys git_server_health_table = [(''server_id'', ''git_servers'', Cascade)]"
  "fkeys servers_table = []"
  "fkeys compose_files_table = [(''server_id'', ''servers'', Cascade)]"
  "fkeys containers_table = [(''server_id'', ''servers'', Cascade), (''compose_file_id'', ''compose_files'', Set_Null)]"
  "fkeys docker_images_table = [(''server_id'', ''servers'', Cascade)]"
  "fkeys docker_networks_table = [(''server_id'', ''servers'', Cascade)]"
  "fkeys docker_volumes_table = [(''server_id'', ''servers'', Cascade)]"
  "fkeys docker_status_history_table = [(''server_id'', ''servers'', Cascade)]"
  "fkeys agent_updates_table = [(''server_id'', ''servers'', Cascade)]"
  "fkeys docker_commands_table = [(''server_id'', ''servers'', Cascade)]"
  "fkeys docker_stacks_table = [(''server_id'', ''servers'', Cascade)]"
  "fkeys docker_stack_compose_files_table = [(''stack_id'', ''docker_stacks'', Cascade), (''compose_file_id'', ''compose_files'', Cascade)]"
  "fkeys docker_service_dependencies_table = [(''server_id'', ''servers'', Cascade), (''compose_file_id'', ''compose_files'', Set_Null)]"
  "fkeys docker_network_dependencies_table = [(''server_id'', ''servers'', Cascade)]"
  "fkeys docker_orchestration_rules_table = [(''server_id'', ''servers'', Cascade), (''stack_id'', ''docker_stacks'', Cascade)]"
  "fkeys docker_issues_table = [(''server_id'', ''servers'', Cascade)]"
  "fkeys docker_orchestration_actions_table = [(''server_id'', ''servers'', Cascade), (''stack_id'', ''docker_stacks'', Set_Null)]"
  by (simp_all add: table_defs)

lemma find_tables [simp]:
  "find_def nexus_schema ''projects'' = Some projects_table"
  "find_def nexus_schema ''snapshots'' = Some snapshots_table"
  "find_def nexus_schema ''events'' = Some events_table"
  "find_def nexus_schema ''command_history'' = Some command_history_table"
  "find_def nexus_schema ''facts'' = Some facts_table"
  "find_def nexus_schema ''git_servers'' = Some git_servers_table"
  "find_def nexus_schema ''bare_repos'' = Some bare_repos_table"
  "find_def nexus_schema ''bot_hosts'' = Some bot_hosts_table"
  "find_def nexus_schema ''bot_runs'' = Some bot_runs_table"
  "find_def nexus_schema ''bot_reports'' = Some bot_reports_table"
  "find_def nexus_schema ''test_runs'' = Some test_runs_table"
  "find_def nexus_schema ''test_results'' = Some test_results_table"
  "find_def nexus_schema ''workspace_snapshots'' = Some workspace_snapshots_table"
  "find_def nexus_schema ''workspace_files'' = Some workspace_files_table"
  "find_def nexus_schema ''workspace_restores'' = Some workspace_restores_table"
  "find_def nexus_schema ''workspace_failures'' = Some workspace_failures_table"
  "find_def nexus_schema ''workspace_tags'' = Some workspace_tags_table"
  "find_def nexus_schema ''brain_failure_patterns'' = Some brain_failure_patterns_table"
  "find_def nexus_schema ''brain_recovery_actions'' = Some brain_recovery_actions_table"
  "find_def nexus_schema ''brain_recovery_history'' = Some brain_recovery_history_table"
  "find_def nexus_schema ''repo_migrations'' = Some repo_migrations_table"
  "find_def nexus_schema ''git_server_health'' = Some git_server_health_table"
  "find_def nexus_schema ''servers'' = Some servers_table"
  "find_def nexus_schema ''compose_files'' = Some compose_files_table"
  "find_def nexus_schema ''containers'' = Some containers_table"
  "find_def nexus_schema ''docker_images'' = Some docker_images_table"
  "find_def nexus_schema ''docker_networks'' = Some docker_networks_table"
  "find_def nexus_schema ''docker_volumes'' = Some docker_volumes_table"
  "find_def nexus_schema ''docker_status_history'' = Some docker_status_history_table"
  "find_def nexus_schema ''agent_updates'' = Some agent_updates_table"
  "find_def nexus_schema ''docker_commands'' = Some docker_commands_table"
  "find_def nexus_schema ''docker_stacks'' = Some docker_stacks_table"
  "find_def nexus_schema ''docker_stack_compose_files'' = Some docker_stack_compose_files_table"
  "find_def nexus_schema ''docker_service_dependencies'' = Some docker_service_dependencies_table"
  "find_def nexus_schema ''docker_network_dependencies'' = Some docker_network_dependencies_table"
  "find_def nexus_schema ''docker_orchestration_rules'' = Some docker_orchestration_rules_table"
  "find_def nexus_schema ''docker_issues'' = Some docker_issues_table"
  "find_def nexus_schema ''docker_orchestration_actions'' = Some docker_orchestration_actions_table"
  by (simp_all add: find_def_def nexus_schema_def)

lemma tables_in_schema [simp]:
  "projects_table \<in> set nexus_schema" "snapshots_table \<in> set nexus_schema"
  "events_table \<in> set nexus_schema" "command_history_table \<in> set nexus_schema"
  "facts_table \<in> set nexus_schema" "git_servers_table \<in> set nexus_schema"
  "bare_repos_table \<in> set nexus_schema" "bot_hosts_table \<in> set nexus_schema"
  "bot_runs_table \<in> set nexus_schema" "bot_reports_table \<in> set nexus_schema"
  "test_runs_table \<in> set nexus_schema" "test_results_table \<in> set nexus_schema"
  "workspace_snapshots_table \<in> set nexus_schema"
  "workspace_files_table \<in> set nexus_schema"
  "workspace_restores_table \<in> set nexus_schema"
  "workspace_failures_table \<in> set nexus_schema" "workspace_tags_table \<in> set nexus_schema"
  "brain_failure_patterns_table \<in> set nexus_schema"
  "brain_recovery_actions_table \<in> set nexus_schema"
  "brain_recovery_history_table \<in> set nexus_schema"
  "repo_migrations_table \<in> set nexus_schema" "git_server_health_table \<in> set nexus_schema"
  "servers_table \<in> set nexus_schema" "compose_files_table \<in> set nexus_schema"
  "containers_table \<in> set nexus_schema" "docker_images_table \<in> set nexus_schema"
  "docker_networks_table \<in> set nexus_schema" "docker_volumes_table \<in> set nexus_schema"
  "docker_status_history_table \<in> set nexus_schema"
  "agent_updates_table \<in> set nexus_schema" "docker_commands_table \<in> set nexus_schema"
  "docker_stacks_table \<in> set nexus_schema"
  "docker_stack_compose_files_table \<in> set nexus_schema"
  "docker_service_dependencies_table \<in> set nexus_schema"
  "docker_network_dependencies_table \<in> set nexus_schema"
  "docker_orchestration_rules_table \<in> set nexus_schema"
  "docker_issues_table \<in> set nexus_schema"
  "docker_orchestration_actions_table \<in> set nexus_schema"
  by (simp_all add: nexus_schema_def)

end
