(* ===== verification/Nexus_Store.thy ===== *)
theory Nexus_Store
  imports Nexus_Schema
begin

text \<open>
  The core of \<open>Store\<close> (\<open>src/modules/nexus/src/store.cpp\<close>): projects, facts, events, command history,
  snapshots and the two maintenance deletes. Every operation is the SQL statement of the source
  over the connection of \<open>Nexus_Sql\<close>; \<open>now_timestamp ()\<close> is an argument. The logger is not modelled.
\<close>

section \<open>Statements over the schema\<close>

definition exec :: "sql_stmt \<Rightarrow> sqlite \<Rightarrow> sqlite \<times> bool" where
  "exec q c = db_execute nexus_schema q c"

definition eq_int :: "string \<Rightarrow> int \<Rightarrow> sql_row \<Rightarrow> bool" where
  "eq_int k i r \<longleftrightarrow> val r k = coerce AInteger (bind_int i)"

definition eq_text :: "string \<Rightarrow> string \<Rightarrow> sql_row \<Rightarrow> bool" where
  "eq_text k s r \<longleftrightarrow> val r k = coerce AText (bind s)"

text \<open>The pattern of the inserting operations: the new identifier, or a failure code.\<close>

definition insert_id :: "int \<Rightarrow> sql_stmt \<Rightarrow> sqlite \<Rightarrow> sqlite \<times> int" where
  "insert_id fail q c = (case exec q c of (c', ok) \<Rightarrow> (c', if ok then last_insert_id c' else fail))"

lemma eq_int_simp [simp]: "eq_int k i r \<longleftrightarrow> val r k = VInt i"
  by (simp add: eq_int_def)

lemma eq_text_simp [simp]: "eq_text k s r \<longleftrightarrow> val r k = VText (c_string s)"
  by (simp add: eq_text_def)

section \<open>Projects\<close>

record project =
  p_id :: int
  root_path :: string
  p_name :: string
  language :: string
  detected_tools :: string
  p_created_at :: int
  p_updated_at :: int

definition read_project :: "sql_row \<Rightarrow> project" where
  "read_project r = \<lparr>p_id = get_num r ''id'', root_path = get_text r ''root_path'', p_name = get_text r ''name'',
     language = get_text r ''language'', detected_tools = get_text r ''detected_tools'',
     p_created_at = get_num r ''created_at'', p_updated_at = get_num r ''updated_at''\<rparr>"

definition first_row :: "('r \<Rightarrow> 'a) \<Rightarrow> 'r list \<Rightarrow> 'a option" where
  "first_row f rs = (case rs of [] \<Rightarrow> None | r # _ \<Rightarrow> Some (f r))"

definition get_project :: "int \<Rightarrow> sqlite \<Rightarrow> project option" where
  "get_project i c = first_row read_project (select ''projects'' (eq_int ''id'' i) c)"

definition get_project_by_path :: "string \<Rightarrow> sqlite \<Rightarrow> project option" where
  "get_project_by_path root c = first_row read_project (select ''projects'' (eq_text ''root_path'' root) c)"

definition ensure_project :: "int \<Rightarrow> string \<Rightarrow> sqlite \<Rightarrow> sqlite \<times> int" where
  "ensure_project now root c =
     (case get_project_by_path root c of
        Some p \<Rightarrow>
          (fst (exec (Update ''projects'' (eq_int ''id'' (p_id p)) (\<lambda>_. [(''updated_at'', bind_int now)])) c), p_id p)
      | None \<Rightarrow>
          insert_id (-1) (Insert ''projects'' [(''root_path'', bind root), (''created_at'', bind_int now),
             (''updated_at'', bind_int now)]) c)"

definition update_project :: "int \<Rightarrow> int \<Rightarrow> project \<Rightarrow> sqlite \<Rightarrow> sqlite" where
  "update_project now i p c =
     fst (exec (Update ''projects'' (eq_int ''id'' i) (\<lambda>_. [(''name'', bind (p_name p)), (''language'', bind (language p)),
        (''detected_tools'', bind (detected_tools p)), (''updated_at'', bind_int now)])) c)"

definition list_projects :: "sqlite \<Rightarrow> project list" where
  "list_projects c = map read_project (order_desc ''updated_at'' (select ''projects'' (\<lambda>_. True) c))"

section \<open>Facts\<close>

definition set_fact :: "int \<Rightarrow> int \<Rightarrow> string \<Rightarrow> string \<Rightarrow> string \<Rightarrow> sqlite \<Rightarrow> sqlite" where
  "set_fact now pid ns key value c =
     fst (exec (Upsert ''facts'' [(''project_id'', bind_int pid), (''namespace'', bind ns), (''key'', bind key),
          (''value'', bind value), (''created_at'', bind_int now), (''updated_at'', bind_int now)]
        [''project_id'', ''namespace'', ''key''] [''value'', ''updated_at'']) c)"

definition fact_where :: "int \<Rightarrow> string \<Rightarrow> string \<Rightarrow> sql_row \<Rightarrow> bool" where
  "fact_where pid ns key r \<longleftrightarrow> eq_int ''project_id'' pid r \<and> eq_text ''namespace'' ns r \<and> eq_text ''key'' key r"

definition get_fact :: "int \<Rightarrow> string \<Rightarrow> string \<Rightarrow> sqlite \<Rightarrow> string option" where
  "get_fact pid ns key c =
     (case select ''facts'' (fact_where pid ns key) c of [] \<Rightarrow> None | r # _ \<Rightarrow> row_get r ''value'')"

definition list_facts :: "int \<Rightarrow> string \<Rightarrow> sqlite \<Rightarrow> (string, string) std_map" where
  "list_facts pid ns c =
     fold (\<lambda>r m. case (row_get r ''key'', row_get r ''value'') of (Some k, Some v) \<Rightarrow> map_put k v m | _ \<Rightarrow> m)
       (order_asc ''key'' (select ''facts'' (\<lambda>r. eq_int ''project_id'' pid r \<and> eq_text ''namespace'' ns r) c)) []"

section \<open>Events\<close>

record event =
  e_id :: int
  e_project_id :: int
  level :: string
  tag :: string
  message :: string
  metadata :: string
  e_created_at :: int

definition add_event :: "int \<Rightarrow> int \<Rightarrow> string \<Rightarrow> string \<Rightarrow> string \<Rightarrow> string \<Rightarrow> sqlite \<Rightarrow> sqlite" where
  "add_event now pid lvl tg msg meta c =
     fst (exec (Insert ''events'' [(''project_id'', bind_int pid), (''level'', bind lvl), (''tag'', bind tg),
        (''message'', bind msg), (''metadata'', bind meta), (''created_at'', bind_int now)]) c)"

definition read_event :: "sql_row \<Rightarrow> event" where
  "read_event r = \<lparr>e_id = get_num r ''id'', e_project_id = get_num r ''project_id'', level = get_text r ''level'',
     tag = get_text r ''tag'', message = get_text r ''message'', metadata = get_text r ''metadata'',
     e_created_at = get_num r ''created_at''\<rparr>"

definition recent_event_rows :: "int \<Rightarrow> int \<Rightarrow> sqlite \<Rightarrow> sql_row list" where
  "recent_event_rows pid n c =
     limit_rows n (order_desc ''created_at'' (select ''events'' (eq_int ''project_id'' pid) c))"

definition recent_events :: "int \<Rightarrow> int \<Rightarrow> sqlite \<Rightarrow> event list" where
  "recent_events pid n c = map read_event (recent_event_rows pid n c)"

section \<open>Command history\<close>

text \<open>The argument vector as a JSON array whose strings are not escaped.\<close>

definition args_json :: "string list \<Rightarrow> string" where
  "args_json args = ''['' @ join_with '','' (map (\<lambda>a. [CHR 0x22] @ a @ [CHR 0x22]) args) @ '']''"

record command_record =
  cr_id :: int
  cr_project_id :: int
  cr_command :: string
  cr_args :: string
  cr_code :: int
  cr_duration_ms :: int
  cr_executed_at :: int

definition to_int32 :: "int \<Rightarrow> int" where
  "to_int32 i = signed_take_bit 31 i"

definition record_command :: "int \<Rightarrow> int \<Rightarrow> string \<Rightarrow> string list \<Rightarrow> int \<Rightarrow> int \<Rightarrow> sqlite \<Rightarrow> sqlite" where
  "record_command now pid cmd args code dur c =
     fst (exec (Insert ''command_history'' [(''project_id'', bind_int pid), (''command'', bind cmd),
        (''args'', bind (args_json args)), (''exit_code'', bind_int code), (''duration_ms'', bind_int dur),
        (''executed_at'', bind_int now)]) c)"

definition read_command :: "sql_row \<Rightarrow> command_record" where
  "read_command r = \<lparr>cr_id = get_num r ''id'', cr_project_id = get_num r ''project_id'',
     cr_command = get_text r ''command'', cr_args = get_text r ''args'', cr_code = to_int32 (get_num r ''exit_code''),
     cr_duration_ms = get_num r ''duration_ms'', cr_executed_at = get_num r ''executed_at''\<rparr>"

definition recent_command_rows :: "int \<Rightarrow> sqlite \<Rightarrow> sql_row list" where
  "recent_command_rows n c = limit_rows n (order_desc ''executed_at'' (select ''command_history'' (\<lambda>_. True) c))"

definition recent_commands :: "int \<Rightarrow> sqlite \<Rightarrow> command_record list" where
  "recent_commands n c = map read_command (recent_command_rows n c)"

definition recent_commands_for_project :: "int \<Rightarrow> int \<Rightarrow> sqlite \<Rightarrow> command_record list" where
  "recent_commands_for_project pid n c =
     map read_command (limit_rows n (order_desc ''executed_at'' (select ''command_history'' (eq_int ''project_id'' pid) c)))"

section \<open>Snapshots\<close>

record snapshot =
  s_id :: int
  s_project_id :: int
  tree_hash :: string
  file_count :: int
  total_bytes :: int
  s_created_at :: int

definition add_snapshot :: "int \<Rightarrow> int \<Rightarrow> string \<Rightarrow> int \<Rightarrow> int \<Rightarrow> sqlite \<Rightarrow> sqlite \<times> int" where
  "add_snapshot now pid hash n bytes c =
     insert_id (-1) (Insert ''snapshots'' [(''project_id'', bind_int pid), (''tree_hash'', bind hash),
        (''file_count'', bind_int n), (''total_bytes'', bind_int bytes), (''created_at'', bind_int now)]) c"

definition read_snapshot :: "sql_row \<Rightarrow> snapshot" where
  "read_snapshot r = \<lparr>s_id = get_num r ''id'', s_project_id = get_num r ''project_id'',
     tree_hash = get_text r ''tree_hash'', file_count = to_int32 (get_num r ''file_count''),
     total_bytes = get_num r ''total_bytes'', s_created_at = get_num r ''created_at''\<rparr>"

definition latest_snapshot :: "int \<Rightarrow> sqlite \<Rightarrow> snapshot option" where
  "latest_snapshot pid c =
     first_row read_snapshot (limit_rows 1 (order_desc ''created_at'' (select ''snapshots'' (eq_int ''project_id'' pid) c)))"

section \<open>Maintenance\<close>

definition prune_events :: "int \<Rightarrow> int \<Rightarrow> sqlite \<Rightarrow> sqlite" where
  "prune_events pid keep c =
     (let kept = map fst (recent_event_rows pid keep c)
      in fst (exec (Delete ''events'' (\<lambda>r. eq_int ''project_id'' pid r \<and> fst r \<notin> set kept)) c))"

definition prune_commands :: "int \<Rightarrow> sqlite \<Rightarrow> sqlite" where
  "prune_commands keep c =
     (let kept = map fst (recent_command_rows keep c)
      in fst (exec (Delete ''command_history'' (\<lambda>r. fst r \<notin> set kept)) c))"

section \<open>Working connections\<close>

definition healthy :: "sqlite \<Rightarrow> bool" where
  "healthy c \<longleftrightarrow> db_open c \<and> conn_ok nexus_schema c \<and> visits_all c"

lemma healthy_table: "healthy c \<Longrightarrow> d \<in> set nexus_schema \<Longrightarrow> table_ok d (tabs c)"
  unfolding healthy_def conn_ok_def by (blast intro: db_ok_table)

lemma exec_frame [simp]:
  "db_open (fst (exec q c)) = db_open c" "io_fails (fst (exec q c)) = io_fails c" "visit (fst (exec q c)) = visit c"
  using db_execute_frame [of nexus_schema q c "fst (exec q c)" "snd (exec q c)"] by (simp_all add: exec_def)

lemma healthy_exec [simp]: "healthy c \<Longrightarrow> healthy (fst (exec q c))"
  using db_execute_ok [OF nexus_schema_ok, of c q "fst (exec q c)" "snd (exec q c)"]
    db_execute_frame [of nexus_schema q c "fst (exec q c)" "snd (exec q c)"]
  by (simp add: healthy_def exec_def visits_all_def)

lemma exec_runs:
  assumes "db_open c" "\<not> io_fails c (stmts c)" "run_stmt nexus_schema q (tabs c) = Some (T, i)"
  shows "exec q c = (c\<lparr>stmts := stmts c + 1, tabs := T,
     last_rowid := (case i of None \<Rightarrow> last_rowid c | Some k \<Rightarrow> k)\<rparr>, True)"
  using assms by (cases i) (simp_all add: exec_def db_execute_def Let_def)

lemma exec_refused:
  assumes "run_stmt nexus_schema q (tabs c) = None"
  shows "snd (exec q c) = False" "tabs (fst (exec q c)) = tabs c" "last_rowid (fst (exec q c)) = last_rowid c"
  using assms by (simp_all add: exec_def db_execute_def Let_def)

text \<open>The conditions under which an INSERT is accepted, and its effect.\<close>

definition accepts :: "table_def \<Rightarrow> cells \<Rightarrow> sqlite \<Rightarrow> bool" where
  "accepts d vs c \<longleftrightarrow> db_open c \<and> \<not> io_fails c (stmts c) \<and> seq (tabs c (tname d)) < max_rowid \<and>
     not_null_ok d (new_cells d vs) \<and> unique_ok d (new_cells d vs) (trows (tabs c (tname d))) \<and>
     fkeys_ok d (tabs c) (new_cells d vs)"

lemma exec_insert:
  assumes "accepts d vs c" "find_def nexus_schema t = Some d"
  shows "exec (Insert t vs) c = (c\<lparr>stmts := stmts c + 1, tabs := append_row (tname d) (new_cells d vs) (tabs c),
     last_rowid := seq (tabs c (tname d)) + 1\<rparr>, True)"
  using assms exec_runs [of c "Insert t vs"] by (simp add: accepts_def sql_insert_def Let_def)

lemma insert_id_accepted:
  assumes "accepts d vs c" "find_def nexus_schema t = Some d"
  shows "snd (insert_id e (Insert t vs) c) = seq (tabs c (tname d)) + 1"
    "tabs (fst (insert_id e (Insert t vs) c)) = append_row (tname d) (new_cells d vs) (tabs c)"
    "healthy c \<Longrightarrow> healthy (fst (insert_id e (Insert t vs) c))"
  using exec_insert [OF assms] healthy_exec [of c "Insert t vs"] assms(1)
  by (simp_all add: insert_id_def last_insert_id_def accepts_def)

lemma insert_id_refused:
  assumes "snd (exec q c) = False"
  shows "snd (insert_id e q c) = e" "tabs (fst (insert_id e q c)) = tabs c"
  using assms db_execute_refused [of nexus_schema q c "fst (exec q c)"]
  by (auto simp: insert_id_def exec_def split: prod.splits)

text \<open>
  An upsert on the only unique key of a table, accepted: the row of the key is written, every other key
  keeps its row, and \<open>last_insert_id\<close> moves only when a row was inserted.
\<close>

lemma exec_upsert:
  assumes h: "healthy c" "\<not> io_fails c (stmts c)" and d: "find_def nexus_schema t = Some d"
    and us: "uniques d = [us]" "set us \<subseteq> set (map cname (columns d))" "set us \<inter> set sets = {}"
    and new: "not_null_ok d (new_cells d vs)" "fkeys_ok d (tabs c) (new_cells d vs)" "seq (tabs c t) < max_rowid"
    and nn: "VNull \<notin> set (map (cell (new_cells d vs)) us)"
    and fk: "\<forall>(k, p, a)\<in>set (fkeys d). \<exists>col\<in>set (columns d). cname col = k \<and> caff col = AInteger"
  shows "snd (exec (Upsert t vs us sets) c)"
    and "by_key us kv (trows (tabs (fst (exec (Upsert t vs us sets) c)) t)) =
       (if kv = map (cell (new_cells d vs)) us
        then (case by_key us kv (trows (tabs c t)) of
                None \<Rightarrow> Some (seq (tabs c t) + 1, new_cells d vs)
              | Some r \<Rightarrow> Some (fst r, set_cells d (map (\<lambda>k. (k, cell (new_cells d vs) k)) sets) (snd r)))
        else by_key us kv (trows (tabs c t)))"
    and "last_rowid (fst (exec (Upsert t vs us sets) c)) =
       (case by_key us (map (cell (new_cells d vs)) us) (trows (tabs c t)) of
          None \<Rightarrow> seq (tabs c t) + 1 | Some _ \<Rightarrow> last_rowid c)"
proof -
  have d': "d \<in> set nexus_schema" "tname d = t" using d by (auto simp: find_def_iff [OF nexus_schema_ok])
  have tok: "table_ok d (tabs c)" by (rule healthy_table [OF h(1) d'(1)])
  obtain T i where run: "sql_upsert d vs us sets (tabs c) = Some (T, i)"
    using sql_upsert_accepted [OF tok schema_columns_distinct [OF nexus_schema_ok d'(1)] us new(1,2) _ fk] new(3) d'(2)
    by auto
  have "run_stmt nexus_schema (Upsert t vs us sets) (tabs c) = Some (T, i)" using run d by simp
  then have ex: "exec (Upsert t vs us sets) c = (c\<lparr>stmts := stmts c + 1, tabs := T,
      last_rowid := (case i of None \<Rightarrow> last_rowid c | Some k \<Rightarrow> k)\<rparr>, True)"
    using h by (intro exec_runs) (simp_all add: healthy_def)
  then show "snd (exec (Upsert t vs us sets) c)" by simp
  have u: "us \<in> set (uniques d)" by (simp add: us(1))
  show "by_key us kv (trows (tabs (fst (exec (Upsert t vs us sets) c)) t)) =
       (if kv = map (cell (new_cells d vs)) us
        then (case by_key us kv (trows (tabs c t)) of
                None \<Rightarrow> Some (seq (tabs c t) + 1, new_cells d vs)
              | Some r \<Rightarrow> Some (fst r, set_cells d (map (\<lambda>k. (k, cell (new_cells d vs) k)) sets) (snd r)))
        else by_key us kv (trows (tabs c t)))"
    using sql_upsert_by_key [OF tok u us(2,3) nn run, of kv] unfolding ex d'(2) by simp
  have "find (\<lambda>r. same_key us (new_cells d vs) (snd r)) (trows (tabs c t)) = by_key us (map (cell (new_cells d vs)) us) (trows (tabs c t))"
    unfolding by_key_def same_key_iff using nn by (intro arg_cong2 [where f = find]) auto
  then have "i = (case by_key us (map (cell (new_cells d vs)) us) (trows (tabs c t)) of None \<Rightarrow> Some (seq (tabs c t) + 1) | Some _ \<Rightarrow> None)"
    using run unfolding sql_upsert_def Let_def d'(2)
    by (auto simp: sql_insert_def Let_def d'(2) split: option.splits if_splits)
  then show "last_rowid (fst (exec (Upsert t vs us sets) c)) =
       (case by_key us (map (cell (new_cells d vs)) us) (trows (tabs c t)) of
          None \<Rightarrow> seq (tabs c t) + 1 | Some _ \<Rightarrow> last_rowid c)"
    unfolding ex by (auto split: option.splits)
qed

text \<open>
  An UPDATE that writes columns outside the unique and the foreign keys, and no NULL where it is forbidden, is
  always accepted.
\<close>

lemma exec_update_plain:
  assumes h: "healthy c" "\<not> io_fails c (stmts c)" and d: "find_def nexus_schema t = Some d"
    and un: "\<And>us r. us \<in> set (uniques d) \<Longrightarrow> set us \<subseteq> set (map cname (columns d)) \<and> set us \<inter> fst ` set (f r) = {}"
    and fk: "\<And>k q a r. (k, q, a) \<in> set (fkeys d) \<Longrightarrow> k \<in> set (map cname (columns d)) \<and> k \<notin> fst ` set (f r)"
    and nn: "\<And>r k. k \<in> set (columns d) \<Longrightarrow> not_null k \<Longrightarrow> map_of (f r) (cname k) \<noteq> Some VNull"
  shows "exec (Update t p f) c = (c\<lparr>stmts := stmts c + 1,
     tabs := (tabs c)(t := (tabs c t)\<lparr>trows := updated_rows d p f (trows (tabs c t))\<rparr>)\<rparr>, True)"
proof -
  have d': "d \<in> set nexus_schema" "tname d = t" using d by (auto simp: find_def_iff [OF nexus_schema_ok])
  have tok: "table_ok d (tabs c)" by (rule healthy_table [OF h(1) d'(1)])
  have dist: "distinct (map cname (columns d))" by (rule schema_columns_distinct [OF nexus_schema_ok d'(1)])
  let ?rs = "trows (tabs c t)" and ?g = "\<lambda>r. if p r then (fst r, set_cells d (f r) (snd r)) else r"
  have row: "row_ok d (tabs c) (snd r)" if "r \<in> set ?rs" for r using table_ok_row [OF tok, of r] that d'(2) by simp
  have "not_null_ok d (set_cells d (f r) (snd r))" if r: "r \<in> set ?rs" for r
  proof -
    have "v \<noteq> VNull" if "k \<in> set (columns d)" "not_null k" "map_of (f r) (cname k) = Some v" for k v
      using nn [OF that(1,2), of r] that(3) by simp
    then show ?thesis using row [OF r]
      by (auto simp: not_null_ok_def row_ok_def list_all_iff cell_set_cells_in [OF dist] split: option.splits)
  qed
  moreover have "fkeys_ok d (tabs c) (set_cells d (f r) (snd r))" if r: "r \<in> set ?rs" for r
  proof -
    have "refers (tabs c) q (cell (set_cells d (f r) (snd r)) k)" if "(k, q, a) \<in> set (fkeys d)" for k q a
      using cell_set_cells_other [of k d "f r" "snd r"] fk [OF that, of r] row_ok_fk [OF row [OF r] that] by simp
    then show ?thesis by (auto simp: fkeys_ok_def list_all_iff)
  qed
  moreover have "pairwise_unique d (map ?g ?rs)"
  proof -
    have "cell (snd (?g r)) u = cell (snd r) u" if "us \<in> set (uniques d)" "u \<in> set us" for r us u
      using un [OF that(1), of r] that(2) cell_set_cells_other [of u d "f r" "snd r"] by auto
    then have "same_key us (snd (?g a)) (snd (?g b)) = same_key us (snd a) (snd b)" if "us \<in> set (uniques d)" for us a b
      using that by (auto simp: same_key_def list_all_iff)
    then have "pairwise_unique d (map ?g ?rs) = pairwise_unique d ?rs"
      unfolding pairwise_unique_sorted_wrt sorted_wrt_map by (intro arg_cong2 [where f = sorted_wrt] ext refl) auto
    then show ?thesis using tok d'(2) by (simp add: table_ok_def Let_def)
  qed
  ultimately have "run_stmt nexus_schema (Update t p f) (tabs c) =
      Some ((tabs c)(t := (tabs c t)\<lparr>trows := updated_rows d p f ?rs\<rparr>), None)"
    using d d'(2) by (simp add: sql_update_def Let_def list_all_iff updated_rows_def)
  then show ?thesis using h exec_runs [of c "Update t p f"] by (simp add: healthy_def)
qed

section \<open>Facts are a table\<close>

lemma fact_where_key:
  "fact_where pid ns key r \<longleftrightarrow>
     map (cell (snd r)) [''project_id'', ''namespace'', ''key''] = [VInt pid, VText (c_string ns), VText (c_string key)]"
  by (simp add: fact_where_def val_def)

lemma get_fact_by_key:
  assumes "healthy c"
  shows "get_fact pid ns key c =
     (case by_key [''project_id'', ''namespace'', ''key''] [VInt pid, VText (c_string ns), VText (c_string key)]
             (trows (tabs c ''facts'')) of
        None \<Rightarrow> None | Some r \<Rightarrow> row_get r ''value'')"
proof -
  have "select ''facts'' (fact_where pid ns key) c =
     (case by_key [''project_id'', ''namespace'', ''key''] [VInt pid, VText (c_string ns), VText (c_string key)]
             (trows (tabs c ''facts'')) of None \<Rightarrow> [] | Some r \<Rightarrow> [r])"
    unfolding fact_where_key [abs_def] using assms healthy_table [OF assms, of facts_table]
    by (intro select_by_key [where d = facts_table]) (simp_all add: healthy_def)
  then show ?thesis by (simp add: get_fact_def split: option.splits)
qed

lemma fact_cells:
  "new_cells facts_table [(''project_id'', bind_int pid), (''namespace'', bind ns), (''key'', bind key),
     (''value'', bind v), (''created_at'', bind_int now), (''updated_at'', bind_int now)] =
   [(''project_id'', VInt pid), (''namespace'', VText (c_string ns)), (''key'', VText (c_string key)),
     (''value'', VText (c_string v)), (''created_at'', VInt now), (''updated_at'', VInt now)]"
  by (simp add: new_cells_def facts_table_def column_defs)

text \<open>
  \<^bold>\<open>C3\<close> Facts behave as a table keyed by project, namespace and key (texts up to their first NUL): after
  \<open>set_fact\<close> on a registered project, \<open>get_fact\<close> returns the new value for that key and what it
  returned before for every other one.
\<close>

theorem set_fact_get_fact:
  assumes "healthy c" "\<not> io_fails c (stmts c)" "seq (tabs c ''facts'') < max_rowid"
    and "pid \<in> set (ids_of (tabs c ''projects''))"
  shows "get_fact pid' ns' key' (set_fact now pid ns key v c) =
     (if pid' = pid \<and> c_string ns' = c_string ns \<and> c_string key' = c_string key
      then Some (c_string v) else get_fact pid' ns' key' c)"
proof -
  let ?vs = "[(''project_id'', bind_int pid), (''namespace'', bind ns), (''key'', bind key),
     (''value'', bind v), (''created_at'', bind_int now), (''updated_at'', bind_int now)]"
  let ?us = "[''project_id'', ''namespace'', ''key'']" and ?sets = "[''value'', ''updated_at'']"
  let ?q = "Upsert ''facts'' ?vs ?us ?sets"
  have key: "map (cell (new_cells facts_table ?vs)) ?us = [VInt pid, VText (c_string ns), VText (c_string key)]"
    by (simp add: fact_cells cell_def)
  have nn: "not_null_ok facts_table (new_cells facts_table ?vs)" unfolding fact_cells
    by (simp add: not_null_ok_def facts_table_def column_defs cell_def)
  have fk: "fkeys_ok facts_table (tabs c) (new_cells facts_table ?vs)" unfolding fact_cells
    using assms(4) by (simp add: fkeys_ok_def refers_def cell_def)
  have cols: "set ?us \<subseteq> set (map cname (columns facts_table))"
    "\<forall>(k, p, a)\<in>set (fkeys facts_table). \<exists>col\<in>set (columns facts_table). cname col = k \<and> caff col = AInteger"
    by (simp_all add: facts_table_def column_defs)
  note up = exec_upsert(2) [OF assms(1,2) find_tables(5) table_uniques(5) cols(1) _ nn fk assms(3) _ cols(2), of ?sets, unfolded key]
  have st: "set_fact now pid ns key v c = fst (exec ?q c)" by (simp add: set_fact_def)
  have h: "healthy (fst (exec ?q c))" using assms(1) by simp
  have val: "row_get (k, new_cells facts_table ?vs) ''value'' = Some (c_string v)"
    "row_get (k, set_cells facts_table (map (\<lambda>k. (k, cell (new_cells facts_table ?vs) k)) ?sets) cs) ''value'' = Some (c_string v)"
    for k cs
    unfolding fact_cells by (simp_all add: row_get_def val_def cell_def set_cells_def facts_table_def column_defs)
  show ?thesis
    unfolding st get_fact_by_key [OF h] get_fact_by_key [OF assms(1)]
    using val by (subst up) (auto split: option.splits)
qed

lemma set_fact_unregistered:
  assumes "healthy c" "pid \<notin> set (ids_of (tabs c ''projects''))"
  shows "tabs (set_fact now pid ns key v c) = tabs c"
proof -
  let ?vs = "[(''project_id'', bind_int pid), (''namespace'', bind ns), (''key'', bind key),
     (''value'', bind v), (''created_at'', bind_int now), (''updated_at'', bind_int now)]"
  let ?us = "[''project_id'', ''namespace'', ''key'']" and ?sets = "[''value'', ''updated_at'']"
  have none: "\<not> same_key ?us (new_cells facts_table ?vs) (snd r)" if r: "r \<in> set (trows (tabs c ''facts''))" for r
  proof
    assume "same_key ?us (new_cells facts_table ?vs) (snd r)"
    then have "cell (snd r) ''project_id'' = VInt pid" by (simp add: fact_cells same_key_def cell_def [of "_ # _"])
    moreover have "row_ok facts_table (tabs c) (snd r)"
      using table_ok_row [OF healthy_table [OF assms(1), of facts_table], of r] r by simp
    ultimately show False using assms(2) row_ok_fk [of facts_table "tabs c" "snd r" "''project_id''" "''projects''" Cascade]
      by (simp add: refers_def)
  qed
  have "find (\<lambda>r. same_key ?us (new_cells facts_table ?vs) (snd r)) (trows (tabs c ''facts'')) = None"
    using none by (simp add: find_None_all)
  then have "run_stmt nexus_schema (Upsert ''facts'' ?vs ?us ?sets) (tabs c) = None"
    using assms(2) by (simp add: sql_upsert_def sql_insert_def Let_def fact_cells fkeys_ok_def refers_def cell_def)
  then show ?thesis by (simp add: set_fact_def exec_refused)
qed

section \<open>Projects are registered once\<close>

abbreviation project_rows :: "sqlite \<Rightarrow> sql_row list" where
  "project_rows c \<equiv> trows (tabs c ''projects'')"

abbreviation by_path :: "string \<Rightarrow> sqlite \<Rightarrow> sql_row option" where
  "by_path root c \<equiv> by_key [''root_path''] [VText (c_string root)] (project_rows c)"

lemma get_project_by_path_key: "healthy c \<Longrightarrow> get_project_by_path root c = map_option read_project (by_path root c)"
proof -
  assume h: "healthy c"
  have "select ''projects'' (\<lambda>r. map (cell (snd r)) [''root_path''] = [VText (c_string root)]) c =
      (case by_path root c of None \<Rightarrow> [] | Some r \<Rightarrow> [r])"
    using h healthy_table [OF h, of projects_table]
    by (intro select_by_key [where d = projects_table]) (simp_all add: healthy_def)
  moreover have "eq_text ''root_path'' root = (\<lambda>r. map (cell (snd r)) [''root_path''] = [VText (c_string root)])"
    by (auto simp: val_def)
  ultimately show ?thesis by (simp add: get_project_by_path_def first_row_def split: option.splits)
qed

lemma get_project_by_id: "healthy c \<Longrightarrow> get_project i c = map_option read_project (by_id i (project_rows c))"
proof -
  assume h: "healthy c"
  have "select ''projects'' (eq_int ''id'' i) c = (case by_id i (project_rows c) of None \<Rightarrow> [] | Some r \<Rightarrow> [r])"
    unfolding eq_int_simp [abs_def]
    using h healthy_table [OF h, of projects_table] by (intro select_by_id [where d = projects_table]) (simp_all add: healthy_def)
  then show ?thesis by (simp add: get_project_def first_row_def split: option.splits)
qed

lemma by_id_member: "healthy c \<Longrightarrow> d \<in> set nexus_schema \<Longrightarrow> r \<in> set (trows (tabs c (tname d))) \<Longrightarrow>
    by_id (fst r) (trows (tabs c (tname d))) = Some r"
  using table_ok_distinct [OF healthy_table, of c d] find_key [of fst "trows (tabs c (tname d))" r]
  by (simp add: by_id_def distinct_map)

lemma p_id_read_project:
  assumes "healthy c" "r \<in> set (project_rows c)"
  shows "p_id (read_project r) = fst r"
  using get_num_id(1) [of nexus_schema "tabs c" projects_table r] assms
  by (simp add: read_project_def healthy_def conn_ok_def)

lemma touch_project:
  assumes c'_def: "c' = fst (exec (Update ''projects'' p (\<lambda>_. [(''updated_at'', v)])) c)"
  shows "ids_of (tabs c' ''projects'') = ids_of (tabs c ''projects'')"
    "map_option fst (by_path root c') = map_option fst (by_path root c)"
proof -
  let ?f = "\<lambda>r. if p r then (fst r, set_cells projects_table [(''updated_at'', v)] (snd r)) else r"
  have "tabs c' = tabs c \<or> (project_rows c' = map ?f (project_rows c))"
    by (auto simp: c'_def exec_def db_execute_def Let_def sql_update_def updated_rows_def split: option.splits if_splits)
  moreover have "cell (snd (?f r)) ''root_path'' = cell (snd r) ''root_path''" for r
    using cell_set_cells_other [of "''root_path''" projects_table "[(''updated_at'', v)]" "snd r"]
    by (simp add: projects_table_def column_defs)
  then have "by_key [''root_path''] kv (map ?f (project_rows c)) = map_option ?f (by_key [''root_path''] kv (project_rows c))" for kv
    unfolding by_key_def by (intro find_map_same) (simp del: if_split)
  moreover have "map_option fst (map_option ?f x) = map_option fst x" for x by (cases x) simp_all
  ultimately show "ids_of (tabs c' ''projects'') = ids_of (tabs c ''projects'')"
    "map_option fst (by_path root c') = map_option fst (by_path root c)"
    by (auto simp: ids_of_def)
qed

lemma registered_project:
  assumes h: "healthy c" and r: "by_path root c = Some r"
  shows "get_project (fst r) c = Some (read_project r)" "root_path (read_project r) = c_string root"
    "p_id (read_project r) = fst r" "snd (ensure_project now root c) = fst r"
    "ids_of (tabs (fst (ensure_project now root c)) ''projects'') = ids_of (tabs c ''projects'')"
    "map_option fst (by_path root (fst (ensure_project now root c))) = Some (fst r)"
proof -
  have in_rows: "r \<in> set (project_rows c)" "cell (snd r) ''root_path'' = VText (c_string root)"
    using r by (auto simp: by_key_def dest: find_Some_in)
  then show "get_project (fst r) c = Some (read_project r)"
    using by_id_member [OF h, of projects_table r] by (simp add: get_project_by_id [OF h])
  show "root_path (read_project r) = c_string root" using in_rows(2) by (simp add: read_project_def val_def)
  show "p_id (read_project r) = fst r" by (rule p_id_read_project [OF h in_rows(1)])
  then show "snd (ensure_project now root c) = fst r"
    "ids_of (tabs (fst (ensure_project now root c)) ''projects'') = ids_of (tabs c ''projects'')"
    "map_option fst (by_path root (fst (ensure_project now root c))) = Some (fst r)"
    using r get_project_by_path_key [OF h, of root] by (simp_all add: ensure_project_def touch_project [OF refl])
qed

text \<open>
  \<open>ensure_project\<close> registers a root directory once: it returns the identifier of a project whose
  root is the given path, and asking again, at any later time, returns the same identifier and adds no
  project. (A connection that works; \<open>root\<close> counts up to its first NUL.)
\<close>

lemma ensure_project_once:
  assumes "healthy c" "\<not> io_fails c (stmts c)" "seq (tabs c ''projects'') < max_rowid"
    and "ensure_project now root c = (c', i)"
  shows "(\<exists>p. get_project i c' = Some p \<and> p_id p = i \<and> root_path p = c_string root) \<and>
     snd (ensure_project now' root c') = i \<and>
     ids_of (tabs (fst (ensure_project now' root c')) ''projects'') = ids_of (tabs c' ''projects'')"
proof -
  have "healthy c' \<and> map_option fst (by_path root c') = Some i"
  proof (cases "by_path root c")
    case (Some r)
    then show ?thesis using registered_project(4,6) [OF assms(1) Some, of now] assms(1,4)
      get_project_by_path_key [OF assms(1), of root]
      by (auto simp: ensure_project_def)
  next
    case None
    let ?vs = "[(''root_path'', bind root), (''created_at'', bind_int now), (''updated_at'', bind_int now)]"
    have cs: "new_cells projects_table ?vs = [(''root_path'', VText (c_string root)), (''name'', VNull),
        (''language'', VNull), (''detected_tools'', VNull), (''created_at'', VInt now), (''updated_at'', VInt now)]"
      by (simp add: new_cells_def projects_table_def column_defs)
    have key: "same_key [''root_path''] (new_cells projects_table ?vs) (snd r) \<longleftrightarrow> map (cell (snd r)) [''root_path''] = [VText (c_string root)]" for r
      by (auto simp: same_key_iff cs cell_def)
    have acc: "accepts projects_table ?vs c"
    proof -
      have "not_null_ok projects_table (new_cells projects_table ?vs)"
        unfolding cs by (simp add: not_null_ok_def projects_table_def column_defs cell_def)
      then show ?thesis using None assms(1-3) unfolding by_key_def find_None_all key [symmetric]
        by (simp add: accepts_def healthy_def unique_ok_def list_all_iff fkeys_ok_def)
    qed
    have ens: "(c', i) = insert_id (-1) (Insert ''projects'' ?vs) c"
      using None assms(4) get_project_by_path_key [OF assms(1), of root] by (simp add: ensure_project_def)
    have "project_rows c' = project_rows c @ [(i, new_cells projects_table ?vs)]" "healthy c'"
      using insert_id_accepted [OF acc, of "''projects''" "-1"] assms(1) ens [symmetric]
      by (simp_all add: append_row_def Let_def)
    moreover have "map (cell (new_cells projects_table ?vs)) [''root_path''] = [VText (c_string root)]"
      by (simp add: cs cell_def)
    ultimately show ?thesis using None by (simp add: by_key_def find_append_single)
  qed
  then obtain r where r: "healthy c'" "by_path root c' = Some r" "fst r = i" by auto
  from registered_project(1-3) [OF r(1,2)] registered_project(4,5) [OF r(1,2), of now']
  show ?thesis unfolding r(3) by blast
qed

section \<open>Pruning keeps the newest\<close>

lemma limit_order_desc:
  assumes "0 \<le> n"
  shows "set (limit_rows n (order_desc k rs)) \<subseteq> set rs"
    "length (limit_rows n (order_desc k rs)) = min (nat n) (length rs)"
    "r \<in> set rs \<Longrightarrow> r \<notin> set (limit_rows n (order_desc k rs)) \<Longrightarrow> r' \<in> set (limit_rows n (order_desc k rs)) \<Longrightarrow>
       val r k \<le> val r' k"
proof -
  let ?o = "order_desc k rs" and ?m = "nat n"
  have L: "limit_rows n ?o = take ?m ?o" using assms by (simp add: limit_rows_def)
  show "set (limit_rows n ?o) \<subseteq> set rs" unfolding L using set_take_subset [of ?m ?o] by simp
  show "length (limit_rows n ?o) = min ?m (length rs)" unfolding L by (simp add: min.commute)
  assume r: "r \<in> set rs" "r \<notin> set (limit_rows n ?o)" "r' \<in> set (limit_rows n ?o)"
  have "r \<in> set (take ?m ?o) \<union> set (drop ?m ?o)" using r(1) by (simp flip: set_append)
  then have "r \<in> set (drop ?m ?o)" using r(2) L by auto
  moreover have "sorted_wrt (\<lambda>a b. val b k \<le> val a k) (take ?m ?o @ drop ?m ?o)"
    using sorted_order_desc [of k rs] by simp
  ultimately show "val r k \<le> val r' k" using r(3) L unfolding sorted_wrt_append by auto
qed

lemma events_unreferenced: "unreferenced nexus_schema ''events''"
  by code_simp

lemma command_history_unreferenced: "unreferenced nexus_schema ''command_history''"
  by code_simp

lemma exec_delete_unreferenced:
  assumes "healthy c" "\<not> io_fails c (stmts c)" "d \<in> set nexus_schema" "unreferenced nexus_schema (tname d)"
  shows "tabs (fst (exec (Delete (tname d) p) c)) =
     (tabs c)(tname d := (tabs c (tname d))\<lparr>trows := filter (\<lambda>r. \<not> p r) (trows (tabs c (tname d)))\<rparr>)"
proof -
  have "find_def nexus_schema (tname d) = Some d" using assms(3) by (simp add: find_def_iff [OF nexus_schema_ok])
  then have "run_stmt nexus_schema (Delete (tname d) p) (tabs c) =
     Some ((tabs c)(tname d := (tabs c (tname d))\<lparr>trows := filter (\<lambda>r. \<not> p r) (trows (tabs c (tname d)))\<rparr>), None)"
    using sql_delete_unreferenced [OF nexus_schema_ok assms(3) _ assms(4)] assms(1)
    by (simp add: healthy_def conn_ok_def)
  then show ?thesis using assms(1,2) by (subst exec_runs) (simp_all add: healthy_def)
qed

lemma exec_replace_unreferenced:
  assumes h: "healthy c" "\<not> io_fails c (stmts c)" and d: "find_def nexus_schema t = Some d" "unreferenced nexus_schema t"
    and new: "not_null_ok d (new_cells d vs)" "fkeys_ok d (tabs c) (new_cells d vs)" "seq (tabs c t) < max_rowid"
  shows "exec (Replace t vs) c = (c\<lparr>stmts := stmts c + 1, last_rowid := seq (tabs c t) + 1,
     tabs := (tabs c)(t := \<lparr>trows = filter (\<lambda>r. \<not> collides d vs r) (trows (tabs c t)) @ [(seq (tabs c t) + 1, new_cells d vs)],
       seq = seq (tabs c t) + 1\<rparr>)\<rparr>, True)"
proof -
  have "d \<in> set nexus_schema" "tname d = t" using d(1) by (simp_all add: find_def_iff [OF nexus_schema_ok])
  then show ?thesis
    using sql_replace_unreferenced [OF nexus_schema_ok _ _ _ new(1,2)] d new(3) h
    by (subst exec_runs) (auto simp: healthy_def conn_ok_def)
qed

lemma mem_fst_iff:
  assumes "healthy c" "d \<in> set nexus_schema" "set K \<subseteq> set (trows (tabs c (tname d)))" "r \<in> set (trows (tabs c (tname d)))"
  shows "fst r \<in> set (map fst K) \<longleftrightarrow> r \<in> set K"
  using table_ok_distinct [OF healthy_table [OF assms(1,2)]] assms(3,4)
  by (subst set_map, subst inj_on_image_mem_iff) auto

lemma prune_events_effect:
  assumes "healthy c" "\<not> io_fails c (stmts c)" "0 \<le> keep"
  shows "trows (tabs (prune_events pid keep c) ''events'') =
       filter (\<lambda>r. eq_int ''project_id'' pid r \<longrightarrow> r \<in> set (recent_event_rows pid keep c)) (trows (tabs c ''events''))"
    and "length (recent_event_rows pid keep c) =
       min (nat keep) (length (filter (eq_int ''project_id'' pid) (trows (tabs c ''events''))))"
    and "\<forall>r\<in>set (trows (tabs c ''events'')). \<forall>k\<in>set (recent_event_rows pid keep c).
       eq_int ''project_id'' pid r \<and> r \<notin> set (recent_event_rows pid keep c) \<longrightarrow> val r ''created_at'' \<le> val k ''created_at''"
    and "u \<noteq> ''events'' \<Longrightarrow> tabs (prune_events pid keep c) u = tabs c u"
proof -
  let ?K = "recent_event_rows pid keep c" and ?rows = "trows (tabs c ''events'')"
  let ?sel = "select ''events'' (eq_int ''project_id'' pid) c"
  have sel: "set ?sel = {r \<in> set ?rows. eq_int ''project_id'' pid r}" using assms(1) by (simp add: set_select healthy_def)
  have K: "set ?K \<subseteq> set ?sel" using limit_order_desc(1) [OF assms(3)] by (simp add: recent_event_rows_def)
  then have mem: "fst r \<in> set (map fst ?K) \<longleftrightarrow> r \<in> set ?K" if "r \<in> set ?rows" for r
    using mem_fst_iff [OF assms(1), of events_table ?K r] that sel by auto
  have eff: "tabs (prune_events pid keep c) = (tabs c)(''events'' := (tabs c ''events'')\<lparr>trows :=
      filter (\<lambda>r. \<not> (eq_int ''project_id'' pid r \<and> fst r \<notin> set (map fst ?K))) ?rows\<rparr>)"
    using exec_delete_unreferenced [OF assms(1,2), of events_table] events_unreferenced
    by (simp add: prune_events_def Let_def)
  show "trows (tabs (prune_events pid keep c) ''events'') =
       filter (\<lambda>r. eq_int ''project_id'' pid r \<longrightarrow> r \<in> set ?K) ?rows"
    unfolding eff using mem by (simp cong: filter_cong)
  have "mset ?sel = mset (filter (eq_int ''project_id'' pid) ?rows)"
    unfolding mset_filter using assms(1) by (intro mset_select) (simp_all add: healthy_def)
  then have "length ?sel = length (filter (eq_int ''project_id'' pid) ?rows)" by (metis size_mset)
  then show "length ?K = min (nat keep) (length (filter (eq_int ''project_id'' pid) ?rows))"
    using limit_order_desc(2) [OF assms(3)] by (simp add: recent_event_rows_def)
  show "\<forall>r\<in>set ?rows. \<forall>k\<in>set ?K. eq_int ''project_id'' pid r \<and> r \<notin> set ?K \<longrightarrow> val r ''created_at'' \<le> val k ''created_at''"
    using limit_order_desc(3) [OF assms(3), of _ ?sel "''created_at''"] sel by (auto simp: recent_event_rows_def)
  show "u \<noteq> ''events'' \<Longrightarrow> tabs (prune_events pid keep c) u = tabs c u" by (simp add: eff)
qed

text \<open>
  \<open>prune_events\<close> keeps exactly the newest \<open>keep_count\<close> events of the project: as many as asked for
  (or all there are), none of them older than a removed one, and neither the events of other projects
  nor any other table change.
\<close>

lemma prune_events_keeps_newest:
  assumes "healthy c" "\<not> io_fails c (stmts c)" "0 \<le> keep"
  shows "trows (tabs (prune_events pid keep c) ''events'') =
       filter (\<lambda>r. eq_int ''project_id'' pid r \<longrightarrow> r \<in> set (recent_event_rows pid keep c)) (trows (tabs c ''events'')) \<and>
     length (recent_event_rows pid keep c) =
       min (nat keep) (length (filter (eq_int ''project_id'' pid) (trows (tabs c ''events'')))) \<and>
     (\<forall>r\<in>set (trows (tabs c ''events'')). \<forall>k\<in>set (recent_event_rows pid keep c).
       eq_int ''project_id'' pid r \<and> r \<notin> set (recent_event_rows pid keep c) \<longrightarrow> val r ''created_at'' \<le> val k ''created_at'') \<and>
     (\<forall>u. u \<noteq> ''events'' \<longrightarrow> tabs (prune_events pid keep c) u = tabs c u)"
  using prune_events_effect [OF assms] by blast

section \<open>A database to run\<close>

text \<open>An empty migrated database that answers every statement; the starting point of the witnesses.\<close>

definition fresh_db :: sqlite where
  "fresh_db = \<lparr>db_open = True, io_fails = (\<lambda>_. False), visit = (\<lambda>_ rs. rs), stmts = 0, last_rowid = 0,
     tabs = (\<lambda>_. empty_table)\<rparr>"

lemma healthy_fresh_db: "healthy fresh_db"
proof -
  have "conn_ok nexus_schema fresh_db" by code_simp
  then show ?thesis by (simp add: healthy_def visits_all_def fresh_db_def)
qed

definition demo_project :: "sqlite" where
  "demo_project = fst (ensure_project 10 ''/p'' fresh_db)"

definition demo_events :: "sqlite" where
  "demo_events = add_event 30 1 ''info'' ''c'' ''third'' [] (add_event 20 1 ''info'' ''b'' ''second'' []
     (add_event 25 1 ''info'' ''a'' ''first'' [] demo_project))"

lemma healthy_insert_id [simp]: "healthy c \<Longrightarrow> healthy (fst (insert_id e q c))"
  using healthy_exec [of c q] by (cases "exec q c") (simp add: insert_id_def)

lemma healthy_ops [simp]:
  "healthy c \<Longrightarrow> healthy (fst (ensure_project now root c))"
  "healthy c \<Longrightarrow> healthy (update_project now i p c)"
  "healthy c \<Longrightarrow> healthy (set_fact now i ns key v c)"
  "healthy c \<Longrightarrow> healthy (add_event now i lvl tg msg meta c)"
  "healthy c \<Longrightarrow> healthy (record_command now i cmd args code dur c)"
  "healthy c \<Longrightarrow> healthy (fst (add_snapshot now i hash n bytes c))"
  "healthy c \<Longrightarrow> healthy (prune_events i keep c)"
  "healthy c \<Longrightarrow> healthy (prune_commands keep c)"
  by (simp_all add: ensure_project_def update_project_def set_fact_def add_event_def record_command_def
      add_snapshot_def prune_events_def prune_commands_def Let_def split: option.splits)

lemma insert_id_io [simp]: "io_fails (fst (insert_id e q c)) = io_fails c"
  by (simp add: insert_id_def split: prod.split) (metis exec_frame(2) fst_conv)

lemma demo_project_io: "io_fails demo_project = (\<lambda>_. False)"
  by (simp add: demo_project_def ensure_project_def get_project_by_path_def select_def fresh_db_def first_row_def
      split: option.split prod.split)

lemma healthy_demo: "healthy demo_project" "healthy demo_events"
  by (simp_all add: demo_events_def demo_project_def healthy_fresh_db)

lemma demo_project_values:
  "io_fails demo_project (stmts demo_project) = False" "seq (tabs demo_project ''facts'') < max_rowid"
  "1 \<in> set (ids_of (tabs demo_project ''projects''))" "snd (ensure_project 10 ''/p'' fresh_db) = 1"
  by code_simp+

lemma demo_events_values:
  "io_fails demo_events (stmts demo_events) = False"
  "map (\<lambda>r. (fst r, eq_int ''project_id'' 1 r \<longrightarrow> r \<in> set (recent_event_rows 1 2 demo_events)))
     (trows (tabs demo_events ''events'')) = [(1, True), (2, False), (3, True)]"
  by code_simp+

theorem set_fact_get_fact_witness:
  "get_fact 1 ''detector'' ''lang'' (set_fact 20 1 ''detector'' ''lang'' ''cpp'' demo_project) = Some ''cpp''"
  using set_fact_get_fact [of demo_project 1 1 "''detector''" "''lang''" 20 "''detector''" "''lang''" "''cpp''"]
    healthy_demo(1) demo_project_values by (simp add: c_string_def)

lemma ensure_project_once_example:
  "(\<exists>p. get_project 1 demo_project = Some p \<and> root_path p = ''/p'') \<and> snd (ensure_project 99 ''/p'' demo_project) = 1"
proof -
  have "ensure_project 10 ''/p'' fresh_db = (demo_project, 1)"
    by (simp add: prod_eq_iff demo_project_def demo_project_values)
  then show ?thesis using ensure_project_once [of fresh_db 10 "''/p''" demo_project 1 99] healthy_fresh_db
    by (auto simp: fresh_db_def empty_table_def max_rowid_def c_string_def)
qed

lemma map_fst_filter: "map (\<lambda>r. (fst r, P r)) xs = ys \<Longrightarrow> map fst (filter P xs) = map fst (filter snd ys)"
  by (induction xs arbitrary: ys) auto

lemma prune_events_keeps_newest_example:
  "map fst (trows (tabs (prune_events 1 2 demo_events) ''events'')) = [1, 3]"
  using prune_events_keeps_newest [of demo_events 2 1] healthy_demo(2) demo_events_values(1)
    map_fst_filter [OF demo_events_values(2)] by simp

section \<open>The latest snapshot\<close>

lemma order_desc_first:
  assumes "r \<in> set rs" "\<And>r'. r' \<in> set rs \<Longrightarrow> r' = r \<or> val r' k < val r k"
  shows "\<exists>rs'. order_desc k rs = r # rs'"
proof (cases "order_desc k rs")
  case Nil
  then have "rs = []" by (metis length_0_conv length_order(2))
  with assms(1) show ?thesis by simp
next
  case (Cons h rs')
  have h: "h \<in> set rs" using Cons set_order(2) [of k rs] by auto
  have "\<forall>x\<in>set rs'. val x k \<le> val h k" using sorted_order_desc [of k rs] Cons by simp
  moreover have "r \<in> set (h # rs')" using assms(1) set_order(2) [of k rs] Cons by simp
  ultimately have "val r k \<le> val h k" by auto
  then have "h = r" using assms(2) [OF h] by auto
  with Cons show ?thesis by simp
qed

lemma int64_row: "val r k = VInt i \<Longrightarrow> - (2 ^ 63) \<le> i \<Longrightarrow> i < 2 ^ 63 \<Longrightarrow> get_num r k = i"
  by (rule row_get_int_VInt(2))

text \<open>
  A snapshot recorded strictly after all earlier ones of the project is the one \<open>latest_snapshot\<close>
  returns, with the hash and the counts it was recorded with.
\<close>

lemma latest_snapshot_after_add:
  assumes "healthy c" "\<not> io_fails c (stmts c)" "seq (tabs c ''snapshots'') < max_rowid"
    and "pid \<in> set (ids_of (tabs c ''projects''))"
    and "\<forall>r\<in>set (trows (tabs c ''snapshots'')). val r ''project_id'' = VInt pid \<longrightarrow> val r ''created_at'' < VInt now"
    and "- (2 ^ 63) \<le> now" "now < 2 ^ 63" "- (2 ^ 63) \<le> bytes" "bytes < 2 ^ 63" "0 \<le> n" "n < 2 ^ 31"
  shows "latest_snapshot pid (fst (add_snapshot now pid hash n bytes c)) =
     Some \<lparr>s_id = snd (add_snapshot now pid hash n bytes c), s_project_id = pid, tree_hash = c_string hash,
           file_count = n, total_bytes = bytes, s_created_at = now\<rparr>"
proof -
  let ?vs = "[(''project_id'', bind_int pid), (''tree_hash'', bind hash), (''file_count'', bind_int n),
     (''total_bytes'', bind_int bytes), (''created_at'', bind_int now)]"
  let ?c' = "fst (add_snapshot now pid hash n bytes c)" and ?i = "seq (tabs c ''snapshots'') + 1"
  have cs: "new_cells snapshots_table ?vs = [(''project_id'', VInt pid), (''tree_hash'', VText (c_string hash)),
      (''file_count'', VInt n), (''total_bytes'', VInt bytes), (''created_at'', VInt now)]"
    by (simp add: new_cells_def snapshots_table_def column_defs)
  have "not_null_ok snapshots_table (new_cells snapshots_table ?vs)"
    unfolding cs by (simp add: not_null_ok_def snapshots_table_def column_defs cell_def)
  then have acc: "accepts snapshots_table ?vs c" using assms(1-4)
    by (simp add: accepts_def healthy_def unique_ok_def fkeys_ok_def refers_def cs cell_def)
  let ?r = "(?i, new_cells snapshots_table ?vs)"
  have id: "snd (add_snapshot now pid hash n bytes c) = ?i" and
    rows: "trows (tabs ?c' ''snapshots'') = trows (tabs c ''snapshots'') @ [?r]" and h: "healthy ?c'"
    using insert_id_accepted [OF acc, of "''snapshots''" "-1"] assms(1)
    by (simp_all add: add_snapshot_def append_row_def Let_def)
  have v: "val ?r ''project_id'' = VInt pid" "val ?r ''tree_hash'' = VText (c_string hash)"
    "val ?r ''file_count'' = VInt n" "val ?r ''total_bytes'' = VInt bytes" "val ?r ''created_at'' = VInt now"
    unfolding cs by (simp_all add: val_def cell_def)
  let ?sel = "select ''snapshots'' (eq_int ''project_id'' pid) ?c'"
  have sel: "set ?sel = {r \<in> set (trows (tabs c ''snapshots'') @ [?r]). val r ''project_id'' = VInt pid}"
    using h by (simp add: set_select healthy_def rows)
  have "\<exists>rs'. order_desc ''created_at'' ?sel = ?r # rs'"
    by (rule order_desc_first) (use sel v(1,5) assms(5) in auto)
  then have "latest_snapshot pid ?c' = Some (read_snapshot ?r)"
    by (auto simp: latest_snapshot_def first_row_def limit_rows_def)
  moreover have "pid < 2 ^ 63 \<and> - (2 ^ 63) \<le> pid"
  proof -
    from assms(4) obtain r where "r \<in> set (trows (tabs c (tname projects_table)))" "fst r = pid" by (auto simp: ids_of_def)
    then show ?thesis using row_id_range [of nexus_schema "tabs c" projects_table r] assms(1)
      by (simp add: healthy_def conn_ok_def)
  qed
  moreover have "get_num ?r ''id'' = ?i"
    using get_num_id(1) [of nexus_schema "tabs ?c'" snapshots_table ?r] h by (simp add: healthy_def conn_ok_def rows)
  moreover have "to_int32 n = n" using assms(10,11) by (simp add: to_int32_def signed_take_bit_int_eq_self)
  ultimately show ?thesis unfolding id using int64_row [OF v(1)] int64_row [OF v(3)] int64_row [OF v(4)] int64_row [OF v(5)]
    v(2) assms(6-11) by (simp add: read_snapshot_def)
qed

lemma latest_snapshot_after_add_example:
  "map_option tree_hash (latest_snapshot 1 (fst (add_snapshot 50 1 ''h'' 3 100 demo_project))) = Some ''h''"
proof -
  have "trows (tabs demo_project ''snapshots'') = []" "seq (tabs demo_project ''snapshots'') < max_rowid" by code_simp+
  then show ?thesis using latest_snapshot_after_add [of demo_project 1 50 100 3 "''h''"] healthy_demo(1) demo_project_values
    by (simp add: c_string_def)
qed

text \<open>
  Timestamps have a resolution of one second and the query has no second sort key, so of two snapshots
  recorded within a second the older one may be returned.
\<close>

lemma latest_snapshot_tie:
  "map_option tree_hash (latest_snapshot 1
     (fst (add_snapshot 50 1 ''new'' 3 100 (fst (add_snapshot 50 1 ''old'' 3 100 demo_project))))) = Some ''old''"
  by code_simp

end
