(* ===== verification/Nexus_Workspace_Store.thy ===== *)
theory Nexus_Workspace_Store
  imports Nexus_Store
begin

text \<open>
  The workspace tables of \<open>Store\<close> (\<open>src/modules/nexus/src/store.cpp\<close>, \<open>Workspace Snapshots\<close> to
  \<open>Workspace Failures\<close>): one definition per operation, its statement and the string map it returns for a row. Column lists are
  those of the SELECT statements.
\<close>

section \<open>Snapshots\<close>

text \<open>A missing brain snapshot is the literal NULL of the second form of the statement.\<close>

definition add_workspace_snapshot ::
  "int \<Rightarrow> int \<Rightarrow> int \<Rightarrow> string \<Rightarrow> string \<Rightarrow> string \<Rightarrow> string \<Rightarrow> string \<Rightarrow> string \<Rightarrow> bool \<Rightarrow> string \<Rightarrow> string
    \<Rightarrow> sqlite \<Rightarrow> sqlite \<times> int" where
  "add_workspace_snapshot now pid brain_id label trigger_type build_hash deps_hash env_json sys_json clean commit branch c =
     insert_id 0 (Insert ''workspace_snapshots'' [(''project_id'', bind_int pid),
        (''brain_snapshot_id'', if 0 < brain_id then bind_int brain_id else VNull), (''label'', bind label),
        (''trigger_type'', bind trigger_type), (''timestamp'', bind_int now), (''build_dir_hash'', bind build_hash),
        (''deps_manifest_hash'', bind deps_hash), (''env_snapshot'', bind env_json), (''system_info'', bind sys_json),
        (''is_clean_build'', bind (if clean then ''1'' else ''0'')), (''git_commit'', bind commit),
        (''git_branch'', bind branch), (''created_at'', bind_int now)]) c"

definition snapshot_columns :: "out_column list" where
  "snapshot_columns = [IntCol ''id'', IntCol ''project_id'', IntCol ''brain_snapshot_id'', TextCol ''label'',
     TextCol ''trigger_type'', IntCol ''timestamp'', TextCol ''build_dir_hash'', TextCol ''deps_manifest_hash'',
     TextCol ''env_snapshot'', TextCol ''system_info'', IntCol ''restore_count'', IntCol ''is_clean_build'',
     TextCol ''git_commit'', TextCol ''git_branch'', IntCol ''created_at'', TextCol ''tags'']"

definition get_workspace_snapshot :: "int \<Rightarrow> sqlite \<Rightarrow> (string, string) std_map option" where
  "get_workspace_snapshot sid c =
     first_row (row_map snapshot_columns) (limit_rows 1 (select ''workspace_snapshots'' (eq_int ''id'' sid) c))"

definition latest_workspace_snapshot :: "int \<Rightarrow> sqlite \<Rightarrow> (string, string) std_map option" where
  "latest_workspace_snapshot pid c =
     first_row (row_map snapshot_columns)
       (limit_rows 1 (order_desc ''timestamp'' (select ''workspace_snapshots'' (eq_int ''project_id'' pid) c)))"

text \<open>The listing leaves out \<open>env_snapshot\<close> and \<open>system_info\<close>.\<close>

definition listed_columns :: "out_column list" where
  "listed_columns = [IntCol ''id'', IntCol ''project_id'', IntCol ''brain_snapshot_id'', TextCol ''label'',
     TextCol ''trigger_type'', IntCol ''timestamp'', TextCol ''build_dir_hash'', TextCol ''deps_manifest_hash'',
     IntCol ''restore_count'', IntCol ''is_clean_build'', TextCol ''git_commit'', TextCol ''git_branch'',
     IntCol ''created_at'', TextCol ''tags'']"

definition listed_snapshot_rows :: "int \<Rightarrow> int \<Rightarrow> sqlite \<Rightarrow> sql_row list" where
  "listed_snapshot_rows pid n c =
     limit_rows n (order_desc ''timestamp'' (select ''workspace_snapshots'' (eq_int ''project_id'' pid) c))"

definition list_workspace_snapshots :: "int \<Rightarrow> int \<Rightarrow> sqlite \<Rightarrow> (string, string) std_map list" where
  "list_workspace_snapshots pid n c = map (row_map listed_columns) (listed_snapshot_rows pid n c)"

text \<open>\<open>restore_count + 1\<close> of SQL: NULL stays NULL and a text counts as its leading integer.\<close>

fun sql_number :: "sql_value \<Rightarrow> int" where
  "sql_number (VInt i) = i"
| "sql_number (VText s) = (case parse_int_prefix s of None \<Rightarrow> 0 | Some i \<Rightarrow> i)"
| "sql_number VNull = 0"

definition sql_plus :: "sql_value \<Rightarrow> int \<Rightarrow> sql_value" where
  "sql_plus v i = (if v = VNull then VNull else VInt (sql_number v + i))"

definition update_workspace_snapshot_restore_count :: "int \<Rightarrow> sqlite \<Rightarrow> sqlite \<times> bool" where
  "update_workspace_snapshot_restore_count sid c =
     exec (Update ''workspace_snapshots'' (eq_int ''id'' sid)
        (\<lambda>r. [(''restore_count'', sql_plus (val r ''restore_count'') 1)])) c"

section \<open>Files\<close>

definition add_workspace_file :: "int \<Rightarrow> string \<Rightarrow> string \<Rightarrow> string \<Rightarrow> int \<Rightarrow> int \<Rightarrow> sqlite \<Rightarrow> sqlite" where
  "add_workspace_file sid path type hash fsize mtime c =
     fst (exec (Insert ''workspace_files'' [(''snapshot_id'', bind_int sid), (''file_path'', bind path),
        (''file_type'', bind type), (''file_hash'', bind hash), (''file_size'', bind_int fsize),
        (''mtime'', bind_int mtime)]) c)"

definition file_columns :: "out_column list" where
  "file_columns = [IntCol ''id'', IntCol ''snapshot_id'', TextCol ''file_path'', TextCol ''file_type'',
     TextCol ''file_hash'', IntCol ''file_size'', IntCol ''mtime'']"

definition get_workspace_files :: "int \<Rightarrow> sqlite \<Rightarrow> (string, string) std_map list" where
  "get_workspace_files sid c =
     map (row_map file_columns) (order_asc ''file_path'' (select ''workspace_files'' (eq_int ''snapshot_id'' sid) c))"

definition delete_workspace_snapshot :: "int \<Rightarrow> sqlite \<Rightarrow> sqlite \<times> bool" where
  "delete_workspace_snapshot sid c = exec (Delete ''workspace_snapshots'' (eq_int ''id'' sid)) c"

section \<open>Restores\<close>

definition begin_workspace_restore :: "int \<Rightarrow> int \<Rightarrow> int \<Rightarrow> string \<Rightarrow> string \<Rightarrow> sqlite \<Rightarrow> sqlite \<times> int" where
  "begin_workspace_restore now pid sid restore_type reason c =
     insert_id 0 (Insert ''workspace_restores'' [(''project_id'', bind_int pid), (''from_snapshot_id'', bind_int sid),
        (''restore_type'', bind restore_type), (''timestamp'', bind_int now), (''reason'', bind reason)]) c"

definition finish_workspace_restore :: "int \<Rightarrow> bool \<Rightarrow> int \<Rightarrow> int \<Rightarrow> sqlite \<Rightarrow> sqlite" where
  "finish_workspace_restore rid success files ms c =
     fst (exec (Update ''workspace_restores'' (eq_int ''id'' rid)
        (\<lambda>_. [(''success'', bind (if success then ''1'' else ''0'')), (''files_restored'', bind_int files),
              (''duration_ms'', bind_int ms)])) c)"

definition restore_columns :: "out_column list" where
  "restore_columns = [IntCol ''id'', IntCol ''project_id'', IntCol ''from_snapshot_id'', TextCol ''restore_type'',
     IntCol ''timestamp'', TextCol ''reason'', IntCol ''success'', IntCol ''files_restored'', IntCol ''duration_ms'']"

definition list_workspace_restores :: "int \<Rightarrow> int \<Rightarrow> sqlite \<Rightarrow> (string, string) std_map list" where
  "list_workspace_restores pid n c = map (row_map restore_columns)
     (limit_rows n (order_desc ''timestamp'' (select ''workspace_restores'' (eq_int ''project_id'' pid) c)))"

section \<open>Tags\<close>

definition tag_workspace_snapshot :: "int \<Rightarrow> int \<Rightarrow> int \<Rightarrow> string \<Rightarrow> string \<Rightarrow> sqlite \<Rightarrow> sqlite \<times> bool" where
  "tag_workspace_snapshot now pid sid tag_name description c =
     exec (Upsert ''workspace_tags'' [(''project_id'', bind_int pid), (''snapshot_id'', bind_int sid),
          (''tag_name'', bind tag_name), (''description'', bind description), (''created_at'', bind_int now)]
        [''project_id'', ''tag_name''] [''snapshot_id'', ''description'']) c"

definition tag_where :: "int \<Rightarrow> string \<Rightarrow> sql_row \<Rightarrow> bool" where
  "tag_where pid tag_name r \<longleftrightarrow> eq_int ''project_id'' pid r \<and> eq_text ''tag_name'' tag_name r"

definition get_snapshot_id_by_tag :: "int \<Rightarrow> string \<Rightarrow> sqlite \<Rightarrow> int option" where
  "get_snapshot_id_by_tag pid tag_name c =
     (case limit_rows 1 (select ''workspace_tags'' (tag_where pid tag_name) c) of
        [] \<Rightarrow> None | r # _ \<Rightarrow> row_get_int r ''snapshot_id'')"

definition untag_workspace_snapshot :: "int \<Rightarrow> string \<Rightarrow> sqlite \<Rightarrow> sqlite \<times> bool" where
  "untag_workspace_snapshot pid tag_name c = exec (Delete ''workspace_tags'' (tag_where pid tag_name)) c"

definition tag_columns :: "out_column list" where
  "tag_columns = [IntCol ''id'', IntCol ''project_id'', IntCol ''snapshot_id'', TextCol ''tag_name'',
     TextCol ''description'', IntCol ''created_at'']"

definition list_workspace_tags :: "int \<Rightarrow> sqlite \<Rightarrow> (string, string) std_map list" where
  "list_workspace_tags pid c = map (row_map tag_columns)
     (order_asc ''tag_name'' (select ''workspace_tags'' (eq_int ''project_id'' pid) c))"

section \<open>Failures\<close>

text \<open>Missing snapshots are bound as the empty text, not as NULL.\<close>

definition id_or_empty :: "int \<Rightarrow> sql_value" where
  "id_or_empty i = bind (if 0 < i then to_string i else [])"

definition record_workspace_failure ::
  "int \<Rightarrow> int \<Rightarrow> string \<Rightarrow> string \<Rightarrow> string \<Rightarrow> int \<Rightarrow> int \<Rightarrow> string \<Rightarrow> string \<Rightarrow> sqlite \<Rightarrow> sqlite" where
  "record_workspace_failure now pid ftype sig msg before after files deps c =
     fst (exec (Insert ''workspace_failures'' [(''project_id'', bind_int pid), (''failure_type'', bind ftype),
        (''error_signature'', bind sig), (''error_message'', bind msg), (''before_snapshot_id'', id_or_empty before),
        (''after_snapshot_id'', id_or_empty after), (''changed_files'', bind files), (''changed_deps'', bind deps),
        (''timestamp'', bind_int now)]) c)"

definition similar_failure_columns :: "out_column list" where
  "similar_failure_columns = [IntCol ''id'', IntCol ''project_id'', TextCol ''failure_type'', TextCol ''error_signature'',
     TextCol ''error_message'', IntCol ''before_snapshot_id'', IntCol ''after_snapshot_id'', TextCol ''changed_files'',
     TextCol ''changed_deps'', IntCol ''resolved'', TextCol ''resolution_type'', TextCol ''resolution_notes'',
     IntCol ''timestamp'']"

definition find_similar_failures :: "int \<Rightarrow> string \<Rightarrow> int \<Rightarrow> sqlite \<Rightarrow> (string, string) std_map list" where
  "find_similar_failures pid sig n c = map (row_map similar_failure_columns)
     (limit_rows n (order_desc ''timestamp'' (select ''workspace_failures''
        (\<lambda>r. eq_int ''project_id'' pid r \<and> eq_text ''error_signature'' sig r) c)))"

section \<open>Deleting a snapshot\<close>

lemma no_action_parents:
  assumes "d \<in> set nexus_schema" "(k, q, No_Action) \<in> set (fkeys d)"
  shows "q = ''projects'' \<or> q = ''git_servers''"
proof -
  have "list_all (\<lambda>d. list_all (\<lambda>(k, q, a). a \<noteq> No_Action \<or> q = ''projects'' \<or> q = ''git_servers'') (fkeys d)) nexus_schema"
    by code_simp
  then show ?thesis using assms by (fastforce simp: list_all_iff)
qed

lemma dead_map_root:
  assumes "d \<in> set nexus_schema" "fkeys d = []" "tname d \<noteq> t"
  shows "dead_map nexus_schema t p T (tname d) = []"
  using dead_map_closed [OF nexus_schema_ok assms(1), of t p T] assms(2,3) by (simp add: dead_ids_def doomed_def)

lemma delete_snapshot_accepted:
  assumes "healthy c"
  shows "\<exists>T. sql_delete nexus_schema ''workspace_snapshots'' p (tabs c) = Some T"
proof -
  let ?D = "dead_map nexus_schema ''workspace_snapshots'' p (tabs c)"
  have roots: "?D ''projects'' = []" "?D ''git_servers'' = []"
    using dead_map_root [of projects_table "''workspace_snapshots''" p "tabs c"]
      dead_map_root [of git_servers_table "''workspace_snapshots''" p "tabs c"] by simp_all
  have "\<not> hits ?D q v" if "d \<in> set nexus_schema" "(k, q, No_Action) \<in> set (fkeys d)" for d k q v
    using no_action_parents [OF that] roots by (auto simp: hits_def split: sql_value.splits)
  then have "\<not> blocks d ?D cs" if "d \<in> set nexus_schema" for d cs
    using that unfolding blocks_def list_ex_iff by fastforce
  then show ?thesis by (auto simp: sql_delete_def Let_def list_ex_iff)
qed

lemma deleted_rows:
  assumes h: "healthy c" and run: "sql_delete nexus_schema t p (tabs c) = Some T" and d: "d \<in> set nexus_schema"
    and no: "\<forall>(k, q, a)\<in>set (fkeys d). a \<noteq> Set_Null"
  shows "trows (T (tname d)) =
     filter (\<lambda>r. \<not> ((tname d = t \<and> p r) \<or> doomed d (dead_map nexus_schema t p (tabs c)) (snd r))) (trows (tabs c (tname d)))"
proof -
  have ok: "db_ok nexus_schema (tabs c)" using h by (simp add: healthy_def conn_ok_def)
  let ?D = "dead_map nexus_schema t p (tabs c)"
  have "map (\<lambda>r. (fst r, cleared d ?D (snd r))) (surviving d ?D (tabs c)) = surviving d ?D (tabs c)"
    by (rule map_idI) (use cleared_no_set_null [OF nexus_schema_ok d ok no] in \<open>auto simp: surviving_def\<close>)
  then show ?thesis
    using sql_delete_rows [OF nexus_schema_ok d run] surviving_filter [OF nexus_schema_ok d ok, of t p] by simp
qed

lemma hits_empty: "D q = [] \<Longrightarrow> \<not> hits D q v"
  by (simp add: hits_def split: sql_value.splits)

lemma delete_snapshot_effect:
  assumes "healthy c" "\<not> io_fails c (stmts c)" "delete_workspace_snapshot sid c = (c', b)"
  shows "b \<and> map fst (trows (tabs c' ''workspace_snapshots'')) = filter (\<lambda>i. i \<noteq> sid) (map fst (trows (tabs c ''workspace_snapshots''))) \<and>
     trows (tabs c' ''workspace_files'') = filter (\<lambda>r. val r ''snapshot_id'' \<noteq> VInt sid) (trows (tabs c ''workspace_files'')) \<and>
     trows (tabs c' ''workspace_tags'') = filter (\<lambda>r. val r ''snapshot_id'' \<noteq> VInt sid) (trows (tabs c ''workspace_tags'')) \<and>
     trows (tabs c' ''workspace_restores'') =
       filter (\<lambda>r. val r ''from_snapshot_id'' \<noteq> VInt sid) (trows (tabs c ''workspace_restores'')) \<and>
     trows (tabs c' ''projects'') = trows (tabs c ''projects'') \<and> trows (tabs c' ''facts'') = trows (tabs c ''facts'')"
proof -
  let ?t = "''workspace_snapshots''" and ?p = "eq_int ''id'' sid"
  let ?D = "dead_map nexus_schema ?t ?p (tabs c)"
  obtain T where run: "sql_delete nexus_schema ?t ?p (tabs c) = Some T" using delete_snapshot_accepted [OF assms(1)] by blast
  then have "exec (Delete ?t ?p) c = (c\<lparr>stmts := stmts c + 1, tabs := T, last_rowid := last_rowid c\<rparr>, True)"
    using assms(1,2) exec_runs [of c "Delete ?t ?p" T None] by (simp add: healthy_def)
  then have b: b and T: "tabs c' = T" using assms(3) by (auto simp: delete_workspace_snapshot_def)
  have ok: "db_ok nexus_schema (tabs c)" using assms(1) by (simp add: healthy_def conn_ok_def)
  have root: "?D ''projects'' = []" using dead_map_root [of projects_table ?t ?p "tabs c"] by simp
  note rows = deleted_rows [OF assms(1) run]
  have ws: "surviving workspace_snapshots_table ?D (tabs c) = filter (\<lambda>r. fst r \<noteq> sid) (trows (tabs c ?t))"
    using surviving_filter [OF nexus_schema_ok _ ok, of workspace_snapshots_table ?t ?p] root
    by (simp add: doomed_def hits_empty val_def)
  have "ids_of (T ?t) = map fst (surviving workspace_snapshots_table ?D (tabs c))"
    using sql_delete_rows [OF nexus_schema_ok _ run, of workspace_snapshots_table] by (simp add: ids_of_def comp_def)
  then have snaps: "map fst (trows (T ?t)) = filter (\<lambda>i. i \<noteq> sid) (map fst (trows (tabs c ?t)))"
    by (simp add: ids_of_def ws filter_map comp_def)
  have Dt: "i \<in> set (?D ?t) \<longleftrightarrow> i = sid" if "i \<in> set (ids_of (tabs c ?t))" for i
  proof -
    have "i \<in> set (?D ?t) \<longleftrightarrow> i \<notin> set (map fst (surviving workspace_snapshots_table ?D (tabs c)))"
      using that table_ok_distinct [OF db_ok_table [OF ok, of workspace_snapshots_table]]
      by (auto simp: surviving_def ids_of_def)
    then show ?thesis using that by (auto simp: ws ids_of_def)
  qed
  have child: "trows (T (tname d)) = filter (\<lambda>r. val r k \<noteq> VInt sid) (trows (tabs c (tname d)))"
    if d: "d \<in> set nexus_schema" "tname d \<noteq> ?t" "k \<noteq> ''id''" and hit: "\<And>cs. doomed d ?D cs \<longleftrightarrow> hits ?D ?t (cell cs k)"
      and fk: "(k, ?t, Cascade) \<in> set (fkeys d)" and no: "\<forall>(k, q, a)\<in>set (fkeys d). a \<noteq> Set_Null" for d k
  proof -
    have "hits ?D ?t (cell (snd r) k) \<longleftrightarrow> val r k = VInt sid" if "r \<in> set (trows (tabs c (tname d)))" for r
    proof -
      have "refers (tabs c) ?t (cell (snd r) k)"
        by (rule row_ok_fk [OF table_ok_row [OF db_ok_table [OF ok d(1)] that] fk])
      then show ?thesis using Dt d(3) by (auto simp: hits_def refers_def val_def split: sql_value.splits)
    qed
    then show ?thesis using rows [OF d(1) no] d(2) hit by (simp cong: filter_cong)
  qed
  have files: "trows (T ''workspace_files'') = filter (\<lambda>r. val r ''snapshot_id'' \<noteq> VInt sid) (trows (tabs c ''workspace_files''))"
    using child [of workspace_files_table "''snapshot_id''"] by (simp add: doomed_def)
  have tags: "trows (T ''workspace_tags'') = filter (\<lambda>r. val r ''snapshot_id'' \<noteq> VInt sid) (trows (tabs c ''workspace_tags''))"
    using child [of workspace_tags_table "''snapshot_id''"] by (simp add: doomed_def hits_empty root)
  have restores: "trows (T ''workspace_restores'') =
      filter (\<lambda>r. val r ''from_snapshot_id'' \<noteq> VInt sid) (trows (tabs c ''workspace_restores''))"
    using child [of workspace_restores_table "''from_snapshot_id''"] by (simp add: doomed_def hits_empty root)
  have keep: "trows (T ''projects'') = trows (tabs c ''projects'')" "trows (T ''facts'') = trows (tabs c ''facts'')"
    using rows [of projects_table] rows [of facts_table] by (simp_all add: doomed_def hits_empty root)
  show ?thesis unfolding T using b snaps files tags restores keep by simp
qed

text \<open>
  Deleting a workspace snapshot removes exactly that snapshot, its file records, its tags and its
  restore records; the records of every other snapshot, the projects and the facts stay.
\<close>

lemma delete_workspace_snapshot_cascades:
  assumes "healthy c" "\<not> io_fails c (stmts c)" "delete_workspace_snapshot sid c = (c', b)"
  shows "b \<and> map fst (trows (tabs c' ''workspace_snapshots'')) = filter (\<lambda>i. i \<noteq> sid) (map fst (trows (tabs c ''workspace_snapshots''))) \<and>
     trows (tabs c' ''workspace_files'') = filter (\<lambda>r. val r ''snapshot_id'' \<noteq> VInt sid) (trows (tabs c ''workspace_files'')) \<and>
     trows (tabs c' ''workspace_tags'') = filter (\<lambda>r. val r ''snapshot_id'' \<noteq> VInt sid) (trows (tabs c ''workspace_tags'')) \<and>
     trows (tabs c' ''workspace_restores'') =
       filter (\<lambda>r. val r ''from_snapshot_id'' \<noteq> VInt sid) (trows (tabs c ''workspace_restores'')) \<and>
     trows (tabs c' ''projects'') = trows (tabs c ''projects'') \<and> trows (tabs c' ''facts'') = trows (tabs c ''facts'')"
  by (rule delete_snapshot_effect [OF assms])

section \<open>Tags\<close>

lemma get_tag_by_key:
  assumes "healthy c"
  shows "get_snapshot_id_by_tag pid name c =
     (case by_key [''project_id'', ''tag_name''] [VInt pid, VText (c_string name)] (trows (tabs c ''workspace_tags'')) of
        None \<Rightarrow> None | Some r \<Rightarrow> row_get_int r ''snapshot_id'')"
proof -
  have w: "tag_where pid name = (\<lambda>r. map (cell (snd r)) [''project_id'', ''tag_name''] = [VInt pid, VText (c_string name)])"
    by (auto simp: tag_where_def val_def fun_eq_iff)
  have "select ''workspace_tags'' (tag_where pid name) c =
     (case by_key [''project_id'', ''tag_name''] [VInt pid, VText (c_string name)] (trows (tabs c ''workspace_tags'')) of
        None \<Rightarrow> [] | Some r \<Rightarrow> [r])"
    unfolding w using assms healthy_table [OF assms, of workspace_tags_table]
    by (intro select_by_key [where d = workspace_tags_table]) (simp_all add: healthy_def)
  then show ?thesis by (simp add: get_snapshot_id_by_tag_def limit_rows_def split: option.splits)
qed

text \<open>
  A tag names one snapshot per project: after \<open>tag_workspace_snapshot\<close> the tag resolves to the
  given snapshot, also when it named another one before, and every other tag resolves as before.
\<close>

lemma tag_then_resolve:
  assumes "healthy c" "\<not> io_fails c (stmts c)" "seq (tabs c ''workspace_tags'') < max_rowid"
    and "pid \<in> set (ids_of (tabs c ''projects''))" "sid \<in> set (ids_of (tabs c ''workspace_snapshots''))"
  shows "get_snapshot_id_by_tag pid' name' (fst (tag_workspace_snapshot now pid sid name descr c)) =
     (if pid' = pid \<and> c_string name' = c_string name then Some sid else get_snapshot_id_by_tag pid' name' c)"
proof -
  let ?vs = "[(''project_id'', bind_int pid), (''snapshot_id'', bind_int sid), (''tag_name'', bind name),
     (''description'', bind descr), (''created_at'', bind_int now)]"
  let ?us = "[''project_id'', ''tag_name'']" and ?sets = "[''snapshot_id'', ''description'']"
  let ?q = "Upsert ''workspace_tags'' ?vs ?us ?sets"
  have cs: "new_cells workspace_tags_table ?vs = [(''project_id'', VInt pid), (''snapshot_id'', VInt sid),
      (''tag_name'', VText (c_string name)), (''description'', VText (c_string descr)), (''created_at'', VInt now)]"
    by (simp add: new_cells_def workspace_tags_table_def column_defs)
  have key: "map (cell (new_cells workspace_tags_table ?vs)) ?us = [VInt pid, VText (c_string name)]"
    unfolding cs by (simp add: cell_def)
  have nn: "not_null_ok workspace_tags_table (new_cells workspace_tags_table ?vs)"
    unfolding cs by (simp add: not_null_ok_def workspace_tags_table_def column_defs cell_def)
  have fk: "fkeys_ok workspace_tags_table (tabs c) (new_cells workspace_tags_table ?vs)"
    unfolding cs using assms(4,5) by (simp add: fkeys_ok_def refers_def cell_def)
  have cols: "set ?us \<subseteq> set (map cname (columns workspace_tags_table))"
    "\<forall>(k, p, a)\<in>set (fkeys workspace_tags_table). \<exists>col\<in>set (columns workspace_tags_table). cname col = k \<and> caff col = AInteger"
    by (simp_all add: workspace_tags_table_def column_defs)
  note up = exec_upsert(2) [OF assms(1,2) find_tables(17) table_uniques(17) cols(1) _ nn fk assms(3) _ cols(2), of ?sets, unfolded key]
  have st: "fst (tag_workspace_snapshot now pid sid name descr c) = fst (exec ?q c)" by (simp add: tag_workspace_snapshot_def)
  have h: "healthy (fst (exec ?q c))" using assms(1) by simp
  have range: "- (2 ^ 63) \<le> sid" "sid < 2 ^ 63"
    using assms(1,5) row_id_range [of nexus_schema "tabs c" workspace_snapshots_table]
    by (fastforce simp: healthy_def conn_ok_def ids_of_def)+
  have val: "val (k, new_cells workspace_tags_table ?vs) ''snapshot_id'' = VInt sid"
    "val (k, set_cells workspace_tags_table (map (\<lambda>k. (k, cell (new_cells workspace_tags_table ?vs) k)) ?sets) cs) ''snapshot_id''
       = VInt sid" for k cs
    unfolding cs by (simp_all add: val_def cell_def set_cells_def workspace_tags_table_def column_defs)
  show ?thesis
    unfolding st get_tag_by_key [OF h] get_tag_by_key [OF assms(1)]
    using val [THEN row_get_int_VInt(1), OF range] by (subst up) (auto split: option.splits)
qed

section \<open>Witnesses\<close>

definition demo_ws :: sqlite where
  "demo_ws =
     (let c1 = fst (add_workspace_snapshot 20 1 (-1) ''first'' ''manual'' [] [] ''{}'' ''{}'' False [] [] demo_project);
          c2 = fst (add_workspace_snapshot 30 1 (-1) ''second'' ''manual'' [] [] ''{}'' ''{}'' False [] [] c1);
          c3 = add_workspace_file 1 ''a.cpp'' ''source'' ''61'' 1 5 c2
      in add_workspace_file 2 ''b.cpp'' ''source'' ''62'' 1 6 c3)"

lemma healthy_ws_ops [simp]:
  "healthy c \<Longrightarrow> healthy (fst (add_workspace_snapshot now pid b label tt bh dh ej sj cl gc gb c))"
  "healthy c \<Longrightarrow> healthy (fst (update_workspace_snapshot_restore_count sid c))"
  "healthy c \<Longrightarrow> healthy (add_workspace_file sid path type hash fsize mtime c)"
  "healthy c \<Longrightarrow> healthy (fst (delete_workspace_snapshot sid c))"
  "healthy c \<Longrightarrow> healthy (fst (begin_workspace_restore now pid sid rt reason c))"
  "healthy c \<Longrightarrow> healthy (finish_workspace_restore rid success files ms c)"
  "healthy c \<Longrightarrow> healthy (fst (tag_workspace_snapshot now pid sid name descr c))"
  "healthy c \<Longrightarrow> healthy (fst (untag_workspace_snapshot pid name c))"
  "healthy c \<Longrightarrow> healthy (record_workspace_failure now pid ftype sig msg before after files' deps c)"
  by (simp_all add: add_workspace_snapshot_def update_workspace_snapshot_restore_count_def add_workspace_file_def
      delete_workspace_snapshot_def begin_workspace_restore_def finish_workspace_restore_def tag_workspace_snapshot_def
      untag_workspace_snapshot_def record_workspace_failure_def)

lemma healthy_demo_ws: "healthy demo_ws"
  by (simp add: demo_ws_def Let_def healthy_demo)

lemma demo_ws_io: "io_fails demo_ws = (\<lambda>_. False)"
  by (simp add: demo_ws_def Let_def add_workspace_snapshot_def add_workspace_file_def demo_project_io)

lemma demo_ws_values:
  "io_fails demo_ws (stmts demo_ws) = False" "seq (tabs demo_ws ''workspace_tags'') < max_rowid"
  "1 \<in> set (ids_of (tabs demo_ws ''projects''))" "2 \<in> set (ids_of (tabs demo_ws ''workspace_snapshots''))"
  "map fst (filter (\<lambda>r. val r ''snapshot_id'' \<noteq> VInt 1) (trows (tabs demo_ws ''workspace_files''))) = [2]"
  by code_simp+

lemma delete_workspace_snapshot_cascades_example:
  "map fst (trows (tabs (fst (delete_workspace_snapshot 1 demo_ws)) ''workspace_files'')) = [2]"
  using delete_workspace_snapshot_cascades [of demo_ws 1 "fst (delete_workspace_snapshot 1 demo_ws)" "snd (delete_workspace_snapshot 1 demo_ws)"]
    healthy_demo_ws demo_ws_values(1,5) by simp

lemma tag_then_resolve_example:
  "get_snapshot_id_by_tag 1 ''release'' (fst (tag_workspace_snapshot 40 1 2 ''release'' [] demo_ws)) = Some 2"
  using tag_then_resolve [of demo_ws 1 2 1 "''release''" 40 "''release''" "[]"] healthy_demo_ws demo_ws_values by simp

end
