(* ===== verification/Nexus_Brain_Store.thy ===== *)
theory Nexus_Brain_Store
  imports Nexus_Workspace_Store
begin

text \<open>
  The failure, pattern and recovery records of \<open>Store\<close> (\<open>src/modules/nexus/src/store.cpp\<close>, sections
  \<open>Brain Failure Learning\<close> to \<open>Recovery History\<close>). Optional references are bound by \<open>id_or_empty\<close>: the
  empty text where an identifier is missing. The column \<open>confidence_score\<close> (REAL) and the queries
  ordered by it are outside the model.
\<close>

section \<open>Failures\<close>

definition failure_values ::
  "int \<Rightarrow> int \<Rightarrow> string \<Rightarrow> string \<Rightarrow> string \<Rightarrow> string \<Rightarrow> string \<Rightarrow> int \<Rightarrow> int \<Rightarrow> int \<Rightarrow> string \<Rightarrow> string
    \<Rightarrow> string \<Rightarrow> string \<Rightarrow> string \<Rightarrow> string \<Rightarrow> cells" where
  "failure_values now pid ftype sig msg loc cmd code before after files deps env system severity tags =
     [(''project_id'', bind_int pid), (''failure_type'', bind ftype), (''error_signature'', bind sig),
      (''error_message'', bind msg), (''error_location'', bind loc), (''command_executed'', bind cmd),
      (''exit_code'', bind_int code), (''before_snapshot_id'', id_or_empty before),
      (''after_snapshot_id'', id_or_empty after), (''changed_files'', bind files), (''changed_deps'', bind deps),
      (''changed_env'', bind env), (''changed_system'', bind system), (''severity'', bind severity),
      (''tags_json'', bind tags), (''timestamp'', bind_int now)]"

definition record_failure_with_context ::
  "int \<Rightarrow> int \<Rightarrow> string \<Rightarrow> string \<Rightarrow> string \<Rightarrow> string \<Rightarrow> string \<Rightarrow> int \<Rightarrow> int \<Rightarrow> int \<Rightarrow> string \<Rightarrow> string
    \<Rightarrow> string \<Rightarrow> string \<Rightarrow> string \<Rightarrow> string \<Rightarrow> sqlite \<Rightarrow> sqlite \<times> int" where
  "record_failure_with_context now pid ftype sig msg loc cmd code before after files deps env system severity tags c =
     insert_id 0 (Insert ''workspace_failures''
       (failure_values now pid ftype sig msg loc cmd code before after files deps env system severity tags)) c"

definition failure_columns :: "out_column list" where
  "failure_columns = [IntCol ''id'', IntCol ''project_id'', TextCol ''failure_type'', TextCol ''error_signature'',
     TextCol ''error_message'', TextCol ''error_location'', TextCol ''command_executed'', IntCol ''exit_code'',
     IntCol ''before_snapshot_id'', IntCol ''after_snapshot_id'', TextCol ''changed_files'', TextCol ''changed_deps'',
     TextCol ''changed_env'', TextCol ''changed_system'', IntCol ''resolved'', IntCol ''resolved_at'',
     TextCol ''resolution_type'', IntCol ''resolution_snapshot_id'', TextCol ''resolution_notes'',
     IntCol ''resolution_success'', TextOr ''severity'' ''medium'', TextOr ''tags_json'' ''[]'', IntCol ''timestamp'']"

definition get_failure :: "int \<Rightarrow> sqlite \<Rightarrow> (string, string) std_map option" where
  "get_failure fid c = first_row (row_map failure_columns) (select ''workspace_failures'' (eq_int ''id'' fid) c)"

definition listed_failure_columns :: "out_column list" where
  "listed_failure_columns = [IntCol ''id'', IntCol ''project_id'', TextCol ''failure_type'', TextCol ''error_signature'',
     TextCol ''error_message'', TextCol ''error_location'', TextCol ''command_executed'', IntCol ''exit_code'',
     IntCol ''before_snapshot_id'', IntCol ''after_snapshot_id'', IntCol ''resolved'', TextCol ''resolution_type'',
     TextOr ''severity'' ''medium'', IntCol ''timestamp'']"

definition list_failures :: "int \<Rightarrow> int \<Rightarrow> sqlite \<Rightarrow> (string, string) std_map list" where
  "list_failures pid n c = map (row_map listed_failure_columns)
     (limit_rows n (order_desc ''timestamp'' (select ''workspace_failures'' (eq_int ''project_id'' pid) c)))"

definition unresolved_columns :: "out_column list" where
  "unresolved_columns = [IntCol ''id'', IntCol ''project_id'', TextCol ''failure_type'', TextCol ''error_signature'',
     TextCol ''error_message'', TextCol ''error_location'', TextCol ''command_executed'', IntCol ''exit_code'',
     IntCol ''before_snapshot_id'', IntCol ''after_snapshot_id'', TextOr ''severity'' ''medium'', IntCol ''timestamp'']"

definition unresolved_rows :: "int \<Rightarrow> sqlite \<Rightarrow> sql_row list" where
  "unresolved_rows pid c =
     select ''workspace_failures'' (\<lambda>r. eq_int ''project_id'' pid r \<and> val r ''resolved'' = VInt 0) c"

definition list_unresolved_failures :: "int \<Rightarrow> int \<Rightarrow> sqlite \<Rightarrow> (string, string) std_map list" where
  "list_unresolved_failures pid n c =
     map (row_map unresolved_columns) (limit_rows n (order_desc ''timestamp'' (unresolved_rows pid c)))"

definition update_failure_resolution :: "int \<Rightarrow> int \<Rightarrow> string \<Rightarrow> int \<Rightarrow> string \<Rightarrow> bool \<Rightarrow> sqlite \<Rightarrow> sqlite \<times> bool" where
  "update_failure_resolution now fid rtype rsid notes success c =
     exec (Update ''workspace_failures'' (eq_int ''id'' fid)
       (\<lambda>_. [(''resolved'', VInt 1), (''resolved_at'', bind_int now), (''resolution_type'', bind rtype),
             (''resolution_snapshot_id'', id_or_empty rsid), (''resolution_notes'', bind notes),
             (''resolution_success'', bind (if success then ''1'' else ''0''))])) c"

section \<open>Patterns\<close>

definition record_pattern :: "int \<Rightarrow> int \<Rightarrow> string \<Rightarrow> string \<Rightarrow> string \<Rightarrow> string \<Rightarrow> string \<Rightarrow> sqlite \<Rightarrow> sqlite \<times> int" where
  "record_pattern now pid sig name ftype regex conditions c =
     insert_id 0 (Insert ''brain_failure_patterns'' [(''project_id'', bind_int pid), (''pattern_signature'', bind sig),
        (''pattern_name'', bind name), (''failure_type'', bind ftype), (''error_regex'', bind regex),
        (''trigger_conditions_json'', bind conditions), (''occurrence_count'', VInt 1), (''first_seen'', bind_int now),
        (''last_seen'', bind_int now)]) c"

definition pattern_columns :: "out_column list" where
  "pattern_columns = [IntCol ''id'', IntCol ''project_id'', TextCol ''pattern_signature'', TextCol ''pattern_name'',
     TextCol ''failure_type'', TextCol ''error_regex'', TextCol ''trigger_conditions_json'', IntCol ''occurrence_count'',
     IntCol ''first_seen'', IntCol ''last_seen'', TextCol ''failure_ids_json'', TextCol ''resolution_strategies_json'']"

definition get_pattern_by_signature :: "int \<Rightarrow> string \<Rightarrow> sqlite \<Rightarrow> (string, string) std_map option" where
  "get_pattern_by_signature pid sig c = first_row (row_map pattern_columns)
     (select ''brain_failure_patterns'' (\<lambda>r. eq_int ''project_id'' pid r \<and> eq_text ''pattern_signature'' sig r) c)"

definition get_pattern :: "int \<Rightarrow> sqlite \<Rightarrow> (string, string) std_map option" where
  "get_pattern i c = first_row (row_map pattern_columns) (select ''brain_failure_patterns'' (eq_int ''id'' i) c)"

definition listed_pattern_columns :: "out_column list" where
  "listed_pattern_columns = [IntCol ''id'', IntCol ''project_id'', TextCol ''pattern_signature'', TextCol ''pattern_name'',
     TextCol ''failure_type'', IntCol ''occurrence_count'', IntCol ''first_seen'', IntCol ''last_seen'']"

definition list_patterns :: "int \<Rightarrow> int \<Rightarrow> sqlite \<Rightarrow> (string, string) std_map list" where
  "list_patterns pid n c = map (row_map listed_pattern_columns)
     (limit_rows n (order_desc ''occurrence_count'' (select ''brain_failure_patterns'' (eq_int ''project_id'' pid) c)))"

definition update_pattern_statistics :: "int \<Rightarrow> int \<Rightarrow> int \<Rightarrow> sqlite \<Rightarrow> sqlite \<times> bool" where
  "update_pattern_statistics now i delta c =
     exec (Update ''brain_failure_patterns'' (eq_int ''id'' i)
       (\<lambda>r. [(''occurrence_count'', sql_plus (val r ''occurrence_count'') delta), (''last_seen'', bind_int now)])) c"

definition link_failure_to_pattern :: "int \<Rightarrow> int \<Rightarrow> int \<Rightarrow> sqlite \<Rightarrow> sqlite \<times> bool" where
  "link_failure_to_pattern now fid i c = update_pattern_statistics now i 0 c"

section \<open>Recovery actions and their history\<close>

definition add_recovery_action :: "int \<Rightarrow> int \<Rightarrow> int \<Rightarrow> string \<Rightarrow> string \<Rightarrow> string \<Rightarrow> bool \<Rightarrow> sqlite \<Rightarrow> sqlite \<times> int" where
  "add_recovery_action now pattern_id failure_id atype params descr confirm c =
     insert_id 0 (Insert ''brain_recovery_actions'' [(''pattern_id'', id_or_empty pattern_id),
        (''failure_id'', id_or_empty failure_id), (''action_type'', bind atype), (''action_params_json'', bind params),
        (''action_description'', bind descr), (''requires_user_confirmation'', bind (if confirm then ''1'' else ''0'')),
        (''created_at'', bind_int now)]) c"

text \<open>\<open>(avg * attempted + ?) / (attempted + 1)\<close> of SQL: NULL when the average is NULL, integer division otherwise.\<close>

definition sql_average :: "sql_value \<Rightarrow> sql_value \<Rightarrow> int \<Rightarrow> sql_value" where
  "sql_average avg n t =
     (if avg = VNull \<or> n = VNull \<or> sql_number n + 1 = 0 then VNull
      else let a = sql_number avg * sql_number n + t; b = sql_number n + 1
           in VInt (if (a < 0) = (b < 0) then \<bar>a\<bar> div \<bar>b\<bar> else - (\<bar>a\<bar> div \<bar>b\<bar>)))"

definition update_recovery_action_stats :: "int \<Rightarrow> int \<Rightarrow> bool \<Rightarrow> int \<Rightarrow> sqlite \<Rightarrow> sqlite \<times> bool" where
  "update_recovery_action_stats now i success ms c =
     exec (Update ''brain_recovery_actions'' (eq_int ''id'' i)
       (\<lambda>r. [(''attempted_count'', sql_plus (val r ''attempted_count'') 1),
             (''success_count'', sql_plus (val r ''success_count'') (if success then 1 else 0)),
             (''failure_count'', sql_plus (val r ''failure_count'') (if success then 0 else 1)),
             (''avg_execution_time_ms'', sql_average (val r ''avg_execution_time_ms'') (val r ''attempted_count'') ms),
             (''last_attempted'', bind_int now)])) c"

definition begin_recovery_execution :: "int \<Rightarrow> int \<Rightarrow> int \<Rightarrow> int \<Rightarrow> string \<Rightarrow> sqlite \<Rightarrow> sqlite \<times> int" where
  "begin_recovery_execution now pid fid aid mode c =
     insert_id 0 (Insert ''brain_recovery_history'' [(''project_id'', bind_int pid), (''failure_id'', bind_int fid),
        (''action_id'', id_or_empty aid), (''started_at'', bind_int now), (''execution_mode'', bind mode)]) c"

definition complete_recovery_execution :: "int \<Rightarrow> int \<Rightarrow> bool \<Rightarrow> string \<Rightarrow> bool \<Rightarrow> int \<Rightarrow> sqlite \<Rightarrow> sqlite \<times> bool" where
  "complete_recovery_execution now hid success output verified ms c =
     exec (Update ''brain_recovery_history'' (eq_int ''id'' hid)
       (\<lambda>_. [(''completed_at'', bind_int now), (''success'', bind (if success then ''1'' else ''0'')),
             (''output_log'', bind output), (''verification_passed'', bind (if verified then ''1'' else ''0'')),
             (''execution_time_ms'', bind_int ms)])) c"

definition history_columns :: "out_column list" where
  "history_columns = [IntCol ''id'', IntCol ''project_id'', IntCol ''failure_id'', IntCol ''action_id'',
     IntCol ''started_at'', IntCol ''completed_at'', IntCol ''success'', IntCol ''execution_time_ms'',
     TextCol ''execution_mode'', IntCol ''verification_passed'']"

definition get_recovery_history :: "int \<Rightarrow> sqlite \<Rightarrow> (string, string) std_map list" where
  "get_recovery_history fid c = map (row_map history_columns)
     (order_desc ''started_at'' (select ''brain_recovery_history'' (eq_int ''failure_id'' fid) c))"

definition get_recent_recoveries :: "int \<Rightarrow> int \<Rightarrow> sqlite \<Rightarrow> (string, string) std_map list" where
  "get_recent_recoveries pid n c = map (row_map history_columns)
     (limit_rows n (order_desc ''started_at'' (select ''brain_recovery_history'' (eq_int ''project_id'' pid) c)))"

section \<open>A missing reference is refused\<close>

text \<open>
  The empty text is not NULL: in a column with a foreign key it refers to nothing, so the statement is
  refused whatever the database holds.
\<close>

lemma id_or_empty_coerce: "coerce AInteger (id_or_empty i) = (if 0 < i then VInt i else VText [])"
  using coerce_bind_int [of i] by (simp add: id_or_empty_def bind_int_def)

lemma insert_dangling:
  assumes "find_def nexus_schema t = Some d" "(k, p, a) \<in> set (fkeys d)" "cell (new_cells d vs) k = VText s"
  shows "snd (exec (Insert t vs) c) = False" "snd (insert_id e (Insert t vs) c) = e"
    "tabs (fst (insert_id e (Insert t vs) c)) = tabs c"
proof -
  have "\<not> fkeys_ok d (tabs c) (new_cells d vs)"
    using assms(2,3) by (force simp: fkeys_ok_def list_all_iff refers_def)
  then have "run_stmt nexus_schema (Insert t vs) (tabs c) = None"
    using assms(1) by (simp add: sql_insert_def Let_def)
  then show r: "snd (exec (Insert t vs) c) = False" by (rule exec_refused)
  show "snd (insert_id e (Insert t vs) c) = e" "tabs (fst (insert_id e (Insert t vs) c)) = tabs c"
    using insert_id_refused [OF r] by simp_all
qed

text \<open>
  A failure that comes without a snapshot before it or without one after it is never recorded:
  \<open>record_failure_with_context\<close> returns 0 and changes no table.
\<close>

lemma failure_needs_both_snapshots:
  assumes "before \<le> 0 \<or> after \<le> 0"
  shows "snd (record_failure_with_context now pid ftype sig msg loc cmd code before after files deps env system severity tags c) = 0 \<and>
     tabs (fst (record_failure_with_context now pid ftype sig msg loc cmd code before after files deps env system severity tags c)) = tabs c"
proof -
  let ?cs = "new_cells workspace_failures_table (failure_values now pid ftype sig msg loc cmd code before after files deps env system severity tags)"
  have "cell ?cs ''before_snapshot_id'' = coerce AInteger (id_or_empty before)"
    "cell ?cs ''after_snapshot_id'' = coerce AInteger (id_or_empty after)"
    by (simp_all add: new_cells_def workspace_failures_table_def column_defs failure_values_def cell_def)
  then consider "cell ?cs ''before_snapshot_id'' = VText []" | "cell ?cs ''after_snapshot_id'' = VText []"
    using assms by (auto simp: id_or_empty_coerce)
  then show ?thesis
  proof cases
    case 1
    then show ?thesis using insert_dangling(2,3) [where k = "''before_snapshot_id''" and t = "''workspace_failures''"]
      by (simp add: record_failure_with_context_def)
  next
    case 2
    then show ?thesis using insert_dangling(2,3) [where k = "''after_snapshot_id''" and t = "''workspace_failures''"]
      by (simp add: record_failure_with_context_def)
  qed
qed

lemma failure_needs_both_snapshots_example:
  "snd (record_failure_with_context 50 1 ''build'' ''sig'' ''msg'' [] ''make'' 2 1 0 [] [] [] [] ''high'' ''[]'' demo_ws) = 0"
  using failure_needs_both_snapshots [of 1 0 50 1 "''build''" "''sig''" "''msg''" "[]" "''make''" 2 "[]" "[]" "[]" "[]" "''high''" "''[]''" demo_ws]
  by simp

text \<open>The same holds of recovery actions and of executions that belong to no stored action.\<close>

lemma action_needs_both_references:
  assumes "pattern_id \<le> 0 \<or> failure_id \<le> 0"
  shows "snd (add_recovery_action now pattern_id failure_id atype params descr confirm c) = 0"
    "tabs (fst (add_recovery_action now pattern_id failure_id atype params descr confirm c)) = tabs c"
proof -
  let ?vs = "[(''pattern_id'', id_or_empty pattern_id), (''failure_id'', id_or_empty failure_id), (''action_type'', bind atype),
     (''action_params_json'', bind params), (''action_description'', bind descr),
     (''requires_user_confirmation'', bind (if confirm then ''1'' else ''0'')), (''created_at'', bind_int now)]"
  have "cell (new_cells brain_recovery_actions_table ?vs) ''pattern_id'' = coerce AInteger (id_or_empty pattern_id)"
    "cell (new_cells brain_recovery_actions_table ?vs) ''failure_id'' = coerce AInteger (id_or_empty failure_id)"
    by (simp_all add: new_cells_def brain_recovery_actions_table_def column_defs cell_def)
  then have "cell (new_cells brain_recovery_actions_table ?vs) ''pattern_id'' = VText [] \<or>
      cell (new_cells brain_recovery_actions_table ?vs) ''failure_id'' = VText []"
    using assms by (auto simp: id_or_empty_coerce)
  then show "snd (add_recovery_action now pattern_id failure_id atype params descr confirm c) = 0"
    "tabs (fst (add_recovery_action now pattern_id failure_id atype params descr confirm c)) = tabs c"
    using insert_dangling(2,3) [where t = "''brain_recovery_actions''" and vs = ?vs and e = 0]
    unfolding add_recovery_action_def by fastforce+
qed

lemma execution_needs_action:
  assumes "aid \<le> 0"
  shows "snd (begin_recovery_execution now pid fid aid mode c) = 0"
    "tabs (fst (begin_recovery_execution now pid fid aid mode c)) = tabs c"
proof -
  let ?vs = "[(''project_id'', bind_int pid), (''failure_id'', bind_int fid), (''action_id'', id_or_empty aid),
     (''started_at'', bind_int now), (''execution_mode'', bind mode)]"
  have "cell (new_cells brain_recovery_history_table ?vs) ''action_id'' = VText []"
    using assms id_or_empty_coerce [of aid]
    by (simp add: new_cells_def brain_recovery_history_table_def column_defs cell_def)
  then show "snd (begin_recovery_execution now pid fid aid mode c) = 0"
    "tabs (fst (begin_recovery_execution now pid fid aid mode c)) = tabs c"
    using insert_dangling(2,3) [where t = "''brain_recovery_history''" and vs = ?vs and e = 0 and k = "''action_id''"]
    unfolding begin_recovery_execution_def by simp_all
qed

text \<open>The average execution time starts as NULL and NULL absorbs the update: it is never recorded.\<close>

lemma average_stays_null: "sql_average VNull n t = VNull"
  by (simp add: sql_average_def)

end
