(* ===== verification/Nexus_Docker_Store.thy ===== *)
theory Nexus_Docker_Store
  imports Nexus_Brain_Store
begin

text \<open>
  The docker monitoring tables of \<open>Store\<close> (\<open>src/modules/nexus/src/store.cpp\<close>, sections \<open>Docker
  Monitoring\<close>): servers, containers, compose files, images, networks, volumes, status history, agent
  updates and commands. Queries whose WHERE clause is only appended for a positive server
  identifier use \<open>server_where\<close>.
\<close>

definition server_where :: "int \<Rightarrow> sql_row \<Rightarrow> bool" where
  "server_where sid r \<longleftrightarrow> (0 < sid \<longrightarrow> eq_int ''server_id'' sid r)"

definition num_or_empty :: "int \<Rightarrow> sql_value" where
  "num_or_empty i = bind (if i \<noteq> 0 then to_string i else [])"

section \<open>Servers\<close>

definition add_server :: "int \<Rightarrow> string \<Rightarrow> string \<Rightarrow> string \<Rightarrow> sqlite \<Rightarrow> sqlite \<times> int" where
  "add_server now label host ssh c =
     insert_id 0 (Insert ''servers'' [(''label'', bind label), (''host'', bind host), (''agent_status'', VText ''unknown''),
        (''ssh_config'', bind ssh), (''created_at'', bind_int now), (''updated_at'', bind_int now)]) c"

definition get_server_id :: "string \<Rightarrow> sqlite \<Rightarrow> int option" where
  "get_server_id label c =
     (case limit_rows 1 (select ''servers'' (eq_text ''label'' label) c) of [] \<Rightarrow> None | r # _ \<Rightarrow> row_get_int r ''id'')"

definition server_columns :: "out_column list" where
  "server_columns = [IntCol ''id'', TextCol ''label'', TextCol ''host'', TextCol ''agent_version'',
     TextOr ''agent_status'' ''unknown'', IntCol ''last_heartbeat'', TextCol ''capabilities'', TextOr ''ssh_config'' ''{}'',
     TextOr ''agent_container_strategy'' ''binary'', TextCol ''agent_container_local_tar'',
     TextCol ''agent_container_remote_tar'', TextCol ''agent_container_image'', IntCol ''created_at'', IntCol ''updated_at'']"

definition get_server :: "string \<Rightarrow> sqlite \<Rightarrow> (string, string) std_map option" where
  "get_server label c = first_row (row_map server_columns) (limit_rows 1 (select ''servers'' (eq_text ''label'' label) c))"

definition get_server_by_id :: "int \<Rightarrow> sqlite \<Rightarrow> (string, string) std_map option" where
  "get_server_by_id sid c = first_row (row_map server_columns) (limit_rows 1 (select ''servers'' (eq_int ''id'' sid) c))"

definition list_servers :: "sqlite \<Rightarrow> (string, string) std_map list" where
  "list_servers c = map (row_map server_columns) (order_asc ''label'' (select ''servers'' (\<lambda>_. True) c))"

definition update_server_agent_container :: "int \<Rightarrow> int \<Rightarrow> string \<Rightarrow> string \<Rightarrow> string \<Rightarrow> string \<Rightarrow> sqlite \<Rightarrow> sqlite \<times> bool" where
  "update_server_agent_container now sid strategy local_tar remote_tar img c =
     exec (Update ''servers'' (eq_int ''id'' sid) (\<lambda>_. [(''agent_container_strategy'', bind strategy),
        (''agent_container_local_tar'', bind local_tar), (''agent_container_remote_tar'', bind remote_tar),
        (''agent_container_image'', bind img), (''updated_at'', bind_int now)])) c"

definition update_server_heartbeat :: "int \<Rightarrow> int \<Rightarrow> string \<Rightarrow> string \<Rightarrow> string \<Rightarrow> sqlite \<Rightarrow> sqlite \<times> bool" where
  "update_server_heartbeat now sid version status capabilities c =
     exec (Update ''servers'' (eq_int ''id'' sid) (\<lambda>_. [(''agent_version'', bind version), (''agent_status'', bind status),
        (''capabilities'', bind capabilities), (''last_heartbeat'', bind_int now), (''updated_at'', bind_int now)])) c"

definition update_server_status :: "int \<Rightarrow> int \<Rightarrow> string \<Rightarrow> sqlite \<Rightarrow> sqlite \<times> bool" where
  "update_server_status now sid status c =
     exec (Update ''servers'' (eq_int ''id'' sid) (\<lambda>_. [(''agent_status'', bind status), (''updated_at'', bind_int now)])) c"

definition delete_server :: "int \<Rightarrow> sqlite \<Rightarrow> sqlite \<times> bool" where
  "delete_server sid c = exec (Delete ''servers'' (eq_int ''id'' sid)) c"

definition update_server_connection :: "int \<Rightarrow> int \<Rightarrow> string \<Rightarrow> string \<Rightarrow> sqlite \<Rightarrow> sqlite \<times> bool" where
  "update_server_connection now sid host ssh c =
     exec (Update ''servers'' (eq_int ''id'' sid) (\<lambda>_. [(''host'', bind host), (''ssh_config'', bind ssh),
        (''updated_at'', bind_int now)])) c"

section \<open>Containers\<close>

record container_info =
  ct_id :: string
  ct_name :: string
  ct_image :: string
  ct_state :: string
  ct_status :: string
  ct_created :: int
  ct_ports :: string
  ct_volumes :: string
  ct_networks :: string
  ct_service :: string
  ct_depends :: string
  ct_labels :: string
  ct_health :: string
  ct_restart :: string

text \<open>The unknown compose file and the environment are bound as empty texts.\<close>

definition container_values :: "int \<Rightarrow> int \<Rightarrow> container_info \<Rightarrow> cells" where
  "container_values now sid i =
     [(''server_id'', bind_int sid), (''container_id'', bind (ct_id i)), (''name'', bind (ct_name i)),
      (''image'', bind (ct_image i)), (''state'', bind (ct_state i)), (''status'', bind (ct_status i)),
      (''created'', num_or_empty (ct_created i)), (''ports'', bind (ct_ports i)), (''volumes'', bind (ct_volumes i)),
      (''networks'', bind (ct_networks i)), (''compose_file_id'', bind []), (''service_name'', bind (ct_service i)),
      (''depends_on'', bind (ct_depends i)), (''labels'', bind (ct_labels i)), (''env_vars'', bind []),
      (''health_status'', bind (ct_health i)), (''restart_policy'', bind (ct_restart i)),
      (''last_seen'', bind_int now), (''created_at'', bind_int now), (''updated_at'', bind_int now)]"

definition upsert_container :: "int \<Rightarrow> int \<Rightarrow> container_info \<Rightarrow> sqlite \<Rightarrow> sqlite \<times> int" where
  "upsert_container now sid i c =
     insert_id 0 (Upsert ''containers'' (container_values now sid i) [''server_id'', ''container_id'']
       [''name'', ''image'', ''state'', ''status'', ''created'', ''ports'', ''volumes'', ''networks'', ''service_name'',
        ''depends_on'', ''labels'', ''health_status'', ''restart_policy'', ''last_seen'', ''updated_at'']) c"

definition container_columns :: "out_column list" where
  "container_columns = [IntCol ''id'', IntCol ''server_id'', TextCol ''container_id'', TextCol ''name'', TextCol ''image'',
     TextCol ''state'', TextCol ''status'', IntCol ''created'', TextCol ''ports'', TextCol ''volumes'', TextCol ''networks'',
     IntCol ''compose_file_id'', TextCol ''service_name'', TextCol ''depends_on'', TextCol ''labels'', TextCol ''env_vars'',
     TextCol ''health_status'', TextCol ''restart_policy'', IntCol ''last_seen'', IntCol ''created_at'', IntCol ''updated_at'']"

definition list_containers :: "int \<Rightarrow> sqlite \<Rightarrow> (string, string) std_map list" where
  "list_containers sid c = map (row_map container_columns) (order_asc ''name'' (select ''containers'' (server_where sid) c))"

definition get_container :: "int \<Rightarrow> string \<Rightarrow> sqlite \<Rightarrow> (string, string) std_map option" where
  "get_container sid name c = first_row (row_map container_columns)
     (limit_rows 1 (select ''containers'' (\<lambda>r. eq_int ''server_id'' sid r \<and> eq_text ''name'' name r) c))"

definition get_container_by_id :: "int \<Rightarrow> string \<Rightarrow> sqlite \<Rightarrow> (string, string) std_map option" where
  "get_container_by_id sid cid c = first_row (row_map container_columns)
     (limit_rows 1 (select ''containers'' (\<lambda>r. eq_int ''server_id'' sid r \<and> eq_text ''container_id'' cid r) c))"

definition mark_containers_stale :: "int \<Rightarrow> int \<Rightarrow> sqlite \<Rightarrow> sqlite \<times> bool" where
  "mark_containers_stale sid before c =
     exec (Update ''containers'' (eq_int ''server_id'' sid)
       (\<lambda>_. [(''last_seen'', bind_int before), (''updated_at'', bind_int before)])) c"

definition delete_stale_containers :: "int \<Rightarrow> int \<Rightarrow> sqlite \<Rightarrow> sqlite \<times> bool" where
  "delete_stale_containers sid before c =
     exec (Delete ''containers'' (\<lambda>r. eq_int ''server_id'' sid r \<and> val r ''last_seen'' \<noteq> VNull \<and>
        val r ''last_seen'' \<le> coerce AInteger (bind_int before))) c"

section \<open>Compose files\<close>

definition compose_file_values :: "int \<Rightarrow> int \<Rightarrow> string \<Rightarrow> string \<Rightarrow> string \<Rightarrow> string \<Rightarrow> string \<Rightarrow> string \<Rightarrow> cells" where
  "compose_file_values now sid path pname services networks volumes hash =
     [(''server_id'', bind_int sid), (''file_path'', bind path), (''project_name'', bind pname),
      (''services'', bind services), (''networks'', bind networks), (''volumes'', bind volumes),
      (''file_hash'', bind hash), (''last_scan'', bind_int now), (''created_at'', bind_int now),
      (''updated_at'', bind_int now)]"

definition upsert_compose_file ::
  "int \<Rightarrow> int \<Rightarrow> string \<Rightarrow> string \<Rightarrow> string \<Rightarrow> string \<Rightarrow> string \<Rightarrow> string \<Rightarrow> sqlite \<Rightarrow> sqlite \<times> int" where
  "upsert_compose_file now sid path pname services networks volumes hash c =
     insert_id 0 (Upsert ''compose_files'' (compose_file_values now sid path pname services networks volumes hash)
       [''server_id'', ''file_path'']
       [''project_name'', ''services'', ''networks'', ''volumes'', ''file_hash'', ''last_scan'', ''updated_at'']) c"

definition compose_columns :: "out_column list" where
  "compose_columns = [IntCol ''id'', IntCol ''server_id'', TextCol ''file_path'', TextCol ''project_name'', TextCol ''services'',
     TextCol ''networks'', TextCol ''volumes'', TextCol ''file_hash'', IntCol ''last_scan'', IntCol ''created_at'',
     IntCol ''updated_at'']"

definition list_compose_files :: "int \<Rightarrow> sqlite \<Rightarrow> (string, string) std_map list" where
  "list_compose_files sid c =
     map (row_map compose_columns) (order_asc ''file_path'' (select ''compose_files'' (server_where sid) c))"

definition get_compose_file :: "int \<Rightarrow> string \<Rightarrow> sqlite \<Rightarrow> (string, string) std_map option" where
  "get_compose_file sid path c = first_row (row_map compose_columns)
     (limit_rows 1 (select ''compose_files'' (\<lambda>r. eq_int ''server_id'' sid r \<and> eq_text ''file_path'' path r) c))"

section \<open>Images, networks and volumes\<close>

definition upsert_docker_image :: "int \<Rightarrow> int \<Rightarrow> string \<Rightarrow> string \<Rightarrow> string \<Rightarrow> int \<Rightarrow> int \<Rightarrow> sqlite \<Rightarrow> sqlite \<times> int" where
  "upsert_docker_image now sid image_id repository tg bytes created c =
     insert_id 0 (Upsert ''docker_images'' [(''server_id'', bind_int sid), (''image_id'', bind image_id),
        (''repository'', bind repository), (''tag'', bind tg), (''size_bytes'', num_or_empty bytes),
        (''created'', num_or_empty created), (''last_seen'', bind_int now), (''created_at'', bind_int now),
        (''updated_at'', bind_int now)]
       [''server_id'', ''image_id''] [''repository'', ''tag'', ''size_bytes'', ''created'', ''last_seen'', ''updated_at'']) c"

definition image_columns :: "out_column list" where
  "image_columns = [IntCol ''id'', IntCol ''server_id'', TextCol ''image_id'', TextCol ''repository'', TextCol ''tag'',
     IntCol ''size_bytes'', IntCol ''created'', IntCol ''last_seen'', IntCol ''created_at'', IntCol ''updated_at'']"

definition list_docker_images :: "int \<Rightarrow> sqlite \<Rightarrow> (string, string) std_map list" where
  "list_docker_images sid c = map (row_map image_columns)
     (order_asc ''repository'' (order_asc ''tag'' (select ''docker_images'' (server_where sid) c)))"

definition upsert_docker_network :: "int \<Rightarrow> int \<Rightarrow> string \<Rightarrow> string \<Rightarrow> string \<Rightarrow> string \<Rightarrow> string \<Rightarrow> sqlite \<Rightarrow> sqlite \<times> int" where
  "upsert_docker_network now sid network_id name driver scope ipam c =
     insert_id 0 (Upsert ''docker_networks'' [(''server_id'', bind_int sid), (''network_id'', bind network_id),
        (''name'', bind name), (''driver'', bind driver), (''scope'', bind scope), (''ipam_config'', bind ipam),
        (''last_seen'', bind_int now), (''created_at'', bind_int now), (''updated_at'', bind_int now)]
       [''server_id'', ''network_id''] [''name'', ''driver'', ''scope'', ''ipam_config'', ''last_seen'', ''updated_at'']) c"

definition network_columns :: "out_column list" where
  "network_columns = [IntCol ''id'', IntCol ''server_id'', TextCol ''network_id'', TextCol ''name'', TextCol ''driver'',
     TextCol ''scope'', TextCol ''ipam_config'', IntCol ''last_seen'', IntCol ''created_at'', IntCol ''updated_at'']"

definition list_docker_networks :: "int \<Rightarrow> sqlite \<Rightarrow> (string, string) std_map list" where
  "list_docker_networks sid c =
     map (row_map network_columns) (order_asc ''name'' (select ''docker_networks'' (server_where sid) c))"

definition upsert_docker_volume :: "int \<Rightarrow> int \<Rightarrow> string \<Rightarrow> string \<Rightarrow> string \<Rightarrow> string \<Rightarrow> sqlite \<Rightarrow> sqlite \<times> int" where
  "upsert_docker_volume now sid volume driver mountpoint labels c =
     insert_id 0 (Upsert ''docker_volumes'' [(''server_id'', bind_int sid), (''volume_name'', bind volume),
        (''driver'', bind driver), (''mountpoint'', bind mountpoint), (''labels'', bind labels),
        (''last_seen'', bind_int now), (''created_at'', bind_int now), (''updated_at'', bind_int now)]
       [''server_id'', ''volume_name''] [''driver'', ''mountpoint'', ''labels'', ''last_seen'', ''updated_at'']) c"

definition volume_columns :: "out_column list" where
  "volume_columns = [IntCol ''id'', IntCol ''server_id'', TextCol ''volume_name'', TextCol ''driver'', TextCol ''mountpoint'',
     TextCol ''labels'', IntCol ''last_seen'', IntCol ''created_at'', IntCol ''updated_at'']"

definition list_docker_volumes :: "int \<Rightarrow> sqlite \<Rightarrow> (string, string) std_map list" where
  "list_docker_volumes sid c =
     map (row_map volume_columns) (order_asc ''volume_name'' (select ''docker_volumes'' (server_where sid) c))"

section \<open>History, agent updates and commands\<close>

definition add_docker_status_event ::
  "int \<Rightarrow> int \<Rightarrow> string \<Rightarrow> string \<Rightarrow> string \<Rightarrow> string \<Rightarrow> string \<Rightarrow> string \<Rightarrow> sqlite \<Rightarrow> sqlite \<times> int" where
  "add_docker_status_event now sid cid cname' etype old_state new_state meta c =
     insert_id 0 (Insert ''docker_status_history'' [(''server_id'', bind_int sid), (''container_id'', bind cid),
        (''container_name'', bind cname'), (''event_type'', bind etype), (''old_state'', bind old_state),
        (''new_state'', bind new_state), (''metadata'', bind meta), (''timestamp'', bind_int now)]) c"

definition status_columns :: "out_column list" where
  "status_columns = [IntCol ''id'', IntCol ''server_id'', TextCol ''container_id'', TextCol ''container_name'',
     TextCol ''event_type'', TextCol ''old_state'', TextCol ''new_state'', TextCol ''metadata'', IntCol ''timestamp'']"

definition get_container_history :: "int \<Rightarrow> string \<Rightarrow> int \<Rightarrow> sqlite \<Rightarrow> (string, string) std_map list" where
  "get_container_history sid name n c = map (row_map status_columns)
     (limit_rows n (order_desc ''timestamp'' (select ''docker_status_history''
        (\<lambda>r. eq_int ''server_id'' sid r \<and> eq_text ''container_name'' name r) c)))"

definition get_recent_docker_events :: "int \<Rightarrow> int \<Rightarrow> sqlite \<Rightarrow> (string, string) std_map list" where
  "get_recent_docker_events sid n c = map (row_map status_columns)
     (limit_rows n (order_desc ''timestamp'' (select ''docker_status_history'' (server_where sid) c)))"

definition log_agent_update :: "int \<Rightarrow> int \<Rightarrow> string \<Rightarrow> string \<Rightarrow> sqlite \<Rightarrow> sqlite \<times> int" where
  "log_agent_update now sid utype payload c =
     insert_id 0 (Insert ''agent_updates'' [(''server_id'', bind_int sid), (''update_type'', bind utype),
        (''payload_json'', bind payload), (''timestamp'', bind_int now)]) c"

definition mark_agent_update_processed :: "int \<Rightarrow> bool \<Rightarrow> string \<Rightarrow> sqlite \<Rightarrow> sqlite \<times> bool" where
  "mark_agent_update_processed uid success err c =
     exec (Update ''agent_updates'' (eq_int ''id'' uid)
       (\<lambda>_. [(''processed'', bind (if success then ''1'' else ''0'')), (''error_message'', bind err)])) c"

definition update_columns :: "out_column list" where
  "update_columns = [IntCol ''id'', IntCol ''server_id'', TextCol ''update_type'', TextCol ''payload_json'',
     IntCol ''processed'', TextCol ''error_message'', IntCol ''timestamp'']"

definition unprocessed_rows :: "sqlite \<Rightarrow> sql_row list" where
  "unprocessed_rows c = select ''agent_updates'' (\<lambda>r. val r ''processed'' = VInt 0) c"

definition get_unprocessed_agent_updates :: "int \<Rightarrow> sqlite \<Rightarrow> (string, string) std_map list" where
  "get_unprocessed_agent_updates n c =
     map (row_map update_columns) (limit_rows n (order_asc ''timestamp'' (unprocessed_rows c)))"

definition add_docker_command :: "int \<Rightarrow> int \<Rightarrow> string \<Rightarrow> string \<Rightarrow> string \<Rightarrow> string \<Rightarrow> sqlite \<Rightarrow> sqlite \<times> int" where
  "add_docker_command now sid cid cmd params issued_by c =
     insert_id 0 (Insert ''docker_commands'' [(''server_id'', bind_int sid), (''container_id'', bind cid),
        (''command'', bind cmd), (''params'', bind params), (''status'', VText ''pending''), (''exit_code'', VNull),
        (''output'', VNull), (''error'', VNull), (''issued_by'', bind issued_by), (''issued_at'', bind_int now)]) c"

definition update_docker_command_status :: "int \<Rightarrow> int \<Rightarrow> string \<Rightarrow> int \<Rightarrow> string \<Rightarrow> string \<Rightarrow> sqlite \<Rightarrow> sqlite \<times> bool" where
  "update_docker_command_status now cid status code output err c =
     exec (Update ''docker_commands'' (eq_int ''id'' cid)
       (\<lambda>_. [(''status'', bind status), (''exit_code'', bind (if 0 \<le> code then to_string code else [])),
             (''output'', bind output), (''error'', bind err),
             (''completed_at'', bind (if status = ''success'' \<or> status = ''failed'' then to_string now else []))])) c"

definition command_columns :: "out_column list" where
  "command_columns = [IntCol ''id'', IntCol ''server_id'', TextCol ''container_id'', TextCol ''command'', TextCol ''params'',
     TextCol ''status'', IntCol ''exit_code'', TextCol ''output'', TextCol ''error'', TextCol ''issued_by'',
     IntCol ''issued_at'', IntCol ''completed_at'']"

definition list_docker_commands :: "int \<Rightarrow> int \<Rightarrow> sqlite \<Rightarrow> (string, string) std_map list" where
  "list_docker_commands sid n c = map (row_map command_columns)
     (limit_rows n (order_desc ''issued_at'' (select ''docker_commands'' (server_where sid) c)))"

section \<open>What the upserts do\<close>

lemma insert_id_upsert_dangling:
  assumes "find_def nexus_schema t = Some d" "(k, p, a) \<in> set (fkeys d)" "cell (new_cells d vs) k = VText s"
    and "by_key us (map (cell (new_cells d vs)) us) (trows (tabs c (tname d))) = None"
  shows "snd (insert_id e (Upsert t vs us sets) c) = e" "tabs (fst (insert_id e (Upsert t vs us sets) c)) = tabs c"
proof -
  have "find (\<lambda>r. same_key us (new_cells d vs) (snd r)) (trows (tabs c (tname d))) = None"
    using assms(4) unfolding by_key_def find_None_all same_key_iff by metis
  moreover have "\<not> fkeys_ok d (tabs c) (new_cells d vs)"
    using assms(2,3) by (force simp: fkeys_ok_def list_all_iff refers_def)
  ultimately have "run_stmt nexus_schema (Upsert t vs us sets) (tabs c) = None"
    using assms(1) by (simp add: sql_upsert_def sql_insert_def Let_def)
  then have "snd (exec (Upsert t vs us sets) c) = False" by (rule exec_refused)
  then show "snd (insert_id e (Upsert t vs us sets) c) = e" "tabs (fst (insert_id e (Upsert t vs us sets) c)) = tabs c"
    using insert_id_refused by simp_all
qed

lemma container_key:
  "map (cell (new_cells containers_table (container_values now sid i))) [''server_id'', ''container_id''] =
     [VInt sid, VText (c_string (ct_id i))]"
  "cell (new_cells containers_table (container_values now sid i)) ''compose_file_id'' = VText []"
  by (simp_all add: new_cells_def containers_table_def column_defs container_values_def cell_def)

text \<open>
  A container that is not recorded yet cannot be recorded: the statement binds the unknown compose
  file as an empty text, which the foreign key refuses. \<open>upsert_container\<close> returns 0 and
  changes no table, whatever the server, the container and the state of the database.
\<close>

lemma upsert_container_never_inserts:
  assumes "by_key [''server_id'', ''container_id''] [VInt sid, VText (c_string (ct_id i))] (trows (tabs c ''containers'')) = None"
  shows "snd (upsert_container now sid i c) = 0 \<and> tabs (fst (upsert_container now sid i c)) = tabs c"
  using insert_id_upsert_dangling [where d = containers_table and t = "''containers''" and k = "''compose_file_id''"
      and vs = "container_values now sid i" and us = "[''server_id'', ''container_id'']" and e = 0, OF _ _ container_key(2)]
    assms container_key(1) [of now sid i]
  unfolding upsert_container_def by simp

lemma upsert_container_never_inserts_example:
  "snd (upsert_container 7 1 \<lparr>ct_id = ''abc'', ct_name = ''web'', ct_image = ''nginx'', ct_state = ''running'', ct_status = [],
     ct_created = 0, ct_ports = [], ct_volumes = [], ct_networks = [], ct_service = [], ct_depends = [], ct_labels = [],
     ct_health = [], ct_restart = []\<rparr> (fst (add_server 5 ''tank'' ''10.0.0.4'' ''{}'' fresh_db))) = 0"
proof -
  let ?i = "\<lparr>ct_id = ''abc'', ct_name = ''web'', ct_image = ''nginx'', ct_state = ''running'', ct_status = [],
     ct_created = 0, ct_ports = [], ct_volumes = [], ct_networks = [], ct_service = [], ct_depends = [], ct_labels = [],
     ct_health = [], ct_restart = []\<rparr>"
  let ?c = "fst (add_server 5 ''tank'' ''10.0.0.4'' ''{}'' fresh_db)"
  have "by_key [''server_id'', ''container_id''] [VInt 1, VText (c_string (ct_id ?i))] (trows (tabs ?c ''containers'')) = None"
    by code_simp
  then show ?thesis using upsert_container_never_inserts [of 1 ?i ?c 7] by simp
qed

lemma compose_file_cells:
  "new_cells compose_files_table (compose_file_values now sid path pname services networks volumes hash) =
     [(''server_id'', VInt sid), (''file_path'', VText (c_string path)), (''project_name'', VText (c_string pname)),
      (''services'', VText (c_string services)), (''networks'', VText (c_string networks)),
      (''volumes'', VText (c_string volumes)), (''file_hash'', VText (c_string hash)), (''last_scan'', VInt now),
      (''created_at'', VInt now), (''updated_at'', VInt now)]"
  by (simp add: new_cells_def compose_files_table_def column_defs compose_file_values_def)

text \<open>
  After \<open>upsert_compose_file\<close> for a registered server the row of that server and path holds the new
  hash. The returned identifier is the row's own only when the row is new: for a row that was already
  there it is the identifier of whatever row the connection inserted last.
\<close>

lemma upsert_compose_file_result:
  assumes "healthy c" "\<not> io_fails c (stmts c)" "seq (tabs c ''compose_files'') < max_rowid"
    and "sid \<in> set (ids_of (tabs c ''servers''))"
    and "upsert_compose_file now sid path pname services networks volumes hash c = (c', i)"
  shows "\<exists>r. by_key [''server_id'', ''file_path''] [VInt sid, VText (c_string path)] (trows (tabs c' ''compose_files'')) = Some r \<and>
     val r ''file_hash'' = VText (c_string hash) \<and>
     (case by_key [''server_id'', ''file_path''] [VInt sid, VText (c_string path)] (trows (tabs c ''compose_files'')) of
        None \<Rightarrow> i = fst r
      | Some r0 \<Rightarrow> fst r = fst r0 \<and> i = last_rowid c)"
proof -
  let ?vs = "compose_file_values now sid path pname services networks volumes hash"
  let ?us = "[''server_id'', ''file_path'']"
    and ?sets = "[''project_name'', ''services'', ''networks'', ''volumes'', ''file_hash'', ''last_scan'', ''updated_at'']"
  let ?q = "Upsert ''compose_files'' ?vs ?us ?sets"
  have nn: "not_null_ok compose_files_table (new_cells compose_files_table ?vs)"
    unfolding compose_file_cells by (simp add: not_null_ok_def compose_files_table_def column_defs cell_def)
  have fk: "fkeys_ok compose_files_table (tabs c) (new_cells compose_files_table ?vs)"
    unfolding compose_file_cells using assms(4) by (simp add: fkeys_ok_def refers_def cell_def)
  have key: "map (cell (new_cells compose_files_table ?vs)) ?us = [VInt sid, VText (c_string path)]"
    unfolding compose_file_cells by (simp add: cell_def)
  have cols: "set ?us \<subseteq> set (map cname (columns compose_files_table))"
    "\<forall>(k, p, a)\<in>set (fkeys compose_files_table). \<exists>col\<in>set (columns compose_files_table). cname col = k \<and> caff col = AInteger"
    by (simp_all add: compose_files_table_def column_defs)
  note up = exec_upsert [OF assms(1,2) find_tables(24) table_uniques(24) cols(1) _ nn fk assms(3) _ cols(2), unfolded key]
  have new: "val (k, new_cells compose_files_table ?vs) ''file_hash'' = VText (c_string hash)"
    "val (k, set_cells compose_files_table (map (\<lambda>u. (u, cell (new_cells compose_files_table ?vs) u)) ?sets) cs) ''file_hash''
       = VText (c_string hash)" for k cs
    unfolding compose_file_cells by (simp_all add: val_def cell_def set_cells_def compose_files_table_def column_defs)
  have c': "c' = fst (exec ?q c)" "i = (if snd (exec ?q c) then last_insert_id c' else 0)"
    using assms(5) by (auto simp: upsert_compose_file_def insert_id_def split: prod.splits)
  have ok: "snd (exec ?q c)" by (rule up(1)) simp_all
  have byk: "by_key ?us [VInt sid, VText (c_string path)] (trows (tabs c' ''compose_files'')) =
     (case by_key ?us [VInt sid, VText (c_string path)] (trows (tabs c ''compose_files'')) of
        None \<Rightarrow> Some (seq (tabs c ''compose_files'') + 1, new_cells compose_files_table ?vs)
      | Some r \<Rightarrow> Some (fst r, set_cells compose_files_table (map (\<lambda>u. (u, cell (new_cells compose_files_table ?vs) u)) ?sets) (snd r)))"
    unfolding c'(1) by (subst up(2)) simp_all
  have last: "last_rowid c' = (case by_key ?us [VInt sid, VText (c_string path)] (trows (tabs c ''compose_files'')) of
        None \<Rightarrow> seq (tabs c ''compose_files'') + 1 | Some _ \<Rightarrow> last_rowid c)"
    unfolding c'(1) by (rule up(3)) simp_all
  have "i = last_rowid c'" using c' ok assms(1) by (simp add: last_insert_id_def healthy_def)
  with byk last new show ?thesis by (auto split: option.splits)
qed

definition demo_server :: sqlite where
  "demo_server = fst (upsert_compose_file 6 1 ''/a.yml'' ''p'' ''[]'' [] [] ''h1'' (fst (add_server 5 ''tank'' ''host'' ''{}'' fresh_db)))"

definition demo_two_servers :: sqlite where
  "demo_two_servers = fst (add_server 7 ''barge'' ''host'' ''{}'' demo_server)"

text \<open>The second scan of \<open>/a.yml\<close> (row 1) returns 2, the identifier of the server added meanwhile.\<close>

lemma upsert_compose_file_result_example:
  "snd (upsert_compose_file 8 1 ''/a.yml'' ''p'' ''[]'' [] [] ''h2'' demo_two_servers) = 2 \<and>
     map_option fst (by_key [''server_id'', ''file_path''] [VInt 1, VText ''/a.yml''] (trows (tabs demo_two_servers ''compose_files''))) = Some 1"
proof -
  have h: "healthy demo_two_servers"
    by (simp add: demo_two_servers_def demo_server_def add_server_def upsert_compose_file_def healthy_fresh_db)
  have v: "io_fails demo_two_servers (stmts demo_two_servers) = False" "seq (tabs demo_two_servers ''compose_files'') < max_rowid"
    "1 \<in> set (ids_of (tabs demo_two_servers ''servers''))" "last_rowid demo_two_servers = 2"
    "map_option fst (by_key [''server_id'', ''file_path''] [VInt 1, VText (c_string ''/a.yml'')] (trows (tabs demo_two_servers ''compose_files''))) = Some 1"
    by code_simp+
  then show ?thesis
    using upsert_compose_file_result [of demo_two_servers 1 8 "''/a.yml''" "''p''" "''[]''" "[]" "[]" "''h2''"] h
    by (auto simp: c_string_def prod_eq_iff split: option.splits)
qed

end
