(* ===== verification/Docker_Compose.thy ===== *)
theory Docker_Compose
  imports Nazg_Prelude
begin

text \<open>
  The compose file reader: \<open>ComposeParser\<close> in
  \<open>modules/docker_monitor/include/docker_monitor/compose_parser.hpp\<close> and
  \<open>modules/docker_monitor/src/compose_parser.cpp\<close>. The vector of lines with the cursor \<open>pos\<close> is
  modelled by the list of the lines from \<open>pos\<close> on; a loop that advances \<open>pos\<close> returns what is left.
\<close>

section \<open>Data\<close>

record compose_service =
  cs_name :: string
  cs_image :: string
  cs_container_name :: string
  cs_depends_on :: "string list"
  cs_network_mode :: string
  cs_networks :: "string list"
  cs_network_static_ips :: "(string, string) std_map"
  cs_volumes :: "string list"
  cs_environment :: "(string, string) std_map"
  cs_restart_policy :: string
  cs_privileged :: bool

record compose_network =
  cn_name :: string
  cn_driver :: string
  cn_external :: bool

record compose_file =
  cf_version :: string
  cf_services :: "(string, compose_service) std_map"
  cf_networks :: "(string, compose_network) std_map"
  cf_volumes :: "(string, string) std_map"

record detected_dependency =
  dd_service :: string
  dd_depends_on :: string
  dd_type :: string
  dd_details :: string

definition empty_service :: compose_service where
  "empty_service = \<lparr>cs_name = [], cs_image = [], cs_container_name = [], cs_depends_on = [], cs_network_mode = [],
     cs_networks = [], cs_network_static_ips = [], cs_volumes = [], cs_environment = [],
     cs_restart_policy = [], cs_privileged = False\<rparr>"

definition empty_compose :: compose_file where
  "empty_compose = \<lparr>cf_version = [], cf_services = [], cf_networks = [], cf_volumes = []\<rparr>"

section \<open>Lines\<close>

definition leading_blank :: "char \<Rightarrow> bool" where
  "leading_blank c \<longleftrightarrow> c = CHR '' '' \<or> c = CHR 0x09"

definition trailing_blank :: "char \<Rightarrow> bool" where
  "trailing_blank c \<longleftrightarrow> c = CHR '' '' \<or> c = CHR 0x09 \<or> c = CHR 0x0D \<or> c = CHR 0x0A"

definition trim :: "string \<Rightarrow> string" where
  "trim str = rev (dropWhile trailing_blank (rev (dropWhile leading_blank str)))"

fun get_indent_level :: "string \<Rightarrow> nat" where
  "get_indent_level [] = 0"
| "get_indent_level (c # cs) =
     (if c = CHR '' '' then get_indent_level cs + 1
      else if c = CHR 0x09 then get_indent_level cs + 2
      else 0)"

definition extract_key :: "string \<Rightarrow> string" where
  "extract_key line =
     (let trimmed = trim line in
      case find_char (CHR '':'') trimmed of
        None \<Rightarrow> trimmed
      | Some colon \<Rightarrow> trim (take colon trimmed))"

definition unquote :: "string \<Rightarrow> string" where
  "unquote value =
     (if length value \<ge> 2 \<and>
         ((hd value = CHR 0x22 \<and> last value = CHR 0x22) \<or> (hd value = CHR 0x27 \<and> last value = CHR 0x27))
      then substr value 1 (length value - 2) else value)"

definition extract_value :: "string \<Rightarrow> string" where
  "extract_value line =
     (let trimmed = trim line in
      case find_char (CHR '':'') trimmed of
        None \<Rightarrow> []
      | Some colon \<Rightarrow> unquote (trim (drop (colon + 1) trimmed)))"

definition is_list_item :: "string \<Rightarrow> bool" where
  "is_list_item line \<longleftrightarrow> trim line \<noteq> [] \<and> hd (trim line) = CHR ''-''"

definition extract_list_item :: "string \<Rightarrow> string" where
  "extract_list_item line =
     (if trim line = [] \<or> hd (trim line) \<noteq> CHR ''-'' then [] else trim (drop 1 (trim line)))"

section \<open>Blocks\<close>

text \<open>
  The loop shape that most sections share: skip blank lines and lines whose \<^emph>\<open>first\<close> character is
  \<open>#\<close>, stop at a line indented no deeper than the section's key, use every other line.
\<close>

fun scan_block :: "(string \<Rightarrow> 'a \<Rightarrow> 'a) \<Rightarrow> nat \<Rightarrow> string list \<Rightarrow> 'a \<Rightarrow> 'a \<times> string list" where
  "scan_block use base [] acc = (acc, [])"
| "scan_block use base (line # lines) acc =
     (if trim line = [] \<or> hd line = CHR ''#'' then scan_block use base lines acc
      else if get_indent_level line \<le> base then (acc, line # lines)
      else scan_block use base lines (use line acc))"

lemma scan_block_length: "length (snd (scan_block use base lines acc)) \<le> length lines"
  by (induction use base lines acc rule: scan_block.induct) auto

definition use_dependency :: "string \<Rightarrow> compose_service \<Rightarrow> compose_service" where
  "use_dependency line service =
     (if is_list_item line \<and> extract_list_item line \<noteq> []
      then service\<lparr>cs_depends_on := cs_depends_on service @ [extract_list_item line]\<rparr> else service)"

definition use_volume :: "string \<Rightarrow> compose_service \<Rightarrow> compose_service" where
  "use_volume line service =
     (if is_list_item line \<and> extract_list_item line \<noteq> []
      then service\<lparr>cs_volumes := cs_volumes service @ [extract_list_item line]\<rparr> else service)"

definition use_environment :: "string \<Rightarrow> compose_service \<Rightarrow> compose_service" where
  "use_environment line service =
     (if is_list_item line then
        (let env = extract_list_item line in
         case find_char (CHR ''='') env of
           None \<Rightarrow> service
         | Some eq \<Rightarrow> service\<lparr>cs_environment := map_put (take eq env) (drop (eq + 1) env) (cs_environment service)\<rparr>)
      else service\<lparr>cs_environment := map_put (extract_key line) (extract_value line) (cs_environment service)\<rparr>)"

definition use_static_ip :: "string \<Rightarrow> string \<Rightarrow> compose_service \<Rightarrow> compose_service" where
  "use_static_ip network line service =
     (if extract_key line = ''ipv4_address'' \<or> extract_key line = ''ipv6_address''
      then service\<lparr>cs_network_static_ips := map_put network (extract_value line) (cs_network_static_ips service)\<rparr>
      else service)"

function service_networks :: "nat \<Rightarrow> string list \<Rightarrow> compose_service \<Rightarrow> compose_service \<times> string list" where
  "service_networks networks_indent lines service =
     (case lines of
        [] \<Rightarrow> (service, [])
      | line # rest \<Rightarrow>
          if trim line = [] \<or> hd line = CHR ''#'' then service_networks networks_indent rest service
          else if get_indent_level line \<le> networks_indent then (service, line # rest)
          else if is_list_item line then
            service_networks networks_indent rest
              (service\<lparr>cs_networks := cs_networks service @ [extract_list_item line]\<rparr>)
          else
            (let network_name = extract_key line;
                 r = scan_block (use_static_ip network_name) (get_indent_level line) rest
                       (service\<lparr>cs_networks := cs_networks service @ [network_name]\<rparr>)
             in service_networks networks_indent (snd r) (fst r)))"
  by pat_completeness auto
termination
  by (relation "measure (\<lambda>(i, lines, service). length lines)")
    (auto simp: less_Suc_eq_le scan_block_length)

declare service_networks.simps [simp del]

definition parse_service_networks :: "string list \<Rightarrow> compose_service \<Rightarrow> compose_service \<times> string list" where
  "parse_service_networks lines service = service_networks (get_indent_level (hd lines)) (tl lines) service"

lemma service_networks_length: "length (snd (service_networks i lines service)) \<le> length lines"
proof (induction "length lines" arbitrary: lines service rule: less_induct)
  case less
  show ?case
  proof (cases lines)
    case (Cons line rest)
    have IH: "length (snd (service_networks i ls x)) \<le> Suc (length rest)" if "length ls \<le> length rest" for ls x
      using less [of ls x] that by (simp add: Cons)
    show ?thesis unfolding Cons
      by (subst service_networks.simps) (simp add: Let_def IH scan_block_length)
  qed (simp add: service_networks.simps)
qed

section \<open>A service\<close>

text \<open>One key of a service: the updated service and the lines after the key's section.\<close>

definition service_key :: "string \<Rightarrow> string list \<Rightarrow> compose_service \<Rightarrow> compose_service \<times> string list" where
  "service_key line rest service =
     (let indent = get_indent_level line; key = extract_key line; value = extract_value line in
      if key = ''image'' then (service\<lparr>cs_image := value\<rparr>, rest)
      else if key = ''container_name'' then (service\<lparr>cs_container_name := value\<rparr>, rest)
      else if key = ''network_mode'' then (service\<lparr>cs_network_mode := value\<rparr>, rest)
      else if key = ''restart'' then (service\<lparr>cs_restart_policy := value\<rparr>, rest)
      else if key = ''privileged'' then (service\<lparr>cs_privileged := (value = ''true'')\<rparr>, rest)
      else if key = ''depends_on'' then scan_block use_dependency indent rest service
      else if key = ''networks'' then parse_service_networks (line # rest) service
      else if key = ''volumes'' then scan_block use_volume indent rest service
      else if key = ''environment'' then scan_block use_environment indent rest service
      else scan_block (\<lambda>_ s. s) indent rest service)"

lemma service_key_length: "length (snd (service_key line rest service)) \<le> length rest"
  by (simp add: service_key_def Let_def scan_block_length parse_service_networks_def service_networks_length)

function service_body :: "nat \<Rightarrow> string list \<Rightarrow> compose_service \<Rightarrow> compose_service \<times> string list" where
  "service_body service_indent lines service =
     (case lines of
        [] \<Rightarrow> (service, [])
      | line # rest \<Rightarrow>
          if trim line = [] \<or> hd (trim line) = CHR ''#'' then service_body service_indent rest service
          else if get_indent_level line \<le> service_indent then (service, line # rest)
          else (let r = service_key line rest service in service_body service_indent (snd r) (fst r)))"
  by pat_completeness auto
termination
  by (relation "measure (\<lambda>(i, lines, service). length lines)")
    (auto simp: less_Suc_eq_le service_key_length)

declare service_body.simps [simp del]

definition parse_service :: "string list \<Rightarrow> string \<Rightarrow> compose_service \<Rightarrow> compose_service \<times> string list" where
  "parse_service lines service_name service =
     service_body (get_indent_level (hd lines)) (tl lines) (service\<lparr>cs_name := service_name\<rparr>)"

lemma service_body_length: "length (snd (service_body i lines service)) \<le> length lines"
proof (induction "length lines" arbitrary: lines service rule: less_induct)
  case less
  show ?case
  proof (cases lines)
    case (Cons line rest)
    have IH: "length (snd (service_body i ls x)) \<le> Suc (length rest)" if "length ls \<le> length rest" for ls x
      using less [of ls x] that by (simp add: Cons)
    show ?thesis unfolding Cons
      by (subst service_body.simps) (simp add: Let_def IH service_key_length)
  qed (simp add: service_body.simps)
qed

lemma parse_service_length: "lines \<noteq> [] \<Longrightarrow> length (snd (parse_service lines nm service)) < length lines"
  using service_body_length [of "get_indent_level (hd lines)" "tl lines" "service\<lparr>cs_name := nm\<rparr>"]
  by (cases lines) (simp_all add: parse_service_def less_Suc_eq_le)

lemma parse_service_short: "length (snd (parse_service (line # rest) nm service)) \<le> length rest"
  using parse_service_length [of "line # rest" nm service] by simp

section \<open>The file\<close>

definition use_network_config :: "string \<Rightarrow> compose_network \<Rightarrow> compose_network" where
  "use_network_config line network =
     (if extract_key line = ''driver'' then network\<lparr>cn_driver := extract_value line\<rparr>
      else if extract_key line = ''external'' then network\<lparr>cn_external := (extract_value line = ''true'')\<rparr>
      else network)"

function networks_body :: "nat \<Rightarrow> string list \<Rightarrow> (string, compose_network) std_map \<Rightarrow>
    (string, compose_network) std_map \<times> string list" where
  "networks_body networks_indent lines networks =
     (case lines of
        [] \<Rightarrow> (networks, [])
      | line # rest \<Rightarrow>
          if trim line = [] \<or> hd (trim line) = CHR ''#'' then networks_body networks_indent rest networks
          else if get_indent_level line \<le> networks_indent then (networks, line # rest)
          else
            (let network_name = extract_key line;
                 network = \<lparr>cn_name = network_name, cn_driver = [], cn_external = False\<rparr>;
                 r = (if extract_value line = ''external'' then (network\<lparr>cn_external := True\<rparr>, rest)
                      else scan_block use_network_config (get_indent_level line) rest network)
             in networks_body networks_indent (snd r) (map_put network_name (fst r) networks)))"
  by pat_completeness auto
termination
  by (relation "measure (\<lambda>(i, lines, networks). length lines)")
    (auto simp: less_Suc_eq_le scan_block_length)

declare networks_body.simps [simp del]

definition parse_networks_section :: "string list \<Rightarrow> (string, compose_network) std_map \<Rightarrow>
    (string, compose_network) std_map \<times> string list" where
  "parse_networks_section lines networks = networks_body (get_indent_level (hd lines)) (tl lines) networks"

function services_body :: "nat \<Rightarrow> string list \<Rightarrow> (string, compose_service) std_map \<Rightarrow>
    (string, compose_service) std_map \<times> string list" where
  "services_body services_indent lines services =
     (case lines of
        [] \<Rightarrow> (services, [])
      | line # rest \<Rightarrow>
          if trim line = [] \<or> hd line = CHR ''#'' then services_body services_indent rest services
          else if get_indent_level line \<le> services_indent then (services, line # rest)
          else
            (let service_name = extract_key line;
                 r = parse_service (line # rest) service_name empty_service
             in services_body services_indent (snd r) (map_put service_name (fst r) services)))"
  by pat_completeness auto
termination
  by (relation "measure (\<lambda>(i, lines, services). length lines)")
    (auto simp: less_Suc_eq_le parse_service_short)

declare services_body.simps [simp del]

definition use_named_volume :: "string \<Rightarrow> (string, string) std_map \<Rightarrow> (string, string) std_map" where
  "use_named_volume line volumes = map_put (extract_key line) [] volumes"

lemma networks_body_length: "length (snd (networks_body i lines networks)) \<le> length lines"
proof (induction "length lines" arbitrary: lines networks rule: less_induct)
  case less
  show ?case
  proof (cases lines)
    case (Cons line rest)
    have IH: "length (snd (networks_body i ls x)) \<le> Suc (length rest)" if "length ls \<le> length rest" for ls x
      using less [of ls x] that by (simp add: Cons)
    show ?thesis unfolding Cons
      by (subst networks_body.simps) (simp add: Let_def IH scan_block_length)
  qed (simp add: networks_body.simps)
qed

lemma services_body_length: "length (snd (services_body i lines services)) \<le> length lines"
proof (induction "length lines" arbitrary: lines services rule: less_induct)
  case less
  show ?case
  proof (cases lines)
    case (Cons line rest)
    have IH: "length (snd (services_body i ls x)) \<le> Suc (length rest)" if "length ls \<le> length rest" for ls x
      using less [of ls x] that by (simp add: Cons)
    show ?thesis unfolding Cons
      by (subst services_body.simps) (simp add: Let_def IH parse_service_short)
  qed (simp add: services_body.simps)
qed

definition top_key :: "string \<Rightarrow> string list \<Rightarrow> compose_file \<Rightarrow> compose_file \<times> string list" where
  "top_key line rest compose =
     (let key = extract_key line in
      if key = ''version'' then (compose\<lparr>cf_version := extract_value line\<rparr>, rest)
      else if key = ''services'' then
        (case services_body (get_indent_level line) rest (cf_services compose) of
           (services, rest') \<Rightarrow> (compose\<lparr>cf_services := services\<rparr>, rest'))
      else if key = ''networks'' then
        (case parse_networks_section (line # rest) (cf_networks compose) of
           (networks, rest') \<Rightarrow> (compose\<lparr>cf_networks := networks\<rparr>, rest'))
      else if key = ''volumes'' then
        (case scan_block use_named_volume (get_indent_level line) rest (cf_volumes compose) of
           (volumes, rest') \<Rightarrow> (compose\<lparr>cf_volumes := volumes\<rparr>, rest'))
      else (compose, rest))"

lemma top_key_length: "length (snd (top_key line rest compose)) \<le> length rest"
  using services_body_length [of "get_indent_level line" rest "cf_services compose"]
    networks_body_length [of "get_indent_level line" rest "cf_networks compose"]
    scan_block_length [of use_named_volume "get_indent_level line" rest "cf_volumes compose"]
  by (auto simp: top_key_def Let_def parse_networks_section_def split: prod.splits)

function parse_lines :: "string list \<Rightarrow> compose_file \<Rightarrow> compose_file" where
  "parse_lines lines compose =
     (case lines of
        [] \<Rightarrow> compose
      | line # rest \<Rightarrow>
          if trim line = [] \<or> hd (trim line) = CHR ''#'' then parse_lines rest compose
          else (let r = top_key line rest compose in parse_lines (snd r) (fst r)))"
  by pat_completeness auto
termination
  by (relation "measure (\<lambda>(lines, compose). length lines)")
    (auto simp: less_Suc_eq_le top_key_length)

declare parse_lines.simps [simp del]

definition parse :: "string \<Rightarrow> compose_file option" where
  "parse yaml_content = Some (parse_lines (getlines (CHR 0x0A) yaml_content) empty_compose)"

text \<open>The file system is a partial map from paths to contents.\<close>

definition parse_file :: "(string \<Rightarrow> string option) \<Rightarrow> string \<Rightarrow> compose_file option" where
  "parse_file fs file_path = (case fs file_path of None \<Rightarrow> None | Some content \<Rightarrow> parse content)"

section \<open>Dependencies\<close>

definition explicit_dependencies :: "string \<Rightarrow> compose_service \<Rightarrow> detected_dependency list" where
  "explicit_dependencies service_name service =
     map (\<lambda>dep. \<lparr>dd_service = service_name, dd_depends_on = dep, dd_type = ''depends_on'',
                 dd_details = ''Explicit dependency in compose file''\<rparr>) (cs_depends_on service)"

definition network_mode_dependencies :: "string \<Rightarrow> compose_service \<Rightarrow> detected_dependency list" where
  "network_mode_dependencies service_name service =
     (if cs_network_mode service \<noteq> [] \<and> substr (cs_network_mode service) 0 8 = ''service:''
      then [\<lparr>dd_service = service_name, dd_depends_on = drop 8 (cs_network_mode service), dd_type = ''network_mode'',
             dd_details = ''Uses network stack of '' @ drop 8 (cs_network_mode service)\<rparr>]
      else [])"

definition network_details :: "compose_service \<Rightarrow> string \<Rightarrow> string" where
  "network_details service network =
     ''Both on network: '' @ network @
     (case map_get (cs_network_static_ips service) network of
        None \<Rightarrow> [] | Some ip \<Rightarrow> '' (static IP: '' @ ip @ '')'')"

definition shared_network_dependencies :: "(string, compose_service) std_map \<Rightarrow> string \<Rightarrow> compose_service \<Rightarrow> detected_dependency list" where
  "shared_network_dependencies services service_name service =
     concat (map (\<lambda>network.
       concat (map (\<lambda>(other_name, other).
         if other_name = service_name \<or> network \<notin> set (cs_networks other) then []
         else [\<lparr>dd_service = service_name, dd_depends_on = other_name, dd_type = ''shared_network'',
                dd_details = network_details service network\<rparr>]) services)) (cs_networks service))"

definition volume_name :: "string \<Rightarrow> string" where
  "volume_name volume = (case find_char (CHR '':'') volume of None \<Rightarrow> volume | Some colon \<Rightarrow> take colon volume)"

definition shared_volume_dependencies :: "(string, compose_service) std_map \<Rightarrow> string \<Rightarrow> compose_service \<Rightarrow> detected_dependency list" where
  "shared_volume_dependencies services service_name service =
     concat (map (\<lambda>volume.
       concat (map (\<lambda>(other_name, other).
         if other_name = service_name then []
         else concat (map (\<lambda>other_volume.
           if volume_name volume = volume_name other_volume
           then [\<lparr>dd_service = service_name, dd_depends_on = other_name, dd_type = ''shared_volume'',
                  dd_details = ''Both use volume: '' @ volume_name volume\<rparr>]
           else []) (cs_volumes other))) services)) (cs_volumes service))"

definition extract_dependencies :: "compose_file \<Rightarrow> detected_dependency list" where
  "extract_dependencies compose =
     concat (map (\<lambda>(service_name, service).
       explicit_dependencies service_name service @
       network_mode_dependencies service_name service @
       shared_network_dependencies (cf_services compose) service_name service @
       shared_volume_dependencies (cf_services compose) service_name service) (cf_services compose))"

section \<open>Properties\<close>

text \<open>The dependencies the reader promises to find, stated on the services themselves.\<close>

definition depends :: "(string, compose_service) std_map \<Rightarrow> string \<Rightarrow> string \<Rightarrow> string \<Rightarrow> bool" where
  "depends services s t d \<longleftrightarrow>
     (case map_get services s of
        None \<Rightarrow> False
      | Some svc \<Rightarrow>
          (t = ''depends_on'' \<and> d \<in> set (cs_depends_on svc))
          \<or> (t = ''network_mode'' \<and> cs_network_mode svc = ''service:'' @ d)
          \<or> (d \<noteq> s \<and> (case map_get services d of
               None \<Rightarrow> False
             | Some other \<Rightarrow>
                 (t = ''shared_network'' \<and> set (cs_networks svc) \<inter> set (cs_networks other) \<noteq> {})
                 \<or> (t = ''shared_volume'' \<and> volume_name ` set (cs_volumes svc) \<inter> volume_name ` set (cs_volumes other) \<noteq> {}))))"

lemma map_get_iff: "std_map_wf m \<Longrightarrow> map_get m k = Some v \<longleftrightarrow> (k, v) \<in> set m"
  by (simp add: map_get_def std_map_wf_distinct)

lemma network_mode_prefix:
  "cs_network_mode svc \<noteq> [] \<and> substr (cs_network_mode svc) 0 8 = ''service:'' \<and> d = drop 8 (cs_network_mode svc)
     \<longleftrightarrow> cs_network_mode svc = ''service:'' @ d"
proof
  assume "cs_network_mode svc \<noteq> [] \<and> substr (cs_network_mode svc) 0 8 = ''service:'' \<and> d = drop 8 (cs_network_mode svc)"
  then have "take 8 (cs_network_mode svc) = ''service:''" "d = drop 8 (cs_network_mode svc)" by (simp_all add: substr_def)
  then show "cs_network_mode svc = ''service:'' @ d" by (metis append_take_drop_id)
qed (simp add: substr_def)

lemma explicit_dependencies_iff:
  "(\<exists>x\<in>set (explicit_dependencies s svc). dd_service x = s' \<and> dd_depends_on x = d \<and> dd_type x = t) \<longleftrightarrow>
     s' = s \<and> t = ''depends_on'' \<and> d \<in> set (cs_depends_on svc)"
  by (auto simp: explicit_dependencies_def)

lemma network_mode_dependencies_iff:
  "(\<exists>x\<in>set (network_mode_dependencies s svc). dd_service x = s' \<and> dd_depends_on x = d \<and> dd_type x = t) \<longleftrightarrow>
     s' = s \<and> t = ''network_mode'' \<and> cs_network_mode svc = ''service:'' @ d"
  unfolding network_mode_prefix [symmetric] by (auto simp: network_mode_dependencies_def)

lemma Bex_concat_map: "(\<exists>x\<in>set (concat (map f xs)). P x) \<longleftrightarrow> (\<exists>a\<in>set xs. \<exists>x\<in>set (f a). P x)"
  by auto

lemma Bex_pairs: "(\<exists>p\<in>S. P p) \<longleftrightarrow> (\<exists>a b. (a, b) \<in> S \<and> P (a, b))"
  by auto

lemma Bex_if_list:
  "(\<exists>x\<in>set (if c then xs else ys). P x) \<longleftrightarrow> (c \<and> (\<exists>x\<in>set xs. P x)) \<or> (\<not> c \<and> (\<exists>x\<in>set ys. P x))"
  by simp

lemma shared_network_dependencies_iff:
  assumes "std_map_wf services"
  shows "(\<exists>x\<in>set (shared_network_dependencies services s svc). dd_service x = s' \<and> dd_depends_on x = d \<and> dd_type x = t) \<longleftrightarrow>
     s' = s \<and> t = ''shared_network'' \<and> d \<noteq> s \<and>
     (\<exists>other. map_get services d = Some other \<and> set (cs_networks svc) \<inter> set (cs_networks other) \<noteq> {})"
proof -
  have "(\<exists>x\<in>set (shared_network_dependencies services s svc). dd_service x = s' \<and> dd_depends_on x = d \<and> dd_type x = t) \<longleftrightarrow>
    (\<exists>n\<in>set (cs_networks svc). \<exists>d' other. (d', other) \<in> set services \<and> d' \<noteq> s \<and> n \<in> set (cs_networks other)
       \<and> s = s' \<and> d' = d \<and> ''shared_network'' = t)"
    unfolding shared_network_dependencies_def Bex_concat_map Bex_pairs prod.case Bex_if_list by auto
  then show ?thesis unfolding map_get_iff [OF assms] by (auto simp: disjoint_iff)
qed

lemma shared_volume_dependencies_iff:
  assumes "std_map_wf services"
  shows "(\<exists>x\<in>set (shared_volume_dependencies services s svc). dd_service x = s' \<and> dd_depends_on x = d \<and> dd_type x = t) \<longleftrightarrow>
     s' = s \<and> t = ''shared_volume'' \<and> d \<noteq> s \<and>
     (\<exists>other. map_get services d = Some other \<and> volume_name ` set (cs_volumes svc) \<inter> volume_name ` set (cs_volumes other) \<noteq> {})"
proof -
  have "(\<exists>x\<in>set (shared_volume_dependencies services s svc). dd_service x = s' \<and> dd_depends_on x = d \<and> dd_type x = t) \<longleftrightarrow>
    (\<exists>v\<in>set (cs_volumes svc). \<exists>d' other. (d', other) \<in> set services \<and> d' \<noteq> s \<and>
       (\<exists>v'\<in>set (cs_volumes other). volume_name v = volume_name v' \<and> s = s' \<and> d' = d \<and> ''shared_volume'' = t))"
    unfolding shared_volume_dependencies_def Bex_concat_map Bex_pairs prod.case Bex_if_list Bex_concat_map by auto
  then show ?thesis unfolding map_get_iff [OF assms] by (auto simp: disjoint_iff image_iff)
qed

lemma lookup_alternatives:
  "(\<exists>s' x. m s' = Some x \<and> ((s = s' \<and> A s' x) \<or> (s = s' \<and> B s' x) \<or> (s = s' \<and> C s' x) \<or> (s = s' \<and> D s' x))) \<longleftrightarrow>
     (case m s of None \<Rightarrow> False | Some x \<Rightarrow> A s x \<or> B s x \<or> C s x \<or> D s x)"
  by (auto split: option.splits)

text \<open>
  Dependency extraction is sound and complete: a dependency of type \<open>t\<close> from service \<open>s\<close> to \<open>d\<close> is
  reported exactly when the services say so: listed in \<open>depends_on\<close>, named by
  \<open>network_mode: service:d\<close>, or, for another service \<open>d\<close>, sharing a network or a volume name.
\<close>

lemma extract_dependencies_exact:
  assumes "std_map_wf (cf_services compose)"
  shows "(\<exists>x\<in>set (extract_dependencies compose). dd_service x = s \<and> dd_depends_on x = d \<and> dd_type x = t) \<longleftrightarrow>
     depends (cf_services compose) s t d"
proof -
  have eq: "(\<exists>x\<in>set (extract_dependencies compose). dd_service x = s \<and> dd_depends_on x = d \<and> dd_type x = t) \<longleftrightarrow>
    (\<exists>s' svc. map_get (cf_services compose) s' = Some svc \<and>
      ((\<exists>x\<in>set (explicit_dependencies s' svc). dd_service x = s \<and> dd_depends_on x = d \<and> dd_type x = t) \<or>
       (\<exists>x\<in>set (network_mode_dependencies s' svc). dd_service x = s \<and> dd_depends_on x = d \<and> dd_type x = t) \<or>
       (\<exists>x\<in>set (shared_network_dependencies (cf_services compose) s' svc). dd_service x = s \<and> dd_depends_on x = d \<and> dd_type x = t) \<or>
       (\<exists>x\<in>set (shared_volume_dependencies (cf_services compose) s' svc). dd_service x = s \<and> dd_depends_on x = d \<and> dd_type x = t)))"
    unfolding extract_dependencies_def Bex_concat_map Bex_pairs map_get_iff [OF assms] prod.case set_append bex_Un ..
  define N V where "N svc other \<longleftrightarrow> set (cs_networks svc) \<inter> set (cs_networks other) \<noteq> {}"
    and "V svc other \<longleftrightarrow> volume_name ` set (cs_volumes svc) \<inter> volume_name ` set (cs_volumes other) \<noteq> {}"
    for svc other
  show ?thesis
    unfolding eq explicit_dependencies_iff network_mode_dependencies_iff
      shared_network_dependencies_iff [OF assms] shared_volume_dependencies_iff [OF assms]
    unfolding depends_def N_def [symmetric] V_def [symmetric]
    unfolding lookup_alternatives
    by (cases "map_get (cf_services compose) s"; cases "map_get (cf_services compose) d"; cases "d = s") simp_all
qed

definition demo_compose :: compose_file where
  "demo_compose = empty_compose\<lparr>cf_services :=
     [(''db'', empty_service\<lparr>cs_volumes := [''data:/var/lib'']\<rparr>),
      (''web'', empty_service\<lparr>cs_network_mode := ''service:vpn'', cs_volumes := [''data:/srv'']\<rparr>)]\<rparr>"

lemma extract_dependencies_exact_example:
  "\<exists>x\<in>set (extract_dependencies demo_compose). dd_service x = ''web'' \<and> dd_depends_on x = ''db'' \<and> dd_type x = ''shared_volume''"
proof -
  have "std_map_wf (cf_services demo_compose)" by (simp add: demo_compose_def empty_compose_def std_map_wf_def)
  moreover have "depends (cf_services demo_compose) ''web'' ''shared_volume'' ''db''"
    by (simp add: demo_compose_def empty_compose_def empty_service_def depends_def map_get_def volume_name_def find_char_def)
  ultimately show ?thesis using extract_dependencies_exact by blast
qed

text \<open>
  Indented comments are not comments: directly below \<open>services:\<close> the reader skips a comment only when
  \<open>#\<close> is the very first character, so an indented comment line becomes a service named after it; and
  an indented comment in an \<open>environment:\<close> section becomes a variable.
\<close>

lemma indented_comment_becomes_service:
  "map fst (cf_services (parse_lines [''services:'', ''  # main app'', ''  web:'', ''    image: nginx''] empty_compose))
     = [''# main app'', ''web'']
   \<and> map (\<lambda>(k, v). (k, cs_environment v)) (cf_services (parse_lines
        [''services:'', ''  web:'', ''    environment:'', ''      # debug: on'', ''      - A=1''] empty_compose))
     = [(''web'', [(''# debug'', ''on''), (''A'', ''1'')])]"
  by code_simp

end
