(* ===== verification/Docker_Start_Order.thy ===== *)
theory Docker_Start_Order
  imports Nazg_Prelude
begin

text \<open>
  Start order of services: \<open>Orchestrator::topological_sort\<close> and \<open>calculate_start_order\<close> in
  \<open>modules/docker_monitor/src/orchestrator.cpp\<close>. The graph is the \<open>std::map\<close> of the code; the map of
  in-degrees is a total function with default 0, which is how \<open>operator[]\<close> reads and writes it. The
  rows that the database returns for a service are an argument.
\<close>

type_synonym dep_graph = "(string, string list) std_map"

section \<open>Topological sort\<close>

text \<open>\<open>std::set::insert\<close> on a sorted list.\<close>

fun set_insert :: "'a::linorder \<Rightarrow> 'a list \<Rightarrow> 'a list" where
  "set_insert x [] = [x]"
| "set_insert x (y # ys) = (if x < y then x # y # ys else if x = y then y # ys else y # set_insert x ys)"

definition count_node :: "string \<times> string list \<Rightarrow> (string \<Rightarrow> int) \<times> string list \<Rightarrow> (string \<Rightarrow> int) \<times> string list" where
  "count_node kv st =
     (case kv of (node, neighbors) \<Rightarrow>
        fold (\<lambda>n (deg, nodes). (deg(n := deg n + 1), set_insert n nodes)) neighbors
          (fst st, set_insert node (snd st)))"

definition in_degrees :: "dep_graph \<Rightarrow> (string \<Rightarrow> int) \<times> string list" where
  "in_degrees graph = fold count_node graph (\<lambda>_. 0, [])"

definition relax :: "string list \<Rightarrow> (string \<Rightarrow> int) \<times> string list \<Rightarrow> (string \<Rightarrow> int) \<times> string list" where
  "relax neighbors st =
     fold (\<lambda>n (deg, q).
        let deg' = deg(n := deg n - 1)
        in (deg', if deg' n = 0 then queue_push n q else q)) neighbors st"

definition neighbors_of :: "dep_graph \<Rightarrow> string \<Rightarrow> string list" where
  "neighbors_of graph node = (case map_get graph node of None \<Rightarrow> [] | Some ns \<Rightarrow> ns)"

text \<open>
  Each popped node costs one unit of \<open>kahn_work\<close>: a push is paid for by a node whose in-degree
  stops being positive. So the loop ends from every state, cyclic graphs included.
\<close>

definition targets :: "dep_graph \<Rightarrow> string set" where
  "targets graph = set (concat (map snd graph))"

definition kahn_work :: "dep_graph \<Rightarrow> (string \<Rightarrow> int) \<Rightarrow> string list \<Rightarrow> nat" where
  "kahn_work graph deg q = length q + card {n \<in> targets graph. deg n > 0}"

lemma finite_targets [simp]: "finite (targets graph)"
  by (simp add: targets_def)

lemma neighbors_in_targets: "set (neighbors_of graph x) \<subseteq> targets graph"
  by (cases "map_get graph x") (auto simp: neighbors_of_def targets_def dest!: map_get_in_set intro: rev_bexI)

lemma relax_Nil [simp]: "relax [] st = st"
  by (simp add: relax_def)

lemma relax_Cons:
  "relax (n # ns) (deg, q) = relax ns (deg(n := deg n - 1), if deg n = 1 then q @ [n] else q)"
  by (simp add: relax_def queue_push_def)

lemma relax_work:
  "set ns \<subseteq> targets graph \<Longrightarrow> relax ns (deg, q) = (deg', q') \<Longrightarrow> kahn_work graph deg' q' = kahn_work graph deg q"
proof (induction ns arbitrary: deg q)
  case (Cons n ns)
  let ?d = "deg(n := deg n - 1)"
  let ?q = "if deg n = 1 then q @ [n] else q"
  have "kahn_work graph ?d ?q = kahn_work graph deg q"
  proof (cases "deg n = 1")
    case True
    then have "{m \<in> targets graph. deg m > 0} = insert n {m \<in> targets graph. ?d m > 0}"
      using Cons.prems(1) by auto
    then have "card {m \<in> targets graph. deg m > 0} = Suc (card {m \<in> targets graph. ?d m > 0})"
      using True by (simp add: card_insert_if)
    then show ?thesis using True by (simp add: kahn_work_def)
  next
    case False
    then have "{m \<in> targets graph. deg m > 0} = {m \<in> targets graph. ?d m > 0}" by auto
    then show ?thesis using False by (simp add: kahn_work_def)
  qed
  moreover have "kahn_work graph deg' q' = kahn_work graph ?d ?q"
  proof (rule Cons.IH)
    show "relax ns (?d, ?q) = (deg', q')" using Cons.prems(2) by (simp only: relax_Cons)
  qed (use Cons.prems(1) in simp)
  ultimately show ?case by simp
qed simp

lemma kahn_work_pop:
  assumes "queue_pop q = Some (node, q1)" "relax (neighbors_of graph node) (deg, q1) = (deg', q2)"
  shows "kahn_work graph deg' q2 < kahn_work graph deg q"
proof -
  have "q = node # q1" using assms(1) by (rule std_queue.pop_Some)
  moreover have "kahn_work graph deg' q2 = kahn_work graph deg q1"
    by (rule relax_work [OF neighbors_in_targets assms(2)])
  ultimately show ?thesis by (simp add: kahn_work_def)
qed

function kahn :: "dep_graph \<Rightarrow> (string \<Rightarrow> int) \<Rightarrow> string list \<Rightarrow> string list \<Rightarrow> string list" where
  "kahn graph deg q result =
     (case queue_pop q of
        None \<Rightarrow> result
      | Some (node, q1) \<Rightarrow>
          (case relax (neighbors_of graph node) (deg, q1) of
             (deg', q2) \<Rightarrow> kahn graph deg' q2 (result @ [node])))"
  by pat_completeness auto
termination
  by (relation "measure (\<lambda>(graph, deg, q, result). kahn_work graph deg q)")
    (simp, auto intro: kahn_work_pop dest: sym)

declare kahn.simps [simp del]

definition topological_sort :: "dep_graph \<Rightarrow> string list" where
  "topological_sort graph =
     (case in_degrees graph of (deg, nodes) \<Rightarrow>
        kahn graph deg (fold (\<lambda>n q. if deg n = 0 then queue_push n q else q) nodes []) [])"

text \<open>The warning about cycles is logged when the result misses a node.\<close>

definition cycle_warning :: "dep_graph \<Rightarrow> bool" where
  "cycle_warning graph \<longleftrightarrow> length (topological_sort graph) \<noteq> length (snd (in_degrees graph))"

section \<open>Start order\<close>

record service_dependency =
  sd_service_name :: string
  sd_depends_on :: string
  sd_type :: string

definition hard_dependency :: "service_dependency \<Rightarrow> bool" where
  "hard_dependency d \<longleftrightarrow> sd_type d = ''depends_on'' \<or> sd_type d = ''network_mode'' \<or> sd_type d = ''hard''"

definition start_graph :: "(string \<Rightarrow> service_dependency list) \<Rightarrow> string list \<Rightarrow> dep_graph" where
  "start_graph get_dependencies services =
     fold (\<lambda>s g. map_put s (map sd_depends_on (filter hard_dependency (get_dependencies s))) g) services []"

definition calculate_start_order :: "(string \<Rightarrow> service_dependency list) \<Rightarrow> string list \<Rightarrow> string list" where
  "calculate_start_order get_dependencies services = topological_sort (start_graph get_dependencies services)"

section \<open>Correctness of the sort\<close>

text \<open>The number of edges from \<open>u\<close> to \<open>v\<close>, and the nodes of the graph.\<close>

definition edge_count :: "dep_graph \<Rightarrow> string \<Rightarrow> string \<Rightarrow> nat" where
  "edge_count graph u v = count_list (neighbors_of graph u) v"

definition graph_nodes :: "dep_graph \<Rightarrow> string set" where
  "graph_nodes graph = set (map fst graph) \<union> targets graph"

definition edges :: "dep_graph \<Rightarrow> (string \<times> string) set" where
  "edges graph = {(u, v). v \<in> set (neighbors_of graph u)}"

definition before :: "'a \<Rightarrow> 'a \<Rightarrow> 'a list \<Rightarrow> bool" where
  "before a b xs \<longleftrightarrow> b \<in> set xs \<and> a \<in> set (takeWhile (\<lambda>x. x \<noteq> b) xs)"

lemma takeWhile_neq_append: "b \<notin> set xs \<Longrightarrow> takeWhile (\<lambda>y. y \<noteq> b) (xs @ ys) = xs @ takeWhile (\<lambda>y. y \<noteq> b) ys"
  by (induction xs) auto

lemma before_snoc:
  assumes "x \<notin> set xs"
  shows "before a b (xs @ [x]) \<longleftrightarrow> before a b xs \<or> (b = x \<and> a \<in> set xs)"
proof (cases "b \<in> set xs")
  case True
  with assms show ?thesis by (auto simp: before_def)
next
  case False
  then show ?thesis unfolding before_def by (cases "b = x") (simp_all add: takeWhile_neq_append)
qed

lemma set_set_insert [simp]: "set (set_insert x xs) = insert x (set xs)"
  by (induction x xs rule: set_insert.induct) auto

lemma sorted_set_insert: "sorted_wrt (<) xs \<Longrightarrow> sorted_wrt (<) (set_insert x xs)"
proof (induction x xs rule: set_insert.induct)
  case (2 x y ys)
  show ?case
  proof (cases x y rule: linorder_cases)
    case less
    with "2.prems" have "\<forall>z\<in>set ys. x < z" by (meson less_trans sorted_wrt.simps(2))
    then show ?thesis using less "2.prems" by simp
  qed (use 2 in auto)
qed simp

lemma count_neighbors:
  "fold (\<lambda>n (deg, nodes). (deg(n := deg n + 1), set_insert n nodes)) ns (deg, nodes) = (deg', nodes') \<Longrightarrow>
     (\<forall>v. deg' v = deg v + int (count_list ns v)) \<and> set nodes' = set nodes \<union> set ns
     \<and> (sorted_wrt (<) nodes \<longrightarrow> sorted_wrt (<) nodes')"
proof (induction ns arbitrary: deg nodes)
  case (Cons n ns)
  have "fold (\<lambda>n (deg, nodes). (deg(n := deg n + 1), set_insert n nodes)) ns (deg(n := deg n + 1), set_insert n nodes)
      = (deg', nodes')" using Cons.prems by (simp only: fold_simps prod.case)
  from Cons.IH [OF this] show ?case by (simp add: sorted_set_insert)
qed simp

lemma in_degrees_fold:
  "fold count_node kvs (deg, nodes) = (deg', nodes') \<Longrightarrow>
     (\<forall>v. deg' v = deg v + (\<Sum>kv\<leftarrow>kvs. int (count_list (snd kv) v)))
     \<and> set nodes' = set nodes \<union> set (map fst kvs) \<union> set (concat (map snd kvs))
     \<and> (sorted_wrt (<) nodes \<longrightarrow> sorted_wrt (<) nodes')"
proof (induction kvs arbitrary: deg nodes)
  case (Cons kv kvs)
  obtain u ns where kv: "kv = (u, ns)" by (cases kv)
  obtain d1 n1 where s: "count_node kv (deg, nodes) = (d1, n1)" by (cases "count_node kv (deg, nodes)")
  with kv have "fold (\<lambda>n (deg, nodes). (deg(n := deg n + 1), set_insert n nodes)) ns (deg, set_insert u nodes) = (d1, n1)"
    by (simp add: count_node_def)
  note c = count_neighbors [OF this]
  have "fold count_node kvs (d1, n1) = (deg', nodes')" using Cons.prems s by simp
  note i = Cons.IH [OF this]
  show ?case using c i kv by (auto simp: sorted_set_insert)
qed simp

definition in_edges :: "dep_graph \<Rightarrow> string set \<Rightarrow> string \<Rightarrow> int" where
  "in_edges graph R v = (\<Sum>u\<in>set (map fst graph) - R. int (edge_count graph u v))"

lemma in_degrees_correct:
  assumes "std_map_wf graph" "in_degrees graph = (deg, nodes)"
  shows "deg v = in_edges graph {} v" "set nodes = graph_nodes graph" "distinct nodes"
proof -
  from assms(2) have f: "fold count_node graph (\<lambda>_. 0, []) = (deg, nodes)" by (simp add: in_degrees_def)
  note i = in_degrees_fold [OF f]
  have d: "distinct (map fst graph)" by (rule std_map_wf_distinct [OF assms(1)])
  have "deg v = (\<Sum>kv\<leftarrow>graph. int (edge_count graph (fst kv) v))"
    using i d by (auto simp: edge_count_def neighbors_of_def map_get_def intro!: arg_cong [where f = sum_list] map_cong)
  also have "\<dots> = (\<Sum>u\<leftarrow>map fst graph. int (edge_count graph u v))" by (simp add: comp_def)
  also have "\<dots> = in_edges graph {} v"
    using d unfolding in_edges_def by (simp only: sum_list_distinct_conv_sum_set Diff_empty)
  finally show "deg v = in_edges graph {} v" .
  show "set nodes = graph_nodes graph" using i by (simp add: graph_nodes_def targets_def)
  show "distinct nodes" using i by (simp add: strict_sorted_iff)
qed

lemma relax_correct:
  assumes "\<forall>v. int (count_list ns v) \<le> deg v" "relax ns (deg, q) = (deg', q')"
  shows "(\<forall>v. deg' v = deg v - int (count_list ns v))
     \<and> (\<exists>p. q' = q @ p \<and> distinct p \<and> set p = {v \<in> set ns. deg v = int (count_list ns v)})"
  using assms
proof (induction ns arbitrary: deg q)
  case (Cons n ns)
  let ?d = "deg(n := deg n - 1)"
  let ?q = "if deg n = 1 then q @ [n] else q"
  have le: "\<forall>v. int (count_list ns v) \<le> ?d v"
  proof
    fix v show "int (count_list ns v) \<le> ?d v" using Cons.prems(1) [rule_format, of v] by (auto split: if_splits)
  qed
  obtain p where p: "\<forall>v. deg' v = ?d v - int (count_list ns v)" "q' = ?q @ p" "distinct p"
    "set p = {v \<in> set ns. ?d v = int (count_list ns v)}"
    using Cons.IH [OF le Cons.prems(2) [unfolded relax_Cons]] by blast
  have deg': "\<forall>v. deg' v = deg v - int (count_list (n # ns) v)" using p(1) by auto
  show ?case
  proof (cases "deg n = 1")
    case True
    then have "n \<notin> set ns" using Cons.prems(1) by (auto dest!: spec [of _ n] simp: count_list_0_iff)
    then have "set (n # p) = {v \<in> set (n # ns). deg v = int (count_list (n # ns) v)}" "distinct (n # p)"
      using p True by (auto simp: count_list_0_iff)
    then show ?thesis using deg' p(2) True by (intro conjI exI [of _ "n # p"]) auto
  next
    case False
    have "v \<in> set p \<longleftrightarrow> v \<in> set (n # ns) \<and> deg v = int (count_list (n # ns) v)" for v
      using p(4) False by (cases "v = n"; cases "v \<in> set ns") auto
    then have "set p = {v \<in> set (n # ns). deg v = int (count_list (n # ns) v)}" by blast
    then show ?thesis using deg' p(2,3) False by (intro conjI exI [of _ p]) auto
  qed
qed simp

text \<open>
  Loop invariant: the in-degree counts the edges from nodes not yet in the result; queue and result
  hold, without repetition, exactly the nodes whose in-degree is 0; and in the result every node
  comes after all its predecessors.
\<close>

definition kahn_inv :: "dep_graph \<Rightarrow> (string \<Rightarrow> int) \<Rightarrow> string list \<Rightarrow> string list \<Rightarrow> bool" where
  "kahn_inv graph deg q result \<longleftrightarrow>
     (\<forall>v. deg v = in_edges graph (set result) v)
     \<and> distinct (result @ q)
     \<and> set (result @ q) = {v \<in> graph_nodes graph. deg v = 0}
     \<and> (\<forall>(u, v)\<in>edges graph. v \<in> set result \<longrightarrow> before u v result)"

lemma edges_source: "(u, v) \<in> edges graph \<Longrightarrow> u \<in> set (map fst graph) \<and> 0 < edge_count graph u v"
proof -
  assume "(u, v) \<in> edges graph"
  then have v: "v \<in> set (neighbors_of graph u)" by (simp add: edges_def)
  then obtain ns where "map_get graph u = Some ns" by (cases "map_get graph u") (auto simp: neighbors_of_def)
  from map_get_in_set [OF this] have "u \<in> set (map fst graph)" by force
  moreover have "edge_count graph u v \<noteq> 0" using v by (simp add: edge_count_def count_list_0_iff)
  ultimately show ?thesis by simp
qed

lemma in_edges_zero:
  assumes "in_edges graph R v = 0" "(u, v) \<in> edges graph"
  shows "u \<in> R"
proof (rule ccontr)
  assume "u \<notin> R"
  with edges_source [OF assms(2)] have "u \<in> set (map fst graph) - R" "0 < int (edge_count graph u v)" by auto
  then have "0 < in_edges graph R v" unfolding in_edges_def
    by (intro sum_pos2 [where i = u]) auto
  with assms(1) show False by simp
qed

lemma in_edges_insert:
  assumes "x \<notin> R"
  shows "in_edges graph (insert x R) v = in_edges graph R v - int (edge_count graph x v)"
proof (cases "x \<in> set (map fst graph)")
  case True
  have "in_edges graph R v = int (edge_count graph x v) + in_edges graph (insert x R) v"
    unfolding in_edges_def Diff_insert [of _ x R] by (rule sum.remove) (use True assms in auto)
  then show ?thesis by simp
next
  case False
  then have "edge_count graph x v = 0"
    by (simp add: edge_count_def neighbors_of_def map_get_def map_of_eq_None_iff [THEN iffD2])
  moreover have "set (map fst graph) - insert x R = set (map fst graph) - R" using False by auto
  ultimately show ?thesis unfolding in_edges_def by simp
qed

lemma kahn_inv_step:
  assumes inv: "kahn_inv graph deg (x # q) result"
    and r: "relax (neighbors_of graph x) (deg, q) = (deg', q')"
  shows "kahn_inv graph deg' q' (result @ [x])"
proof -
  have x: "x \<notin> set result" "x \<notin> set q" "deg x = 0" "x \<in> graph_nodes graph"
    using inv by (auto simp: kahn_inv_def)
  have deg: "deg v = in_edges graph (set result) v" for v using inv by (simp add: kahn_inv_def)
  have ins: "in_edges graph (insert x (set result)) v = deg v - int (edge_count graph x v)" for v
    using in_edges_insert [OF x(1)] deg by simp
  have nonneg: "0 \<le> in_edges graph R v" for R v by (simp add: in_edges_def sum_nonneg)
  have le: "\<forall>v. int (count_list (neighbors_of graph x) v) \<le> deg v"
  proof
    fix v show "int (count_list (neighbors_of graph x) v) \<le> deg v"
      using ins [of v] nonneg [of "insert x (set result)" v] by (simp add: edge_count_def)
  qed
  from relax_correct [OF le r] obtain p where
    d': "\<forall>v. deg' v = deg v - int (edge_count graph x v)" and q': "q' = q @ p" "distinct p"
    "set p = {v \<in> set (neighbors_of graph x). deg v = int (edge_count graph x v)}"
    by (auto simp: edge_count_def)
  have pre: "u \<in> set result" if "(u, x) \<in> edges graph" for u
    using in_edges_zero [of graph "set result" x u] that deg [of x] x(3) by simp
  have ne: "deg v \<noteq> 0" if "v \<in> set p" for v
    using that q'(3) by (auto simp: edge_count_def count_list_0_iff)
  have old: "distinct (result @ x # q)" "set (result @ x # q) = {v \<in> graph_nodes graph. deg v = 0}"
    using inv by (auto simp: kahn_inv_def)
  have "distinct ((result @ [x]) @ q')"
  proof -
    have "set p \<inter> set (result @ x # q) = {}" using ne unfolding old(2) by auto
    then show ?thesis using old(1) q'(1,2) by auto
  qed
  moreover have "set ((result @ [x]) @ q') = {v \<in> graph_nodes graph. deg' v = 0}"
  proof -
    have "deg' v = 0 \<longleftrightarrow> deg v = 0 \<or> v \<in> set p" for v
    proof (cases "v \<in> set (neighbors_of graph x)")
      case True
      then have "0 < count_list (neighbors_of graph x) v" by (simp add: count_list_0_iff zero_less_iff_neq_zero)
      then show ?thesis using True d' [rule_format, of v] q'(3) le [rule_format, of v] by (auto simp: edge_count_def)
    next
      case False
      then show ?thesis using d' [rule_format, of v] q'(3) by (simp add: edge_count_def)
    qed
    moreover have "set p \<subseteq> graph_nodes graph"
      using q'(3) neighbors_in_targets [of graph x] by (auto simp: graph_nodes_def)
    ultimately show ?thesis using old(2) q'(1) by auto
  qed
  moreover have "\<forall>(u, v)\<in>edges graph. v \<in> set (result @ [x]) \<longrightarrow> before u v (result @ [x])"
    using inv pre x(1) by (auto simp: kahn_inv_def before_snoc)
  ultimately show ?thesis using d' ins unfolding kahn_inv_def by simp
qed

lemma kahn_result: "kahn_inv graph deg q result \<Longrightarrow>
  \<exists>deg'. kahn_inv graph deg' [] (kahn graph deg q result)"
proof (induction graph deg q result rule: kahn.induct)
  case (1 graph deg q result)
  show ?case
  proof (cases q)
    case Nil
    then show ?thesis using "1.prems" by (auto simp: kahn.simps [of graph deg "[]"] queue_pop_def)
  next
    case (Cons x q1)
    obtain deg' q' where r: "relax (neighbors_of graph x) (deg, q1) = (deg', q')"
      by (cases "relax (neighbors_of graph x) (deg, q1)")
    have pop: "queue_pop q = Some (x, q1)" using Cons by (simp add: queue_pop_def)
    have "kahn_inv graph deg' q' (result @ [x])"
      by (rule kahn_inv_step [OF _ r]) (use "1.prems" Cons in simp)
    from "1.IH" [OF pop refl r [symmetric] this]
    show ?thesis using pop r by (simp add: kahn.simps [of graph deg q])
  qed
qed

lemma fold_filter_push: "fold (\<lambda>n q. if P n then queue_push n q else q) ns q = q @ filter P ns"
  by (induction ns arbitrary: q) (auto simp: queue_push_def)

lemma topological_sort_inv:
  assumes "std_map_wf graph"
  shows "\<exists>deg. kahn_inv graph deg [] (topological_sort graph)"
proof -
  obtain deg nodes where i: "in_degrees graph = (deg, nodes)" by (cases "in_degrees graph")
  note c = in_degrees_correct [OF assms i]
  have "kahn_inv graph deg (filter (\<lambda>n. deg n = 0) nodes) []"
    using c by (auto simp: kahn_inv_def)
  from kahn_result [OF this] show ?thesis
    by (simp add: topological_sort_def i fold_filter_push)
qed

text \<open>What the sort guarantees for the edges of the graph it is given.\<close>

lemma before_irrefl: "\<not> before x x xs"
  by (auto simp: before_def dest: set_takeWhileD)

lemma before_trans:
  assumes "before a b xs" "before b c xs" "distinct xs"
  shows "before a c xs"
proof -
  from assms(2) obtain ys zs where s: "xs = ys @ c # zs" "c \<notin> set ys"
    using split_list_first [of c xs] by (auto simp: before_def)
  then have tw: "takeWhile (\<lambda>x. x \<noteq> c) xs = ys" by (simp add: takeWhile_neq_append)
  with assms(2) have "b \<in> set ys" by (simp add: before_def)
  then have "takeWhile (\<lambda>x. x \<noteq> b) xs = takeWhile (\<lambda>x. x \<noteq> b) ys" using s by (simp add: takeWhile_append1)
  with assms(1) have "a \<in> set ys" by (auto simp: before_def dest: set_takeWhileD)
  then show ?thesis using s tw by (simp add: before_def)
qed

lemma sort_orders_edges:
  assumes "std_map_wf graph"
  shows "distinct (topological_sort graph)" "set (topological_sort graph) \<subseteq> graph_nodes graph"
    "\<And>u v. (u, v) \<in> edges graph \<Longrightarrow> v \<in> set (topological_sort graph) \<Longrightarrow> before u v (topological_sort graph)"
  using topological_sort_inv [OF assms] by (auto simp: kahn_inv_def)

lemma edges_in_nodes: "(u, v) \<in> edges graph \<Longrightarrow> u \<in> graph_nodes graph \<and> v \<in> graph_nodes graph"
  using edges_source [of u v graph] neighbors_in_targets [of graph u] by (auto simp: graph_nodes_def edges_def)

lemma finite_edges: "finite (edges graph)"
proof (rule finite_subset)
  show "edges graph \<subseteq> graph_nodes graph \<times> graph_nodes graph" using edges_in_nodes by auto
  show "finite (graph_nodes graph \<times> graph_nodes graph)" by (simp add: graph_nodes_def)
qed

lemma acyclic_sort_complete:
  assumes "std_map_wf graph" "acyclic (edges graph)"
  shows "set (topological_sort graph) = graph_nodes graph"
proof (rule ccontr)
  assume "\<not> ?thesis"
  then obtain x where x: "x \<in> graph_nodes graph - set (topological_sort graph)"
    using sort_orders_edges(2) [OF assms(1)] by blast
  from topological_sort_inv [OF assms(1)] obtain deg where i: "kahn_inv graph deg [] (topological_sort graph)" by blast
  have "wf (edges graph)" by (rule finite_acyclic_wf [OF finite_edges assms(2)])
  from wfE_min [OF this x] obtain z where z: "z \<in> graph_nodes graph - set (topological_sort graph)"
    and min: "\<And>y. (y, z) \<in> edges graph \<Longrightarrow> y \<notin> graph_nodes graph - set (topological_sort graph)" by metis
  have "edge_count graph u z = 0" if "u \<notin> set (topological_sort graph)" for u
    using min [of u] edges_in_nodes [of u z graph] that
    by (auto simp: edge_count_def count_list_0_iff edges_def)
  then have "in_edges graph (set (topological_sort graph)) z = 0" by (simp add: in_edges_def)
  moreover have "deg z = in_edges graph (set (topological_sort graph)) z"
    "set (topological_sort graph @ []) = {v \<in> graph_nodes graph. deg v = 0}"
    using i unfolding kahn_inv_def by blast+
  ultimately show False using z by auto
qed

lemma complete_sort_acyclic:
  assumes "std_map_wf graph" "set (topological_sort graph) = graph_nodes graph"
  shows "acyclic (edges graph)"
proof (rule acyclicI, intro allI)
  fix x
  let ?res = "topological_sort graph"
  have b: "before u v ?res" if "(u, v) \<in> edges graph" for u v
    using sort_orders_edges(3) [OF assms(1) that] edges_in_nodes [OF that] assms(2) by blast
  have "before u v ?res" if "(u, v) \<in> (edges graph)\<^sup>+" for u v
    using that by (induction rule: trancl_induct)
      (auto intro: b before_trans [OF _ _ sort_orders_edges(1) [OF assms(1)]])
  then show "(x, x) \<notin> (edges graph)\<^sup>+" using before_irrefl by metis
qed

section \<open>Properties\<close>

text \<open>
  \<^bold>\<open>C5\<close> Kahn's algorithm as written: on every dependency map the result lists nodes of the graph
  without repetition, the source of an edge always before its target; all nodes are listed exactly
  when the graph has no cycle, so the cycle warning is given for cyclic graphs and only for them.
\<close>

theorem topological_sort_correct:
  assumes "std_map_wf graph"
  shows "distinct (topological_sort graph) \<and> set (topological_sort graph) \<subseteq> graph_nodes graph
     \<and> (\<forall>(u, v)\<in>edges graph. v \<in> set (topological_sort graph) \<longrightarrow> before u v (topological_sort graph))
     \<and> (acyclic (edges graph) \<longrightarrow> set (topological_sort graph) = graph_nodes graph)
     \<and> (cycle_warning graph \<longleftrightarrow> \<not> acyclic (edges graph))"
proof -
  obtain deg nodes where n: "in_degrees graph = (deg, nodes)" by (cases "in_degrees graph")
  note c = in_degrees_correct [OF assms n]
  have "length (topological_sort graph) = length nodes \<longleftrightarrow> set (topological_sort graph) = graph_nodes graph"
    using c(2,3) sort_orders_edges(1,2) [OF assms]
    by (metis List.finite_set card_subset_eq distinct_card)
  then have "cycle_warning graph \<longleftrightarrow> \<not> acyclic (edges graph)"
    using acyclic_sort_complete [OF assms] complete_sort_acyclic [OF assms] n by (auto simp: cycle_warning_def)
  then show ?thesis
    using sort_orders_edges [OF assms] acyclic_sort_complete [OF assms] by blast
qed

theorem topological_sort_correct_witness:
  "before ''a'' ''b'' (topological_sort [(''a'', [''b'', ''c'']), (''b'', [''c''])])"
proof -
  have "std_map_wf [(''a'', [''b'', ''c'']), (''b'', [''c''])]" by (simp add: std_map_wf_def)
  moreover have "(''a'', ''b'') \<in> edges [(''a'', [''b'', ''c'']), (''b'', [''c''])]"
    by (simp add: edges_def neighbors_of_def map_get_def)
  moreover have "''b'' \<in> set (topological_sort [(''a'', [''b'', ''c'']), (''b'', [''c''])])" by code_simp
  ultimately show ?thesis using topological_sort_correct by blast
qed

lemma start_graph_wf: "std_map_wf (start_graph get_dependencies services)"
proof -
  have "std_map_wf (fold (\<lambda>s. map_put s (f s)) services g)" if "std_map_wf g" for f :: "string \<Rightarrow> string list" and g
    using that by (induction services arbitrary: g) (auto intro: std_map_wf_put)
  then show ?thesis unfolding start_graph_def by (simp add: std_map_wf_def)
qed

lemma start_graph_get:
  "neighbors_of (start_graph get_dependencies services) s =
     (if s \<in> set services then map sd_depends_on (filter hard_dependency (get_dependencies s)) else [])"
proof -
  have "map_get (fold (\<lambda>s. map_put s (f s)) services g) s = (if s \<in> set services then Some (f s) else map_get g s)"
    for f :: "string \<Rightarrow> string list" and g
    by (induction services arbitrary: g) (auto simp: map_get_put)
  then show ?thesis by (simp add: neighbors_of_def start_graph_def)
qed

text \<open>
  \<^bold>\<open>C10\<close> The computed start order is reversed: for acyclic dependencies every hard dependency of a
  service is listed, and it is listed \<^emph>\<open>after\<close> the service that needs it, so starting in the returned
  order starts each service before what it depends on.
\<close>

theorem start_order_reversed:
  assumes "acyclic {(s, sd_depends_on d) | s d. s \<in> set services \<and> d \<in> set (get_dependencies s) \<and> hard_dependency d}"
    and "s \<in> set services" "d \<in> set (get_dependencies s)" "hard_dependency d"
  shows "before s (sd_depends_on d) (calculate_start_order get_dependencies services)
     \<and> \<not> before (sd_depends_on d) s (calculate_start_order get_dependencies services)"
proof -
  let ?g = "start_graph get_dependencies services"
  have "edges ?g = {(s, sd_depends_on d) | s d. s \<in> set services \<and> d \<in> set (get_dependencies s) \<and> hard_dependency d}"
    by (auto simp: edges_def start_graph_get split: if_splits)
  with assms have ac: "acyclic (edges ?g)" and e: "(s, sd_depends_on d) \<in> edges ?g" by auto
  have "sd_depends_on d \<in> set (topological_sort ?g)"
    using acyclic_sort_complete [OF start_graph_wf ac] edges_in_nodes [OF e] by simp
  from sort_orders_edges(3) [OF start_graph_wf e this]
  have "before s (sd_depends_on d) (topological_sort ?g)" .
  then show ?thesis unfolding calculate_start_order_def
    using before_trans [OF _ _ sort_orders_edges(1) [OF start_graph_wf]] before_irrefl by metis
qed

theorem start_order_reversed_witness:
  "calculate_start_order
     (\<lambda>s. if s = ''web'' then [\<lparr>sd_service_name = ''web'', sd_depends_on = ''db'', sd_type = ''depends_on''\<rparr>] else [])
     [''db'', ''web''] = [''web'', ''db'']
   \<and> before ''web'' ''db'' (calculate_start_order
     (\<lambda>s. if s = ''web'' then [\<lparr>sd_service_name = ''web'', sd_depends_on = ''db'', sd_type = ''depends_on''\<rparr>] else [])
     [''db'', ''web''])"
proof
  let ?dep = "\<lparr>sd_service_name = ''web'', sd_depends_on = ''db'', sd_type = ''depends_on''\<rparr>"
  let ?get = "\<lambda>s. if s = ''web'' then [?dep] else []"
  show "calculate_start_order ?get [''db'', ''web''] = [''web'', ''db'']" by code_simp
  have "{(s, sd_depends_on d) | s d. s \<in> set [''db'', ''web''] \<and> d \<in> set (?get s) \<and> hard_dependency d} = {(''web'', ''db'')}"
    by (auto simp: hard_dependency_def)
  moreover have "acyclic {(''web'', ''db'')}" by (simp add: wf_acyclic)
  ultimately show "before ''web'' ''db'' (calculate_start_order ?get [''db'', ''web''])"
    using start_order_reversed [of "[''db'', ''web'']" ?get "''web''" ?dep] by (simp add: hard_dependency_def)
qed

end
