(* ===== verification/Docker_Orchestrator.thy ===== *)
theory Docker_Orchestrator
  imports Nexus_Docker_Store Docker_Compose Docker_Start_Order
begin

text \<open>
  The stack orchestrator (\<open>src/modules/docker_monitor/src/orchestrator.cpp\<close>) over the store: stacks and
  their compose files, service dependencies read from compose files, issues and the action log. Each
  method is a function of the store pointer, \<^const>\<open>None\<close> when there is none; the clock and the files are
  arguments. The methods the source leaves as stubs are the constants they return.
\<close>

section \<open>The store pointer\<close>

definition over_store :: "'a \<Rightarrow> (sqlite \<Rightarrow> sqlite \<times> 'a) \<Rightarrow> sqlite option \<Rightarrow> sqlite option \<times> 'a" where
  "over_store failed f store =
     (case store of None \<Rightarrow> (None, failed) | Some c \<Rightarrow> (case f c of (c', x) \<Rightarrow> (Some c', x)))"

definition from_store :: "'a \<Rightarrow> (sqlite \<Rightarrow> 'a) \<Rightarrow> sqlite option \<Rightarrow> 'a" where
  "from_store failed f store = (case store of None \<Rightarrow> failed | Some c \<Rightarrow> f c)"

lemma over_store_simps [simp]:
  "over_store x f None = (None, x)" "over_store x f (Some c) = (Some (fst (f c)), snd (f c))"
  by (simp_all add: over_store_def split: prod.splits)

lemma from_store_simps [simp]: "from_store x f None = x" "from_store x f (Some c) = f c"
  by (simp_all add: from_store_def)

section \<open>Stacks\<close>

record stack_profile =
  sp_id :: int
  sp_server_id :: int
  sp_name :: string
  sp_description :: string
  sp_priority :: int
  sp_auto_restart :: bool
  sp_health_check_timeout :: int
  sp_compose_files :: "string list"
  sp_env_files :: "string list"

definition stack_values :: "int \<Rightarrow> int \<Rightarrow> string \<Rightarrow> string \<Rightarrow> int \<Rightarrow> cells" where
  "stack_values now sid nm description priority =
     [(''server_id'', bind_int sid), (''name'', bind nm), (''description'', bind description),
      (''priority'', bind_int priority), (''auto_restart'', VInt 0), (''health_check_timeout'', VInt 30),
      (''created_at'', bind_int now), (''updated_at'', bind_int now)]"

definition create_stack :: "int \<Rightarrow> int \<Rightarrow> string \<Rightarrow> string \<Rightarrow> int \<Rightarrow> sqlite option \<Rightarrow> sqlite option \<times> int" where
  "create_stack now sid nm description priority =
     over_store 0 (insert_id 0 (Insert ''docker_stacks'' (stack_values now sid nm description priority)))"

text \<open>\<open>add_compose_to_stack\<close> looks the compose file up by its path alone, whatever the server.\<close>

definition stack_file_values :: "int \<Rightarrow> int \<Rightarrow> int \<Rightarrow> string \<Rightarrow> cells" where
  "stack_file_values stack fid order env =
     [(''stack_id'', bind_int stack), (''compose_file_id'', bind_int fid), (''execution_order'', bind_int order),
      (''env_file'', bind env), (''compose_flags'', VText ''[]'')]"

definition first_id :: "sql_row list \<Rightarrow> int" where
  "first_id rs = (case rs of [] \<Rightarrow> 0 | r # _ \<Rightarrow> get_num r ''id'')"

definition add_compose_to_stack :: "int \<Rightarrow> string \<Rightarrow> int \<Rightarrow> string \<Rightarrow> sqlite option \<Rightarrow> sqlite option \<times> bool" where
  "add_compose_to_stack stack path order env =
     over_store False (\<lambda>c.
       let fid = first_id (select ''compose_files'' (eq_text ''file_path'' path) c) in
       if fid = 0 then (c, False)
       else exec (Replace ''docker_stack_compose_files'' (stack_file_values stack fid order env)) c)"

text \<open>
  The inner join of the stack's entries with the compose files, by execution order: every entry meets
  at most one compose file, so the joined rows come in some order of the entries.
\<close>

definition stack_file_rows :: "int \<Rightarrow> sqlite \<Rightarrow> (string \<times> string) list" where
  "stack_file_rows stack c =
     concat (map (\<lambda>s. map (\<lambda>f. (get_text f ''file_path'', get_text s ''env_file''))
         (select ''compose_files'' (\<lambda>f. VInt (fst f) = val s ''compose_file_id'') c))
       (order_asc ''execution_order'' (select ''docker_stack_compose_files'' (eq_int ''stack_id'' stack) c)))"

definition read_stack :: "sqlite \<Rightarrow> sql_row \<Rightarrow> stack_profile" where
  "read_stack c r =
     (let files = stack_file_rows (get_num r ''id'') c in
      \<lparr>sp_id = get_num r ''id'', sp_server_id = get_num r ''server_id'', sp_name = get_text r ''name'',
       sp_description = get_text r ''description'', sp_priority = to_int32 (get_num r ''priority''),
       sp_auto_restart = (get_num r ''auto_restart'' \<noteq> 0),
       sp_health_check_timeout = to_int32 (case row_get_int r ''health_check_timeout'' of None \<Rightarrow> 30 | Some t \<Rightarrow> t),
       sp_compose_files = map fst files, sp_env_files = map snd files\<rparr>)"

definition get_stack :: "int \<Rightarrow> string \<Rightarrow> sqlite option \<Rightarrow> stack_profile option" where
  "get_stack sid nm =
     from_store None (\<lambda>c. first_row (read_stack c)
       (select ''docker_stacks'' (\<lambda>r. eq_int ''server_id'' sid r \<and> eq_text ''name'' nm r) c))"

definition list_stacks :: "int \<Rightarrow> sqlite option \<Rightarrow> stack_profile list" where
  "list_stacks sid =
     from_store [] (\<lambda>c. map (read_stack c)
       (order_desc ''priority'' (order_asc ''name'' (select ''docker_stacks'' (eq_int ''server_id'' sid) c))))"

definition delete_stack :: "int \<Rightarrow> sqlite option \<Rightarrow> sqlite option \<times> bool" where
  "delete_stack stack = over_store False (exec (Delete ''docker_stacks'' (eq_int ''id'' stack)))"

section \<open>Dependencies\<close>

definition dependency_values :: "int \<Rightarrow> int \<Rightarrow> string \<Rightarrow> string \<Rightarrow> string \<Rightarrow> cells" where
  "dependency_values now sid service depends_on ty =
     [(''server_id'', bind_int sid), (''service_name'', bind service), (''depends_on_service'', bind depends_on),
      (''dependency_type'', bind ty), (''created_at'', bind_int now)]"

definition add_dependency :: "int \<Rightarrow> int \<Rightarrow> string \<Rightarrow> string \<Rightarrow> string \<Rightarrow> sqlite option \<Rightarrow> sqlite option \<times> bool" where
  "add_dependency now sid service depends_on ty =
     over_store False (exec (Replace ''docker_service_dependencies'' (dependency_values now sid service depends_on ty)))"

definition read_dependency :: "sql_row \<Rightarrow> service_dependency" where
  "read_dependency r = \<lparr>sd_service_name = get_text r ''service_name'', sd_depends_on = get_text r ''depends_on_service'',
     sd_type = (case row_get r ''dependency_type'' of None \<Rightarrow> ''soft'' | Some t \<Rightarrow> t)\<rparr>"

definition get_dependencies :: "int \<Rightarrow> string \<Rightarrow> sqlite option \<Rightarrow> service_dependency list" where
  "get_dependencies sid service =
     from_store [] (\<lambda>c. map read_dependency
       (select ''docker_service_dependencies'' (\<lambda>r. eq_int ''server_id'' sid r \<and> eq_text ''service_name'' service r) c))"

text \<open>The method with the pure part \<open>calculate_start_order\<close> of \<^theory_text>\<open>Docker_Start_Order\<close>.\<close>

definition stored_start_order :: "int \<Rightarrow> string list \<Rightarrow> sqlite option \<Rightarrow> string list" where
  "stored_start_order sid services store = calculate_start_order (\<lambda>s. get_dependencies sid s store) services"

text \<open>The loop that stores extracted dependencies and counts those the store accepted.\<close>

definition store_dependencies :: "int \<Rightarrow> int \<Rightarrow> detected_dependency list \<Rightarrow> sqlite option \<Rightarrow> sqlite option \<times> int" where
  "store_dependencies now sid deps store =
     fold (\<lambda>d (st, n). case add_dependency now sid (dd_service d) (dd_depends_on d) (dd_type d) st of
             (st', ok) \<Rightarrow> (st', if ok then n + 1 else n)) deps (store, 0)"

definition parse_compose_dependencies :: "int \<Rightarrow> int \<Rightarrow> string \<Rightarrow> sqlite option \<Rightarrow> sqlite option \<times> int" where
  "parse_compose_dependencies now sid content store =
     (case parse content of
        None \<Rightarrow> (store, 0)
      | Some compose \<Rightarrow> store_dependencies now sid (extract_dependencies compose) store)"

section \<open>Stacks from compose files\<close>

definition services_json :: "string list \<Rightarrow> string" where
  "services_json names = ''['' @ join_with '','' (map (\<lambda>n. [CHR 0x22] @ n @ [CHR 0x22]) names) @ '']''"

definition network_values :: "int \<Rightarrow> int \<Rightarrow> string \<Rightarrow> string \<Rightarrow> string \<Rightarrow> cells" where
  "network_values now sid service network ip =
     [(''server_id'', bind_int sid), (''service_name'', bind service), (''network_name'', bind network),
      (''static_ip'', bind ip), (''created_at'', bind_int now)]"

definition store_static_ips :: "int \<Rightarrow> int \<Rightarrow> compose_file \<Rightarrow> sqlite \<Rightarrow> sqlite" where
  "store_static_ips now sid compose =
     fold (\<lambda>(service, svc). fold (\<lambda>(network, ip) c.
         fst (exec (Replace ''docker_network_dependencies'' (network_values now sid service network ip)) c))
       (cs_network_static_ips svc)) (cf_services compose)"

definition ensure_compose_file :: "int \<Rightarrow> int \<Rightarrow> string \<Rightarrow> compose_file \<Rightarrow> sqlite \<Rightarrow> sqlite \<times> int" where
  "ensure_compose_file now sid path compose c =
     (case select ''compose_files'' (\<lambda>r. eq_int ''server_id'' sid r \<and> eq_text ''file_path'' path r) c of
        r # _ \<Rightarrow> (c, get_num r ''id'')
      | [] \<Rightarrow> upsert_compose_file now sid path [] (services_json (map fst (cf_services compose))) ''[]'' ''[]'' [] c)"

definition process_compose_file ::
  "int \<Rightarrow> (string \<Rightarrow> string option) \<Rightarrow> int \<Rightarrow> int \<Rightarrow> nat \<Rightarrow> string \<Rightarrow> string \<Rightarrow> sqlite \<Rightarrow> sqlite" where
  "process_compose_file now fs sid stack i path env c =
     (case parse_file fs path of
        None \<Rightarrow> c
      | Some compose \<Rightarrow>
          let c1 = the (fst (store_dependencies now sid (extract_dependencies compose) (Some c)));
              (c2, fid) = ensure_compose_file now sid path compose c1;
              c3 = store_static_ips now sid compose c2
          in if 0 < fid then the (fst (add_compose_to_stack stack path (to_int32 (int i)) env (Some c3))) else c3)"

definition create_stack_from_compose ::
  "int \<Rightarrow> (string \<Rightarrow> string option) \<Rightarrow> int \<Rightarrow> string \<Rightarrow> string list \<Rightarrow> string list \<Rightarrow> string \<Rightarrow> sqlite option \<Rightarrow> sqlite option \<times> int" where
  "create_stack_from_compose now fs sid nm paths envs description store =
     (case create_stack now sid nm description 0 store of
        (None, _) \<Rightarrow> (None, 0)
      | (Some c, stack) \<Rightarrow>
          if stack = 0 then (Some c, 0)
          else (Some (fold (\<lambda>(i, path). process_compose_file now fs sid stack i path (if i < length envs then envs ! i else []))
                        (enumerate 0 paths) c), stack))"

section \<open>Issues\<close>

record docker_issue =
  di_id :: int
  di_container_id :: string
  di_issue_type :: string
  di_severity :: string
  di_title :: string
  di_description :: string
  di_detected_at :: int
  di_resolved :: bool

definition issue_values :: "int \<Rightarrow> int \<Rightarrow> string \<Rightarrow> string \<Rightarrow> string \<Rightarrow> string \<Rightarrow> string \<Rightarrow> cells" where
  "issue_values now sid container ty severity title description =
     [(''server_id'', bind_int sid), (''container_id'', bind container), (''issue_type'', bind ty),
      (''severity'', bind severity), (''title'', bind title), (''description'', bind description),
      (''detected_at'', bind_int now), (''auto_resolve_attempted'', VInt 0)]"

definition report_issue :: "int \<Rightarrow> int \<Rightarrow> string \<Rightarrow> string \<Rightarrow> string \<Rightarrow> string \<Rightarrow> string \<Rightarrow> sqlite option \<Rightarrow> sqlite option \<times> int" where
  "report_issue now sid container ty severity title description =
     over_store 0 (insert_id 0 (Insert ''docker_issues'' (issue_values now sid container ty severity title description)))"

definition read_issue :: "sql_row \<Rightarrow> docker_issue" where
  "read_issue r = \<lparr>di_id = get_num r ''id'', di_container_id = get_text r ''container_id'',
     di_issue_type = get_text r ''issue_type'',
     di_severity = (case row_get r ''severity'' of None \<Rightarrow> ''medium'' | Some s \<Rightarrow> s), di_title = get_text r ''title'',
     di_description = get_text r ''description'', di_detected_at = get_num r ''detected_at'', di_resolved = False\<rparr>"

definition get_unresolved_issues :: "int \<Rightarrow> sqlite option \<Rightarrow> docker_issue list" where
  "get_unresolved_issues sid =
     from_store [] (\<lambda>c. map read_issue (order_desc ''detected_at''
       (select ''docker_issues'' (\<lambda>r. eq_int ''server_id'' sid r \<and> val r ''resolved_at'' = VNull) c)))"

definition resolve_issue :: "int \<Rightarrow> int \<Rightarrow> string \<Rightarrow> sqlite option \<Rightarrow> sqlite option \<times> bool" where
  "resolve_issue now i action =
     over_store False (exec (Update ''docker_issues'' (eq_int ''id'' i)
       (\<lambda>_. [(''resolved_at'', bind_int now), (''resolution_action'', bind action)])))"

section \<open>The action log\<close>

definition action_values :: "int \<Rightarrow> int \<Rightarrow> int \<Rightarrow> string \<Rightarrow> string \<Rightarrow> string \<Rightarrow> string \<Rightarrow> cells" where
  "action_values now sid stack ty target reason triggered_by =
     [(''server_id'', bind_int sid), (''stack_id'', bind (if 0 < stack then to_string stack else [])),
      (''action_type'', bind ty), (''target'', bind target), (''reason'', bind reason),
      (''triggered_by'', bind triggered_by), (''status'', VText ''pending''), (''started_at'', bind_int now)]"

definition log_action :: "int \<Rightarrow> int \<Rightarrow> int \<Rightarrow> string \<Rightarrow> string \<Rightarrow> string \<Rightarrow> string \<Rightarrow> sqlite option \<Rightarrow> sqlite option \<times> int" where
  "log_action now sid stack ty target reason triggered_by =
     over_store 0 (insert_id 0 (Insert ''docker_orchestration_actions''
       (action_values now sid stack ty target reason triggered_by)))"

definition complete_action :: "int \<Rightarrow> int \<Rightarrow> bool \<Rightarrow> int \<Rightarrow> string \<Rightarrow> string \<Rightarrow> sqlite option \<Rightarrow> sqlite option \<times> bool" where
  "complete_action now i ok code out err =
     over_store False (exec (Update ''docker_orchestration_actions'' (eq_int ''id'' i)
       (\<lambda>_. [(''status'', bind (if ok then ''success'' else ''failed'')), (''exit_code'', bind_int code),
             (''output'', bind out), (''error'', bind err), (''completed_at'', bind_int now)])))"

section \<open>Stubs\<close>

record orchestration_rule =
  or_id :: int
  or_rule_type :: string
  or_condition_json :: string
  or_action_json :: string
  or_priority :: int
  or_enabled :: bool
  or_description :: string

definition restart_stack :: "int \<Rightarrow> bool \<Rightarrow> bool" where "restart_stack stack wait = True"
definition restart_service :: "int \<Rightarrow> string \<Rightarrow> bool \<Rightarrow> bool" where "restart_service sid service dependents = True"
definition start_stack :: "int \<Rightarrow> bool" where "start_stack stack = True"
definition stop_stack :: "int \<Rightarrow> bool" where "stop_stack stack = True"
definition fix_issue :: "int \<Rightarrow> bool" where "fix_issue i = True"
definition auto_resolve_issues :: "int \<Rightarrow> int" where "auto_resolve_issues sid = 0"
definition get_rules :: "int \<Rightarrow> int \<Rightarrow> orchestration_rule list" where "get_rules sid stack = []"
definition evaluate_rules :: "int \<Rightarrow> (string, string) std_map \<Rightarrow> string list" where "evaluate_rules sid ctx = []"

definition add_rule :: "int \<Rightarrow> int \<Rightarrow> string \<Rightarrow> string \<Rightarrow> string \<Rightarrow> int \<Rightarrow> string \<Rightarrow> int" where
  "add_rule sid stack ty condition action priority description = 0"

definition is_service_healthy :: "int \<Rightarrow> string \<Rightarrow> bool" where "is_service_healthy sid service = True"
definition wait_for_health :: "int \<Rightarrow> string \<Rightarrow> int \<Rightarrow> bool" where "wait_for_health sid service timeout = True"

definition execute_compose_command :: "int \<Rightarrow> string list \<Rightarrow> string \<Rightarrow> string \<Rightarrow> bool" where
  "execute_compose_command sid files cmd service = True"

end
