(* ===== verification/Nexus_Crypto.thy ===== *)
theory Nexus_Crypto
  imports Nazg_Prelude
begin

text \<open>
  Token encryption (\<open>src/modules/nexus/src/crypto.cpp\<close>): the textual format
  \<open>enc:v1:<iv>:<ciphertext>:<tag>\<close> around AES-256-GCM. OpenSSL is not part of the sources: key
  derivation, sealing and opening are the fields of the parameter \<open>aead\<close>; what the code relies on is
  \<open>aead_ok\<close> (opening what was sealed gives the plaintext, sealing keeps the length and makes a
  16 byte tag). The machine secret (\<open>NAZG_TOKEN_KEY\<close>, \<open>/etc/machine-id\<close> or a constant) and the random IV
  are arguments. A byte is a \<^typ>\<open>char\<close>.
\<close>

section \<open>Hexadecimal\<close>

definition hex_digit :: "nat \<Rightarrow> char" where
  "hex_digit n = (if n < 10 then char_of (48 + n) else char_of (87 + n))"

definition to_hex :: "string \<Rightarrow> string" where
  "to_hex bs = concat (map (\<lambda>b. [hex_digit (of_char b div 16), hex_digit (of_char b mod 16)]) bs)"

definition hex_value :: "char \<Rightarrow> nat option" where
  "hex_value c =
     (let n = (of_char c :: nat) in
      if 48 \<le> n \<and> n \<le> 57 then Some (n - 48)
      else if 97 \<le> n \<and> n \<le> 102 then Some (n - 87)
      else if 65 \<le> n \<and> n \<le> 70 then Some (n - 55)
      else None)"

text \<open>
  \<open>istringstream (two characters) >> std::hex >> byte\<close>: leading blanks are skipped, a sign is accepted,
  the digits end at the first other character, a prefix \<open>0x\<close> without digits fails; the
  result is cut to one byte.
\<close>

definition read_hex_pair :: "char \<Rightarrow> char \<Rightarrow> nat option" where
  "read_hex_pair a b =
     (case hex_value a of
        Some x \<Rightarrow>
          (case hex_value b of
             Some y \<Rightarrow> Some (16 * x + y)
           | None \<Rightarrow> if a = CHR ''0'' \<and> (b = CHR ''x'' \<or> b = CHR ''X'') then None else Some x)
      | None \<Rightarrow>
          if isspace a \<or> a = CHR ''+'' then hex_value b
          else if a = CHR ''-'' then map_option (\<lambda>y. (256 - y) mod 256) (hex_value b)
          else None)"

fun hex_pairs :: "string \<Rightarrow> string option" where
  "hex_pairs [] = Some []"
| "hex_pairs [a] = None"
| "hex_pairs (a # b # s) =
     (case read_hex_pair a b of
        None \<Rightarrow> None
      | Some n \<Rightarrow> map_option (\<lambda>bs. char_of n # bs) (hex_pairs s))"

text \<open>Malformed text gives the empty vector.\<close>

definition from_hex :: "string \<Rightarrow> string" where
  "from_hex s = (if odd (length s) then [] else case hex_pairs s of None \<Rightarrow> [] | Some bs \<Rightarrow> bs)"

section \<open>Tokens\<close>

record aead =
  derive_key :: "string \<Rightarrow> string \<Rightarrow> string option"
  seal :: "string \<Rightarrow> string \<Rightarrow> string \<Rightarrow> (string \<times> string) option"
  unseal :: "string \<Rightarrow> string \<Rightarrow> string \<Rightarrow> string \<Rightarrow> string option"

definition aead_ok :: "aead \<Rightarrow> bool" where
  "aead_ok A \<longleftrightarrow>
     (\<forall>k iv p ct tg. seal A k iv p = Some (ct, tg) \<longrightarrow>
        unseal A k iv ct tg = Some p \<and> length ct = length p \<and> length tg = 16)"

definition token_prefix :: string where
  "token_prefix = ''enc:v1:''"

definition encrypt_token :: "aead \<Rightarrow> string \<Rightarrow> string option \<Rightarrow> string \<Rightarrow> string \<Rightarrow> string" where
  "encrypt_token A secret rand_iv plaintext salt_hex =
     (if plaintext = [] then []
      else let salt = from_hex salt_hex in
        if salt = [] then []
        else case derive_key A secret salt of
               None \<Rightarrow> []
             | Some key \<Rightarrow>
                 (case rand_iv of
                    None \<Rightarrow> []
                  | Some iv \<Rightarrow>
                      (case seal A key iv plaintext of
                         None \<Rightarrow> []
                       | Some (ct, tg) \<Rightarrow> token_prefix @ to_hex iv @ '':'' @ to_hex ct @ '':'' @ to_hex tg)))"

definition decrypt_token :: "aead \<Rightarrow> string \<Rightarrow> string \<Rightarrow> string \<Rightarrow> string option" where
  "decrypt_token A secret stored salt_hex =
     (if stored = [] then Some []
      else if length stored < 7 \<or> take 7 stored \<noteq> token_prefix then Some stored
      else let payload = drop 7 stored in
        case find_char (CHR '':'') payload of
          None \<Rightarrow> None
        | Some sep1 \<Rightarrow>
            (case find_char (CHR '':'') (drop (sep1 + 1) payload) of
               None \<Rightarrow> None
             | Some k \<Rightarrow>
                 let iv = from_hex (take sep1 payload);
                     ct = from_hex (take k (drop (sep1 + 1) payload));
                     tg = from_hex (drop (sep1 + 1 + k + 1) payload)
                 in if length iv \<noteq> 12 \<or> length tg \<noteq> 16 \<or> ct = [] then None
                    else let salt = from_hex salt_hex in
                      if salt = [] then None
                      else case derive_key A secret salt of
                             None \<Rightarrow> None
                           | Some key \<Rightarrow> unseal A key iv ct tg))"

section \<open>Round trips\<close>

lemma hex_value_digit: "n < 16 \<Longrightarrow> hex_value (hex_digit n) = Some n"
proof -
  assume n: "n < 16"
  have "(of_char (char_of (48 + n)) :: nat) = 48 + n" "(of_char (char_of (87 + n)) :: nat) = 87 + n"
    using n by (simp_all only: of_char_of) simp_all
  then show ?thesis using n by (auto simp: hex_value_def hex_digit_def Let_def)
qed

lemma hex_digit_not_colon: "n < 16 \<Longrightarrow> hex_digit n \<noteq> CHR '':''"
  using hex_value_digit [of n] by (auto simp: hex_value_def)

lemma of_char_less: "(of_char c :: nat) < 256"
  by simp

lemma hex_pairs_to_hex: "hex_pairs (to_hex bs) = Some bs"
proof (induction bs)
  case (Cons b bs)
  have lt: "of_char b div 16 < (16 :: nat)" "of_char b mod 16 < (16 :: nat)"
    using of_char_less [of b] by (simp_all add: less_mult_imp_div_less)
  have "read_hex_pair (hex_digit (of_char b div 16)) (hex_digit (of_char b mod 16)) = Some (of_char b)"
    using hex_value_digit [OF lt(1)] hex_value_digit [OF lt(2)] by (simp add: read_hex_pair_def)
  then show ?case using Cons by (simp add: to_hex_def)
qed (simp add: to_hex_def)

lemma length_to_hex [simp]: "length (to_hex bs) = 2 * length bs"
  by (induction bs) (simp_all add: to_hex_def)

lemma from_hex_to_hex [simp]: "from_hex (to_hex bs) = bs"
  by (simp add: from_hex_def hex_pairs_to_hex)

lemma colon_not_in_hex [simp]: "CHR '':'' \<notin> set (to_hex bs)"
proof
  assume "CHR '':'' \<in> set (to_hex bs)"
  then obtain b where "CHR '':'' = hex_digit (of_char b div 16) \<or> CHR '':'' = hex_digit (of_char b mod 16)"
    by (auto simp: to_hex_def)
  moreover have "of_char b div 16 < (16 :: nat)" "of_char b mod 16 < (16 :: nat)"
    using of_char_less [of b] by (simp_all add: less_mult_imp_div_less)
  ultimately show False using hex_digit_not_colon by metis
qed

lemma decrypt_encrypt_token:
  assumes "aead_ok A" "length iv = 12" "plaintext \<noteq> []"
    and "encrypt_token A secret (Some iv) plaintext salt \<noteq> []"
  shows "decrypt_token A secret (encrypt_token A secret (Some iv) plaintext salt) salt = Some plaintext"
proof -
  from assms(3,4) obtain key ct tg where k: "from_hex salt \<noteq> []" "derive_key A secret (from_hex salt) = Some key"
    and s: "seal A key iv plaintext = Some (ct, tg)"
    by (auto simp: encrypt_token_def Let_def split: option.splits if_splits prod.splits)
  then have e: "encrypt_token A secret (Some iv) plaintext salt =
      token_prefix @ to_hex iv @ CHR '':'' # to_hex ct @ CHR '':'' # to_hex tg"
    using assms(3) by (simp add: encrypt_token_def)
  have o: "unseal A key iv ct tg = Some plaintext" "length ct = length plaintext" "length tg = 16"
    using assms(1) s by (auto simp: aead_ok_def)
  have ct: "ct \<noteq> []" using o(2) assms(3) by auto
  let ?rest = "to_hex iv @ CHR '':'' # to_hex ct @ CHR '':'' # to_hex tg"
  have f1: "find_char (CHR '':'') ?rest = Some (length (to_hex iv))" by (rule find_char_append) simp
  have f2: "find_char (CHR '':'') (drop (length (to_hex iv) + 1) ?rest) = Some (length (to_hex ct))"
    using find_char_append [of "CHR '':''" "to_hex ct" "to_hex tg"] by simp
  have "drop (length (to_hex iv) + 1 + length (to_hex ct) + 1) ?rest = to_hex tg" by simp
  then show ?thesis unfolding e decrypt_token_def Let_def
    using f1 f2 k o ct assms(2) by (simp add: token_prefix_def)
qed

text \<open>A stand-in for the cipher, for running the codec: it reverses the text.\<close>

definition mirror_aead :: aead where
  "mirror_aead = \<lparr>derive_key = (\<lambda>s salt. Some (s @ salt)), seal = (\<lambda>k iv p. Some (rev p, replicate 16 (CHR ''t''))),
     unseal = (\<lambda>k iv ct tg. Some (rev ct))\<rparr>"

lemma mirror_aead_ok: "aead_ok mirror_aead"
  by (simp add: aead_ok_def mirror_aead_def)

text \<open>A stored value without the prefix is returned unchanged, whatever the key.\<close>

lemma decrypt_plaintext: "take 7 stored \<noteq> token_prefix \<Longrightarrow> decrypt_token A secret stored salt = Some stored"
  by (simp add: decrypt_token_def)

end
