(* ===== verification/Agent_Scanner.thy ===== *)
theory Agent_Scanner
  imports Nazg_Prelude Nexus_Crypto "HOL-Library.While_Combinator"
begin

text \<open>
  The scanner of the agent (\<open>src/modules/agent/src/docker_scanner.cpp\<close>): it runs \<open>docker\<close> commands, splits what
  they print and renders everything as one JSON text. The shell is a function from a command to
  what its pipe delivers; the files below a search path, file contents, SHA-256, the clock and the host name are
  arguments, and so is the value of the members the code leaves uninitialised.
\<close>

section \<open>The world of the scanner\<close>

record scan_world =
  sw_popen :: "string \<Rightarrow> string option"
  sw_hostname :: "string option"
  sw_walk :: "string \<Rightarrow> string list option"
  sw_read :: "string \<Rightarrow> string option"
  sw_sha256 :: "string \<Rightarrow> string"
  sw_now :: int
  sw_indeterminate :: int

text \<open>
  \<open>fgets\<close> with a buffer of 256 bytes reads up to 255 bytes or through the next newline; appending the buffer stops at
  its first NUL.
\<close>

definition fgets_chunk :: "string \<Rightarrow> string" where
  "fgets_chunk s = (let line = takeWhile (\<lambda>c. c \<noteq> nl) s in take 255 (if length line < length s then line @ [nl] else line))"

lemma fgets_chunk_length: "s \<noteq> [] \<Longrightarrow> 0 < length (fgets_chunk s)"
  by (cases s) (auto simp: fgets_chunk_def Let_def)

function read_pipe :: "string \<Rightarrow> string" where
  "read_pipe s = (if s = [] then []
     else takeWhile (\<lambda>c. c \<noteq> CHR 0x00) (fgets_chunk s) @ read_pipe (drop (length (fgets_chunk s)) s))"
  by pat_completeness auto
termination
  by (relation "measure length") (use fgets_chunk_length in \<open>auto simp: diff_less\<close>)

declare read_pipe.simps [simp del]

text \<open>
  The loop as it is written, over what is left in the pipe and the text so far; \<^const>\<open>None\<close> is a loop that does not
  end. \<open>Agent_Scan_Facts\<close> shows that it always ends, with \<^const>\<open>read_pipe\<close> of the output.
\<close>

definition read_loop :: "string \<Rightarrow> (string \<times> string) option" where
  "read_loop s = while_option (\<lambda>(rest, result). rest \<noteq> [])
     (\<lambda>(rest, result). (drop (length (fgets_chunk rest)) rest, result @ takeWhile (\<lambda>c. c \<noteq> CHR 0x00) (fgets_chunk rest)))
     (s, [])"

definition exec_command :: "scan_world \<Rightarrow> string \<Rightarrow> string" where
  "exec_command W cmd = (case sw_popen W cmd of None \<Rightarrow> [] | Some out \<Rightarrow> read_pipe out)"

definition is_docker_available :: "scan_world \<Rightarrow> bool" where
  "is_docker_available W \<longleftrightarrow> exec_command W ''docker --version 2>/dev/null'' \<noteq> []"

section \<open>Text\<close>

text \<open>The text behind the first occurrence of a pattern.\<close>

fun text_after :: "string \<Rightarrow> string \<Rightarrow> string option" where
  "text_after p [] = (if p = [] then Some [] else None)"
| "text_after p (c # s) = (if take (length p) (c # s) = p then Some (drop (length p) (c # s)) else text_after p s)"

definition until_char :: "char \<Rightarrow> string \<Rightarrow> string option" where
  "until_char c s = map_option (\<lambda>k. take k s) (find_char c s)"

text \<open>\<open>escape_json\<close>: \<open>c < 32\<close> compares a signed \<open>char\<close>, so bytes from 128 on are escaped too.\<close>

definition escape_char :: "char \<Rightarrow> string" where
  "escape_char c =
     (if c = CHR 0x22 then [CHR 0x5C, CHR 0x22]
      else if c = CHR 0x5C then [CHR 0x5C, CHR 0x5C]
      else if c = CHR 0x08 then [CHR 0x5C, CHR ''b'']
      else if c = CHR 0x0C then [CHR 0x5C, CHR ''f'']
      else if c = CHR 0x0A then [CHR 0x5C, CHR ''n'']
      else if c = CHR 0x0D then [CHR 0x5C, CHR ''r'']
      else if c = CHR 0x09 then [CHR 0x5C, CHR ''t'']
      else if (of_char c :: nat) < 32 \<or> 128 \<le> (of_char c :: nat) then [CHR 0x5C] @ ''u00'' @ to_hex [c]
      else [c])"

definition escape_json :: "string \<Rightarrow> string" where
  "escape_json str = concat (map escape_char str)"

section \<open>System information\<close>

record system_info =
  si_hostname :: string
  si_os :: string
  si_arch :: string
  si_docker_version :: string
  si_compose_version :: string

definition trim_end :: "string \<Rightarrow> string \<Rightarrow> string" where
  "trim_end cs s = rev (dropWhile (\<lambda>c. c \<in> set cs) (rev s))"

definition os_blanks :: string where
  "os_blanks = [CHR '' '', CHR 0x0A, CHR 0x0D, CHR 0x09]"

definition docker_version_of :: "string \<Rightarrow> string" where
  "docker_version_of out =
     (case text_after ''version '' out of
        None \<Rightarrow> []
      | Some v \<Rightarrow> (case until_char (CHR '','') v of
            Some x \<Rightarrow> x
          | None \<Rightarrow> (case until_char nl v of Some x \<Rightarrow> x | None \<Rightarrow> v)))"

definition compose_version_of :: "string \<Rightarrow> string" where
  "compose_version_of out =
     (case text_after ''version '' out of None \<Rightarrow> [] | Some v \<Rightarrow> (case until_char nl v of Some x \<Rightarrow> x | None \<Rightarrow> v))"

definition get_system_info :: "scan_world \<Rightarrow> system_info" where
  "get_system_info W =
     \<lparr>si_hostname = (case sw_hostname W of None \<Rightarrow> [] | Some h \<Rightarrow> h),
      si_os = trim_end os_blanks (exec_command W ''uname -s 2>/dev/null''),
      si_arch = trim_end os_blanks (exec_command W ''uname -m 2>/dev/null''),
      si_docker_version = docker_version_of (exec_command W ''docker --version 2>/dev/null''),
      si_compose_version = compose_version_of (exec_command W ''docker compose version 2>/dev/null'')\<rparr>"

section \<open>Containers\<close>

record agent_container =
  ac_id :: string
  ac_name :: string
  ac_image :: string
  ac_state :: string
  ac_status :: string
  ac_created :: int
  ac_ports_json :: string
  ac_volumes_json :: string
  ac_networks_json :: string
  ac_service_name :: string
  ac_labels_json :: string
  ac_health_status :: string
  ac_restart_policy :: string

definition fresh_container :: "scan_world \<Rightarrow> agent_container" where
  "fresh_container W = \<lparr>ac_id = [], ac_name = [], ac_image = [], ac_state = [], ac_status = [],
     ac_created = sw_indeterminate W, ac_ports_json = [], ac_volumes_json = [], ac_networks_json = [],
     ac_service_name = [], ac_labels_json = [], ac_health_status = [], ac_restart_policy = []\<rparr>"

definition extract_field :: "string \<Rightarrow> string \<Rightarrow> string" where
  "extract_field line key =
     (case text_after ([CHR 0x22] @ key @ [CHR 0x22, CHR '':'', CHR 0x22]) line of
        None \<Rightarrow> []
      | Some v \<Rightarrow> (case until_char (CHR 0x22) v of None \<Rightarrow> [] | Some x \<Rightarrow> x))"

definition drop_newline :: "string \<Rightarrow> string" where
  "drop_newline s = (if s \<noteq> [] \<and> last s = nl then butlast s else s)"

definition inspect_format :: "string \<Rightarrow> string \<Rightarrow> string" where
  "inspect_format fmt i = ''docker inspect -f '' @ [CHR 0x27] @ fmt @ [CHR 0x27] @ '' '' @ i @ '' 2>/dev/null''"

definition inspect_command :: "string \<Rightarrow> string" where
  "inspect_command i = ''docker inspect '' @ i @ '' 2>/dev/null''"

definition service_format :: string where
  "service_format = ''{{index .Config.Labels '' @ [CHR 0x22] @ ''com.docker.compose.service'' @ [CHR 0x22] @ ''}}''"

definition health_format :: string where
  "health_format = ''{{if .State.Health}}{{.State.Health.Status}}{{else}}none{{end}}''"

definition inspected :: "scan_world \<Rightarrow> agent_container \<Rightarrow> agent_container" where
  "inspected W info =
     (let labels = exec_command W (inspect_format ''{{json .Config.Labels}}'' (ac_id info)) in
      info\<lparr>ac_created := sw_now W, ac_ports_json := ''[]'', ac_volumes_json := ''[]'', ac_networks_json := ''[]'',
        ac_labels_json := (if labels = [] then ''{}'' else labels),
        ac_service_name := (if text_after ''com.docker.compose.project'' labels \<noteq> None
           then drop_newline (exec_command W (inspect_format service_format (ac_id info))) else ac_service_name info),
        ac_health_status := drop_newline (exec_command W (inspect_format health_format (ac_id info))),
        ac_restart_policy := drop_newline (exec_command W (inspect_format ''{{.HostConfig.RestartPolicy.Name}}'' (ac_id info)))\<rparr>)"

definition read_container :: "scan_world \<Rightarrow> string \<Rightarrow> agent_container" where
  "read_container W line =
     (let info = (fresh_container W)\<lparr>ac_id := take 12 (extract_field line ''ID''), ac_name := extract_field line ''Names'',
            ac_image := extract_field line ''Image'', ac_state := extract_field line ''State'',
            ac_status := extract_field line ''Status''\<rparr>
      in if exec_command W (inspect_command (ac_id info)) = [] then info else inspected W info)"

definition ps_command :: string where
  "ps_command = ''docker ps -a --no-trunc --format '' @ [CHR 0x27] @ ''{{json .}}'' @ [CHR 0x27] @ '' 2>/dev/null''"

definition list_containers :: "scan_world \<Rightarrow> agent_container list" where
  "list_containers W =
     map (read_container W) (filter (\<lambda>l. l \<noteq> [] \<and> hd l = CHR ''{'') (getlines nl (exec_command W ps_command)))"

definition inspect_container :: "scan_world \<Rightarrow> string \<Rightarrow> agent_container" where
  "inspect_container W name_or_id =
     (if exec_command W (inspect_command name_or_id) = [] then fresh_container W
      else (fresh_container W)\<lparr>ac_id := name_or_id, ac_name := exec_command W (inspect_format ''{{.Name}}'' name_or_id)\<rparr>)"

section \<open>Images, networks and volumes\<close>

record agent_image =
  ai_id :: string
  ai_repository :: string
  ai_tag :: string
  ai_size_bytes :: int
  ai_created :: int

record agent_network =
  an_id :: string
  an_name :: string
  an_driver :: string
  an_scope :: string

record agent_volume =
  av_name :: string
  av_driver :: string
  av_mountpoint :: string

text \<open>Fields are what \<open>std::getline\<close> finds between bars; a missing one keeps the member as it was.\<close>

definition field :: "nat \<Rightarrow> string \<Rightarrow> string list \<Rightarrow> string" where
  "field i d fs = (if i < length fs then fs ! i else d)"

definition read_image :: "scan_world \<Rightarrow> string \<Rightarrow> agent_image" where
  "read_image W line =
     (let fs = getlines (CHR ''|'') line in
      \<lparr>ai_id = take 12 (field 0 [] fs), ai_repository = field 1 [] fs, ai_tag = field 2 [] fs,
       ai_size_bytes = (if 3 < length fs then 0 else sw_indeterminate W),
       ai_created = (if 4 < length fs then sw_now W else sw_indeterminate W)\<rparr>)"

definition format_command :: "string \<Rightarrow> string \<Rightarrow> string" where
  "format_command what fmt = ''docker '' @ what @ '' --format '' @ [CHR 0x27] @ fmt @ [CHR 0x27] @ '' 2>/dev/null''"

definition images_command :: string where
  "images_command = format_command ''images --no-trunc'' ''{{.ID}}|{{.Repository}}|{{.Tag}}|{{.Size}}|{{.CreatedAt}}''"

definition networks_command :: string where
  "networks_command = format_command ''network ls --no-trunc'' ''{{.ID}}|{{.Name}}|{{.Driver}}|{{.Scope}}''"

definition volumes_command :: string where
  "volumes_command = format_command ''volume ls'' ''{{.Name}}|{{.Driver}}|{{.Mountpoint}}''"

definition full_lines :: "string \<Rightarrow> string list" where
  "full_lines out = filter (\<lambda>l. l \<noteq> []) (getlines nl out)"

definition list_images :: "scan_world \<Rightarrow> agent_image list" where
  "list_images W = map (read_image W) (full_lines (exec_command W images_command))"

definition read_network :: "string \<Rightarrow> agent_network" where
  "read_network line = (let fs = getlines (CHR ''|'') line in
     \<lparr>an_id = field 0 [] fs, an_name = field 1 [] fs, an_driver = field 2 [] fs, an_scope = field 3 [] fs\<rparr>)"

definition list_networks :: "scan_world \<Rightarrow> agent_network list" where
  "list_networks W = map read_network (full_lines (exec_command W networks_command))"

definition read_volume :: "string \<Rightarrow> agent_volume" where
  "read_volume line = (let fs = getlines (CHR ''|'') line in
     \<lparr>av_name = field 0 [] fs, av_driver = field 1 [] fs, av_mountpoint = field 2 [] fs\<rparr>)"

definition list_volumes :: "scan_world \<Rightarrow> agent_volume list" where
  "list_volumes W = map read_volume (full_lines (exec_command W volumes_command))"

section \<open>Compose files\<close>

record agent_compose_file =
  af_path :: string
  af_project_name :: string
  af_services_json :: string
  af_file_hash :: string

definition calculate_file_hash :: "scan_world \<Rightarrow> string \<Rightarrow> string" where
  "calculate_file_hash W path = (case sw_read W path of None \<Rightarrow> [] | Some data \<Rightarrow> to_hex (sw_sha256 W data))"

definition file_name :: "string \<Rightarrow> string" where
  "file_name path = rev (takeWhile (\<lambda>c. c \<noteq> CHR ''/'') (rev path))"

definition parent_path :: "string \<Rightarrow> string" where
  "parent_path path = rev (dropWhile (\<lambda>c. c = CHR ''/'') (dropWhile (\<lambda>c. c \<noteq> CHR ''/'') (rev path)))"

definition is_compose_name :: "string \<Rightarrow> bool" where
  "is_compose_name n \<longleftrightarrow>
     n = ''docker-compose.yml'' \<or> n = ''docker-compose.yaml'' \<or> n = ''compose.yml'' \<or> n = ''compose.yaml''"

definition line_blanks :: string where
  "line_blanks = [CHR '' '', CHR 0x09]"

definition service_of_line :: "string \<Rightarrow> string" where
  "service_of_line line =
     (case find_char (CHR '':'') line of
        None \<Rightarrow> []
      | Some k \<Rightarrow> trim_end line_blanks (dropWhile (\<lambda>c. c \<in> set line_blanks) (substr line 2 (k - 2))))"

fun scan_services :: "bool \<Rightarrow> string list \<Rightarrow> string list" where
  "scan_services inside [] = []"
| "scan_services inside (line # rest) =
     (if text_after ''services:'' line \<noteq> None then scan_services True rest
      else if inside \<and> line \<noteq> [] \<and> hd line \<notin> set line_blanks then []
      else if inside \<and> take 2 line = ''  '' \<and> service_of_line line \<noteq> []
        then service_of_line line # scan_services inside rest
      else scan_services inside rest)"

definition services_array :: "string list \<Rightarrow> string" where
  "services_array services = ''['' @ join_with '','' (map (\<lambda>s. [CHR 0x22] @ escape_json s @ [CHR 0x22]) services) @ '']''"

definition read_compose_info :: "scan_world \<Rightarrow> string \<Rightarrow> agent_compose_file" where
  "read_compose_info W path =
     \<lparr>af_path = path, af_project_name = file_name (parent_path path),
      af_services_json = services_array (scan_services False
        (getlines nl (case sw_read W path of None \<Rightarrow> [] | Some data \<Rightarrow> data))),
      af_file_hash = calculate_file_hash W path\<rparr>"

text \<open>
  \<open>sw_walk\<close> lists the regular files below a search path in the order of the directory iterator, up to the point
  where an error ends it; \<^const>\<open>None\<close> when the path is no directory.
\<close>

definition discover_compose_files :: "scan_world \<Rightarrow> string list \<Rightarrow> agent_compose_file list" where
  "discover_compose_files W search_paths =
     concat (map (\<lambda>base. case sw_walk W base of
         None \<Rightarrow> []
       | Some files \<Rightarrow> map (read_compose_info W) (filter (\<lambda>f. is_compose_name (file_name f)) files)) search_paths)"

section \<open>The full scan\<close>

definition text_member :: "string \<Rightarrow> string \<Rightarrow> string" where
  "text_member k v = ''      '' @ [CHR 0x22] @ k @ [CHR 0x22] @ '': '' @ [CHR 0x22] @ escape_json v @ [CHR 0x22]"

definition raw_member :: "string \<Rightarrow> string \<Rightarrow> string" where
  "raw_member k v = ''      '' @ [CHR 0x22] @ k @ [CHR 0x22] @ '': '' @ v"

definition json_object :: "string list \<Rightarrow> string" where
  "json_object members = ''    {'' @ [nl] @ join_with ('','' @ [nl]) members @ [nl] @ ''    }''"

definition container_json :: "agent_container \<Rightarrow> string" where
  "container_json c = json_object [text_member ''id'' (ac_id c), text_member ''name'' (ac_name c), text_member ''image'' (ac_image c),
     text_member ''state'' (ac_state c), text_member ''status'' (ac_status c), raw_member ''created'' (to_string (ac_created c)),
     text_member ''service_name'' (ac_service_name c), text_member ''health_status'' (ac_health_status c),
     text_member ''restart_policy'' (ac_restart_policy c)]"

definition compose_json :: "agent_compose_file \<Rightarrow> string" where
  "compose_json f = json_object [text_member ''path'' (af_path f), text_member ''project_name'' (af_project_name f),
     raw_member ''services'' (af_services_json f), text_member ''hash'' (af_file_hash f)]"

definition image_json :: "agent_image \<Rightarrow> string" where
  "image_json i = json_object [text_member ''id'' (ai_id i), text_member ''repository'' (ai_repository i), text_member ''tag'' (ai_tag i),
     raw_member ''size_bytes'' (to_string (ai_size_bytes i)), raw_member ''created'' (to_string (ai_created i))]"

definition network_json :: "agent_network \<Rightarrow> string" where
  "network_json n = json_object [text_member ''id'' (an_id n), text_member ''name'' (an_name n), text_member ''driver'' (an_driver n),
     text_member ''scope'' (an_scope n)]"

definition volume_json :: "agent_volume \<Rightarrow> string" where
  "volume_json v = json_object [text_member ''name'' (av_name v), text_member ''driver'' (av_driver v),
     text_member ''mountpoint'' (av_mountpoint v)]"

definition json_section :: "string \<Rightarrow> string list \<Rightarrow> string" where
  "json_section k items = ''  '' @ [CHR 0x22] @ k @ [CHR 0x22] @ '': ['' @ [nl] @ join_with ('','' @ [nl]) items @ [nl] @ ''  ]''"

definition default_search_paths :: "string list" where
  "default_search_paths = [''/opt'', ''/srv'', ''/home'']"

definition generate_full_scan_json :: "scan_world \<Rightarrow> string \<Rightarrow> string" where
  "generate_full_scan_json W server_label =
     ''{'' @ [nl] @
     ''  '' @ [CHR 0x22] @ ''server_label'' @ [CHR 0x22] @ '': '' @ [CHR 0x22] @ escape_json server_label @ [CHR 0x22] @ '','' @ [nl] @
     ''  '' @ [CHR 0x22] @ ''timestamp'' @ [CHR 0x22] @ '': '' @ to_string (sw_now W) @ '','' @ [nl] @
     json_section ''containers'' (map container_json (list_containers W)) @ '','' @ [nl] @
     json_section ''compose_files'' (map compose_json (discover_compose_files W default_search_paths)) @ '','' @ [nl] @
     json_section ''images'' (map image_json (list_images W)) @ '','' @ [nl] @
     json_section ''networks'' (map network_json (list_networks W)) @ '','' @ [nl] @
     json_section ''volumes'' (map volume_json (list_volumes W)) @ [nl] @ ''}'' @ [nl]"

end
