(* ===== verification/Brain_Planner.thy ===== *)
theory Brain_Planner
  imports Nazg_Prelude
begin

text \<open>
  Deciding what to do with a project: the detector (\<open>modules/brain/src/detector.cpp\<close>) that looks at the
  project's files, and the planner (\<open>modules/brain/src/planner.cpp\<close>, types in
  \<open>modules/brain/include/brain/\<close>) that turns what it found into a command. The file system is seen
  through what the code asks: which paths exist, which are directories, what a file contains, and
  the walk of the tree (\<^const>\<open>None\<close> when iterating throws).
\<close>

section \<open>Files\<close>

record tree_entry =
  te_path :: string
  te_is_regular :: bool

record file_system =
  fs_exists :: "string \<Rightarrow> bool"
  fs_is_directory :: "string \<Rightarrow> bool"
  fs_read :: "string \<Rightarrow> string option"
  fs_walk :: "string \<Rightarrow> tree_entry list option"

fun contains :: "'a list \<Rightarrow> 'a list \<Rightarrow> bool" where
  "contains pat [] \<longleftrightarrow> pat = []"
| "contains pat (x # xs) \<longleftrightarrow> take (length pat) (x # xs) = pat \<or> contains pat xs"

text \<open>\<open>fs::path::filename\<close> and \<open>extension\<close>: what follows the last \<open>/\<close>, and from its last dot on, unless
  that dot is the first character.\<close>

definition path_join :: "string \<Rightarrow> string \<Rightarrow> string" where
  "path_join dir name = dir @ ''/'' @ name"

definition filename :: "string \<Rightarrow> string" where
  "filename p = rev (takeWhile (\<lambda>c. c \<noteq> CHR ''/'') (rev p))"

definition extension :: "string \<Rightarrow> string" where
  "extension p =
     (let f = filename p; stem = rev (dropWhile (\<lambda>c. c \<noteq> CHR ''.'') (rev f))
      in if f = ''..'' \<or> length stem \<le> 1 then [] else drop (length stem - 1) f)"

section \<open>The detector\<close>

record project_info =
  pi_root_path :: string
  pi_language :: string
  pi_build_system :: string
  pi_scm :: string
  pi_tools :: "string list"
  pi_has_cmake :: bool
  pi_has_makefile :: bool
  pi_has_git :: bool
  pi_test_framework :: string
  pi_has_tests :: bool
  pi_test_directory :: string

definition detect_cmake :: "file_system \<Rightarrow> string \<Rightarrow> bool" where
  "detect_cmake fs root = fs_exists fs (path_join root ''CMakeLists.txt'')"

definition detect_git :: "file_system \<Rightarrow> string \<Rightarrow> bool" where
  "detect_git fs root = fs_exists fs (path_join root ''.git'')"

definition skip_for_language :: "string \<Rightarrow> bool" where
  "skip_for_language path \<longleftrightarrow>
     contains ''/build/'' path \<or> contains ''/node_modules/'' path \<or> contains ''/.git/'' path
     \<or> contains ''/target/'' path \<or> contains ''/dist/'' path \<or> contains ''/__pycache__/'' path
     \<or> contains ''/.cache/'' path"

definition ext_count :: "tree_entry list \<Rightarrow> string \<Rightarrow> nat" where
  "ext_count entries ext =
     length (filter (\<lambda>e. te_is_regular e \<and> \<not> skip_for_language (te_path e) \<and> extension (te_path e) = ext) entries)"

definition pick :: "nat \<Rightarrow> string \<Rightarrow> nat \<times> string \<Rightarrow> nat \<times> string" where
  "pick n lang best = (if n > fst best then (n, lang) else best)"

definition detect_language :: "file_system \<Rightarrow> string \<Rightarrow> string" where
  "detect_language fs root =
     (case fs_walk fs root of
        None \<Rightarrow> ''unknown''
      | Some entries \<Rightarrow>
          let n = ext_count entries;
              cpp = n ''.cpp'' + n ''.cc'' + n ''.cxx'' + n ''.hpp'' + n ''.hh'' + n ''.hxx'';
              c = n ''.c'' + n ''.h'';
              py = n ''.py'';
              rs = n ''.rs'';
              go = n ''.go'';
              js = n ''.js'' + n ''.ts'' + n ''.jsx'' + n ''.tsx'';
              b0 = pick cpp ''cpp'' (0, ''unknown'');
              b1 = (if c > fst b0 \<and> c > cpp then (c, ''c'') else b0)
          in snd (pick js ''javascript'' (pick go ''go'' (pick rs ''rust'' (pick py ''python'' b1)))))"

definition detect_build_system :: "file_system \<Rightarrow> string \<Rightarrow> string" where
  "detect_build_system fs root =
     (if detect_cmake fs root then ''cmake''
      else if fs_exists fs (path_join root ''Makefile'') then ''make''
      else if fs_exists fs (path_join root ''Cargo.toml'') then ''cargo''
      else if fs_exists fs (path_join root ''package.json'') then ''npm''
      else if fs_exists fs (path_join root ''build.gradle'') then ''gradle''
      else ''unknown'')"

definition file_contains :: "file_system \<Rightarrow> string \<Rightarrow> string \<Rightarrow> bool" where
  "file_contains fs path pattern =
     (case fs_read fs path of
        None \<Rightarrow> False
      | Some content \<Rightarrow> list_ex (contains pattern) (getlines (CHR 0x0A) content))"

definition file_exists_in_tree :: "file_system \<Rightarrow> string \<Rightarrow> string \<Rightarrow> bool" where
  "file_exists_in_tree fs root name =
     (case fs_walk fs root of
        None \<Rightarrow> False
      | Some entries \<Rightarrow> list_ex (\<lambda>e. te_is_regular e \<and> contains name (filename (te_path e))) entries)"

definition matches_pattern :: "string \<Rightarrow> string \<Rightarrow> bool" where
  "matches_pattern pattern name =
     (if hd pattern = CHR ''*'' \<and> last pattern \<noteq> CHR ''*'' then
        (let suffix = drop 1 pattern in length suffix \<le> length name \<and> drop (length name - length suffix) name = suffix)
      else if hd pattern \<noteq> CHR ''*'' \<and> last pattern = CHR ''*'' then
        (let prefix = butlast pattern in take (length prefix) name = prefix)
      else name = pattern)"

definition has_files_matching :: "file_system \<Rightarrow> string \<Rightarrow> string \<Rightarrow> bool" where
  "has_files_matching fs root pattern =
     (case fs_walk fs root of
        None \<Rightarrow> False
      | Some entries \<Rightarrow>
          list_ex (\<lambda>e. te_is_regular e
             \<and> \<not> (contains ''/build/'' (te_path e) \<or> contains ''/node_modules/'' (te_path e) \<or> contains ''/.git/'' (te_path e))
             \<and> matches_pattern pattern (filename (te_path e))) entries)"

definition set_tests :: "string \<Rightarrow> project_info \<Rightarrow> project_info" where
  "set_tests fw info = info\<lparr>pi_test_framework := fw, pi_has_tests := True\<rparr>"

definition find_test_directory :: "file_system \<Rightarrow> project_info \<Rightarrow> project_info" where
  "find_test_directory fs info =
     (case filter (\<lambda>d. fs_exists fs (path_join (pi_root_path info) d) \<and> fs_is_directory fs (path_join (pi_root_path info) d))
             [''tests'', ''test'', ''__tests__'', ''spec''] of
        [] \<Rightarrow> info | d # _ \<Rightarrow> info\<lparr>pi_test_directory := d\<rparr>)"

definition cmake_tests :: "file_system \<Rightarrow> project_info \<Rightarrow> project_info" where
  "cmake_tests fs info =
     (let p = pi_root_path info @ ''/CMakeLists.txt'';
          info1 = (if file_contains fs p ''enable_testing'' \<or> file_contains fs p ''add_test''
                   then set_tests ''ctest'' info else info)
      in if file_contains fs p ''GTest::'' \<or> file_contains fs p ''gtest'' then set_tests ''gtest'' info1 else info1)"

definition cpp_tests :: "file_system \<Rightarrow> project_info \<Rightarrow> project_info" where
  "cpp_tests fs info =
     (if pi_language info = ''cpp'' \<or> pi_language info = ''c'' then
        (let info1 = (if pi_has_cmake info then cmake_tests fs info else info)
         in if file_exists_in_tree fs (pi_root_path info) ''catch.hpp'' \<or> file_exists_in_tree fs (pi_root_path info) ''catch2''
            then set_tests ''catch2'' info1 else info1)
      else info)"

definition python_tests :: "file_system \<Rightarrow> project_info \<Rightarrow> project_info" where
  "python_tests fs info =
     (let root = pi_root_path info in
      if pi_language info = ''python'' then
        (if fs_exists fs (path_join root ''pytest.ini'') \<or> fs_exists fs (path_join root ''pyproject.toml'')
         then set_tests ''pytest'' info
         else if has_files_matching fs root ''test_*.py'' \<or> has_files_matching fs root ''*_test.py''
         then set_tests ''pytest'' info else info)
      else info)"

definition rust_tests :: "project_info \<Rightarrow> project_info" where
  "rust_tests info =
     (if pi_language info = ''rust'' \<and> pi_build_system info = ''cargo'' then set_tests ''cargo'' info else info)"

definition javascript_tests :: "file_system \<Rightarrow> project_info \<Rightarrow> project_info" where
  "javascript_tests fs info =
     (if pi_language info = ''javascript'' then
        (if file_contains fs (pi_root_path info @ ''/package.json'') ''jest'' then set_tests ''jest'' info
         else if file_contains fs (pi_root_path info @ ''/package.json'') ''vitest'' then set_tests ''vitest'' info
         else info)
      else info)"

definition go_tests :: "file_system \<Rightarrow> project_info \<Rightarrow> project_info" where
  "go_tests fs info =
     (if pi_language info = ''go'' \<and> has_files_matching fs (pi_root_path info) ''*_test.go''
      then set_tests ''go'' info else info)"

definition detect_test_framework :: "file_system \<Rightarrow> project_info \<Rightarrow> project_info" where
  "detect_test_framework fs info =
     go_tests fs (javascript_tests fs (rust_tests (python_tests fs (cpp_tests fs (find_test_directory fs info)))))"

definition detect :: "file_system \<Rightarrow> string \<Rightarrow> project_info" where
  "detect fs root =
     (let cm = detect_cmake fs root; g = detect_git fs root; mk = fs_exists fs (path_join root ''Makefile'');
          info = \<lparr>pi_root_path = root, pi_language = detect_language fs root,
                  pi_build_system = detect_build_system fs root, pi_scm = (if g then ''git'' else ''none''),
                  pi_tools = [], pi_has_cmake = cm, pi_has_makefile = mk, pi_has_git = g,
                  pi_test_framework = [], pi_has_tests = False, pi_test_directory = []\<rparr>;
          info' = detect_test_framework fs info
      in info'\<lparr>pi_tools := (if cm then [''cmake''] else []) @ (if mk then [''make''] else []) @ (if g then [''git''] else [])\<rparr>)"

section \<open>The planner\<close>

datatype action = SKIP | BUILD | TEST | CLEAN | UNKNOWN

record plan =
  pl_action :: action
  pl_reason :: string
  pl_command :: string
  pl_args :: "string list"
  pl_working_dir :: string
  pl_test_framework :: string
  pl_run_after_build :: bool

record snapshot_result =
  sr_tree_hash :: string
  sr_changed :: bool
  sr_previous_hash :: string

definition empty_plan :: plan where
  "empty_plan = \<lparr>pl_action = UNKNOWN, pl_reason = [], pl_command = [], pl_args = [], pl_working_dir = [],
     pl_test_framework = [], pl_run_after_build = False\<rparr>"

definition generate_build_plan :: "project_info \<Rightarrow> plan" where
  "generate_build_plan info =
     (let p = empty_plan\<lparr>pl_action := BUILD, pl_working_dir := pi_root_path info\<rparr>; b = pi_build_system info in
      if b = ''cmake'' then
        p\<lparr>pl_command := ''/bin/sh'', pl_args := [''-c'', ''cmake -B build -S . && cmake --build build -j4'']\<rparr>
      else if b = ''make'' then p\<lparr>pl_command := ''make'', pl_args := [''-j4'']\<rparr>
      else if b = ''cargo'' then p\<lparr>pl_command := ''cargo'', pl_args := [''build'', ''--release'']\<rparr>
      else if b = ''npm'' then p\<lparr>pl_command := ''npm'', pl_args := [''run'', ''build'']\<rparr>
      else p\<lparr>pl_action := UNKNOWN, pl_reason := ''Unknown build system: '' @ b\<rparr>)"

definition generate_test_plan :: "project_info \<Rightarrow> plan" where
  "generate_test_plan info =
     (let fw = pi_test_framework info;
          p = empty_plan\<lparr>pl_action := TEST, pl_working_dir := pi_root_path info, pl_test_framework := fw\<rparr> in
      if fw = ''gtest'' \<or> fw = ''ctest'' then
        p\<lparr>pl_command := ''ctest'', pl_args := [''--output-on-failure'', ''--test-dir'', ''build'']\<rparr>
      else if fw = ''pytest'' then p\<lparr>pl_command := ''pytest'', pl_args := [''-v'', ''--tb=short'']\<rparr>
      else if fw = ''cargo'' then p\<lparr>pl_command := ''cargo'', pl_args := [''test'', ''--'', ''--nocapture'']\<rparr>
      else if fw = ''jest'' then p\<lparr>pl_command := ''npm'', pl_args := [''test'', ''--'', ''--verbose'']\<rparr>
      else if fw = ''vitest'' then p\<lparr>pl_command := ''npm'', pl_args := [''run'', ''test'']\<rparr>
      else if fw = ''go'' then p\<lparr>pl_command := ''go'', pl_args := [''test'', ''-v'', ''./...'']\<rparr>
      else if fw = ''catch2'' then p\<lparr>pl_command := ''./build/tests'', pl_args := []\<rparr>
      else p\<lparr>pl_action := UNKNOWN, pl_reason := ''Unknown test framework: '' @ fw\<rparr>)"

text \<open>The plan, and the message of the event written to the store.\<close>

definition decide :: "project_info \<Rightarrow> snapshot_result \<Rightarrow> plan \<times> string" where
  "decide info snap =
     (if \<not> sr_changed snap \<and> sr_previous_hash snap \<noteq> [] then
        (if pi_has_tests info then
           ((generate_test_plan info)\<lparr>pl_reason := ''No changes detected, but tests are available''\<rparr>,
            ''Decision: TEST (no changes)'')
         else
           (empty_plan\<lparr>pl_action := SKIP,
              pl_reason := ''No changes detected (tree hash: '' @ substr (sr_tree_hash snap) 0 8 @ '')''\<rparr>,
            ''Decision: SKIP (no changes)''))
      else if pi_build_system info \<noteq> ''unknown'' then
        (let p = (generate_build_plan info)\<lparr>pl_reason :=
                   (if sr_changed snap
                    then ''Files changed (previous: '' @ substr (sr_previous_hash snap) 0 8 @
                         '', current: '' @ substr (sr_tree_hash snap) 0 8 @ '')''
                    else ''First build'')\<rparr>
         in (if pi_has_tests info then p\<lparr>pl_run_after_build := True\<rparr> else p, ''Decision: BUILD''))
      else if pi_has_tests info then
        ((generate_test_plan info)\<lparr>pl_reason :=
            (if sr_changed snap then ''Files changed, running tests'' else ''First test run'')\<rparr>,
         ''Decision: TEST'')
      else
        (empty_plan\<lparr>pl_action := UNKNOWN, pl_reason := ''No build system or tests detected''\<rparr>,
         ''Decision: UNKNOWN''))"

section \<open>Properties\<close>

definition known_frameworks :: "string list" where
  "known_frameworks = [''ctest'', ''gtest'', ''catch2'', ''pytest'', ''cargo'', ''jest'', ''vitest'', ''go'']"

text \<open>
  What each test detector keeps: the root and the build system, and that the tests flag is set only
  together with a framework the planner has a command for.
\<close>

definition tests_known :: "project_info \<Rightarrow> bool" where
  "tests_known info \<longleftrightarrow> (pi_has_tests info \<longrightarrow> pi_test_framework info \<in> set known_frameworks)"

definition refines_info :: "project_info \<Rightarrow> project_info \<Rightarrow> bool" where
  "refines_info info info' \<longleftrightarrow> pi_build_system info' = pi_build_system info \<and> pi_root_path info' = pi_root_path info
     \<and> (tests_known info \<longrightarrow> tests_known info')"

lemma refines_info_refl [simp]: "refines_info info info"
  by (simp add: refines_info_def)

lemma refines_info_trans: "refines_info a b \<Longrightarrow> refines_info b c \<Longrightarrow> refines_info a c"
  by (simp add: refines_info_def)

lemma refines_set_tests: "fw \<in> set known_frameworks \<Longrightarrow> refines_info info info' \<Longrightarrow> refines_info info (set_tests fw info')"
  by (simp add: refines_info_def tests_known_def set_tests_def)

lemma known_members [simp]:
  "''ctest'' \<in> set known_frameworks" "''gtest'' \<in> set known_frameworks" "''catch2'' \<in> set known_frameworks"
  "''pytest'' \<in> set known_frameworks" "''cargo'' \<in> set known_frameworks" "''jest'' \<in> set known_frameworks"
  "''vitest'' \<in> set known_frameworks" "''go'' \<in> set known_frameworks"
  by (simp_all add: known_frameworks_def)

lemma refines_detectors:
  "refines_info info (find_test_directory fs info)" "refines_info info (cmake_tests fs info)"
  "refines_info info (python_tests fs info)" "refines_info info (rust_tests info)"
  "refines_info info (javascript_tests fs info)" "refines_info info (go_tests fs info)"
  by (simp_all add: find_test_directory_def refines_info_def tests_known_def split: list.split)
    (simp_all add: cmake_tests_def python_tests_def rust_tests_def javascript_tests_def go_tests_def Let_def set_tests_def)

lemma refines_cpp_tests: "refines_info info (cpp_tests fs info)"
  by (simp add: cpp_tests_def Let_def refines_set_tests refines_detectors)

lemma refines_detect_test_framework: "refines_info info (detect_test_framework fs info)"
  unfolding detect_test_framework_def
  by (meson refines_detectors refines_cpp_tests refines_info_trans)

lemma detect_refines:
  "pi_build_system (detect fs root) = detect_build_system fs root"
  "pi_root_path (detect fs root) = root"
  "tests_known (detect fs root)"
proof -
  define info where "info = \<lparr>pi_root_path = root, pi_language = detect_language fs root,
     pi_build_system = detect_build_system fs root, pi_scm = (if detect_git fs root then ''git'' else ''none''),
     pi_tools = [], pi_has_cmake = detect_cmake fs root, pi_has_makefile = fs_exists fs (path_join root ''Makefile''),
     pi_has_git = detect_git fs root, pi_test_framework = [], pi_has_tests = False, pi_test_directory = []\<rparr>"
  have r: "refines_info info (detect_test_framework fs info)" by (rule refines_detect_test_framework)
  have i: "pi_build_system info = detect_build_system fs root" "pi_root_path info = root" "tests_known info"
    by (simp_all add: info_def tests_known_def)
  obtain ts where d: "detect fs root = (detect_test_framework fs info)\<lparr>pi_tools := ts\<rparr>"
    by (simp add: detect_def Let_def info_def)
  show "pi_build_system (detect fs root) = detect_build_system fs root" "pi_root_path (detect fs root) = root"
    "tests_known (detect fs root)"
    using r i unfolding d by (simp_all add: refines_info_def tests_known_def)
qed

lemma build_plan_action:
  "pl_action (generate_build_plan info) = (if pi_build_system info \<in> {''cmake'', ''make'', ''cargo'', ''npm''} then BUILD else UNKNOWN)"
  "pl_command (generate_build_plan info) \<noteq> [] \<longleftrightarrow> pi_build_system info \<in> {''cmake'', ''make'', ''cargo'', ''npm''}"
  "pl_working_dir (generate_build_plan info) = pi_root_path info"
  by (simp_all add: generate_build_plan_def Let_def empty_plan_def)

lemma test_plan_action:
  assumes "pi_test_framework info \<in> set known_frameworks"
  shows "pl_action (generate_test_plan info) = TEST" "pl_command (generate_test_plan info) \<noteq> []"
    "pl_working_dir (generate_test_plan info) = pi_root_path info"
  using assms by (auto simp: generate_test_plan_def Let_def empty_plan_def known_frameworks_def)

text \<open>
  Plans for detected projects: on whatever the detector finds, an action that runs something
  (\<open>BUILD\<close> or \<open>TEST\<close>) comes with a command and the project root as working directory; unchanged trees
  are never built, and a changed or new tree is built exactly when its build system is one of cmake,
  make, cargo and npm.
\<close>

lemma decide_for_detected:
  "case decide (detect fs root) snap of (p, _) \<Rightarrow>
     (pl_action p \<in> {BUILD, TEST} \<longleftrightarrow> pl_command p \<noteq> [])
     \<and> (pl_action p \<in> {BUILD, TEST} \<longrightarrow> pl_working_dir p = root)
     \<and> (pl_action p = BUILD \<longleftrightarrow> (sr_changed snap \<or> sr_previous_hash snap = [])
           \<and> detect_build_system fs root \<in> {''cmake'', ''make'', ''cargo'', ''npm''})
     \<and> (pl_action p = SKIP \<longleftrightarrow> \<not> sr_changed snap \<and> sr_previous_hash snap \<noteq> [] \<and> \<not> pi_has_tests (detect fs root))
     \<and> (pl_run_after_build p \<longrightarrow> pi_has_tests (detect fs root))"
proof -
  let ?info = "detect fs root"
  have t: "pi_has_tests ?info \<Longrightarrow> pi_test_framework ?info \<in> set known_frameworks"
    using detect_refines(3) [of fs root] by (simp add: tests_known_def)
  have nb: "''unknown'' \<notin> {''cmake'', ''make'', ''cargo'', ''npm''}" by simp
  have r: "pl_run_after_build (generate_build_plan i) = False" "pl_run_after_build (generate_test_plan i) = False" for i
    by (simp_all add: generate_build_plan_def generate_test_plan_def Let_def empty_plan_def)
  show ?thesis
    using t nb test_plan_action [of ?info]
    by (auto simp: decide_def Let_def build_plan_action detect_refines(1,2) r empty_plan_def)
qed

lemma decide_for_detected_example:
  "pl_action (fst (decide (detect \<lparr>fs_exists = (\<lambda>p. p = ''/p/Makefile''), fs_is_directory = (\<lambda>_. False),
      fs_read = (\<lambda>_. None), fs_walk = (\<lambda>_. Some [])\<rparr> ''/p'')
      \<lparr>sr_tree_hash = ''abc'', sr_changed = True, sr_previous_hash = []\<rparr>)) = BUILD"
  using decide_for_detected [where fs = "\<lparr>fs_exists = (\<lambda>p. p = ''/p/Makefile''), fs_is_directory = (\<lambda>_. False),
      fs_read = (\<lambda>_. None), fs_walk = (\<lambda>_. Some [])\<rparr>" and root = "''/p''" and snap = "\<lparr>sr_tree_hash = ''abc'', sr_changed = True, sr_previous_hash = []\<rparr>"]
  by (auto simp: detect_build_system_def detect_cmake_def path_join_def split: prod.splits)

text \<open>
  Test files are missed: the pattern \<open>test_*.py\<close> that the detector uses for Python matches only a file of
  literally that name, so a project whose tests follow that naming (and has no \<open>pytest.ini\<close>,
  \<open>pyproject.toml\<close> or \<open>*_test.py\<close>) is reported as having none.
\<close>

lemma python_test_pattern_literal:
  "matches_pattern ''test_*.py'' name \<longleftrightarrow> name = ''test_*.py''"
  by (simp add: matches_pattern_def)

text \<open>
  Misleading decision for Gradle: the detector reports \<open>gradle\<close>, which the planner cannot build; the
  decision is then \<open>UNKNOWN\<close> with no command, while the stored event says \<open>Decision: BUILD\<close> and the
  reason that named the unknown build system is overwritten.
\<close>

lemma gradle_recorded_as_build:
  assumes "pi_build_system info = ''gradle''" "sr_changed snap \<or> sr_previous_hash snap = []"
  shows "case decide info snap of (p, event) \<Rightarrow>
     pl_action p = UNKNOWN \<and> pl_command p = [] \<and> event = ''Decision: BUILD''
     \<and> pl_reason p \<noteq> pl_reason (generate_build_plan info)"
  using assms by (auto simp: decide_def Let_def generate_build_plan_def empty_plan_def)

end
