(* ===== verification/Workspace_Files.thy ===== *)
theory Workspace_Files
  imports Nexus_Crypto Nexus_Workspace_Store Brain_Planner Config_Store "HOL-Library.Word"
begin

text \<open>
  The file side of the workspace manager (\<open>src/modules/workspace/src/manager.cpp\<close>,
  \<open>include/workspace/types.hpp\<close>): what a snapshot records of a project directory and how two
  snapshots are compared.

  A project directory is a \<open>tree\<close>: its regular files by their path relative to the project root, and the
  directories made by the manager. What the operating system decides is the parameter \<open>os\<close>: the order
  of the directory walk and where it fails, which files can be read, which directories can be made, how a
  copy ends, environment variables, the first line printed by a probe command and the iteration order of the
  hash sets.
\<close>

section \<open>Data\<close>

datatype file_type = SOURCE | BUILD_FILE | DEPENDENCY | CONFIG | UNKNOWN_FILE

record workspace_file =
  wf_path :: string
  wf_type :: file_type
  wf_hash :: string
  wf_size :: int
  wf_mtime :: int

record workspace_snapshot =
  ws_id :: int
  ws_project_id :: int
  ws_brain_snapshot_id :: int
  ws_label :: string
  ws_trigger_type :: string
  ws_timestamp :: int
  ws_build_dir_hash :: string
  ws_deps_manifest_hash :: string
  ws_env_snapshot :: "(string, string) std_map"
  ws_system_info :: "(string, string) std_map"
  ws_restore_count :: int
  ws_is_clean_build :: bool
  ws_git_commit :: string
  ws_git_branch :: string
  ws_tags :: "string list"
  ws_files :: "workspace_file list"

datatype change_type = ADDED | MODIFIED | DELETED | UNCHANGED

record file_change =
  fc_path :: string
  fc_type :: change_type
  fc_old_hash :: string
  fc_new_hash :: string
  fc_size_diff :: int

record snapshot_diff =
  sd_a_id :: int
  sd_b_id :: int
  source_changes :: "file_change list"
  build_changes :: "file_change list"
  dep_changes :: "file_change list"
  config_changes :: "file_change list"
  other_changes :: "file_change list"
  dep_upgrades :: "(string, string) std_map"
  env_changes :: "(string, string) std_map"
  system_info_changes :: "(string, string) std_map"

section \<open>Directories\<close>

record file_entry =
  fe_data :: string
  fe_mtime :: int

record tree =
  tfiles :: "(string \<times> file_entry) list"
  tdirs :: "string list"

datatype copy_outcome = Copied | Copy_Failed "string option"

record os =
  walk :: "(string \<times> file_entry) list \<Rightarrow> (string \<times> file_entry) list"
  scan_stop :: "nat option"
  readable :: "string \<Rightarrow> bool"
  dir_readable :: "string \<Rightarrow> bool"
  mkdir_ok :: "string \<Rightarrow> bool"
  copy_result :: "string \<Rightarrow> string \<Rightarrow> copy_outcome"
  getenv :: "string \<Rightarrow> string option"
  probe :: "string \<Rightarrow> string option"
  bucket_order :: "string list \<Rightarrow> string list"

text \<open>Path \<open>f\<close> lies below the directory \<open>p\<close>.\<close>

definition below :: "string \<Rightarrow> string \<Rightarrow> bool" where
  "below p f \<longleftrightarrow> take (length p + 1) f = p @ ''/''"

definition file_at :: "tree \<Rightarrow> string \<Rightarrow> file_entry option" where
  "file_at D p = map_of (tfiles D) p"

definition is_directory :: "tree \<Rightarrow> string \<Rightarrow> bool" where
  "is_directory D p \<longleftrightarrow> p \<in> set (tdirs D) \<or> list_ex (below p) (tdirs D) \<or> list_ex (\<lambda>f. below p (fst f)) (tfiles D)"

definition fs_present :: "tree \<Rightarrow> string \<Rightarrow> bool" where
  "fs_present D p \<longleftrightarrow> file_at D p \<noteq> None \<or> is_directory D p"

text \<open>\<open>fs::create_directories\<close>: it fails where a regular file is in the way. The parent of a path
  without \<open>/\<close> is the project root itself.\<close>

definition ensure_directory :: "os \<Rightarrow> string \<Rightarrow> tree \<Rightarrow> tree \<times> bool" where
  "ensure_directory e p D =
     (if mkdir_ok e p \<and> \<not> list_ex (\<lambda>f. fst f = p \<or> below (fst f) p) (tfiles D)
      then (if p = [] \<or> p \<in> set (tdirs D) then D else D\<lparr>tdirs := tdirs D @ [p]\<rparr>, True) else (D, False))"

definition parent_path :: "string \<Rightarrow> string" where
  "parent_path p = rev (drop 1 (dropWhile (\<lambda>c. c \<noteq> CHR ''/'') (rev p)))"

definition write_file :: "string \<Rightarrow> file_entry \<Rightarrow> tree \<Rightarrow> tree" where
  "write_file p f D =
     D\<lparr>tfiles := (if file_at D p = None then tfiles D @ [(p, f)]
                  else map (\<lambda>(q, g). (q, if q = p then f else g)) (tfiles D))\<rparr>"

text \<open>\<open>fs::copy_file\<close> with \<open>overwrite_existing\<close>: the source must be a regular file and the target no directory. A
  failing copy may leave a partly written target behind.\<close>

definition copy_file :: "os \<Rightarrow> int \<Rightarrow> string \<Rightarrow> string \<Rightarrow> tree \<Rightarrow> tree \<times> bool" where
  "copy_file e now src dst D =
     (case file_at D src of
        None \<Rightarrow> (D, False)
      | Some f \<Rightarrow>
          if is_directory D dst then (D, False)
          else case copy_result e src dst of
                 Copied \<Rightarrow> (write_file dst \<lparr>fe_data = fe_data f, fe_mtime = now\<rparr> D, True)
               | Copy_Failed None \<Rightarrow> (D, False)
               | Copy_Failed (Some d) \<Rightarrow> (write_file dst \<lparr>fe_data = d, fe_mtime = now\<rparr> D, False))"

section \<open>Hashes and file types\<close>

text \<open>\<open>hash = hash * 31 + c\<close> on \<open>size_t\<close>, with \<open>char\<close> signed as on the supported platforms; printed in
  hexadecimal without padding.\<close>

definition signed_char :: "char \<Rightarrow> int" where
  "signed_char c = signed_take_bit 7 (of_char c)"

definition hash_step :: "64 word \<Rightarrow> char \<Rightarrow> 64 word" where
  "hash_step h c = h * 31 + word_of_int (signed_char c)"

definition content_hash :: "string \<Rightarrow> 64 word" where
  "content_hash s = foldl hash_step 0 s"

fun hex_nat :: "nat \<Rightarrow> string" where
  "hex_nat n = (if n < 16 then [hex_digit n] else hex_nat (n div 16) @ [hex_digit (n mod 16)])"

declare hex_nat.simps [simp del]

definition compute_file_hash :: "os \<Rightarrow> tree \<Rightarrow> string \<Rightarrow> string" where
  "compute_file_hash e D p =
     (case file_at D p of
        Some f \<Rightarrow> if readable e p then hex_nat (unat (content_hash (fe_data f))) else []
      | None \<Rightarrow> [])"

definition detect_file_type :: "string \<Rightarrow> file_type" where
  "detect_file_type path =
     (let has = (\<lambda>pats. list_ex (\<lambda>pat. contains pat path) pats) in
      if has [''/build/'', ''/build-'', ''.o'', ''.a'', ''.so''] then BUILD_FILE
      else if has [''CMakeLists.txt'', ''Makefile'', ''.toml'', ''.yml'', ''.yaml'', ''.json''] then CONFIG
      else if has [''package.json'', ''Cargo.lock'', ''requirements.txt'', ''go.sum''] then DEPENDENCY
      else if has [''.cpp'', ''.hpp'', ''.c'', ''.h'', ''.py'', ''.js'', ''.ts'', ''.rs'', ''.go''] then SOURCE
      else UNKNOWN_FILE)"

section \<open>Scanning\<close>

record snapshot_options =
  so_label :: string
  so_trigger_type :: string
  include_build_dir :: bool
  include_deps :: bool
  exclude_patterns :: "string list"

definition scanned :: "snapshot_options \<Rightarrow> string \<Rightarrow> bool" where
  "scanned opts rel \<longleftrightarrow>
     \<not> (contains ''/.'' rel \<or> take 1 rel = ''.'') \<and>
     \<not> (\<not> include_build_dir opts \<and> (take 6 rel = ''build/'' \<or> take 6 rel = ''build-'')) \<and>
     \<not> list_ex (\<lambda>pat. contains pat rel) (exclude_patterns opts)"

definition file_record :: "os \<Rightarrow> tree \<Rightarrow> string \<times> file_entry \<Rightarrow> workspace_file" where
  "file_record e D f =
     \<lparr>wf_path = fst f, wf_type = detect_file_type (fst f), wf_hash = compute_file_hash e D (fst f),
      wf_size = int (length (fe_data (snd f))), wf_mtime = fe_mtime (snd f)\<rparr>"

text \<open>An exception of the directory iterator ends the scan; what was found so far is returned.\<close>

definition walked :: "os \<Rightarrow> tree \<Rightarrow> (string \<times> file_entry) list" where
  "walked e D = (case scan_stop e of None \<Rightarrow> walk e (tfiles D) | Some n \<Rightarrow> take n (walk e (tfiles D)))"

definition scan_workspace :: "os \<Rightarrow> tree \<Rightarrow> snapshot_options \<Rightarrow> workspace_file list" where
  "scan_workspace e D opts = map (file_record e D) (filter (\<lambda>f. scanned opts (fst f)) (walked e D))"

definition build_dirs :: "string list" where
  "build_dirs = [''build'', ''build-debug'', ''build-release'', ''cmake-build-debug'', ''cmake-build-release'',
     ''target'', ''dist'', ''out'']"

definition build_dir_entry :: "os \<Rightarrow> tree \<Rightarrow> string \<Rightarrow> string" where
  "build_dir_entry e D dir =
     (if is_directory D dir \<and> dir_readable e dir then
        let fs = filter (\<lambda>f. below dir (fst f)) (tfiles D) in
        dir @ '':'' @ to_string (int (length fs)) @ '':'' @
          to_string (int (sum_list (map (\<lambda>f. length (fe_data (snd f))) fs))) @ '';''
      else [])"

definition compute_build_dir_hash :: "os \<Rightarrow> tree \<Rightarrow> string" where
  "compute_build_dir_hash e D = concat (map (build_dir_entry e D) build_dirs)"

definition manifest_files :: "string list" where
  "manifest_files = [''package.json'', ''package-lock.json'', ''yarn.lock'', ''Cargo.toml'', ''Cargo.lock'',
     ''requirements.txt'', ''Pipfile'', ''Pipfile.lock'', ''poetry.lock'', ''go.mod'', ''go.sum'', ''pom.xml'',
     ''build.gradle'', ''composer.json'', ''composer.lock'']"

definition manifest_entry :: "string \<times> string \<Rightarrow> string" where
  "manifest_entry kv = fst kv @ '':'' @ snd kv @ '';''"

definition compute_deps_manifest_hash :: "os \<Rightarrow> tree \<Rightarrow> string" where
  "compute_deps_manifest_hash e D =
     concat (map (\<lambda>m. manifest_entry (m, compute_file_hash e D m)) (filter (\<lambda>m. file_at D m \<noteq> None) manifest_files))"

section \<open>Environment and system\<close>

definition quote :: char where
  "quote = CHR 0x22"

definition json_pair :: "string \<times> string \<Rightarrow> string" where
  "json_pair kv = quote # fst kv @ quote # CHR '':'' # quote # snd kv @ [quote]"

definition json_object :: "(string \<times> string) list \<Rightarrow> string" where
  "json_object kvs = ''{'' @ join_with '','' (map json_pair kvs) @ ''}''"

definition relevant_vars :: "string list" where
  "relevant_vars = [''CC'', ''CXX'', ''CFLAGS'', ''CXXFLAGS'', ''LDFLAGS'', ''CMAKE_BUILD_TYPE'', ''BUILD_TYPE'', ''PATH'',
     ''LD_LIBRARY_PATH'', ''CARGO_HOME'', ''RUSTC'', ''RUSTFLAGS'', ''GOPATH'', ''GOROOT'', ''JAVA_HOME'', ''MAVEN_HOME'',
     ''NODE_ENV'', ''NPM_CONFIG_PREFIX'']"

definition env_pairs :: "os \<Rightarrow> (string \<times> string) list" where
  "env_pairs e = concat (map (\<lambda>v. case getenv e v of None \<Rightarrow> [] | Some x \<Rightarrow> [(v, x)]) relevant_vars)"

definition capture_environment :: "os \<Rightarrow> string" where
  "capture_environment e = json_object (env_pairs e)"

definition rtrim_line :: "string \<Rightarrow> string" where
  "rtrim_line s = (case find_last_not_of [CHR '' '', CHR 0x0A, CHR 0x0D, CHR 0x09] s of None \<Rightarrow> [] | Some i \<Rightarrow> take (i + 1) s)"

definition system_probes :: "(string \<times> string) list" where
  "system_probes = [(''g++'', ''g++ --version 2>/dev/null | head -1''), (''clang++'', ''clang++ --version 2>/dev/null | head -1''),
     (''cmake'', ''cmake --version 2>/dev/null | head -1''), (''os'', ''uname -sr 2>/dev/null'')]"

definition system_pairs :: "os \<Rightarrow> (string \<times> string) list" where
  "system_pairs e =
     concat (map (\<lambda>(k, cmd). case probe e cmd of None \<Rightarrow> [] | Some line \<Rightarrow> [(k, rtrim_line line)]) system_probes)"

definition capture_system_info :: "os \<Rightarrow> string" where
  "capture_system_info e = json_object (system_pairs e)"

section \<open>Reading the recorded texts\<close>

text \<open>One entry of \<open>parse_simple_json_map\<close>: key, value and the rest of the text behind the closing quote.\<close>

definition next_pair :: "string \<Rightarrow> (string \<times> string \<times> string) option" where
  "next_pair s =
     (case find_char quote s of None \<Rightarrow> None | Some i \<Rightarrow>
      let r = drop (i + 1) s in
      case find_char quote r of None \<Rightarrow> None | Some j \<Rightarrow>
      case find_char (CHR '':'') (drop j r) of None \<Rightarrow> None | Some k \<Rightarrow>
      case find_char quote (drop (j + k) r) of None \<Rightarrow> None | Some m \<Rightarrow>
      let v = drop (j + k + m + 1) r in
      case find_char quote v of None \<Rightarrow> None | Some n \<Rightarrow> Some (take j r, take n v, drop (n + 1) v))"

lemma next_pair_shorter: "next_pair s = Some (k, v, r) \<Longrightarrow> length r < length s"
  by (auto simp: next_pair_def Let_def split: option.splits dest: find_char_Some(1))

function parse_pairs :: "string \<Rightarrow> (string, string) std_map \<Rightarrow> (string, string) std_map" where
  "parse_pairs s m = (case next_pair s of None \<Rightarrow> m | Some (k, v, r) \<Rightarrow> parse_pairs r (map_put k v m))"
  by pat_completeness auto
termination
  by (relation "measure (\<lambda>(s, m). length s)") (auto simp: next_pair_shorter)

declare parse_pairs.simps [simp del]

definition parse_simple_json_map :: "string \<Rightarrow> (string, string) std_map" where
  "parse_simple_json_map json = parse_pairs json []"

definition manifest_put :: "string \<Rightarrow> (string, string) std_map \<Rightarrow> (string, string) std_map" where
  "manifest_put entry m =
     (case find_char (CHR '':'') entry of
        Some i \<Rightarrow> if i + 1 < length entry then map_put (take i entry) (drop (i + 1) entry) m else m
      | None \<Rightarrow> m)"

text \<open>The entries between semicolons; the empty ones hold no colon.\<close>

definition parse_manifest_hashes :: "string \<Rightarrow> (string, string) std_map" where
  "parse_manifest_hashes combined = fold manifest_put (getlines (CHR '';'') combined) []"

section \<open>Comparing snapshots\<close>

definition empty_diff :: "int \<Rightarrow> int \<Rightarrow> snapshot_diff" where
  "empty_diff a b = \<lparr>sd_a_id = a, sd_b_id = b, source_changes = [], build_changes = [], dep_changes = [],
     config_changes = [], other_changes = [], dep_upgrades = [], env_changes = [], system_info_changes = []\<rparr>"

definition push_change_for_type :: "file_type \<Rightarrow> file_change \<Rightarrow> snapshot_diff \<Rightarrow> snapshot_diff" where
  "push_change_for_type t ch d =
     (case t of
        SOURCE \<Rightarrow> d\<lparr>source_changes := source_changes d @ [ch]\<rparr>
      | BUILD_FILE \<Rightarrow> d\<lparr>build_changes := build_changes d @ [ch]\<rparr>
      | DEPENDENCY \<Rightarrow> d\<lparr>dep_changes := dep_changes d @ [ch]\<rparr>
      | CONFIG \<Rightarrow> d\<lparr>config_changes := config_changes d @ [ch]\<rparr>
      | UNKNOWN_FILE \<Rightarrow> d\<lparr>other_changes := other_changes d @ [ch]\<rparr>)"

text \<open>The entry a hash map holds for a path is the last one with that path.\<close>

definition file_lookup :: "workspace_file list \<Rightarrow> string \<Rightarrow> workspace_file option" where
  "file_lookup fs p = map_of (rev (map (\<lambda>f. (wf_path f, f)) fs)) p"

definition change_of :: "workspace_file option \<Rightarrow> workspace_file option \<Rightarrow> string \<Rightarrow> (file_type \<times> file_change) option" where
  "change_of old new path =
     (case (old, new) of
        (Some a, Some b) \<Rightarrow>
          if wf_hash a = wf_hash b then None
          else Some (wf_type b, \<lparr>fc_path = path, fc_type = MODIFIED, fc_old_hash = wf_hash a, fc_new_hash = wf_hash b,
                       fc_size_diff = wf_size b - wf_size a\<rparr>)
      | (None, Some b) \<Rightarrow> Some (wf_type b, \<lparr>fc_path = path, fc_type = ADDED, fc_old_hash = [], fc_new_hash = wf_hash b,
                       fc_size_diff = wf_size b\<rparr>)
      | (Some a, None) \<Rightarrow> Some (wf_type a, \<lparr>fc_path = path, fc_type = DELETED, fc_old_hash = wf_hash a, fc_new_hash = [],
                       fc_size_diff = - wf_size a\<rparr>)
      | (None, None) \<Rightarrow> None)"

definition all_paths :: "os \<Rightarrow> workspace_file list \<Rightarrow> workspace_file list \<Rightarrow> string list" where
  "all_paths e a b = bucket_order e (remdups (map wf_path a @ map wf_path b))"

definition diff_step :: "workspace_file list \<Rightarrow> workspace_file list \<Rightarrow> string \<Rightarrow> snapshot_diff \<Rightarrow> snapshot_diff" where
  "diff_step a b path d =
     (case change_of (file_lookup a path) (file_lookup b path) path of
        None \<Rightarrow> d | Some (t, ch) \<Rightarrow> push_change_for_type t ch d)"

definition shown :: "(string, string) std_map \<Rightarrow> string \<Rightarrow> string" where
  "shown m k = (case map_get m k of None \<Rightarrow> ''(missing)'' | Some v \<Rightarrow> v)"

definition changed_values :: "(string, string) std_map \<Rightarrow> (string, string) std_map \<Rightarrow> (string, string) std_map" where
  "changed_values a b =
     fold (\<lambda>k m. if shown a k \<noteq> shown b k then map_put k (shown a k @ '' -> '' @ shown b k) m else m)
       (remdups (map fst a @ map fst b)) []"

definition compute_snapshot_diff :: "os \<Rightarrow> workspace_snapshot \<Rightarrow> workspace_snapshot \<Rightarrow> snapshot_diff" where
  "compute_snapshot_diff e a b =
     (fold (diff_step (ws_files a) (ws_files b)) (all_paths e (ws_files a) (ws_files b)) (empty_diff (ws_id a) (ws_id b)))
       \<lparr>env_changes := changed_values (ws_env_snapshot a) (ws_env_snapshot b),
        system_info_changes := changed_values (ws_system_info a) (ws_system_info b),
        dep_upgrades := changed_values (parse_manifest_hashes (ws_deps_manifest_hash a))
                          (parse_manifest_hashes (ws_deps_manifest_hash b))\<rparr>"

section \<open>Environment texts\<close>

lemma map_of_rev_distinct: "distinct (map fst xs) \<Longrightarrow> map_of (rev xs) = map_of xs"
proof (rule ext)
  fix k assume d: "distinct (map fst xs)"
  have "distinct (map fst (rev xs))" using d by (simp add: rev_map [symmetric])
  then have "map_of (rev xs) k = Some v \<longleftrightarrow> map_of xs k = Some v" for v using d by (simp only: map_of_eq_Some_iff set_rev)
  then show "map_of (rev xs) k = map_of xs k" by (cases "map_of xs k"; cases "map_of (rev xs) k") auto
qed

lemma next_pair_entry:
  assumes "quote \<notin> set pre" "quote \<notin> set k" "quote \<notin> set v"
  shows "next_pair (pre @ json_pair (k, v) @ r) = Some (k, v, r)"
proof -
  have q: "quote \<noteq> CHR '':''" by (simp add: quote_def)
  have 1: "find_char quote (pre @ quote # k @ quote # CHR '':'' # quote # v @ quote # r) = Some (length pre)"
    using assms(1) by (rule find_char_append)
  have 2: "find_char quote (k @ quote # CHR '':'' # quote # v @ quote # r) = Some (length k)"
    using assms(2) by (rule find_char_append)
  have 3: "find_char (CHR '':'') (quote # CHR '':'' # quote # v @ quote # r) = Some 1"
    using q by (simp add: find_char_def)
  have 4: "find_char quote (CHR '':'' # quote # v @ quote # r) = Some 1"
    using q by (simp add: find_char_def)
  have 5: "find_char quote (v @ quote # r) = Some (length v)" using assms(3) by (rule find_char_append)
  show ?thesis using 1 2 3 4 5 by (simp add: next_pair_def json_pair_def)
qed

lemma next_pair_none: "quote \<notin> set s \<Longrightarrow> next_pair s = None"
  using find_char_None_iff [of quote s] by (simp add: next_pair_def del: find_char_None_iff)

lemma parse_pairs_join:
  assumes "\<forall>(k, v)\<in>set kvs. quote \<notin> set k \<and> quote \<notin> set v" "quote \<notin> set pre" "quote \<notin> set tail"
  shows "parse_pairs (pre @ join_with '','' (map json_pair kvs) @ tail) m = fold (\<lambda>(k, v). map_put k v) kvs m"
  using assms
proof (induction kvs arbitrary: pre m)
  case Nil
  then show ?case by (simp add: parse_pairs.simps [of "pre @ tail"] next_pair_none)
next
  case (Cons kv kvs)
  obtain k v where kv: "kv = (k, v)" by (cases kv)
  let ?rest = "if kvs = [] then tail else '','' @ join_with '','' (map json_pair kvs) @ tail"
  have s: "pre @ join_with '','' (map json_pair (kv # kvs)) @ tail = pre @ json_pair (k, v) @ ?rest" by (simp add: kv)
  have "next_pair (pre @ json_pair (k, v) @ ?rest) = Some (k, v, ?rest)"
    using Cons.prems kv by (intro next_pair_entry) auto
  then have "parse_pairs (pre @ join_with '','' (map json_pair (kv # kvs)) @ tail) m = parse_pairs ?rest (map_put k v m)"
    unfolding s by (simp add: parse_pairs.simps [of "pre @ json_pair (k, v) @ ?rest"])
  also have "\<dots> = fold (\<lambda>(k, v). map_put k v) kvs (map_put k v m)"
  proof (cases "kvs = []")
    case True
    then show ?thesis using Cons.prems(3) by (simp add: parse_pairs.simps [of tail] next_pair_none)
  next
    case False
    then show ?thesis using Cons.IH [of "'',''" "map_put k v m"] Cons.prems by (simp add: quote_def)
  qed
  finally show ?case by (simp add: kv)
qed

lemma parse_json_object:
  assumes "\<forall>(k, v)\<in>set kvs. quote \<notin> set k \<and> quote \<notin> set v"
  shows "parse_simple_json_map (json_object kvs) = fold (\<lambda>(k, v). map_put k v) kvs []"
  using parse_pairs_join [OF assms, of "''{''" "''}''"]
  by (simp add: parse_simple_json_map_def json_object_def quote_def)

lemma relevant_vars_plain: "list_all (\<lambda>v. quote \<notin> set v) relevant_vars" "distinct relevant_vars"
  by code_simp+

lemma env_pairs_lookup:
  "map_of (env_pairs e) v = (if v \<in> set relevant_vars then getenv e v else None)"
proof -
  have "map_of (concat (map (\<lambda>v. case getenv e v of None \<Rightarrow> [] | Some x \<Rightarrow> [(v, x)]) vs)) v =
      (if v \<in> set vs then getenv e v else None)" for vs
    by (induction vs) (auto simp: map_add_def split: option.splits)
  then show ?thesis by (simp add: env_pairs_def)
qed

lemma env_pairs_distinct: "distinct (map fst (env_pairs e))"
proof -
  have "distinct vs \<Longrightarrow> distinct (map fst (concat (map (\<lambda>v. case getenv e v of None \<Rightarrow> [] | Some x \<Rightarrow> [(v, x)]) vs)))" for vs
    by (induction vs) (auto split: option.splits)
  then show ?thesis by (simp add: env_pairs_def relevant_vars_plain(2))
qed

lemma env_pairs_mem: "(v, x) \<in> set (env_pairs e) \<longleftrightarrow> v \<in> set relevant_vars \<and> getenv e v = Some x"
  by (auto simp: env_pairs_def split: option.splits)

lemma environment_round_trip:
  assumes "\<And>v x. v \<in> set relevant_vars \<Longrightarrow> getenv e v = Some x \<Longrightarrow> quote \<notin> set x"
  shows "map_get (parse_simple_json_map (capture_environment e)) v = (if v \<in> set relevant_vars then getenv e v else None)"
proof -
  have "\<forall>(k, x)\<in>set (env_pairs e). quote \<notin> set k \<and> quote \<notin> set x"
    using assms relevant_vars_plain(1) by (auto simp: env_pairs_mem list_all_iff)
  then have "map_get (parse_simple_json_map (capture_environment e)) v = map_of (rev (env_pairs e)) v"
    unfolding capture_environment_def by (simp add: parse_json_object std_map.get_load)
  then show ?thesis using env_pairs_distinct by (simp add: map_of_rev_distinct env_pairs_lookup)
qed

section \<open>Dependency manifests\<close>

lemma manifest_put_entry:
  assumes "CHR '':'' \<notin> set k"
  shows "manifest_put (k @ '':'' @ h) m = (if h = [] then m else map_put k h m)"
  using find_char_append [OF assms, of h] by (simp add: manifest_put_def)

lemma parse_manifest_entries:
  assumes "\<forall>(k, h)\<in>set kvs. CHR '':'' \<notin> set k \<and> CHR '';'' \<notin> set k \<and> CHR '';'' \<notin> set h"
  shows "fold manifest_put (getlines (CHR '';'') (concat (map manifest_entry kvs))) m =
     fold (\<lambda>(k, v). map_put k v) (filter (\<lambda>kv. snd kv \<noteq> []) kvs) m"
  using assms
proof (induction kvs arbitrary: m)
  case (Cons kv kvs)
  obtain k h where kv: "kv = (k, h)" by (cases kv)
  have "concat (map manifest_entry (kv # kvs)) = (k @ '':'' @ h) @ CHR '';'' # concat (map manifest_entry kvs)"
    by (simp add: kv manifest_entry_def)
  moreover have "CHR '';'' \<notin> set (k @ '':'' @ h)" using Cons.prems kv by simp
  ultimately have "getlines (CHR '';'') (concat (map manifest_entry (kv # kvs))) =
      (k @ '':'' @ h) # getlines (CHR '';'') (concat (map manifest_entry kvs))"
    using getlines_Cons by metis
  then show ?case using Cons kv manifest_put_entry [of k h m] by simp
qed simp

lemma hex_digit_plain: "n < 16 \<Longrightarrow> hex_digit n \<noteq> CHR '';''"
proof -
  assume "n < 16"
  then have "n \<in> set [0..<16]" by simp
  moreover have "list_all (\<lambda>n. hex_digit n \<noteq> CHR '';'') [0..<16]" by code_simp
  ultimately show ?thesis unfolding list_all_iff by blast
qed

lemma hex_nat_plain: "CHR '';'' \<notin> set (hex_nat n) \<and> hex_nat n \<noteq> []"
proof (induction n rule: hex_nat.induct)
  case (1 n)
  then show ?case using hex_digit_plain [of n] hex_digit_plain [of "n mod 16"] by (subst (1 2) hex_nat.simps) auto
qed

lemma map_of_graph_filter:
  "map_of (filter (\<lambda>kv. Q (snd kv)) (map (\<lambda>m. (m, f m)) ms)) m = (if m \<in> set ms \<and> Q (f m) then Some (f m) else None)"
  by (induction ms) auto

text \<open>The recorded manifest text names exactly the manifests that exist and could be read, with their hashes.\<close>

lemma manifest_round_trip:
  "map_get (parse_manifest_hashes (compute_deps_manifest_hash e D)) m =
     (if m \<in> set manifest_files \<and> file_at D m \<noteq> None \<and> readable e m then Some (compute_file_hash e D m) else None)"
proof -
  let ?ms = "filter (\<lambda>m. file_at D m \<noteq> None) manifest_files"
  let ?kvs = "map (\<lambda>m. (m, compute_file_hash e D m)) ?ms"
  have names: "list_all (\<lambda>k. CHR '':'' \<notin> set k \<and> CHR '';'' \<notin> set k) manifest_files" "distinct manifest_files"
    by code_simp+
  have "CHR '';'' \<notin> set (compute_file_hash e D m)" for m
    using hex_nat_plain by (simp add: compute_file_hash_def split: option.split)
  then have ok: "\<forall>(k, h)\<in>set ?kvs. CHR '':'' \<notin> set k \<and> CHR '';'' \<notin> set k \<and> CHR '';'' \<notin> set h"
    using names(1) by (auto simp: list_all_iff)
  have "parse_manifest_hashes (compute_deps_manifest_hash e D) =
      fold (\<lambda>(k, v). map_put k v) (filter (\<lambda>kv. snd kv \<noteq> []) ?kvs) []"
    using parse_manifest_entries [OF ok, of "[]"]
    by (simp add: parse_manifest_hashes_def compute_deps_manifest_hash_def comp_def)
  then have "map_get (parse_manifest_hashes (compute_deps_manifest_hash e D)) m = map_of (rev (filter (\<lambda>kv. snd kv \<noteq> []) ?kvs)) m"
    by (simp add: std_map.get_load)
  also have "\<dots> = map_of (filter (\<lambda>kv. snd kv \<noteq> []) ?kvs) m"
    by (subst map_of_rev_distinct) (simp_all add: filter_map comp_def names(2))
  also have "\<dots> = (if m \<in> set ?ms \<and> compute_file_hash e D m \<noteq> [] then Some (compute_file_hash e D m) else None)"
    by (rule map_of_graph_filter)
  finally show ?thesis using hex_nat_plain by (auto simp: compute_file_hash_def split: option.splits)
qed

section \<open>Hashes\<close>

lemma foldl_hash_step: "foldl hash_step h s = h * 31 ^ length s + foldl hash_step 0 s"
proof (induction s rule: rev_induct)
  case (snoc c s)
  have "foldl hash_step h (s @ [c]) = (h * 31 ^ length s + foldl hash_step 0 s) * 31 + word_of_int (signed_char c)"
    unfolding snoc [symmetric] by (simp add: hash_step_def)
  also have "\<dots> = h * 31 ^ length (s @ [c]) + foldl hash_step 0 (s @ [c])"
    by (simp add: hash_step_def algebra_simps)
  finally show ?case .
qed simp

lemma content_hash_append: "content_hash (p @ s) = content_hash p * 31 ^ length s + content_hash s"
  unfolding content_hash_def foldl_append by (rule foldl_hash_step)

lemma pow_31_cancel: "31 ^ n * x = 31 ^ n * y \<longleftrightarrow> x = (y :: 64 word)"
proof
  assume eq: "31 ^ n * x = 31 ^ n * y"
  have inv: "(17256631552825064415 :: 64 word) * 31 = 1" by simp
  have "17256631552825064415 ^ n * 31 ^ n = (1 :: 64 word)" by (simp only: power_mult_distrib [symmetric] inv power_one)
  moreover have "17256631552825064415 ^ n * (31 ^ n * x) = 17256631552825064415 ^ n * (31 ^ n * y)" using eq by simp
  ultimately show "x = y" by (simp only: mult.assoc [symmetric] mult_1)
qed simp

lemma signed_char_inj: "word_of_int (signed_char a) = (word_of_int (signed_char b) :: 64 word) \<longleftrightarrow> a = b"
proof
  assume "word_of_int (signed_char a) = (word_of_int (signed_char b) :: 64 word)"
  then have "take_bit 64 (signed_char a) = take_bit 64 (signed_char b)" by (simp add: word_of_int_eq_iff)
  then have "take_bit 8 (signed_char a) = take_bit 8 (signed_char b)"
    by (metis min.absorb1 numeral_le_iff semiring_norm(68,69,71) take_bit_take_bit)
  then have "take_bit 8 (of_char a :: int) = take_bit 8 (of_char b)"
    by (simp add: signed_char_def take_bit_signed_take_bit)
  moreover have "take_bit 8 (of_char c :: int) = of_char c" for c
    by (simp add: take_bit_eq_mod of_char_mod_256)
  ultimately show "a = b" by simp
qed simp

lemma hex_digit_inj: "m < 16 \<Longrightarrow> n < 16 \<Longrightarrow> hex_digit m = hex_digit n \<Longrightarrow> m = n"
  by (metis hex_value_digit option.inject)

lemma hex_nat_inj: "hex_nat m = hex_nat n \<Longrightarrow> m = n"
proof (induction m arbitrary: n rule: hex_nat.induct)
  case (1 m)
  have l: "last (hex_nat k) = hex_digit (k mod 16)" "butlast (hex_nat k) = (if k < 16 then [] else hex_nat (k div 16))" for k
    by (subst hex_nat.simps; simp add: hex_nat.simps)+
  have lst: "m mod 16 = n mod 16"
    using l(1) [of m] l(1) [of n] "1.prems" by (intro hex_digit_inj) simp_all
  have bl: "(if m < 16 then [] else hex_nat (m div 16)) = (if n < 16 then [] else hex_nat (n div 16))"
    using l(2) [of m] l(2) [of n] "1.prems" by simp
  have "m div 16 = n div 16"
  proof (cases "m < 16")
    case True
    then have "n < 16" using bl hex_nat_plain [of "n div 16"] by (cases "n < 16") simp_all
    with True show ?thesis by simp
  next
    case False
    then have n: "\<not> n < 16" using bl hex_nat_plain [of "m div 16"] by (cases "n < 16") simp_all
    then have "hex_nat (m div 16) = hex_nat (n div 16)" using bl False by simp
    with False show ?thesis by (rule "1.IH")
  qed
  then show "m = n" using lst by (metis mult_div_mod_eq)
qed

lemma compute_file_hash_eq:
  assumes "file_at D p = Some f" "file_at D' p' = Some g" "readable e p" "readable e' p'"
  shows "compute_file_hash e D p = compute_file_hash e' D' p' \<longleftrightarrow> content_hash (fe_data f) = content_hash (fe_data g)"
  using assms hex_nat_inj [of "unat (content_hash (fe_data f))" "unat (content_hash (fe_data g))"]
  by (auto simp: compute_file_hash_def intro: unsigned_word_eqI)

text \<open>
  The hash notices every change of a single byte, but not every change: replacing \<open>Aa\<close> by \<open>BB\<close> anywhere
  in a file keeps it.
\<close>

lemma hash_single_byte: "content_hash (p @ a # s) = content_hash (p @ b # s) \<longleftrightarrow> a = b"
proof -
  have "content_hash (p @ c # s) =
      content_hash p * 31 ^ Suc (length s) + (31 ^ length s * word_of_int (signed_char c) + content_hash s)" for c
    using content_hash_append [of p "c # s"] content_hash_append [of "[c]" s]
    by (simp add: content_hash_def hash_step_def mult.commute)
  then show ?thesis by (simp add: pow_31_cancel signed_char_inj)
qed

lemma hash_collision: "content_hash (p @ ''Aa'' @ s) = content_hash (p @ ''BB'' @ s)"
proof -
  have "content_hash ''Aa'' = content_hash ''BB''" by (simp add: content_hash_def hash_step_def signed_char_def)
  then show ?thesis by (simp only: content_hash_append length_append list.size)
qed

text \<open>
  The hash of a file notices every change of a single byte: two readable files that differ in at most
  one place have equal hashes exactly when they are equal. It is no cryptographic hash: replacing \<open>Aa\<close> by \<open>BB\<close> anywhere keeps
  it, so such a change of a file is never seen by a comparison or a smart restore.
\<close>

lemma file_hash_sensitivity:
  assumes "file_at D p = Some f" "file_at D' p = Some g" "readable e p"
  shows "(\<forall>x a b y. fe_data f = x @ a # y \<and> fe_data g = x @ b # y \<longrightarrow>
        (compute_file_hash e D p = compute_file_hash e D' p \<longleftrightarrow> fe_data f = fe_data g)) \<and>
     (\<forall>x y. fe_data f = x @ ''Aa'' @ y \<and> fe_data g = x @ ''BB'' @ y \<longrightarrow> compute_file_hash e D p = compute_file_hash e D' p)"
  unfolding compute_file_hash_eq [OF assms(1,2,3,3)] using hash_single_byte hash_collision by auto

lemma file_hash_sensitivity_example:
  "\<exists>D D' e. file_at D ''f'' = Some \<lparr>fe_data = ''xAay'', fe_mtime = 0\<rparr> \<and> file_at D' ''f'' = Some \<lparr>fe_data = ''xBBy'', fe_mtime = 0\<rparr> \<and>
     readable e ''f'' \<and> compute_file_hash e D ''f'' = compute_file_hash e D' ''f''"
proof -
  let ?D = "\<lambda>d. \<lparr>tfiles = [(''f'', \<lparr>fe_data = d, fe_mtime = 0\<rparr>)], tdirs = []\<rparr>"
  let ?e = "\<lparr>walk = (\<lambda>xs. xs), scan_stop = None, readable = (\<lambda>_. True), dir_readable = (\<lambda>_. True), mkdir_ok = (\<lambda>_. True),
     copy_result = (\<lambda>_ _. Copied), getenv = (\<lambda>_. None), probe = (\<lambda>_. None), bucket_order = (\<lambda>xs. xs)\<rparr>"
  have at: "file_at (?D d) ''f'' = Some \<lparr>fe_data = d, fe_mtime = 0\<rparr>" for d by (simp add: file_at_def)
  have "compute_file_hash ?e (?D ''xAay'') ''f'' = compute_file_hash ?e (?D ''xBBy'') ''f''"
    using file_hash_sensitivity [OF at at, of ?e "''xAay''" "''xBBy''"] by (auto dest: spec [of _ "''x''"])
  then show ?thesis using at by (intro exI [of _ "?D ''xAay''"] exI [of _ "?D ''xBBy''"] exI [of _ ?e]) simp
qed

section \<open>Exactness of a comparison\<close>

definition changes_in :: "file_type \<Rightarrow> snapshot_diff \<Rightarrow> file_change list" where
  "changes_in t d =
     (case t of SOURCE \<Rightarrow> source_changes d | BUILD_FILE \<Rightarrow> build_changes d | DEPENDENCY \<Rightarrow> dep_changes d
      | CONFIG \<Rightarrow> config_changes d | UNKNOWN_FILE \<Rightarrow> other_changes d)"

definition changes_at :: "workspace_file list \<Rightarrow> workspace_file list \<Rightarrow> file_type \<Rightarrow> string \<Rightarrow> file_change list" where
  "changes_at a b t p =
     (case change_of (file_lookup a p) (file_lookup b p) p of None \<Rightarrow> [] | Some (t', ch) \<Rightarrow> if t' = t then [ch] else [])"

lemma changes_in_step: "changes_in t (diff_step a b p d) = changes_in t d @ changes_at a b t p"
  by (cases t) (auto simp: changes_in_def diff_step_def changes_at_def push_change_for_type_def
      split: option.splits file_type.splits)

lemma changes_in_fold:
  "changes_in t (fold (diff_step a b) ps d) = changes_in t d @ concat (map (changes_at a b t) ps)"
  by (induction ps arbitrary: d) (simp_all add: changes_in_step)

lemma changes_in_diff:
  "changes_in t (compute_snapshot_diff e a b) =
     concat (map (changes_at (ws_files a) (ws_files b) t) (all_paths e (ws_files a) (ws_files b)))"
proof -
  have "changes_in t (d\<lparr>env_changes := x, system_info_changes := y, dep_upgrades := z\<rparr>) = changes_in t d" for d x y z
    by (simp add: changes_in_def split: file_type.split)
  moreover have "changes_in t (empty_diff i j) = []" for i j by (simp add: changes_in_def empty_diff_def split: file_type.split)
  ultimately show ?thesis unfolding compute_snapshot_diff_def by (simp only: changes_in_fold append_Nil)
qed

definition permutes :: "os \<Rightarrow> bool" where
  "permutes e \<longleftrightarrow> (\<forall>xs. mset (walk e xs) = mset xs) \<and> (\<forall>xs. mset (bucket_order e xs) = mset xs)"

lemma set_all_paths: "permutes e \<Longrightarrow> set (all_paths e a b) = wf_path ` set a \<union> wf_path ` set b"
  unfolding permutes_def all_paths_def by (metis image_set mset_eq_setD set_append set_remdups)

lemma file_lookup_None: "file_lookup fs p = None \<longleftrightarrow> p \<notin> wf_path ` set fs"
  by (auto simp: file_lookup_def map_of_eq_None_iff image_iff)

lemma diff_changes:
  assumes "permutes e"
  shows "ch \<in> set (changes_in t (compute_snapshot_diff e a b)) \<longleftrightarrow>
     change_of (file_lookup (ws_files a) (fc_path ch)) (file_lookup (ws_files b) (fc_path ch)) (fc_path ch) = Some (t, ch)"
proof -
  have path: "change_of x y p = Some (t', c) \<Longrightarrow> fc_path c = p" for x y p t' c
    by (auto simp: change_of_def split: option.splits if_splits)
  have "change_of (file_lookup (ws_files a) p) (file_lookup (ws_files b) p) p = None"
    if "p \<notin> set (all_paths e (ws_files a) (ws_files b))" for p
    using that set_all_paths [OF assms] file_lookup_None [of "ws_files a" p] file_lookup_None [of "ws_files b" p]
    by (simp add: change_of_def)
  then have mem: "p \<in> set (all_paths e (ws_files a) (ws_files b))"
    if "change_of (file_lookup (ws_files a) p) (file_lookup (ws_files b) p) p = Some x" for p x
    using that by fastforce
  have "ch \<in> set (changes_at (ws_files a) (ws_files b) t p) \<longleftrightarrow>
      change_of (file_lookup (ws_files a) p) (file_lookup (ws_files b) p) p = Some (t, ch)" for p
    by (auto simp: changes_at_def split: option.splits if_splits)
  then have "ch \<in> set (changes_in t (compute_snapshot_diff e a b)) \<longleftrightarrow>
      (\<exists>p. change_of (file_lookup (ws_files a) p) (file_lookup (ws_files b) p) p = Some (t, ch))"
    unfolding changes_in_diff using mem by auto
  then show ?thesis using path by metis
qed

end
