(* ===== verification/Workspace_Manager.thy ===== *)
theory Workspace_Manager
  imports Workspace_Files "HOL-Library.Monad_Syntax"
begin

text \<open>
  The workspace manager (\<open>src/modules/workspace/src/manager.cpp\<close>, class \<open>Manager\<close>) over the nexus database
  and the project directories: creating snapshots, reading them back, tagging, restoring, comparing and
  pruning. The state is the database connection and, for each project root, its directory tree; paths are
  relative to that root, so the stored copies of snapshot \<open>n\<close> lie below \<open>.nazg/workspace/snapshots/n\<close>. A manager always has a
  store. An outer \<^const>\<open>None\<close> is an exception of \<open>std::map::at\<close>, \<open>std::stoll\<close> or \<open>std::stoi\<close> that leaves the
  operation.
\<close>

section \<open>State\<close>

record workspace =
  wdb :: sqlite
  wdisk :: "string \<Rightarrow> tree"

definition snapshot_storage_dir :: "int \<Rightarrow> string" where
  "snapshot_storage_dir sid = ''.nazg/workspace/snapshots/'' @ to_string sid"

definition stored_path :: "int \<Rightarrow> string \<Rightarrow> string" where
  "stored_path sid rel = snapshot_storage_dir sid @ ''/'' @ rel"

section \<open>Creating\<close>

definition file_type_text :: "file_type \<Rightarrow> string" where
  "file_type_text t = (case t of SOURCE \<Rightarrow> ''source'' | BUILD_FILE \<Rightarrow> ''build'' | DEPENDENCY \<Rightarrow> ''dep''
     | CONFIG \<Rightarrow> ''config'' | UNKNOWN_FILE \<Rightarrow> ''unknown'')"

definition record_file :: "int \<Rightarrow> workspace_file \<Rightarrow> sqlite \<Rightarrow> sqlite" where
  "record_file sid f c = add_workspace_file sid (wf_path f) (file_type_text (wf_type f)) (wf_hash f) (wf_size f) (wf_mtime f) c"

definition persist_file :: "os \<Rightarrow> int \<Rightarrow> int \<Rightarrow> workspace_file \<Rightarrow> tree \<Rightarrow> tree" where
  "persist_file e now sid f D =
     (if \<not> fs_present D (wf_path f) then D
      else let dst = stored_path sid (wf_path f) in
        case ensure_directory e (parent_path dst) D of
          (D', False) \<Rightarrow> D'
        | (D', True) \<Rightarrow> fst (copy_file e now (wf_path f) dst D'))"

definition persist_files :: "os \<Rightarrow> int \<Rightarrow> int \<Rightarrow> workspace_file list \<Rightarrow> tree \<Rightarrow> tree" where
  "persist_files e now sid files D =
     (case ensure_directory e (snapshot_storage_dir sid) D of
        (D', False) \<Rightarrow> D'
      | (D', True) \<Rightarrow> fold (persist_file e now sid) files D')"

definition create_snapshot :: "os \<Rightarrow> int \<Rightarrow> int \<Rightarrow> snapshot_options \<Rightarrow> workspace \<Rightarrow> workspace \<times> int" where
  "create_snapshot e now pid opts w =
     (case get_project pid (wdb w) of
        None \<Rightarrow> (w, 0)
      | Some p \<Rightarrow>
          let D = wdisk w (root_path p); files = scan_workspace e D opts in
          case add_workspace_snapshot now pid (-1) (so_label opts) (so_trigger_type opts)
                 (if include_build_dir opts then compute_build_dir_hash e D else [])
                 (if include_deps opts then compute_deps_manifest_hash e D else [])
                 (capture_environment e) (capture_system_info e) False [] [] (wdb w) of
            (c, sid) \<Rightarrow>
              if sid = 0 then (w\<lparr>wdb := c\<rparr>, 0)
              else (\<lparr>wdb = fold (record_file sid) files c,
                     wdisk = (wdisk w)(root_path p := persist_files e now sid files D)\<rparr>, sid))"

definition auto_snapshot :: "os \<Rightarrow> int \<Rightarrow> int \<Rightarrow> string \<Rightarrow> workspace \<Rightarrow> workspace \<times> int" where
  "auto_snapshot e now pid trigger w =
     create_snapshot e now pid \<lparr>so_label = ''auto-'' @ trigger, so_trigger_type = ''auto'', include_build_dir = True,
       include_deps = True, exclude_patterns = []\<rparr> w"

section \<open>Reading back\<close>

definition row_num :: "(string, string) std_map \<Rightarrow> string \<Rightarrow> int option" where
  "row_num m k = Option.bind (map_get m k) stoll"

definition row_text :: "(string, string) std_map \<Rightarrow> string \<Rightarrow> string" where
  "row_text m k = (case map_get m k of None \<Rightarrow> [] | Some v \<Rightarrow> v)"

definition snapshot_of_row :: "(string, string) std_map \<Rightarrow> workspace_snapshot option" where
  "snapshot_of_row m = do {
     i \<leftarrow> row_num m ''id'';
     pid \<leftarrow> row_num m ''project_id'';
     brain \<leftarrow> (if row_text m ''brain_snapshot_id'' = [] then Some 0 else row_num m ''brain_snapshot_id'');
     label \<leftarrow> map_get m ''label'';
     trig \<leftarrow> map_get m ''trigger_type'';
     ts \<leftarrow> row_num m ''timestamp'';
     rc \<leftarrow> (case map_get m ''restore_count'' of None \<Rightarrow> Some 0 | Some v \<Rightarrow> stoi v);
     Some \<lparr>ws_id = i, ws_project_id = pid, ws_brain_snapshot_id = brain, ws_label = label, ws_trigger_type = trig,
       ws_timestamp = ts, ws_build_dir_hash = row_text m ''build_dir_hash'',
       ws_deps_manifest_hash = row_text m ''deps_manifest_hash'',
       ws_env_snapshot = parse_simple_json_map (row_text m ''env_snapshot''),
       ws_system_info = parse_simple_json_map (row_text m ''system_info''), ws_restore_count = rc,
       ws_is_clean_build = (map_get m ''is_clean_build'' = Some ''1''), ws_git_commit = row_text m ''git_commit'',
       ws_git_branch = row_text m ''git_branch'', ws_tags = [], ws_files = []\<rparr> }"

definition list_snapshots :: "int \<Rightarrow> int \<Rightarrow> sqlite \<Rightarrow> workspace_snapshot list option" where
  "list_snapshots pid n c = those (map snapshot_of_row (list_workspace_snapshots pid n c))"

definition file_type_of :: "string \<Rightarrow> file_type" where
  "file_type_of s = (if s = ''source'' then SOURCE else if s = ''build'' then BUILD_FILE else if s = ''dep'' then DEPENDENCY
     else if s = ''config'' then CONFIG else UNKNOWN_FILE)"

definition file_of_row :: "(string, string) std_map \<Rightarrow> workspace_file option" where
  "file_of_row m = do {
     p \<leftarrow> map_get m ''file_path'';
     h \<leftarrow> map_get m ''file_hash'';
     sz \<leftarrow> row_num m ''file_size'';
     mt \<leftarrow> row_num m ''mtime'';
     t \<leftarrow> map_get m ''file_type'';
     Some \<lparr>wf_path = p, wf_type = file_type_of t, wf_hash = h, wf_size = sz, wf_mtime = mt\<rparr> }"

definition tag_of_row :: "int \<Rightarrow> (string, string) std_map \<Rightarrow> string list option" where
  "tag_of_row sid m = do {
     i \<leftarrow> row_num m ''snapshot_id'';
     if i = sid then map_option (\<lambda>n. [n]) (map_get m ''tag_name'') else Some [] }"

definition get_snapshot :: "int \<Rightarrow> sqlite \<Rightarrow> workspace_snapshot option option" where
  "get_snapshot sid c =
     (case get_workspace_snapshot sid c of
        None \<Rightarrow> Some None
      | Some m \<Rightarrow> do {
          s \<leftarrow> snapshot_of_row m;
          ts \<leftarrow> those (map (tag_of_row (ws_id s)) (list_workspace_tags (ws_project_id s) c));
          fs \<leftarrow> those (map file_of_row (get_workspace_files sid c));
          Some (Some (s\<lparr>ws_tags := concat ts, ws_files := fs\<rparr>)) })"

definition get_snapshot_by_tag :: "int \<Rightarrow> string \<Rightarrow> sqlite \<Rightarrow> workspace_snapshot option option" where
  "get_snapshot_by_tag pid tag_name c =
     (case get_snapshot_id_by_tag pid tag_name c of None \<Rightarrow> Some None | Some sid \<Rightarrow> get_snapshot sid c)"

section \<open>Tags\<close>

definition tag_snapshot :: "int \<Rightarrow> int \<Rightarrow> string \<Rightarrow> string \<Rightarrow> sqlite \<Rightarrow> (sqlite \<times> bool) option" where
  "tag_snapshot now sid tag_name description c = do {
     found \<leftarrow> get_snapshot sid c;
     case found of
       None \<Rightarrow> Some (c, False)
     | Some s \<Rightarrow> Some (tag_workspace_snapshot now (ws_project_id s) sid tag_name description c) }"

definition untag :: "string \<Rightarrow> sqlite \<Rightarrow> sqlite \<times> bool" where
  "untag tag_name c = (c, False)"

definition list_tags :: "int \<Rightarrow> sqlite \<Rightarrow> string list option" where
  "list_tags pid c = those (map (\<lambda>m. map_get m ''tag_name'') (list_workspace_tags pid c))"

section \<open>Comparing\<close>

definition diff :: "os \<Rightarrow> int \<Rightarrow> int \<Rightarrow> sqlite \<Rightarrow> snapshot_diff option" where
  "diff e a b c = do {
     sa \<leftarrow> get_snapshot a c;
     sb \<leftarrow> get_snapshot b c;
     case (sa, sb) of
       (Some x, Some y) \<Rightarrow> Some ((compute_snapshot_diff e x y)\<lparr>sd_a_id := a, sd_b_id := b\<rparr>)
     | _ \<Rightarrow> Some (empty_diff a b) }"

definition scan_opts :: snapshot_options where
  "scan_opts = \<lparr>so_label = [], so_trigger_type = ''manual'', include_build_dir = True, include_deps = True,
     exclude_patterns = []\<rparr>"

definition current_snapshot :: "os \<Rightarrow> int \<Rightarrow> tree \<Rightarrow> workspace_snapshot" where
  "current_snapshot e pid D =
     \<lparr>ws_id = 0, ws_project_id = pid, ws_brain_snapshot_id = 0, ws_label = [], ws_trigger_type = [], ws_timestamp = 0,
      ws_build_dir_hash = compute_build_dir_hash e D, ws_deps_manifest_hash = compute_deps_manifest_hash e D,
      ws_env_snapshot = parse_simple_json_map (capture_environment e),
      ws_system_info = parse_simple_json_map (capture_system_info e), ws_restore_count = 0, ws_is_clean_build = False,
      ws_git_commit = [], ws_git_branch = [], ws_tags = [], ws_files = scan_workspace e D scan_opts\<rparr>"

definition diff_current :: "os \<Rightarrow> int \<Rightarrow> int \<Rightarrow> workspace \<Rightarrow> snapshot_diff option" where
  "diff_current e pid sid w =
     (case get_project pid (wdb w) of
        None \<Rightarrow> Some (empty_diff 0 sid)
      | Some p \<Rightarrow> do {
          found \<leftarrow> get_snapshot sid (wdb w);
          case found of
            None \<Rightarrow> Some (empty_diff 0 sid)
          | Some s \<Rightarrow> Some ((compute_snapshot_diff e (current_snapshot e pid (wdisk w (root_path p))) s)
                       \<lparr>sd_a_id := 0, sd_b_id := sid\<rparr>) })"

section \<open>Restoring\<close>

record restore_options =
  restore_type :: string
  dry_run :: bool
  include_paths :: "string list"
  exclude_paths :: "string list"

datatype restore_error =
    Project_Not_Found | Snapshot_Not_Found | Wrong_Project | Data_Not_Found string | Partial_Needs_Paths
  | Unknown_Mode string | Missing_Snapshot_File string | Directory_Failed string | Restore_Failed string

record restore_result =
  success :: bool
  files_restored :: int
  files_skipped :: int
  errors :: "restore_error list"
  duration_ms :: int

definition prefix_match :: "string \<Rightarrow> string \<Rightarrow> bool" where
  "prefix_match path pat \<longleftrightarrow> pat \<noteq> [] \<and> (path = pat \<or>
     (length pat < length path \<and> take (length pat) path = pat \<and> path ! length pat = CHR ''/''))"

definition matches_prefix :: "string \<Rightarrow> string list \<Rightarrow> bool" where
  "matches_prefix path pats \<longleftrightarrow> pats = [] \<or> list_ex (prefix_match path) pats"

definition is_excluded :: "string \<Rightarrow> string list \<Rightarrow> bool" where
  "is_excluded path pats \<longleftrightarrow> list_ex (prefix_match path) pats"

definition should_include :: "restore_options \<Rightarrow> string \<Rightarrow> bool" where
  "should_include opts path \<longleftrightarrow>
     \<not> (include_paths opts \<noteq> [] \<and> \<not> matches_prefix path (include_paths opts)) \<and> \<not> is_excluded path (exclude_paths opts)"

definition restore_mode :: "restore_options \<Rightarrow> string" where
  "restore_mode opts =
     (let mode = map tolower (if restore_type opts = [] then ''full'' else restore_type opts)
      in if include_paths opts \<noteq> [] \<and> mode = ''full'' then ''partial'' else mode)"

definition add_candidate :: "restore_options \<Rightarrow> string \<Rightarrow> string list \<times> int \<Rightarrow> string list \<times> int" where
  "add_candidate opts path acc =
     (if \<not> should_include opts path then (fst acc, snd acc + 1)
      else if path \<in> set (fst acc) then acc else (fst acc @ [path], snd acc))"

definition wanted :: "restore_options \<Rightarrow> string \<Rightarrow> bool" where
  "wanted opts path \<longleftrightarrow> include_paths opts \<noteq> [] \<and> matches_prefix path (include_paths opts)"

definition consider_change ::
  "restore_options \<Rightarrow> workspace_file list \<Rightarrow> bool \<Rightarrow> file_change \<Rightarrow> string list \<times> int \<Rightarrow> string list \<times> int" where
  "consider_change opts files include_all ch acc =
     (if file_lookup files (fc_path ch) = None then acc
      else if (include_all \<and> (fc_type ch = ADDED \<or> fc_type ch = MODIFIED)) \<or> fc_type ch = ADDED \<or> wanted opts (fc_path ch)
           then add_candidate opts (fc_path ch) acc else acc)"

definition restore_candidates ::
  "os \<Rightarrow> int \<Rightarrow> int \<Rightarrow> restore_options \<Rightarrow> workspace_file list \<Rightarrow> workspace \<Rightarrow> (string list \<times> int) option" where
  "restore_candidates e pid sid opts files w =
     (if restore_mode opts \<noteq> ''smart'' then Some (fold (add_candidate opts) (map wf_path files) ([], 0))
      else do {
        d \<leftarrow> diff_current e pid sid w;
        Some (fold (consider_change opts files False) (source_changes d)
             (fold (consider_change opts files True)
                (build_changes d @ dep_changes d @ config_changes d @ other_changes d) ([], 0))) })"

definition restore_file ::
  "os \<Rightarrow> int \<Rightarrow> bool \<Rightarrow> int \<Rightarrow> workspace_file list \<Rightarrow> string \<Rightarrow> tree \<times> restore_result \<Rightarrow> tree \<times> restore_result" where
  "restore_file e now dry sid files rel st =
     (case st of (D, r) \<Rightarrow>
        let failed = (\<lambda>err. r\<lparr>errors := errors r @ [err], files_skipped := files_skipped r + 1\<rparr>) in
        if file_lookup files rel = None then (D, r\<lparr>files_skipped := files_skipped r + 1\<rparr>)
        else if \<not> fs_present D (stored_path sid rel) then (D, failed (Missing_Snapshot_File rel))
        else if dry then (D, r\<lparr>files_restored := files_restored r + 1, files_skipped := files_skipped r + 1\<rparr>)
        else case ensure_directory e (parent_path rel) D of
               (D1, False) \<Rightarrow> (D1, failed (Directory_Failed rel))
             | (D1, True) \<Rightarrow>
                 (case copy_file e now (stored_path sid rel) rel D1 of
                    (D2, False) \<Rightarrow> (D2, failed (Restore_Failed rel))
                  | (D2, True) \<Rightarrow> (D2, r\<lparr>files_restored := files_restored r + 1\<rparr>)))"

definition no_result :: restore_result where
  "no_result = \<lparr>success = False, files_restored = 0, files_skipped = 0, errors = [], duration_ms = 0\<rparr>"

text \<open>The part of \<open>restore\<close> behind the checks: copying the sorted candidates and recording the run.\<close>

definition run_restore ::
  "os \<Rightarrow> int \<Rightarrow> int \<times> int \<Rightarrow> int \<Rightarrow> int \<Rightarrow> restore_options \<Rightarrow> workspace_file list \<Rightarrow> string list \<times> int \<Rightarrow> string
    \<Rightarrow> workspace \<Rightarrow> workspace \<times> restore_result" where
  "run_restore e now ms pid sid opts files cand root w =
     (let paths = sort (fst cand);
          (c1, rid) = (if dry_run opts then (wdb w, 0)
                       else begin_workspace_restore now pid sid (restore_mode opts) ''workspace restore'' (wdb w));
          (D, r) = fold (restore_file e now (dry_run opts) sid files) paths
                     (wdisk w root, no_result\<lparr>files_skipped := snd cand\<rparr>);
          ok = (errors r = []);
          c2 = (if \<not> dry_run opts \<and> 0 < rid then finish_workspace_restore rid ok (files_restored r) (snd ms) c1 else c1);
          c3 = (if \<not> dry_run opts \<and> ok then fst (update_workspace_snapshot_restore_count sid c2) else c2)
      in (\<lparr>wdb = c3, wdisk = (wdisk w)(root := D)\<rparr>, r\<lparr>duration_ms := fst ms, success := ok\<rparr>))"

definition restore ::
  "os \<Rightarrow> int \<Rightarrow> int \<times> int \<Rightarrow> int \<Rightarrow> int \<Rightarrow> restore_options \<Rightarrow> workspace \<Rightarrow> (workspace \<times> restore_result) option" where
  "restore e now ms pid sid opts w =
     (let fail = (\<lambda>err. Some (w, no_result\<lparr>errors := [err]\<rparr>)) in
      case get_project pid (wdb w) of
        None \<Rightarrow> fail Project_Not_Found
      | Some p \<Rightarrow> do {
          found \<leftarrow> get_snapshot sid (wdb w);
          case found of
            None \<Rightarrow> fail Snapshot_Not_Found
          | Some s \<Rightarrow>
              if ws_project_id s \<noteq> pid then fail Wrong_Project
              else if \<not> fs_present (wdisk w (root_path p)) (snapshot_storage_dir sid)
                   then fail (Data_Not_Found (snapshot_storage_dir sid))
              else if restore_mode opts = ''partial'' \<and> include_paths opts = [] then fail Partial_Needs_Paths
              else if restore_mode opts \<notin> {''full'', ''smart'', ''partial''} then fail (Unknown_Mode (restore_mode opts))
              else do {
                cand \<leftarrow> restore_candidates e pid sid opts (ws_files s) w;
                if fst cand = [] \<and> snd cand = 0 then Some (w, no_result\<lparr>success := True\<rparr>)
                else Some (run_restore e now ms pid sid opts (ws_files s) cand (root_path p) w) } })"

section \<open>Pruning\<close>

record prune_options =
  prune_dry_run :: bool
  untagged_only :: bool

record prune_result =
  total_candidates :: int
  deleted :: int
  skipped_tagged :: int
  deleted_ids :: "int list"
  skipped_tagged_ids :: "int list"

definition no_prune :: prune_result where
  "no_prune = \<lparr>total_candidates = 0, deleted = 0, skipped_tagged = 0, deleted_ids = [], skipped_tagged_ids = []\<rparr>"

definition tagged_ids :: "int \<Rightarrow> sqlite \<Rightarrow> int list option" where
  "tagged_ids pid c = those (map (\<lambda>m. do { i \<leftarrow> row_num m ''snapshot_id''; n \<leftarrow> map_get m ''tag_name''; Some i })
     (list_workspace_tags pid c))"

definition prune_one :: "prune_options \<Rightarrow> int list \<Rightarrow> workspace_snapshot \<Rightarrow> sqlite \<times> prune_result \<Rightarrow> sqlite \<times> prune_result" where
  "prune_one opts tagged s st =
     (case st of (c, r) \<Rightarrow>
        if ws_id s \<in> set tagged \<and> untagged_only opts
        then (c, r\<lparr>skipped_tagged := skipped_tagged r + 1, skipped_tagged_ids := skipped_tagged_ids r @ [ws_id s]\<rparr>)
        else if prune_dry_run opts then (c, r\<lparr>deleted_ids := deleted_ids r @ [ws_id s]\<rparr>)
        else case delete_workspace_snapshot (ws_id s) c of
               (c', True) \<Rightarrow> (c', r\<lparr>deleted_ids := deleted_ids r @ [ws_id s]\<rparr>)
             | (c', False) \<Rightarrow> (c', r))"

definition finish_prune :: "sqlite \<times> prune_result \<Rightarrow> sqlite \<times> prune_result" where
  "finish_prune st = (fst st, (snd st)\<lparr>deleted := int (length (deleted_ids (snd st)))\<rparr>)"

definition prune_old_snapshots :: "int \<Rightarrow> int \<Rightarrow> prune_options \<Rightarrow> sqlite \<Rightarrow> (sqlite \<times> prune_result) option" where
  "prune_old_snapshots pid keep opts c =
     (if keep < 0 then Some (c, no_prune)
      else do {
        snaps \<leftarrow> list_snapshots pid 1000 c;
        if length snaps \<le> nat keep then Some (c, no_prune)
        else do {
          tagged \<leftarrow> tagged_ids pid c;
          Some (finish_prune (fold (prune_one opts tagged) (drop (nat keep) snaps)
                  (c, no_prune\<lparr>total_candidates := int (length snaps) - keep\<rparr>))) } })"

text \<open>The cutoff in seconds of a clock that counts nanoseconds in 64 bits; outside that range the
  subtraction has no defined result. Durations are cut towards zero.\<close>

definition cutoff_timestamp :: "int \<Rightarrow> int \<Rightarrow> int option" where
  "cutoff_timestamp now_ns days =
     (let cut = now_ns - days * 86400 * 10 ^ 9
      in if 24 * days < 2 ^ 31 \<and> days * 86400 * 10 ^ 9 < 2 ^ 63 \<and> - (2 ^ 63) \<le> cut
         then Some (if 0 \<le> cut then cut div 10 ^ 9 else - ((- cut) div 10 ^ 9)) else None)"

definition prune_older_than :: "int \<Rightarrow> int \<Rightarrow> int \<Rightarrow> prune_options \<Rightarrow> sqlite \<Rightarrow> (sqlite \<times> prune_result) option" where
  "prune_older_than now_ns pid days opts c =
     (if days \<le> 0 then Some (c, no_prune)
      else do {
        cutoff \<leftarrow> cutoff_timestamp now_ns days;
        snaps \<leftarrow> list_snapshots pid 1000 c;
        tagged \<leftarrow> tagged_ids pid c;
        let old = filter (\<lambda>s. ws_timestamp s < cutoff) snaps;
        Some (finish_prune (fold (prune_one opts tagged) old (c, no_prune\<lparr>total_candidates := int (length old)\<rparr>))) })"

end
