(* ===== verification/Workspace_Records.thy ===== *)
theory Workspace_Records
  imports Workspace_Manager
begin

text \<open>
  The records of the workspace manager in the database: reading a snapshot back never fails except for an
  absurd restore counter, and a created snapshot reads back with exactly the files that were scanned.
\<close>

section \<open>Reading rows\<close>

lemma those_map_Some: "(\<And>x. x \<in> set xs \<Longrightarrow> f x = Some (g x)) \<Longrightarrow> those (map f xs) = Some (map g xs)"
  by (induction xs) simp_all

lemma stoll_range: "stoll s = Some i \<Longrightarrow> - (2 ^ 63) \<le> i \<and> i < 2 ^ 63"
  by (auto simp: stoll_def checked_range_def split: option.splits if_splits)

lemma get_num_range: "- (2 ^ 63) \<le> get_num r k" "get_num r k < 2 ^ 63"
  by (auto simp: get_num_def row_get_int_def split: option.splits if_splits dest: stoll_range)

lemma stoll_get_num [simp]: "stoll (to_string (get_num r k)) = Some (get_num r k)"
  by (rule stoll_to_string [OF get_num_range])

lemma to_string_not_Nil [simp]: "to_string i \<noteq> []"
  using nat_digits_props by (simp add: to_string_def)

definition snapshot_of :: "sql_row \<Rightarrow> workspace_snapshot" where
  "snapshot_of r = \<lparr>ws_id = get_num r ''id'', ws_project_id = get_num r ''project_id'',
     ws_brain_snapshot_id = get_num r ''brain_snapshot_id'', ws_label = get_text r ''label'',
     ws_trigger_type = get_text r ''trigger_type'', ws_timestamp = get_num r ''timestamp'',
     ws_build_dir_hash = get_text r ''build_dir_hash'', ws_deps_manifest_hash = get_text r ''deps_manifest_hash'',
     ws_env_snapshot = parse_simple_json_map (get_text r ''env_snapshot''),
     ws_system_info = parse_simple_json_map (get_text r ''system_info''), ws_restore_count = get_num r ''restore_count'',
     ws_is_clean_build = (to_string (get_num r ''is_clean_build'') = ''1''), ws_git_commit = get_text r ''git_commit'',
     ws_git_branch = get_text r ''git_branch'', ws_tags = [], ws_files = []\<rparr>"

definition file_of :: "sql_row \<Rightarrow> workspace_file" where
  "file_of r = \<lparr>wf_path = get_text r ''file_path'', wf_type = file_type_of (get_text r ''file_type''),
     wf_hash = get_text r ''file_hash'', wf_size = get_num r ''file_size'', wf_mtime = get_num r ''mtime''\<rparr>"

definition counter_ok :: "sql_row \<Rightarrow> bool" where
  "counter_ok r \<longleftrightarrow> - (2 ^ 31) \<le> get_num r ''restore_count'' \<and> get_num r ''restore_count'' < 2 ^ 31"

lemma stoi_counter: "stoi (to_string (get_num r ''restore_count'')) = (if counter_ok r then Some (get_num r ''restore_count'') else None)"
  by (auto simp: counter_ok_def stoi_def checked_range_def parse_int_prefix_to_string)

lemma snapshot_of_row_map: "snapshot_of_row (row_map snapshot_columns r) = (if counter_ok r then Some (snapshot_of r) else None)"
  by (simp add: snapshot_of_row_def row_num_def row_text_def map_get_row_map snapshot_columns_def stoi_counter snapshot_of_def)

lemma snapshot_of_listed_row:
  "snapshot_of_row (row_map listed_columns r) =
     (if counter_ok r then Some ((snapshot_of r)\<lparr>ws_env_snapshot := [], ws_system_info := []\<rparr>) else None)"
proof -
  have "parse_simple_json_map [] = []"
    by (simp add: parse_simple_json_map_def parse_pairs.simps [of "[]"] next_pair_def find_char_def)
  then show ?thesis
    by (simp add: snapshot_of_row_def row_num_def row_text_def map_get_row_map listed_columns_def stoi_counter snapshot_of_def)
qed

lemma file_of_row_map: "file_of_row (row_map file_columns r) = Some (file_of r)"
  by (simp add: file_of_row_def row_num_def map_get_row_map file_columns_def file_of_def)

lemma tag_of_row_map:
  "tag_of_row sid (row_map tag_columns r) = Some (if get_num r ''snapshot_id'' = sid then [get_text r ''tag_name''] else [])"
  by (simp add: tag_of_row_def row_num_def map_get_row_map tag_columns_def)

definition file_rows :: "int \<Rightarrow> sqlite \<Rightarrow> sql_row list" where
  "file_rows sid c = order_asc ''file_path'' (select ''workspace_files'' (eq_int ''snapshot_id'' sid) c)"

definition tag_rows :: "int \<Rightarrow> sqlite \<Rightarrow> sql_row list" where
  "tag_rows pid c = order_asc ''tag_name'' (select ''workspace_tags'' (eq_int ''project_id'' pid) c)"

text \<open>Reading a snapshot: the row, its tags and its files.\<close>

lemma get_snapshot_rows:
  "get_snapshot sid c =
     (case limit_rows 1 (select ''workspace_snapshots'' (eq_int ''id'' sid) c) of
        [] \<Rightarrow> Some None
      | r # _ \<Rightarrow>
          if counter_ok r
          then Some (Some ((snapshot_of r)
                 \<lparr>ws_tags := concat (map (\<lambda>t. if get_num t ''snapshot_id'' = get_num r ''id'' then [get_text t ''tag_name''] else [])
                               (tag_rows (get_num r ''project_id'') c)),
                  ws_files := map file_of (file_rows sid c)\<rparr>))
          else None)"
proof -
  have "those (map (tag_of_row i) (list_workspace_tags pid c)) =
      Some (map (\<lambda>t. if get_num t ''snapshot_id'' = i then [get_text t ''tag_name''] else []) (tag_rows pid c))" for i pid
    unfolding list_workspace_tags_def tag_rows_def map_map by (rule those_map_Some) (simp add: tag_of_row_map)
  moreover have "those (map file_of_row (get_workspace_files sid c)) = Some (map file_of (file_rows sid c))"
    unfolding get_workspace_files_def file_rows_def map_map by (rule those_map_Some) (simp add: file_of_row_map)
  ultimately show ?thesis
    by (auto simp: get_snapshot_def get_workspace_snapshot_def first_row_def snapshot_of_row_map snapshot_of_def
        split: list.splits)
qed

section \<open>Recording files\<close>

definition plain_text :: "string \<Rightarrow> bool" where
  "plain_text s \<longleftrightarrow> CHR 0x00 \<notin> set s"

lemma c_string_plain: "plain_text s \<Longrightarrow> c_string s = s"
  by (auto simp: plain_text_def c_string_def takeWhile_eq_all_conv)

definition record_ok :: "workspace_file \<Rightarrow> bool" where
  "record_ok f \<longleftrightarrow> plain_text (wf_path f) \<and> plain_text (wf_hash f) \<and> 0 \<le> wf_size f \<and> wf_size f < 2 ^ 63 \<and>
     - (2 ^ 63) \<le> wf_mtime f \<and> wf_mtime f < 2 ^ 63"

definition file_cells :: "int \<Rightarrow> workspace_file \<Rightarrow> cells" where
  "file_cells sid f = [(''snapshot_id'', VInt sid), (''file_path'', VText (c_string (wf_path f))),
     (''file_type'', VText (file_type_text (wf_type f))), (''file_hash'', VText (c_string (wf_hash f))),
     (''file_size'', VInt (wf_size f)), (''mtime'', VInt (wf_mtime f))]"

lemma c_string_Nil [simp]: "c_string [] = []"
  by (simp add: c_string_def)

lemma eq_int_fun: "eq_int k i = (\<lambda>r. val r k = VInt i)"
  by (simp add: fun_eq_iff)

lemma c_string_type [simp]: "c_string (file_type_text t) = file_type_text t"
  by (cases t) (simp_all add: file_type_text_def c_string_def)

lemma file_type_round_trip [simp]: "file_type_of (file_type_text t) = t"
  by (cases t) (simp_all add: file_type_text_def file_type_of_def)

lemma file_of_cells: "record_ok f \<Longrightarrow> file_of (i, file_cells sid f) = f"
proof -
  assume f: "record_ok f"
  have "get_num (i, file_cells sid f) ''file_size'' = wf_size f" "get_num (i, file_cells sid f) ''mtime'' = wf_mtime f"
    using f by (auto intro!: row_get_int_VInt(2) simp: record_ok_def file_cells_def val_def cell_def)
  moreover have "get_text (i, file_cells sid f) ''file_path'' = wf_path f" "get_text (i, file_cells sid f) ''file_hash'' = wf_hash f"
    "get_text (i, file_cells sid f) ''file_type'' = file_type_text (wf_type f)"
    using f by (auto intro!: get_text_VText simp: record_ok_def file_cells_def val_def cell_def c_string_plain)
  ultimately show ?thesis by (simp add: file_of_def)
qed

lemma record_file_effect:
  assumes "healthy c" "\<forall>n. \<not> io_fails c n" "sid \<in> set (ids_of (tabs c ''workspace_snapshots''))"
    "seq (tabs c ''workspace_files'') < max_rowid"
  shows "tabs (record_file sid f c) = append_row ''workspace_files'' (file_cells sid f) (tabs c)"
    "healthy (record_file sid f c)" "\<forall>n. \<not> io_fails (record_file sid f c) n"
proof -
  let ?vs = "[(''snapshot_id'', bind_int sid), (''file_path'', Nexus_Sql.bind (wf_path f)), (''file_type'', Nexus_Sql.bind (file_type_text (wf_type f))),
     (''file_hash'', Nexus_Sql.bind (wf_hash f)), (''file_size'', bind_int (wf_size f)), (''mtime'', bind_int (wf_mtime f))]"
  have cs: "new_cells workspace_files_table ?vs = file_cells sid f"
    by (simp add: new_cells_def workspace_files_table_def column_defs file_cells_def)
  have "accepts workspace_files_table ?vs c"
    using assms unfolding accepts_def cs
    by (simp add: healthy_def not_null_ok_def unique_ok_def fkeys_ok_def refers_def workspace_files_table_def column_defs
        file_cells_def cell_def)
  then show "tabs (record_file sid f c) = append_row ''workspace_files'' (file_cells sid f) (tabs c)"
    using exec_insert [of workspace_files_table ?vs c "''workspace_files''"] find_tables
    by (simp add: record_file_def add_workspace_file_def cs)
  show "healthy (record_file sid f c)" "\<forall>n. \<not> io_fails (record_file sid f c) n"
    using assms(1,2) by (simp_all add: record_file_def add_workspace_file_def)
qed

lemma record_files_effect:
  assumes "healthy c" "\<forall>n. \<not> io_fails c n" "sid \<in> set (ids_of (tabs c ''workspace_snapshots''))"
    "seq (tabs c ''workspace_files'') + int (length files) \<le> max_rowid"
  defines "c' \<equiv> fold (record_file sid) files c"
  shows "healthy c' \<and> (\<forall>n. \<not> io_fails c' n) \<and> (\<forall>t. t \<noteq> ''workspace_files'' \<longrightarrow> tabs c' t = tabs c t) \<and>
    (\<exists>is. length is = length files \<and>
       trows (tabs c' ''workspace_files'') = trows (tabs c ''workspace_files'') @ zip is (map (file_cells sid) files))"
  unfolding c'_def using assms(1-4)
proof (induction files arbitrary: c)
  case (Cons f files)
  let ?c = "record_file sid f c"
  have "seq (tabs c ''workspace_files'') < max_rowid" using Cons.prems(4) by simp
  note eff = record_file_effect [OF Cons.prems(1-3) this, of f]
  have tabs: "tabs ?c t = tabs c t" if "t \<noteq> ''workspace_files''" for t using that by (simp add: eff(1) append_row_def Let_def)
  have wf: "trows (tabs ?c ''workspace_files'') = trows (tabs c ''workspace_files'') @ [(seq (tabs c ''workspace_files'') + 1, file_cells sid f)]"
    "seq (tabs ?c ''workspace_files'') = seq (tabs c ''workspace_files'') + 1"
    by (simp_all add: eff(1) append_row_def Let_def)
  have "healthy (fold (record_file sid) files ?c) \<and> (\<forall>n. \<not> io_fails (fold (record_file sid) files ?c) n) \<and>
      (\<forall>t. t \<noteq> ''workspace_files'' \<longrightarrow> tabs (fold (record_file sid) files ?c) t = tabs ?c t) \<and>
      (\<exists>is. length is = length files \<and> trows (tabs (fold (record_file sid) files ?c) ''workspace_files'') =
         trows (tabs ?c ''workspace_files'') @ zip is (map (file_cells sid) files))"
    using Cons.prems(3,4) by (intro Cons.IH eff(2,3)) (simp_all add: tabs wf)
  then obtain js where "healthy (fold (record_file sid) files ?c)" "\<forall>n. \<not> io_fails (fold (record_file sid) files ?c) n"
    "\<forall>t. t \<noteq> ''workspace_files'' \<longrightarrow> tabs (fold (record_file sid) files ?c) t = tabs c t"
    "length js = length files"
    "trows (tabs (fold (record_file sid) files ?c) ''workspace_files'') =
       trows (tabs c ''workspace_files'') @ zip ((seq (tabs c ''workspace_files'') + 1) # js) (map (file_cells sid) (f # files))"
    using tabs wf(1) by auto
  then show ?case by (intro conjI exI [of _ "(seq (tabs c ''workspace_files'') + 1) # js"]) simp_all
qed (auto intro: exI [of _ "[]"])

section \<open>A created snapshot\<close>

definition snapshot_values :: "os \<Rightarrow> int \<Rightarrow> int \<Rightarrow> snapshot_options \<Rightarrow> tree \<Rightarrow> cells" where
  "snapshot_values e now pid opts D = [(''project_id'', VInt pid), (''brain_snapshot_id'', VNull), (''label'', VText (c_string (so_label opts))),
     (''trigger_type'', VText (c_string (so_trigger_type opts))), (''timestamp'', VInt now),
     (''build_dir_hash'', VText (c_string (if include_build_dir opts then compute_build_dir_hash e D else []))),
     (''deps_manifest_hash'', VText (c_string (if include_deps opts then compute_deps_manifest_hash e D else []))),
     (''env_snapshot'', VText (c_string (capture_environment e))), (''system_info'', VText (c_string (capture_system_info e))),
     (''restore_count'', VInt 0), (''is_clean_build'', VInt 0), (''git_commit'', VText []), (''git_branch'', VText []),
     (''created_at'', VInt now), (''tags'', VNull)]"

lemma add_snapshot_effect:
  fixes e now opts D pid c
  assumes "healthy c" "\<forall>n. \<not> io_fails c n" "pid \<in> set (ids_of (tabs c ''projects''))" "seq (tabs c ''workspace_snapshots'') < max_rowid"
  defines "q \<equiv> add_workspace_snapshot now pid (-1) (so_label opts) (so_trigger_type opts)
                 (if include_build_dir opts then compute_build_dir_hash e D else [])
                 (if include_deps opts then compute_deps_manifest_hash e D else [])
                 (capture_environment e) (capture_system_info e) False [] [] c"
  shows "snd q = seq (tabs c ''workspace_snapshots'') + 1"
    "tabs (fst q) = append_row ''workspace_snapshots'' (snapshot_values e now pid opts D) (tabs c)"
    "healthy (fst q)" "\<forall>n. \<not> io_fails (fst q) n"
proof -
  let ?vs = "[(''project_id'', bind_int pid), (''brain_snapshot_id'', VNull), (''label'', Nexus_Sql.bind (so_label opts)),
     (''trigger_type'', Nexus_Sql.bind (so_trigger_type opts)), (''timestamp'', bind_int now),
     (''build_dir_hash'', Nexus_Sql.bind (if include_build_dir opts then compute_build_dir_hash e D else [])),
     (''deps_manifest_hash'', Nexus_Sql.bind (if include_deps opts then compute_deps_manifest_hash e D else [])),
     (''env_snapshot'', Nexus_Sql.bind (capture_environment e)), (''system_info'', Nexus_Sql.bind (capture_system_info e)),
     (''is_clean_build'', Nexus_Sql.bind ''0''), (''git_commit'', Nexus_Sql.bind []), (''git_branch'', Nexus_Sql.bind []),
     (''created_at'', bind_int now)]"
  have zero: "coerce AInteger (Nexus_Sql.bind ''0'') = VInt 0" by code_simp
  have cs: "new_cells workspace_snapshots_table ?vs = snapshot_values e now pid opts D"
    by (simp add: new_cells_def workspace_snapshots_table_def column_defs snapshot_values_def zero)
  have "accepts workspace_snapshots_table ?vs c"
    using assms(1-4) unfolding accepts_def cs
    by (simp add: healthy_def not_null_ok_def unique_ok_def fkeys_ok_def refers_def workspace_snapshots_table_def column_defs
        snapshot_values_def cell_def)
  from insert_id_accepted [OF this, of "''workspace_snapshots''" 0, simplified]
  show "snd q = seq (tabs c ''workspace_snapshots'') + 1"
    "tabs (fst q) = append_row ''workspace_snapshots'' (snapshot_values e now pid opts D) (tabs c)"
    "healthy (fst q)"
    using find_tables assms(1) by (simp_all add: q_def add_workspace_snapshot_def cs)
  show "\<forall>n. \<not> io_fails (fst q) n"
    using assms(2) by (simp add: q_def add_workspace_snapshot_def)
qed

lemma no_files_of_new_snapshot:
  assumes "healthy c" "r \<in> set (trows (tabs c ''workspace_files''))"
  shows "val r ''snapshot_id'' \<noteq> VInt (seq (tabs c ''workspace_snapshots'') + 1)"
proof
  assume v: "val r ''snapshot_id'' = VInt (seq (tabs c ''workspace_snapshots'') + 1)"
  have "row_ok workspace_files_table (tabs c) (snd r)"
    using table_ok_row [OF healthy_table [OF assms(1), of workspace_files_table]] assms(2) by simp
  then have "refers (tabs c) ''workspace_snapshots'' (cell (snd r) ''snapshot_id'')"
    by (rule row_ok_fk) (simp add: workspace_files_table_def)
  then have "seq (tabs c ''workspace_snapshots'') + 1 \<in> set (ids_of (tabs c ''workspace_snapshots''))"
    using v by (simp add: refers_def val_def)
  moreover have "\<forall>i\<in>set (ids_of (tabs c ''workspace_snapshots'')). i \<le> seq (tabs c ''workspace_snapshots'')"
    using healthy_table [OF assms(1), of workspace_snapshots_table] by (simp add: table_ok_def Let_def list_all_iff)
  ultimately show False by fastforce
qed

lemma file_rows_new:
  assumes "healthy c" "trows (tabs c ''workspace_files'') = old @ zip is (map (file_cells sid) files)" "length is = length files"
    and "\<forall>r\<in>set old. val r ''snapshot_id'' \<noteq> VInt sid" "\<forall>f\<in>set files. record_ok f"
  shows "mset (map file_of (file_rows sid c)) = mset files"
proof -
  let ?new = "zip is (map (file_cells sid) files)"
  have "val r ''snapshot_id'' = VInt sid" if "r \<in> set ?new" for r
  proof -
    have "snd r \<in> set (map (file_cells sid) files)" using that by (metis prod.collapse set_zip_rightD)
    then show ?thesis by (auto simp: file_cells_def val_def cell_def)
  qed
  then have "filter (\<lambda>r. val r ''snapshot_id'' = VInt sid) (old @ ?new) = ?new"
    using assms(4) by (simp add: filter_empty_conv filter_id_conv)
  then have "filter_mset (eq_int ''snapshot_id'' sid) (mset (trows (tabs c ''workspace_files''))) = mset ?new"
    unfolding assms(2) eq_int_fun by (metis mset_filter)
  then have "mset (file_rows sid c) = mset ?new"
    using assms(1) mset_select [of c "''workspace_files''" "eq_int ''snapshot_id'' sid"]
    by (simp add: file_rows_def healthy_def)
  then have "mset (map file_of (file_rows sid c)) = mset (map file_of ?new)" by (simp only: mset_map)
  also have "map file_of ?new = files"
    by (rule nth_equalityI) (use assms(3,5) in \<open>auto simp: file_of_cells\<close>)
  finally show ?thesis .
qed

lemma create_snapshot_records:
  assumes w: "healthy (wdb w)" "\<forall>n. \<not> io_fails (wdb w) n" "get_project pid (wdb w) = Some p"
    and seqs: "seq (tabs (wdb w) ''workspace_snapshots'') < max_rowid"
      "seq (tabs (wdb w) ''workspace_files'') + int (length files) \<le> max_rowid"
    and files: "files = scan_workspace e (wdisk w (root_path p)) opts" "\<forall>f\<in>set files. record_ok f"
    and run: "create_snapshot e now pid opts w = (w', sid)"
  shows "0 < sid \<and> sid = seq (tabs (wdb w) ''workspace_snapshots'') + 1 \<and> healthy (wdb w') \<and> (\<forall>n. \<not> io_fails (wdb w') n) \<and>
     get_project pid (wdb w') = Some p \<and>
     wdisk w' = (wdisk w)(root_path p := persist_files e now sid files (wdisk w (root_path p))) \<and>
     (\<exists>s. get_snapshot sid (wdb w') = Some (Some s) \<and> ws_id s = sid \<and> ws_project_id s = pid \<and>
        ws_env_snapshot s = parse_simple_json_map (c_string (capture_environment e)) \<and> mset (ws_files s) = mset files)"
proof -
  let ?D = "wdisk w (root_path p)" and ?c = "wdb w"
  let ?t = "''workspace_snapshots''"
  have pid: "pid \<in> set (ids_of (tabs ?c ''projects''))"
    using w(3) unfolding get_project_by_id [OF w(1)] by (auto simp: by_id_def ids_of_def find_Some_iff)
  let ?q = "add_workspace_snapshot now pid (-1) (so_label opts) (so_trigger_type opts)
                 (if include_build_dir opts then compute_build_dir_hash e ?D else [])
                 (if include_deps opts then compute_deps_manifest_hash e ?D else [])
                 (capture_environment e) (capture_system_info e) False [] [] ?c"
  note q = add_snapshot_effect [OF w(1,2) pid seqs(1), of now opts e ?D]
  have seq0: "0 \<le> seq (tabs ?c ?t)"
    using healthy_table [OF w(1), of workspace_snapshots_table] by (simp add: table_ok_def Let_def)
  have w': "sid = snd ?q" "w' = \<lparr>wdb = fold (record_file sid) files (fst ?q), wdisk = (wdisk w)(root_path p := persist_files e now sid files ?D)\<rparr>"
    using run w(3) q(1) seq0 by (auto simp: create_snapshot_def Let_def files(1) split: prod.splits if_splits)
  have row: "trows (tabs (fst ?q) ?t) = trows (tabs ?c ?t) @ [(sid, snapshot_values e now pid opts ?D)]"
    "tabs (fst ?q) t = (if t = ?t then tabs (fst ?q) ?t else tabs ?c t)" for t
    using q(1,2) w'(1) by (simp_all add: append_row_def Let_def)
  have in_ids: "sid \<in> set (ids_of (tabs (fst ?q) ?t))" by (simp add: ids_of_def row(1))
  have "seq (tabs (fst ?q) ''workspace_files'') + int (length files) \<le> max_rowid" using seqs(2) row(2) [of "''workspace_files''"] by simp
  from record_files_effect [OF q(3,4) in_ids this] obtain js where
    h: "healthy (wdb w')" "\<forall>n. \<not> io_fails (wdb w') n" and tabs: "\<And>t. t \<noteq> ''workspace_files'' \<Longrightarrow> tabs (wdb w') t = tabs (fst ?q) t"
    and js: "length js = length files"
      "trows (tabs (wdb w') ''workspace_files'') = trows (tabs ?c ''workspace_files'') @ zip js (map (file_cells sid) files)"
    using row(2) [of "''workspace_files''"] by (auto simp: w'(2))
  have proj: "get_project pid (wdb w') = Some p"
    using w(3) tabs [of "''projects''"] row(2) [of "''projects''"] by (simp add: get_project_by_id [OF h(1)] get_project_by_id [OF w(1)])
  let ?r = "(sid, snapshot_values e now pid opts ?D)"
  have old: "\<forall>r\<in>set (trows (tabs ?c ?t)). fst r \<noteq> sid"
    using healthy_table [OF w(1), of workspace_snapshots_table] w'(1) q(1) by (auto simp: table_ok_def Let_def list_all_iff ids_of_def)
  have rows': "trows (tabs (wdb w') ?t) = trows (tabs ?c ?t) @ [?r]" using tabs [of ?t] row(1) by simp
  then have "by_id sid (trows (tabs (wdb w') ?t)) = Some ?r" using old
    by (auto simp: by_id_def find_append_single find_None_all split: option.splits dest: find_Some_in)
  then have sel: "select ?t (eq_int ''id'' sid) (wdb w') = [?r]"
    using select_by_id [of "wdb w'" workspace_snapshots_table ?t sid] h(1) healthy_table [OF h(1), of workspace_snapshots_table]
    by (simp add: healthy_def eq_int_fun)
  have ok: "db_ok nexus_schema (tabs (wdb w'))" "db_ok nexus_schema (tabs ?c)" using h(1) w(1) by (simp_all add: healthy_def conn_ok_def)
  have id: "get_num ?r ''id'' = sid" using get_num_id(1) [OF ok(1), of workspace_snapshots_table ?r] rows' by simp
  obtain pr where pr: "pr \<in> set (trows (tabs ?c ''projects''))" "fst pr = pid" using pid by (auto simp: ids_of_def)
  have "- (2 ^ 63) \<le> pid" "pid < 2 ^ 63" using row_id_range [OF ok(2), of projects_table pr] pr by auto
  then have pnum: "get_num ?r ''project_id'' = pid" by (intro row_get_int_VInt(2)) (simp_all add: snapshot_values_def val_def cell_def)
  have count: "get_num ?r ''restore_count'' = 0" by (intro row_get_int_VInt(2)) (simp_all add: snapshot_values_def val_def cell_def)
  have env: "get_text ?r ''env_snapshot'' = c_string (capture_environment e)" by (rule get_text_VText) (simp add: snapshot_values_def val_def cell_def)
  have fs: "mset (map file_of (file_rows sid (wdb w'))) = mset files"
    using no_files_of_new_snapshot [OF w(1)] w'(1) q(1) by (intro file_rows_new [OF h(1) js(2,1)] files(2)) auto
  have "counter_ok ?r" by (simp add: counter_ok_def count)
  then have "\<exists>s. get_snapshot sid (wdb w') = Some (Some s) \<and> ws_id s = sid \<and> ws_project_id s = pid \<and>
        ws_env_snapshot s = parse_simple_json_map (c_string (capture_environment e)) \<and> mset (ws_files s) = mset files"
    using fs unfolding get_snapshot_rows by (simp add: sel limit_rows_def snapshot_of_def id pnum env)
  then show ?thesis using seq0 q(1) w' h proj by simp
qed

end
