(* ===== verification/Tui_Docker_Menu.thy ===== *)
theory Tui_Docker_Menu
  imports Tui_Menus Tui_Commands Tui_Keys Docker_Orchestrator System_Process Agent_Scanner Workspace_Records "HOL-Library.Signed_Division"
begin

text \<open>
  The docker dashboard of the multiplexer: class \<open>DockerMenu\<close> in \<open>modules/tui/include/tui/menus/docker_menu.hpp\<close> and
  \<open>modules/tui/src/menus/docker_menu.cpp\<close>, and the function behind its \<open>h\<close> key,
  \<open>run_hello_world_container\<close> in \<open>modules/docker_monitor/src/commands.cpp\<close>.

  Of the context the menu touches the key manager and the status message, the record \<open>screen\<close> of \<open>Tui_Menus\<close>, and
  the command manager; the menu together with the screen is what an operation acts on. The store is never null
  (\<open>register_builtin_menus\<close> checks it). The flags \<open>loading_...\<close> are true only inside a load, where nothing is drawn, and
  are left out. Indices are mathematical integers: no list has 2^31 entries.
\<close>

section \<open>State\<close>

datatype tab = CONTAINERS | IMAGES | VOLUMES | NETWORKS | STACKS | NoTab int

record server_info =
  si_id :: int
  si_label :: string
  si_host :: string
  si_status :: string
  si_container_count :: int

record container_row =
  co_id :: string
  co_name :: string
  co_image :: string
  co_state :: string
  co_status :: string
  co_health_status :: string
  co_service_name :: string

record stack_info =
  st_id :: int
  st_name :: string
  st_description :: string
  st_service_count :: int
  st_priority :: int

record image_info =
  im_id :: string
  im_repository :: string
  im_tag :: string
  im_size :: string
  im_created :: string

record volume_info =
  vo_name :: string
  vo_driver :: string
  vo_mountpoint :: string

record network_info =
  ne_id :: string
  ne_name :: string
  ne_driver :: string
  ne_scope :: string

record docker_menu =
  dm_orchestrator :: bool
  dm_ctx :: bool
  dm_servers :: "server_info list"
  dm_containers :: "container_row list"
  dm_stacks :: "stack_info list"
  dm_images :: "image_info list"
  dm_volumes :: "volume_info list"
  dm_networks :: "network_info list"
  dm_bindings :: "key_binding list"
  dm_bindings_active :: bool
  dm_server :: int
  dm_container :: int
  dm_stack :: int
  dm_image :: int
  dm_volume :: int
  dm_network :: int
  dm_server_id :: int
  dm_tab :: tab
  dm_filter :: string
  dm_show_stopped :: bool
  dm_error :: string
  dm_status :: string

type_synonym dashboard = "docker_menu \<times> screen"

definition new_docker_menu :: "bool \<Rightarrow> docker_menu" where
  "new_docker_menu orchestrator =
     \<lparr>dm_orchestrator = orchestrator, dm_ctx = False, dm_servers = [], dm_containers = [], dm_stacks = [], dm_images = [],
      dm_volumes = [], dm_networks = [], dm_bindings = [], dm_bindings_active = False, dm_server = 0, dm_container = 0,
      dm_stack = 0, dm_image = 0, dm_volume = 0, dm_network = 0, dm_server_id = 0, dm_tab = CONTAINERS, dm_filter = [],
      dm_show_stopped = True, dm_error = [], dm_status = []\<rparr>"

text \<open>The two menus that \<open>register_builtin_menus\<close> knows; the dashboard gets no orchestrator.\<close>

definition builtin_docker_menu :: docker_menu where
  "builtin_docker_menu = new_docker_menu False"

definition menu_build :: "docker_menu \<Rightarrow> docker_menu" where
  "menu_build m = m\<lparr>dm_ctx := True\<rparr>"

section \<open>Messages\<close>

definition say :: "string \<Rightarrow> dashboard \<Rightarrow> dashboard" where
  "say msg d = (if dm_ctx (fst d) then apsnd (\<lambda>s. s\<lparr>sc_status := msg\<rparr>) d else d)"

definition set_status :: "string \<Rightarrow> dashboard \<Rightarrow> dashboard" where
  "set_status msg d =
     say msg (apfst (\<lambda>m. m\<lparr>dm_status := msg, dm_error := (if msg = [] then dm_error m else [])\<rparr>) d)"

definition set_error :: "string \<Rightarrow> dashboard \<Rightarrow> dashboard" where
  "set_error msg d = say msg (apfst (\<lambda>m. m\<lparr>dm_error := msg, dm_status := []\<rparr>) d)"

definition first_line :: "string \<Rightarrow> string" where
  "first_line s =
     (let line = takeWhile (\<lambda>c. c \<noteq> CHR 0x0D \<and> c \<noteq> CHR 0x0A) s
      in if 120 < length line then take 117 line @ ''...'' else line)"

section \<open>Loading\<close>

text \<open>
  \<open>row.at(key)\<close> throws \<open>out_of_range\<close> when the key is missing, \<open>stoll\<close> when there is no number; the loop ends there and
  keeps the rows read before. The text of the exception is an argument.
\<close>

fun read_rows :: "('r \<Rightarrow> 'a option) \<Rightarrow> 'r list \<Rightarrow> 'a list \<times> bool" where
  "read_rows f [] = ([], True)"
| "read_rows f (r # rs) = (case f r of None \<Rightarrow> ([], False) | Some x \<Rightarrow> (case read_rows f rs of (xs, b) \<Rightarrow> (x # xs, b)))"

definition or_text :: "string \<Rightarrow> string option \<Rightarrow> string" where
  "or_text d t = (case t of None \<Rightarrow> d | Some s \<Rightarrow> s)"

definition read_server :: "sqlite \<Rightarrow> (string, string) std_map \<Rightarrow> server_info option" where
  "read_server c row =
     Option.bind (Option.bind (map_get row ''id'') stoll) (\<lambda>i.
     Option.bind (map_get row ''label'') (\<lambda>label.
     Option.bind (map_get row ''host'') (\<lambda>host.
       Some \<lparr>si_id = i, si_label = label, si_host = host, si_status = or_text ''unknown'' (map_get row ''agent_status''),
         si_container_count = int (length (Nexus_Docker_Store.list_containers i c))\<rparr>)))"

definition load_servers :: "string \<Rightarrow> sqlite \<Rightarrow> dashboard \<Rightarrow> dashboard" where
  "load_servers what c d =
     (case read_rows (read_server c) (list_servers c) of
        (servers, complete) \<Rightarrow>
          let d1 = apfst (\<lambda>m. m\<lparr>dm_servers := servers, dm_error := []\<rparr>) d
          in if complete then d1 else set_error (''Failed to load servers: '' @ what) d1)"

definition read_container :: "(string, string) std_map \<Rightarrow> container_row option" where
  "read_container row =
     Option.bind (map_get row ''container_id'') (\<lambda>i.
     Option.bind (map_get row ''name'') (\<lambda>name.
     Option.bind (map_get row ''image'') (\<lambda>image.
     Option.bind (map_get row ''state'') (\<lambda>state.
     Option.bind (map_get row ''status'') (\<lambda>status.
       Some \<lparr>co_id = i, co_name = name, co_image = image, co_state = state, co_status = status,
         co_health_status = or_text [] (map_get row ''health_status''),
         co_service_name = or_text [] (map_get row ''service_name'')\<rparr>)))))"

definition load_containers :: "string \<Rightarrow> sqlite \<Rightarrow> int \<Rightarrow> dashboard \<Rightarrow> dashboard" where
  "load_containers what c server_id d =
     (case read_rows read_container (Nexus_Docker_Store.list_containers server_id c) of
        (containers, complete) \<Rightarrow>
          let d1 = apfst (\<lambda>m. m\<lparr>dm_containers := containers, dm_error := []\<rparr>) d
          in if complete then d1 else set_error (''Failed to load containers: '' @ what) d1)"

definition stack_of_profile :: "stack_profile \<Rightarrow> stack_info" where
  "stack_of_profile p =
     \<lparr>st_id = sp_id p, st_name = sp_name p, st_description = sp_description p,
      st_service_count = int (length (sp_compose_files p)), st_priority = sp_priority p\<rparr>"

definition load_stacks :: "sqlite \<Rightarrow> int \<Rightarrow> dashboard \<Rightarrow> dashboard" where
  "load_stacks c server_id =
     apfst (\<lambda>m. m\<lparr>dm_stacks := (if dm_orchestrator m then map stack_of_profile (list_stacks server_id (Some c)) else [])\<rparr>)"

text \<open>Images, volumes and networks are not read from anywhere yet.\<close>

definition load_images :: "int \<Rightarrow> dashboard \<Rightarrow> dashboard" where
  "load_images server_id = apfst (\<lambda>m. m\<lparr>dm_images := []\<rparr>)"

definition load_volumes :: "int \<Rightarrow> dashboard \<Rightarrow> dashboard" where
  "load_volumes server_id = apfst (\<lambda>m. m\<lparr>dm_volumes := []\<rparr>)"

definition load_networks :: "int \<Rightarrow> dashboard \<Rightarrow> dashboard" where
  "load_networks server_id = apfst (\<lambda>m. m\<lparr>dm_networks := []\<rparr>)"

section \<open>Selection\<close>

text \<open>\<open>0 <= index && index < static_cast<int>(xs.size())\<close>\<close>

definition has_index :: "'a list \<Rightarrow> int \<Rightarrow> bool" where
  "has_index xs i \<longleftrightarrow> 0 \<le> i \<and> i < int (length xs)"

definition on_server_selected :: "string \<Rightarrow> sqlite \<Rightarrow> int \<Rightarrow> dashboard \<Rightarrow> dashboard" where
  "on_server_selected what c i d =
     (if \<not> has_index (dm_servers (fst d)) i then d
      else
        let server = dm_servers (fst d) ! nat i;
            d1 = apfst (\<lambda>m. m\<lparr>dm_server := i, dm_server_id := si_id server\<rparr>) d;
            d2 = load_networks (si_id server) (load_volumes (si_id server) (load_images (si_id server)
                   (load_stacks c (si_id server) (load_containers what c (si_id server) d1))));
            d3 = apfst (\<lambda>m. m\<lparr>dm_container := 0, dm_stack := 0, dm_image := 0, dm_volume := 0, dm_network := 0\<rparr>) d2
        in if dm_error (fst d3) = [] then set_status (''Server: '' @ si_label server) d3 else d3)"

definition on_container_selected :: "int \<Rightarrow> dashboard \<Rightarrow> dashboard" where
  "on_container_selected i d = (if has_index (dm_containers (fst d)) i then apfst (\<lambda>m. m\<lparr>dm_container := i\<rparr>) d else d)"

definition on_stack_selected :: "int \<Rightarrow> dashboard \<Rightarrow> dashboard" where
  "on_stack_selected i d = (if has_index (dm_stacks (fst d)) i then apfst (\<lambda>m. m\<lparr>dm_stack := i\<rparr>) d else d)"

text \<open>The four actions on the selected container only write a message.\<close>

definition container_action :: "string \<Rightarrow> dashboard \<Rightarrow> dashboard" where
  "container_action text d =
     (if int (length (dm_containers (fst d))) \<le> dm_container (fst d) then d
      else set_status (text @ co_name (dm_containers (fst d) ! nat (dm_container (fst d)))) d)"

definition on_start_container :: "dashboard \<Rightarrow> dashboard" where
  "on_start_container = container_action ''Starting container: ''"

definition on_stop_container :: "dashboard \<Rightarrow> dashboard" where
  "on_stop_container = container_action ''Stopping container: ''"

definition on_restart_container :: "dashboard \<Rightarrow> dashboard" where
  "on_restart_container = container_action ''Restarting container: ''"

definition on_view_logs :: "dashboard \<Rightarrow> dashboard" where
  "on_view_logs = container_action ''Log viewer coming soon for: ''"

text \<open>What \<open>on_load\<close> and \<open>on_refresh\<close> do with a selection that the new list of servers does not have.\<close>

definition reselect :: "string \<Rightarrow> sqlite \<Rightarrow> dashboard \<Rightarrow> dashboard" where
  "reselect what c d =
     (let d1 = (if has_index (dm_servers (fst d)) (dm_server (fst d)) then d else apfst (\<lambda>m. m\<lparr>dm_server := 0\<rparr>) d)
      in on_server_selected what c (dm_server (fst d1)) d1)"

definition on_refresh :: "string \<Rightarrow> sqlite \<Rightarrow> dashboard \<Rightarrow> dashboard" where
  "on_refresh what c d0 =
     (let d = load_servers what c d0 in
      if dm_servers (fst d) \<noteq> [] then reselect what c d
      else
        let d1 = apfst (\<lambda>m. m\<lparr>dm_server_id := 0\<rparr>) d
        in if dm_error (fst d1) = [] then set_error ''No Docker servers configured'' d1 else d1)"

section \<open>Tabs\<close>

definition switch_tab :: "tab \<Rightarrow> dashboard \<Rightarrow> dashboard" where
  "switch_tab t d = (if dm_tab (fst d) = t then d else apfst (\<lambda>m. m\<lparr>dm_tab := t, dm_error := []\<rparr>) d)"

fun tab_label :: "tab \<Rightarrow> string" where
  "tab_label CONTAINERS = ''Containers''"
| "tab_label IMAGES = ''Images''"
| "tab_label VOLUMES = ''Volumes''"
| "tab_label NETWORKS = ''Networks''"
| "tab_label STACKS = ''Stacks''"
| "tab_label (NoTab i) = ''Unknown''"

definition tab_order :: "tab list" where
  "tab_order = [CONTAINERS, IMAGES, VOLUMES, NETWORKS, STACKS]"

definition tab_index :: "tab \<Rightarrow> nat" where
  "tab_index t = length (takeWhile (\<lambda>x. x \<noteq> t) tab_order)"

text \<open>\<open>(index + direction) % size\<close> truncates towards zero, the size is added to a negative remainder.\<close>

definition cycle_tab :: "int \<Rightarrow> dashboard \<Rightarrow> dashboard" where
  "cycle_tab direction d =
     (let i = tab_index (dm_tab (fst d));
          d1 = (if i = length tab_order then switch_tab (hd tab_order) d
                else
                  let r = (int i + direction) smod 5;
                      index = (if r < 0 then r + 5 else r)
                  in switch_tab (tab_order ! nat index) d)
      in set_status (''Tab: '' @ tab_label (dm_tab (fst d1))) d1)"

definition show_tab :: "tab \<Rightarrow> dashboard \<Rightarrow> dashboard" where
  "show_tab t d = set_status (''Tab: '' @ tab_label t) (switch_tab t d)"

section \<open>Saved state\<close>

primrec tab_code :: "tab \<Rightarrow> int" where
  "tab_code CONTAINERS = 0"
| "tab_code IMAGES = 1"
| "tab_code VOLUMES = 2"
| "tab_code NETWORKS = 3"
| "tab_code STACKS = 4"
| "tab_code (NoTab i) = i"

definition tab_of :: "int \<Rightarrow> tab" where
  "tab_of i = (if 0 \<le> i \<and> i < 5 then tab_order ! nat i else NoTab i)"

definition save_state :: "docker_menu \<Rightarrow> (string, string) std_map" where
  "save_state m = fold (\<lambda>(k, v). map_put k v)
     [(''selected_server_index'', to_string (dm_server m)), (''selected_container_index'', to_string (dm_container m)),
      (''selected_stack_index'', to_string (dm_stack m)), (''selected_image_index'', to_string (dm_image m)),
      (''selected_volume_index'', to_string (dm_volume m)), (''selected_network_index'', to_string (dm_network m)),
      (''current_server_id'', to_string (dm_server_id m)), (''current_tab'', to_string (tab_code (dm_tab m))),
      (''container_filter'', dm_filter m), (''show_stopped'', if dm_show_stopped m then ''1'' else ''0'')] []"

text \<open>\<open>stoi\<close> throws on a text without a number: nothing catches it in the menu manager.\<close>

definition restore_num :: "(string, string) std_map \<Rightarrow> string \<Rightarrow> (string \<Rightarrow> int option) \<Rightarrow> (int \<Rightarrow> docker_menu \<Rightarrow> docker_menu) \<Rightarrow>
    docker_menu \<Rightarrow> docker_menu option" where
  "restore_num state key read put m =
     (case map_get state key of None \<Rightarrow> Some m | Some v \<Rightarrow> map_option (\<lambda>i. put i m) (read v))"

definition restore_state :: "(string, string) std_map \<Rightarrow> docker_menu \<Rightarrow> docker_menu option" where
  "restore_state state m0 =
     Option.bind (restore_num state ''selected_server_index'' stoi (\<lambda>i m. m\<lparr>dm_server := i\<rparr>) m0) (\<lambda>m1.
     Option.bind (restore_num state ''selected_container_index'' stoi (\<lambda>i m. m\<lparr>dm_container := i\<rparr>) m1) (\<lambda>m2.
     Option.bind (restore_num state ''selected_stack_index'' stoi (\<lambda>i m. m\<lparr>dm_stack := i\<rparr>) m2) (\<lambda>m3.
     Option.bind (restore_num state ''selected_image_index'' stoi (\<lambda>i m. m\<lparr>dm_image := i\<rparr>) m3) (\<lambda>m4.
     Option.bind (restore_num state ''selected_volume_index'' stoi (\<lambda>i m. m\<lparr>dm_volume := i\<rparr>) m4) (\<lambda>m5.
     Option.bind (restore_num state ''selected_network_index'' stoi (\<lambda>i m. m\<lparr>dm_network := i\<rparr>) m5) (\<lambda>m6.
     Option.bind (restore_num state ''current_server_id'' stoll (\<lambda>i m. m\<lparr>dm_server_id := i\<rparr>) m6) (\<lambda>m7.
     Option.bind (restore_num state ''current_tab'' stoi (\<lambda>i m. m\<lparr>dm_tab := tab_of i\<rparr>) m7) (\<lambda>m8.
       let m9 = (case map_get state ''container_filter'' of None \<Rightarrow> m8 | Some v \<Rightarrow> m8\<lparr>dm_filter := v\<rparr>)
       in Some (case map_get state ''show_stopped'' of None \<Rightarrow> m9 | Some v \<Rightarrow> m9\<lparr>dm_show_stopped := (v = ''1'')\<rparr>)))))))))"

section \<open>Key bindings\<close>

definition docker_binding :: "string \<Rightarrow> string \<Rightarrow> string \<Rightarrow> key_binding" where
  "docker_binding key command desc =
     \<lparr>kb_key = key, kb_command = command, kb_description = desc, kb_mode = NORMAL, kb_is_prefix = False\<rparr>"

definition docker_bindings :: "key_binding list" where
  "docker_bindings =
    [docker_binding ''Tab'' ''docker-tab-next'' ''Docker: next tab'',
     docker_binding ''Shift-Tab'' ''docker-tab-prev'' ''Docker: previous tab'',
     docker_binding ''1'' ''docker-tab-containers'' ''Docker: containers tab'',
     docker_binding ''2'' ''docker-tab-images'' ''Docker: images tab'',
     docker_binding ''3'' ''docker-tab-volumes'' ''Docker: volumes tab'',
     docker_binding ''4'' ''docker-tab-networks'' ''Docker: networks tab'',
     docker_binding ''5'' ''docker-tab-stacks'' ''Docker: stacks tab'',
     docker_binding ''R'' ''docker-refresh'' ''Docker: refresh data'',
     docker_binding ''s'' ''docker-container-start'' ''Docker: start container'',
     docker_binding ''S'' ''docker-container-stop'' ''Docker: stop container'',
     docker_binding ''r'' ''docker-container-restart'' ''Docker: restart container'',
     docker_binding ''l'' ''docker-container-logs'' ''Docker: view logs'',
     docker_binding ''h'' ''docker-run-hello-world'' ''Docker: run hello-world'']"

definition unregister_key_bindings :: "dashboard \<Rightarrow> dashboard" where
  "unregister_key_bindings d =
     (case d of (m, s) \<Rightarrow>
        (m\<lparr>dm_bindings := [], dm_bindings_active := False\<rparr>,
         if dm_ctx m then s\<lparr>sc_keys := fold (\<lambda>b kt. snd (unbind (kb_key b) (kb_mode b) (kb_is_prefix b) kt)) (dm_bindings m) (sc_keys s)\<rparr>
         else s))"

definition register_key_bindings :: "dashboard \<Rightarrow> dashboard" where
  "register_key_bindings d =
     (if \<not> dm_ctx (fst d) then d
      else case (if dm_bindings_active (fst d) then unregister_key_bindings d else d) of (m, s) \<Rightarrow>
        (m\<lparr>dm_bindings := docker_bindings, dm_bindings_active := True\<rparr>,
         s\<lparr>sc_keys := fold (\<lambda>b kt. snd (Tui_Keys.bind b kt)) docker_bindings (sc_keys s)\<rparr>))"

section \<open>The hello-world container\<close>

record hello_result =
  hr_success :: bool
  hr_exit_code :: int
  hr_output :: string
  hr_error :: string

definition make_error_result :: "string \<Rightarrow> hello_result" where
  "make_error_result msg = \<lparr>hr_success = False, hr_exit_code = -1, hr_output = [], hr_error = msg\<rparr>"

definition is_local_host :: "string \<Rightarrow> bool" where
  "is_local_host host \<longleftrightarrow> host = [] \<or> host = ''localhost'' \<or> host = ''127.0.0.1'' \<or> host = ''::1'' \<or> host = ''0.0.0.0''"

text \<open>\<open>popen\<close> gives what the command writes and the status of \<open>pclose\<close>.\<close>

definition hello_command :: "bool \<Rightarrow> string" where
  "hello_command pull_first =
     (if pull_first then ''docker pull hello-world && docker run --rm hello-world'' else ''docker run --rm hello-world'') @ '' 2>&1''"

definition execute_hello_world :: "(string \<Rightarrow> (string \<times> int) option) \<Rightarrow> bool \<Rightarrow> hello_result" where
  "execute_hello_world popen pull_first =
     (case popen (hello_command pull_first) of
        None \<Rightarrow> make_error_result ''Failed to execute docker command''
      | Some (written, status) \<Rightarrow>
          let output = read_pipe written in
          if status = -1 then
            \<lparr>hr_success = False, hr_exit_code = -1, hr_output = output,
             hr_error = (if output = [] then ''docker command failed'' else output)\<rparr>
          else
            let code = (if WIFEXITED status then WEXITSTATUS status else status) in
            \<lparr>hr_success = (code = 0), hr_exit_code = code, hr_output = output,
             hr_error = (if code = 0 then [] else if output = [] then ''docker run hello-world failed'' else output)\<rparr>)"

definition run_local_hello_world :: "(string \<Rightarrow> (string \<times> int) option) \<Rightarrow> string \<Rightarrow> string \<Rightarrow> bool \<Rightarrow> hello_result" where
  "run_local_hello_world popen server_label host pull_first =
     (if \<not> is_local_host host then
        make_error_result (''Running hello-world is only supported for local hosts (server '' @ [CHR 0x27] @ server_label @
          [CHR 0x27] @ '' points to '' @ [CHR 0x27] @ host @ [CHR 0x27] @ '')'')
      else execute_hello_world popen pull_first)"

definition run_hello_world_container :: "(string \<Rightarrow> (string \<times> int) option) \<Rightarrow> int \<Rightarrow> sqlite option \<Rightarrow> bool \<Rightarrow> hello_result" where
  "run_hello_world_container popen server_id store pull_first =
     (case store of
        None \<Rightarrow> make_error_result ''Database not initialized''
      | Some c \<Rightarrow>
          (case get_server_by_id server_id c of
             None \<Rightarrow> make_error_result (''Server id '' @ to_string server_id @ '' not found'')
           | Some row \<Rightarrow>
               run_local_hello_world popen (or_text (to_string server_id) (map_get row ''label''))
                 (or_text [] (map_get row ''host'')) pull_first))"

definition run_hello_world_labelled :: "(string \<Rightarrow> (string \<times> int) option) \<Rightarrow> string \<Rightarrow> sqlite option \<Rightarrow> bool \<Rightarrow> hello_result" where
  "run_hello_world_labelled popen server_label store pull_first =
     (case store of
        None \<Rightarrow> make_error_result ''Database not initialized''
      | Some c \<Rightarrow>
          (case get_server_id server_label c of
             None \<Rightarrow> make_error_result (''Server '' @ [CHR 0x27] @ server_label @ [CHR 0x27] @ '' not found'')
           | Some i \<Rightarrow> run_hello_world_container popen i store pull_first))"

definition on_run_hello_world :: "(string \<Rightarrow> (string \<times> int) option) \<Rightarrow> sqlite \<Rightarrow> dashboard \<Rightarrow> bool \<times> dashboard" where
  "on_run_hello_world popen c d =
     (if \<not> has_index (dm_servers (fst d)) (dm_server (fst d)) then (False, set_error ''No server selected'' d)
      else
        let server = dm_servers (fst d) ! nat (dm_server (fst d));
            r = run_hello_world_container popen (si_id server) (Some c) False
        in if hr_success r then
             let line = first_line (hr_output r)
             in (True, set_status (''hello-world on '' @ si_label server @ '': '' @
                   (if line = [] then ''hello-world completed'' else line)) d)
           else
             let line = first_line (hr_error r)
             in (False, set_error (''hello-world on '' @ si_label server @ '' failed: '' @
                   (if line = [] then ''hello-world failed with exit code '' @ to_string (hr_exit_code r) else line)) d))"

section \<open>Commands\<close>

text \<open>A command acts on the active menu, \<^const>\<open>None\<close> when that is not a docker dashboard, and on the screen.\<close>

type_synonym docker_ctx = "docker_menu option \<times> screen"

definition make_handler :: "(dashboard \<Rightarrow> bool \<times> dashboard) \<Rightarrow> docker_ctx command_func" where
  "make_handler f ctx args =
     (case fst ctx of
        None \<Rightarrow> (Some False, apsnd (\<lambda>s. s\<lparr>sc_status := ''Docker menu not active''\<rparr>) ctx)
      | Some m \<Rightarrow> (case f (m, snd ctx) of (b, d) \<Rightarrow> (Some b, (Some (fst d), snd d))))"

definition cmd_refresh :: "string \<Rightarrow> sqlite \<Rightarrow> dashboard \<Rightarrow> dashboard" where
  "cmd_refresh what c d = set_status ''Refreshed docker data'' (on_refresh what c d)"

definition docker_commands ::
  "string \<Rightarrow> (string \<Rightarrow> (string \<times> int) option) \<Rightarrow> sqlite \<Rightarrow> (string \<times> string \<times> (dashboard \<Rightarrow> bool \<times> dashboard)) list" where
  "docker_commands what popen c =
    [(''docker-tab-next'', ''Docker dashboard: next tab'', Pair True \<circ> cycle_tab 1),
     (''docker-tab-prev'', ''Docker dashboard: previous tab'', Pair True \<circ> cycle_tab (-1)),
     (''docker-tab-containers'', ''Docker dashboard: containers tab'', Pair True \<circ> show_tab CONTAINERS),
     (''docker-tab-images'', ''Docker dashboard: images tab'', Pair True \<circ> show_tab IMAGES),
     (''docker-tab-volumes'', ''Docker dashboard: volumes tab'', Pair True \<circ> show_tab VOLUMES),
     (''docker-tab-networks'', ''Docker dashboard: networks tab'', Pair True \<circ> show_tab NETWORKS),
     (''docker-tab-stacks'', ''Docker dashboard: stacks tab'', Pair True \<circ> show_tab STACKS),
     (''docker-refresh'', ''Docker dashboard: refresh data'', Pair True \<circ> cmd_refresh what c),
     (''docker-container-start'', ''Docker dashboard: start container'', Pair True \<circ> on_start_container),
     (''docker-container-stop'', ''Docker dashboard: stop container'', Pair True \<circ> on_stop_container),
     (''docker-container-restart'', ''Docker dashboard: restart container'', Pair True \<circ> on_restart_container),
     (''docker-container-logs'', ''Docker dashboard: view logs'', Pair True \<circ> on_view_logs),
     (''docker-run-hello-world'', ''Docker dashboard: run hello-world container'', on_run_hello_world popen c)]"

text \<open>\<open>commands_registered_\<close> is a static member: the commands are registered once in a process.\<close>

definition register_commands ::
  "string \<Rightarrow> (string \<Rightarrow> (string \<times> int) option) \<Rightarrow> sqlite \<Rightarrow> docker_menu \<Rightarrow> bool \<times> docker_ctx command_manager \<Rightarrow>
     bool \<times> docker_ctx command_manager" where
  "register_commands what popen c m rc =
     (if \<not> dm_ctx m \<or> fst rc then rc
      else (True, fold (\<lambda>(name, desc, f) cm. snd (register_simple name desc (Some (make_handler f)) cm))
                   (docker_commands what popen c) (snd rc)))"

section \<open>Life cycle\<close>

definition on_load ::
  "string \<Rightarrow> (string \<Rightarrow> (string \<times> int) option) \<Rightarrow> sqlite \<Rightarrow> dashboard \<times> bool \<times> docker_ctx command_manager \<Rightarrow>
     dashboard \<times> bool \<times> docker_ctx command_manager" where
  "on_load what popen c x =
     (case x of (d0, rc) \<Rightarrow>
        let d = load_servers what c (register_key_bindings d0) in
        (if dm_servers (fst d) \<noteq> [] then reselect what c d
         else if dm_error (fst d) = [] then set_error ''No Docker servers configured'' d else d,
         register_commands what popen c (fst d0) rc))"

definition on_unload :: "dashboard \<Rightarrow> dashboard" where
  "on_unload = unregister_key_bindings"

definition on_resume :: "string \<Rightarrow> sqlite \<Rightarrow> dashboard \<Rightarrow> dashboard" where
  "on_resume what c d0 =
     (let d = on_refresh what c (register_key_bindings d0)
      in if dm_error (fst d) = [] then set_status ''Refreshed docker data'' d else d)"

section \<open>Events\<close>

definition arrow_up :: "dashboard \<Rightarrow> dashboard" where
  "arrow_up d =
     (case dm_tab (fst d) of
        CONTAINERS \<Rightarrow>
          if 0 < dm_container (fst d) then
            on_container_selected (dm_container (fst d) - 1) (apfst (\<lambda>m. m\<lparr>dm_container := dm_container m - 1\<rparr>) d) else d
      | IMAGES \<Rightarrow> if 0 < dm_image (fst d) then apfst (\<lambda>m. m\<lparr>dm_image := dm_image m - 1\<rparr>) d else d
      | VOLUMES \<Rightarrow> if 0 < dm_volume (fst d) then apfst (\<lambda>m. m\<lparr>dm_volume := dm_volume m - 1\<rparr>) d else d
      | NETWORKS \<Rightarrow> if 0 < dm_network (fst d) then apfst (\<lambda>m. m\<lparr>dm_network := dm_network m - 1\<rparr>) d else d
      | STACKS \<Rightarrow>
          if 0 < dm_stack (fst d) then
            on_stack_selected (dm_stack (fst d) - 1) (apfst (\<lambda>m. m\<lparr>dm_stack := dm_stack m - 1\<rparr>) d) else d
      | NoTab i \<Rightarrow> d)"

definition arrow_down :: "dashboard \<Rightarrow> dashboard" where
  "arrow_down d =
     (case dm_tab (fst d) of
        CONTAINERS \<Rightarrow>
          if dm_container (fst d) < int (length (dm_containers (fst d))) - 1 then
            on_container_selected (dm_container (fst d) + 1) (apfst (\<lambda>m. m\<lparr>dm_container := dm_container m + 1\<rparr>) d) else d
      | IMAGES \<Rightarrow>
          if dm_image (fst d) < int (length (dm_images (fst d))) - 1 then apfst (\<lambda>m. m\<lparr>dm_image := dm_image m + 1\<rparr>) d else d
      | VOLUMES \<Rightarrow>
          if dm_volume (fst d) < int (length (dm_volumes (fst d))) - 1 then apfst (\<lambda>m. m\<lparr>dm_volume := dm_volume m + 1\<rparr>) d else d
      | NETWORKS \<Rightarrow>
          if dm_network (fst d) < int (length (dm_networks (fst d))) - 1 then apfst (\<lambda>m. m\<lparr>dm_network := dm_network m + 1\<rparr>) d else d
      | STACKS \<Rightarrow>
          if dm_stack (fst d) < int (length (dm_stacks (fst d))) - 1 then
            on_stack_selected (dm_stack (fst d) + 1) (apfst (\<lambda>m. m\<lparr>dm_stack := dm_stack m + 1\<rparr>) d) else d
      | NoTab i \<Rightarrow> d)"

definition handle_event :: "string \<Rightarrow> sqlite \<Rightarrow> Tui_Keys.event \<Rightarrow> dashboard \<Rightarrow> bool \<times> dashboard" where
  "handle_event what c ev d =
     (if ev_named ev = Some ArrowLeft then
        (if 0 < dm_server (fst d) then (True, on_server_selected what c (dm_server (fst d) - 1) d) else (False, d))
      else if ev_named ev = Some ArrowRight then
        (if dm_server (fst d) < int (length (dm_servers (fst d))) - 1
         then (True, on_server_selected what c (dm_server (fst d) + 1) d) else (False, d))
      else if ev_named ev = Some ArrowUp then (True, arrow_up d)
      else if ev_named ev = Some ArrowDown then (True, arrow_down d)
      else (False, d))"

section \<open>Helpers of the view\<close>

definition format_container_status :: "container_row \<Rightarrow> string" where
  "format_container_status r =
     (if co_health_status r \<noteq> [] \<and> co_health_status r \<noteq> ''none''
      then co_state r @ '' ('' @ co_health_status r @ '')'' else co_state r)"

definition get_status_color :: "string \<Rightarrow> string" where
  "get_status_color state =
     (if state = ''running'' then ''green'' else if state = ''exited'' then ''red'' else if state = ''paused'' then ''yellow''
      else if state = ''restarting'' then ''blue'' else ''gray'')"

end
