(* ===== verification/Tui_Docker_Facts.thy ===== *)
theory Tui_Docker_Facts
  imports Tui_Docker_Menu
begin

text \<open>
  What holds of the docker dashboard (\<open>Tui_Docker_Menu\<close>): loading from the store never throws, selections stay inside
  their lists along every run, tabs cycle, a saved state restores itself, and each key of the dashboard runs its command.
\<close>

section \<open>Loading never throws\<close>

lemma read_rows_all: "(\<And>r. f (h r) = Some (g r)) \<Longrightarrow> read_rows f (map h rs) = (map g rs, True)"
  by (induction rs) auto

definition server_of_row :: "sqlite \<Rightarrow> sql_row \<Rightarrow> server_info" where
  "server_of_row c r =
     \<lparr>si_id = get_num r ''id'', si_label = get_text r ''label'', si_host = get_text r ''host'',
      si_status = or_text ''unknown'' (row_get r ''agent_status''),
      si_container_count = int (length (Nexus_Docker_Store.list_containers (get_num r ''id'') c))\<rparr>"

definition container_of_row :: "sql_row \<Rightarrow> container_row" where
  "container_of_row r =
     \<lparr>co_id = get_text r ''container_id'', co_name = get_text r ''name'', co_image = get_text r ''image'',
      co_state = get_text r ''state'', co_status = get_text r ''status'', co_health_status = get_text r ''health_status'',
      co_service_name = get_text r ''service_name''\<rparr>"

lemma read_server_row: "read_server c (row_map server_columns r) = Some (server_of_row c r)"
  by (simp add: read_server_def server_of_row_def map_get_row_map server_columns_def or_text_def split: option.splits)

lemma read_container_row: "read_container (row_map container_columns r) = Some (container_of_row r)"
  by (simp add: read_container_def container_of_row_def map_get_row_map container_columns_def or_text_def)

definition stored_servers :: "sqlite \<Rightarrow> server_info list" where
  "stored_servers c = map (server_of_row c) (order_asc ''label'' (select ''servers'' (\<lambda>_. True) c))"

definition stored_containers :: "int \<Rightarrow> sqlite \<Rightarrow> container_row list" where
  "stored_containers sid c = map container_of_row (order_asc ''name'' (select ''containers'' (server_where sid) c))"

lemma load_servers_stored: "load_servers what c (m, s) = (m\<lparr>dm_servers := stored_servers c, dm_error := []\<rparr>, s)"
  unfolding load_servers_def list_servers_def stored_servers_def read_rows_all [of "read_server c", OF read_server_row]
  by simp

lemma load_containers_stored:
  "load_containers what c sid (m, s) = (m\<lparr>dm_containers := stored_containers sid c, dm_error := []\<rparr>, s)"
  unfolding load_containers_def Nexus_Docker_Store.list_containers_def stored_containers_def
    read_rows_all [of read_container, OF read_container_row]
  by simp

definition stored_stacks :: "docker_menu \<Rightarrow> int \<Rightarrow> sqlite \<Rightarrow> stack_info list" where
  "stored_stacks m sid c = (if dm_orchestrator m then map stack_of_profile (list_stacks sid (Some c)) else [])"

lemma server_selected:
  "on_server_selected what c i (m, s) =
     (if \<not> has_index (dm_servers m) i then (m, s)
      else let sv = dm_servers m ! nat i in
        (m\<lparr>dm_server := i, dm_server_id := si_id sv, dm_containers := stored_containers (si_id sv) c,
           dm_stacks := stored_stacks m (si_id sv) c, dm_images := [], dm_volumes := [], dm_networks := [],
           dm_container := 0, dm_stack := 0, dm_image := 0, dm_volume := 0, dm_network := 0,
           dm_error := [], dm_status := ''Server: '' @ si_label sv\<rparr>,
         if dm_ctx m then s\<lparr>sc_status := ''Server: '' @ si_label sv\<rparr> else s))"
  by (simp add: on_server_selected_def load_containers_stored load_stacks_def load_images_def load_volumes_def load_networks_def
      stored_stacks_def set_status_def say_def Let_def)

section \<open>The invariant\<close>

definition sel_ok :: "'a list \<Rightarrow> int \<Rightarrow> bool" where
  "sel_ok xs i \<longleftrightarrow> (if xs = [] then i = 0 else has_index xs i)"

definition bindings_ok :: "docker_menu \<Rightarrow> bool" where
  "bindings_ok m \<longleftrightarrow> dm_bindings m = (if dm_bindings_active m then docker_bindings else [])"

definition frame_ok :: "docker_menu \<Rightarrow> bool" where
  "frame_ok m \<longleftrightarrow> (dm_error m = [] \<or> dm_status m = []) \<and> dm_tab m \<in> set tab_order \<and> bindings_ok m"

definition lists_ok :: "docker_menu \<Rightarrow> bool" where
  "lists_ok m \<longleftrightarrow> sel_ok (dm_containers m) (dm_container m) \<and> sel_ok (dm_stacks m) (dm_stack m) \<and>
     sel_ok (dm_images m) (dm_image m) \<and> sel_ok (dm_volumes m) (dm_volume m) \<and> sel_ok (dm_networks m) (dm_network m)"

definition server_ok :: "docker_menu \<Rightarrow> bool" where
  "server_ok m \<longleftrightarrow> dm_servers m \<noteq> [] \<longrightarrow>
     has_index (dm_servers m) (dm_server m) \<and> dm_server_id m = si_id (dm_servers m ! nat (dm_server m))"

definition menu_ok :: "docker_menu \<Rightarrow> bool" where
  "menu_ok m \<longleftrightarrow> frame_ok m \<and> lists_ok m \<and> server_ok m"

lemmas menu_ok_defs = menu_ok_def frame_ok_def lists_ok_def server_ok_def bindings_ok_def

lemma sel_ok_simps [simp]: "sel_ok xs 0" "has_index [] i \<longleftrightarrow> False"
  by (auto simp: sel_ok_def has_index_def)

lemma sel_ok_moves:
  "sel_ok xs i \<Longrightarrow> 0 < i \<Longrightarrow> has_index xs (i - 1)" "sel_ok xs i \<Longrightarrow> i < int (length xs) - 1 \<Longrightarrow> has_index xs (i + 1)"
  "has_index xs i \<Longrightarrow> sel_ok xs i"
  by (auto simp: sel_ok_def has_index_def split: if_splits)

lemma server_selected_ok: "menu_ok (fst d) \<Longrightarrow> menu_ok (fst (on_server_selected what c i d))"
  by (cases d) (auto simp: server_selected menu_ok_defs Let_def)

lemma server_selected_frame:
  "frame_ok (fst d) \<Longrightarrow> has_index (dm_servers (fst d)) i \<Longrightarrow> menu_ok (fst (on_server_selected what c i d))"
  by (cases d) (auto simp: server_selected menu_ok_defs Let_def)

lemma menu_status_ok: "menu_ok (fst d) \<Longrightarrow> menu_ok (fst (set_status msg d))"
  by (cases d) (auto simp: set_status_def say_def menu_ok_defs)

lemma menu_error_ok: "menu_ok (fst d) \<Longrightarrow> menu_ok (fst (set_error msg d))"
  by (cases d) (auto simp: set_error_def say_def menu_ok_defs)

lemma reselect_ok: "frame_ok (fst d) \<Longrightarrow> dm_servers (fst d) \<noteq> [] \<Longrightarrow> menu_ok (fst (reselect what c d))"
  unfolding reselect_def Let_def
  by (rule server_selected_frame) (auto simp: frame_ok_def bindings_ok_def has_index_def)

lemma load_servers_frame: "frame_ok (fst d) \<Longrightarrow> frame_ok (fst (load_servers what c d))"
  by (cases d) (simp add: load_servers_stored frame_ok_def bindings_ok_def)

lemma on_refresh_ok:
  assumes "frame_ok (fst d)" "lists_ok (fst d)"
  shows "menu_ok (fst (on_refresh what c d))"
proof -
  obtain m s where d: "d = (m, s)" by (cases d)
  have f: "frame_ok (fst (load_servers what c d))" by (rule load_servers_frame [OF assms(1)])
  show ?thesis
  proof (cases "stored_servers c = []")
    case True
    then show ?thesis using assms
      by (auto simp: d on_refresh_def load_servers_stored Let_def set_error_def say_def menu_ok_defs)
  next
    case False
    then show ?thesis using reselect_ok [OF f] by (simp add: d on_refresh_def load_servers_stored Let_def)
  qed
qed

section \<open>Tabs\<close>

lemma tab_in_order: "t \<in> set tab_order \<longleftrightarrow> t = CONTAINERS \<or> t = IMAGES \<or> t = VOLUMES \<or> t = NETWORKS \<or> t = STACKS"
  by (auto simp: tab_order_def)

definition next_tab :: "tab \<Rightarrow> tab" where
  "next_tab t = tab_order ! ((tab_index t + 1) mod 5)"

definition prev_tab :: "tab \<Rightarrow> tab" where
  "prev_tab t = tab_order ! ((tab_index t + 4) mod 5)"

lemma next_tab_simps [simp]:
  "next_tab CONTAINERS = IMAGES" "next_tab IMAGES = VOLUMES" "next_tab VOLUMES = NETWORKS" "next_tab NETWORKS = STACKS"
  "next_tab STACKS = CONTAINERS" "prev_tab CONTAINERS = STACKS" "prev_tab IMAGES = CONTAINERS" "prev_tab VOLUMES = IMAGES"
  "prev_tab NETWORKS = VOLUMES" "prev_tab STACKS = NETWORKS"
  by (simp_all add: next_tab_def prev_tab_def tab_index_def tab_order_def)

lemma next_prev: "t \<in> set tab_order \<Longrightarrow> prev_tab (next_tab t) = t \<and> next_tab (prev_tab t) = t \<and>
    next_tab (next_tab (next_tab (next_tab (next_tab t)))) = t \<and> next_tab t \<in> set tab_order \<and> prev_tab t \<in> set tab_order"
  unfolding tab_in_order by (elim disjE) simp_all

lemma tab_switch: "dm_tab (fst (switch_tab t d)) = t"
  by (cases d) (simp add: switch_tab_def)

lemma tab_set_status [simp]: "dm_tab (fst (set_status msg d)) = dm_tab (fst d)"
  by (cases d) (simp add: set_status_def say_def)

lemma cycle_switch:
  assumes "dm_tab (fst d) \<in> set tab_order"
  shows "cycle_tab 1 d = (let t = next_tab (dm_tab (fst d)) in set_status (''Tab: '' @ tab_label t) (switch_tab t d))"
    and "cycle_tab (-1) d = (let t = prev_tab (dm_tab (fst d)) in set_status (''Tab: '' @ tab_label t) (switch_tab t d))"
  using assms unfolding tab_in_order
  by (elim disjE; simp add: cycle_tab_def Let_def tab_switch tab_index_def tab_order_def signed_modulo_int_def)+

lemma switch_tab_ok: "menu_ok (fst d) \<Longrightarrow> t \<in> set tab_order \<Longrightarrow> menu_ok (fst (switch_tab t d))"
  by (cases d) (auto simp: switch_tab_def menu_ok_defs)

lemma show_tab_ok: "menu_ok (fst d) \<Longrightarrow> t \<in> set tab_order \<Longrightarrow> menu_ok (fst (show_tab t d))"
  by (simp add: show_tab_def menu_status_ok switch_tab_ok)

lemma cycle_tab_ok:
  assumes ok: "menu_ok (fst d)"
  shows "menu_ok (fst (cycle_tab 1 d))" "menu_ok (fst (cycle_tab (-1) d))"
proof -
  have t: "dm_tab (fst d) \<in> set tab_order" using ok by (simp add: menu_ok_def frame_ok_def)
  from next_prev [OF this] show "menu_ok (fst (cycle_tab 1 d))" "menu_ok (fst (cycle_tab (-1) d))"
    unfolding cycle_switch [OF t] Let_def by (simp_all add: menu_status_ok switch_tab_ok ok)
qed

section \<open>Commands and events keep the invariant\<close>

lemma container_action_ok: "menu_ok (fst d) \<Longrightarrow> menu_ok (fst (container_action msg d))"
  by (simp add: container_action_def menu_status_ok)

lemma cmd_refresh_ok: "menu_ok (fst d) \<Longrightarrow> menu_ok (fst (cmd_refresh what c d))"
  by (simp add: cmd_refresh_def menu_status_ok on_refresh_ok menu_ok_def [of "fst d"])

lemma hello_world_ok: "menu_ok (fst d) \<Longrightarrow> menu_ok (fst (snd (on_run_hello_world popen c d)))"
  by (simp add: on_run_hello_world_def Let_def menu_status_ok menu_error_ok)

lemma command_ok: "(name, desc, f) \<in> set (docker_commands what popen c) \<Longrightarrow> menu_ok (fst d) \<Longrightarrow> menu_ok (fst (snd (f d)))"
  unfolding docker_commands_def
  by (auto simp: cycle_tab_ok show_tab_ok cmd_refresh_ok hello_world_ok container_action_ok tab_in_order
      on_start_container_def on_stop_container_def on_restart_container_def on_view_logs_def)

lemma menu_ok_select:
  "menu_ok m \<Longrightarrow> sel_ok (dm_containers m) i \<Longrightarrow> menu_ok (m\<lparr>dm_container := i\<rparr>)"
  "menu_ok m \<Longrightarrow> sel_ok (dm_stacks m) i \<Longrightarrow> menu_ok (m\<lparr>dm_stack := i\<rparr>)"
  "menu_ok m \<Longrightarrow> sel_ok (dm_images m) i \<Longrightarrow> menu_ok (m\<lparr>dm_image := i\<rparr>)"
  "menu_ok m \<Longrightarrow> sel_ok (dm_volumes m) i \<Longrightarrow> menu_ok (m\<lparr>dm_volume := i\<rparr>)"
  "menu_ok m \<Longrightarrow> sel_ok (dm_networks m) i \<Longrightarrow> menu_ok (m\<lparr>dm_network := i\<rparr>)"
  by (simp_all add: menu_ok_defs)

lemma menu_ok_lists: "menu_ok m \<Longrightarrow> lists_ok m"
  by (simp add: menu_ok_def)

lemma arrow_up_ok: "menu_ok (fst d) \<Longrightarrow> menu_ok (fst (arrow_up d))"
  using menu_ok_lists [of "fst d"]
  by (cases d; cases "dm_tab (fst d)")
    (simp_all add: arrow_up_def on_container_selected_def on_stack_selected_def menu_ok_select sel_ok_moves lists_ok_def)

lemma arrow_down_ok: "menu_ok (fst d) \<Longrightarrow> menu_ok (fst (arrow_down d))"
  using menu_ok_lists [of "fst d"]
  by (cases d; cases "dm_tab (fst d)")
    (simp_all add: arrow_down_def on_container_selected_def on_stack_selected_def menu_ok_select sel_ok_moves lists_ok_def)

lemma handle_event_ok: "menu_ok (fst d) \<Longrightarrow> menu_ok (fst (snd (handle_event what c ev d)))"
  by (simp add: handle_event_def server_selected_ok arrow_up_ok arrow_down_ok)

lemma bindings_kept:
  "frame_ok (fst d) \<Longrightarrow> frame_ok (fst (on_unload d))" "lists_ok (fst d) \<Longrightarrow> lists_ok (fst (on_unload d))"
  "server_ok (fst d) \<Longrightarrow> server_ok (fst (on_unload d))"
  "frame_ok (fst d) \<Longrightarrow> frame_ok (fst (register_key_bindings d))" "lists_ok (fst d) \<Longrightarrow> lists_ok (fst (register_key_bindings d))"
  by (cases d; simp add: on_unload_def register_key_bindings_def unregister_key_bindings_def menu_ok_defs)+

lemma on_unload_ok: "menu_ok (fst d) \<Longrightarrow> menu_ok (fst (on_unload d))"
  by (simp add: menu_ok_def bindings_kept)

lemma on_resume_ok: "frame_ok (fst d) \<Longrightarrow> lists_ok (fst d) \<Longrightarrow> menu_ok (fst (on_resume what c d))"
  by (simp add: on_resume_def Let_def menu_status_ok on_refresh_ok bindings_kept)

lemma new_menu_ok: "menu_ok (menu_build (new_docker_menu b))"
  by (simp add: menu_build_def new_docker_menu_def menu_ok_defs tab_order_def)

lemma on_load_ok: "menu_ok (fst (fst x)) \<Longrightarrow> menu_ok (fst (fst (on_load what popen c x)))"
proof -
  obtain d rc where x: "x = (d, rc)" by (cases x)
  obtain m s where r: "register_key_bindings d = (m, s)" by (cases "register_key_bindings d")
  assume ok: "menu_ok (fst (fst x))"
  then have f: "frame_ok m" "lists_ok m" using bindings_kept(4,5) [of d] r by (simp_all add: x menu_ok_def)
  then have l: "frame_ok (fst (load_servers what c (m, s)))" using load_servers_frame [of "(m, s)"] by simp
  have "menu_ok (fst (load_servers what c (m, s)))" if "stored_servers c = []"
    using f l that by (simp add: load_servers_stored menu_ok_def lists_ok_def server_ok_def)
  then show ?thesis using reselect_ok [OF l]
    by (auto simp: x r on_load_def Let_def load_servers_stored menu_error_ok)
qed

section \<open>Saved states\<close>

lemma map_get_save_state:
  "map_get (save_state m) ''selected_server_index'' = Some (to_string (dm_server m))"
  "map_get (save_state m) ''selected_container_index'' = Some (to_string (dm_container m))"
  "map_get (save_state m) ''selected_stack_index'' = Some (to_string (dm_stack m))"
  "map_get (save_state m) ''selected_image_index'' = Some (to_string (dm_image m))"
  "map_get (save_state m) ''selected_volume_index'' = Some (to_string (dm_volume m))"
  "map_get (save_state m) ''selected_network_index'' = Some (to_string (dm_network m))"
  "map_get (save_state m) ''current_server_id'' = Some (to_string (dm_server_id m))"
  "map_get (save_state m) ''current_tab'' = Some (to_string (tab_code (dm_tab m)))"
  "map_get (save_state m) ''container_filter'' = Some (dm_filter m)"
  "map_get (save_state m) ''show_stopped'' = Some (if dm_show_stopped m then ''1'' else ''0'')"
  by (simp_all only: save_state_def std_map.get_load) simp_all

definition same_selection :: "docker_menu \<Rightarrow> docker_menu \<Rightarrow> docker_menu" where
  "same_selection m n = n\<lparr>dm_server := dm_server m, dm_container := dm_container m, dm_stack := dm_stack m, dm_image := dm_image m,
     dm_volume := dm_volume m, dm_network := dm_network m, dm_server_id := dm_server_id m, dm_tab := dm_tab m,
     dm_filter := dm_filter m, dm_show_stopped := dm_show_stopped m\<rparr>"

lemma stoi_to_string_cases: "stoi (to_string i) = (if - (2 ^ 31) \<le> i \<and> i < 2 ^ 31 then Some i else None)"
  by (auto simp: stoi_def checked_range_def parse_int_prefix_to_string)

lemma stoll_to_string_cases: "stoll (to_string i) = (if - (2 ^ 63) \<le> i \<and> i < 2 ^ 63 then Some i else None)"
  by (auto simp: stoll_def checked_range_def parse_int_prefix_to_string)

definition fits_int :: "int \<Rightarrow> bool" where
  "fits_int i \<longleftrightarrow> - (2 ^ 31) \<le> i \<and> i < 2 ^ 31"

definition state_fits :: "docker_menu \<Rightarrow> bool" where
  "state_fits m \<longleftrightarrow> list_all fits_int [dm_server m, dm_container m, dm_stack m, dm_image m, dm_volume m, dm_network m] \<and>
     - (2 ^ 63) \<le> dm_server_id m \<and> dm_server_id m < 2 ^ 63"

lemma tab_of_code: "t \<in> set tab_order \<Longrightarrow> tab_of (tab_code t) = t \<and> fits_int (tab_code t)"
  by (auto simp: tab_in_order tab_of_def tab_order_def fits_int_def)

lemma restore_saved:
  assumes "dm_tab m \<in> set tab_order"
  shows "restore_state (save_state m) n = (if state_fits m then Some (same_selection m n) else None)"
  using tab_of_code [OF assms]
  by (auto simp: restore_state_def restore_num_def map_get_save_state stoi_to_string_cases stoll_to_string_cases Let_def
      state_fits_def fits_int_def same_selection_def)

lemma same_selection_self [simp]: "same_selection m m = m"
  by (simp add: same_selection_def)

section \<open>Keys\<close>

definition binding_id :: "key_binding \<Rightarrow> mode \<times> bool \<times> string" where
  "binding_id b = (kb_mode b, kb_is_prefix b, kb_key b)"

lemma find_binding_all:
  "find_binding (fold (\<lambda>b kt. snd (Tui_Keys.bind b kt)) bs kt) mk =
     (case map_of (rev (map (\<lambda>b. (binding_id b, b)) bs)) mk of None \<Rightarrow> find_binding kt mk | Some b \<Rightarrow> Some b)"
  by (induction bs rule: rev_induct) (auto simp: find_binding_bind binding_id_def)

lemma find_binding_none:
  "find_binding (fold (\<lambda>b kt. snd (unbind (kb_key b) (kb_mode b) (kb_is_prefix b) kt)) bs kt) mk =
     (if mk \<in> binding_id ` set bs then None else find_binding kt mk)"
  by (induction bs rule: rev_induct) (auto simp: find_binding_unbind binding_id_def)

lemma docker_bindings_distinct: "distinct (map binding_id docker_bindings)"
  by (simp add: docker_bindings_def docker_binding_def binding_id_def)

lemma docker_binding_found:
  assumes "b \<in> set docker_bindings"
  shows "find_binding (fold (\<lambda>b kt. snd (Tui_Keys.bind b kt)) docker_bindings kt) (binding_id b) = Some b"
proof -
  have "distinct (map fst (rev (map (\<lambda>b. (binding_id b, b)) docker_bindings)))"
    using docker_bindings_distinct by (simp add: comp_def rev_map [symmetric])
  then have "map_of (rev (map (\<lambda>b. (binding_id b, b)) docker_bindings)) (binding_id b) = Some b"
    using assms by (auto intro!: map_of_is_SomeI)
  then show ?thesis by (simp add: find_binding_all)
qed

lemma docker_bindings_normal: "b \<in> set docker_bindings \<Longrightarrow> kb_mode b = NORMAL \<and> \<not> kb_is_prefix b \<and> kb_key b \<noteq> []"
  unfolding docker_bindings_def docker_binding_def by auto

section \<open>Commands\<close>

lemma map_get_registered:
  assumes "list_all (\<lambda>x. fst x \<noteq> []) cs"
  shows "map_get (fold (\<lambda>(name, desc, f) cm. snd (register_simple name desc (Some (make_handler f)) cm)) cs cm) k =
    (case map_of (rev cs) k of None \<Rightarrow> map_get cm k
     | Some (desc, f) \<Rightarrow> Some \<lparr>cmd_name = k, cmd_description = desc, cmd_usage = k, cmd_func = Some (make_handler f)\<rparr>)"
  using assms
proof (induction cs rule: rev_induct)
  case (snoc x cs)
  obtain n d f where "x = (n, d, f)" by (cases x)
  with snoc show ?case by (simp add: register_simple_def register_command_def map_get_put)
qed simp

lemma docker_commands_names:
  "list_all (\<lambda>x. fst x \<noteq> []) (docker_commands what popen c)" "distinct (map fst (docker_commands what popen c))"
  by (simp_all add: docker_commands_def)

lemma docker_command_registered:
  assumes "dm_ctx m" "(name, desc, f) \<in> set (docker_commands what popen c)"
  shows "execute (snd (register_commands what popen c m (False, cm))) (Some n, s) name args =
    (case f (n, s) of (r, d) \<Rightarrow> (r, (Some (fst d), snd d)))"
proof -
  have "distinct (map fst (rev (docker_commands what popen c)))"
    using docker_commands_names(2) by (simp add: rev_map [symmetric])
  then have "map_of (rev (docker_commands what popen c)) name = Some (desc, f)"
    using assms(2) by (auto intro!: map_of_is_SomeI)
  then show ?thesis using assms(1) docker_commands_names(1)
    by (simp add: execute_def register_commands_def map_get_registered make_handler_def split: prod.splits)
qed

lemma bindings_have_commands:
  "b \<in> set docker_bindings \<Longrightarrow> \<exists>desc f. (kb_command b, desc, f) \<in> set (docker_commands what popen c)"
  unfolding docker_bindings_def docker_binding_def docker_commands_def by auto

section \<open>Who touches the keys\<close>

text \<open>
  Nothing but registering and unregistering touches the key table or what the menu remembers of it: an operation that
  keeps the keys can change selections, lists and messages only.
\<close>

definition same_keys :: "dashboard \<Rightarrow> dashboard \<Rightarrow> bool" where
  "same_keys d d' \<longleftrightarrow> sc_keys (snd d') = sc_keys (snd d) \<and> dm_bindings (fst d') = dm_bindings (fst d) \<and>
     dm_bindings_active (fst d') = dm_bindings_active (fst d) \<and> dm_ctx (fst d') = dm_ctx (fst d)"

lemma same_keys_refl [simp]: "same_keys d d"
  by (simp add: same_keys_def)

lemma same_keys_trans: "same_keys d e \<Longrightarrow> same_keys e f \<Longrightarrow> same_keys d f"
  by (simp add: same_keys_def)

lemma same_keys_after:
  "same_keys d (set_status msg e) \<longleftrightarrow> same_keys d e" "same_keys d (set_error msg e) \<longleftrightarrow> same_keys d e"
  "same_keys d (load_servers what c e) \<longleftrightarrow> same_keys d e" "same_keys d (on_server_selected what c i e) \<longleftrightarrow> same_keys d e"
  "same_keys d (switch_tab t e) \<longleftrightarrow> same_keys d e" "same_keys d (on_container_selected i e) \<longleftrightarrow> same_keys d e"
  "same_keys d (on_stack_selected i e) \<longleftrightarrow> same_keys d e"
  by (cases e; simp add: same_keys_def set_status_def set_error_def say_def load_servers_stored server_selected switch_tab_def
      on_container_selected_def on_stack_selected_def Let_def)+

lemma same_keys_selection:
  "same_keys d (apfst (\<lambda>m. m\<lparr>dm_server := i\<rparr>) e) \<longleftrightarrow> same_keys d e" "same_keys d (apfst (\<lambda>m. m\<lparr>dm_server_id := i\<rparr>) e) \<longleftrightarrow> same_keys d e"
  by (cases e; simp add: same_keys_def)+

lemma same_keys_reselect: "same_keys d (reselect what c e) \<longleftrightarrow> same_keys d e"
  by (simp add: reselect_def Let_def same_keys_after same_keys_selection)

lemma same_keys_refresh: "same_keys d (on_refresh what c e) \<longleftrightarrow> same_keys d e"
  by (simp add: on_refresh_def Let_def same_keys_after same_keys_selection same_keys_reselect)

lemma same_keys_arrows: "same_keys d (arrow_up d)" "same_keys d (arrow_down d)"
  by (cases d; cases "dm_tab (fst d)"; simp add: arrow_up_def arrow_down_def same_keys_after; simp add: same_keys_def)+

lemma handle_event_keys: "same_keys d (snd (handle_event what c ev d))"
  by (simp add: handle_event_def same_keys_after same_keys_arrows)

lemma container_action_keys: "same_keys d (container_action msg d)"
  by (simp add: container_action_def same_keys_after)

lemma hello_world_keys: "same_keys d (snd (on_run_hello_world popen c d))"
  by (simp add: on_run_hello_world_def Let_def same_keys_after)

lemma tab_keys: "same_keys d (cycle_tab i d)" "same_keys d (show_tab t d)"
  by (simp_all add: cycle_tab_def show_tab_def Let_def same_keys_after)

lemma command_keys: "(name, desc, f) \<in> set (docker_commands what popen c) \<Longrightarrow> same_keys d (snd (f d))"
  unfolding docker_commands_def
  by (auto simp: tab_keys cmd_refresh_def same_keys_refresh same_keys_after hello_world_keys container_action_keys
      on_start_container_def on_stop_container_def on_restart_container_def on_view_logs_def)

section \<open>Runs of the dashboard\<close>

text \<open>
  What the key table holds for the keys of the dashboard: their bindings while it is shown, nothing while it is not.
\<close>

definition keys_ok :: "bool \<Rightarrow> dashboard \<Rightarrow> bool" where
  "keys_ok vis d \<longleftrightarrow> dm_ctx (fst d) \<and> dm_bindings_active (fst d) = vis \<and>
     (\<forall>b\<in>set docker_bindings. find_binding (sc_keys (snd d)) (binding_id b) = (if vis then Some b else None))"

definition dashboard_ok :: "bool \<times> dashboard \<Rightarrow> bool" where
  "dashboard_ok x \<longleftrightarrow> menu_ok (fst (snd x)) \<and> keys_ok (fst x) (snd x)"

lemma keys_ok_same: "same_keys d d' \<Longrightarrow> keys_ok vis d' \<longleftrightarrow> keys_ok vis d"
  by (simp add: keys_ok_def same_keys_def)

lemma register_keys:
  assumes "dm_ctx m" "\<not> dm_bindings_active m"
  shows "keys_ok True (register_key_bindings (m, s))"
  using assms docker_binding_found by (simp add: keys_ok_def register_key_bindings_def)

lemma unregister_keys:
  assumes "keys_ok True d" "menu_ok (fst d)"
  shows "keys_ok False (on_unload d)"
  using assms
  by (cases d) (auto simp: keys_ok_def on_unload_def unregister_key_bindings_def find_binding_none menu_ok_defs)

text \<open>
  What can happen to a loaded dashboard: an event, one of its commands, being left, and being shown again with the state
  that was saved. The database can have changed before every step. Other parts of the program write status messages
  and bind keys, other keys than those of the dashboard. The truth value tells whether the dashboard is shown.
\<close>

inductive dashboard_step :: "string \<Rightarrow> (string \<Rightarrow> (string \<times> int) option) \<Rightarrow> bool \<times> dashboard \<Rightarrow> bool \<times> dashboard \<Rightarrow> bool"
  for what popen where
  on_event: "dashboard_step what popen (vis, d) (vis, snd (handle_event what c ev d))"
| on_command: "(name, desc, f) \<in> set (docker_commands what popen c) \<Longrightarrow> dashboard_step what popen (vis, d) (vis, snd (f d))"
| on_leave: "dashboard_step what popen (True, d) (False, on_unload d)"
| on_return: "restore_state (save_state m) m = Some m' \<Longrightarrow>
    dashboard_step what popen (False, (m, s)) (True, on_resume what c (m', s))"
| on_screen: "(\<And>b. b \<in> set docker_bindings \<Longrightarrow> find_binding (sc_keys s') (binding_id b) = find_binding (sc_keys s) (binding_id b)) \<Longrightarrow>
    dashboard_step what popen (vis, (m, s)) (vis, (m, s'))"

inductive_cases dashboard_stepE: "dashboard_step what popen d d'"

lemma return_ok: "menu_ok m \<Longrightarrow> restore_state (save_state m) m = Some m' \<Longrightarrow> m' = m"
  by (simp add: menu_ok_def frame_ok_def restore_saved split: if_splits)

lemma menu_ok_return: "menu_ok m \<Longrightarrow> menu_ok (fst (on_resume what c (m, s)))"
  by (simp add: on_resume_ok menu_ok_def [of m])

lemma keys_ok_return:
  assumes "keys_ok False (m, s)"
  shows "keys_ok True (on_resume what c (m, s))"
proof -
  have "same_keys (register_key_bindings (m, s)) (on_resume what c (m, s))"
    by (simp add: on_resume_def Let_def same_keys_after same_keys_refresh)
  then show ?thesis using register_keys [of m s] assms by (simp add: keys_ok_same) (simp add: keys_ok_def)
qed

lemma step_ok: "dashboard_ok x \<Longrightarrow> dashboard_step what popen x y \<Longrightarrow> dashboard_ok y"
proof (erule dashboard_stepE)
  fix m s m' c
  assume "dashboard_ok x" "x = (False, (m, s))" "y = (True, on_resume what c (m', s))" "restore_state (save_state m) m = Some m'"
  then show "dashboard_ok y" using return_ok [of m m'] by (simp add: dashboard_ok_def menu_ok_return keys_ok_return)
qed (auto simp: dashboard_ok_def handle_event_ok command_ok on_unload_ok unregister_keys keys_ok_same [OF handle_event_keys]
    keys_ok_same [OF command_keys] keys_ok_def [of _ "(_, _)"])

interpretation dashboard_run: step_invariant "dashboard_step what popen" dashboard_ok
  by unfold_locales (rule step_ok)

lemma loaded_ok:
  "dashboard_ok (True, fst (on_load what popen c ((menu_build (new_docker_menu b), s), rc)))"
proof -
  let ?m = "menu_build (new_docker_menu b)"
  have m: "dm_ctx ?m" "\<not> dm_bindings_active ?m" by (simp_all add: menu_build_def new_docker_menu_def)
  have "same_keys (register_key_bindings (?m, s)) (fst (on_load what popen c ((?m, s), rc)))"
    by (simp add: on_load_def Let_def same_keys_after same_keys_reselect)
  then show ?thesis using register_keys [OF m, of s] by (simp add: dashboard_ok_def on_load_ok new_menu_ok keys_ok_same)
qed


definition demo_screen :: screen where
  "demo_screen = \<lparr>sc_keys = new_key_manager, sc_status = []\<rparr>"

definition right_arrow :: Tui_Keys.event where
  "right_arrow = \<lparr>ev_named = Some ArrowRight, ev_is_character = False, ev_character = []\<rparr>"

text \<open>The second server is selected, then the dashboard is left: its key for refreshing is free again.\<close>

definition demo_shown :: dashboard where
  "demo_shown = snd (handle_event [] demo_two_servers right_arrow
     (fst (on_load [] (\<lambda>_. None) demo_two_servers ((menu_build (new_docker_menu False), demo_screen), False, []))))"


section \<open>Each key runs its command\<close>

lemma on_load_keys:
  assumes "dm_ctx m" "\<not> dm_bindings_active m"
  shows "sc_keys (snd (fst (on_load what popen c ((m, s), rc)))) =
    fold (\<lambda>b kt. snd (Tui_Keys.bind b kt)) docker_bindings (sc_keys s)"
  using assms by (simp add: on_load_def Let_def register_key_bindings_def load_servers_stored reselect_def server_selected
      set_error_def say_def)

text \<open>
  After loading the dashboard, in \<open>NORMAL\<close> mode every key it documents finds its command in the key manager, and the
  command manager runs that command on whatever dashboard is active then.
\<close>

lemma dashboard_key_runs_command:
  assumes "b \<in> set docker_bindings" "event_to_key_string ev = kb_key b"
    and "on_load what popen c ((menu_build (new_docker_menu orch), s), False, cm) = (d, registered, cm')"
  shows "lookup (sc_keys (snd d)) ev NORMAL False = Some (kb_command b) \<and>
    (\<exists>desc f. (kb_command b, desc, f) \<in> set (docker_commands what popen c) \<and>
       execute cm' (Some n, s') (kb_command b) [] = (case f (n, s') of (r, e) \<Rightarrow> (r, (Some (fst e), snd e))))"
proof -
  let ?m = "menu_build (new_docker_menu orch)"
  have m: "dm_ctx ?m" "\<not> dm_bindings_active ?m" by (simp_all add: menu_build_def new_docker_menu_def)
  from on_load_keys [OF m, of what popen c s "(False, cm)"] assms(3)
  have k: "sc_keys (snd d) = fold (\<lambda>b kt. snd (Tui_Keys.bind b kt)) docker_bindings (sc_keys s)" by simp
  have "find_binding (sc_keys (snd d)) (NORMAL, False, kb_key b) = Some b"
    using docker_binding_found [OF assms(1), of "sc_keys s"] docker_bindings_normal [OF assms(1)]
    by (simp add: k binding_id_def)
  moreover have "snd (register_commands what popen c ?m (False, cm)) = cm'" using assms(3) by (simp add: on_load_def Let_def)
  moreover obtain desc f where "(kb_command b, desc, f) \<in> set (docker_commands what popen c)"
    using bindings_have_commands [OF assms(1)] by blast
  ultimately have "lookup (sc_keys (snd d)) ev NORMAL False = Some (kb_command b)"
      "execute cm' (Some n, s') (kb_command b) [] = (case f (n, s') of (r, e) \<Rightarrow> (r, (Some (fst e), snd e)))"
    using docker_command_registered [OF m(1), of "kb_command b" desc f what popen c cm n s' "[]"]
      docker_bindings_normal [OF assms(1)]
    by (simp_all add: lookup_def lookup_by_key_find assms(2) Let_def)
  then show ?thesis using \<open>(kb_command b, desc, f) \<in> set (docker_commands what popen c)\<close> by blast
qed

lemma demo_load_splits:
  "\<exists>d r cm'. on_load [] (\<lambda>_. None) demo_two_servers ((menu_build (new_docker_menu False), demo_screen), False, []) = (d, r, cm')"
  by (metis prod.exhaust)

lemma dashboard_key_runs_command_example:
  "lookup (sc_keys (snd (fst (on_load [] (\<lambda>_. None) demo_two_servers
     ((menu_build (new_docker_menu False), demo_screen), False, []))))) \<lparr>ev_named = None, ev_is_character = True, ev_character = ''R''\<rparr>
     NORMAL False = Some ''docker-refresh''"
proof -
  let ?b = "docker_binding ''R'' ''docker-refresh'' ''Docker: refresh data''"
  let ?ev = "\<lparr>ev_named = None, ev_is_character = True, ev_character = ''R''\<rparr>"
  obtain d r cm' where l: "on_load [] (\<lambda>_. None) demo_two_servers ((menu_build (new_docker_menu False), demo_screen), False, [])
      = (d, r, cm')" using demo_load_splits by blast
  have "?b \<in> set docker_bindings" by (simp add: docker_bindings_def)
  moreover have "event_to_key_string ?ev = kb_key ?b" by (simp add: event_to_key_string_def docker_binding_def)
  ultimately show ?thesis using dashboard_key_runs_command [OF _ _ l, of ?b ?ev] by (simp add: l docker_binding_def)
qed

section \<open>What leaving does to the user's keys\<close>

text \<open>
  Leaving unbinds the keys instead of putting back what they were bound to: a binding the user had for one of them in
  \<open>NORMAL\<close> mode is lost, all others stay.
\<close>

lemma leaving_forgets_user_keys:
  assumes "dm_ctx m" "\<not> dm_bindings_active m"
  shows "find_binding (sc_keys (snd (on_unload (fst (on_load what popen c ((m, s), rc)))))) mk =
    (if mk \<in> binding_id ` set docker_bindings then None else find_binding (sc_keys s) mk)"
proof -
  obtain m' s' where l: "fst (on_load what popen c ((m, s), rc)) = (m', s')" by (cases "fst (on_load what popen c ((m, s), rc))")
  have m': "dm_ctx m'" "dm_bindings m' = docker_bindings"
    using arg_cong [OF l, of fst] assms
    by (auto simp: on_load_def Let_def register_key_bindings_def load_servers_stored reselect_def server_selected set_error_def say_def
        split: if_splits)
  have k: "sc_keys s' = fold (\<lambda>b kt. snd (Tui_Keys.bind b kt)) docker_bindings (sc_keys s)"
    using on_load_keys [OF assms, of what popen c s rc] l by simp
  have "map_of (rev (map (\<lambda>b. (binding_id b, b)) docker_bindings)) mk = None" if "mk \<notin> binding_id ` set docker_bindings"
    using that by (auto simp: map_of_eq_None_iff)
  then show ?thesis using m' by (simp add: l on_unload_def unregister_key_bindings_def find_binding_none k find_binding_all)
qed

text \<open>The dashboard the program creates has no orchestrator, so its list of stacks is always empty.\<close>

lemma builtin_dashboard_has_no_stacks:
  "dm_stacks (fst (fst (on_load what popen c ((menu_build builtin_docker_menu, s), rc)))) = []"
  by (simp add: on_load_def Let_def builtin_docker_menu_def menu_build_def new_docker_menu_def register_key_bindings_def
      load_servers_stored reselect_def server_selected stored_stacks_def set_error_def say_def)

text \<open>Whatever tab is shown, the keys \<open>s\<close>, \<open>S\<close> and \<open>r\<close> act on the selected container.\<close>

lemma start_ignores_tab:
  "dm_status (fst (on_start_container (m\<lparr>dm_tab := t\<rparr>, s))) = dm_status (fst (on_start_container (m, s)))"
  by (simp add: on_start_container_def container_action_def set_status_def say_def)

text \<open>The refresh command reports success over the error that a refresh without servers reports.\<close>

lemma refresh_command_hides_error:
  assumes "stored_servers c = []"
  shows "dm_error (fst (on_refresh what c d)) = ''No Docker servers configured'' \<and>
    dm_error (fst (cmd_refresh what c d)) = [] \<and> dm_status (fst (cmd_refresh what c d)) = ''Refreshed docker data''"
  using assms by (cases d) (simp add: cmd_refresh_def on_refresh_def load_servers_stored Let_def set_error_def set_status_def say_def)

text \<open>Without servers the containers of the server that was selected before stay in the list.\<close>

lemma refresh_keeps_old_containers:
  assumes "stored_servers c = []"
  shows "dm_containers (fst (on_refresh what c d)) = dm_containers (fst d)"
  using assms by (cases d) (simp add: on_refresh_def load_servers_stored Let_def set_error_def say_def)

end
