(* ===== verification/Tui_Text.thy ===== *)
theory Tui_Text
  imports Nazg_Prelude
begin

text \<open>
  Text and frames of the terminal interface (\<open>src/modules/tui/src/layout_utils.cpp\<close>): breaking a text into lines, and
  the space and the decorators of a frame. The elements of the drawing library are an argument, as the functions
  that build them.
\<close>

section \<open>Wrapping\<close>

function chunks :: "nat \<Rightarrow> string \<Rightarrow> string list" where
  "chunks n s = (if s = [] \<or> n = 0 then [] else take n s # chunks n (drop n s))"
  by pat_completeness auto
termination by (relation "measure (length \<circ> snd)") auto

declare chunks.simps [simp del]

text \<open>The loop over the words of a paragraph, with the line begun so far.\<close>

fun wrap_words :: "nat \<Rightarrow> string \<Rightarrow> string list \<Rightarrow> string list" where
  "wrap_words n cur [] = (if cur = [] then [] else [cur])"
| "wrap_words n cur (w # ws) =
     (if n \<le> length w then (if cur = [] then [] else [cur]) @ chunks n w @ wrap_words n [] ws
      else if cur = [] then wrap_words n w ws
      else if length cur + 1 + length w \<le> n then wrap_words n (cur @ CHR '' '' # w) ws
      else cur # wrap_words n w ws)"

definition wrap_text :: "string \<Rightarrow> int \<Rightarrow> string list" where
  "wrap_text s max_width =
     (if max_width \<le> 0 then [s]
      else
        let ls = concat (map (\<lambda>segment. if segment = [] then [[]] else wrap_words (nat max_width) [] (words segment)) (getlines nl s))
        in if ls = [] then [[]] else ls)"

section \<open>Frames\<close>

record frame_options =
  fo_padding :: int
  fo_border_thickness :: int
  fo_border :: bool
  fo_clamp_to_viewport :: bool

definition default_menu_frame_options :: frame_options where
  "default_menu_frame_options = \<lparr>fo_padding = 1, fo_border_thickness = 1, fo_border = True, fo_clamp_to_viewport = True\<rparr>"

definition horizontal_overhead :: "frame_options \<Rightarrow> int" where
  "horizontal_overhead opts = (if fo_border opts then fo_border_thickness opts * 2 else 0) + fo_padding opts * 2"

definition vertical_overhead :: "frame_options \<Rightarrow> int" where
  "vertical_overhead opts = (if fo_border opts then fo_border_thickness opts * 2 else 0) + fo_padding opts * 2"

datatype direction = Width | Height
datatype size_constraint = LessThan | Equal | GreaterThan

record 'e drawing =
  dr_text :: "string \<Rightarrow> 'e"
  dr_filler :: 'e
  dr_size :: "direction \<Rightarrow> size_constraint \<Rightarrow> int \<Rightarrow> 'e \<Rightarrow> 'e"
  dr_hbox :: "'e list \<Rightarrow> 'e"
  dr_vbox :: "'e list \<Rightarrow> 'e"
  dr_flex :: "'e \<Rightarrow> 'e"
  dr_border :: "'e \<Rightarrow> 'e"

definition add_padding :: "'e drawing \<Rightarrow> 'e \<Rightarrow> int \<Rightarrow> 'e" where
  "add_padding D element padding =
     (if padding \<le> 0 then element
      else
        let horizontal_pad = dr_size D Width Equal padding (dr_filler D);
            vertical_pad = dr_size D Height Equal padding (dr_filler D)
        in dr_hbox D [horizontal_pad, dr_vbox D [vertical_pad, element, vertical_pad], horizontal_pad])"

definition limited :: "'e drawing \<Rightarrow> direction \<Rightarrow> int \<Rightarrow> 'e \<Rightarrow> 'e" where
  "limited D d n e = (if 0 < n then dr_size D d LessThan n e else e)"

definition apply_frame :: "'e drawing \<Rightarrow> 'e option \<Rightarrow> int \<Rightarrow> int \<Rightarrow> frame_options \<Rightarrow> 'e" where
  "apply_frame D inner viewport_width viewport_height opts =
     (let e0 = (case inner of None \<Rightarrow> dr_text D [] | Some e \<Rightarrow> e);
          clamp_width = max 0 (viewport_width - horizontal_overhead opts);
          clamp_height = max 0 (viewport_height - vertical_overhead opts);
          e1 = (if fo_clamp_to_viewport opts then limited D Height clamp_height (limited D Width clamp_width e0) else e0);
          e2 = add_padding D (dr_flex D e1) (fo_padding opts);
          e3 = (if fo_border opts then dr_border D e2 else e2)
      in dr_flex D (limited D Height viewport_height (limited D Width viewport_width e3)))"

definition make_wrapped_block :: "'e drawing \<Rightarrow> string \<Rightarrow> int \<Rightarrow> 'e" where
  "make_wrapped_block D s max_width = dr_vbox D (map (dr_text D) (wrap_text s max_width))"

section \<open>What wrapping keeps\<close>

definition visible :: "string \<Rightarrow> string" where
  "visible s = filter (\<lambda>c. \<not> isspace c) s"

lemma visible_append [simp]: "visible (a @ b) = visible a @ visible b" "visible [] = []"
  by (simp_all add: visible_def)

lemma visible_concat: "visible (concat ss) = concat (map visible ss)"
  by (induction ss) simp_all

lemma concat_chunks: "0 < n \<Longrightarrow> concat (chunks n s) = s"
  by (induction n s rule: chunks.induct) (subst chunks.simps, simp)

lemma chunks_length: "l \<in> set (chunks n s) \<Longrightarrow> length l \<le> n"
  by (induction n s rule: chunks.induct) (subst (asm) (2) chunks.simps, auto split: if_splits)

lemma visible_blank [simp]: "visible (CHR '' '' # s) = visible s" "visible [nl] = []"
  by (simp_all add: visible_def isspace_def nl_def)

lemma wrap_words_visible: "0 < n \<Longrightarrow> visible (concat (wrap_words n cur ws)) = visible cur @ concat (map visible ws)"
  by (induction n cur ws rule: wrap_words.induct) (simp_all add: concat_chunks)

lemma wrap_words_length: "length cur \<le> n \<Longrightarrow> l \<in> set (wrap_words n cur ws) \<Longrightarrow> length l \<le> n"
  by (induction n cur ws rule: wrap_words.induct) (auto simp: chunks_length split: if_splits)

lemma visible_takeWhile_dropWhile:
  "visible (dropWhile isspace s) = visible s"
  "visible (takeWhile (\<lambda>x. \<not> isspace x) s) @ visible (dropWhile (\<lambda>x. \<not> isspace x) s) = visible s"
  by (induction s) (simp_all add: visible_def)

lemma visible_words: "concat (map visible (words s)) = visible s"
proof (induction s rule: words.induct)
  case (1 s)
  let ?t = "dropWhile isspace s"
  show ?case
  proof (cases "?t = []")
    case True
    then have "visible s = []" using visible_takeWhile_dropWhile(1) [of s] by (simp del: dropWhile_eq_Nil_conv)
    then show ?thesis using True by (subst words.simps) (simp add: Let_def del: dropWhile_eq_Nil_conv)
  next
    case False
    then have "concat (map visible (words (dropWhile (\<lambda>x. \<not> isspace x) ?t))) = visible (dropWhile (\<lambda>x. \<not> isspace x) ?t)"
      using 1 by blast
    then show ?thesis using False visible_takeWhile_dropWhile [of ?t] visible_takeWhile_dropWhile(1) [of s]
      by (subst words.simps) (simp add: Let_def del: dropWhile_eq_Nil_conv)
  qed
qed

lemma visible_getlines: "isspace d \<Longrightarrow> visible (concat (getlines d s)) = visible s"
proof (induction d s rule: getlines.induct)
  case (1 d s)
  let ?a = "takeWhile (\<lambda>x. x \<noteq> d) s"
  show ?case
  proof (cases "dropWhile (\<lambda>x. x \<noteq> d) s")
    case Nil
    then have "s = ?a" by (metis append_Nil2 takeWhile_dropWhile_id)
    then show ?thesis using Nil by (subst getlines.simps) (simp del: dropWhile_eq_Nil_conv)
  next
    case (Cons e r)
    then have e: "e = d" "s = ?a @ d # r" by (metis (mono_tags, lifting) dropWhile_eq_Cons_conv) (metis (mono_tags, lifting) Cons dropWhile_eq_Cons_conv takeWhile_dropWhile_id)
    then have ne: "s \<noteq> []" by auto
    have "visible (concat (getlines d r)) = visible r" using 1(1) [OF ne Cons] 1(2) .
    moreover have "visible s = visible ?a @ visible r" using arg_cong [OF e(2), of visible] 1(2) by (simp add: visible_def)
    ultimately show ?thesis using Cons ne by (subst getlines.simps) simp
  qed
qed

text \<open>
  \<^bold>\<open>C39\<close> Wrapping fits and loses nothing: for a positive width every line is at most that long, there is at least one line, and
  the visible characters of the lines, in order, are those of the text.
\<close>

theorem wrap_text_fits:
  assumes "0 < max_width"
  shows "(\<forall>l\<in>set (wrap_text s max_width). int (length l) \<le> max_width) \<and> wrap_text s max_width \<noteq> [] \<and>
    visible (concat (wrap_text s max_width)) = visible s"
proof -
  let ?n = "nat max_width"
  let ?p = "\<lambda>segment. if segment = [] then [[]] else wrap_words ?n [] (words segment)"
  let ?ls = "concat (map ?p (getlines nl s))"
  have n: "0 < ?n" using assms by simp
  have "length l \<le> ?n" if "l \<in> set ?ls" for l using that wrap_words_length [of "[]" ?n] by (auto split: if_splits)
  then have len: "\<forall>l\<in>set ?ls. int (length l) \<le> max_width" using assms by (simp add: le_nat_iff)
  have "visible (concat (?p seg)) = visible seg" for seg
    using wrap_words_visible [OF n, of "[]" "words seg"] visible_words by simp
  then have "visible (concat (concat (map ?p segs))) = visible (concat segs)" for segs
    by (induction segs) (simp_all del: wrap_words.simps)
  moreover have "visible (concat (getlines nl s)) = visible s" by (rule visible_getlines) (simp add: isspace_def nl_def)
  ultimately have vis: "visible (concat ?ls) = visible s" by simp
  show ?thesis
  proof (cases "?ls = []")
    case True
    then have "wrap_text s max_width = [[]]" using assms unfolding wrap_text_def Let_def by simp
    moreover have "visible s = []" using vis unfolding True by simp
    ultimately show ?thesis using assms by simp
  next
    case False
    then have "wrap_text s max_width = ?ls" using assms unfolding wrap_text_def Let_def by (simp del: concat_eq_Nil_conv)
    then show ?thesis using False vis len by (simp del: concat_eq_Nil_conv)
  qed
qed

theorem wrap_text_fits_witness:
  "list_all (\<lambda>l. int (length l) \<le> 7) (wrap_text ''no pane is open'' 7) \<and> wrap_text ''no pane is open'' 7 \<noteq> [] \<and>
     visible (concat (wrap_text ''no pane is open'' 7)) = visible ''no pane is open''"
  using wrap_text_fits [of 7 "''no pane is open''"] unfolding list_all_iff by simp

end
