(* ===== verification/Tui_Panes.thy ===== *)
theory Tui_Panes
  imports Nazg_Prelude
begin

text \<open>
  A pane and the terminal behind it: class \<open>Pane\<close> (\<open>modules/tui/src/pane.cpp\<close>) with its text buffer and scrollback, and
  class \<open>Terminal\<close> (\<open>modules/tui/src/terminal.cpp\<close>), which owns a child process and the master side of a pseudo terminal.

  The processes of the machine are a table: a process identifier is a running child of this program, a child that has
  ended and waits to be collected, nothing, or a process of somebody else. \<open>waitpid\<close> and \<open>kill\<close> act on the table; every
  signal is recorded with what its target was. Between two calls the table changes as the argument \<open>env\<close> says.
\<close>

section \<open>Processes\<close>

datatype proc = Running | Ended | Nobody | Stranger

datatype signal = SIGTERM | SIGKILL | SIGWINCH | OtherSignal int

record machine =
  ma_procs :: "int \<Rightarrow> proc"
  ma_signals :: "(int \<times> signal \<times> proc) list"
  ma_closed :: "int list"
  ma_sizes :: "(int \<times> int \<times> int) list"

text \<open>\<open>waitpid(pid, _, WNOHANG)\<close>: 0 while the child runs, its identifier when it is collected, -1 when it is no child.\<close>

definition waitpid_nohang :: "int \<Rightarrow> machine \<Rightarrow> int \<times> machine" where
  "waitpid_nohang pid M =
     (case ma_procs M pid of
        Running \<Rightarrow> (0, M)
      | Ended \<Rightarrow> (pid, M\<lparr>ma_procs := (ma_procs M)(pid := Nobody)\<rparr>)
      | _ \<Rightarrow> (-1, M))"

text \<open>The blocking \<open>waitpid\<close>, called after \<open>SIGKILL\<close>, which a child cannot refuse.\<close>

definition waitpid_block :: "int \<Rightarrow> machine \<Rightarrow> machine" where
  "waitpid_block pid M =
     (case ma_procs M pid of
        Running \<Rightarrow> M\<lparr>ma_procs := (ma_procs M)(pid := Nobody)\<rparr>
      | Ended \<Rightarrow> M\<lparr>ma_procs := (ma_procs M)(pid := Nobody)\<rparr>
      | _ \<Rightarrow> M)"

definition send_signal :: "int \<Rightarrow> signal \<Rightarrow> machine \<Rightarrow> machine" where
  "send_signal pid sig M = M\<lparr>ma_signals := ma_signals M @ [(pid, sig, ma_procs M pid)]\<rparr>"

section \<open>The terminal\<close>

record terminal =
  tm_master_fd :: int
  tm_child_pid :: int
  tm_cmd :: string
  tm_args :: "string list"

definition is_alive :: "terminal \<Rightarrow> machine \<Rightarrow> bool \<times> machine" where
  "is_alive t M =
     (if tm_child_pid t \<le> 0 then (False, M)
      else case waitpid_nohang (tm_child_pid t) M of (result, M') \<Rightarrow> (result = 0, M'))"

text \<open>The outcome of \<open>openpty\<close> and \<open>fork\<close>: the descriptor, and the identifier of the child; an error is thrown.\<close>

definition new_terminal :: "int option \<Rightarrow> int \<Rightarrow> string \<Rightarrow> string list \<Rightarrow> terminal option" where
  "new_terminal openpty fork cmd args =
     (case openpty of
        None \<Rightarrow> None
      | Some master \<Rightarrow>
          if fork = -1 then None
          else Some \<lparr>tm_master_fd = master, tm_child_pid = fork, tm_cmd = cmd, tm_args = args\<rparr>)"

definition child_argv :: "terminal \<Rightarrow> string list" where
  "child_argv t = tm_cmd t # tm_args t"

definition terminal_resize :: "int \<Rightarrow> int \<Rightarrow> terminal \<Rightarrow> machine \<Rightarrow> machine" where
  "terminal_resize width height t M =
     (if tm_master_fd t = -1 then M
      else
        let M1 = M\<lparr>ma_sizes := ma_sizes M @ [(tm_master_fd t, width, height)]\<rparr>
        in if 0 < tm_child_pid t then send_signal (tm_child_pid t) SIGWINCH M1 else M1)"

definition terminal_kill :: "signal \<Rightarrow> terminal \<Rightarrow> machine \<Rightarrow> machine" where
  "terminal_kill sig t M = (if 0 < tm_child_pid t then send_signal (tm_child_pid t) sig M else M)"

text \<open>\<open>write\<close> and \<open>read\<close> on the descriptor; \<open>EAGAIN\<close> of a read is no data.\<close>

datatype read_outcome = Bytes string | WouldBlock | ReadError

definition terminal_write :: "(int \<Rightarrow> string \<Rightarrow> int) \<Rightarrow> string \<Rightarrow> terminal \<Rightarrow> int" where
  "terminal_write write data t = (if tm_master_fd t = -1 then -1 else write (tm_master_fd t) data)"

definition terminal_read :: "read_outcome \<Rightarrow> terminal \<Rightarrow> int \<times> string" where
  "terminal_read outcome t =
     (if tm_master_fd t = -1 then (-1, [])
      else case outcome of Bytes s \<Rightarrow> (int (length s), s) | WouldBlock \<Rightarrow> (0, []) | ReadError \<Rightarrow> (-1, []))"

text \<open>The wait of \<open>cleanup\<close>: up to \<open>n\<close> looks at the child, 10 ms apart; the argument of \<open>env\<close> counts the pauses.\<close>

fun wait_for_child :: "(nat \<Rightarrow> (int \<Rightarrow> proc) \<Rightarrow> int \<Rightarrow> proc) \<Rightarrow> nat \<Rightarrow> int \<Rightarrow> machine \<Rightarrow> machine" where
  "wait_for_child env 0 pid M = M"
| "wait_for_child env (Suc n) pid M =
     (case waitpid_nohang pid M of
        (r, M') \<Rightarrow> if r = pid then M' else wait_for_child env n pid (M'\<lparr>ma_procs := env n (ma_procs M')\<rparr>))"

definition cleanup :: "(nat \<Rightarrow> (int \<Rightarrow> proc) \<Rightarrow> int \<Rightarrow> proc) \<Rightarrow> terminal \<Rightarrow> machine \<Rightarrow> terminal \<times> machine" where
  "cleanup env t M =
     (let (t1, M1) =
        (if 0 < tm_child_pid t then
           let Ma = wait_for_child env 10 (tm_child_pid t) (send_signal (tm_child_pid t) SIGTERM M);
               (alive, Mb) = is_alive t Ma;
               Mc = (if alive then waitpid_block (tm_child_pid t) (send_signal (tm_child_pid t) SIGKILL Mb) else Mb)
           in (t\<lparr>tm_child_pid := -1\<rparr>, Mc)
         else (t, M))
      in if tm_master_fd t1 \<noteq> -1
         then (t1\<lparr>tm_master_fd := -1\<rparr>, M1\<lparr>ma_closed := ma_closed M1 @ [tm_master_fd t1]\<rparr>)
         else (t1, M1))"

definition moved_from :: "terminal \<Rightarrow> terminal" where
  "moved_from t = t\<lparr>tm_master_fd := -1, tm_child_pid := -1, tm_cmd := [], tm_args := []\<rparr>"

text \<open>Move assignment between two terminals: what was held is cleaned up, the source gives up what it held.\<close>

definition move_terminal ::
  "(nat \<Rightarrow> (int \<Rightarrow> proc) \<Rightarrow> int \<Rightarrow> proc) \<Rightarrow> terminal \<Rightarrow> terminal \<Rightarrow> machine \<Rightarrow> (terminal \<times> terminal) \<times> machine" where
  "move_terminal env src dst M = (case cleanup env dst M of (dst', M') \<Rightarrow> ((src, moved_from src), M'))"

section \<open>The pane\<close>

record pane =
  pn_terminal :: "terminal option"
  pn_buffer :: string
  pn_scrollback :: "string list"
  pn_active :: bool
  pn_width :: int
  pn_height :: int

definition new_pane :: "terminal option \<Rightarrow> pane" where
  "new_pane t = \<lparr>pn_terminal = t, pn_buffer = [], pn_scrollback = [], pn_active = False, pn_width = 80, pn_height = 24\<rparr>"

definition pane_is_alive :: "pane \<Rightarrow> machine \<Rightarrow> bool \<times> machine" where
  "pane_is_alive p M = (case pn_terminal p of None \<Rightarrow> (False, M) | Some t \<Rightarrow> is_alive t M)"

definition pane_pid :: "pane \<Rightarrow> int" where
  "pane_pid p = (case pn_terminal p of None \<Rightarrow> -1 | Some t \<Rightarrow> tm_child_pid t)"

definition pane_resize :: "int \<Rightarrow> int \<Rightarrow> pane \<Rightarrow> machine \<Rightarrow> pane \<times> machine" where
  "pane_resize width height p M =
     (p\<lparr>pn_width := width, pn_height := height\<rparr>,
      case pn_terminal p of None \<Rightarrow> M | Some t \<Rightarrow> terminal_resize width height t M)"

definition max_scrollback_lines :: nat where "max_scrollback_lines = 10000"
definition max_buffer_size :: nat where "max_buffer_size = 100000"

definition keep_last :: "nat \<Rightarrow> 'a list \<Rightarrow> 'a list" where
  "keep_last n xs = drop (length xs - n) xs"

definition update_scrollback :: "pane \<Rightarrow> pane" where
  "update_scrollback p =
     (let new_lines = getlines nl (pn_buffer p) in
      if new_lines = [] then p else p\<lparr>pn_scrollback := keep_last max_scrollback_lines (pn_scrollback p @ new_lines)\<rparr>)"

definition process_output :: "string \<Rightarrow> pane \<Rightarrow> pane" where
  "process_output data p =
     (let b = pn_buffer p @ data;
          b' = (if max_buffer_size < length b then keep_last (max_buffer_size div 2) b else b)
      in update_scrollback (p\<lparr>pn_buffer := b'\<rparr>))"

definition pane_send_input :: "(int \<Rightarrow> string \<Rightarrow> int) \<Rightarrow> string \<Rightarrow> pane \<Rightarrow> int option" where
  "pane_send_input write data p = map_option (terminal_write write data) (pn_terminal p)"

text \<open>The loop of \<open>update\<close> over what its reads of up to 4096 bytes return.\<close>

fun pane_update :: "read_outcome list \<Rightarrow> pane \<Rightarrow> pane" where
  "pane_update [] p = p"
| "pane_update (r # rs) p =
     (case pn_terminal p of
        None \<Rightarrow> p
      | Some t \<Rightarrow> (case terminal_read r t of (n, data) \<Rightarrow> if 0 < n then pane_update rs (process_output data p) else p))"

definition clear_buffer :: "pane \<Rightarrow> pane" where
  "clear_buffer p = p\<lparr>pn_buffer := []\<rparr>"

text \<open>The lines a pane shows: the last ones that fit, with empty lines below.\<close>

definition visible_content :: "pane \<Rightarrow> string list" where
  "visible_content p =
     (let ls = getlines nl (pn_buffer p);
          visible_lines = min (pn_height p) (int (length ls));
          start_line = nat (max 0 (int (length ls) - visible_lines));
          content = drop start_line ls
      in content @ replicate (nat (pn_height p - int (length content))) [])"

section \<open>What holds of panes\<close>

lemma length_keep_last [simp]: "length (keep_last n xs) = min n (length xs)"
  by (auto simp: keep_last_def)

lemma keep_last_suffix: "\<exists>ys. xs = ys @ keep_last n xs"
  by (metis append_take_drop_id keep_last_def)

lemma process_output_bounds:
  assumes "length (pn_scrollback p) \<le> max_scrollback_lines"
  shows "length (pn_buffer (process_output data p)) \<le> max_buffer_size \<and>
    length (pn_scrollback (process_output data p)) \<le> max_scrollback_lines"
  using assms by (simp add: process_output_def update_scrollback_def Let_def max_buffer_size_def)

lemma process_output_suffix: "\<exists>ys. pn_buffer p @ data = ys @ pn_buffer (process_output data p)"
  using keep_last_suffix [of "pn_buffer p @ data"] by (auto simp: process_output_def update_scrollback_def Let_def)

lemma visible_content_height: "0 \<le> pn_height p \<Longrightarrow> length (visible_content p) = nat (pn_height p)"
  by (simp add: visible_content_def Let_def min_def max_def split: if_splits) linarith

text \<open>Every output appends all lines of the buffer again, so lines come back in the scrollback.\<close>

lemma scrollback_repeats_lines:
  assumes "length (pn_buffer p @ data) \<le> max_buffer_size"
    "length (pn_scrollback p @ getlines nl (pn_buffer p @ data)) \<le> max_scrollback_lines"
  shows "pn_scrollback (process_output data p) = pn_scrollback p @ getlines nl (pn_buffer p @ data)"
  using assms by (simp add: process_output_def update_scrollback_def Let_def keep_last_def)

lemma scrollback_repeats_example:
  "pn_scrollback (process_output [CHR ''b'', nl] (process_output [CHR ''a'', nl] (new_pane None))) = [''a'', ''a'', ''b'']"
proof -
  have g: "getlines nl [CHR ''a'', nl] = [''a'']" "getlines nl [CHR ''a'', nl, CHR ''b'', nl] = [''a'', ''b'']"
    by code_simp+
  have "pn_scrollback (process_output [CHR ''a'', nl] (new_pane None)) = [''a'']"
    by (subst scrollback_repeats_lines) (simp_all add: new_pane_def max_buffer_size_def max_scrollback_lines_def g)
  then show ?thesis
    by (subst scrollback_repeats_lines)
      (simp_all add: new_pane_def max_buffer_size_def max_scrollback_lines_def process_output_def update_scrollback_def Let_def g)
qed

section \<open>Signals\<close>

definition own :: "proc \<Rightarrow> bool" where
  "own s \<longleftrightarrow> s = Running \<or> s = Ended"

text \<open>As long as a child was not collected its identifier stays its own: it can only end.\<close>

definition child_stays :: "(nat \<Rightarrow> (int \<Rightarrow> proc) \<Rightarrow> int \<Rightarrow> proc) \<Rightarrow> int \<Rightarrow> bool" where
  "child_stays env pid \<longleftrightarrow> (\<forall>n f. own (f pid) \<longrightarrow> own (env n f pid))"

lemma waitpid_nohang_simps:
  "ma_procs M pid = Running \<Longrightarrow> waitpid_nohang pid M = (0, M)"
  "ma_procs M pid = Ended \<Longrightarrow> waitpid_nohang pid M = (pid, M\<lparr>ma_procs := (ma_procs M)(pid := Nobody)\<rparr>)"
  "ma_procs M pid = Nobody \<Longrightarrow> waitpid_nohang pid M = (-1, M)"
  "ma_procs M pid = Stranger \<Longrightarrow> waitpid_nohang pid M = (-1, M)"
  by (simp_all add: waitpid_nohang_def)

lemma wait_for_child_result:
  assumes "child_stays env pid" "0 < pid" "own (ma_procs M pid)"
  shows "ma_signals (wait_for_child env n pid M) = ma_signals M \<and> ma_closed (wait_for_child env n pid M) = ma_closed M \<and>
    ma_procs (wait_for_child env n pid M) pid \<noteq> Stranger"
  using assms(3)
proof (induction n arbitrary: M)
  case 0
  then show ?case by (auto simp: own_def)
next
  case (Suc n)
  show ?case
  proof (cases "ma_procs M pid = Running")
    case True
    then have "own (env n (ma_procs M) pid)" using assms(1) by (simp add: child_stays_def own_def)
    then show ?thesis using Suc.IH [of "M\<lparr>ma_procs := env n (ma_procs M)\<rparr>"] True assms(2) by (simp add: waitpid_nohang_simps)
  next
    case False
    with Suc.prems have "ma_procs M pid = Ended" by (simp add: own_def)
    then show ?thesis by (simp add: waitpid_nohang_simps)
  qed
qed

lemma is_alive_result:
  assumes "0 < tm_child_pid t" "is_alive t M = (alive, M')"
  shows "alive = (ma_procs M (tm_child_pid t) = Running) \<and> ma_signals M' = ma_signals M \<and> ma_closed M' = ma_closed M \<and>
    ma_procs M' (tm_child_pid t) = (if ma_procs M (tm_child_pid t) = Ended then Nobody else ma_procs M (tm_child_pid t))"
  using assms by (cases "ma_procs M (tm_child_pid t)") (auto simp: is_alive_def waitpid_nohang_simps)

text \<open>
  Cleaning up a terminal whose child was not collected before signals only that child, first with \<open>SIGTERM\<close>, collects
  it however it behaves, and closes the descriptor once; the terminal then holds nothing.
\<close>

lemma cleanup_signals_own_child:
  assumes pid: "0 < tm_child_pid t" and fd: "tm_master_fd t \<noteq> -1" and child: "own (ma_procs M (tm_child_pid t))"
    and env: "child_stays env (tm_child_pid t)" and c: "cleanup env t M = (t', M')"
  shows "(\<exists>rest. ma_signals M' = ma_signals M @ (tm_child_pid t, SIGTERM, ma_procs M (tm_child_pid t)) # rest \<and>
      (rest = [] \<or> rest = [(tm_child_pid t, SIGKILL, Running)])) \<and>
    \<not> own (ma_procs M' (tm_child_pid t)) \<and> ma_closed M' = ma_closed M @ [tm_master_fd t] \<and>
    tm_child_pid t' = -1 \<and> tm_master_fd t' = -1"
proof -
  let ?p = "tm_child_pid t"
  let ?M1 = "send_signal ?p SIGTERM M"
  let ?M2 = "wait_for_child env 10 ?p ?M1"
  have w: "ma_signals ?M2 = ma_signals M @ [(?p, SIGTERM, ma_procs M ?p)]" "ma_closed ?M2 = ma_closed M"
    "ma_procs ?M2 ?p \<noteq> Stranger"
    using wait_for_child_result [OF env pid, of ?M1 10] child by (simp_all add: send_signal_def)
  obtain alive M3 where a: "is_alive t ?M2 = (alive, M3)" by (cases "is_alive t ?M2")
  note r = is_alive_result [OF pid a]
  show ?thesis
  proof (cases alive)
    case True
    with r have run: "ma_procs M3 ?p = Running" by auto
    from c True pid fd a have M': "t' = t\<lparr>tm_child_pid := -1, tm_master_fd := -1\<rparr>"
        "M' = (waitpid_block ?p (send_signal ?p SIGKILL M3))\<lparr>ma_closed := ma_closed M3 @ [tm_master_fd t]\<rparr>"
      by (auto simp: cleanup_def Let_def waitpid_block_def send_signal_def run)
    show ?thesis using run r w by (simp add: M' waitpid_block_def send_signal_def own_def)
  next
    case False
    from c False pid fd a have M': "t' = t\<lparr>tm_child_pid := -1, tm_master_fd := -1\<rparr>"
        "M' = M3\<lparr>ma_closed := ma_closed M3 @ [tm_master_fd t]\<rparr>"
      by (auto simp: cleanup_def Let_def)
    show ?thesis using False r w by (cases "ma_procs ?M2 ?p") (simp_all add: M' own_def)
  qed
qed

text \<open>
  \<^bold>\<open>C22\<close> After \<open>is_alive\<close> has seen the child's end, the terminal keeps its identifier: when the machine gives the identifier
  to another process, \<open>resize\<close>, \<open>kill\<close> and the clean-up send their signals to that process.
\<close>

theorem stranger_is_signalled:
  assumes "0 < tm_child_pid t" "tm_master_fd t \<noteq> -1" "ma_procs M (tm_child_pid t) = Ended"
    and "is_alive t M = (alive, M1)" and "reused = M1\<lparr>ma_procs := (ma_procs M1)(tm_child_pid t := Stranger)\<rparr>"
  shows "\<not> alive \<and> (tm_child_pid t, SIGTERM, Stranger) \<in> set (ma_signals (snd (cleanup (\<lambda>_ f. f) t reused))) \<and>
    (tm_child_pid t, SIGWINCH, Stranger) \<in> set (ma_signals (terminal_resize width height t reused)) \<and>
    (tm_child_pid t, sig, Stranger) \<in> set (ma_signals (terminal_kill sig t reused))"
proof -
  have wait: "wait_for_child (\<lambda>_ f. f) n (tm_child_pid t) K = K" if "ma_procs K (tm_child_pid t) = Stranger" for n K
    using that assms(1) by (induction n arbitrary: K) (simp_all add: waitpid_nohang_simps)
  have "ma_procs reused (tm_child_pid t) = Stranger" by (simp add: assms(5))
  then show ?thesis
    using is_alive_result [OF assms(1,4)] assms(1,2,3) wait [of "send_signal (tm_child_pid t) SIGTERM reused"]
    by (simp add: cleanup_def is_alive_def waitpid_nohang_simps terminal_resize_def terminal_kill_def send_signal_def Let_def)
qed

definition demo_machine :: machine where
  "demo_machine = \<lparr>ma_procs = (\<lambda>_. Nobody)(7 := Ended), ma_signals = [], ma_closed = [], ma_sizes = []\<rparr>"

definition demo_terminal :: terminal where
  "demo_terminal = \<lparr>tm_master_fd = 5, tm_child_pid = 7, tm_cmd = ''/bin/sh'', tm_args = []\<rparr>"

lemma cleanup_signals_own_child_example:
  "\<not> own (ma_procs (snd (cleanup (\<lambda>_ f. f) demo_terminal demo_machine)) 7)"
  using cleanup_signals_own_child [of demo_terminal demo_machine "\<lambda>_ f. f" "fst (cleanup (\<lambda>_ f. f) demo_terminal demo_machine)"
      "snd (cleanup (\<lambda>_ f. f) demo_terminal demo_machine)"]
  by (simp add: demo_terminal_def demo_machine_def own_def child_stays_def)

theorem stranger_is_signalled_witness:
  "(7, SIGTERM, Stranger) \<in> set (ma_signals (snd (cleanup (\<lambda>_ f. f) demo_terminal
     ((snd (is_alive demo_terminal demo_machine))\<lparr>ma_procs := (\<lambda>_. Nobody)(7 := Stranger)\<rparr>))))"
proof -
  let ?M1 = "snd (is_alive demo_terminal demo_machine)"
  have a: "is_alive demo_terminal demo_machine = (False, ?M1)" "ma_procs ?M1 = (\<lambda>_. Nobody)"
    by (simp_all add: is_alive_def demo_terminal_def demo_machine_def waitpid_nohang_def fun_upd_idem)
  have t: "0 < tm_child_pid demo_terminal" "tm_master_fd demo_terminal \<noteq> -1" "tm_child_pid demo_terminal = 7"
    "ma_procs demo_machine (tm_child_pid demo_terminal) = Ended" by (simp_all add: demo_terminal_def demo_machine_def)
  from stranger_is_signalled [OF t(1,2,4) a(1) refl] show ?thesis by (simp add: t(3) a(2))
qed

end
