(* ===== verification/Tui_Views.thy ===== *)
theory Tui_Views
  imports Tui_Window Tui_Commands Tui_Text Tui_Panes Tui_Keys
begin

text \<open>
  What the multiplexer draws: themes (\<open>modules/tui/src/theme.cpp\<close>), the status bar (\<open>statusbar.cpp\<close>), the command bar
  (\<open>command_bar.cpp\<close>), a pane (\<open>pane.cpp\<close>), a window (\<open>window.cpp\<close>) and the main menu (\<open>menus/main_menu.cpp\<close>). The drawing
  library is the argument \<open>D\<close>, a record of the functions the sources call. Texts are bytes, so symbols are their UTF-8
  bytes. Ratios are rational numbers, as in \<open>Tui_Layout\<close>.
\<close>

datatype colour = Blue | Cyan | Black | Red | Green | Yellow | White | GrayDark | Default | RGB int int int
datatype style = Bold | Dim | Center | Inverted | Border | FlexGrow | Bgcolor colour | Fgcolor colour

record 'e canvas = "'e drawing" +
  dr_separator :: 'e
  dr_window :: "'e \<Rightarrow> 'e \<Rightarrow> 'e"
  dr_style :: "style \<Rightarrow> 'e \<Rightarrow> 'e"

definition styled :: "'e canvas \<Rightarrow> style list \<Rightarrow> 'e \<Rightarrow> 'e" where
  "styled D ss e = fold (dr_style D) ss e"

definition tx :: "'e canvas \<Rightarrow> string \<Rightarrow> 'e" where
  "tx D s = dr_text D s"

definition sized :: "'e canvas \<Rightarrow> int \<Rightarrow> 'e \<Rightarrow> 'e" where
  "sized D n = dr_size D Width Equal n"

section \<open>Symbols\<close>

definition utf8 :: "nat list \<Rightarrow> string" where
  "utf8 bs = map char_of bs"

definition whale :: string where "whale = utf8 [0xf0, 0x9f, 0x90, 0xb3]"
definition cross :: string where "cross = utf8 [0xe2, 0x9d, 0x8c]"
definition info_sign :: string where "info_sign = utf8 [0xe2, 0x84, 0xb9, 0xef, 0xb8, 0x8f]"
definition antenna :: string where "antenna = utf8 [0xf0, 0x9f, 0x93, 0xa1]"
definition pointer :: string where "pointer = utf8 [0xe2, 0x96, 0xb6]"
definition up_down :: string where "up_down = utf8 [0xe2, 0x86, 0x91, 0xe2, 0x86, 0x93]"
definition left_right :: string where "left_right = utf8 [0xe2, 0x86, 0x90, 0xe2, 0x86, 0x92]"
definition disc :: string where "disc = utf8 [0xf0, 0x9f, 0x92, 0xbf]"
definition floppy :: string where "floppy = utf8 [0xf0, 0x9f, 0x92, 0xbe]"
definition globe :: string where "globe = utf8 [0xf0, 0x9f, 0x8c, 0x90]"
definition package :: string where "package = utf8 [0xf0, 0x9f, 0x93, 0xa6]"
definition filled_circle :: string where "filled_circle = utf8 [0xe2, 0x97, 0x8f]"
definition filled_square :: string where "filled_square = utf8 [0xe2, 0x96, 0xa0]"
definition pause_sign :: string where "pause_sign = utf8 [0xe2, 0x8f, 0xb8]"
definition double_line :: string where "double_line = utf8 [0xe2, 0x95, 0x90, 0xe2, 0x95, 0x90, 0xe2, 0x95, 0x90]"

definition mark :: "bool \<Rightarrow> string" where
  "mark selected = (if selected then pointer @ '' '' else ''  '')"

section \<open>Themes\<close>

record theme =
  th_name :: string
  th_active_border :: colour
  th_inactive_border :: colour
  th_pane_bg :: colour
  th_pane_fg :: colour
  th_status_bg :: colour
  th_status_fg :: colour
  th_status_accent :: colour
  th_highlight :: colour
  th_dimmed :: colour

definition cyberpunk_theme :: theme where
  "cyberpunk_theme =
     \<lparr>th_name = ''cyberpunk'', th_active_border = RGB 200 0 255, th_inactive_border = RGB 80 0 100, th_pane_bg = RGB 10 0 20,
      th_pane_fg = RGB 220 180 255, th_status_bg = RGB 40 0 80, th_status_fg = RGB 0 255 255, th_status_accent = RGB 255 0 200,
      th_highlight = RGB 255 0 255, th_dimmed = RGB 100 80 120\<rparr>"

definition default_theme :: theme where
  "default_theme =
     \<lparr>th_name = ''default'', th_active_border = Cyan, th_inactive_border = GrayDark, th_pane_bg = Black, th_pane_fg = White,
      th_status_bg = Blue, th_status_fg = White, th_status_accent = Yellow, th_highlight = Green, th_dimmed = GrayDark\<rparr>"

definition get_theme :: "string \<Rightarrow> theme" where
  "get_theme name = (if name = ''cyberpunk'' then cyberpunk_theme else default_theme)"

section \<open>The status bar\<close>

record status_bar =
  sb_prefix_active :: bool
  sb_mode :: string
  sb_info :: string
  sb_pid :: int
  sb_process_alive :: bool
  sb_prefix_hint :: string
  sb_window_summary :: string

definition new_status_bar :: status_bar where
  "new_status_bar = \<lparr>sb_prefix_active = False, sb_mode = ''INSERT'', sb_info = [], sb_pid = 0, sb_process_alive = True,
     sb_prefix_hint = ''Ctrl-b'', sb_window_summary = []\<rparr>"

definition set_process_info :: "int \<Rightarrow> bool \<Rightarrow> status_bar \<Rightarrow> status_bar" where
  "set_process_info pid alive b = b\<lparr>sb_pid := pid, sb_process_alive := alive\<rparr>"

definition set_window_summary :: "int \<Rightarrow> int \<Rightarrow> bool \<Rightarrow> string \<Rightarrow> status_bar \<Rightarrow> status_bar" where
  "set_window_summary index extent zoomed title b =
     b\<lparr>sb_window_summary :=
        (if extent \<le> 0 \<or> index < 0 \<or> extent \<le> index then []
         else ''['' @ to_string (index + 1) @ ''/'' @ to_string extent @ '']'' @ (if title = [] then [] else CHR '' '' # title) @
           (if zoomed then '' (zoom)'' else []))\<rparr>"

definition build_left :: "status_bar \<Rightarrow> string" where
  "build_left b =
     '' '' @ (if sb_prefix_active b then ''[PREFIX] '' else []) @ pointer @ '' nazg '' @
     (if sb_mode b \<noteq> [] \<and> sb_mode b \<noteq> ''INSERT'' then ''('' @ sb_mode b @ '') '' else []) @
     (if sb_window_summary b \<noteq> [] then sb_window_summary b @ '' '' else [])"

definition build_info :: "status_bar \<Rightarrow> string" where
  "build_info b = (if sb_info b \<noteq> [] then '' | '' @ sb_info b else [])"

definition build_right :: "status_bar \<Rightarrow> string" where
  "build_right b =
     (if sb_process_alive b then
        (let hint = (if sb_prefix_hint b = [] then ''Prefix'' else sb_prefix_hint b @ '':Prefix'');
             right = (if sb_prefix_active b then '' ?:Help | F7:Quit'' else CHR '' '' # hint @ '' | F7:Quit'')
         in if 0 < sb_pid b \<and> \<not> sb_prefix_active b then right @ '' | PID:'' @ to_string (sb_pid b) else right)
      else '' Process ended | F7:Quit'') @ '' ''"

definition status_full :: "int \<Rightarrow> status_bar \<Rightarrow> string" where
  "status_full width b =
     (let left = build_left b; info = build_info b; right = build_right b;
          left_width = int (length left) + int (length info);
          padding = max 0 (width - left_width - int (length right))
      in left @ info @ replicate (nat padding) (CHR '' '') @ right)"

definition render_status_bar :: "'e canvas \<Rightarrow> int \<Rightarrow> theme \<Rightarrow> status_bar \<Rightarrow> 'e" where
  "render_status_bar D width theme b =
     (if sb_prefix_active b then styled D [Bgcolor (th_status_accent theme), Fgcolor Black, Bold] (tx D (status_full width b))
      else styled D [Bgcolor (th_status_bg theme), Fgcolor (th_status_fg theme), Bold] (tx D (status_full width b)))"

section \<open>The command bar\<close>

definition render_command_bar :: "'e canvas \<Rightarrow> int \<Rightarrow> bool \<Rightarrow> string \<Rightarrow> 'e" where
  "render_command_bar D width active buffer =
     (if \<not> active then dr_size D Width GreaterThan width (dr_hbox D [tx D '':'', dr_filler D])
      else dr_size D Width GreaterThan width
        (styled D [Inverted] (dr_hbox D [styled D [Bold] (tx D (CHR '':'' # buffer)), dr_filler D])))"

section \<open>Panes and windows\<close>

definition render_pane :: "'e canvas \<Rightarrow> bool \<Rightarrow> theme \<Rightarrow> pane \<Rightarrow> 'e" where
  "render_pane D active theme p =
     styled D [Border, Fgcolor (if active then th_active_border theme else th_inactive_border theme)]
       (dr_window D (tx D []) (dr_vbox D (map (tx D) (visible_content p))))"

text \<open>The two parts of a split and the line between them, along one direction.\<close>

definition separator_size :: "int \<Rightarrow> int" where
  "separator_size extent = (if 1 < extent then 1 else 0)"

definition split_sizes :: "int \<Rightarrow> rat \<Rightarrow> int \<times> int" where
  "split_sizes extent ratio =
     (let usable = max 1 (extent - separator_size extent);
          first = max 1 (trunc_int (of_int usable * ratio));
          second = max 1 (usable - first);
          allocated = first + second
      in if allocated = usable then (first, second)
         else let second' = second + (usable - allocated)
              in if second' < 1 then (max 1 (usable - 1), 1) else (first, second'))"

definition clamp_ratio :: "rat \<Rightarrow> rat" where
  "clamp_ratio r = max (5 / 100) (min (95 / 100) r)"

text \<open>A resize is collected with the pane it goes to; the pane is drawn with its new size.\<close>

fun render_node :: "'e canvas \<Rightarrow> theme \<Rightarrow> pane_ptr option \<Rightarrow> (pane_ptr \<Rightarrow> pane) \<Rightarrow> node \<Rightarrow> int \<Rightarrow> int \<Rightarrow>
    'e \<times> (pane_ptr \<times> int \<times> int) list" where
  "render_node D theme active panes (Leaf p) width rows =
     (let w = max 1 width; h = max 1 rows in
      (styled D [FlexGrow] (render_pane D (active = Some p) theme ((panes p)\<lparr>pn_width := w, pn_height := h\<rparr>)), [(p, w, h)]))"
| "render_node D theme active panes (Split dir ratio l r) width rows =
     (let w = max 1 width; h = max 1 rows; extent = (if dir = HORIZONTAL then w else h);
          (first, second) = split_sizes extent (clamp_ratio ratio);
          direction = (if dir = HORIZONTAL then Width else Height);
          box = (if dir = HORIZONTAL then dr_hbox D else dr_vbox D);
          (le, ls) = (if dir = HORIZONTAL then render_node D theme active panes l first h else render_node D theme active panes l w first);
          (re, rs) = (if dir = HORIZONTAL then render_node D theme active panes r second h else render_node D theme active panes r w second);
          le' = dr_size D direction Equal first le; re' = dr_size D direction Equal second re
      in (if separator_size extent = 0 then box [styled D [FlexGrow] le', styled D [FlexGrow] re'] else box [le', dr_separator D, re'],
          ls @ rs))"

definition render_window :: "'e canvas \<Rightarrow> theme \<Rightarrow> (pane_ptr \<Rightarrow> pane) \<Rightarrow> int \<Rightarrow> int \<Rightarrow> window \<Rightarrow> 'e \<times> (pane_ptr \<times> int \<times> int) list" where
  "render_window D theme panes width rows win =
     (case w_layout win of
        None \<Rightarrow> (styled D [Center] (tx D ''No panes''), [])
      | Some top_node \<Rightarrow>
          if w_panes win = [] then (styled D [Center] (tx D ''No panes''), [])
          else
            let w = max 1 width; h = max 1 rows in
            (case (w_zoomed win, w_zoom_target win) of
               (True, Some z) \<Rightarrow>
                 (dr_size D Height Equal h (dr_size D Width Equal w
                    (render_pane D True theme ((panes z)\<lparr>pn_width := w, pn_height := h\<rparr>))), [(z, w, h)])
             | _ \<Rightarrow> (case render_node D theme (w_active win) panes top_node w h of
                 (e, rs) \<Rightarrow> (dr_size D Height GreaterThan h (dr_size D Width GreaterThan w e), rs))))"

section \<open>The main menu\<close>

definition menu_items :: "string list" where
  "menu_items = [''Docker Management'', ''System Tools'', ''Git Management'', ''Settings'', ''Exit'']"

definition render_main_menu :: "'e canvas \<Rightarrow> int \<Rightarrow> 'e" where
  "render_main_menu D selected =
     styled D [Center] (dr_vbox D (
       [styled D [Bold, Center, Bgcolor Blue] (tx D (double_line @ '' NAZG Control Center '' @ double_line)), dr_separator D, tx D []] @
       map (\<lambda>(i, item). let e = tx D (mark (int i = selected) @ item)
            in if int i = selected then styled D [Bold, Bgcolor Cyan, Fgcolor Black] e else e) (enumerate 0 menu_items) @
       [tx D [], dr_separator D, styled D [Dim, Center] (tx D (up_down @ '': Navigate | Enter: Select | :back/:home: Exit''))]))"

definition on_item_selected :: "'ctx command_manager \<Rightarrow> (string \<Rightarrow> 'ctx \<Rightarrow> 'ctx) \<Rightarrow> int \<Rightarrow> 'ctx \<Rightarrow> 'ctx" where
  "on_item_selected cm status index ctx =
     (if index = 0 then snd (execute cm ctx ''load'' [''docker''])
      else if index = 1 then status ''System Tools - Coming Soon'' ctx
      else if index = 2 then status ''Git Management - Coming Soon'' ctx
      else if index = 3 then status ''Settings - Coming Soon'' ctx
      else if index = 4 then snd (execute cm ctx ''quit'' [])
      else ctx)"

definition main_menu_event ::
  "'ctx command_manager \<Rightarrow> (string \<Rightarrow> 'ctx \<Rightarrow> 'ctx) \<Rightarrow> named_key option \<Rightarrow> int \<times> 'ctx \<Rightarrow> bool \<times> int \<times> 'ctx" where
  "main_menu_event cm status key x =
     (case x of (selected, ctx) \<Rightarrow>
        if key = Some ArrowUp then (True, if 0 < selected then selected - 1 else selected, ctx)
        else if key = Some ArrowDown then
          (True, if selected < int (length menu_items) - 1 then selected + 1 else selected, ctx)
        else if key = Some Return then (True, selected, on_item_selected cm status selected ctx)
        else (False, selected, ctx))"

section \<open>What is drawn\<close>

text \<open>The bar is padded by bytes: the pointer is one column of three bytes, so a bar with room to spare ends two columns early.\<close>

lemma status_full_bytes:
  "int (length (status_full width b)) =
     max width (int (length (build_left b)) + int (length (build_info b)) + int (length (build_right b)))"
  by (simp add: status_full_def Let_def max_def)

lemma split_sizes_sum:
  assumes "3 \<le> extent" "0 \<le> ratio" "ratio \<le> 1"
  shows "fst (split_sizes extent ratio) + separator_size extent + snd (split_sizes extent ratio) = extent \<and>
    1 \<le> fst (split_sizes extent ratio) \<and> 1 \<le> snd (split_sizes extent ratio)"
proof -
  let ?u = "extent - 1"
  have "of_int ?u * ratio \<le> of_int ?u" using assms mult_left_le [of ratio "of_int ?u"] by simp
  then have "\<lfloor>of_int ?u * ratio\<rfloor> \<le> ?u" by (metis floor_le_iff floor_of_int le_less_trans less_floor_iff linorder_not_le floor_mono)
  moreover have "separator_size extent = 1" "max 1 (extent - 1) = extent - 1" using assms(1) by (simp_all add: separator_size_def)
  ultimately show ?thesis using assms(1) by (auto simp: split_sizes_def Let_def max_def)
qed

lemma narrow_split_overflows: "split_sizes 2 ratio = (1, 1) \<and> separator_size 2 = 1" if "0 \<le> ratio" "ratio \<le> 1"
  using that by (auto simp: split_sizes_def separator_size_def Let_def max_def)

lemma render_node_resizes: "map fst (snd (render_node D theme active panes n w h)) = collect_panes n"
  by (induction n arbitrary: w h) (simp_all add: Let_def case_prod_beta)

lemma render_node_positive: "(p, w', h') \<in> set (snd (render_node D theme active panes n w h)) \<Longrightarrow> 1 \<le> w' \<and> 1 \<le> h'"
  by (induction n arbitrary: w h) (auto simp: Let_def case_prod_beta split: if_splits)

lemma main_menu_selection:
  assumes "0 \<le> i" "i < 5"
  shows "0 \<le> fst (snd (main_menu_event cm status key (i, ctx))) \<and> fst (snd (main_menu_event cm status key (i, ctx))) < 5"
  using assms by (simp add: main_menu_event_def menu_items_def)

end
