(* ===== verification/Tui_Builtin.thy ===== *)
theory Tui_Builtin
  imports Tui_App Tui_Docker_Facts Tui_Views
begin

text \<open>
  The application with the menus it ships with: \<open>register_builtin_menus\<close> in \<open>modules/tui/src/menu_registry.cpp\<close>, which
  \<open>TUIApp::register_menus\<close> calls, \<open>MainMenu\<close> (\<open>menus/main_menu.cpp\<close>) and \<open>DockerMenu\<close> (\<open>menus/docker_menu.cpp\<close>). The
  dashboard of \<open>Tui_Docker_Menu\<close> and the main menu of \<open>Tui_Views\<close> become the menus of the manager (\<open>Tui_Menus\<close>), with
  their hooks, their commands and their handling of events in the context of the whole application (\<open>Tui_App\<close>).

  A dashboard reaches the database and \<open>popen\<close> through pointers; what it finds there is the record \<open>outside\<close>, which can
  change at any time for all dashboards at once. The root of a menu is set by \<open>build\<close>, so every menu of the stack has one.
\<close>

section \<open>The built-in menus\<close>

record outside =
  os_what :: string
  os_popen :: "string \<Rightarrow> (string \<times> int) option"
  os_db :: sqlite

text \<open>The main menu is its selected index.\<close>

datatype builtin = Main int | Docker outside docker_menu

definition on_dashboard :: "(outside \<Rightarrow> dashboard \<Rightarrow> dashboard) \<Rightarrow> builtin \<times> screen \<Rightarrow> builtin \<times> screen" where
  "on_dashboard f x =
     (case x of
        (Main i, s) \<Rightarrow> (Main i, s)
      | (Docker out m, s) \<Rightarrow> (case f out (m, s) of (m', s') \<Rightarrow> (Docker out m', s')))"

text \<open>
  The number texts a dashboard saves are read back without an exception as long as they fit the C++ types
  (\<open>restore_saved\<close> in \<open>Tui_Docker_Facts\<close>); the case of a number that does not fit is left out.
\<close>

definition builtin_class :: "builtin menu_class" where
  "builtin_class =
     \<lparr>mc_preserve_state = (\<lambda>_. True),
      mc_save_state = (\<lambda>b. case b of Main i \<Rightarrow> [] | Docker out m \<Rightarrow> save_state m),
      mc_restore_state = (\<lambda>st b. case b of Main i \<Rightarrow> Main i
        | Docker out m \<Rightarrow> Docker out (case restore_state st m of None \<Rightarrow> m | Some m' \<Rightarrow> m')),
      mc_build = (\<lambda>b. case b of Main i \<Rightarrow> Main i | Docker out m \<Rightarrow> Docker out (menu_build m)),
      mc_on_load = on_dashboard (\<lambda>out d. fst (on_load (os_what out) (os_popen out) (os_db out) (d, False, []))),
      mc_on_unload = on_dashboard (\<lambda>out. on_unload),
      mc_on_resume = on_dashboard (\<lambda>out. on_resume (os_what out) (os_db out))\<rparr>"

text \<open>Without a store no menu is registered.\<close>

definition builtin_menus :: "outside option \<Rightarrow> (string \<times> builtin option) list" where
  "builtin_menus store =
     (case store of None \<Rightarrow> []
      | Some out \<Rightarrow> [(''main'', Some (Main 0)), (''docker'', Some (Docker out builtin_docker_menu))])"

section \<open>Commands and events\<close>

definition put_top :: "builtin \<Rightarrow> builtin tui_context \<Rightarrow> builtin tui_context" where
  "put_top b c = c\<lparr>tc_menus := (tc_menus c)\<lparr>mn_stack :=
     butlast (mn_stack (tc_menus c)) @ [last (mn_stack (tc_menus c))\<lparr>me_menu := Some b\<rparr>]\<rparr>\<rparr>"

text \<open>\<open>dynamic_cast<DockerMenu*>(ctx.active_menu())\<close>\<close>

definition active_dashboard :: "builtin tui_context \<Rightarrow> (outside \<times> docker_menu) option" where
  "active_dashboard c =
     (case current_menu (tc_menus c) of Some (Docker out m) \<Rightarrow> Some (out, m) | _ \<Rightarrow> None)"

definition dashboard_command :: "string \<Rightarrow> outside \<Rightarrow> dashboard \<Rightarrow> bool \<times> dashboard" where
  "dashboard_command name out =
     (case map_of (docker_commands (os_what out) (os_popen out) (os_db out)) name of
        None \<Rightarrow> Pair False
      | Some (desc, f) \<Rightarrow> f)"

definition run_dashboard_command :: "string \<Rightarrow> builtin tui_command" where
  "run_dashboard_command name c args =
     (case active_dashboard c of
        None \<Rightarrow> (case make_handler (Pair False) (None, screen_of c) args of (r, _, s) \<Rightarrow> (r, put_screen s c))
      | Some (out, m) \<Rightarrow>
          (case make_handler (dashboard_command name out) (Some m, screen_of c) args of
             (r, m', s) \<Rightarrow> (r, put_screen s (case m' of None \<Rightarrow> c | Some m1 \<Rightarrow> put_top (Docker out m1) c))))"

text \<open>Names and descriptions do not depend on what is outside.\<close>

definition docker_command_names :: "(string \<times> string) list" where
  "docker_command_names = map (\<lambda>(name, desc, f). (name, desc)) (docker_commands [] (\<lambda>_. None) fresh_db)"

definition register_docker_commands :: "builtin tui_context command_manager \<Rightarrow> builtin tui_context command_manager" where
  "register_docker_commands cm =
     fold (\<lambda>(name, desc) cm. snd (register_simple name desc (Some (run_dashboard_command name)) cm)) docker_command_names cm"

text \<open>
  The dashboard registers its commands when it is loaded. It does so once in a process, guarded by a static flag;
  registering the same commands again changes nothing.
\<close>

definition builtin_registrations :: "builtin registrations" where
  "builtin_registrations hs cm = (if (OnLoad, ''docker'') \<in> set hs then register_docker_commands cm else cm)"

definition builtin_offer :: "builtin menu_offer" where
  "builtin_offer cm b ev c = Some
     (case b of
        Main i \<Rightarrow>
          (case main_menu_event cm set_status_message (ev_named (ae_key ev)) (i, c) of
             (taken, i', c') \<Rightarrow> (taken, if i' = i then c' else put_top (Main i') c'))
      | Docker out m \<Rightarrow>
          (case handle_event (os_what out) (os_db out) (ae_key ev) (m, screen_of c) of
             (taken, m', s) \<Rightarrow> (taken, put_screen s (put_top (Docker out m') c))))"

section \<open>Runs\<close>

definition start_builtin :: "environment \<Rightarrow> config_data option \<Rightarrow> outside option \<Rightarrow> builtin tui_app" where
  "start_builtin env cfg store = start_app builtin_class env cfg (builtin_menus store)"

definition with_outside :: "outside \<Rightarrow> builtin \<Rightarrow> builtin" where
  "with_outside out b = (case b of Main i \<Rightarrow> Main i | Docker _ m \<Rightarrow> Docker out m)"

definition change_outside :: "outside \<Rightarrow> builtin menu_manager \<Rightarrow> builtin menu_manager" where
  "change_outside out mn =
     mn\<lparr>mn_factories := map (apsnd (map_option (with_outside out))) (mn_factories mn),
        mn_stack := map (\<lambda>e. e\<lparr>me_menu := map_option (with_outside out) (me_menu e)\<rparr>) (mn_stack mn)\<rparr>"

inductive builtin_step :: "builtin tui_app \<Rightarrow> builtin tui_app \<Rightarrow> bool" where
  bs_input: "builtin_step a (snd (on_input builtin_offer builtin_registrations now ev a))"
| bs_outside: "builtin_step a (a\<lparr>ap_ctx := (ap_ctx a)\<lparr>tc_menus := change_outside out (tc_menus (ap_ctx a))\<rparr>\<rparr>)"

inductive_cases builtin_stepE: "builtin_step a b"

section \<open>The invariant of the menus\<close>

text \<open>
  A menu on the top of the stack is shown: a dashboard has its keys bound. A menu below was left: a dashboard has no
  bindings of its own in the table and its saved state is its state.
\<close>

fun shown_ok :: "key_table \<Rightarrow> builtin \<Rightarrow> bool" where
  "shown_ok kt (Main i) \<longleftrightarrow> 0 \<le> i \<and> i < 5"
| "shown_ok kt (Docker out m) \<longleftrightarrow> menu_ok m \<and> dm_ctx m \<and> dm_bindings_active m \<and>
     (\<forall>b\<in>set docker_bindings. find_binding kt (binding_id b) = Some b)"

fun left_ok :: "menu_state \<Rightarrow> builtin \<Rightarrow> bool" where
  "left_ok st (Main i) \<longleftrightarrow> 0 \<le> i \<and> i < 5"
| "left_ok st (Docker out m) \<longleftrightarrow> menu_ok m \<and> dm_ctx m \<and> \<not> dm_bindings_active m \<and> st = save_state m"

fun fresh_ok :: "string \<Rightarrow> builtin \<Rightarrow> bool" where
  "fresh_ok i (Main k) \<longleftrightarrow> 0 \<le> k \<and> k < 5"
| "fresh_ok i (Docker out m) \<longleftrightarrow> i = ''docker'' \<and> m = builtin_docker_menu"

definition left_entry :: "builtin menu_entry \<Rightarrow> bool" where
  "left_entry e \<longleftrightarrow> (\<exists>b. me_menu e = Some b \<and> left_ok (me_saved_state e) b)"

definition shown_entry :: "key_table \<Rightarrow> builtin menu_entry \<Rightarrow> bool" where
  "shown_entry kt e \<longleftrightarrow> (\<exists>b. me_menu e = Some b \<and> shown_ok kt b)"

definition is_dashboard :: "builtin menu_entry \<Rightarrow> bool" where
  "is_dashboard e \<longleftrightarrow> (\<exists>out m. me_menu e = Some (Docker out m))"

definition factories_ok :: "builtin menu_manager \<Rightarrow> bool" where
  "factories_ok mn \<longleftrightarrow> (\<forall>i f. map_get (mn_factories mn) i = Some f \<longrightarrow> (\<exists>b. f = Some b \<and> fresh_ok i b))"

definition stack_ok :: "key_table \<Rightarrow> builtin menu_entry list \<Rightarrow> bool" where
  "stack_ok kt es \<longleftrightarrow> es = [] \<or> list_all left_entry (butlast es) \<and> shown_entry kt (last es)"

definition loads_logged :: "builtin menu_manager \<Rightarrow> bool" where
  "loads_logged mn \<longleftrightarrow> ((\<exists>e\<in>set (mn_stack mn). is_dashboard e) \<longrightarrow> (OnLoad, ''docker'') \<in> set (mn_hooks mn))"

definition builtin_menus_ok :: "builtin menu_manager \<Rightarrow> bool" where
  "builtin_menus_ok mn \<longleftrightarrow> factories_ok mn \<and> loads_logged mn \<and>
     (\<exists>modes sc. mn_ctx mn = Some (modes, sc) \<and> stack_ok (sc_keys sc) (mn_stack mn))"

text \<open>The manager as it sees the context.\<close>

definition seen_menus :: "builtin tui_context \<Rightarrow> builtin menu_manager" where
  "seen_menus c = (tc_menus c)\<lparr>mn_ctx := map_option (\<lambda>_. (tc_modes c, screen_of c)) (mn_ctx (tc_menus c))\<rparr>"

definition builtin_ok :: "builtin tui_context \<Rightarrow> bool" where
  "builtin_ok c \<longleftrightarrow> context_ok c \<and> builtin_menus_ok (seen_menus c)"

section \<open>Hooks\<close>

lemma class_simps [simp]:
  "mc_preserve_state builtin_class b" "mc_build builtin_class (Main i) = Main i"
  "mc_build builtin_class (Docker out m) = Docker out (menu_build m)"
  "mc_save_state builtin_class (Docker out m) = save_state m"
  "mc_on_load builtin_class (Main i, s) = (Main i, s)" "mc_on_unload builtin_class (Main i, s) = (Main i, s)"
  "mc_on_resume builtin_class (Main i, s) = (Main i, s)" "mc_restore_state builtin_class st (Main i) = Main i"
  by (simp_all add: builtin_class_def on_dashboard_def)

lemma keys_ok_shown: "keys_ok True (m, s) \<Longrightarrow> menu_ok m \<Longrightarrow> shown_ok (sc_keys s) (Docker out m)"
  by (simp add: keys_ok_def)

lemma loaded_shown:
  assumes "fresh_ok i b"
  shows "shown_ok (sc_keys (snd (mc_on_load builtin_class (mc_build builtin_class b, s))))
    (fst (mc_on_load builtin_class (mc_build builtin_class b, s)))"
proof (cases b)
  case (Docker out m)
  have "dashboard_ok (True, fst (on_load (os_what out) (os_popen out) (os_db out) ((menu_build builtin_docker_menu, s), False, [])))"
    unfolding builtin_docker_menu_def by (rule loaded_ok)
  then show ?thesis using assms Docker
    by (simp add: builtin_class_def on_dashboard_def dashboard_ok_def case_prod_beta keys_ok_def)
qed (use assms in simp)

lemma unloaded_dashboard:
  "menu_ok m \<Longrightarrow> dm_ctx m \<Longrightarrow> left_ok (save_state m) (Docker out (fst (on_unload (m, s))))"
  using on_unload_ok [of "(m, s)"]
  by (simp add: on_unload_def unregister_key_bindings_def save_state_def)

lemma unloaded_left:
  assumes "shown_entry kt e"
  shows "left_entry (fst (unload_entry builtin_class (save_entry builtin_class e) (Some (modes, s))))"
proof -
  obtain b where b: "me_menu e = Some b" "shown_ok kt b" using assms by (auto simp: shown_entry_def)
  show ?thesis
  proof (cases b)
    case (Docker out m)
    have "mc_on_unload builtin_class (Docker out m, s) = (Docker out (fst (on_unload (m, s))), snd (on_unload (m, s)))"
      by (simp add: builtin_class_def on_dashboard_def case_prod_beta)
    then show ?thesis using b unloaded_dashboard [of m out s] Docker
      by (simp add: left_entry_def unload_entry_def save_entry_def)
  qed (use b in \<open>simp add: left_entry_def unload_entry_def save_entry_def\<close>)
qed

lemma resumed_dashboard:
  assumes "menu_ok m" "dm_ctx m" "\<not> dm_bindings_active m"
  shows "shown_ok (sc_keys (snd (on_resume what c (m, s)))) (Docker out (fst (on_resume what c (m, s))))"
proof -
  have "same_keys (register_key_bindings (m, s)) (on_resume what c (m, s))"
    by (simp add: on_resume_def Let_def same_keys_after same_keys_refresh)
  then have "keys_ok True (on_resume what c (m, s))" using register_keys [OF assms(2,3)] by (simp add: keys_ok_same)
  then show ?thesis using menu_ok_return [OF assms(1)] by (simp add: keys_ok_def)
qed

lemma resumed_shown:
  assumes "left_entry e"
  shows "\<exists>sc. fst (snd (resume_entry builtin_class e (Some (modes, s)))) = Some (modes, sc) \<and>
    shown_entry (sc_keys sc) (fst (resume_entry builtin_class e (Some (modes, s))))"
proof -
  obtain b where b: "me_menu e = Some b" "left_ok (me_saved_state e) b" using assms by (auto simp: left_entry_def)
  show ?thesis
  proof (cases b)
    case (Docker out m)
    then have m: "menu_ok m" "dm_ctx m" "\<not> dm_bindings_active m" "me_saved_state e = save_state m" using b by simp_all
    have "mc_restore_state builtin_class (save_state m) (Docker out m) = Docker out m"
      using return_ok [OF m(1)] by (auto simp: builtin_class_def split: option.split)
    moreover have "mc_on_resume builtin_class (Docker out m, s) =
        (Docker out (fst (on_resume (os_what out) (os_db out) (m, s))), snd (on_resume (os_what out) (os_db out) (m, s)))"
      by (simp add: builtin_class_def on_dashboard_def case_prod_beta)
    ultimately show ?thesis using b Docker m(4) resumed_dashboard [OF m(1-3), of "os_what out" "os_db out" s out]
      by (simp add: resume_entry_def Let_def shown_entry_def)
  qed (use b in \<open>simp add: resume_entry_def Let_def shown_entry_def\<close>)
qed

section \<open>The manager's operations\<close>

lemma is_dashboard_ops [simp]:
  "is_dashboard (fst (unload_entry builtin_class (save_entry builtin_class e) (Some (modes, s)))) = is_dashboard e"
  "is_dashboard (fst (resume_entry builtin_class e (Some (modes, s)))) = is_dashboard e"
  by (auto simp: is_dashboard_def unload_entry_def resume_entry_def save_entry_def Let_def builtin_class_def on_dashboard_def
      split: option.splits builtin.splits prod.splits)

lemma update_mode_builtin: "builtin_menus_ok (update_mode_for_active_menu mn) = builtin_menus_ok mn"
  by (auto simp: builtin_menus_ok_def factories_ok_def loads_logged_def)

lemma leave_top_left:
  assumes "builtin_menus_ok mn"
  shows "list_all left_entry (mn_stack (leave_top builtin_class mn)) \<and>
    (\<exists>e\<in>set (mn_stack (leave_top builtin_class mn)). is_dashboard e) = (\<exists>e\<in>set (mn_stack mn). is_dashboard e) \<and>
    (\<exists>modes sc. mn_ctx (leave_top builtin_class mn) = Some (modes, sc)) \<and>
    set (mn_hooks mn) \<subseteq> set (mn_hooks (leave_top builtin_class mn))"
proof -
  obtain modes sc where c: "mn_ctx mn = Some (modes, sc)" and st: "stack_ok (sc_keys sc) (mn_stack mn)"
    using assms by (auto simp: builtin_menus_ok_def)
  show ?thesis
  proof (cases "mn_stack mn" rule: rev_cases)
    case (snoc es e)
    have "list_all left_entry es" "shown_entry (sc_keys sc) e" using st snoc by (simp_all add: stack_ok_def)
    moreover have "\<exists>modes' sc'. mn_ctx (leave_top builtin_class mn) = Some (modes', sc')"
      using leave_top_fields(3) [of builtin_class mn] c by (auto simp del: leave_top_fields)
    ultimately show ?thesis using c snoc unloaded_left [of "sc_keys sc" e modes sc] by auto
  qed (use c in simp)
qed

lemma load_builtin:
  assumes "builtin_menus_ok mn"
  shows "builtin_menus_ok (snd (Tui_Menus.load builtin_class i mn))"
proof (cases "map_get (mn_factories mn) i")
  case None
  then show ?thesis using assms by (simp add: load_cases)
next
  case (Some f)
  define mn1 where "mn1 = leave_top builtin_class mn"
  obtain b where f: "f = Some b" "fresh_ok i b" using Some assms by (auto simp: builtin_menus_ok_def factories_ok_def)
  obtain modes sc where c: "mn_ctx mn1 = Some (modes, sc)" and l: "list_all left_entry (mn_stack mn1)"
    and d: "(\<exists>e\<in>set (mn_stack mn1). is_dashboard e) = (\<exists>e\<in>set (mn_stack mn). is_dashboard e)"
    and h: "set (mn_hooks mn) \<subseteq> set (mn_hooks mn1)"
    using leave_top_left [OF assms] unfolding mn1_def by blast
  let ?x = "mc_on_load builtin_class (mc_build builtin_class b, sc)"
  let ?e = "\<lparr>me_menu = Some (fst ?x), me_saved_state = [], me_menu_id = i\<rparr>"
  obtain x where "mn_ctx mn = Some x" using assms by (auto simp: builtin_menus_ok_def)
  then have eq: "snd (Tui_Menus.load builtin_class i mn) = update_mode_for_active_menu (mn1\<lparr>mn_ctx := Some (modes, snd ?x),
      mn_hooks := mn_hooks mn1 @ [(OnLoad, i)], mn_stack := mn_stack mn1 @ [?e], mn_forward_stack := []\<rparr>)"
    using Some f(1) c by (simp add: load_cases Let_def mn1_def [symmetric] loaded_menu_def)
  have "is_dashboard ?e \<Longrightarrow> i = ''docker''"
    using f(2) by (cases b) (auto simp: is_dashboard_def builtin_class_def on_dashboard_def)
  then have "loads_logged (mn1\<lparr>mn_ctx := Some (modes, snd ?x),
      mn_hooks := mn_hooks mn1 @ [(OnLoad, i)], mn_stack := mn_stack mn1 @ [?e], mn_forward_stack := []\<rparr>)"
    using assms d h by (auto simp: builtin_menus_ok_def loads_logged_def)
  moreover have "shown_entry (sc_keys (snd ?x)) ?e" using loaded_shown [OF f(2), of sc] by (simp add: shown_entry_def)
  moreover have "factories_ok mn1" using assms by (simp add: mn1_def builtin_menus_ok_def factories_ok_def)
  ultimately show ?thesis unfolding eq update_mode_builtin using l
    by (simp add: builtin_menus_ok_def stack_ok_def factories_ok_def)
qed

lemma back_builtin:
  assumes "builtin_menus_ok mn"
  shows "builtin_menus_ok (snd (menu_back builtin_class mn))"
proof (cases "length (mn_stack mn) \<le> 1")
  case True
  then show ?thesis using assms by (simp add: menu_back_def)
next
  case False
  then obtain es e e' where s: "mn_stack mn = es @ [e, e']"
    by (cases "mn_stack mn" rule: rev_cases; cases "butlast (mn_stack mn)" rule: rev_cases) auto
  obtain modes sc where c: "mn_ctx mn = Some (modes, sc)" and st: "stack_ok (sc_keys sc) (mn_stack mn)"
    using assms by (auto simp: builtin_menus_ok_def)
  have l: "list_all left_entry es" "left_entry e" "shown_entry (sc_keys sc) e'"
    using st s by (simp_all add: stack_ok_def butlast_append)
  obtain modes1 sc1 where c1: "fst (snd (unload_entry builtin_class (save_entry builtin_class e') (Some (modes, sc)))) = Some (modes1, sc1)"
    by (metis option.exhaust option.distinct(1) surj_pair unload_entry_fields(5))
  let ?r = "resume_entry builtin_class e (Some (modes1, sc1))"
  obtain sc2 where r: "fst (snd ?r) = Some (modes1, sc2)" "shown_entry (sc_keys sc2) (fst ?r)"
    using resumed_shown [OF l(2), of modes1 sc1] by blast
  show ?thesis unfolding back_cases [OF s refl] snd_conv update_mode_builtin c c1
    using assms l(1) r s by (auto simp: builtin_menus_ok_def stack_ok_def factories_ok_def loads_logged_def)
qed

lemma forward_builtin:
  assumes "builtin_menus_ok mn"
  shows "builtin_menus_ok (snd (forward builtin_class mn))"
proof -
  have fwd: "builtin_menus_ok (mn'\<lparr>mn_forward_stack := x\<rparr>) = builtin_menus_ok mn'" for mn' x
    by (simp add: builtin_menus_ok_def factories_ok_def loads_logged_def)
  have "builtin_menus_ok (snd (Tui_Menus.load builtin_class i (mn\<lparr>mn_forward_stack := x\<rparr>)))" for i x
    by (rule load_builtin) (simp add: fwd assms)
  then show ?thesis using assms by (auto simp: forward_def Let_def case_prod_beta update_mode_builtin fwd)
qed

lemma clear_builtin:
  assumes "builtin_menus_ok mn"
  shows "builtin_menus_ok (clear_stack builtin_class mn)"
proof -
  obtain modes sc where c: "mn_ctx mn = Some (modes, sc)" using assms by (auto simp: builtin_menus_ok_def)
  have "map_option fst (fst (unload_all builtin_class (mn_stack mn) (mn_ctx mn))) = Some modes" using c by simp
  then obtain sc' where "fst (unload_all builtin_class (mn_stack mn) (mn_ctx mn)) = Some (modes, sc')"
    unfolding map_option_eq_Some by (metis prod.collapse)
  then show ?thesis using assms
    by (simp add: clear_stack_def case_prod_beta update_mode_builtin)
      (simp add: builtin_menus_ok_def stack_ok_def factories_ok_def loads_logged_def)
qed

section \<open>Commands\<close>

lemma with_menus_builtin:
  assumes "builtin_menus_ok (seen_menus c)" "\<And>mn. builtin_menus_ok mn \<Longrightarrow> builtin_menus_ok (snd (f mn))"
  shows "builtin_menus_ok (seen_menus (snd (with_menus f c)))"
proof -
  obtain b mn' where f: "f (seen_menus c) = (b, mn')" by fastforce
  have ok: "builtin_menus_ok mn'" using assms(2) [OF assms(1)] f by simp
  then obtain modes sc where c: "mn_ctx mn' = Some (modes, sc)" by (auto simp: builtin_menus_ok_def)
  have "snd (with_menus f c) = put_screen sc (c\<lparr>tc_menus := mn', tc_modes := modes\<rparr>)"
    using f c by (simp add: with_menus_def Let_def seen_menus_def)
  then show ?thesis using ok c
    by (simp add: seen_menus_def put_screen_def screen_of_def builtin_menus_ok_def factories_ok_def loads_logged_def)
qed

text \<open>Commands that touch neither the menus nor the keys.\<close>

definition same_menus :: "builtin tui_context \<Rightarrow> builtin tui_context \<Rightarrow> bool" where
  "same_menus c c' \<longleftrightarrow> tc_menus c' = tc_menus c \<and> tc_keys c' = tc_keys c"

lemma same_menus_ok:
  assumes "same_menus c c'" "builtin_menus_ok (seen_menus c)"
  shows "builtin_menus_ok (seen_menus c')"
proof -
  from assms(1) have "tc_menus c' = tc_menus c" "tc_keys c' = tc_keys c" by (simp_all add: same_menus_def)
  with assms(2) show ?thesis
    by (auto simp: seen_menus_def screen_of_def builtin_menus_ok_def factories_ok_def loads_logged_def)
qed

lemma same_menus_simps [simp]:
  "same_menus c (snd (report a b r)) = same_menus c (snd r)" "same_menus c c"
  "same_menus c (set_status_message msg c') = same_menus c c'" "same_menus c (put_window i w c') = same_menus c c'"
  by (simp_all add: report_def same_menus_def set_status_message_def put_window_def case_prod_beta)

lemma on_active_same [simp]: "same_menus c (snd (on_active m f a b c))"
  by (simp add: on_active_def case_prod_beta split: option.split)

lemmas window_command_defs =
  cmd_new_window_def cmd_kill_window_def cmd_next_window_def cmd_previous_window_def cmd_last_window_def cmd_rename_window_def
  cmd_split_def cmd_kill_pane_def cmd_save_layout_def cmd_restore_layout_def cmd_toggle_zoom_def cmd_navigate_def
  cmd_enter_mode_def cmd_quit_def cmd_help_def cmd_menus_def

lemma window_operations_same:
  "same_menus c (snd (create_window sh c))" "same_menus c (snd (close_active_window c))" "same_menus c (snd (focus_next_window c))"
  "same_menus c (snd (focus_previous_window c))" "same_menus c (snd (focus_last_window c))" "same_menus c (put_window i w c)"
  by (auto simp: same_menus_def create_window_def close_active_window_def close_window_def focus_next_window_def
      focus_previous_window_def focus_last_window_def put_window_def Let_def split: option.split)

lemma window_commands_same:
  "same_menus c (snd (cmd_new_window c args))" "same_menus c (snd (cmd_kill_window c args))"
  "same_menus c (snd (cmd_next_window c args))" "same_menus c (snd (cmd_previous_window c args))"
  "same_menus c (snd (cmd_last_window c args))" "same_menus c (snd (cmd_rename_window c args))"
  "same_menus c (snd (cmd_split d m c args))" "same_menus c (snd (cmd_kill_pane c args))"
  "same_menus c (snd (cmd_save_layout c args))" "same_menus c (snd (cmd_restore_layout c args))"
  "same_menus c (snd (cmd_toggle_zoom c args))" "same_menus c (snd (cmd_navigate x m c args))"
  "same_menus c (snd (cmd_enter_mode md msg c args))" "same_menus c (snd (cmd_quit c args))"
  "same_menus c (snd (cmd_help c args))" "same_menus c (snd (cmd_menus c args))"
  by (auto simp: window_command_defs window_operations_same case_prod_beta split: option.split list.split)
    (simp_all add: same_menus_def)

lemma menu_commands_builtin:
  assumes "builtin_menus_ok (seen_menus c)"
  shows "builtin_menus_ok (seen_menus (snd (cmd_load builtin_class c args)))"
    "builtin_menus_ok (seen_menus (snd (cmd_back builtin_class c args)))"
    "builtin_menus_ok (seen_menus (snd (cmd_forward builtin_class c args)))"
    "builtin_menus_ok (seen_menus (snd (cmd_home builtin_class c args)))"
proof -
  have status: "builtin_menus_ok (seen_menus (set_status_message msg c')) = builtin_menus_ok (seen_menus c')" for msg c'
    by (auto simp: seen_menus_def screen_of_def set_status_message_def builtin_menus_ok_def factories_ok_def loads_logged_def)
  have rep: "builtin_menus_ok (seen_menus (snd (report a b r))) = builtin_menus_ok (seen_menus (snd r))" for a b r
    by (simp add: report_def case_prod_beta status)
  show "builtin_menus_ok (seen_menus (snd (cmd_load builtin_class c args)))"
    using assms with_menus_builtin [OF assms load_builtin] by (simp add: cmd_load_def status rep split: list.split)
  show "builtin_menus_ok (seen_menus (snd (cmd_back builtin_class c args)))"
    using with_menus_builtin [OF assms back_builtin] by (simp add: cmd_back_def rep)
  show "builtin_menus_ok (seen_menus (snd (cmd_forward builtin_class c args)))"
    using with_menus_builtin [OF assms forward_builtin] by (simp add: cmd_forward_def rep)
  show "builtin_menus_ok (seen_menus (snd (cmd_home builtin_class c args)))"
    using with_menus_builtin [OF assms, of "\<lambda>mn. (True, clear_stack builtin_class mn)"] by (simp add: cmd_home_def status clear_builtin)
qed

lemma builtin_commands_menus:
  "\<forall>f\<in>set (map (snd \<circ> snd) (builtin_commands builtin_class)). \<forall>c args.
     builtin_menus_ok (seen_menus c) \<longrightarrow> builtin_menus_ok (seen_menus (snd (f c args)))"
  by (simp add: builtin_commands_def menu_commands_builtin same_menus_ok [OF window_commands_same(1)]
      same_menus_ok [OF window_commands_same(2)] same_menus_ok [OF window_commands_same(3)] same_menus_ok [OF window_commands_same(4)]
      same_menus_ok [OF window_commands_same(5)] same_menus_ok [OF window_commands_same(6)] same_menus_ok [OF window_commands_same(7)]
      same_menus_ok [OF window_commands_same(8)] same_menus_ok [OF window_commands_same(9)]
      same_menus_ok [OF window_commands_same(10)] same_menus_ok [OF window_commands_same(11)]
      same_menus_ok [OF window_commands_same(12)] same_menus_ok [OF window_commands_same(13)]
      same_menus_ok [OF window_commands_same(14)] same_menus_ok [OF window_commands_same(15)]
      same_menus_ok [OF window_commands_same(16)])

lemma builtin_command_menus:
  "(name, desc, f) \<in> set (builtin_commands builtin_class) \<Longrightarrow> builtin_ok c \<Longrightarrow> builtin_ok (snd (f c args))"
  using builtin_commands_menus builtin_command_ok [of name desc f builtin_class c args] by (force simp: builtin_ok_def)

lemma initial_commands_keep: "commands_keep builtin_ok (snd (initialize builtin_class c0 []))"
proof -
  have "builtin_ok (snd (execute (snd (initialize builtin_class c0 [])) c name args))" if c: "builtin_ok c" for c name args
  proof (cases "map_of (builtin_commands builtin_class) name")
    case (Some x)
    obtain desc f where x: "x = (desc, f)" by (cases x)
    then have "builtin_ok (snd (f c args))" using Some c by (blast dest: map_of_SomeD intro: builtin_command_menus)
    then show ?thesis using Some x by (simp add: execute_builtin case_prod_beta)
  qed (simp add: execute_builtin, use c in \<open>simp add: execute_def\<close>)
  then show ?thesis by (simp add: commands_keep_def)
qed

text \<open>A menu on the top changes and writes a message, the bindings stay.\<close>

lemma put_top_ok:
  assumes "builtin_ok c" "current_menu (tc_menus c) = Some b0"
    and "\<And>kt. shown_ok kt b0 \<Longrightarrow> shown_ok kt b" "\<And>out m. b = Docker out m \<Longrightarrow> \<exists>out' m'. b0 = Docker out' m'"
  shows "builtin_ok (put_top b c)"
proof -
  obtain es e where st: "mn_stack (tc_menus c) = es @ [e]" "me_menu e = Some b0"
    using assms(2) by (cases "mn_stack (tc_menus c)" rule: rev_cases) (auto simp: current_menu_def)
  let ?e = "e\<lparr>me_menu := Some b\<rparr>"
  have mn: "tc_menus (put_top b c) = (tc_menus c)\<lparr>mn_stack := es @ [?e]\<rparr>" using st by (simp add: put_top_def)
  have "menus_ok (tc_menus (put_top b c)) = menus_ok (tc_menus c)"
    using st by (simp add: mn menus_ok_def is_registered_def stack_ids_def)
  then have "context_ok (put_top b c)" using assms(1)
    by (simp add: builtin_ok_def context_ok_def windows_ok_def put_top_def)
  moreover have "is_dashboard ?e \<Longrightarrow> is_dashboard e" using assms(4) st(2) by (auto simp: is_dashboard_def)
  then have "builtin_menus_ok (seen_menus (put_top b c))" using assms(1,3) st
    by (auto simp: builtin_ok_def builtin_menus_ok_def seen_menus_def mn screen_of_def put_top_def stack_ok_def
        shown_entry_def factories_ok_def loads_logged_def)
  ultimately show ?thesis by (simp add: builtin_ok_def)
qed

lemma put_screen_ok:
  assumes "builtin_ok c" "sc_keys s = tc_keys c"
  shows "builtin_ok (put_screen s c)"
  using assms same_menus_ok [of c "put_screen s c"] by (simp add: builtin_ok_def same_menus_def) (simp add: put_screen_def)

lemma shown_same_keys: "shown_ok kt (Docker out m) \<Longrightarrow> same_keys (m, s) (m', s') \<Longrightarrow> menu_ok m' \<Longrightarrow> shown_ok kt (Docker out' m')"
  by (simp add: same_keys_def)

lemma shown_menu_ok: "builtin_ok c \<Longrightarrow> current_menu (tc_menus c) = Some b \<Longrightarrow> shown_ok (tc_keys c) b"
  by (auto simp: builtin_ok_def builtin_menus_ok_def stack_ok_def seen_menus_def current_menu_def shown_entry_def screen_of_def
      split: if_splits)

text \<open>A dashboard on the top and the screen change together.\<close>

lemma dashboard_put_ok:
  assumes "builtin_ok c" "current_menu (tc_menus c) = Some (Docker out m)"
    and "same_keys (m, screen_of c) (m', s)" "menu_ok m'"
  shows "builtin_ok (put_screen s (put_top (Docker out m') c))"
proof (rule put_screen_ok)
  show "builtin_ok (put_top (Docker out m') c)"
    by (rule put_top_ok [OF assms(1,2)]) (use shown_same_keys [OF _ assms(3,4)] in auto)
  show "sc_keys s = tc_keys (put_top (Docker out m') c)"
    using assms(3) by (simp add: same_keys_def screen_of_def put_top_def)
qed

lemma dashboard_command_ok:
  assumes "menu_ok (fst d)"
  shows "menu_ok (fst (snd (dashboard_command name out d)))" "same_keys d (snd (dashboard_command name out d))"
  using assms command_ok [of name _ _ "os_what out" "os_popen out" "os_db out" d]
    command_keys [of name _ _ "os_what out" "os_popen out" "os_db out" d]
  by (auto simp: dashboard_command_def split: option.split dest!: map_of_SomeD)

lemma run_dashboard_command_ok:
  assumes "builtin_ok c"
  shows "builtin_ok (snd (run_dashboard_command name c args))"
proof (cases "active_dashboard c")
  case None
  have "builtin_ok (put_screen ((screen_of c)\<lparr>sc_status := msg\<rparr>) c)" for msg
    by (rule put_screen_ok [OF assms]) (simp add: screen_of_def)
  then show ?thesis using None by (simp add: run_dashboard_command_def make_handler_def)
next
  case (Some x)
  obtain out m where x: "x = (out, m)" by (cases x)
  have cur: "current_menu (tc_menus c) = Some (Docker out m)"
    using Some x by (auto simp: active_dashboard_def split: option.splits builtin.splits)
  have m: "menu_ok (fst (m, screen_of c))" using shown_menu_ok [OF assms cur] by simp
  obtain r m' s where d: "dashboard_command name out (m, screen_of c) = (r, m', s)" by (metis prod.exhaust)
  show ?thesis using dashboard_put_ok [OF assms cur, of m' s] dashboard_command_ok [OF m, of name out] Some x d
    by (simp add: run_dashboard_command_def make_handler_def)
qed

lemma docker_command_names_ok: "list_all (\<lambda>x. fst x \<noteq> []) docker_command_names"
  using docker_commands_names(1) [of "[]" "\<lambda>_. None" fresh_db] by (auto simp: docker_command_names_def list_all_iff)

lemma register_simple_get:
  "map_get (snd (register_simple name desc (Some f) cm)) k =
     (if name \<noteq> [] \<and> k = name then Some \<lparr>cmd_name = name, cmd_description = desc, cmd_usage = name, cmd_func = Some f\<rparr>
      else map_get cm k)"
  by (simp add: register_simple_def register_command_def map_get_put)

lemma register_simple_keep:
  assumes "commands_keep good cm" "\<And>c args. good c \<Longrightarrow> good (snd (f c args))"
  shows "commands_keep good (snd (register_simple name desc (Some f) cm))"
proof -
  have "good (snd (execute (snd (register_simple name desc (Some f) cm)) c k args))" if "good c" for c k args
  proof (cases "name \<noteq> [] \<and> k = name")
    case True
    then show ?thesis using assms(2) [OF that] by (simp add: execute_def register_simple_get case_prod_beta split: option.split)
  next
    case False
    then have "map_get (snd (register_simple name desc (Some f) cm)) k = map_get cm k" by (auto simp: register_simple_get)
    then have "execute (snd (register_simple name desc (Some f) cm)) c k args = execute cm c k args" by (simp add: execute_def)
    then show ?thesis using assms(1) that by (simp add: commands_keep_def)
  qed
  then show ?thesis by (simp add: commands_keep_def)
qed

lemma builtin_registrations_ok: "registrations_ok builtin_ok builtin_registrations"
proof -
  have "commands_keep builtin_ok (fold (\<lambda>(name, desc) cm. snd (register_simple name desc (Some (run_dashboard_command name)) cm)) ns cm)"
    if "commands_keep builtin_ok cm" for ns cm
    using that by (induction ns arbitrary: cm) (auto intro: register_simple_keep run_dashboard_command_ok)
  then show ?thesis by (simp add: registrations_ok_def builtin_registrations_def register_docker_commands_def)
qed

lemma registered_names:
  assumes "list_all (\<lambda>x. fst x \<noteq> []) ns"
  shows "has_command (fold (\<lambda>(name, desc) cm. snd (register_simple name desc (Some (g name)) cm)) ns cm) k \<longleftrightarrow>
    k \<in> fst ` set ns \<or> has_command cm k"
  using assms by (induction ns arbitrary: cm) (auto simp: has_command_def register_simple_get split: if_splits)

lemma binding_command_registered:
  assumes "b \<in> set docker_bindings"
  shows "has_command (register_docker_commands cm) (kb_command b)"
proof -
  obtain desc f where "(kb_command b, desc, f) \<in> set (docker_commands [] (\<lambda>_. None) fresh_db)"
    using bindings_have_commands [OF assms] by blast
  then have "kb_command b \<in> fst ` set docker_command_names" by (force simp: docker_command_names_def)
  then show ?thesis unfolding register_docker_commands_def registered_names [OF docker_command_names_ok] by simp
qed

section \<open>Events\<close>

interpretation builtin: context_invariant builtin_ok
proof
  fix c :: "builtin tui_context" and msg m
  assume c: "builtin_ok c"
  have same: "builtin_menus_ok (seen_menus c')" if "same_menus c c'" for c'
    using c same_menus_ok [OF that] by (simp add: builtin_ok_def)
  show "builtin_ok (c\<lparr>tc_status := msg\<rparr>)" "builtin_ok (c\<lparr>tc_quit := True, tc_exit_loop := True\<rparr>)"
    using c same by (auto simp: builtin_ok_def same_menus_def consistent.good_status consistent.good_quit)
  assume "modes_ok (tc_modes c) \<Longrightarrow> modes_ok m"
  then show "builtin_ok (c\<lparr>tc_modes := m\<rparr>)"
    using c same by (auto simp: builtin_ok_def same_menus_def consistent.good_modes)
qed

lemma main_event_ok:
  assumes "builtin_ok c" "current_menu (tc_menus c) = Some (Main i)" "commands_keep builtin_ok cm"
    and "main_menu_event cm set_status_message key (i, c) = (taken, i', c')"
  shows "builtin_ok (if i' = i then c' else put_top (Main i') c')"
proof -
  have i: "0 \<le> i" "i < 5" using shown_menu_ok [OF assms(1,2)] by simp_all
  have "builtin_ok (Tui_Views.on_item_selected cm set_status_message i c)"
    using assms(1,3) builtin.good_status [OF assms(1)]
    by (simp add: Tui_Views.on_item_selected_def commands_keep_def set_status_message_def)
  moreover have "builtin_ok (put_top (Main j) c)" if "0 \<le> j" "j < 5" for j
    by (rule put_top_ok [OF assms(1,2)]) (use that in auto)
  ultimately show ?thesis using assms(1,4) i
    by (auto simp: main_menu_event_def menu_items_def split: if_splits)
qed

lemma builtin_offer_ok: "offer_ok builtin_ok builtin_offer"
proof -
  have "builtin_ok c'" if "commands_keep builtin_ok cm" "builtin_ok c" "current_menu (tc_menus c) = Some b"
    "builtin_offer cm b ev c = Some (t, c')" for cm b ev c t c'
  proof (cases b)
    case (Main i)
    obtain taken i' c1 where e: "main_menu_event cm set_status_message (ev_named (ae_key ev)) (i, c) = (taken, i', c1)"
      by (metis prod.exhaust)
    then show ?thesis using main_event_ok [OF that(2) _ that(1) e] that(3,4) Main by (simp add: builtin_offer_def)
  next
    case (Docker out m)
    let ?d = "(m, screen_of c)"
    obtain taken m' s where e: "handle_event (os_what out) (os_db out) (ae_key ev) ?d = (taken, m', s)" by (metis prod.exhaust)
    have "menu_ok (fst ?d)" using shown_menu_ok [OF that(2,3)] Docker by simp
    then have "menu_ok m'" "same_keys ?d (m', s)"
      using handle_event_ok [of ?d "os_what out" "os_db out" "ae_key ev"] handle_event_keys [of ?d "os_what out" "os_db out" "ae_key ev"]
      by (simp_all add: e)
    then show ?thesis using dashboard_put_ok [OF that(2) that(3) [unfolded Docker]] that(4) Docker e by (auto simp: builtin_offer_def)
  qed
  then show ?thesis by (auto simp: offer_ok_def)
qed

lemma outside_left: "left_ok st (with_outside out b) = left_ok st b" "shown_ok kt (with_outside out b) = shown_ok kt b"
    "fresh_ok i (with_outside out b) = fresh_ok i b" "(\<exists>o' m. with_outside out b = Docker o' m) = (\<exists>o' m. b = Docker o' m)"
  by (cases b; simp add: with_outside_def)+

lemma map_get_outside: "map_get (map (apsnd g) fs) i = map_option g (map_get fs i)"
  by (induction fs) (auto simp: map_get_def)

lemma outside_menus_ok: "menus_ok mn \<Longrightarrow> menus_ok (change_outside out mn)"
proof -
  have k: "map fst (map (apsnd g) fs) = map fst fs" for g :: "builtin option \<Rightarrow> builtin option" and fs :: "(string \<times> builtin option) list"
    by simp
  show "menus_ok mn \<Longrightarrow> menus_ok (change_outside out mn)"
    unfolding menus_ok_def change_outside_def is_registered_def std_map_wf_def stack_ids_def
    by (auto simp: map_get_outside k comp_def)
qed

lemma outside_entries:
  "left_entry (e\<lparr>me_menu := map_option (with_outside out) (me_menu e)\<rparr>) = left_entry e"
  "shown_entry kt (e\<lparr>me_menu := map_option (with_outside out) (me_menu e)\<rparr>) = shown_entry kt e"
  "is_dashboard (e\<lparr>me_menu := map_option (with_outside out) (me_menu e)\<rparr>) = is_dashboard e"
  by (auto simp: left_entry_def shown_entry_def is_dashboard_def outside_left)
    (metis builtin.distinct(1) builtin.exhaust with_outside_def builtin.simps(5,6))+

lemma outside_factories: "factories_ok mn \<Longrightarrow> factories_ok (change_outside out mn)"
  unfolding factories_ok_def change_outside_def
  by (simp add: map_get_outside) (metis option.map(2) outside_left(3))

lemma change_outside_fields [simp]:
  "mn_hooks (change_outside out mn) = mn_hooks mn" "mn_ctx (change_outside out mn) = mn_ctx mn"
  "mn_stack (change_outside out mn) = map (\<lambda>e. e\<lparr>me_menu := map_option (with_outside out) (me_menu e)\<rparr>) (mn_stack mn)"
  by (simp_all add: change_outside_def)

lemma outside_stack: "stack_ok kt (map (\<lambda>e. e\<lparr>me_menu := map_option (with_outside out) (me_menu e)\<rparr>) es) = stack_ok kt es"
  by (cases es rule: rev_cases) (simp_all add: stack_ok_def outside_entries list_all_iff)

lemma outside_builtin_menus: "builtin_menus_ok mn \<Longrightarrow> builtin_menus_ok (change_outside out mn)"
  by (auto simp: builtin_menus_ok_def loads_logged_def outside_factories outside_stack outside_entries)

lemma outside_ok:
  assumes "builtin_ok c"
  shows "builtin_ok (c\<lparr>tc_menus := change_outside out (tc_menus c)\<rparr>)"
proof -
  let ?c = "c\<lparr>tc_menus := change_outside out (tc_menus c)\<rparr>"
  have "context_ok ?c" using assms outside_menus_ok [of "tc_menus c" out] by (auto simp: builtin_ok_def context_ok_def windows_ok_def)
  moreover have "seen_menus ?c = change_outside out (seen_menus c)" by (simp add: seen_menus_def screen_of_def change_outside_def)
  ultimately show ?thesis using assms outside_builtin_menus by (simp add: builtin_ok_def)
qed

section \<open>Properties\<close>

definition docker_commands_known :: "builtin tui_app \<Rightarrow> bool" where
  "docker_commands_known a \<longleftrightarrow> ((OnLoad, ''docker'') \<in> set (mn_hooks (tc_menus (ap_ctx a))) \<longrightarrow>
     (\<forall>b\<in>set docker_bindings. has_command (ap_commands a) (kb_command b)))"

lemma builtin_step_ok:
  "app_ok builtin_ok a \<and> docker_commands_known a \<Longrightarrow> builtin_step a b \<Longrightarrow> app_ok builtin_ok b \<and> docker_commands_known b"
proof (erule builtin_stepE)
  fix now ev
  assume a: "app_ok builtin_ok a \<and> docker_commands_known a" and b: "b = snd (on_input builtin_offer builtin_registrations now ev a)"
  then have "app_ok builtin_ok b" using builtin.app_step_ok [OF builtin_offer_ok builtin_registrations_ok] as_input by blast
  moreover have "docker_commands_known b" unfolding b
    by (simp add: on_input_def docker_commands_known_def builtin_registrations_def binding_command_registered)
  ultimately show ?thesis by blast
qed (simp add: app_ok_def outside_ok docker_commands_known_def)

interpretation builtin_run: step_invariant builtin_step "\<lambda>a. app_ok builtin_ok a \<and> docker_commands_known a"
  by unfold_locales (rule builtin_step_ok)

lemma start_builtin_ok: "app_ok builtin_ok (start_builtin env cfg store) \<and> docker_commands_known (start_builtin env cfg store)"
proof -
  have h: "mn_hooks (tc_menus (ap_ctx (start_builtin env cfg store))) = []" "mn_stack (tc_menus (ap_ctx (start_builtin env cfg store))) = []"
    by (auto simp: start_builtin_def start_app_def initialize_def register_menus_def builtin_menus_def new_context_def
        new_menu_manager_def register_menu_def set_context_def split: option.split)
  have "factories_ok (seen_menus (ap_ctx (start_builtin env cfg store)))"
    by (auto simp: factories_ok_def seen_menus_def start_builtin_def start_app_def initialize_def register_menus_def builtin_menus_def
        new_context_def new_menu_manager_def register_menu_def set_context_def std_map_laws map_get_def split: option.splits if_splits)
  moreover have "\<exists>x. mn_ctx (tc_menus (ap_ctx (start_builtin env cfg store))) = Some x"
    by (simp add: start_builtin_def start_app_def initialize_def set_context_def)
  ultimately have "builtin_menus_ok (seen_menus (ap_ctx (start_builtin env cfg store)))"
    using h by (auto simp: builtin_menus_ok_def loads_logged_def stack_ok_def seen_menus_def)
  then have "builtin_ok (ap_ctx (start_builtin env cfg store))"
    by (simp add: builtin_ok_def) (simp add: start_builtin_def start_app_context)
  then show ?thesis using h initial_commands_keep
    by (simp add: app_ok_def docker_commands_known_def) (simp add: start_builtin_def start_app_commands sent_ok_def)
qed

text \<open>
  \<^bold>\<open>C2\<close> The running application with the menus it ships with: whatever keys are pressed at whatever times and however the
  database changes in between, as long as no pane was closed with undefined behaviour, the window list, its indices, all
  windows, the modes and the menu stack satisfy their invariants, and with at least one window there is always an active
  one. A main menu on top has one of its five items selected; a Docker dashboard on top has its selections in its lists, and
  all thirteen of its keys are bound in the key table to its commands, which the command manager knows.
\<close>

theorem app_invariant:
  assumes "builtin_step\<^sup>*\<^sup>* (start_builtin env cfg store) a" "\<not> tc_undefined (ap_ctx a)"
  shows "windows_ok (ap_ctx a) \<and> modes_ok (tc_modes (ap_ctx a)) \<and> menus_ok (tc_menus (ap_ctx a))
     \<and> (tc_windows (ap_ctx a) \<noteq> [] \<longrightarrow> (\<exists>i w. active_window (ap_ctx a) = Some (i, w) \<and> window_ok w))
     \<and> (case current_menu (tc_menus (ap_ctx a)) of
          None \<Rightarrow> True
        | Some (Main i) \<Rightarrow> 0 \<le> i \<and> i < 5
        | Some (Docker out m) \<Rightarrow> menu_ok m \<and> (\<forall>b\<in>set docker_bindings.
            find_binding (ap_keys a) (binding_id b) = Some b \<and> has_command (ap_commands a) (kb_command b)))"
proof -
  have ok: "app_ok builtin_ok a" "docker_commands_known a"
    using builtin_run.inv_steps [OF assms(1) start_builtin_ok] by simp_all
  then have b: "builtin_ok (ap_ctx a)" by (simp add: app_ok_def)
  then have c: "windows_ok (ap_ctx a)" "modes_ok (tc_modes (ap_ctx a))" "menus_ok (tc_menus (ap_ctx a))"
    using assms(2) by (auto simp: builtin_ok_def dest: context_okD)
  have known: "has_command (ap_commands a) (kb_command k)"
    if "current_menu (tc_menus (ap_ctx a)) = Some (Docker out m)" "k \<in> set docker_bindings" for out m k
  proof -
    have "last (mn_stack (tc_menus (ap_ctx a))) \<in> set (mn_stack (tc_menus (ap_ctx a)))"
      "is_dashboard (last (mn_stack (tc_menus (ap_ctx a))))"
      using that(1) by (auto simp: current_menu_def is_dashboard_def split: if_splits)
    then show ?thesis using b ok(2) that(2)
      by (auto simp: builtin_ok_def builtin_menus_ok_def loads_logged_def seen_menus_def docker_commands_known_def)
  qed
  show ?thesis using c active_window_exists [OF c(1)] shown_menu_ok [OF b] known
    by (auto split: option.split builtin.split)
qed

text \<open>A run: the dashboard is loaded from the command bar and gets an arrow key.\<close>

definition named_event :: "named_key \<Rightarrow> app_event" where
  "named_event k = \<lparr>ae_key = \<lparr>ev_named = Some k, ev_is_character = False, ev_character = []\<rparr>, ae_input = [], ae_custom = False\<rparr>"

definition press :: "app_event \<Rightarrow> builtin tui_app \<Rightarrow> builtin tui_app" where
  "press ev a = snd (on_input builtin_offer builtin_registrations 0 ev a)"

definition demo_start :: "builtin tui_app" where
  "demo_start = start_builtin (\<lambda>_. None) None (Some \<lparr>os_what = [], os_popen = (\<lambda>_. None), os_db = demo_two_servers\<rparr>)"

definition demo_run :: "builtin tui_app" where
  "demo_run = press (named_event ArrowDown) (press (named_event Return) (fold (press \<circ> char_event) '':load docker'' demo_start))"

lemma press_runs: "builtin_step\<^sup>*\<^sup>* a (press ev b)" if "builtin_step\<^sup>*\<^sup>* a b"
  unfolding press_def by (rule rtranclp.rtrancl_into_rtrancl [OF that bs_input])

lemma typed_runs: "builtin_step\<^sup>*\<^sup>* a (fold (press \<circ> char_event) cs b)" if "builtin_step\<^sup>*\<^sup>* a b"
  using that by (induction cs arbitrary: b) (simp_all add: press_runs)

lemma demo_run_reachable: "builtin_step\<^sup>*\<^sup>* demo_start demo_run"
  unfolding demo_run_def by (intro press_runs typed_runs) simp

lemma press_in_bar:
  assumes "ap_bar_active a" "isprint c" "\<not> mm_prefix_active (tc_modes (ap_ctx a))" "mn_hooks (tc_menus (ap_ctx a)) = []"
  shows "press (char_event c) a = a\<lparr>ap_bar_buffer := ap_bar_buffer a @ [c]\<rparr>"
  using assms by (simp add: press_def on_input_def handle_input_def no_timeout Let_def char_event_def bar_handle_event_def
      event_is_def builtin_registrations_def)

lemma type_in_bar:
  assumes "ap_bar_active a" "list_all isprint cs" "\<not> mm_prefix_active (tc_modes (ap_ctx a))" "mn_hooks (tc_menus (ap_ctx a)) = []"
  shows "fold (press \<circ> char_event) cs a = a\<lparr>ap_bar_buffer := ap_bar_buffer a @ cs\<rparr>"
  using assms
proof (induction cs arbitrary: a)
  case (Cons c cs)
  from Cons.IH [of "a\<lparr>ap_bar_buffer := ap_bar_buffer a @ [c]\<rparr>"] Cons.prems show ?case by (simp add: press_in_bar)
qed simp

lemma demo_start_fields:
  "ap_bar_active demo_start = False" "ap_saw_escape demo_start = False" "tc_modes (ap_ctx demo_start) = initial_modes"
  "mn_hooks (tc_menus (ap_ctx demo_start)) = []" "mn_stack (tc_menus (ap_ctx demo_start)) = []"
  "tc_undefined (ap_ctx demo_start) = False"
  "mn_ctx (tc_menus (ap_ctx demo_start)) = Some (initial_modes, screen_of (ap_ctx demo_start))"
  "ap_commands demo_start = snd (initialize builtin_class (ap_ctx demo_start) [])"
  "map_get (mn_factories (tc_menus (ap_ctx demo_start))) ''main'' = Some (Some (Main 0))"
  "map_get (mn_factories (tc_menus (ap_ctx demo_start))) ''docker'' =
     Some (Some (Docker \<lparr>os_what = [], os_popen = (\<lambda>_. None), os_db = demo_two_servers\<rparr> builtin_docker_menu))"
  by (simp_all add: demo_start_def start_builtin_def start_app_def initialize_def register_menus_def builtin_menus_def new_context_def
      new_menu_manager_def register_menu_def set_context_def std_map_laws map_get_def screen_of_def)

lemma handle_input_settled:
  assumes "\<not> mm_prefix_active (tc_modes (ap_ctx a))" "\<not> ap_saw_escape a" "\<not> ae_custom ev"
    "\<not> is_prefix_byte (ae_input ev)" "\<not> (ev_is_character (ae_key ev) \<and> is_prefix_byte (ev_character (ae_key ev)))" "\<not> event_is Escape ev"
  shows "handle_input offer now ev a =
    (if ap_bar_active a then bar_handle_event ev a
     else if ev_is_character (ae_key ev) \<and> ev_character (ae_key ev) = '':'' then (True, Tui_App.set_status ''Command mode'' (bar_activate a))
     else if mm_current (tc_modes (ap_ctx a)) = PREFIX then handle_prefix_input ev a
     else if mm_current (tc_modes (ap_ctx a)) = INSERT then handle_insert_input ev a
     else if mm_current (tc_modes (ap_ctx a)) = NORMAL then handle_normal_input offer ev a
     else (False, a))"
proof -
  have "set_modes (snd (check_prefix_timeout now (tc_modes (ap_ctx a)))) a = a" using assms(1) by (simp add: no_timeout)
  then show ?thesis unfolding handle_input_def Let_def using assms(2-6) by auto
qed

lemma initial_modes_fields: "mm_current initial_modes = INSERT" "\<not> mm_prefix_active initial_modes"
  by (simp_all add: initial_modes_def)

lemma typed_colon:
  "press (char_event (CHR '':'')) demo_start =
     demo_start\<lparr>ap_ctx := (ap_ctx demo_start)\<lparr>tc_status := ''Command mode''\<rparr>, ap_bar_active := True, ap_bar_buffer := []\<rparr>"
proof -
  have "handle_input builtin_offer 0 (char_event (CHR '':'')) demo_start = (True, Tui_App.set_status ''Command mode'' (bar_activate demo_start))"
    by (subst handle_input_settled) (simp_all add: demo_start_fields initial_modes_fields char_event_def is_prefix_byte_def event_is_def)
  then show ?thesis
    by (simp add: press_def on_input_def Tui_App.set_status_def set_status_message_def bar_activate_def builtin_registrations_def
        demo_start_fields)
qed

lemma demo_typed:
  "fold (press \<circ> char_event) '':load docker'' demo_start =
     demo_start\<lparr>ap_ctx := (ap_ctx demo_start)\<lparr>tc_status := ''Command mode''\<rparr>, ap_bar_active := True, ap_bar_buffer := ''load docker''\<rparr>"
proof -
  have "list_all isprint ''load docker''" by (simp add: isprint_def of_char_def)
  then have "fold (press \<circ> char_event) ''load docker'' (press (char_event (CHR '':'')) demo_start) =
      (press (char_event (CHR '':'')) demo_start)\<lparr>ap_bar_buffer := ap_bar_buffer (press (char_event (CHR '':'')) demo_start) @ ''load docker''\<rparr>"
    by (rule type_in_bar [rotated]) (simp_all add: typed_colon demo_start_fields initial_modes_fields)
  then show ?thesis by (simp add: typed_colon)
qed

lemma words_load_docker: "words ''load docker'' = [''load'', ''docker'']"
  using words_join [of "[''load'', ''docker'']" "'' ''"] by (simp add: isspace_def)

lemma execute_load:
  "execute (snd (initialize builtin_class c0 [])) c ''load'' args = (case cmd_load builtin_class c args of (r, c') \<Rightarrow> (r = Some True, c'))"
  by (simp add: execute_builtin builtin_commands_def)

lemma load_dashboard:
  assumes "mn_ctx (tc_menus c) \<noteq> None" "map_get (mn_factories (tc_menus c)) ''docker'' = Some (Some (Docker out m))"
    "\<not> mm_prefix_active (tc_modes c)"
  shows "\<exists>c' m'. cmd_load builtin_class c [''docker''] = (Some True, c') \<and> current_menu (tc_menus c') = Some (Docker out m')
    \<and> mm_current (tc_modes c') = NORMAL \<and> \<not> mm_prefix_active (tc_modes c') \<and> tc_undefined c' = tc_undefined c"
proof -
  let ?mn = "leave_top builtin_class ((tc_menus c)\<lparr>mn_ctx := Some (tc_modes c, screen_of c)\<rparr>)"
  obtain modes sc where seen: "mn_ctx ?mn = Some (modes, sc)" "modes = tc_modes c"
    using leave_top_fields(3,4) [of builtin_class "(tc_menus c)\<lparr>mn_ctx := Some (tc_modes c, screen_of c)\<rparr>"]
    by (auto simp: seen_modes_def simp del: leave_top_fields)
  obtain x where x: "mn_ctx (tc_menus c) = Some x" using assms(1) by blast
  have d: "fst (mc_on_load builtin_class (Docker out m1, s)) = Docker out (fst (fst (on_load (os_what out) (os_popen out) (os_db out) ((m1, s), False, []))))" for m1 s
    by (simp add: builtin_class_def on_dashboard_def case_prod_beta)
  show ?thesis using assms(2,3) seen x
    by (auto simp: cmd_load_def is_registered_def with_menus_def Let_def load_cases loaded_menu_def d report_def set_status_message_def
        put_screen_def current_menu_def enter_fields simp del: leave_top_fields)
qed

lemma demo_dashboard_shown:
  defines "a \<equiv> press (named_event Return) (fold (press \<circ> char_event) '':load docker'' demo_start)"
  shows "\<exists>out m. \<not> ap_bar_active a \<and> \<not> ap_saw_escape a \<and> mm_current (tc_modes (ap_ctx a)) = NORMAL
    \<and> \<not> mm_prefix_active (tc_modes (ap_ctx a)) \<and> current_menu (tc_menus (ap_ctx a)) = Some (Docker out m) \<and> \<not> tc_undefined (ap_ctx a)"
proof -
  define b where "b = demo_start\<lparr>ap_ctx := (ap_ctx demo_start)\<lparr>tc_status := ''Command mode''\<rparr>, ap_bar_active := True, ap_bar_buffer := ''load docker''\<rparr>"
  have h: "handle_input builtin_offer 0 (named_event Return) b = execute_buffer b"
    by (subst handle_input_settled)
      (simp_all add: b_def demo_start_fields initial_modes_fields named_event_def is_prefix_byte_def event_is_def bar_handle_event_def)
  obtain c' out m' where c': "cmd_load builtin_class (ap_ctx b) [''docker''] = (Some True, c')"
      "current_menu (tc_menus c') = Some (Docker out m')" "mm_current (tc_modes c') = NORMAL" "\<not> mm_prefix_active (tc_modes c')"
      "\<not> tc_undefined c'"
    using load_dashboard [of "ap_ctx b"] by (fastforce simp: b_def demo_start_fields initial_modes_fields)
  have "execute (ap_commands b) (ap_ctx b) ''load'' [''docker''] = (True, c')"
    using c'(1) by (simp add: b_def demo_start_fields execute_load)
  then have "execute_buffer b = (True, bar_deactivate (Tui_App.set_status ''Command: load'' (b\<lparr>ap_ctx := c'\<rparr>)))"
    by (simp add: execute_buffer_def b_def words_load_docker)
  then show ?thesis using c' h unfolding a_def demo_typed b_def [symmetric]
    by (simp add: press_def on_input_def bar_deactivate_def Tui_App.set_status_def set_status_message_def)
      (simp add: b_def demo_start_fields)
qed

lemma demo_run_shown: "\<exists>out m. current_menu (tc_menus (ap_ctx demo_run)) = Some (Docker out m) \<and> \<not> tc_undefined (ap_ctx demo_run)"
proof -
  define a where "a = press (named_event Return) (fold (press \<circ> char_event) '':load docker'' demo_start)"
  obtain out m where a: "\<not> ap_bar_active a" "\<not> ap_saw_escape a" "mm_current (tc_modes (ap_ctx a)) = NORMAL"
      "\<not> mm_prefix_active (tc_modes (ap_ctx a))" "current_menu (tc_menus (ap_ctx a)) = Some (Docker out m)" "\<not> tc_undefined (ap_ctx a)"
    using demo_dashboard_shown unfolding a_def by blast
  have h: "handle_input builtin_offer 0 (named_event ArrowDown) a = handle_normal_input builtin_offer (named_event ArrowDown) a"
    by (subst handle_input_settled) (use a in \<open>simp_all add: named_event_def is_prefix_byte_def event_is_def\<close>)
  obtain m' s where d: "arrow_down (m, screen_of (ap_ctx a)) = (m', s)" by fastforce
  let ?c = "put_screen s (put_top (Docker out m') (ap_ctx a))"
  have "builtin_offer cm (Docker out m) (named_event ArrowDown) (ap_ctx a) = Some (True, ?c)" for cm
    by (simp add: builtin_offer_def named_event_def handle_event_def d)
  then have "handle_normal_input builtin_offer (named_event ArrowDown) a = (True, a\<lparr>ap_ctx := ?c\<rparr>)"
    by (simp add: handle_normal_input_def a(5))
  moreover have "current_menu (tc_menus ?c) = Some (Docker out m')" "tc_undefined ?c = tc_undefined (ap_ctx a)"
    by (simp_all add: put_screen_def put_top_def current_menu_def)
  ultimately show ?thesis unfolding demo_run_def a_def [symmetric] using a(6) by (simp add: press_def on_input_def h)
qed

theorem app_invariant_witness:
  "\<exists>out m. current_menu (tc_menus (ap_ctx demo_run)) = Some (Docker out m) \<and> menu_ok m \<and>
     find_binding (ap_keys demo_run) (NORMAL, False, ''R'') = Some (docker_binding ''R'' ''docker-refresh'' ''Docker: refresh data'') \<and>
     has_command (ap_commands demo_run) ''docker-refresh''"
proof -
  let ?b = "docker_binding ''R'' ''docker-refresh'' ''Docker: refresh data''"
  have b: "?b \<in> set docker_bindings" "binding_id ?b = (NORMAL, False, ''R'')" "kb_command ?b = ''docker-refresh''"
    by (simp_all add: docker_bindings_def docker_binding_def binding_id_def)
  obtain out m where m: "current_menu (tc_menus (ap_ctx demo_run)) = Some (Docker out m)" "\<not> tc_undefined (ap_ctx demo_run)"
    using demo_run_shown by blast
  show ?thesis using app_invariant [OF demo_run_reachable [unfolded demo_start_def] m(2)] m(1) b by force
qed

end
