(* ===== verification/Tui_Reaper.thy ===== *)
theory Tui_Reaper
  imports Nazg_Prelude
begin

text \<open>
  Background destruction of closed panes: \<open>PaneReaper\<close> in
  \<open>modules/tui/include/tui/managers/pane_reaper.hpp\<close> and \<open>modules/tui/src/managers/pane_reaper.cpp\<close>.
  Every critical section of the mutex is one atomic step. The condition variable is modelled with
  what a program may rely on and no more: a worker whose predicate is false goes to sleep, and only
  \<open>notify_one\<close> or a spurious wakeup brings it back to check the predicate again. The callers notify
  after they have released the mutex, so between the two any other thread may run;
  \<open>rp_notifying\<close> counts the threads in that gap. \<open>rp_accepted\<close> and \<open>rp_destroyed\<close> record, in
  order, the panes the queue took and the panes the worker released; they are history, not state of
  the code.
\<close>

text \<open>
  Where the worker is: about to evaluate the predicate of \<open>cv_.wait\<close> under the lock, asleep in
  \<open>cv_.wait\<close>, releasing a pane with the lock released, or out of the loop.
\<close>

datatype 'p worker = Checking | Sleeping | Destroying 'p | Exited

record 'p reaper =
  rp_queue :: "'p list"
  rp_stop :: bool
  rp_worker :: "'p worker"
  rp_notifying :: nat
  rp_accepted :: "'p list"
  rp_destroyed :: "'p list"

section \<open>Operations\<close>

definition new_reaper :: "'p reaper" where
  "new_reaper = \<lparr>rp_queue = [], rp_stop = False, rp_worker = Checking, rp_notifying = 0,
     rp_accepted = [], rp_destroyed = []\<rparr>"

text \<open>
  The critical section of \<open>enqueue\<close>. The early returns leave before \<open>notify_one\<close>; the other path goes
  on to it.
\<close>

definition enqueue :: "'p option \<Rightarrow> 'p reaper \<Rightarrow> 'p reaper" where
  "enqueue pane r =
     (case pane of
        None \<Rightarrow> r
      | Some p \<Rightarrow>
          if rp_stop r then r
          else r\<lparr>rp_queue := queue_push p (rp_queue r), rp_notifying := Suc (rp_notifying r),
                 rp_accepted := rp_accepted r @ [p]\<rparr>)"

text \<open>The critical section of \<open>shutdown\<close>; \<open>notify_one\<close> follows, then the join, which waits for \<open>Exited\<close>.\<close>

definition shutdown :: "'p reaper \<Rightarrow> 'p reaper" where
  "shutdown r =
     (if rp_stop r then r else r\<lparr>rp_stop := True, rp_notifying := Suc (rp_notifying r)\<rparr>)"

text \<open>A spurious wakeup, and what \<open>notify_one\<close> does: a notification that finds nobody asleep is lost.\<close>

definition wake :: "'p reaper \<Rightarrow> 'p reaper" where
  "wake r = (case rp_worker r of Sleeping \<Rightarrow> r\<lparr>rp_worker := Checking\<rparr> | _ \<Rightarrow> r)"

definition notify_one :: "'p reaper \<Rightarrow> 'p reaper" where
  "notify_one r =
     (case rp_notifying r of 0 \<Rightarrow> r | Suc n \<Rightarrow> wake (r\<lparr>rp_notifying := n\<rparr>))"

text \<open>
  One evaluation of the predicate in \<open>worker_loop\<close> under the lock: false puts the worker to sleep,
  true lets it leave on an empty queue or take the front.
\<close>

definition worker_take :: "'p reaper \<Rightarrow> 'p reaper" where
  "worker_take r =
     (if \<not> (rp_stop r \<or> rp_queue r \<noteq> []) then r\<lparr>rp_worker := Sleeping\<rparr>
      else if rp_stop r \<and> rp_queue r = [] then r\<lparr>rp_worker := Exited\<rparr>
      else (case queue_pop (rp_queue r) of
              None \<Rightarrow> r
            | Some (item, q) \<Rightarrow> r\<lparr>rp_queue := q, rp_worker := Destroying item\<rparr>))"

definition worker_destroy :: "'p \<Rightarrow> 'p reaper \<Rightarrow> 'p reaper" where
  "worker_destroy item r = r\<lparr>rp_worker := Checking, rp_destroyed := rp_destroyed r @ [item]\<rparr>"

definition worker_step :: "'p reaper \<Rightarrow> 'p reaper" where
  "worker_step r =
     (case rp_worker r of
        Checking \<Rightarrow> worker_take r
      | Sleeping \<Rightarrow> r
      | Destroying item \<Rightarrow> worker_destroy item r
      | Exited \<Rightarrow> r)"

text \<open>Any thread may enqueue, shut down or notify between two steps of the worker.\<close>

inductive reaper_step :: "'p reaper \<Rightarrow> 'p reaper \<Rightarrow> bool" where
  rs_enqueue: "reaper_step r (enqueue p r)"
| rs_shutdown: "reaper_step r (shutdown r)"
| rs_notify: "reaper_step r (notify_one r)"
| rs_spurious: "reaper_step r (wake r)"
| rs_worker: "reaper_step r (worker_step r)"

inductive_cases reaper_stepE: "reaper_step r r'"

text \<open>
  A state the program cannot leave by itself: the worker is blocked or gone and no thread is on its
  way to notify. Only a call from outside or a spurious wakeup, which nobody may rely on, goes on
  from here.
\<close>

definition at_rest :: "'p reaper \<Rightarrow> bool" where
  "at_rest r \<longleftrightarrow> worker_step r = r \<and> rp_notifying r = 0"

section \<open>Invariant\<close>

primrec in_flight :: "'p worker \<Rightarrow> 'p list" where
  "in_flight Checking = []"
| "in_flight Sleeping = []"
| "in_flight (Destroying p) = [p]"
| "in_flight Exited = []"

text \<open>
  The last conjunct says that no wakeup is lost: a worker asleep although there is something to do
  still has a notification coming.
\<close>

definition reaper_ok :: "'p reaper \<Rightarrow> bool" where
  "reaper_ok r \<longleftrightarrow> rp_accepted r = rp_destroyed r @ in_flight (rp_worker r) @ rp_queue r
     \<and> (rp_worker r = Exited \<longrightarrow> rp_stop r \<and> rp_queue r = [])
     \<and> (rp_worker r = Sleeping \<and> (rp_stop r \<or> rp_queue r \<noteq> []) \<longrightarrow> rp_notifying r > 0)"

lemma worker_step_cases:
  "worker_step r =
     (case rp_worker r of
        Checking \<Rightarrow> (case rp_queue r of
                      [] \<Rightarrow> if rp_stop r then r\<lparr>rp_worker := Exited\<rparr> else r\<lparr>rp_worker := Sleeping\<rparr>
                    | p # q \<Rightarrow> r\<lparr>rp_queue := q, rp_worker := Destroying p\<rparr>)
      | Sleeping \<Rightarrow> r
      | Destroying p \<Rightarrow> r\<lparr>rp_worker := Checking, rp_destroyed := rp_destroyed r @ [p]\<rparr>
      | Exited \<Rightarrow> r)"
  by (auto simp: worker_step_def worker_take_def worker_destroy_def queue_pop_def split: worker.split list.split)

lemma enqueue_ok: "reaper_ok r \<Longrightarrow> reaper_ok (enqueue p r)"
  by (auto simp: reaper_ok_def enqueue_def std_queue.content_push split: option.split)

lemma shutdown_ok: "reaper_ok r \<Longrightarrow> reaper_ok (shutdown r)"
  by (auto simp: reaper_ok_def shutdown_def)

lemma wake_ok: "reaper_ok r \<Longrightarrow> reaper_ok (wake r)"
  by (auto simp: reaper_ok_def wake_def split: worker.split)

lemma notify_one_ok: "reaper_ok r \<Longrightarrow> reaper_ok (notify_one r)"
  by (auto simp: reaper_ok_def notify_one_def wake_def split: worker.split nat.split)

lemma worker_step_ok: "reaper_ok r \<Longrightarrow> reaper_ok (worker_step r)"
  by (auto simp: reaper_ok_def worker_step_cases split: worker.split list.split)

lemma reaper_step_ok: "reaper_ok r \<Longrightarrow> reaper_step r r' \<Longrightarrow> reaper_ok r'"
  by (erule reaper_stepE) (auto simp: enqueue_ok shutdown_ok wake_ok notify_one_ok worker_step_ok)

interpretation reaper_run: step_invariant reaper_step reaper_ok
  by unfold_locales (rule reaper_step_ok)

lemma new_reaper_ok: "reaper_ok new_reaper"
  by (simp add: reaper_ok_def new_reaper_def)

section \<open>Progress\<close>

text \<open>
  Work left once the reaper is stopping: the notifications on their way, two steps of the worker for
  each queued pane, and the steps with which it comes back from where it is and leaves.
\<close>

definition work_left :: "'p reaper \<Rightarrow> nat" where
  "work_left r = rp_notifying r + 2 * length (rp_queue r)
     + (case rp_worker r of Exited \<Rightarrow> 0 | Checking \<Rightarrow> 1 | Sleeping \<Rightarrow> 2 | Destroying _ \<Rightarrow> 2)"

definition stopping_to :: "'p reaper \<Rightarrow> 'p reaper \<Rightarrow> bool" where
  "stopping_to r r' \<longleftrightarrow> rp_stop r' \<and> rp_accepted r' = rp_accepted r \<and> (r' = r \<or> work_left r' < work_left r)"

lemma stopping_enqueue: "rp_stop r \<Longrightarrow> stopping_to r (enqueue p r)"
  by (simp add: stopping_to_def enqueue_def split: option.split)

lemma stopping_shutdown: "rp_stop r \<Longrightarrow> stopping_to r (shutdown r)"
  by (simp add: stopping_to_def shutdown_def)

lemma stopping_wake: "rp_stop r \<Longrightarrow> stopping_to r (wake r)"
  by (simp add: stopping_to_def wake_def work_left_def split: worker.split)

lemma stopping_notify: "rp_stop r \<Longrightarrow> stopping_to r (notify_one r)"
  by (simp add: stopping_to_def notify_one_def wake_def work_left_def split: worker.split nat.split)

lemma stopping_worker: "rp_stop r \<Longrightarrow> stopping_to r (worker_step r)"
  by (simp add: stopping_to_def worker_step_cases work_left_def split: worker.split list.split)

lemma stopping_step: "reaper_step r r' \<Longrightarrow> rp_stop r \<Longrightarrow> stopping_to r r'"
  by (erule reaper_stepE)
    (simp_all add: stopping_enqueue stopping_shutdown stopping_wake stopping_notify stopping_worker)

lemma stopping_steps:
  assumes "reaper_step\<^sup>*\<^sup>* r r'" "rp_stop r" "reaper_ok r"
  shows "rp_stop r' \<and> rp_accepted r' = rp_accepted r \<and> reaper_ok r'"
  using assms
proof (induction rule: rtranclp_induct)
  case (step y z)
  then show ?case using stopping_step [OF step(2)] reaper_step_ok [OF _ step(2)]
    by (simp add: stopping_to_def)
qed simp

lemma stopping_changes:
  assumes "((\<lambda>a b. reaper_step a b \<and> b \<noteq> a) ^^ n) r r'" "rp_stop r"
  shows "n + work_left r' \<le> work_left r"
  using assms
proof (induction n arbitrary: r)
  case (Suc n)
  from relpowp_Suc_D2 [OF Suc.prems(1)] obtain m where
    m: "reaper_step r m" "m \<noteq> r" "((\<lambda>a b. reaper_step a b \<and> b \<noteq> a) ^^ n) m r'" by blast
  have "rp_stop m" "work_left m < work_left r"
    using stopping_step [OF m(1) Suc.prems(2)] m(2) by (auto simp: stopping_to_def)
  with Suc.IH [OF m(3)] show ?case by simp
qed simp

lemma at_rest_exited: "reaper_ok r \<Longrightarrow> rp_stop r \<Longrightarrow> at_rest r \<Longrightarrow> rp_worker r = Exited"
  by (cases r) (auto simp: at_rest_def reaper_ok_def worker_step_cases split: worker.splits list.splits)

lemma work_left_shutdown: "work_left (shutdown r) \<le> 2 * length (rp_queue r) + rp_notifying r + 3"
  by (auto simp: work_left_def shutdown_def split: worker.split)

section \<open>Properties\<close>

text \<open>
  \<^bold>\<open>C20\<close> No closed pane is lost or destroyed twice: under every interleaving of \<open>enqueue\<close>, \<open>shutdown\<close>,
  the notifications and the worker, the panes accepted are exactly the panes destroyed, then the one in the worker's
  hands, then the queue, in the order of acceptance; once the worker has left its loop every
  accepted pane has been destroyed.
\<close>

theorem reaper_exactly_once:
  assumes "reaper_step\<^sup>*\<^sup>* new_reaper r"
  shows "rp_accepted r = rp_destroyed r @ in_flight (rp_worker r) @ rp_queue r
     \<and> (rp_worker r = Exited \<longrightarrow> rp_destroyed r = rp_accepted r)"
  using reaper_run.inv_steps [OF assms new_reaper_ok] by (auto simp: reaper_ok_def)

theorem reaper_exactly_once_witness:
  "rp_accepted (worker_step (enqueue (Some (7::nat)) new_reaper)) = [7]"
proof -
  have "reaper_step\<^sup>*\<^sup>* new_reaper (worker_step (enqueue (Some (7::nat)) new_reaper))"
    by (rule rtranclp.rtrancl_into_rtrancl [OF r_into_rtranclp]) (rule rs_enqueue, rule rs_worker)
  from reaper_exactly_once [OF this] show ?thesis
    by (simp add: worker_step_cases enqueue_def new_reaper_def queue_push_def)
qed

text \<open>
  \<^bold>\<open>C40\<close> Shutdown terminates, whatever the interleaving: from any reachable state, at most
  \<open>2 * queue + pending notifications + 3\<close> steps change anything after \<open>shutdown\<close>, and a state the
  program cannot leave by itself - the worker asleep or gone, no notification on its way - is one
  where the worker has exited, which the join waits for, with everything accepted destroyed. So the
  join neither runs on for ever nor hangs on a worker that nobody wakes; spurious wakeups are
  allowed and never needed. Panes enqueued after the stop are refused.
\<close>

theorem shutdown_drains:
  assumes "reaper_step\<^sup>*\<^sup>* new_reaper r"
  shows "(\<forall>n r'. ((\<lambda>a b. reaper_step a b \<and> b \<noteq> a) ^^ n) (shutdown r) r'
            \<longrightarrow> n \<le> 2 * length (rp_queue r) + rp_notifying r + 3)
     \<and> (\<forall>r'. reaper_step\<^sup>*\<^sup>* (shutdown r) r' \<and> at_rest r'
            \<longrightarrow> rp_worker r' = Exited \<and> rp_queue r' = [] \<and> rp_destroyed r' = rp_accepted r)
     \<and> enqueue p (shutdown r) = shutdown r"
proof -
  have ok: "reaper_ok (shutdown r)"
    by (rule shutdown_ok [OF reaper_run.inv_steps [OF assms new_reaper_ok]])
  have stop: "rp_stop (shutdown r)" "rp_accepted (shutdown r) = rp_accepted r"
    by (simp_all add: shutdown_def)
  have "n \<le> 2 * length (rp_queue r) + rp_notifying r + 3"
    if "((\<lambda>a b. reaper_step a b \<and> b \<noteq> a) ^^ n) (shutdown r) r'" for n r'
    using stopping_changes [OF that stop(1)] work_left_shutdown [of r] by simp
  moreover have "rp_worker r' = Exited \<and> rp_queue r' = [] \<and> rp_destroyed r' = rp_accepted r"
    if run: "reaper_step\<^sup>*\<^sup>* (shutdown r) r'" and rest: "at_rest r'" for r'
  proof -
    note r' = stopping_steps [OF run stop(1) ok]
    have ex: "rp_worker r' = Exited" using r' rest by (auto intro: at_rest_exited)
    with r' stop(2) show ?thesis by (auto simp: reaper_ok_def)
  qed
  moreover have "enqueue p (shutdown r) = shutdown r"
    using stop(1) by (simp add: enqueue_def split: option.split)
  ultimately show ?thesis by blast
qed

text \<open>
  The worker went to sleep on the empty queue, a pane was accepted and its notification was still on
  its way when the shutdown came.
\<close>

definition asleep_reaper :: "nat reaper" where
  "asleep_reaper = enqueue (Some 7) (worker_step new_reaper)"

definition drained_reaper :: "nat reaper" where
  "drained_reaper = worker_step (worker_step (worker_step (notify_one (notify_one (shutdown asleep_reaper)))))"

theorem shutdown_drains_witness:
  "rp_worker asleep_reaper = Sleeping \<and> rp_worker drained_reaper = Exited \<and> rp_destroyed drained_reaper = [7]"
proof -
  have a: "reaper_step\<^sup>*\<^sup>* new_reaper asleep_reaper"
    unfolding asleep_reaper_def
    by (rule rtranclp.rtrancl_into_rtrancl [OF r_into_rtranclp]) (rule rs_worker, rule rs_enqueue)
  have d: "reaper_step\<^sup>*\<^sup>* (shutdown asleep_reaper) drained_reaper"
    unfolding drained_reaper_def
    by (rule rtranclp.rtrancl_into_rtrancl [OF rtranclp.rtrancl_into_rtrancl [OF rtranclp.rtrancl_into_rtrancl
         [OF rtranclp.rtrancl_into_rtrancl [OF r_into_rtranclp]]]]) (rule rs_notify rs_worker)+
  have rest: "at_rest drained_reaper" and sl: "rp_worker asleep_reaper = Sleeping"
    and acc: "rp_accepted asleep_reaper = [7]"
    by (simp_all add: at_rest_def drained_reaper_def asleep_reaper_def new_reaper_def enqueue_def shutdown_def
        notify_one_def wake_def worker_step_cases queue_push_def)
  from shutdown_drains [OF a] d rest sl acc show ?thesis by auto
qed

end
