(* ===== verification/Docker_Compose_Print.thy ===== *)
theory Docker_Compose_Print
  imports Docker_Compose
begin

text \<open>
  Reading back what a compose file says: a printer for services in the block style that compose
  files use, and the proof that the reader of \<open>compose_parser.cpp\<close> recovers every field from it.
\<close>

section \<open>Printing\<close>

definition indent_by :: "nat \<Rightarrow> string" where
  "indent_by n = replicate n (CHR '' '')"

definition key_line :: "nat \<Rightarrow> string \<Rightarrow> string \<Rightarrow> string" where
  "key_line n k v = indent_by n @ k @ '': '' @ v"

definition header_line :: "nat \<Rightarrow> string \<Rightarrow> string" where
  "header_line n k = indent_by n @ k @ '':''"

definition item_line :: "string \<Rightarrow> string" where
  "item_line i = indent_by 6 @ ''- '' @ i"

definition service_lines :: "string \<times> compose_service \<Rightarrow> string list" where
  "service_lines ns =
     (case ns of (name, svc) \<Rightarrow>
       [header_line 2 name,
        key_line 4 ''image'' (cs_image svc),
        key_line 4 ''container_name'' (cs_container_name svc),
        key_line 4 ''network_mode'' (cs_network_mode svc),
        key_line 4 ''restart'' (cs_restart_policy svc),
        key_line 4 ''privileged'' (if cs_privileged svc then ''true'' else ''false'')]
       @ header_line 4 ''depends_on'' # map item_line (cs_depends_on svc)
       @ header_line 4 ''networks'' # map item_line (cs_networks svc)
       @ header_line 4 ''volumes'' # map item_line (cs_volumes svc)
       @ header_line 4 ''environment'' # map (\<lambda>(k, v). item_line (k @ ''='' @ v)) (cs_environment svc))"

definition compose_lines :: "string \<Rightarrow> (string, compose_service) std_map \<Rightarrow> string list" where
  "compose_lines version services =
     key_line 0 ''version'' version # header_line 0 ''services'' # concat (map service_lines services)"

section \<open>What may be printed\<close>

definition clean_key :: "string \<Rightarrow> bool" where
  "clean_key k \<longleftrightarrow> k \<noteq> [] \<and> list_all (\<lambda>c. \<not> trailing_blank c \<and> c \<noteq> CHR '':'') k \<and> hd k \<noteq> CHR ''#''"

definition clean_value :: "string \<Rightarrow> bool" where
  "clean_value v \<longleftrightarrow> list_all (\<lambda>c. \<not> trailing_blank c) v \<and> (v \<noteq> [] \<longrightarrow> hd v \<noteq> CHR 0x22 \<and> hd v \<noteq> CHR 0x27)"

definition clean_item :: "string \<Rightarrow> bool" where
  "clean_item i \<longleftrightarrow> i \<noteq> [] \<and> list_all (\<lambda>c. \<not> trailing_blank c) i"

definition service_ok :: "string \<times> compose_service \<Rightarrow> bool" where
  "service_ok ns \<longleftrightarrow>
     (case ns of (name, svc) \<Rightarrow>
        cs_name svc = name \<and> clean_key name \<and> clean_value (cs_image svc) \<and> clean_value (cs_container_name svc)
        \<and> clean_value (cs_network_mode svc) \<and> clean_value (cs_restart_policy svc)
        \<and> list_all clean_item (cs_depends_on svc) \<and> list_all clean_item (cs_networks svc)
        \<and> list_all clean_item (cs_volumes svc) \<and> cs_network_static_ips svc = []
        \<and> std_map_wf (cs_environment svc)
        \<and> list_all (\<lambda>(k, v). CHR ''='' \<notin> set k \<and> clean_item (k @ ''='' @ v)) (cs_environment svc))"

section \<open>Reading a printed line\<close>

lemma blank_chars [simp]:
  "leading_blank (CHR '' '')" "\<not> leading_blank (CHR '':'')" "\<not> trailing_blank (CHR '':'')"
  "trailing_blank (CHR '' '')" "\<not> leading_blank (CHR ''-'')" "\<not> trailing_blank (CHR ''-'')"
  "\<not> trailing_blank (CHR ''='')" "trailing_blank nl"
  by (simp_all add: leading_blank_def trailing_blank_def nl_def)

lemma leading_trailing: "\<not> trailing_blank c \<Longrightarrow> \<not> leading_blank c"
  by (simp add: leading_blank_def trailing_blank_def)

lemma trim_indent_by [simp]: "trim (indent_by n @ s) = trim s"
  by (induction n) (simp_all add: trim_def indent_by_def)

lemma trim_id:
  assumes "s = [] \<or> (\<not> leading_blank (hd s) \<and> \<not> trailing_blank (last s))"
  shows "trim s = s"
proof (cases "s = []")
  case False
  with assms have "dropWhile leading_blank s = s" "dropWhile trailing_blank (rev s) = rev s"
    by (auto intro!: dropWhile_hd_id simp: hd_rev)
  then show ?thesis by (simp add: trim_def)
qed (simp add: trim_def)

lemma trim_clean: "list_all (\<lambda>c. \<not> trailing_blank c) s \<Longrightarrow> trim s = s"
  by (rule trim_id) (cases s, auto simp: list_all_iff leading_trailing)

lemma trim_space: "trim (CHR '' '' # s) = trim s"
  by (simp add: trim_def)

lemma trim_trailing_space: "s \<noteq> [] \<Longrightarrow> \<not> leading_blank (hd s) \<Longrightarrow> \<not> trailing_blank (last s) \<Longrightarrow> trim (s @ '' '') = s"
  by (cases s) (simp_all add: trim_def dropWhile_hd_id hd_rev [symmetric])

lemma indent_level_indent_by:
  "s \<noteq> [] \<Longrightarrow> \<not> leading_blank (hd s) \<Longrightarrow> get_indent_level (indent_by n @ s) = n"
  by (induction n; cases s) (auto simp: indent_by_def leading_blank_def)

lemma clean_keyD:
  assumes "clean_key k"
  shows "k \<noteq> []" "\<not> leading_blank (hd k)" "\<not> trailing_blank (last k)" "CHR '':'' \<notin> set k" "hd k \<noteq> CHR ''#''" "trim k = k"
proof -
  have all: "\<forall>c\<in>set k. \<not> trailing_blank c" and ne: "k \<noteq> []" using assms by (auto simp: clean_key_def list_all_iff)
  show "k \<noteq> []" "CHR '':'' \<notin> set k" "hd k \<noteq> CHR ''#''" using assms by (auto simp: clean_key_def list_all_iff)
  show "\<not> leading_blank (hd k)" "\<not> trailing_blank (last k)" using all ne by (auto simp: leading_trailing)
  show "trim k = k" by (rule trim_clean) (use all in \<open>simp add: list_all_iff\<close>)
qed

lemma trim_header: "clean_key k \<Longrightarrow> trim (header_line n k) = k @ '':''"
  unfolding header_line_def trim_indent_by by (rule trim_id) (simp add: clean_keyD)

lemma trim_key_line: "clean_key k \<Longrightarrow> clean_value v \<Longrightarrow> trim (key_line n k v) = k @ (if v = [] then '':'' else '': '' @ v)"
proof -
  assume k: "clean_key k" and v: "clean_value v"
  show ?thesis
  proof (cases "v = []")
    case True
    have "trim ((k @ '':'') @ '' '') = k @ '':''"
      by (rule trim_trailing_space) (simp_all add: clean_keyD [OF k])
    then show ?thesis using True by (simp add: key_line_def)
  next
    case False
    have "trim (k @ '': '' @ v) = k @ '': '' @ v"
      by (rule trim_id) (use v False in \<open>simp add: clean_keyD [OF k] clean_value_def list_all_iff\<close>)
    then show ?thesis using False by (simp add: key_line_def)
  qed
qed

lemma unquote_clean: "clean_value v \<Longrightarrow> unquote v = v"
  by (cases v) (auto simp: unquote_def clean_value_def)

lemma read_key_line:
  assumes "clean_key k" "clean_value v"
  shows "extract_key (key_line n k v) = k" "extract_value (key_line n k v) = v"
    "trim (key_line n k v) \<noteq> []" "hd (trim (key_line n k v)) \<noteq> CHR ''#''" "get_indent_level (key_line n k v) = n"
proof -
  note k = clean_keyD [OF assms(1)]
  have v: "trim v = v" using assms(2) by (simp add: clean_value_def trim_clean)
  have f: "find_char (CHR '':'') (trim (key_line n k v)) = Some (length k)"
    using find_char_append [OF k(4)] by (simp add: trim_key_line assms)
  show "extract_key (key_line n k v) = k" using f by (simp add: extract_key_def trim_key_line assms k)
  show "extract_value (key_line n k v) = v"
    using f by (simp add: extract_value_def trim_key_line assms unquote_clean trim_space v) (simp add: trim_def unquote_def)
  show "trim (key_line n k v) \<noteq> []" "hd (trim (key_line n k v)) \<noteq> CHR ''#''"
    using k by (simp_all add: trim_key_line assms)
  show "get_indent_level (key_line n k v) = n"
    unfolding key_line_def by (rule indent_level_indent_by) (use k in simp_all)
qed

lemma read_header_line:
  assumes "clean_key k"
  shows "extract_key (header_line n k) = k" "trim (header_line n k) \<noteq> []"
    "hd (trim (header_line n k)) \<noteq> CHR ''#''" "get_indent_level (header_line n k) = n"
proof -
  note k = clean_keyD [OF assms]
  have f: "find_char (CHR '':'') (trim (header_line n k)) = Some (length k)"
    using find_char_append [OF k(4)] by (simp add: trim_header assms)
  show "extract_key (header_line n k) = k" using f by (simp add: extract_key_def trim_header assms k)
  show "trim (header_line n k) \<noteq> []" "hd (trim (header_line n k)) \<noteq> CHR ''#''"
    using k by (simp_all add: trim_header assms)
  show "get_indent_level (header_line n k) = n"
    unfolding header_line_def by (rule indent_level_indent_by) (use k in simp_all)
qed

lemma read_item_line:
  assumes "clean_item i"
  shows "is_list_item (item_line i)" "extract_list_item (item_line i) = i" "trim (item_line i) \<noteq> []"
    "hd (item_line i) \<noteq> CHR ''#''" "get_indent_level (item_line i) = 6"
proof -
  have i: "trim i = i" "i \<noteq> []" "\<not> trailing_blank (last i)"
    using assms by (auto simp: clean_item_def trim_clean list_all_iff)
  have t: "trim (item_line i) = ''- '' @ i"
    unfolding item_line_def trim_indent_by by (rule trim_id) (use i in simp)
  then show "is_list_item (item_line i)" "extract_list_item (item_line i) = i" "trim (item_line i) \<noteq> []"
    by (simp_all add: is_list_item_def extract_list_item_def trim_space i)
  show "hd (item_line i) \<noteq> CHR ''#''" by (simp add: item_line_def indent_by_def numeral_eq_Suc)
  show "get_indent_level (item_line i) = 6"
    unfolding item_line_def by (rule indent_level_indent_by) simp_all
qed

lemma hd_indented: "0 < n \<Longrightarrow> hd (key_line n k v) \<noteq> CHR ''#''" "0 < n \<Longrightarrow> hd (header_line n k) \<noteq> CHR ''#''"
  by (cases n; simp add: key_line_def header_line_def indent_by_def)+

section \<open>Reading a printed section\<close>

text \<open>A block ends at the end of the file or at a line that is not deeper than its key.\<close>

definition stops :: "nat \<Rightarrow> string list \<Rightarrow> bool" where
  "stops base ls \<longleftrightarrow> (case ls of [] \<Rightarrow> True | l # _ \<Rightarrow> trim l \<noteq> [] \<and> hd l \<noteq> CHR ''#'' \<and> hd (trim l) \<noteq> CHR ''#'' \<and> get_indent_level l \<le> base)"

lemma stops_header: "clean_key k \<Longrightarrow> 0 < n \<Longrightarrow> n \<le> base \<Longrightarrow> stops base (header_line n k # ls)"
  by (simp add: stops_def read_header_line hd_indented)

lemma stops_Nil [simp]: "stops base []"
  by (simp add: stops_def)

lemma scan_items:
  assumes "list_all clean_item is" "base < 6" "stops base rest"
  shows "scan_block f base (map item_line is @ rest) acc = (fold (\<lambda>i. f (item_line i)) is acc, rest)"
  using assms(1)
proof (induction "is" arbitrary: acc)
  case Nil
  show ?case using assms(3) by (cases rest) (auto simp: stops_def)
next
  case (Cons i "is")
  then show ?case using assms(2) by (simp add: read_item_line)
qed

lemma networks_items:
  assumes "list_all clean_item is" "stops 4 rest"
  shows "service_networks 4 (map item_line is @ rest) svc = (svc\<lparr>cs_networks := cs_networks svc @ is\<rparr>, rest)"
  using assms(1)
proof (induction "is" arbitrary: svc)
  case Nil
  show ?case using assms(2) by (cases rest) (auto simp: stops_def service_networks.simps)
next
  case (Cons i "is")
  then show ?case
    by (subst service_networks.simps) (simp add: read_item_line)
qed

lemma fold_use_dependency:
  "list_all clean_item is \<Longrightarrow> fold (\<lambda>i. use_dependency (item_line i)) is svc = svc\<lparr>cs_depends_on := cs_depends_on svc @ is\<rparr>"
  by (induction "is" arbitrary: svc) (auto simp: use_dependency_def read_item_line clean_item_def)

lemma fold_use_volume:
  "list_all clean_item is \<Longrightarrow> fold (\<lambda>i. use_volume (item_line i)) is svc = svc\<lparr>cs_volumes := cs_volumes svc @ is\<rparr>"
  by (induction "is" arbitrary: svc) (auto simp: use_volume_def read_item_line clean_item_def)

lemma use_environment_item:
  assumes "CHR ''='' \<notin> set k" "clean_item (k @ ''='' @ v)"
  shows "use_environment (item_line (k @ ''='' @ v)) svc = svc\<lparr>cs_environment := map_put k v (cs_environment svc)\<rparr>"
proof -
  have "find_char (CHR ''='') (k @ CHR ''='' # v) = Some (length k)" by (rule find_char_append [OF assms(1)])
  then show ?thesis using read_item_line [OF assms(2)] by (simp add: use_environment_def)
qed

lemma fold_use_environment:
  "list_all (\<lambda>(k, v). CHR ''='' \<notin> set k \<and> clean_item (k @ ''='' @ v)) env \<Longrightarrow>
   fold (\<lambda>i. use_environment (item_line i)) (map (\<lambda>(k, v). k @ ''='' @ v) env) svc =
     svc\<lparr>cs_environment := fold (\<lambda>(k, v). map_put k v) env (cs_environment svc)\<rparr>"
proof (induction env arbitrary: svc)
  case (Cons kv env)
  obtain k v where kv: "kv = (k, v)" by (cases kv)
  have "use_environment (item_line (k @ ''='' @ v)) svc = svc\<lparr>cs_environment := map_put k v (cs_environment svc)\<rparr>"
    by (rule use_environment_item) (use Cons.prems kv in simp_all)
  then show ?case using Cons kv by simp
qed simp

section \<open>Reading a printed service\<close>

lemma compose_keys [simp]:
  "clean_key ''image''" "clean_key ''container_name''" "clean_key ''network_mode''" "clean_key ''restart''"
  "clean_key ''privileged''" "clean_key ''depends_on''" "clean_key ''networks''" "clean_key ''volumes''"
  "clean_key ''environment''" "clean_key ''version''" "clean_key ''services''" "clean_value ''true''" "clean_value ''false''"
  by (simp_all add: clean_key_def clean_value_def trailing_blank_def)

lemma body_key_line:
  assumes "clean_key k" "clean_value v"
  shows "service_body 2 (key_line 4 k v # ls) svc =
    service_body 2 (snd (service_key (key_line 4 k v) ls svc)) (fst (service_key (key_line 4 k v) ls svc))"
  by (subst service_body.simps) (simp add: read_key_line [OF assms] Let_def)

lemma body_header_line:
  assumes "clean_key k"
  shows "service_body 2 (header_line 4 k # ls) svc =
    service_body 2 (snd (service_key (header_line 4 k) ls svc)) (fst (service_key (header_line 4 k) ls svc))"
  by (subst service_body.simps) (simp add: read_header_line [OF assms] Let_def)

lemma body_scalars:
  "clean_value v \<Longrightarrow> service_body 2 (key_line 4 ''image'' v # ls) svc = service_body 2 ls (svc\<lparr>cs_image := v\<rparr>)"
  "clean_value v \<Longrightarrow> service_body 2 (key_line 4 ''container_name'' v # ls) svc = service_body 2 ls (svc\<lparr>cs_container_name := v\<rparr>)"
  "clean_value v \<Longrightarrow> service_body 2 (key_line 4 ''network_mode'' v # ls) svc = service_body 2 ls (svc\<lparr>cs_network_mode := v\<rparr>)"
  "clean_value v \<Longrightarrow> service_body 2 (key_line 4 ''restart'' v # ls) svc = service_body 2 ls (svc\<lparr>cs_restart_policy := v\<rparr>)"
  "clean_value v \<Longrightarrow> service_body 2 (key_line 4 ''privileged'' v # ls) svc = service_body 2 ls (svc\<lparr>cs_privileged := (v = ''true'')\<rparr>)"
  by (simp_all add: body_key_line service_key_def read_key_line)

lemma body_sections:
  assumes "list_all clean_item is" "stops 4 rest"
  shows "service_body 2 (header_line 4 ''depends_on'' # map item_line is @ rest) svc =
      service_body 2 rest (svc\<lparr>cs_depends_on := cs_depends_on svc @ is\<rparr>)"
    "service_body 2 (header_line 4 ''networks'' # map item_line is @ rest) svc =
      service_body 2 rest (svc\<lparr>cs_networks := cs_networks svc @ is\<rparr>)"
    "service_body 2 (header_line 4 ''volumes'' # map item_line is @ rest) svc =
      service_body 2 rest (svc\<lparr>cs_volumes := cs_volumes svc @ is\<rparr>)"
  using assms
  by (simp_all add: body_header_line service_key_def read_header_line scan_items networks_items
      fold_use_dependency fold_use_volume parse_service_networks_def)

lemma body_environment:
  assumes "list_all (\<lambda>(k, v). CHR ''='' \<notin> set k \<and> clean_item (k @ ''='' @ v)) env" "stops 4 rest"
  shows "service_body 2 (header_line 4 ''environment'' # map (\<lambda>(k, v). item_line (k @ ''='' @ v)) env @ rest) svc =
      service_body 2 rest (svc\<lparr>cs_environment := fold (\<lambda>(k, v). map_put k v) env (cs_environment svc)\<rparr>)"
proof -
  define xs where "xs = map (\<lambda>(k, v). k @ ''='' @ v) env"
  have items: "map (\<lambda>(k, v). item_line (k @ ''='' @ v)) env = map item_line xs"
    by (simp add: xs_def case_prod_beta)
  have clean: "list_all clean_item xs"
    using assms(1) by (auto simp: xs_def list_all_iff)
  have env: "fold (\<lambda>i. use_environment (item_line i)) xs svc =
      svc\<lparr>cs_environment := fold (\<lambda>(k, v). map_put k v) env (cs_environment svc)\<rparr>"
    unfolding xs_def by (rule fold_use_environment [OF assms(1)])
  show ?thesis unfolding items body_header_line [OF compose_keys(9)]
    by (simp add: service_key_def read_header_line scan_items [OF clean _ assms(2)] env)
qed

lemma body_end: "stops 2 rest \<Longrightarrow> service_body 2 rest svc = (svc, rest)"
  by (subst service_body.simps) (auto simp: stops_def split: list.splits)

lemma parse_printed_service:
  assumes "service_ok (name, svc)" "stops 2 rest"
  shows "parse_service (service_lines (name, svc) @ rest) name empty_service = (svc, rest)"
proof -
  have stop4: "stops 4 rest" using assms(2) by (auto simp: stops_def split: list.splits)
  have h: "stops 4 (header_line 4 k # ls)" if "clean_key k" for k ls using that by (simp add: stops_header)
  have ok: "cs_name svc = name" "clean_key name" "cs_network_static_ips svc = []"
    "list_all clean_item (cs_depends_on svc)" "list_all clean_item (cs_networks svc)" "list_all clean_item (cs_volumes svc)"
    "clean_value (cs_image svc)" "clean_value (cs_container_name svc)" "clean_value (cs_network_mode svc)"
    "clean_value (cs_restart_policy svc)" "std_map_wf (cs_environment svc)"
    "list_all (\<lambda>(k, v). CHR ''='' \<notin> set k \<and> clean_item (k @ ''='' @ v)) (cs_environment svc)"
    using assms(1) by (simp_all add: service_ok_def)
  have "parse_service (service_lines (name, svc) @ rest) name empty_service =
    service_body 2 (tl (service_lines (name, svc) @ rest)) (empty_service\<lparr>cs_name := name\<rparr>)"
    by (simp add: parse_service_def service_lines_def read_header_line [OF ok(2)])
  also have "\<dots> = (svc, rest)"
    using ok by (simp add: service_lines_def body_scalars body_sections body_environment [unfolded append_Cons append_Nil] h stop4
        body_end [OF assms(2)] fold_map_put_sorted empty_service_def)
  finally show ?thesis .
qed

lemma stops_services:
  assumes "list_all service_ok services" "stops 2 rest"
  shows "stops 2 (concat (map service_lines services) @ rest)"
proof (cases services)
  case (Cons ns services')
  obtain name svc where ns: "ns = (name, svc)" by (cases ns)
  with assms Cons have "clean_key name" by (simp add: service_ok_def)
  then show ?thesis using Cons ns by (simp add: service_lines_def stops_header)
qed (use assms in simp)

lemma service_lines_Cons: "service_lines (name, svc) @ ls = header_line 2 name # tl (service_lines (name, svc)) @ ls"
  by (simp add: service_lines_def)

lemma parse_printed_services:
  assumes "list_all service_ok services"
  shows "services_body 0 (concat (map service_lines services)) acc = (fold (\<lambda>(k, v). map_put k v) services acc, [])"
  using assms
proof (induction services arbitrary: acc)
  case Nil
  show ?case by (simp add: services_body.simps)
next
  case (Cons ns services)
  obtain name svc where ns: "ns = (name, svc)" by (cases ns)
  with Cons.prems have ok: "service_ok (name, svc)" "list_all service_ok services" by simp_all
  from ok(1) have key: "clean_key name" by (simp add: service_ok_def)
  let ?rest = "concat (map service_lines services)"
  have st: "stops 2 ?rest" using stops_services [OF ok(2), of "[]"] by simp
  have p: "parse_service (header_line 2 name # tl (service_lines (name, svc)) @ ?rest) name empty_service = (svc, ?rest)"
    using parse_printed_service [OF ok(1) st] by (simp add: service_lines_Cons)
  have "services_body 0 (header_line 2 name # tl (service_lines (name, svc)) @ ?rest) acc =
    services_body 0 ?rest (map_put name svc acc)"
    by (subst services_body.simps) (simp add: read_header_line [OF key] hd_indented p)
  then show ?case using Cons.IH [OF ok(2)] ns by (simp add: service_lines_Cons)
qed

section \<open>Reading a printed file\<close>

lemma no_nl_clean: "list_all (\<lambda>c. \<not> trailing_blank c) s \<Longrightarrow> nl \<notin> set s"
  by (auto simp: list_all_iff)

lemma nl_chars: "nl \<noteq> CHR '' ''" "nl \<noteq> CHR '':''" "nl \<noteq> CHR ''-''"
  by (simp_all add: nl_def)

lemma no_nl_lines:
  "nl \<notin> set k \<Longrightarrow> nl \<notin> set v \<Longrightarrow> nl \<notin> set (key_line n k v)" "nl \<notin> set k \<Longrightarrow> nl \<notin> set (header_line n k)"
  "nl \<notin> set v \<Longrightarrow> nl \<notin> set (item_line v)"
  by (simp_all add: key_line_def header_line_def item_line_def indent_by_def nl_chars)

lemma no_nl_key: "clean_key k \<Longrightarrow> nl \<notin> set k"
  unfolding clean_key_def by (rule no_nl_clean, elim conjE list.pred_mono_strong) simp

lemma no_nl_value: "clean_value v \<Longrightarrow> nl \<notin> set v"
  by (simp add: clean_value_def no_nl_clean)

lemma no_nl_service:
  assumes "service_ok ns" "l \<in> set (service_lines ns)"
  shows "nl \<notin> set l"
proof -
  obtain name svc where ns: "ns = (name, svc)" by (cases ns)
  have key: "nl \<notin> set (header_line n k)" if "clean_key k" for n k
    by (rule no_nl_lines) (rule no_nl_key [OF that])
  have val: "nl \<notin> set (key_line n k v)" if "clean_key k" "clean_value v" for n k v
    by (rule no_nl_lines) (rule no_nl_key [OF that(1)], rule no_nl_value [OF that(2)])
  have item: "nl \<notin> set (item_line i)" if "clean_item i" for i
    by (rule no_nl_lines) (use that in \<open>simp add: clean_item_def no_nl_clean\<close>)
  have items: "list_all (\<lambda>i. nl \<notin> set (item_line i)) is" if "list_all clean_item is" for "is"
    using that by (rule list.pred_mono_strong) (rule item)
  have env: "list_all (\<lambda>(k, v). nl \<notin> set (item_line (k @ CHR ''='' # v))) (cs_environment svc)"
  proof (rule list.pred_mono_strong)
    show "list_all (\<lambda>(k, v). CHR ''='' \<notin> set k \<and> clean_item (k @ ''='' @ v)) (cs_environment svc)"
      using assms(1) unfolding ns service_ok_def by simp
  qed (auto dest: item)
  have "list_all (\<lambda>l. nl \<notin> set l) (service_lines (name, svc))"
    using assms(1) env [unfolded case_prod_beta] unfolding ns service_ok_def
    by (simp add: service_lines_def key val items list.pred_map comp_def case_prod_beta)
  then show ?thesis using assms(2) ns by (simp add: list_all_iff)
qed

lemma parse_printed_lines:
  assumes "clean_value version" "list_all service_ok services" "std_map_wf services"
  shows "parse_lines (compose_lines version services) empty_compose =
     empty_compose\<lparr>cf_version := version, cf_services := services\<rparr>"
proof -
  let ?ls = "header_line 0 ''services'' # concat (map service_lines services)"
  have "parse_lines (key_line 0 ''version'' version # ?ls) empty_compose = parse_lines ?ls (empty_compose\<lparr>cf_version := version\<rparr>)"
    by (subst parse_lines.simps) (simp add: read_key_line assms(1) top_key_def)
  also have "\<dots> = parse_lines [] (empty_compose\<lparr>cf_version := version, cf_services := services\<rparr>)"
    by (subst parse_lines.simps)
      (simp add: read_header_line top_key_def parse_printed_services [OF assms(2)] fold_map_put_sorted [OF assms(3)] empty_compose_def)
  finally show ?thesis by (simp add: compose_lines_def parse_lines.simps)
qed

text \<open>
  \<^bold>\<open>C12\<close> Round trip: the reader recovers the version and every field of every service (scalars,
  \<open>privileged\<close>, \<open>depends_on\<close>, \<open>networks\<close>, \<open>volumes\<close> and \<open>environment\<close>) from the printed file, for any
  number of services whose names, values and items hold no blanks (a value may hold colons).
\<close>

theorem compose_round_trip:
  assumes "clean_value version" "list_all service_ok services" "std_map_wf services"
  shows "parse (unlines (compose_lines version services)) =
     Some (empty_compose\<lparr>cf_version := version, cf_services := services\<rparr>)"
proof -
  have "nl \<notin> set (key_line 0 ''version'' version)" "nl \<notin> set (header_line 0 ''services'')"
    by (rule no_nl_lines no_nl_key no_nl_value assms(1) compose_keys)+
  moreover have "\<forall>ns\<in>set services. \<forall>l\<in>set (service_lines ns). nl \<notin> set l"
    using assms(2) no_nl_service by (auto simp: list_all_iff)
  ultimately have "getlines nl (unlines (compose_lines version services)) = compose_lines version services"
    by (intro getlines_unlines) (auto simp: compose_lines_def)
  then show ?thesis using parse_printed_lines [OF assms] by (simp add: parse_def nl_def [symmetric])
qed

definition demo_services :: "(string, compose_service) std_map" where
  "demo_services =
     [(''db'', empty_service\<lparr>cs_name := ''db'', cs_image := ''postgres:16'', cs_environment := [(''PGPORT'', ''5432'')]\<rparr>),
      (''web'', empty_service\<lparr>cs_name := ''web'', cs_image := ''nginx'', cs_depends_on := [''db''], cs_privileged := True\<rparr>)]"

theorem compose_round_trip_witness:
  "parse (unlines (compose_lines ''3.8'' demo_services)) =
     Some (empty_compose\<lparr>cf_version := ''3.8'', cf_services := demo_services\<rparr>)"
  by (rule compose_round_trip)
    (simp_all add: clean_value_def demo_services_def empty_service_def service_ok_def clean_key_def
       clean_item_def trailing_blank_def std_map_wf_def)

end
