(* ===== verification/Agent_Protocol.thy ===== *)
theory Agent_Protocol
  imports Nazg_Prelude "HOL-Library.Word"
begin

text \<open>
  The wire format between agent and control center: \<open>modules/agent/include/agent/protocol.hpp\<close> and
  \<open>modules/agent/src/protocol.cpp\<close>. The header struct is copied byte for byte: the type byte, three
  padding bytes whose values the language leaves open (an argument here), and the 32-bit payload
  size in little-endian order, 8 bytes in all on the supported targets.
\<close>

type_synonym byte = "8 word"

datatype message_type =
    Hello | HelloAck | RunCommand | CommandAck | Heartbeat | Log | Result
  | Register | RegisterAck | DockerFullScan | DockerEvent | DockerIncrementalUpdate
  | DockerCommand | DockerCommandResult | Error

primrec type_code :: "message_type \<Rightarrow> byte" where
  "type_code Hello = 1"
| "type_code HelloAck = 2"
| "type_code RunCommand = 3"
| "type_code CommandAck = 4"
| "type_code Heartbeat = 5"
| "type_code Log = 6"
| "type_code Result = 7"
| "type_code Register = 10"
| "type_code RegisterAck = 11"
| "type_code DockerFullScan = 20"
| "type_code DockerEvent = 21"
| "type_code DockerIncrementalUpdate = 22"
| "type_code DockerCommand = 30"
| "type_code DockerCommandResult = 31"
| "type_code Error = 255"

text \<open>The enumeration has a fixed underlying type, so a received header may hold any byte.\<close>

record header =
  hd_type :: byte
  hd_payload_size :: "32 word"

definition sizeof_header :: nat where
  "sizeof_header = 8"

section \<open>Bytes\<close>

definition size_bytes :: "32 word \<Rightarrow> byte list" where
  "size_bytes w = map (\<lambda>i. of_nat (unat w div 256 ^ i)) [0, 1, 2, 3]"

definition bytes_size :: "byte list \<Rightarrow> 32 word" where
  "bytes_size bs = of_nat (unat (bs ! 0) + 256 * unat (bs ! 1) + 65536 * unat (bs ! 2) + 16777216 * unat (bs ! 3))"

definition char_byte :: "char \<Rightarrow> byte" where
  "char_byte c = of_nat (of_char c)"

definition byte_char :: "byte \<Rightarrow> char" where
  "byte_char b = char_of (unat b)"

definition header_bytes :: "byte list \<Rightarrow> header \<Rightarrow> byte list" where
  "header_bytes padding h = hd_type h # padding @ size_bytes (hd_payload_size h)"

definition read_header :: "byte list \<Rightarrow> header" where
  "read_header buffer = \<lparr>hd_type = buffer ! 0, hd_payload_size = bytes_size (drop 4 buffer)\<rparr>"

section \<open>Encoding and decoding\<close>

definition encode :: "byte list \<Rightarrow> header \<Rightarrow> string \<Rightarrow> byte list" where
  "encode padding h payload =
     (let local_header = h\<lparr>hd_payload_size := of_nat (length payload)\<rparr>
      in header_bytes padding local_header @ map char_byte payload)"

text \<open>The result, and the two output arguments after the call (given what they held before).\<close>

definition decode :: "byte list \<Rightarrow> header \<Rightarrow> string \<Rightarrow> bool \<times> header \<times> string" where
  "decode buffer out_header out_payload =
     (if length buffer < sizeof_header then (False, out_header, out_payload)
      else
        let h = read_header buffer;
            payload_size = unat (hd_payload_size h)
        in if length buffer < sizeof_header + payload_size then (False, h, out_payload)
           else (True, h, map byte_char (substr buffer sizeof_header payload_size)))"

section \<open>Lemmas\<close>

lemma byte_char_byte [simp]: "byte_char (char_byte c) = c"
proof -
  have "(of_char c :: nat) < 256" by (simp add: of_char_def)
  then show ?thesis by (simp add: byte_char_def char_byte_def unat_of_nat)
qed

lemma byte_char_comp [simp]: "byte_char \<circ> char_byte = id"
  by (simp add: fun_eq_iff)

lemma bytes_size_append: "length bs = 4 \<Longrightarrow> bytes_size (bs @ r) = bytes_size bs"
  by (simp add: bytes_size_def nth_append)

lemma bytes_size_take: "4 \<le> k \<Longrightarrow> bytes_size (take k bs) = bytes_size bs"
  by (simp add: bytes_size_def)

lemma four_digits:
  "n = a * 256 + r0 \<Longrightarrow> a = b * 256 + r1 \<Longrightarrow> b = c * 256 + r2 \<Longrightarrow>
     r0 + 256 * r1 + 65536 * r2 + 16777216 * c = (n :: nat)"
  by simp

lemma size_bytes_inverse [simp]: "bytes_size (size_bytes w) = w"
proof -
  have b: "unat w < 2 ^ 32" using unsigned_less [of w] by simp
  define n where "n = unat w"
  have "n mod 256 + 256 * (n div 256 mod 256) + 65536 * (n div 65536 mod 256) + 16777216 * (n div 16777216 mod 256) = n"
  proof -
    have "n div 65536 = n div 256 div 256" "n div 16777216 = n div 256 div 256 div 256"
      by (simp_all add: div_mult2_eq [symmetric])
    moreover have "n div 16777216 mod 256 = n div 16777216" using b by (simp add: n_def)
    ultimately show ?thesis
      using four_digits [OF div_mult_mod_eq [symmetric, of n 256] div_mult_mod_eq [symmetric, of "n div 256" 256]
          div_mult_mod_eq [symmetric, of "n div 256 div 256" 256]] by (simp only:)
  qed
  then have sum: "unat w mod 256 + 256 * (unat w div 256 mod 256) + 65536 * (unat w div 65536 mod 256)
      + 16777216 * (unat w div 16777216 mod 256) = unat w" unfolding n_def .
  have u8: "unat (of_nat x :: byte) = x mod 256" for x by (simp add: unat_of_nat)
  have nths: "size_bytes w ! 0 = of_nat (unat w)" "size_bytes w ! 1 = of_nat (unat w div 256)"
    "size_bytes w ! 2 = of_nat (unat w div 65536)" "size_bytes w ! 3 = of_nat (unat w div 16777216)"
    by (simp_all add: size_bytes_def)
  show ?thesis unfolding bytes_size_def nths u8 sum by simp
qed

lemma length_size_bytes [simp]: "length (size_bytes w) = 4"
  by (simp add: size_bytes_def)

lemma length_encode: "length padding = 3 \<Longrightarrow> length (encode padding h p) = sizeof_header + length p"
  by (simp add: encode_def header_bytes_def sizeof_header_def Let_def)

lemma read_header_encode:
  assumes "length padding = 3"
  shows "read_header (encode padding h p @ rest) = h\<lparr>hd_payload_size := of_nat (length p)\<rparr>"
proof -
  have "drop 4 (encode padding h p @ rest) = size_bytes (of_nat (length p)) @ map char_byte p @ rest"
    using assms by (simp add: encode_def header_bytes_def Let_def)
  then have "bytes_size (drop 4 (encode padding h p @ rest)) = of_nat (length p)"
    by (simp add: bytes_size_append)
  then show ?thesis by (simp add: read_header_def) (simp add: encode_def header_bytes_def Let_def)
qed

lemma drop_header_encode:
  assumes "length padding = 3"
  shows "drop sizeof_header (encode padding h p @ rest) = map char_byte p @ rest"
  using assms by (simp add: encode_def header_bytes_def Let_def sizeof_header_def)

lemma decode_encode_prefix:
  assumes "length padding = 3"
  shows "decode (encode padding h p @ rest) oh op =
     (True, h\<lparr>hd_payload_size := of_nat (length p)\<rparr>,
      map byte_char (take (length p mod 2 ^ 32) (map char_byte p @ rest)))"
proof -
  have sz: "unat (of_nat (length p) :: 32 word) = length p mod 2 ^ 32" by (simp add: unat_of_nat)
  have "length p mod 2 ^ 32 \<le> length p" by (rule mod_less_eq_dividend)
  then have "sizeof_header + length p mod 2 ^ 32 \<le> length (encode padding h p @ rest)"
    using length_encode [OF assms] by simp
  then show ?thesis
    unfolding decode_def read_header_encode [OF assms] Let_def
    by (simp add: sz substr_def drop_header_encode [OF assms] del: take_append drop_append)
qed

section \<open>The codec\<close>

definition encode_message :: "byte \<times> string \<Rightarrow> byte list" where
  "encode_message m = encode [0, 0, 0] \<lparr>hd_type = fst m, hd_payload_size = 0\<rparr> (snd m)"

definition decode_message :: "byte list \<Rightarrow> (byte \<times> string) option" where
  "decode_message buffer =
     (case decode buffer \<lparr>hd_type = 255, hd_payload_size = 0\<rparr> [] of
        (ok, h, payload) \<Rightarrow> if ok then Some (hd_type h, payload) else None)"

interpretation wire: codec encode_message decode_message "\<lambda>m. length (snd m) < 2 ^ 32"
proof unfold_locales
  fix m :: "byte \<times> string" assume "length (snd m) < 2 ^ 32"
  then show "decode_message (encode_message m) = Some m"
    using decode_encode_prefix [of "[0, 0, 0]" "\<lparr>hd_type = fst m, hd_payload_size = 0\<rparr>" "snd m" "[]"]
    by (simp add: decode_message_def encode_message_def)
qed

section \<open>Properties\<close>

text \<open>
  Wire round trip: whatever the padding bytes are and whatever follows in the buffer, decoding an
  encoded message succeeds with the type sent, the true size and exactly the payload, as long as the
  payload is shorter than \<open>2^32\<close> bytes; the size the caller put in the header does not matter.
\<close>

lemma decode_encode:
  assumes "length padding = 3" "length payload < 2 ^ 32"
  shows "decode (encode padding h payload @ rest) oh op =
     (True, \<lparr>hd_type = hd_type h, hd_payload_size = of_nat (length payload)\<rparr>, payload)"
  using decode_encode_prefix [OF assms(1), of h payload rest oh op] assms(2) by simp

lemma decode_encode_example:
  "decode (encode [1, 2, 3] \<lparr>hd_type = type_code Heartbeat, hd_payload_size = 99\<rparr> ''ok'' @ [7]) \<lparr>hd_type = 0, hd_payload_size = 0\<rparr> []
     = (True, \<lparr>hd_type = 5, hd_payload_size = 2\<rparr>, ''ok'')"
  using decode_encode [of "[1, 2, 3]" "''ok''"] by simp

text \<open>
  Short reads are refused: every proper prefix of an encoded message is rejected, and the payload
  argument is left as it was, so a receiver that keeps reading until \<open>decode\<close> succeeds never sees a
  partial payload.
\<close>

lemma decode_truncated:
  assumes "length padding = 3" "length payload < 2 ^ 32" "n < length (encode padding h payload)"
  shows "case decode (take n (encode padding h payload)) oh op of (ok, _, payload') \<Rightarrow> \<not> ok \<and> payload' = op"
proof (cases "n < sizeof_header")
  case True
  then have "length (take n (encode padding h payload)) < sizeof_header" by simp
  then show ?thesis by (simp add: decode_def)
next
  case False
  let ?buf = "take n (encode padding h payload)"
  have len: "length ?buf = n" using assms(3) by simp
  have "read_header ?buf = read_header (encode padding h payload)"
    using False by (simp add: read_header_def sizeof_header_def drop_take bytes_size_take)
  also have "\<dots> = h\<lparr>hd_payload_size := of_nat (length payload)\<rparr>"
    using read_header_encode [OF assms(1), of h payload "[]"] by simp
  finally have "unat (hd_payload_size (read_header ?buf)) = length payload"
    using assms(2) by (simp add: unat_of_nat)
  moreover have "n < sizeof_header + length payload" using assms(3) length_encode [OF assms(1)] by simp
  ultimately show ?thesis using len by (simp add: decode_def Let_def)
qed

lemma decode_truncated_example:
  "fst (decode (take 9 (encode [0, 0, 0] \<lparr>hd_type = 5, hd_payload_size = 0\<rparr> ''ok'')) \<lparr>hd_type = 0, hd_payload_size = 0\<rparr> ''old'') = False"
  using decode_truncated [where padding = "[0, 0, 0]" and payload = "''ok''" and n = 9
      and h = "\<lparr>hd_type = 5, hd_payload_size = 0\<rparr>" and oh = "\<lparr>hd_type = 0, hd_payload_size = 0\<rparr>" and op = "''old''"]
  by (auto simp: length_encode sizeof_header_def split: prod.splits)

text \<open>
  Wrap-around of the size field: the payload length is cast to 32 bits without a check, so a
  payload of \<open>2^32\<close> bytes or more is accepted and decodes successfully to its first
  \<open>length mod 2^32\<close> bytes only.
\<close>

lemma oversize_payload_truncated:
  assumes "length padding = 3" "2 ^ 32 \<le> length payload"
  shows "case decode (encode padding h payload) oh op of (ok, _, payload') \<Rightarrow>
     ok \<and> payload' = take (length payload mod 2 ^ 32) payload \<and> length payload' < length payload"
proof -
  have l: "length payload mod 2 ^ 32 < length payload"
    using assms(2) by (meson less_le_trans mod_less_divisor zero_less_numeral zero_less_power)
  have "map byte_char (take (length payload mod 2 ^ 32) (map char_byte payload @ [])) = take (length payload mod 2 ^ 32) payload"
    by (simp add: take_map)
  then show ?thesis using decode_encode_prefix [OF assms(1), of h payload "[]" oh op] l by simp
qed

end
