(* ===== verification/Task_Build.thy ===== *)
theory Task_Build
  imports System_Process Brain_Planner
begin

text \<open>
  Carrying out a plan: \<open>Executor\<close> (\<open>modules/task/src/executor.cpp\<close>) and \<open>Builder\<close>
  (\<open>modules/task/src/builder.cpp\<close>). The machine is an argument: what \<open>popen\<close> or the forked child does with a
  shell text, and the measured duration. \<^const>\<open>None\<close> stands for a call that does not return.
\<close>

record machine =
  mc_popen :: "string \<Rightarrow> (string list \<times> int) option"
  mc_child :: "string \<Rightarrow> int \<Rightarrow> (poll_event list \<times> int) option"
  mc_elapsed_ms :: "string \<Rightarrow> int"

record execution_result =
  er_exit_code :: int
  er_duration_ms :: int
  er_stdout :: string
  er_success :: bool
  er_error_message :: string

definition no_result :: execution_result where
  "no_result = \<lparr>er_exit_code = 0, er_duration_ms = 0, er_stdout = [], er_success = False, er_error_message = []\<rparr>"

section \<open>Executor\<close>

definition with_workdir :: "string \<Rightarrow> string \<Rightarrow> string" where
  "with_workdir cmd dir = (if dir = [] then cmd else ''cd '' @ shell_quote dir @ '' && '' @ cmd)"

definition run_full :: "machine \<Rightarrow> int \<Rightarrow> string \<Rightarrow> execution_result option" where
  "run_full mc timeout_ms full_cmd =
     map_option (\<lambda>cr. no_result\<lparr>er_exit_code := cr_exit_code cr, er_stdout := cr_output cr,
        er_duration_ms := mc_elapsed_ms mc full_cmd, er_success := (cr_exit_code cr = 0)\<rparr>)
       (if timeout_ms > 0 then run_command_with_timeout (mc_child mc full_cmd timeout_ms)
        else Some (run_command_capture (mc_popen mc) full_cmd))"

definition execute_text :: "string \<Rightarrow> string list \<Rightarrow> string \<Rightarrow> string" where
  "execute_text command args working_dir =
     with_workdir ((command @ concat (map (\<lambda>arg. '' '' @ arg) args)) @ '' 2>&1'') working_dir"

definition execute :: "machine \<Rightarrow> int \<Rightarrow> string \<Rightarrow> string list \<Rightarrow> string \<Rightarrow> execution_result option" where
  "execute mc timeout_ms command args working_dir = run_full mc timeout_ms (execute_text command args working_dir)"

definition shell_text :: "string \<Rightarrow> string \<Rightarrow> string" where
  "shell_text command working_dir = with_workdir (command @ '' 2>&1'') working_dir"

definition execute_shell :: "machine \<Rightarrow> int \<Rightarrow> string \<Rightarrow> string \<Rightarrow> execution_result option" where
  "execute_shell mc timeout_ms command working_dir = run_full mc timeout_ms (shell_text command working_dir)"

section \<open>Builder\<close>

text \<open>The builder's executor keeps its default timeout of 0.\<close>

definition build :: "machine \<Rightarrow> plan \<Rightarrow> execution_result option" where
  "build mc p =
     (if pl_action p = SKIP then Some (no_result\<lparr>er_success := True, er_exit_code := 0\<rparr>)
      else if pl_action p = UNKNOWN then Some (no_result\<lparr>er_success := False, er_error_message := pl_reason p\<rparr>)
      else if pl_command p = ''/bin/sh'' \<and> length (pl_args p) = 2 \<and> pl_args p ! 0 = ''-c''
      then execute_shell mc 0 (pl_args p ! 1) (pl_working_dir p)
      else execute mc 0 (pl_command p) (pl_args p) (pl_working_dir p))"

definition record_build :: "plan \<Rightarrow> execution_result \<Rightarrow> (string \<times> string list \<times> int \<times> int) \<times> (string \<times> string \<times> string)" where
  "record_build p r =
     ((pl_command p, pl_args p, er_exit_code r, er_duration_ms r),
      (if er_success r then ''info'' else ''error'', ''builder'',
       if er_success r then ''Build completed (exit: '' @ to_string (er_exit_code r) @ '')''
       else ''Build failed (exit: '' @ to_string (er_exit_code r) @ '')''))"

section \<open>Properties\<close>

lemma concat_space_join: "command @ concat (map (\<lambda>arg. '' '' @ arg) args) = join_with '' '' (command # args)"
proof (induction args arbitrary: command)
  case (Cons a args)
  show ?case using Cons [of a] by simp
qed simp

lemma build_returns: "build mc p \<noteq> None"
  by (simp add: build_def execute_def execute_shell_def run_full_def)

text \<open>
  The commands a decided plan stands for, as lists of words: the two steps of CMake, which the planner writes as one text for
  \<open>/bin/sh -c\<close>, or the command with its arguments.
\<close>

definition plan_commands :: "plan \<Rightarrow> string list list" where
  "plan_commands p =
     (if pl_command p = ''/bin/sh''
      then [[''cmake'', ''-B'', ''build'', ''-S'', ''.''], [''cmake'', ''--build'', ''build'', ''-j4'']]
      else [pl_command p # pl_args p])"

definition cmake_script :: string where
  "cmake_script = ''cmake -B build -S . && cmake --build build -j4''"

lemma decided_command:
  assumes "pl_action (fst (decide info snap)) \<in> {BUILD, TEST}"
  shows "(if pl_command (fst (decide info snap)) = ''/bin/sh'' then pl_args (fst (decide info snap)) = [''-c'', cmake_script]
     else list_all plain_word (pl_command (fst (decide info snap)) # pl_args (fst (decide info snap))))"
proof -
  have b: "pl_action (generate_build_plan info) = BUILD \<Longrightarrow>
      (if pl_command (generate_build_plan info) = ''/bin/sh'' then pl_args (generate_build_plan info) = [''-c'', cmake_script]
       else list_all plain_word (pl_command (generate_build_plan info) # pl_args (generate_build_plan info)))"
    by (simp add: generate_build_plan_def Let_def empty_plan_def plain_word_def sh_special_def cmake_script_def split: if_splits)
  have t: "pl_action (generate_test_plan info) = TEST \<Longrightarrow> pl_command (generate_test_plan info) \<noteq> ''/bin/sh'' \<and>
      list_all plain_word (pl_command (generate_test_plan info) # pl_args (generate_test_plan info))"
    by (simp add: generate_test_plan_def Let_def empty_plan_def plain_word_def sh_special_def split: if_splits)
  have nb: "pl_action (generate_build_plan info) \<noteq> TEST" "pl_action (generate_test_plan info) \<noteq> BUILD"
    by (simp_all add: generate_build_plan_def generate_test_plan_def Let_def empty_plan_def)
  show ?thesis using assms b t nb
    by (auto simp: decide_def Let_def empty_plan_def split: if_splits)
qed

lemma read_cd: "sh_read (''cd '' @ shell_quote dir) = Some [''cd'', dir]"
  using read_command_quoted [of "''cd''" "[dir]"] by (simp add: plain_word_def sh_special_def)

text \<open>The text of the plan: commands joined by \<open>&&\<close>, each read by the shell as the words meant.\<close>

lemma workdir_parts:
  assumes "cmds \<noteq> []"
  shows "with_workdir (join_with '' && '' cmds @ '' 2>&1'') dir =
     join_with '' && '' ((if dir = [] then [] else [''cd '' @ shell_quote dir]) @ cmds) @ '' 2>&1''"
  using assms by (cases cmds) (simp_all add: with_workdir_def)

lemma join_single: "join_with sep [x] = x"
  by simp

lemma build_text:
  assumes "decide info snap = (p, ev)" "pl_action p \<in> {BUILD, TEST}"
  shows "\<exists>cmds. map sh_read cmds = map Some (plan_commands p) \<and> cmds \<noteq> [] \<and>
     build mc p = run_full mc 0 (with_workdir (join_with '' && '' cmds @ '' 2>&1'') (pl_working_dir p))"
proof (cases "pl_command p = ''/bin/sh''")
  case True
  have p: "pl_args p = [''-c'', cmake_script]" using decided_command [of info snap] assms True by simp
  let ?cmds = "[''cmake -B build -S .'', ''cmake --build build -j4'']"
  have "map sh_read ?cmds = map Some (plan_commands p)" using True by (simp add: plan_commands_def) code_simp
  moreover have "join_with '' && '' ?cmds = cmake_script" by (simp add: cmake_script_def)
  ultimately show ?thesis using assms(2) True p
    by (intro exI [of _ ?cmds]) (auto simp: build_def execute_shell_def shell_text_def)
next
  case False
  let ?line = "join_with '' '' (pl_command p # pl_args p)"
  have read: "sh_read ?line = Some (pl_command p # pl_args p)"
    using decided_command [of info snap] assms False by (intro read_plain_words) simp
  have run: "build mc p = run_full mc 0 (with_workdir (?line @ '' 2>&1'') (pl_working_dir p))"
    using assms(2) False unfolding build_def execute_def execute_text_def concat_space_join by auto
  show ?thesis
    by (intro exI [of _ "[?line]"] conjI)
      (simp_all only: run read plan_commands_def False if_False list.map not_Cons_self2 join_single list.distinct simp_thms)
qed

text \<open>
  \<^bold>\<open>C37\<close> A decided plan is run as planned: for every project and snapshot, a plan that builds or tests gives the
  shell one text, commands joined by \<open>&&\<close>, which are read as a \<open>cd\<close> to the planned directory as a single word
  whatever characters it holds (none for an empty directory), then exactly the planned command with its
  arguments, or for CMake the configuration and the build; the last of them has its errors in the output too, and
  the result reports success exactly for exit code 0. A plan to skip succeeds and one that is unknown fails
  with its reason, both without running anything.
\<close>

theorem build_runs_plan:
  assumes "decide info snap = (p, ev)"
  shows "(pl_action p = SKIP \<longrightarrow> build mc p = Some (no_result\<lparr>er_success := True\<rparr>)) \<and>
     (pl_action p = UNKNOWN \<longrightarrow> build mc p = Some (no_result\<lparr>er_error_message := pl_reason p\<rparr>)) \<and>
     (pl_action p \<in> {BUILD, TEST} \<longrightarrow> (\<exists>parts r.
        map sh_read parts = map Some ((if pl_working_dir p = [] then [] else [[''cd'', pl_working_dir p]]) @ plan_commands p) \<and>
        build mc p = run_full mc 0 (join_with '' && '' parts @ '' 2>&1'') \<and>
        build mc p = Some r \<and> (er_success r \<longleftrightarrow> er_exit_code r = 0)))"
proof (intro conjI impI)
  assume "pl_action p \<in> {BUILD, TEST}"
  from build_text [OF assms this] obtain cmds where c: "map sh_read cmds = map Some (plan_commands p)" "cmds \<noteq> []"
    "build mc p = run_full mc 0 (with_workdir (join_with '' && '' cmds @ '' 2>&1'') (pl_working_dir p))" by blast
  obtain r where r: "build mc p = Some r" using build_returns [of mc p] by auto
  then have "er_success r \<longleftrightarrow> er_exit_code r = 0" using c(3) by (auto simp: run_full_def)
  with c r show "\<exists>parts r.
      map sh_read parts = map Some ((if pl_working_dir p = [] then [] else [[''cd'', pl_working_dir p]]) @ plan_commands p) \<and>
      build mc p = run_full mc 0 (join_with '' && '' parts @ '' 2>&1'') \<and> build mc p = Some r \<and> (er_success r \<longleftrightarrow> er_exit_code r = 0)"
    by (intro exI [of _ "(if pl_working_dir p = [] then [] else [''cd '' @ shell_quote (pl_working_dir p)]) @ cmds"] exI [of _ r])
      (use read_cd [of "pl_working_dir p"] in \<open>simp add: workdir_parts [OF c(2)]\<close>)
qed (simp_all add: build_def no_result_def)

definition demo_info :: project_info where
  "demo_info = \<lparr>pi_root_path = ''/my proj'', pi_language = ''c'', pi_build_system = ''cmake'', pi_scm = ''none'', pi_tools = [],
     pi_has_cmake = True, pi_has_makefile = False, pi_has_git = False, pi_test_framework = [], pi_has_tests = False,
     pi_test_directory = []\<rparr>"

theorem build_runs_plan_witness:
  "\<exists>parts. map sh_read parts = [Some [''cd'', ''/my proj''], Some [''cmake'', ''-B'', ''build'', ''-S'', ''.''],
      Some [''cmake'', ''--build'', ''build'', ''-j4'']]
     \<and> build \<lparr>mc_popen = (\<lambda>_. Some ([''ok''], 0)), mc_child = (\<lambda>_ _. None), mc_elapsed_ms = (\<lambda>_. 3)\<rparr>
         (fst (decide demo_info \<lparr>sr_tree_hash = ''h'', sr_changed = True, sr_previous_hash = []\<rparr>))
       = run_full \<lparr>mc_popen = (\<lambda>_. Some ([''ok''], 0)), mc_child = (\<lambda>_ _. None), mc_elapsed_ms = (\<lambda>_. 3)\<rparr> 0
           (join_with '' && '' parts @ '' 2>&1'')"
proof -
  let ?snap = "\<lparr>sr_tree_hash = ''h'', sr_changed = True, sr_previous_hash = []\<rparr>"
  obtain p ev where d: "decide demo_info ?snap = (p, ev)" by (cases "decide demo_info ?snap")
  then have "p = fst (decide demo_info ?snap)" by simp
  then have "pl_action p = BUILD" "pl_command p = ''/bin/sh''" "pl_working_dir p = ''/my proj''"
    by (simp_all add: decide_def Let_def demo_info_def generate_build_plan_def empty_plan_def)
  note plan = this
  let ?mc = "\<lparr>mc_popen = (\<lambda>_. Some ([''ok''], 0)), mc_child = (\<lambda>_ _. None), mc_elapsed_ms = (\<lambda>_. 3)\<rparr>"
  have "pl_action p \<in> {BUILD, TEST}" by (simp add: plan)
  from build_runs_plan [OF d, of ?mc, THEN conjunct2, THEN conjunct2, THEN mp, OF this] obtain parts where
    "map sh_read parts = map Some ((if pl_working_dir p = [] then [] else [[''cd'', pl_working_dir p]]) @ plan_commands p)"
    "build ?mc p = run_full ?mc 0 (join_with '' && '' parts @ '' 2>&1'')" by blast
  then show ?thesis using d plan by (intro exI [of _ parts]) (simp add: plan_commands_def)
qed

end
