(* ===== verification/Brain_Patterns.thy ===== *)
theory Brain_Patterns
  imports Complex_Main Nazg_Prelude
begin

text \<open>
  Similarity of failures: the private helpers of \<open>PatternMatcher\<close>
  (\<open>modules/brain/src/pattern_matcher.cpp\<close>): the two-row edit distance, the token similarity, and the
  text form of id lists. \<open>double\<close> results are rationals. The rows of the edit distance are lists; the
  loops run over the characters as the index loops of the code do.
\<close>

section \<open>Edit distance\<close>

text \<open>
  The inner loop for one character \<open>c\<close> of the first string: \<open>prev\<close> from the current column on, the
  cell to the left in the current row, and the rest of the second string.
\<close>

fun fill_row :: "char \<Rightarrow> string \<Rightarrow> nat list \<Rightarrow> nat \<Rightarrow> nat list" where
  "fill_row c (d # s2) (p0 # p1 # ps) left =
     (let cost = (if c = d then 0 else 1);
          cell = min (min (p1 + 1) (left + 1)) (p0 + cost)
      in cell # fill_row c s2 (p1 # ps) cell)"
| "fill_row c s2 ps left = []"

definition next_row :: "char \<Rightarrow> string \<Rightarrow> nat \<Rightarrow> nat list \<Rightarrow> nat list" where
  "next_row c s2 i prev = i # fill_row c s2 prev i"

fun rows :: "string \<Rightarrow> string \<Rightarrow> nat \<Rightarrow> nat list \<Rightarrow> nat list" where
  "rows [] s2 i prev = prev"
| "rows (c # s1) s2 i prev = rows s1 s2 (i + 1) (next_row c s2 i prev)"

definition levenshtein_distance :: "string \<Rightarrow> string \<Rightarrow> nat" where
  "levenshtein_distance s1 s2 = last (rows s1 s2 1 [0..<length s2 + 1])"

definition levenshtein_similarity :: "string \<Rightarrow> string \<Rightarrow> rat" where
  "levenshtein_similarity a b =
     (if a = [] \<and> b = [] then 1
      else if a = [] \<or> b = [] then 0
      else 1 - of_nat (levenshtein_distance a b) / of_nat (max (length a) (length b)))"

section \<open>Tokens\<close>

definition tokenize_error :: "string \<Rightarrow> string list" where
  "tokenize_error error =
     filter (\<lambda>w. length w > 2 \<and> \<not> list_all isdigit w)
       (map (\<lambda>w. filter (\<lambda>c. \<not> ispunct c) (map tolower w)) (words error))"

definition token_similarity :: "string \<Rightarrow> string \<Rightarrow> rat" where
  "token_similarity error_a error_b =
     (let tokens_a = tokenize_error error_a; tokens_b = tokenize_error error_b in
      if tokens_a = [] \<and> tokens_b = [] then 1
      else if tokens_a = [] \<or> tokens_b = [] then 0
      else
        let inter = card (set tokens_a \<inter> set tokens_b)
        in of_nat inter / of_nat (card (set tokens_a) + card (set tokens_b) - inter))"

definition extract_error_pattern :: "string \<Rightarrow> string" where
  "extract_error_pattern error_message =
     concat (map (\<lambda>l. l @ [nl]) (take 3 (filter (\<lambda>l. l \<noteq> []) (getlines nl error_message))))"

section \<open>Id lists\<close>

definition failure_ids_to_json :: "int list \<Rightarrow> string" where
  "failure_ids_to_json ids =
     (if ids = [] then ''[]'' else ''['' @ join_with '','' (map to_string ids) @ '']'')"

text \<open>\<^const>\<open>None\<close> is the exception of \<open>std::stoll\<close>.\<close>

definition id_blanks :: string where
  "id_blanks = [CHR '' '', CHR 0x09, CHR 0x0A, CHR 0x0D]"

definition erase_blanks :: "string \<Rightarrow> string" where
  "erase_blanks s = strip (\<lambda>c. c \<in> set id_blanks) s"

fun parse_ids :: "string list \<Rightarrow> int list option" where
  "parse_ids [] = Some []"
| "parse_ids (s # ss) =
     (let id_str = erase_blanks s in
      if id_str = [] then parse_ids ss
      else case stoll id_str of
             None \<Rightarrow> None
           | Some i \<Rightarrow> map_option (\<lambda>is. i # is) (parse_ids ss))"

definition parse_failure_ids_json :: "string \<Rightarrow> int list option" where
  "parse_failure_ids_json json =
     (if json = [] \<or> json = ''[]'' then Some []
      else parse_ids (getlines (CHR '','') (filter (\<lambda>c. c \<noteq> CHR ''['' \<and> c \<noteq> CHR '']'') json)))"

section \<open>The edit distance is the edit distance\<close>

text \<open>The textbook recursion, on the ends of the strings.\<close>

fun edit :: "'a list \<Rightarrow> 'a list \<Rightarrow> nat" where
  "edit [] t = length t"
| "edit s [] = length s"
| "edit (c # s) (d # t) = min (min (edit s (d # t) + 1) (edit (c # s) t + 1)) (edit s t + (if c = d then 0 else 1))"

lemma edit_Nil2 [simp]: "edit s [] = length s"
  by (cases s) simp_all

text \<open>
  Cell \<open>j\<close> of the row for a prefix of the first string is the edit distance to the prefix of length
  \<open>j\<close> of the second; the recursion looks at the last characters, hence the reversals.
\<close>

definition cell :: "string \<Rightarrow> string \<Rightarrow> nat \<Rightarrow> nat" where
  "cell p s2 j = edit (rev p) (rev (take j s2))"

lemma rev_take_Suc: "j < length s \<Longrightarrow> rev (take (Suc j) s) = s ! j # rev (take j s)"
  by (simp add: take_Suc_conv_app_nth)

lemma cell_snoc:
  assumes "j < length s2"
  shows "cell (p @ [c]) s2 (Suc j) =
     min (min (cell p s2 (Suc j) + 1) (cell (p @ [c]) s2 j + 1)) (cell p s2 j + (if c = s2 ! j then 0 else 1))"
  using assms by (simp add: cell_def rev_take_Suc)

lemma fill_row_cells:
  "j \<le> length s2 \<Longrightarrow> fill_row c (drop j s2) (map (cell p s2) [j..<length s2 + 1]) (cell (p @ [c]) s2 j)
     = map (cell (p @ [c]) s2) [Suc j..<length s2 + 1]"
proof (induction "length s2 - j" arbitrary: j)
  case 0
  then show ?case by simp
next
  case (Suc n)
  then have j: "j < length s2" by simp
  have d: "drop j s2 = s2 ! j # drop (Suc j) s2" using j by (simp add: Cons_nth_drop_Suc)
  have u: "[j..<length s2 + 1] = j # Suc j # [Suc (Suc j)..<length s2 + 1]" "[Suc j..<length s2 + 1] = Suc j # [Suc (Suc j)..<length s2 + 1]"
    using j by (simp_all add: upt_conv_Cons del: upt_Suc)
  have IH: "fill_row c (drop (Suc j) s2) (map (cell p s2) [Suc j..<length s2 + 1]) (cell (p @ [c]) s2 (Suc j))
     = map (cell (p @ [c]) s2) [Suc (Suc j)..<length s2 + 1]"
    using Suc.hyps(1) [of "Suc j"] Suc.hyps(2) j by simp
  show ?case unfolding d u list.map fill_row.simps Let_def
    using IH [unfolded u list.map] cell_snoc [OF j, of p c] by (simp only:)
qed

lemma next_row_cells:
  "next_row c s2 (length p + 1) (map (cell p s2) [0..<length s2 + 1]) = map (cell (p @ [c]) s2) [0..<length s2 + 1]"
proof -
  have "cell (p @ [c]) s2 0 = length p + 1" by (simp add: cell_def)
  then show ?thesis using fill_row_cells [of 0 s2 c p]
    by (simp add: next_row_def upt_conv_Cons del: upt_Suc)
qed

lemma rows_cells:
  "rows s1 s2 (length p + 1) (map (cell p s2) [0..<length s2 + 1]) = map (cell (p @ s1) s2) [0..<length s2 + 1]"
proof (induction s1 arbitrary: p)
  case (Cons c s1)
  show ?case using Cons [of "p @ [c]"] unfolding rows.simps next_row_cells by simp
qed simp

lemma levenshtein_cell: "levenshtein_distance s1 s2 = edit (rev s1) (rev s2)"
proof -
  have "map (cell [] s2) [0..<length s2 + 1] = [0..<length s2 + 1]"
    by (intro nth_equalityI) (auto simp: cell_def simp del: upt_Suc)
  then have "rows s1 s2 1 [0..<length s2 + 1] = map (cell s1 s2) [0..<length s2 + 1]"
    using rows_cells [of s1 s2 "[]"] by simp
  then show ?thesis by (simp add: levenshtein_distance_def cell_def)
qed

text \<open>
  The meaning of the distance: an alignment of the two strings deletes, inserts, substitutes or
  keeps characters, and costs one for each that is not kept.
\<close>

inductive align :: "'a list \<Rightarrow> 'a list \<Rightarrow> nat \<Rightarrow> bool" where
  align_end: "align [] [] 0"
| align_delete: "align s t n \<Longrightarrow> align (c # s) t (n + 1)"
| align_insert: "align s t n \<Longrightarrow> align s (d # t) (n + 1)"
| align_both: "align s t n \<Longrightarrow> align (c # s) (d # t) (n + (if c = d then 0 else 1))"

lemma align_insert_all: "align [] t (length t)"
  by (induction t) (auto intro: align_end align_insert [of "[]", simplified])

lemma align_delete_all: "align s [] (length s)"
  by (induction s) (auto intro: align_end align_delete [of _ "[]", simplified])

lemma align_edit: "align s t (edit s t)"
proof (induction s t rule: edit.induct)
  case (3 c s d t)
  let ?e = "edit (c # s) (d # t)"
  consider "?e = edit s (d # t) + 1" | "?e = edit (c # s) t + 1" | "?e = edit s t + (if c = d then 0 else 1)"
    by (metis edit.simps(3) min_def)
  then show ?case
  proof cases
    case 1
    show ?thesis unfolding 1 by (rule align_delete) (rule 3)
  next
    case 2
    show ?thesis unfolding 2 by (rule align_insert) (rule 3)
  next
    case e: 3
    show ?thesis unfolding e by (rule align_both) (rule 3)
  qed
next
  case (2 c s)
  show ?case using align_delete_all [of "c # s"] by simp
qed (simp add: align_insert_all)

lemma edit_step:
  "edit (c # s) t \<le> edit s t + 1" "edit s (d # t) \<le> edit s t + 1"
  "edit (c # s) (d # t) \<le> edit s t + (if c = d then 0 else 1)"
proof -
  have min3: "min (min a b) c \<le> a" "min (min a b) c \<le> b" "min (min a b) c \<le> c" for a b c :: nat by auto
  show "edit (c # s) t \<le> edit s t + 1"
    by (cases t) (simp, simp only: edit.simps(3) min3(1))
  show "edit s (d # t) \<le> edit s t + 1"
    by (cases s) (simp, simp only: edit.simps(3) min3(2))
  show "edit (c # s) (d # t) \<le> edit s t + (if c = d then 0 else 1)"
    unfolding edit.simps(3) by (rule min3(3))
qed

lemma edit_le_align: "align s t n \<Longrightarrow> edit s t \<le> n"
proof (induction rule: align.induct)
  case (align_delete s t n c)
  then show ?case using edit_step(1) [of c s t] by simp
next
  case (align_insert s t n d)
  then show ?case using edit_step(2) [of s d t] by simp
next
  case (align_both s t n c d)
  then show ?case using edit_step(3) [of c s d t] by simp
qed simp

lemma align_append: "align s t n \<Longrightarrow> align s' t' m \<Longrightarrow> align (s @ s') (t @ t') (m + n)"
proof (induction rule: align.induct)
  case (align_delete s t n c)
  then show ?case using align.align_delete [of "s @ s'" "t @ t'" "m + n" c] by simp
next
  case (align_insert s t n d)
  then show ?case using align.align_insert [of "s @ s'" "t @ t'" "m + n" d] by simp
next
  case (align_both s t n c d)
  then show ?case using align.align_both [of "s @ s'" "t @ t'" "m + n" c d] by (simp add: add.assoc)
qed simp

lemma align_rev: "align s t n \<Longrightarrow> align (rev s) (rev t) n"
proof (induction rule: align.induct)
  case align_end
  show ?case by (simp add: align.align_end)
next
  case (align_delete s t n c)
  then show ?case using align_append [OF align_delete.IH align.align_delete [OF align.align_end]] by simp
next
  case (align_insert s t n d)
  then show ?case using align_append [OF align_insert.IH align.align_insert [OF align.align_end]] by simp
next
  case (align_both s t n c d)
  then show ?case
    using align_append [OF align_both.IH align.align_both [OF align.align_end, of c d]] by (simp add: add.commute)
qed

lemma align_sym: "align s t n \<Longrightarrow> align t s n"
proof (induction rule: align.induct)
  case (align_both s t n c d)
  then show ?case using align.align_both [of t s n d c] by (simp add: eq_commute [of d c])
next
  case (align_delete s t n c)
  show ?case by (rule align.align_insert [OF align_delete.IH])
next
  case (align_insert s t n d)
  show ?case by (rule align.align_delete [OF align_insert.IH])
qed (rule align_end)

lemma levenshtein_least:
  "align s1 s2 (levenshtein_distance s1 s2)" "align s1 s2 n \<Longrightarrow> levenshtein_distance s1 s2 \<le> n"
proof -
  show "align s1 s2 (levenshtein_distance s1 s2)"
    using align_rev [OF align_edit [of "rev s1" "rev s2"]] by (simp add: levenshtein_cell)
  show "align s1 s2 n \<Longrightarrow> levenshtein_distance s1 s2 \<le> n"
    unfolding levenshtein_cell by (rule edit_le_align) (rule align_rev)
qed

lemma levenshtein_sym: "levenshtein_distance a b = levenshtein_distance b a"
  using levenshtein_least(2) [OF align_sym [OF levenshtein_least(1) [of b a]]]
    levenshtein_least(2) [OF align_sym [OF levenshtein_least(1) [of a b]]] by simp

lemma edit_le_max: "edit s t \<le> max (length s) (length t)"
  by (induction s t rule: edit.induct) auto

lemma edit_refl [simp]: "edit s s = 0"
  by (induction s) auto

lemma edit_zero: "edit s t = 0 \<longleftrightarrow> s = t"
proof
  show "edit s t = 0 \<Longrightarrow> s = t"
    by (induction s t rule: edit.induct) (auto simp: min_def split: if_splits)
qed simp

lemma levenshtein_bounds:
  "levenshtein_distance a b \<le> max (length a) (length b)" "levenshtein_distance a b = 0 \<longleftrightarrow> a = b"
  using edit_le_max [of "rev a" "rev b"] by (simp_all add: levenshtein_cell edit_zero)

section \<open>Properties\<close>

text \<open>
  \<^bold>\<open>C35\<close> The two-row algorithm computes the edit distance: its result is the cost of an alignment of the two
  strings, and no alignment is cheaper.
\<close>

theorem levenshtein_minimal:
  "align s1 s2 (levenshtein_distance s1 s2) \<and> (\<forall>n. align s1 s2 n \<longrightarrow> levenshtein_distance s1 s2 \<le> n)"
  using levenshtein_least by blast

theorem levenshtein_minimal_witness:
  "levenshtein_distance ''ab'' ''b'' \<le> 1"
proof -
  have "align ''ab'' ''b'' (0 + (if CHR ''b'' = CHR ''b'' then 0 else 1) + 1)"
    by (rule align_delete, rule align_both, rule align_end)
  then have "align ''ab'' ''b'' 1" by simp
  then show ?thesis using levenshtein_minimal by blast
qed

text \<open>
  Similarity scores are scores: both similarities are symmetric and lie between 0 and 1, and the
  edit similarity is 1 exactly for equal strings.
\<close>

lemma token_similarity_sym: "token_similarity a b = token_similarity b a"
  by (auto simp: token_similarity_def Let_def Int_commute add.commute)

lemma jaccard_range:
  assumes "finite A" "finite B" "A \<noteq> {}"
  shows "0 \<le> (of_nat (card (A \<inter> B)) :: rat) / of_nat (card A + card B - card (A \<inter> B))"
    "(of_nat (card (A \<inter> B)) :: rat) / of_nat (card A + card B - card (A \<inter> B)) \<le> 1"
proof -
  have "card (A \<union> B) = card A + card B - card (A \<inter> B)" using card_Un_Int [OF assms(1,2)] by simp
  moreover have "card (A \<inter> B) \<le> card (A \<union> B)" using assms by (intro card_mono) auto
  moreover have "0 < card (A \<union> B)" using assms by (simp add: card_gt_0_iff)
  ultimately show "0 \<le> (of_nat (card (A \<inter> B)) :: rat) / of_nat (card A + card B - card (A \<inter> B))"
    "(of_nat (card (A \<inter> B)) :: rat) / of_nat (card A + card B - card (A \<inter> B)) \<le> 1"
    by (simp_all add: divide_le_eq_1)
qed

lemma token_similarity_range: "0 \<le> token_similarity a b \<and> token_similarity a b \<le> 1"
  using jaccard_range [of "set (tokenize_error a)" "set (tokenize_error b)"]
  by (simp add: token_similarity_def Let_def)

lemma levenshtein_similarity_range:
  "0 \<le> levenshtein_similarity a b \<and> levenshtein_similarity a b \<le> 1 \<and> (levenshtein_similarity a b = 1 \<longleftrightarrow> a = b)"
proof (cases "a = [] \<or> b = []")
  case False
  let ?m = "max (length a) (length b)"
  have m: "0 < (of_nat ?m :: rat)" using False by (simp add: less_max_iff_disj)
  have le: "(of_nat (levenshtein_distance a b) :: rat) \<le> of_nat ?m" using levenshtein_bounds(1) [of a b] by (simp only: of_nat_le_iff)
  have "(of_nat (levenshtein_distance a b) :: rat) / of_nat ?m \<le> 1" using m le by (simp only: divide_le_eq_1_pos)
  moreover have "0 \<le> (of_nat (levenshtein_distance a b) :: rat) / of_nat ?m" using m by (intro divide_nonneg_pos) simp_all
  moreover have "(of_nat (levenshtein_distance a b) :: rat) / of_nat ?m = 0 \<longleftrightarrow> a = b"
    using m levenshtein_bounds(2) [of a b] by (simp only: divide_eq_0_iff of_nat_eq_0_iff) auto
  ultimately show ?thesis using False by (simp add: levenshtein_similarity_def)
qed (auto simp: levenshtein_similarity_def)

lemma similarity_scores:
  "0 \<le> levenshtein_similarity a b \<and> levenshtein_similarity a b \<le> 1
   \<and> levenshtein_similarity a b = levenshtein_similarity b a \<and> (levenshtein_similarity a b = 1 \<longleftrightarrow> a = b)
   \<and> 0 \<le> token_similarity a b \<and> token_similarity a b \<le> 1 \<and> token_similarity a b = token_similarity b a"
proof -
  have "levenshtein_similarity a b = levenshtein_similarity b a"
    by (simp add: levenshtein_similarity_def levenshtein_sym [of a b] max.commute)
  then show ?thesis
    using levenshtein_similarity_range [of a b] token_similarity_range [of a b] token_similarity_sym [of a b] by blast
qed

lemma to_string_chars:
  "to_string i \<noteq> [] \<and> (\<forall>c\<in>set (to_string i). isdigit c \<or> c = CHR ''-'')"
  using nat_digits_props by (auto simp: to_string_def)

lemma not_id_char:
  "isdigit c \<or> c = CHR ''-'' \<Longrightarrow> c \<noteq> CHR '','' \<and> c \<noteq> CHR ''['' \<and> c \<noteq> CHR '']'' \<and> c \<notin> set id_blanks"
  by (auto simp: isdigit_def id_blanks_def)

lemma erase_blanks_id: "erase_blanks (to_string i) = to_string i"
  unfolding erase_blanks_def using to_string_chars [of i] not_id_char
  by (intro strip_id) (metis hd_in_set last_in_set)

lemma getlines_join:
  "\<forall>w\<in>set ws. w \<noteq> [] \<and> d \<notin> set w \<Longrightarrow> getlines d (join_with [d] ws) = ws"
  by (induction ws) (auto simp: getlines_single getlines_Cons)

lemma parse_ids_strings:
  "\<forall>i\<in>set ids. - (2 ^ 63) \<le> i \<and> i < 2 ^ 63 \<Longrightarrow> parse_ids (map to_string ids) = Some ids"
  by (induction ids) (auto simp: erase_blanks_id to_string_chars stoll_to_string)

lemma filter_join:
  assumes "\<forall>w\<in>set ws. \<forall>c\<in>set w. P c" "\<forall>c\<in>set sep. P c"
  shows "filter P (join_with sep ws) = join_with sep ws"
  using assms by (induction ws) (auto simp: filter_id_conv)

lemma parse_printed_ids:
  assumes "\<forall>i\<in>set ids. - (2 ^ 63) \<le> i \<and> i < 2 ^ 63"
  shows "parse_failure_ids_json (failure_ids_to_json ids) = Some ids"
proof (cases "ids = []")
  case False
  let ?P = "\<lambda>c. c \<noteq> CHR ''['' \<and> c \<noteq> CHR '']''"
  let ?j = "join_with '','' (map to_string ids)"
  have ch: "\<forall>w\<in>set (map to_string ids). w \<noteq> [] \<and> CHR '','' \<notin> set w \<and> (\<forall>c\<in>set w. ?P c)"
  proof
    fix w assume "w \<in> set (map to_string ids)"
    then obtain i where "w = to_string i" by auto
    then show "w \<noteq> [] \<and> CHR '','' \<notin> set w \<and> (\<forall>c\<in>set w. ?P c)"
      using to_string_chars [of i] not_id_char by metis
  qed
  have "filter ?P ?j = ?j" by (rule filter_join) (use ch in auto)
  then have f: "filter ?P (''['' @ ?j @ '']'') = ?j" by simp
  have "?j \<noteq> []" using False ch by (cases ids) auto
  then have ne: "''['' @ ?j @ '']'' \<noteq> ''[]''" by simp
  have g: "getlines (CHR '','') ?j = map to_string ids" by (rule getlines_join) (use ch in auto)
  show ?thesis using False ne parse_ids_strings [OF assms]
    unfolding failure_ids_to_json_def parse_failure_ids_json_def by (simp only: if_False f g) simp
qed (simp add: failure_ids_to_json_def parse_failure_ids_json_def)

interpretation id_list: codec failure_ids_to_json parse_failure_ids_json "\<lambda>ids. \<forall>i\<in>set ids. - (2 ^ 63) \<le> i \<and> i < 2 ^ 63"
  by unfold_locales (rule parse_printed_ids)

text \<open>
  Stored id lists: every list of 64-bit ids is read back exactly from the text it is stored as, negative
  and extreme values included, so two lists with the same stored text are the same list.
\<close>

lemma failure_ids_round_trip:
  assumes "\<forall>i\<in>set ids. - (2 ^ 63) \<le> i \<and> i < 2 ^ 63"
  shows "parse_failure_ids_json (failure_ids_to_json ids) = Some ids
     \<and> (\<forall>ids'. (\<forall>i\<in>set ids'. - (2 ^ 63) \<le> i \<and> i < 2 ^ 63) \<longrightarrow> failure_ids_to_json ids' = failure_ids_to_json ids \<longrightarrow> ids' = ids)"
  using parse_printed_ids [OF assms] id_list.enc_inj assms by blast

lemma failure_ids_round_trip_example:
  "parse_failure_ids_json (failure_ids_to_json [7, -3, 9223372036854775807]) = Some [7, -3, 9223372036854775807]"
  using failure_ids_round_trip [of "[7, -3, 9223372036854775807]"] by simp

end
