(* ===== verification/Directive_Registry.thy ===== *)
theory Directive_Registry
  imports Nazg_Prelude
begin

text \<open>
  The command line's registry of directives: \<open>modules/directive/include/directive/registry.hpp\<close> and
  \<open>modules/directive/src/registry.cpp\<close>. The hash map is an ordered one here, since the code never
  iterates over it; listing goes through \<open>order_\<close>. A null function pointer is \<^const>\<open>None\<close>.
\<close>

record 'ctx command_spec =
  sp_name :: string
  sp_summary :: string
  sp_run :: "('ctx \<Rightarrow> string list \<Rightarrow> int) option"

record 'ctx registry =
  rg_map :: "(string, 'ctx command_spec) std_map"
  rg_order :: "string list"

definition empty_registry :: "'ctx registry" where
  "empty_registry = \<lparr>rg_map = [], rg_order = []\<rparr>"

definition add :: "'ctx command_spec \<Rightarrow> 'ctx registry \<Rightarrow> 'ctx registry" where
  "add spec r =
     (let existed = map_get (rg_map r) (sp_name spec) \<noteq> None;
          r1 = r\<lparr>rg_map := map_put (sp_name spec) spec (rg_map r)\<rparr>
      in if existed then r1 else r1\<lparr>rg_order := rg_order r1 @ [sp_name spec]\<rparr>)"

definition add_simple :: "string \<Rightarrow> string \<Rightarrow> ('ctx \<Rightarrow> string list \<Rightarrow> int) option \<Rightarrow> 'ctx registry \<Rightarrow> 'ctx registry" where
  "add_simple name summary fn r = add \<lparr>sp_name = name, sp_summary = summary, sp_run = fn\<rparr> r"

definition dispatch :: "'ctx registry \<Rightarrow> string \<Rightarrow> 'ctx \<Rightarrow> string list \<Rightarrow> bool \<times> int" where
  "dispatch r name ctx argv =
     (case map_get (rg_map r) name of
        None \<Rightarrow> (False, 2)
      | Some spec \<Rightarrow> (True, case sp_run spec of None \<Rightarrow> 0 | Some run \<Rightarrow> run ctx argv))"

definition find :: "'ctx registry \<Rightarrow> string \<Rightarrow> 'ctx command_spec option" where
  "find r name = map_get (rg_map r) name"

definition pad_right :: "nat \<Rightarrow> string \<Rightarrow> string" where
  "pad_right w s = s @ replicate (w - length s) (CHR '' '')"

definition column_width :: "string list \<Rightarrow> nat" where
  "column_width names = fold (\<lambda>n colw. max colw (length n)) names 0"

text \<open>The table of commands; \<^const>\<open>None\<close> is the exception of \<open>map_.at\<close>.\<close>

fun help_rows :: "'ctx registry \<Rightarrow> nat \<Rightarrow> string list \<Rightarrow> string list option" where
  "help_rows r colw [] = Some []"
| "help_rows r colw (n # ns) =
     (case map_get (rg_map r) n of
        None \<Rightarrow> None
      | Some s \<Rightarrow> map_option (\<lambda>rows. (''  '' @ pad_right colw (sp_name s) @ ''  '' @ sp_summary s @ [nl]) # rows) (help_rows r colw ns))"

definition print_help :: "'ctx registry \<Rightarrow> string \<Rightarrow> string option" where
  "print_help r prog =
     map_option (\<lambda>rows. ''usage: '' @ prog @ '' <command> [options]'' @ [nl, nl] @ ''commands:'' @ [nl] @ concat rows @
         [nl] @ ''Use: '' @ prog @ '' info [--json|--table] [--only=name,...] [--skip=name,...]'' @ [nl])
       (help_rows r (column_width (rg_order r)) (rg_order r))"

section \<open>Invariant\<close>

definition registry_ok :: "'ctx registry \<Rightarrow> bool" where
  "registry_ok r \<longleftrightarrow> std_map_wf (rg_map r) \<and> distinct (rg_order r) \<and> set (rg_order r) = set (map fst (rg_map r))
     \<and> (\<forall>(n, s)\<in>set (rg_map r). sp_name s = n)"

lemma map_get_None_keys: "map_get m k = None \<longleftrightarrow> k \<notin> set (map fst m)"
  by (simp add: map_get_def map_of_eq_None_iff)

lemma add_ok: "registry_ok r \<Longrightarrow> registry_ok (add spec r)"
proof -
  assume ok: "registry_ok r"
  have keys: "set (map fst (map_put (sp_name spec) spec (rg_map r))) = insert (sp_name spec) (set (map fst (rg_map r)))"
    by (rule keys_map_put)
  have names: "\<forall>(n, s)\<in>set (map_put (sp_name spec) spec (rg_map r)). sp_name s = n"
    using ok by (auto simp: registry_ok_def dest!: set_map_put)
  have wf: "std_map_wf (map_put (sp_name spec) spec (rg_map r))" using ok by (simp add: registry_ok_def std_map_wf_put)
  show ?thesis
  proof (cases "map_get (rg_map r) (sp_name spec) = None")
    case True
    then have "sp_name spec \<notin> set (rg_order r)" using ok by (simp add: registry_ok_def map_get_None_keys)
    then show ?thesis using True ok keys names wf by (simp add: add_def Let_def registry_ok_def)
  next
    case False
    then have "sp_name spec \<in> set (map fst (rg_map r))" by (simp add: map_get_None_keys)
    then show ?thesis using False ok keys names wf by (simp add: add_def Let_def registry_ok_def insert_absorb)
  qed
qed

definition put_run :: "string \<Rightarrow> ('ctx \<Rightarrow> string list \<Rightarrow> int) \<Rightarrow> 'ctx registry \<Rightarrow> 'ctx registry" where
  "put_run name run r = add_simple name [] (Some run) r"

definition get_run :: "'ctx registry \<Rightarrow> string \<Rightarrow> ('ctx \<Rightarrow> string list \<Rightarrow> int) option" where
  "get_run r name = Option.bind (find r name) sp_run"

lemma find_add: "find (add spec r) n = (if n = sp_name spec then Some spec else find r n)"
  by (simp add: find_def add_def Let_def std_map_laws)

interpretation directive_table: kv_table empty_registry put_run get_run registry_ok
  by unfold_locales
    (simp_all add: put_run_def get_run_def add_simple_def find_add add_ok,
     simp_all add: find_def empty_registry_def registry_ok_def std_map_wf_def)

section \<open>Properties\<close>

lemma help_rows_total:
  assumes "set ns \<subseteq> set (map fst (rg_map r))"
  shows "\<exists>rows. help_rows r colw ns = Some rows \<and> length rows = length ns"
  using assms
proof (induction ns)
  case (Cons n ns)
  then obtain s where "map_get (rg_map r) n = Some s" using map_get_None_keys [of "rg_map r" n] by auto
  with Cons show ?case by auto
qed simp

lemma registry_ok_fold: "registry_ok (fold add specs empty_registry)"
proof -
  have "registry_ok r \<Longrightarrow> registry_ok (fold add specs r)" for r :: "'a registry"
    by (induction specs arbitrary: r) (simp_all add: add_ok)
  moreover have "registry_ok (empty_registry :: 'a registry)"
    by (simp add: registry_ok_def empty_registry_def std_map_wf_def)
  ultimately show ?thesis by blast
qed

lemma order_fold:
  "set (rg_order (fold add specs empty_registry)) = set (map sp_name specs)"
proof (induction specs rule: rev_induct)
  case (snoc spec specs)
  have ok: "registry_ok (fold add specs empty_registry)" by (rule registry_ok_fold)
  have o: "rg_order (add spec r) = (if sp_name spec \<in> set (rg_order r) then rg_order r else rg_order r @ [sp_name spec])"
    if "registry_ok r" for r :: "'a registry"
    using that by (simp add: add_def Let_def registry_ok_def map_get_None_keys)
  show ?case using snoc o [OF ok] by auto
qed (simp add: empty_registry_def)

lemma find_fold: "find (fold add specs empty_registry) n = map_of (rev (map (\<lambda>s. (sp_name s, s)) specs)) n"
  by (induction specs rule: rev_induct) (auto simp: find_add, simp add: find_def empty_registry_def)

text \<open>
  Directives: after any sequence of registrations, dispatching a name runs the function registered
  last under it (code 0 when it has none) and refuses every other name with code 2; the listing
  holds each registered name exactly once, and printing the help never fails on a missing entry.
\<close>

lemma directive_registry_correct:
  "case fold add specs empty_registry of r \<Rightarrow>
     dispatch r name ctx argv =
       (case map_of (rev (map (\<lambda>s. (sp_name s, s)) specs)) name of
          None \<Rightarrow> (False, 2)
        | Some s \<Rightarrow> (True, case sp_run s of None \<Rightarrow> 0 | Some run \<Rightarrow> run ctx argv))
     \<and> distinct (rg_order r) \<and> set (rg_order r) = set (map sp_name specs)
     \<and> (\<exists>text. print_help r prog = Some text)"
proof -
  let ?r = "fold add specs empty_registry"
  have ok: "registry_ok ?r" by (rule registry_ok_fold)
  have "\<exists>text. print_help ?r prog = Some text"
  proof -
    have "set (rg_order ?r) \<subseteq> set (map fst (rg_map ?r))" using ok by (simp add: registry_ok_def)
    from help_rows_total [OF this] obtain rows where "help_rows ?r (column_width (rg_order ?r)) (rg_order ?r) = Some rows" by blast
    then show ?thesis by (simp add: print_help_def)
  qed
  moreover have "dispatch ?r name ctx argv =
       (case map_of (rev (map (\<lambda>s. (sp_name s, s)) specs)) name of
          None \<Rightarrow> (False, 2)
        | Some s \<Rightarrow> (True, case sp_run s of None \<Rightarrow> 0 | Some run \<Rightarrow> run ctx argv))"
    using find_fold [of specs name] by (simp add: dispatch_def find_def)
  ultimately show ?thesis using ok order_fold [of specs] by (simp add: registry_ok_def)
qed

end
