(* ===== verification/Blackbox_Logger.thy ===== *)
theory Blackbox_Logger
  imports Config_Store Brain_Planner "HOL-Library.Sublist"
begin

text \<open>
  The logger (\<open>src/modules/blackbox/src/logger.cpp\<close>, \<open>include/blackbox/\<close>): levels, the place of the log file,
  line formats, the daily file and the rotation by size. A call happens in a \<open>moment\<close>: the date and time texts, the
  process and thread names, and what the operating system does (which files can be opened, which renames
  work, how much of the stream's buffer is written early). The log directory maps paths to contents; an open stream
  has a buffer that reaches the file on a flush or a close. Every method holds the mutex, so calls are atomic. Warnings
  that the logger itself prints to standard error are left out of \<open>console\<close>.
\<close>

section \<open>Levels and options\<close>

datatype level = TRACE | DEBUG | INFO | SUCCESS | WARN | ERROR | FATAL | OFF

primrec level_rank :: "level \<Rightarrow> nat" where
  "level_rank TRACE = 0" | "level_rank DEBUG = 1" | "level_rank INFO = 2" | "level_rank SUCCESS = 3"
| "level_rank WARN = 4" | "level_rank ERROR = 5" | "level_rank FATAL = 6" | "level_rank OFF = 7"

lemma level_rank_inj: "level_rank a = level_rank b \<longleftrightarrow> a = b"
  by (cases a; cases b) simp_all

instantiation level :: linorder
begin

definition less_eq_level :: "level \<Rightarrow> level \<Rightarrow> bool" where
  "less_eq_level a b \<longleftrightarrow> level_rank a \<le> level_rank b"

definition less_level :: "level \<Rightarrow> level \<Rightarrow> bool" where
  "less_level a b \<longleftrightarrow> level_rank a < level_rank b"

instance
  by standard (auto simp: less_eq_level_def less_level_def level_rank_inj)

end

definition toupper :: "char \<Rightarrow> char" where
  "toupper c = (if islower c then char_of ((of_char c :: nat) - 32) else c)"

definition parse_level :: "string \<Rightarrow> level \<Rightarrow> level" where
  "parse_level str def =
     (let upper = map toupper str in
      if upper = ''TRACE'' then TRACE
      else if upper = ''DEBUG'' then DEBUG
      else if upper = ''INFO'' then INFO
      else if upper = ''SUCCESS'' \<or> upper = ''SUCC'' then SUCCESS
      else if upper = ''WARN'' \<or> upper = ''WARNING'' then WARN
      else if upper = ''ERROR'' \<or> upper = ''ERR'' then ERROR
      else if upper = ''FATAL'' then FATAL
      else if upper = ''OFF'' then OFF
      else def)"

datatype source_style = No_Source | Basename | Full

definition parse_source_style :: "string \<Rightarrow> source_style \<Rightarrow> source_style" where
  "parse_source_style str def =
     (let lower = map tolower str in
      if lower = ''none'' then No_Source
      else if lower = ''basename'' \<or> lower = ''base'' then Basename
      else if lower = ''full'' \<or> lower = ''fullpath'' then Full
      else def)"

definition level_name :: "level \<Rightarrow> string" where
  "level_name l = (case l of TRACE \<Rightarrow> ''TRACE'' | DEBUG \<Rightarrow> ''DEBUG'' | INFO \<Rightarrow> ''INFO'' | SUCCESS \<Rightarrow> ''SUCC'' | WARN \<Rightarrow> ''WARN''
     | ERROR \<Rightarrow> ''ERROR'' | FATAL \<Rightarrow> ''FATAL'' | OFF \<Rightarrow> ''OFF'')"

definition esc :: "string \<Rightarrow> string" where
  "esc code = CHR 0x1B # ''['' @ code @ ''m''"

definition level_color :: "level \<Rightarrow> string" where
  "level_color l = esc (case l of TRACE \<Rightarrow> ''90'' | DEBUG \<Rightarrow> ''36'' | INFO \<Rightarrow> ''37'' | SUCCESS \<Rightarrow> ''92'' | WARN \<Rightarrow> ''93''
     | ERROR \<Rightarrow> ''91'' | FATAL \<Rightarrow> ''95'' | OFF \<Rightarrow> ''0'')"

record log_options =
  min_level :: level
  console_enabled :: bool
  console_colors :: bool
  color_in_file :: bool
  file_path :: string
  rotate_bytes :: nat
  rotate_files :: int
  src_style :: source_style
  include_ms :: bool
  pad_level :: bool
  tag_width :: int
  include_tid :: bool
  include_pid :: bool

definition default_log_options :: log_options where
  "default_log_options = \<lparr>min_level = INFO, console_enabled = False, console_colors = True, color_in_file = False,
     file_path = ''nazg.log'', rotate_bytes = 5 * 1024 * 1024, rotate_files = 3, src_style = Basename, include_ms = True,
     pad_level = True, tag_width = 12, include_tid = True, include_pid = False\<rparr>"

section \<open>Where the log goes\<close>

record host =
  henv :: environment
  temp_dir :: "string option"
  cwd :: "string option"

text \<open>\<^const>\<open>None\<close>: \<open>fs::temp_directory_path\<close> or \<open>fs::current_path\<close> throws.\<close>

definition default_log_dir :: "host \<Rightarrow> string option" where
  "default_log_dir h =
     (case henv h ''XDG_STATE_HOME'' of
        Some xdg \<Rightarrow> Some (path_append (path_append xdg ''nazg'') ''logs'')
      | None \<Rightarrow>
          (case henv h ''HOME'' of
             Some home \<Rightarrow> Some (path_append (path_append (path_append (path_append home ''.local'') ''state'') ''nazg'') ''logs'')
           | None \<Rightarrow> map_option (\<lambda>t. path_append (path_append t ''nazg'') ''logs'') (temp_dir h)))"

definition resolve_log_path :: "host \<Rightarrow> string \<Rightarrow> string option" where
  "resolve_log_path h requested =
     (if requested = [] then Some []
      else let force_cwd = (case henv h ''NAZG_LOG_CWD'' of Some v \<Rightarrow> v = ''1'' \<or> v = ''true'' \<or> v = ''TRUE'' | None \<Rightarrow> False) in
        case henv h ''NAZG_LOG_DIR'' of
          Some dir \<Rightarrow> Some (path_append dir (filename requested))
        | None \<Rightarrow>
            if hd requested = CHR ''/'' \<or> hd requested = CHR ''.'' then Some requested
            else if force_cwd then map_option (\<lambda>d. path_append d requested) (cwd h)
            else map_option (\<lambda>d. path_append d requested) (default_log_dir h))"

text \<open>\<open>fs::path::parent_path\<close>: what precedes the last component, without the separators in between, but \<open>/\<close> at the root.\<close>

definition directory_of :: "string \<Rightarrow> string" where
  "directory_of p =
     (let d = rev (dropWhile (\<lambda>c. c \<noteq> CHR ''/'') (rev p));
          t = rev (dropWhile (\<lambda>c. c = CHR ''/'') (rev d))
      in if t = [] \<and> d \<noteq> [] then ''/'' else t)"

definition stem :: "string \<Rightarrow> string" where
  "stem p = take (length (filename p) - length (extension p)) (filename p)"

section \<open>State\<close>

record moment =
  today :: string
  stamp :: string
  millis :: nat
  pid :: string
  tid :: string
  can_open :: "string \<Rightarrow> bool"
  can_rename :: "string \<Rightarrow> string \<Rightarrow> bool"
  can_stat :: bool
  early :: "string \<Rightarrow> nat"

type_synonym log_disk = "string \<Rightarrow> string option"

record log_state =
  cfg :: log_options
  level :: level
  tui_mode :: bool
  resolved_dir :: string
  base_name :: string
  ext :: string
  current_date :: string
  current_path :: string
  out :: "string option"
  buffer :: string
  disk :: log_disk
  console :: string
  terminated :: bool

definition contents :: "log_disk \<Rightarrow> string \<Rightarrow> string" where
  "contents d p = (case d p of None \<Rightarrow> [] | Some s \<Rightarrow> s)"

definition flush_stream :: "log_state \<Rightarrow> log_state" where
  "flush_stream st =
     (case out st of
        None \<Rightarrow> st
      | Some p \<Rightarrow> st\<lparr>disk := (disk st)(p := Some (contents (disk st) p @ buffer st)), buffer := []\<rparr>)"

definition close_stream :: "log_state \<Rightarrow> log_state" where
  "close_stream st = (flush_stream st)\<lparr>out := None\<rparr>"

definition open_file_if_needed :: "moment \<Rightarrow> log_state \<Rightarrow> log_state" where
  "open_file_if_needed m st =
     (if current_path st \<noteq> [] \<and> out st = None \<and> can_open m (current_path st)
      then st\<lparr>out := Some (current_path st), buffer := [],
              disk := (disk st)(current_path st := Some (contents (disk st) (current_path st)))\<rparr>
      else st)"

definition make_dated_path :: "log_state \<Rightarrow> string \<Rightarrow> string" where
  "make_dated_path st date = path_append (resolved_dir st) (base_name st @ ''-'' @ date @ ext st)"

definition roll_to_today :: "moment \<Rightarrow> log_state \<Rightarrow> log_state" where
  "roll_to_today m st =
     (if today m = current_date st \<and> out st \<noteq> None then st
      else let st1 = (if out st \<noteq> None then close_stream st else st);
               st2 = st1\<lparr>current_date := today m\<rparr>
           in open_file_if_needed m (st2\<lparr>current_path := make_dated_path st2 (today m)\<rparr>))"

definition configure :: "host \<Rightarrow> moment \<Rightarrow> log_options \<Rightarrow> log_state \<Rightarrow> log_state" where
  "configure h m opts st =
     (let st1 = st\<lparr>cfg := opts, level := min_level opts\<rparr> in
      case resolve_log_path h (file_path opts) of
        None \<Rightarrow> st1\<lparr>cfg := opts\<lparr>console_enabled := True\<rparr>, current_path := []\<rparr>
      | Some req \<Rightarrow>
          roll_to_today m (st1\<lparr>resolved_dir := directory_of req,
            base_name := (if stem req = [] then ''nazg'' else stem req),
            ext := (if extension req = [] then ''.log'' else extension req)\<rparr>))"

definition new_logger :: "host \<Rightarrow> moment \<Rightarrow> log_options \<Rightarrow> log_disk \<Rightarrow> log_state" where
  "new_logger h m opts d = configure h m opts \<lparr>cfg = default_log_options, level = INFO, tui_mode = False, resolved_dir = [],
     base_name = [], ext = [], current_date = [], current_path = [], out = None, buffer = [], disk = d, console = [],
     terminated = False\<rparr>"

text \<open>The destructor.\<close>

definition drop_logger :: "log_state \<Rightarrow> log_state" where
  "drop_logger st = (if out st \<noteq> None then close_stream (flush_stream st) else st)"

definition set_level :: "level \<Rightarrow> log_state \<Rightarrow> log_state" where
  "set_level l st = st\<lparr>level := l\<rparr>"

definition set_color :: "bool \<Rightarrow> log_state \<Rightarrow> log_state" where
  "set_color b st = st\<lparr>cfg := (cfg st)\<lparr>console_colors := b\<rparr>\<rparr>"

definition set_tag_width :: "int \<Rightarrow> log_state \<Rightarrow> log_state" where
  "set_tag_width w st = (if 0 < w then st\<lparr>cfg := (cfg st)\<lparr>tag_width := w\<rparr>\<rparr> else st)"

definition enable_tui_mode :: "bool \<Rightarrow> log_state \<Rightarrow> log_state" where
  "enable_tui_mode b st = st\<lparr>tui_mode := b\<rparr>"

definition set_console_enabled :: "bool \<Rightarrow> log_state \<Rightarrow> log_state" where
  "set_console_enabled b st = st\<lparr>cfg := (cfg st)\<lparr>console_enabled := b\<rparr>\<rparr>"

section \<open>Rotation\<close>

definition rotated :: "string \<Rightarrow> nat \<Rightarrow> string" where
  "rotated p i = (if i = 0 then p else p @ ''.'' @ to_string (int i))"

definition rename_file :: "moment \<Rightarrow> string \<Rightarrow> string \<Rightarrow> log_disk \<Rightarrow> log_disk" where
  "rename_file m src dst d =
     (if d src \<noteq> None \<and> can_rename m src dst then (d(dst := d src))(src := None) else d)"

text \<open>The loop from \<open>rotate_files - 1\<close> down to 1.\<close>

primrec shift_files :: "moment \<Rightarrow> string \<Rightarrow> nat \<Rightarrow> log_disk \<Rightarrow> log_disk" where
  "shift_files m p 0 d = d"
| "shift_files m p (Suc i) d = shift_files m p i (rename_file m (rotated p (Suc i)) (rotated p (Suc (Suc i))) d)"

definition needs_rotation :: "moment \<Rightarrow> log_state \<Rightarrow> bool" where
  "needs_rotation m st \<longleftrightarrow> current_path st \<noteq> [] \<and> rotate_bytes (cfg st) \<noteq> 0 \<and> can_stat m \<and>
     (case disk st (current_path st) of None \<Rightarrow> False | Some s \<Rightarrow> rotate_bytes (cfg st) \<le> length s)"

definition maybe_rotate :: "moment \<Rightarrow> log_state \<Rightarrow> log_state" where
  "maybe_rotate m st =
     (if \<not> needs_rotation m st then st
      else let st1 = (if out st \<noteq> None then close_stream st else st);
               p = current_path st;
               d = shift_files m p (nat (rotate_files (cfg st) - 1)) (disk st1)
           in open_file_if_needed m (st1\<lparr>disk := rename_file m p (rotated p 1) d\<rparr>))"

section \<open>Lines\<close>

text \<open>\<open>std::left << std::setw(w)\<close>.\<close>

definition pad_right :: "nat \<Rightarrow> string \<Rightarrow> string" where
  "pad_right w s = s @ replicate (w - length s) (CHR '' '')"

definition now_string :: "moment \<Rightarrow> bool \<Rightarrow> string" where
  "now_string m with_ms =
     stamp m @ (if with_ms then ''.'' @ replicate (3 - length (nat_digits (millis m mod 1000))) (CHR ''0'') @ nat_digits (millis m mod 1000)
                else [])"

definition basename_of :: "string option \<Rightarrow> string" where
  "basename_of path =
     (case path of None \<Rightarrow> [] | Some s \<Rightarrow> rev (takeWhile (\<lambda>c. c \<noteq> CHR ''/'' \<and> c \<noteq> CHR 0x5C) (rev s)))"

definition format_prefix :: "moment \<Rightarrow> log_options \<Rightarrow> level \<Rightarrow> string option \<Rightarrow> int \<Rightarrow> string option \<Rightarrow> string option \<Rightarrow> string" where
  "format_prefix m c l src line func tag =
     now_string m (include_ms c) @ '' '' @
     (if pad_level c then pad_right 5 (level_name l) else level_name l) @ '' '' @
     (let t = (case tag of None \<Rightarrow> ''nazg'' | Some t \<Rightarrow> t)
      in ''['' @ (if 0 < tag_width c then pad_right (nat (tag_width c)) t else t) @ ''] '') @
     (if include_pid c \<or> include_tid c
      then ''('' @ (if include_pid c then ''pid='' @ pid m else []) @
           (if include_tid c then (if include_pid c then '' '' else []) @ ''tid='' @ tid m else []) @ '') ''
      else []) @
     (if src_style c = No_Source then []
      else let f = (if src_style c = Basename then basename_of src else case src of None \<Rightarrow> [] | Some s \<Rightarrow> s)
           in if f = [] then []
              else ''('' @ f @ '':'' @ to_string line @ (case func of None \<Rightarrow> [] | Some g \<Rightarrow> if g = [] then [] else '' '' @ g) @ '') '')"

record log_call =
  lc_level :: level
  lc_msg :: string
  lc_file :: "string option"
  lc_line :: int
  lc_func :: "string option"
  lc_tag :: "string option"

definition log_line :: "moment \<Rightarrow> log_options \<Rightarrow> log_call \<Rightarrow> string" where
  "log_line m c k = format_prefix m c (lc_level k) (lc_file k) (lc_line k) (lc_func k) (lc_tag k) @ lc_msg k @ [nl]"

definition colored :: "level \<Rightarrow> string \<Rightarrow> string" where
  "colored l s = level_color l @ s @ esc ''0''"

definition file_line :: "moment \<Rightarrow> log_options \<Rightarrow> log_call \<Rightarrow> string" where
  "file_line m c k = (if color_in_file c \<and> console_colors c then colored (lc_level k) (log_line m c k) else log_line m c k)"

definition write_stream :: "moment \<Rightarrow> bool \<Rightarrow> string \<Rightarrow> log_state \<Rightarrow> log_state" where
  "write_stream m flush s st =
     (let st1 = st\<lparr>buffer := buffer st @ s\<rparr> in
      if flush then flush_stream st1
      else case out st1 of
             None \<Rightarrow> st1
           | Some p \<Rightarrow> let n = early m (buffer st1) in
               st1\<lparr>disk := (disk st1)(p := Some (contents (disk st1) p @ take n (buffer st1))), buffer := drop n (buffer st1)\<rparr>)"

definition submit :: "moment \<Rightarrow> log_call \<Rightarrow> log_state \<Rightarrow> log_state" where
  "submit m k st =
     (if lc_level k < level st then st
      else let st1 = roll_to_today m st; c = cfg st1;
               need_console = (console_enabled c \<and> \<not> tui_mode st1);
               need_file = (current_path st1 \<noteq> [])
           in if \<not> need_console \<and> \<not> need_file then st1
              else let
                st2 = (if need_console
                       then st1\<lparr>console := console st1 @ (if console_colors c then colored (lc_level k) (log_line m c k) else log_line m c k)\<rparr>
                       else st1);
                st3 = (if need_file then open_file_if_needed m st2 else st2);
                st4 = (if need_file \<and> out st3 \<noteq> None
                       then maybe_rotate m (write_stream m (tui_mode st3 \<or> ERROR \<le> lc_level k) (file_line m c k) st3) else st3)
              in if lc_level k = FATAL
                 then st4\<lparr>console := console st4 @ (if tui_mode st4 then [] else esc ''91'' @ ''FATAL encountered. Aborting.'' @ esc ''0'' @ [nl]),
                          terminated := True\<rparr>
                 else st4)"

text \<open>The convenience methods: the source file is that of the logger, the line that of the call, the function that of the method.\<close>

definition log_debug :: "string \<Rightarrow> moment \<Rightarrow> string \<Rightarrow> string \<Rightarrow> log_state \<Rightarrow> log_state" where
  "log_debug this_file m tag msg = submit m \<lparr>lc_level = DEBUG, lc_msg = msg, lc_file = Some this_file, lc_line = 491, lc_func = Some ''debug'', lc_tag = Some tag\<rparr>"

definition log_info :: "string \<Rightarrow> moment \<Rightarrow> string \<Rightarrow> string \<Rightarrow> log_state \<Rightarrow> log_state" where
  "log_info this_file m tag msg = submit m \<lparr>lc_level = INFO, lc_msg = msg, lc_file = Some this_file, lc_line = 494, lc_func = Some ''info'', lc_tag = Some tag\<rparr>"

definition log_succ :: "string \<Rightarrow> moment \<Rightarrow> string \<Rightarrow> string \<Rightarrow> log_state \<Rightarrow> log_state" where
  "log_succ this_file m tag msg = submit m \<lparr>lc_level = SUCCESS, lc_msg = msg, lc_file = Some this_file, lc_line = 497, lc_func = Some ''succ'', lc_tag = Some tag\<rparr>"

definition log_warn :: "string \<Rightarrow> moment \<Rightarrow> string \<Rightarrow> string \<Rightarrow> log_state \<Rightarrow> log_state" where
  "log_warn this_file m tag msg = submit m \<lparr>lc_level = WARN, lc_msg = msg, lc_file = Some this_file, lc_line = 500, lc_func = Some ''warn'', lc_tag = Some tag\<rparr>"

definition log_error :: "string \<Rightarrow> moment \<Rightarrow> string \<Rightarrow> string \<Rightarrow> log_state \<Rightarrow> log_state" where
  "log_error this_file m tag msg = submit m \<lparr>lc_level = ERROR, lc_msg = msg, lc_file = Some this_file, lc_line = 503, lc_func = Some ''error'', lc_tag = Some tag\<rparr>"

section \<open>What the files hold\<close>

lemma to_string_inj: "to_string i = to_string j \<longleftrightarrow> i = j"
  using parse_int_prefix_to_string by (metis option.inject)

lemma rotated_inj [simp]: "rotated p i = rotated p j \<longleftrightarrow> i = j"
  by (auto simp: rotated_def to_string_inj)

lemma rotated_0 [simp]: "rotated p 0 = p"
  by (simp add: rotated_def)

lemma rotated_not_path [simp]: "rotated p (Suc i) \<noteq> p" "p \<noteq> rotated p (Suc i)"
  using rotated_inj [of p "Suc i" 0] by auto

text \<open>The text of the newest \<open>n\<close> rotated files and the current one, oldest first.\<close>

primrec kept :: "nat \<Rightarrow> string \<Rightarrow> log_disk \<Rightarrow> string" where
  "kept 0 p d = contents d p"
| "kept (Suc n) p d = contents d (rotated p (Suc n)) @ kept n p d"

definition no_gap :: "nat \<Rightarrow> string \<Rightarrow> log_disk \<Rightarrow> bool" where
  "no_gap n p d \<longleftrightarrow> (\<forall>i<n. d (rotated p (Suc i)) = None \<longrightarrow> d (rotated p (Suc (Suc i))) = None)"

definition obliging :: "moment \<Rightarrow> bool" where
  "obliging m \<longleftrightarrow> (\<forall>p. can_open m p) \<and> (\<forall>p q. can_rename m p q)"

lemma rename_file_at:
  assumes "obliging m" "d src = None \<longrightarrow> d dst = None" "src \<noteq> dst"
  shows "rename_file m src dst d = d(dst := d src, src := None)"
proof (rule ext)
  fix x show "rename_file m src dst d x = (d(dst := d src, src := None)) x"
    using assms by (cases "d src") (auto simp: rename_file_def obliging_def)
qed

lemma shift_files_at:
  assumes "obliging m" "no_gap n p d"
  shows "shift_files m p n d (rotated p j) =
     (if j = 0 \<or> Suc n < j then d (rotated p j)
      else if j = 1 \<and> 0 < n then None
      else if j = 1 then d (rotated p 1) else d (rotated p (j - 1)))"
  using assms(2)
proof (induction n arbitrary: d j)
  case (Suc n)
  define e where "e = d(rotated p (Suc (Suc n)) := d (rotated p (Suc n)), rotated p (Suc n) := None)"
  have step: "rename_file m (rotated p (Suc n)) (rotated p (Suc (Suc n))) d = e"
    using Suc.prems rename_file_at [OF assms(1), of d "rotated p (Suc n)" "rotated p (Suc (Suc n))"]
    by (simp add: e_def no_gap_def)
  have "no_gap n p e" using Suc.prems by (auto simp: no_gap_def e_def)
  note ih = Suc.IH [OF this]
  have e: "e (rotated p i) = (if i = Suc n then None else if i = Suc (Suc n) then d (rotated p (Suc n)) else d (rotated p i))" for i
    by (simp add: e_def)
  consider "j = 0" | "j = 1" "n = 0" | "j = 1" "n \<noteq> 0" | k where "j = Suc (Suc k)" by (cases j) (auto simp: gr0_conv_Suc, metis not0_implies_Suc)
  then show ?case
  proof cases
    case 1
    then show ?thesis using ih [of 0] e [of 0] by (simp add: step)
  next
    case 2
    then show ?thesis using step e [of 1] by simp
  next
    case (4 k)
    then show ?thesis using ih [of "Suc (Suc k)"] by (cases "k = n"; cases "Suc k = n") (simp_all add: step e)
  qed (simp_all add: step ih e)
next
  case 0
  then show ?case by (cases "j = 1") auto
qed

lemma kept_cong: "(\<And>i. i \<le> n \<Longrightarrow> d (rotated p i) = d' (rotated p i)) \<Longrightarrow> kept n p d = kept n p d'"
proof (induction n)
  case 0
  from 0 [of 0] show ?case by (simp add: contents_def)
next
  case (Suc n)
  then show ?case by (simp add: contents_def)
qed

lemma kept_write: "kept n p (d(p := Some (contents d p @ s))) = kept n p d @ s"
  by (induction n) (simp_all add: contents_def)

lemma kept_shift:
  "(\<And>i. i \<le> n \<Longrightarrow> contents d' (rotated p (Suc i)) = contents d (rotated p i)) \<Longrightarrow> contents d' p = [] \<Longrightarrow> kept (Suc n) p d' = kept n p d"
proof (induction n)
  case 0
  from 0(1) [of 0] 0(2) show ?case by simp
next
  case (Suc n)
  then show ?case by simp
qed

text \<open>A stream that writes the current file of the day.\<close>

definition stream_ok :: "log_state \<Rightarrow> bool" where
  "stream_ok st \<longleftrightarrow> current_path st \<noteq> [] \<and> out st = Some (current_path st) \<and> disk st (current_path st) \<noteq> None \<and>
     1 \<le> rotate_files (cfg st) \<and> no_gap (nat (rotate_files (cfg st) - 1)) (current_path st) (disk st)"

definition logged :: "log_state \<Rightarrow> string" where
  "logged st = kept (nat (rotate_files (cfg st))) (current_path st) (disk st) @ buffer st"

text \<open>Settings that a call leaves alone.\<close>

definition same_setup :: "log_state \<Rightarrow> log_state \<Rightarrow> bool" where
  "same_setup a b \<longleftrightarrow> cfg a = cfg b \<and> level a = level b \<and> tui_mode a = tui_mode b \<and> current_date a = current_date b \<and>
     current_path a = current_path b"

lemma no_gap_write: "no_gap n p d \<Longrightarrow> no_gap n p (d(p := x))"
  by (simp add: no_gap_def)

lemma write_stream_keeps:
  assumes "stream_ok st"
  shows "stream_ok (write_stream m fl s st) \<and> logged (write_stream m fl s st) = logged st @ s \<and> same_setup (write_stream m fl s st) st"
proof (cases fl)
  case True
  then show ?thesis using assms
    by (auto simp: write_stream_def flush_stream_def stream_ok_def logged_def same_setup_def kept_write no_gap_write)
next
  case False
  then show ?thesis using assms
    by (auto simp: write_stream_def stream_ok_def logged_def same_setup_def kept_write no_gap_write Let_def
        simp del: take_append drop_append)
qed

lemma write_stream_tail:
  "out st = Some p \<Longrightarrow> current_path st = p \<Longrightarrow>
   suffix s (contents (disk (write_stream m fl s st)) p @ buffer (write_stream m fl s st))"
  by (cases fl) (simp_all add: write_stream_def flush_stream_def contents_def Let_def suffix_appendI del: take_append drop_append)

lemma kept_tail: "suffix (contents d p) (kept n p d)"
  by (induction n) (simp_all add: suffix_appendI)

lemma rotate_keeps:
  assumes "stream_ok st" "obliging m"
  shows "stream_ok (maybe_rotate m st) \<and> suffix (logged (maybe_rotate m st)) (logged st) \<and> same_setup (maybe_rotate m st) st \<and>
     suffix (contents (disk st) (current_path st) @ buffer st) (logged (maybe_rotate m st)) \<and>
     (needs_rotation m st \<longrightarrow> logged st = contents (disk st) (rotated (current_path st) (nat (rotate_files (cfg st)))) @ logged (maybe_rotate m st))"
proof (cases "needs_rotation m st")
  case False
  then show ?thesis using assms(1) by (simp add: maybe_rotate_def same_setup_def logged_def kept_tail)
next
  case True
  let ?p = "current_path st" and ?n = "nat (rotate_files (cfg st) - 1)"
  let ?d1 = "(disk st)(?p := Some (contents (disk st) ?p @ buffer st))"
  let ?d2 = "shift_files m ?p ?n ?d1"
  let ?d3 = "rename_file m ?p (rotated ?p (Suc 0)) ?d2"
  have st: "?p \<noteq> []" "out st = Some ?p" "1 \<le> rotate_files (cfg st)" "no_gap ?n ?p (disk st)"
    using assms(1) by (auto simp: stream_ok_def)
  have N: "nat (rotate_files (cfg st)) = Suc ?n" using st(3) by simp
  note sh = shift_files_at [OF assms(2) no_gap_write [OF st(4)], of "Some (contents (disk st) ?p @ buffer st)"]
  have d2p: "?d2 ?p = Some (contents (disk st) ?p @ buffer st)" using sh [of 0] by simp
  have d3: "?d3 = ?d2(rotated ?p (Suc 0) := ?d2 ?p, ?p := None)"
    using d2p by (intro rename_file_at [OF assms(2)]) simp_all
  have d3x: "?d3 x = (if x = ?p then None else if x = rotated ?p (Suc 0) then ?d2 ?p else ?d2 x)" for x unfolding d3 by simp
  have d3n: "?d3 ?p = None" by (simp only: d3x simp_thms if_True)
  have d3p: "contents ?d3 ?p = []" unfolding contents_def [of ?d3 ?p] d3n by simp
  have closed: "close_stream st = st\<lparr>out := None, buffer := [], disk := ?d1\<rparr>"
    using st(2) by (simp add: close_stream_def flush_stream_def)
  have rot: "maybe_rotate m st = st\<lparr>out := Some ?p, buffer := [], disk := ?d3(?p := Some [])\<rparr>"
    using True st(1,2) assms(2) d3p
    by (simp add: maybe_rotate_def closed Let_def open_file_if_needed_def obliging_def del: fun_upd_apply)
  let ?d4 = "?d3(?p := Some [])"
  have at: "?d4 (rotated ?p (Suc i)) = ?d1 (rotated ?p i)" if "i \<le> ?n" for i
    using that sh [of "Suc i"] d2p by (cases i) (simp_all add: d3x)
  have gap: "no_gap ?n ?p ?d4"
    unfolding no_gap_def
  proof (intro allI impI)
    fix i assume i: "i < ?n" "?d4 (rotated ?p (Suc i)) = None"
    then obtain j where j: "i = Suc j" using at [of i] by (cases i) auto
    have "?d1 (rotated ?p i) = None" using i at [of i] by simp
    then have "disk st (rotated ?p (Suc i)) = None" using st(4) i(1) j by (auto simp: no_gap_def)
    then show "?d4 (rotated ?p (Suc (Suc i))) = None" using at [of "Suc i"] i(1) by simp
  qed
  have "kept (Suc ?n) ?p ?d4 = kept ?n ?p ?d1" using at by (intro kept_shift) (simp_all add: contents_def)
  also have "\<dots> = kept ?n ?p (disk st) @ buffer st" by (rule kept_write)
  finally have lg: "logged st = contents (disk st) (rotated ?p (Suc ?n)) @ logged (maybe_rotate m st)"
    and tl: "logged (maybe_rotate m st) = kept ?n ?p (disk st) @ buffer st"
    using N by (simp_all add: logged_def rot)
  have "suffix (contents (disk st) ?p @ buffer st) (logged (maybe_rotate m st))" by (simp add: tl kept_tail)
  moreover note lg
  moreover have "stream_ok (maybe_rotate m st)" using st gap by (simp add: rot stream_ok_def)
  moreover have "same_setup (maybe_rotate m st) st" by (simp add: rot same_setup_def)
  ultimately show ?thesis using N by (simp add: suffix_def)
qed

definition written :: "moment \<Rightarrow> log_state \<Rightarrow> log_call \<Rightarrow> string" where
  "written m st k = (if lc_level k < level st then [] else file_line m (cfg st) k)"

lemma submit_keeps:
  assumes "stream_ok st" "obliging m" "today m = current_date st"
  shows "stream_ok (submit m k st) \<and> suffix (logged (submit m k st)) (logged st @ written m st k) \<and> same_setup (submit m k st) st \<and>
     suffix (written m st k) (logged (submit m k st)) \<and>
     (rotate_bytes (cfg st) = 0 \<longrightarrow> logged (submit m k st) = logged st @ written m st k)"
proof (cases "lc_level k < level st")
  case True
  then show ?thesis using assms(1) by (simp add: submit_def written_def same_setup_def)
next
  case False
  obtain c' where c': "(if console_enabled (cfg st) \<and> \<not> tui_mode st
      then st\<lparr>console := console st @ (if console_colors (cfg st) then colored (lc_level k) (log_line m (cfg st) k) else log_line m (cfg st) k)\<rparr>
      else st) = st\<lparr>console := c'\<rparr>" by (cases "console_enabled (cfg st) \<and> \<not> tui_mode st") (auto intro: that [of "console st"] that)
  have st: "out st = Some (current_path st)" "current_path st \<noteq> []" using assms(1) by (auto simp: stream_ok_def)
  let ?s = "st\<lparr>console := c'\<rparr>"
  have s: "stream_ok ?s" "logged ?s = logged st" "same_setup ?s st" using assms(1) by (simp_all add: stream_ok_def logged_def same_setup_def)
  let ?w = "write_stream m (tui_mode st \<or> ERROR \<le> lc_level k) (file_line m (cfg st) k) ?s"
  let ?r = "maybe_rotate m ?w"
  note w = write_stream_keeps [OF s(1), of m "tui_mode st \<or> ERROR \<le> lc_level k" "file_line m (cfg st) k"]
  note r = rotate_keeps [OF w [THEN conjunct1] assms(2)]
  have "\<exists>c t. submit m k st = ?r\<lparr>console := c, terminated := t\<rparr>"
  proof -
    have "roll_to_today m st = st" using st(1) assms(3) by (simp add: roll_to_today_def)
    moreover have "open_file_if_needed m ?s = ?s" using st(1) by (simp add: open_file_if_needed_def)
    ultimately have "submit m k st = (if lc_level k = FATAL
       then ?r\<lparr>console := console ?r @ (if tui_mode ?r then [] else esc ''91'' @ ''FATAL encountered. Aborting.'' @ esc ''0'' @ [nl]),
               terminated := True\<rparr>
       else ?r)"
      using False st by (simp add: submit_def Let_def c')
    moreover have "?r = ?r\<lparr>console := console ?r, terminated := terminated ?r\<rparr>" by simp
    ultimately show ?thesis by metis
  qed
  then obtain c t where sub: "submit m k st = ?r\<lparr>console := c, terminated := t\<rparr>" by blast
  have "stream_ok (submit m k st) = stream_ok ?r" "logged (submit m k st) = logged ?r" "same_setup (submit m k st) st = same_setup ?r st"
    by (simp_all add: sub stream_ok_def logged_def same_setup_def)
  moreover have wr: "written m st k = file_line m (cfg st) k" using False by (simp add: written_def)
  moreover have "cfg ?w = cfg st" "current_path ?w = current_path st" using w by (simp_all add: same_setup_def)
  moreover have "suffix (file_line m (cfg st) k) (contents (disk ?w) (current_path st) @ buffer ?w)"
    using st(1) by (intro write_stream_tail) simp_all
  moreover have "rotate_bytes (cfg st) = 0 \<Longrightarrow> ?r = ?w"
    using calculation by (simp add: maybe_rotate_def needs_rotation_def)
  ultimately show ?thesis using w r s(2)
    by (auto simp: same_setup_def intro: suffix_order.trans)
qed

text \<open>A new configuration on the same day keeps writing the old file: the stream is still open, so the roll returns early.\<close>

lemma configure_keeps_the_old_file:
  "out st = Some p \<Longrightarrow> today m = current_date st \<Longrightarrow> resolve_log_path h (file_path opts) = Some r \<Longrightarrow>
   out (configure h m opts st) = Some p \<and> current_path (configure h m opts st) = current_path st"
  by (simp add: configure_def roll_to_today_def Let_def)

text \<open>A day change closes the old file, with everything buffered in it, and starts the file of the new day.\<close>

lemma new_day_opens_its_file:
  assumes "out st = Some p" "today m \<noteq> current_date st" "obliging m"
  shows "current_date (roll_to_today m st) = today m \<and>
     (make_dated_path st (today m) \<noteq> [] \<longrightarrow> out (roll_to_today m st) = Some (make_dated_path st (today m))) \<and>
     (make_dated_path st (today m) \<noteq> p \<longrightarrow> contents (disk (roll_to_today m st)) p = contents (disk st) p @ buffer st)"
  using assms
  by (simp add: roll_to_today_def close_stream_def flush_stream_def open_file_if_needed_def make_dated_path_def obliging_def
      contents_def Let_def)

section \<open>A day of calls\<close>

definition submit_all :: "(moment \<times> log_call) list \<Rightarrow> log_state \<Rightarrow> log_state" where
  "submit_all cs st = fold (\<lambda>(m, k). submit m k) cs st"

definition all_written :: "(moment \<times> log_call) list \<Rightarrow> log_state \<Rightarrow> string" where
  "all_written cs st = concat (map (\<lambda>(m, k). written m st k) cs)"

lemma submit_all_snoc: "submit_all (cs @ [(m, k)]) st = submit m k (submit_all cs st)"
  by (simp add: submit_all_def)

lemma same_setup_written: "same_setup a b \<Longrightarrow> written m a k = written m b k"
  by (simp add: same_setup_def written_def)

lemma same_setup_trans: "same_setup a b \<Longrightarrow> same_setup b c \<Longrightarrow> same_setup a c"
  by (simp add: same_setup_def)

lemma submit_all_keeps:
  assumes "stream_ok st" "list_all (\<lambda>(m, k). obliging m \<and> today m = current_date st) cs"
  shows "stream_ok (submit_all cs st) \<and> same_setup (submit_all cs st) st \<and>
     suffix (logged (submit_all cs st)) (logged st @ all_written cs st) \<and>
     (rotate_bytes (cfg st) = 0 \<longrightarrow> logged (submit_all cs st) = logged st @ all_written cs st)"
  using assms(2)
proof (induction cs rule: rev_induct)
  case Nil
  then show ?case using assms(1) by (simp add: submit_all_def all_written_def same_setup_def)
next
  case (snoc c cs)
  obtain m k where c: "c = (m, k)" by (cases c)
  let ?s = "submit_all cs st"
  have ih: "stream_ok ?s" "same_setup ?s st" "suffix (logged ?s) (logged st @ all_written cs st)"
    "rotate_bytes (cfg st) = 0 \<longrightarrow> logged ?s = logged st @ all_written cs st"
    using snoc by auto
  have m: "obliging m" "today m = current_date ?s" using snoc.prems ih(2) c by (auto simp: same_setup_def)
  have split: "submit_all (cs @ [c]) st = submit m k ?s" "all_written (cs @ [c]) st = all_written cs st @ written m ?s k"
    by (simp_all add: c submit_all_snoc all_written_def same_setup_written [OF ih(2)])
  have "suffix (logged ?s @ written m ?s k) (logged st @ all_written cs st @ written m ?s k)"
    using ih(3) by (auto simp: suffix_def)
  moreover note k = submit_keeps [OF ih(1) m, of k]
  moreover have "cfg ?s = cfg st" using ih(2) by (simp add: same_setup_def)
  ultimately show ?case unfolding split using ih(2,4) same_setup_trans suffix_order.trans by (metis append_assoc)
qed

text \<open>\<^bold>\<open>C24\<close> Whatever calls a day brings, with files that can be opened and renamed, the log files of the day read from the
oldest to the newest, followed by what the stream still holds, are a tail of what they held before and every line let through by
the level, in order; the last line is always complete in them; and nothing is ever lost when rotation is off.\<close>

theorem log_keeps_a_tail:
  assumes "stream_ok st" "list_all (\<lambda>(m, k). obliging m \<and> today m = current_date st) (cs @ [(m, k)])"
  shows "suffix (logged (submit_all (cs @ [(m, k)]) st)) (logged st @ all_written (cs @ [(m, k)]) st) \<and>
     suffix (written m st k) (logged (submit_all (cs @ [(m, k)]) st)) \<and>
     (rotate_bytes (cfg st) = 0 \<longrightarrow> logged (submit_all (cs @ [(m, k)]) st) = logged st @ all_written (cs @ [(m, k)]) st)"
proof -
  have s: "stream_ok (submit_all cs st)" "same_setup (submit_all cs st) st"
    using submit_all_keeps [OF assms(1), of cs] assms(2) by auto
  have "obliging m" "today m = current_date (submit_all cs st)" using assms(2) s(2) by (auto simp: same_setup_def)
  from submit_keeps [OF s(1) this, of k] have "suffix (written m st k) (logged (submit_all (cs @ [(m, k)]) st))"
    by (simp add: submit_all_snoc same_setup_written [OF s(2)])
  then show ?thesis using submit_all_keeps [OF assms] by blast
qed

definition sample_moment :: moment where
  "sample_moment = \<lparr>today = ''2026-01-05'', stamp = ''2026-01-05 10:00:00'', millis = 7, pid = ''1'', tid = ''2'',
     can_open = (\<lambda>_. True), can_rename = (\<lambda>_ _. True), can_stat = True, early = (\<lambda>_. 0)\<rparr>"

definition sample_log :: log_state where
  "sample_log =
     \<lparr>cfg = default_log_options\<lparr>rotate_bytes := 20, rotate_files := 1\<rparr>, level = INFO, tui_mode = False, resolved_dir = ''/l'',
      base_name = ''nazg'', ext = ''.log'', current_date = ''2026-01-05'', current_path = ''/l/nazg-2026-01-05.log'',
      out = Some ''/l/nazg-2026-01-05.log'', buffer = [], disk = [''/l/nazg-2026-01-05.log'' \<mapsto> []], console = [], terminated = False\<rparr>"

definition sample_call :: "level \<Rightarrow> string \<Rightarrow> log_call" where
  "sample_call l s = \<lparr>lc_level = l, lc_msg = s, lc_file = None, lc_line = 0, lc_func = None, lc_tag = Some ''x''\<rparr>"

theorem log_keeps_a_tail_witness:
  "suffix (written sample_moment sample_log (sample_call ERROR ''b''))
     (logged (submit_all ([(sample_moment, sample_call INFO ''a'')] @ [(sample_moment, sample_call ERROR ''b'')]) sample_log))"
  using log_keeps_a_tail [of sample_log "[(sample_moment, sample_call INFO ''a'')]" sample_moment "sample_call ERROR ''b''"]
  by (simp add: sample_log_def default_log_options_def stream_ok_def no_gap_def sample_moment_def obliging_def)

end
