(* ===== verification/Nexus_Bot_Store.thy ===== *)
theory Nexus_Bot_Store
  imports Nexus_Store
begin

text \<open>
  Bots and test runs in \<open>Store\<close> (\<open>src/modules/nexus/src/store.cpp\<close>, sections \<open>Bot Hosts\<close> to \<open>Test
  Results\<close>). Coverage records hold REAL values and are outside the model.
\<close>

section \<open>Bot hosts\<close>

definition add_bot_host :: "int \<Rightarrow> string \<Rightarrow> string \<Rightarrow> string \<Rightarrow> sqlite \<Rightarrow> sqlite \<times> int" where
  "add_bot_host now label address ssh c =
     insert_id (-1) (Insert ''bot_hosts'' [(''label'', bind label), (''address'', bind address), (''ssh_config'', bind ssh),
        (''created_at'', bind_int now), (''updated_at'', bind_int now)]) c"

definition get_bot_host_id :: "string \<Rightarrow> sqlite \<Rightarrow> int option" where
  "get_bot_host_id label c =
     (case select ''bot_hosts'' (eq_text ''label'' label) c of [] \<Rightarrow> None | r # _ \<Rightarrow> row_get_int r ''id'')"

definition update_bot_host_status :: "int \<Rightarrow> int \<Rightarrow> string \<Rightarrow> sqlite \<Rightarrow> sqlite" where
  "update_bot_host_status now hid status c =
     fst (exec (Update ''bot_hosts'' (eq_int ''id'' hid)
       (\<lambda>_. [(''last_status'', bind status), (''last_run_at'', bind_int now), (''updated_at'', bind_int now)])) c)"

definition list_bot_hosts :: "sqlite \<Rightarrow> (string, string) std_map list" where
  "list_bot_hosts c = map (row_map [IntCol ''id'', TextCol ''label'', TextCol ''address'', TextCol ''ssh_config'',
     TextCol ''last_status'', IntCol ''last_run_at'']) (order_asc ''label'' (select ''bot_hosts'' (\<lambda>_. True) c))"

definition update_bot_host :: "int \<Rightarrow> int \<Rightarrow> string \<Rightarrow> string \<Rightarrow> string \<Rightarrow> sqlite \<Rightarrow> sqlite \<times> bool" where
  "update_bot_host now hid label address ssh c =
     exec (Update ''bot_hosts'' (eq_int ''id'' hid)
       (\<lambda>_. [(''label'', bind label), (''address'', bind address), (''ssh_config'', bind ssh), (''updated_at'', bind_int now)])) c"

definition delete_bot_host :: "int \<Rightarrow> sqlite \<Rightarrow> sqlite \<times> bool" where
  "delete_bot_host hid c = exec (Delete ''bot_hosts'' (eq_int ''id'' hid)) c"

section \<open>Bot runs and reports\<close>

definition begin_bot_run :: "int \<Rightarrow> string \<Rightarrow> int \<Rightarrow> sqlite \<Rightarrow> sqlite \<times> int" where
  "begin_bot_run now bname hid c =
     insert_id (-1) (Insert ''bot_runs'' [(''bot_name'', bind bname), (''host_id'', bind_int hid), (''started_at'', bind_int now),
        (''status'', VText ''running'')]) c"

definition finish_bot_run :: "int \<Rightarrow> int \<Rightarrow> string \<Rightarrow> int \<Rightarrow> int \<Rightarrow> sqlite \<Rightarrow> sqlite" where
  "finish_bot_run now rid status code ms c =
     fst (exec (Update ''bot_runs'' (eq_int ''id'' rid)
       (\<lambda>_. [(''finished_at'', bind_int now), (''status'', bind status), (''exit_code'', bind_int code),
             (''duration_ms'', bind_int ms)])) c)"

definition run_columns :: "out_column list" where
  "run_columns = [IntCol ''id'', TextCol ''bot_name'', TextCol ''status'', IntCol ''exit_code'', IntCol ''started_at'',
     IntCol ''finished_at'', IntCol ''duration_ms'']"

text \<open>JOIN of the runs with the hosts: a run without its host does not appear.\<close>

definition join_label :: "sqlite \<Rightarrow> sql_row \<Rightarrow> sql_row list" where
  "join_label c r = map (\<lambda>h. (fst r, (''host_label'', val h ''label'') # snd r))
     (select ''bot_hosts'' (\<lambda>h. val r ''host_id'' = val h ''id'') c)"

definition recent_bot_runs :: "string \<Rightarrow> int \<Rightarrow> sqlite \<Rightarrow> (string, string) std_map list" where
  "recent_bot_runs bname n c = map (row_map (run_columns @ [TextCol ''host_label'']))
     (limit_rows n (order_desc ''started_at'' (concat (map (join_label c) (select ''bot_runs'' (eq_text ''bot_name'' bname) c)))))"

definition recent_bot_runs_for_host :: "int \<Rightarrow> int \<Rightarrow> sqlite \<Rightarrow> (string, string) std_map list" where
  "recent_bot_runs_for_host hid n c = map (row_map run_columns)
     (limit_rows n (order_desc ''started_at'' (select ''bot_runs'' (eq_int ''host_id'' hid) c)))"

definition add_bot_report :: "int \<Rightarrow> int \<Rightarrow> string \<Rightarrow> sqlite \<Rightarrow> sqlite" where
  "add_bot_report now rid payload c =
     fst (exec (Insert ''bot_reports'' [(''run_id'', bind_int rid), (''payload_json'', bind payload),
        (''created_at'', bind_int now)]) c)"

definition join_run :: "string \<Rightarrow> int \<Rightarrow> sqlite \<Rightarrow> sql_row \<Rightarrow> sql_row list" where
  "join_run bname hid c rep = map (\<lambda>run. (fst rep, (''started_at'', val run ''started_at'') # snd rep))
     (select ''bot_runs'' (\<lambda>run. val rep ''run_id'' = val run ''id'' \<and> eq_text ''bot_name'' bname run \<and> eq_int ''host_id'' hid run) c)"

definition latest_bot_report :: "string \<Rightarrow> int \<Rightarrow> sqlite \<Rightarrow> string option" where
  "latest_bot_report bname hid c =
     (case limit_rows 1 (order_desc ''started_at'' (concat (map (join_run bname hid c) (select ''bot_reports'' (\<lambda>_. True) c)))) of
        [] \<Rightarrow> None | r # _ \<Rightarrow> row_get r ''payload_json'')"

section \<open>Test runs and results\<close>

definition add_test_run ::
  "int \<Rightarrow> string \<Rightarrow> int \<Rightarrow> int \<Rightarrow> int \<Rightarrow> int \<Rightarrow> int \<Rightarrow> int \<Rightarrow> int \<Rightarrow> int \<Rightarrow> string \<Rightarrow> sqlite \<Rightarrow> sqlite \<times> int" where
  "add_test_run pid framework timestamp ms code n_total passed failed skipped errors triggered_by c =
     insert_id (-1) (Insert ''test_runs'' [(''project_id'', bind_int pid), (''framework'', bind framework),
        (''timestamp'', bind_int timestamp), (''duration_ms'', bind_int ms), (''exit_code'', bind_int code),
        (''total_tests'', bind_int n_total), (''passed'', bind_int passed), (''failed'', bind_int failed),
        (''skipped'', bind_int skipped), (''errors'', bind_int errors), (''triggered_by'', bind triggered_by)]) c"

definition test_run_columns :: "out_column list" where
  "test_run_columns = [IntCol ''id'', IntCol ''project_id'', TextCol ''framework'', IntCol ''timestamp'', IntCol ''duration_ms'',
     IntCol ''exit_code'', IntCol ''total_tests'', IntCol ''passed'', IntCol ''failed'', IntCol ''skipped'', IntCol ''errors'',
     TextCol ''triggered_by'']"

definition get_test_run :: "int \<Rightarrow> sqlite \<Rightarrow> (string, string) std_map option" where
  "get_test_run rid c = first_row (row_map test_run_columns) (select ''test_runs'' (eq_int ''id'' rid) c)"

definition get_test_runs :: "int \<Rightarrow> int \<Rightarrow> sqlite \<Rightarrow> (string, string) std_map list" where
  "get_test_runs pid n c = map (row_map test_run_columns)
     (limit_rows n (order_desc ''timestamp'' (select ''test_runs'' (eq_int ''project_id'' pid) c)))"

definition get_latest_test_run :: "int \<Rightarrow> sqlite \<Rightarrow> (string, string) std_map option" where
  "get_latest_test_run pid c = first_row (row_map test_run_columns)
     (limit_rows 1 (order_desc ''timestamp'' (select ''test_runs'' (eq_int ''project_id'' pid) c)))"

definition add_test_result ::
  "int \<Rightarrow> string \<Rightarrow> string \<Rightarrow> string \<Rightarrow> int \<Rightarrow> string \<Rightarrow> string \<Rightarrow> int \<Rightarrow> sqlite \<Rightarrow> sqlite \<times> bool" where
  "add_test_result rid suite name status ms msg file line c =
     exec (Insert ''test_results'' [(''run_id'', bind_int rid), (''suite'', bind suite), (''name'', bind name),
        (''status'', bind status), (''duration_ms'', bind_int ms), (''message'', bind msg), (''file'', bind file),
        (''line'', bind_int line)]) c"

definition result_columns :: "out_column list" where
  "result_columns = [IntCol ''id'', IntCol ''run_id'', TextCol ''suite'', TextCol ''name'', TextCol ''status'',
     IntCol ''duration_ms'', TextCol ''message'', TextCol ''file'', IntCol ''line'']"

definition get_test_results :: "int \<Rightarrow> sqlite \<Rightarrow> (string, string) std_map list" where
  "get_test_results rid c = map (row_map result_columns) (order_asc ''id'' (select ''test_results'' (eq_int ''run_id'' rid) c))"

definition get_failed_test_results :: "int \<Rightarrow> sqlite \<Rightarrow> (string, string) std_map list" where
  "get_failed_test_results rid c = map (row_map result_columns)
     (order_asc ''id'' (select ''test_results'' (\<lambda>r. eq_int ''run_id'' rid r \<and> val r ''status'' = VText ''failed'') c))"

lemma to_string_not_failed: "to_string i \<noteq> ''failed''"
proof
  assume *: "to_string i = ''failed''"
  show False
  proof (cases "i < 0")
    case True
    then have "hd (to_string i) = CHR ''-''" by (simp add: to_string_def)
    with * show False by simp
  next
    case False
    then have "nat_digits (nat i) = ''failed''" using * by (simp add: to_string_def)
    then have "\<forall>c\<in>set ''failed''. isdigit c" using nat_digits_props [of "nat i"] by metis
    then show False by (simp add: isdigit_def)
  qed
qed

lemma status_entry: "map_get (row_map result_columns r) ''status'' = Some (get_text r ''status'')"
  by (simp add: map_get_row_map result_columns_def)

lemma failed_iff: "get_text r ''status'' = ''failed'' \<longleftrightarrow> val r ''status'' = VText ''failed''"
  using to_string_not_failed by (auto simp: get_text_def row_get_def split: sql_value.splits)

text \<open>
  The failed results of a run are exactly the entries of the full result list whose status reads
  \<open>failed\<close>, in the same order.
\<close>

lemma failed_results_are_filtered:
  "get_failed_test_results rid c = filter (\<lambda>m. map_get m ''status'' = Some ''failed'') (get_test_results rid c)"
proof -
  have "select ''test_results'' (\<lambda>r. eq_int ''run_id'' rid r \<and> val r ''status'' = VText ''failed'') c =
      filter (\<lambda>r. val r ''status'' = VText ''failed'') (select ''test_results'' (eq_int ''run_id'' rid) c)"
    by (auto simp: select_def intro: filter_cong)
  then show ?thesis
    by (simp add: get_failed_test_results_def get_test_results_def filter_map comp_def status_entry failed_iff
        order_asc_def filter_sort)
qed

end
