(* ===== verification/Nexus_Git_Store.thy ===== *)
theory Nexus_Git_Store
  imports Nexus_Store Nexus_Crypto
begin

text \<open>
  Git servers in \<open>Store\<close> (\<open>src/modules/nexus/src/store.cpp\<close>, section \<open>Git Servers\<close> and the repository
  migrations and health records after it). The administrator token is stored through \<open>Nexus_Crypto\<close>; the
  salt is the member \<open>encryption_salt_\<close>.
\<close>

section \<open>Servers\<close>

record git_server =
  gs_id :: int
  gs_label :: string
  gs_type :: string
  gs_host :: string
  gs_port :: int
  gs_ssh_port :: int
  gs_ssh_user :: string
  gs_repo_base_path :: string
  gs_config_path :: string
  gs_web_url :: string
  gs_status :: string
  gs_installed_at :: int
  gs_last_check :: int
  gs_config_hash :: string
  gs_config_modified :: int
  gs_created_at :: int
  gs_updated_at :: int
  gs_admin_token :: string

definition read_git_server :: "aead \<Rightarrow> string \<Rightarrow> string \<Rightarrow> sql_row \<Rightarrow> git_server" where
  "read_git_server A secret salt r =
     \<lparr>gs_id = get_num r ''id'', gs_label = get_text r ''label'', gs_type = get_text r ''type'', gs_host = get_text r ''host'',
      gs_port = to_int32 (get_num r ''port''),
      gs_ssh_port = to_int32 (case row_get_int r ''ssh_port'' of None \<Rightarrow> 22 | Some i \<Rightarrow> i),
      gs_ssh_user = get_text r ''ssh_user'', gs_repo_base_path = get_text r ''repo_base_path'',
      gs_config_path = get_text r ''config_path'', gs_web_url = get_text r ''web_url'', gs_status = get_text r ''status'',
      gs_installed_at = get_num r ''installed_at'', gs_last_check = get_num r ''last_check'',
      gs_config_hash = get_text r ''config_hash'', gs_config_modified = get_num r ''config_modified'',
      gs_created_at = get_num r ''created_at'', gs_updated_at = get_num r ''updated_at'',
      gs_admin_token = (case decrypt_token A secret (get_text r ''admin_token'') salt of None \<Rightarrow> [] | Some t \<Rightarrow> t)\<rparr>"

definition get_git_server :: "aead \<Rightarrow> string \<Rightarrow> string \<Rightarrow> string \<Rightarrow> sqlite \<Rightarrow> git_server option" where
  "get_git_server A secret salt label c =
     first_row (read_git_server A secret salt) (limit_rows 1 (select ''git_servers'' (eq_text ''label'' label) c))"

definition list_git_servers :: "aead \<Rightarrow> string \<Rightarrow> string \<Rightarrow> sqlite \<Rightarrow> git_server list" where
  "list_git_servers A secret salt c =
     map (read_git_server A secret salt) (order_asc ''label'' (select ''git_servers'' (\<lambda>_. True) c))"

definition stored_token :: "aead \<Rightarrow> string \<Rightarrow> string \<Rightarrow> string option \<Rightarrow> string \<Rightarrow> string" where
  "stored_token A secret salt iv token = (if token = [] then [] else encrypt_token A secret iv token salt)"

definition or_now :: "int \<Rightarrow> int \<Rightarrow> int" where
  "or_now now t = (if t \<noteq> 0 then t else now)"

definition upsert_git_server ::
  "aead \<Rightarrow> string \<Rightarrow> string \<Rightarrow> string option \<Rightarrow> int \<Rightarrow> git_server \<Rightarrow> sqlite \<Rightarrow> sqlite \<times> bool" where
  "upsert_git_server A secret salt iv now g c =
     exec (Upsert ''git_servers'' [(''label'', bind (gs_label g)), (''type'', bind (gs_type g)), (''host'', bind (gs_host g)),
        (''port'', bind_int (gs_port g)), (''ssh_port'', bind_int (gs_ssh_port g)), (''ssh_user'', bind (gs_ssh_user g)),
        (''repo_base_path'', bind (gs_repo_base_path g)), (''config_path'', bind (gs_config_path g)),
        (''web_url'', bind (gs_web_url g)), (''status'', bind (gs_status g)), (''installed_at'', bind_int (gs_installed_at g)),
        (''last_check'', bind_int (gs_last_check g)), (''config_hash'', bind (gs_config_hash g)),
        (''config_modified'', bind_int (or_now now (gs_config_modified g))),
        (''created_at'', bind_int (or_now now (gs_created_at g))), (''updated_at'', bind_int (or_now now (gs_updated_at g))),
        (''admin_token'', bind (stored_token A secret salt iv (gs_admin_token g)))]
       [''label'']
       [''type'', ''host'', ''port'', ''ssh_port'', ''ssh_user'', ''repo_base_path'', ''config_path'', ''web_url'', ''status'',
        ''installed_at'', ''last_check'', ''config_hash'', ''config_modified'', ''updated_at'', ''admin_token'']) c"

definition update_git_server_status :: "int \<Rightarrow> string \<Rightarrow> string \<Rightarrow> sqlite \<Rightarrow> sqlite \<times> bool" where
  "update_git_server_status now label status c =
     exec (Update ''git_servers'' (eq_text ''label'' label) (\<lambda>_. [(''status'', bind status), (''updated_at'', bind_int now)])) c"

definition mark_git_server_installed :: "int \<Rightarrow> string \<Rightarrow> int \<Rightarrow> sqlite \<Rightarrow> sqlite \<times> bool" where
  "mark_git_server_installed now label t c =
     exec (Update ''git_servers'' (eq_text ''label'' label) (\<lambda>_. [(''status'', VText ''installed''),
        (''installed_at'', bind_int (or_now now t)), (''updated_at'', bind_int (or_now now t))])) c"

definition update_git_server_last_check :: "int \<Rightarrow> string \<Rightarrow> int \<Rightarrow> sqlite \<Rightarrow> sqlite \<times> bool" where
  "update_git_server_last_check now label t c =
     exec (Update ''git_servers'' (eq_text ''label'' label)
       (\<lambda>_. [(''last_check'', bind_int (or_now now t)), (''updated_at'', bind_int (or_now now t))])) c"

definition update_git_server_admin_token ::
  "aead \<Rightarrow> string \<Rightarrow> string \<Rightarrow> string option \<Rightarrow> int \<Rightarrow> string \<Rightarrow> string \<Rightarrow> sqlite \<Rightarrow> sqlite \<times> bool" where
  "update_git_server_admin_token A secret salt iv now label token c =
     exec (Update ''git_servers'' (eq_text ''label'' label)
       (\<lambda>_. [(''admin_token'', bind (stored_token A secret salt iv token)), (''updated_at'', bind_int now)])) c"

definition remove_git_server :: "string \<Rightarrow> sqlite \<Rightarrow> sqlite \<times> bool" where
  "remove_git_server label c = exec (Delete ''git_servers'' (eq_text ''label'' label)) c"

section \<open>Bare repositories\<close>

text \<open>LIKE of SQLite: \<open>%\<close> matches any sequence, \<open>_\<close> any character, letters match in either case.\<close>

fun like :: "string \<Rightarrow> string \<Rightarrow> bool" where
  "like [] t = (t = [])"
| "like (p # ps) [] = (p = CHR ''%'' \<and> like ps [])"
| "like (p # ps) (c # cs) =
     (if p = CHR ''%'' then like ps (c # cs) \<or> like (p # ps) cs
      else (p = CHR ''_'' \<or> tolower p = tolower c) \<and> like ps cs)"

definition like_pattern :: "string \<Rightarrow> string" where
  "like_pattern prefix = prefix @ (if last prefix = CHR ''/'' then ''%'' else ''/%'')"

definition list_bare_repo_paths_with_prefix :: "string \<Rightarrow> sqlite \<Rightarrow> string list" where
  "list_bare_repo_paths_with_prefix prefix c =
     (if prefix = [] then []
      else concat (map (\<lambda>r. case row_get r ''server_path'' of Some v \<Rightarrow> if v \<noteq> [] then [v] else [] | None \<Rightarrow> [])
        (order_asc ''server_path'' (select ''bare_repos''
           (\<lambda>r. case row_get r ''server_path'' of Some v \<Rightarrow> like (c_string (like_pattern prefix)) v | None \<Rightarrow> False) c))))"

section \<open>Migrations and health\<close>

record repo_migration =
  rm_id :: int
  rm_server_id :: int
  rm_project_id :: int
  rm_repo_name :: string
  rm_source_path :: string
  rm_started_at :: int
  rm_completed_at :: int
  rm_status :: string
  rm_branch_count :: int
  rm_tag_count :: int
  rm_size_bytes :: int
  rm_error_message :: string

definition migration_values :: "int \<Rightarrow> repo_migration \<Rightarrow> cells" where
  "migration_values now m =
     [(''server_id'', bind_int (rm_server_id m)),
      (''project_id'', bind (if rm_project_id m \<noteq> 0 then to_string (rm_project_id m) else [])),
      (''repo_name'', bind (rm_repo_name m)), (''source_path'', bind (rm_source_path m)),
      (''started_at'', bind_int (or_now now (rm_started_at m))),
      (''status'', bind (if rm_status m = [] then ''pending'' else rm_status m)),
      (''branch_count'', bind_int (rm_branch_count m)), (''tag_count'', bind_int (rm_tag_count m)),
      (''size_bytes'', bind_int (rm_size_bytes m)), (''error_message'', bind (rm_error_message m))]"

definition add_repo_migration :: "int \<Rightarrow> repo_migration \<Rightarrow> sqlite \<Rightarrow> sqlite \<times> int" where
  "add_repo_migration now m c = insert_id 0 (Insert ''repo_migrations'' (migration_values now m)) c"

definition update_repo_migration_status :: "int \<Rightarrow> string \<Rightarrow> string \<Rightarrow> sqlite \<Rightarrow> sqlite \<times> bool" where
  "update_repo_migration_status mid status err c =
     exec (Update ''repo_migrations'' (eq_int ''id'' mid) (\<lambda>_. [(''status'', bind status), (''error_message'', bind err)])) c"

definition mark_repo_migration_completed :: "int \<Rightarrow> int \<Rightarrow> int \<Rightarrow> sqlite \<Rightarrow> sqlite \<times> bool" where
  "mark_repo_migration_completed now mid t c =
     exec (Update ''repo_migrations'' (eq_int ''id'' mid)
       (\<lambda>_. [(''completed_at'', bind_int (or_now now t)), (''status'', VText ''completed'')])) c"

definition read_migration :: "sql_row \<Rightarrow> repo_migration" where
  "read_migration r =
     \<lparr>rm_id = get_num r ''id'', rm_server_id = get_num r ''server_id'', rm_project_id = get_num r ''project_id'',
      rm_repo_name = get_text r ''repo_name'', rm_source_path = get_text r ''source_path'',
      rm_started_at = get_num r ''started_at'', rm_completed_at = get_num r ''completed_at'', rm_status = get_text r ''status'',
      rm_branch_count = to_int32 (get_num r ''branch_count''), rm_tag_count = to_int32 (get_num r ''tag_count''),
      rm_size_bytes = get_num r ''size_bytes'', rm_error_message = get_text r ''error_message''\<rparr>"

definition list_repo_migrations_for_server :: "int \<Rightarrow> int \<Rightarrow> sqlite \<Rightarrow> repo_migration list" where
  "list_repo_migrations_for_server sid n c =
     map read_migration (limit_rows n (order_desc ''started_at'' (select ''repo_migrations'' (eq_int ''server_id'' sid) c)))"

record git_health =
  gh_id :: int
  gh_server_id :: int
  gh_timestamp :: int
  gh_status :: string
  gh_web_ui :: bool
  gh_http_clone :: bool
  gh_ssh_push :: bool
  gh_service_status :: string
  gh_repo_count :: int
  gh_total_size :: int
  gh_disk_used :: int
  gh_disk_free :: int
  gh_notes :: string

definition flag :: "bool \<Rightarrow> sql_value" where
  "flag b = bind (if b then ''1'' else ''0'')"

definition add_git_server_health :: "git_health \<Rightarrow> sqlite \<Rightarrow> sqlite \<times> int" where
  "add_git_server_health g c =
     insert_id 0 (Insert ''git_server_health'' [(''server_id'', bind_int (gh_server_id g)), (''timestamp'', bind_int (gh_timestamp g)),
        (''status'', bind (gh_status g)), (''web_ui_reachable'', flag (gh_web_ui g)), (''http_clone_works'', flag (gh_http_clone g)),
        (''ssh_push_works'', flag (gh_ssh_push g)), (''service_status'', bind (gh_service_status g)),
        (''repo_count'', bind_int (gh_repo_count g)), (''total_size_bytes'', bind_int (gh_total_size g)),
        (''disk_used_pct'', bind_int (gh_disk_used g)), (''disk_free_bytes'', bind_int (gh_disk_free g)),
        (''notes'', bind (gh_notes g))]) c"

definition read_health :: "sql_row \<Rightarrow> git_health" where
  "read_health r =
     \<lparr>gh_id = get_num r ''id'', gh_server_id = get_num r ''server_id'', gh_timestamp = get_num r ''timestamp'',
      gh_status = get_text r ''status'', gh_web_ui = (get_num r ''web_ui_reachable'' \<noteq> 0),
      gh_http_clone = (get_num r ''http_clone_works'' \<noteq> 0), gh_ssh_push = (get_num r ''ssh_push_works'' \<noteq> 0),
      gh_service_status = get_text r ''service_status'', gh_repo_count = to_int32 (get_num r ''repo_count''),
      gh_total_size = get_num r ''total_size_bytes'', gh_disk_used = to_int32 (get_num r ''disk_used_pct''),
      gh_disk_free = get_num r ''disk_free_bytes'', gh_notes = get_text r ''notes''\<rparr>"

definition list_git_server_health :: "int \<Rightarrow> int \<Rightarrow> sqlite \<Rightarrow> git_health list" where
  "list_git_server_health sid n c =
     map read_health (limit_rows n (order_desc ''timestamp'' (select ''git_server_health'' (eq_int ''server_id'' sid) c)))"

section \<open>The administrator token\<close>

lemma hex_digit_not_nul: "n < 16 \<Longrightarrow> hex_digit n \<noteq> CHR 0x00"
  using hex_value_digit [of n] by (auto simp: hex_value_def)

lemma nul_not_in_hex: "CHR 0x00 \<notin> set (to_hex bs)"
proof
  assume "CHR 0x00 \<in> set (to_hex bs)"
  then obtain b where "CHR 0x00 = hex_digit (of_char b div 16) \<or> CHR 0x00 = hex_digit (of_char b mod 16)"
    by (auto simp: to_hex_def)
  moreover have "of_char b div 16 < (16 :: nat)" "of_char b mod 16 < (16 :: nat)"
    using of_char_less [of b] by (simp_all add: less_mult_imp_div_less)
  ultimately show False using hex_digit_not_nul by metis
qed

lemma nul_not_in_token: "CHR 0x00 \<notin> set (encrypt_token A secret iv token salt)"
  using nul_not_in_hex by (auto simp: encrypt_token_def token_prefix_def Let_def split: option.splits)

lemma select_by_label:
  assumes "healthy c"
  shows "select ''git_servers'' (eq_text ''label'' label) c =
     (case by_key [''label''] [VText (c_string label)] (trows (tabs c ''git_servers'')) of None \<Rightarrow> [] | Some r \<Rightarrow> [r])"
proof -
  have w: "eq_text ''label'' label = (\<lambda>r. map (cell (snd r)) [''label''] = [VText (c_string label)])"
    by (auto simp: val_def fun_eq_iff)
  show ?thesis unfolding w using assms healthy_table [OF assms, of git_servers_table]
    by (intro select_by_key [where d = git_servers_table]) (simp_all add: healthy_def)
qed

text \<open>
  A token written with \<open>update_git_server_admin_token\<close> for a known server is the token
  \<open>get_git_server\<close> returns, provided the encryption produced a value.
\<close>

lemma admin_token_round_trip:
  assumes "healthy c" "\<not> io_fails c (stmts c)" "aead_ok A" "length iv = 12" "token \<noteq> []"
    and "encrypt_token A secret (Some iv) token salt \<noteq> []"
    and "get_git_server A secret salt label c = Some g"
  shows "map_option gs_admin_token
     (get_git_server A secret salt label (fst (update_git_server_admin_token A secret salt (Some iv) now label token c))) = Some token"
proof -
  let ?f = "\<lambda>_. [(''admin_token'', bind (stored_token A secret salt (Some iv) token)), (''updated_at'', bind_int now)]"
  let ?rs = "trows (tabs c ''git_servers'')" and ?key = "[VText (c_string label)]"
  let ?c' = "fst (update_git_server_admin_token A secret salt (Some iv) now label token c)"
  let ?g = "\<lambda>r. if eq_text ''label'' label r then (fst r, set_cells git_servers_table (?f r) (snd r)) else r"
  have nn: "map_of (?f r) k \<noteq> Some VNull" for r :: sql_row and k by (simp add: bind_def bind_int_def)
  have "exec (Update ''git_servers'' (eq_text ''label'' label) ?f) c = (c\<lparr>stmts := stmts c + 1,
     tabs := (tabs c)(''git_servers'' := (tabs c ''git_servers'')\<lparr>trows := updated_rows git_servers_table (eq_text ''label'' label) ?f ?rs\<rparr>)\<rparr>, True)"
    by (rule exec_update_plain [OF assms(1,2) find_tables(6) _ _ nn]) (simp_all add: git_servers_table_def column_defs)
  then have rows: "trows (tabs ?c' ''git_servers'') = map ?g ?rs" and h: "healthy ?c'"
    using healthy_exec [OF assms(1), of "Update ''git_servers'' (eq_text ''label'' label) ?f"]
    by (simp_all add: update_git_server_admin_token_def updated_rows_def)
  obtain r where r: "by_key [''label''] ?key ?rs = Some r"
    using assms(7) by (auto simp: get_git_server_def select_by_label [OF assms(1)] first_row_def limit_rows_def split: option.splits)
  then have lab: "eq_text ''label'' label r" by (auto simp: by_key_def val_def dest: find_Some_in)
  have "cell (snd (?g r)) ''label'' = cell (snd r) ''label''" for r
    using cell_set_cells_other [of "''label''" git_servers_table "?f r" "snd r"] by (simp add: git_servers_table_def column_defs)
  then have "by_key [''label''] ?key (map ?g ?rs) = map_option ?g (by_key [''label''] ?key ?rs)"
    unfolding by_key_def by (intro find_map_same) (simp del: if_split eq_text_simp)
  then have r': "by_key [''label''] ?key (trows (tabs ?c' ''git_servers'')) = Some (fst r, set_cells git_servers_table (?f r) (snd r))"
    using r lab rows by simp
  have "val (fst r, set_cells git_servers_table (?f r) (snd r)) ''admin_token'' = VText (encrypt_token A secret (Some iv) token salt)"
    using assms(5) c_string_id [OF nul_not_in_token [of A secret "Some iv" token salt]]
    by (simp add: val_def cell_def set_cells_def git_servers_table_def column_defs stored_token_def bind_def)
  then have "get_text (fst r, set_cells git_servers_table (?f r) (snd r)) ''admin_token'' = encrypt_token A secret (Some iv) token salt"
    by (rule get_text_VText)
  then show ?thesis using r' decrypt_encrypt_token [OF assms(3,4,5,6)]
    by (simp add: get_git_server_def select_by_label [OF h] first_row_def limit_rows_def read_git_server_def)
qed

definition demo_git :: sqlite where
  "demo_git = fst (upsert_git_server mirror_aead ''secret'' ''00ff'' None 5
     \<lparr>gs_id = 0, gs_label = ''gs'', gs_type = ''cgit'', gs_host = ''h'', gs_port = 80, gs_ssh_port = 22, gs_ssh_user = [],
      gs_repo_base_path = ''/srv/git'', gs_config_path = [], gs_web_url = [], gs_status = [], gs_installed_at = 0,
      gs_last_check = 0, gs_config_hash = [], gs_config_modified = 0, gs_created_at = 0, gs_updated_at = 0,
      gs_admin_token = []\<rparr> fresh_db)"

lemma admin_token_round_trip_example:
  "map_option gs_admin_token (get_git_server mirror_aead ''secret'' ''00ff'' ''gs''
     (fst (update_git_server_admin_token mirror_aead ''secret'' ''00ff'' (Some (replicate 12 (CHR ''i''))) 9 ''gs'' ''tok'' demo_git)))
   = Some ''tok''"
proof -
  have h: "healthy demo_git" by (simp add: demo_git_def upsert_git_server_def healthy_fresh_db)
  have "map_option gs_label (get_git_server mirror_aead ''secret'' ''00ff'' ''gs'' demo_git) = Some ''gs''"
    "io_fails demo_git (stmts demo_git) = False"
    "encrypt_token mirror_aead ''secret'' (Some (replicate 12 (CHR ''i''))) ''tok'' ''00ff'' \<noteq> []"
    by code_simp+
  moreover from this obtain g where "get_git_server mirror_aead ''secret'' ''00ff'' ''gs'' demo_git = Some g" by auto
  ultimately show ?thesis
    using admin_token_round_trip [of demo_git mirror_aead "replicate 12 (CHR ''i'')" "''tok''" "''secret''" "''00ff''" "''gs''" g 9]
      h mirror_aead_ok by simp
qed

text \<open>A repository migration that names no project is refused: the missing project is bound as an empty text.\<close>

lemma migration_needs_project:
  assumes "rm_project_id m = 0"
  shows "snd (add_repo_migration now m c) = 0" "tabs (fst (add_repo_migration now m c)) = tabs c"
proof -
  let ?cs = "new_cells repo_migrations_table (migration_values now m)"
  have "cell ?cs ''project_id'' = VText []"
    using assms by (simp add: new_cells_def repo_migrations_table_def column_defs migration_values_def cell_def)
  then have "\<not> fkeys_ok repo_migrations_table (tabs c) ?cs" by (simp add: fkeys_ok_def refers_def)
  then have "run_stmt nexus_schema (Insert ''repo_migrations'' (migration_values now m)) (tabs c) = None"
    by (simp add: sql_insert_def Let_def)
  then have "snd (exec (Insert ''repo_migrations'' (migration_values now m)) c) = False" by (rule exec_refused)
  then show "snd (add_repo_migration now m c) = 0" "tabs (fst (add_repo_migration now m c)) = tabs c"
    unfolding add_repo_migration_def by (rule insert_id_refused)+
qed

text \<open>The prefix of a path query is a LIKE pattern: \<open>_\<close> and \<open>%\<close> in it match other directories.\<close>

lemma like_prefix_wildcard: "like (like_pattern ''/srv/my_repos'') ''/srv/my-repos/x.git''"
  by (simp add: like_pattern_def tolower_def isupper_def)

end
