(* ===== verification/Nexus_Integrity.thy ===== *)
theory Nexus_Integrity
  imports Nexus_Docker_Store Nexus_Bot_Store Nexus_Git_Store
begin

text \<open>
  The store as a transition system: one step is one state-changing operation of \<open>Store\<close>, on any
  arguments, at any time, succeeding or failing. Whatever sequence of operations a
  session performs, the constraints of the schema hold.
\<close>

inductive store_step :: "sqlite \<Rightarrow> sqlite \<Rightarrow> bool" where
  ensure_project: "store_step c (fst (ensure_project now root c))"
| update_project: "store_step c (update_project now i p c)"
| set_fact: "store_step c (set_fact now pid ns key v c)"
| add_event: "store_step c (add_event now pid lvl tg msg meta c)"
| record_command: "store_step c (record_command now pid cmd args code dur c)"
| add_snapshot: "store_step c (fst (add_snapshot now pid hash n bytes c))"
| prune_events: "store_step c (prune_events pid keep c)"
| prune_commands: "store_step c (prune_commands keep c)"
| add_workspace_snapshot: "store_step c (fst (add_workspace_snapshot now pid brain_id label tt bh dh ej sj clean commit branch c))"
| update_workspace_snapshot_restore_count: "store_step c (fst (update_workspace_snapshot_restore_count sid c))"
| add_workspace_file: "store_step c (add_workspace_file sid path ftype hash fsize mtime c)"
| delete_workspace_snapshot: "store_step c (fst (delete_workspace_snapshot sid c))"
| begin_workspace_restore: "store_step c (fst (begin_workspace_restore now pid sid rtype reason c))"
| finish_workspace_restore: "store_step c (finish_workspace_restore rid success files ms c)"
| tag_workspace_snapshot: "store_step c (fst (tag_workspace_snapshot now pid sid name descr c))"
| untag_workspace_snapshot: "store_step c (fst (untag_workspace_snapshot pid name c))"
| record_workspace_failure: "store_step c (record_workspace_failure now pid ftype sig msg before after changed deps c)"
| record_failure_with_context: "store_step c (fst (record_failure_with_context now pid ftype sig msg loc cmd code before after changed deps env system severity tags c))"
| update_failure_resolution: "store_step c (fst (update_failure_resolution now fid rtype rsid notes success c))"
| record_pattern: "store_step c (fst (record_pattern now pid sig name ftype regex conditions c))"
| update_pattern_statistics: "store_step c (fst (update_pattern_statistics now i delta c))"
| link_failure_to_pattern: "store_step c (fst (link_failure_to_pattern now fid i c))"
| add_recovery_action: "store_step c (fst (add_recovery_action now pattern_id fid atype params descr confirm c))"
| update_recovery_action_stats: "store_step c (fst (update_recovery_action_stats now i success ms c))"
| begin_recovery_execution: "store_step c (fst (begin_recovery_execution now pid fid aid mode c))"
| complete_recovery_execution: "store_step c (fst (complete_recovery_execution now hid success output verified ms c))"
| add_server: "store_step c (fst (add_server now label host ssh c))"
| update_server_agent_container: "store_step c (fst (update_server_agent_container now sid strategy local_tar remote_tar img c))"
| update_server_heartbeat: "store_step c (fst (update_server_heartbeat now sid version status capabilities c))"
| update_server_status: "store_step c (fst (update_server_status now sid status c))"
| delete_server: "store_step c (fst (delete_server sid c))"
| update_server_connection: "store_step c (fst (update_server_connection now sid host ssh c))"
| upsert_container: "store_step c (fst (upsert_container now sid info c))"
| mark_containers_stale: "store_step c (fst (mark_containers_stale sid stale c))"
| delete_stale_containers: "store_step c (fst (delete_stale_containers sid stale c))"
| upsert_compose_file: "store_step c (fst (upsert_compose_file now sid path pname services networks volumes hash c))"
| upsert_docker_image: "store_step c (fst (upsert_docker_image now sid image_id repository tg bytes created c))"
| upsert_docker_network: "store_step c (fst (upsert_docker_network now sid network_id name driver scope ipam c))"
| upsert_docker_volume: "store_step c (fst (upsert_docker_volume now sid volume driver mountpoint labels c))"
| add_docker_status_event: "store_step c (fst (add_docker_status_event now sid cid name etype old_state new_state meta c))"
| log_agent_update: "store_step c (fst (log_agent_update now sid utype payload c))"
| mark_agent_update_processed: "store_step c (fst (mark_agent_update_processed uid success err c))"
| add_docker_command: "store_step c (fst (add_docker_command now sid cid cmd params issued_by c))"
| update_docker_command_status: "store_step c (fst (update_docker_command_status now cid' status code output err c))"
| add_bot_host: "store_step c (fst (add_bot_host now label address ssh c))"
| update_bot_host_status: "store_step c (update_bot_host_status now hid status c)"
| update_bot_host: "store_step c (fst (update_bot_host now hid label address ssh c))"
| delete_bot_host: "store_step c (fst (delete_bot_host hid c))"
| begin_bot_run: "store_step c (fst (begin_bot_run now bname hid c))"
| finish_bot_run: "store_step c (finish_bot_run now rid status code ms c)"
| add_bot_report: "store_step c (add_bot_report now rid payload c)"
| add_test_run: "store_step c (fst (add_test_run pid framework time ms code n_total passed failed skipped errors triggered_by c))"
| add_test_result: "store_step c (fst (add_test_result rid suite name status ms msg file line c))"
| upsert_git_server: "store_step c (fst (upsert_git_server A secret salt iv now g c))"
| update_git_server_status: "store_step c (fst (update_git_server_status now label status c))"
| mark_git_server_installed: "store_step c (fst (mark_git_server_installed now label time c))"
| update_git_server_last_check: "store_step c (fst (update_git_server_last_check now label time c))"
| update_git_server_admin_token: "store_step c (fst (update_git_server_admin_token A secret salt iv now label token c))"
| remove_git_server: "store_step c (fst (remove_git_server label c))"
| add_repo_migration: "store_step c (fst (add_repo_migration now m c))"
| update_repo_migration_status: "store_step c (fst (update_repo_migration_status mid status err c))"
| mark_repo_migration_completed: "store_step c (fst (mark_repo_migration_completed now mid time c))"
| add_git_server_health: "store_step c (fst (add_git_server_health health c))"

lemma conn_ok_exec: "conn_ok nexus_schema c \<Longrightarrow> conn_ok nexus_schema (fst (exec q c))"
  using db_execute_ok [OF nexus_schema_ok, of c q "fst (exec q c)" "snd (exec q c)"] by (simp add: exec_def)

lemma conn_ok_insert_id: "conn_ok nexus_schema c \<Longrightarrow> conn_ok nexus_schema (fst (insert_id e q c))"
  using conn_ok_exec [of c q] by (cases "exec q c") (simp add: insert_id_def)

lemmas store_operations =
  ensure_project_def update_project_def set_fact_def add_event_def record_command_def
  add_snapshot_def prune_events_def prune_commands_def add_workspace_snapshot_def
  update_workspace_snapshot_restore_count_def add_workspace_file_def delete_workspace_snapshot_def
  begin_workspace_restore_def finish_workspace_restore_def tag_workspace_snapshot_def
  untag_workspace_snapshot_def record_workspace_failure_def record_failure_with_context_def
  update_failure_resolution_def record_pattern_def update_pattern_statistics_def
  link_failure_to_pattern_def add_recovery_action_def update_recovery_action_stats_def
  begin_recovery_execution_def complete_recovery_execution_def add_server_def
  update_server_agent_container_def update_server_heartbeat_def update_server_status_def
  delete_server_def update_server_connection_def upsert_container_def mark_containers_stale_def
  delete_stale_containers_def upsert_compose_file_def upsert_docker_image_def
  upsert_docker_network_def upsert_docker_volume_def add_docker_status_event_def log_agent_update_def
  mark_agent_update_processed_def add_docker_command_def update_docker_command_status_def
  add_bot_host_def update_bot_host_status_def update_bot_host_def delete_bot_host_def
  begin_bot_run_def finish_bot_run_def add_bot_report_def add_test_run_def add_test_result_def
  upsert_git_server_def update_git_server_status_def mark_git_server_installed_def
  update_git_server_last_check_def update_git_server_admin_token_def remove_git_server_def
  add_repo_migration_def update_repo_migration_status_def mark_repo_migration_completed_def
  add_git_server_health_def

lemma store_step_conn_ok: "store_step c c' \<Longrightarrow> conn_ok nexus_schema c \<Longrightarrow> conn_ok nexus_schema c'"
  by (induction rule: store_step.induct)
    (simp_all add: store_operations conn_ok_exec conn_ok_insert_id Let_def split: option.splits)

interpretation store: step_invariant store_step "conn_ok nexus_schema"
  by unfold_locales (rule store_step_conn_ok)

text \<open>
  Every sequence of store operations keeps the integrity of the database: in every table of the
  schema identifiers are distinct, every row has the declared columns, NOT NULL and UNIQUE hold and
  every foreign key is NULL or names an existing row.
\<close>

lemma store_integrity:
  assumes "store_step\<^sup>*\<^sup>* c c'" "conn_ok nexus_schema c"
  shows "conn_ok nexus_schema c'"
  using assms by (rule store.inv_steps)

lemma store_integrity_example: "conn_ok nexus_schema demo_events"
proof (rule store_integrity)
  show "conn_ok nexus_schema fresh_db" using healthy_fresh_db by (simp add: healthy_def)
  show "store_step\<^sup>*\<^sup>* fresh_db demo_events"
    unfolding demo_events_def demo_project_def
    by (rule rtranclp.rtrancl_into_rtrancl [OF rtranclp.rtrancl_into_rtrancl
          [OF rtranclp.rtrancl_into_rtrancl [OF r_into_rtranclp]]];
        rule store_step.intros)
qed

text \<open>
  Identifiers stay within \<open>int64_t\<close>: in every database a session can reach from an intact one, the
  identifier of every row of every table is at least 1 and below \<open>2^63\<close>, and reading it back as
  the store does (as text, through \<open>std::stoll\<close>) gives the identifier itself.
\<close>

lemma row_ids_in_range:
  assumes "store_step\<^sup>*\<^sup>* c c'" "conn_ok nexus_schema c"
    and "d \<in> set nexus_schema" "r \<in> set (trows (tabs c' (tname d)))"
  shows "1 \<le> fst r \<and> fst r < 2 ^ 63 \<and> row_get_int r ''id'' = Some (fst r)"
proof -
  have "db_ok nexus_schema (tabs c')" using store.inv_steps [OF assms(1,2)] by (simp add: conn_ok_def)
  from row_id_range [OF this assms(3,4)] get_num_id(2) [OF this assms(3,4)] show ?thesis by simp
qed

lemma row_ids_in_range_example:
  "1 \<le> fst (hd (trows (tabs demo_project ''projects''))) \<and> fst (hd (trows (tabs demo_project ''projects''))) < 2 ^ 63"
proof -
  have "store_step\<^sup>*\<^sup>* fresh_db demo_project" unfolding demo_project_def by (rule r_into_rtranclp) (rule store_step.intros)
  moreover have "conn_ok nexus_schema fresh_db" using healthy_fresh_db by (simp add: healthy_def)
  moreover have "trows (tabs demo_project ''projects'') \<noteq> []" using demo_project_values(3) by (auto simp: ids_of_def)
  ultimately show ?thesis
    using row_ids_in_range [of fresh_db demo_project projects_table "hd (trows (tabs demo_project ''projects''))"] by simp
qed

end
