(* ===== verification/Nexus_Migrator.thy ===== *)
theory Nexus_Migrator
  imports Nazg_Prelude Config_Store
begin

text \<open>
  Schema migrations (\<open>src/modules/nexus/src/migrator.cpp\<close>). The connection is a parameter: how a script
  changes the database (\<open>execute_script\<close>) and which version the table \<open>schema_version\<close> reports. The
  migration scripts record their own version; \<open>records_version\<close> states that, and it is the only
  thing the results rely on. Directory listings are arguments too.
\<close>

section \<open>Loading\<close>

record migration =
  version :: int
  mig_sql :: string

text \<open>
  A directory entry: name, whether it is a regular file, and its content when it can be read. The
  regular expression \<open>(\d+)_.*\.sql\<close> must match the whole name; \<open>.\<close> matches no line end.
  \<open>std::stoi\<close> of the digits may be out of range: then \<open>load\<close> ends with that exception (\<^const>\<open>None\<close>).
\<close>

record dir_entry =
  entry_name :: string
  is_regular :: bool
  content :: "string option"

definition ends_with :: "string \<Rightarrow> string \<Rightarrow> bool" where
  "ends_with s suf \<longleftrightarrow> length suf \<le> length s \<and> drop (length s - length suf) s = suf"

definition version_digits :: "string \<Rightarrow> string option" where
  "version_digits name =
     (let ds = takeWhile isdigit name; rest = dropWhile isdigit name in
      if ds \<noteq> [] \<and> rest \<noteq> [] \<and> hd rest = CHR ''_'' \<and> ends_with (tl rest) ''.sql'' \<and>
         CHR 0x0A \<notin> set rest \<and> CHR 0x0D \<notin> set rest
      then Some ds else None)"

fun load_entries :: "dir_entry list \<Rightarrow> migration list option" where
  "load_entries [] = Some []"
| "load_entries (e # es) =
     (if \<not> is_regular e then load_entries es
      else case version_digits (entry_name e) of
             None \<Rightarrow> load_entries es
           | Some ds \<Rightarrow>
               (case stoi ds of
                  None \<Rightarrow> None
                | Some v \<Rightarrow>
                    (case content e of
                       None \<Rightarrow> load_entries es
                     | Some sql \<Rightarrow> map_option (\<lambda>ms. \<lparr>version = v, mig_sql = sql\<rparr> # ms) (load_entries es))))"

text \<open>The first existing directory of the search path; the listing of a path is \<^const>\<open>None\<close> when it is no directory.\<close>

definition search_paths :: "string \<Rightarrow> string \<Rightarrow> string \<Rightarrow> string \<Rightarrow> string list" where
  "search_paths exe_migrations source_migrations cwd data_dir =
     (if exe_migrations \<noteq> [] then [exe_migrations] else []) @
     [source_migrations, path_append cwd ''modules/nexus/migrations'', ''/usr/share/nazg/migrations'',
      path_append data_dir ''migrations'']"

definition load_migrations :: "(string \<Rightarrow> dir_entry list option) \<Rightarrow> string list \<Rightarrow> migration list option" where
  "load_migrations dirs paths =
     (case List.find (\<lambda>p. dirs p \<noteq> None) paths of
        None \<Rightarrow> Some []
      | Some p \<Rightarrow> map_option (sort_key version) (load_entries (case dirs p of Some es \<Rightarrow> es | None \<Rightarrow> [])))"

section \<open>Migrating\<close>

record 'db engine =
  execute_script :: "string \<Rightarrow> 'db \<Rightarrow> 'db \<times> bool"
  schema_version :: "'db \<Rightarrow> int"
  is_connected :: "'db \<Rightarrow> bool"

definition current_version :: "'db engine \<Rightarrow> 'db \<Rightarrow> int" where
  "current_version E db = (if is_connected E db then schema_version E db else 0)"

definition latest_version :: "migration list \<Rightarrow> int" where
  "latest_version ms = (if ms = [] then 0 else version (last ms))"

definition needs_migration :: "'db engine \<Rightarrow> migration list \<Rightarrow> 'db \<Rightarrow> bool" where
  "needs_migration E ms db \<longleftrightarrow> current_version E db < latest_version ms"

fun migrate_loop :: "'db engine \<Rightarrow> int \<Rightarrow> int \<Rightarrow> migration list \<Rightarrow> 'db \<Rightarrow> 'db \<times> bool" where
  "migrate_loop E cur tgt [] db = (db, True)"
| "migrate_loop E cur tgt (m # ms) db =
     (if version m \<le> cur then migrate_loop E cur tgt ms db
      else if tgt < version m then (db, True)
      else case execute_script E (mig_sql m) db of
             (db', True) \<Rightarrow> migrate_loop E cur tgt ms db'
           | (db', False) \<Rightarrow> (db', False))"

definition migrate_to :: "'db engine \<Rightarrow> migration list \<Rightarrow> int \<Rightarrow> 'db \<Rightarrow> 'db \<times> bool" where
  "migrate_to E ms tgt db =
     (if \<not> is_connected E db then (db, False)
      else let cur = current_version E db in
        if tgt \<le> cur then (db, True) else migrate_loop E cur tgt ms db)"

definition migrate :: "'db engine \<Rightarrow> migration list \<Rightarrow> 'db \<Rightarrow> 'db \<times> bool" where
  "migrate E ms db = migrate_to E ms (latest_version ms) db"

section \<open>What a migration run does\<close>

text \<open>
  The specification: the pending migrations, in ascending order, are applied one after the other, up to
  the first that fails.
\<close>

definition pending :: "int \<Rightarrow> int \<Rightarrow> migration list \<Rightarrow> migration list" where
  "pending cur tgt ms = filter (\<lambda>m. cur < version m \<and> version m \<le> tgt) ms"

primrec apply_all :: "'db engine \<Rightarrow> migration list \<Rightarrow> 'db \<Rightarrow> 'db \<times> bool" where
  "apply_all E [] db = (db, True)"
| "apply_all E (m # ms) db =
     (case execute_script E (mig_sql m) db of (db', ok) \<Rightarrow> if ok then apply_all E ms db' else (db', False))"

definition records_version :: "'db engine \<Rightarrow> migration list \<Rightarrow> bool" where
  "records_version E ms \<longleftrightarrow>
     (\<forall>m\<in>set ms. \<forall>db. is_connected E db \<longrightarrow>
        (case execute_script E (mig_sql m) db of (db', ok) \<Rightarrow>
           is_connected E db' \<and>
           schema_version E db' = (if ok then max (schema_version E db) (version m) else schema_version E db)))"

lemma sorted_pending_tail:
  "sorted (map version (m # ms)) \<Longrightarrow> tgt < version m \<Longrightarrow> pending cur tgt (m # ms) = []"
  by (fastforce simp: pending_def filter_empty_conv)

lemma migrate_loop_apply_all:
  "sorted (map version ms) \<Longrightarrow> migrate_loop E cur tgt ms db = apply_all E (pending cur tgt ms) db"
proof (induction E cur tgt ms db rule: migrate_loop.induct)
  case (2 E cur tgt m ms db)
  consider "version m \<le> cur" | "cur < version m" "tgt < version m" | "cur < version m" "version m \<le> tgt" by linarith
  then show ?case
  proof cases
    case 1
    then show ?thesis using 2 by (simp add: pending_def)
  next
    case 2
    then show ?thesis using sorted_pending_tail [OF "2.prems" 2(2), of cur] by simp
  next
    case 3
    then show ?thesis using 2 by (auto simp: pending_def split: prod.splits bool.splits)
  qed
qed (simp add: pending_def)

lemma sorted_load: "load_migrations dirs paths = Some ms \<Longrightarrow> sorted (map version ms)"
  by (auto simp: load_migrations_def split: option.splits)

lemma apply_all_version:
  assumes "records_version E ms" "set ps \<subseteq> set ms" "is_connected E db" "apply_all E ps db = (db', True)"
  shows "is_connected E db' \<and> schema_version E db' = foldl max (schema_version E db) (map version ps)"
  using assms(2-)
proof (induction ps arbitrary: db)
  case (Cons m ps)
  obtain db1 ok where e: "execute_script E (mig_sql m) db = (db1, ok)" by (cases "execute_script E (mig_sql m) db")
  have ok: "ok" using Cons.prems(3) e by (simp split: if_splits)
  have "is_connected E db1" "schema_version E db1 = max (schema_version E db) (version m)"
    using assms(1) Cons.prems(1,2) e ok by (fastforce simp: records_version_def)+
  then show ?case using Cons e ok by simp
qed simp

lemma foldl_max_ge: "x \<le> foldl max x ys" for x :: int
  by (induction ys arbitrary: x) (auto intro: order_trans [OF max.cobounded1])

lemma foldl_max_mem: "y \<in> set ys \<Longrightarrow> y \<le> foldl max x ys" for x :: int
  by (induction ys arbitrary: x) (auto intro: order_trans [OF max.cobounded2 foldl_max_ge])

lemma foldl_max_le: "x \<le> b \<Longrightarrow> \<forall>y\<in>set ys. y \<le> b \<Longrightarrow> foldl max x ys \<le> b" for x :: int
  by (induction ys arbitrary: x) auto

lemma last_version: "sorted (map version ms) \<Longrightarrow> m \<in> set ms \<Longrightarrow> version m \<le> latest_version ms"
  by (induction ms) (auto simp: latest_version_def)

text \<open>
  \<^bold>\<open>C34\<close> A migration run applies exactly the pending migrations, in ascending order of version, and
  stops at the first that fails. When it succeeds on a connected database behind the latest version, the
  database reports the latest version, no migration is needed any more, and running it again changes
  nothing.
\<close>

theorem migrate_applies_pending:
  assumes "load_migrations dirs paths = Some ms" "ms \<noteq> []" "records_version E ms" "is_connected E db"
    and "needs_migration E ms db"
  shows "migrate E ms db = apply_all E (pending (schema_version E db) (latest_version ms) ms) db \<and>
     (snd (migrate E ms db) \<longrightarrow>
        current_version E (fst (migrate E ms db)) = latest_version ms \<and>
        \<not> needs_migration E ms (fst (migrate E ms db)) \<and>
        migrate E ms (fst (migrate E ms db)) = (fst (migrate E ms db), True))"
proof -
  let ?cur = "schema_version E db" and ?lat = "latest_version ms"
  let ?ps = "pending ?cur ?lat ms"
  have srt: "sorted (map version ms)" by (rule sorted_load [OF assms(1)])
  have behind: "?cur < ?lat" using assms(4,5) by (simp add: needs_migration_def current_version_def)
  then have run: "migrate E ms db = apply_all E ?ps db"
    using assms(4) migrate_loop_apply_all [OF srt] by (simp add: migrate_def migrate_to_def current_version_def)
  have fin: "current_version E (fst (migrate E ms db)) = ?lat \<and> is_connected E (fst (migrate E ms db))"
    if "snd (migrate E ms db)"
  proof -
    have ap: "apply_all E ?ps db = (fst (migrate E ms db), True)" using that run by (simp add: prod_eq_iff)
    have sub: "set ?ps \<subseteq> set ms" by (auto simp: pending_def)
    then have v: "is_connected E (fst (migrate E ms db))"
      "schema_version E (fst (migrate E ms db)) = foldl max ?cur (map version ?ps)"
      using apply_all_version [OF assms(3) sub assms(4) ap] by simp_all
    have last: "last ms \<in> set ms" "version (last ms) = ?lat" using assms(2) by (simp_all add: latest_version_def)
    then have "?lat \<in> set (map version ?ps)" using behind by (force simp: pending_def)
    then have "?lat \<le> foldl max ?cur (map version ?ps)" by (rule foldl_max_mem)
    moreover have "foldl max ?cur (map version ?ps) \<le> ?lat"
      using behind by (intro foldl_max_le) (auto simp: pending_def)
    ultimately show ?thesis using v by (simp add: current_version_def)
  qed
  have "migrate E ms (fst (migrate E ms db)) = (fst (migrate E ms db), True)" if "snd (migrate E ms db)"
    using fin [OF that] by (simp add: migrate_def [of E ms "fst (migrate E ms db)"] migrate_to_def)
  with run fin show ?thesis by (simp add: needs_migration_def)
qed

text \<open>
  A database that is its version number, and scripts that are the number they record (an empty script
  fails).
\<close>

definition counter_engine :: "int engine" where
  "counter_engine = \<lparr>execute_script = (\<lambda>sql v. if sql = [] then (v, False) else (max v (int (digits_value sql)), True)),
     schema_version = (\<lambda>v. v), is_connected = (\<lambda>_. True)\<rparr>"

definition demo_dirs :: "string \<Rightarrow> dir_entry list option" where
  "demo_dirs p = (if p = ''/m'' then Some
     [\<lparr>entry_name = ''002_b.sql'', is_regular = True, content = Some ''2''\<rparr>,
      \<lparr>entry_name = ''readme'', is_regular = True, content = Some []\<rparr>,
      \<lparr>entry_name = ''001_a.sql'', is_regular = True, content = Some ''1''\<rparr>] else None)"

theorem migrate_applies_pending_witness:
  "migrate counter_engine [\<lparr>version = 1, mig_sql = ''1''\<rparr>, \<lparr>version = 2, mig_sql = ''2''\<rparr>] 0 = (2, True) \<and>
     \<not> needs_migration counter_engine [\<lparr>version = 1, mig_sql = ''1''\<rparr>, \<lparr>version = 2, mig_sql = ''2''\<rparr>] 2"
proof -
  let ?ms = "[\<lparr>version = 1, mig_sql = ''1''\<rparr>, \<lparr>version = 2, mig_sql = ''2''\<rparr>]"
  have "load_migrations demo_dirs [''/n'', ''/m''] = Some ?ms" "migrate counter_engine ?ms 0 = (2, True)" by code_simp+
  moreover have "digits_value ''1'' = 1" "digits_value ''2'' = 2" by code_simp+
  then have "records_version counter_engine ?ms" by (simp add: records_version_def counter_engine_def)
  ultimately show ?thesis
    using migrate_applies_pending [of demo_dirs "[''/n'', ''/m'']" ?ms counter_engine 0]
    by (simp add: counter_engine_def needs_migration_def current_version_def latest_version_def)
qed

text \<open>
  A run that fails leaves the database at the version of the last migration that worked, so the next run
  resumes with the one that failed.
\<close>

lemma apply_all_resume:
  "apply_all E ps db = (db', False) \<Longrightarrow>
     \<exists>qs m rs dq. ps = qs @ m # rs \<and> apply_all E qs db = (dq, True) \<and> execute_script E (mig_sql m) dq = (db', False)"
proof (induction ps arbitrary: db)
  case (Cons m ps)
  obtain d1 ok where e: "execute_script E (mig_sql m) db = (d1, ok)" by (cases "execute_script E (mig_sql m) db")
  show ?case
  proof (cases ok)
    case True
    then have "apply_all E ps d1 = (db', False)" using Cons.prems e by simp
    then obtain qs k rs dq where "ps = qs @ k # rs" "apply_all E qs d1 = (dq, True)" "execute_script E (mig_sql k) dq = (db', False)"
      using Cons.IH by blast
    then have "m # ps = (m # qs) @ k # rs" "apply_all E (m # qs) db = (dq, True)" using e True by simp_all
    then show ?thesis using \<open>execute_script E (mig_sql k) dq = (db', False)\<close> by blast
  next
    case False
    then have "m # ps = [] @ m # ps" "apply_all E [] db = (db, True)" "execute_script E (mig_sql m) db = (db', False)"
      using Cons.prems e by simp_all
    then show ?thesis by blast
  qed
qed simp

end
