(* ===== verification/Workspace_Prune.thy ===== *)
theory Workspace_Prune
  imports Workspace_Records
begin

text \<open>
  Pruning snapshots: which snapshots \<open>prune_old_snapshots\<close> and \<open>prune_older_than\<close> remove from the database
  and which they keep.
\<close>

section \<open>The listing\<close>

lemma those_Some_map: "those (map f xs) = Some ys \<Longrightarrow> map Some ys = map f xs"
  by (induction xs arbitrary: ys) (auto split: option.splits)

lemma those_length: "those xs = Some ys \<Longrightarrow> length ys = length xs"
  by (induction xs arbitrary: ys) (auto split: option.splits)

lemma listed_rows_member:
  assumes "healthy c" "r \<in> set (listed_snapshot_rows pid n c)"
  shows "r \<in> set (trows (tabs c ''workspace_snapshots''))" "val r ''project_id'' = VInt pid"
proof -
  have "r \<in> set (select ''workspace_snapshots'' (eq_int ''project_id'' pid) c)"
    using assms(2) by (auto simp: listed_snapshot_rows_def limit_rows_def split: if_splits dest: in_set_takeD)
  then show "r \<in> set (trows (tabs c ''workspace_snapshots''))" "val r ''project_id'' = VInt pid"
    using assms(1) by (simp_all add: set_select healthy_def)
qed

lemma list_snapshots_ids:
  assumes "healthy c" "list_snapshots pid n c = Some ss"
  shows "map ws_id ss = map fst (listed_snapshot_rows pid n c)"
    "map ws_timestamp ss = map (\<lambda>r. get_num r ''timestamp'') (listed_snapshot_rows pid n c)"
proof -
  let ?rs = "listed_snapshot_rows pid n c"
  have ss: "map Some ss = map (\<lambda>r. snapshot_of_row (row_map listed_columns r)) ?rs"
    using those_Some_map [of "\<lambda>r. snapshot_of_row (row_map listed_columns r)" ?rs ss] assms(2)
    by (simp add: list_snapshots_def list_workspace_snapshots_def comp_def)
  then have len: "length ss = length ?rs" by (metis length_map)
  have "ws_id (ss ! i) = get_num (?rs ! i) ''id'' \<and> ws_timestamp (ss ! i) = get_num (?rs ! i) ''timestamp''" if "i < length ss" for i
  proof -
    have "Some (ss ! i) = snapshot_of_row (row_map listed_columns (?rs ! i))"
      using ss that len by (metis (no_types, lifting) nth_map)
    then show ?thesis by (auto simp: snapshot_of_listed_row snapshot_of_def split: if_splits)
  qed
  moreover have "get_num r ''id'' = fst r" if "r \<in> set ?rs" for r
    using get_num_id(1) [of nexus_schema "tabs c" workspace_snapshots_table r] listed_rows_member(1) [OF assms(1) that] assms(1)
    by (simp add: healthy_def conn_ok_def)
  ultimately show "map ws_id ss = map fst ?rs" "map ws_timestamp ss = map (\<lambda>r. get_num r ''timestamp'') ?rs"
    using len by (auto intro!: nth_equalityI)
qed

lemma tagged_ids_rows: "tagged_ids pid c = Some (map (\<lambda>t. get_num t ''snapshot_id'') (tag_rows pid c))"
  unfolding tagged_ids_def list_workspace_tags_def tag_rows_def map_map
  by (rule those_map_Some) (simp add: row_num_def map_get_row_map tag_columns_def)

section \<open>The loop\<close>

abbreviation snapshot_ids :: "sqlite \<Rightarrow> int list" where
  "snapshot_ids c \<equiv> map fst (trows (tabs c ''workspace_snapshots''))"

lemma delete_snapshot_done:
  assumes "healthy c" "\<forall>n. \<not> io_fails c n"
  shows "\<exists>c'. delete_workspace_snapshot sid c = (c', True) \<and> healthy c' \<and> (\<forall>n. \<not> io_fails c' n) \<and>
     snapshot_ids c' = filter (\<lambda>i. i \<noteq> sid) (snapshot_ids c)"
proof -
  obtain c' b where d: "delete_workspace_snapshot sid c = (c', b)" by fastforce
  have "c' = fst (delete_workspace_snapshot sid c)" by (simp add: d)
  then have "healthy c'" "\<forall>n. \<not> io_fails c' n" using assms by (simp_all add: delete_workspace_snapshot_def)
  then show ?thesis using delete_snapshot_effect [OF assms(1) _ d] assms(2) d by simp
qed

definition protected :: "prune_options \<Rightarrow> int list \<Rightarrow> int \<Rightarrow> bool" where
  "protected opts tagged i \<longleftrightarrow> i \<in> set tagged \<and> untagged_only opts"

lemma filter_not_in_Cons:
  "filter (\<lambda>i. i \<notin> set (filter P is)) (filter (\<lambda>i. i \<noteq> j) xs) = filter (\<lambda>i. i \<notin> set (j # filter P is)) xs"
  by (simp add: conj_commute)

lemma prune_loop:
  assumes "healthy c" "\<forall>n. \<not> io_fails c n" "\<not> prune_dry_run opts"
  shows "\<exists>c' r'. fold (prune_one opts tagged) ss (c, r) = (c', r') \<and>
     deleted_ids r' = deleted_ids r @ filter (\<lambda>i. \<not> protected opts tagged i) (map ws_id ss) \<and>
     snapshot_ids c' = filter (\<lambda>i. i \<notin> set (filter (\<lambda>i. \<not> protected opts tagged i) (map ws_id ss))) (snapshot_ids c)"
  using assms(1,2)
proof (induction ss arbitrary: c r)
  case (Cons s ss)
  show ?case
  proof (cases "protected opts tagged (ws_id s)")
    case True
    obtain r1 where r1: "prune_one opts tagged s (c, r) = (c, r1)" "deleted_ids r1 = deleted_ids r"
      using True by (simp add: prune_one_def protected_def)
    show ?thesis using Cons.IH [OF Cons.prems, of r1] True by (simp add: r1)
  next
    case False
    obtain c1 where c1: "delete_workspace_snapshot (ws_id s) c = (c1, True)" "healthy c1" "\<forall>n. \<not> io_fails c1 n"
      "snapshot_ids c1 = filter (\<lambda>i. i \<noteq> ws_id s) (snapshot_ids c)"
      using delete_snapshot_done [OF Cons.prems, of "ws_id s"] by blast
    then have one: "prune_one opts tagged s (c, r) = (c1, r\<lparr>deleted_ids := deleted_ids r @ [ws_id s]\<rparr>)"
      using False assms(3) by (auto simp: prune_one_def protected_def)
    have "filter (\<lambda>i. \<not> protected opts tagged i) (map ws_id (s # ss)) = ws_id s # filter (\<lambda>i. \<not> protected opts tagged i) (map ws_id ss)"
      using False by simp
    then show ?thesis using Cons.IH [OF c1(2,3), of "r\<lparr>deleted_ids := deleted_ids r @ [ws_id s]\<rparr>"]
      unfolding c1(4) filter_not_in_Cons by (simp only: fold_simps one) simp
  qed
qed simp

text \<open>A dry run deletes nothing and reports what would be deleted.\<close>

lemma prune_loop_dry:
  assumes "prune_dry_run opts"
  shows "\<exists>r'. fold (prune_one opts tagged) ss (c, r) = (c, r') \<and>
     deleted_ids r' = deleted_ids r @ filter (\<lambda>i. \<not> protected opts tagged i) (map ws_id ss)"
proof (induction ss arbitrary: r)
  case (Cons s ss)
  show ?case using Cons.IH [of "snd (prune_one opts tagged s (c, r))"] assms by (auto simp: prune_one_def protected_def)
qed simp

text \<open>What a prune run reports and leaves, in terms of the listing it reads.\<close>

lemma prune_effect:
  assumes "healthy c" "\<forall>n. \<not> io_fails c n" "0 \<le> keep" "prune_old_snapshots pid keep opts c = Some (c', r)"
  shows "deleted_ids r = filter (\<lambda>i. \<not> (i \<in> set (map (\<lambda>t. get_num t ''snapshot_id'') (tag_rows pid c)) \<and> untagged_only opts))
       (map fst (drop (nat keep) (listed_snapshot_rows pid 1000 c))) \<and>
     deleted r = int (length (deleted_ids r)) \<and>
     snapshot_ids c' = (if prune_dry_run opts then snapshot_ids c else filter (\<lambda>i. i \<notin> set (deleted_ids r)) (snapshot_ids c))"
proof -
  obtain ss where ss: "list_snapshots pid 1000 c = Some ss" using assms(3,4) by (auto simp: prune_old_snapshots_def bind_eq_Some_conv)
  note ids = list_snapshots_ids [OF assms(1) ss]
  let ?tg = "map (\<lambda>t. get_num t ''snapshot_id'') (tag_rows pid c)"
  have drop_ids: "map ws_id (drop (nat keep) ss) = map fst (drop (nat keep) (listed_snapshot_rows pid 1000 c))"
    using ids(1) by (metis drop_map)
  show ?thesis
  proof (cases "length ss \<le> nat keep")
    case True
    then have "drop (nat keep) (listed_snapshot_rows pid 1000 c) = []" using ids(1) by (metis drop_all length_map)
    moreover have "c' = c \<and> r = no_prune" using True assms(3,4) ss by (simp add: prune_old_snapshots_def)
    ultimately show ?thesis by (simp add: no_prune_def)
  next
    case False
    let ?r0 = "no_prune\<lparr>total_candidates := int (length ss) - keep\<rparr>"
    let ?run = "fold (prune_one opts ?tg) (drop (nat keep) ss) (c, ?r0)"
    have fin: "c' = fst ?run" "r = (snd ?run)\<lparr>deleted := int (length (deleted_ids (snd ?run)))\<rparr>"
      using False assms(3,4) ss by (auto simp: prune_old_snapshots_def tagged_ids_rows finish_prune_def)
    show ?thesis
    proof (cases "prune_dry_run opts")
      case True
      then show ?thesis using prune_loop_dry [OF True, of ?tg "drop (nat keep) ss" c ?r0] fin
        by (auto simp: no_prune_def drop_ids protected_def)
    next
      case live: False
      then show ?thesis using prune_loop [OF assms(1,2) live, of ?tg "drop (nat keep) ss" ?r0] fin
        by (auto simp: no_prune_def drop_ids protected_def)
    qed
  qed
qed

section \<open>What pruning promises\<close>

text \<open>
  The specification does not mention the listing: the snapshots of a project are the rows with its
  number, a snapshot is tagged when a tag of the project names it.
\<close>

definition own_snapshots :: "int \<Rightarrow> sqlite \<Rightarrow> sql_row list" where
  "own_snapshots pid c = filter (\<lambda>r. val r ''project_id'' = VInt pid) (trows (tabs c ''workspace_snapshots''))"

definition is_tagged :: "int \<Rightarrow> sqlite \<Rightarrow> int \<Rightarrow> bool" where
  "is_tagged pid c sid \<longleftrightarrow> (\<exists>t\<in>set (trows (tabs c ''workspace_tags'')).
     val t ''project_id'' = VInt pid \<and> val t ''snapshot_id'' = VInt sid)"

text \<open>All rows of the project, the newest first: what \<open>LIMIT\<close> cuts.\<close>

definition newest_first :: "sql_row list \<Rightarrow> bool" where
  "newest_first rs \<longleftrightarrow> sorted_wrt (\<lambda>r s. val s ''timestamp'' \<le> val r ''timestamp'') rs"

lemma listing_is_newest_first:
  assumes "healthy c"
  shows "\<exists>rs. mset rs = mset (own_snapshots pid c) \<and> newest_first rs \<and> listed_snapshot_rows pid 1000 c = take 1000 rs"
proof -
  let ?rs = "order_desc ''timestamp'' (select ''workspace_snapshots'' (eq_int ''project_id'' pid) c)"
  have "eq_int ''project_id'' pid = (\<lambda>r. val r ''project_id'' = VInt pid)"
    by (auto simp: fun_eq_iff)
  then have "mset ?rs = mset (own_snapshots pid c)"
    using assms by (simp add: mset_select healthy_def own_snapshots_def)
  moreover have "sorted (map (\<lambda>r. val r ''timestamp'') (rev ?rs))" by (simp add: order_desc_def)
  then have "newest_first ?rs"
    by (simp add: newest_first_def sorted_map sorted_wrt_rev)
  moreover have "listed_snapshot_rows pid 1000 c = take 1000 ?rs"
    by (simp add: listed_snapshot_rows_def limit_rows_def)
  ultimately show ?thesis by blast
qed

lemma tag_names_snapshot:
  assumes "healthy c" "t \<in> set (trows (tabs c ''workspace_tags''))" "r \<in> set (trows (tabs c ''workspace_snapshots''))"
  shows "get_num t ''snapshot_id'' = fst r \<longleftrightarrow> val t ''snapshot_id'' = VInt (fst r)"
proof -
  have db: "db_ok nexus_schema (tabs c)" using assms(1) by (simp add: healthy_def conn_ok_def)
  have tb: "row_ok workspace_tags_table (tabs c) (snd t)"
    using db_ok_table [OF db, of workspace_tags_table] assms(2) by (simp add: table_ok_def Let_def list_all_iff)
  have rid: "1 \<le> fst r" "fst r < 2 ^ 63" using row_id_range [OF db, of workspace_snapshots_table r] assms(3) by simp_all
  have "val t ''snapshot_id'' = VNull \<or> (\<exists>i. val t ''snapshot_id'' = VInt i \<and> i \<in> set (ids_of (tabs c ''workspace_snapshots'')))"
    using tb by (auto simp: row_ok_def fkeys_ok_def refers_def val_def split: sql_value.splits)
  then show ?thesis
  proof
    assume "val t ''snapshot_id'' = VNull"
    then show ?thesis using rid(1) by (simp add: get_num_def row_get_int_def row_get_def)
  next
    assume "\<exists>i. val t ''snapshot_id'' = VInt i \<and> i \<in> set (ids_of (tabs c ''workspace_snapshots''))"
    then obtain i r' where i: "val t ''snapshot_id'' = VInt i" "r' \<in> set (trows (tabs c ''workspace_snapshots''))" "i = fst r'"
      by (auto simp: ids_of_def)
    then have "1 \<le> i" "i < 2 ^ 63" using row_id_range [OF db, of workspace_snapshots_table r'] by simp_all
    then show ?thesis using row_get_int_VInt(2) [OF i(1)] i(1) by simp
  qed
qed

lemma tagged_rows:
  assumes "healthy c" "r \<in> set (trows (tabs c ''workspace_snapshots''))"
  shows "fst r \<in> set (map (\<lambda>t. get_num t ''snapshot_id'') (tag_rows pid c)) \<longleftrightarrow> is_tagged pid c (fst r)"
proof -
  have "set (tag_rows pid c) = {t \<in> set (trows (tabs c ''workspace_tags'')). val t ''project_id'' = VInt pid}"
    using assms(1) by (auto simp: tag_rows_def set_select healthy_def eq_int_def)
  then show ?thesis using tag_names_snapshot [OF assms(1) _ assms(2)]
    by (fastforce simp: is_tagged_def image_iff)
qed

lemma same_id_same_row:
  assumes "healthy c" "r \<in> set (trows (tabs c ''workspace_snapshots''))" "s \<in> set (trows (tabs c ''workspace_snapshots''))"
    "fst r = fst s"
  shows "r = s"
proof -
  have "db_ok nexus_schema (tabs c)" using assms(1) by (simp add: healthy_def conn_ok_def)
  then have "distinct (map fst (trows (tabs c ''workspace_snapshots'')))"
    using db_ok_table [of nexus_schema "tabs c" workspace_snapshots_table] by (simp add: table_ok_def Let_def ids_of_def)
  then show ?thesis using assms(2-4) by (simp add: distinct_map inj_on_def)
qed

text \<open>
  \<^bold>\<open>C36\<close> \<open>prune_old_snapshots\<close> goes by time: with the snapshots of the project arranged from the newest
  timestamp to the oldest, it removes and reports exactly those behind the first \<open>keep_count\<close> - of the first
  1000, the ones it looks at - that are not tagged or may go although they are. The newest
  \<open>keep_count\<close> stay, tagged ones stay when only untagged ones may go, every snapshot of another project stays,
  the count is the number of identifiers reported, and a dry run reports the same and removes nothing.
\<close>

theorem prune_keeps_newest:
  assumes "healthy c" "\<forall>n. \<not> io_fails c n" "0 \<le> keep" "prune_old_snapshots pid keep opts c = Some (c', r)"
  shows "(\<exists>rs. mset rs = mset (own_snapshots pid c) \<and> newest_first rs \<and>
       deleted_ids r = map fst (filter (\<lambda>s. \<not> (untagged_only opts \<and> is_tagged pid c (fst s))) (drop (nat keep) (take 1000 rs))) \<and>
       set (map fst (take (nat keep) rs)) \<subseteq> set (snapshot_ids c')) \<and>
     deleted r = int (length (deleted_ids r)) \<and>
     snapshot_ids c' = (if prune_dry_run opts then snapshot_ids c else filter (\<lambda>i. i \<notin> set (deleted_ids r)) (snapshot_ids c)) \<and>
     (\<forall>s\<in>set (trows (tabs c ''workspace_snapshots'')).
        val s ''project_id'' \<noteq> VInt pid \<or> (untagged_only opts \<and> is_tagged pid c (fst s)) \<longrightarrow> fst s \<in> set (snapshot_ids c'))"
proof -
  let ?all = "trows (tabs c ''workspace_snapshots'')"
  note eff = prune_effect [OF assms]
  obtain rs where rs: "mset rs = mset (own_snapshots pid c)" "newest_first rs" "listed_snapshot_rows pid 1000 c = take 1000 rs"
    using listing_is_newest_first [OF assms(1)] by blast
  have own: "set rs = {s \<in> set ?all. val s ''project_id'' = VInt pid}"
    using mset_eq_setD [OF rs(1)] by (simp add: own_snapshots_def)
  have dist: "distinct rs"
  proof -
    have "db_ok nexus_schema (tabs c)" using assms(1) by (simp add: healthy_def conn_ok_def)
    then have "distinct (map fst ?all)"
      using db_ok_table [of nexus_schema "tabs c" workspace_snapshots_table] by (simp add: table_ok_def Let_def ids_of_def)
    then have "distinct (own_snapshots pid c)" by (simp add: own_snapshots_def distinct_map)
    then show ?thesis using mset_eq_imp_distinct_iff [OF rs(1)] by simp
  qed
  define gone where "gone = filter (\<lambda>s. \<not> (untagged_only opts \<and> is_tagged pid c (fst s))) (drop (nat keep) (take 1000 rs))"
  have sub: "set (drop (nat keep) (take 1000 rs)) \<subseteq> set ?all"
    using own by (auto dest!: in_set_dropD in_set_takeD)
  have del: "deleted_ids r = map fst gone"
    unfolding eff [THEN conjunct1] rs(3) gone_def filter_map comp_def
    by (intro arg_cong [where f = "map fst"] filter_cong refl)
      (use sub tagged_rows [OF assms(1), of _ pid] in auto)
  have kept: "fst s \<in> set (snapshot_ids c')" if s: "s \<in> set ?all" "s \<notin> set gone" for s
  proof -
    have "fst s \<notin> set (deleted_ids r)"
      using same_id_same_row [OF assms(1) s(1)] s(2) sub by (fastforce simp: del gone_def)
    then show ?thesis using eff s(1) by auto
  qed
  have "set (map fst (take (nat keep) rs)) \<subseteq> set (snapshot_ids c')"
  proof
    fix i assume "i \<in> set (map fst (take (nat keep) rs))"
    then obtain s where s: "s \<in> set (take (nat keep) rs)" "i = fst s" by auto
    have "set (take (nat keep) rs) \<inter> set (drop (nat keep) rs) = {}"
      using dist by (rule set_take_disj_set_drop_if_distinct) simp
    moreover have "set (drop (nat keep) (take 1000 rs)) \<subseteq> set (drop (nat keep) rs)"
      by (auto simp: drop_take dest: in_set_takeD)
    ultimately have "s \<notin> set gone" using s(1) by (auto simp: gone_def)
    moreover have "s \<in> set ?all" using s(1) own by (auto dest: in_set_takeD)
    ultimately show "i \<in> set (snapshot_ids c')" using kept s(2) by simp
  qed
  then have ex: "\<exists>rs. mset rs = mset (own_snapshots pid c) \<and> newest_first rs \<and>
       deleted_ids r = map fst (filter (\<lambda>s. \<not> (untagged_only opts \<and> is_tagged pid c (fst s))) (drop (nat keep) (take 1000 rs))) \<and>
       set (map fst (take (nat keep) rs)) \<subseteq> set (snapshot_ids c')"
    using rs(1,2) del unfolding gone_def by blast
  have others: "fst s \<in> set (snapshot_ids c')"
    if "s \<in> set ?all" "val s ''project_id'' \<noteq> VInt pid \<or> (untagged_only opts \<and> is_tagged pid c (fst s))" for s
  proof (rule kept [OF that(1)])
    show "s \<notin> set gone" using that(2) own by (auto simp: gone_def dest!: in_set_dropD in_set_takeD)
  qed
  show ?thesis using ex eff [THEN conjunct2] others by blast
qed

lemma prune_older_than_deletes:
  assumes "healthy c" "\<forall>n. \<not> io_fails c n" "0 < days" "\<not> prune_dry_run opts" "cutoff_timestamp now_ns days = Some t"
    "prune_older_than now_ns pid days opts c = Some (c', r)"
  shows "snapshot_ids c' = filter (\<lambda>i. i \<notin> set (deleted_ids r)) (snapshot_ids c) \<and>
     (\<forall>i\<in>set (deleted_ids r). \<exists>row\<in>set (listed_snapshot_rows pid 1000 c). fst row = i \<and> get_num row ''timestamp'' < t \<and>
        \<not> protected opts (map (\<lambda>t. get_num t ''snapshot_id'') (tag_rows pid c)) i)"
proof -
  let ?tg = "map (\<lambda>t. get_num t ''snapshot_id'') (tag_rows pid c)" and ?rs = "listed_snapshot_rows pid 1000 c"
  obtain ss where ss: "list_snapshots pid 1000 c = Some ss"
    using assms(3,5,6) by (auto simp: prune_older_than_def bind_eq_Some_conv)
  note ids = list_snapshots_ids [OF assms(1) ss]
  let ?old = "filter (\<lambda>s. ws_timestamp s < t) ss"
  let ?run = "fold (prune_one opts ?tg) ?old (c, no_prune\<lparr>total_candidates := int (length ?old)\<rparr>)"
  have fin: "c' = fst ?run" "deleted_ids r = deleted_ids (snd ?run)"
    using assms(3,5,6) ss by (auto simp: prune_older_than_def tagged_ids_rows finish_prune_def Let_def)
  have del: "deleted_ids r = filter (\<lambda>i. \<not> protected opts ?tg i) (map ws_id ?old)"
    "snapshot_ids c' = filter (\<lambda>i. i \<notin> set (deleted_ids r)) (snapshot_ids c)"
    using prune_loop [OF assms(1,2,4), of ?tg ?old "no_prune\<lparr>total_candidates := int (length ?old)\<rparr>"] fin
    by (auto simp: no_prune_def)
  have "\<exists>row\<in>set ?rs. fst row = i \<and> get_num row ''timestamp'' < t" if i: "i \<in> set (map ws_id ?old)" for i
  proof -
    obtain s where s: "s \<in> set ss" "ws_id s = i" "ws_timestamp s < t" using i by auto
    then obtain k where k: "k < length ss" "ss ! k = s" by (auto simp: in_set_conv_nth)
    have len: "length ss = length ?rs" using ids(1) by (metis length_map)
    then have "fst (?rs ! k) = map ws_id ss ! k" "get_num (?rs ! k) ''timestamp'' = map ws_timestamp ss ! k"
      unfolding ids using k(1) by simp_all
    then have "fst (?rs ! k) = i" "get_num (?rs ! k) ''timestamp'' < t" using k s by simp_all
    moreover have "?rs ! k \<in> set ?rs" using k(1) len by simp
    ultimately show ?thesis by blast
  qed
  then show ?thesis using del by auto
qed

section \<open>Witness\<close>

lemma prune_defined: "list_snapshots pid 1000 c = Some ss \<Longrightarrow> \<exists>c' r. prune_old_snapshots pid keep opts c = Some (c', r)"
  by (auto simp: prune_old_snapshots_def tagged_ids_rows finish_prune_def)

lemma demo_ws_rows:
  "map_option (map ws_id) (list_snapshots 1 1000 demo_ws) = Some [2, 1]"
  "map (\<lambda>s. (fst s, val s ''timestamp'')) (own_snapshots 1 demo_ws) = [(1, VInt 20), (2, VInt 30)]"
  "trows (tabs demo_ws ''workspace_tags'') = []" "map fst (trows (tabs demo_ws ''workspace_snapshots'')) = [1, 2]"
  by code_simp+

lemma newest_of_two:
  assumes "mset rs = mset [x, y]" "newest_first rs" "val x ''timestamp'' < val y ''timestamp''"
  shows "rs = [y, x]"
proof -
  have "length rs = 2" using mset_eq_length [OF assms(1)] by simp
  then obtain u v where "rs = [u, v]" by (auto simp: length_Suc_conv numeral_2_eq_2)
  moreover have "{u, v} = {x, y}" using mset_eq_setD [OF assms(1)] calculation by simp
  ultimately show ?thesis using assms by (auto simp: newest_first_def doubleton_eq_iff)
qed

theorem prune_keeps_newest_witness:
  "\<exists>c' r. prune_old_snapshots 1 1 \<lparr>prune_dry_run = False, untagged_only = True\<rparr> demo_ws = Some (c', r) \<and> deleted_ids r = [1] \<and>
     map fst (trows (tabs c' ''workspace_snapshots'')) = [2]"
proof -
  obtain ss where "list_snapshots 1 1000 demo_ws = Some ss" using demo_ws_rows(1) by auto
  then obtain c' r where run: "prune_old_snapshots 1 1 \<lparr>prune_dry_run = False, untagged_only = True\<rparr> demo_ws = Some (c', r)"
    using prune_defined by blast
  obtain x y where xy: "own_snapshots 1 demo_ws = [x, y]" "fst x = 1" "val x ''timestamp'' < val y ''timestamp''"
    using demo_ws_rows(2) by (auto simp: less_sql_value_def)
  note res = prune_keeps_newest [OF healthy_demo_ws _ _ run]
  obtain rs where rs: "mset rs = mset [x, y]" "newest_first rs"
    "deleted_ids r = map fst (filter (\<lambda>s. \<not> (True \<and> is_tagged 1 demo_ws (fst s))) (drop 1 (take 1000 rs)))"
    using res xy(1) by (auto simp: demo_ws_io)
  have "deleted_ids r = [1]" using rs(3) xy(2) demo_ws_rows(3)
    unfolding newest_of_two [OF rs(1,2) xy(3)] by (simp add: is_tagged_def)
  moreover have "map fst (trows (tabs c' ''workspace_snapshots'')) = [2]"
    using res demo_ws_rows(4) calculation by (simp add: demo_ws_io)
  ultimately show ?thesis using run by simp
qed

end
