(* ===== verification/Std_Regex.thy ===== *)
theory Std_Regex
  imports Nazg_Prelude
begin

text \<open>
  The part of \<open>std::regex\<close> (ECMAScript grammar, C locale) that the sources use: character classes, sequences, ordered
  alternatives, greedy and lazy repetition, numbered groups and the anchor \<open>^\<close>. A pattern is a \<open>regex\<close>; \<open>attempts\<close>
  lists the ways to match at one position in the order in which the backtracking matcher tries them, so the first
  one is the match. \<open>regex_search\<close> takes the leftmost position with a match, \<open>regex_replace\<close> goes on after each match.
  An iteration of a repetition that consumes nothing is not continued, as the grammar demands. The theory
  ends with the language of a pattern and the proof that the matcher finds exactly the prefixes in it.
\<close>

section \<open>Patterns\<close>

datatype regex =
    Empty
  | Begin
  | Class "char \<Rightarrow> bool"
  | Seq regex regex
  | Alt regex regex
  | Star regex
  | Lazy regex
  | Group nat regex

abbreviation Lit :: "char \<Rightarrow> regex" where
  "Lit c \<equiv> Class (\<lambda>x. x = c)"

fun Word :: "string \<Rightarrow> regex" where
  "Word [] = Empty"
| "Word [c] = Lit c"
| "Word (c # s) = Seq (Lit c) (Word s)"

fun Seqs :: "regex list \<Rightarrow> regex" where
  "Seqs [] = Empty"
| "Seqs [r] = r"
| "Seqs (r # rs) = Seq r (Seqs rs)"

fun Alts :: "regex list \<Rightarrow> regex" where
  "Alts [] = Class (\<lambda>_. False)"
| "Alts [r] = r"
| "Alts (r # rs) = Alt r (Alts rs)"

definition Plus :: "regex \<Rightarrow> regex" where
  "Plus r = Seq r (Star r)"

definition Lazy_Plus :: "regex \<Rightarrow> regex" where
  "Lazy_Plus r = Seq r (Lazy r)"

definition Maybe :: "regex \<Rightarrow> regex" where
  "Maybe r = Alt r Empty"

definition Times :: "nat \<Rightarrow> regex \<Rightarrow> regex" where
  "Times n r = Seqs (replicate n r)"

text \<open>\<open>.\<close>, \<open>\w\<close>, \<open>\S\<close>: \<open>\d\<close> and \<open>\s\<close> are \<^const>\<open>isdigit\<close> and \<^const>\<open>isspace\<close>.\<close>

definition any_char :: "char \<Rightarrow> bool" where
  "any_char c \<longleftrightarrow> c \<noteq> CHR 0x0A \<and> c \<noteq> CHR 0x0D"

definition word_char :: "char \<Rightarrow> bool" where
  "word_char c \<longleftrightarrow> isalpha c \<or> isdigit c \<or> c = CHR ''_''"

section \<open>Matching\<close>

text \<open>A state: whether the position is the beginning of the subject, the text that is left, and the groups so far.\<close>

type_synonym match_state = "bool \<times> string \<times> (nat \<rightharpoonup> string)"

abbreviation left :: "match_state \<Rightarrow> string" where
  "left st \<equiv> fst (snd st)"

primrec repeat :: "bool \<Rightarrow> nat \<Rightarrow> (match_state \<Rightarrow> match_state list) \<Rightarrow> match_state \<Rightarrow> match_state list" where
  "repeat greedy 0 f st = [st]"
| "repeat greedy (Suc n) f st =
     (let more = concat (map (repeat greedy n f) (filter (\<lambda>st'. length (left st') < length (left st)) (f st)))
      in if greedy then more @ [st] else st # more)"

primrec attempts :: "regex \<Rightarrow> match_state \<Rightarrow> match_state list" where
  "attempts Empty st = [st]"
| "attempts Begin st = (if fst st then [st] else [])"
| "attempts (Class P) st = (case left st of [] \<Rightarrow> [] | c # s \<Rightarrow> if P c then [(False, s, snd (snd st))] else [])"
| "attempts (Seq r1 r2) st = concat (map (attempts r2) (attempts r1 st))"
| "attempts (Alt r1 r2) st = attempts r1 st @ attempts r2 st"
| "attempts (Star r) st = repeat True (length (left st)) (attempts r) st"
| "attempts (Lazy r) st = repeat False (length (left st)) (attempts r) st"
| "attempts (Group k r) st =
     map (\<lambda>(b, s, g). (b, s, g(k \<mapsto> take (length (left st) - length s) (left st)))) (attempts r st)"

record smatch =
  sm_prefix :: string
  sm_text :: string
  sm_suffix :: string
  sm_groups :: "nat \<rightharpoonup> string"

text \<open>\<open>pre\<close> is the part of the subject already passed, in reverse.\<close>

fun search_from :: "regex \<Rightarrow> bool \<Rightarrow> string \<Rightarrow> string \<Rightarrow> smatch option" where
  "search_from r at_begin pre s =
     (case attempts r (at_begin, s, Map.empty) of
        (_, rest, g) # _ \<Rightarrow>
          Some \<lparr>sm_prefix = rev pre, sm_text = take (length s - length rest) s, sm_suffix = rest, sm_groups = g\<rparr>
      | [] \<Rightarrow> (case s of [] \<Rightarrow> None | c # s' \<Rightarrow> search_from r False (c # pre) s'))"

declare search_from.simps [simp del]

definition regex_search :: "regex \<Rightarrow> string \<Rightarrow> smatch option" where
  "regex_search r s = search_from r True [] s"

text \<open>\<open>match[k].str ()\<close>: empty when the group took no part.\<close>

definition group_text :: "smatch \<Rightarrow> nat \<Rightarrow> string" where
  "group_text m k = (case sm_groups m k of None \<Rightarrow> [] | Some s \<Rightarrow> s)"

section \<open>Every attempt leaves a suffix\<close>

lemma repeat_suffix:
  assumes "\<And>st st'. st' \<in> set (f st) \<Longrightarrow> \<exists>u. left st = u @ left st'"
  shows "st' \<in> set (repeat greedy n f st) \<Longrightarrow> \<exists>u. left st = u @ left st'"
proof (induction n arbitrary: st)
  case (Suc n)
  show ?case
  proof (cases "st' = st")
    case False
    then obtain st1 where "st1 \<in> set (f st)" "st' \<in> set (repeat greedy n f st1)"
      using Suc.prems by (auto simp: Let_def split: if_splits)
    then show ?thesis using Suc.IH [of st1] assms [of st1 st] by auto
  qed auto
qed auto

lemma attempts_suffix: "st' \<in> set (attempts r st) \<Longrightarrow> \<exists>u. left st = u @ left st'"
proof (induction r arbitrary: st st')
  case (Class P)
  then show ?case by (cases "left st") (auto split: if_splits)
next
  case (Seq r1 r2)
  then obtain st1 where st1: "st1 \<in> set (attempts r1 st)" "st' \<in> set (attempts r2 st1)" by auto
  show ?case using Seq.IH(1) [OF st1(1)] Seq.IH(2) [OF st1(2)] by auto
next
  case (Star r)
  show ?case using repeat_suffix [of "attempts r"] Star by simp
next
  case (Lazy r)
  show ?case using repeat_suffix [of "attempts r"] Lazy by simp
next
  case (Group k r)
  then obtain st1 where "st1 \<in> set (attempts r st)" "left st' = left st1" by (auto split: prod.splits)
  then show ?case using Group.IH [of st1 st] by simp
next
  case (Alt r1 r2)
  then show ?case using Alt.IH(1) [of st' st] Alt.IH(2) [of st' st] by (simp, blast)
qed (auto split: if_splits)

lemma search_from_split:
  "search_from r b pre s = Some m \<Longrightarrow> sm_prefix m @ sm_text m @ sm_suffix m = rev pre @ s"
proof (induction r b pre s rule: search_from.induct)
  case (1 r b pre s)
  show ?case
  proof (cases "attempts r (b, s, Map.empty)")
    case Nil
    with 1 show ?thesis by (subst (asm) (2) search_from.simps) (auto split: list.splits)
  next
    case (Cons st sts)
    obtain b' rest g where st: "st = (b', rest, g)" by (cases st)
    have "st \<in> set (attempts r (b, s, Map.empty))" using Cons by simp
    then obtain u where "s = u @ rest" using attempts_suffix [of st r "(b, s, Map.empty)"] st by auto
    with 1(2) Cons st show ?thesis by (subst (asm) search_from.simps) auto
  qed
qed

lemma regex_search_split: "regex_search r s = Some m \<Longrightarrow> sm_prefix m @ sm_text m @ sm_suffix m = s"
  using search_from_split [of r True "[]" s m] by (simp add: regex_search_def)

text \<open>
  \<open>std::regex_replace\<close> with a replacement without \<open>$\<close>. The patterns it is used with match no empty text, so the rule
  for empty matches is not needed: the function stops there.
\<close>

function regex_replace_from :: "regex \<Rightarrow> bool \<Rightarrow> string \<Rightarrow> string \<Rightarrow> string" where
  "regex_replace_from r at_begin by s =
     (case search_from r at_begin [] s of
        None \<Rightarrow> s
      | Some m \<Rightarrow> if sm_text m = [] then s else sm_prefix m @ by @ regex_replace_from r False by (sm_suffix m))"
  by pat_completeness auto
termination
proof (relation "measure (\<lambda>(r, b, by, s). length s)", simp)
  fix r b "by" s m
  assume "search_from r b [] s = Some m" "sm_text m \<noteq> []"
  then show "((r, False, by, sm_suffix m), r, b, by, s) \<in> measure (\<lambda>(r, b, by, s). length s)"
    using arg_cong [OF search_from_split [of r b "[]" s m], of length] by (cases "sm_text m") simp_all
qed

declare regex_replace_from.simps [simp del]

definition regex_replace :: "string \<Rightarrow> regex \<Rightarrow> string \<Rightarrow> string" where
  "regex_replace s r by = regex_replace_from r True by s"

section \<open>The language of a pattern\<close>

text \<open>\<open>in_lang r b u\<close>: the pattern matches the text \<open>u\<close>, which begins the subject when \<open>b\<close> holds.\<close>

inductive in_lang :: "regex \<Rightarrow> bool \<Rightarrow> string \<Rightarrow> bool" where
  Empty: "in_lang Empty b []"
| Begin: "in_lang Begin True []"
| Class: "P c \<Longrightarrow> in_lang (Class P) b [c]"
| Seq: "in_lang r1 b u \<Longrightarrow> in_lang r2 (b \<and> u = []) v \<Longrightarrow> in_lang (Seq r1 r2) b (u @ v)"
| Alt1: "in_lang r1 b u \<Longrightarrow> in_lang (Alt r1 r2) b u"
| Alt2: "in_lang r2 b u \<Longrightarrow> in_lang (Alt r1 r2) b u"
| Star0: "in_lang (Star r) b []"
| Star1: "in_lang r b u \<Longrightarrow> u \<noteq> [] \<Longrightarrow> in_lang (Star r) False v \<Longrightarrow> in_lang (Star r) b (u @ v)"
| Lazy0: "in_lang (Lazy r) b []"
| Lazy1: "in_lang r b u \<Longrightarrow> u \<noteq> [] \<Longrightarrow> in_lang (Lazy r) False v \<Longrightarrow> in_lang (Lazy r) b (u @ v)"
| Group: "in_lang r b u \<Longrightarrow> in_lang (Group k r) b u"

inductive_simps in_lang_Seq: "in_lang (Seq r1 r2) b u"
inductive_simps in_lang_Class: "in_lang (Class P) b u"
inductive_simps in_lang_Empty: "in_lang Empty b u"

lemma Word_lang: "in_lang (Word w) b u \<Longrightarrow> u = w"
proof (induction w arbitrary: b u rule: Word.induct)
  case (3 c d w)
  then show ?case by (fastforce simp: in_lang_Seq in_lang_Class)
qed (auto simp: in_lang_Class in_lang_Empty)

lemma Seq_Word_lang: "in_lang (Seq (Word w) r) b u \<Longrightarrow> \<exists>y. u = w @ y"
  unfolding in_lang_Seq using Word_lang by blast

lemma Seq_tail_lang: "in_lang (Seq r1 r2) b u \<Longrightarrow> \<exists>x y b'. u = x @ y \<and> in_lang r2 b' y"
  unfolding in_lang_Seq by blast

definition sound :: "regex \<Rightarrow> bool \<Rightarrow> string \<Rightarrow> match_state \<Rightarrow> bool" where
  "sound r b s st \<longleftrightarrow> (\<exists>u. s = u @ left st \<and> in_lang r b u \<and> fst st = (b \<and> u = []))"

lemma soundI: "s = u @ left st \<Longrightarrow> in_lang r b u \<Longrightarrow> fst st = (b \<and> u = []) \<Longrightarrow> sound r b s st"
  by (auto simp: sound_def)

lemma repeat_sound:
  assumes f: "\<And>st st'. st' \<in> set (f st) \<Longrightarrow> sound r (fst st) (left st) st'"
    and zero: "\<And>b. in_lang q b []" and one: "\<And>b u v. in_lang r b u \<Longrightarrow> u \<noteq> [] \<Longrightarrow> in_lang q False v \<Longrightarrow> in_lang q b (u @ v)"
  shows "st' \<in> set (repeat greedy n f st) \<Longrightarrow> sound q (fst st) (left st) st'"
proof (induction n arbitrary: st)
  case (Suc n)
  show ?case
  proof (cases "st' = st")
    case True
    then show ?thesis using zero by (intro soundI [where u = "[]"]) auto
  next
    case False
    then obtain st1 where st1: "st1 \<in> set (f st)" "length (left st1) < length (left st)" "st' \<in> set (repeat greedy n f st1)"
      using Suc.prems by (auto simp: Let_def split: if_splits)
    from f [OF st1(1)] obtain u where u: "left st = u @ left st1" "in_lang r (fst st) u" "fst st1 = (fst st \<and> u = [])"
      by (auto simp: sound_def)
    from Suc.IH [OF st1(3)] obtain v where v: "left st1 = v @ left st'" "in_lang q (fst st1) v" "fst st' = (fst st1 \<and> v = [])"
      by (auto simp: sound_def)
    have "u \<noteq> []" using u(1) st1(2) by auto
    then show ?thesis using u v one [OF u(2)] by (intro soundI [where u = "u @ v"]) auto
  qed
qed (use zero in \<open>auto intro!: soundI [where u = "[]"]\<close>)

lemma attempts_sound: "st' \<in> set (attempts r st) \<Longrightarrow> sound r (fst st) (left st) st'"
proof (induction r arbitrary: st st')
  case (Class P)
  then show ?case by (cases "left st") (auto split: if_splits intro!: soundI in_lang.Class)
next
  case (Seq r1 r2)
  then obtain st1 where st1: "st1 \<in> set (attempts r1 st)" "st' \<in> set (attempts r2 st1)" by auto
  from Seq.IH(1) [OF st1(1)] obtain u where u: "left st = u @ left st1" "in_lang r1 (fst st) u" "fst st1 = (fst st \<and> u = [])"
    by (auto simp: sound_def)
  from Seq.IH(2) [OF st1(2)] obtain v where v: "left st1 = v @ left st'" "in_lang r2 (fst st1) v" "fst st' = (fst st1 \<and> v = [])"
    by (auto simp: sound_def)
  show ?case using u v by (intro soundI [where u = "u @ v"] in_lang.Seq) auto
next
  case (Star r)
  have "st' \<in> set (repeat True (length (left st)) (attempts r) st)" using Star.prems by simp
  then show ?case
    by (rule repeat_sound [of "attempts r" r "Star r", rotated 3]) (use Star.IH in \<open>auto intro: in_lang.Star0 in_lang.Star1\<close>)
next
  case (Lazy r)
  have "st' \<in> set (repeat False (length (left st)) (attempts r) st)" using Lazy.prems by simp
  then show ?case
    by (rule repeat_sound [of "attempts r" r "Lazy r", rotated 3]) (use Lazy.IH in \<open>auto intro: in_lang.Lazy0 in_lang.Lazy1\<close>)
next
  case (Group k r)
  then obtain st1 where st1: "st1 \<in> set (attempts r st)" "left st' = left st1" "fst st' = fst st1"
    by (auto split: prod.splits)
  show ?case using Group.IH [OF st1(1)] st1(2,3) by (auto simp: sound_def intro: in_lang.Group)
next
  case (Alt r1 r2)
  then have "sound r1 (fst st) (left st) st' \<or> sound r2 (fst st) (left st) st'" by (simp, blast)
  then show ?case unfolding sound_def by (blast intro: in_lang.Alt1 in_lang.Alt2)
qed (auto split: if_splits intro!: soundI [where u = "[]"] intro: in_lang.intros)

lemma set_repeat:
  "set (repeat greedy (Suc n) f st) =
     insert st (\<Union>st1\<in>{st1 \<in> set (f st). length (left st1) < length (left st)}. set (repeat greedy n f st1))"
  by (auto simp: Let_def)

lemma repeat_more:
  "st1 \<in> set (f st) \<Longrightarrow> length (left st1) < length (left st) \<Longrightarrow> st' \<in> set (repeat greedy n f st1) \<Longrightarrow>
   st' \<in> set (repeat greedy (Suc n) f st)"
  unfolding set_repeat by blast

lemma star_unfold:
  "in_lang q b u \<Longrightarrow> q = (if greedy then Star r else Lazy r) \<Longrightarrow> u \<noteq> [] \<Longrightarrow>
   \<exists>u1 u2. u = u1 @ u2 \<and> in_lang r b u1 \<and> u1 \<noteq> [] \<and> in_lang q False u2"
  by (cases greedy; erule in_lang.cases) auto

lemma repeat_zero: "st \<in> set (repeat greedy n f st)"
  by (cases n) (auto simp: Let_def)

lemma attempts_complete: "in_lang r b u \<Longrightarrow> \<exists>g'. (b \<and> u = [], v, g') \<in> set (attempts r (b, u @ v, g))"
proof -
  have rep: "\<exists>g'. (b \<and> u = [], v, g') \<in> set (repeat greedy n (attempts r) (b, u @ v, g))"
    if "in_lang q b u" "length u \<le> n" "q = (if greedy then Star r else Lazy r)"
      and ih: "\<And>b u v g. in_lang r b u \<Longrightarrow> \<exists>g'. (b \<and> u = [], v, g') \<in> set (attempts r (b, u @ v, g))"
    for q greedy n r b u v g
    using that(1-3)
  proof (induction n arbitrary: b u g)
    case 0
    then show ?case using repeat_zero [of "(b, v, g)"] by auto
  next
    case (Suc n)
    show ?case
    proof (cases "u = []")
      case True
      then show ?thesis using repeat_zero [of "(b, v, g)" greedy "Suc n" "attempts r"] by (auto simp del: repeat.simps)
    next
      case False
      then obtain u1 u2 where u: "u = u1 @ u2" "in_lang r b u1" "u1 \<noteq> []" "in_lang q False u2"
        using star_unfold [OF Suc.prems(1,3)] by blast
      from ih [OF u(2), of "u2 @ v" g] obtain g1 where g1: "(False, u2 @ v, g1) \<in> set (attempts r (b, u1 @ u2 @ v, g))"
        using u(3) by auto
      have "length u2 \<le> n" using Suc.prems(2) u(1,3) by (cases u1) auto
      from Suc.IH [OF u(4) this Suc.prems(3), of g1] obtain g2 where
        "(False, v, g2) \<in> set (repeat greedy n (attempts r) (False, u2 @ v, g1))" by auto
      from repeat_more [OF g1 _ this] have "(False, v, g2) \<in> set (repeat greedy (Suc n) (attempts r) (b, u @ v, g))"
        using u(1,3) by auto
      then show ?thesis using False by auto
    qed
  qed
  show "in_lang r b u \<Longrightarrow> ?thesis"
  proof (induction r arbitrary: b u v g)
    case (Seq r1 r2)
    then obtain u1 u2 where u: "u = u1 @ u2" "in_lang r1 b u1" "in_lang r2 (b \<and> u1 = []) u2" by (auto elim: in_lang.cases)
    from Seq.IH(1) [OF u(2), of "u2 @ v" g] obtain g1 where "(b \<and> u1 = [], u2 @ v, g1) \<in> set (attempts r1 (b, u1 @ u2 @ v, g))"
      by blast
    with Seq.IH(2) [OF u(3), of v g1] show ?case using u(1) by fastforce
  next
    case (Alt r1 r2)
    then show ?case by (fastforce elim: in_lang.cases)
  next
    case (Star r)
    show ?case using rep [OF Star.prems _ _ Star.IH, of "length (u @ v)" True] by simp
  next
    case (Lazy r)
    show ?case using rep [OF Lazy.prems _ _ Lazy.IH, of "length (u @ v)" False] by simp
  next
    case (Group k r)
    then have "in_lang r b u" by (auto elim: in_lang.cases)
    from Group.IH [OF this, of v g] obtain g' where "(b \<and> u = [], v, g') \<in> set (attempts r (b, u @ v, g))" by blast
    then have "(b \<and> u = [], v, g'(k \<mapsto> u)) \<in> set (attempts (Group k r) (b, u @ v, g))"
      unfolding attempts.simps set_map by (rule rev_image_eqI) simp
    then show ?case by blast
  qed (auto elim: in_lang.cases)
qed

lemma search_from_iff:
  "search_from r b pre s \<noteq> None \<longleftrightarrow> (\<exists>p u v. s = p @ u @ v \<and> in_lang r (b \<and> p = []) u)"
proof (induction r b pre s rule: search_from.induct)
  case (1 r b pre s)
  have here: "attempts r (b, s, Map.empty) \<noteq> [] \<longleftrightarrow> (\<exists>u v. s = u @ v \<and> in_lang r b u)"
  proof
    assume "attempts r (b, s, Map.empty) \<noteq> []"
    then obtain st where "st \<in> set (attempts r (b, s, Map.empty))" by (cases "attempts r (b, s, Map.empty)") auto
    from attempts_sound [OF this] show "\<exists>u v. s = u @ v \<and> in_lang r b u" by (auto simp: sound_def)
  next
    assume "\<exists>u v. s = u @ v \<and> in_lang r b u"
    then obtain u v where "s = u @ v" "in_lang r b u" by blast
    with attempts_complete [of r b u v Map.empty] show "attempts r (b, s, Map.empty) \<noteq> []" by auto
  qed
  show ?case
  proof (cases "attempts r (b, s, Map.empty)")
    case (Cons st sts)
    then have "search_from r b pre s \<noteq> None" by (subst search_from.simps) (auto split: prod.splits)
    moreover have "attempts r (b, s, Map.empty) \<noteq> []" using Cons by simp
    then have "\<exists>u v. s = u @ v \<and> in_lang r b u" by (rule iffD1 [OF here])
    then obtain u v where "s = u @ v" "in_lang r b u" by blast
    then have "s = [] @ u @ v \<and> in_lang r (b \<and> [] = ([] :: string)) u" by simp
    ultimately show ?thesis by blast
  next
    case Nil
    then have "\<not> (\<exists>u v. s = u @ v \<and> in_lang r b u)" using here by simp
    then have no: "\<not> in_lang r b u" if "s = u @ v" for u v using that by blast
    show ?thesis
    proof (cases s)
      case Nil': Nil
      have "search_from r b pre s = None" using Nil Nil' by (subst search_from.simps) simp
      moreover have "\<not> in_lang r b []" using no [of "[]" "[]"] Nil' by simp
      ultimately show ?thesis using Nil' by auto
    next
      case C: (Cons c s')
      have "search_from r b pre s = search_from r False (c # pre) s'" using Nil C by (subst search_from.simps) simp
      moreover have "(\<exists>p u v. s = p @ u @ v \<and> in_lang r (b \<and> p = []) u) \<longleftrightarrow> (\<exists>p u v. s' = p @ u @ v \<and> in_lang r False u)"
      proof
        assume "\<exists>p u v. s = p @ u @ v \<and> in_lang r (b \<and> p = []) u"
        then obtain p u v where p: "s = p @ u @ v" "in_lang r (b \<and> p = []) u" by blast
        with no [of u v] C show "\<exists>p u v. s' = p @ u @ v \<and> in_lang r False u" by (cases p) auto
      next
        assume "\<exists>p u v. s' = p @ u @ v \<and> in_lang r False u"
        then obtain p u v where "s = (c # p) @ u @ v" "in_lang r (b \<and> c # p = []) u" using C by auto
        then show "\<exists>p u v. s = p @ u @ v \<and> in_lang r (b \<and> p = []) u" by blast
      qed
      ultimately show ?thesis using 1 [OF Nil C] by simp
    qed
  qed
qed

text \<open>The matcher finds a match exactly when some part of the subject is in the language of the pattern.\<close>

lemma regex_search_iff:
  "regex_search r s \<noteq> None \<longleftrightarrow> (\<exists>p u v. s = p @ u @ v \<and> in_lang r (p = []) u)"
  using search_from_iff [of r True "[]" s] unfolding regex_search_def by (simp only: simp_thms)

section \<open>The first attempt\<close>

text \<open>\<open>leads r st st'\<close>: from \<open>st\<close> the matcher tries \<open>st'\<close> first. These rules compute matches of subjects given symbolically.\<close>

definition leads :: "regex \<Rightarrow> match_state \<Rightarrow> match_state \<Rightarrow> bool" where
  "leads r st st' \<longleftrightarrow> (\<exists>others. attempts r st = st' # others)"

lemma leads_Begin: "leads Begin (True, s, g) (True, s, g)"
  by (simp add: leads_def)

lemma leads_Seq_skip:
  assumes "attempts r1 st = pre @ st1 # others" "\<And>x. x \<in> set pre \<Longrightarrow> attempts r2 x = []" "leads r2 st1 st'"
  shows "leads (Seq r1 r2) st st'"
proof -
  have "concat (map (attempts r2) pre) = []" using assms(2) by simp
  moreover obtain others' where "attempts r2 st1 = st' # others'" using assms(3) by (auto simp: leads_def)
  ultimately show ?thesis by (simp only: leads_def attempts.simps assms(1) map_append concat_append) simp
qed

lemma leads_Seq: "leads r1 st st1 \<Longrightarrow> leads r2 st1 st' \<Longrightarrow> leads (Seq r1 r2) st st'"
  by (auto simp: leads_def)

lemma leads_Group:
  "leads r (b, u @ s', g) (b', s', g') \<Longrightarrow> leads (Group k r) (b, u @ s', g) (b', s', g'(k \<mapsto> u))"
  by (auto simp: leads_def)

lemma leads_Alt1: "leads r1 st st' \<Longrightarrow> leads (Alt r1 r2) st st'"
  by (auto simp: leads_def)

lemma leads_Alt2: "attempts r1 st = [] \<Longrightarrow> leads r2 st st' \<Longrightarrow> leads (Alt r1 r2) st st'"
  by (auto simp: leads_def)

lemma attempts_Word:
  "attempts (Word w) (b, s, g) = (if take (length w) s = w then [(b \<and> w = [], drop (length w) s, g)] else [])"
proof (induction w arbitrary: b s rule: Word.induct)
  case (2 c)
  then show ?case by (cases s) auto
next
  case (3 c d w)
  then show ?case by (cases s) auto
qed auto

lemma leads_Word: "leads (Word w) (b, w @ s, g) (b \<and> w = [], s, g)"
  by (simp add: leads_def attempts_Word)

lemma attempts_Star_Class:
  "attempts (Star (Class P)) (b, s, g) =
     (case s of [] \<Rightarrow> [] | c # s' \<Rightarrow> if P c then attempts (Star (Class P)) (False, s', g) else []) @ [(b, s, g)]"
  by (cases s) simp_all

lemma attempts_Lazy_Class:
  "attempts (Lazy (Class P)) (b, s, g) =
     (b, s, g) # (case s of [] \<Rightarrow> [] | c # s' \<Rightarrow> if P c then attempts (Lazy (Class P)) (False, s', g) else [])"
  by (cases s) simp_all

lemma leads_Star_Class:
  "\<forall>c\<in>set u. P c \<Longrightarrow> v = [] \<or> \<not> P (hd v) \<Longrightarrow> leads (Star (Class P)) (b, u @ v, g) (b \<and> u = [], v, g)"
proof (induction u arbitrary: b)
  case Nil
  then show ?case by (subst append_Nil, unfold leads_def, subst attempts_Star_Class) (cases v; simp)
next
  case (Cons c u)
  from Cons.IH [of False] Cons.prems obtain others where "attempts (Star (Class P)) (False, u @ v, g) = (False, v, g) # others"
    by (auto simp: leads_def)
  then show ?case using Cons.prems unfolding leads_def by (subst attempts_Star_Class) simp
qed

lemma leads_Plus_Class:
  assumes "u \<noteq> []" "\<forall>c\<in>set u. P c" "v = [] \<or> \<not> P (hd v)"
  shows "leads (Plus (Class P)) (b, u @ v, g) (False, v, g)"
proof -
  obtain c u' where u: "u = c # u'" using assms(1) by (cases u) auto
  have "leads (Star (Class P)) (False, u' @ v, g) (False, v, g)"
    using leads_Star_Class [of u' P v False g] assms u by simp
  then show ?thesis unfolding Plus_def using assms(2) u by (intro leads_Seq [of _ _ "(False, u' @ v, g)"]) (auto simp: leads_def)
qed

lemma attempts_Plus_Class_fail: "s = [] \<or> \<not> P (hd s) \<Longrightarrow> attempts (Plus (Class P)) (b, s, g) = []"
  by (cases s) (simp_all add: Plus_def)

text \<open>A lazy class passes over a text \<open>u\<close> of its characters step by step.\<close>

lemma lazy_steps:
  "\<forall>c\<in>set u. P c \<Longrightarrow> \<exists>pre. attempts (Lazy (Class P)) (b, u @ v, g) = pre @ attempts (Lazy (Class P)) (b \<and> u = [], v, g) \<and>
     (\<forall>st\<in>set pre. \<exists>w w'. u = w @ w' \<and> w' \<noteq> [] \<and> left st = w' @ v)"
proof (induction u arbitrary: b)
  case Nil
  then show ?case by simp
next
  case (Cons c u)
  from Cons.IH [of False] Cons.prems obtain pre where pre:
    "attempts (Lazy (Class P)) (False, u @ v, g) = pre @ attempts (Lazy (Class P)) (False, v, g)"
    "\<forall>st\<in>set pre. \<exists>w w'. u = w @ w' \<and> w' \<noteq> [] \<and> left st = w' @ v" by auto
  have "attempts (Lazy (Class P)) (b, (c # u) @ v, g) = ((b, (c # u) @ v, g) # pre) @ attempts (Lazy (Class P)) (False, v, g)"
    using Cons.prems pre(1) by (subst attempts_Lazy_Class) simp
  moreover have "\<exists>w w'. c # u = w @ w' \<and> w' \<noteq> [] \<and> left st = w' @ v" if "st \<in> set ((b, (c # u) @ v, g) # pre)" for st
  proof (cases "st \<in> set pre")
    case True
    then obtain w w' where "u = w @ w'" "w' \<noteq> []" "left st = w' @ v" using pre(2) by blast
    then show ?thesis by (intro exI [of _ "c # w"] exI [of _ w']) simp
  next
    case False
    then show ?thesis using that by (intro exI [of _ "[]"] exI [of _ "c # u"]) simp
  qed
  ultimately show ?case by fastforce
qed

lemma search_first:
  "leads r (True, s, Map.empty) (b, rest, g) \<Longrightarrow>
   regex_search r s = Some \<lparr>sm_prefix = [], sm_text = take (length s - length rest) s, sm_suffix = rest, sm_groups = g\<rparr>"
  unfolding regex_search_def leads_def by (subst search_from.simps) auto

end
