(* ===== verification/Test_Adapters.thy ===== *)
theory Test_Adapters
  imports Std_Regex
begin

text \<open>
  The readers of test output (\<open>src/modules/testsuite/src/adapters/gtest.cpp\<close>, \<open>pytest.cpp\<close>, \<open>adapters.cpp\<close>,
  \<open>include/test/types.hpp\<close>). \<open>TestRun\<close> and \<open>TestCase\<close> have no default member values, so the counters of a fresh
  run and the duration and line of a fresh case hold what the memory held: these values are the argument
  \<open>memory\<close>. \<open>to_ms\<close> is the floating point expression \<open>static_cast<int64_t> (std::stod (s) * 1000.0)\<close>, \<^const>\<open>None\<close> when
  \<open>stod\<close> throws. Coverage is never produced by these adapters.
\<close>

section \<open>Types\<close>

datatype framework = UNKNOWN_FRAMEWORK | GTEST | CATCH2 | PYTEST | UNITTEST | CARGO | JEST | VITEST | GO_TEST | CTEST

definition framework_to_string :: "framework \<Rightarrow> string" where
  "framework_to_string fw =
     (case fw of GTEST \<Rightarrow> ''gtest'' | CATCH2 \<Rightarrow> ''catch2'' | PYTEST \<Rightarrow> ''pytest'' | UNITTEST \<Rightarrow> ''unittest'' | CARGO \<Rightarrow> ''cargo''
      | JEST \<Rightarrow> ''jest'' | VITEST \<Rightarrow> ''vitest'' | GO_TEST \<Rightarrow> ''go'' | CTEST \<Rightarrow> ''ctest'' | UNKNOWN_FRAMEWORK \<Rightarrow> ''unknown'')"

definition string_to_framework :: "string \<Rightarrow> framework" where
  "string_to_framework s =
     (if s = ''gtest'' then GTEST else if s = ''catch2'' then CATCH2 else if s = ''pytest'' then PYTEST
      else if s = ''unittest'' then UNITTEST else if s = ''cargo'' then CARGO else if s = ''jest'' then JEST
      else if s = ''vitest'' then VITEST else if s = ''go'' then GO_TEST else if s = ''ctest'' then CTEST
      else UNKNOWN_FRAMEWORK)"

datatype test_status = PASSED | FAILED | SKIPPED | ERROR | TIMEOUT

definition status_to_string :: "test_status \<Rightarrow> string" where
  "status_to_string st = (case st of PASSED \<Rightarrow> ''passed'' | FAILED \<Rightarrow> ''failed'' | SKIPPED \<Rightarrow> ''skipped'' | ERROR \<Rightarrow> ''error''
     | TIMEOUT \<Rightarrow> ''timeout'')"

definition string_to_status :: "string \<Rightarrow> test_status" where
  "string_to_status s =
     (if s = ''passed'' then PASSED else if s = ''failed'' then FAILED else if s = ''skipped'' then SKIPPED
      else if s = ''error'' then ERROR else if s = ''timeout'' then TIMEOUT else PASSED)"

record test_case =
  tc_name :: string
  tc_suite :: string
  tc_status :: test_status
  tc_duration_ms :: int
  tc_message :: string
  tc_file :: string
  tc_line :: int

record test_run =
  tr_id :: int
  tr_project_id :: int
  tr_framework :: framework
  tr_timestamp :: int
  tr_duration_ms :: int
  tr_exit_code :: int
  tr_total :: int
  tr_passed :: int
  tr_failed :: int
  tr_skipped :: int
  tr_errors :: int
  tr_triggered_by :: string
  tr_cases :: "test_case list"

record run_options =
  collect_coverage :: bool
  ro_filter :: "string option"
  timeout_seconds :: int
  fail_fast :: bool
  parallel_jobs :: int
  verbose :: bool

text \<open>The values that fresh objects happen to hold.\<close>

record memory =
  mem_run :: test_run
  mem_case :: test_case

definition fresh_run :: "memory \<Rightarrow> test_run" where
  "fresh_run mem = (mem_run mem)\<lparr>tr_triggered_by := [], tr_cases := []\<rparr>"

definition fresh_case :: "memory \<Rightarrow> test_case" where
  "fresh_case mem = (mem_case mem)\<lparr>tc_name := [], tc_suite := [], tc_message := [], tc_file := []\<rparr>"

definition count_status :: "test_status \<Rightarrow> test_run \<Rightarrow> test_run" where
  "count_status st run =
     (case st of PASSED \<Rightarrow> run\<lparr>tr_passed := tr_passed run + 1\<rparr> | FAILED \<Rightarrow> run\<lparr>tr_failed := tr_failed run + 1\<rparr>
      | SKIPPED \<Rightarrow> run\<lparr>tr_skipped := tr_skipped run + 1\<rparr> | _ \<Rightarrow> run\<lparr>tr_errors := tr_errors run + 1\<rparr>)"

definition add_case :: "test_case \<Rightarrow> test_run \<Rightarrow> test_run" where
  "add_case tc run =
     (let run' = count_status (tc_status tc) run
      in run'\<lparr>tr_cases := tr_cases run' @ [tc], tr_total := tr_total run' + 1\<rparr>)"

section \<open>CTest\<close>

definition gtest_build_command :: "string \<Rightarrow> run_options \<Rightarrow> string list" where
  "gtest_build_command working_dir opts =
     [''ctest'', ''--test-dir'', ''build'', ''--output-on-failure''] @
     (case ro_filter opts of None \<Rightarrow> [] | Some f \<Rightarrow> [''-R'', f]) @
     (if parallel_jobs opts > 1 then [''-j'', to_string (parallel_jobs opts)] else []) @
     (if verbose opts then [''--verbose''] else [])"

abbreviation digits :: regex where "digits \<equiv> Plus (Class isdigit)"
abbreviation blanks :: regex where "blanks \<equiv> Plus (Class isspace)"

definition ctest_line_regex :: regex where
  "ctest_line_regex = Seqs
     [Word ''Test'', blanks, Lit (CHR ''#''), Group 1 digits, Lit (CHR '':''), blanks, Group 2 (Plus (Class (\<lambda>c. \<not> isspace c))),
      blanks, Plus (Lit (CHR ''.'')), Star (Class isspace), Maybe (Group 3 (Word ''***'')), Group 4 (Plus (Class word_char)), blanks,
      Group 5 (Plus (Class (\<lambda>c. isdigit c \<or> c = CHR ''.''))), blanks, Word ''sec'']"

definition ctest_summary_regex :: regex where
  "ctest_summary_regex = Seqs
     [Group 1 digits, Lit (CHR 0x25), blanks, Word ''tests'', blanks, Word ''passed,'', blanks, Group 2 digits, blanks, Word ''tests'', blanks,
      Word ''failed'', blanks, Word ''out'', blanks, Word ''of'', blanks, Group 3 digits]"

definition ctest_status :: "string \<Rightarrow> test_status" where
  "ctest_status s = (if s = ''Passed'' then PASSED else if s = ''Failed'' then FAILED else if s = ''Skipped'' then SKIPPED else ERROR)"

definition gtest_line :: "(string \<Rightarrow> int option) \<Rightarrow> memory \<Rightarrow> string \<Rightarrow> test_run \<Rightarrow> test_run option" where
  "gtest_line to_ms mem line run =
     (case regex_search ctest_line_regex line of
        None \<Rightarrow> Some run
      | Some m \<Rightarrow> (case to_ms (group_text m 5) of
          None \<Rightarrow> None
        | Some ms \<Rightarrow> Some (add_case ((fresh_case mem)\<lparr>tc_name := group_text m 2, tc_duration_ms := ms,
                        tc_status := ctest_status (group_text m 4)\<rparr>) run)))"

primrec fold_lines :: "(string \<Rightarrow> test_run \<Rightarrow> test_run option) \<Rightarrow> string list \<Rightarrow> test_run \<Rightarrow> test_run option" where
  "fold_lines f [] run = Some run"
| "fold_lines f (l # ls) run = (case f l run of None \<Rightarrow> None | Some run' \<Rightarrow> fold_lines f ls run')"

definition gtest_summary :: "string \<Rightarrow> test_run \<Rightarrow> test_run option" where
  "gtest_summary output run =
     (if tr_total run \<noteq> 0 then Some run
      else case regex_search ctest_summary_regex output of
        None \<Rightarrow> Some run
      | Some m \<Rightarrow> (case (stoi (group_text m 2), stoi (group_text m 3)) of
          (Some f, Some t) \<Rightarrow> Some (run\<lparr>tr_failed := f, tr_total := t, tr_passed := t - f\<rparr>)
        | _ \<Rightarrow> None))"

definition gtest_parse_output :: "(string \<Rightarrow> int option) \<Rightarrow> memory \<Rightarrow> string \<Rightarrow> string \<Rightarrow> int \<Rightarrow> int \<Rightarrow> test_run option" where
  "gtest_parse_output to_ms mem stdout_output stderr_output exit_code ms =
     (case fold_lines (gtest_line to_ms mem) (getlines nl stdout_output)
             ((fresh_run mem)\<lparr>tr_framework := GTEST, tr_exit_code := exit_code, tr_duration_ms := ms\<rparr>) of
        None \<Rightarrow> None
      | Some run \<Rightarrow> gtest_summary stdout_output run)"

section \<open>pytest\<close>

definition pytest_build_command :: "string \<Rightarrow> run_options \<Rightarrow> string list" where
  "pytest_build_command working_dir opts =
     [''pytest'', ''-v'', ''--tb=short''] @
     (case ro_filter opts of None \<Rightarrow> [] | Some f \<Rightarrow> [''-k'', f]) @
     (if parallel_jobs opts > 1 then [''-n'', to_string (parallel_jobs opts)] else []) @
     (if fail_fast opts then [''-x''] else []) @
     (if collect_coverage opts then [''--cov'', ''--cov-report=term'', ''--cov-report=json''] else [])"

definition pytest_line_regex :: regex where
  "pytest_line_regex = Seqs
     [Begin, Group 1 (Lazy_Plus (Class any_char)), Word ''::'', Group 2 (Lazy (Class any_char)), blanks,
      Group 3 (Alts [Word ''PASSED'', Word ''FAILED'', Word ''SKIPPED'', Word ''ERROR''])]"

definition pytest_summary_regex :: regex where
  "pytest_summary_regex = Seqs
     [Plus (Lit (CHR ''='')), Star (Class isspace), Group 1 digits, blanks, Word ''passed'',
      Maybe (Seqs [Lit (CHR '',''), blanks, Group 2 digits, blanks, Word ''failed'']),
      Maybe (Seqs [Lit (CHR '',''), blanks, Group 3 digits, blanks, Word ''skipped'']),
      Lazy (Class any_char), Word ''in'', blanks, Group 4 (Plus (Class (\<lambda>c. isdigit c \<or> c = CHR ''.''))), Lit (CHR ''s'')]"

text \<open>\<open>tc.name.find ("::")\<close>.\<close>

fun find_colons :: "string \<Rightarrow> nat option" where
  "find_colons [] = None"
| "find_colons (c # s) =
     (if c = CHR '':'' \<and> s \<noteq> [] \<and> hd s = CHR '':'' then Some 0 else map_option Suc (find_colons s))"

definition split_suite :: "string \<Rightarrow> string \<times> string" where
  "split_suite name = (case find_colons name of None \<Rightarrow> ([], name) | Some p \<Rightarrow> (take p name, drop (p + 2) name))"

definition pytest_status :: "string \<Rightarrow> test_status \<Rightarrow> test_status" where
  "pytest_status s old = (if s = ''PASSED'' then PASSED else if s = ''FAILED'' then FAILED else if s = ''SKIPPED'' then SKIPPED
     else if s = ''ERROR'' then ERROR else old)"

definition pytest_line :: "memory \<Rightarrow> string \<Rightarrow> test_run \<Rightarrow> test_run option" where
  "pytest_line mem line run =
     (case regex_search pytest_line_regex line of
        None \<Rightarrow> Some run
      | Some m \<Rightarrow>
          Some (add_case ((fresh_case mem)\<lparr>tc_file := group_text m 1, tc_suite := fst (split_suite (group_text m 2)),
             tc_name := snd (split_suite (group_text m 2)), tc_status := pytest_status (group_text m 3) (tc_status (fresh_case mem))\<rparr>) run))"

definition optional_count :: "smatch \<Rightarrow> nat \<Rightarrow> int \<Rightarrow> int option" where
  "optional_count m k old = (case sm_groups m k of None \<Rightarrow> Some old | Some s \<Rightarrow> stoi s)"

definition pytest_summary :: "string \<Rightarrow> test_run \<Rightarrow> test_run option" where
  "pytest_summary output run =
     (case regex_search pytest_summary_regex output of
        None \<Rightarrow> Some run
      | Some m \<Rightarrow>
          if tr_total run \<noteq> 0 then Some run
          else (case (stoi (group_text m 1), optional_count m 2 (tr_failed run), optional_count m 3 (tr_skipped run)) of
            (Some p, Some f, Some s) \<Rightarrow>
              Some (run\<lparr>tr_passed := p, tr_failed := f, tr_skipped := s, tr_total := p + f + s + tr_errors run\<rparr>)
          | _ \<Rightarrow> None))"

definition pytest_parse_output :: "memory \<Rightarrow> string \<Rightarrow> string \<Rightarrow> int \<Rightarrow> int \<Rightarrow> test_run option" where
  "pytest_parse_output mem stdout_output stderr_output exit_code ms =
     (case fold_lines (pytest_line mem) (getlines nl stdout_output)
             ((fresh_run mem)\<lparr>tr_framework := PYTEST, tr_exit_code := exit_code, tr_duration_ms := ms\<rparr>) of
        None \<Rightarrow> None
      | Some run \<Rightarrow> pytest_summary (stdout_output @ stderr_output) run)"

section \<open>The factory\<close>

datatype adapter = GTestAdapter | PytestAdapter

definition create_adapter :: "framework \<Rightarrow> adapter option" where
  "create_adapter fw =
     (case fw of GTEST \<Rightarrow> Some GTestAdapter | CTEST \<Rightarrow> Some GTestAdapter | PYTEST \<Rightarrow> Some PytestAdapter
      | UNITTEST \<Rightarrow> Some PytestAdapter | _ \<Rightarrow> None)"

primrec build_command :: "adapter \<Rightarrow> string \<Rightarrow> run_options \<Rightarrow> string list" where
  "build_command GTestAdapter dir opts = gtest_build_command dir opts"
| "build_command PytestAdapter dir opts = pytest_build_command dir opts"

primrec parse_output :: "adapter \<Rightarrow> (string \<Rightarrow> int option) \<Rightarrow> memory \<Rightarrow> string \<Rightarrow> string \<Rightarrow> int \<Rightarrow> int \<Rightarrow> test_run option" where
  "parse_output GTestAdapter to_ms mem out err code ms = gtest_parse_output to_ms mem out err code ms"
| "parse_output PytestAdapter to_ms mem out err code ms = pytest_parse_output mem out err code ms"

definition sample_memory :: memory where
  "sample_memory =
     \<lparr>mem_run = \<lparr>tr_id = 0, tr_project_id = 0, tr_framework = GTEST, tr_timestamp = 0, tr_duration_ms = 0, tr_exit_code = 0,
        tr_total = 0, tr_passed = 0, tr_failed = 0, tr_skipped = 0, tr_errors = 0, tr_triggered_by = [], tr_cases = []\<rparr>,
      mem_case = \<lparr>tc_name = [], tc_suite = [], tc_status = PASSED, tc_duration_ms = 0, tc_message = [], tc_file = [], tc_line = 0\<rparr>\<rparr>"

section \<open>Counting\<close>

definition counters_zero :: "memory \<Rightarrow> bool" where
  "counters_zero mem \<longleftrightarrow> tr_total (mem_run mem) = 0 \<and> tr_passed (mem_run mem) = 0 \<and> tr_failed (mem_run mem) = 0 \<and>
     tr_skipped (mem_run mem) = 0 \<and> tr_errors (mem_run mem) = 0"

definition with_status :: "test_status set \<Rightarrow> test_case list \<Rightarrow> int" where
  "with_status S cs = int (length (filter (\<lambda>c. tc_status c \<in> S) cs))"

text \<open>The counters of \<open>run\<close> are those of \<open>start\<close> plus one for each case.\<close>

definition counted :: "test_run \<Rightarrow> test_run \<Rightarrow> bool" where
  "counted start run \<longleftrightarrow> tr_total run = tr_total start + int (length (tr_cases run)) \<and>
     tr_passed run = tr_passed start + with_status {PASSED} (tr_cases run) \<and>
     tr_failed run = tr_failed start + with_status {FAILED} (tr_cases run) \<and>
     tr_skipped run = tr_skipped start + with_status {SKIPPED} (tr_cases run) \<and>
     tr_errors run = tr_errors start + with_status {ERROR, TIMEOUT} (tr_cases run)"

lemma counted_add_case: "counted start run \<Longrightarrow> counted start (add_case tc run)"
  by (cases "tc_status tc") (auto simp: counted_def add_case_def count_status_def with_status_def Let_def)

lemma counted_lines:
  assumes "\<And>l run run'. f l run = Some run' \<Longrightarrow> run' = run \<or> (\<exists>tc. run' = add_case tc run)"
  shows "fold_lines f ls run = Some run' \<Longrightarrow> counted start run \<Longrightarrow> counted start run'"
proof (induction ls arbitrary: run)
  case (Cons l ls)
  then obtain run1 where "f l run = Some run1" "fold_lines f ls run1 = Some run'" by (auto split: option.splits)
  then show ?case using Cons.IH [of run1] Cons.prems(2) assms [of l run run1] counted_add_case by auto
qed simp

lemma line_adds: "gtest_line to_ms mem l run = Some run' \<Longrightarrow> run' = run \<or> (\<exists>tc. run' = add_case tc run)"
    "pytest_line mem l run = Some run' \<Longrightarrow> run' = run \<or> (\<exists>tc. run' = add_case tc run)"
  by (auto simp: gtest_line_def pytest_line_def split: option.splits)

lemma counted_sum:
  assumes "counted start run" "tr_total start = 0" "tr_passed start = 0" "tr_failed start = 0" "tr_skipped start = 0" "tr_errors start = 0"
  shows "tr_total run = tr_passed run + tr_failed run + tr_skipped run + tr_errors run"
proof -
  have "int (length cs) = with_status {PASSED} cs + with_status {FAILED} cs + with_status {SKIPPED} cs + with_status {ERROR, TIMEOUT} cs"
    for cs
  proof (induction cs)
    case (Cons c cs)
    then show ?case by (cases "tc_status c") (simp_all add: with_status_def)
  qed (simp add: with_status_def)
  then show ?thesis using assms by (simp add: counted_def)
qed

lemma gtest_summary_cases: "gtest_summary out run = Some run' \<Longrightarrow> tr_cases run' = tr_cases run \<and> (tr_total run \<noteq> 0 \<longrightarrow> run' = run) \<and>
    (run' = run \<or> (tr_skipped run' = tr_skipped run \<and> tr_errors run' = tr_errors run \<and> tr_total run' = tr_passed run' + tr_failed run'))"
  by (auto simp: gtest_summary_def split: if_splits option.splits)

lemma pytest_summary_cases: "pytest_summary out run = Some run' \<Longrightarrow> tr_cases run' = tr_cases run \<and> (tr_total run \<noteq> 0 \<longrightarrow> run' = run) \<and>
    (run' = run \<or> tr_total run' = tr_passed run' + tr_failed run' + tr_skipped run' + tr_errors run')"
  by (auto simp: pytest_summary_def split: if_splits option.splits)

text \<open>The numbers of a test run are those its fresh object happened to hold, plus one for every case read: over zeroed
memory the total is the sum of the four counters, also when the numbers come from the summary line, but nothing in the code
zeroes it.\<close>

lemma test_run_counts:
  assumes "parse_output a to_ms mem out err code ms = Some run"
  shows "(tr_cases run \<noteq> [] \<and> 0 \<le> tr_total (mem_run mem) \<longrightarrow> counted (mem_run mem) run) \<and>
     (counters_zero mem \<longrightarrow> tr_total run = tr_passed run + tr_failed run + tr_skipped run + tr_errors run)"
proof -
  define step where "step = (case a of GTestAdapter \<Rightarrow> gtest_line to_ms mem | PytestAdapter \<Rightarrow> pytest_line mem)"
  define start where "start = (fresh_run mem)\<lparr>tr_framework := (case a of GTestAdapter \<Rightarrow> GTEST | PytestAdapter \<Rightarrow> PYTEST),
    tr_exit_code := code, tr_duration_ms := ms\<rparr>"
  define finish where "finish = (case a of GTestAdapter \<Rightarrow> gtest_summary out | PytestAdapter \<Rightarrow> pytest_summary (out @ err))"
  obtain run1 where run1: "fold_lines step (getlines nl out) start = Some run1" "finish run1 = Some run"
    using assms by (cases a) (auto simp: gtest_parse_output_def pytest_parse_output_def step_def start_def finish_def split: option.splits)
  have "counted start start" by (simp add: start_def counted_def fresh_run_def with_status_def)
  moreover have "f l r = Some r' \<Longrightarrow> f = step \<Longrightarrow> r' = r \<or> (\<exists>tc. r' = add_case tc r)" for f l r r'
    using line_adds by (cases a) (auto simp: step_def)
  ultimately have c: "counted start run1" using counted_lines [of step, OF _ run1(1), of start] by blast
  have eq: "counted start r = counted (mem_run mem) r" for r by (simp add: counted_def start_def fresh_run_def)
  have sum: "counters_zero mem \<Longrightarrow> tr_total run1 = tr_passed run1 + tr_failed run1 + tr_skipped run1 + tr_errors run1 \<and>
      (tr_total run1 = 0 \<longrightarrow> tr_skipped run1 = 0 \<and> tr_errors run1 = 0)"
    using counted_sum [OF c [unfolded eq]] c [unfolded eq] by (auto simp: counters_zero_def counted_def with_status_def)
  have fin: "tr_cases run = tr_cases run1 \<and> (tr_total run1 \<noteq> 0 \<longrightarrow> run = run1)"
    using run1(2) gtest_summary_cases pytest_summary_cases by (cases a) (auto simp: finish_def)
  have "counted (mem_run mem) run" if "tr_cases run \<noteq> []" "0 \<le> tr_total (mem_run mem)"
  proof -
    have "tr_cases run1 \<noteq> []" using fin that(1) by simp
    then have "0 < int (length (tr_cases run1))" by simp
    then have "tr_total run1 \<noteq> 0" using c [unfolded eq] that(2) unfolding counted_def by linarith
    then show ?thesis using fin c [unfolded eq] by simp
  qed
  moreover have "tr_total run = tr_passed run + tr_failed run + tr_skipped run + tr_errors run" if "counters_zero mem"
  proof (cases "tr_total run1 = 0")
    case False
    then have "run = run1" using fin by blast
    then show ?thesis using sum [OF that] by blast
  next
    case True
    then have z: "tr_skipped run1 = 0" "tr_errors run1 = 0" using sum [OF that] by blast+
    show ?thesis
    proof (cases a)
      case GTestAdapter
      then have "gtest_summary out run1 = Some run" using run1(2) by (simp add: finish_def)
      from gtest_summary_cases [OF this] show ?thesis using z sum [OF that] by (cases "run = run1") (blast, simp)
    next
      case PytestAdapter
      then have "pytest_summary (out @ err) run1 = Some run" using run1(2) by (simp add: finish_def)
      from pytest_summary_cases [OF this] show ?thesis using sum [OF that] by (cases "run = run1") blast+
    qed
  qed
  ultimately show ?thesis by blast
qed

section \<open>Reading back a printed report\<close>

text \<open>A line of \<open>pytest -v\<close>, or any other line of its output.\<close>

datatype report_line = Noise string | Outcome string string string test_status nat string

definition outcome_word :: "test_status \<Rightarrow> string" where
  "outcome_word st = (case st of PASSED \<Rightarrow> ''PASSED'' | FAILED \<Rightarrow> ''FAILED'' | SKIPPED \<Rightarrow> ''SKIPPED'' | _ \<Rightarrow> ''ERROR'')"

definition full_name :: "string \<Rightarrow> string \<Rightarrow> string" where
  "full_name suite name = (if suite = [] then name else suite @ ''::'' @ name)"

primrec print_line :: "report_line \<Rightarrow> string" where
  "print_line (Noise l) = l"
| "print_line (Outcome src suite name st pad tail) =
     src @ ''::'' @ full_name suite name @ replicate (Suc pad) (CHR '' '') @ outcome_word st @ tail"

definition plain_text :: "string \<Rightarrow> bool" where
  "plain_text s \<longleftrightarrow> (\<forall>c\<in>set s. c \<noteq> CHR '':'' \<and> any_char c)"

definition no_space :: "string \<Rightarrow> bool" where
  "no_space s \<longleftrightarrow> (\<forall>c\<in>set s. \<not> isspace c)"

primrec line_ok :: "report_line \<Rightarrow> bool" where
  "line_ok (Noise l) \<longleftrightarrow> CHR '':'' \<notin> set l \<and> nl \<notin> set l"
| "line_ok (Outcome src suite name st pad tail) \<longleftrightarrow>
     src \<noteq> [] \<and> plain_text src \<and> plain_text suite \<and> plain_text name \<and> no_space suite \<and> no_space name \<and> st \<noteq> TIMEOUT \<and> nl \<notin> set tail"

primrec case_of :: "memory \<Rightarrow> report_line \<Rightarrow> test_case list" where
  "case_of mem (Noise l) = []"
| "case_of mem (Outcome src suite name st pad tail) =
     [(fresh_case mem)\<lparr>tc_file := src, tc_suite := suite, tc_name := name, tc_status := st\<rparr>]"

lemma leads_outcome:
  "leads (Alts [Word ''PASSED'', Word ''FAILED'', Word ''SKIPPED'', Word ''ERROR'']) (b, outcome_word st @ s, g) (False, s, g)"
  by (cases st) (simp_all add: leads_def attempts_Word outcome_word_def del: Word.simps)

lemma outcome_word_start: "outcome_word st \<noteq> [] \<and> \<not> isspace (hd (outcome_word st @ s))"
  by (cases st) (simp_all add: outcome_word_def isspace_def)

lemma pytest_line_leads:
  assumes "line_ok (Outcome src suite name st pad tail)"
  shows "leads pytest_line_regex (True, print_line (Outcome src suite name st pad tail), Map.empty)
     (False, tail, [1 \<mapsto> src, 2 \<mapsto> full_name suite name, 3 \<mapsto> outcome_word st])"
proof -
  let ?n = "full_name suite name" and ?sp = "replicate (Suc pad) (CHR '' '')"
  define v where "v = ?sp @ outcome_word st @ tail"
  define R3 where "R3 = Group 3 (Alts [Word ''PASSED'', Word ''FAILED'', Word ''SKIPPED'', Word ''ERROR''])"
  obtain c u where f: "src = c # u" using assms by (cases "src") auto
  have fchars: "\<forall>x\<in>set src. x \<noteq> CHR '':'' \<and> any_char x" using assms by (simp add: plain_text_def)
  have colon: "any_char (CHR '':'')" "\<not> isspace (CHR '':'')" by (simp_all add: any_char_def isspace_def)
  have "\<forall>x\<in>set suite. any_char x \<and> \<not> isspace x" "\<forall>x\<in>set name. any_char x \<and> \<not> isspace x"
    using assms unfolding line_ok.simps plain_text_def no_space_def by blast+
  then have n: "\<forall>x\<in>set ?n. any_char x \<and> \<not> isspace x" using colon by (simp add: full_name_def ball_Un)
  have tail_part: "leads (Seq blanks R3) (b, v, g) (False, tail, g(3 \<mapsto> outcome_word st))" for b g
    unfolding v_def R3_def
  proof (rule leads_Seq)
    have "\<forall>x\<in>set ?sp. isspace x" by (simp add: isspace_def)
    moreover have "?sp \<noteq> []" by simp
    moreover have "\<not> isspace (hd (outcome_word st @ tail))" using outcome_word_start [of st tail] by blast
    ultimately show "leads blanks (b, ?sp @ outcome_word st @ tail, g) (False, outcome_word st @ tail, g)"
      by (intro leads_Plus_Class) blast+
    show "leads (Group 3 (Alts [Word ''PASSED'', Word ''FAILED'', Word ''SKIPPED'', Word ''ERROR''])) (False, outcome_word st @ tail, g)
        (False, tail, g(3 \<mapsto> outcome_word st))"
      by (rule leads_Group [OF leads_outcome])
  qed
  have name_part: "leads (Seq (Group 2 (Lazy (Class any_char))) (Seq blanks R3)) (False, ?n @ v, g) (False, tail, g(2 \<mapsto> ?n, 3 \<mapsto> outcome_word st))" for g
  proof -
    from lazy_steps [of ?n any_char False v g] n obtain pre where pre:
      "attempts (Lazy (Class any_char)) (False, ?n @ v, g) = pre @ attempts (Lazy (Class any_char)) (False, v, g)"
      "\<forall>st\<in>set pre. \<exists>w w'. ?n = w @ w' \<and> w' \<noteq> [] \<and> left st = w' @ v" by auto
    let ?G = "\<lambda>(b, s, h). (b, s, h(2 \<mapsto> take (length (?n @ v) - length s) (?n @ v)))"
    obtain others where o: "attempts (Lazy (Class any_char)) (False, v, g) = (False, v, g) # others"
      using attempts_Lazy_Class [of any_char False v g] by blast
    have at1: "attempts (Group 2 (Lazy (Class any_char))) (False, ?n @ v, g) = map ?G pre @ (False, v, g(2 \<mapsto> ?n)) # map ?G others"
      by (simp only: attempts.simps(8) pre(1) o) simp
    have at2: "attempts (Seq blanks R3) x = []" if "x \<in> set (map ?G pre)" for x
    proof -
      from that obtain y where y: "y \<in> set pre" "left x = left y" by auto
      with pre(2) obtain w w' where "?n = w @ w'" "w' \<noteq> []" "left x = w' @ v" by metis
      then have "\<not> isspace (hd (left x))" using n by (cases w') auto
      then have "attempts blanks x = []" using attempts_Plus_Class_fail [of "left x" isspace "fst x" "snd (snd x)"] by simp
      then show ?thesis by simp
    qed
    show ?thesis by (rule leads_Seq_skip [OF at1 at2 tail_part])
  qed
  have "leads (Seq (Group 1 (Lazy_Plus (Class any_char))) (Seq (Word ''::'') (Seq (Group 2 (Lazy (Class any_char))) (Seq blanks R3))))
      (True, src @ ''::'' @ ?n @ v, Map.empty) (False, tail, [1 \<mapsto> src, 2 \<mapsto> ?n, 3 \<mapsto> outcome_word st])"
  proof -
    let ?v = "''::'' @ ?n @ v"
    from lazy_steps [of u any_char False ?v Map.empty] fchars f obtain pre where pre:
      "attempts (Lazy (Class any_char)) (False, u @ ?v, Map.empty) = pre @ attempts (Lazy (Class any_char)) (False, ?v, Map.empty)"
      "\<forall>st\<in>set pre. \<exists>w w'. u = w @ w' \<and> w' \<noteq> [] \<and> left st = w' @ ?v" by auto
    let ?G = "\<lambda>(b, s, h). (b, s, h(1 \<mapsto> take (length (src @ ?v) - length s) (src @ ?v)))"
    obtain others where o: "attempts (Lazy (Class any_char)) (False, ?v, Map.empty) = (False, ?v, Map.empty) # others"
      using attempts_Lazy_Class [of any_char False ?v Map.empty] by blast
    have "attempts (Lazy_Plus (Class any_char)) (True, src @ ?v, Map.empty) = attempts (Lazy (Class any_char)) (False, u @ ?v, Map.empty)"
      using fchars by (simp add: Lazy_Plus_def f)
    then have at1: "attempts (Group 1 (Lazy_Plus (Class any_char))) (True, src @ ?v, Map.empty) =
        map ?G pre @ (False, ?v, [1 \<mapsto> src]) # map ?G others"
      by (simp only: attempts.simps(8) pre(1) o) simp
    have at2: "attempts (Seq (Word ''::'') r) x = []" if "x \<in> set (map ?G pre)" for x r
    proof -
      from that obtain y where y: "y \<in> set pre" "left x = left y" by auto
      with pre(2) obtain w w' where "u = w @ w'" "w' \<noteq> []" "left x = w' @ ?v" by metis
      then have "hd (left x) \<noteq> CHR '':''" "left x \<noteq> []" using fchars f by (cases w'; auto)+
      then have "attempts (Word ''::'') x = []"
        using attempts_Word [of "''::''" "fst x" "left x" "snd (snd x)"]
        by (cases x; cases "left x") (simp_all del: Word.simps)
      then show ?thesis by (simp del: Word.simps)
    qed
    show ?thesis
    proof (rule leads_Seq_skip [OF at1 at2])
      have "leads (Word ''::'') (False, ?v, [1 \<mapsto> src]) (False, ?n @ v, [1 \<mapsto> src])"
        using leads_Word [of "''::''" False "?n @ v" "[1 \<mapsto> src]"] by simp
      from leads_Seq [OF this name_part [of "[1 \<mapsto> src]"]]
      show "leads (Seq (Word ''::'') (Seq (Group 2 (Lazy (Class any_char))) (Seq blanks R3))) (False, ?v, [1 \<mapsto> src])
        (False, tail, [1 \<mapsto> src, 2 \<mapsto> ?n, 3 \<mapsto> outcome_word st])" .
    qed
  qed
  from leads_Seq [OF leads_Begin this] show ?thesis
    by (simp add: pytest_line_regex_def R3_def v_def del: Word.simps Alts.simps)
qed


lemma find_colons_none: "CHR '':'' \<notin> set s \<Longrightarrow> find_colons s = None"
  by (induction s) auto

lemma find_colons_first: "CHR '':'' \<notin> set s \<Longrightarrow> find_colons (s @ ''::'' @ t) = Some (length s)"
  by (induction s) auto

lemma split_full_name: "plain_text suite \<Longrightarrow> plain_text name \<Longrightarrow> split_suite (full_name suite name) = (suite, name)"
proof -
  assume "plain_text suite" "plain_text name"
  then have "CHR '':'' \<notin> set suite" "CHR '':'' \<notin> set name" unfolding plain_text_def by blast+
  then show ?thesis using find_colons_first [of suite name] find_colons_none [of name]
    by (simp add: split_suite_def full_name_def)
qed

lemma pytest_reads_outcome:
  assumes "line_ok (Outcome src suite name st pad tail)"
  shows "pytest_line mem (print_line (Outcome src suite name st pad tail)) run =
     Some (add_case ((fresh_case mem)\<lparr>tc_file := src, tc_suite := suite, tc_name := name, tc_status := st\<rparr>) run)"
proof -
  have "pytest_status (outcome_word st) old = st" for old
    using assms by (cases st) (auto simp: pytest_status_def outcome_word_def)
  moreover have "split_suite (full_name suite name) = (suite, name)" using assms by (intro split_full_name) auto
  ultimately show ?thesis using search_first [OF pytest_line_leads [OF assms]]
    by (simp add: pytest_line_def group_text_def del: print_line.simps)
qed

definition pytest_line_regex_parts :: "regex list" where
  "pytest_line_regex_parts =
     [Begin, Group 1 (Lazy_Plus (Class any_char)), Word ''::'', Group 2 (Lazy (Class any_char)), blanks,
      Group 3 (Alts [Word ''PASSED'', Word ''FAILED'', Word ''SKIPPED'', Word ''ERROR''])]"

lemma pytest_parts:
  "pytest_line_regex = Seq Begin (Seqs (tl pytest_line_regex_parts))"
  "Seqs (tl pytest_line_regex_parts) = Seq (pytest_line_regex_parts ! 1) (Seqs (drop 2 pytest_line_regex_parts))"
  "Seqs (drop 2 pytest_line_regex_parts) = Seq (Word ''::'') (Seqs (drop 3 pytest_line_regex_parts))"
  by (simp_all add: pytest_line_regex_def pytest_line_regex_parts_def)

lemma pytest_skips_noise: "CHR '':'' \<notin> set l \<Longrightarrow> pytest_line mem l run = Some run"
proof -
  assume no: "CHR '':'' \<notin> set l"
  have "regex_search pytest_line_regex l = None"
  proof (rule ccontr)
    assume "regex_search pytest_line_regex l \<noteq> None"
    then obtain p u v where u: "l = p @ u @ v" "in_lang pytest_line_regex (p = []) u" unfolding regex_search_iff by blast
    obtain a b b' where a: "u = a @ b" "in_lang (Seqs (tl pytest_line_regex_parts)) b' b"
      using Seq_tail_lang [of Begin "Seqs (tl pytest_line_regex_parts)"] u(2) unfolding pytest_parts by blast
    obtain a2 b2 b3 where a2: "b = a2 @ b2" "in_lang (Seqs (drop 2 pytest_line_regex_parts)) b3 b2"
      using Seq_tail_lang a(2) unfolding pytest_parts by blast
    obtain y where "b2 = ''::'' @ y" using Seq_Word_lang a2(2) unfolding pytest_parts by blast
    then show False using a(1) a2(1) u(1) no by simp
  qed
  then show ?thesis by (simp add: pytest_line_def)
qed

lemma pytest_reads_lines:
  "list_all line_ok ls \<Longrightarrow> fold_lines (pytest_line mem) (map print_line ls) run = Some (fold add_case (concat (map (case_of mem) ls)) run)"
proof (induction ls arbitrary: run)
  case (Cons l ls)
  have "pytest_line mem (print_line l) run = Some (fold add_case (case_of mem l) run)"
    using Cons.prems pytest_reads_outcome pytest_skips_noise by (cases l) (auto simp del: print_line.simps(2))
  then show ?case using Cons by simp
qed simp

lemma fold_add_case: "tr_cases (fold add_case cs run) = tr_cases run @ cs \<and> tr_exit_code (fold add_case cs run) = tr_exit_code run"
proof (induction cs arbitrary: run)
  case (Cons c cs)
  have "tr_cases (add_case c run) = tr_cases run @ [c] \<and> tr_exit_code (add_case c run) = tr_exit_code run"
    by (cases "tc_status c") (simp_all add: add_case_def count_status_def Let_def)
  then show ?case using Cons.IH [of "add_case c run"] by simp
qed simp

lemma print_line_no_nl: "line_ok l \<Longrightarrow> nl \<notin> set (print_line l)"
proof (cases l)
  case (Outcome src suite name st pad tail)
  assume "line_ok l"
  moreover have "plain_text s \<Longrightarrow> nl \<notin> set s" for s by (auto simp: plain_text_def any_char_def nl_def)
  moreover have "nl \<notin> set (outcome_word st)" by (cases st) (simp_all add: outcome_word_def nl_def)
  ultimately show ?thesis using Outcome by (simp add: full_name_def) (simp add: nl_def)
qed simp

text \<open>\<^bold>\<open>C26\<close> The reader of \<open>pytest -v\<close> output is a left inverse of its printer: from any report, with other lines in between, it
gets the tests in their order, each with its file, class, name and outcome, and their numbers.\<close>

theorem pytest_round_trip:
  assumes "list_all line_ok ls" "counters_zero mem" "concat (map (case_of mem) ls) \<noteq> []"
  shows "\<exists>run. parse_output PytestAdapter to_ms mem (unlines (map print_line ls)) err code ms = Some run \<and>
     tr_cases run = concat (map (case_of mem) ls) \<and> counted (mem_run mem) run \<and> tr_exit_code run = code"
proof -
  let ?out = "unlines (map print_line ls)" and ?cs = "concat (map (case_of mem) ls)"
  define start where "start = (fresh_run mem)\<lparr>tr_framework := PYTEST, tr_exit_code := code, tr_duration_ms := ms\<rparr>"
  define run where "run = fold add_case ?cs start"
  have "getlines nl ?out = map print_line ls"
    using assms(1) print_line_no_nl by (intro getlines_unlines) (auto simp: list_all_iff)
  then have lines: "fold_lines (pytest_line mem) (getlines nl ?out) start = Some run"
    using pytest_reads_lines [OF assms(1)] by (simp add: run_def)
  have start: "counted start start" by (simp add: start_def counted_def fresh_run_def with_status_def)
  have c: "counted start run" by (rule counted_lines [OF _ lines start]) (rule line_adds(2))
  have cs: "tr_cases run = ?cs \<and> tr_exit_code run = code"
    using fold_add_case [of ?cs start] by (simp add: run_def start_def fresh_run_def)
  have "tr_total run = int (length ?cs)" using c cs assms(2) by (simp add: counted_def start_def fresh_run_def counters_zero_def)
  then have "tr_total run \<noteq> 0" using assms(3) by (cases ?cs) auto
  then have "pytest_summary (?out @ err) run = Some run" by (simp add: pytest_summary_def split: option.splits)
  moreover have "counted (mem_run mem) run" using c by (simp add: counted_def start_def fresh_run_def)
  ultimately show ?thesis using lines cs by (simp add: pytest_parse_output_def start_def)
qed

definition sample_report :: "report_line list" where
  "sample_report = [Noise ''collected 2 items'', Outcome ''a.py'' ''C'' ''m'' FAILED 3 '' [ 50%]'', Outcome ''a.py'' [] ''f'' PASSED 0 '' [100%]'']"

lemma sample_report_ok: "list_all line_ok sample_report \<and> concat (map (case_of sample_memory) sample_report) \<noteq> [] \<and> counters_zero sample_memory"
  by (simp add: sample_report_def plain_text_def no_space_def any_char_def isspace_def nl_def counters_zero_def sample_memory_def)

theorem pytest_round_trip_witness:
  "\<exists>run. parse_output PytestAdapter Map.empty sample_memory (unlines (map print_line sample_report)) [] 1 30 = Some run \<and>
     tr_cases run = concat (map (case_of sample_memory) sample_report) \<and> counted (mem_run sample_memory) run \<and> tr_exit_code run = 1"
  using sample_report_ok by (intro pytest_round_trip) simp_all

lemma test_run_counts_example:
  "tr_total (the (parse_output GTestAdapter Map.empty sample_memory [] [] 0 9)) =
     tr_passed (the (parse_output GTestAdapter Map.empty sample_memory [] [] 0 9)) +
     tr_failed (the (parse_output GTestAdapter Map.empty sample_memory [] [] 0 9)) +
     tr_skipped (the (parse_output GTestAdapter Map.empty sample_memory [] [] 0 9)) +
     tr_errors (the (parse_output GTestAdapter Map.empty sample_memory [] [] 0 9))"
proof -
  have "parse_output GTestAdapter Map.empty sample_memory [] [] 0 9 \<noteq> None" by code_simp
  then obtain run where run: "parse_output GTestAdapter Map.empty sample_memory [] [] 0 9 = Some run" by blast
  show ?thesis using test_run_counts [OF run] sample_report_ok run by simp
qed

text \<open>A test that crashes disappears from the run: CTest prints \<open>***Exception: SegFault\<close>, and the pattern wants a number after
one word.\<close>

lemma crashed_test_not_read:
  "gtest_line to_ms mem ''3/4 Test #3: C ....***Exception: SegFault  0.01 sec'' run = Some run"
proof -
  have "regex_search ctest_line_regex ''3/4 Test #3: C ....***Exception: SegFault  0.01 sec'' = None" by code_simp
  then show ?thesis by (simp add: gtest_line_def)
qed

end
