(* ===== verification/Test_Runner.thy ===== *)
theory Test_Runner
  imports Test_Adapters Brain_Planner System_Process Nexus_Bot_Store
begin

text \<open>
  The test runner (\<open>src/modules/testsuite/src/runner.cpp\<close>): the command line of a plan, the run through the shell, reading the
  output and recording the run with its cases. \<open>popen\<close>, the clock and the memory of fresh objects are arguments;
  \<^const>\<open>None\<close> is an exception of the reader. The helper context for workspace tests is left out.
\<close>

section \<open>Running a plan\<close>

definition test_command :: "plan \<Rightarrow> string list \<Rightarrow> string" where
  "test_command p parts =
     (if pl_working_dir p \<noteq> [] then ''cd '' @ shell_quote (pl_working_dir p) @ '' && '' else []) @
     hd parts @ concat (map (\<lambda>a. '' '' @ shell_quote a) (tl parts))"

definition failed_run :: "memory \<Rightarrow> int \<Rightarrow> framework \<Rightarrow> test_run" where
  "failed_run mem pid fw =
     (fresh_run mem)\<lparr>tr_project_id := pid, tr_framework := fw, tr_exit_code := -1, tr_errors := 1, tr_total := 0\<rparr>"

definition store_case :: "int \<Rightarrow> test_case \<Rightarrow> sqlite \<Rightarrow> sqlite" where
  "store_case rid t c =
     fst (add_test_result rid (tc_suite t) (tc_name t) (status_to_string (tc_status t)) (tc_duration_ms t) (tc_message t) (tc_file t) (tc_line t) c)"

definition store_run :: "test_run \<Rightarrow> sqlite \<Rightarrow> sqlite \<times> test_run" where
  "store_run run c =
     (case add_test_run (tr_project_id run) (framework_to_string (tr_framework run)) (tr_timestamp run) (tr_duration_ms run)
             (tr_exit_code run) (tr_total run) (tr_passed run) (tr_failed run) (tr_skipped run) (tr_errors run) (tr_triggered_by run) c of
        (c', rid) \<Rightarrow> if rid > 0 then (fold (store_case rid) (tr_cases run) c', run\<lparr>tr_id := rid\<rparr>) else (c', run))"

record run_world =
  rw_popen :: "string \<Rightarrow> (string list \<times> int) option"
  rw_elapsed_ms :: int
  rw_now :: int
  rw_to_ms :: "string \<Rightarrow> int option"
  rw_memory :: memory

text \<open>The store is optional: a runner without one returns the run only.\<close>

definition execute_tests :: "run_world \<Rightarrow> int \<Rightarrow> plan \<Rightarrow> run_options \<Rightarrow> sqlite option \<Rightarrow> (sqlite option \<times> test_run) option" where
  "execute_tests w pid p opts store =
     (let fw = string_to_framework (pl_test_framework p) in
      case create_adapter fw of
        None \<Rightarrow> Some (store, failed_run (rw_memory w) pid fw)
      | Some a \<Rightarrow>
          let parts = build_command a (pl_working_dir p) opts in
          if parts = [] then Some (store, failed_run (rw_memory w) pid fw)
          else let result = run_command_capture (rw_popen w) (test_command p parts) in
            case parse_output a (rw_to_ms w) (rw_memory w) (cr_output result) [] (cr_exit_code result) (rw_elapsed_ms w) of
              None \<Rightarrow> None
            | Some run0 \<Rightarrow>
                let run = run0\<lparr>tr_project_id := pid, tr_framework := fw, tr_timestamp := rw_now w, tr_triggered_by := ''manual''\<rparr> in
                (case store of
                   None \<Rightarrow> Some (None, run)
                 | Some c \<Rightarrow> (case store_run run c of (c', run') \<Rightarrow> Some (Some c', run'))))"

text \<open>\<open>Runner::parse_output\<close>.\<close>

definition runner_parse_output ::
  "framework \<Rightarrow> (string \<Rightarrow> int option) \<Rightarrow> memory \<Rightarrow> string \<Rightarrow> string \<Rightarrow> int \<Rightarrow> int \<Rightarrow> test_run option" where
  "runner_parse_output fw to_ms mem output err code ms =
     (case create_adapter fw of
        None \<Rightarrow> Some ((fresh_run mem)\<lparr>tr_framework := fw, tr_exit_code := code, tr_duration_ms := ms, tr_errors := 1\<rparr>)
      | Some a \<Rightarrow> parse_output a to_ms mem output err code ms)"

section \<open>The command line\<close>

lemma framework_text_round_trip: "string_to_framework (framework_to_string fw) = fw"
  by (cases fw) (simp_all add: framework_to_string_def string_to_framework_def)

lemma concat_quoted: "concat (map (\<lambda>a. '' '' @ shell_quote a) args) = (if args = [] then [] else '' '' @ join_with '' '' (map shell_quote args))"
  by (induction args rule: induct_list012) simp_all

text \<open>Whatever the test filter holds, the shell reads the command as the words the adapter chose.\<close>

lemma filter_is_one_word:
  assumes "pl_working_dir p = []"
  shows "sh_read (test_command p (build_command a dir opts)) = Some (build_command a dir opts)"
proof -
  obtain cmd args where parts: "build_command a dir opts = cmd # args" "args \<noteq> []" "plain_word cmd"
    by (cases a) (simp_all add: gtest_build_command_def pytest_build_command_def plain_word_def sh_special_def)
  then have "test_command p (cmd # args) = cmd @ '' '' @ join_with '' '' (map shell_quote args)"
    using assms concat_quoted [of args] by (simp add: test_command_def)
  then show ?thesis using read_command_quoted [OF parts(3), of args] parts(1) by simp
qed

section \<open>A recorded run\<close>

definition case_cells :: "int \<Rightarrow> test_case \<Rightarrow> cells" where
  "case_cells rid t =
     [(''run_id'', VInt rid), (''suite'', VText (c_string (tc_suite t))), (''name'', VText (c_string (tc_name t))),
      (''status'', VText (status_to_string (tc_status t))), (''duration_ms'', VInt (tc_duration_ms t)),
      (''message'', VText (c_string (tc_message t))), (''file'', VText (c_string (tc_file t))), (''line'', VInt (tc_line t))]"

definition run_cells :: "test_run \<Rightarrow> cells" where
  "run_cells r =
     [(''project_id'', VInt (tr_project_id r)), (''framework'', VText (framework_to_string (tr_framework r))),
      (''timestamp'', VInt (tr_timestamp r)), (''duration_ms'', VInt (tr_duration_ms r)), (''exit_code'', VInt (tr_exit_code r)),
      (''total_tests'', VInt (tr_total r)), (''passed'', VInt (tr_passed r)), (''failed'', VInt (tr_failed r)),
      (''skipped'', VInt (tr_skipped r)), (''errors'', VInt (tr_errors r)), (''triggered_by'', VText (c_string (tr_triggered_by r)))]"

lemma c_string_names [simp]: "c_string (status_to_string s) = status_to_string s" "c_string (framework_to_string fw) = framework_to_string fw"
  by (cases s; simp add: status_to_string_def c_string_def) (cases fw; simp add: framework_to_string_def c_string_def)

lemma store_case_effect:
  assumes "healthy c" "\<forall>n. \<not> io_fails c n" "rid \<in> set (ids_of (tabs c ''test_runs''))" "seq (tabs c ''test_results'') < max_rowid"
  shows "tabs (store_case rid t c) = append_row ''test_results'' (case_cells rid t) (tabs c)"
    "healthy (store_case rid t c)" "\<forall>n. \<not> io_fails (store_case rid t c) n"
proof -
  let ?vs = "[(''run_id'', bind_int rid), (''suite'', Nexus_Sql.bind (tc_suite t)), (''name'', Nexus_Sql.bind (tc_name t)),
     (''status'', Nexus_Sql.bind (status_to_string (tc_status t))), (''duration_ms'', bind_int (tc_duration_ms t)),
     (''message'', Nexus_Sql.bind (tc_message t)), (''file'', Nexus_Sql.bind (tc_file t)), (''line'', bind_int (tc_line t))]"
  have cs: "new_cells test_results_table ?vs = case_cells rid t"
    by (simp add: new_cells_def test_results_table_def column_defs case_cells_def)
  have "accepts test_results_table ?vs c"
    using assms unfolding accepts_def cs
    by (simp add: healthy_def not_null_ok_def unique_ok_def fkeys_ok_def refers_def test_results_table_def column_defs
        case_cells_def cell_def)
  then show "tabs (store_case rid t c) = append_row ''test_results'' (case_cells rid t) (tabs c)"
    using exec_insert [of test_results_table ?vs c "''test_results''"] find_tables
    by (simp add: store_case_def add_test_result_def cs)
  show "healthy (store_case rid t c)" "\<forall>n. \<not> io_fails (store_case rid t c) n"
    using assms(1,2) by (simp_all add: store_case_def add_test_result_def)
qed

lemma store_cases_effect:
  assumes "healthy c" "\<forall>n. \<not> io_fails c n" "rid \<in> set (ids_of (tabs c ''test_runs''))"
    "seq (tabs c ''test_results'') + int (length ts) \<le> max_rowid"
  shows "healthy (fold (store_case rid) ts c) \<and> (\<forall>t. t \<noteq> ''test_results'' \<longrightarrow> tabs (fold (store_case rid) ts c) t = tabs c t) \<and>
    trows (tabs (fold (store_case rid) ts c) ''test_results'') =
      trows (tabs c ''test_results'') @ zip [seq (tabs c ''test_results'') + 1..seq (tabs c ''test_results'') + int (length ts)] (map (case_cells rid) ts)"
  using assms
proof (induction ts arbitrary: c)
  case (Cons t ts)
  let ?c = "store_case rid t c" and ?n = "seq (tabs c ''test_results'')"
  have "?n < max_rowid" using Cons.prems(4) by simp
  note eff = store_case_effect [OF Cons.prems(1-3) this, of t]
  have tabs: "tabs ?c u = tabs c u" if "u \<noteq> ''test_results''" for u using that by (simp add: eff(1) append_row_def Let_def)
  have rows: "trows (tabs ?c ''test_results'') = trows (tabs c ''test_results'') @ [(?n + 1, case_cells rid t)]"
    "seq (tabs ?c ''test_results'') = ?n + 1"
    by (simp_all add: eff(1) append_row_def Let_def)
  have "rid \<in> set (ids_of (tabs ?c ''test_runs''))" "seq (tabs ?c ''test_results'') + int (length ts) \<le> max_rowid"
    using Cons.prems(3,4) tabs rows by simp_all
  note ih = Cons.IH [OF eff(2,3) this]
  have "?n + int (length (t # ts)) = ?n + 1 + int (length ts)" by simp
  then have "[?n + 1..?n + int (length (t # ts))] = (?n + 1) # [?n + 1 + 1..?n + 1 + int (length ts)]"
    by (simp only:) (subst upto.simps, simp)
  then show ?case using ih tabs rows by simp
qed simp

lemma add_run_effect:
  assumes "healthy c" "\<forall>n. \<not> io_fails c n" "tr_project_id r \<in> set (ids_of (tabs c ''projects''))" "seq (tabs c ''test_runs'') < max_rowid"
  defines "q \<equiv> add_test_run (tr_project_id r) (framework_to_string (tr_framework r)) (tr_timestamp r) (tr_duration_ms r)
             (tr_exit_code r) (tr_total r) (tr_passed r) (tr_failed r) (tr_skipped r) (tr_errors r) (tr_triggered_by r) c"
  shows "snd q = seq (tabs c ''test_runs'') + 1" "tabs (fst q) = append_row ''test_runs'' (run_cells r) (tabs c)"
    "healthy (fst q)" "\<forall>n. \<not> io_fails (fst q) n"
proof -
  let ?vs = "[(''project_id'', bind_int (tr_project_id r)), (''framework'', Nexus_Sql.bind (framework_to_string (tr_framework r))),
      (''timestamp'', bind_int (tr_timestamp r)), (''duration_ms'', bind_int (tr_duration_ms r)), (''exit_code'', bind_int (tr_exit_code r)),
      (''total_tests'', bind_int (tr_total r)), (''passed'', bind_int (tr_passed r)), (''failed'', bind_int (tr_failed r)),
      (''skipped'', bind_int (tr_skipped r)), (''errors'', bind_int (tr_errors r)), (''triggered_by'', Nexus_Sql.bind (tr_triggered_by r))]"
  have cs: "new_cells test_runs_table ?vs = run_cells r"
    by (simp add: new_cells_def test_runs_table_def column_defs run_cells_def)
  have "accepts test_runs_table ?vs c"
    using assms(1-4) unfolding accepts_def cs
    by (simp add: healthy_def not_null_ok_def unique_ok_def fkeys_ok_def refers_def test_runs_table_def column_defs run_cells_def cell_def)
  from insert_id_accepted [OF this, of "''test_runs''" "-1", simplified]
  show "snd q = seq (tabs c ''test_runs'') + 1" "tabs (fst q) = append_row ''test_runs'' (run_cells r) (tabs c)" "healthy (fst q)"
    using find_tables assms(1) by (simp_all add: q_def add_test_run_def cs)
  show "\<forall>n. \<not> io_fails (fst q) n" using assms(2) by (simp add: q_def add_test_run_def)
qed

lemma no_results_of_new_run:
  assumes "healthy c" "r \<in> set (trows (tabs c ''test_results''))"
  shows "val r ''run_id'' \<noteq> VInt (seq (tabs c ''test_runs'') + 1)"
proof
  assume v: "val r ''run_id'' = VInt (seq (tabs c ''test_runs'') + 1)"
  have "row_ok test_results_table (tabs c) (snd r)"
    using table_ok_row [OF healthy_table [OF assms(1), of test_results_table]] assms(2) by simp
  then have "refers (tabs c) ''test_runs'' (cell (snd r) ''run_id'')"
    by (rule row_ok_fk) (simp add: test_results_table_def)
  then have "seq (tabs c ''test_runs'') + 1 \<in> set (ids_of (tabs c ''test_runs''))" using v by (simp add: refers_def val_def)
  moreover have "\<forall>i\<in>set (ids_of (tabs c ''test_runs'')). i \<le> seq (tabs c ''test_runs'')"
    using healthy_table [OF assms(1), of test_runs_table] by (simp add: table_ok_def Let_def list_all_iff)
  ultimately show False by fastforce
qed

lemma ordered_new_rows:
  assumes "healthy c" "trows (tabs c t) = old @ zip [a..b] xs" "length xs = nat (b - a + 1)"
    "\<forall>r\<in>set old. \<not> P r" "\<And>i x. x \<in> set xs \<Longrightarrow> P (i, x)"
  shows "order_asc ''id'' (select t P c) = zip [a..b] xs"
proof -
  let ?new = "zip [a..b] xs"
  have all: "\<forall>r\<in>set ?new. P r" using assms(5) by (auto dest: set_zip_rightD)
  have "filter P (old @ ?new) = ?new" using assms(4) all by (simp add: filter_empty_conv filter_id_conv)
  then have "filter_mset P (mset (trows (tabs c t))) = mset ?new" unfolding assms(2) by (metis mset_filter)
  then have m: "mset (select t P c) = mset ?new" using assms(1) mset_select [of c t P] by (simp add: healthy_def)
  have f: "map fst ?new = [a..b]" using assms(3) by simp
  have "map (\<lambda>r. val r ''id'') ?new = map VInt (map fst ?new)" by (simp add: val_def comp_def)
  then have "map (\<lambda>r. val r ''id'') ?new = map VInt [a..b]" by (simp only: f)
  moreover have "sorted (map VInt [a..b])" using sorted_upto [of a b] by (simp add: sorted_map)
  moreover have "inj_on (\<lambda>r. val r ''id'') (set (select t P c))"
  proof -
    have "distinct (map fst ?new)" by (simp only: f distinct_upto)
    then have "inj_on fst (set ?new)" by (simp add: distinct_map)
    moreover have "set (select t P c) = set ?new" using m by (metis set_mset_mset)
    ultimately show ?thesis by (auto simp: inj_on_def val_def)
  qed
  ultimately show ?thesis unfolding order_asc_def using m by (intro sort_key_inj_key_eq) simp_all
qed

lemma build_command_nonempty: "build_command a dir opts \<noteq> []"
  by (cases a) (simp_all add: gtest_build_command_def pytest_build_command_def)

lemma execute_tests_stores:
  assumes "execute_tests w pid p opts (Some c) = Some (Some c', run)" "create_adapter (string_to_framework (pl_test_framework p)) \<noteq> None"
  shows "\<exists>r0. tr_project_id r0 = pid \<and> store_run r0 c = (c', run)"
proof -
  obtain a where a: "create_adapter (string_to_framework (pl_test_framework p)) = Some a" using assms(2) by blast
  obtain run0 where "store_run (run0\<lparr>tr_project_id := pid, tr_framework := string_to_framework (pl_test_framework p),
      tr_timestamp := rw_now w, tr_triggered_by := ''manual''\<rparr>) c = (c', run)"
    using assms(1) by (auto simp: execute_tests_def Let_def a build_command_nonempty split: option.splits prod.splits)
  then show ?thesis by (intro exI conjI) simp_all
qed

definition run_in_range :: "test_run \<Rightarrow> bool" where
  "run_in_range r \<longleftrightarrow> list_all (\<lambda>i. - (2 ^ 63) \<le> i \<and> i < 2 ^ 63)
     [tr_exit_code r, tr_total r, tr_passed r, tr_failed r, tr_skipped r, tr_errors r]"

definition numbers_of :: "(string, string) std_map \<Rightarrow> string option list" where
  "numbers_of m = map (map_get m) [''exit_code'', ''total_tests'', ''passed'', ''failed'', ''skipped'', ''errors'']"

lemma run_row_numbers:
  assumes "run_in_range r"
  shows "numbers_of (row_map test_run_columns (i, run_cells r)) =
    map (Some \<circ> to_string) [tr_exit_code r, tr_total r, tr_passed r, tr_failed r, tr_skipped r, tr_errors r]"
proof -
  have n: "get_num (i, run_cells r) k = v" if "val (i, run_cells r) k = VInt v" "- (2 ^ 63) \<le> v" "v < 2 ^ 63" for k v
    using that by (rule row_get_int_VInt(2))
  have "get_num (i, run_cells r) ''exit_code'' = tr_exit_code r" "get_num (i, run_cells r) ''total_tests'' = tr_total r"
    "get_num (i, run_cells r) ''passed'' = tr_passed r" "get_num (i, run_cells r) ''failed'' = tr_failed r"
    "get_num (i, run_cells r) ''skipped'' = tr_skipped r" "get_num (i, run_cells r) ''errors'' = tr_errors r"
    using assms by (intro n; simp add: run_in_range_def val_def cell_def run_cells_def)+
  then show ?thesis by (simp add: numbers_of_def map_get_row_map test_run_columns_def)
qed

definition shown_result :: "(string, string) std_map \<Rightarrow> string option list" where
  "shown_result m = map (map_get m) [''suite'', ''name'', ''status'', ''file'']"

lemma case_row_shown:
  "shown_result (row_map result_columns (i, case_cells rid t)) =
     map Some [c_string (tc_suite t), c_string (tc_name t), status_to_string (tc_status t), c_string (tc_file t)]"
  by (simp add: shown_result_def map_get_row_map result_columns_def get_text_def row_get_def val_def cell_def case_cells_def)

text \<open>\<^bold>\<open>C25\<close> A run of the tests is recorded as it was read: with a database that answers, the recorded run has the numbers of the
returned one, and its recorded results are the tests that were read, in their order, each with its class, name, outcome and
file.\<close>

theorem test_run_recorded:
  assumes c: "healthy c" "\<forall>n. \<not> io_fails c n" "pid \<in> set (ids_of (tabs c ''projects''))"
    and run: "execute_tests w pid p opts (Some c) = Some (Some c', run)" "create_adapter (string_to_framework (pl_test_framework p)) \<noteq> None"
    and room: "seq (tabs c ''test_runs'') < max_rowid" "seq (tabs c ''test_results'') + int (length (tr_cases run)) \<le> max_rowid"
    and range: "run_in_range run"
  shows "map shown_result (get_test_results (tr_id run) c') =
      map (\<lambda>t. map Some [c_string (tc_suite t), c_string (tc_name t), status_to_string (tc_status t), c_string (tc_file t)]) (tr_cases run) \<and>
    map_option numbers_of (get_test_run (tr_id run) c') =
      Some (map (Some \<circ> to_string) [tr_exit_code run, tr_total run, tr_passed run, tr_failed run, tr_skipped run, tr_errors run])"
proof -
  obtain r0 where r0: "tr_project_id r0 = pid" "store_run r0 c = (c', run)"
    using execute_tests_stores [OF run(1)] run(2) by blast
  let ?q = "add_test_run (tr_project_id r0) (framework_to_string (tr_framework r0)) (tr_timestamp r0) (tr_duration_ms r0)
             (tr_exit_code r0) (tr_total r0) (tr_passed r0) (tr_failed r0) (tr_skipped r0) (tr_errors r0) (tr_triggered_by r0) c"
  let ?rid = "seq (tabs c ''test_runs'') + 1"
  note q = add_run_effect [OF c(1,2) _ room(1), of r0, unfolded r0(1), OF c(3)]
  have "0 \<le> seq (tabs c ''test_runs'')"
    using healthy_table [OF c(1), of test_runs_table] by (simp add: table_ok_def Let_def)
  then have st: "c' = fold (store_case ?rid) (tr_cases r0) (fst ?q)" "run = r0\<lparr>tr_id := ?rid\<rparr>"
    using r0(2) q(1) by (auto simp: store_run_def r0(1) split: prod.splits)
  have cells: "run_cells r0 = run_cells run" "tr_cases r0 = tr_cases run" "tr_id run = ?rid" by (simp_all add: st(2) run_cells_def)
  have res: "tabs (fst ?q) ''test_results'' = tabs c ''test_results''"
    and runs: "trows (tabs (fst ?q) ''test_runs'') = trows (tabs c ''test_runs'') @ [(?rid, run_cells run)]"
    using q(2) by (simp_all add: r0(1) append_row_def Let_def cells(1))
  have "?rid \<in> set (ids_of (tabs (fst ?q) ''test_runs''))" by (simp add: ids_of_def runs)
  note eff = store_cases_effect [of "fst ?q" ?rid "tr_cases run", unfolded res, OF _ _ this room(2)]
  have h: "healthy c'" "trows (tabs c' ''test_runs'') = trows (tabs c ''test_runs'') @ [(?rid, run_cells run)]"
    "trows (tabs c' ''test_results'') = trows (tabs c ''test_results'') @
       zip [seq (tabs c ''test_results'') + 1..seq (tabs c ''test_results'') + int (length (tr_cases run))] (map (case_cells ?rid) (tr_cases run))"
    using eff q(3,4) runs by (simp_all add: st(1) cells(2) r0(1))
  have "order_asc ''id'' (select ''test_results'' (eq_int ''run_id'' ?rid) c') =
      zip [seq (tabs c ''test_results'') + 1..seq (tabs c ''test_results'') + int (length (tr_cases run))] (map (case_cells ?rid) (tr_cases run))"
    using no_results_of_new_run [OF c(1)] by (intro ordered_new_rows [OF h(1,3)]) (auto simp: val_def cell_def case_cells_def)
  then have "map shown_result (get_test_results ?rid c') =
      map (\<lambda>t. map Some [c_string (tc_suite t), c_string (tc_name t), status_to_string (tc_status t), c_string (tc_file t)]) (tr_cases run)"
    by (intro nth_equalityI) (auto simp: get_test_results_def case_row_shown)
  moreover have "select ''test_runs'' (eq_int ''id'' ?rid) c' = [(?rid, run_cells run)]"
  proof -
    have "\<forall>i\<in>set (ids_of (tabs c ''test_runs'')). i \<le> seq (tabs c ''test_runs'')"
      using healthy_table [OF c(1), of test_runs_table] by (simp add: table_ok_def Let_def list_all_iff)
    then have "filter (eq_int ''id'' ?rid) (trows (tabs c' ''test_runs'')) = [(?rid, run_cells run)]"
      by (force simp: h(2) val_def ids_of_def filter_empty_conv)
    then have "mset (select ''test_runs'' (eq_int ''id'' ?rid) c') = {#(?rid, run_cells run)#}"
      using h(1) mset_select [of c' "''test_runs''" "eq_int ''id'' ?rid"] by (simp add: healthy_def flip: mset_filter)
    then show ?thesis by simp
  qed
  ultimately show ?thesis using run_row_numbers [OF range, of ?rid] by (simp add: cells(3) get_test_run_def first_row_def)
qed

definition sample_world :: run_world where
  "sample_world = \<lparr>rw_popen = (\<lambda>_. Some ([''a.py::f PASSED''], 0)), rw_elapsed_ms = 9, rw_now = 100, rw_to_ms = Map.empty,
     rw_memory = sample_memory\<rparr>"

definition sample_plan :: plan where
  "sample_plan = empty_plan\<lparr>pl_test_framework := ''pytest'', pl_working_dir := ''/p''\<rparr>"

definition sample_options :: run_options where
  "sample_options = \<lparr>collect_coverage = False, ro_filter = None, timeout_seconds = 300, fail_fast = False, parallel_jobs = 1, verbose = False\<rparr>"

lemma sample_parse:
  "\<exists>r. parse_output PytestAdapter Map.empty sample_memory ''a.py::f PASSED'' [] 0 9 = Some r \<and>
     map (\<lambda>t. [tc_suite t, tc_name t, tc_file t]) (tr_cases r) = [[[], ''f'', ''a.py'']] \<and> map tc_status (tr_cases r) = [PASSED] \<and> run_in_range r"
proof -
  let ?l = "Outcome ''a.py'' [] ''f'' PASSED 0 []"
  have ok: "line_ok ?l" by (simp add: plain_text_def no_space_def any_char_def isspace_def)
  have l: "print_line ?l = ''a.py::f PASSED''" by (simp add: full_name_def outcome_word_def)
  have "getlines nl ''a.py::f PASSED'' = [''a.py::f PASSED'']"
    using getlines_single [of nl "''a.py::f PASSED''"] by (simp add: nl_def)
  moreover note pytest_reads_outcome [OF ok, unfolded l]
  ultimately show ?thesis
    by (simp add: pytest_parse_output_def pytest_summary_def add_case_def count_status_def fresh_run_def sample_memory_def fresh_case_def
        run_in_range_def split: option.splits)
qed

theorem test_run_recorded_witness:
  "\<exists>c' run. execute_tests sample_world 1 sample_plan sample_options (Some demo_project) = Some (Some c', run) \<and>
     map shown_result (get_test_results (tr_id run) c') = [[Some [], Some ''f'', Some ''passed'', Some ''a.py'']]"
proof -
  obtain r where r: "parse_output PytestAdapter Map.empty sample_memory ''a.py::f PASSED'' [] 0 9 = Some r"
    "map (\<lambda>t. [tc_suite t, tc_name t, tc_file t]) (tr_cases r) = [[[], ''f'', ''a.py'']]" "map tc_status (tr_cases r) = [PASSED]"
    "run_in_range r" using sample_parse by (elim exE conjE)
  have fw: "create_adapter (string_to_framework (pl_test_framework sample_plan)) = Some PytestAdapter"
    by (simp add: sample_plan_def string_to_framework_def create_adapter_def)
  have out: "run_command_capture (rw_popen sample_world) t = \<lparr>cr_exit_code = 0, cr_output = ''a.py::f PASSED''\<rparr>" for t
    by (simp add: sample_world_def run_command_capture_def exec_command_def c_string_def trim_newline_def status_code_def WIFEXITED_def WEXITSTATUS_def)
  have sel: "rw_to_ms sample_world = Map.empty" "rw_memory sample_world = sample_memory" "rw_elapsed_ms sample_world = 9"
    by (simp_all add: sample_world_def)
  let ?r0 = "r\<lparr>tr_project_id := 1, tr_framework := string_to_framework (pl_test_framework sample_plan), tr_timestamp := rw_now sample_world,
      tr_triggered_by := ''manual''\<rparr>"
  obtain c' run where st: "store_run ?r0 demo_project = (c', run)" by (cases "store_run ?r0 demo_project")
  have run: "execute_tests sample_world 1 sample_plan sample_options (Some demo_project) = Some (Some c', run)"
    unfolding execute_tests_def Let_def fw option.case out sel
    using r(1) st by (simp add: build_command_nonempty del: parse_output.simps build_command.simps)
  have same: "tr_cases run = tr_cases r" "run_in_range run"
    using st r(4) by (auto simp: store_run_def run_in_range_def split: prod.splits if_splits)
  have "seq (tabs demo_project ''test_runs'') = 0" "seq (tabs demo_project ''test_results'') = 0" by code_simp+
  moreover have "length (tr_cases r) = 1" using r(3) by (metis length_map length_Cons list.size(3) One_nat_def)
  ultimately have "map shown_result (get_test_results (tr_id run) c') =
      map (\<lambda>t. map Some [c_string (tc_suite t), c_string (tc_name t), status_to_string (tc_status t), c_string (tc_file t)]) (tr_cases run)"
    using test_run_recorded [OF healthy_demo(1) _ demo_project_values(3) run _ _ _ same(2)]
    by (simp add: demo_project_io fw same(1) max_rowid_def)
  moreover obtain t where "tr_cases r = [t]" using r(3) by (auto simp: map_eq_Cons_conv)
  ultimately show ?thesis using r(2,3) run by (auto simp: same(1) c_string_def status_to_string_def)
qed

end
