(* ===== verification/Brain_Matcher.thy ===== *)
theory Brain_Matcher
  imports Brain_Patterns Brain_Planner Workspace_Records Nexus_Brain_Store
begin

text \<open>
  The pattern matcher of the brain (\<open>src/modules/brain/src/pattern_matcher.cpp\<close>) over the store: reading patterns, finding
  those that match a failure, finding similar failures and learning a pattern from them. \<open>store\<close> is \<^const>\<open>None\<close> for a
  null pointer, a result of \<^const>\<open>None\<close> is an exception of \<open>stoi\<close>, \<open>stoll\<close> or \<open>at\<close>. \<open>std::regex\<close> on patterns from the database
  is the argument \<open>rx\<close> (\<^const>\<open>None\<close> for \<open>regex_error\<close>), \<open>std::sort\<close> the argument \<open>srt\<close>, because it is not stable. Scores are rational.
\<close>

section \<open>Patterns\<close>

record failure_pattern =
  fp_id :: int
  fp_signature :: string
  fp_name :: string
  fp_failure_type :: string
  fp_error_regex :: string
  fp_occurrence_count :: int
  fp_first_seen :: int
  fp_last_seen :: int
  fp_failure_ids :: "int list"
  fp_trigger_conditions_json :: string
  fp_resolution_strategies_json :: string

definition row_count :: "(string, string) std_map \<Rightarrow> string \<Rightarrow> int option" where
  "row_count m k = Option.bind (map_get m k) stoi"

definition parse_pattern :: "(string, string) std_map \<Rightarrow> failure_pattern option" where
  "parse_pattern m = do {
     i \<leftarrow> row_num m ''id'';
     sig \<leftarrow> map_get m ''pattern_signature'';
     name \<leftarrow> map_get m ''pattern_name'';
     ftype \<leftarrow> map_get m ''failure_type'';
     n \<leftarrow> row_count m ''occurrence_count'';
     first \<leftarrow> row_num m ''first_seen'';
     last \<leftarrow> row_num m ''last_seen'';
     ids \<leftarrow> (case map_get m ''failure_ids_json'' of None \<Rightarrow> Some [] | Some j \<Rightarrow> parse_failure_ids_json j);
     Some \<lparr>fp_id = i, fp_signature = sig, fp_name = name, fp_failure_type = ftype, fp_error_regex = row_text m ''error_regex'',
       fp_occurrence_count = n, fp_first_seen = first, fp_last_seen = last, fp_failure_ids = ids,
       fp_trigger_conditions_json = row_text m ''trigger_conditions_json'',
       fp_resolution_strategies_json = row_text m ''resolution_strategies_json''\<rparr> }"

definition parse_optional :: "(string, string) std_map option \<Rightarrow> failure_pattern option option" where
  "parse_optional row = (case row of None \<Rightarrow> Some None | Some m \<Rightarrow> map_option Some (parse_pattern m))"

definition get_pattern :: "int \<Rightarrow> sqlite option \<Rightarrow> failure_pattern option option" where
  "get_pattern i store = (case store of None \<Rightarrow> Some None | Some c \<Rightarrow> parse_optional (Nexus_Brain_Store.get_pattern i c))"

definition get_pattern_by_signature :: "int \<Rightarrow> string \<Rightarrow> sqlite option \<Rightarrow> failure_pattern option option" where
  "get_pattern_by_signature pid sig store =
     (case store of None \<Rightarrow> Some None | Some c \<Rightarrow> parse_optional (Nexus_Brain_Store.get_pattern_by_signature pid sig c))"

definition list_patterns :: "int \<Rightarrow> int \<Rightarrow> sqlite option \<Rightarrow> failure_pattern list option" where
  "list_patterns pid n store =
     (case store of None \<Rightarrow> Some [] | Some c \<Rightarrow> those (map parse_pattern (Nexus_Brain_Store.list_patterns pid n c)))"

definition update_pattern_stats :: "int \<Rightarrow> int \<Rightarrow> sqlite option \<Rightarrow> sqlite option \<times> bool" where
  "update_pattern_stats now i store =
     (case store of None \<Rightarrow> (None, False) | Some c \<Rightarrow> map_prod Some id (update_pattern_statistics now i 1 c))"

definition link_failure_to_pattern :: "int \<Rightarrow> int \<Rightarrow> int \<Rightarrow> sqlite option \<Rightarrow> sqlite option \<times> bool" where
  "link_failure_to_pattern now fid i store =
     (case store of None \<Rightarrow> (None, False) | Some c \<Rightarrow> map_prod Some id (Nexus_Brain_Store.link_failure_to_pattern now fid i c))"

section \<open>Matching a failure\<close>

definition matches_error_pattern :: "(string \<Rightarrow> string \<Rightarrow> bool option) \<Rightarrow> string \<Rightarrow> string \<Rightarrow> bool" where
  "matches_error_pattern rx error pattern_regex =
     (if pattern_regex = [] then False else case rx pattern_regex error of None \<Rightarrow> False | Some b \<Rightarrow> b)"

definition pattern_matches :: "(string \<Rightarrow> string \<Rightarrow> bool option) \<Rightarrow> string \<Rightarrow> string \<Rightarrow> string \<Rightarrow> failure_pattern \<Rightarrow> bool" where
  "pattern_matches rx sig ftype msg p \<longleftrightarrow>
     (if ftype \<noteq> [] \<and> fp_failure_type p \<noteq> ftype then False
      else fp_signature p = sig \<or> (fp_error_regex p \<noteq> [] \<and> msg \<noteq> [] \<and> matches_error_pattern rx msg (fp_error_regex p)))"

definition find_matching_patterns ::
  "(string \<Rightarrow> string \<Rightarrow> bool option) \<Rightarrow> int \<Rightarrow> string \<Rightarrow> string \<Rightarrow> string \<Rightarrow> sqlite option \<Rightarrow> failure_pattern list option" where
  "find_matching_patterns rx pid sig ftype msg store = map_option (filter (pattern_matches rx sig ftype msg)) (list_patterns pid 1000 store)"

section \<open>Similar failures\<close>

definition compute_similarity :: "string \<Rightarrow> string \<Rightarrow> rat" where
  "compute_similarity error_a error_b =
     (let lev_sim = levenshtein_similarity error_a error_b; tok_sim = token_similarity error_a error_b
      in 7 / 10 * tok_sim + 3 / 10 * lev_sim)"

record similar_failure =
  sf_failure_id :: int
  sf_similarity_score :: rat
  sf_error_message :: string
  sf_error_signature :: string
  sf_timestamp :: int
  sf_was_resolved :: bool
  sf_resolution_type :: string

definition similar_of_row :: "string \<Rightarrow> (string, string) std_map \<Rightarrow> similar_failure option" where
  "similar_of_row error_message m = do {
     i \<leftarrow> row_num m ''id'';
     sig \<leftarrow> map_get m ''error_signature'';
     msg \<leftarrow> map_get m ''error_message'';
     ts \<leftarrow> row_num m ''timestamp'';
     res \<leftarrow> map_get m ''resolved'';
     rtype \<leftarrow> map_get m ''resolution_type'';
     Some \<lparr>sf_failure_id = i, sf_similarity_score = compute_similarity error_message msg, sf_error_message = msg,
       sf_error_signature = sig, sf_timestamp = ts, sf_was_resolved = (res = ''1''), sf_resolution_type = rtype\<rparr> }"

text \<open>The limit is compared as a \<open>size_t\<close>, so a negative one cuts nothing.\<close>

definition find_similar_failures ::
  "(similar_failure list \<Rightarrow> similar_failure list) \<Rightarrow> int \<Rightarrow> string \<Rightarrow> string \<Rightarrow> int \<Rightarrow> sqlite option \<Rightarrow> similar_failure list option" where
  "find_similar_failures srt pid sig msg limit store =
     (case store of
        None \<Rightarrow> Some []
      | Some c \<Rightarrow> do {
          all \<leftarrow> those (map (similar_of_row msg) (Nexus_Workspace_Store.find_similar_failures pid sig (limit * 2) c));
          let similar = srt (filter (\<lambda>s. sf_similarity_score s \<ge> 1 / 2) all);
          Some (if limit \<ge> 0 \<and> length similar > nat limit then take (nat limit) similar else similar) })"

section \<open>Learning\<close>

definition keyword_names :: "(string list \<times> string) list" where
  "keyword_names = [([''undefined reference''], ''Undefined Reference''), ([''no such file''], ''Missing File''),
     ([''cannot find''], ''Missing Dependency''), ([''permission denied''], ''Permission Error''),
     ([''segmentation fault'', ''sigsegv''], ''Segmentation Fault''), ([''assertion'', ''assert''], ''Assertion Failure''),
     ([''timeout''], ''Timeout Error''), ([''out of memory'', ''oom''], ''Out of Memory'')]"

definition generate_pattern_name :: "string list \<Rightarrow> string \<Rightarrow> string" where
  "generate_pattern_name error_messages failure_type =
     (case error_messages of
        [] \<Rightarrow> failure_type @ '' Pattern''
      | first_error # _ \<Rightarrow>
          (case find (\<lambda>(keys, _). list_ex (\<lambda>k. contains k (map tolower first_error)) keys) keyword_names of
             Some (_, name) \<Rightarrow> name
           | None \<Rightarrow>
               let ws = take 3 (filter (\<lambda>w. map tolower w \<notin> {''error'', ''error:'', ''fatal'', ''warning''} \<and> length w > 3) (words first_error))
               in if ws \<noteq> [] then join_with '' '' ws else failure_type @ '' Pattern''))"

definition collect_messages :: "int list \<Rightarrow> sqlite \<Rightarrow> string list option" where
  "collect_messages fids c = map_option concat (those (map (\<lambda>fid. case get_failure fid c of
       None \<Rightarrow> Some [] | Some m \<Rightarrow> map_option (\<lambda>t. [t]) (map_get m ''error_message'')) fids))"

definition learn_pattern :: "int \<Rightarrow> int \<Rightarrow> int list \<Rightarrow> string \<Rightarrow> sqlite option \<Rightarrow> (sqlite option \<times> int) option" where
  "learn_pattern now pid fids pattern_name store =
     (case (store, fids) of
        (None, _) \<Rightarrow> Some (None, 0)
      | (Some c, []) \<Rightarrow> Some (Some c, 0)
      | (Some c, fid # _) \<Rightarrow>
          (case get_failure fid c of
             None \<Rightarrow> Some (Some c, 0)
           | Some m \<Rightarrow> do {
               sig \<leftarrow> map_get m ''error_signature'';
               ftype \<leftarrow> map_get m ''failure_type'';
               existing \<leftarrow> get_pattern_by_signature pid sig store;
               (case existing of
                  Some p \<Rightarrow> Some (fst (update_pattern_stats now (fp_id p) store), fp_id p)
                | None \<Rightarrow> do {
                    name \<leftarrow> (if pattern_name = [] then map_option (\<lambda>ms. generate_pattern_name ms ftype) (collect_messages fids c)
                            else Some pattern_name);
                    msg \<leftarrow> map_get m ''error_message'';
                    (case record_pattern now pid sig name ftype (extract_error_pattern msg) ''{}'' c of
                       (c', i) \<Rightarrow> Some (if i > 0 then fold (\<lambda>fid st. fst (link_failure_to_pattern now fid i st)) fids (Some c') else Some c', i)) }) }))"

section \<open>What rows read back as\<close>

abbreviation patterns_of :: "sqlite \<Rightarrow> sql_row list" where
  "patterns_of c \<equiv> trows (tabs c ''brain_failure_patterns'')"

definition pattern_of :: "sql_row \<Rightarrow> failure_pattern" where
  "pattern_of r = \<lparr>fp_id = get_num r ''id'', fp_signature = get_text r ''pattern_signature'', fp_name = get_text r ''pattern_name'',
     fp_failure_type = get_text r ''failure_type'', fp_error_regex = get_text r ''error_regex'',
     fp_occurrence_count = get_num r ''occurrence_count'', fp_first_seen = get_num r ''first_seen'', fp_last_seen = get_num r ''last_seen'',
     fp_failure_ids = the (parse_failure_ids_json (get_text r ''failure_ids_json'')),
     fp_trigger_conditions_json = get_text r ''trigger_conditions_json'',
     fp_resolution_strategies_json = get_text r ''resolution_strategies_json''\<rparr>"

text \<open>A row whose counter and id list are what the store writes: the id list is never written.\<close>

definition pattern_row_ok :: "sql_row \<Rightarrow> bool" where
  "pattern_row_ok r \<longleftrightarrow> val r ''failure_ids_json'' = VNull \<and>
     (case val r ''occurrence_count'' of VInt n \<Rightarrow> 0 \<le> n \<and> n < 2 ^ 31 | _ \<Rightarrow> False)"

lemma no_failure_ids: "parse_failure_ids_json [] = Some []"
  by code_simp

lemma pattern_row_okE:
  assumes "pattern_row_ok r"
  obtains n where "val r ''occurrence_count'' = VInt n" "0 \<le> n" "n < 2 ^ 31" "get_num r ''occurrence_count'' = n"
    "stoi (to_string n) = Some n" "get_text r ''failure_ids_json'' = []"
proof -
  obtain n where n: "val r ''occurrence_count'' = VInt n" "0 \<le> n" "n < 2 ^ 31" "val r ''failure_ids_json'' = VNull"
    using assms by (auto simp: pattern_row_ok_def split: sql_value.splits)
  then show ?thesis
    using that [of n] int64_row [OF n(1)] stoi_to_string [of n] by (simp add: get_text_def row_get_def)
qed

lemma parse_pattern_row: "pattern_row_ok r \<Longrightarrow> parse_pattern (row_map pattern_columns r) = Some (pattern_of r)"
  by (erule pattern_row_okE)
    (simp add: parse_pattern_def row_num_def row_text_def row_count_def map_get_row_map pattern_columns_def pattern_of_def no_failure_ids)

text \<open>\<open>list_patterns\<close> selects neither the regex nor the JSON columns.\<close>

lemma parse_listed_pattern:
  "parse_pattern (row_map listed_pattern_columns r) = Some p \<Longrightarrow> fp_error_regex p = []"
  by (auto simp: parse_pattern_def row_text_def map_get_row_map listed_pattern_columns_def Option.bind_eq_Some_conv split: if_splits)

lemma those_Some_mem: "those (map f xs) = Some ys \<Longrightarrow> y \<in> set ys \<Longrightarrow> \<exists>x\<in>set xs. f x = Some y"
  by (induction xs arbitrary: ys) (auto split: option.splits)

lemma listed_patterns_no_regex: "list_patterns pid n store = Some ps \<Longrightarrow> p \<in> set ps \<Longrightarrow> fp_error_regex p = []"
  unfolding list_patterns_def Nexus_Brain_Store.list_patterns_def
  by (cases store) (auto dest!: those_Some_mem parse_listed_pattern)

text \<open>The error texts kept with the patterns are never used: whatever the regular expression engine answers, a failure matches
exactly the patterns that have its signature, and its type if one is given.\<close>

lemma patterns_match_by_signature_only:
  "find_matching_patterns rx pid sig ftype msg store =
     map_option (filter (\<lambda>p. fp_signature p = sig \<and> (ftype = [] \<or> fp_failure_type p = ftype))) (list_patterns pid 1000 store)"
proof (cases "list_patterns pid 1000 store")
  case (Some ps)
  then have "pattern_matches rx sig ftype msg p \<longleftrightarrow> fp_signature p = sig \<and> (ftype = [] \<or> fp_failure_type p = ftype)" if "p \<in> set ps" for p
    using listed_patterns_no_regex [OF Some that] by (auto simp: pattern_matches_def)
  with Some show ?thesis by (simp add: find_matching_patterns_def cong: filter_cong)
qed (simp add: find_matching_patterns_def)

section \<open>One pattern for each signature\<close>

definition pattern_at :: "int \<Rightarrow> string \<Rightarrow> sqlite \<Rightarrow> sql_row option" where
  "pattern_at pid sig c = by_key [''project_id'', ''pattern_signature''] [VInt pid, VText (c_string sig)] (patterns_of c)"

lemma patterns_table: "healthy c \<Longrightarrow> table_ok brain_failure_patterns_table (tabs c)"
  by (rule healthy_table) simp_all

lemma stored_pattern_by_signature:
  assumes "healthy c"
  shows "Nexus_Brain_Store.get_pattern_by_signature pid sig c = map_option (row_map pattern_columns) (pattern_at pid sig c)"
proof -
  have "(\<lambda>r. eq_int ''project_id'' pid r \<and> eq_text ''pattern_signature'' sig r) =
      (\<lambda>r. map (Nexus_Sql.cell (snd r)) [''project_id'', ''pattern_signature''] = [VInt pid, VText (c_string sig)])"
    by (auto simp: val_def)
  moreover have "visits_all c" "db_open c" using assms by (simp_all add: healthy_def)
  ultimately show ?thesis
    using select_by_key [OF _ _ patterns_table [OF assms], of "''brain_failure_patterns''" "[''project_id'', ''pattern_signature'']" "[VInt pid, VText (c_string sig)]"]
    by (simp add: Nexus_Brain_Store.get_pattern_by_signature_def pattern_at_def first_row_def brain_failure_patterns_table_def split: option.split)
qed

definition counted_row :: "int \<Rightarrow> int \<Rightarrow> int \<Rightarrow> sql_row \<Rightarrow> sql_row" where
  "counted_row now i delta r = (if fst r = i then (fst r, set_cells brain_failure_patterns_table
     [(''occurrence_count'', sql_plus (val r ''occurrence_count'') delta), (''last_seen'', bind_int now)] (snd r)) else r)"

lemma update_statistics_effect:
  assumes "healthy c" "\<not> io_fails c (stmts c)"
  shows "snd (update_pattern_statistics now i delta c)"
    "tabs (fst (update_pattern_statistics now i delta c)) = (tabs c)(''brain_failure_patterns'' :=
       (tabs c ''brain_failure_patterns'')\<lparr>trows := map (counted_row now i delta) (patterns_of c)\<rparr>)"
    "healthy (fst (update_pattern_statistics now i delta c))" "io_fails (fst (update_pattern_statistics now i delta c)) = io_fails c"
proof -
  let ?f = "\<lambda>r. [(''occurrence_count'', sql_plus (val r ''occurrence_count'') delta), (''last_seen'', bind_int now)]"
  have "exec (Update ''brain_failure_patterns'' (eq_int ''id'' i) ?f) c = (c\<lparr>stmts := stmts c + 1,
     tabs := (tabs c)(''brain_failure_patterns'' := (tabs c ''brain_failure_patterns'')
       \<lparr>trows := updated_rows brain_failure_patterns_table (eq_int ''id'' i) ?f (patterns_of c)\<rparr>)\<rparr>, True)"
    by (rule exec_update_plain [OF assms])
      (auto simp: brain_failure_patterns_table_def column_defs bind_int_def bind_def find_tables)
  moreover have "updated_rows brain_failure_patterns_table (eq_int ''id'' i) ?f (patterns_of c) = map (counted_row now i delta) (patterns_of c)"
    by (simp add: updated_rows_def counted_row_def val_def)
  ultimately show "snd (update_pattern_statistics now i delta c)"
    "tabs (fst (update_pattern_statistics now i delta c)) = (tabs c)(''brain_failure_patterns'' :=
       (tabs c ''brain_failure_patterns'')\<lparr>trows := map (counted_row now i delta) (patterns_of c)\<rparr>)"
    "io_fails (fst (update_pattern_statistics now i delta c)) = io_fails c"
    by (simp_all add: update_pattern_statistics_def)
  show "healthy (fst (update_pattern_statistics now i delta c))" using assms(1) by (simp add: update_pattern_statistics_def)
qed

lemma counted_row_cells:
  assumes "list_all (\<lambda>k. k \<in> set (map cname (columns brain_failure_patterns_table))) [k]" "fst r = i"
  shows "val (counted_row now i delta r) k =
     (if k = ''last_seen'' then VInt now
      else if k = ''occurrence_count'' then coerce AInteger (sql_plus (val r ''occurrence_count'') delta) else val r k)"
  using assms by (auto simp: counted_row_def val_def set_cells_def brain_failure_patterns_table_def column_defs Nexus_Sql.cell_def)

lemma counted_row_other: "fst r \<noteq> i \<Longrightarrow> counted_row now i delta r = r"
  by (simp add: counted_row_def)

lemma fst_counted_row [simp]: "fst (counted_row now i delta r) = fst r"
  by (simp add: counted_row_def)

lemma counted_row_key: "map (Nexus_Sql.cell (snd (counted_row now i delta r))) [''project_id'', ''pattern_signature''] =
    map (Nexus_Sql.cell (snd r)) [''project_id'', ''pattern_signature'']"
proof (cases "fst r = i")
  case True
  then have "val (counted_row now i delta r) ''project_id'' = val r ''project_id''"
    "val (counted_row now i delta r) ''pattern_signature'' = val r ''pattern_signature''"
    by (simp_all add: counted_row_cells brain_failure_patterns_table_def column_defs)
  then show ?thesis by (simp add: val_def)
qed (simp add: counted_row_other)

lemma pattern_of_counted_row:
  assumes "pattern_row_ok r" "val r ''occurrence_count'' = VInt n" "0 \<le> n + delta" "n + delta < 2 ^ 31" "- (2 ^ 63) \<le> now" "now < 2 ^ 63"
  shows "pattern_of (counted_row now (fst r) delta r) = (pattern_of r)\<lparr>fp_occurrence_count := n + delta, fp_last_seen := now\<rparr> \<and>
    val (counted_row now (fst r) delta r) ''occurrence_count'' = VInt (n + delta) \<and>
    val (counted_row now (fst r) delta r) ''failure_ids_json'' = VNull"
proof -
  let ?r = "counted_row now (fst r) delta r"
  have cols: "val ?r k = (if k = ''last_seen'' then VInt now else if k = ''occurrence_count'' then VInt (n + delta) else val r k)"
    if "k \<in> {''pattern_signature'', ''pattern_name'', ''failure_type'', ''error_regex'', ''trigger_conditions_json'', ''occurrence_count'',
      ''first_seen'', ''last_seen'', ''failure_ids_json'', ''resolution_strategies_json''}" for k
  proof -
    have "list_all (\<lambda>k. k \<in> set (map cname (columns brain_failure_patterns_table))) [k]"
      using that by (auto simp: brain_failure_patterns_table_def column_defs)
    from counted_row_cells [OF this, of r "fst r" now delta] show ?thesis using assms(2) by (simp add: sql_plus_def)
  qed
  have same: "get_text ?r k = get_text r k \<and> get_num ?r k = get_num r k" if "val ?r k = val r k" for k
    using that by (simp add: get_text_def get_num_def row_get_int_def row_get_def)
  have "get_num ?r ''occurrence_count'' = n + delta" "get_num ?r ''last_seen'' = now"
    using int64_row [of ?r "''occurrence_count''" "n + delta"] int64_row [of ?r "''last_seen''" now] cols assms(3-6) by simp_all
  moreover have "val ?r ''id'' = val r ''id''" by (simp add: val_def)
  ultimately show ?thesis
    using cols same assms(1) by (simp add: pattern_of_def pattern_row_ok_def)
qed

lemma pattern_at_updated:
  assumes "healthy c" "\<not> io_fails c (stmts c)"
  shows "pattern_at pid sig (fst (update_pattern_statistics now i delta c)) = map_option (counted_row now i delta) (pattern_at pid sig c)"
proof -
  let ?us = "[''project_id'', ''pattern_signature'']" and ?kv = "[VInt pid, VText (c_string sig)]"
  have "\<forall>r\<in>set (patterns_of c). (map (Nexus_Sql.cell (snd (counted_row now i delta r))) ?us = ?kv) = (map (Nexus_Sql.cell (snd r)) ?us = ?kv)"
    unfolding counted_row_key by simp
  then have "find (\<lambda>r. map (Nexus_Sql.cell (snd r)) ?us = ?kv) (map (counted_row now i delta) (patterns_of c)) =
      map_option (counted_row now i delta) (find (\<lambda>r. map (Nexus_Sql.cell (snd r)) ?us = ?kv) (patterns_of c))"
    by (rule find_map_same)
  then show ?thesis using update_statistics_effect(2) [OF assms] by (simp add: pattern_at_def by_key_def)
qed

definition pattern_cells :: "int \<Rightarrow> int \<Rightarrow> string \<Rightarrow> string \<Rightarrow> string \<Rightarrow> string \<Rightarrow> string \<Rightarrow> cells" where
  "pattern_cells now pid sig name ftype regex conditions =
     [(''project_id'', VInt pid), (''pattern_signature'', VText (c_string sig)), (''pattern_name'', VText (c_string name)),
      (''failure_type'', VText (c_string ftype)), (''error_regex'', VText (c_string regex)),
      (''trigger_conditions_json'', VText (c_string conditions)), (''occurrence_count'', VInt 1), (''first_seen'', VInt now),
      (''last_seen'', VInt now), (''failure_ids_json'', VNull), (''resolution_strategies_json'', VNull)]"

lemma record_pattern_effect:
  assumes "healthy c" "\<not> io_fails c (stmts c)" "pid \<in> set (ids_of (tabs c ''projects''))" "pattern_at pid sig c = None"
    "seq (tabs c ''brain_failure_patterns'') < max_rowid"
  shows "snd (record_pattern now pid sig name ftype regex conditions c) = seq (tabs c ''brain_failure_patterns'') + 1"
    "tabs (fst (record_pattern now pid sig name ftype regex conditions c)) =
       append_row ''brain_failure_patterns'' (pattern_cells now pid sig name ftype regex conditions) (tabs c)"
    "healthy (fst (record_pattern now pid sig name ftype regex conditions c))"
    "io_fails (fst (record_pattern now pid sig name ftype regex conditions c)) = io_fails c"
proof -
  let ?vs = "[(''project_id'', bind_int pid), (''pattern_signature'', Nexus_Sql.bind sig), (''pattern_name'', Nexus_Sql.bind name),
     (''failure_type'', Nexus_Sql.bind ftype), (''error_regex'', Nexus_Sql.bind regex), (''trigger_conditions_json'', Nexus_Sql.bind conditions),
     (''occurrence_count'', VInt 1), (''first_seen'', bind_int now), (''last_seen'', bind_int now)]"
  let ?cs = "pattern_cells now pid sig name ftype regex conditions"
  have cs: "new_cells brain_failure_patterns_table ?vs = ?cs"
    by (simp add: new_cells_def brain_failure_patterns_table_def column_defs pattern_cells_def)
  have "\<not> same_key [''project_id'', ''pattern_signature''] ?cs (snd r)" if "r \<in> set (patterns_of c)" for r
    using assms(4) that by (auto simp: pattern_at_def by_key_def find_None_all same_key_def pattern_cells_def Nexus_Sql.cell_def)
  then have "accepts brain_failure_patterns_table ?vs c"
    using assms(1-3,5) unfolding accepts_def cs
    by (simp add: healthy_def not_null_ok_def unique_ok_def fkeys_ok_def refers_def brain_failure_patterns_table_def column_defs
        list_all_iff) (simp add: pattern_cells_def Nexus_Sql.cell_def)
  from insert_id_accepted [OF this, of "''brain_failure_patterns''" 0, simplified]
  show "snd (record_pattern now pid sig name ftype regex conditions c) = seq (tabs c ''brain_failure_patterns'') + 1"
    "tabs (fst (record_pattern now pid sig name ftype regex conditions c)) =
       append_row ''brain_failure_patterns'' (pattern_cells now pid sig name ftype regex conditions) (tabs c)"
    "healthy (fst (record_pattern now pid sig name ftype regex conditions c))"
    using find_tables assms(1) by (simp_all add: record_pattern_def cs)
  show "io_fails (fst (record_pattern now pid sig name ftype regex conditions c)) = io_fails c"
    by (simp add: record_pattern_def)
qed

section \<open>Learning keeps one pattern for each signature\<close>

text \<open>The pattern of a signature after it was learned once more: counted one higher, or new.\<close>

definition pattern_learned :: "int \<Rightarrow> int \<Rightarrow> string \<Rightarrow> sqlite \<Rightarrow> sqlite \<Rightarrow> int \<Rightarrow> bool" where
  "pattern_learned now pid sig c c' i \<longleftrightarrow>
     (\<exists>p. get_pattern_by_signature pid sig (Some c') = Some (Some p) \<and> fp_id p = i \<and> fp_signature p = c_string sig \<and> fp_last_seen p = now \<and>
        fp_occurrence_count p = (case pattern_at pid sig c of None \<Rightarrow> 1 | Some r \<Rightarrow> fp_occurrence_count (pattern_of r) + 1))"

lemma get_pattern_row:
  assumes "healthy c" "pattern_at pid sig c = Some r" "pattern_row_ok r"
  shows "get_pattern_by_signature pid sig (Some c) = Some (Some (pattern_of r))"
  using stored_pattern_by_signature [OF assms(1), of pid sig] assms(2) parse_pattern_row [OF assms(3)]
  by (simp add: get_pattern_by_signature_def parse_optional_def)

lemma pattern_at_props:
  assumes "healthy c" "pattern_at pid sig c = Some r"
  shows "r \<in> set (patterns_of c)" "fp_id (pattern_of r) = fst r" "fp_signature (pattern_of r) = c_string sig" "0 < fst r"
proof -
  have r: "r \<in> set (patterns_of c)" "map (Nexus_Sql.cell (snd r)) [''project_id'', ''pattern_signature''] = [VInt pid, VText (c_string sig)]"
    using find_Some_in [of _ "patterns_of c" r] assms(2) unfolding pattern_at_def by_key_def by blast+
  then show "r \<in> set (patterns_of c)" by simp
  have ok: "db_ok nexus_schema (tabs c)" using assms(1) by (simp add: healthy_def conn_ok_def)
  note id = get_num_id [OF ok, of brain_failure_patterns_table r] row_id_range [OF ok, of brain_failure_patterns_table r]
  show "fp_id (pattern_of r) = fst r" "0 < fst r" using id r(1) by (simp_all add: pattern_of_def)
  have "val r ''pattern_signature'' = VText (c_string sig)" using r(2) by (simp add: val_def)
  then show "fp_signature (pattern_of r) = c_string sig" by (simp add: pattern_of_def)
qed

lemma count_of_row: "pattern_row_ok r \<Longrightarrow> \<exists>n. val r ''occurrence_count'' = VInt n \<and> fp_occurrence_count (pattern_of r) = n \<and> 0 \<le> n \<and> n < 2 ^ 31"
  by (erule pattern_row_okE) (simp add: pattern_of_def)

lemma linked_pattern:
  assumes "healthy c" "\<forall>n. \<not> io_fails c n" "pattern_at pid sig c = Some r" "pattern_row_ok r" "fp_last_seen (pattern_of r) = now"
    "- (2 ^ 63) \<le> now" "now < 2 ^ 63"
  shows "\<exists>c' r'. fold (\<lambda>fid st. fst (link_failure_to_pattern now fid (fst r) st)) fids (Some c) = Some c' \<and> healthy c' \<and>
     pattern_at pid sig c' = Some r' \<and> pattern_row_ok r' \<and> pattern_of r' = pattern_of r"
  using assms
proof (induction fids arbitrary: c r)
  case (Cons fid fids)
  let ?c = "fst (Nexus_Brain_Store.link_failure_to_pattern now fid (fst r) c)" and ?r = "counted_row now (fst r) 0 r"
  have io: "\<not> io_fails c (stmts c)" using Cons.prems by simp
  note eff = update_statistics_effect [OF Cons.prems(1) io, of now "fst r" 0]
  obtain n where n: "val r ''occurrence_count'' = VInt n" "fp_occurrence_count (pattern_of r) = n" "0 \<le> n" "n < 2 ^ 31"
    using count_of_row [OF Cons.prems(4)] by blast
  have p: "pattern_of ?r = pattern_of r" "pattern_row_ok ?r"
    using pattern_of_counted_row [OF Cons.prems(4) n(1), of 0 now] Cons.prems(5-7) n(2-4) by (simp_all add: pattern_row_ok_def)
  have "pattern_at pid sig ?c = Some ?r"
    using pattern_at_updated [OF Cons.prems(1) io, of pid sig now "fst r" 0] Cons.prems(3)
    by (simp add: Nexus_Brain_Store.link_failure_to_pattern_def)
  then have "\<exists>c' r'. fold (\<lambda>fid st. fst (link_failure_to_pattern now fid (fst ?r) st)) fids (Some ?c) = Some c' \<and> healthy c' \<and>
     pattern_at pid sig c' = Some r' \<and> pattern_row_ok r' \<and> pattern_of r' = pattern_of ?r"
    using eff Cons.prems p by (intro Cons.IH) (simp_all add: Nexus_Brain_Store.link_failure_to_pattern_def)
  then show ?case by (simp add: link_failure_to_pattern_def p(1))
qed auto

lemma failure_row_cases: "get_failure fid c = None \<or> (\<exists>r. get_failure fid c = Some (row_map failure_columns r))"
  by (auto simp: get_failure_def first_row_def split: list.split)

lemma failure_row_values:
  "map_get (row_map failure_columns r) ''error_signature'' = Some (get_text r ''error_signature'')"
  "map_get (row_map failure_columns r) ''failure_type'' = Some (get_text r ''failure_type'')"
  "map_get (row_map failure_columns r) ''error_message'' = Some (get_text r ''error_message'')"
  by (simp_all add: map_get_row_map failure_columns_def)

lemma collect_messages_total: "collect_messages fids c \<noteq> None"
proof -
  have "\<exists>ms. (case get_failure fid c of None \<Rightarrow> Some [] | Some m \<Rightarrow> map_option (\<lambda>t. [t]) (map_get m ''error_message'')) = Some ms" for fid
    using failure_row_cases [of fid c] by (auto simp: failure_row_values)
  then have "those (map (\<lambda>fid. case get_failure fid c of None \<Rightarrow> Some [] | Some m \<Rightarrow> map_option (\<lambda>t. [t]) (map_get m ''error_message'')) fids) \<noteq> None"
    by (induction fids) (auto split: option.splits)
  then show ?thesis by (auto simp: collect_messages_def)
qed

lemma learned_again:
  assumes "healthy c" "\<forall>n. \<not> io_fails c n" "pattern_at pid sig c = Some r" "pattern_row_ok r" "- (2 ^ 63) \<le> now" "now < 2 ^ 63"
    "fp_occurrence_count (pattern_of r) + 1 < 2 ^ 31"
  shows "\<exists>c' r'. fst (update_pattern_stats now (fst r) (Some c)) = Some c' \<and> healthy c' \<and> (\<forall>n. \<not> io_fails c' n) \<and>
    pattern_at pid sig c' = Some r' \<and> fst r' = fst r \<and> pattern_row_ok r' \<and> fp_last_seen (pattern_of r') = now \<and>
    fp_occurrence_count (pattern_of r') = fp_occurrence_count (pattern_of r) + 1"
proof -
  let ?c = "fst (update_pattern_statistics now (fst r) 1 c)" and ?r = "counted_row now (fst r) 1 r"
  have io: "\<not> io_fails c (stmts c)" using assms by simp
  note eff = update_statistics_effect [OF assms(1) io, of now "fst r" 1]
  obtain n where n: "val r ''occurrence_count'' = VInt n" "fp_occurrence_count (pattern_of r) = n" "0 \<le> n" "n < 2 ^ 31"
    using count_of_row [OF assms(4)] by blast
  have p: "pattern_of ?r = (pattern_of r)\<lparr>fp_occurrence_count := n + 1, fp_last_seen := now\<rparr>"
    "val ?r ''occurrence_count'' = VInt (n + 1)" "val ?r ''failure_ids_json'' = VNull"
    using pattern_of_counted_row [OF assms(4) n(1), of 1 now] n(2,3) assms(5-7) by simp_all
  have "pattern_at pid sig ?c = Some ?r"
    using pattern_at_updated [OF assms(1) io, of pid sig now "fst r" 1] assms(3) by simp
  moreover have "pattern_row_ok ?r" using p(2,3) n(2,3) assms(7) by (simp add: pattern_row_ok_def)
  moreover have "fst (update_pattern_stats now (fst r) (Some c)) = Some ?c" by (simp add: update_pattern_stats_def)
  ultimately show ?thesis using eff(3,4) p(1) n(2) assms(2) by (intro exI [of _ ?c] exI [of _ ?r]) simp
qed

lemma learned_new:
  fixes name ftype regex conditions :: string
  assumes "healthy c" "\<forall>n. \<not> io_fails c n" "pid \<in> set (ids_of (tabs c ''projects''))" "pattern_at pid sig c = None"
    "seq (tabs c ''brain_failure_patterns'') < max_rowid" "- (2 ^ 63) \<le> now" "now < 2 ^ 63"
  defines "q \<equiv> record_pattern now pid sig name ftype regex conditions c"
  shows "healthy (fst q) \<and> (\<forall>n. \<not> io_fails (fst q) n) \<and> 0 < snd q \<and>
    (\<exists>r. pattern_at pid sig (fst q) = Some r \<and> fst r = snd q \<and> pattern_row_ok r \<and> fp_last_seen (pattern_of r) = now \<and>
       fp_occurrence_count (pattern_of r) = 1 \<and> fp_name (pattern_of r) = c_string name \<and> fp_failure_type (pattern_of r) = c_string ftype)"
proof -
  have io: "\<not> io_fails c (stmts c)" using assms(2) by simp
  note eff = record_pattern_effect [OF assms(1) io assms(3-5), of now name ftype regex conditions]
  let ?i = "seq (tabs c ''brain_failure_patterns'') + 1"
  let ?r = "(?i, pattern_cells now pid sig name ftype regex conditions)"
  have vals: "val ?r ''last_seen'' = VInt now" "val ?r ''occurrence_count'' = VInt 1" "val ?r ''failure_ids_json'' = VNull"
    "val ?r ''pattern_name'' = VText (c_string name)" "val ?r ''failure_type'' = VText (c_string ftype)"
    "map (Nexus_Sql.cell (snd ?r)) [''project_id'', ''pattern_signature''] = [VInt pid, VText (c_string sig)]"
    by (simp_all add: val_def pattern_cells_def Nexus_Sql.cell_def)
  have "pattern_at pid sig (fst q) = Some ?r"
    using eff(2) assms(4) vals(6) by (simp add: q_def pattern_at_def by_key_def append_row_def Let_def find_append_single)
  moreover have "pattern_row_ok ?r" using vals(2,3) by (simp add: pattern_row_ok_def)
  moreover have "fp_last_seen (pattern_of ?r) = now" "fp_occurrence_count (pattern_of ?r) = 1"
    using int64_row [OF vals(1) assms(6,7)] int64_row [OF vals(2)] by (simp_all add: pattern_of_def)
  moreover have "0 \<le> seq (tabs c ''brain_failure_patterns'')"
    using patterns_table [OF assms(1)] by (simp add: table_ok_def Let_def)
  ultimately show ?thesis using eff(1,3,4) assms(2) vals(4,5) unfolding q_def by (simp add: pattern_of_def)
qed

lemma linked_again:
  assumes "healthy c'" "\<forall>n. \<not> io_fails c' n" "pattern_at pid sig c' = Some r'" "pattern_row_ok r'" "fp_last_seen (pattern_of r') = now"
    "- (2 ^ 63) \<le> now" "now < 2 ^ 63"
    "fp_occurrence_count (pattern_of r') = (case pattern_at pid sig c of None \<Rightarrow> 1 | Some r \<Rightarrow> fp_occurrence_count (pattern_of r) + 1)"
  shows "\<exists>c''. fold (\<lambda>fid st. fst (link_failure_to_pattern now fid (fst r') st)) fids (Some c') = Some c'' \<and>
    pattern_learned now pid sig c c'' (fst r')"
proof -
  obtain c'' r'' where c'': "fold (\<lambda>fid st. fst (link_failure_to_pattern now fid (fst r') st)) fids (Some c') = Some c''" "healthy c''"
      "pattern_at pid sig c'' = Some r''" "pattern_row_ok r''" "pattern_of r'' = pattern_of r'"
    using linked_pattern [OF assms(1-7), of fids] by blast
  have "fp_id (pattern_of r'') = fst r'" using pattern_at_props(2) [OF assms(1,3)] c''(5) by simp
  then show ?thesis
    using get_pattern_row [OF c''(2-4)] pattern_at_props(3) [OF c''(2,3)] c''(1,5) assms(5,8) by (auto simp: pattern_learned_def)
qed

lemma learn_pattern_effect:
  assumes c: "healthy c" "\<forall>n. \<not> io_fails c n" "pid \<in> set (ids_of (tabs c ''projects''))" "- (2 ^ 63) \<le> now" "now < 2 ^ 63"
    and room: "seq (tabs c ''brain_failure_patterns'') < max_rowid"
    and f: "get_failure fid c = Some (row_map failure_columns f)" "get_text f ''error_signature'' = sig"
    and old: "\<And>r. pattern_at pid sig c = Some r \<Longrightarrow> pattern_row_ok r \<and> fp_occurrence_count (pattern_of r) + 1 < 2 ^ 31"
  shows "\<exists>c' i. learn_pattern now pid (fid # fids) name (Some c) = Some (Some c', i) \<and> 0 < i \<and> pattern_learned now pid sig c c' i"
proof (cases "pattern_at pid sig c")
  case None
  then have none: "get_pattern_by_signature pid sig (Some c) = Some None"
    using stored_pattern_by_signature [OF c(1), of pid sig] by (simp add: get_pattern_by_signature_def parse_optional_def)
  obtain nm where nm: "(if name = [] then map_option (\<lambda>ms. generate_pattern_name ms (get_text f ''failure_type'')) (collect_messages (fid # fids) c)
      else Some name) = Some nm"
    using collect_messages_total [of "fid # fids" c] by (cases "name = []") auto
  define q where "q = record_pattern now pid sig nm (get_text f ''failure_type'') (extract_error_pattern (get_text f ''error_message'')) ''{}'' c"
  note new = learned_new [OF c(1-3) None room c(4,5), of nm "get_text f ''failure_type''" "extract_error_pattern (get_text f ''error_message'')" "''{}''",
      folded q_def]
  then obtain r' where r': "pattern_at pid sig (fst q) = Some r'" "fst r' = snd q" "pattern_row_ok r'" "fp_last_seen (pattern_of r') = now"
      "fp_occurrence_count (pattern_of r') = 1" by blast
  have "learn_pattern now pid (fid # fids) name (Some c) =
      Some (fold (\<lambda>fid st. fst (link_failure_to_pattern now fid (snd q) st)) (fid # fids) (Some (fst q)), snd q)"
    using conjunct1 [OF conjunct2 [OF conjunct2 [OF new]]] f(2) nm
    by (cases q) (simp add: learn_pattern_def f(1) failure_row_values none q_def [symmetric])
  moreover obtain c'' where "fold (\<lambda>fid st. fst (link_failure_to_pattern now fid (snd q) st)) (fid # fids) (Some (fst q)) = Some c''"
      "pattern_learned now pid sig c c'' (snd q)"
    using linked_again [of "fst q" pid sig r' now c "fid # fids"] new r' c(4,5) None by auto
  ultimately have "learn_pattern now pid (fid # fids) name (Some c) = Some (Some c'', snd q) \<and> 0 < snd q \<and> pattern_learned now pid sig c c'' (snd q)"
    using new by simp
  then show ?thesis by blast
next
  case (Some r)
  note ok = old [OF Some]
  have "get_pattern_by_signature pid sig (Some c) = Some (Some (pattern_of r))"
    using get_pattern_row [OF c(1) Some] ok by blast
  then have l: "learn_pattern now pid (fid # fids) name (Some c) = Some (fst (update_pattern_stats now (fst r) (Some c)), fst r)"
    using f(2) pattern_at_props(2) [OF c(1) Some] by (simp add: learn_pattern_def f(1) failure_row_values)
  obtain c' r' where c': "fst (update_pattern_stats now (fst r) (Some c)) = Some c'" "healthy c'" "\<forall>n. \<not> io_fails c' n"
      "pattern_at pid sig c' = Some r'" "fst r' = fst r" "pattern_row_ok r'" "fp_last_seen (pattern_of r') = now"
      "fp_occurrence_count (pattern_of r') = fp_occurrence_count (pattern_of r) + 1"
    using learned_again [OF c(1,2) Some _ c(4,5)] ok by blast
  have "pattern_learned now pid sig c c' (fst r)"
    using linked_again [OF c'(2,3,4,6,7) c(4,5), of c "[]"] c'(5,8) Some by simp
  then show ?thesis using l c'(1) pattern_at_props(4) [OF c(1) Some] by simp
qed

section \<open>Similar failures are sorted and similar\<close>

lemma token_similarity_self: "token_similarity a a = 1"
proof (cases "tokenize_error a = []")
  case False
  then have "card (set (tokenize_error a)) \<noteq> 0" by simp
  with False show ?thesis by (simp add: token_similarity_def Let_def)
qed (simp add: token_similarity_def)

lemma compute_similarity_score:
  "0 \<le> compute_similarity a b \<and> compute_similarity a b \<le> 1 \<and> compute_similarity a b = compute_similarity b a \<and>
   (compute_similarity a b = 1 \<longleftrightarrow> a = b)"
proof -
  note s = similarity_scores [of a b]
  have "compute_similarity a b = 1 \<Longrightarrow> levenshtein_similarity a b = 1"
    using s by (simp add: compute_similarity_def)
  moreover have "a = b \<Longrightarrow> compute_similarity a b = 1"
    using s by (simp add: compute_similarity_def token_similarity_self)
  ultimately show ?thesis using s by (auto simp: compute_similarity_def)
qed

definition sorts_by_score :: "(similar_failure list \<Rightarrow> similar_failure list) \<Rightarrow> bool" where
  "sorts_by_score srt \<longleftrightarrow> (\<forall>xs. mset (srt xs) = mset xs \<and> sorted_wrt (\<lambda>a b. sf_similarity_score b \<le> sf_similarity_score a) (srt xs))"

definition similar_of :: "string \<Rightarrow> sql_row \<Rightarrow> similar_failure" where
  "similar_of msg r = \<lparr>sf_failure_id = get_num r ''id'', sf_similarity_score = compute_similarity msg (get_text r ''error_message''),
     sf_error_message = get_text r ''error_message'', sf_error_signature = get_text r ''error_signature'',
     sf_timestamp = get_num r ''timestamp'', sf_was_resolved = (to_string (get_num r ''resolved'') = ''1''),
     sf_resolution_type = get_text r ''resolution_type''\<rparr>"

lemma similar_of_row_map: "similar_of_row msg (row_map similar_failure_columns r) = Some (similar_of msg r)"
  by (simp add: similar_of_row_def row_num_def map_get_row_map similar_failure_columns_def similar_of_def)

definition same_signature_rows :: "int \<Rightarrow> string \<Rightarrow> int \<Rightarrow> sqlite \<Rightarrow> sql_row list" where
  "same_signature_rows pid sig n c = limit_rows n (order_desc ''timestamp'' (select ''workspace_failures''
     (\<lambda>r. eq_int ''project_id'' pid r \<and> eq_text ''error_signature'' sig r) c))"

lemma find_similar_rows:
  "find_similar_failures srt pid sig msg limit (Some c) =
     (let similar = srt (filter (\<lambda>s. sf_similarity_score s \<ge> 1 / 2) (map (similar_of msg) (same_signature_rows pid sig (limit * 2) c)))
      in Some (if limit \<ge> 0 \<and> length similar > nat limit then take (nat limit) similar else similar))"
proof -
  have "those (map (similar_of_row msg) (map (row_map similar_failure_columns) rs)) = Some (map (similar_of msg) rs)" for rs
    by (induction rs) (simp_all add: similar_of_row_map)
  then show ?thesis
    by (simp add: find_similar_failures_def Nexus_Workspace_Store.find_similar_failures_def same_signature_rows_def Let_def)
qed

lemma set_limit_rows: "set (limit_rows n xs) \<subseteq> set xs"
  using set_take_subset [of "nat n" xs] by (simp add: limit_rows_def)

lemma same_signature_row:
  assumes "healthy c" "r \<in> set (same_signature_rows pid sig n c)"
  shows "r \<in> set (trows (tabs c ''workspace_failures''))" "val r ''project_id'' = VInt pid" "val r ''error_signature'' = VText (c_string sig)"
    "get_num r ''id'' = fst r" "0 < fst r"
proof -
  have "r \<in> set (select ''workspace_failures'' (\<lambda>r. eq_int ''project_id'' pid r \<and> eq_text ''error_signature'' sig r) c)"
    using subsetD [OF set_limit_rows assms(2) [unfolded same_signature_rows_def]] by simp
  then show r: "r \<in> set (trows (tabs c ''workspace_failures''))" "val r ''project_id'' = VInt pid" "val r ''error_signature'' = VText (c_string sig)"
    using set_select [of c "''workspace_failures''"] assms(1) by (auto simp: healthy_def)
  have ok: "db_ok nexus_schema (tabs c)" using assms(1) by (simp add: healthy_def conn_ok_def)
  show "get_num r ''id'' = fst r" "0 < fst r"
    using get_num_id [OF ok, of workspace_failures_table r] row_id_range [OF ok, of workspace_failures_table r] r(1) by simp_all
qed

text \<open>What is found is never an exception, has the signature, is at least half similar, and comes in the order of the scores.\<close>

lemma found_failures:
  assumes "healthy c" "sorts_by_score srt" "find_similar_failures srt pid sig msg limit (Some c) = Some ss"
  shows "sorted_wrt (\<lambda>a b. sf_similarity_score b \<le> sf_similarity_score a) ss \<and> (0 \<le> limit \<longrightarrow> int (length ss) \<le> limit) \<and>
    (\<forall>s\<in>set ss. sf_similarity_score s \<ge> 1 / 2 \<and> sf_error_signature s = c_string sig \<and>
       (\<exists>r\<in>set (same_signature_rows pid sig (limit * 2) c). s = similar_of msg r))"
proof -
  let ?all = "filter (\<lambda>s. sf_similarity_score s \<ge> 1 / 2) (map (similar_of msg) (same_signature_rows pid sig (limit * 2) c))"
  have "mset (srt ?all) = mset ?all" using assms(2) unfolding sorts_by_score_def by blast
  then have srt: "set (srt ?all) = set ?all" "sorted_wrt (\<lambda>a b. sf_similarity_score b \<le> sf_similarity_score a) (srt ?all)"
    using assms(2) mset_eq_setD unfolding sorts_by_score_def by blast+
  have ss: "ss = (if limit \<ge> 0 \<and> length (srt ?all) > nat limit then take (nat limit) (srt ?all) else srt ?all)"
    using assms(3) unfolding find_similar_rows Let_def by (simp only: option.inject)
  then have "set ss \<subseteq> set ?all" using srt(1) set_take_subset [of "nat limit" "srt ?all"] by auto
  moreover have "sorted_wrt (\<lambda>a b. sf_similarity_score b \<le> sf_similarity_score a) ss" using srt(2) ss by (simp add: sorted_wrt_take)
  moreover have "0 \<le> limit \<longrightarrow> int (length ss) \<le> limit" using ss by auto
  moreover have "sf_error_signature (similar_of msg r) = c_string sig" if "r \<in> set (same_signature_rows pid sig (limit * 2) c)" for r
    using same_signature_row(3) [OF assms(1) that] by (simp add: similar_of_def)
  ultimately show ?thesis by auto
qed

end
