(* ===== verification/Std_Regex_Replace.thy ===== *)
theory Std_Regex_Replace
  imports Std_Regex
begin

text \<open>
  What \<open>regex_replace\<close> does to a text: a character that no part of the pattern accepts is a barrier, so the
  parts on its two sides are replaced independently; a subject without a match stays as it is; runs of a class collapse.
\<close>

section \<open>Searching\<close>

lemma search_from_here:
  "leads r (b, s, Map.empty) (b', rest, g) \<Longrightarrow>
   search_from r b pre s = Some \<lparr>sm_prefix = rev pre, sm_text = take (length s - length rest) s, sm_suffix = rest, sm_groups = g\<rparr>"
  unfolding leads_def by (subst search_from.simps) auto

lemma search_from_next:
  "attempts r (b, c # s, Map.empty) = [] \<Longrightarrow> search_from r b pre (c # s) = search_from r False (c # pre) s"
  by (subst search_from.simps) simp

lemma search_from_skip:
  "(\<And>c b z. c \<in> set x \<Longrightarrow> attempts r (b, c # z, Map.empty) = []) \<Longrightarrow>
   search_from r b pre (x @ s) = search_from r (b \<and> x = []) (rev x @ pre) s"
proof (induction x arbitrary: b pre)
  case (Cons c x)
  have "search_from r b pre ((c # x) @ s) = search_from r False (c # pre) (x @ s)"
    using Cons.prems by (simp add: search_from_next)
  then show ?case using Cons by simp
qed simp

lemma search_from_prefix:
  "search_from r b pre s = map_option (\<lambda>m. m\<lparr>sm_prefix := rev pre @ sm_prefix m\<rparr>) (search_from r b [] s)"
proof (induction s arbitrary: b pre)
  case Nil
  show ?case by (subst (1 2) search_from.simps) (auto split: list.splits)
next
  case (Cons c s)
  show ?case
  proof (cases "attempts r (b, c # s, Map.empty)")
    case Nil
    show ?thesis unfolding search_from_next [OF Nil] by (subst (1 2) Cons.IH) (auto simp: option.map_comp o_def)
  next
    case C: (Cons st sts)
    then show ?thesis by (subst (1 2) search_from.simps) (auto split: prod.splits)
  qed
qed

lemma replace_no_match: "search_from r b [] s = None \<Longrightarrow> regex_replace_from r b by s = s"
  by (subst regex_replace_from.simps) simp

section \<open>Barriers\<close>

text \<open>No class of the pattern accepts the character.\<close>

primrec avoids :: "char \<Rightarrow> regex \<Rightarrow> bool" where
  "avoids x Empty \<longleftrightarrow> True"
| "avoids x Begin \<longleftrightarrow> True"
| "avoids x (Class P) \<longleftrightarrow> \<not> P x"
| "avoids x (Seq r1 r2) \<longleftrightarrow> avoids x r1 \<and> avoids x r2"
| "avoids x (Alt r1 r2) \<longleftrightarrow> avoids x r1 \<and> avoids x r2"
| "avoids x (Star r) \<longleftrightarrow> avoids x r"
| "avoids x (Lazy r) \<longleftrightarrow> avoids x r"
| "avoids x (Group k r) \<longleftrightarrow> avoids x r"

definition extend :: "string \<Rightarrow> match_state \<Rightarrow> match_state" where
  "extend v st = (case st of (b, s, g) \<Rightarrow> (b, s @ v, g))"

lemma extend_simps [simp]:
  "extend v (b, s, g) = (b, s @ v, g)" "left (extend v st) = left st @ v" "fst (extend v st) = fst st"
  "snd (snd (extend v st)) = snd (snd st)"
  by (simp_all add: extend_def split: prod.splits)

lemma repeat_stable: "length (left st) \<le> n \<Longrightarrow> repeat greedy n f st = repeat greedy (length (left st)) f st"
proof (induction n arbitrary: st rule: less_induct)
  case (less n)
  show ?case
  proof (cases n)
    case (Suc m)
    show ?thesis
    proof (cases "length (left st) = n")
      case False
      have none: "filter (\<lambda>st'. length (left st') < length (left st)) xs = []" if "length (left st) = 0" for xs :: "match_state list"
        using that by (simp add: filter_empty_conv)
      have step: "repeat greedy m f st1 = repeat greedy (length (left st) - 1) f st1" if "length (left st1) < length (left st)" for st1
        using less.IH [of m st1] less.IH [of "length (left st) - 1" st1] that False less.prems Suc by simp
      then have "concat (map (repeat greedy m f) (filter (\<lambda>st'. length (left st') < length (left st)) (f st))) =
          concat (map (repeat greedy (length (left st) - 1) f) (filter (\<lambda>st'. length (left st') < length (left st)) (f st)))"
        by (intro arg_cong [where f = concat] map_cong) auto
      note eq = this
      show ?thesis
      proof (cases "length (left st)")
        case 0
        show ?thesis unfolding Suc 0 repeat.simps Let_def using none [OF 0] 0 by simp
      next
        case (Suc l)
        show ?thesis unfolding \<open>n = Suc m\<close> Suc repeat.simps Let_def using eq Suc by (simp only: diff_Suc_1)
      qed
    qed simp
  qed (use less.prems in simp)
qed

lemma repeat_extend:
  assumes "\<And>st. f (extend v st) = map (extend v) (f st)"
  shows "repeat greedy n f (extend v st) = map (extend v) (repeat greedy n f st)"
proof (induction n arbitrary: st)
  case (Suc n)
  have "filter (\<lambda>st'. length (left st') < length (left (extend v st))) (f (extend v st)) =
      map (extend v) (filter (\<lambda>st'. length (left st') < length (left st)) (f st))"
    unfolding assms filter_map by (simp add: o_def)
  then show ?case using Suc by (simp add: Let_def map_concat o_def)
qed simp

lemma attempts_barrier: "avoids x r \<Longrightarrow> attempts r (extend (x # t) st) = map (extend (x # t)) (attempts r st)"
proof (induction r arbitrary: st)
  case (Class P)
  obtain b s g where "st = (b, s, g)" by (cases st)
  then show ?case using Class by (cases s) auto
next
  case (Seq r1 r2)
  then show ?case by (simp add: map_concat o_def)
next
  case (Star r)
  have "attempts (Star r) (extend (x # t) st) = repeat True (length (left st) + length (x # t)) (attempts r) (extend (x # t) st)" by simp
  also have "\<dots> = map (extend (x # t)) (repeat True (length (left st) + length (x # t)) (attempts r) st)"
    using Star by (intro repeat_extend) simp
  also have "repeat True (length (left st) + length (x # t)) (attempts r) st = attempts (Star r) st"
    by (subst repeat_stable) simp_all
  finally show ?case .
next
  case (Lazy r)
  have "attempts (Lazy r) (extend (x # t) st) = repeat False (length (left st) + length (x # t)) (attempts r) (extend (x # t) st)" by simp
  also have "\<dots> = map (extend (x # t)) (repeat False (length (left st) + length (x # t)) (attempts r) st)"
    using Lazy by (intro repeat_extend) simp
  also have "repeat False (length (left st) + length (x # t)) (attempts r) st = attempts (Lazy r) st"
    by (subst repeat_stable) simp_all
  finally show ?case .
next
  case (Group k r)
  have "(\<lambda>(b, s, g). (b, s, g(k \<mapsto> take (length (left (extend (x # t) st)) - length s) (left (extend (x # t) st))))) (extend (x # t) st') =
      extend (x # t) ((\<lambda>(b, s, g). (b, s, g(k \<mapsto> take (length (left st) - length s) (left st)))) st')" if "st' \<in> set (attempts r st)" for st'
    using attempts_suffix [OF that] by (cases st') simp
  then show ?case using Group by simp
qed (auto simp: extend_def split: prod.splits)

text \<open>Every match of the pattern takes at least one character.\<close>

primrec consumes :: "regex \<Rightarrow> bool" where
  "consumes Empty \<longleftrightarrow> False"
| "consumes Begin \<longleftrightarrow> False"
| "consumes (Class P) \<longleftrightarrow> True"
| "consumes (Seq r1 r2) \<longleftrightarrow> consumes r1 \<or> consumes r2"
| "consumes (Alt r1 r2) \<longleftrightarrow> consumes r1 \<and> consumes r2"
| "consumes (Star r) \<longleftrightarrow> False"
| "consumes (Lazy r) \<longleftrightarrow> False"
| "consumes (Group k r) \<longleftrightarrow> consumes r"

lemma consumes_lang: "in_lang r b u \<Longrightarrow> consumes r \<Longrightarrow> u \<noteq> []"
  by (induction rule: in_lang.induct) auto

lemma consumes_at_end: "consumes r \<Longrightarrow> attempts r (b, [], g) = []"
proof (rule ccontr)
  assume c: "consumes r" and "attempts r (b, [], g) \<noteq> []"
  then obtain st where "st \<in> set (attempts r (b, [], g))" by (cases "attempts r (b, [], g)") auto
  from attempts_sound [OF this] obtain u where "[] = u @ left st" "in_lang r b u" by (auto simp: sound_def)
  then show False using consumes_lang [OF _ c] by auto
qed

lemma search_consumes: "consumes r \<Longrightarrow> search_from r b pre s = Some m \<Longrightarrow> sm_text m \<noteq> []"
proof (induction s arbitrary: b pre)
  case Nil
  then show ?case by (subst (asm) search_from.simps) (simp add: consumes_at_end)
next
  case (Cons c s)
  show ?case
  proof (cases "attempts r (b, c # s, Map.empty)")
    case Nil
    then show ?thesis using Cons by (simp add: search_from_next)
  next
    case C: (Cons st sts)
    then have "st \<in> set (attempts r (b, c # s, Map.empty))" by simp
    from attempts_sound [OF this] obtain u where u: "c # s = u @ left st" "in_lang r b u" by (auto simp: sound_def)
    then have "length (left st) < length (c # s)" using consumes_lang [OF u(2) Cons.prems(1)] by (cases u) auto
    then show ?thesis using Cons.prems(2) C by (subst (asm) search_from.simps) (auto split: prod.splits)
  qed
qed

lemma barrier_fails: "avoids x r \<Longrightarrow> consumes r \<Longrightarrow> attempts r (b, x # t, g) = []"
  using attempts_barrier [of x r t "(b, [], g)"] by (simp add: consumes_at_end)

lemma search_from_barrier:
  assumes "avoids x r" "consumes r"
  shows "search_from r b [] (s @ x # t) =
     (case search_from r b [] s of Some m \<Rightarrow> Some (m\<lparr>sm_suffix := sm_suffix m @ x # t\<rparr>)
      | None \<Rightarrow> search_from r False (x # rev s) t)"
proof -
  have "search_from r b pre (s @ x # t) =
     (case search_from r b pre s of Some m \<Rightarrow> Some (m\<lparr>sm_suffix := sm_suffix m @ x # t\<rparr>)
      | None \<Rightarrow> search_from r False (x # rev s @ pre) t)" for pre
  proof (induction s arbitrary: b pre)
    case Nil
    have "search_from r b pre [] = None" using assms(2) by (subst search_from.simps) (simp add: consumes_at_end)
    then show ?case using search_from_next [OF barrier_fails [OF assms]] by simp
  next
    case (Cons c s)
    show ?case
    proof (cases "attempts r (b, c # s, Map.empty)")
      case Nil
      then have "attempts r (b, c # s @ x # t, Map.empty) = []"
        using attempts_barrier [OF assms(1), of t "(b, c # s, Map.empty)"] by simp
      then show ?thesis using Cons.IH [of False "c # pre"] search_from_next [OF Nil] by (simp add: search_from_next split: option.split)
    next
      case C: (Cons st sts)
      obtain b' rest g where st: "st = (b', rest, g)" by (cases st)
      have "attempts r (b, (c # s) @ x # t, Map.empty) = (b', rest @ x # t, g) # map (extend (x # t)) sts"
        using attempts_barrier [OF assms(1), of t "(b, c # s, Map.empty)"] C st by simp
      moreover obtain u where "c # s = u @ rest" using attempts_suffix [of st r "(b, c # s, Map.empty)"] C st by auto
      ultimately show ?thesis using C st by (subst (1 2) search_from.simps) simp
    qed
  qed
  from this [of "[]"] show ?thesis by (simp only: append_Nil2)
qed

lemma replace_barrier:
  assumes "avoids x r" "consumes r"
  shows "regex_replace_from r b by (s @ x # t) = regex_replace_from r b by s @ x # regex_replace_from r False by t"
proof (induction "length s" arbitrary: b s rule: less_induct)
  case less
  note barrier = search_from_barrier [OF assms, of b s t]
  show ?case
  proof (cases "search_from r b [] s")
    case None
    then have "search_from r b [] (s @ x # t) = search_from r False (x # rev s) t" using barrier by simp
    then have "search_from r b [] (s @ x # t) = map_option (\<lambda>m. m\<lparr>sm_prefix := s @ x # sm_prefix m\<rparr>) (search_from r False [] t)"
      by (subst (asm) (2) search_from_prefix) simp
    then show ?thesis unfolding replace_no_match [OF None]
      by (subst (1 2) regex_replace_from.simps) (auto dest: search_consumes [OF assms(2)] split: option.splits)
  next
    case (Some m)
    have taken: "sm_text m \<noteq> []" by (rule search_consumes [OF assms(2) Some])
    have "length (sm_suffix m) < length s"
      using arg_cong [OF search_from_split [OF Some], of length] taken by (cases "sm_text m") simp_all
    from less [OF this, of False] show ?thesis using barrier Some taken
      by (subst regex_replace_from.simps, subst (2) regex_replace_from.simps) simp
  qed
qed

lemma search_from_none:
  assumes "consumes r" "\<And>c b z. c \<in> set s \<Longrightarrow> attempts r (b, c # z, Map.empty) = []"
  shows "search_from r b pre s = None"
  using search_from_skip [of s r b pre "[]", OF assms(2)] search_from.simps [of r "b \<and> s = []" "rev s @ pre" "[]"]
    consumes_at_end [OF assms(1)] by simp

lemma set_replace: "set (regex_replace_from r b by s) \<subseteq> set s \<union> set by"
proof (induction "length s" arbitrary: b s rule: less_induct)
  case less
  show ?case
  proof (cases "search_from r b [] s")
    case (Some m)
    have split: "s = sm_prefix m @ sm_text m @ sm_suffix m" using search_from_split [OF Some] by simp
    show ?thesis
    proof (cases "sm_text m = []")
      case False
      then have "length (sm_suffix m) < length s" using arg_cong [OF split, of length] by (cases "sm_text m") simp_all
      from less [OF this, of False] have "set (regex_replace_from r False by (sm_suffix m)) \<subseteq> set (sm_suffix m) \<union> set by" .
      moreover have "set (sm_prefix m) \<subseteq> set s" "set (sm_suffix m) \<subseteq> set s" using arg_cong [OF split, of set] by auto
      ultimately show ?thesis using Some False by (subst regex_replace_from.simps) auto
    qed (use Some in \<open>subst regex_replace_from.simps, simp\<close>)
  qed (simp add: replace_no_match)
qed

lemma replace_at:
  assumes "leads r (b \<and> x = [], u @ v, Map.empty) (b', v, g)" "u \<noteq> []"
    and "\<And>c b z. c \<in> set x \<Longrightarrow> attempts r (b, c # z, Map.empty) = []"
  shows "regex_replace_from r b by (x @ u @ v) = x @ by @ regex_replace_from r False by v"
proof -
  have "search_from r b [] (x @ u @ v) = search_from r (b \<and> x = []) (rev x) (u @ v)"
    using search_from_skip [of x r b "[]" "u @ v", OF assms(3)] by simp
  then have "search_from r b [] (x @ u @ v) = Some \<lparr>sm_prefix = x, sm_text = u, sm_suffix = v, sm_groups = g\<rparr>"
    using search_from_here [OF assms(1), of "rev x"] by simp
  then show ?thesis using assms(2) by (subst regex_replace_from.simps) simp
qed

section \<open>Runs of a class\<close>

lemma search_run:
  assumes "\<forall>c\<in>set x. \<not> P c" "u \<noteq> []" "\<forall>c\<in>set u. P c" "v = [] \<or> \<not> P (hd v)"
  shows "search_from (Plus (Class P)) b [] (x @ u @ v) = Some \<lparr>sm_prefix = x, sm_text = u, sm_suffix = v, sm_groups = Map.empty\<rparr>"
proof -
  have "search_from (Plus (Class P)) b [] (x @ u @ v) = search_from (Plus (Class P)) (b \<and> x = []) (rev x) (u @ v)"
    using assms(1) search_from_skip [of x "Plus (Class P)" b "[]" "u @ v"] by (simp add: attempts_Plus_Class_fail)
  then show ?thesis using search_from_here [OF leads_Plus_Class [OF assms(2-4)]] by simp
qed

lemma search_no_run: "\<forall>c\<in>set s. \<not> P c \<Longrightarrow> search_from (Plus (Class P)) b [] s = None"
  using search_from_skip [of s "Plus (Class P)" b "[]" "[]"] search_from.simps [of "Plus (Class P)" "b \<and> s = []" "rev s" "[]"]
  by (simp add: attempts_Plus_Class_fail)

text \<open>After runs of blanks are replaced by one blank, blanks are single.\<close>

definition single_blanks :: "string \<Rightarrow> bool" where
  "single_blanks s \<longleftrightarrow> (\<forall>c\<in>set s. isspace c \<longrightarrow> c = CHR '' '') \<and> successively (\<lambda>a b. \<not> (isspace a \<and> isspace b)) s"

lemma single_blanks_none: "\<forall>c\<in>set s. \<not> isspace c \<Longrightarrow> single_blanks s"
proof -
  assume "\<forall>c\<in>set s. \<not> isspace c"
  then have "successively (\<lambda>a b. \<not> (isspace a \<and> isspace b)) s" by (induction s rule: induct_list012) auto
  then show ?thesis using \<open>\<forall>c\<in>set s. \<not> isspace c\<close> by (simp add: single_blanks_def)
qed

lemma single_blanks_join:
  assumes "\<forall>c\<in>set x. \<not> isspace c" "single_blanks w" "w = [] \<or> \<not> isspace (hd w)"
  shows "single_blanks (x @ '' '' @ w)"
proof -
  have blank: "isspace (CHR '' '')" by (simp add: isspace_def)
  have "x = [] \<or> \<not> isspace (last x)" using assms(1) by (cases "x = []") simp_all
  moreover have "successively (\<lambda>a b. \<not> (isspace a \<and> isspace b)) x" using single_blanks_none [OF assms(1)] by (simp add: single_blanks_def)
  moreover have "successively (\<lambda>a b. \<not> (isspace a \<and> isspace b)) (CHR '' '' # w)"
    using assms(2,3) by (cases w) (simp_all add: single_blanks_def)
  ultimately have "successively (\<lambda>a b. \<not> (isspace a \<and> isspace b)) (x @ CHR '' '' # w)"
    using blank by (simp add: successively_append_iff)
  then show ?thesis using assms(1,2) by (auto simp: single_blanks_def)
qed

lemma replace_runs:
  "single_blanks (regex_replace_from (Plus (Class isspace)) b '' '' s) \<and>
   (s = [] \<or> \<not> isspace (hd s) \<longrightarrow> regex_replace_from (Plus (Class isspace)) b '' '' s = [] \<or>
      \<not> isspace (hd (regex_replace_from (Plus (Class isspace)) b '' '' s)))"
proof (induction "length s" arbitrary: b s rule: less_induct)
  case less
  define x where "x = takeWhile (\<lambda>c. \<not> isspace c) s"
  define u where "u = takeWhile isspace (dropWhile (\<lambda>c. \<not> isspace c) s)"
  define v where "v = dropWhile isspace (dropWhile (\<lambda>c. \<not> isspace c) s)"
  have s: "s = x @ u @ v" by (simp add: x_def u_def v_def)
  have x: "\<forall>c\<in>set x. \<not> isspace c" by (auto simp: x_def dest: set_takeWhileD)
  have u: "\<forall>c\<in>set u. isspace c" by (auto simp: u_def dest: set_takeWhileD)
  have v: "v = [] \<or> \<not> isspace (hd v)" unfolding v_def using hd_dropWhile by blast
  show ?case
  proof (cases "u = []")
    case True
    have "dropWhile (\<lambda>c. \<not> isspace c) s = []"
    proof (rule ccontr)
      assume "dropWhile (\<lambda>c. \<not> isspace c) s \<noteq> []"
      moreover from this have "isspace (hd (dropWhile (\<lambda>c. \<not> isspace c) s))" using hd_dropWhile by blast
      ultimately show False using True unfolding u_def by (cases "dropWhile (\<lambda>c. \<not> isspace c) s") auto
    qed
    then have "v = []" unfolding v_def by (simp only: dropWhile.simps(1))
    then have "s = x" using s True by simp
    have "regex_replace_from (Plus (Class isspace)) b '' '' x = x" by (rule replace_no_match [OF search_no_run [OF x]])
    then show ?thesis using single_blanks_none [OF x] x \<open>s = x\<close> by simp
  next
    case False
    have r: "regex_replace_from (Plus (Class isspace)) b '' '' s = x @ '' '' @ regex_replace_from (Plus (Class isspace)) False '' '' v"
      using search_run [OF x False u v] False s by (subst regex_replace_from.simps) simp
    have "length v < length s" using s False by simp
    from less [OF this, of False] v have ih: "single_blanks (regex_replace_from (Plus (Class isspace)) False '' '' v)"
      "regex_replace_from (Plus (Class isspace)) False '' '' v = [] \<or> \<not> isspace (hd (regex_replace_from (Plus (Class isspace)) False '' '' v))"
      by blast+
    have "single_blanks (x @ '' '' @ regex_replace_from (Plus (Class isspace)) False '' '' v)"
      by (rule single_blanks_join [OF x ih])
    moreover have "x = [] \<Longrightarrow> isspace (hd s)" using s False u by simp
    moreover have "x \<noteq> [] \<Longrightarrow> \<not> isspace (hd (x @ '' '' @ regex_replace_from (Plus (Class isspace)) False '' '' v))" using x by simp
    ultimately show ?thesis unfolding r using s False by blast
  qed
qed

end
