(* ===== verification/Brain_Learner.thy ===== *)
theory Brain_Learner
  imports Brain_Matcher Std_Regex_Replace
begin

text \<open>
  The failure learner of the brain (\<open>src/modules/brain/src/learner.cpp\<close>): the signature of an error message, detection of
  failures in command output, recording them with their context and learning a pattern when they recur. The
  workspace manager the class is given is not used by it. \<open>store\<close>, \<open>rx\<close> and \<open>srt\<close> are as in \<open>Brain_Matcher\<close>; the store's clock is \<open>now\<close>.
\<close>

section \<open>Signatures\<close>

abbreviation dd :: regex where "dd \<equiv> Times 2 (Class isdigit)"

definition isxdigit :: "char \<Rightarrow> bool" where
  "isxdigit c \<longleftrightarrow> isdigit c \<or> (CHR ''a'' \<le> c \<and> c \<le> CHR ''f'') \<or> (CHR ''A'' \<le> c \<and> c \<le> CHR ''F'')"

definition path_regex :: regex where
  "path_regex = Seqs [Lit (CHR ''/''), Plus (Class (\<lambda>c. \<not> isspace c \<and> c \<noteq> CHR '':'')), Lit (CHR ''/'')]"

definition line_regex :: regex where
  "line_regex = Seqs [Lit (CHR '':''), Group 1 (Plus (Class isdigit)), Lit (CHR '':'')]"

definition hex_regex :: regex where
  "hex_regex = Seqs [Word ''0x'', Plus (Class isxdigit)]"

definition time_regex :: regex where
  "time_regex = Seqs [Times 4 (Class isdigit), Lit (CHR ''-''), dd, Lit (CHR ''-''), dd, Class (\<lambda>c. c = CHR '' '' \<or> c = CHR ''T''),
     dd, Lit (CHR '':''), dd, Lit (CHR '':''), dd, Maybe (Group 1 (Seqs [Lit (CHR ''.''), Plus (Class isdigit)])),
     Maybe (Group 2 (Alts [Lit (CHR ''Z''), Seqs [Class (\<lambda>c. c = CHR ''+'' \<or> c = CHR ''-''), dd, Lit (CHR '':''), dd]]))]"

definition normalize_error_message :: "string \<Rightarrow> string" where
  "normalize_error_message raw_error =
     (let n1 = regex_replace raw_error path_regex ''<PATH>/'';
          n2 = regex_replace n1 line_regex '':<LINE>:'';
          n3 = regex_replace n2 hex_regex ''<HEX>'';
          n4 = regex_replace n3 time_regex ''<TIMESTAMP>'';
          n5 = regex_replace n4 (Plus (Class isspace)) '' ''
      in map tolower n5)"

definition is_error_line :: "string \<Rightarrow> bool" where
  "is_error_line line = list_ex (\<lambda>k. contains k (map tolower line))
     [''error:'', ''fatal:'', ''undefined reference'', ''cannot find'', ''no such file'']"

definition extract_error_core :: "string \<Rightarrow> string" where
  "extract_error_core error_message =
     (let ls = getlines nl error_message;
          error_lines = take 3 (filter is_error_line ls);
          chosen = (if error_lines = [] then take 3 (filter (\<lambda>l. l \<noteq> []) ls) else error_lines)
      in join_with [nl] chosen)"

definition compute_error_signature :: "string \<Rightarrow> string" where
  "compute_error_signature error_message =
     hex_nat (unat (content_hash (normalize_error_message (extract_error_core error_message))))"

section \<open>Detecting failures\<close>

definition location_regex :: regex where
  "location_regex = Seqs [Group 1 (Seqs [Plus (Class (\<lambda>c. \<not> isspace c \<and> c \<noteq> CHR '':'')), Lit (CHR ''.''),
       Group 2 (Alts (map Word [''cpp'', ''hpp'', ''h'', ''c'', ''py'', ''js'', ''ts'', ''rs'', ''go'']))]),
     Lit (CHR '':''), Group 3 (Plus (Class isdigit)), Maybe (Lit (CHR '':'')), Maybe (Group 4 (Plus (Class isdigit)))]"

definition extract_error_location :: "string \<Rightarrow> string" where
  "extract_error_location error_message =
     (case regex_search location_regex error_message of None \<Rightarrow> [] | Some m \<Rightarrow> group_text m 1 @ '':'' @ group_text m 3)"

definition infer_failure_type :: "string \<Rightarrow> string \<Rightarrow> string" where
  "infer_failure_type command error =
     (let cmd = map tolower command in
      if contains ''test'' cmd \<or> contains ''pytest'' cmd \<or> contains ''jest'' cmd \<or> contains ''cargo test'' cmd then ''test''
      else if contains ''cmake'' cmd \<or> contains ''make'' cmd \<or> contains ''cargo build'' cmd \<or> contains ''npm run build'' cmd then
        (if contains ''undefined reference'' error \<or> contains ''unresolved external'' error \<or> contains ''ld:'' error \<or> contains ''linker'' error
         then ''link'' else ''build'')
      else if contains ''undefined reference'' error \<or> contains ''unresolved external'' error then ''link''
      else if contains ''error:'' error \<or> contains ''compilation'' error then ''build''
      else if contains ''assertion'' error \<or> contains ''FAILED'' error then ''test''
      else ''build'')"

record failure_context =
  fx_failure_type :: string
  fx_error_message :: string
  fx_command :: string
  fx_exit_code :: int
  fx_before_snapshot_id :: int
  fx_after_snapshot_id :: int
  fx_changed_files :: "string list"
  fx_changed_deps :: "(string, string) std_map"
  fx_changed_env :: "(string, string) std_map"
  fx_changed_system :: "(string, string) std_map"
  fx_error_location :: string
  fx_severity :: string
  fx_tags :: "string list"

definition empty_context :: failure_context where
  "empty_context = \<lparr>fx_failure_type = [], fx_error_message = [], fx_command = [], fx_exit_code = 0, fx_before_snapshot_id = 0,
     fx_after_snapshot_id = 0, fx_changed_files = [], fx_changed_deps = [], fx_changed_env = [], fx_changed_system = [],
     fx_error_location = [], fx_severity = ''medium'', fx_tags = []\<rparr>"

definition detect_failure :: "string \<Rightarrow> string \<Rightarrow> int \<Rightarrow> failure_context option" where
  "detect_failure command output exit_code =
     (if exit_code = 0 then None
      else Some (empty_context\<lparr>fx_command := command, fx_error_message := output, fx_exit_code := exit_code,
        fx_failure_type := infer_failure_type command output, fx_error_location := extract_error_location output,
        fx_severity :=
          (if contains ''error:'' output \<or> contains ''ERROR'' output \<or> contains ''fatal'' output then ''high''
           else if contains ''warning'' output \<or> contains ''WARNING'' output then ''low'' else ''medium'')\<rparr>))"

section \<open>Recording failures\<close>

abbreviation quoted :: "string \<Rightarrow> string" where
  "quoted s \<equiv> [CHR 0x22] @ s @ [CHR 0x22]"

definition changed_files_to_json :: "string list \<Rightarrow> string" where
  "changed_files_to_json files = (if files = [] then ''[]'' else ''['' @ join_with '','' (map quoted files) @ '']'')"

definition changed_deps_to_json :: "(string, string) std_map \<Rightarrow> string" where
  "changed_deps_to_json deps =
     (if deps = [] then ''{}'' else ''{'' @ join_with '','' (map (\<lambda>(k, v). quoted k @ '':'' @ quoted v) deps) @ ''}'')"

definition changed_env_to_json :: "(string, string) std_map \<Rightarrow> string" where
  "changed_env_to_json env =
     (if env = [] then ''{}'' else ''{'' @ join_with '','' (map (\<lambda>(k, v). quoted k @ '':'' @ quoted v) env) @ ''}'')"

definition tags_to_json :: "string list \<Rightarrow> string" where
  "tags_to_json tags = (if tags = [] then ''[]'' else ''['' @ join_with '','' (map quoted tags) @ '']'')"

definition store_failure :: "int \<Rightarrow> int \<Rightarrow> failure_context \<Rightarrow> sqlite \<Rightarrow> sqlite \<times> int" where
  "store_failure now pid x c =
     record_failure_with_context now pid (fx_failure_type x) (compute_error_signature (fx_error_message x)) (fx_error_message x)
       (fx_error_location x) (fx_command x) (fx_exit_code x) (fx_before_snapshot_id x) (fx_after_snapshot_id x)
       (changed_files_to_json (fx_changed_files x)) (changed_deps_to_json (fx_changed_deps x)) (changed_env_to_json (fx_changed_env x))
       (changed_env_to_json (fx_changed_system x)) (fx_severity x) (tags_to_json (fx_tags x)) c"

definition record_failure ::
  "int \<Rightarrow> (similar_failure list \<Rightarrow> similar_failure list) \<Rightarrow> (string \<Rightarrow> string \<Rightarrow> bool option) \<Rightarrow> int \<Rightarrow> failure_context
    \<Rightarrow> sqlite option \<Rightarrow> (sqlite option \<times> int) option" where
  "record_failure now srt rx pid x store =
     (case store of
        None \<Rightarrow> Some (None, 0)
      | Some c \<Rightarrow>
          let sig = compute_error_signature (fx_error_message x);
              c1 = fst (store_failure now pid x c); fid = snd (store_failure now pid x c) in
          if fid \<le> 0 then Some (Some c1, fid)
          else do {
            similar \<leftarrow> find_similar_failures srt pid sig (fx_error_message x) 10 (Some c1);
            if length similar < 3 then Some (Some c1, fid)
            else do {
              patterns \<leftarrow> find_matching_patterns rx pid sig (fx_failure_type x) (fx_error_message x) (Some c1);
              (case patterns of
                 [] \<Rightarrow> map_option (\<lambda>(st, _). (st, fid)) (learn_pattern now pid (map sf_failure_id similar) [] (Some c1))
               | p # _ \<Rightarrow>
                   let st = fst (update_pattern_stats now (fp_id p) (Some c1))
                   in Some (fst (link_failure_to_pattern now fid (fp_id p) st), fid)) } })"

definition mark_resolved :: "int \<Rightarrow> int \<Rightarrow> string \<Rightarrow> int \<Rightarrow> string \<Rightarrow> bool \<Rightarrow> sqlite option \<Rightarrow> sqlite option \<times> bool" where
  "mark_resolved now fid rtype rsid notes ok store =
     (case store of None \<Rightarrow> (None, False) | Some c \<Rightarrow> map_prod Some id (update_failure_resolution now fid rtype rsid notes ok c))"

section \<open>Reading failures\<close>

definition get_failure :: "int \<Rightarrow> sqlite option \<Rightarrow> (string, string) std_map option" where
  "get_failure fid store = (case store of None \<Rightarrow> None | Some c \<Rightarrow> Nexus_Brain_Store.get_failure fid c)"

definition list_failures :: "int \<Rightarrow> int \<Rightarrow> sqlite option \<Rightarrow> (string, string) std_map list" where
  "list_failures pid n store = (case store of None \<Rightarrow> [] | Some c \<Rightarrow> Nexus_Brain_Store.list_failures pid n c)"

definition list_unresolved_failures :: "int \<Rightarrow> int \<Rightarrow> sqlite option \<Rightarrow> (string, string) std_map list" where
  "list_unresolved_failures pid n store = (case store of None \<Rightarrow> [] | Some c \<Rightarrow> Nexus_Brain_Store.list_unresolved_failures pid n c)"

definition learner_find_similar_failures :: "int \<Rightarrow> string \<Rightarrow> int \<Rightarrow> sqlite option \<Rightarrow> (string, string) std_map list" where
  "learner_find_similar_failures pid sig n store =
     (case store of None \<Rightarrow> [] | Some c \<Rightarrow> Nexus_Workspace_Store.find_similar_failures pid sig n c)"

record failure_stats =
  total_failures :: int
  unresolved_failures :: int
  auto_resolved :: int
  manually_resolved :: int
  by_type :: "(string, int) std_map"
  by_severity :: "(string, int) std_map"

definition count_up :: "string \<Rightarrow> (string, int) std_map \<Rightarrow> (string, int) std_map" where
  "count_up k m = map_put k ((case map_get m k of None \<Rightarrow> 0 | Some n \<Rightarrow> n) + 1) m"

definition count_failure :: "(string, string) std_map \<Rightarrow> failure_stats \<Rightarrow> failure_stats option" where
  "count_failure m s = do {
     res \<leftarrow> map_get m ''resolved'';
     s1 \<leftarrow> (if res \<noteq> ''1'' then Some (s\<lparr>unresolved_failures := unresolved_failures s + 1\<rparr>)
           else do {
             rtype \<leftarrow> map_get m ''resolution_type'';
             Some (if rtype = ''auto'' then s\<lparr>auto_resolved := auto_resolved s + 1\<rparr>
                   else s\<lparr>manually_resolved := manually_resolved s + 1\<rparr>) });
     ftype \<leftarrow> map_get m ''failure_type'';
     sev \<leftarrow> map_get m ''severity'';
     Some (s1\<lparr>by_type := count_up ftype (by_type s1), by_severity := count_up sev (by_severity s1)\<rparr>) }"

primrec count_failures :: "(string, string) std_map list \<Rightarrow> failure_stats \<Rightarrow> failure_stats option" where
  "count_failures [] s = Some s"
| "count_failures (m # ms) s = Option.bind (count_failure m s) (count_failures ms)"

definition no_stats :: failure_stats where
  "no_stats = \<lparr>total_failures = 0, unresolved_failures = 0, auto_resolved = 0, manually_resolved = 0, by_type = [], by_severity = []\<rparr>"

definition get_statistics :: "int \<Rightarrow> sqlite option \<Rightarrow> failure_stats option" where
  "get_statistics pid store =
     (case store of
        None \<Rightarrow> Some no_stats
      | Some c \<Rightarrow> let fs = Nexus_Brain_Store.list_failures pid 1000 c
                in count_failures fs (no_stats\<lparr>total_failures := int (length fs)\<rparr>))"

section \<open>Normalised messages\<close>

lemma tolower_code: "isupper c \<Longrightarrow> (of_char (tolower c) :: nat) = of_char c + 32"
  by (simp add: tolower_def isupper_def of_char_of del: of_char_eq_iff)

lemma isspace_code: "isspace c \<Longrightarrow> (of_char c :: nat) \<le> 32"
  by (auto simp: isspace_def)

lemma tolower_not_upper: "\<not> isupper (tolower c)"
proof (cases "isupper c")
  case True
  then show ?thesis using tolower_code [OF True] by (simp add: isupper_def)
qed (simp add: tolower_def)

lemma isspace_tolower: "isspace (tolower c) = isspace c"
proof (cases "isupper c")
  case True
  then have "65 \<le> (of_char c :: nat)" "65 \<le> (of_char (tolower c) :: nat)" by (simp_all add: tolower_code) (simp_all add: isupper_def)
  then show ?thesis using isspace_code [of c] isspace_code [of "tolower c"] by fastforce
qed (simp add: tolower_def)

lemma tolower_blank: "tolower (CHR '' '') = CHR '' ''"
  by (simp add: tolower_def isupper_def)

lemma single_blanks_tolower: "single_blanks s \<Longrightarrow> single_blanks (map tolower s)"
  unfolding single_blanks_def successively_map isspace_tolower
  by (simp add: isspace_tolower) (metis tolower_blank)

text \<open>\<^bold>\<open>C27\<close> Whatever the message was, its normalised form has no upper case letter, and its only blanks are single spaces.\<close>

theorem normalized_form:
  "single_blanks (normalize_error_message e) \<and> filter isupper (normalize_error_message e) = []"
proof -
  let ?n4 = "regex_replace (regex_replace (regex_replace (regex_replace e path_regex ''<PATH>/'') line_regex '':<LINE>:'') hex_regex ''<HEX>'')
    time_regex ''<TIMESTAMP>''"
  let ?n5 = "regex_replace_from (Plus (Class isspace)) True '' '' ?n4"
  have n: "normalize_error_message e = map tolower ?n5" by (simp add: normalize_error_message_def regex_replace_def)
  have "single_blanks ?n5" using replace_runs by blast
  from single_blanks_tolower [OF this] show ?thesis unfolding n by (simp add: tolower_not_upper)
qed

section \<open>Line numbers do not count\<close>

lemma path_regex_props: "avoids (CHR '':'') path_regex" "consumes path_regex" "c \<noteq> CHR ''/'' \<Longrightarrow> attempts path_regex (b, c # z, g) = []"
  by (simp_all add: path_regex_def Plus_def)

lemma line_regex_leads:
  assumes "d \<noteq> []" "\<forall>c\<in>set d. isdigit c"
  shows "leads line_regex (b, ('':'' @ d @ '':'') @ y, Map.empty) (False, y, [1 \<mapsto> d])"
proof -
  have colon: "\<not> isdigit (CHR '':'')" by (simp add: isdigit_def)
  have l: "leads (Lit (CHR '':'')) (b', CHR '':'' # s, g) (False, s, g)" for b' s g by (simp add: leads_def)
  have "leads (Plus (Class isdigit)) (False, d @ CHR '':'' # y, Map.empty) (False, CHR '':'' # y, Map.empty)"
    using leads_Plus_Class [of d isdigit "CHR '':'' # y"] assms colon by simp
  from leads_Group [OF this, of 1]
  have "leads (Group 1 (Plus (Class isdigit))) (False, d @ CHR '':'' # y, Map.empty) (False, CHR '':'' # y, [1 \<mapsto> d])" .
  from leads_Seq [OF l leads_Seq [OF this l]] show ?thesis by (simp add: line_regex_def)
qed

lemma normalized_line:
  assumes "CHR '':'' \<notin> set x" "d \<noteq> []" "\<forall>c\<in>set d. isdigit c"
  shows "\<exists>x' y'. CHR '':'' \<notin> set x' \<and> regex_replace (regex_replace (x @ '':'' @ d @ '':'' @ y) path_regex ''<PATH>/'') line_regex '':<LINE>:'' =
      x' @ '':<LINE>:'' @ y' \<and>
      x' = regex_replace x path_regex ''<PATH>/'' \<and>
      y' = regex_replace_from line_regex False '':<LINE>:'' (regex_replace_from path_regex False ''<PATH>/'' y)"
proof -
  let ?P = "\<lambda>b. regex_replace_from path_regex b ''<PATH>/''"
  have slash: "\<not> isdigit (CHR ''/'')" by (simp add: isdigit_def)
  have "?P False d = d"
    using assms(3) slash by (intro replace_no_match search_from_none path_regex_props) auto
  then have path: "?P True (x @ '':'' @ d @ '':'' @ y) = ?P True x @ ('':'' @ d @ '':'') @ ?P False y"
    using replace_barrier [OF path_regex_props(1,2), of True "''<PATH>/''" x "d @ '':'' @ y"]
      replace_barrier [OF path_regex_props(1,2), of False "''<PATH>/''" d y] by simp
  have x: "CHR '':'' \<notin> set (?P True x)" using set_replace [of path_regex True "''<PATH>/''" x] assms(1) by auto
  have "regex_replace_from line_regex True '':<LINE>:'' (?P True x @ ('':'' @ d @ '':'') @ ?P False y) =
      ?P True x @ '':<LINE>:'' @ regex_replace_from line_regex False '':<LINE>:'' (?P False y)"
    using x by (intro replace_at [OF line_regex_leads [OF assms(2,3)]]) (auto simp: line_regex_def)
  then show ?thesis using x unfolding regex_replace_def path by blast
qed

lemma error_core_line:
  assumes "nl \<notin> set l" "l \<noteq> []"
  shows "extract_error_core l = l"
proof -
  have "getlines nl l = [l]" using getlines_single assms by blast
  then show ?thesis using assms(2) by (simp add: extract_error_core_def Let_def)
qed

text \<open>The first line number of a one line error message has no influence on its signature: the same error in a file that grew is
the same failure.\<close>

lemma signature_ignores_line_number:
  assumes "CHR '':'' \<notin> set x" "nl \<notin> set x" "nl \<notin> set y" "d \<noteq> []" "\<forall>c\<in>set d. isdigit c" "d' \<noteq> []" "\<forall>c\<in>set d'. isdigit c"
  shows "compute_error_signature (x @ '':'' @ d @ '':'' @ y) = compute_error_signature (x @ '':'' @ d' @ '':'' @ y)"
proof -
  have "\<not> isdigit nl" by (simp add: isdigit_def nl_def)
  then have "nl \<notin> set d" "nl \<notin> set d'" using assms(5,7) by auto
  then have core: "extract_error_core (x @ '':'' @ e @ '':'' @ y) = x @ '':'' @ e @ '':'' @ y" if "e = d \<or> e = d'" for e
    using that assms(2,3) by (intro error_core_line) (auto simp: nl_def)
  obtain x1 y1 where "regex_replace (regex_replace (x @ '':'' @ d @ '':'' @ y) path_regex ''<PATH>/'') line_regex '':<LINE>:'' = x1 @ '':<LINE>:'' @ y1"
    "x1 = regex_replace x path_regex ''<PATH>/''"
    "y1 = regex_replace_from line_regex False '':<LINE>:'' (regex_replace_from path_regex False ''<PATH>/'' y)"
    using normalized_line [OF assms(1,4,5), of y] by (elim exE conjE)
  moreover obtain x2 y2 where "regex_replace (regex_replace (x @ '':'' @ d' @ '':'' @ y) path_regex ''<PATH>/'') line_regex '':<LINE>:'' = x2 @ '':<LINE>:'' @ y2"
    "x2 = regex_replace x path_regex ''<PATH>/''"
    "y2 = regex_replace_from line_regex False '':<LINE>:'' (regex_replace_from path_regex False ''<PATH>/'' y)"
    using normalized_line [OF assms(1,6,7), of y] by (elim exE conjE)
  ultimately have "normalize_error_message (x @ '':'' @ d @ '':'' @ y) = normalize_error_message (x @ '':'' @ d' @ '':'' @ y)"
    unfolding normalize_error_message_def Let_def by simp
  then show ?thesis using core [of d] core [of d'] by (simp add: compute_error_signature_def)
qed

lemma signature_ignores_line_number_example:
  "compute_error_signature ''a.c:12: error: x'' = compute_error_signature ''a.c:7: error: x''"
proof -
  have d: "\<forall>c\<in>set ''12''. isdigit c" "\<forall>c\<in>set ''7''. isdigit c" by (simp_all add: isdigit_def)
  show ?thesis using signature_ignores_line_number [of "''a.c''" "'' error: x''" "''12''" "''7''"] d by (simp add: nl_def)
qed

text \<open>The column number does count: it follows the line number directly, and the colon between them is already taken.\<close>

lemma normalized_column:
  assumes "c = CHR ''2'' \<or> c = CHR ''3''"
  shows "normalize_error_message (''a:1:'' @ c # '': x'') = ''a:<line>:'' @ c # '': x''"
proof -
  have c: "isdigit c" "c \<noteq> CHR ''/''" "c \<noteq> CHR '':''" "c \<noteq> CHR ''0''" "tolower c = c" "\<not> isspace c"
    using assms by (auto simp: isdigit_def tolower_def isupper_def isspace_def)
  have path: "regex_replace_from path_regex b by s = s" if "CHR ''/'' \<notin> set s" for b "by" s
    using that by (intro replace_no_match search_from_none path_regex_props) auto
  have line: "regex_replace_from line_regex False by (c # '': x'') = c # '': x''" for "by"
    using c(3) by (intro replace_no_match) (simp add: search_from.simps line_regex_def Plus_def isdigit_def)
  let ?t = "''a:<LINE>:'' @ c # '': x''"
  have "regex_replace (regex_replace (''a:1:'' @ c # '': x'') path_regex ''<PATH>/'') line_regex '':<LINE>:'' = ?t"
    using normalized_line [of "''a''" "''1''" "c # '': x''"] c(2) path [of "c # '': x''"] path [of "''a''" True] line
    by (simp add: isdigit_def regex_replace_def)
  moreover have "regex_replace ?t hex_regex ''<HEX>'' = ?t"
    unfolding regex_replace_def using c(4) by (intro replace_no_match search_from_none) (auto simp: hex_regex_def Plus_def)
  moreover have "regex_replace ?t time_regex ''<TIMESTAMP>'' = ?t"
    unfolding regex_replace_def
    by (intro replace_no_match) (simp add: search_from.simps time_regex_def Times_def isdigit_def numeral_eq_Suc)
  moreover have "regex_replace ?t (Plus (Class isspace)) '' '' = ?t"
  proof -
    have "regex_replace_from (Plus (Class isspace)) True '' '' ((''a:<LINE>:'' @ c # '':'') @ '' '' @ ''x'') =
        (''a:<LINE>:'' @ c # '':'') @ '' '' @ regex_replace_from (Plus (Class isspace)) False '' '' ''x''"
    proof (rule replace_at [OF leads_Plus_Class])
      show "attempts (Plus (Class isspace)) (b, d # z, Map.empty) = []" if "d \<in> set (''a:<LINE>:'' @ c # '':'')" for d b z
      proof (rule attempts_Plus_Class_fail)
        have "\<not> isspace d" using that c(6) by (auto simp: isspace_def)
        then show "d # z = [] \<or> \<not> isspace (hd (d # z))" by simp
      qed
    qed (simp_all add: isspace_def)
    moreover have "regex_replace_from (Plus (Class isspace)) False '' '' ''x'' = ''x''"
      by (rule replace_no_match [OF search_no_run]) (simp add: isspace_def)
    ultimately show ?thesis by (simp add: regex_replace_def)
  qed
  ultimately have "normalize_error_message (''a:1:'' @ c # '': x'') = map tolower ?t"
    unfolding normalize_error_message_def Let_def by simp
  moreover have "map tolower ''a:<LINE>:'' = ''a:<line>:''" "map tolower '': x'' = '': x''" by code_simp+
  ultimately show ?thesis using c(5) by simp
qed

lemma column_counts: "compute_error_signature ''a:1:2: x'' \<noteq> compute_error_signature ''a:1:3: x''"
proof -
  have "extract_error_core (''a:1:'' @ c # '': x'') = ''a:1:'' @ c # '': x''" if "c = CHR ''2'' \<or> c = CHR ''3''" for c
    using that by (intro error_core_line) (auto simp: nl_def)
  moreover have "content_hash (''a:<line>:'' @ CHR ''2'' # '': x'') \<noteq> content_hash (''a:<line>:'' @ CHR ''3'' # '': x'')"
    unfolding hash_single_byte by simp
  then have "hex_nat (unat (content_hash (''a:<line>:'' @ CHR ''2'' # '': x''))) \<noteq> hex_nat (unat (content_hash (''a:<line>:'' @ CHR ''3'' # '': x'')))"
    using hex_nat_inj by (auto simp: word_unat_eq_iff)
  ultimately show ?thesis
    using normalized_column [of "CHR ''2''"] normalized_column [of "CHR ''3''"] by (simp add: compute_error_signature_def)
qed

section \<open>Statistics\<close>

abbreviation total_of :: "(string, int) std_map \<Rightarrow> int" where
  "total_of m \<equiv> sum_list (map snd m)"

lemma total_map_put:
  "std_map_wf m \<Longrightarrow> total_of (map_put k v m) = total_of m - (case map_get m k of None \<Rightarrow> 0 | Some n \<Rightarrow> n) + v"
proof (induction m)
  case (Cons kv m)
  obtain k' v' where kv: "kv = (k', v')" by (cases kv)
  have "map_get m k = None" if "k < k'"
    using Cons.prems that unfolding kv by (force simp: std_map_wf_def map_get_def map_of_eq_None_iff)
  moreover have "std_map_wf m" using Cons.prems by (simp add: std_map_wf_def)
  ultimately show ?case using Cons.IH by (auto simp: kv map_get_def)
qed (simp add: map_get_def)

lemma total_count_up: "std_map_wf m \<Longrightarrow> total_of (count_up k m) = total_of m + 1 \<and> std_map_wf (count_up k m)"
  by (simp add: count_up_def total_map_put std_map_wf_put split: option.split)

definition stats_ok :: "int \<Rightarrow> failure_stats \<Rightarrow> bool" where
  "stats_ok n s \<longleftrightarrow> n = unresolved_failures s + auto_resolved s + manually_resolved s \<and> total_of (by_type s) = n \<and>
     total_of (by_severity s) = n \<and> std_map_wf (by_type s) \<and> std_map_wf (by_severity s)"

lemma count_listed_failure:
  "stats_ok n s \<Longrightarrow> \<exists>s'. count_failure (row_map listed_failure_columns r) s = Some s' \<and> stats_ok (n + 1) s' \<and> total_failures s' = total_failures s"
  by (auto simp: count_failure_def map_get_row_map listed_failure_columns_def stats_ok_def total_count_up)

lemma count_listed_failures:
  "stats_ok n s \<Longrightarrow> \<exists>s'. count_failures (map (row_map listed_failure_columns) rs) s = Some s' \<and> stats_ok (n + int (length rs)) s' \<and>
     total_failures s' = total_failures s"
proof (induction rs arbitrary: n s)
  case (Cons r rs)
  from count_listed_failure [OF Cons.prems, of r] obtain s1 where s1: "count_failure (row_map listed_failure_columns r) s = Some s1"
    "stats_ok (n + 1) s1" "total_failures s1 = total_failures s" by blast
  from Cons.IH [OF s1(2)] s1 show ?case by (auto simp: add.assoc)
qed simp

text \<open>The statistics of a project are never an exception and add up: every failure counted is unresolved, resolved
automatically or resolved by hand, and is counted under one type and one severity; at most 1000 are counted.\<close>

lemma statistics_add_up:
  "\<exists>s. get_statistics pid store = Some s \<and> total_failures s = unresolved_failures s + auto_resolved s + manually_resolved s \<and>
     total_of (by_type s) = total_failures s \<and> total_of (by_severity s) = total_failures s \<and> total_failures s \<le> 1000 \<and>
     total_failures s = int (length (list_failures pid 1000 store))"
proof (cases store)
  case None
  then show ?thesis by (simp add: get_statistics_def no_stats_def list_failures_def)
next
  case (Some c)
  let ?rs = "limit_rows 1000 (order_desc ''timestamp'' (select ''workspace_failures'' (eq_int ''project_id'' pid) c))"
  have fs: "Nexus_Brain_Store.list_failures pid 1000 c = map (row_map listed_failure_columns) ?rs"
    by (simp add: Nexus_Brain_Store.list_failures_def)
  have "stats_ok 0 (no_stats\<lparr>total_failures := int (length ?rs)\<rparr>)" by (simp add: stats_ok_def no_stats_def std_map_wf_def)
  from count_listed_failures [OF this, of ?rs] obtain s where "count_failures (map (row_map listed_failure_columns) ?rs)
      (no_stats\<lparr>total_failures := int (length ?rs)\<rparr>) = Some s" "stats_ok (int (length ?rs)) s" "total_failures s = int (length ?rs)"
    by auto
  moreover have "length ?rs \<le> 1000" by (simp add: limit_rows_def)
  ultimately show ?thesis using Some fs by (auto simp: get_statistics_def stats_ok_def list_failures_def)
qed

end
