(* ===== verification/Workspace_Restore.thy ===== *)
theory Workspace_Restore
  imports Workspace_Records
begin

text \<open>
  What restoring a snapshot does to the project directory: which files a run can write, that the smart
  mode never overwrites a source file that is still there, and that a full restore after a snapshot gives back
  every recorded file.
\<close>

section \<open>Files of a tree\<close>

lemma map_of_overwrite:
  "map_of (map (\<lambda>(q, g). (q, if q = p then f else g)) xs) q = map_option (\<lambda>g. if q = p then f else g) (map_of xs q)"
  by (induction xs) auto

lemma file_at_write [simp]: "file_at (write_file p f D) q = (if q = p then Some f else file_at D q)"
  by (auto simp: file_at_def write_file_def map_of_overwrite map_add_def split: option.splits)

lemma tfiles_ensure_directory [simp]: "tfiles (fst (ensure_directory e p D)) = tfiles D"
  by (simp add: ensure_directory_def)

lemma file_at_ensure_directory [simp]: "file_at (fst (ensure_directory e p D)) q = file_at D q"
  by (simp add: file_at_def)

lemma copy_file_frame: "q \<noteq> dst \<Longrightarrow> file_at (fst (copy_file e now src dst D)) q = file_at D q"
  by (simp add: copy_file_def split: option.split copy_outcome.split)

lemma ensure_directory_case:
  obtains D' b where "ensure_directory e p D = (D', b)" "tfiles D' = tfiles D" "\<And>q. file_at D' q = file_at D q"
  using tfiles_ensure_directory [of e p D] file_at_ensure_directory [of e p D]
  by (cases "ensure_directory e p D") simp

lemma restore_file_frame:
  "q \<noteq> rel \<or> dry \<Longrightarrow> file_at (fst (restore_file e now dry sid files rel st)) q = file_at (fst st) q"
proof -
  assume q: "q \<noteq> rel \<or> dry"
  obtain D r where st: "st = (D, r)" by (cases st)
  obtain D' b where D': "ensure_directory e (parent_path rel) D = (D', b)" "tfiles D' = tfiles D" "\<And>q. file_at D' q = file_at D q"
    using ensure_directory_case [of e "parent_path rel" D] by blast
  have "file_at (fst (copy_file e now (stored_path sid rel) rel D')) q = file_at D q" if "q \<noteq> rel"
    using copy_file_frame [OF that] D'(3) by simp
  then show ?thesis using q unfolding st by (auto simp: restore_file_def Let_def D' split: bool.split prod.split)
qed

lemma restore_files_frame:
  "q \<notin> set paths \<or> dry \<Longrightarrow> file_at (fst (fold (restore_file e now dry sid files) paths st)) q = file_at (fst st) q"
proof (induction paths arbitrary: st)
  case (Cons rel paths)
  let ?st = "restore_file e now dry sid files rel st"
  have "file_at (fst ?st) q = file_at (fst st) q" using Cons.prems by (intro restore_file_frame) auto
  moreover have "file_at (fst (fold (restore_file e now dry sid files) paths ?st)) q = file_at (fst ?st) q"
    using Cons.prems by (intro Cons.IH) auto
  ultimately show ?case by simp
qed simp

lemma run_restore_disk:
  "wdisk (fst (run_restore e now ms pid sid opts files cand root w)) =
     (wdisk w)(root := fst (fold (restore_file e now (dry_run opts) sid files) (sort (fst cand))
        (wdisk w root, no_result\<lparr>files_skipped := snd cand\<rparr>)))"
  by (auto simp: run_restore_def Let_def split: prod.splits)

section \<open>Candidates\<close>

lemma add_candidate_mem:
  "q \<in> set (fst (add_candidate opts p acc)) \<longleftrightarrow> q \<in> set (fst acc) \<or> (q = p \<and> should_include opts p)"
  by (auto simp: add_candidate_def)

lemma add_candidates_mem:
  "q \<in> set (fst (fold (add_candidate opts) ps acc)) \<longleftrightarrow> q \<in> set (fst acc) \<or> (q \<in> set ps \<and> should_include opts q)"
  by (induction ps arbitrary: acc) (auto simp: add_candidate_mem)

definition considered :: "restore_options \<Rightarrow> bool \<Rightarrow> file_change \<Rightarrow> bool" where
  "considered opts all ch \<longleftrightarrow> fc_type ch = ADDED \<or> (all \<and> fc_type ch = MODIFIED) \<or> wanted opts (fc_path ch)"

lemma consider_changes_mem:
  "q \<in> set (fst (fold (consider_change opts files all) chs acc)) \<longleftrightarrow>
     q \<in> set (fst acc) \<or> (file_lookup files q \<noteq> None \<and> should_include opts q \<and>
       (\<exists>ch\<in>set chs. fc_path ch = q \<and> considered opts all ch))"
proof (induction chs arbitrary: acc)
  case (Cons ch chs)
  have "q \<in> set (fst (consider_change opts files all ch acc)) \<longleftrightarrow>
      q \<in> set (fst acc) \<or> (file_lookup files q \<noteq> None \<and> should_include opts q \<and> fc_path ch = q \<and> considered opts all ch)"
    by (auto simp: consider_change_def add_candidate_mem considered_def)
  then show ?case using Cons by auto
qed simp

lemma file_lookup_scan:
  assumes "permutes e" "scan_stop e = None" "file_at D q \<noteq> None" "scanned opts q"
  shows "file_lookup (scan_workspace e D opts) q \<noteq> None"
proof -
  have "set (walk e (tfiles D)) = set (tfiles D)" using assms(1) unfolding permutes_def by (metis mset_eq_setD)
  moreover have "q \<in> fst ` set (tfiles D)" using assms(3) by (auto simp: file_at_def dest: map_of_SomeD intro: rev_image_eqI)
  ultimately have "q \<in> wf_path ` set (scan_workspace e D opts)"
    using assms(2,4) by (force simp: scan_workspace_def walked_def file_record_def image_iff)
  then show ?thesis using file_lookup_None by blast
qed

lemma change_of_both:
  "change_of (Some a) (Some f) q = Some (t, ch) \<Longrightarrow> t = wf_type f \<and> fc_type ch = MODIFIED \<and> wf_hash a \<noteq> wf_hash f"
  by (auto simp: change_of_def split: if_splits)

lemma smart_candidate:
  assumes "permutes e" "restore_mode opts = ''smart''"
    and "get_project pid (wdb w) = Some p" "get_snapshot sid (wdb w) = Some (Some s)"
    and "restore_candidates e pid sid opts (ws_files s) w = Some cand" "q \<in> set (fst cand)"
    and "file_lookup (scan_workspace e (wdisk w (root_path p)) scan_opts) q = Some a" "file_lookup (ws_files s) q = Some f"
  shows "wf_hash a \<noteq> wf_hash f \<and> should_include opts q \<and> (wf_type f \<noteq> SOURCE \<or> wanted opts q)"
proof -
  let ?cur = "current_snapshot e pid (wdisk w (root_path p))"
  let ?d = "compute_snapshot_diff e ?cur s"
  let ?chs = "build_changes ?d @ dep_changes ?d @ config_changes ?d @ other_changes ?d"
  have cand: "cand = fold (consider_change opts (ws_files s) False) (source_changes ?d)
      (fold (consider_change opts (ws_files s) True) ?chs ([], 0))"
    using assms(2-5) by (simp add: restore_candidates_def diff_current_def)
  have cat: "source_changes ?d = changes_in SOURCE ?d" "build_changes ?d = changes_in BUILD_FILE ?d"
    "dep_changes ?d = changes_in DEPENDENCY ?d" "config_changes ?d = changes_in CONFIG ?d"
    "other_changes ?d = changes_in UNKNOWN_FILE ?d" by (simp_all add: changes_in_def)
  have ch: "t = wf_type f \<and> fc_type ch = MODIFIED \<and> wf_hash a \<noteq> wf_hash f"
    if "ch \<in> set (changes_in t ?d)" "fc_path ch = q" for t ch
  proof (rule change_of_both)
    have "file_lookup (ws_files ?cur) q = Some a" using assms(7) by (simp add: current_snapshot_def)
    then show "change_of (Some a) (Some f) q = Some (t, ch)"
      using that assms(8) diff_changes [OF assms(1), of ch t ?cur s] by simp
  qed
  have "should_include opts q" and
    mem: "(\<exists>ch\<in>set (source_changes ?d). fc_path ch = q \<and> considered opts False ch) \<or> (\<exists>ch\<in>set ?chs. fc_path ch = q \<and> considered opts True ch)"
    using assms(6) unfolding cand consider_changes_mem by auto
  moreover from mem have "wf_hash a \<noteq> wf_hash f" and "wf_type f \<noteq> SOURCE \<or> wanted opts q"
    unfolding cat set_append considered_def using ch by fastforce+
  ultimately show ?thesis by simp
qed

lemma restore_writes_candidates:
  assumes "restore e now ms pid sid opts w = Some (w', r)" "get_project pid (wdb w) = Some p"
    "get_snapshot sid (wdb w) = Some (Some s)" "file_at (wdisk w' (root_path p)) q \<noteq> file_at (wdisk w (root_path p)) q"
  shows "\<not> dry_run opts \<and> (\<exists>cand. restore_candidates e pid sid opts (ws_files s) w = Some cand \<and> q \<in> set (fst cand))"
proof -
  have "w' \<noteq> w" using assms(4) by auto
  then obtain cand where cand: "restore_candidates e pid sid opts (ws_files s) w = Some cand"
    and w': "w' = fst (run_restore e now ms pid sid opts (ws_files s) cand (root_path p) w)"
    using assms(1-3) by (auto simp: restore_def Let_def bind_eq_Some_conv split: if_splits)
  have "q \<in> set (fst cand) \<and> \<not> dry_run opts"
  proof (rule ccontr)
    assume "\<not> ?thesis"
    then have "q \<notin> set (sort (fst cand)) \<or> dry_run opts" by auto
    from restore_files_frame [OF this, of e now sid "ws_files s" "(wdisk w (root_path p), no_result\<lparr>files_skipped := snd cand\<rparr>)"]
    show False using assms(4) unfolding w' run_restore_disk by simp
  qed
  with cand show ?thesis by blast
qed

text \<open>
  \<^bold>\<open>C11\<close> A smart restore never changes a source file that is still in the project, unless the caller asked
  for its path: if the snapshot records the file as source and the scan of the directory completes, the file keeps
  its content, whatever happens to the copies, the database and the other files. A dry run changes no file at all.
\<close>

theorem smart_restore_keeps_sources:
  assumes "restore e now ms pid sid opts w = Some (w', r)" "permutes e" "scan_stop e = None"
    and "get_project pid (wdb w) = Some p" "get_snapshot sid (wdb w) = Some (Some s)"
    and "restore_mode opts = ''smart''" "file_lookup (ws_files s) q = Some f" "wf_type f = SOURCE"
    and "file_at (wdisk w (root_path p)) q \<noteq> None" "scanned scan_opts q" "include_paths opts = [] \<or> \<not> wanted opts q"
  shows "file_at (wdisk w' (root_path p)) q = file_at (wdisk w (root_path p)) q"
proof (rule ccontr)
  assume "\<not> ?thesis"
  then obtain cand where "restore_candidates e pid sid opts (ws_files s) w = Some cand" "q \<in> set (fst cand)"
    using restore_writes_candidates [OF assms(1,4,5)] by blast
  moreover obtain a where "file_lookup (scan_workspace e (wdisk w (root_path p)) scan_opts) q = Some a"
    using file_lookup_scan [OF assms(2,3,9,10)] by blast
  ultimately have "wanted opts q" using smart_candidate [OF assms(2,6,4,5)] assms(7,8) by blast
  then show False using assms(11) by (auto simp: wanted_def)
qed

section \<open>Copying a list of files\<close>

lemma below_iff: "below p f \<longleftrightarrow> (\<exists>r. f = p @ ''/'' @ r)"
proof
  assume "below p f"
  then have "f = (p @ ''/'') @ drop (length p + 1) f" unfolding below_def by (metis append_take_drop_id)
  then show "\<exists>r. f = p @ ''/'' @ r" by (metis append.assoc)
qed (auto simp: below_def)

lemma below_trans: "below a b \<Longrightarrow> below b c \<Longrightarrow> below a c"
  by (auto simp: below_iff)

lemma parent_split: "parent_path p \<noteq> [] \<Longrightarrow> below (parent_path p) p"
proof -
  let ?r = "dropWhile (\<lambda>c. c \<noteq> CHR ''/'') (rev p)"
  assume "parent_path p \<noteq> []"
  then have "?r \<noteq> []" by (metis drop_Nil parent_path_def rev.simps(1))
  then obtain r where r: "?r = CHR ''/'' # r" using hd_dropWhile [of "\<lambda>c. c \<noteq> CHR ''/''" "rev p"] by (cases ?r) auto
  have "rev p = takeWhile (\<lambda>c. c \<noteq> CHR ''/'') (rev p) @ CHR ''/'' # r" using r by (metis takeWhile_dropWhile_id)
  then have "p = rev r @ ''/'' @ rev (takeWhile (\<lambda>c. c \<noteq> CHR ''/'') (rev p))"
    by (metis append.assoc append_Cons append_Nil rev.simps(2) rev_append rev_rev_ident)
  moreover have "parent_path p = rev r" by (simp add: parent_path_def r)
  ultimately show ?thesis unfolding below_iff by metis
qed

lemma below_parent: "below a (parent_path b) \<Longrightarrow> below a b"
proof -
  assume "below a (parent_path b)"
  then have "parent_path b \<noteq> []" by (auto simp: below_iff)
  then show ?thesis using \<open>below a (parent_path b)\<close> parent_split below_trans by blast
qed

text \<open>A target that can be written: it is no directory and no file is in the way of its parent directories.\<close>

definition clear :: "tree \<Rightarrow> string \<Rightarrow> bool" where
  "clear D d \<longleftrightarrow> \<not> is_directory D d \<and> (\<forall>g\<in>fst ` set (tfiles D). g \<noteq> parent_path d \<and> \<not> below g (parent_path d))"

definition apart :: "string \<Rightarrow> string \<Rightarrow> bool" where
  "apart a b \<longleftrightarrow> a \<noteq> b \<and> \<not> below a b \<and> \<not> below b a"

definition working :: "os \<Rightarrow> bool" where
  "working e \<longleftrightarrow> (\<forall>p. mkdir_ok e p) \<and> (\<forall>a b. copy_result e a b = Copied)"

definition put :: "os \<Rightarrow> int \<Rightarrow> string \<times> string \<Rightarrow> tree \<Rightarrow> tree" where
  "put e now sd D = fst (copy_file e now (fst sd) (snd sd) (fst (ensure_directory e (parent_path (snd sd)) D)))"

lemma set_tfiles_write: "fst ` set (tfiles (write_file p f D)) = insert p (fst ` set (tfiles D))"
proof (cases "file_at D p = None")
  case False
  then have "p \<in> fst ` set (tfiles D)" by (auto simp: file_at_def intro: rev_image_eqI dest: map_of_SomeD)
  moreover have "fst ` set (map (\<lambda>(q, g). (q, if q = p then f else g)) (tfiles D)) = fst ` set (tfiles D)"
    by (force simp: image_iff)
  ultimately show ?thesis using False by (simp add: write_file_def insert_absorb)
qed (simp add: write_file_def)

lemma is_directory_iff:
  "is_directory D p \<longleftrightarrow> p \<in> set (tdirs D) \<or> (\<exists>x\<in>set (tdirs D) \<union> fst ` set (tfiles D). below p x)"
  by (auto simp: is_directory_def list_ex_iff)

lemma put_steps:
  assumes "working e" "clear D d" "d \<noteq> []" "file_at D s = Some f"
  shows "\<exists>D1. ensure_directory e (parent_path d) D = (D1, True) \<and> tfiles D1 = tfiles D \<and>
      set (tdirs D1) \<subseteq> insert (parent_path d) (set (tdirs D)) \<and> (set (tdirs D1) = set (tdirs D) \<or> parent_path d \<noteq> []) \<and>
      copy_file e now s d D1 = (put e now (s, d) D, True) \<and> put e now (s, d) D = write_file d \<lparr>fe_data = fe_data f, fe_mtime = now\<rparr> D1"
proof -
  obtain D1 b where D1: "ensure_directory e (parent_path d) D = (D1, b)" "tfiles D1 = tfiles D"
    using ensure_directory_case [of e "parent_path d" D] by metis
  have b: b "set (tdirs D1) \<subseteq> insert (parent_path d) (set (tdirs D))" "set (tdirs D1) = set (tdirs D) \<or> parent_path d \<noteq> []"
    using assms(1,2) D1(1) by (auto simp: ensure_directory_def working_def clear_def list_ex_iff split: if_splits)
  have "\<not> below d (parent_path d)" using below_parent [of d d] by (auto simp: below_iff)
  moreover have "d \<noteq> parent_path d" using parent_split [of d] assms(3) by (auto simp: below_iff)
  ultimately have "\<not> is_directory D1 d" using assms(2) b(2) D1(2) by (auto simp: clear_def is_directory_iff)
  moreover have "file_at D1 s = Some f" using assms(4) D1(2) by (simp add: file_at_def)
  ultimately have "copy_file e now s d D1 = (write_file d \<lparr>fe_data = fe_data f, fe_mtime = now\<rparr> D1, True)"
    using assms(1) by (simp add: copy_file_def working_def)
  then show ?thesis using D1 b by (auto simp: put_def)
qed

lemma file_at_put:
  assumes "working e" "clear D d" "d \<noteq> []" "file_at D s = Some f"
  shows "file_at (put e now (s, d) D) q = (if q = d then Some \<lparr>fe_data = fe_data f, fe_mtime = now\<rparr> else file_at D q)"
proof -
  obtain D1 where D1: "tfiles D1 = tfiles D" "put e now (s, d) D = write_file d \<lparr>fe_data = fe_data f, fe_mtime = now\<rparr> D1"
    using put_steps [OF assms, of now] by blast
  have "file_at D1 q = file_at D q" by (simp add: file_at_def D1(1))
  then show ?thesis by (simp add: D1(2))
qed

lemma clear_put:
  assumes "working e" "clear D d" "d \<noteq> []" "file_at D s = Some f" "clear D d'" "apart d d'" "d' \<noteq> []"
  shows "clear (put e now (s, d) D) d'"
proof -
  obtain D1 where D1: "tfiles D1 = tfiles D" "set (tdirs D1) \<subseteq> insert (parent_path d) (set (tdirs D))"
    "set (tdirs D1) = set (tdirs D) \<or> parent_path d \<noteq> []"
    "put e now (s, d) D = write_file d \<lparr>fe_data = fe_data f, fe_mtime = now\<rparr> D1"
    using put_steps [OF assms(1-4), of now] by blast
  have names: "fst ` set (tfiles (put e now (s, d) D)) = insert d (fst ` set (tfiles D))"
    "tdirs (put e now (s, d) D) = tdirs D1"
    by (simp add: D1(4) set_tfiles_write D1(1), simp add: D1(4) write_file_def)
  have "d' \<noteq> parent_path d \<or> parent_path d = []" "\<not> below d' (parent_path d)" "\<not> below d' d"
    using assms(6) parent_split [of d] below_parent [of d' d] by (auto simp: apart_def)
  then have "\<not> is_directory (put e now (s, d) D) d'"
    using assms(5,7) D1(2,3) unfolding is_directory_iff names clear_def by blast
  moreover have "d \<noteq> parent_path d'" "\<not> below d (parent_path d')"
    using assms(3,6) parent_split [of d'] below_parent [of d d'] by (auto simp: apart_def)
  ultimately show ?thesis using assms(5) unfolding clear_def names by blast
qed

text \<open>A list of copies that do not disturb one another.\<close>

definition plan_ok :: "tree \<Rightarrow> (string \<times> string) list \<Rightarrow> bool" where
  "plan_ok D ps \<longleftrightarrow> sorted_wrt apart (map snd ps) \<and>
     (\<forall>sd\<in>set ps. snd sd \<noteq> [] \<and> clear D (snd sd) \<and> file_at D (fst sd) \<noteq> None \<and> fst sd \<notin> snd ` set ps)"

lemma plan_step:
  assumes "working e" "plan_ok D (sd # ps)"
  shows "plan_ok (put e now sd D) ps"
proof -
  obtain s d where sd: "sd = (s, d)" by (cases sd)
  from assms(2) have 1: "clear D d" "d \<noteq> []" "\<forall>x\<in>set ps. apart d (snd x)" "sorted_wrt apart (map snd ps)"
    and 2: "\<And>x. x \<in> set ps \<Longrightarrow> snd x \<noteq> [] \<and> clear D (snd x) \<and> file_at D (fst x) \<noteq> None \<and> fst x \<notin> snd ` set (sd # ps)"
    by (auto simp: plan_ok_def sd)
  obtain f where f: "file_at D s = Some f" using assms(2) by (auto simp: plan_ok_def sd)
  have "file_at (put e now sd D) (fst x) = file_at D (fst x)" if "x \<in> set ps" for x
    unfolding sd using file_at_put [OF assms(1) 1(1,2) f, of now "fst x"] 2 [OF that] by (simp add: sd)
  moreover have "clear (put e now sd D) (snd x)" if "x \<in> set ps" for x
    unfolding sd using clear_put [OF assms(1) 1(1,2) f] 2 [OF that] 1(3) that by blast
  ultimately show ?thesis using 1(4) 2 by (auto simp: plan_ok_def)
qed

lemma file_at_puts:
  assumes "working e" "plan_ok D ps"
  shows "file_at (fold (put e now) ps D) q =
     (case map_of (map (\<lambda>(s, d). (d, s)) ps) q of
        None \<Rightarrow> file_at D q
      | Some s \<Rightarrow> map_option (\<lambda>f. \<lparr>fe_data = fe_data f, fe_mtime = now\<rparr>) (file_at D s))"
  using assms(2)
proof (induction ps arbitrary: D)
  case (Cons sd ps)
  obtain s d where sd: "sd = (s, d)" by (cases sd)
  obtain f where f: "clear D d" "d \<noteq> []" "file_at D s = Some f" using Cons.prems by (auto simp: plan_ok_def sd)
  note at = file_at_put [OF assms(1) f, of now]
  have "file_at (put e now sd D) s' = file_at D s'" if "map_of (map (\<lambda>(s, d). (d, s)) ps) q = Some s'" for s'
  proof -
    have "(s', q) \<in> set ps" using map_of_SomeD [OF that] by auto
    then have "s' \<noteq> d" using Cons.prems by (force simp: plan_ok_def sd)
    then show ?thesis using at [of s'] by (simp add: sd)
  qed
  moreover have "map_of (map (\<lambda>(s, d). (d, s)) ps) d = None"
    using Cons.prems by (auto simp: plan_ok_def sd apart_def map_of_eq_None_iff image_iff)
  ultimately show ?case using Cons.IH [OF plan_step [OF assms(1) Cons.prems, of now]] at f(3)
    by (auto simp: sd split: option.splits)
qed simp

section \<open>Storing and restoring copies\<close>

lemma persist_is_put:
  assumes "working e" "plan_ok D (map (\<lambda>f. (wf_path f, stored_path sid (wf_path f))) files)"
  shows "fold (persist_file e now sid) files D = fold (put e now) (map (\<lambda>f. (wf_path f, stored_path sid (wf_path f))) files) D"
  using assms(2)
proof (induction files arbitrary: D)
  case (Cons f files)
  let ?s = "wf_path f" and ?d = "stored_path sid (wf_path f)"
  obtain g where g: "clear D ?d" "?d \<noteq> []" "file_at D ?s = Some g" using Cons.prems by (auto simp: plan_ok_def)
  obtain D1 where "ensure_directory e (parent_path ?d) D = (D1, True)" "copy_file e now ?s ?d D1 = (put e now (?s, ?d) D, True)"
    using put_steps [OF assms(1) g, of now] by blast
  then have "persist_file e now sid f D = put e now (?s, ?d) D" using g(3) by (simp add: persist_file_def fs_present_def)
  then show ?case using Cons.IH [OF plan_step [OF assms(1) Cons.prems [simplified], of now]] by simp
qed simp

lemma restore_is_put:
  assumes "working e" "plan_ok D (map (\<lambda>rel. (stored_path sid rel, rel)) paths)" "\<forall>rel\<in>set paths. file_lookup files rel \<noteq> None"
  shows "fold (restore_file e now False sid files) paths (D, r) =
     (fold (put e now) (map (\<lambda>rel. (stored_path sid rel, rel)) paths) D, r\<lparr>files_restored := files_restored r + int (length paths)\<rparr>)"
  using assms(2,3)
proof (induction paths arbitrary: D r)
  case (Cons rel paths)
  obtain g where g: "clear D rel" "rel \<noteq> []" "file_at D (stored_path sid rel) = Some g" using Cons.prems by (auto simp: plan_ok_def)
  obtain D1 where "ensure_directory e (parent_path rel) D = (D1, True)"
      "copy_file e now (stored_path sid rel) rel D1 = (put e now (stored_path sid rel, rel) D, True)"
    using put_steps [OF assms(1) g, of now] by blast
  then have "restore_file e now False sid files rel (D, r) =
      (put e now (stored_path sid rel, rel) D, r\<lparr>files_restored := files_restored r + 1\<rparr>)"
    using g(3) Cons.prems(2) by (auto simp: restore_file_def Let_def fs_present_def)
  then show ?case using Cons.IH [OF plan_step [OF assms(1) Cons.prems(1) [simplified], of now]] Cons.prems(2) by simp
qed simp

lemma below_append:
  "below g (a @ ''/'' @ r) \<Longrightarrow> below g a \<or> g = a \<or> below a g"
proof -
  assume "below g (a @ ''/'' @ r)"
  then obtain t where "a @ ''/'' @ r = g @ ''/'' @ t" by (auto simp: below_iff)
  then obtain us where "(a = g @ us \<and> us @ ''/'' @ r = ''/'' @ t) \<or> (a @ us = g \<and> ''/'' @ r = us @ ''/'' @ t)"
    unfolding append_eq_append_conv2 by blast
  then show ?thesis by (cases us) (auto simp: below_iff)
qed

lemma parent_append:
  "parent_path (a @ ''/'' @ r) = (if CHR ''/'' \<in> set r then a @ ''/'' @ parent_path r else a)"
proof (cases "CHR ''/'' \<in> set r")
  case True
  then have ne: "dropWhile (\<lambda>c. c \<noteq> CHR ''/'') (rev r) \<noteq> []" by (auto simp: dropWhile_eq_Nil_conv)
  have "dropWhile (\<lambda>c. c \<noteq> CHR ''/'') (rev (a @ ''/'' @ r)) = dropWhile (\<lambda>c. c \<noteq> CHR ''/'') (rev r) @ rev (a @ ''/'')"
    using True by (simp add: dropWhile_append1 [of "CHR ''/''"])
  then show ?thesis using True ne by (cases "dropWhile (\<lambda>c. c \<noteq> CHR ''/'') (rev r)") (simp_all add: parent_path_def)
next
  case False
  then have "dropWhile (\<lambda>c. c \<noteq> CHR ''/'') (rev r @ CHR ''/'' # rev a) = CHR ''/'' # rev a"
    by (subst dropWhile_append2) auto
  then show ?thesis using False by (simp add: parent_path_def)
qed

lemma stored_below: "below (stored_path sid a) (stored_path sid b) \<longleftrightarrow> below a b"
  "stored_path sid a = stored_path sid b \<longleftrightarrow> a = b"
  by (simp_all add: stored_path_def below_iff)

lemma stored_apart: "apart (stored_path sid a) (stored_path sid b) \<longleftrightarrow> apart a b"
  by (simp add: apart_def stored_below)

lemma scanned_not_stored: "scanned opts rel \<Longrightarrow> rel \<noteq> stored_path sid x"
  by (auto simp: scanned_def stored_path_def snapshot_storage_dir_def)

lemma stored_path_not_Nil [simp]: "stored_path sid x \<noteq> []"
  by (simp add: stored_path_def)

lemma sorted_wrt_apart: "distinct xs \<Longrightarrow> (\<And>a b. a \<in> set xs \<Longrightarrow> b \<in> set xs \<Longrightarrow> a \<noteq> b \<Longrightarrow> apart a b) \<Longrightarrow> sorted_wrt apart xs"
  by (induction xs) auto

text \<open>Directory trees as the operating system has them, and a place for the copies of a new snapshot.\<close>

definition tree_ok :: "tree \<Rightarrow> bool" where
  "tree_ok D \<longleftrightarrow> distinct (map fst (tfiles D)) \<and>
     list_all (\<lambda>f. fst f \<noteq> [] \<and> plain_text (fst f) \<and> \<not> is_directory D (fst f) \<and> int (length (fe_data (snd f))) < 2 ^ 63 \<and>
        - (2 ^ 63) \<le> fe_mtime (snd f) \<and> fe_mtime (snd f) < 2 ^ 63) (tfiles D)"

definition storage_free :: "tree \<Rightarrow> int \<Rightarrow> bool" where
  "storage_free D sid \<longleftrightarrow> list_all (\<lambda>x. \<not> below (snapshot_storage_dir sid) x) (tdirs D @ map fst (tfiles D)) \<and>
     list_all (\<lambda>x. x \<noteq> snapshot_storage_dir sid \<and> \<not> below x (snapshot_storage_dir sid)) (map fst (tfiles D))"

lemma tree_ok_apart:
  assumes "tree_ok D" "a \<in> fst ` set (tfiles D)" "b \<in> fst ` set (tfiles D)" "a \<noteq> b"
  shows "apart a b"
  using assms by (force simp: tree_ok_def list_all_iff is_directory_iff apart_def)

lemma clear_stored:
  assumes "storage_free D sid" "tfiles D' = tfiles D" "set (tdirs D') \<subseteq> insert (snapshot_storage_dir sid) (set (tdirs D))"
  shows "clear D' (stored_path sid rel)"
proof -
  let ?st = "snapshot_storage_dir sid" and ?d = "stored_path sid rel"
  have up: "below ?st ?d" by (auto simp: stored_path_def below_iff)
  have free: "\<not> below ?st x" if "x \<in> set (tdirs D) \<union> fst ` set (tfiles D)" for x
    using assms(1) that by (force simp: storage_free_def list_all_iff)
  have files: "x \<noteq> ?st" "\<not> below x ?st" if "x \<in> fst ` set (tfiles D)" for x
    using assms(1) that by (force simp: storage_free_def list_all_iff)+
  have st: "?st \<noteq> ?d" "\<not> below ?d ?st" by (auto simp: stored_path_def below_iff)
  have "?d \<noteq> x \<and> \<not> below ?d x" if "x \<in> set (tdirs D') \<union> fst ` set (tfiles D)" for x
  proof (cases "x = ?st")
    case False
    then have "\<not> below ?st x" using that assms(3) by (intro free) auto
    then show ?thesis using up below_trans [OF up] by auto
  qed (use st in auto)
  then have "\<not> is_directory D' ?d" unfolding is_directory_iff assms(2) by blast
  moreover have "g \<noteq> parent_path ?d \<and> \<not> below g (parent_path ?d)" if g: "g \<in> fst ` set (tfiles D)" for g
  proof
    have "parent_path ?d = ?st \<or> below ?st (parent_path ?d)"
      using parent_append [of ?st rel] by (auto simp: stored_path_def below_iff)
    then show "g \<noteq> parent_path ?d" using free [of g] files(1) [of g] g by auto
    show "\<not> below g (parent_path ?d)"
      using below_parent [of g ?d] below_append [of g ?st rel] free [of g] files [of g] g by (auto simp: stored_path_def)
  qed
  ultimately show ?thesis by (simp add: clear_def assms(2))
qed

section \<open>A full restore gives the snapshot back\<close>

lemma set_walked: "permutes e \<Longrightarrow> scan_stop e = None \<Longrightarrow> mset (walked e D) = mset (tfiles D)"
  by (simp add: permutes_def walked_def)

lemma file_at_member: "tree_ok D \<Longrightarrow> f \<in> set (tfiles D) \<Longrightarrow> file_at D (fst f) = Some (snd f)"
  by (simp add: tree_ok_def file_at_def)

lemma scan_paths:
  assumes "permutes e" "scan_stop e = None" "tree_ok D"
  shows "distinct (map wf_path (scan_workspace e D opts))"
    "set (map wf_path (scan_workspace e D opts)) = {q. file_at D q \<noteq> None \<and> scanned opts q}"
    "length (scan_workspace e D opts) \<le> length (tfiles D)"
proof -
  have paths: "map wf_path (scan_workspace e D opts) = filter (scanned opts) (map fst (walked e D))"
    by (simp add: scan_workspace_def file_record_def filter_map comp_def)
  have m: "mset (map fst (walked e D)) = mset (map fst (tfiles D))" using set_walked [OF assms(1,2)] by simp
  then have "distinct (map fst (walked e D))" using assms(3) unfolding tree_ok_def by (metis mset_eq_imp_distinct_iff)
  then show "distinct (map wf_path (scan_workspace e D opts))" unfolding paths by simp
  have "set (map fst (walked e D)) = {q. file_at D q \<noteq> None}"
    using mset_eq_setD [OF m] by (auto simp: file_at_def map_of_eq_None_iff intro: rev_image_eqI)
  then show "set (map wf_path (scan_workspace e D opts)) = {q. file_at D q \<noteq> None \<and> scanned opts q}" unfolding paths by auto
  have "length (scan_workspace e D opts) \<le> length (walked e D)" by (simp add: scan_workspace_def)
  also have "\<dots> = length (tfiles D)" using set_walked [OF assms(1,2)] by (metis size_mset)
  finally show "length (scan_workspace e D opts) \<le> length (tfiles D)" .
qed

lemma hex_nat_text: "plain_text (hex_nat n)"
proof -
  have d: "hex_digit k \<noteq> CHR 0x00" if "k < 16" for k
  proof -
    have "k \<in> set [0..<16]" using that by simp
    moreover have "list_all (\<lambda>k. hex_digit k \<noteq> CHR 0x00) [0..<16]" by code_simp
    ultimately show ?thesis unfolding list_all_iff by blast
  qed
  have "CHR 0x00 \<notin> set (hex_nat n)"
  proof (induction n rule: hex_nat.induct)
    case (1 n)
    then show ?case using d [of n] d [of "n mod 16"] by (subst hex_nat.simps) auto
  qed
  then show ?thesis by (simp add: plain_text_def)
qed

lemma scan_record_ok:
  assumes "permutes e" "scan_stop e = None" "tree_ok D"
  shows "\<forall>f\<in>set (scan_workspace e D opts). record_ok f"
proof
  fix f assume "f \<in> set (scan_workspace e D opts)"
  then obtain x where x: "x \<in> set (walked e D)" "f = file_record e D x" by (auto simp: scan_workspace_def)
  have "set (walked e D) = set (tfiles D)" using set_walked [OF assms(1,2)] by (metis mset_eq_setD)
  then have "x \<in> set (tfiles D)" using x(1) by simp
  then show "record_ok f" using assms(3) hex_nat_text
    by (auto simp: x(2) file_record_def record_ok_def tree_ok_def list_all_iff compute_file_hash_def plain_text_def
        split: option.split)
qed

lemma copies_plan:
  assumes "permutes e" "scan_stop e = None" "tree_ok D" "storage_free D sid"
    and D': "tfiles D' = tfiles D" "set (tdirs D') \<subseteq> insert (snapshot_storage_dir sid) (set (tdirs D))"
  shows "plan_ok D' (map (\<lambda>f. (wf_path f, stored_path sid (wf_path f))) (scan_workspace e D opts))"
proof -
  let ?fs = "scan_workspace e D opts"
  note sp = scan_paths [OF assms(1-3), of opts]
  have mem: "file_at D (wf_path f) \<noteq> None \<and> scanned opts (wf_path f)" if "f \<in> set ?fs" for f using sp(2) that by auto
  have ap: "apart (wf_path f) (wf_path g)" if "f \<in> set ?fs" "g \<in> set ?fs" "wf_path f \<noteq> wf_path g" for f g
    using tree_ok_apart [OF assms(3) _ _ that(3)] mem [OF that(1)] mem [OF that(2)] by (force simp: file_at_def dest: map_of_SomeD)
  have "map (\<lambda>f. stored_path sid (wf_path f)) ?fs = map (stored_path sid) (map wf_path ?fs)" by simp
  moreover have "distinct (map (stored_path sid) (map wf_path ?fs))"
    using sp(1) by (simp only: distinct_map) (auto simp: inj_on_def stored_below)
  ultimately have "sorted_wrt apart (map (\<lambda>f. stored_path sid (wf_path f)) ?fs)"
    using ap by (intro sorted_wrt_apart) (auto simp: stored_apart stored_below comp_def)
  moreover have "file_at D' (wf_path f) \<noteq> None" if "f \<in> set ?fs" for f using mem [OF that] D'(1) by (simp add: file_at_def)
  moreover have "wf_path f \<notin> (\<lambda>f. stored_path sid (wf_path f)) ` set ?fs" if "f \<in> set ?fs" for f
    using scanned_not_stored mem [OF that] by blast
  ultimately show ?thesis using mem clear_stored [OF assms(4) D']
    by (simp add: plan_ok_def comp_def image_image)
qed

lemma stored_copies:
  assumes "permutes e" "scan_stop e = None" "tree_ok D" "storage_free D sid" "working e" "scanned opts q" "file_at D q = Some f"
  shows "file_at (persist_files e now sid (scan_workspace e D opts) D) (stored_path sid q) = Some \<lparr>fe_data = fe_data f, fe_mtime = now\<rparr>"
proof -
  let ?fs = "scan_workspace e D opts" and ?st = "snapshot_storage_dir sid"
  obtain D' b where D': "ensure_directory e ?st D = (D', b)" "tfiles D' = tfiles D" using ensure_directory_case [of e ?st D] by metis
  have b: b "set (tdirs D') \<subseteq> insert ?st (set (tdirs D))"
    using D'(1) assms(4,5) by (auto simp: ensure_directory_def storage_free_def working_def list_ex_iff list_all_iff split: if_splits)
  let ?plan = "map (\<lambda>f. (wf_path f, stored_path sid (wf_path f))) ?fs"
  have plan: "plan_ok D' ?plan" by (rule copies_plan [OF assms(1-4) D'(2) b(2)])
  have "persist_files e now sid ?fs D = fold (put e now) ?plan D'"
    using D'(1) b(1) persist_is_put [OF assms(5) plan] by (simp add: persist_files_def)
  moreover have "map_of (map (\<lambda>(s, d). (d, s)) ?plan) (stored_path sid q) = Some q"
  proof -
    have "map (\<lambda>(s, d). (d, s)) ?plan = map (\<lambda>s. (stored_path sid s, s)) (map wf_path ?fs)" by simp
    moreover have "map_of (map (\<lambda>s. (stored_path sid s, s)) xs) (stored_path sid q) = (if q \<in> set xs then Some q else None)" for xs
      by (induction xs) (auto simp: stored_below)
    moreover have "q \<in> set (map wf_path ?fs)" using scan_paths(2) [OF assms(1-3), of opts] assms(6,7) by simp
    ultimately show ?thesis by (simp only: if_True)
  qed
  moreover have "file_at D' q = Some f" using assms(7) D'(2) by (simp add: file_at_def)
  ultimately show ?thesis using file_at_puts [OF assms(5) plan, of now "stored_path sid q"] by simp
qed

definition full_restore :: restore_options where
  "full_restore = \<lparr>restore_type = ''full'', dry_run = False, include_paths = [], exclude_paths = []\<rparr>"

lemma full_candidates: "distinct ps \<Longrightarrow> set ps \<inter> set (fst acc) = {} \<Longrightarrow> fold (add_candidate full_restore) ps acc = (fst acc @ ps, snd acc)"
  by (induction ps arbitrary: acc) (auto simp: add_candidate_def should_include_def is_excluded_def full_restore_def)

lemma full_restore_runs:
  assumes "get_project pid (wdb w) = Some p" "get_snapshot sid (wdb w) = Some (Some s)" "ws_project_id s = pid"
    and "fs_present (wdisk w (root_path p)) (snapshot_storage_dir sid)" "distinct (map wf_path (ws_files s))"
    and "working e" "plan_ok (wdisk w (root_path p)) (map (\<lambda>rel. (stored_path sid rel, rel)) (sort (map wf_path (ws_files s))))"
  shows "\<exists>w' r. restore e now ms pid sid full_restore w = Some (w', r) \<and> success r \<and> files_restored r = int (length (ws_files s)) \<and>
     (\<forall>q. file_at (wdisk w' (root_path p)) q =
        (if q \<in> wf_path ` set (ws_files s)
         then map_option (\<lambda>f. \<lparr>fe_data = fe_data f, fe_mtime = now\<rparr>) (file_at (wdisk w (root_path p)) (stored_path sid q))
         else file_at (wdisk w (root_path p)) q))"
proof -
  let ?D = "wdisk w (root_path p)" and ?ps = "map wf_path (ws_files s)"
  have mode: "restore_mode full_restore = ''full''" by code_simp
  have cand: "restore_candidates e pid sid full_restore (ws_files s) w = Some (?ps, 0)"
    using full_candidates [OF assms(5), of "([], 0)"] by (simp add: restore_candidates_def mode)
  show ?thesis
  proof (cases "?ps = []")
    case True
    then show ?thesis using assms(1-4) cand mode
      by (auto simp: restore_def Let_def full_restore_def no_result_def)
  next
    case False
    let ?sorted = "sort ?ps"
    let ?plan = "map (\<lambda>rel. (stored_path sid rel, rel)) ?sorted"
    have look: "\<forall>rel\<in>set ?sorted. file_lookup (ws_files s) rel \<noteq> None" using file_lookup_None [of "ws_files s"] by auto
    note loop = restore_is_put [OF assms(6,7) look, of now "no_result\<lparr>files_skipped := 0\<rparr>"]
    have dry: "dry_run full_restore = False" by (simp add: full_restore_def)
    obtain w' r where run: "run_restore e now ms pid sid full_restore (ws_files s) (?ps, 0) (root_path p) w = (w', r)" by fastforce
    have D': "wdisk w' (root_path p) = fold (put e now) ?plan ?D"
      using run_restore_disk [of e now ms pid sid full_restore "ws_files s" "(?ps, 0)" "root_path p" w] loop by (simp add: run dry)
    have r: "success r" "files_restored r = int (length (ws_files s))"
      using run loop by (auto simp: run_restore_def Let_def dry no_result_def split: prod.splits)
    have "map_of (map (\<lambda>(s, d). (d, s)) ?plan) q = (if q \<in> set ?ps then Some (stored_path sid q) else None)" for q
    proof -
      have "map_of (map (\<lambda>rel. (rel, stored_path sid rel)) xs) q = (if q \<in> set xs then Some (stored_path sid q) else None)" for xs
        by (induction xs) auto
      from this [of ?sorted] show ?thesis by (simp add: comp_def)
    qed
    then have "file_at (wdisk w' (root_path p)) q = (if q \<in> wf_path ` set (ws_files s)
         then map_option (\<lambda>f. \<lparr>fe_data = fe_data f, fe_mtime = now\<rparr>) (file_at ?D (stored_path sid q)) else file_at ?D q)" for q
      unfolding D' using file_at_puts [OF assms(6,7), of now q] by simp
    moreover have "restore e now ms pid sid full_restore w = Some (w', r)"
      using assms(1-4) cand mode False run by (auto simp: restore_def Let_def)
    ultimately show ?thesis using r by blast
  qed
qed

text \<open>
  \<^bold>\<open>C4\<close> What a snapshot took, a full restore gives back. After \<open>create_snapshot\<close> of a project, let the project
  directory change in any way that leaves the stored copies alone and puts no directory in the place of a
  recorded file nor a file in the place of one of its directories: then \<open>restore\<close> in full mode succeeds, every file
  that the snapshot covered has its content of that time again, and every other file is left as it is.
\<close>

theorem create_then_restore:
  assumes w: "healthy (wdb w)" "\<forall>n. \<not> io_fails (wdb w) n" "get_project pid (wdb w) = Some p"
    and seqs: "seq (tabs (wdb w) ''workspace_snapshots'') < max_rowid"
      "seq (tabs (wdb w) ''workspace_files'') + int (length (tfiles (wdisk w (root_path p)))) \<le> max_rowid"
    and os: "working e" "permutes e" "scan_stop e = None" "working e'"
    and D: "tree_ok (wdisk w (root_path p))" "storage_free (wdisk w (root_path p)) (seq (tabs (wdb w) ''workspace_snapshots'') + 1)"
    and run: "create_snapshot e now pid opts w = (w1, sid)"
    and later: "\<And>q. below (snapshot_storage_dir sid) q \<Longrightarrow> file_at D2 q = file_at (wdisk w1 (root_path p)) q"
      "fs_present D2 (snapshot_storage_dir sid)"
      "\<And>q. scanned opts q \<Longrightarrow> file_at (wdisk w (root_path p)) q \<noteq> None \<Longrightarrow> clear D2 q"
  shows "\<exists>w' r. restore e' now' ms pid sid full_restore (w1\<lparr>wdisk := (wdisk w1)(root_path p := D2)\<rparr>) = Some (w', r) \<and> success r \<and>
     (\<forall>q. map_option fe_data (file_at (wdisk w' (root_path p)) q) =
        map_option fe_data (file_at (if scanned opts q \<and> file_at (wdisk w (root_path p)) q \<noteq> None then wdisk w (root_path p) else D2) q))"
proof -
  let ?D = "wdisk w (root_path p)" and ?w = "w1\<lparr>wdisk := (wdisk w1)(root_path p := D2)\<rparr>"
  let ?fs = "scan_workspace e ?D opts"
  note sp = scan_paths [OF os(2,3) D(1), of opts]
  have "seq (tabs (wdb w) ''workspace_files'') + int (length ?fs) \<le> max_rowid" using seqs(2) sp(3) by simp
  note rec = create_snapshot_records [OF w seqs(1) this refl scan_record_ok [OF os(2,3) D(1)] run]
  then obtain s where s: "get_snapshot sid (wdb w1) = Some (Some s)" "ws_project_id s = pid" "mset (ws_files s) = mset ?fs" by blast
  have "mset (map wf_path (ws_files s)) = mset (map wf_path ?fs)" using s(3) by simp
  then have paths: "distinct (map wf_path (ws_files s))" "set (map wf_path (ws_files s)) = {q. file_at ?D q \<noteq> None \<and> scanned opts q}"
    using sp(1,2) by (metis mset_eq_imp_distinct_iff, metis mset_eq_setD)
  have copy: "map_option fe_data (file_at D2 (stored_path sid q)) = map_option fe_data (file_at ?D q)"
    "file_at D2 (stored_path sid q) \<noteq> None" if q: "q \<in> set (map wf_path (ws_files s))" for q
  proof -
    obtain f where f: "file_at ?D q = Some f" "scanned opts q" using q unfolding paths(2) by blast
    have "below (snapshot_storage_dir sid) (stored_path sid q)" by (auto simp: below_iff stored_path_def)
    then have "file_at D2 (stored_path sid q) = file_at (persist_files e now sid ?fs ?D) (stored_path sid q)"
      using later(1) rec by simp
    also have "\<dots> = Some \<lparr>fe_data = fe_data f, fe_mtime = now\<rparr>"
      using rec D(2) by (intro stored_copies [OF os(2,3) D(1) _ os(1) f(2,1)]) simp
    finally show "map_option fe_data (file_at D2 (stored_path sid q)) = map_option fe_data (file_at ?D q)"
      "file_at D2 (stored_path sid q) \<noteq> None" using f(1) by simp_all
  qed
  have names: "{q. file_at ?D q \<noteq> None} \<subseteq> fst ` set (tfiles ?D)" by (auto simp: file_at_def dest: map_of_SomeD intro: rev_image_eqI)
  have "sorted_wrt apart (sort (map wf_path (ws_files s)))"
  proof (rule sorted_wrt_apart)
    fix a b assume ab: "a \<in> set (sort (map wf_path (ws_files s)))" "b \<in> set (sort (map wf_path (ws_files s)))" "a \<noteq> b"
    have "a \<in> fst ` set (tfiles ?D)" "b \<in> fst ` set (tfiles ?D)" using ab(1,2) paths(2) names unfolding set_sort by blast+
    then show "apart a b" using tree_ok_apart [OF D(1)] ab(3) by blast
  qed (use paths(1) in simp)
  moreover have "q \<noteq> [] \<and> clear D2 q \<and> (\<forall>x. q \<noteq> stored_path sid x)" if "q \<in> set (map wf_path (ws_files s))" for q
    using that later(3) [of q] scanned_not_stored [of opts q] D(1) names unfolding paths(2)
    by (fastforce simp: tree_ok_def list_all_iff)
  ultimately have "plan_ok (wdisk ?w (root_path p)) (map (\<lambda>rel. (stored_path sid rel, rel)) (sort (map wf_path (ws_files s))))"
    using copy(2) by (auto simp: plan_ok_def comp_def) (metis image_eqI)
  from full_restore_runs [of pid ?w p sid s e' now' ms, OF _ _ s(2) _ paths(1) os(4) this]
  obtain w' r where "restore e' now' ms pid sid full_restore ?w = Some (w', r)" "success r"
    and at: "\<And>q. file_at (wdisk w' (root_path p)) q =
        (if q \<in> set (map wf_path (ws_files s)) then map_option (\<lambda>f. \<lparr>fe_data = fe_data f, fe_mtime = now'\<rparr>) (file_at D2 (stored_path sid q))
         else file_at D2 q)"
    using rec s(1) later(2) by auto
  moreover have "map_option fe_data (file_at (wdisk w' (root_path p)) q) =
      map_option fe_data (file_at (if scanned opts q \<and> file_at ?D q \<noteq> None then ?D else D2) q)" for q
  proof (cases "q \<in> set (map wf_path (ws_files s))")
    case True
    have "map_option fe_data (file_at (wdisk w' (root_path p)) q) = map_option fe_data (file_at D2 (stored_path sid q))"
      using at [of q] True by (simp add: option.map_comp comp_def)
    then show ?thesis using copy(1) [OF True] True unfolding paths(2) by simp
  next
    case False
    then show ?thesis using at [of q] unfolding paths(2) by auto
  qed
  ultimately show ?thesis by blast
qed

section \<open>Witnesses\<close>

text \<open>A directory from which everything but the stored copies was removed takes every restored file.\<close>

lemma wiped_clear:
  assumes "scanned opts q" "q \<noteq> []" "tdirs D = []" "\<forall>g\<in>fst ` set (tfiles D). below (snapshot_storage_dir sid) g"
  shows "clear D q"
proof -
  obtain a as where q: "q = a # as" "a \<noteq> CHR ''.''" using assms(1,2) by (cases q) (auto simp: scanned_def)
  have g: "\<exists>r. g = CHR ''.'' # r" if "g \<in> fst ` set (tfiles D)" for g
    using assms(4) that by (auto simp: below_iff snapshot_storage_dir_def)
  have "\<not> below q g" if "g \<in> fst ` set (tfiles D)" for g using g [OF that] q by (auto simp: below_iff)
  moreover have "\<not> below g q" if "g \<in> fst ` set (tfiles D)" for g using g [OF that] q by (auto simp: below_iff)
  moreover have "g \<noteq> []" if "g \<in> fst ` set (tfiles D)" for g using g [OF that] by auto
  ultimately show ?thesis using assms(3) parent_split [of q] below_parent [of _ q]
    unfolding clear_def is_directory_iff by (metis Un_iff empty_iff list.set(1))
qed

definition demo_os :: os where
  "demo_os = \<lparr>walk = (\<lambda>xs. xs), scan_stop = None, readable = (\<lambda>_. True), dir_readable = (\<lambda>_. True), mkdir_ok = (\<lambda>_. True),
     copy_result = (\<lambda>_ _. Copied), getenv = (\<lambda>_. None), probe = (\<lambda>_. None), bucket_order = (\<lambda>xs. xs)\<rparr>"

definition demo_tree :: tree where
  "demo_tree = \<lparr>tfiles = [(''main.cpp'', \<lparr>fe_data = ''int'', fe_mtime = 1\<rparr>), (''src/a.h'', \<lparr>fe_data = ''x'', fe_mtime = 2\<rparr>),
     (''.env'', \<lparr>fe_data = ''k'', fe_mtime = 3\<rparr>)], tdirs = []\<rparr>"

definition demo_workspace :: workspace where
  "demo_workspace = \<lparr>wdb = demo_project, wdisk = (\<lambda>_. demo_tree)\<rparr>"

definition demo_created :: "workspace \<times> int" where
  "demo_created = create_snapshot demo_os 7 1 scan_opts demo_workspace"

definition wiped :: "tree \<Rightarrow> int \<Rightarrow> tree" where
  "wiped D sid = \<lparr>tfiles = filter (\<lambda>f. below (snapshot_storage_dir sid) (fst f)) (tfiles D), tdirs = []\<rparr>"

lemma demo_os_ok: "working demo_os" "permutes demo_os" "scan_stop demo_os = None"
  by (simp_all add: demo_os_def working_def permutes_def)

lemma demo_workspace_values:
  "map_option root_path (get_project 1 demo_project) = Some ''/p''" "seq (tabs demo_project ''workspace_snapshots'') = 0"
  "seq (tabs demo_project ''workspace_files'') = 0" "io_fails demo_project = (\<lambda>_. False)"
  by (code_simp, code_simp, code_simp, rule demo_project_io)

lemma demo_tree_ok: "tree_ok demo_tree" "storage_free demo_tree 1"
  by code_simp+

lemma file_at_wiped: "below (snapshot_storage_dir sid) q \<Longrightarrow> file_at (wiped D sid) q = file_at D q"
proof -
  have "P q \<Longrightarrow> map_of (filter (\<lambda>f. P (fst f)) xs) q = map_of xs q" for P and xs :: "(string \<times> file_entry) list"
    by (induction xs) auto
  then show "below (snapshot_storage_dir sid) q \<Longrightarrow> file_at (wiped D sid) q = file_at D q" by (simp add: wiped_def file_at_def)
qed

lemma demo_project_found: "\<exists>p. get_project 1 demo_project = Some p \<and> root_path p = ''/p''"
  using demo_workspace_values(1) by (cases "get_project 1 demo_project") auto

lemma demo_scan_records: "\<forall>f\<in>set (scan_workspace demo_os demo_tree scan_opts). record_ok f"
  by (rule scan_record_ok [OF demo_os_ok(2,3) demo_tree_ok(1)])

lemma demo_workspace_parts:
  "wdb demo_workspace = demo_project" "wdisk demo_workspace = (\<lambda>_. demo_tree)"
  "create_snapshot demo_os 7 1 scan_opts demo_workspace = (fst demo_created, snd demo_created)"
  "seq (tabs demo_project ''workspace_snapshots'') < max_rowid"
  "seq (tabs demo_project ''workspace_files'') + 3 \<le> max_rowid" "length (tfiles demo_tree) = 3"
  using demo_workspace_values(2,3) by (simp_all add: demo_workspace_def demo_created_def max_rowid_def demo_tree_def)

lemma demo_created_records:
  "snd demo_created = 1 \<and> healthy (wdb (fst demo_created)) \<and>
     (\<exists>p s. get_project 1 (wdb (fst demo_created)) = Some p \<and> root_path p = ''/p'' \<and>
        wdisk (fst demo_created) ''/p'' = persist_files demo_os 7 1 (scan_workspace demo_os demo_tree scan_opts) demo_tree \<and>
        get_snapshot 1 (wdb (fst demo_created)) = Some (Some s) \<and> ws_project_id s = 1 \<and>
        mset (ws_files s) = mset (scan_workspace demo_os demo_tree scan_opts))"
proof -
  obtain p where p: "get_project 1 demo_project = Some p" "root_path p = ''/p''" using demo_project_found by blast
  have len: "length (scan_workspace demo_os demo_tree scan_opts) \<le> 3"
    using scan_paths(3) [OF demo_os_ok(2,3) demo_tree_ok(1), of scan_opts] by (simp add: demo_tree_def)
  have seqs: "seq (tabs demo_project ''workspace_snapshots'') < max_rowid"
    "seq (tabs demo_project ''workspace_files'') + int (length (scan_workspace demo_os demo_tree scan_opts)) \<le> max_rowid"
    using len demo_workspace_parts(4,5) by simp_all
  note rec = create_snapshot_records [of demo_workspace 1 p, unfolded demo_workspace_parts(1,2),
      OF healthy_demo(1) _ p(1) seqs refl demo_scan_records demo_workspace_parts(3)]
  then show ?thesis using p demo_workspace_values(2,4) by fastforce
qed

lemma demo_main_stored: "file_at (wdisk (fst demo_created) ''/p'') (stored_path 1 ''main.cpp'') = Some \<lparr>fe_data = ''int'', fe_mtime = 7\<rparr>"
proof -
  have "scanned scan_opts ''main.cpp''" "file_at demo_tree ''main.cpp'' = Some \<lparr>fe_data = ''int'', fe_mtime = 1\<rparr>" by code_simp+
  from stored_copies [OF demo_os_ok(2,3) demo_tree_ok demo_os_ok(1) this, of 7]
  show ?thesis using demo_created_records by auto
qed

definition smart_restore :: restore_options where
  "smart_restore = \<lparr>restore_type = ''smart'', dry_run = False, include_paths = [], exclude_paths = []\<rparr>"

definition demo_edited :: workspace where
  "demo_edited = (fst demo_created)\<lparr>wdisk := (wdisk (fst demo_created))
     (''/p'' := write_file ''main.cpp'' \<lparr>fe_data = ''edited'', fe_mtime = 8\<rparr> (wdisk (fst demo_created) ''/p''))\<rparr>"

lemma restore_defined:
  assumes "get_project pid (wdb w) = Some p" "get_snapshot sid (wdb w) = Some (Some s)"
  shows "\<exists>w' r. restore e now ms pid sid opts w = Some (w', r)"
  using assms by (auto simp: restore_def Let_def restore_candidates_def diff_current_def)

theorem smart_restore_keeps_sources_witness:
  "\<exists>w' r. restore demo_os 9 (0, 0) 1 1 smart_restore demo_edited = Some (w', r) \<and>
     map_option fe_data (file_at (wdisk w' ''/p'') ''main.cpp'') = Some ''edited''"
proof -
  obtain p s where p: "get_project 1 (wdb demo_edited) = Some p" "root_path p = ''/p''"
    and s: "get_snapshot 1 (wdb demo_edited) = Some (Some s)" "mset (ws_files s) = mset (scan_workspace demo_os demo_tree scan_opts)"
    using demo_created_records by (auto simp: demo_edited_def)
  obtain w' r where run: "restore demo_os 9 (0, 0) 1 1 smart_restore demo_edited = Some (w', r)"
    using restore_defined [OF p(1) s(1)] by blast
  have files: "set (ws_files s) = set (scan_workspace demo_os demo_tree scan_opts)" using s(2) by (metis mset_eq_setD)
  have main: "scanned scan_opts ''main.cpp''" "detect_file_type ''main.cpp'' = SOURCE" by code_simp+
  have "file_lookup (ws_files s) ''main.cpp'' \<noteq> None"
    using scan_paths(2) [OF demo_os_ok(2,3) demo_tree_ok(1), of scan_opts] main(1) files
    by (auto simp: file_lookup_None demo_tree_def file_at_def)
  then obtain f where f: "file_lookup (ws_files s) ''main.cpp'' = Some f" by blast
  then have "f \<in> set (ws_files s)" "wf_path f = ''main.cpp''" by (auto simp: file_lookup_def dest!: map_of_SomeD)
  then have "wf_type f = SOURCE" using main(2) unfolding files by (auto simp: scan_workspace_def file_record_def)
  moreover have "restore_mode smart_restore = ''smart''" by code_simp
  ultimately have "file_at (wdisk w' (root_path p)) ''main.cpp'' = file_at (wdisk demo_edited (root_path p)) ''main.cpp''"
    using smart_restore_keeps_sources [OF run demo_os_ok(2,3) p(1) s(1) _ f _ _ main(1)] p(2)
    by (simp add: demo_edited_def smart_restore_def)
  then show ?thesis using run p(2) by (simp add: demo_edited_def)
qed

theorem create_then_restore_witness:
  "\<exists>w' r. restore demo_os 9 (0, 0) 1 (snd demo_created) full_restore ((fst demo_created)\<lparr>wdisk := (wdisk (fst demo_created))
       (''/p'' := wiped (wdisk (fst demo_created) ''/p'') (snd demo_created))\<rparr>) = Some (w', r) \<and> success r \<and>
     map_option fe_data (file_at (wdisk w' ''/p'') ''main.cpp'') = Some ''int''"
proof -
  obtain p where p: "get_project 1 (wdb demo_workspace) = Some p" "root_path p = ''/p''"
    using demo_project_found by (auto simp: demo_workspace_def)
  let ?D = "wiped (wdisk (fst demo_created) ''/p'') (snd demo_created)"
  have one: "snd demo_created = 1" using demo_created_records by blast
  have st: "below (snapshot_storage_dir 1) (stored_path 1 ''main.cpp'')" by (simp add: below_iff stored_path_def)
  then have "file_at ?D (stored_path 1 ''main.cpp'') \<noteq> None" using demo_main_stored one by (simp add: file_at_wiped)
  then have "stored_path 1 ''main.cpp'' \<in> fst ` set (tfiles ?D)" by (auto simp: file_at_def dest: map_of_SomeD intro: rev_image_eqI)
  then have dir: "fs_present ?D (snapshot_storage_dir (snd demo_created))"
    using st one unfolding fs_present_def is_directory_iff by auto
  have clr: "clear ?D q" if "scanned scan_opts q" "file_at (wdisk demo_workspace (root_path p)) q \<noteq> None" for q
  proof (rule wiped_clear [OF that(1), where sid = "snd demo_created"])
    show "q \<noteq> []" using that(2) by (auto simp: demo_workspace_def demo_tree_def file_at_def split: if_splits)
  qed (auto simp: wiped_def)
  have main: "scanned scan_opts ''main.cpp''" "file_at demo_tree ''main.cpp'' = Some \<lparr>fe_data = ''int'', fe_mtime = 1\<rparr>" by code_simp+
  have "\<exists>w' r. restore demo_os 9 (0, 0) 1 (snd demo_created) full_restore ((fst demo_created)\<lparr>wdisk := (wdisk (fst demo_created))
         (root_path p := ?D)\<rparr>) = Some (w', r) \<and> success r \<and>
       (\<forall>q. map_option fe_data (file_at (wdisk w' (root_path p)) q) =
          map_option fe_data (file_at (if scanned scan_opts q \<and> file_at (wdisk demo_workspace (root_path p)) q \<noteq> None
             then wdisk demo_workspace (root_path p) else ?D) q))"
    by (rule create_then_restore [OF _ _ p(1) _ _ demo_os_ok demo_os_ok(1) _ _ demo_workspace_parts(3) _ dir clr])
      (use healthy_demo(1) demo_tree_ok demo_workspace_values(2,4) demo_workspace_parts(1,2,4,5,6) file_at_wiped p(2) in
        \<open>simp_all\<close>)
  then obtain w' r where res: "restore demo_os 9 (0, 0) 1 (snd demo_created) full_restore ((fst demo_created)
       \<lparr>wdisk := (wdisk (fst demo_created))(root_path p := ?D)\<rparr>) = Some (w', r)" "success r"
    and at: "\<And>q. map_option fe_data (file_at (wdisk w' (root_path p)) q) =
          map_option fe_data (file_at (if scanned scan_opts q \<and> file_at (wdisk demo_workspace (root_path p)) q \<noteq> None
             then wdisk demo_workspace (root_path p) else ?D) q)" by blast
  have "map_option fe_data (file_at (wdisk w' ''/p'') ''main.cpp'') = Some ''int''"
    using at [of "''main.cpp''"] main p(2) by (simp add: demo_workspace_parts(2))
  then show ?thesis using res p(2) by auto
qed

end
