(* ===== verification/Brain_Recurring.thy ===== *)
theory Brain_Recurring
  imports Brain_Learner Workspace_Restore
begin

text \<open>
  Recurring failures: what \<open>record_failure\<close> (\<open>src/modules/brain/src/learner.cpp\<close>) leaves in the database when the same error has
  been seen before. The third similar failure makes a pattern, every later one counts it once more.
\<close>

section \<open>The stored failure\<close>

definition failure_cells :: "int \<Rightarrow> int \<Rightarrow> failure_context \<Rightarrow> cells" where
  "failure_cells now pid x = new_cells workspace_failures_table
     (failure_values now pid (fx_failure_type x) (compute_error_signature (fx_error_message x)) (fx_error_message x)
       (fx_error_location x) (fx_command x) (fx_exit_code x) (fx_before_snapshot_id x) (fx_after_snapshot_id x)
       (changed_files_to_json (fx_changed_files x)) (changed_deps_to_json (fx_changed_deps x)) (changed_env_to_json (fx_changed_env x))
       (changed_env_to_json (fx_changed_system x)) (fx_severity x) (tags_to_json (fx_tags x)))"

lemma signature_text: "plain_text (compute_error_signature e)" "c_string (compute_error_signature e) = compute_error_signature e"
  using hex_nat_text c_string_plain by (simp_all add: compute_error_signature_def)

lemma failure_cell_values:
  "Nexus_Sql.cell (failure_cells now pid x) ''project_id'' = VInt pid"
  "Nexus_Sql.cell (failure_cells now pid x) ''error_signature'' = VText (compute_error_signature (fx_error_message x))"
  "Nexus_Sql.cell (failure_cells now pid x) ''error_message'' = VText (c_string (fx_error_message x))"
  "Nexus_Sql.cell (failure_cells now pid x) ''failure_type'' = VText (c_string (fx_failure_type x))"
  "Nexus_Sql.cell (failure_cells now pid x) ''timestamp'' = VInt now"
  "Nexus_Sql.cell (failure_cells now pid x) ''before_snapshot_id'' = coerce AInteger (id_or_empty (fx_before_snapshot_id x))"
  "Nexus_Sql.cell (failure_cells now pid x) ''after_snapshot_id'' = coerce AInteger (id_or_empty (fx_after_snapshot_id x))"
  "Nexus_Sql.cell (failure_cells now pid x) ''resolution_snapshot_id'' = VNull"
  by (simp_all add: failure_cells_def new_cells_def workspace_failures_table_def column_defs failure_values_def Nexus_Sql.cell_def
      signature_text(2))

abbreviation snapshot_ids :: "sqlite \<Rightarrow> int set" where
  "snapshot_ids c \<equiv> set (ids_of (tabs c ''workspace_snapshots''))"

lemma store_failure_effect:
  assumes "healthy c" "\<not> io_fails c (stmts c)" "pid \<in> set (ids_of (tabs c ''projects''))"
    "0 < fx_before_snapshot_id x" "fx_before_snapshot_id x \<in> snapshot_ids c" "0 < fx_after_snapshot_id x" "fx_after_snapshot_id x \<in> snapshot_ids c"
    "seq (tabs c ''workspace_failures'') < max_rowid"
  shows "snd (store_failure now pid x c) = seq (tabs c ''workspace_failures'') + 1"
    "tabs (fst (store_failure now pid x c)) = append_row ''workspace_failures'' (failure_cells now pid x) (tabs c)"
    "healthy (fst (store_failure now pid x c))" "io_fails (fst (store_failure now pid x c)) = io_fails c"
proof -
  let ?vs = "failure_values now pid (fx_failure_type x) (compute_error_signature (fx_error_message x)) (fx_error_message x)
       (fx_error_location x) (fx_command x) (fx_exit_code x) (fx_before_snapshot_id x) (fx_after_snapshot_id x)
       (changed_files_to_json (fx_changed_files x)) (changed_deps_to_json (fx_changed_deps x)) (changed_env_to_json (fx_changed_env x))
       (changed_env_to_json (fx_changed_system x)) (fx_severity x) (tags_to_json (fx_tags x))"
  have cs: "new_cells workspace_failures_table ?vs = failure_cells now pid x" by (simp add: failure_cells_def)
  have "not_null_ok workspace_failures_table (failure_cells now pid x)"
    by (simp add: not_null_ok_def workspace_failures_table_def column_defs failure_cell_values)
  moreover have "fkeys_ok workspace_failures_table (tabs c) (failure_cells now pid x)"
    using assms(3-7) by (simp add: fkeys_ok_def workspace_failures_table_def failure_cell_values id_or_empty_coerce refers_def)
  ultimately have "accepts workspace_failures_table ?vs c"
    using assms(1,2,8) unfolding accepts_def cs
    by (simp add: healthy_def unique_ok_def workspace_failures_table_def)
  from insert_id_accepted [OF this, of "''workspace_failures''" 0, simplified]
  show "snd (store_failure now pid x c) = seq (tabs c ''workspace_failures'') + 1"
    "tabs (fst (store_failure now pid x c)) = append_row ''workspace_failures'' (failure_cells now pid x) (tabs c)"
    "healthy (fst (store_failure now pid x c))"
    using find_tables assms(1) by (simp_all add: store_failure_def record_failure_with_context_def cs)
  show "io_fails (fst (store_failure now pid x c)) = io_fails c"
    by (simp add: store_failure_def record_failure_with_context_def)
qed

section \<open>Enough similar failures\<close>

definition same_error_rows :: "int \<Rightarrow> string \<Rightarrow> sqlite \<Rightarrow> sql_row list" where
  "same_error_rows pid sig c =
     filter (\<lambda>r. val r ''project_id'' = VInt pid \<and> val r ''error_signature'' = VText (c_string sig)) (trows (tabs c ''workspace_failures''))"

lemma length_select_errors:
  assumes "healthy c"
  shows "length (select ''workspace_failures'' (\<lambda>r. eq_int ''project_id'' pid r \<and> eq_text ''error_signature'' sig r) c) = length (same_error_rows pid sig c)"
proof -
  have "mset (select ''workspace_failures'' (\<lambda>r. eq_int ''project_id'' pid r \<and> eq_text ''error_signature'' sig r) c) = mset (same_error_rows pid sig c)"
    using mset_select [of c "''workspace_failures''" "\<lambda>r. eq_int ''project_id'' pid r \<and> eq_text ''error_signature'' sig r"] assms
    unfolding same_error_rows_def mset_filter healthy_def by (simp only: eq_int_simp eq_text_simp)
  then show ?thesis by (rule mset_eq_length)
qed

lemma enough_similar:
  assumes "healthy c" "sorts_by_score srt" "3 \<le> length (same_error_rows pid sig c)"
    "\<forall>r\<in>set (same_error_rows pid sig c). 1 / 2 \<le> compute_similarity msg (get_text r ''error_message'')"
  shows "\<exists>ss. find_similar_failures srt pid sig msg 10 (Some c) = Some ss \<and> 3 \<le> length ss"
proof -
  let ?rows = "same_signature_rows pid sig (10 * 2) c"
  have "3 \<le> length ?rows"
    using assms(3) length_select_errors [OF assms(1), of pid sig] by (simp add: same_signature_rows_def limit_rows_def)
  moreover have "filter (\<lambda>s. 1 / 2 \<le> sf_similarity_score s) (map (similar_of msg) ?rows) = map (similar_of msg) ?rows"
  proof -
    have "1 / 2 \<le> sf_similarity_score (similar_of msg r)" if "r \<in> set ?rows" for r
      using same_signature_row(1-3) [OF assms(1) that] bspec [OF assms(4), of r] by (simp add: same_error_rows_def similar_of_def)
    then show ?thesis by (auto simp: filter_id_conv)
  qed
  moreover have "length (srt (map (similar_of msg) ?rows)) = length ?rows"
    using assms(2) unfolding sorts_by_score_def by (metis length_map size_mset)
  ultimately show ?thesis by (auto simp: find_similar_rows Let_def)
qed

section \<open>A recurring failure has a pattern\<close>

definition patterns_ok :: "sqlite \<Rightarrow> bool" where
  "patterns_ok c \<longleftrightarrow> (\<forall>r\<in>set (patterns_of c). pattern_row_ok r \<and> (\<exists>t. val r ''pattern_signature'' = VText t))"

lemma parse_listed_ok: "pattern_row_ok r \<Longrightarrow> parse_pattern (row_map listed_pattern_columns r) =
    Some ((pattern_of r)\<lparr>fp_error_regex := [], fp_failure_ids := [], fp_trigger_conditions_json := [], fp_resolution_strategies_json := []\<rparr>)"
  by (erule pattern_row_okE)
    (simp add: parse_pattern_def row_num_def row_text_def row_count_def map_get_row_map listed_pattern_columns_def pattern_of_def)

lemma pattern_at_row:
  assumes "healthy c" "r \<in> set (patterns_of c)" "val r ''project_id'' = VInt pid" "val r ''pattern_signature'' = VText (c_string sig)"
  shows "pattern_at pid sig c = Some r"
proof -
  let ?us = "[''project_id'', ''pattern_signature'']" and ?kv = "[VInt pid, VText (c_string sig)]"
  have key: "map (Nexus_Sql.cell (snd r)) ?us = ?kv" using assms(3,4) by (simp add: val_def)
  have "find (\<lambda>r. map (Nexus_Sql.cell (snd r)) ?us = ?kv) (patterns_of c) \<noteq> None"
  proof
    assume "find (\<lambda>r. map (Nexus_Sql.cell (snd r)) ?us = ?kv) (patterns_of c) = None"
    from bspec [OF this [unfolded find_None_all] assms(2)] show False using key by simp
  qed
  then obtain r' where r': "find (\<lambda>r. map (Nexus_Sql.cell (snd r)) ?us = ?kv) (patterns_of c) = Some r'" by blast
  then have in': "r' \<in> set (patterns_of c)" "map (Nexus_Sql.cell (snd r')) ?us = ?kv" using find_Some_in by force+
  have "same_key ?us (snd r') (snd r)" using key in'(2) by (simp add: same_key_def)
  moreover have "?us \<in> set (uniques brain_failure_patterns_table)" "tname brain_failure_patterns_table = ''brain_failure_patterns''"
    by (simp_all add: brain_failure_patterns_table_def)
  ultimately have "r' = r"
    using table_ok_key_inj [OF patterns_table [OF assms(1)], of ?us r' r] in'(1) assms(2) by simp
  then show ?thesis using r' unfolding pattern_at_def by_key_def by simp
qed

lemma listed_pattern_row:
  assumes "healthy c" "patterns_ok c" "list_patterns pid n (Some c) = Some ps" "p \<in> set ps" "c_string (fp_signature p) = fp_signature p"
  shows "\<exists>r. pattern_at pid (fp_signature p) c = Some r \<and> fst r = fp_id p \<and> pattern_row_ok r"
proof -
  obtain m where m: "m \<in> set (Nexus_Brain_Store.list_patterns pid n c)" "parse_pattern m = Some p"
    using assms(3,4) those_Some_mem unfolding list_patterns_def by fastforce
  then obtain r where r: "m = row_map listed_pattern_columns r"
      "r \<in> set (select ''brain_failure_patterns'' (eq_int ''project_id'' pid) c)"
    using set_limit_rows by (fastforce simp: Nexus_Brain_Store.list_patterns_def)
  then have row: "r \<in> set (patterns_of c)" "val r ''project_id'' = VInt pid"
    using set_select [of c "''brain_failure_patterns''"] assms(1) by (auto simp: healthy_def)
  then obtain t where ok: "pattern_row_ok r" "val r ''pattern_signature'' = VText t" using assms(2) unfolding patterns_ok_def by blast
  have p: "fp_signature p = t" "fp_id p = get_num r ''id''"
    using m(2) parse_listed_ok [OF ok(1)] ok(2) by (auto simp: r(1) pattern_of_def)
  moreover have "get_num r ''id'' = fst r"
    using get_num_id [of nexus_schema "tabs c" brain_failure_patterns_table r] row(1) assms(1) by (simp add: healthy_def conn_ok_def)
  moreover have "pattern_at pid t c = Some r"
    using pattern_at_row [OF assms(1) row, of t] ok(2) p(1) assms(5) by simp
  ultimately show ?thesis using ok(1) by simp
qed

lemma list_patterns_total:
  assumes "healthy c" "patterns_ok c"
  shows "list_patterns pid n (Some c) \<noteq> None"
proof -
  let ?rs = "limit_rows n (order_desc ''occurrence_count'' (select ''brain_failure_patterns'' (eq_int ''project_id'' pid) c))"
  have "pattern_row_ok r" if "r \<in> set ?rs" for r
  proof -
    have "r \<in> set (select ''brain_failure_patterns'' (eq_int ''project_id'' pid) c)" using subsetD [OF set_limit_rows that] by simp
    then show ?thesis using set_select [of c "''brain_failure_patterns''"] assms by (auto simp: healthy_def patterns_ok_def)
  qed
  then have "those (map (parse_pattern \<circ> row_map listed_pattern_columns) ?rs) \<noteq> None"
    using those_map_Some [of ?rs "parse_pattern \<circ> row_map listed_pattern_columns"] parse_listed_ok by fastforce
  then show ?thesis by (simp add: list_patterns_def Nexus_Brain_Store.list_patterns_def)
qed

lemma failure_of_row:
  assumes "healthy c" "r \<in> set (trows (tabs c ''workspace_failures''))"
  shows "Nexus_Brain_Store.get_failure (fst r) c = Some (row_map failure_columns r)"
proof -
  have t: "table_ok workspace_failures_table (tabs c)" by (rule healthy_table [OF assms(1)]) simp
  have "by_id (fst r) (trows (tabs c ''workspace_failures'')) = Some r"
    using by_id_member [OF assms(1), of workspace_failures_table r] assms(2) by simp
  then have "select ''workspace_failures'' (\<lambda>q. val q ''id'' = VInt (fst r)) c = [r]"
    using select_by_id [OF _ _ t, of "''workspace_failures''" "fst r"] assms(1) by (simp add: healthy_def)
  moreover have "(\<lambda>q. val q ''id'' = VInt (fst r)) = eq_int ''id'' (fst r)" by (simp add: fun_eq_iff)
  ultimately show ?thesis by (simp add: Nexus_Brain_Store.get_failure_def first_row_def)
qed

lemma recurring_learned:
  assumes c: "healthy c1" "\<forall>n. \<not> io_fails c1 n" "pid \<in> set (ids_of (tabs c1 ''projects''))" "patterns_ok c1"
    and range: "- (2 ^ 63) \<le> now" "now < 2 ^ 63"
    and room: "seq (tabs c1 ''brain_failure_patterns'') < max_rowid"
    and sig: "sig = compute_error_signature msg"
    and old: "\<And>r. pattern_at pid sig c1 = Some r \<Longrightarrow> fp_occurrence_count (pattern_of r) + 1 < 2 ^ 31"
    and ss: "find_similar_failures srt pid sig msg 10 (Some c1) = Some (s # ss)" "sorts_by_score srt"
    and ps: "find_matching_patterns rx pid sig ftype msg (Some c1) = Some ps"
  shows "\<exists>c' i. (case ps of
             [] \<Rightarrow> map_option (\<lambda>(st, _). (st, fid)) (learn_pattern now pid (map sf_failure_id (s # ss)) [] (Some c1))
           | p # _ \<Rightarrow> let st = fst (update_pattern_stats now (fp_id p) (Some c1))
                     in Some (fst (link_failure_to_pattern now fid (fp_id p) st), fid)) = Some (Some c', fid) \<and> pattern_learned now pid sig c1 c' i"
proof -
  have plain: "c_string sig = sig" by (simp add: sig signature_text(2))
  show ?thesis
  proof (cases ps)
    case Nil
    obtain r where r: "r \<in> set (same_signature_rows pid sig (10 * 2) c1)" "s = similar_of msg r"
      using found_failures [OF c(1) ss(2,1)] by auto
    note row = same_signature_row [OF c(1) r(1)]
    have f: "Nexus_Brain_Store.get_failure (sf_failure_id s) c1 = Some (row_map failure_columns r)"
      using failure_of_row [OF c(1) row(1)] row(4) by (simp add: r(2) similar_of_def)
    have "get_text r ''error_signature'' = sig" using row(3) plain by simp
    from learn_pattern_effect [OF c(1-3) range room f this, where fids = "map sf_failure_id ss" and name = "[]"]
    obtain c' i where "learn_pattern now pid (map sf_failure_id (s # ss)) [] (Some c1) = Some (Some c', i)" "pattern_learned now pid sig c1 c' i"
      using old pattern_at_props(1) [OF c(1)] c(4) by (force simp: patterns_ok_def)
    then show ?thesis using Nil by auto
  next
    case (Cons p ps')
    obtain ls where ls: "list_patterns pid 1000 (Some c1) = Some ls" "p \<in> set ls" "pattern_matches rx sig ftype msg p"
      using ps Cons by (auto simp: find_matching_patterns_def filter_eq_Cons_iff)
    then have p: "fp_signature p = sig"
      using listed_patterns_no_regex [OF ls(1,2)] by (auto simp: pattern_matches_def split: if_splits)
    obtain r where r: "pattern_at pid sig c1 = Some r" "fst r = fp_id p" "pattern_row_ok r"
      using listed_pattern_row [OF c(1,4) ls(1,2)] p plain by auto
    obtain c' r' where c': "fst (update_pattern_stats now (fst r) (Some c1)) = Some c'" "healthy c'" "\<forall>n. \<not> io_fails c' n"
        "pattern_at pid sig c' = Some r'" "fst r' = fst r" "pattern_row_ok r'" "fp_last_seen (pattern_of r') = now"
        "fp_occurrence_count (pattern_of r') = fp_occurrence_count (pattern_of r) + 1"
      using learned_again [OF c(1,2) r(1,3) range old [OF r(1)]] by blast
    obtain c'' where "fst (link_failure_to_pattern now fid (fst r') (Some c')) = Some c''" "pattern_learned now pid sig c1 c'' (fst r')"
      using linked_again [OF c'(2-4,6,7) range, of c1 "[fid]"] c'(8) r(1) by auto
    then show ?thesis using c'(1,5) Cons r(2) by (auto simp: Let_def)
  qed
qed

text \<open>\<^bold>\<open>C15\<close> An error that comes back for the third time is learned: when two failures with its signature are stored and their messages
are at least half similar, recording it ends with one pattern for the signature, new or counted once more, and no exception.\<close>

theorem recurring_failure_learned:
  assumes c: "healthy c" "\<forall>n. \<not> io_fails c n" "pid \<in> set (ids_of (tabs c ''projects''))" "patterns_ok c"
    and x: "0 < fx_before_snapshot_id x" "fx_before_snapshot_id x \<in> snapshot_ids c" "0 < fx_after_snapshot_id x"
      "fx_after_snapshot_id x \<in> snapshot_ids c" "plain_text (fx_error_message x)"
    and room: "seq (tabs c ''workspace_failures'') < max_rowid" "seq (tabs c ''brain_failure_patterns'') < max_rowid"
      "- (2 ^ 63) \<le> now" "now < 2 ^ 63"
      "\<forall>r. pattern_at pid (compute_error_signature (fx_error_message x)) c = Some r \<longrightarrow> fp_occurrence_count (pattern_of r) + 1 < 2 ^ 31"
    and seen: "2 \<le> length (same_error_rows pid (compute_error_signature (fx_error_message x)) c)"
      "\<forall>r\<in>set (same_error_rows pid (compute_error_signature (fx_error_message x)) c).
         1 / 2 \<le> compute_similarity (fx_error_message x) (get_text r ''error_message'')"
    and srt: "sorts_by_score srt"
  shows "\<exists>c' i. record_failure now srt rx pid x (Some c) = Some (Some c', seq (tabs c ''workspace_failures'') + 1) \<and>
     pattern_learned now pid (compute_error_signature (fx_error_message x)) c c' i"
proof -
  let ?sig = "compute_error_signature (fx_error_message x)" and ?fid = "seq (tabs c ''workspace_failures'') + 1"
  define c1 where "c1 = fst (store_failure now pid x c)"
  have io: "\<not> io_fails c (stmts c)" using c(2) by simp
  note eff = store_failure_effect [OF c(1) io c(3) x(1-4) room(1), of now, folded c1_def]
  have same: "patterns_of c1 = patterns_of c" "tabs c1 ''projects'' = tabs c ''projects''"
    "seq (tabs c1 ''brain_failure_patterns'') = seq (tabs c ''brain_failure_patterns'')"
    "trows (tabs c1 ''workspace_failures'') = trows (tabs c ''workspace_failures'') @ [(?fid, failure_cells now pid x)]"
    by (simp_all add: eff(2) append_row_def Let_def)
  have at: "pattern_at pid ?sig c1 = pattern_at pid ?sig c" by (simp add: pattern_at_def same(1))
  have fid: "0 < ?fid" using healthy_table [OF c(1), of workspace_failures_table] by (simp add: table_ok_def Let_def)
  have new: "same_error_rows pid ?sig c1 = same_error_rows pid ?sig c @ [(?fid, failure_cells now pid x)]"
    by (simp add: same_error_rows_def same(4) val_def failure_cell_values signature_text(2))
  have "val (?fid, failure_cells now pid x) ''error_message'' = VText (fx_error_message x)"
    using c_string_plain [OF x(5)] by (simp add: val_def failure_cell_values)
  then have self: "compute_similarity (fx_error_message x) (get_text (?fid, failure_cells now pid x) ''error_message'') = 1"
    using compute_similarity_score by simp
  have "\<exists>ss. find_similar_failures srt pid ?sig (fx_error_message x) 10 (Some c1) = Some ss \<and> 3 \<le> length ss"
    using seen self unfolding new [symmetric] by (intro enough_similar [OF eff(3) srt]) (simp_all add: new)
  then obtain s ss where ss: "find_similar_failures srt pid ?sig (fx_error_message x) 10 (Some c1) = Some (s # ss)" "3 \<le> length (s # ss)"
    by (metis length_0_conv list.exhaust not_numeral_le_zero)
  have pok: "patterns_ok c1" using c(4) by (simp add: patterns_ok_def same(1))
  obtain ps where ps: "find_matching_patterns rx pid ?sig (fx_failure_type x) (fx_error_message x) (Some c1) = Some ps"
    using list_patterns_total [OF eff(3) pok, of pid 1000] by (auto simp: find_matching_patterns_def)
  have "\<forall>n. \<not> io_fails c1 n" using c(2) eff(4) by simp
  from recurring_learned [OF eff(3) this _ pok room(3,4) _ refl _ ss(1) srt ps, of ?fid] room(2,5) c(3)
  obtain c' i where ci: "(case ps of
             [] \<Rightarrow> map_option (\<lambda>(st, _). (st, ?fid)) (learn_pattern now pid (map sf_failure_id (s # ss)) [] (Some c1))
           | p # _ \<Rightarrow> let st = fst (update_pattern_stats now (fp_id p) (Some c1))
                     in Some (fst (link_failure_to_pattern now ?fid (fp_id p) st), ?fid)) = Some (Some c', ?fid)" "pattern_learned now pid ?sig c1 c' i"
    unfolding at same by blast
  have "record_failure now srt rx pid x (Some c) = Some (Some c', ?fid)"
    using ci(1) fid ss ps by (cases ps) (simp_all add: record_failure_def Let_def eff(1) c1_def [symmetric])
  moreover have "pattern_learned now pid ?sig c c' i" using ci(2) by (simp add: pattern_learned_def at)
  ultimately show ?thesis by blast
qed

section \<open>A concrete history\<close>

definition sample_failure :: failure_context where
  "sample_failure = empty_context\<lparr>fx_failure_type := ''build'', fx_error_message := ''a.c:7: error: x'', fx_command := ''make'',
     fx_exit_code := 2, fx_before_snapshot_id := 1, fx_after_snapshot_id := 2\<rparr>"

definition failed_twice :: sqlite where
  "failed_twice = fst (store_failure 60 1 sample_failure (fst (store_failure 50 1 sample_failure demo_ws)))"

definition by_score :: "similar_failure list \<Rightarrow> similar_failure list" where
  "by_score xs = sort_key (\<lambda>s. - sf_similarity_score s) xs"

lemma by_score_sorts: "sorts_by_score by_score"
proof -
  have "sorted_wrt (\<lambda>a b. sf_similarity_score b \<le> sf_similarity_score a) (by_score xs)" for xs
    using sorted_sort_key [of "\<lambda>s. - sf_similarity_score s" xs] by (simp add: by_score_def sorted_map)
  then show ?thesis by (simp add: sorts_by_score_def) (simp add: by_score_def)
qed

lemma demo_ws_tables:
  "io_fails demo_ws 0 = False" "trows (tabs demo_ws ''workspace_failures'') = []" "seq (tabs demo_ws ''workspace_failures'') = 0"
  "trows (tabs demo_ws ''brain_failure_patterns'') = []" "seq (tabs demo_ws ''brain_failure_patterns'') = 0"
  "1 \<in> set (ids_of (tabs demo_ws ''projects''))" "1 \<in> snapshot_ids demo_ws" "2 \<in> snapshot_ids demo_ws"
  by code_simp+

lemma failed_twice_values:
  "healthy failed_twice" "io_fails failed_twice n = False"
  "trows (tabs failed_twice ''workspace_failures'') = [(1, failure_cells 50 1 sample_failure), (2, failure_cells 60 1 sample_failure)]"
  "seq (tabs failed_twice ''workspace_failures'') = 2"
  "t \<noteq> ''workspace_failures'' \<Longrightarrow> tabs failed_twice t = tabs demo_ws t"
proof -
  have x: "fx_before_snapshot_id sample_failure = 1" "fx_after_snapshot_id sample_failure = 2" by (simp_all add: sample_failure_def)
  define c1 where "c1 = fst (store_failure 50 1 sample_failure demo_ws)"
  note e1 = store_failure_effect [of demo_ws 1 sample_failure 50, unfolded x, OF healthy_demo_ws, simplified demo_ws_io demo_ws_tables,
      simplified, folded c1_def]
  have e1': "tabs c1 = append_row ''workspace_failures'' (failure_cells 50 1 sample_failure) (tabs demo_ws)" "healthy c1" "io_fails c1 = io_fails demo_ws"
    using e1 by (simp_all add: max_rowid_def demo_ws_io)
  have "snapshot_ids c1 = snapshot_ids demo_ws" "tabs c1 ''projects'' = tabs demo_ws ''projects''" "seq (tabs c1 ''workspace_failures'') = 1"
    by (simp_all add: e1'(1) append_row_def Let_def demo_ws_tables)
  then have e2: "tabs failed_twice = append_row ''workspace_failures'' (failure_cells 60 1 sample_failure) (tabs c1)" "healthy failed_twice"
    "io_fails failed_twice = io_fails c1"
    using store_failure_effect [of c1 1 sample_failure 60, unfolded x, OF e1'(2)] e1'(3)
    by (simp_all add: demo_ws_io demo_ws_tables max_rowid_def failed_twice_def c1_def)
  show "healthy failed_twice" "io_fails failed_twice n = False"
    "trows (tabs failed_twice ''workspace_failures'') = [(1, failure_cells 50 1 sample_failure), (2, failure_cells 60 1 sample_failure)]"
    "seq (tabs failed_twice ''workspace_failures'') = 2"
    "t \<noteq> ''workspace_failures'' \<Longrightarrow> tabs failed_twice t = tabs demo_ws t"
    using e2 e1' by (simp_all add: append_row_def Let_def demo_ws_tables demo_ws_io)
qed

theorem recurring_failure_learned_witness:
  "\<exists>c' i. record_failure 70 by_score (\<lambda>_ _. None) 1 sample_failure (Some failed_twice) = Some (Some c', 3) \<and>
     pattern_learned 70 1 (compute_error_signature ''a.c:7: error: x'') failed_twice c' i"
proof -
  let ?sig = "compute_error_signature ''a.c:7: error: x''"
  have x: "fx_error_message sample_failure = ''a.c:7: error: x''" "fx_before_snapshot_id sample_failure = 1" "fx_after_snapshot_id sample_failure = 2"
    by (simp_all add: sample_failure_def)
  have same: "same_error_rows 1 ?sig failed_twice = [(1, failure_cells 50 1 sample_failure), (2, failure_cells 60 1 sample_failure)]"
    by (simp add: same_error_rows_def failed_twice_values(3) val_def failure_cell_values signature_text(2) x)
  have plain: "c_string ''a.c:7: error: x'' = ''a.c:7: error: x''" by code_simp
  have sim: "get_text (i, failure_cells now 1 sample_failure) ''error_message'' = ''a.c:7: error: x''" for i now
    by (simp add: val_def failure_cell_values x plain)
  have others: "patterns_of failed_twice = []" "seq (tabs failed_twice ''brain_failure_patterns'') = 0"
    "1 \<in> set (ids_of (tabs failed_twice ''projects''))" "1 \<in> snapshot_ids failed_twice" "2 \<in> snapshot_ids failed_twice"
    by (simp_all add: failed_twice_values(5) demo_ws_tables)
  have "\<exists>c' i. record_failure 70 by_score (\<lambda>_ _. None) 1 sample_failure (Some failed_twice) =
       Some (Some c', seq (tabs failed_twice ''workspace_failures'') + 1) \<and>
     pattern_learned 70 1 (compute_error_signature (fx_error_message sample_failure)) failed_twice c' i"
  proof (rule recurring_failure_learned)
    show "plain_text (fx_error_message sample_failure)" by (simp add: x plain_text_def)
    show "\<forall>r\<in>set (same_error_rows 1 (compute_error_signature (fx_error_message sample_failure)) failed_twice).
        1 / 2 \<le> compute_similarity (fx_error_message sample_failure) (get_text r ''error_message'')"
      using compute_similarity_score [of "''a.c:7: error: x''" "''a.c:7: error: x''"] by (simp add: x same sim)
  qed (simp_all add: failed_twice_values(1,2,4) x same others patterns_ok_def pattern_at_def by_key_def max_rowid_def by_score_sorts)
  then show ?thesis by (simp add: x failed_twice_values(4))
qed

end
