(* ===== verification/Brain_Recovery.thy ===== *)
theory Brain_Recovery
  imports Brain_Recurring Task_Build
begin

text \<open>
  Recovery suggestions and their execution (\<open>src/modules/brain/src/recovery.cpp\<close>, the command \<open>brain_recover\<close> of
  \<open>src/modules/brain/src/commands.cpp\<close> and the queries for stored actions of \<open>src/modules/nexus/src/store.cpp\<close>). The database and the
  directories are the workspace of \<open>Workspace_Manager\<close>. A \<open>suggester\<close> says which objects the class was given; what the shell does
  to the directories is a parameter of its executor. The REAL column \<open>confidence_score\<close> is a parameter: its text and the order of a
  query by it. Scores are rational, and \<^const>\<open>None\<close> is an exception of \<open>stoi\<close>, \<open>stoll\<close>, \<open>stod\<close> or \<open>at\<close>.
\<close>

section \<open>Actions\<close>

datatype action_type =
    RESTORE_FILES | RESTORE_SNAPSHOT | MODIFY_CONFIG | DOWNGRADE_DEPENDENCY | RESTORE_ENVIRONMENT | CLEAN_BUILD | CUSTOM_COMMAND

definition action_type_to_string :: "action_type \<Rightarrow> string" where
  "action_type_to_string t =
     (case t of RESTORE_FILES \<Rightarrow> ''restore_files'' | RESTORE_SNAPSHOT \<Rightarrow> ''restore_snapshot'' | MODIFY_CONFIG \<Rightarrow> ''modify_config''
      | DOWNGRADE_DEPENDENCY \<Rightarrow> ''downgrade_dep'' | RESTORE_ENVIRONMENT \<Rightarrow> ''restore_env'' | CLEAN_BUILD \<Rightarrow> ''clean_build''
      | CUSTOM_COMMAND \<Rightarrow> ''custom_command'')"

definition string_to_action_type :: "string \<Rightarrow> action_type" where
  "string_to_action_type s =
     (if s = ''restore_files'' then RESTORE_FILES else if s = ''restore_snapshot'' then RESTORE_SNAPSHOT
      else if s = ''modify_config'' then MODIFY_CONFIG else if s = ''downgrade_dep'' then DOWNGRADE_DEPENDENCY
      else if s = ''restore_env'' then RESTORE_ENVIRONMENT else if s = ''clean_build'' then CLEAN_BUILD
      else CUSTOM_COMMAND)"

record recovery_action =
  ra_id :: int
  ra_type :: action_type
  ra_description :: string
  ra_params :: "(string, string) std_map"
  ra_confidence :: rat
  ra_success_count :: int
  ra_failure_count :: int
  ra_avg_execution_time_ms :: int
  ra_requires_confirmation :: bool
  ra_risk_level :: string

definition new_action :: "action_type \<Rightarrow> string \<Rightarrow> recovery_action" where
  "new_action t description = \<lparr>ra_id = 0, ra_type = t, ra_description = description, ra_params = [], ra_confidence = 0,
     ra_success_count = 0, ra_failure_count = 0, ra_avg_execution_time_ms = 0, ra_requires_confirmation = True,
     ra_risk_level = ''medium''\<rparr>"

definition with_reason :: "string \<Rightarrow> string \<Rightarrow> string" where
  "with_reason description reason = (if reason \<noteq> [] then description @ '' ('' @ reason @ '')'' else description)"

definition create_restore_files_action :: "int \<Rightarrow> string \<Rightarrow> recovery_action" where
  "create_restore_files_action sid reason =
     (new_action RESTORE_FILES (with_reason (''Restore files from snapshot #'' @ to_string sid) reason))
       \<lparr>ra_params := [(''snapshot_id'', to_string sid)], ra_requires_confirmation := True, ra_risk_level := ''low''\<rparr>"

definition create_restore_snapshot_action :: "int \<Rightarrow> string \<Rightarrow> recovery_action" where
  "create_restore_snapshot_action sid reason =
     (new_action RESTORE_SNAPSHOT (with_reason (''Restore workspace from snapshot #'' @ to_string sid) reason))
       \<lparr>ra_params := [(''snapshot_id'', to_string sid)], ra_requires_confirmation := True, ra_risk_level := ''medium''\<rparr>"

definition create_clean_build_action :: "string \<Rightarrow> recovery_action" where
  "create_clean_build_action reason =
     (new_action CLEAN_BUILD (with_reason ''Clean build directory and rebuild'' reason))
       \<lparr>ra_requires_confirmation := False, ra_risk_level := ''low''\<rparr>"

definition create_custom_command_action :: "string \<Rightarrow> string \<Rightarrow> recovery_action" where
  "create_custom_command_action command description =
     (new_action CUSTOM_COMMAND (if description = [] then ''Run: '' @ command else description))
       \<lparr>ra_params := [(''command'', command)], ra_requires_confirmation := True, ra_risk_level := ''high''\<rparr>"

definition calculate_confidence :: "recovery_action \<Rightarrow> int \<Rightarrow> rat" where
  "calculate_confidence a occurrences =
     (let total = ra_success_count a + ra_failure_count a in
      if total > 0 then of_int (ra_success_count a) / of_int total
      else min (1 / 2 + of_int occurrences / 10) (9 / 10))"

section \<open>Parameters as JSON\<close>

definition params_to_json :: "(string, string) std_map \<Rightarrow> string" where
  "params_to_json params =
     (if params = [] then ''{}'' else ''{'' @ join_with '','' (map (\<lambda>(k, v). quoted k @ '':'' @ quoted v) params) @ ''}'')"

abbreviation json_blanks :: string where
  "json_blanks \<equiv> [CHR '' '', CHR 0x09, CHR 0x0A, CHR 0x0D]"

definition param_text :: "string \<Rightarrow> string" where
  "param_text s = trim_of json_blanks (filter (\<lambda>c. c \<noteq> CHR 0x22) s)"

definition read_param :: "string \<Rightarrow> (string, string) std_map \<Rightarrow> (string, string) std_map" where
  "read_param pair params =
     (case find_char (CHR '':'') pair of
        None \<Rightarrow> params
      | Some colon \<Rightarrow> map_put (param_text (take colon pair)) (param_text (drop (colon + 1) pair)) params)"

definition json_to_params :: "string \<Rightarrow> (string, string) std_map" where
  "json_to_params json =
     (if json = [] \<or> json = ''{}'' then []
      else fold read_param (getlines (CHR '','') (filter (\<lambda>c. c \<noteq> CHR ''}'') (filter (\<lambda>c. c \<noteq> CHR ''{'') json))) [])"

section \<open>Stored actions\<close>

text \<open>\<open>std::stod\<close> on decimal numbers; infinities, NaN, hexadecimal numbers and overflow are outside the model.\<close>

definition decimal_exponent :: "string \<Rightarrow> int" where
  "decimal_exponent s =
     (case s of [] \<Rightarrow> 0
      | e # t \<Rightarrow> if e = CHR ''e'' \<or> e = CHR ''E'' then
          (let neg = (t \<noteq> [] \<and> hd t = CHR ''-''); u = (if t \<noteq> [] \<and> (hd t = CHR ''-'' \<or> hd t = CHR ''+'') then tl t else t);
               n = int (digits_value (takeWhile isdigit u))
           in if neg then - n else n)
        else 0)"

definition stod :: "string \<Rightarrow> rat option" where
  "stod s =
     (let t = dropWhile isspace s;
          neg = (t \<noteq> [] \<and> hd t = CHR ''-'');
          u = (if t \<noteq> [] \<and> (hd t = CHR ''-'' \<or> hd t = CHR ''+'') then tl t else t);
          whole = takeWhile isdigit u; v = dropWhile isdigit u;
          frac = (if v \<noteq> [] \<and> hd v = CHR ''.'' then takeWhile isdigit (tl v) else []);
          rest = (if v \<noteq> [] \<and> hd v = CHR ''.'' then dropWhile isdigit (tl v) else v);
          e = decimal_exponent rest - int (length frac);
          m = of_nat (digits_value (whole @ frac)) :: rat
      in if whole = [] \<and> frac = [] then None
         else Some ((if neg then - 1 else 1) * (if e < 0 then m / 10 ^ nat (- e) else m * 10 ^ nat e)))"

record real_column =
  rc_text :: "sql_row \<Rightarrow> string option"
  rc_descending :: "sql_row list \<Rightarrow> sql_row list"

definition action_columns :: "out_column list" where
  "action_columns = [IntCol ''id'', IntCol ''pattern_id'', IntCol ''failure_id'', TextCol ''action_type'', TextCol ''action_params_json'',
     TextCol ''action_description'', IntCol ''attempted_count'', IntCol ''success_count'', IntCol ''failure_count'',
     IntCol ''avg_execution_time_ms'']"

text \<open>\<open>row.get_int ("requires_user_confirmation").value_or (1)\<close>.\<close>

definition action_row :: "real_column \<Rightarrow> sql_row \<Rightarrow> (string, string) std_map" where
  "action_row rc r =
     map_put ''requires_user_confirmation'' (to_string (case row_get_int r ''requires_user_confirmation'' of None \<Rightarrow> 1 | Some i \<Rightarrow> i))
       (map_put ''confidence_score'' (case rc_text rc r of None \<Rightarrow> ''0.0'' | Some s \<Rightarrow> s) (row_map action_columns r))"

definition get_recovery_actions_for_pattern :: "real_column \<Rightarrow> int \<Rightarrow> sqlite \<Rightarrow> (string, string) std_map list" where
  "get_recovery_actions_for_pattern rc i c =
     map (action_row rc) (rc_descending rc (select ''brain_recovery_actions'' (eq_int ''pattern_id'' i) c))"

definition get_recovery_actions_for_failure :: "real_column \<Rightarrow> int \<Rightarrow> sqlite \<Rightarrow> (string, string) std_map list" where
  "get_recovery_actions_for_failure rc i c =
     map (action_row rc) (rc_descending rc (select ''brain_recovery_actions'' (eq_int ''failure_id'' i) c))"

definition parse_action :: "(string, string) std_map \<Rightarrow> recovery_action option" where
  "parse_action m = do {
     i \<leftarrow> row_num m ''id'';
     t \<leftarrow> map_get m ''action_type'';
     d \<leftarrow> map_get m ''action_description'';
     ps \<leftarrow> map_get m ''action_params_json'';
     sc \<leftarrow> row_count m ''success_count'';
     fc \<leftarrow> row_count m ''failure_count'';
     avg \<leftarrow> row_num m ''avg_execution_time_ms'';
     conf \<leftarrow> Option.bind (map_get m ''confidence_score'') stod;
     ask \<leftarrow> map_get m ''requires_user_confirmation'';
     Some ((new_action (string_to_action_type t) d)\<lparr>ra_id := i, ra_params := json_to_params ps, ra_success_count := sc,
       ra_failure_count := fc, ra_avg_execution_time_ms := avg, ra_confidence := conf, ra_requires_confirmation := (ask = ''1'')\<rparr>) }"

section \<open>The suggester\<close>

text \<open>The executor: the machine that runs shell texts, and what a text does to the directories.\<close>

record executor =
  ex_machine :: machine
  ex_effect :: "string \<Rightarrow> (string \<Rightarrow> tree) \<Rightarrow> string \<Rightarrow> tree"

record suggester =
  sg_store :: bool
  sg_matcher :: bool
  sg_manager :: bool
  sg_executor :: "executor option"
  sg_os :: os
  sg_now :: int
  sg_elapsed_ms :: int
  sg_restore_ms :: "int \<times> int"
  sg_regex :: "string \<Rightarrow> string \<Rightarrow> bool option"
  sg_sort_failures :: "similar_failure list \<Rightarrow> similar_failure list"
  sg_sort_actions :: "recovery_action list \<Rightarrow> recovery_action list"
  sg_real :: real_column

definition get_actions_for_pattern :: "suggester \<Rightarrow> int \<Rightarrow> sqlite \<Rightarrow> recovery_action list option" where
  "get_actions_for_pattern sg i c =
     (if \<not> sg_store sg then Some [] else those (map parse_action (get_recovery_actions_for_pattern (sg_real sg) i c)))"

definition get_actions_for_failure :: "suggester \<Rightarrow> int \<Rightarrow> sqlite \<Rightarrow> recovery_action list option" where
  "get_actions_for_failure sg i c =
     (if \<not> sg_store sg then Some [] else those (map parse_action (get_recovery_actions_for_failure (sg_real sg) i c)))"

definition update_action_stats :: "suggester \<Rightarrow> int \<Rightarrow> bool \<Rightarrow> int \<Rightarrow> sqlite \<Rightarrow> sqlite \<times> bool" where
  "update_action_stats sg i ok ms c = (if \<not> sg_store sg then (c, False) else update_recovery_action_stats (sg_now sg) i ok ms c)"

text \<open>The loop over the failures of a pattern, left at the first restore that fixed one.\<close>

primrec first_restore :: "failure_pattern \<Rightarrow> int list \<Rightarrow> sqlite \<Rightarrow> recovery_action list option" where
  "first_restore p [] c = Some []"
| "first_restore p (fid # fids) c =
     (case Nexus_Brain_Store.get_failure fid c of
        None \<Rightarrow> first_restore p fids c
      | Some m \<Rightarrow> do {
          res \<leftarrow> map_get m ''resolved'';
          if res \<noteq> ''1'' then first_restore p fids c
          else do {
            rtype \<leftarrow> map_get m ''resolution_type'';
            sid \<leftarrow> row_num m ''resolution_snapshot_id'';
            if rtype = ''restore'' \<and> sid > 0 then
              let a = create_restore_snapshot_action sid ''Restore from snapshot that fixed this issue before''
              in Some [a\<lparr>ra_confidence := calculate_confidence a (fp_occurrence_count p)\<rparr>]
            else first_restore p fids c } })"

definition generate_from_pattern :: "suggester \<Rightarrow> int \<Rightarrow> sqlite \<Rightarrow> recovery_action list option" where
  "generate_from_pattern sg pattern_id c = do {
     existing \<leftarrow> get_actions_for_pattern sg pattern_id c;
     if existing \<noteq> [] then Some existing
     else do {
       found \<leftarrow> (if sg_matcher sg then get_pattern pattern_id (Some c) else Some None);
       (case found of
          None \<Rightarrow> Some []
        | Some p \<Rightarrow> if fp_failure_ids p \<noteq> [] \<and> sg_store sg then first_restore p (fp_failure_ids p) c else Some []) } }"

definition suggest_from_similar :: "sqlite \<Rightarrow> similar_failure \<Rightarrow> recovery_action list option" where
  "suggest_from_similar c s =
     (if sf_was_resolved s \<and> sf_resolution_type s \<noteq> [] then
        (case Nexus_Brain_Store.get_failure (sf_failure_id s) c of
           None \<Rightarrow> Some []
         | Some m \<Rightarrow>
             if sf_resolution_type s = ''restore'' then do {
               sid \<leftarrow> row_num m ''resolution_snapshot_id'';
               Some (if sid > 0 then [(create_restore_snapshot_action sid ''Similar failure was fixed by restoring this snapshot'')
                                        \<lparr>ra_confidence := sf_similarity_score s * (8 / 10)\<rparr>] else []) }
             else Some [])
      else Some [])"

definition generate_from_similar_failures :: "suggester \<Rightarrow> int \<Rightarrow> string \<Rightarrow> string \<Rightarrow> sqlite \<Rightarrow> recovery_action list option" where
  "generate_from_similar_failures sg pid sig msg c =
     (if \<not> sg_matcher sg \<or> \<not> sg_store sg then Some []
      else do {
        similar \<leftarrow> find_similar_failures (sg_sort_failures sg) pid sig msg 5 (Some c);
        map_option concat (those (map (suggest_from_similar c) similar)) })"

definition generate_generic_suggestions :: "(string, string) std_map \<Rightarrow> recovery_action list option" where
  "generate_generic_suggestions failure = do {
     ftype \<leftarrow> map_get failure ''failure_type'';
     msg \<leftarrow> map_get failure ''error_message'';
     build \<leftarrow> (if ftype \<noteq> ''build'' then Some []
              else do {
                let clean = (create_clean_build_action ''Clean build often resolves build cache issues'')\<lparr>ra_confidence := 4 / 10, ra_risk_level := ''low''\<rparr>;
                if contains ''undefined reference'' msg \<or> contains ''unresolved external'' msg then do {
                  before \<leftarrow> row_num failure ''before_snapshot_id'';
                  Some (clean # (if before > 0 then [(create_restore_files_action before ''Restore dependencies from last successful build'')
                                   \<lparr>ra_confidence := 5 / 10\<rparr>] else [])) }
                else Some [clean] });
     test \<leftarrow> (if ftype \<noteq> ''test'' then Some []
             else do {
               before \<leftarrow> row_num failure ''before_snapshot_id'';
               Some (if before > 0 then [(create_restore_snapshot_action before ''Restore to last known passing state'')
                       \<lparr>ra_confidence := 6 / 10\<rparr>] else []) });
     Some (build @ test) }"

text \<open>The limit is compared as a \<open>size_t\<close>.\<close>

definition suggest_recovery :: "suggester \<Rightarrow> int \<Rightarrow> int \<Rightarrow> int \<Rightarrow> sqlite \<Rightarrow> recovery_action list option" where
  "suggest_recovery sg pid fid max_suggestions c =
     (if \<not> sg_store sg then Some []
      else case Nexus_Brain_Store.get_failure fid c of
        None \<Rightarrow> Some []
      | Some failure \<Rightarrow> do {
          sig \<leftarrow> map_get failure ''error_signature'';
          msg \<leftarrow> map_get failure ''error_message'';
          ftype \<leftarrow> map_get failure ''failure_type'';
          from_patterns \<leftarrow> (if \<not> sg_matcher sg then Some []
            else do {
              ps \<leftarrow> find_matching_patterns (sg_regex sg) pid sig ftype msg (Some c);
              map_option concat (those (map (\<lambda>p. generate_from_pattern sg (fp_id p) c) ps)) });
          from_similar \<leftarrow> generate_from_similar_failures sg pid sig msg c;
          generic \<leftarrow> generate_generic_suggestions failure;
          let suggestions = sg_sort_actions sg (from_patterns @ from_similar @ generic);
          Some (if max_suggestions \<ge> 0 \<and> length suggestions > nat max_suggestions then take (nat max_suggestions) suggestions else suggestions) })"

section \<open>Executing an action\<close>

datatype recovery_error =
    No_Manager | No_Snapshot_Id | Restore_Error restore_error | No_Executor | Clean_Build_Failed int | No_Command
  | Command_Failed int | Unsupported action_type | No_Suggestions | No_Auto_Actions

record recovery_result =
  rr_success :: bool
  rr_verification_passed :: bool
  rr_output_log :: string
  rr_execution_time_ms :: int
  rr_actions_taken :: "string list"
  rr_errors :: "recovery_error list"

definition empty_result :: recovery_result where
  "empty_result = \<lparr>rr_success = False, rr_verification_passed = False, rr_output_log = [], rr_execution_time_ms = 0,
     rr_actions_taken = [], rr_errors = []\<rparr>"

definition failed_with :: "recovery_error \<Rightarrow> recovery_result \<Rightarrow> recovery_result" where
  "failed_with err r = r\<lparr>rr_errors := rr_errors r @ [err]\<rparr>"

definition restore_opts :: "string \<Rightarrow> restore_options" where
  "restore_opts t = \<lparr>restore_type = t, dry_run = False, include_paths = [], exclude_paths = []\<rparr>"

text \<open>The two restoring strategies: \<open>mode\<close> and what they report.\<close>

definition run_restore_action ::
  "string \<Rightarrow> (int \<Rightarrow> restore_result \<Rightarrow> string \<times> string) \<Rightarrow> suggester \<Rightarrow> recovery_action \<Rightarrow> int \<Rightarrow> workspace \<Rightarrow> recovery_result
    \<Rightarrow> (workspace \<times> recovery_result \<times> bool) option" where
  "run_restore_action mode report sg a pid w r =
     (if \<not> sg_manager sg then Some (w, failed_with No_Manager r, False)
      else case map_get (ra_params a) ''snapshot_id'' of
        None \<Rightarrow> Some (w, failed_with No_Snapshot_Id r, False)
      | Some t \<Rightarrow> do {
          sid \<leftarrow> stoll t;
          (w', res) \<leftarrow> restore (sg_os sg) (sg_now sg) (sg_restore_ms sg) pid sid (restore_opts mode) w;
          Some (w', r\<lparr>rr_actions_taken := rr_actions_taken r @ [fst (report sid res)], rr_output_log := snd (report sid res),
                     rr_errors := rr_errors r @ map Restore_Error (errors res)\<rparr>, success res) })"

definition execute_restore_files ::
  "suggester \<Rightarrow> recovery_action \<Rightarrow> int \<Rightarrow> workspace \<Rightarrow> recovery_result \<Rightarrow> (workspace \<times> recovery_result \<times> bool) option" where
  "execute_restore_files = run_restore_action ''partial''
     (\<lambda>sid res. (''Restored '' @ to_string (files_restored res) @ '' files from snapshot #'' @ to_string sid,
        ''Partial restore: '' @ to_string (files_restored res) @ '' files restored, '' @ to_string (files_skipped res) @ '' skipped''))"

definition execute_restore_snapshot ::
  "suggester \<Rightarrow> recovery_action \<Rightarrow> int \<Rightarrow> workspace \<Rightarrow> recovery_result \<Rightarrow> (workspace \<times> recovery_result \<times> bool) option" where
  "execute_restore_snapshot = run_restore_action ''full''
     (\<lambda>sid res. (''Full restore from snapshot #'' @ to_string sid, ''Full restore: '' @ to_string (files_restored res) @ '' files restored''))"

definition run_shell_action ::
  "string \<Rightarrow> string \<Rightarrow> (int \<Rightarrow> recovery_error) \<Rightarrow> executor \<Rightarrow> workspace \<Rightarrow> recovery_result \<Rightarrow> (workspace \<times> recovery_result \<times> bool) option" where
  "run_shell_action command taken err ex w r =
     (case execute_shell (ex_machine ex) 0 command [] of
        None \<Rightarrow> None
      | Some res \<Rightarrow>
          let r1 = r\<lparr>rr_actions_taken := rr_actions_taken r @ [taken], rr_output_log := er_stdout res\<rparr>
          in Some (w\<lparr>wdisk := ex_effect ex (shell_text command []) (wdisk w)\<rparr>,
                   (if er_success res then r1 else failed_with (err (er_exit_code res)) r1), er_success res))"

definition execute_clean_build ::
  "suggester \<Rightarrow> recovery_action \<Rightarrow> int \<Rightarrow> workspace \<Rightarrow> recovery_result \<Rightarrow> (workspace \<times> recovery_result \<times> bool) option" where
  "execute_clean_build sg a pid w r =
     (case sg_executor sg of
        None \<Rightarrow> Some (w, failed_with No_Executor r, False)
      | Some ex \<Rightarrow> run_shell_action ''rm -rf build && cmake -S . -B build && cmake --build build''
          ''Ran clean build (rm -rf build && cmake configure && build)'' Clean_Build_Failed ex w r)"

definition execute_custom_command ::
  "suggester \<Rightarrow> recovery_action \<Rightarrow> int \<Rightarrow> workspace \<Rightarrow> recovery_result \<Rightarrow> (workspace \<times> recovery_result \<times> bool) option" where
  "execute_custom_command sg a pid w r =
     (case sg_executor sg of
        None \<Rightarrow> Some (w, failed_with No_Executor r, False)
      | Some ex \<Rightarrow>
          (case map_get (ra_params a) ''command'' of
             None \<Rightarrow> Some (w, failed_with No_Command r, False)
           | Some command \<Rightarrow>
               if command = [] then Some (w, failed_with No_Command r, False)
               else run_shell_action command (''Ran command: '' @ command) Command_Failed ex w r))"

definition run_action ::
  "suggester \<Rightarrow> recovery_action \<Rightarrow> int \<Rightarrow> workspace \<Rightarrow> recovery_result \<Rightarrow> (workspace \<times> recovery_result \<times> bool) option" where
  "run_action sg a pid w r =
     (case ra_type a of
        RESTORE_FILES \<Rightarrow> execute_restore_files sg a pid w r
      | RESTORE_SNAPSHOT \<Rightarrow> execute_restore_snapshot sg a pid w r
      | CLEAN_BUILD \<Rightarrow> execute_clean_build sg a pid w r
      | CUSTOM_COMMAND \<Rightarrow> execute_custom_command sg a pid w r
      | t \<Rightarrow> Some (w, failed_with (Unsupported t) r, False))"

definition execute_recovery ::
  "suggester \<Rightarrow> int \<Rightarrow> int \<Rightarrow> recovery_action \<Rightarrow> bool \<Rightarrow> workspace \<Rightarrow> (workspace \<times> recovery_result) option" where
  "execute_recovery sg pid fid a dry w =
     (if dry then
        Some (w, empty_result\<lparr>rr_success := True, rr_output_log := ''[DRY RUN] Would execute: '' @ ra_description a,
                 rr_actions_taken := [''Dry run - no actual changes made'']\<rparr>)
      else
        let (c1, hid) = (if sg_store sg then begin_recovery_execution (sg_now sg) pid fid (ra_id a)
                           (if ra_requires_confirmation a then ''manual'' else ''auto'') (wdb w) else (wdb w, 0)) in
        case run_action sg a pid (w\<lparr>wdb := c1\<rparr>) empty_result of
          None \<Rightarrow> None
        | Some (w1, r1, ok) \<Rightarrow>
            let r = r1\<lparr>rr_success := ok, rr_execution_time_ms := sg_elapsed_ms sg\<rparr>;
                c2 = (if sg_store sg \<and> hid > 0 then fst (complete_recovery_execution (sg_now sg) hid ok (rr_output_log r)
                        (rr_verification_passed r) (sg_elapsed_ms sg) (wdb w1)) else wdb w1);
                c3 = (if ra_id a > 0 \<and> sg_store sg then fst (update_action_stats sg (ra_id a) ok (sg_elapsed_ms sg) c2) else c2)
            in Some (w1\<lparr>wdb := c3\<rparr>, r))"

section \<open>Automatic recovery\<close>

primrec try_actions :: "suggester \<Rightarrow> int \<Rightarrow> int \<Rightarrow> rat \<Rightarrow> recovery_action list \<Rightarrow> workspace \<times> recovery_result \<Rightarrow> (workspace \<times> recovery_result) option" where
  "try_actions sg pid fid threshold [] st = Some (fst st, failed_with No_Auto_Actions (snd st))"
| "try_actions sg pid fid threshold (a # as) st =
     (if ra_confidence a \<ge> threshold \<and> \<not> ra_requires_confirmation a then
        (case execute_recovery sg pid fid a False (fst st) of
           None \<Rightarrow> None
         | Some (w', r) \<Rightarrow> if rr_success r then Some (w', r) else try_actions sg pid fid threshold as (w', r))
      else try_actions sg pid fid threshold as st)"

definition auto_recover :: "suggester \<Rightarrow> int \<Rightarrow> int \<Rightarrow> rat \<Rightarrow> workspace \<Rightarrow> (workspace \<times> recovery_result) option" where
  "auto_recover sg pid fid threshold w =
     (case suggest_recovery sg pid fid 5 (wdb w) of
        None \<Rightarrow> None
      | Some [] \<Rightarrow> Some (w, failed_with No_Suggestions empty_result)
      | Some suggestions \<Rightarrow> try_actions sg pid fid threshold suggestions (w, empty_result))"

definition verify_recovery :: "suggester \<Rightarrow> string \<Rightarrow> workspace \<Rightarrow> (workspace \<times> bool) option" where
  "verify_recovery sg original_command w =
     (case sg_executor sg of
        None \<Rightarrow> Some (w, True)
      | Some ex \<Rightarrow>
          if original_command = [] then Some (w, True)
          else map_option (\<lambda>res. (w\<lparr>wdisk := ex_effect ex (shell_text original_command []) (wdisk w)\<rparr>, er_success res))
                 (execute_shell (ex_machine ex) 0 original_command []))"

section \<open>The command\<close>

fun parse_recover_options :: "string list \<Rightarrow> int \<times> bool \<Rightarrow> (int \<times> bool) option" where
  "parse_recover_options [] opts = Some opts"
| "parse_recover_options [arg] (n, dry) = Some (n, dry \<or> arg = ''--dry-run'')"
| "parse_recover_options (arg # v # rest) (n, dry) =
     (if arg = ''--action'' then (case stoi v of None \<Rightarrow> None | Some i \<Rightarrow> parse_recover_options rest (i, dry))
      else parse_recover_options (v # rest) (n, dry \<or> arg = ''--dry-run''))"

text \<open>\<open>nazg brain_recover\<close> in the directory \<open>cwd\<close>, with the answer \<open>response\<close> to its question. It gives the suggester a store and
a matcher, and nothing else.\<close>

definition command_suggester :: "suggester \<Rightarrow> suggester" where
  "command_suggester sg = sg\<lparr>sg_store := True, sg_matcher := True, sg_manager := False, sg_executor := None\<rparr>"

definition cmd_brain_recover :: "suggester \<Rightarrow> string \<Rightarrow> string list \<Rightarrow> string \<Rightarrow> bool \<Rightarrow> workspace \<Rightarrow> (workspace \<times> int) option" where
  "cmd_brain_recover sg cwd args response has_store w =
     (if \<not> has_store then Some (w, 1)
      else case args of
        [] \<Rightarrow> Some (w, 1)
      | arg # rest \<Rightarrow> do {
          fid \<leftarrow> stoll arg;
          opts \<leftarrow> parse_recover_options rest (1, False);
          let (c1, pid) = ensure_project (sg_now sg) cwd (wdb w);
          let w1 = w\<lparr>wdb := c1\<rparr>;
          (case Nexus_Brain_Store.get_failure fid c1 of
             None \<Rightarrow> Some (w1, 1)
           | Some _ \<Rightarrow> do {
               suggestions \<leftarrow> suggest_recovery (command_suggester sg) pid fid 5 c1;
               if suggestions = [] \<or> fst opts < 1 \<or> fst opts > int (length suggestions) then Some (w1, 1)
               else
                 let a = suggestions ! nat (fst opts - 1) in
                 if \<not> snd opts \<and> ra_requires_confirmation a \<and> response \<notin> {''y'', ''Y'', ''yes''} then Some (w1, 0)
                 else map_option (\<lambda>(w2, r). (w2, if rr_success r then 0 else 1))
                        (execute_recovery (command_suggester sg) pid fid a (snd opts) w1) }) })"

section \<open>Restoring single files never succeeds\<close>

lemma partial_needs_paths:
  "restore e now ms pid sid (restore_opts ''partial'') w = Some (w', res) \<Longrightarrow> w' = w \<and> \<not> success res \<and> (\<exists>err. errors res = [err])"
proof -
  have "restore_mode (restore_opts ''partial'') = ''partial''" by code_simp
  then show "restore e now ms pid sid (restore_opts ''partial'') w = Some (w', res) \<Longrightarrow> w' = w \<and> \<not> success res \<and> (\<exists>err. errors res = [err])"
    by (auto simp: restore_def restore_opts_def Workspace_Manager.no_result_def Option.bind_eq_Some_conv split: option.splits if_splits)
qed

text \<open>An action that restores files never restores one: the partial restore is started without paths, which the workspace
manager refuses, so the execution reports failure with an error and leaves database and directories as they were.\<close>

lemma restore_files_always_fails:
  assumes "execute_restore_files sg a pid w r = Some (w', r', ok)"
  shows "\<not> ok \<and> w' = w \<and> length (rr_errors r') = length (rr_errors r) + 1"
  using assms
  by (auto simp: execute_restore_files_def run_restore_action_def failed_with_def Option.bind_eq_Some_conv
      split: if_splits option.splits prod.splits dest!: partial_needs_paths)

section \<open>The command recovers nothing\<close>

lemma exec_insert_frame: "t' \<noteq> t \<Longrightarrow> tabs (fst (exec (Insert t vs) c)) t' = tabs c t'"
  by (auto simp: exec_def db_execute_def Let_def sql_insert_def append_row_def find_def_def dest!: find_Some_in split: option.splits if_splits)

lemma exec_update_frame: "t' \<noteq> t \<Longrightarrow> tabs (fst (exec (Update t p f) c)) t' = tabs c t'"
  by (auto simp: exec_def db_execute_def Let_def sql_update_def find_def_def dest!: find_Some_in split: option.splits if_splits)

lemma insert_id_frame: "t' \<noteq> t \<Longrightarrow> tabs (fst (insert_id e (Insert t vs) c)) t' = tabs c t'"
  using exec_insert_frame [of t' t vs c] by (cases "exec (Insert t vs) c") (simp add: insert_id_def)

abbreviation failures_of :: "workspace \<Rightarrow> table" where
  "failures_of w \<equiv> tabs (wdb w) ''workspace_failures''"

lemma no_dependencies_no_recovery:
  assumes "\<not> sg_manager sg" "sg_executor sg = None" "run_action sg a pid w r = Some (w', r', ok)"
  shows "\<not> ok \<and> w' = w"
  using assms by (auto simp: run_action_def execute_restore_files_def execute_restore_snapshot_def run_restore_action_def
      execute_clean_build_def execute_custom_command_def split: action_type.splits)

lemma history_frame:
  "tabs (fst (begin_recovery_execution now pid fid aid mode c)) ''workspace_failures'' = tabs c ''workspace_failures''"
  "tabs (fst (complete_recovery_execution now hid ok out ver ms c)) ''workspace_failures'' = tabs c ''workspace_failures''"
  "tabs (fst (update_recovery_action_stats now i ok ms c)) ''workspace_failures'' = tabs c ''workspace_failures''"
  "tabs (fst (ensure_project now dir c)) ''workspace_failures'' = tabs c ''workspace_failures''"
  by (simp_all add: begin_recovery_execution_def insert_id_frame complete_recovery_execution_def exec_update_frame update_recovery_action_stats_def
      ensure_project_def split: option.split)

lemma execution_without_dependencies:
  assumes "\<not> sg_manager sg" "sg_executor sg = None" "execute_recovery sg pid fid a dry w = Some (w', r)"
  shows "wdisk w' = wdisk w \<and> failures_of w' = failures_of w \<and> (rr_success r \<longrightarrow> dry)"
proof (cases dry)
  case False
  define q where "q = (if sg_store sg then begin_recovery_execution (sg_now sg) pid fid (ra_id a)
                           (if ra_requires_confirmation a then ''manual'' else ''auto'') (wdb w) else (wdb w, 0))"
  obtain w1 r1 ok where run: "run_action sg a pid (w\<lparr>wdb := fst q\<rparr>) empty_result = Some (w1, r1, ok)"
    "wdisk w' = wdisk w1" "failures_of w' = failures_of w1" "rr_success r = ok"
    using assms(3) False
    by (auto simp: execute_recovery_def q_def [symmetric] Let_def update_action_stats_def history_frame split: prod.splits option.splits if_splits)
  have "failures_of (w\<lparr>wdb := fst q\<rparr>) = failures_of w" by (simp add: q_def history_frame)
  then show ?thesis using no_dependencies_no_recovery [OF assms(1,2) run(1)] run(2-4) by simp
qed (use assms(3) in \<open>auto simp: execute_recovery_def\<close>)

text \<open>\<^bold>\<open>C17\<close> The command \<open>brain_recover\<close> recovers nothing: it gives the suggester neither a workspace manager nor an executor, so no
file ever changes, no failure is marked resolved, and it reports success only for a dry run or a question answered with no.\<close>

theorem command_never_recovers:
  assumes "cmd_brain_recover sg cwd args response st w = Some (w', code)"
  shows "wdisk w' = wdisk w \<and> failures_of w' = failures_of w \<and>
     (code = 0 \<longrightarrow> response \<notin> {''y'', ''Y'', ''yes''} \<or> (\<exists>n. parse_recover_options (tl args) (1, False) = Some (n, True)))"
proof (cases "st \<and> args \<noteq> []")
  case True
  then obtain arg rest where args: "args = arg # rest" by (cases args) auto
  obtain fid opts c1 pid where p: "stoll arg = Some fid" "parse_recover_options rest (1, False) = Some opts"
    "ensure_project (sg_now sg) cwd (wdb w) = (c1, pid)"
    using assms True args by (cases "ensure_project (sg_now sg) cwd (wdb w)") (auto simp: cmd_brain_recover_def Option.bind_eq_Some_conv)
  define w1 where "w1 = w\<lparr>wdb := c1\<rparr>"
  have w1: "wdisk w1 = wdisk w" "failures_of w1 = failures_of w"
    using history_frame(4) [of "sg_now sg" cwd "wdb w"] p(3) by (simp_all add: w1_def)
  consider "w' = w1" "code = 1" | "w' = w1" "response \<notin> {''y'', ''Y'', ''yes''}"
    | a r where "execute_recovery (command_suggester sg) pid fid a (snd opts) w1 = Some (w', r)" "code = (if rr_success r then 0 else 1)"
    using assms True unfolding args cmd_brain_recover_def
    by (auto simp: p w1_def [symmetric] Let_def Option.bind_eq_Some_conv split: option.splits if_splits)
  then show ?thesis
  proof cases
    case 3
    have "\<not> sg_manager (command_suggester sg)" "sg_executor (command_suggester sg) = None" by (simp_all add: command_suggester_def)
    from execution_without_dependencies [OF this 3(1)] show ?thesis
      using w1 3(2) p(2) by (cases opts) (auto simp: args split: if_splits)
  qed (use w1 in auto)
qed (use assms in \<open>auto simp: cmd_brain_recover_def split: list.splits if_splits\<close>)

section \<open>Automatic recovery\<close>

definition orders_only :: "suggester \<Rightarrow> bool" where
  "orders_only sg \<longleftrightarrow> (\<forall>as. set (sg_sort_actions sg as) = set as) \<and> (\<forall>rs. set (rc_descending (sg_real sg) rs) = set rs)"

lemma those_concat: "map_option concat (those (map f xs)) = Some ys \<Longrightarrow> y \<in> set ys \<Longrightarrow> \<exists>x\<in>set xs. \<exists>zs. f x = Some zs \<and> y \<in> set zs"
proof (induction xs arbitrary: ys)
  case (Cons x xs)
  then show ?case by (fastforce split: option.splits)
qed simp

definition asks_first :: "recovery_action \<Rightarrow> bool" where
  "asks_first a \<longleftrightarrow> ra_requires_confirmation a \<or> ra_confidence a = 4 / 10"

lemma first_restore_asks: "first_restore p fids c = Some as \<Longrightarrow> a \<in> set as \<Longrightarrow> asks_first a"
proof (induction fids)
  case (Cons fid fids)
  then show ?case
    by (auto simp: Option.bind_eq_Some_conv asks_first_def create_restore_snapshot_action_def Let_def split: option.splits if_splits)
qed simp

lemma pattern_suggestions_ask:
  assumes "orders_only sg" "trows (tabs c ''brain_recovery_actions'') = []" "db_open c" "visits_all c"
    "generate_from_pattern sg i c = Some as" "a \<in> set as"
  shows "asks_first a"
proof -
  have "select ''brain_recovery_actions'' p c = []" for p
    using set_select [OF assms(4,3), of "''brain_recovery_actions''" p] assms(2) by simp
  moreover have "set (rc_descending (sg_real sg) []) = set []" using assms(1) unfolding orders_only_def by blast
  then have "rc_descending (sg_real sg) [] = []" by simp
  ultimately have "get_actions_for_pattern sg i c = Some []"
    by (simp add: get_actions_for_pattern_def get_recovery_actions_for_pattern_def)
  then show ?thesis using assms(5,6) first_restore_asks
    by (auto simp: generate_from_pattern_def Option.bind_eq_Some_conv split: option.splits if_splits)
qed

lemma similar_suggestions_ask:
  assumes "generate_from_similar_failures sg pid sig msg c = Some as" "a \<in> set as"
  shows "asks_first a"
proof -
  obtain ss where "map_option concat (those (map (suggest_from_similar c) ss)) = Some as"
    using assms by (auto simp: generate_from_similar_failures_def Option.bind_eq_Some_conv split: if_splits)
  from those_concat [OF this assms(2)] show ?thesis
    by (auto simp: Option.bind_eq_Some_conv suggest_from_similar_def asks_first_def create_restore_snapshot_action_def split: if_splits option.splits)
qed

lemma generic_suggestions_ask: "generate_generic_suggestions m = Some as \<Longrightarrow> a \<in> set as \<Longrightarrow> asks_first a"
  by (auto simp: generate_generic_suggestions_def Option.bind_eq_Some_conv asks_first_def create_restore_snapshot_action_def
      create_restore_files_action_def Let_def split: if_splits)

lemma suggestions_ask:
  assumes "orders_only sg" "trows (tabs c ''brain_recovery_actions'') = []" "db_open c" "visits_all c"
    "suggest_recovery sg pid fid n c = Some as" "a \<in> set as"
  shows "asks_first a"
proof (cases "sg_store sg \<and> Nexus_Brain_Store.get_failure fid c \<noteq> None")
  case True
  then obtain failure where f: "Nexus_Brain_Store.get_failure fid c = Some failure" by blast
  from assms(5) True obtain sig msg ftype from_patterns from_similar generic where parts:
    "(if \<not> sg_matcher sg then Some [] else do {
        ps \<leftarrow> find_matching_patterns (sg_regex sg) pid sig ftype msg (Some c);
        map_option concat (those (map (\<lambda>p. generate_from_pattern sg (fp_id p) c) ps)) }) = Some from_patterns"
    "generate_from_similar_failures sg pid sig msg c = Some from_similar" "generate_generic_suggestions failure = Some generic"
    "as = (let s = sg_sort_actions sg (from_patterns @ from_similar @ generic) in
        if n \<ge> 0 \<and> length s > nat n then take (nat n) s else s)"
    unfolding suggest_recovery_def f by (auto simp: Option.bind_eq_Some_conv Let_def)
  have "set as \<subseteq> set (sg_sort_actions sg (from_patterns @ from_similar @ generic))"
    using set_take_subset [of "nat n" "sg_sort_actions sg (from_patterns @ from_similar @ generic)"] by (simp add: parts(4) Let_def)
  also have "\<dots> = set (from_patterns @ from_similar @ generic)" using assms(1) unfolding orders_only_def by blast
  finally consider "a \<in> set from_patterns" | "a \<in> set from_similar" | "a \<in> set generic" using assms(6) by auto
  then show ?thesis
  proof cases
    case 1
    then have "sg_matcher sg" using parts(1) by (cases "sg_matcher sg") auto
    with parts(1) obtain ps where ps: "find_matching_patterns (sg_regex sg) pid sig ftype msg (Some c) = Some ps"
      by (cases "find_matching_patterns (sg_regex sg) pid sig ftype msg (Some c)") simp_all
    have "map_option concat (those (map (\<lambda>p. generate_from_pattern sg (fp_id p) c) ps)) = Some from_patterns"
      using parts(1) \<open>sg_matcher sg\<close> by (simp only: ps not_True_eq_False if_False bind.bind_lunit)
    from those_concat [OF this 1] show ?thesis using pattern_suggestions_ask [OF assms(1-4)] by blast
  qed (use similar_suggestions_ask generic_suggestions_ask parts(2,3) in blast)+
qed (use assms(5,6) in \<open>auto simp: suggest_recovery_def split: if_splits option.splits\<close>)

lemma try_actions_none:
  assumes "\<forall>a\<in>set as. asks_first a" "4 / 10 < threshold"
  shows "try_actions sg pid fid threshold as st = Some (fst st, failed_with No_Auto_Actions (snd st))"
  using assms(1)
proof (induction as)
  case (Cons a as)
  then have "\<not> (ra_confidence a \<ge> threshold \<and> \<not> ra_requires_confirmation a)" using assms(2) by (auto simp: asks_first_def)
  then have "try_actions sg pid fid threshold (a # as) st = try_actions sg pid fid threshold as st" unfolding try_actions.simps by (rule if_not_P)
  with Cons show ?case by simp
qed simp

text \<open>Automatic recovery does nothing at a threshold above 0.4, the default of 0.8 included, as long as no action is stored, which
the program never does: the only action that needs no confirmation is the clean build, and its confidence is 0.4.\<close>

lemma auto_recover_does_nothing:
  assumes "orders_only sg" "trows (tabs (wdb w) ''brain_recovery_actions'') = []" "healthy (wdb w)" "4 / 10 < threshold"
    and "auto_recover sg pid fid threshold w = Some (w', r)"
  shows "w' = w \<and> \<not> rr_success r \<and> rr_actions_taken r = [] \<and>
     (rr_errors r = [No_Suggestions] \<or> rr_errors r = [No_Auto_Actions])"
proof -
  obtain as where as: "suggest_recovery sg pid fid 5 (wdb w) = Some as"
    using assms(5) by (auto simp: auto_recover_def split: option.splits)
  have "db_open (wdb w)" "visits_all (wdb w)" using assms(3) by (simp_all add: healthy_def)
  then have "\<forall>a\<in>set as. asks_first a" using suggestions_ask [OF assms(1,2) _ _ as] by blast
  from try_actions_none [OF this assms(4), of sg pid fid "(w, empty_result)"]
  have "(w', r) = (w, failed_with (if as = [] then No_Suggestions else No_Auto_Actions) empty_result)"
    using assms(5) as by (cases as) (simp_all add: auto_recover_def del: try_actions.simps)
  then show ?thesis by (simp add: failed_with_def empty_result_def)
qed

section \<open>A concrete failure\<close>

definition sample_suggester :: suggester where
  "sample_suggester = \<lparr>sg_store = True, sg_matcher = True, sg_manager = True, sg_executor = None, sg_os = demo_os, sg_now = 80,
     sg_elapsed_ms = 1, sg_restore_ms = (0, 0), sg_regex = (\<lambda>_ _. None), sg_sort_failures = by_score, sg_sort_actions = (\<lambda>as. as),
     sg_real = \<lparr>rc_text = (\<lambda>_. None), rc_descending = (\<lambda>rs. rs)\<rparr>\<rparr>"

lemma restore_files_always_fails_example:
  "\<exists>r. execute_restore_files sample_suggester (create_restore_files_action 1 []) 1 (fst demo_created) empty_result = Some (fst demo_created, r, False)"
proof -
  obtain p s where p: "get_project 1 (wdb (fst demo_created)) = Some p" and s: "get_snapshot 1 (wdb (fst demo_created)) = Some (Some s)"
    using demo_created_records by blast
  obtain w' res where res: "restore demo_os 80 (0, 0) 1 1 (restore_opts ''partial'') (fst demo_created) = Some (w', res)"
    using restore_defined [OF p s] by blast
  have one: "stoll (to_string 1) = Some 1" by code_simp
  have "\<exists>r ok. execute_restore_files sample_suggester (create_restore_files_action 1 []) 1 (fst demo_created) empty_result = Some (w', r, ok)"
    using res one by (simp add: execute_restore_files_def run_restore_action_def sample_suggester_def create_restore_files_action_def map_get_def)
  then obtain r ok where "execute_restore_files sample_suggester (create_restore_files_action 1 []) 1 (fst demo_created) empty_result = Some (w', r, ok)"
    by blast
  with restore_files_always_fails [OF this] show ?thesis by auto
qed

definition sample_clean :: recovery_action where
  "sample_clean = (create_clean_build_action ''Clean build often resolves build cache issues'')\<lparr>ra_confidence := 4 / 10, ra_risk_level := ''low''\<rparr>"

lemma sample_suggestions:
  assumes c: "healthy c" "patterns_of c = []" "trows (tabs c ''brain_recovery_actions'') = []"
      "trows (tabs c ''workspace_failures'') = [(1, failure_cells 50 1 sample_failure), (2, failure_cells 60 1 sample_failure)]"
    and sg: "sg_store sg" "sg_regex sg = sg_regex sample_suggester" "sg_sort_failures sg = by_score" "sg_sort_actions sg = (\<lambda>as. as)"
  shows "suggest_recovery sg pid 1 5 c = Some [sample_clean]"
proof -
  let ?r = "(1, failure_cells 50 1 sample_failure)"
  have f: "Nexus_Brain_Store.get_failure 1 c = Some (row_map failure_columns ?r)"
    using failure_of_row [OF c(1), of ?r] c(4) by simp
  have type: "c_string ''build'' = ''build''" "c_string ''a.c:7: error: x'' = ''a.c:7: error: x''" by code_simp+
  have vals: "get_text ?r ''failure_type'' = ''build''" "get_text ?r ''error_message'' = ''a.c:7: error: x''"
    by (simp_all add: val_def failure_cell_values type) (simp_all add: sample_failure_def type)
  have no: "\<not> contains ''undefined reference'' ''a.c:7: error: x''" "\<not> contains ''unresolved external'' ''a.c:7: error: x''" by code_simp+
  have generic: "generate_generic_suggestions (row_map failure_columns ?r) = Some [sample_clean]"
    using no by (simp add: generate_generic_suggestions_def failure_row_values vals sample_clean_def Let_def)
  have "select ''brain_failure_patterns'' p c = []" for p
    using set_select [of c "''brain_failure_patterns''" p] c(1,2) by (simp add: healthy_def)
  then have patterns: "find_matching_patterns rx pid sig ft msg (Some c) = Some []" for rx sig ft msg
    by (simp add: find_matching_patterns_def list_patterns_def Nexus_Brain_Store.list_patterns_def order_desc_def limit_rows_def)
  have similar: "generate_from_similar_failures sg pid sig msg c = Some []" for sig msg
  proof (cases "sg_matcher sg")
    case True
    obtain ss where ss: "find_similar_failures by_score pid sig msg 5 (Some c) = Some ss" by (auto simp: find_similar_rows Let_def)
    have "suggest_from_similar c s = Some []" if s: "s \<in> set ss" for s
    proof -
      obtain r where r: "r \<in> set (same_signature_rows pid sig (5 * 2) c)" "s = similar_of msg r"
        using found_failures [OF c(1) by_score_sorts ss] s by blast
      have "val r ''resolved'' = VInt 0"
        using same_signature_row(1) [OF c(1) r(1)] c(4)
        by (auto simp: val_def failure_cells_def new_cells_def workspace_failures_table_def column_defs failure_values_def Nexus_Sql.cell_def)
      then have "get_num r ''resolved'' = 0" using int64_row by simp
      moreover have "to_string 0 = ''0''" by code_simp
      ultimately show ?thesis by (simp add: suggest_from_similar_def r(2) similar_of_def)
    qed
    then have "those (map (suggest_from_similar c) ss) = Some (map (\<lambda>_. []) ss)" by (rule those_map_Some)
    moreover have "concat (map (\<lambda>_. []) ss) = ([] :: recovery_action list)" by simp
    ultimately show ?thesis using True sg(1,3) ss by (simp add: generate_from_similar_failures_def)
  qed (simp add: generate_from_similar_failures_def)
  show ?thesis using sg patterns similar generic by (simp add: suggest_recovery_def f failure_row_values Let_def)
qed

lemma failed_twice_actions: "trows (tabs failed_twice ''brain_recovery_actions'') = []" "patterns_of failed_twice = []"
proof -
  have "trows (tabs demo_ws ''brain_recovery_actions'') = []" by code_simp
  then show "trows (tabs failed_twice ''brain_recovery_actions'') = []" "patterns_of failed_twice = []"
    by (simp_all add: failed_twice_values(5) demo_ws_tables)
qed

lemma auto_recover_does_nothing_example:
  "\<exists>r. auto_recover sample_suggester 1 1 (8 / 10) \<lparr>wdb = failed_twice, wdisk = (\<lambda>_. demo_tree)\<rparr> =
     Some (\<lparr>wdb = failed_twice, wdisk = (\<lambda>_. demo_tree)\<rparr>, r) \<and> \<not> rr_success r"
proof -
  let ?w = "\<lparr>wdb = failed_twice, wdisk = (\<lambda>_. demo_tree)\<rparr>"
  have "suggest_recovery sample_suggester 1 1 5 failed_twice = Some [sample_clean]"
    using sample_suggestions [OF failed_twice_values(1) failed_twice_actions(2,1) failed_twice_values(3)] by (simp add: sample_suggester_def)
  then have "\<exists>w' r. auto_recover sample_suggester 1 1 (8 / 10) ?w = Some (w', r)"
    by (simp add: auto_recover_def sample_clean_def create_clean_build_action_def new_action_def)
  then obtain w' r where run: "auto_recover sample_suggester 1 1 (8 / 10) ?w = Some (w', r)" by blast
  have "orders_only sample_suggester" by (simp add: orders_only_def sample_suggester_def)
  from auto_recover_does_nothing [OF this _ _ _ run] show ?thesis
    using failed_twice_actions(1) failed_twice_values(1) run by simp
qed

lemma ensure_project_frame: "t \<noteq> ''projects'' \<Longrightarrow> tabs (fst (ensure_project now dir c)) t = tabs c t"
  by (simp add: ensure_project_def insert_id_frame exec_update_frame split: option.split)

theorem command_never_recovers_witness:
  "\<exists>w' code. cmd_brain_recover sample_suggester ''/p'' [''1''] ''y'' True \<lparr>wdb = failed_twice, wdisk = (\<lambda>_. demo_tree)\<rparr> = Some (w', code) \<and>
     code \<noteq> 0 \<and> wdisk w' = (\<lambda>_. demo_tree)"
proof -
  let ?w = "\<lparr>wdb = failed_twice, wdisk = (\<lambda>_. demo_tree)\<rparr>"
  obtain c1 pid where q: "ensure_project 80 ''/p'' failed_twice = (c1, pid)" by (cases "ensure_project 80 ''/p'' failed_twice")
  have c1: "healthy c1" "tabs c1 t = tabs failed_twice t" if "t \<noteq> ''projects''" for t
    using ensure_project_frame [OF that, of 80 "''/p''" failed_twice] healthy_ops(1) [OF failed_twice_values(1), of 80 "''/p''"] q by simp_all
  have h: "healthy c1" using c1(1) [of "''events''"] by simp
  have f: "Nexus_Brain_Store.get_failure 1 c1 \<noteq> None"
    using failure_of_row [OF h, of "(1, failure_cells 50 1 sample_failure)"] c1(2) [of "''workspace_failures''"] failed_twice_values(3) by simp
  have sugg: "suggest_recovery (command_suggester sample_suggester) pid 1 5 c1 = Some [sample_clean]"
    using sample_suggestions [OF h, of "command_suggester sample_suggester" pid] c1(2) failed_twice_actions failed_twice_values(3)
    by (simp add: command_suggester_def sample_suggester_def)
  have one: "stoll ''1'' = Some 1" by code_simp
  have exec: "\<exists>w2 r. execute_recovery (command_suggester sample_suggester) pid 1 sample_clean False \<lparr>wdb = c1, wdisk = (\<lambda>_. demo_tree)\<rparr> = Some (w2, r)"
    by (simp add: execute_recovery_def command_suggester_def sample_clean_def create_clean_build_action_def new_action_def run_action_def
        execute_clean_build_def Let_def split: prod.split)
  then have "\<exists>w' code. cmd_brain_recover sample_suggester ''/p'' [''1''] ''y'' True ?w = Some (w', code)"
    using f sugg one q by (auto simp: cmd_brain_recover_def sample_suggester_def Let_def split: option.split)
  then obtain w' code where run: "cmd_brain_recover sample_suggester ''/p'' [''1''] ''y'' True ?w = Some (w', code)" by blast
  from command_never_recovers [OF run] show ?thesis using run by auto
qed

end
