(* ===== verification/Docker_Dependencies.thy ===== *)
theory Docker_Dependencies
  imports Docker_Orchestrator
begin

text \<open>
  What the dependency table holds after the orchestrator stored the dependencies of compose files: one
  row per pair of services, with the type stored last. Because a shared network or volume is stored
  after the \<open>depends_on\<close> entry of the same pair, it replaces it, and the start order no longer knows it.
\<close>

section \<open>Storing one dependency\<close>

definition nul_free :: "string \<Rightarrow> bool" where
  "nul_free s \<longleftrightarrow> CHR 0x00 \<notin> set s"

lemma nul_free_c_string [simp]: "nul_free s \<Longrightarrow> c_string s = s"
  by (simp add: nul_free_def c_string_id)

definition dependency_cells :: "int \<Rightarrow> int \<Rightarrow> string \<Rightarrow> string \<Rightarrow> string \<Rightarrow> cells" where
  "dependency_cells now sid s d t =
     [(''server_id'', VInt sid), (''service_name'', VText (c_string s)), (''depends_on_service'', VText (c_string d)),
      (''dependency_type'', VText (c_string t)), (''compose_file_id'', VNull), (''created_at'', VInt now)]"

definition dependency_rows :: "sqlite \<Rightarrow> sql_row list" where
  "dependency_rows c = trows (tabs c ''docker_service_dependencies'')"

definition server_ids :: "sqlite \<Rightarrow> int set" where
  "server_ids c = set (ids_of (tabs c ''servers''))"

text \<open>The usual state of the database: intact, nothing fails, and the identifiers do not run out for \<open>n\<close> more rows.\<close>

definition room_for :: "nat \<Rightarrow> string \<Rightarrow> sqlite \<Rightarrow> bool" where
  "room_for n t c \<longleftrightarrow> seq (tabs c t) + int n < max_rowid"

lemma dependencies_unreferenced: "unreferenced nexus_schema ''docker_service_dependencies''"
  by code_simp

lemma dependency_new_cells:
  "new_cells docker_service_dependencies_table (dependency_values now sid s d t) = dependency_cells now sid s d t"
  by (simp add: new_cells_def docker_service_dependencies_table_def column_defs dependency_values_def dependency_cells_def)

lemma dependency_cell_values [simp]:
  "cell (dependency_cells now sid s d t) ''server_id'' = VInt sid"
  "cell (dependency_cells now sid s d t) ''service_name'' = VText (c_string s)"
  "cell (dependency_cells now sid s d t) ''depends_on_service'' = VText (c_string d)"
  "cell (dependency_cells now sid s d t) ''dependency_type'' = VText (c_string t)"
  "cell (dependency_cells now sid s d t) ''compose_file_id'' = VNull"
  "cell (dependency_cells now sid s d t) ''created_at'' = VInt now"
  by (simp_all add: dependency_cells_def cell_def)

lemma dependency_collides:
  "collides docker_service_dependencies_table (dependency_values now sid s d t) r \<longleftrightarrow>
     cell (snd r) ''server_id'' = VInt sid \<and> cell (snd r) ''service_name'' = VText (c_string s) \<and>
     cell (snd r) ''depends_on_service'' = VText (c_string d)"
  by (auto simp: collides_def dependency_new_cells same_key_def)

lemma add_dependency_effect:
  assumes h: "healthy c" "\<not> io_fails c (stmts c)" "sid \<in> server_ids c" "room_for 0 ''docker_service_dependencies'' c"
  obtains c' where "add_dependency now sid s d t (Some c) = (Some c', True)" "healthy c'" "io_fails c' = io_fails c"
    "\<And>u. u \<noteq> ''docker_service_dependencies'' \<Longrightarrow> tabs c' u = tabs c u"
    "seq (tabs c' ''docker_service_dependencies'') = seq (tabs c ''docker_service_dependencies'') + 1"
    "dependency_rows c' = filter (\<lambda>r. \<not> (cell (snd r) ''server_id'' = VInt sid \<and>
        cell (snd r) ''service_name'' = VText (c_string s) \<and> cell (snd r) ''depends_on_service'' = VText (c_string d)))
        (dependency_rows c) @ [(seq (tabs c ''docker_service_dependencies'') + 1, dependency_cells now sid s d t)]"
proof -
  let ?t = "''docker_service_dependencies''" and ?v = "dependency_values now sid s d t"
  define c' where "c' = fst (exec (Replace ?t ?v) c)"
  have "not_null_ok docker_service_dependencies_table (dependency_cells now sid s d t)"
    by (simp add: not_null_ok_def docker_service_dependencies_table_def column_defs)
  moreover have "fkeys_ok docker_service_dependencies_table (tabs c) (dependency_cells now sid s d t)"
    using h(3) by (simp add: fkeys_ok_def refers_def server_ids_def)
  moreover have "seq (tabs c ?t) < max_rowid" using h(4) by (simp add: room_for_def)
  ultimately have e: "exec (Replace ?t ?v) c = (c\<lparr>stmts := stmts c + 1, last_rowid := seq (tabs c ?t) + 1,
     tabs := (tabs c)(?t := \<lparr>trows = filter (\<lambda>r. \<not> collides docker_service_dependencies_table ?v r) (trows (tabs c ?t)) @
       [(seq (tabs c ?t) + 1, dependency_cells now sid s d t)], seq = seq (tabs c ?t) + 1\<rparr>)\<rparr>, True)"
    using exec_replace_unreferenced [OF h(1,2) _ dependencies_unreferenced, of docker_service_dependencies_table ?v]
    by (simp add: dependency_new_cells)
  show thesis
  proof (rule that [of c'])
    show "add_dependency now sid s d t (Some c) = (Some c', True)"
      using e by (simp add: add_dependency_def c'_def)
    show "healthy c'" using h(1) by (simp add: c'_def)
    show "io_fails c' = io_fails c" by (simp add: c'_def)
  qed (simp_all add: c'_def e dependency_rows_def dependency_collides)
qed

section \<open>Storing a list of dependencies\<close>

text \<open>The type that stays for a pair of services: the last one.\<close>

definition last_type :: "detected_dependency list \<Rightarrow> string \<Rightarrow> string \<Rightarrow> string option" where
  "last_type deps s d = map_option dd_type (find (\<lambda>x. dd_service x = s \<and> dd_depends_on x = d) (rev deps))"

lemma last_type_Nil [simp]: "last_type [] s d = None"
  by (simp add: last_type_def)

lemma last_type_snoc [simp]:
  "last_type (deps @ [x]) s d = (if dd_service x = s \<and> dd_depends_on x = d then Some (dd_type x) else last_type deps s d)"
  by (simp add: last_type_def)

definition stored_dependencies :: "int \<Rightarrow> sqlite \<Rightarrow> (sql_value \<times> sql_value \<times> sql_value) set" where
  "stored_dependencies sid c =
     (\<lambda>r. (cell (snd r) ''service_name'', cell (snd r) ''depends_on_service'', cell (snd r) ''dependency_type'')) `
       {r \<in> set (dependency_rows c). cell (snd r) ''server_id'' = VInt sid}"

definition texts_of :: "detected_dependency list \<Rightarrow> (sql_value \<times> sql_value \<times> sql_value) set" where
  "texts_of deps = {(VText s, VText d, VText t) | s d t. last_type deps s d = Some t}"

definition dependency_nul_free :: "detected_dependency \<Rightarrow> bool" where
  "dependency_nul_free x \<longleftrightarrow> nul_free (dd_service x) \<and> nul_free (dd_depends_on x) \<and> nul_free (dd_type x)"

lemma texts_of_snoc:
  "texts_of (deps @ [x]) = insert (VText (dd_service x), VText (dd_depends_on x), VText (dd_type x))
     {v \<in> texts_of deps. \<not> (fst v = VText (dd_service x) \<and> fst (snd v) = VText (dd_depends_on x))}"
  (is "?l = ?r")
proof (rule set_eqI)
  fix v
  have mem: "(VText s, VText d, VText t) \<in> texts_of ds \<longleftrightarrow> last_type ds s d = Some t" for ds s d t
    by (simp add: texts_of_def)
  have shape: "\<exists>s d t. v = (VText s, VText d, VText t)" if "v \<in> texts_of ds" for ds
    using that by (auto simp: texts_of_def)
  show "v \<in> ?l \<longleftrightarrow> v \<in> ?r"
  proof (cases "\<exists>s d t. v = (VText s, VText d, VText t)")
    case True
    then show ?thesis by (auto simp: mem split: if_splits)
  next
    case False
    then show ?thesis using shape by auto
  qed
qed

lemma store_dependencies_snoc:
  "store_dependencies now sid (deps @ [x]) st =
     (case store_dependencies now sid deps st of (st', n) \<Rightarrow>
       (case add_dependency now sid (dd_service x) (dd_depends_on x) (dd_type x) st' of
          (st'', ok) \<Rightarrow> (st'', if ok then n + 1 else n)))"
  by (simp add: store_dependencies_def)

lemma store_dependencies_effect:
  assumes "healthy c" "\<And>n. \<not> io_fails c n" "sid \<in> server_ids c"
    "room_for (length deps) ''docker_service_dependencies'' c" "stored_dependencies sid c = {}"
    "list_all dependency_nul_free deps"
  shows "\<exists>c'. store_dependencies now sid deps (Some c) = (Some c', int (length deps)) \<and> healthy c' \<and> io_fails c' = io_fails c \<and>
    (\<forall>u. u \<noteq> ''docker_service_dependencies'' \<longrightarrow> tabs c' u = tabs c u) \<and>
    seq (tabs c' ''docker_service_dependencies'') = seq (tabs c ''docker_service_dependencies'') + int (length deps) \<and>
    stored_dependencies sid c' = texts_of deps"
  using assms(4,6)
proof (induction deps rule: rev_induct)
  case Nil
  then show ?case using assms(1,5) by (simp add: store_dependencies_def texts_of_def)
next
  case (snoc x deps)
  let ?t = "''docker_service_dependencies''"
  have "room_for (length deps) ?t c" "list_all dependency_nul_free deps" using snoc.prems by (simp_all add: room_for_def)
  from snoc.IH [OF this] obtain c1 where c1: "store_dependencies now sid deps (Some c) = (Some c1, int (length deps))" "healthy c1"
    "io_fails c1 = io_fails c" "\<forall>u. u \<noteq> ?t \<longrightarrow> tabs c1 u = tabs c u" "seq (tabs c1 ?t) = seq (tabs c ?t) + int (length deps)"
    "stored_dependencies sid c1 = texts_of deps"
    by blast
  have nf: "nul_free (dd_service x)" "nul_free (dd_depends_on x)" "nul_free (dd_type x)"
    using snoc.prems(2) by (simp_all add: dependency_nul_free_def)
  have "sid \<in> server_ids c1" "room_for 0 ?t c1" "\<not> io_fails c1 (stmts c1)"
    using c1 assms(2,3) snoc.prems(1) by (simp_all add: server_ids_def room_for_def)
  from add_dependency_effect [OF c1(2) this(3,1,2), of now "dd_service x" "dd_depends_on x" "dd_type x"]
  obtain c2 where c2: "add_dependency now sid (dd_service x) (dd_depends_on x) (dd_type x) (Some c1) = (Some c2, True)" "healthy c2"
    "io_fails c2 = io_fails c1" "\<And>u. u \<noteq> ?t \<Longrightarrow> tabs c2 u = tabs c1 u" "seq (tabs c2 ?t) = seq (tabs c1 ?t) + 1"
    and rows: "dependency_rows c2 = filter (\<lambda>r. \<not> (cell (snd r) ''server_id'' = VInt sid \<and>
        cell (snd r) ''service_name'' = VText (dd_service x) \<and> cell (snd r) ''depends_on_service'' = VText (dd_depends_on x)))
        (dependency_rows c1) @ [(seq (tabs c1 ?t) + 1, dependency_cells now sid (dd_service x) (dd_depends_on x) (dd_type x))]"
    by (auto simp: nf)
  have "stored_dependencies sid c2 = insert (VText (dd_service x), VText (dd_depends_on x), VText (dd_type x))
     {v \<in> stored_dependencies sid c1. \<not> (fst v = VText (dd_service x) \<and> fst (snd v) = VText (dd_depends_on x))}"
  proof -
    let ?new = "(seq (tabs c1 ?t) + 1, dependency_cells now sid (dd_service x) (dd_depends_on x) (dd_type x))"
    have "{r \<in> set (dependency_rows c2). cell (snd r) ''server_id'' = VInt sid} =
      insert ?new {r \<in> set (dependency_rows c1). cell (snd r) ''server_id'' = VInt sid \<and>
        \<not> (cell (snd r) ''service_name'' = VText (dd_service x) \<and> cell (snd r) ''depends_on_service'' = VText (dd_depends_on x))}"
      unfolding rows by (auto simp: nf)
    then show ?thesis unfolding stored_dependencies_def by (simp only: image_insert) (auto simp: nf)
  qed
  then have "stored_dependencies sid c2 = texts_of (deps @ [x])" by (simp add: c1(6) texts_of_snoc)
  then show ?case using c1 c2 by (simp add: store_dependencies_snoc)
qed

lemma read_stored:
  assumes "healthy c" "nul_free s" "stored_dependencies sid c = texts_of deps"
  shows "set (get_dependencies sid s (Some c)) =
     {\<lparr>sd_service_name = s, sd_depends_on = d, sd_type = t\<rparr> | d t. last_type deps s d = Some t}"
proof -
  let ?rs = "{r \<in> set (dependency_rows c). cell (snd r) ''server_id'' = VInt sid \<and> cell (snd r) ''service_name'' = VText s}"
  let ?f = "\<lambda>(a, b, e). \<lparr>sd_service_name = s, sd_depends_on = (case b of VText d \<Rightarrow> d), sd_type = (case e of VText t \<Rightarrow> t)\<rparr>"
  let ?g = "\<lambda>r. (cell (snd r) ''service_name'', cell (snd r) ''depends_on_service'', cell (snd r) ''dependency_type'')"
  have "set (get_dependencies sid s (Some c)) = read_dependency ` ?rs"
    using assms(1,2) by (auto simp: get_dependencies_def healthy_def set_select dependency_rows_def val_def)
  also have "\<dots> = (?f \<circ> ?g) ` ?rs"
  proof (rule image_cong [OF refl])
    fix r assume r: "r \<in> ?rs"
    then have "?g r \<in> texts_of deps" unfolding assms(3) [symmetric] stored_dependencies_def by blast
    then obtain d t where "cell (snd r) ''depends_on_service'' = VText d" "cell (snd r) ''dependency_type'' = VText t"
      by (auto simp: texts_of_def)
    then show "read_dependency r = (?f \<circ> ?g) r"
      using r by (simp add: read_dependency_def val_def row_get_def get_text_def)
  qed
  also have "\<dots> = ?f ` (?g ` ?rs)" by (rule image_comp [symmetric])
  also have "?g ` ?rs = {v \<in> texts_of deps. fst v = VText s}"
    unfolding assms(3) [symmetric] stored_dependencies_def by (auto intro!: rev_image_eqI)
  also have "\<dots> = (\<lambda>(d, t). (VText s, VText d, VText t)) ` {(d, t). last_type deps s d = Some t}"
    by (auto simp: texts_of_def)
  also have "?f ` \<dots> = {\<lparr>sd_service_name = s, sd_depends_on = d, sd_type = t\<rparr> | d t. last_type deps s d = Some t}"
    unfolding image_image by (auto simp: case_prod_unfold) (metis (mono_tags) rev_image_eqI mem_Collect_eq case_prodI fst_conv snd_conv)
  finally show ?thesis .
qed

lemma stored_last:
  assumes "healthy c" "\<And>n. \<not> io_fails c n" "sid \<in> server_ids c"
    "room_for (length deps) ''docker_service_dependencies'' c" "stored_dependencies sid c = {}"
    "list_all dependency_nul_free deps" "nul_free s"
    "store_dependencies now sid deps (Some c) = (st, n)"
  shows "n = int (length deps)"
    "set (get_dependencies sid s st) = {\<lparr>sd_service_name = s, sd_depends_on = d, sd_type = t\<rparr> | d t. last_type deps s d = Some t}"
  using store_dependencies_effect [OF assms(1-6), of now] read_stored [OF _ assms(7)] assms(8) by auto

text \<open>
  Storing a list of dependencies over a server that had none: each of them is accepted, and a service
  then has exactly one dependency on each service it was listed with, of the type listed last.
\<close>

lemma stored_dependencies_last_wins:
  assumes "healthy c" "\<And>n. \<not> io_fails c n" "sid \<in> server_ids c"
    "room_for (length deps) ''docker_service_dependencies'' c" "stored_dependencies sid c = {}"
    "list_all dependency_nul_free deps" "nul_free s"
    "store_dependencies now sid deps (Some c) = (st, n)"
  shows "n = int (length deps) \<and>
    set (get_dependencies sid s st) = {\<lparr>sd_service_name = s, sd_depends_on = d, sd_type = t\<rparr> | d t. last_type deps s d = Some t}"
  using stored_last [OF assms] by blast

section \<open>Which hard dependencies survive\<close>

lemma last_type_None: "last_type ds s d = None \<longleftrightarrow> (\<forall>x\<in>set ds. \<not> (dd_service x = s \<and> dd_depends_on x = d))"
  by (auto simp: last_type_def find_None_iff)

lemma last_type_Some: "last_type ds s d = Some t \<Longrightarrow> \<exists>x\<in>set ds. dd_service x = s \<and> dd_depends_on x = d \<and> dd_type x = t"
  by (auto simp: last_type_def dest!: find_Some_in)

lemma find_append: "find P (xs @ ys) = (case find P xs of None \<Rightarrow> find P ys | Some x \<Rightarrow> Some x)"
  by (induction xs) auto

lemma last_type_append:
  "last_type (xs @ ys) s d = (case last_type ys s d of None \<Rightarrow> last_type xs s d | Some t \<Rightarrow> Some t)"
  by (simp add: last_type_def find_append split: option.splits)

lemma last_type_blocks:
  assumes "distinct (map fst ms)" "(s, svc) \<in> set ms" "\<And>k v x. x \<in> set (f (k, v)) \<Longrightarrow> dd_service x = k"
  shows "last_type (concat (map f ms)) s d = last_type (f (s, svc)) s d"
  using assms(1,2)
proof (induction ms)
  case (Cons m ms)
  have none: "last_type (concat (map f ks)) s d = None" if "s \<notin> fst ` set ks" for ks
    using that assms(3) by (fastforce simp: last_type_None image_iff)
  show ?case
  proof (cases "m = (s, svc)")
    case True
    then show ?thesis using Cons.prems(1) none [of ms] by (simp add: last_type_append)
  next
    case False
    then have mem: "(s, svc) \<in> set ms" using Cons.prems(2) by auto
    then have "s \<in> set (map fst ms)" by (auto intro: rev_image_eqI)
    then have "fst m \<noteq> s" using Cons.prems(1) by auto
    note mem this
    moreover from this have "last_type (f m) s d = None" using assms(3) [of _ "fst m" "snd m"] by (auto simp: last_type_None)
    ultimately show ?thesis using Cons by (simp add: last_type_append split: option.splits)
  qed
qed simp

definition shares :: "(string, compose_service) std_map \<Rightarrow> string \<Rightarrow> string \<Rightarrow> bool" where
  "shares services s d \<longleftrightarrow> depends services s ''shared_network'' d \<or> depends services s ''shared_volume'' d"

lemma depends_types: "depends services s t d \<Longrightarrow> t \<in> {''depends_on'', ''network_mode'', ''shared_network'', ''shared_volume''}"
  by (auto simp: depends_def split: option.splits)

lemma depends_shared:
  "depends services s ''shared_network'' d \<longleftrightarrow> (\<exists>svc other. map_get services s = Some svc \<and> d \<noteq> s \<and>
     map_get services d = Some other \<and> set (cs_networks svc) \<inter> set (cs_networks other) \<noteq> {})"
  "depends services s ''shared_volume'' d \<longleftrightarrow> (\<exists>svc other. map_get services s = Some svc \<and> d \<noteq> s \<and>
     map_get services d = Some other \<and> volume_name ` set (cs_volumes svc) \<inter> volume_name ` set (cs_volumes other) \<noteq> {})"
  by (simp_all add: depends_def split: option.splits)

lemma shared_type_last:
  assumes wf: "std_map_wf (cf_services compose)" and sh: "shares (cf_services compose) s d"
  shows "last_type (extract_dependencies compose) s d \<in> {Some ''shared_network'', Some ''shared_volume''}"
proof -
  let ?ms = "cf_services compose"
  from sh obtain svc where svc: "map_get ?ms s = Some svc" by (auto simp: shares_def depends_def split: option.splits)
  let ?e = "explicit_dependencies s svc @ network_mode_dependencies s svc"
  let ?h = "shared_network_dependencies ?ms s svc @ shared_volume_dependencies ?ms s svc"
  have serv: "dd_service x = k" if "x \<in> set (explicit_dependencies k v @ network_mode_dependencies k v @
      shared_network_dependencies ?ms k v @ shared_volume_dependencies ?ms k v)" for k v x
    using that by (auto simp: explicit_dependencies_def network_mode_dependencies_def shared_network_dependencies_def
        shared_volume_dependencies_def split: if_splits)
  have whole: "last_type (extract_dependencies compose) s d = last_type (?e @ ?h) s d"
    unfolding extract_dependencies_def
    by (subst last_type_blocks [where svc = svc]) (use wf svc serv in \<open>auto simp: std_map_wf_distinct map_get_iff\<close>)
  have types: "dd_type x \<in> {''shared_network'', ''shared_volume''}" if "x \<in> set ?h" for x
    using that by (auto simp: shared_network_dependencies_def shared_volume_dependencies_def split: if_splits)
  have "\<exists>x\<in>set ?h. dd_service x = s \<and> dd_depends_on x = d"
  proof (cases "depends ?ms s ''shared_network'' d")
    case True
    then have "\<exists>x\<in>set (shared_network_dependencies ?ms s svc). dd_service x = s \<and> dd_depends_on x = d \<and> dd_type x = ''shared_network''"
      unfolding shared_network_dependencies_iff [OF wf] by (simp add: depends_shared svc)
    then show ?thesis unfolding set_append by blast
  next
    case False
    then have "depends ?ms s ''shared_volume'' d" using sh by (simp only: shares_def simp_thms)
    then have "\<exists>x\<in>set (shared_volume_dependencies ?ms s svc). dd_service x = s \<and> dd_depends_on x = d \<and> dd_type x = ''shared_volume''"
      unfolding shared_volume_dependencies_iff [OF wf] by (simp add: depends_shared svc)
    then show ?thesis unfolding set_append by blast
  qed
  then obtain t where t: "last_type ?h s d = Some t" by (cases "last_type ?h s d") (auto simp: last_type_None)
  from last_type_Some [OF t] obtain x where "x \<in> set ?h" "dd_type x = t" by blast
  with types have "t \<in> {''shared_network'', ''shared_volume''}" by metis
  moreover have "last_type (extract_dependencies compose) s d = Some t"
    unfolding whole last_type_append [of ?e ?h] t by (simp only: option.case)
  ultimately show ?thesis by blast
qed

lemma hard_type_last:
  assumes wf: "std_map_wf (cf_services compose)"
  shows "(\<exists>t. last_type (extract_dependencies compose) s d = Some t \<and> t \<in> {''depends_on'', ''network_mode'', ''hard''}) \<longleftrightarrow>
    (depends (cf_services compose) s ''depends_on'' d \<or> depends (cf_services compose) s ''network_mode'' d) \<and>
    \<not> shares (cf_services compose) s d" (is "?l \<longleftrightarrow> ?r")
proof
  assume ?l
  then obtain t where t: "last_type (extract_dependencies compose) s d = Some t" "t \<in> {''depends_on'', ''network_mode'', ''hard''}"
    by blast
  then have "depends (cf_services compose) s t d" using last_type_Some extract_dependencies_exact [OF wf] by blast
  moreover have "\<not> shares (cf_services compose) s d" using shared_type_last [OF wf] t by fastforce
  ultimately show ?r using t(2) depends_types by fastforce
next
  assume r: ?r
  then have "\<exists>x\<in>set (extract_dependencies compose). dd_service x = s \<and> dd_depends_on x = d"
    using extract_dependencies_exact [OF wf] by blast
  then obtain t where t: "last_type (extract_dependencies compose) s d = Some t" using last_type_None by fastforce
  then have "depends (cf_services compose) s t d" using last_type_Some extract_dependencies_exact [OF wf] by blast
  then show ?l using t r depends_types [of "cf_services compose" s t d] by (auto simp: shares_def)
qed

text \<open>The reader files services by name, so every parsed file is well formed.\<close>

lemma services_body_wf: "std_map_wf services \<Longrightarrow> std_map_wf (fst (services_body i lines services))"
proof (induction "length lines" arbitrary: lines services rule: less_induct)
  case less
  show ?case
  proof (cases lines)
    case (Cons line rest)
    have IH: "std_map_wf (fst (services_body i ls x))" if "length ls \<le> length rest" "std_map_wf x" for ls x
      using less(1) [of ls x] that by (simp add: Cons)
    show ?thesis unfolding Cons using less(2)
      by (subst services_body.simps) (simp add: Let_def IH parse_service_short std_map_wf_put)
  qed (simp add: services_body.simps less(2))
qed

lemma top_key_wf: "std_map_wf (cf_services compose) \<Longrightarrow> std_map_wf (cf_services (fst (top_key line rest compose)))"
  using services_body_wf [of "cf_services compose" "get_indent_level line" rest]
  by (auto simp: top_key_def Let_def split: prod.splits)

lemma parse_lines_wf: "std_map_wf (cf_services compose) \<Longrightarrow> std_map_wf (cf_services (parse_lines lines compose))"
proof (induction "length lines" arbitrary: lines compose rule: less_induct)
  case less
  show ?case
  proof (cases lines)
    case (Cons line rest)
    have IH: "std_map_wf (cf_services (parse_lines ls x))" if "length ls \<le> length rest" "std_map_wf (cf_services x)" for ls x
      using less(1) [of ls x] that by (simp add: Cons)
    show ?thesis unfolding Cons using less(2)
      by (subst parse_lines.simps) (simp add: Let_def IH top_key_length top_key_wf)
  qed (simp add: parse_lines.simps less(2))
qed

lemma parse_wf: "parse content = Some compose \<Longrightarrow> std_map_wf (cf_services compose)"
  using parse_lines_wf [of empty_compose "getlines (CHR 0x0A) content"] by (auto simp: parse_def empty_compose_def std_map_wf_def)

text \<open>
  Which dependencies of a compose file reach the start order: after its dependencies were stored for a server
  that had none, the start order of any list of services knows an edge from \<open>s\<close> to \<open>d\<close> exactly when \<open>s\<close> names
  \<open>d\<close> in \<open>depends_on\<close> or \<open>network_mode\<close> and the two share no network and no volume. A shared resource hides the
  hard dependency.
\<close>

lemma shared_resources_hide_dependencies:
  assumes "healthy c" "\<And>n. \<not> io_fails c n" "sid \<in> server_ids c" "stored_dependencies sid c = {}"
    and "parse content = Some compose" "list_all dependency_nul_free (extract_dependencies compose)" "nul_free s"
    and "room_for (length (extract_dependencies compose)) ''docker_service_dependencies'' c"
    and "parse_compose_dependencies now sid content (Some c) = (st, n)" "s \<in> set services"
  shows "d \<in> set (neighbors_of (start_graph (\<lambda>s. get_dependencies sid s st) services) s) \<longleftrightarrow>
     (depends (cf_services compose) s ''depends_on'' d \<or> depends (cf_services compose) s ''network_mode'' d) \<and>
     \<not> shares (cf_services compose) s d"
proof -
  have st: "store_dependencies now sid (extract_dependencies compose) (Some c) = (st, n)"
    using assms(9) by (simp add: parse_compose_dependencies_def assms(5))
  have "d \<in> set (neighbors_of (start_graph (\<lambda>s. get_dependencies sid s st) services) s) \<longleftrightarrow>
      (\<exists>x\<in>set (get_dependencies sid s st). hard_dependency x \<and> sd_depends_on x = d)"
    using assms(10) by (auto simp: start_graph_get)
  also have "\<dots> \<longleftrightarrow> (\<exists>d' t. last_type (extract_dependencies compose) s d' = Some t \<and>
      hard_dependency \<lparr>sd_service_name = s, sd_depends_on = d', sd_type = t\<rparr> \<and> d' = d)"
    unfolding stored_last(2) [OF assms(1-3,8,4,6,7) st] by force
  also have "\<dots> \<longleftrightarrow> (\<exists>t. last_type (extract_dependencies compose) s d = Some t \<and> t \<in> {''depends_on'', ''network_mode'', ''hard''})"
    by (auto simp: hard_dependency_def)
  finally show ?thesis unfolding hard_type_last [OF parse_wf [OF assms(5)]] .
qed

definition shared_compose :: string where
  "shared_compose = join_with [CHR 0x0A] [''services:'', ''  db:'', ''    networks:'', ''      - back'',
     ''  web:'', ''    depends_on:'', ''      - db'', ''    networks:'', ''      - back'', []]"

lemma shared_compose_dependencies:
  "extract_dependencies (the (parse shared_compose)) =
    [\<lparr>dd_service = ''db'', dd_depends_on = ''web'', dd_type = ''shared_network'', dd_details = ''Both on network: back''\<rparr>,
     \<lparr>dd_service = ''web'', dd_depends_on = ''db'', dd_type = ''depends_on'', dd_details = ''Explicit dependency in compose file''\<rparr>,
     \<lparr>dd_service = ''web'', dd_depends_on = ''db'', dd_type = ''shared_network'', dd_details = ''Both on network: back''\<rparr>]"
  by code_simp

lemma demo_server_io: "io_fails demo_server = (\<lambda>_. False)"
  by (simp add: demo_server_def upsert_compose_file_def add_server_def insert_id_def fresh_db_def case_prod_unfold)

lemma demo_server_ids: "server_ids demo_server = {1}"
  by code_simp

lemma demo_server_dependencies: "dependency_rows demo_server = []" "seq (tabs demo_server ''docker_service_dependencies'') = 0"
  by code_simp+

lemma demo_server_values:
  "io_fails demo_server n = False" "1 \<in> server_ids demo_server" "stored_dependencies 1 demo_server = {}"
  by (simp_all add: demo_server_io demo_server_ids demo_server_dependencies stored_dependencies_def)

lemma healthy_demo_server: "healthy demo_server"
  by (simp add: demo_server_def add_server_def upsert_compose_file_def healthy_fresh_db)

lemma stored_dependencies_last_wins_example:
  "set (get_dependencies 1 ''web'' (fst (store_dependencies 9 1 (extract_dependencies (the (parse shared_compose))) (Some demo_server)))) =
     {\<lparr>sd_service_name = ''web'', sd_depends_on = ''db'', sd_type = ''shared_network''\<rparr>}"
proof -
  let ?ds = "extract_dependencies (the (parse shared_compose))"
  have nf: "list_all dependency_nul_free ?ds" "nul_free ''web''"
    by (simp_all add: shared_compose_dependencies dependency_nul_free_def nul_free_def)
  have room: "room_for (length ?ds) ''docker_service_dependencies'' demo_server"
    by (simp add: room_for_def demo_server_dependencies max_rowid_def shared_compose_dependencies)
  have "last_type ?ds ''web'' d = (if d = ''db'' then Some ''shared_network'' else None)" for d
    by (auto simp: last_type_def shared_compose_dependencies)
  then show ?thesis
    using stored_dependencies_last_wins [OF healthy_demo_server _ demo_server_values(2) room demo_server_values(3) nf, of 9]
    by (simp add: demo_server_values(1) prod_eq_iff)
qed

lemma shared_resources_hide_dependencies_example:
  "''db'' \<notin> set (neighbors_of (start_graph (\<lambda>s. get_dependencies 1 s
     (fst (parse_compose_dependencies 9 1 shared_compose (Some demo_server)))) [''db'', ''web'']) ''web'')"
proof -
  let ?ds = "extract_dependencies (the (parse shared_compose))"
  have p: "parse shared_compose = Some (the (parse shared_compose))" by (simp add: parse_def)
  have nf: "list_all dependency_nul_free ?ds" "nul_free ''web''"
    by (simp_all add: shared_compose_dependencies dependency_nul_free_def nul_free_def)
  have room: "room_for (length ?ds) ''docker_service_dependencies'' demo_server"
    by (simp add: room_for_def demo_server_dependencies max_rowid_def shared_compose_dependencies)
  have "shares (cf_services (the (parse shared_compose))) ''web'' ''db''"
    unfolding shares_def extract_dependencies_exact [OF parse_wf [OF p], symmetric] shared_compose_dependencies by simp
  then show ?thesis
    using shared_resources_hide_dependencies [OF healthy_demo_server _ demo_server_values(2,3) p nf room, of 9 _ _ "[''db'', ''web'']" "''db''"]
    by (simp add: demo_server_values(1) prod_eq_iff)
qed

end
