(* ===== verification/Docker_Issues.thy ===== *)
theory Docker_Issues
  imports Docker_Dependencies
begin

text \<open>
  Issues and the action log of the orchestrator: a reported issue is listed until it is resolved, and
  resolving it changes nothing else; an action that belongs to no stack is never logged.
\<close>

section \<open>Issues\<close>

definition issue_cells :: "int \<Rightarrow> int \<Rightarrow> string \<Rightarrow> string \<Rightarrow> string \<Rightarrow> string \<Rightarrow> string \<Rightarrow> cells" where
  "issue_cells now sid container ty severity title description =
     new_cells docker_issues_table (issue_values now sid container ty severity title description)"

definition issue_rows :: "sqlite \<Rightarrow> sql_row list" where
  "issue_rows c = trows (tabs c ''docker_issues'')"

definition open_issue :: "int \<Rightarrow> sql_row \<Rightarrow> bool" where
  "open_issue sid r \<longleftrightarrow> eq_int ''server_id'' sid r \<and> val r ''resolved_at'' = VNull"

lemma issue_cell_values [simp]:
  "cell (issue_cells now sid ct ty sv ti de) ''server_id'' = VInt sid"
  "cell (issue_cells now sid ct ty sv ti de) ''container_id'' = VText (c_string ct)"
  "cell (issue_cells now sid ct ty sv ti de) ''issue_type'' = VText (c_string ty)"
  "cell (issue_cells now sid ct ty sv ti de) ''severity'' = VText (c_string sv)"
  "cell (issue_cells now sid ct ty sv ti de) ''title'' = VText (c_string ti)"
  "cell (issue_cells now sid ct ty sv ti de) ''description'' = VText (c_string de)"
  "cell (issue_cells now sid ct ty sv ti de) ''detected_at'' = VInt now"
  "cell (issue_cells now sid ct ty sv ti de) ''resolved_at'' = VNull"
  by (simp_all add: issue_cells_def new_cells_def docker_issues_table_def column_defs issue_values_def cell_def)

lemma unresolved_mset:
  "healthy c \<Longrightarrow> mset (get_unresolved_issues sid (Some c)) =
     image_mset read_issue (filter_mset (open_issue sid) (mset (issue_rows c)))"
  by (simp add: get_unresolved_issues_def healthy_def mset_select issue_rows_def open_issue_def [abs_def])

lemma report_issue_effect:
  assumes "healthy c" "\<not> io_fails c (stmts c)" "sid \<in> server_ids c" "room_for 0 ''docker_issues'' c"
  shows "\<exists>c'. report_issue now sid ct ty sv ti de (Some c) = (Some c', seq (tabs c ''docker_issues'') + 1) \<and> healthy c' \<and>
     io_fails c' = io_fails c \<and> issue_rows c' = issue_rows c @ [(seq (tabs c ''docker_issues'') + 1, issue_cells now sid ct ty sv ti de)]"
proof -
  let ?v = "issue_values now sid ct ty sv ti de"
  have "not_null_ok docker_issues_table (issue_cells now sid ct ty sv ti de)"
    by (simp add: not_null_ok_def docker_issues_table_def column_defs)
  moreover have "fkeys_ok docker_issues_table (tabs c) (issue_cells now sid ct ty sv ti de)"
    using assms(3) by (simp add: fkeys_ok_def refers_def server_ids_def)
  ultimately have a: "accepts docker_issues_table ?v c"
    using assms unfolding accepts_def issue_cells_def [symmetric] by (simp add: healthy_def unique_ok_def room_for_def)
  show ?thesis
    using insert_id_accepted [OF a, of "''docker_issues''" 0] assms(1)
    by (simp add: report_issue_def issue_rows_def append_row_def Let_def issue_cells_def)
qed

lemma resolve_issue_effect:
  assumes "healthy c" "\<not> io_fails c (stmts c)"
  shows "\<exists>c'. resolve_issue now i act (Some c) = (Some c', True) \<and> healthy c' \<and>
    issue_rows c' = updated_rows docker_issues_table (eq_int ''id'' i)
      (\<lambda>_. [(''resolved_at'', bind_int now), (''resolution_action'', bind act)]) (issue_rows c)"
proof -
  have "exec (Update ''docker_issues'' (eq_int ''id'' i) (\<lambda>_. [(''resolved_at'', bind_int now), (''resolution_action'', bind act)])) c =
    (c\<lparr>stmts := stmts c + 1, tabs := (tabs c)(''docker_issues'' := (tabs c ''docker_issues'')\<lparr>trows :=
      updated_rows docker_issues_table (eq_int ''id'' i) (\<lambda>_. [(''resolved_at'', bind_int now), (''resolution_action'', bind act)])
        (trows (tabs c ''docker_issues''))\<rparr>)\<rparr>, True)"
    by (rule exec_update_plain [OF assms])
      (auto simp: docker_issues_table_def column_defs bind_int_def bind_def split: if_splits)
  then show ?thesis using healthy_exec [OF assms(1)]
    by (simp add: resolve_issue_def issue_rows_def) (metis fst_conv)
qed

lemma row_ids_bounded: "healthy c \<Longrightarrow> r \<in> set (issue_rows c) \<Longrightarrow> fst r \<le> seq (tabs c ''docker_issues'')"
  using healthy_table [of c docker_issues_table]
  by (auto simp: table_ok_def Let_def list_all_iff ids_of_def issue_rows_def)

text \<open>
  The life of an issue: reporting it adds exactly this issue to the unresolved issues of its server
  and of no other; resolving it with the returned identifier succeeds and leaves every server's
  unresolved issues as they were before the report.
\<close>

lemma issue_reported_then_resolved:
  assumes "healthy c" "\<And>n. \<not> io_fails c n" "sid \<in> server_ids c" "room_for 0 ''docker_issues'' c"
    and "- (2 ^ 63) \<le> now" "now < 2 ^ 63"
    and "report_issue now sid ct ty sv ti de (Some c) = (st1, i)" "resolve_issue now' i act st1 = (st2, ok)"
  shows "mset (get_unresolved_issues sid' st1) = mset (get_unresolved_issues sid' (Some c)) +
       (if sid' = sid then {#\<lparr>di_id = i, di_container_id = c_string ct, di_issue_type = c_string ty, di_severity = c_string sv,
          di_title = c_string ti, di_description = c_string de, di_detected_at = now, di_resolved = False\<rparr>#} else {#}) \<and>
     ok \<and> mset (get_unresolved_issues sid' st2) = mset (get_unresolved_issues sid' (Some c))"
proof -
  let ?i = "seq (tabs c ''docker_issues'') + 1" and ?new = "issue_cells now sid ct ty sv ti de"
  from report_issue_effect [OF assms(1) assms(2) assms(3,4), of now ct ty sv ti de] assms(7) obtain c1 where
    c1: "st1 = Some c1" "i = ?i" "healthy c1" "io_fails c1 = io_fails c" "issue_rows c1 = issue_rows c @ [(?i, ?new)]" by auto
  from resolve_issue_effect [OF c1(3), of now' i act] assms(2,8) c1(1,4) obtain c2 where
    c2: "st2 = Some c2" "ok" "healthy c2" "issue_rows c2 = updated_rows docker_issues_table (eq_int ''id'' i)
      (\<lambda>_. [(''resolved_at'', bind_int now'), (''resolution_action'', bind act)]) (issue_rows c1)" by auto
  have old: "fst r \<noteq> ?i" if "r \<in> set (issue_rows c)" for r using row_ids_bounded [OF assms(1) that] by simp
  then have "updated_rows docker_issues_table (eq_int ''id'' i) f (issue_rows c) = issue_rows c" for f
    unfolding updated_rows_def by (intro map_idI) (simp add: val_def c1(2))
  then have rows2: "issue_rows c2 = issue_rows c @
      [(?i, set_cells docker_issues_table [(''resolved_at'', bind_int now'), (''resolution_action'', bind act)] ?new)]"
    unfolding c2(4) c1(5) by (simp add: updated_rows_def val_def c1(2))
  have "1 \<le> ?i" "?i < 2 ^ 63"
    using healthy_table [OF assms(1), of docker_issues_table] assms(4)
    by (simp_all add: table_ok_def Let_def room_for_def max_rowid_def)
  then have new: "read_issue (?i, ?new) = \<lparr>di_id = i, di_container_id = c_string ct, di_issue_type = c_string ty,
      di_severity = c_string sv, di_title = c_string ti, di_description = c_string de, di_detected_at = now, di_resolved = False\<rparr>"
    using row_get_int_VInt(2) [of "(?i, ?new)" "''id''" ?i] row_get_int_VInt(2) [of "(?i, ?new)" "''detected_at''" now] assms(5,6)
    by (simp add: read_issue_def val_def row_get_def get_text_def c1(2))
  have gone: "\<not> open_issue sid' (?i, set_cells docker_issues_table [(''resolved_at'', bind_int now'), (''resolution_action'', bind act)] ?new)"
    by (simp add: open_issue_def val_def set_cells_def docker_issues_table_def column_defs cell_def bind_int_def bind_def split: option.splits)
  have "open_issue sid' (?i, ?new) \<longleftrightarrow> sid' = sid" by (auto simp: open_issue_def val_def)
  then show ?thesis
    using c2(2) new gone by (simp add: c1(1) c2(1) unresolved_mset [OF c1(3)] unresolved_mset [OF c2(3)] unresolved_mset [OF assms(1)]
        c1(5) rows2)
qed

lemma demo_server_issues: "issue_rows demo_server = []" "seq (tabs demo_server ''docker_issues'') = 0"
  by code_simp+

lemma issue_reported_then_resolved_example:
  "map di_title (get_unresolved_issues 1 (fst (report_issue 7 1 ''c1'' ''oom'' ''high'' ''out of memory'' [] (Some demo_server)))) = [''out of memory'']"
proof -
  have "get_unresolved_issues 1 (Some demo_server) = []"
    using unresolved_mset [OF healthy_demo_server, of 1] by (simp add: demo_server_issues)
  then have "mset (get_unresolved_issues 1 (fst (report_issue 7 1 ''c1'' ''oom'' ''high'' ''out of memory'' [] (Some demo_server)))) =
    {#\<lparr>di_id = snd (report_issue 7 1 ''c1'' ''oom'' ''high'' ''out of memory'' [] (Some demo_server)), di_container_id = c_string ''c1'',
       di_issue_type = c_string ''oom'', di_severity = c_string ''high'', di_title = c_string ''out of memory'', di_description = c_string [],
       di_detected_at = 7, di_resolved = False\<rparr>#}"
    using issue_reported_then_resolved [OF healthy_demo_server _ demo_server_values(2), of 7 "''c1''" "''oom''" "''high''" "''out of memory''" "[]"
        "fst (report_issue 7 1 ''c1'' ''oom'' ''high'' ''out of memory'' [] (Some demo_server))" _ 8 "[]" _ _ 1]
    by (simp add: demo_server_values(1) room_for_def demo_server_issues max_rowid_def prod_eq_iff)
  then show ?thesis by (auto simp: c_string_def single_is_union mset_single_iff)
qed

section \<open>The action log\<close>

text \<open>
  An action without a stack (\<open>stack_id\<close> not positive, which has a branch of its own in the code) is never logged: the empty text
  bound for the stack is no NULL, so the foreign key refuses the row, 0 is returned and the
  database is unchanged.
\<close>

lemma action_needs_stack:
  assumes "stack \<le> 0"
  shows "snd (log_action now sid stack ty target reason by_whom (Some c)) = 0 \<and>
     map_option tabs (fst (log_action now sid stack ty target reason by_whom (Some c))) = Some (tabs c)"
proof -
  let ?v = "action_values now sid stack ty target reason by_whom"
  have "cell (new_cells docker_orchestration_actions_table ?v) ''stack_id'' = VText []"
    using assms by (simp add: new_cells_def docker_orchestration_actions_table_def column_defs action_values_def cell_def)
  then have "\<not> fkeys_ok docker_orchestration_actions_table (tabs c) (new_cells docker_orchestration_actions_table ?v)"
    by (simp add: fkeys_ok_def refers_def)
  then have "run_stmt nexus_schema (Insert ''docker_orchestration_actions'' ?v) (tabs c) = None" by (simp add: sql_insert_def Let_def)
  from insert_id_refused [OF exec_refused(1) [OF this], of 0] show ?thesis by (simp add: log_action_def)
qed

lemma action_needs_stack_example: "snd (log_action 5 1 0 ''restart'' ''web'' [] ''manual'' (Some demo_server)) = 0"
  using action_needs_stack [of 0 5 1 "''restart''" "''web''" "[]" "''manual''" demo_server] by simp

end
