(* ===== verification/Git_Registry.thy ===== *)
theory Git_Registry
  imports Nexus_Git_Store Config_Store
begin

text \<open>
  The registry of git servers (\<open>src/modules/git/src/server_registry.cpp\<close>): servers come from the
  configuration file (\<open>[git.servers.LABEL]\<close>) and from the database, a hash of the configuration tells
  whether the two have drifted apart. SHA-256 is a parameter, as are the clock, the answer of the user and
  what the encryption of tokens needs.
\<close>

section \<open>Configuration\<close>

record server_config =
  sc_type :: string
  sc_host :: string
  sc_port :: int
  sc_ssh_port :: int
  sc_ssh_user :: string
  sc_repo_base_path :: string
  sc_config_path :: string
  sc_web_url :: string
  sc_admin_token :: string

record server_entry =
  se_id :: int
  se_label :: string
  se_config :: server_config
  se_admin_token :: string
  se_status :: string
  se_installed_at :: int
  se_last_check :: int
  se_config_hash :: string
  se_config_modified :: int
  se_has_config_changes :: bool
  se_config_source :: string

definition default_config :: server_config where
  "default_config = \<lparr>sc_type = [], sc_host = [], sc_port = 80, sc_ssh_port = 22, sc_ssh_user = ''git'',
     sc_repo_base_path = ''/srv/git'', sc_config_path = [], sc_web_url = [], sc_admin_token = []\<rparr>"

definition default_entry :: server_entry where
  "default_entry = \<lparr>se_id = 0, se_label = [], se_config = default_config, se_admin_token = [], se_status = [],
     se_installed_at = 0, se_last_check = 0, se_config_hash = [], se_config_modified = 0,
     se_has_config_changes = False, se_config_source = []\<rparr>"

text \<open>What the methods find around them: the configuration, SHA-256, the cipher with its key material, the clock.\<close>

record registry_env =
  re_cfg :: "config_data option"
  re_sha256 :: "string \<Rightarrow> string"
  re_aead :: aead
  re_secret :: string
  re_salt :: string
  re_iv :: "string option"
  re_now :: int

definition default_config_path :: "string \<Rightarrow> string" where
  "default_config_path ty = (if ty = ''cgit'' then ''/etc/cgitrc'' else if ty = ''gitea'' then ''/etc/gitea/app.ini'' else [])"

definition default_web_url :: "string \<Rightarrow> string \<Rightarrow> string" where
  "default_web_url ty host = (if ty = ''cgit'' then ''http://'' @ host @ ''/cgit''
     else if ty = ''gitea'' then ''http://'' @ host @ '':3000'' else [])"

definition or_else :: "string \<Rightarrow> string \<Rightarrow> string" where
  "or_else s d = (if s = [] then d else s)"

definition load_from_config :: "registry_env \<Rightarrow> string \<Rightarrow> server_config option" where
  "load_from_config E label =
     (case re_cfg E of
        None \<Rightarrow> None
      | Some cfg \<Rightarrow>
          let sec = ''git.servers.'' @ label; ty = get_string cfg sec ''type'' [] in
          if ty = [] then None
          else
            let host = get_string cfg sec ''host'' [];
                conf = \<lparr>sc_type = ty, sc_host = host,
                  sc_port = get_int cfg sec ''port'' (if ty = ''gitea'' then 3000 else 80),
                  sc_ssh_port = get_int cfg sec ''ssh_port'' 22, sc_ssh_user = get_string cfg sec ''ssh_user'' ''git'',
                  sc_repo_base_path = get_string cfg sec ''repo_base_path'' ''/srv/git'',
                  sc_config_path = or_else (get_string cfg sec ''config_path'' []) (default_config_path ty),
                  sc_web_url = or_else (get_string cfg sec ''web_url'' []) (default_web_url ty host),
                  sc_admin_token = get_string cfg sec ''admin_token'' []\<rparr>
            in if host = [] then None else Some conf)"

definition entry_of_record :: "string \<Rightarrow> git_server \<Rightarrow> server_entry" where
  "entry_of_record label g =
     \<lparr>se_id = gs_id g, se_label = or_else (gs_label g) label,
      se_config = \<lparr>sc_type = gs_type g, sc_host = gs_host g, sc_port = gs_port g, sc_ssh_port = gs_ssh_port g,
        sc_ssh_user = or_else (gs_ssh_user g) ''git'', sc_repo_base_path = or_else (gs_repo_base_path g) ''/srv/git'',
        sc_config_path = gs_config_path g, sc_web_url = gs_web_url g, sc_admin_token = gs_admin_token g\<rparr>,
      se_admin_token = gs_admin_token g, se_status = or_else (gs_status g) ''not_installed'',
      se_installed_at = gs_installed_at g, se_last_check = gs_last_check g, se_config_hash = gs_config_hash g,
      se_config_modified = gs_config_modified g, se_has_config_changes = False, se_config_source = ''database''\<rparr>"

definition find_record :: "registry_env \<Rightarrow> string \<Rightarrow> sqlite option \<Rightarrow> git_server option" where
  "find_record E label store =
     (case store of None \<Rightarrow> None | Some c \<Rightarrow> get_git_server (re_aead E) (re_secret E) (re_salt E) label c)"

definition load_from_database :: "registry_env \<Rightarrow> string \<Rightarrow> sqlite option \<Rightarrow> server_entry option" where
  "load_from_database E label store = map_option (entry_of_record label) (find_record E label store)"

section \<open>Drift\<close>

definition config_text :: "server_config \<Rightarrow> string" where
  "config_text cfg = sc_type cfg @ ''|'' @ sc_host cfg @ ''|'' @ sc_ssh_user cfg @ ''|'' @ to_string (sc_ssh_port cfg) @ ''|'' @
     to_string (sc_port cfg) @ ''|'' @ sc_repo_base_path cfg @ ''|'' @ sc_config_path cfg @ ''|'' @ sc_web_url cfg"

definition compute_config_hash :: "registry_env \<Rightarrow> server_config \<Rightarrow> string" where
  "compute_config_hash E cfg = to_hex (re_sha256 E (config_text cfg))"

definition has_config_conflict :: "registry_env \<Rightarrow> server_config \<Rightarrow> server_entry \<Rightarrow> bool" where
  "has_config_conflict E from_config from_db \<longleftrightarrow>
     se_config_hash from_db \<noteq> [] \<and> compute_config_hash E from_config \<noteq> se_config_hash from_db"

text \<open>Configuration only, database only, or both: the database's state with the configuration of the file.\<close>

definition entry_from_config :: "registry_env \<Rightarrow> string \<Rightarrow> server_config \<Rightarrow> server_entry" where
  "entry_from_config E label conf =
     default_entry\<lparr>se_label := label, se_config := conf, se_config_source := ''toml'', se_status := ''not_installed'',
       se_config_hash := compute_config_hash E conf, se_config_modified := re_now E, se_has_config_changes := False,
       se_admin_token := sc_admin_token conf\<rparr>"

definition merge_entry :: "registry_env \<Rightarrow> server_config \<Rightarrow> server_entry \<Rightarrow> server_entry" where
  "merge_entry E conf db =
     (let token = se_admin_token db;
          conf' = (if sc_admin_token conf = [] then conf\<lparr>sc_admin_token := token\<rparr> else conf);
          changed = (se_config_hash db \<noteq> compute_config_hash E conf)
      in db\<lparr>se_config := conf', se_admin_token := (if token = [] then sc_admin_token conf' else token),
            se_has_config_changes := changed, se_config_source := (if changed then ''both (modified)'' else ''both'')\<rparr>)"

definition get_server :: "registry_env \<Rightarrow> string \<Rightarrow> sqlite option \<Rightarrow> server_entry option" where
  "get_server E label store =
     (case (load_from_config E label, load_from_database E label store) of
        (None, None) \<Rightarrow> None
      | (Some conf, None) \<Rightarrow> Some (entry_from_config E label conf)
      | (None, Some db) \<Rightarrow> Some (db\<lparr>se_config_source := ''database'', se_status := or_else (se_status db) ''not_installed'',
            se_has_config_changes := False\<rparr>)
      | (Some conf, Some db) \<Rightarrow> Some (merge_entry E conf db))"

definition list_servers :: "registry_env \<Rightarrow> sqlite option \<Rightarrow> server_entry list" where
  "list_servers E store =
     (case store of
        None \<Rightarrow> []
      | Some c \<Rightarrow> List.map_filter (\<lambda>g. get_server E (gs_label g) store)
          (list_git_servers (re_aead E) (re_secret E) (re_salt E) c))"

section \<open>Writing to the database\<close>

definition put_record :: "registry_env \<Rightarrow> git_server \<Rightarrow> sqlite \<Rightarrow> sqlite \<times> bool" where
  "put_record E = upsert_git_server (re_aead E) (re_secret E) (re_salt E) (re_iv E) (re_now E)"

definition empty_record :: "string \<Rightarrow> git_server" where
  "empty_record label = \<lparr>gs_id = 0, gs_label = label, gs_type = [], gs_host = [], gs_port = 0, gs_ssh_port = 22, gs_ssh_user = [],
     gs_repo_base_path = [], gs_config_path = [], gs_web_url = [], gs_status = ''not_installed'', gs_installed_at = 0,
     gs_last_check = 0, gs_config_hash = [], gs_config_modified = 0, gs_created_at = 0, gs_updated_at = 0, gs_admin_token = []\<rparr>"

definition with_config :: "registry_env \<Rightarrow> server_config \<Rightarrow> git_server \<Rightarrow> git_server" where
  "with_config E conf g = g\<lparr>gs_type := sc_type conf, gs_host := sc_host conf, gs_port := sc_port conf,
     gs_ssh_port := sc_ssh_port conf, gs_ssh_user := sc_ssh_user conf, gs_repo_base_path := sc_repo_base_path conf,
     gs_config_path := sc_config_path conf, gs_web_url := sc_web_url conf,
     gs_config_hash := compute_config_hash E conf, gs_config_modified := re_now E, gs_updated_at := re_now E\<rparr>"

definition add_server :: "registry_env \<Rightarrow> string \<Rightarrow> server_config \<Rightarrow> sqlite option \<Rightarrow> sqlite option \<times> bool" where
  "add_server E label conf store =
     (case store of
        None \<Rightarrow> (None, False)
      | Some c \<Rightarrow>
          if sc_type conf = [] \<or> sc_host conf = [] then (Some c, False)
          else
            let g = (with_config E conf (empty_record label))\<lparr>gs_admin_token := sc_admin_token conf, gs_created_at := re_now E\<rparr>;
                g' = (case find_record E label store of
                        None \<Rightarrow> g
                      | Some old \<Rightarrow> g\<lparr>gs_id := gs_id old, gs_status := or_else (gs_status old) (gs_status g),
                          gs_installed_at := gs_installed_at old, gs_last_check := gs_last_check old,
                          gs_created_at := (if gs_created_at old \<noteq> 0 then gs_created_at old else re_now E),
                          gs_admin_token := or_else (gs_admin_token g) (gs_admin_token old)\<rparr>)
            in (case put_record E g' c of (c', ok) \<Rightarrow> (Some c', ok)))"

definition on_store :: "(sqlite \<Rightarrow> sqlite \<times> bool) \<Rightarrow> sqlite option \<Rightarrow> sqlite option \<times> bool" where
  "on_store f store = (case store of None \<Rightarrow> (None, False) | Some c \<Rightarrow> (case f c of (c', ok) \<Rightarrow> (Some c', ok)))"

definition update_status :: "registry_env \<Rightarrow> string \<Rightarrow> string \<Rightarrow> sqlite option \<Rightarrow> sqlite option \<times> bool" where
  "update_status E label status = on_store (update_git_server_status (re_now E) label status)"

definition mark_installed :: "registry_env \<Rightarrow> string \<Rightarrow> sqlite option \<Rightarrow> sqlite option \<times> bool" where
  "mark_installed E label = on_store (mark_git_server_installed (re_now E) label (re_now E))"

definition update_last_check :: "registry_env \<Rightarrow> string \<Rightarrow> int \<Rightarrow> sqlite option \<Rightarrow> sqlite option \<times> bool" where
  "update_last_check E label t = on_store (update_git_server_last_check (re_now E) label t)"

definition update_admin_token :: "registry_env \<Rightarrow> string \<Rightarrow> string \<Rightarrow> sqlite option \<Rightarrow> sqlite option \<times> bool" where
  "update_admin_token E label token =
     on_store (update_git_server_admin_token (re_aead E) (re_secret E) (re_salt E) (re_iv E) (re_now E) label token)"

definition remove_server :: "string \<Rightarrow> sqlite option \<Rightarrow> sqlite option \<times> bool" where
  "remove_server label = on_store (remove_git_server label)"

text \<open>\<open>answer\<close> is what \<open>prompt->confirm\<close> returns, \<^const>\<open>None\<close> when there is no prompt.\<close>

definition sync_config_to_database :: "registry_env \<Rightarrow> bool option \<Rightarrow> string \<Rightarrow> sqlite option \<Rightarrow> sqlite option \<times> bool" where
  "sync_config_to_database E answer label store =
     (case get_server E label store of
        None \<Rightarrow> (store, True)
      | Some e \<Rightarrow>
          if \<not> se_has_config_changes e then (store, True)
          else if answer = Some False then (store, False)
          else on_store (\<lambda>c.
            let g = (case find_record E label store of Some old \<Rightarrow> old | None \<Rightarrow> (empty_record label)\<lparr>gs_created_at := re_now E\<rparr>)
            in put_record E (with_config E (se_config e) g) c) store)"

section \<open>Repository migrations\<close>

definition record_repo_migration_start ::
  "registry_env \<Rightarrow> string \<Rightarrow> string \<Rightarrow> string \<Rightarrow> int \<Rightarrow> sqlite option \<Rightarrow> sqlite option \<times> int option" where
  "record_repo_migration_start E label repo source pid store =
     (case store of
        None \<Rightarrow> (None, None)
      | Some c \<Rightarrow>
          (case find_record E label store of
             None \<Rightarrow> (store, None)
           | Some g \<Rightarrow>
               (case add_repo_migration (re_now E) \<lparr>rm_id = 0, rm_server_id = gs_id g, rm_project_id = pid, rm_repo_name = repo,
                    rm_source_path = source, rm_started_at = re_now E, rm_completed_at = 0, rm_status = ''running'',
                    rm_branch_count = 0, rm_tag_count = 0, rm_size_bytes = 0, rm_error_message = []\<rparr> c of
                  (c', i) \<Rightarrow> (Some c', if i = 0 then None else Some i))))"

definition record_repo_migration_complete :: "registry_env \<Rightarrow> int \<Rightarrow> bool \<Rightarrow> string \<Rightarrow> sqlite option \<Rightarrow> sqlite option" where
  "record_repo_migration_complete E mid ok err store =
     (case store of
        None \<Rightarrow> None
      | Some c \<Rightarrow>
          if mid = 0 then Some c
          else if ok then Some (fst (mark_repo_migration_completed (re_now E) mid (re_now E) c))
          else Some (fst (update_repo_migration_status mid ''failed'' err c)))"

section \<open>A written record is read back\<close>

lemma nul_free_hex: "CHR 0x00 \<notin> set (compute_config_hash E conf)"
  by (simp add: compute_config_hash_def nul_not_in_hex)

lemma hash_ignores_token: "compute_config_hash E (conf\<lparr>sc_admin_token := t\<rparr>) = compute_config_hash E conf"
  by (simp add: compute_config_hash_def config_text_def)

lemma hash_of_merge: "compute_config_hash E (se_config (merge_entry E conf db)) = compute_config_hash E conf"
  by (simp add: merge_entry_def Let_def hash_ignores_token)

lemma find_record_by_key:
  "healthy c \<Longrightarrow> find_record E label (Some c) = map_option (read_git_server (re_aead E) (re_secret E) (re_salt E))
     (by_key [''label''] [VText (c_string label)] (trows (tabs c ''git_servers'')))"
  by (simp add: find_record_def get_git_server_def select_by_label first_row_def limit_rows_def split: option.splits)

definition record_columns :: "string list" where
  "record_columns = [''type'', ''host'', ''port'', ''ssh_port'', ''ssh_user'', ''repo_base_path'', ''config_path'', ''web_url'', ''status'',
        ''installed_at'', ''last_check'', ''config_hash'', ''config_modified'', ''updated_at'', ''admin_token'']"

lemma written_cells:
  "map (cell (set_cells git_servers_table (map (\<lambda>k. (k, N k)) record_columns) cs)) record_columns =
     [coerce AText (N ''type''), coerce AText (N ''host''), coerce AInteger (N ''port''), coerce AInteger (N ''ssh_port''),
      coerce AText (N ''ssh_user''), coerce AText (N ''repo_base_path''), coerce AText (N ''config_path''),
      coerce AText (N ''web_url''), coerce AText (N ''status''), coerce AInteger (N ''installed_at''),
      coerce AInteger (N ''last_check''), coerce AText (N ''config_hash''), coerce AInteger (N ''config_modified''),
      coerce AInteger (N ''updated_at''), coerce AText (N ''admin_token'')]"
  by (simp add: record_columns_def set_cells_def git_servers_table_def column_defs cell_def)

text \<open>The cells a written record leaves in the row of its label, in the order of \<^const>\<open>record_columns\<close>.\<close>

definition record_cells :: "registry_env \<Rightarrow> git_server \<Rightarrow> sql_value list" where
  "record_cells E g =
     [VText (c_string (gs_type g)), VText (c_string (gs_host g)), VInt (gs_port g), VInt (gs_ssh_port g),
      VText (c_string (gs_ssh_user g)), VText (c_string (gs_repo_base_path g)), VText (c_string (gs_config_path g)),
      VText (c_string (gs_web_url g)), VText (c_string (gs_status g)), VInt (gs_installed_at g), VInt (gs_last_check g),
      VText (c_string (gs_config_hash g)), VInt (or_now (re_now E) (gs_config_modified g)),
      VInt (or_now (re_now E) (gs_updated_at g)),
      VText (c_string (stored_token (re_aead E) (re_secret E) (re_salt E) (re_iv E) (gs_admin_token g)))]"

lemma put_record_effect:
  assumes "healthy c" "\<not> io_fails c (stmts c)" "seq (tabs c ''git_servers'') < max_rowid"
    and "put_record E g c = (c', ok)"
  shows "ok \<and> healthy c' \<and> (\<exists>r. by_key [''label''] [VText (c_string (gs_label g))] (trows (tabs c' ''git_servers'')) = Some r \<and>
     map (val r) record_columns = record_cells E g)"
proof -
  let ?sets = record_columns
  define vs where "vs = [(''label'', bind (gs_label g)), (''type'', bind (gs_type g)), (''host'', bind (gs_host g)),
        (''port'', bind_int (gs_port g)), (''ssh_port'', bind_int (gs_ssh_port g)), (''ssh_user'', bind (gs_ssh_user g)),
        (''repo_base_path'', bind (gs_repo_base_path g)), (''config_path'', bind (gs_config_path g)),
        (''web_url'', bind (gs_web_url g)), (''status'', bind (gs_status g)), (''installed_at'', bind_int (gs_installed_at g)),
        (''last_check'', bind_int (gs_last_check g)), (''config_hash'', bind (gs_config_hash g)),
        (''config_modified'', bind_int (or_now (re_now E) (gs_config_modified g))),
        (''created_at'', bind_int (or_now (re_now E) (gs_created_at g))), (''updated_at'', bind_int (or_now (re_now E) (gs_updated_at g))),
        (''admin_token'', bind (stored_token (re_aead E) (re_secret E) (re_salt E) (re_iv E) (gs_admin_token g)))]"
  let ?new = "new_cells git_servers_table vs"
  have run: "exec (Upsert ''git_servers'' vs [''label''] ?sets) c = (c', ok)"
    using assms(4) by (simp add: put_record_def upsert_git_server_def vs_def record_columns_def)
  have lab: "cell ?new ''label'' = VText (c_string (gs_label g))"
    by (simp add: new_cells_def vs_def git_servers_table_def column_defs cell_def)
  have cells: "map (cell ?new) record_columns = record_cells E g"
    by (simp add: new_cells_def vs_def git_servers_table_def column_defs cell_def record_columns_def record_cells_def)
  have nn: "not_null_ok git_servers_table ?new"
    by (simp add: not_null_ok_def new_cells_def vs_def git_servers_table_def column_defs cell_def)
  have fk: "fkeys_ok git_servers_table (tabs c) ?new" by (simp add: fkeys_ok_def)
  have cols: "set [''label''] \<subseteq> set (map cname (columns git_servers_table))" "set [''label''] \<inter> set ?sets = {}"
    by (simp_all add: git_servers_table_def column_defs record_columns_def)
  note up = exec_upsert [OF assms(1,2) find_tables(6) table_uniques(6) cols nn fk assms(3)]
  have ok: "ok" using up(1) run by (simp add: lab)
  have h: "healthy c'" using healthy_exec [OF assms(1), of "Upsert ''git_servers'' vs [''label''] ?sets"] run by simp
  have rewritten: "map (cell (set_cells git_servers_table (map (\<lambda>k. (k, cell ?new k)) record_columns) cs)) record_columns
      = record_cells E g" for cs
    unfolding written_cells using cells by (simp add: record_columns_def record_cells_def)
  have "\<exists>r. by_key [''label''] [VText (c_string (gs_label g))] (trows (tabs c' ''git_servers'')) = Some r \<and>
     map (cell (snd r)) record_columns = record_cells E g"
  proof (cases "by_key [''label''] [VText (c_string (gs_label g))] (trows (tabs c ''git_servers''))")
    case None
    then show ?thesis using up(2) [of "[VText (c_string (gs_label g))]"] run lab cells by simp
  next
    case (Some r)
    then show ?thesis using up(2) [of "[VText (c_string (gs_label g))]"] run lab rewritten by simp
  qed
  then obtain r where r: "by_key [''label''] [VText (c_string (gs_label g))] (trows (tabs c' ''git_servers'')) = Some r"
    "map (cell (snd r)) record_columns = record_cells E g" by blast
  have "map (val r) record_columns = map (cell (snd r)) record_columns"
    by (simp add: val_def record_columns_def)
  then show ?thesis using ok h r by auto
qed

text \<open>What the store reads back from such a row.\<close>

lemma to_int32_id: "- (2 ^ 31) \<le> i \<Longrightarrow> i < 2 ^ 31 \<Longrightarrow> to_int32 i = i"
  by (simp add: to_int32_def signed_take_bit_int_eq_self)

lemma stored_token_cell:
  "map (val r) record_columns = record_cells E g \<Longrightarrow>
     get_text r ''admin_token'' = c_string (stored_token (re_aead E) (re_secret E) (re_salt E) (re_iv E) (gs_admin_token g))"
  by (simp add: record_columns_def record_cells_def get_text_def row_get_def)

lemma read_record_cells:
  assumes "map (val r) record_columns = record_cells E g"
    and "- (2 ^ 31) \<le> gs_port g" "gs_port g < 2 ^ 31" "- (2 ^ 31) \<le> gs_ssh_port g" "gs_ssh_port g < 2 ^ 31"
  shows "gs_type (read_git_server A secret salt r) = c_string (gs_type g)"
    "gs_host (read_git_server A secret salt r) = c_string (gs_host g)"
    "gs_port (read_git_server A secret salt r) = gs_port g"
    "gs_ssh_port (read_git_server A secret salt r) = gs_ssh_port g"
    "gs_ssh_user (read_git_server A secret salt r) = c_string (gs_ssh_user g)"
    "gs_repo_base_path (read_git_server A secret salt r) = c_string (gs_repo_base_path g)"
    "gs_config_path (read_git_server A secret salt r) = c_string (gs_config_path g)"
    "gs_web_url (read_git_server A secret salt r) = c_string (gs_web_url g)"
    "gs_status (read_git_server A secret salt r) = c_string (gs_status g)"
    "gs_config_hash (read_git_server A secret salt r) = c_string (gs_config_hash g)"
proof -
  have v: "val r ''type'' = VText (c_string (gs_type g))" "val r ''host'' = VText (c_string (gs_host g))"
    "val r ''port'' = VInt (gs_port g)" "val r ''ssh_port'' = VInt (gs_ssh_port g)"
    "val r ''ssh_user'' = VText (c_string (gs_ssh_user g))" "val r ''repo_base_path'' = VText (c_string (gs_repo_base_path g))"
    "val r ''config_path'' = VText (c_string (gs_config_path g))" "val r ''web_url'' = VText (c_string (gs_web_url g))"
    "val r ''status'' = VText (c_string (gs_status g))" "val r ''config_hash'' = VText (c_string (gs_config_hash g))"
    using assms(1) by (simp_all add: record_columns_def record_cells_def)
  have "get_num r ''port'' = gs_port g" "row_get_int r ''ssh_port'' = Some (gs_ssh_port g)"
    using row_get_int_VInt(2) [OF v(3)] row_get_int_VInt(1) [OF v(4)] assms(2-5) by simp_all
  then show "gs_port (read_git_server A secret salt r) = gs_port g"
    "gs_ssh_port (read_git_server A secret salt r) = gs_ssh_port g"
    using assms(2-5) by (simp_all add: read_git_server_def to_int32_id)
qed (use assms(1) in \<open>simp_all add: record_columns_def record_cells_def read_git_server_def get_text_def row_get_def\<close>)

text \<open>A port of the configuration is an \<open>int\<close>: \<open>std::stoi\<close> refuses the others.\<close>

lemma get_int_range:
  "- (2 ^ 31) \<le> d \<Longrightarrow> d < 2 ^ 31 \<Longrightarrow> - (2 ^ 31) \<le> get_int cfg sec key d \<and> get_int cfg sec key d < 2 ^ 31"
  by (auto simp: get_int_def Let_def stoi_def checked_range_def split: option.splits if_splits)

lemma config_ports:
  assumes "load_from_config E label = Some conf"
  shows "- (2 ^ 31) \<le> sc_port conf" "sc_port conf < 2 ^ 31" "- (2 ^ 31) \<le> sc_ssh_port conf" "sc_ssh_port conf < 2 ^ 31"
  using assms get_int_range [of 3000] get_int_range [of 80] get_int_range [of 22]
  by (auto simp: load_from_config_def Let_def split: option.splits if_splits)

text \<open>
  \<^bold>\<open>C33\<close> Synchronising settles a drift: when the file and the database disagree about a server and the user does not
  decline, the synchronisation succeeds, and afterwards the record in the database has the type, host, ports, user,
  paths and address of the configuration file (texts as SQLite stores them, up to a first NUL byte) and keeps its status;
  the server is known with no pending changes, and the stored hash is the one of the file, so no conflict is seen.
\<close>

theorem sync_settles:
  assumes "healthy c" "\<not> io_fails c (stmts c)" "seq (tabs c ''git_servers'') < max_rowid"
    and "get_server E label (Some c) = Some e" "se_has_config_changes e" "answer \<noteq> Some False"
  shows "\<exists>c' conf old new e'. sync_config_to_database E answer label (Some c) = (Some c', True) \<and>
     load_from_config E label = Some conf \<and> find_record E label (Some c) = Some old \<and> find_record E label (Some c') = Some new \<and>
     gs_type new = c_string (sc_type conf) \<and> gs_host new = c_string (sc_host conf) \<and>
     gs_port new = sc_port conf \<and> gs_ssh_port new = sc_ssh_port conf \<and> gs_ssh_user new = c_string (sc_ssh_user conf) \<and>
     gs_repo_base_path new = c_string (sc_repo_base_path conf) \<and> gs_config_path new = c_string (sc_config_path conf) \<and>
     gs_web_url new = c_string (sc_web_url conf) \<and> gs_status new = c_string (gs_status old) \<and>
     gs_config_hash new = compute_config_hash E conf \<and>
     get_server E label (Some c') = Some e' \<and> \<not> se_has_config_changes e' \<and> se_config_source e' = ''both'' \<and>
     \<not> has_config_conflict E conf e'"
proof -
  from assms(4,5) obtain conf db where conf: "load_from_config E label = Some conf"
    and db: "load_from_database E label (Some c) = Some db" and e: "e = merge_entry E conf db"
    by (auto simp: get_server_def entry_from_config_def default_entry_def split: option.splits)
  from db obtain g where g: "find_record E label (Some c) = Some g" by (auto simp: load_from_database_def)
  obtain r where r: "by_key [''label''] [VText (c_string label)] (trows (tabs c ''git_servers'')) = Some r"
    "g = read_git_server (re_aead E) (re_secret E) (re_salt E) r"
    using g by (auto simp: find_record_by_key [OF assms(1)])
  then have label: "gs_label g = c_string label"
    by (auto simp: by_key_def read_git_server_def get_text_def row_get_def val_def dest!: find_Some_in)
  let ?g = "with_config E (se_config e) g"
  have fields: "gs_type ?g = sc_type conf" "gs_host ?g = sc_host conf" "gs_port ?g = sc_port conf"
    "gs_ssh_port ?g = sc_ssh_port conf" "gs_ssh_user ?g = sc_ssh_user conf" "gs_repo_base_path ?g = sc_repo_base_path conf"
    "gs_config_path ?g = sc_config_path conf" "gs_web_url ?g = sc_web_url conf" "gs_status ?g = gs_status g"
    "gs_config_hash ?g = compute_config_hash E conf" "gs_label ?g = c_string label"
    by (simp_all add: with_config_def e merge_entry_def Let_def hash_ignores_token label)
  obtain c' ok where put: "put_record E ?g c = (c', ok)" by (cases "put_record E ?g c")
  from put_record_effect [OF assms(1-3) put] obtain r' where c': "ok" "healthy c'"
    and r': "by_key [''label''] [VText (c_string label)] (trows (tabs c' ''git_servers'')) = Some r'"
      "map (val r') record_columns = record_cells E ?g"
    by (auto simp: fields(11))
  let ?new = "read_git_server (re_aead E) (re_secret E) (re_salt E) r'"
  note new = read_record_cells [OF r'(2), unfolded fields, OF config_ports [OF conf],
      of "re_aead E" "re_secret E" "re_salt E", unfolded c_string_id [OF nul_free_hex]]
  have found: "find_record E label (Some c') = Some ?new" by (simp add: find_record_by_key [OF c'(2)] r'(1))
  then have "get_server E label (Some c') = Some (merge_entry E conf (entry_of_record label ?new))"
    by (simp add: get_server_def conf load_from_database_def)
  moreover have "sync_config_to_database E answer label (Some c) = (Some c', True)"
    using assms(4-6) put c'(1) by (simp add: sync_config_to_database_def on_store_def g)
  moreover have "\<not> se_has_config_changes (merge_entry E conf (entry_of_record label ?new)) \<and>
      se_config_source (merge_entry E conf (entry_of_record label ?new)) = ''both'' \<and>
      \<not> has_config_conflict E conf (merge_entry E conf (entry_of_record label ?new))"
    using new(10) by (simp add: merge_entry_def Let_def entry_of_record_def has_config_conflict_def)
  ultimately show ?thesis using conf g found new by blast
qed

text \<open>
  A token that cannot be decrypted is lost: when the stored token does not decrypt with the present key, adding the
  server again without a token succeeds and leaves an empty token in the database.
\<close>

lemma undecryptable_token_lost:
  assumes "healthy c" "\<not> io_fails c (stmts c)" "seq (tabs c ''git_servers'') < max_rowid"
    and "by_key [''label''] [VText (c_string label)] (trows (tabs c ''git_servers'')) = Some r"
    and "decrypt_token (re_aead E) (re_secret E) (get_text r ''admin_token'') (re_salt E) = None"
    and "sc_type conf \<noteq> []" "sc_host conf \<noteq> []" "sc_admin_token conf = []"
  shows "\<exists>c' r'. add_server E label conf (Some c) = (Some c', True) \<and>
     by_key [''label''] [VText (c_string label)] (trows (tabs c' ''git_servers'')) = Some r' \<and> get_text r' ''admin_token'' = []"
proof -
  have old: "find_record E label (Some c) = Some (read_git_server (re_aead E) (re_secret E) (re_salt E) r)"
    by (simp add: find_record_by_key [OF assms(1)] assms(4))
  obtain g where add: "add_server E label conf (Some c) = (case put_record E g c of (c', ok) \<Rightarrow> (Some c', ok))"
    and g: "gs_label g = label" "gs_admin_token g = []"
    using assms(5-8) by (simp add: add_server_def Let_def old with_config_def empty_record_def read_git_server_def or_else_def)
  obtain c' ok where put: "put_record E g c = (c', ok)" by (cases "put_record E g c")
  from put_record_effect [OF assms(1-3) put] obtain r' where r': "ok"
    "by_key [''label''] [VText (c_string label)] (trows (tabs c' ''git_servers'')) = Some r'"
    "map (val r') record_columns = record_cells E g" by (auto simp: g)
  then show ?thesis using stored_token_cell [OF r'(3)] by (cases r') (simp add: add put g stored_token_def c_string_def)
qed

definition demo_env :: "string \<Rightarrow> registry_env" where
  "demo_env salt = \<lparr>re_cfg = Some [(''git.servers.gs'', [(''host'', ''h2''), (''type'', ''cgit'')])], re_sha256 = (\<lambda>s. ''x''),
     re_aead = mirror_aead, re_secret = ''secret'', re_salt = salt, re_iv = Some (replicate 12 (CHR ''i'')), re_now = 9\<rparr>"

lemma demo_git_values:
  "io_fails demo_git (stmts demo_git) = False" "seq (tabs demo_git ''git_servers'') < max_rowid"
  "map_option se_has_config_changes (get_server (demo_env ''00ff'') ''gs'' (Some demo_git)) = Some True"
  by code_simp+

lemma healthy_demo_git: "healthy demo_git"
  by (simp add: demo_git_def upsert_git_server_def healthy_fresh_db)

theorem sync_settles_witness:
  "\<exists>c' new. sync_config_to_database (demo_env ''00ff'') (Some True) ''gs'' (Some demo_git) = (Some c', True) \<and>
     find_record (demo_env ''00ff'') ''gs'' (Some c') = Some new \<and> gs_host new = ''h2'' \<and> gs_config_path new = ''/etc/cgitrc''"
proof -
  obtain e where e: "get_server (demo_env ''00ff'') ''gs'' (Some demo_git) = Some e" "se_has_config_changes e"
    using demo_git_values(3) by auto
  have conf: "map_option (\<lambda>c. (c_string (sc_host c), c_string (sc_config_path c))) (load_from_config (demo_env ''00ff'') ''gs'') = Some (''h2'', ''/etc/cgitrc'')"
    by code_simp
  have io: "\<not> io_fails demo_git (stmts demo_git)" "Some True \<noteq> Some False" using demo_git_values(1) by simp_all
  from sync_settles [OF healthy_demo_git io(1) demo_git_values(2) e io(2)] obtain c' conf new where
    "sync_config_to_database (demo_env ''00ff'') (Some True) ''gs'' (Some demo_git) = (Some c', True)"
    "load_from_config (demo_env ''00ff'') ''gs'' = Some conf" "find_record (demo_env ''00ff'') ''gs'' (Some c') = Some new"
    "gs_host new = c_string (sc_host conf)" "gs_config_path new = c_string (sc_config_path conf)"
    by (elim exE conjE) (rule that)
  with conf show ?thesis by simp
qed

text \<open>The token is stored with a salt that is missing later.\<close>

definition demo_token :: sqlite where
  "demo_token = fst (update_git_server_admin_token mirror_aead ''secret'' ''00ff'' (Some (replicate 12 (CHR ''i''))) 7 ''gs'' ''tok'' demo_git)"

definition demo_conf :: server_config where
  "demo_conf = default_config\<lparr>sc_type := ''cgit'', sc_host := ''h''\<rparr>"

lemma undecryptable_token_lost_example:
  "\<exists>c' r'. add_server (demo_env []) ''gs'' demo_conf (Some demo_token) = (Some c', True) \<and>
     by_key [''label''] [VText (c_string ''gs'')] (trows (tabs c' ''git_servers'')) = Some r' \<and> get_text r' ''admin_token'' = []"
proof -
  let ?r = "by_key [''label''] [VText (c_string ''gs'')] (trows (tabs demo_token ''git_servers''))"
  have h: "healthy demo_token" by (simp add: demo_token_def update_git_server_admin_token_def healthy_demo_git)
  have v: "io_fails demo_token (stmts demo_token) = False" "seq (tabs demo_token ''git_servers'') < max_rowid"
    "map_option (\<lambda>r. decrypt_token mirror_aead ''secret'' (get_text r ''admin_token'') []) ?r = Some None"
    "sc_type demo_conf \<noteq> []" "sc_host demo_conf \<noteq> []" "sc_admin_token demo_conf = []"
    by code_simp+
  then obtain r where r: "?r = Some r" "decrypt_token mirror_aead ''secret'' (get_text r ''admin_token'') [] = None" by auto
  show ?thesis
    using undecryptable_token_lost [OF h _ v(2) r(1), of "demo_env []" demo_conf] v r(2) by (simp add: demo_env_def)
qed

end
