(* ===== verification/Agent_Store.thy ===== *)
theory Agent_Store
  imports Agent_Scanner Nexus_Store
begin

text \<open>
  The agent's cache (\<open>src/modules/agent/src/local_store.cpp\<close>): a SQLite database of its own, with the tables its
  embedded migration declares. Most tables have a TEXT PRIMARY KEY, which is a UNIQUE key beside the hidden
  row identifier. The driver is that of \<^theory_text>\<open>Nexus_Sql\<close>.
\<close>

section \<open>Tables\<close>

definition agent_config_table :: table_def where
  "agent_config_table = \<lparr>tname = ''agent_config'', columns = [tcol ''key'', tcol_not_null ''value'', icol_not_null ''updated_at''],
     uniques = [[''key'']], fkeys = []\<rparr>"

definition cached_containers_table :: table_def where
  "cached_containers_table = \<lparr>tname = ''cached_containers'',
     columns = [tcol ''container_id'', tcol_not_null ''name'', tcol_not_null ''image'', tcol_not_null ''state'', tcol ''status'',
       icol ''created'', tcol ''service_name'', tcol ''health_status'', tcol ''restart_policy'', tcol ''labels_json'',
       icol_not_null ''last_seen''],
     uniques = [[''container_id'']], fkeys = []\<rparr>"

definition cached_compose_files_table :: table_def where
  "cached_compose_files_table = \<lparr>tname = ''cached_compose_files'',
     columns = [tcol ''path'', tcol ''project_name'', tcol_not_null ''services_json'', tcol ''file_hash'', icol_not_null ''last_seen''],
     uniques = [[''path'']], fkeys = []\<rparr>"

definition cached_images_table :: table_def where
  "cached_images_table = \<lparr>tname = ''cached_images'',
     columns = [tcol ''image_id'', tcol ''repository'', tcol ''tag'', icol ''size_bytes'', icol ''created'', icol_not_null ''last_seen''],
     uniques = [[''image_id'']], fkeys = []\<rparr>"

definition cached_networks_table :: table_def where
  "cached_networks_table = \<lparr>tname = ''cached_networks'',
     columns = [tcol ''network_id'', tcol_not_null ''name'', tcol ''driver'', tcol ''scope'', icol_not_null ''last_seen''],
     uniques = [[''network_id'']], fkeys = []\<rparr>"

definition cached_volumes_table :: table_def where
  "cached_volumes_table = \<lparr>tname = ''cached_volumes'',
     columns = [tcol ''volume_name'', tcol ''driver'', tcol ''mountpoint'', icol_not_null ''last_seen''],
     uniques = [[''volume_name'']], fkeys = []\<rparr>"

definition scan_history_table :: table_def where
  "scan_history_table = \<lparr>tname = ''scan_history'',
     columns = [icol_not_null ''scan_timestamp'', icol_default ''containers_count'' 0, icol_default ''images_count'' 0,
       icol_default ''networks_count'' 0, icol_default ''volumes_count'' 0, icol_default ''compose_files_count'' 0,
       icol_default ''sent_to_control'' 0, icol ''sent_at''],
     uniques = [], fkeys = []\<rparr>"

definition agent_schema :: "table_def list" where
  "agent_schema = [agent_config_table, cached_containers_table, cached_compose_files_table, cached_images_table,
     cached_networks_table, cached_volumes_table, scan_history_table]"

section \<open>Opening\<close>

text \<open>The database with the version its table \<open>schema_version\<close> holds, 0 before the first migration.\<close>

record local_store =
  ls_conn :: sqlite
  ls_version :: int

definition run_agent :: "sql_stmt \<Rightarrow> local_store \<Rightarrow> local_store \<times> bool" where
  "run_agent q s = (case db_execute agent_schema q (ls_conn s) of (c, ok) \<Rightarrow> (s\<lparr>ls_conn := c\<rparr>, ok))"

definition create :: "bool \<Rightarrow> local_store \<Rightarrow> local_store option" where
  "create connected s = (if connected then Some s else None)"

definition insert_or_ignore :: "string \<Rightarrow> cells \<Rightarrow> tables \<Rightarrow> tables" where
  "insert_or_ignore t vs T = (case run_stmt agent_schema (Insert t vs) T of None \<Rightarrow> T | Some (T', _) \<Rightarrow> T')"

definition default_settings :: "(string \<times> string) list" where
  "default_settings = [(''server_label'', ''unknown''), (''last_scan'', ''0''), (''control_center_url'', [])]"

text \<open>The script creates what is missing and fills in settings that are not there; \<open>script_ok\<close> says whether it ran.\<close>

definition run_migrations :: "bool \<Rightarrow> int \<Rightarrow> local_store \<Rightarrow> local_store \<times> bool" where
  "run_migrations script_ok now s =
     (if 1 \<le> ls_version s then (s, True)
      else if \<not> script_ok then (s, False)
      else (s\<lparr>ls_version := 1, ls_conn := (ls_conn s)\<lparr>tabs := fold (\<lambda>(k, v).
               insert_or_ignore ''agent_config'' [(''key'', VText k), (''value'', VText v), (''updated_at'', VInt now)])
             default_settings (tabs (ls_conn s))\<rparr>\<rparr>, True))"

definition initialize :: "bool \<Rightarrow> int \<Rightarrow> local_store \<Rightarrow> local_store \<times> bool" where
  "initialize script_ok now s = run_migrations script_ok now s"

section \<open>Settings\<close>

definition setting_values :: "int \<Rightarrow> string \<Rightarrow> string \<Rightarrow> cells" where
  "setting_values now key v = [(''key'', bind key), (''value'', bind v), (''updated_at'', bind_int now)]"

definition set_config :: "int \<Rightarrow> string \<Rightarrow> string \<Rightarrow> local_store \<Rightarrow> local_store" where
  "set_config now key v s = fst (run_agent (Replace ''agent_config'' (setting_values now key v)) s)"

definition get_config :: "string \<Rightarrow> string \<Rightarrow> local_store \<Rightarrow> string" where
  "get_config key default_val s =
     (case select ''agent_config'' (eq_text ''key'' key) (ls_conn s) of
        [] \<Rightarrow> default_val
      | r # _ \<Rightarrow> (case row_get r ''value'' of None \<Rightarrow> default_val | Some v \<Rightarrow> v))"

definition set_server_label :: "int \<Rightarrow> string \<Rightarrow> local_store \<Rightarrow> local_store" where
  "set_server_label now label = set_config now ''server_label'' label"

definition get_server_label :: "local_store \<Rightarrow> string" where
  "get_server_label = get_config ''server_label'' ''unknown''"

definition set_control_center_url :: "int \<Rightarrow> string \<Rightarrow> local_store \<Rightarrow> local_store" where
  "set_control_center_url now url = set_config now ''control_center_url'' url"

definition get_control_center_url :: "local_store \<Rightarrow> string" where
  "get_control_center_url = get_config ''control_center_url'' []"

definition update_last_scan_time :: "int \<Rightarrow> int \<Rightarrow> local_store \<Rightarrow> local_store" where
  "update_last_scan_time now t = set_config now ''last_scan'' (to_string t)"

text \<open>\<^const>\<open>None\<close> is the exception of \<open>std::stoll\<close>.\<close>

definition get_last_scan_time :: "local_store \<Rightarrow> int option" where
  "get_last_scan_time s = stoll (get_config ''last_scan'' ''0'' s)"

section \<open>The cache\<close>

definition store_rows :: "string \<Rightarrow> ('a \<Rightarrow> cells) \<Rightarrow> 'a list \<Rightarrow> local_store \<Rightarrow> local_store" where
  "store_rows t vs = fold (\<lambda>x s. fst (run_agent (Replace t (vs x)) s))"

definition container_cells :: "int \<Rightarrow> agent_container \<Rightarrow> cells" where
  "container_cells t c = [(''container_id'', bind (ac_id c)), (''name'', bind (ac_name c)), (''image'', bind (ac_image c)),
     (''state'', bind (ac_state c)), (''status'', bind (ac_status c)), (''created'', bind_int (ac_created c)),
     (''service_name'', bind (ac_service_name c)), (''health_status'', bind (ac_health_status c)),
     (''restart_policy'', bind (ac_restart_policy c)), (''labels_json'', bind (ac_labels_json c)), (''last_seen'', bind_int t)]"

definition store_containers :: "agent_container list \<Rightarrow> int \<Rightarrow> local_store \<Rightarrow> local_store" where
  "store_containers cs t = store_rows ''cached_containers'' (container_cells t) cs"

definition compose_cells :: "int \<Rightarrow> agent_compose_file \<Rightarrow> cells" where
  "compose_cells t f = [(''path'', bind (af_path f)), (''project_name'', bind (af_project_name f)),
     (''services_json'', bind (af_services_json f)), (''file_hash'', bind (af_file_hash f)), (''last_seen'', bind_int t)]"

definition store_compose_files :: "agent_compose_file list \<Rightarrow> int \<Rightarrow> local_store \<Rightarrow> local_store" where
  "store_compose_files fs t = store_rows ''cached_compose_files'' (compose_cells t) fs"

definition image_cells :: "int \<Rightarrow> agent_image \<Rightarrow> cells" where
  "image_cells t i = [(''image_id'', bind (ai_id i)), (''repository'', bind (ai_repository i)), (''tag'', bind (ai_tag i)),
     (''size_bytes'', bind_int (ai_size_bytes i)), (''created'', bind_int (ai_created i)), (''last_seen'', bind_int t)]"

definition store_images :: "agent_image list \<Rightarrow> int \<Rightarrow> local_store \<Rightarrow> local_store" where
  "store_images is t = store_rows ''cached_images'' (image_cells t) is"

definition network_cells :: "int \<Rightarrow> agent_network \<Rightarrow> cells" where
  "network_cells t n = [(''network_id'', bind (an_id n)), (''name'', bind (an_name n)), (''driver'', bind (an_driver n)),
     (''scope'', bind (an_scope n)), (''last_seen'', bind_int t)]"

definition store_networks :: "agent_network list \<Rightarrow> int \<Rightarrow> local_store \<Rightarrow> local_store" where
  "store_networks ns t = store_rows ''cached_networks'' (network_cells t) ns"

definition volume_cells :: "int \<Rightarrow> agent_volume \<Rightarrow> cells" where
  "volume_cells t v = [(''volume_name'', bind (av_name v)), (''driver'', bind (av_driver v)), (''mountpoint'', bind (av_mountpoint v)),
     (''last_seen'', bind_int t)]"

definition store_volumes :: "agent_volume list \<Rightarrow> int \<Rightarrow> local_store \<Rightarrow> local_store" where
  "store_volumes vs t = store_rows ''cached_volumes'' (volume_cells t) vs"

definition record_scan :: "int \<Rightarrow> int \<Rightarrow> int \<Rightarrow> int \<Rightarrow> int \<Rightarrow> int \<Rightarrow> int \<Rightarrow> local_store \<Rightarrow> local_store" where
  "record_scan now t containers images networks volumes files s =
     update_last_scan_time now t (fst (run_agent (Insert ''scan_history'' [(''scan_timestamp'', bind_int t),
        (''containers_count'', bind_int containers), (''images_count'', bind_int images), (''networks_count'', bind_int networks),
        (''volumes_count'', bind_int volumes), (''compose_files_count'', bind_int files)]) s))"

definition mark_scan_sent :: "int \<Rightarrow> int \<Rightarrow> local_store \<Rightarrow> local_store" where
  "mark_scan_sent now i s = fst (run_agent (Update ''scan_history'' (eq_int ''id'' i)
     (\<lambda>_. [(''sent_to_control'', VInt 1), (''sent_at'', bind_int now)])) s)"

definition cache_tables :: "string list" where
  "cache_tables = [''cached_containers'', ''cached_compose_files'', ''cached_images'', ''cached_networks'', ''cached_volumes'']"

definition seen_before :: "int \<Rightarrow> sql_row \<Rightarrow> bool" where
  "seen_before t r \<longleftrightarrow> val r ''last_seen'' \<noteq> VNull \<and> val r ''last_seen'' < coerce AInteger (bind_int t)"

definition cleanup_old_data :: "int \<Rightarrow> local_store \<Rightarrow> local_store" where
  "cleanup_old_data t = fold (\<lambda>tb s. fst (run_agent (Delete tb (seen_before t)) s)) cache_tables"

section \<open>Reading the cache\<close>

definition text_or :: "sql_row \<Rightarrow> string \<Rightarrow> string \<Rightarrow> string" where
  "text_or r c d = (case row_get r c of None \<Rightarrow> d | Some v \<Rightarrow> v)"

definition cached_container :: "sql_row \<Rightarrow> agent_container" where
  "cached_container r = \<lparr>ac_id = get_text r ''container_id'', ac_name = get_text r ''name'', ac_image = get_text r ''image'',
     ac_state = get_text r ''state'', ac_status = get_text r ''status'', ac_created = get_num r ''created'',
     ac_ports_json = [], ac_volumes_json = [], ac_networks_json = [],
     ac_service_name = get_text r ''service_name'', ac_labels_json = text_or r ''labels_json'' ''{}'',
     ac_health_status = get_text r ''health_status'', ac_restart_policy = get_text r ''restart_policy''\<rparr>"

definition get_cached_containers :: "local_store \<Rightarrow> agent_container list" where
  "get_cached_containers s = map cached_container (order_asc ''name'' (select ''cached_containers'' (\<lambda>_. True) (ls_conn s)))"

definition cached_compose_file :: "sql_row \<Rightarrow> agent_compose_file" where
  "cached_compose_file r = \<lparr>af_path = get_text r ''path'', af_project_name = get_text r ''project_name'',
     af_services_json = text_or r ''services_json'' ''[]'', af_file_hash = get_text r ''file_hash''\<rparr>"

definition get_cached_compose_files :: "local_store \<Rightarrow> agent_compose_file list" where
  "get_cached_compose_files s = map cached_compose_file (order_asc ''path'' (select ''cached_compose_files'' (\<lambda>_. True) (ls_conn s)))"

definition cached_image :: "sql_row \<Rightarrow> agent_image" where
  "cached_image r = \<lparr>ai_id = get_text r ''image_id'', ai_repository = get_text r ''repository'', ai_tag = get_text r ''tag'',
     ai_size_bytes = get_num r ''size_bytes'', ai_created = get_num r ''created''\<rparr>"

definition get_cached_images :: "local_store \<Rightarrow> agent_image list" where
  "get_cached_images s = map cached_image
     (order_asc ''repository'' (order_asc ''tag'' (select ''cached_images'' (\<lambda>_. True) (ls_conn s))))"

definition cached_network :: "sql_row \<Rightarrow> agent_network" where
  "cached_network r = \<lparr>an_id = get_text r ''network_id'', an_name = get_text r ''name'', an_driver = get_text r ''driver'',
     an_scope = get_text r ''scope''\<rparr>"

definition get_cached_networks :: "local_store \<Rightarrow> agent_network list" where
  "get_cached_networks s = map cached_network (order_asc ''name'' (select ''cached_networks'' (\<lambda>_. True) (ls_conn s)))"

definition cached_volume :: "sql_row \<Rightarrow> agent_volume" where
  "cached_volume r = \<lparr>av_name = get_text r ''volume_name'', av_driver = get_text r ''driver'', av_mountpoint = get_text r ''mountpoint''\<rparr>"

definition get_cached_volumes :: "local_store \<Rightarrow> agent_volume list" where
  "get_cached_volumes s = map cached_volume (order_asc ''volume_name'' (select ''cached_volumes'' (\<lambda>_. True) (ls_conn s)))"

section \<open>Statements on the cache\<close>

lemmas agent_tables = agent_config_table_def cached_containers_table_def cached_compose_files_table_def cached_images_table_def
  cached_networks_table_def cached_volumes_table_def scan_history_table_def

lemma agent_schema_ok: "schema_ok agent_schema"
  by code_simp

lemma agent_unreferenced: "unreferenced agent_schema t"
  by (simp add: unreferenced_def agent_schema_def agent_tables)

lemma agent_fkeys_nil: "list_all (\<lambda>d. fkeys d = []) agent_schema"
  by code_simp

lemma agent_fkeys: "d \<in> set agent_schema \<Longrightarrow> fkeys_ok d T cs"
proof -
  assume "d \<in> set agent_schema"
  with agent_fkeys_nil have "fkeys d = []" unfolding list_all_iff by blast
  then show ?thesis by (simp add: fkeys_ok_def)
qed

definition store_ok :: "local_store \<Rightarrow> bool" where
  "store_ok s \<longleftrightarrow> db_open (ls_conn s) \<and> conn_ok agent_schema (ls_conn s) \<and> visits_all (ls_conn s) \<and> (\<forall>n. \<not> io_fails (ls_conn s) n)"

definition agent_rows :: "string \<Rightarrow> local_store \<Rightarrow> sql_row list" where
  "agent_rows t s = trows (tabs (ls_conn s) t)"

lemma run_agent_ok:
  assumes "store_ok s"
  shows "store_ok (fst (run_agent q s))"
proof -
  obtain c b where e: "db_execute agent_schema q (ls_conn s) = (c, b)" by fastforce
  note frame = db_execute_frame [OF e]
  have "conn_ok agent_schema c" using db_execute_ok [OF agent_schema_ok _ e] assms by (simp only: store_ok_def)
  moreover have "visits_all c" using assms unfolding store_ok_def visits_all_def frame(3) by blast
  ultimately show ?thesis using assms by (simp add: run_agent_def e store_ok_def frame(1,2))
qed

lemma run_agent_done:
  assumes "store_ok s" "run_stmt agent_schema q (tabs (ls_conn s)) = Some (T, i)"
  shows "tabs (ls_conn (fst (run_agent q s))) = T"
  using assms by (cases i) (simp_all add: run_agent_def db_execute_def store_ok_def Let_def)

text \<open>A replacement by a one-column key: the row with the key goes, the new row comes last.\<close>

lemma run_replace:
  assumes ok: "store_ok s" and d: "d \<in> set agent_schema" "tname d = t" "uniques d = [[k]]"
    and new: "not_null_ok d (new_cells d vs)" "cell (new_cells d vs) k \<noteq> VNull" "seq (tabs (ls_conn s) t) < max_rowid"
  shows "agent_rows t (fst (run_agent (Replace t vs) s)) =
      filter (\<lambda>r. cell (snd r) k \<noteq> cell (new_cells d vs) k) (agent_rows t s) @ [(seq (tabs (ls_conn s) t) + 1, new_cells d vs)]"
    "seq (tabs (ls_conn (fst (run_agent (Replace t vs) s))) t) = seq (tabs (ls_conn s) t) + 1"
    "u \<noteq> t \<Longrightarrow> tabs (ls_conn (fst (run_agent (Replace t vs) s))) u = tabs (ls_conn s) u"
proof -
  have "find_def agent_schema t = Some d" using d by (simp add: find_def_iff [OF agent_schema_ok])
  then have "run_stmt agent_schema (Replace t vs) (tabs (ls_conn s)) = Some ((tabs (ls_conn s))(t := \<lparr>trows =
      filter (\<lambda>r. \<not> collides d vs r) (trows (tabs (ls_conn s) t)) @ [(seq (tabs (ls_conn s) t) + 1, new_cells d vs)],
      seq = seq (tabs (ls_conn s) t) + 1\<rparr>), Some (seq (tabs (ls_conn s) t) + 1))"
    using sql_replace_unreferenced [OF agent_schema_ok d(1) _ agent_unreferenced new(1) agent_fkeys [OF d(1)]] ok d(2) new(3)
    by (simp add: store_ok_def conn_ok_def)
  note T = run_agent_done [OF ok this]
  have "\<not> collides d vs r \<longleftrightarrow> cell (snd r) k \<noteq> cell (new_cells d vs) k" for r
    using new(2) by (auto simp: collides_def d(3) same_key_def)
  then show "agent_rows t (fst (run_agent (Replace t vs) s)) =
      filter (\<lambda>r. cell (snd r) k \<noteq> cell (new_cells d vs) k) (agent_rows t s) @ [(seq (tabs (ls_conn s) t) + 1, new_cells d vs)]"
    by (simp add: agent_rows_def T)
  show "seq (tabs (ls_conn (fst (run_agent (Replace t vs) s))) t) = seq (tabs (ls_conn s) t) + 1"
    "u \<noteq> t \<Longrightarrow> tabs (ls_conn (fst (run_agent (Replace t vs) s))) u = tabs (ls_conn s) u"
    by (simp_all add: T)
qed

text \<open>What a list of replacements leaves: one row per key, with the cells stored last.\<close>

lemma store_rows_effect:
  assumes ok: "store_ok s" and d: "d \<in> set agent_schema" "tname d = t" "uniques d = [[k]]"
    and new: "\<And>x. not_null_ok d (new_cells d (vs x))" "\<And>x. cell (new_cells d (vs x)) k \<noteq> VNull"
    and room: "seq (tabs (ls_conn s) t) + int (length xs) < max_rowid" and empty: "agent_rows t s = []"
  shows "store_ok (store_rows t vs xs s) \<and> distinct (map (\<lambda>r. cell (snd r) k) (agent_rows t (store_rows t vs xs s))) \<and>
    (\<forall>kv. map_of (map (\<lambda>r. (cell (snd r) k, snd r)) (agent_rows t (store_rows t vs xs s))) kv =
       map_option (\<lambda>x. new_cells d (vs x)) (find (\<lambda>x. cell (new_cells d (vs x)) k = kv) (rev xs))) \<and>
    seq (tabs (ls_conn (store_rows t vs xs s)) t) = seq (tabs (ls_conn s) t) + int (length xs)"
  using room
proof (induction xs rule: rev_induct)
  case Nil
  then show ?case using ok empty by (simp add: store_rows_def)
next
  case (snoc x xs)
  let ?s = "store_rows t vs xs s" and ?n = "new_cells d (vs x)"
  have IH: "store_ok ?s" "distinct (map (\<lambda>r. cell (snd r) k) (agent_rows t ?s))"
    "\<And>kv. map_of (map (\<lambda>r. (cell (snd r) k, snd r)) (agent_rows t ?s)) kv =
       map_option (\<lambda>x. new_cells d (vs x)) (find (\<lambda>x. cell (new_cells d (vs x)) k = kv) (rev xs))"
    "seq (tabs (ls_conn ?s) t) = seq (tabs (ls_conn s) t) + int (length xs)"
    using snoc by auto
  have step: "store_rows t vs (xs @ [x]) s = fst (run_agent (Replace t (vs x)) ?s)" by (simp add: store_rows_def)
  have "seq (tabs (ls_conn ?s) t) < max_rowid" using snoc.prems IH(4) by simp
  note r = run_replace [OF IH(1) d new(1) [of x] new(2) [of x] this]
  have f: "map_of (map (\<lambda>r. (cell (snd r) k, snd r)) (filter (\<lambda>r. cell (snd r) k \<noteq> v) rs)) kv =
      (if kv = v then None else map_of (map (\<lambda>r. (cell (snd r) k, snd r)) rs) kv)" for v rs kv
    by (induction rs) auto
  have "distinct (map (\<lambda>r. cell (snd r) k) (filter (\<lambda>r. cell (snd r) k \<noteq> cell ?n k) (agent_rows t ?s)))"
    using IH(2) by (rule distinct_map_filter)
  then show ?case unfolding step r(1,2) using run_agent_ok [OF IH(1)] IH(3,4) by (auto simp: f map_add_def split: option.splits)
qed

end
