(* ===== verification/Agent_Scan_Facts.thy ===== *)
theory Agent_Scan_Facts
  imports Agent_Scanner
begin

text \<open>
  What the scanner guarantees and what it does not: the pipe reader ends and delivers an output without NUL bytes whole, escaped texts are
  well-formed JSON strings that keep every byte, image identifiers keep only five digits, and every
  indented key of a compose file is taken for a service.
\<close>

section \<open>Reading a pipe\<close>

lemma fgets_chunk_prefix: "take (length (fgets_chunk s)) s = fgets_chunk s"
proof -
  let ?l = "takeWhile (\<lambda>c. c \<noteq> nl) s"
  have s: "s = ?l @ dropWhile (\<lambda>c. c \<noteq> nl) s" by simp
  have pre: "take (length (take 255 x)) (x @ y) = take 255 x" for x y :: string by (simp add: min_def)
  show ?thesis
  proof (cases "dropWhile (\<lambda>c. c \<noteq> nl) s")
    case Nil
    then have l: "?l = s" using s by simp
    have "fgets_chunk s = take 255 s" unfolding fgets_chunk_def Let_def l by simp
    then show ?thesis using pre [of s "[]"] by simp
  next
    case (Cons d r)
    then have "d = nl" by (metis (mono_tags, lifting) dropWhile_eq_Cons_conv)
    then have "s = (?l @ [nl]) @ r" using s Cons by simp
    moreover have "length ?l < length s" using arg_cong [OF s, of length] Cons by simp
    ultimately show ?thesis using pre [of "?l @ [nl]" r] by (simp add: fgets_chunk_def Let_def)
  qed
qed

lemma takeWhile_keep: "z \<notin> set s \<Longrightarrow> takeWhile (\<lambda>c. c \<noteq> z) s = s"
  by (induction s) auto

lemma read_pipe_Nil [simp]: "read_pipe [] = []"
  by (simp add: read_pipe.simps)

lemma read_pipe_step: "s \<noteq> [] \<Longrightarrow>
    read_pipe s = takeWhile (\<lambda>c. c \<noteq> CHR 0x00) (fgets_chunk s) @ read_pipe (drop (length (fgets_chunk s)) s)"
  by (simp add: read_pipe.simps [of s])

text \<open>The loop ends on every output, with the text so far and what the recursion reads of the rest.\<close>

lemma read_loop_from:
  "while_option (\<lambda>(rest, result). rest \<noteq> [])
     (\<lambda>(rest, result). (drop (length (fgets_chunk rest)) rest, result @ takeWhile (\<lambda>c. c \<noteq> CHR 0x00) (fgets_chunk rest)))
     (s, acc) = Some ([], acc @ read_pipe s)"
proof (induction "length s" arbitrary: s acc rule: less_induct)
  case less
  show ?case
  proof (cases "s = []")
    case True
    then show ?thesis by (subst while_option_unfold) simp
  next
    case False
    have "length (drop (length (fgets_chunk s)) s) < length s" using fgets_chunk_length [OF False] False by simp
    from less [OF this] show ?thesis using False by (subst while_option_unfold) (simp add: read_pipe_step)
  qed
qed

text \<open>What the calls of \<open>fgets\<close> give: full buffers and ends of lines.\<close>

definition buffer_ok :: "string \<Rightarrow> bool" where
  "buffer_ok b \<longleftrightarrow> b \<noteq> [] \<and> length b \<le> 255 \<and> nl \<notin> set (butlast b)"

definition buffers :: "string list \<Rightarrow> bool" where
  "buffers bs \<longleftrightarrow> list_all buffer_ok bs \<and> list_all (\<lambda>b. length b = 255 \<or> last b = nl) (butlast bs)"

lemma fgets_chunk_ok: "s \<noteq> [] \<Longrightarrow> buffer_ok (fgets_chunk s)"
proof -
  let ?l = "takeWhile (\<lambda>c. c \<noteq> nl) s"
  assume s: "s \<noteq> []"
  have l: "nl \<notin> set ?l" by (auto dest: set_takeWhileD)
  have "nl \<notin> set (butlast (take 255 ?l))" using l by (auto dest!: in_set_butlastD in_set_takeD)
  moreover have "nl \<notin> set (butlast (take 255 (?l @ [nl])))"
  proof (cases "length ?l < 255")
    case True
    then show ?thesis using l by simp
  next
    case False
    then show ?thesis using l by (auto dest!: in_set_butlastD in_set_takeD)
  qed
  moreover have "fgets_chunk s \<noteq> []" using fgets_chunk_length [OF s] by auto
  ultimately show ?thesis by (simp add: buffer_ok_def fgets_chunk_def Let_def)
qed

lemma fgets_chunk_full: "length (fgets_chunk s) < length s \<Longrightarrow> length (fgets_chunk s) = 255 \<or> last (fgets_chunk s) = nl"
  by (auto simp: fgets_chunk_def Let_def min_def split: if_splits)

lemma read_pipe_buffers:
  "\<exists>bs. concat bs = s \<and> buffers bs \<and> length bs \<le> length s \<and> read_pipe s = concat (map (takeWhile (\<lambda>c. c \<noteq> CHR 0x00)) bs)"
proof (induction "length s" arbitrary: s rule: less_induct)
  case less
  show ?case
  proof (cases "s = []")
    case True
    then show ?thesis by (intro exI [of _ "[]"]) (simp add: buffers_def)
  next
    case False
    let ?n = "length (fgets_chunk s)"
    have pos: "0 < ?n" by (rule fgets_chunk_length [OF False])
    then have "length (drop ?n s) < length s" using False by simp
    from less [OF this] obtain bs where bs: "concat bs = drop ?n s" "buffers bs" "length bs \<le> length (drop ?n s)"
      "read_pipe (drop ?n s) = concat (map (takeWhile (\<lambda>c. c \<noteq> CHR 0x00)) bs)" by blast
    have "concat (fgets_chunk s # bs) = s"
      using fgets_chunk_prefix [of s] append_take_drop_id [of ?n s] bs(1) by simp
    moreover have "?n < length s" if "bs \<noteq> []"
      using that bs(1,2) by (cases bs) (auto simp: buffers_def buffer_ok_def intro: ccontr)
    then have "buffers (fgets_chunk s # bs)"
      using bs(2) fgets_chunk_ok [OF False] fgets_chunk_full [of s] by (auto simp: buffers_def)
    moreover have "length (fgets_chunk s # bs) \<le> length s"
    proof -
      have "?n \<le> length s" using arg_cong [OF fgets_chunk_prefix [of s], of length] by simp
      then show ?thesis using bs(3) pos unfolding length_drop length_Cons by linarith
    qed
    ultimately show ?thesis using bs(4) read_pipe_step [OF False] by (intro exI [of _ "fgets_chunk s # bs"]) simp
  qed
qed

lemma takeWhile_nul_free: "list_all (\<lambda>b. CHR 0x00 \<notin> set b) bs \<Longrightarrow> concat (map (takeWhile (\<lambda>c. c \<noteq> CHR 0x00)) bs) = concat bs"
  by (induction bs) (simp_all add: takeWhile_keep)

text \<open>
  \<^bold>\<open>C38\<close> The loop that reads a pipe ends on every output, after at most as many calls of \<open>fgets\<close> as the output has
  bytes: the output is cut into buffers of at most 255 bytes that end at a line end or full, and of each buffer
  the bytes in front of its first NUL are kept. So an output without NUL bytes comes out whole, and one with them loses
  the rest of the buffer behind each first NUL.
\<close>

theorem read_pipe_complete:
  assumes "sw_popen W cmd = Some out"
  shows "\<exists>bs. concat bs = out \<and> buffers bs \<and> length bs \<le> length out \<and>
     read_loop out = Some ([], concat (map (takeWhile (\<lambda>c. c \<noteq> CHR 0x00)) bs)) \<and>
     exec_command W cmd = concat (map (takeWhile (\<lambda>c. c \<noteq> CHR 0x00)) bs) \<and>
     (CHR 0x00 \<notin> set out \<longrightarrow> exec_command W cmd = out)"
proof -
  obtain bs where bs: "concat bs = out" "buffers bs" "length bs \<le> length out"
    "read_pipe out = concat (map (takeWhile (\<lambda>c. c \<noteq> CHR 0x00)) bs)" using read_pipe_buffers [of out] by blast
  have "read_loop out = Some ([], read_pipe out)" using read_loop_from [of out "[]"] by (simp add: read_loop_def)
  moreover have "CHR 0x00 \<notin> set out \<Longrightarrow> list_all (\<lambda>b. CHR 0x00 \<notin> set b) bs" using bs(1) by (auto simp: list_all_iff)
  then have "CHR 0x00 \<notin> set out \<Longrightarrow> read_pipe out = out" using takeWhile_nul_free bs(1,4) by simp
  ultimately show ?thesis using bs assms by (intro exI [of _ bs]) (auto simp: exec_command_def)
qed

definition demo_scan_world :: "string \<Rightarrow> scan_world" where
  "demo_scan_world out = \<lparr>sw_popen = (\<lambda>_. Some out), sw_hostname = None, sw_walk = (\<lambda>_. None), sw_read = (\<lambda>_. None),
     sw_sha256 = (\<lambda>_. []), sw_now = 0, sw_indeterminate = 0\<rparr>"

theorem read_pipe_complete_witness:
  "exec_command (demo_scan_world (replicate 600 (CHR ''x''))) ''docker ps'' = replicate 600 (CHR ''x'')"
proof -
  have "sw_popen (demo_scan_world (replicate 600 (CHR ''x''))) ''docker ps'' = Some (replicate 600 (CHR ''x''))"
    by (simp add: demo_scan_world_def)
  from read_pipe_complete [OF this] show ?thesis by auto
qed

text \<open>A NUL byte takes the rest of its buffer with it.\<close>

lemma nul_loses_bytes: "read_pipe ([CHR ''a'', CHR 0x00, CHR ''b'', nl] @ ''c'') = ''ac''"
  by (simp add: read_pipe_step fgets_chunk_def nl_def)

section \<open>JSON strings\<close>

text \<open>
  A reference reader of JSON string bodies, up to and past the closing quote, giving code points. A raw byte from 128 on
  would be part of a UTF-8 sequence, a raw control character is an error; neither is accepted here.
\<close>

definition simple_escape :: "char \<Rightarrow> nat option" where
  "simple_escape c = (if c = CHR 0x22 \<or> c = CHR 0x5C \<or> c = CHR ''/'' then Some (of_char c)
     else if c = CHR ''b'' then Some 8 else if c = CHR ''f'' then Some 12 else if c = CHR ''n'' then Some 10
     else if c = CHR ''r'' then Some 13 else if c = CHR ''t'' then Some 9 else None)"

definition hex4 :: "string \<Rightarrow> nat option" where
  "hex4 ds = (case map hex_value ds of
     [Some a, Some b, Some c, Some d] \<Rightarrow> Some (((a * 16 + b) * 16 + c) * 16 + d) | _ \<Rightarrow> None)"

function json_string :: "string \<Rightarrow> (nat list \<times> string) option" where
  "json_string s =
     (case s of
        [] \<Rightarrow> None
      | c # r \<Rightarrow>
          if c = CHR 0x22 then Some ([], r)
          else if c = CHR 0x5C then
            (case r of
               [] \<Rightarrow> None
             | e # r' \<Rightarrow>
                 if e = CHR ''u'' then
                   (case hex4 (take 4 r') of None \<Rightarrow> None | Some n \<Rightarrow> map_option (\<lambda>(ns, t). (n # ns, t)) (json_string (drop 4 r')))
                 else (case simple_escape e of None \<Rightarrow> None | Some n \<Rightarrow> map_option (\<lambda>(ns, t). (n # ns, t)) (json_string r')))
          else if 32 \<le> (of_char c :: nat) \<and> (of_char c :: nat) < 128
          then map_option (\<lambda>(ns, t). (of_char c # ns, t)) (json_string r)
          else None)"
  by pat_completeness auto
termination by (relation "measure length") auto

declare json_string.simps [simp del]

lemma hex4_byte: "hex4 (''00'' @ to_hex [c]) = Some (of_char c)"
proof -
  have "of_char c div 16 < (16 :: nat)" "of_char c mod 16 < (16 :: nat)"
    using of_char_less [of c] by (simp_all add: less_mult_imp_div_less)
  then show ?thesis
    using hex_value_digit [of "of_char c div 16"] hex_value_digit [of "of_char c mod 16"] hex_value_digit [of 0]
    by (simp add: hex4_def to_hex_def hex_value_def)
qed

lemma json_string_escape: "json_string (escape_char c @ r) = map_option (\<lambda>(ns, t). (of_char c # ns, t)) (json_string r)"
proof -
  consider "c \<in> {CHR 0x22, CHR 0x5C, CHR 0x08, CHR 0x0C, CHR 0x0A, CHR 0x0D, CHR 0x09}"
    | (code) "c \<notin> {CHR 0x22, CHR 0x5C, CHR 0x08, CHR 0x0C, CHR 0x0A, CHR 0x0D, CHR 0x09}" "(of_char c :: nat) < 32 \<or> 128 \<le> (of_char c :: nat)"
    | (plain) "c \<notin> {CHR 0x22, CHR 0x5C, CHR 0x08, CHR 0x0C, CHR 0x0A, CHR 0x0D, CHR 0x09}" "32 \<le> (of_char c :: nat)" "(of_char c :: nat) < 128"
    by (meson not_le)
  then show ?thesis
  proof cases
    case 1
    then show ?thesis by (auto simp: escape_char_def simple_escape_def json_string.simps [of "_ # _"])
  next
    case code
    let ?w = "''00'' @ to_hex [c]"
    have e: "escape_char c @ r = CHR 0x5C # CHR ''u'' # ?w @ r" using code by (simp add: escape_char_def)
    have w: "take 4 (?w @ r) = ?w" "drop 4 (?w @ r) = r" by (simp_all add: to_hex_def)
    have "json_string (CHR 0x5C # CHR ''u'' # t) = (case hex4 (take 4 t) of None \<Rightarrow> None
        | Some n \<Rightarrow> map_option (\<lambda>(ns, t). (n # ns, t)) (json_string (drop 4 t)))" for t
      by (subst json_string.simps) simp
    from this [of "?w @ r"] show ?thesis unfolding e w hex4_byte by simp
  next
    case plain
    then show ?thesis by (simp add: escape_char_def json_string.simps [of "c # r"])
  qed
qed

text \<open>
  Every text printed between quotes with \<open>escape_json\<close> is a well-formed JSON string: the reader stops at the printed
  closing quote and gives one code point per byte of the text, equal to the byte. So nothing can break out of
  the string, and a UTF-8 sequence comes back as one character per byte.
\<close>

lemma escape_json_round_trip: "json_string (escape_json s @ CHR 0x22 # rest) = Some (map of_char s, rest)"
proof (induction s)
  case Nil
  then show ?case by (simp add: escape_json_def json_string.simps)
next
  case (Cons c s)
  then show ?case by (simp add: escape_json_def json_string_escape)
qed

section \<open>Image identifiers\<close>

text \<open>
  An image line as \<open>docker images --no-trunc\<close> prints it gives an identifier of which only the first five digits of the
  digest are kept, so images whose digests agree there are given the same identifier.
\<close>

lemma image_id_keeps_five_digits:
  assumes "CHR ''|'' \<notin> set digest"
  shows "ai_id (read_image W (''sha256:'' @ digest @ ''|'' @ rest)) = ''sha256:'' @ take 5 digest"
proof -
  have "getlines (CHR ''|'') (''sha256:'' @ digest @ ''|'' @ rest) =
     (''sha256:'' @ digest) # getlines (CHR ''|'') rest"
    using getlines_Cons [of "CHR ''|''" "''sha256:'' @ digest" rest] assms by simp
  then show ?thesis by (simp add: read_image_def Let_def field_def)
qed

lemma image_id_keeps_five_digits_example:
  "ai_id (read_image (\<lparr>sw_popen = \<lambda>_. None, sw_hostname = None, sw_walk = \<lambda>_. None, sw_read = \<lambda>_. None, sw_sha256 = id, sw_now = 0,
      sw_indeterminate = 0\<rparr>) ''sha256:0123456789|nginx|latest|1GB|now'') = ''sha256:01234''"
  using image_id_keeps_five_digits [of "''0123456789''" _ "''nginx|latest|1GB|now''"] by simp

section \<open>Services of a compose file\<close>

lemma text_after_None_append: "text_after p s = None \<Longrightarrow> p \<noteq> [] \<Longrightarrow> take (length p) s \<noteq> p"
  by (cases s) auto

lemma find_char_first: "c \<notin> set s \<Longrightarrow> find_char c (s @ c # t) = Some (length s)"
  by (induction s) (auto simp: find_char_def)

lemma trim_end_id: "s \<noteq> [] \<Longrightarrow> last s \<notin> set cs \<Longrightarrow> trim_end cs s = s"
  by (cases s rule: rev_cases) (simp_all add: trim_end_def)

text \<open>A key of a compose file at some depth: its indentation, its name and what follows the colon.\<close>

definition key_ok :: "nat \<times> string \<times> string \<Rightarrow> bool" where
  "key_ok e = (case e of (k, n, v) \<Rightarrow> n \<noteq> [] \<and> CHR '':'' \<notin> set n \<and> hd n \<notin> set line_blanks \<and> last n \<notin> set line_blanks \<and>
     text_after ''services:'' (replicate (k + 2) (CHR '' '') @ n @ '':'' @ v) = None)"

lemma service_of_key:
  assumes "key_ok (k, n, v)"
  shows "service_of_line (replicate (k + 2) (CHR '' '') @ n @ '':'' @ v) = n"
proof -
  let ?l = "replicate (k + 2) (CHR '' '') @ n"
  have n: "n \<noteq> []" "CHR '':'' \<notin> set n" "hd n \<notin> set line_blanks" "last n \<notin> set line_blanks" using assms by (simp_all add: key_ok_def)
  then have "find_char (CHR '':'') (?l @ CHR '':'' # v) = Some (length ?l)" by (intro find_char_first) auto
  moreover have "substr (?l @ CHR '':'' # v) 2 (length ?l - 2) = replicate k (CHR '' '') @ n" by (simp add: substr_def)
  moreover have "dropWhile (\<lambda>c. c \<in> set line_blanks) (replicate k (CHR '' '') @ n) = n"
    using n(1,3) by (induction k) (cases n; simp add: line_blanks_def)+
  ultimately show ?thesis using trim_end_id [OF n(1,4)] by (simp add: service_of_line_def)
qed

text \<open>
  The scanner takes every indented key below \<open>services:\<close> for a service, at whatever depth: \<open>image\<close>, \<open>ports\<close> or
  \<open>environment\<close> of a service are listed beside it.
\<close>

lemma nested_keys_become_services:
  assumes "list_all key_ok es"
  shows "scan_services False (''services:'' # map (\<lambda>(k, n, v). replicate (k + 2) (CHR '' '') @ n @ '':'' @ v) es) = map (\<lambda>(k, n, v). n) es"
proof -
  have "scan_services True (map (\<lambda>(k, n, v). replicate (k + 2) (CHR '' '') @ n @ '':'' @ v) es) = map (\<lambda>(k, n, v). n) es"
    using assms
  proof (induction es)
    case (Cons e es)
    obtain k n v where e: "e = (k, n, v)" by (cases e)
    then have ok: "key_ok (k, n, v)" using Cons.prems by simp
    then have "text_after ''services:'' (replicate (k + 2) (CHR '' '') @ n @ '':'' @ v) = None" "n \<noteq> []" by (simp_all add: key_ok_def)
    then show ?case using Cons service_of_key [OF ok] unfolding e
      by (simp add: line_blanks_def numeral_2_eq_2)
  qed simp
  then show ?thesis by simp
qed

lemma nested_keys_become_services_example:
  "scan_services False [''services:'', ''  web:'', ''    image: nginx''] = [''web'', ''image'']"
proof -
  have "list_all key_ok [(0, ''web'', []), (2, ''image'', '' nginx'')]" by (simp add: key_ok_def line_blanks_def numeral_2_eq_2)
  from nested_keys_become_services [OF this] show ?thesis by (simp add: numeral_2_eq_2)
qed

end
