(* ===== verification/Agent_Cache.thy ===== *)
theory Agent_Cache
  imports Agent_Store Agent_Scan_Facts
begin

text \<open>
  The scanner and the cache together: what a scan leaves in the local database, and what the clean-up removes.
\<close>

section \<open>Images\<close>

definition nul_less :: "string \<Rightarrow> bool" where
  "nul_less s \<longleftrightarrow> CHR 0x00 \<notin> set s"

lemma image_row:
  "not_null_ok cached_images_table (new_cells cached_images_table (image_cells t i))"
  "cell (new_cells cached_images_table (image_cells t i)) ''image_id'' = VText (c_string (ai_id i))"
  by (simp_all add: not_null_ok_def new_cells_def cached_images_table_def column_defs image_cells_def cell_def)

lemma cached_images_in: "cached_images_table \<in> set agent_schema" "tname cached_images_table = ''cached_images''"
  "uniques cached_images_table = [[''image_id'']]"
  by (simp_all add: agent_schema_def cached_images_table_def)

lemma stored_images:
  assumes ok: "store_ok s" and empty: "agent_rows ''cached_images'' s = []"
    and room: "seq (tabs (ls_conn s) ''cached_images'') + int (length xs) < max_rowid"
  shows "length (get_cached_images (store_images xs t s)) = card ((\<lambda>i. c_string (ai_id i)) ` set xs)"
proof -
  let ?s = "store_images xs t s" and ?key = "\<lambda>r. cell (snd r) ''image_id''"
  have e: "store_ok ?s" "distinct (map ?key (agent_rows ''cached_images'' ?s))"
    "\<And>kv. map_of (map (\<lambda>r. (?key r, snd r)) (agent_rows ''cached_images'' ?s)) kv =
       map_option (\<lambda>x. new_cells cached_images_table (image_cells t x))
         (find (\<lambda>x. cell (new_cells cached_images_table (image_cells t x)) ''image_id'' = kv) (rev xs))"
    using store_rows_effect [where vs = "image_cells t", OF ok cached_images_in image_row(1) _ room empty] unfolding store_images_def by (auto simp: image_row(2))
  have keys: "set (map ?key (agent_rows ''cached_images'' ?s)) = VText ` (\<lambda>i. c_string (ai_id i)) ` set xs"
  proof (rule set_eqI)
    fix kv
    have "kv \<in> set (map ?key (agent_rows ''cached_images'' ?s)) \<longleftrightarrow>
        map_of (map (\<lambda>r. (?key r, snd r)) (agent_rows ''cached_images'' ?s)) kv \<noteq> None"
      by (simp add: map_of_eq_None_iff image_image)
    also have "\<dots> \<longleftrightarrow> (\<exists>x\<in>set xs. VText (c_string (ai_id x)) = kv)" unfolding e(3) image_row(2) by (auto simp: find_None_iff)
    also have "\<dots> \<longleftrightarrow> kv \<in> (\<lambda>x. VText (c_string (ai_id x))) ` set xs" by auto
    finally show "kv \<in> set (map ?key (agent_rows ''cached_images'' ?s)) \<longleftrightarrow> kv \<in> VText ` (\<lambda>i. c_string (ai_id i)) ` set xs"
      unfolding image_image .
  qed
  have "length (get_cached_images ?s) = length (select ''cached_images'' (\<lambda>_. True) (ls_conn ?s))"
    by (simp add: get_cached_images_def)
  also have "mset (select ''cached_images'' (\<lambda>_. True) (ls_conn ?s)) = mset (agent_rows ''cached_images'' ?s)"
    using e(1) by (simp add: store_ok_def mset_select agent_rows_def)
  then have "length (select ''cached_images'' (\<lambda>_. True) (ls_conn ?s)) = length (agent_rows ''cached_images'' ?s)" by (rule mset_eq_length)
  also have "\<dots> = card (set (map ?key (agent_rows ''cached_images'' ?s)))" using distinct_card [OF e(2)] by simp
  also have "\<dots> = card ((\<lambda>i. c_string (ai_id i)) ` set xs)" unfolding keys by (rule card_image) (simp add: inj_on_def)
  finally show ?thesis .
qed

text \<open>
  What a scan keeps of the images: the identifier read from \<open>docker images --no-trunc\<close> has only the first five digits of the
  digest, and the cache holds one row per identifier. So the number of cached images is the number of different
  five-digit beginnings, whatever the number of images and of tags.
\<close>

lemma images_cached_by_five_digits:
  assumes "store_ok s" "agent_rows ''cached_images'' s = []"
    and "seq (tabs (ls_conn s) ''cached_images'') + int (length ls) < max_rowid"
    and "list_all (\<lambda>(digest, rest). CHR ''|'' \<notin> set digest \<and> nul_less digest) ls"
  shows "length (get_cached_images (store_images (map (\<lambda>(digest, rest). read_image W (''sha256:'' @ digest @ ''|'' @ rest)) ls) t s)) =
     card ((\<lambda>(digest, rest). take 5 digest) ` set ls)"
proof -
  let ?img = "\<lambda>(digest, rest). read_image W (''sha256:'' @ digest @ ''|'' @ rest)"
  have "c_string (ai_id (?img l)) = ''sha256:'' @ (case l of (digest, rest) \<Rightarrow> take 5 digest)" if "l \<in> set ls" for l
  proof -
    obtain g r where l: "l = (g, r)" by (cases l)
    then have g: "CHR ''|'' \<notin> set g" "nul_less g" using assms(4) that by (auto simp: list_all_iff)
    have "CHR 0x00 \<notin> set (''sha256:'' @ take 5 g)" using g(2) set_take_subset [of 5 g] by (auto simp: nul_less_def)
    then show ?thesis using image_id_keeps_five_digits [OF g(1), of W r] l by (simp add: c_string_id)
  qed
  then have "(\<lambda>i. c_string (ai_id i)) ` set (map ?img ls) = (\<lambda>x. ''sha256:'' @ x) ` (\<lambda>(digest, rest). take 5 digest) ` set ls"
    unfolding set_map image_image by (rule image_cong [OF refl])
  moreover have "card ((\<lambda>x. ''sha256:'' @ x) ` X) = card X" for X :: "string set" by (rule card_image) (simp add: inj_on_def)
  ultimately show ?thesis using stored_images [OF assms(1,2), of "map ?img ls" t] assms(3) by simp
qed

definition demo_scan :: scan_world where
  "demo_scan = \<lparr>sw_popen = \<lambda>_. None, sw_hostname = None, sw_walk = \<lambda>_. None, sw_read = \<lambda>_. None, sw_sha256 = id, sw_now = 0,
     sw_indeterminate = 0\<rparr>"

definition demo_store :: local_store where
  "demo_store = fst (initialize True 5 \<lparr>ls_conn = fresh_db, ls_version = 0\<rparr>)"

lemma demo_store_ok: "store_ok demo_store"
proof -
  have "db_ok agent_schema (tabs (ls_conn demo_store))" by code_simp
  moreover have "db_open (ls_conn demo_store)" "visit (ls_conn demo_store) = (\<lambda>_ rs. rs)" "io_fails (ls_conn demo_store) = (\<lambda>_. False)"
    by (simp_all add: demo_store_def initialize_def run_migrations_def fresh_db_def)
  ultimately show ?thesis by (simp add: store_ok_def conn_ok_def visits_all_def)
qed

lemma demo_store_values:
  "agent_rows ''cached_images'' demo_store = []" "seq (tabs (ls_conn demo_store) ''cached_images'') = 0"
  "seq (tabs (ls_conn demo_store) ''agent_config'') = 3" "get_config ''last_scan'' [] demo_store = ''0''"
  by code_simp+

lemma images_cached_by_five_digits_example:
  "length (get_cached_images (store_images [read_image demo_scan ''sha256:01234aaaa|nginx|1'', read_image demo_scan ''sha256:01234bbbb|redis|7'']
     9 demo_store)) = 1"
  using images_cached_by_five_digits [OF demo_store_ok demo_store_values(1), of "[(''01234aaaa'', ''nginx|1''), (''01234bbbb'', ''redis|7'')]" demo_scan 9]
  by (simp add: demo_store_values(2) max_rowid_def nul_less_def)

section \<open>Scans\<close>

lemma setting_row:
  "not_null_ok agent_config_table (new_cells agent_config_table (setting_values now k v))"
  "cell (new_cells agent_config_table (setting_values now k v)) ''key'' = VText (c_string k)"
  "cell (new_cells agent_config_table (setting_values now k v)) ''value'' = VText (c_string v)"
  by (simp_all add: not_null_ok_def new_cells_def agent_config_table_def column_defs setting_values_def cell_def)

lemma config_table_in: "agent_config_table \<in> set agent_schema" "tname agent_config_table = ''agent_config''"
  "uniques agent_config_table = [[''key'']]"
  by (simp_all add: agent_schema_def agent_config_table_def)

lemma get_set_config:
  assumes ok: "store_ok s" and room: "seq (tabs (ls_conn s) ''agent_config'') < max_rowid"
  shows "get_config key d (set_config now key v s) = c_string v"
proof -
  let ?q = "Replace ''agent_config'' (setting_values now key v)" and ?t = "''agent_config''"
  let ?s = "fst (run_agent ?q s)"
  have ok': "store_ok ?s" by (rule run_agent_ok [OF ok])
  note r = run_replace [where vs = "setting_values now key v", OF ok config_table_in setting_row(1) _ room, unfolded setting_row(2), simplified]
  let ?new = "(seq (tabs (ls_conn s) ?t) + 1, new_cells agent_config_table (setting_values now key v))"
  have "set (select ?t (eq_text ''key'' key) (ls_conn ?s)) = {?new}"
    using ok' r(1) by (auto simp: store_ok_def set_select agent_rows_def val_def setting_row(2))
  then obtain rest where "select ?t (eq_text ''key'' key) (ls_conn ?s) = ?new # rest"
    by (cases "select ?t (eq_text ''key'' key) (ls_conn ?s)") auto
  then show ?thesis by (simp add: get_config_def set_config_def row_get_def val_def setting_row(3))
qed

text \<open>
  A recorded scan is the last scan: whatever was recorded before, the time given to \<open>record_scan\<close> is the one
  \<open>get_last_scan_time\<close> returns, for every \<open>int64_t\<close> value.
\<close>

lemma recorded_scan_is_last:
  assumes "store_ok s" "seq (tabs (ls_conn s) ''agent_config'') < max_rowid" "- (2 ^ 63) \<le> t" "t < 2 ^ 63"
  shows "get_last_scan_time (record_scan now t containers images networks volumes files s) = Some t"
proof -
  let ?q = "Insert ''scan_history'' [(''scan_timestamp'', bind_int t), (''containers_count'', bind_int containers),
     (''images_count'', bind_int images), (''networks_count'', bind_int networks), (''volumes_count'', bind_int volumes),
     (''compose_files_count'', bind_int files)]"
  let ?s = "fst (run_agent ?q s)"
  have ok: "store_ok ?s" by (rule run_agent_ok [OF assms(1)])
  have "seq (tabs (ls_conn ?s) ''agent_config'') = seq (tabs (ls_conn s) ''agent_config'')"
    by (simp add: run_agent_def db_execute_def Let_def find_def_def agent_schema_def agent_tables sql_insert_def append_row_def
        split: option.splits prod.splits)
  then have "get_config ''last_scan'' ''0'' (update_last_scan_time now t ?s) = c_string (to_string t)"
    unfolding update_last_scan_time_def using assms(2) by (intro get_set_config [OF ok]) simp
  then show ?thesis
    using assms(3,4) by (simp add: get_last_scan_time_def record_scan_def c_string_id nul_not_in_to_string stoll_to_string)
qed

lemma recorded_scan_is_last_example: "get_last_scan_time (record_scan 7 1700000000 3 2 1 0 1 demo_store) = Some 1700000000"
  using recorded_scan_is_last [OF demo_store_ok, of 1700000000 7 3 2 1 0 1] by (simp add: demo_store_values(3) max_rowid_def)

section \<open>Clean-up\<close>

lemma cache_tables_defs:
  "tb \<in> set cache_tables \<Longrightarrow> \<exists>d\<in>set agent_schema. tname d = tb"
  by (auto simp: cache_tables_def agent_schema_def agent_tables)

lemma run_delete:
  assumes "store_ok s" "tb \<in> set cache_tables"
  shows "tabs (ls_conn (fst (run_agent (Delete tb p) s))) =
     (tabs (ls_conn s))(tb := (tabs (ls_conn s) tb)\<lparr>trows := filter (\<lambda>r. \<not> p r) (agent_rows tb s)\<rparr>)"
proof -
  from cache_tables_defs [OF assms(2)] obtain d where d: "d \<in> set agent_schema" "tname d = tb" by blast
  have "find_def agent_schema tb = Some d" using d by (simp add: find_def_iff [OF agent_schema_ok])
  then have "run_stmt agent_schema (Delete tb p) (tabs (ls_conn s)) = Some ((tabs (ls_conn s))(tb := (tabs (ls_conn s) tb)\<lparr>trows :=
      filter (\<lambda>r. \<not> p r) (agent_rows tb s)\<rparr>), None)"
    using sql_delete_unreferenced [OF agent_schema_ok d(1) _ agent_unreferenced] assms(1) d(2)
    by (simp add: store_ok_def conn_ok_def agent_rows_def)
  from run_agent_done [OF assms(1) this] show ?thesis .
qed

text \<open>
  The clean-up removes exactly what is old: in each of the five cache tables the rows last seen before the given time
  go and all others stay, and no other table changes.
\<close>

lemma cleanup_removes_old:
  assumes "store_ok s"
  shows "agent_rows tb (cleanup_old_data t s) =
     (if tb \<in> set cache_tables then filter (\<lambda>r. \<not> seen_before t r) (agent_rows tb s) else agent_rows tb s)"
proof -
  have "store_ok (fold (\<lambda>tb s. fst (run_agent (Delete tb (seen_before t)) s)) ts s) \<and>
    agent_rows tb (fold (\<lambda>tb s. fst (run_agent (Delete tb (seen_before t)) s)) ts s) =
      (if tb \<in> set ts then filter (\<lambda>r. \<not> seen_before t r) (agent_rows tb s) else agent_rows tb s)"
    if "set ts \<subseteq> set cache_tables" "store_ok s" for ts s
    using that
  proof (induction ts arbitrary: s)
    case (Cons u ts)
    let ?s = "fst (run_agent (Delete u (seen_before t)) s)"
    have "store_ok ?s" by (rule run_agent_ok [OF Cons.prems(2)])
    moreover have "agent_rows tb ?s = (if tb = u then filter (\<lambda>r. \<not> seen_before t r) (agent_rows tb s) else agent_rows tb s)"
      using run_delete [OF Cons.prems(2), of u] Cons.prems(1) by (simp add: agent_rows_def)
    ultimately show ?case using Cons.IH [of ?s] Cons.prems(1) by auto
  qed simp
  from this [of cache_tables s] assms show ?thesis by (simp add: cleanup_old_data_def)
qed

lemma cleanup_removes_old_example: "agent_rows ''agent_config'' (cleanup_old_data 100 demo_store) = agent_rows ''agent_config'' demo_store"
  using cleanup_removes_old [OF demo_store_ok, of "''agent_config''" 100] by (simp add: cache_tables_def)

end
