(* ===== verification/Agent_Runtime.thy ===== *)
theory Agent_Runtime
  imports Agent_Protocol Agent_Store System_Process
begin

text \<open>
  The agent process (\<open>src/modules/agent/src/runtime.cpp\<close>): starting and stopping, the loop over controller
  connections, the messages it answers, the scripts it runs and the scans it caches. A connection is the list of the
  pieces its \<open>recv\<close> calls find; an empty piece, like the end of the list, is the end of the stream or an error.
  Each request is handled in a world of its own: the clock and the \<open>docker\<close> commands of the scanner, and the
  calls a script run makes.
\<close>

section \<open>Receiving\<close>

definition recv :: "nat \<Rightarrow> byte list list \<Rightarrow> (byte list \<times> byte list list) option" where
  "recv n cs =
     (case cs of
        [] \<Rightarrow> None
      | c # rest \<Rightarrow> if c = [] then None else Some (take n c, if n < length c then drop n c # rest else rest))"

definition pending :: "byte list list \<Rightarrow> nat" where
  "pending cs = length (concat cs)"

lemma recv_nonempty: "recv n cs = Some (d, cs') \<Longrightarrow> 0 < n \<Longrightarrow> d \<noteq> [] \<and> length d \<le> n"
  by (cases cs) (auto simp: recv_def split: if_splits)

lemma recv_concat: "recv n cs = Some (d, cs') \<Longrightarrow> d @ concat cs' = concat cs"
  by (cases cs) (auto simp: recv_def split: if_splits)

text \<open>The loop around \<open>recv\<close> that fills a buffer of a given size.\<close>

function read_exact :: "nat \<Rightarrow> byte list list \<Rightarrow> (byte list \<times> byte list list) option" where
  "read_exact n cs =
     (if n = 0 then Some ([], cs)
      else (case recv n cs of
          None \<Rightarrow> None
        | Some (d, cs') \<Rightarrow> (case read_exact (n - length d) cs' of None \<Rightarrow> None | Some (r, cs'') \<Rightarrow> Some (d @ r, cs''))))"
  by pat_completeness auto
termination
  by (relation "measure fst") (use recv_nonempty in \<open>fastforce+\<close>)

declare read_exact.simps [simp del]

definition MAX_PAYLOAD_SIZE :: nat where
  "MAX_PAYLOAD_SIZE = 16 * 1024 * 1024"

definition read_message :: "byte list list \<Rightarrow> ((header \<times> string) \<times> byte list list) option" where
  "read_message cs =
     (case read_exact sizeof_header cs of
        None \<Rightarrow> None
      | Some (hb, cs') \<Rightarrow>
          let h = read_header hb; n = unat (hd_payload_size h) in
          if n = 0 then Some ((h, []), cs')
          else if MAX_PAYLOAD_SIZE < n then None
          else (case read_exact n cs' of None \<Rightarrow> None | Some (p, cs'') \<Rightarrow> Some ((h, map byte_char p), cs'')))"

lemma read_exact_concat: "read_exact n cs = Some (d, cs') \<Longrightarrow> d @ concat cs' = concat cs \<and> length d = n"
proof (induction n cs arbitrary: d cs' rule: read_exact.induct)
  case (1 n cs)
  show ?case
  proof (cases "n = 0")
    case True
    then show ?thesis using 1(2) by (simp add: read_exact.simps)
  next
    case False
    from 1(2) False obtain e c1 r where e: "recv n cs = Some (e, c1)" and r: "read_exact (n - length e) c1 = Some (r, cs')"
      and d: "d = e @ r"
      by (subst (asm) read_exact.simps) (auto split: option.splits)
    have "r @ concat cs' = concat c1 \<and> length r = n - length e" using 1(1) [OF False e refl r] .
    then show ?thesis using recv_concat [OF e] recv_nonempty [OF e] False d by auto
  qed
qed

lemma read_exact_pending: "read_exact n cs = Some (d, cs') \<Longrightarrow> pending cs = n + pending cs'"
  unfolding pending_def by (metis length_append read_exact_concat)

lemma read_message_pending: "read_message cs = Some (m, cs') \<Longrightarrow> pending cs' < pending cs"
proof -
  assume a: "read_message cs = Some (m, cs')"
  then obtain hb c1 where h: "read_exact sizeof_header cs = Some (hb, c1)"
    by (auto simp: read_message_def split: option.splits)
  have "pending cs' \<le> pending c1"
  proof (cases "unat (hd_payload_size (read_header hb)) = 0")
    case True
    then show ?thesis using a h by (simp add: read_message_def)
  next
    case False
    then obtain p where "read_exact (unat (hd_payload_size (read_header hb))) c1 = Some (p, cs')"
      using a h by (auto simp: read_message_def Let_def split: option.splits if_splits)
    from read_exact_pending [OF this] show ?thesis by simp
  qed
  then show ?thesis using read_exact_pending [OF h] by (simp add: sizeof_header_def)
qed

section \<open>Scripts\<close>

type_synonym files = "string \<rightharpoonup> string"

record request_world =
  rw_scan :: scan_world
  rw_padding :: "byte list"
  rw_mkstemp :: "string + string"
  rw_written :: "nat option"
  rw_popen :: "string \<Rightarrow> files \<Rightarrow> ((string list \<times> int) \<times> files) option"
  rw_error :: string

text \<open>
  \<open>run_script\<close> over the files: \<open>rw_mkstemp\<close> creates an empty file or fails, \<open>rw_written\<close> is what \<open>write\<close> returns
  (\<^const>\<open>None\<close> for -1), \<open>rw_popen\<close> the pieces \<open>fgets\<close> delivers and the status of \<open>pclose\<close>.
\<close>

definition run_script :: "request_world \<Rightarrow> string \<Rightarrow> files \<Rightarrow> (int \<times> string) \<times> files" where
  "run_script W script fs =
     (case rw_mkstemp W of
        Inl e \<Rightarrow> ((- 1, ''mkstemp failed: '' @ e), fs)
      | Inr tmp_path \<Rightarrow>
          (case rw_written W of
             None \<Rightarrow> ((- 1, ''write failed: '' @ rw_error W), (fs(tmp_path \<mapsto> []))(tmp_path := None))
           | Some written \<Rightarrow>
               let fs1 = fs(tmp_path \<mapsto> take written script) in
               if written \<noteq> length script then ((- 1, ''write failed: '' @ rw_error W), fs1(tmp_path := None))
               else (case rw_popen W (''bash '' @ tmp_path @ '' 2>&1'') fs1 of
                   None \<Rightarrow> ((- 1, ''popen failed: '' @ rw_error W), fs1(tmp_path := None))
                 | Some ((chunks, status), fs2) \<Rightarrow>
                     ((if WIFEXITED status then WEXITSTATUS status else - 1, concat (map c_string chunks)),
                      fs2(tmp_path := None)))))"

section \<open>Options and registration\<close>

record agent_options =
  ao_bind_address :: string
  ao_port :: "16 word"
  ao_verbose :: bool
  ao_server_label :: string
  ao_db_path :: string
  ao_scan_interval_seconds :: int
  ao_enable_docker_monitoring :: bool
  ao_auth_token :: string

definition default_options :: agent_options where
  "default_options = \<lparr>ao_bind_address = ''127.0.0.1'', ao_port = 7070, ao_verbose = False, ao_server_label = ''unknown'',
     ao_db_path = ''/var/lib/nazg-agent/agent.db'', ao_scan_interval_seconds = 60, ao_enable_docker_monitoring = True,
     ao_auth_token = []\<rparr>"

definition plain_member :: "string \<Rightarrow> string \<Rightarrow> string \<Rightarrow> string" where
  "plain_member indent k v = indent @ [CHR 0x22] @ k @ [CHR 0x22] @ '': '' @ [CHR 0x22] @ v @ [CHR 0x22]"

definition capabilities_json :: "scan_world \<Rightarrow> system_info \<Rightarrow> string" where
  "capabilities_json W si = ''['' @ join_with '', ''
     ((if is_docker_available W then [[CHR 0x22] @ ''docker'' @ [CHR 0x22]] else []) @
      (if si_compose_version si \<noteq> [] then [[CHR 0x22] @ ''compose'' @ [CHR 0x22]] else [])) @ '']''"

definition build_registration_response :: "agent_options \<Rightarrow> scan_world \<Rightarrow> string" where
  "build_registration_response opts W =
     ''{'' @ [nl] @
     plain_member ''  '' ''server_label'' (ao_server_label opts) @ '','' @ [nl] @
     plain_member ''  '' ''agent_version'' ''0.1.0'' @ '','' @ [nl] @
     (if ao_enable_docker_monitoring opts then
        (let sys_info = get_system_info W in
         plain_member ''  '' ''hostname'' (si_hostname sys_info) @ '','' @ [nl] @
         ''  '' @ [CHR 0x22] @ ''system_info'' @ [CHR 0x22] @ '': {'' @ [nl] @
         plain_member ''    '' ''os'' (si_os sys_info) @ '','' @ [nl] @
         plain_member ''    '' ''arch'' (si_arch sys_info) @ '','' @ [nl] @
         plain_member ''    '' ''docker_version'' (si_docker_version sys_info) @ '','' @ [nl] @
         plain_member ''    '' ''compose_version'' (si_compose_version sys_info) @ [nl] @
         ''  },'' @ [nl] @
         ''  '' @ [CHR 0x22] @ ''capabilities'' @ [CHR 0x22] @ '': '' @ capabilities_json W sys_info @ [nl])
      else
        plain_member ''  '' ''hostname'' ''unknown'' @ '','' @ [nl] @
        ''  '' @ [CHR 0x22] @ ''capabilities'' @ [CHR 0x22] @ '': []'' @ [nl]) @
     ''}'' @ [nl]"

section \<open>A connection\<close>

datatype agent_event = RanScript string | Packet "byte list"

definition send_packet :: "request_world \<Rightarrow> message_type \<Rightarrow> string \<Rightarrow> agent_event" where
  "send_packet W t body = Packet (encode (rw_padding W) \<lparr>hd_type = type_code t, hd_payload_size = 0\<rparr> body)"

text \<open>One round of the message loop: what the message of the given type makes the agent do.\<close>

definition respond :: "agent_options \<Rightarrow> request_world \<Rightarrow> header \<Rightarrow> string \<Rightarrow> files \<Rightarrow> agent_event list \<times> files" where
  "respond opts W h payload fs =
     (if hd_type h = type_code RunCommand then
        (case run_script W payload fs of
           ((exit_code, output), fs') \<Rightarrow> ([RanScript payload, send_packet W Result (to_string exit_code @ [nl] @ output)], fs'))
      else if hd_type h = type_code DockerFullScan then
        ([if ao_enable_docker_monitoring opts
          then send_packet W DockerFullScan (generate_full_scan_json (rw_scan W) (ao_server_label opts))
          else send_packet W Error ''Docker monitoring not enabled''], fs)
      else if hd_type h = type_code Register then
        ([send_packet W RegisterAck (build_registration_response opts (rw_scan W))], fs)
      else if hd_type h = type_code Heartbeat then ([send_packet W Heartbeat ''ok''], fs)
      else if hd_type h = type_code Hello then ([send_packet W HelloAck ''nazg-agent/0.1''], fs)
      else ([send_packet W Error ''unsupported message''], fs))"

function serve :: "agent_options \<Rightarrow> (nat \<Rightarrow> request_world) \<Rightarrow> nat \<Rightarrow> byte list list \<Rightarrow> files \<Rightarrow> agent_event list \<times> files" where
  "serve opts Ws k cs fs =
     (case read_message cs of
        None \<Rightarrow> ([], fs)
      | Some ((h, payload), cs') \<Rightarrow>
          (case respond opts (Ws k) h payload fs of
             (es, fs') \<Rightarrow> (case serve opts Ws (Suc k) cs' fs' of (es', fs'') \<Rightarrow> (es @ es', fs''))))"
  by pat_completeness auto
termination
  by (relation "measure (\<lambda>(_, _, _, cs, _). pending cs)") (auto intro: read_message_pending)

declare serve.simps [simp del]

definition expected_prefix :: string where
  "expected_prefix = ''nazg-controller:''"

definition authenticated :: "agent_options \<Rightarrow> string \<Rightarrow> bool" where
  "authenticated opts payload \<longleftrightarrow>
     ao_auth_token opts = [] \<or>
     \<not> (length payload \<le> length expected_prefix \<or> take (length expected_prefix) payload \<noteq> expected_prefix \<or>
        drop (length expected_prefix) payload \<noteq> ao_auth_token opts)"

definition handle_client :: "agent_options \<Rightarrow> (nat \<Rightarrow> request_world) \<Rightarrow> byte list list \<Rightarrow> files \<Rightarrow> agent_event list \<times> files" where
  "handle_client opts Ws cs fs =
     (case read_message cs of
        None \<Rightarrow> ([], fs)
      | Some ((h, payload), cs') \<Rightarrow>
          if hd_type h \<noteq> type_code Hello then ([], fs)
          else if \<not> authenticated opts payload then ([send_packet (Ws 0) Error ''authentication failed''], fs)
          else (case serve opts Ws 1 cs' fs of
              (es, fs') \<Rightarrow> (send_packet (Ws 0) HelloAck ''nazg-agent/0.1'' # es, fs')))"

text \<open>Connections are served one after another; \<^const>\<open>None\<close> is an \<open>accept\<close> that failed.\<close>

fun accept_loop :: "agent_options \<Rightarrow> ((nat \<Rightarrow> request_world) \<times> byte list list) option list \<Rightarrow> files \<Rightarrow> agent_event list list \<times> files" where
  "accept_loop opts [] fs = ([], fs)"
| "accept_loop opts (None # rest) fs = accept_loop opts rest fs"
| "accept_loop opts (Some (Ws, cs) # rest) fs =
     (case handle_client opts Ws cs fs of
        (es, fs') \<Rightarrow> (case accept_loop opts rest fs' of (ess, fs'') \<Rightarrow> (es # ess, fs'')))"

section \<open>Scans\<close>

text \<open>The clock stands still during one scan. Without a scanner or a store nothing happens.\<close>

definition perform_docker_scan :: "agent_options \<Rightarrow> scan_world \<Rightarrow> local_store option \<Rightarrow> local_store option" where
  "perform_docker_scan opts W st =
     (case st of
        None \<Rightarrow> None
      | Some s \<Rightarrow>
          if \<not> ao_enable_docker_monitoring opts \<or> \<not> is_docker_available W then Some s
          else
            let scan_time = sw_now W;
                containers = list_containers W;
                s1 = store_containers containers scan_time s;
                images = list_images W;
                s2 = store_images images scan_time s1;
                networks = list_networks W;
                s3 = store_networks networks scan_time s2;
                volumes = list_volumes W;
                s4 = store_volumes volumes scan_time s3;
                compose_files = discover_compose_files W default_search_paths;
                s5 = store_compose_files compose_files scan_time s4
            in Some (record_scan (sw_now W) scan_time (int (length containers)) (int (length images))
                 (int (length networks)) (int (length volumes)) (int (length compose_files)) s5))"

text \<open>The scanner thread: one scan per round until \<open>stop\<close> ends the rounds.\<close>

definition scanner_loop :: "agent_options \<Rightarrow> scan_world list \<Rightarrow> local_store option \<Rightarrow> local_store option" where
  "scanner_loop opts Ws st = fold (perform_docker_scan opts) Ws st"

section \<open>Starting and stopping\<close>

record start_world =
  st_directory :: "string \<Rightarrow> bool"
  st_database :: "string \<Rightarrow> local_store option"
  st_script_ok :: bool
  st_now :: int
  st_socket :: int
  st_address_ok :: "string \<Rightarrow> bool"
  st_bind_ok :: bool
  st_listen_ok :: bool
  st_actual_port :: "16 word option"

record runtime =
  rt_opts :: agent_options
  rt_listen_fd :: int
  rt_port :: "16 word"
  rt_running :: bool
  rt_accept_thread :: bool
  rt_scanner_thread :: bool
  rt_store :: "local_store option"

definition new_runtime :: "agent_options \<Rightarrow> runtime" where
  "new_runtime opts = \<lparr>rt_opts = opts, rt_listen_fd = - 1, rt_port = 0, rt_running = False, rt_accept_thread = False,
     rt_scanner_thread = False, rt_store = None\<rparr>"

text \<open>\<open>find_last_of\<close> over slash and backslash; without either, \<open>npos\<close> keeps the whole path.\<close>

definition database_directory :: "string \<Rightarrow> string" where
  "database_directory path =
     (case dropWhile (\<lambda>c. c \<noteq> CHR ''/'' \<and> c \<noteq> CHR 0x5C) (rev path) of [] \<Rightarrow> path | _ # r \<Rightarrow> rev r)"

text \<open>
  \<open>st_directory\<close> says whether the directory is there or could be made, \<open>st_database\<close> is the connection
  to the database file.
\<close>

definition init_database :: "start_world \<Rightarrow> runtime \<Rightarrow> runtime \<times> bool" where
  "init_database W r =
     (let path = ao_db_path (rt_opts r) in
      if \<not> st_directory W (database_directory path) then (r, False)
      else (case st_database W path of
          None \<Rightarrow> (r\<lparr>rt_store := None\<rparr>, False)
        | Some s \<Rightarrow>
            (case initialize (st_script_ok W) (st_now W) s of
               (s', ok) \<Rightarrow>
                 if \<not> ok then (r\<lparr>rt_store := Some s'\<rparr>, False)
                 else (r\<lparr>rt_store := Some (set_server_label (st_now W) (ao_server_label (rt_opts r)) s')\<rparr>, True))))"

definition bind_socket :: "start_world \<Rightarrow> runtime \<Rightarrow> runtime \<times> bool" where
  "bind_socket W r =
     (if st_socket W < 0 then (r\<lparr>rt_listen_fd := st_socket W\<rparr>, False)
      else if \<not> st_address_ok W (ao_bind_address (rt_opts r)) \<or> \<not> st_bind_ok W \<or> \<not> st_listen_ok W
        then (r\<lparr>rt_listen_fd := - 1\<rparr>, False)
      else (r\<lparr>rt_listen_fd := st_socket W,
              rt_port := (case st_actual_port W of None \<Rightarrow> rt_port r | Some p \<Rightarrow> p)\<rparr>, True))"

definition start :: "start_world \<Rightarrow> runtime \<Rightarrow> runtime \<times> bool" where
  "start W r =
     (if rt_running r then (r, True)
      else
        let r1 = r\<lparr>rt_port := ao_port (rt_opts r)\<rparr>;
            monitoring = ao_enable_docker_monitoring (rt_opts r)
        in case (if monitoring then init_database W r1 else (r1, True)) of
             (r2, ready) \<Rightarrow>
               if \<not> ready then (r2, False)
               else (case bind_socket W r2 of
                   (r3, bound) \<Rightarrow>
                     if \<not> bound then (r3\<lparr>rt_port := 0\<rparr>, False)
                     else (r3\<lparr>rt_running := True, rt_accept_thread := True,
                             rt_scanner_thread := (rt_scanner_thread r3 \<or> monitoring)\<rparr>, True)))"

text \<open>The joined thread objects stay, they are just no longer running.\<close>

definition stop :: "runtime \<Rightarrow> runtime" where
  "stop r = (if \<not> rt_running r then r
     else r\<lparr>rt_running := False, rt_listen_fd := - 1, rt_port := 0, rt_accept_thread := False, rt_scanner_thread := False\<rparr>)"

end
