(* ===== verification/Agent_Session.thy ===== *)
theory Agent_Session
  imports Agent_Runtime
begin

text \<open>
  The agent's connections seen as messages: how the stream is cut into pieces does not matter, a session over bytes is
  the session over messages it encodes, and nothing runs before the token was seen.
\<close>

section \<open>Streams\<close>

definition pieces_ok :: "byte list list \<Rightarrow> bool" where
  "pieces_ok cs \<longleftrightarrow> [] \<notin> set cs"

lemma pieces_ok_simps [simp]: "pieces_ok []" "pieces_ok (c # cs) \<longleftrightarrow> c \<noteq> [] \<and> pieces_ok cs"
  by (auto simp: pieces_ok_def)

lemma recv_pieces:
  assumes "pieces_ok cs" "0 < n" "concat cs \<noteq> []"
  shows "\<exists>d cs'. recv n cs = Some (d, cs') \<and> pieces_ok cs' \<and> d @ concat cs' = concat cs \<and> d \<noteq> [] \<and> length d \<le> n"
proof (cases cs)
  case Nil
  then show ?thesis using assms(3) by simp
next
  case (Cons c r)
  then obtain d cs' where d: "recv n cs = Some (d, cs')" "pieces_ok cs'" using assms(1) by (auto simp: recv_def)
  then show ?thesis using recv_concat [OF d(1)] recv_nonempty [OF d(1) assms(2)] by blast
qed

text \<open>What the buffer loop does on a stream: it takes the first \<open>n\<close> bytes, or fails when there are fewer.\<close>

lemma read_exact_stream:
  assumes "pieces_ok cs"
  shows "case read_exact n cs of
      None \<Rightarrow> pending cs < n
    | Some (d, cs') \<Rightarrow> n \<le> pending cs \<and> d = take n (concat cs) \<and> concat cs' = drop n (concat cs) \<and> pieces_ok cs'"
  using assms
proof (induction n cs rule: read_exact.induct)
  case (1 n cs)
  show ?case
  proof (cases "n = 0")
    case True
    then show ?thesis using 1(2) by (simp add: read_exact.simps)
  next
    case False
    show ?thesis
    proof (cases "concat cs = []")
      case True
      then have "recv n cs = None" using 1(2) by (cases cs) (auto simp: recv_def)
      moreover have "pending cs = 0" unfolding pending_def True by simp
      ultimately show ?thesis using False by (subst read_exact.simps) simp
    next
      case ne: False
      obtain d c1 where d: "recv n cs = Some (d, c1)" "pieces_ok c1" "concat cs = d @ concat c1" "d \<noteq> []" "length d \<le> n"
        using recv_pieces [OF 1(2) _ ne, of n] False by auto
      from 1(1) [OF False d(1) refl d(2)] show ?thesis
        using False d by (subst read_exact.simps) (auto simp: pending_def split: option.splits)
    qed
  qed
qed

definition same_stream :: "byte list list \<Rightarrow> byte list list \<Rightarrow> bool" where
  "same_stream cs cs' \<longleftrightarrow> pieces_ok cs \<and> pieces_ok cs' \<and> concat cs = concat cs'"

lemma read_exact_same:
  assumes "same_stream cs cs'"
  shows "rel_option (rel_prod (=) same_stream) (read_exact n cs) (read_exact n cs')"
  using assms read_exact_stream [of cs n] read_exact_stream [of cs' n]
  by (auto simp: same_stream_def pending_def split: option.splits)

lemma read_message_same:
  assumes "same_stream cs cs'"
  shows "rel_option (rel_prod (=) same_stream) (read_message cs) (read_message cs')"
  using read_exact_same [OF assms, of sizeof_header]
proof (cases rule: option.rel_cases)
  case None
  then show ?thesis by (simp add: read_message_def)
next
  case (Some x y)
  obtain hb c1 c2 where xy: "x = (hb, c1)" "y = (hb, c2)" "same_stream c1 c2"
    using Some(3) by (cases x; cases y) auto
  show ?thesis
    using read_exact_same [OF xy(3), of "unat (hd_payload_size (read_header hb))"] Some(1,2) xy
    by (auto simp: read_message_def Let_def split: option.splits elim: option.rel_cases)
qed

lemma serve_same: "same_stream cs cs' \<Longrightarrow> serve opts Ws k cs fs = serve opts Ws k cs' fs"
proof (induction opts Ws k cs fs arbitrary: cs' rule: serve.induct)
  case (1 opts Ws k cs fs)
  from read_message_same [OF 1(2)] show ?case
  proof (cases rule: option.rel_cases)
    case None
    then show ?thesis by (simp add: serve.simps)
  next
    case (Some x y)
    obtain h p c1 c2 where xy: "x = ((h, p), c1)" "y = ((h, p), c2)" "same_stream c1 c2"
      using Some(3) by (cases x; cases y) auto
    obtain es fs' where r: "respond opts (Ws k) h p fs = (es, fs')" by (cases "respond opts (Ws k) h p fs")
    have "serve opts Ws (Suc k) c1 fs' = serve opts Ws (Suc k) c2 fs'"
      using 1(1) [of "((h, p), c1)" "(h, p)" c1 h p es fs'] Some(1) xy(1,3) r by simp
    then show ?thesis using Some(1,2) xy(1,2) r
      by (subst serve.simps, subst (2) serve.simps) simp
  qed
qed

lemma handle_client_same:
  assumes "same_stream cs cs'"
  shows "handle_client opts Ws cs fs = handle_client opts Ws cs' fs"
  using read_message_same [OF assms]
  by (cases rule: option.rel_cases) (auto simp: handle_client_def serve_same)

section \<open>Messages\<close>

text \<open>A request as the controller sends it: its padding bytes, its type and its payload.\<close>

type_synonym request = "byte list \<times> byte \<times> string"

fun wire :: "request \<Rightarrow> byte list" where
  "wire (padding, t, payload) = encode padding \<lparr>hd_type = t, hd_payload_size = 0\<rparr> payload"

fun request_ok :: "request \<Rightarrow> bool" where
  "request_ok (padding, t, payload) \<longleftrightarrow> length padding = 3 \<and> length payload \<le> MAX_PAYLOAD_SIZE"

fun header_of :: "request \<Rightarrow> header" where
  "header_of (padding, t, payload) = \<lparr>hd_type = t, hd_payload_size = of_nat (length payload)\<rparr>"

fun payload_of :: "request \<Rightarrow> string" where
  "payload_of (padding, t, payload) = payload"

lemma unat_max: "n \<le> MAX_PAYLOAD_SIZE \<Longrightarrow> unat (of_nat n :: 32 word) = n"
proof -
  assume "n \<le> MAX_PAYLOAD_SIZE"
  then have "n < 2 ^ 32" by (simp add: MAX_PAYLOAD_SIZE_def)
  then show ?thesis by (simp add: unat_of_nat)
qed

lemma map_byte_char [simp]: "map byte_char (map char_byte p) = p"
  by simp

lemma read_header_take: "read_header (take sizeof_header xs) = read_header xs"
  by (simp add: read_header_def sizeof_header_def drop_take bytes_size_take)

lemma read_message_wire:
  assumes "request_ok m" "pieces_ok cs" "concat cs = wire m @ rest"
  shows "\<exists>cs'. read_message cs = Some ((header_of m, payload_of m), cs') \<and> pieces_ok cs' \<and> concat cs' = rest"
proof -
  obtain pad t p where m: "m = (pad, t, p)" by (cases m)
  have ok: "length pad = 3" "length p \<le> MAX_PAYLOAD_SIZE" using assms(1) m by simp_all
  let ?e = "encode pad \<lparr>hd_type = t, hd_payload_size = 0\<rparr> p"
  have len: "length ?e = sizeof_header + length p" by (rule length_encode [OF ok(1)])
  obtain hb c1 where h: "read_exact sizeof_header cs = Some (hb, c1)" "hb = take sizeof_header (concat cs)"
    "concat c1 = drop sizeof_header (concat cs)" "pieces_ok c1"
    using read_exact_stream [OF assms(2), of sizeof_header] assms(3) m len by (auto simp: pending_def split: option.splits)
  have c1: "concat c1 = map char_byte p @ rest"
    using h(3) assms(3) m drop_header_encode [OF ok(1), of "\<lparr>hd_type = t, hd_payload_size = 0\<rparr>" p rest] by simp
  have hd: "read_header hb = header_of m"
    using read_header_encode [OF ok(1), of "\<lparr>hd_type = t, hd_payload_size = 0\<rparr>" p rest] h(2) assms(3) m
    by (simp add: read_header_take del: take_append)
  have sz: "unat (hd_payload_size (header_of m)) = length p" using m unat_max [OF ok(2)] by simp
  show ?thesis
  proof (cases "p = []")
    case True
    then show ?thesis using h c1 hd sz m by (simp add: read_message_def Let_def)
  next
    case False
    obtain d c2 where d: "read_exact (length p) c1 = Some (d, c2)" "d = map char_byte p" "concat c2 = rest" "pieces_ok c2"
      using read_exact_stream [OF h(4), of "length p"] c1 by (auto simp: pending_def split: option.splits)
    show ?thesis using False h(1) d ok(2) hd sz m by (simp add: read_message_def Let_def)
  qed
qed

lemma read_message_end: "pieces_ok cs \<Longrightarrow> concat cs = [] \<Longrightarrow> read_message cs = None"
  by (cases cs) (simp_all add: read_message_def read_exact.simps sizeof_header_def recv_def)

text \<open>The session over messages, with no bytes in it.\<close>

fun message_loop :: "agent_options \<Rightarrow> (nat \<Rightarrow> request_world) \<Rightarrow> nat \<Rightarrow> request list \<Rightarrow> files \<Rightarrow> agent_event list \<times> files" where
  "message_loop opts Ws k [] fs = ([], fs)"
| "message_loop opts Ws k (m # ms) fs =
     (case respond opts (Ws k) (header_of m) (payload_of m) fs of
        (es, fs') \<Rightarrow> (case message_loop opts Ws (Suc k) ms fs' of (es', fs'') \<Rightarrow> (es @ es', fs'')))"

fun session :: "agent_options \<Rightarrow> (nat \<Rightarrow> request_world) \<Rightarrow> request list \<Rightarrow> files \<Rightarrow> agent_event list \<times> files" where
  "session opts Ws [] fs = ([], fs)"
| "session opts Ws (m # ms) fs =
     (if hd_type (header_of m) \<noteq> type_code Hello then ([], fs)
      else if \<not> authenticated opts (payload_of m) then ([send_packet (Ws 0) Error ''authentication failed''], fs)
      else (case message_loop opts Ws 1 ms fs of
          (es, fs') \<Rightarrow> (send_packet (Ws 0) HelloAck ''nazg-agent/0.1'' # es, fs')))"

lemma serve_messages:
  "list_all request_ok ms \<Longrightarrow> pieces_ok cs \<Longrightarrow> concat cs = concat (map wire ms) \<Longrightarrow>
     serve opts Ws k cs fs = message_loop opts Ws k ms fs"
proof (induction ms arbitrary: cs k fs)
  case Nil
  then show ?case using read_message_end by (subst serve.simps) simp
next
  case (Cons m ms)
  then obtain cs' where r: "read_message cs = Some ((header_of m, payload_of m), cs')" "pieces_ok cs'"
    "concat cs' = concat (map wire ms)"
    using read_message_wire [of m cs "concat (map wire ms)"] by auto
  show ?case using r(1) Cons.IH [OF _ r(2,3)] Cons.prems(1)
    by (subst serve.simps) (simp split: prod.splits)
qed

lemma connection_session:
  assumes "list_all request_ok ms" "pieces_ok cs" "concat cs = concat (map wire ms)"
  shows "handle_client opts Ws cs fs = session opts Ws ms fs"
proof (cases ms)
  case Nil
  then show ?thesis using read_message_end assms by (simp add: handle_client_def)
next
  case (Cons m ms')
  then obtain cs' where r: "read_message cs = Some ((header_of m, payload_of m), cs')" "pieces_ok cs'"
    "concat cs' = concat (map wire ms')"
    using read_message_wire [of m cs "concat (map wire ms')"] assms by auto
  show ?thesis using r(1) serve_messages [OF _ r(2,3)] assms(1) Cons by (simp add: handle_client_def)
qed

text \<open>
  \<^bold>\<open>C8\<close> The byte loop implements the session over messages: when the controller sends well-formed messages of at most
  16 MB, cut into pieces in any way, the agent receives exactly these messages, and its answers, the scripts it
  runs and the files it leaves are those of the message session.
\<close>

theorem connection_refines_session:
  assumes "list_all request_ok ms" "pieces_ok cs" "concat cs = concat (map wire ms)"
  shows "handle_client opts Ws cs fs = session opts Ws ms fs"
  by (rule connection_session [OF assms])

definition demo_request_world :: request_world where
  "demo_request_world = \<lparr>rw_scan = \<lparr>sw_popen = \<lambda>_. None, sw_hostname = None, sw_walk = \<lambda>_. None, sw_read = \<lambda>_. None,
       sw_sha256 = \<lambda>_. [], sw_now = 5, sw_indeterminate = 0\<rparr>,
     rw_padding = [0, 0, 0], rw_mkstemp = Inr ''/tmp/nazg-agent-scriptAbCdEf'', rw_written = Some 2,
     rw_popen = \<lambda>_ fs. Some (([''done'', [nl]], 256), fs), rw_error = []\<rparr>"

definition secret_options :: agent_options where
  "secret_options = default_options\<lparr>ao_auth_token := ''s3cret''\<rparr>"

definition demo_requests :: "request list" where
  "demo_requests = [([0, 0, 0], 1, ''nazg-controller:s3cret''), ([7, 7, 7], 3, ''ls''), ([0, 0, 0], 5, [])]"

theorem connection_refines_session_witness:
  "handle_client secret_options (\<lambda>_. demo_request_world) [concat (map wire demo_requests)] Map.empty =
     session secret_options (\<lambda>_. demo_request_world) demo_requests Map.empty"
proof (rule connection_refines_session)
  show "list_all request_ok demo_requests" by (simp add: demo_requests_def MAX_PAYLOAD_SIZE_def)
  show "pieces_ok [concat (map wire demo_requests)]"
    by (simp add: demo_requests_def encode_def header_bytes_def)
qed simp

section \<open>Scripts need the token\<close>

lemma authenticated_iff: "authenticated opts p \<longleftrightarrow> ao_auth_token opts = [] \<or> p = expected_prefix @ ao_auth_token opts"
proof -
  have "length p \<le> length expected_prefix \<Longrightarrow> p = expected_prefix @ t \<Longrightarrow> t = []" for t by simp
  then show ?thesis unfolding authenticated_def
    by (metis append_eq_conv_conj append_take_drop_id)
qed

text \<open>
  \<^bold>\<open>C19\<close> On an agent with a token no script runs, no file is touched and at most one packet, the refusal, leaves, unless
  the first message of the connection is a hello whose payload is \<open>nazg-controller:\<close> followed by exactly the token.
\<close>

theorem nothing_without_token:
  assumes "ao_auth_token opts \<noteq> []"
    and "\<And>h p cs'. read_message cs = Some ((h, p), cs') \<Longrightarrow>
      \<not> (hd_type h = type_code Hello \<and> p = ''nazg-controller:'' @ ao_auth_token opts)"
  shows "handle_client opts Ws cs fs \<in> {([], fs), ([send_packet (Ws 0) Error ''authentication failed''], fs)}"
  using assms by (auto simp: handle_client_def authenticated_iff expected_prefix_def split: option.splits)

theorem nothing_without_token_witness:
  "handle_client secret_options (\<lambda>_. demo_request_world) [wire ([0, 0, 0], 1, ''nazg-controller:guess''), wire ([0, 0, 0], 3, ''ls'')]
     Map.empty \<in> {([], Map.empty), ([send_packet demo_request_world Error ''authentication failed''], Map.empty)}"
proof -
  let ?m = "([0, 0, 0], 1, ''nazg-controller:guess'') :: request" and ?r = "wire ([0, 0, 0], 3, ''ls'')"
  have "request_ok ?m" by (simp add: MAX_PAYLOAD_SIZE_def)
  moreover have "pieces_ok [wire ?m, ?r]" by (simp add: encode_def header_bytes_def Let_def)
  ultimately obtain cs' where "read_message [wire ?m, ?r] = Some ((header_of ?m, payload_of ?m), cs')"
    using read_message_wire [of ?m "[wire ?m, ?r]" ?r] by auto
  then show ?thesis
    by (intro nothing_without_token [of secret_options "[wire ?m, ?r]" "\<lambda>_. demo_request_world"])
      (auto simp: secret_options_def)
qed

section \<open>One answer per request\<close>

definition is_packet :: "agent_event \<Rightarrow> bool" where
  "is_packet e \<longleftrightarrow> (case e of Packet _ \<Rightarrow> True | RanScript _ \<Rightarrow> False)"

definition scripts_in :: "agent_event list \<Rightarrow> string list" where
  "scripts_in es = concat (map (\<lambda>e. case e of RanScript s \<Rightarrow> [s] | Packet _ \<Rightarrow> []) es)"

lemma respond_answer:
  "length (filter is_packet (fst (respond opts W h p fs))) = 1 \<and>
   scripts_in (fst (respond opts W h p fs)) = (if hd_type h = type_code RunCommand then [p] else [])"
  by (simp add: respond_def is_packet_def scripts_in_def send_packet_def split: prod.splits)

lemma message_loop_answers:
  "length (filter is_packet (fst (message_loop opts Ws k ms fs))) = length ms \<and>
   scripts_in (fst (message_loop opts Ws k ms fs)) =
     map payload_of (filter (\<lambda>m. hd_type (header_of m) = type_code RunCommand) ms)"
proof (induction ms arbitrary: k fs)
  case Nil
  then show ?case by (simp add: scripts_in_def)
next
  case (Cons m ms)
  obtain es fs' where r: "respond opts (Ws k) (header_of m) (payload_of m) fs = (es, fs')"
    by (cases "respond opts (Ws k) (header_of m) (payload_of m) fs")
  show ?case using Cons.IH [of "Suc k" fs'] respond_answer [of opts "Ws k" "header_of m" "payload_of m" fs] r
    by (auto simp: scripts_in_def split: prod.splits)
qed

text \<open>
  In an accepted session every message is answered by exactly one packet, and the scripts run are the payloads of
  the command messages, each once and in the order they were sent.
\<close>

lemma one_answer_per_request:
  assumes "list_all request_ok (hello # ms)" "pieces_ok cs" "concat cs = concat (map wire (hello # ms))"
    and "hd_type (header_of hello) = type_code Hello"
    and "payload_of hello = ''nazg-controller:'' @ ao_auth_token opts"
  shows "length (filter is_packet (fst (handle_client opts Ws cs fs))) = length (hello # ms) \<and>
    scripts_in (fst (handle_client opts Ws cs fs)) =
      map payload_of (filter (\<lambda>m. hd_type (header_of m) = type_code RunCommand) ms)"
proof -
  have "authenticated opts (payload_of hello)" using assms(5) by (simp add: authenticated_iff expected_prefix_def)
  moreover have "handle_client opts Ws cs fs = session opts Ws (hello # ms) fs"
    by (rule connection_session [OF assms(1-3), of opts Ws fs])
  ultimately show ?thesis using assms(4) message_loop_answers [of opts Ws 1 ms fs]
    by (auto simp: is_packet_def scripts_in_def send_packet_def split: prod.splits)
qed

lemma one_answer_per_request_example:
  "length (filter is_packet (fst (handle_client secret_options (\<lambda>_. demo_request_world) [concat (map wire demo_requests)] Map.empty))) = 3 \<and>
   scripts_in (fst (handle_client secret_options (\<lambda>_. demo_request_world) [concat (map wire demo_requests)] Map.empty)) = [''ls'']"
  using one_answer_per_request [of "hd demo_requests" "tl demo_requests" "[concat (map wire demo_requests)]" secret_options
      "\<lambda>_. demo_request_world" Map.empty]
  by (simp add: demo_requests_def secret_options_def default_options_def MAX_PAYLOAD_SIZE_def)
    (simp add: encode_def header_bytes_def)

end
