(* ===== verification/Docker_Client.thy ===== *)
theory Docker_Client
  imports Agent_Session Nexus_Docker_Store
begin

text \<open>
  The control center's side of the agent protocol (\<open>src/modules/docker_monitor/src/client.cpp\<close>): one connection per
  request, the ad-hoc reading of JSON, and the storing of what a scan found. The network is an argument: what a
  name resolves to, which address accepts, whether the two \<open>send\<close> calls work, and the pieces that arrive.
\<close>

section \<open>One request\<close>

record host_config =
  hc_label :: string
  hc_address :: string
  hc_agent_port :: int

record client_world =
  cw_resolve :: "string \<Rightarrow> string \<Rightarrow> bool list option"
  cw_padding :: "byte list"
  cw_hello_sent :: bool
  cw_request_sent :: bool
  cw_incoming :: "byte list list"
  cw_now :: int

definition host_of_address :: "string \<Rightarrow> string" where
  "host_of_address a = (case find_char (CHR ''@'') a of None \<Rightarrow> a | Some k \<Rightarrow> drop (k + 1) a)"

definition connects :: "client_world \<Rightarrow> host_config \<Rightarrow> bool" where
  "connects W h =
     (case cw_resolve W (host_of_address (hc_address h)) (to_string (hc_agent_port h)) of
        None \<Rightarrow> False | Some addresses \<Rightarrow> True \<in> set addresses)"

definition client_hello :: "byte list \<Rightarrow> byte list" where
  "client_hello padding = encode padding \<lparr>hd_type = type_code Hello, hd_payload_size = 0\<rparr> ''nazg-controller''"

text \<open>
  The packets sent and the response; \<^const>\<open>None\<close> is the result \<open>false\<close>. Both replies are read with the loop the
  agent uses, with the same limit.
\<close>

definition send_message_to_agent ::
  "client_world \<Rightarrow> host_config \<Rightarrow> byte \<Rightarrow> string \<Rightarrow> byte list list \<times> string option" where
  "send_message_to_agent W host message_type payload =
     (if \<not> connects W host then ([], None)
      else if \<not> cw_hello_sent W then ([], None)
      else
        let hello = client_hello (cw_padding W) in
        case read_message (cw_incoming W) of
          None \<Rightarrow> ([hello], None)
        | Some ((ack, _), cs) \<Rightarrow>
            if hd_type ack \<noteq> type_code HelloAck then ([hello], None)
            else if \<not> cw_request_sent W then ([hello], None)
            else
              let request = encode (cw_padding W) \<lparr>hd_type = message_type, hd_payload_size = 0\<rparr> payload in
              case read_message cs of
                None \<Rightarrow> ([hello, request], None)
              | Some ((h, response), _) \<Rightarrow>
                  ([hello, request], if hd_type h = type_code Error then None else Some response))"

section \<open>Reading JSON\<close>

definition key_pattern :: "string \<Rightarrow> string" where
  "key_pattern key = [CHR 0x22] @ key @ [CHR 0x22, CHR '':'']"

definition skip_blanks :: "string \<Rightarrow> string \<Rightarrow> string" where
  "skip_blanks blanks s = dropWhile (\<lambda>c. c \<in> set blanks) s"

text \<open>Up to the closing quote; a backslash takes the next character with it.\<close>

fun string_body :: "string \<Rightarrow> string" where
  "string_body [] = []"
| "string_body (c # s) =
     (if c = CHR 0x22 then []
      else if c = CHR 0x5C then (case s of [] \<Rightarrow> [c] | d # r \<Rightarrow> c # d # string_body r)
      else c # string_body s)"

definition extract_json_string :: "string \<Rightarrow> string \<Rightarrow> string" where
  "extract_json_string json key =
     (case text_after (key_pattern key) json of
        None \<Rightarrow> []
      | Some v \<Rightarrow> (case skip_blanks line_blanks v of
            [] \<Rightarrow> []
          | c # s \<Rightarrow> if c \<noteq> CHR 0x22 then [] else string_body s))"

definition extract_json_int :: "string \<Rightarrow> string \<Rightarrow> int" where
  "extract_json_int json key =
     (case text_after (key_pattern key) json of
        None \<Rightarrow> 0
      | Some v \<Rightarrow>
          let digits = takeWhile isdigit (skip_blanks line_blanks v)
          in if digits = [] then 0 else (case stoll digits of None \<Rightarrow> 0 | Some i \<Rightarrow> i))"

text \<open>From the opening bracket to the one that closes it, brackets inside of strings counted too.\<close>

fun bracketed :: "int \<Rightarrow> string \<Rightarrow> string option" where
  "bracketed n [] = None"
| "bracketed n (c # s) =
     (if c = CHR ''['' then map_option ((#) c) (bracketed (n + 1) s)
      else if c = CHR '']'' then (if n - 1 = 0 then Some [c] else map_option ((#) c) (bracketed (n - 1) s))
      else map_option ((#) c) (bracketed n s))"

definition extract_json_array :: "string \<Rightarrow> string \<Rightarrow> string" where
  "extract_json_array json key =
     (case text_after (key_pattern key) json of
        None \<Rightarrow> ''[]''
      | Some v \<Rightarrow> (case skip_blanks (line_blanks @ [nl]) v of
            [] \<Rightarrow> ''[]''
          | c # s \<Rightarrow> if c \<noteq> CHR ''['' then ''[]''
              else (case bracketed 0 (c # s) of None \<Rightarrow> ''[]'' | Some a \<Rightarrow> a)))"

text \<open>The rest of an object after its opening brace, and what follows it.\<close>

fun braced :: "nat \<Rightarrow> string \<Rightarrow> string \<times> string" where
  "braced n [] = ([], [])"
| "braced n (c # s) =
     (if n = 0 then ([], c # s)
      else (case braced (if c = CHR ''{'' then n + 1 else if c = CHR ''}'' then n - 1 else n) s of (a, r) \<Rightarrow> (c # a, r)))"

lemma braced_length: "braced n s = (a, r) \<Longrightarrow> length r \<le> length s"
proof (induction n s arbitrary: a r rule: braced.induct)
  case (2 n c s)
  then show ?case by (fastforce split: if_splits prod.splits)
qed simp

lemma objects_shrink:
  assumes "dropWhile (\<lambda>c. c \<noteq> CHR ''{'') s = c # r" "(a, t) = braced n r"
  shows "length t < length s"
  using braced_length [of n r a t] length_dropWhile_le [of "\<lambda>c. c \<noteq> CHR ''{''" s] assms by simp

function objects :: "string \<Rightarrow> string list" where
  "objects s =
     (case dropWhile (\<lambda>c. c \<noteq> CHR ''{'') s of
        [] \<Rightarrow> []
      | c # r \<Rightarrow> (case braced 1 r of (a, t) \<Rightarrow> (c # a) # objects t))"
  by pat_completeness auto
termination
  by (relation "measure length") (auto intro: objects_shrink)

declare objects.simps [simp del]

section \<open>Storing a scan\<close>

record scan_result =
  sr_success :: bool
  sr_error_message :: string
  sr_containers_count :: int
  sr_images_count :: int
  sr_networks_count :: int
  sr_volumes_count :: int
  sr_compose_files_count :: int

definition no_result :: scan_result where
  "no_result = \<lparr>sr_success = False, sr_error_message = [], sr_containers_count = 0, sr_images_count = 0,
     sr_networks_count = 0, sr_volumes_count = 0, sr_compose_files_count = 0\<rparr>"

definition parsed_container :: "string \<Rightarrow> container_info" where
  "parsed_container obj =
     \<lparr>ct_id = extract_json_string obj ''id'', ct_name = extract_json_string obj ''name'',
      ct_image = extract_json_string obj ''image'', ct_state = extract_json_string obj ''state'',
      ct_status = extract_json_string obj ''status'', ct_created = extract_json_int obj ''created'',
      ct_ports = ''[]'', ct_volumes = ''[]'', ct_networks = ''[]'',
      ct_service = extract_json_string obj ''service_name'', ct_depends = ''[]'', ct_labels = ''{}'',
      ct_health = extract_json_string obj ''health_status'', ct_restart = extract_json_string obj ''restart_policy''\<rparr>"

text \<open>A loop over the objects of an array: those without their key text are passed over.\<close>

definition store_each :: "string \<Rightarrow> (string \<Rightarrow> sqlite \<Rightarrow> sqlite \<times> int) \<Rightarrow> string list \<Rightarrow> sqlite \<Rightarrow> sqlite \<times> int" where
  "store_each key put objs c =
     fold (\<lambda>obj (c, n). if extract_json_string obj key = [] then (c, n) else (fst (put obj c), n + 1)) objs (c, 0)"

definition array_objects :: "string \<Rightarrow> string \<Rightarrow> string list" where
  "array_objects json key = objects (drop 1 (extract_json_array json key))"

definition store_container_objects :: "int \<Rightarrow> int \<Rightarrow> string \<Rightarrow> sqlite \<Rightarrow> sqlite \<times> int" where
  "store_container_objects now sid json =
     store_each ''id'' (\<lambda>obj. upsert_container now sid (parsed_container obj)) (array_objects json ''containers'')"

definition store_image_objects :: "int \<Rightarrow> int \<Rightarrow> string \<Rightarrow> sqlite \<Rightarrow> sqlite \<times> int" where
  "store_image_objects now sid json =
     store_each ''id'' (\<lambda>obj. upsert_docker_image now sid (extract_json_string obj ''id'') (extract_json_string obj ''repository'')
         (extract_json_string obj ''tag'') (extract_json_int obj ''size_bytes'') (extract_json_int obj ''created''))
       (array_objects json ''images'')"

definition store_compose_objects :: "int \<Rightarrow> int \<Rightarrow> string \<Rightarrow> sqlite \<Rightarrow> sqlite \<times> int" where
  "store_compose_objects now sid json =
     store_each ''path'' (\<lambda>obj. upsert_compose_file now sid (extract_json_string obj ''path'')
         (extract_json_string obj ''project_name'') (extract_json_array obj ''services'') ''[]'' ''[]'' (extract_json_string obj ''hash''))
       (array_objects json ''compose_files'')"

definition store_network_objects :: "int \<Rightarrow> int \<Rightarrow> string \<Rightarrow> sqlite \<Rightarrow> sqlite \<times> int" where
  "store_network_objects now sid json =
     store_each ''id'' (\<lambda>obj. upsert_docker_network now sid (extract_json_string obj ''id'') (extract_json_string obj ''name'')
         (extract_json_string obj ''driver'') (extract_json_string obj ''scope'') ''{}'')
       (array_objects json ''networks'')"

definition store_volume_objects :: "int \<Rightarrow> int \<Rightarrow> string \<Rightarrow> sqlite \<Rightarrow> sqlite \<times> int" where
  "store_volume_objects now sid json =
     store_each ''name'' (\<lambda>obj. upsert_docker_volume now sid (extract_json_string obj ''name'') (extract_json_string obj ''driver'')
         (extract_json_string obj ''mountpoint'') ''{}'')
       (array_objects json ''volumes'')"

definition parse_and_store_scan :: "int \<Rightarrow> int \<Rightarrow> string \<Rightarrow> scan_result \<Rightarrow> sqlite option \<Rightarrow> (sqlite option \<times> scan_result) \<times> bool" where
  "parse_and_store_scan now sid json_payload result store =
     (case store of
        None \<Rightarrow> ((None, result), False)
      | Some c \<Rightarrow>
          (case store_container_objects now sid json_payload c of (c1, containers) \<Rightarrow>
           case store_image_objects now sid json_payload c1 of (c2, images) \<Rightarrow>
           case store_compose_objects now sid json_payload c2 of (c3, files) \<Rightarrow>
           case store_network_objects now sid json_payload c3 of (c4, networks) \<Rightarrow>
           case store_volume_objects now sid json_payload c4 of (c5, volumes) \<Rightarrow>
             ((Some c5, result\<lparr>sr_success := True, sr_containers_count := sr_containers_count result + containers,
                sr_images_count := sr_images_count result + images, sr_compose_files_count := sr_compose_files_count result + files,
                sr_networks_count := sr_networks_count result + networks,
                sr_volumes_count := sr_volumes_count result + volumes\<rparr>), True)))"

definition parse_and_store_registration :: "int \<Rightarrow> int \<Rightarrow> string \<Rightarrow> sqlite option \<Rightarrow> sqlite option \<times> bool" where
  "parse_and_store_registration now sid json_payload store =
     (case store of
        None \<Rightarrow> (None, False)
      | Some c \<Rightarrow>
          (case update_server_heartbeat now sid (extract_json_string json_payload ''agent_version'') ''online''
              (extract_json_array json_payload ''capabilities'') c of (c', ok) \<Rightarrow> (Some c', ok)))"

section \<open>Requests of the control center\<close>

definition host_of_server :: "string \<Rightarrow> (string, string) std_map \<Rightarrow> host_config" where
  "host_of_server label info = \<lparr>hc_label = label, hc_address = (case map_get info ''host'' of None \<Rightarrow> [] | Some v \<Rightarrow> v),
     hc_agent_port = 7070\<rparr>"

definition scan_server :: "client_world \<Rightarrow> string \<Rightarrow> sqlite option \<Rightarrow> (sqlite option \<times> byte list list) \<times> scan_result" where
  "scan_server W server_label store =
     (case store of
        None \<Rightarrow> ((None, []), no_result\<lparr>sr_error_message := ''No store available''\<rparr>)
      | Some c \<Rightarrow>
          (case get_server_id server_label c of
             None \<Rightarrow> ((store, []), no_result\<lparr>sr_error_message := ''Server not found: '' @ server_label\<rparr>)
           | Some sid \<Rightarrow>
               (case get_server_by_id sid c of
                  None \<Rightarrow> ((store, []), no_result\<lparr>sr_error_message := ''Failed to retrieve server info''\<rparr>)
                | Some info \<Rightarrow>
                    (case send_message_to_agent W (host_of_server server_label info) (type_code DockerFullScan) [] of
                       (sent, None) \<Rightarrow>
                         ((Some (fst (update_server_status (cw_now W) sid ''offline'' c)), sent),
                          no_result\<lparr>sr_error_message := ''Failed to connect to agent or receive response''\<rparr>)
                     | (sent, Some response) \<Rightarrow>
                         (case parse_and_store_scan (cw_now W) sid response no_result store of
                            ((store', result), ok) \<Rightarrow>
                              if \<not> ok then ((store', sent), result\<lparr>sr_error_message := ''Failed to parse scan results''\<rparr>)
                              else ((map_option (\<lambda>c. fst (update_server_status (cw_now W) sid ''online'' c)) store', sent), result))))))"

definition register_agent :: "client_world \<Rightarrow> string \<Rightarrow> sqlite option \<Rightarrow> (sqlite option \<times> byte list list) \<times> bool" where
  "register_agent W server_label store =
     (case store of
        None \<Rightarrow> ((None, []), False)
      | Some c \<Rightarrow>
          (case get_server_id server_label c of
             None \<Rightarrow> ((store, []), False)
           | Some sid \<Rightarrow>
               (case get_server_by_id sid c of
                  None \<Rightarrow> ((store, []), False)
                | Some info \<Rightarrow>
                    (case send_message_to_agent W (host_of_server server_label info) (type_code Register) [] of
                       (sent, None) \<Rightarrow> ((Some (fst (update_server_status (cw_now W) sid ''offline'' c)), sent), False)
                     | (sent, Some response) \<Rightarrow>
                         (case parse_and_store_registration (cw_now W) sid response store of
                            (store', ok) \<Rightarrow> ((store', sent), ok))))))"

definition stats_line :: "string \<Rightarrow> nat \<Rightarrow> string" where
  "stats_line what n = ''  '' @ what @ '': '' @ to_string (int n) @ [nl]"

definition get_scan_stats :: "string \<Rightarrow> sqlite option \<Rightarrow> string option" where
  "get_scan_stats server_label store =
     (case store of
        None \<Rightarrow> None
      | Some c \<Rightarrow>
          (case get_server_id server_label c of
             None \<Rightarrow> None
           | Some sid \<Rightarrow>
               Some (''Server: '' @ server_label @ [nl] @
                 stats_line ''Containers'' (length (Nexus_Docker_Store.list_containers sid c)) @
                 stats_line ''Images'' (length (list_docker_images sid c)) @
                 stats_line ''Networks'' (length (list_docker_networks sid c)) @
                 stats_line ''Volumes'' (length (list_docker_volumes sid c)) @
                 stats_line ''Compose files'' (length (list_compose_files sid c)))))"

end
