(* ===== verification/Docker_Scan_Wire.thy ===== *)
theory Docker_Scan_Wire
  imports Docker_Client
begin

text \<open>
  Controller and agent together: what a request of the control center does on an agent with and without a token, and
  which containers of a scan arrive in the control center.
\<close>

section \<open>Controller and agent\<close>

definition packets :: "agent_event list \<Rightarrow> byte list" where
  "packets es = concat (map (\<lambda>e. case e of Packet b \<Rightarrow> b | RanScript _ \<Rightarrow> []) es)"

lemma packets_simps [simp]:
  "packets [] = []"
  "packets (send_packet W t body # es) = wire (rw_padding W, type_code t, body) @ packets es"
  "packets (RanScript s # es) = packets es"
  by (simp_all add: packets_def send_packet_def)

lemma client_hello_wire: "client_hello padding = wire (padding, type_code Hello, ''nazg-controller'')"
  by (simp add: client_hello_def)

lemma controller_text_refused: "ao_auth_token opts \<noteq> [] \<Longrightarrow> \<not> authenticated opts ''nazg-controller''"
  by (simp add: authenticated_iff expected_prefix_def)

lemma small_request: "length padding = 3 \<Longrightarrow> length p < 100 \<Longrightarrow> request_ok (padding, t, p)"
  by (simp add: MAX_PAYLOAD_SIZE_def)

lemma sent_prefix:
  "send_message_to_agent W host t payload = (sent, result) \<Longrightarrow>
     sent = [] \<and> result = None \<or> (\<exists>rest. concat sent = client_hello (cw_padding W) @ rest)"
  by (auto simp: send_message_to_agent_def Let_def split: if_splits option.splits prod.splits)

text \<open>
  \<^bold>\<open>C9\<close> The control center never gets past a token: its hello is \<open>nazg-controller\<close> without one, so on an agent with a
  token every request of the control center fails, whatever the request is and however the two streams are cut,
  and the agent runs no script and leaves its files alone.
\<close>

theorem controller_refused_by_token:
  assumes "ao_auth_token opts \<noteq> []" and pad: "length (cw_padding W) = 3" "length (rw_padding (Ws 0)) = 3"
    and sent: "send_message_to_agent W host t payload = (sent, result)"
    and cs: "pieces_ok cs" "concat cs = concat sent"
    and answer: "pieces_ok (cw_incoming W)" "concat (cw_incoming W) = packets (fst (handle_client opts Ws cs fs))"
  shows "result = None \<and> scripts_in (fst (handle_client opts Ws cs fs)) = [] \<and> snd (handle_client opts Ws cs fs) = fs"
  using sent_prefix [OF sent]
proof
  assume e: "sent = [] \<and> result = None"
  then have "read_message cs = None" using read_message_end cs by simp
  then show ?thesis using e by (simp add: handle_client_def scripts_in_def)
next
  let ?hello = "(cw_padding W, type_code Hello, ''nazg-controller'')" and ?no = "(rw_padding (Ws 0), type_code Error, ''authentication failed'')"
  assume "\<exists>rest. concat sent = client_hello (cw_padding W) @ rest"
  then obtain rest where "concat cs = wire ?hello @ rest" using cs(2) client_hello_wire by metis
  from read_message_wire [OF small_request cs(1) this] pad(1) obtain cs' where
    "read_message cs = Some ((header_of ?hello, payload_of ?hello), cs')" by auto
  then have h: "handle_client opts Ws cs fs = ([send_packet (Ws 0) Error ''authentication failed''], fs)"
    using controller_text_refused [OF assms(1)] by (simp add: handle_client_def)
  then have "concat (cw_incoming W) = wire ?no @ []" using answer(2) by simp
  from read_message_wire [OF small_request answer(1) this] pad(2) obtain cs'' where
    "read_message (cw_incoming W) = Some ((header_of ?no, payload_of ?no), cs'')" by auto
  then have "result = None" using sent by (auto simp: send_message_to_agent_def Let_def split: if_splits)
  then show ?thesis using h by (simp add: scripts_in_def send_packet_def)
qed

definition demo_client_world :: "byte list list \<Rightarrow> client_world" where
  "demo_client_world incoming = \<lparr>cw_resolve = \<lambda>h p. if h = ''tank'' \<and> p = ''7070'' then Some [False, True] else None,
     cw_padding = [0, 0, 0], cw_hello_sent = True, cw_request_sent = True, cw_incoming = incoming, cw_now = 9\<rparr>"

definition demo_host :: host_config where
  "demo_host = \<lparr>hc_label = ''tank'', hc_address = ''root@tank'', hc_agent_port = 7070\<rparr>"

lemma demo_port: "to_string 7070 = ''7070''"
  by (simp add: to_string_def nat_digits.simps, code_simp)

lemma demo_connects: "connects (demo_client_world cs) demo_host"
  by (simp add: connects_def demo_client_world_def demo_host_def host_of_address_def find_char_def demo_port)

abbreviation demo_refusal :: request where
  "demo_refusal \<equiv> ([0, 0, 0], type_code Error, ''authentication failed'')"

abbreviation demo_hello :: request where
  "demo_hello \<equiv> ([0, 0, 0], type_code Hello, ''nazg-controller'')"

lemma wire_nonempty: "wire m \<noteq> []"
  by (cases m) (simp add: encode_def header_bytes_def Let_def)

lemma read_one_wire: "request_ok m \<Longrightarrow> \<exists>cs'. read_message [wire m] = Some ((header_of m, payload_of m), cs')"
  using read_message_wire [of m "[wire m]" "[]"] wire_nonempty [of m] by auto

lemma demo_refused:
  "handle_client secret_options (\<lambda>_. demo_request_world) [wire demo_hello] Map.empty =
     ([send_packet demo_request_world Error ''authentication failed''], Map.empty)"
proof -
  have "request_ok demo_hello" by (rule small_request) simp_all
  then obtain cs where "read_message [wire demo_hello] = Some ((header_of demo_hello, payload_of demo_hello), cs)"
    using read_one_wire by blast
  moreover have "\<not> authenticated secret_options ''nazg-controller''"
    by (rule controller_text_refused) (simp add: secret_options_def)
  ultimately show ?thesis by (simp add: handle_client_def del: wire.simps)
qed

lemma demo_request_refused:
  "send_message_to_agent (demo_client_world [wire demo_refusal]) demo_host 20 [] = ([wire demo_hello], None)"
proof -
  have "request_ok demo_refusal" by (rule small_request) simp_all
  then obtain cs where "read_message [wire demo_refusal] = Some ((header_of demo_refusal, payload_of demo_refusal), cs)"
    using read_one_wire by blast
  then show ?thesis using demo_connects [of "[wire demo_refusal]"]
    by (simp add: send_message_to_agent_def demo_client_world_def client_hello_wire del: wire.simps)
qed

theorem controller_refused_by_token_witness:
  "snd (send_message_to_agent (demo_client_world [wire demo_refusal]) demo_host 20 []) = None \<and>
   scripts_in (fst (handle_client secret_options (\<lambda>_. demo_request_world) [wire demo_hello] Map.empty)) = [] \<and>
   snd (handle_client secret_options (\<lambda>_. demo_request_world) [wire demo_hello] Map.empty) = Map.empty"
  unfolding demo_request_refused snd_conv
proof (rule controller_refused_by_token [OF _ _ _ demo_request_refused])
  show "ao_auth_token secret_options \<noteq> []" by (simp add: secret_options_def)
  show "length (cw_padding (demo_client_world [wire demo_refusal])) = 3" by (simp add: demo_client_world_def)
  show "length (rw_padding demo_request_world) = 3" by (simp add: demo_request_world_def)
  show "pieces_ok [wire demo_hello]" using wire_nonempty [of demo_hello] by (simp del: wire.simps)
  show "concat [wire demo_hello] = concat [wire demo_hello]" by (rule refl)
  show "pieces_ok (cw_incoming (demo_client_world [wire demo_refusal]))"
    using wire_nonempty [of demo_refusal] by (simp add: demo_client_world_def del: wire.simps)
  show "concat (cw_incoming (demo_client_world [wire demo_refusal])) =
      packets (fst (handle_client secret_options (\<lambda>_. demo_request_world) [wire demo_hello] Map.empty))"
    unfolding demo_refused by (simp add: demo_client_world_def demo_request_world_def del: wire.simps)
qed

text \<open>
  Without a token a scan request gets through: when the connection and both \<open>send\<close> calls work, the control center
  receives exactly the text the agent's scanner generated, however the two streams are cut.
\<close>

lemma scan_reaches_controller:
  assumes "ao_auth_token opts = []" "ao_enable_docker_monitoring opts"
    and pad: "length (cw_padding W) = 3" "length (rw_padding (Ws 0)) = 3" "length (rw_padding (Ws 1)) = 3"
    and net: "connects W host" "cw_hello_sent W" "cw_request_sent W"
    and size: "length (generate_full_scan_json (rw_scan (Ws 1)) (ao_server_label opts)) \<le> MAX_PAYLOAD_SIZE"
    and cs: "pieces_ok cs" "concat cs = concat (fst (send_message_to_agent W host (type_code DockerFullScan) []))"
    and answer: "pieces_ok (cw_incoming W)" "concat (cw_incoming W) = packets (fst (handle_client opts Ws cs fs))"
  shows "snd (send_message_to_agent W host (type_code DockerFullScan) []) =
    Some (generate_full_scan_json (rw_scan (Ws 1)) (ao_server_label opts))"
proof -
  let ?json = "generate_full_scan_json (rw_scan (Ws 1)) (ao_server_label opts)"
  let ?hello = "(cw_padding W, type_code Hello, ''nazg-controller'')" and ?req = "(cw_padding W, type_code DockerFullScan, [] :: string)"
  let ?ack = "(rw_padding (Ws 0), type_code HelloAck, ''nazg-agent/0.1'')" and ?scan = "(rw_padding (Ws 1), type_code DockerFullScan, ?json)"
  have ok: "request_ok ?hello" "request_ok ?req" "request_ok ?ack" "request_ok ?scan"
    using small_request [OF pad(1), of "''nazg-controller''" "type_code Hello"] small_request [OF pad(1), of "[]" "type_code DockerFullScan"]
      small_request [OF pad(2), of "''nazg-agent/0.1''" "type_code HelloAck"] pad(3) size by simp_all
  have hello: "\<exists>rest. concat cs = wire ?hello @ rest"
    using sent_prefix [of W host "type_code DockerFullScan" "[]"] cs(2) net client_hello_wire
    by (auto simp: send_message_to_agent_def Let_def split: option.splits prod.splits)
  then obtain rest cs1 where r1: "read_message cs = Some ((header_of ?hello, payload_of ?hello), cs1)" "pieces_ok cs1"
    "concat cs1 = rest" "concat cs = wire ?hello @ rest"
    using read_message_wire [OF ok(1) cs(1)] by metis
  have auth: "authenticated opts p" for p using assms(1) by (simp add: authenticated_def)
  have "handle_client opts Ws cs fs = (case serve opts Ws 1 cs1 fs of (es, fs') \<Rightarrow> (send_packet (Ws 0) HelloAck ''nazg-agent/0.1'' # es, fs'))"
    using r1(1) auth by (simp add: handle_client_def)
  then have inc: "concat (cw_incoming W) = wire ?ack @ packets (fst (serve opts Ws 1 cs1 fs))"
    using answer(2) by (simp split: prod.splits)
  from read_message_wire [OF ok(3) answer(1) inc] obtain in1 where
    in1: "read_message (cw_incoming W) = Some ((header_of ?ack, payload_of ?ack), in1)" "pieces_ok in1"
    "concat in1 = packets (fst (serve opts Ws 1 cs1 fs))" by auto
  have "concat (fst (send_message_to_agent W host (type_code DockerFullScan) [])) = wire ?hello @ wire ?req"
    using net in1(1) by (simp add: send_message_to_agent_def Let_def client_hello_def split: option.splits prod.splits)
  then have "concat cs1 = wire ?req @ []" using r1(3,4) cs(2) by simp
  from read_message_wire [OF ok(2) r1(2) this] obtain cs2 where
    cs2: "read_message cs1 = Some ((header_of ?req, payload_of ?req), cs2)" "pieces_ok cs2" "concat cs2 = []" by auto
  have "serve opts Ws 1 cs1 fs = ([send_packet (Ws 1) DockerFullScan ?json], fs)"
    using cs2(1) read_message_end [OF cs2(2,3)] assms(2)
    by (subst serve.simps) (simp add: respond_def serve.simps)
  then have "concat in1 = wire ?scan @ []" using in1(3) by simp
  from read_message_wire [OF ok(4) in1(2) this] obtain in2 where
    "read_message in1 = Some ((header_of ?scan, payload_of ?scan), in2)" by auto
  then show ?thesis using net in1(1) by (simp add: send_message_to_agent_def Let_def)
qed

abbreviation demo_ack :: request where
  "demo_ack \<equiv> ([0, 0, 0], type_code HelloAck, ''nazg-agent/0.1'')"

abbreviation demo_scan_request :: request where
  "demo_scan_request \<equiv> ([0, 0, 0], type_code DockerFullScan, [])"

abbreviation demo_scan :: request where
  "demo_scan \<equiv> ([0, 0, 0], type_code DockerFullScan, generate_full_scan_json (rw_scan demo_request_world) ''unknown'')"

lemma demo_scan_size: "length (generate_full_scan_json (rw_scan demo_request_world) ''unknown'') \<le> 1000"
  by code_simp

lemma demo_requests_ok: "request_ok demo_hello" "request_ok demo_scan_request" "request_ok demo_ack" "request_ok demo_scan"
  using small_request [of "[0, 0, 0]" "''nazg-controller''" "type_code Hello"] small_request [of "[0, 0, 0]" "[]" "type_code DockerFullScan"]
    small_request [of "[0, 0, 0]" "''nazg-agent/0.1''" "type_code HelloAck"] demo_scan_size
  by (simp_all add: MAX_PAYLOAD_SIZE_def del: One_nat_def)

lemma demo_answered:
  "handle_client default_options (\<lambda>_. demo_request_world) [wire demo_hello, wire demo_scan_request] Map.empty =
     ([send_packet demo_request_world HelloAck ''nazg-agent/0.1'',
       send_packet demo_request_world DockerFullScan (generate_full_scan_json (rw_scan demo_request_world) ''unknown'')], Map.empty)"
proof -
  have "handle_client default_options (\<lambda>_. demo_request_world) [wire demo_hello, wire demo_scan_request] Map.empty =
      session default_options (\<lambda>_. demo_request_world) [demo_hello, demo_scan_request] Map.empty"
    using demo_requests_ok wire_nonempty [of demo_hello] wire_nonempty [of demo_scan_request]
    by (intro connection_session) (simp_all del: wire.simps request_ok.simps)
  then show ?thesis by (simp add: default_options_def authenticated_def respond_def del: wire.simps)
qed

lemma demo_scan_sent:
  "concat (fst (send_message_to_agent (demo_client_world [wire demo_ack, wire demo_scan]) demo_host (type_code DockerFullScan) []))
     = wire demo_hello @ wire demo_scan_request"
proof -
  obtain cs where "read_message [wire demo_ack, wire demo_scan] = Some ((header_of demo_ack, payload_of demo_ack), cs)"
    using read_message_wire [OF demo_requests_ok(3), of "[wire demo_ack, wire demo_scan]" "wire demo_scan"]
      wire_nonempty [of demo_ack] wire_nonempty [of demo_scan] by (auto simp del: wire.simps)
  then show ?thesis using demo_connects [of "[wire demo_ack, wire demo_scan]"]
    by (simp add: send_message_to_agent_def demo_client_world_def client_hello_wire Let_def del: wire.simps split: option.splits)
      (simp add: demo_client_world_def)
qed

lemma scan_reaches_controller_example:
  "snd (send_message_to_agent (demo_client_world [wire demo_ack, wire demo_scan]) demo_host (type_code DockerFullScan) []) =
     Some (generate_full_scan_json (rw_scan demo_request_world) ''unknown'')"
proof -
  let ?W = "demo_client_world [wire demo_ack, wire demo_scan]" and ?cs = "[wire demo_hello, wire demo_scan_request]"
  have label: "ao_server_label default_options = ''unknown''" by (simp add: default_options_def)
  have "snd (send_message_to_agent ?W demo_host (type_code DockerFullScan) []) =
      Some (generate_full_scan_json (rw_scan demo_request_world) (ao_server_label default_options))"
  proof (rule scan_reaches_controller [where Ws = "\<lambda>_. demo_request_world" and cs = ?cs and fs = Map.empty])
    show "ao_auth_token default_options = []" "ao_enable_docker_monitoring default_options" by (simp_all add: default_options_def)
    show "length (cw_padding ?W) = 3" "cw_hello_sent ?W" "cw_request_sent ?W" by (simp_all add: demo_client_world_def)
    show "length (rw_padding demo_request_world) = 3" "length (rw_padding demo_request_world) = 3"
      by (simp_all add: demo_request_world_def)
    show "connects ?W demo_host" by (rule demo_connects)
    show "length (generate_full_scan_json (rw_scan demo_request_world) (ao_server_label default_options)) \<le> MAX_PAYLOAD_SIZE"
      using demo_scan_size label by (simp add: MAX_PAYLOAD_SIZE_def)
    show "pieces_ok ?cs" "pieces_ok (cw_incoming ?W)"
      using wire_nonempty [of demo_hello] wire_nonempty [of demo_scan_request] wire_nonempty [of demo_ack] wire_nonempty [of demo_scan]
      by (simp_all add: demo_client_world_def del: wire.simps)
    show "concat ?cs = concat (fst (send_message_to_agent ?W demo_host (type_code DockerFullScan) []))"
      unfolding demo_scan_sent by (simp del: wire.simps)
    show "concat (cw_incoming ?W) = packets (fst (handle_client default_options (\<lambda>_. demo_request_world) ?cs Map.empty))"
      unfolding demo_answered by (simp add: demo_client_world_def demo_request_world_def del: wire.simps)
  qed
  then show ?thesis unfolding label .
qed

end
