(* ===== verification/Docker_Scan_Parse.thy ===== *)
theory Docker_Scan_Parse
  imports Docker_Client
begin

text \<open>
  What the control center's JSON helpers find in the text the agent's scanner prints: the fields of an object, the
  objects of a section, and where they fall short of a JSON reader.
\<close>

section \<open>Escaped texts\<close>

definition inert :: "char \<Rightarrow> bool" where
  "inert c \<longleftrightarrow> c \<notin> {CHR 0x22, CHR 0x5C, CHR ''['', CHR '']'', CHR ''{'', CHR ''}''}"

lemma hex_digit_inert: "n < 16 \<Longrightarrow> inert (hex_digit n)"
proof -
  assume "n < 16"
  then have "n \<in> set [0..<16]" by simp
  moreover have "\<forall>n\<in>set [0..<16]. inert (hex_digit n)" by code_simp
  ultimately show ?thesis by blast
qed

lemma to_hex_inert: "list_all inert (to_hex [c])"
proof -
  have "of_char c div 16 < (16 :: nat)" "of_char c mod 16 < (16 :: nat)"
    using of_char_less [of c] by (simp_all add: less_mult_imp_div_less)
  then show ?thesis by (simp add: to_hex_def hex_digit_inert)
qed

text \<open>A character is printed as itself, or as a backslash, one more character and inert ones.\<close>

lemma escape_char_shape:
  obtains (plain) "escape_char c = [c]" "c \<noteq> CHR 0x22" "c \<noteq> CHR 0x5C"
  | (escaped) d w where "escape_char c = CHR 0x5C # d # w" "list_all inert w" "d \<notin> {CHR ''['', CHR '']'', CHR ''{'', CHR ''}''}"
proof -
  have "escape_char c = [c] \<and> c \<noteq> CHR 0x22 \<and> c \<noteq> CHR 0x5C \<or>
    (\<exists>d w. escape_char c = CHR 0x5C # d # w \<and> list_all inert w \<and> d \<notin> {CHR ''['', CHR '']'', CHR ''{'', CHR ''}''})"
    using to_hex_inert [of c] by (simp add: escape_char_def inert_def)
  then show ?thesis using that by blast
qed

lemma escape_json_Cons: "escape_json (c # v) = escape_char c @ escape_json v"
  by (simp add: escape_json_def)

lemma escape_json_Nil [simp]: "escape_json v = [] \<longleftrightarrow> v = []"
proof (cases v)
  case (Cons c w)
  then show ?thesis by (cases c rule: escape_char_shape) (simp_all add: escape_json_Cons)
qed (simp add: escape_json_def)

lemma string_body_inert: "list_all inert w \<Longrightarrow> string_body (w @ s) = w @ string_body s"
  by (induction w) (auto simp: inert_def)

lemma string_body_escape: "string_body (escape_json v @ CHR 0x22 # r) = escape_json v"
proof (induction v)
  case Nil
  then show ?case by (simp add: escape_json_def)
next
  case (Cons c v)
  show ?case
    by (cases c rule: escape_char_shape) (simp_all add: escape_json_Cons Cons.IH string_body_inert)
qed

definition flat :: "string \<Rightarrow> bool" where
  "flat v \<longleftrightarrow> set v \<inter> {CHR ''['', CHR '']'', CHR ''{'', CHR ''}''} = {}"

lemma flat_simps [simp]: "flat []" "flat (c # v) \<longleftrightarrow> c \<notin> {CHR ''['', CHR '']'', CHR ''{'', CHR ''}''} \<and> flat v"
  "flat (u @ v) \<longleftrightarrow> flat u \<and> flat v"
  by (auto simp: flat_def)

lemma inert_flat: "list_all inert w \<Longrightarrow> flat w"
  by (induction w) (auto simp: inert_def)

lemma flat_escape: "flat v \<Longrightarrow> flat (escape_json v)"
proof (induction v)
  case Nil
  then show ?case by (simp add: escape_json_def)
next
  case (Cons c v)
  then show ?case by (cases c rule: escape_char_shape) (auto simp: escape_json_Cons inert_flat)
qed

section \<open>Finding a key\<close>

definition plain_key :: "string \<Rightarrow> bool" where
  "plain_key k \<longleftrightarrow> k \<noteq> [] \<and> list_all (\<lambda>c. islower c \<or> c = CHR ''_'') k"

lemma plain_key_chars: "plain_key k \<Longrightarrow> c \<in> set k \<Longrightarrow> c \<notin> {CHR 0x22, CHR 0x5C, CHR '':'', CHR '','', CHR '' '', nl}"
  by (auto simp: plain_key_def list_all_iff islower_def nl_def)

lemma key_pattern_Cons: "key_pattern k = CHR 0x22 # k @ [CHR 0x22, CHR '':'']"
  by (simp add: key_pattern_def)

lemma text_after_skip: "c \<noteq> CHR 0x22 \<Longrightarrow> text_after (key_pattern k) (c # s) = text_after (key_pattern k) s"
  by (simp add: key_pattern_Cons)

declare text_after.simps [simp del]

lemma text_after_skip_all: "CHR 0x22 \<notin> set x \<Longrightarrow> text_after (key_pattern k) (x @ s) = text_after (key_pattern k) s"
  by (induction x) (auto simp: text_after_skip)

lemma text_after_quote:
  "take (length k + 2) s \<noteq> k @ [CHR 0x22, CHR '':''] \<Longrightarrow> text_after (key_pattern k) (CHR 0x22 # s) = text_after (key_pattern k) s"
  by (simp add: key_pattern_Cons text_after.simps)

text \<open>The opening quote of a printed value, and an escaped one inside of it, do not start a key.\<close>

lemma no_key_in_value:
  assumes "r = [] \<or> hd r \<noteq> CHR '':''" "CHR 0x22 \<notin> set k" "CHR 0x5C \<notin> set k"
  shows "take (length k + 2) (escape_json v @ CHR 0x22 # r) \<noteq> k @ [CHR 0x22, CHR '':'']"
  using assms(2,3)
proof (induction v arbitrary: k)
  case Nil
  then show ?case using assms(1) by (cases k; cases r) (auto simp: escape_json_def)
next
  case (Cons c v)
  show ?case
  proof (cases c rule: escape_char_shape)
    case plain
    then show ?thesis using Cons by (cases k) (auto simp: escape_json_Cons)
  next
    case (escaped d w)
    then show ?thesis using Cons.prems by (cases k) (auto simp: escape_json_Cons)
  qed
qed

lemma text_after_value:
  assumes k: "plain_key k" and r: "r = [] \<or> hd r \<noteq> CHR '':''"
  shows "text_after (key_pattern k) (escape_json v @ CHR 0x22 # r) = text_after (key_pattern k) (CHR 0x22 # r)"
proof (induction v)
  case Nil
  then show ?case by (simp add: escape_json_def)
next
  case (Cons c v)
  have nk: "CHR 0x22 \<notin> set k" "CHR 0x5C \<notin> set k" using plain_key_chars [OF k] by auto
  show ?case
  proof (cases c rule: escape_char_shape)
    case plain
    then show ?thesis by (simp add: escape_json_Cons text_after_skip Cons.IH)
  next
    case (escaped d w)
    have w: "CHR 0x22 \<notin> set w" using escaped(2) by (auto simp: list_all_iff inert_def)
    have t: "text_after (key_pattern k) (w @ escape_json v @ CHR 0x22 # r) = text_after (key_pattern k) (CHR 0x22 # r)"
      using text_after_skip_all [OF w] Cons.IH by simp
    show ?thesis
    proof (cases "d = CHR 0x22")
      case True
      then have "escape_char c = [CHR 0x5C, CHR 0x22]" using escaped(1) by (auto simp: escape_char_def split: if_splits)
      then have "w = []" using escaped(1) by simp
      then show ?thesis using True escaped(1) t text_after_quote [OF no_key_in_value [OF r nk, of v]]
        by (simp add: escape_json_Cons text_after_skip)
    next
      case False
      then show ?thesis using escaped(1) t by (simp add: escape_json_Cons text_after_skip)
    qed
  qed
qed

text \<open>A printed key that is another one, and one that is the one looked for.\<close>

lemma text_after_other_key:
  assumes "plain_key k" "plain_key j" "j \<noteq> k"
  shows "text_after (key_pattern k) (CHR 0x22 # j @ CHR 0x22 # CHR '':'' # CHR '' '' # s) = text_after (key_pattern k) s"
proof -
  have q: "CHR 0x22 \<notin> set j" "CHR 0x22 \<notin> set k" using plain_key_chars assms(1,2) by auto
  have "take (length k + 2) (j @ CHR 0x22 # t) \<noteq> k @ [CHR 0x22, CHR '':'']" for t
    using q assms(3)
  proof (induction j arbitrary: k)
    case Nil
    then show ?case by (cases k) auto
  next
    case (Cons c j)
    then show ?case by (cases k) auto
  qed
  from text_after_quote [OF this] have "text_after (key_pattern k) (CHR 0x22 # j @ CHR 0x22 # CHR '':'' # CHR '' '' # s) =
      text_after (key_pattern k) (CHR 0x22 # CHR '':'' # CHR '' '' # s)" using text_after_skip_all [OF q(1)] by simp
  also have "\<dots> = text_after (key_pattern k) (CHR '':'' # CHR '' '' # s)"
    using assms(1) plain_key_chars [OF assms(1)] by (intro text_after_quote) (cases k; auto simp: plain_key_def)
  finally show ?thesis by (simp add: text_after_skip)
qed

lemma text_after_same_key: "text_after (key_pattern k) (CHR 0x22 # k @ CHR 0x22 # CHR '':'' # s) = Some s"
  by (simp add: key_pattern_Cons text_after.simps)

lemma text_after_end_quote:
  assumes "plain_key k" "c = CHR '','' \<or> c = nl"
  shows "text_after (key_pattern k) (CHR 0x22 # c # s) = text_after (key_pattern k) s"
proof -
  have "text_after (key_pattern k) (CHR 0x22 # c # s) = text_after (key_pattern k) (c # s)"
    using assms plain_key_chars [OF assms(1)] by (intro text_after_quote) (cases k; auto simp: plain_key_def)
  then show ?thesis using assms(2) by (auto simp: text_after_skip nl_def)
qed

lemma text_after_quoted:
  assumes "plain_key k" "c = CHR '','' \<or> c = nl"
  shows "text_after (key_pattern k) (CHR 0x22 # escape_json v @ CHR 0x22 # c # s) = text_after (key_pattern k) s"
proof -
  have c: "c # s = [] \<or> hd (c # s) \<noteq> CHR '':''" using assms(2) by (auto simp: nl_def)
  have "text_after (key_pattern k) (CHR 0x22 # escape_json v @ CHR 0x22 # c # s) = text_after (key_pattern k) (escape_json v @ CHR 0x22 # c # s)"
    using no_key_in_value [OF c] plain_key_chars [OF assms(1)] by (intro text_after_quote) auto
  then show ?thesis using text_after_value [OF assms(1) c] text_after_end_quote [OF assms] by simp
qed

section \<open>Members of an object\<close>

lemma text_member_skip:
  assumes "plain_key k" "plain_key j" "j \<noteq> k" "c = CHR '','' \<or> c = nl"
  shows "text_after (key_pattern k) (text_member j v @ c # s) = text_after (key_pattern k) s"
  using text_after_other_key [OF assms(1-3)] text_after_quoted [OF assms(1,4)]
  by (simp add: text_member_def text_after_skip)

lemma printed_number_chars: "c \<in> set (to_string i) \<Longrightarrow> isdigit c \<or> c = CHR ''-''"
  using nat_digits_props by (auto simp: to_string_def split: if_splits)

lemma raw_member_skip:
  assumes "plain_key k" "plain_key j" "j \<noteq> k" "c = CHR '','' \<or> c = nl"
  shows "text_after (key_pattern k) (raw_member j (to_string i) @ c # s) = text_after (key_pattern k) s"
proof -
  have "CHR 0x22 \<notin> set (to_string i @ [c])" using printed_number_chars [of "CHR 0x22" i] assms(4) by (auto simp: isdigit_def nl_def)
  from text_after_skip_all [OF this] show ?thesis
    using text_after_other_key [OF assms(1-3)] by (simp add: raw_member_def text_after_skip)
qed

lemma text_member_found:
  "text_after (key_pattern k) (text_member k v @ s) = Some (CHR '' '' # CHR 0x22 # escape_json v @ CHR 0x22 # s)"
  using text_after_same_key by (simp add: text_member_def text_after_skip)

lemma raw_member_found: "text_after (key_pattern k) (raw_member k v @ s) = Some (CHR '' '' # v @ s)"
  using text_after_same_key by (simp add: raw_member_def text_after_skip)

lemma extract_found:
  "text_after (key_pattern k) json = Some (CHR '' '' # CHR 0x22 # escape_json v @ CHR 0x22 # s) \<Longrightarrow> extract_json_string json k = escape_json v"
  by (simp add: extract_json_string_def skip_blanks_def line_blanks_def string_body_escape)

lemma extract_int_found:
  assumes "text_after (key_pattern k) json = Some (CHR '' '' # to_string i @ c # s)" "0 \<le> i" "i < 2 ^ 63" "c = CHR '','' \<or> c = nl"
  shows "extract_json_int json k = i"
proof -
  have d: "to_string i \<noteq> []" "\<forall>x\<in>set (to_string i). isdigit x" using assms(2) nat_digits_props [of "nat i"] by (auto simp: to_string_def)
  then have "skip_blanks line_blanks (CHR '' '' # to_string i @ c # s) = to_string i @ c # s"
    by (cases "to_string i") (auto simp: skip_blanks_def line_blanks_def isdigit_def)
  moreover have "takeWhile isdigit (to_string i @ c # s) = to_string i"
    using d(2) assms(4) by (auto simp: takeWhile_append isdigit_def nl_def)
  ultimately show ?thesis using assms d(1) by (simp add: extract_json_int_def stoll_to_string)
qed

lemmas member_laws = text_member_skip raw_member_skip text_member_found raw_member_found text_after_skip

section \<open>Containers\<close>

text \<open>The printed container without its indentation, and the record the control center makes of it.\<close>

definition container_object :: "agent_container \<Rightarrow> string" where
  "container_object c = drop 4 (container_json c)"

definition received :: "agent_container \<Rightarrow> container_info" where
  "received c = \<lparr>ct_id = escape_json (ac_id c), ct_name = escape_json (ac_name c), ct_image = escape_json (ac_image c),
     ct_state = escape_json (ac_state c), ct_status = escape_json (ac_status c), ct_created = ac_created c,
     ct_ports = ''[]'', ct_volumes = ''[]'', ct_networks = ''[]'', ct_service = escape_json (ac_service_name c),
     ct_depends = ''[]'', ct_labels = ''{}'', ct_health = escape_json (ac_health_status c),
     ct_restart = escape_json (ac_restart_policy c)\<rparr>"

lemma container_keys: "plain_key ''id''" "plain_key ''name''" "plain_key ''image''" "plain_key ''state''" "plain_key ''status''"
  "plain_key ''created''" "plain_key ''service_name''" "plain_key ''health_status''" "plain_key ''restart_policy''"
  by (simp_all add: plain_key_def islower_def)

lemma container_object_members:
  "container_object c = CHR ''{'' # nl # text_member ''id'' (ac_id c) @ CHR '','' # nl # text_member ''name'' (ac_name c) @ CHR '','' # nl #
     text_member ''image'' (ac_image c) @ CHR '','' # nl # text_member ''state'' (ac_state c) @ CHR '','' # nl #
     text_member ''status'' (ac_status c) @ CHR '','' # nl # raw_member ''created'' (to_string (ac_created c)) @ CHR '','' # nl #
     text_member ''service_name'' (ac_service_name c) @ CHR '','' # nl # text_member ''health_status'' (ac_health_status c) @ CHR '','' # nl #
     text_member ''restart_policy'' (ac_restart_policy c) @ nl # ''    }''"
  by (simp add: container_object_def container_json_def json_object_def)

lemma nl_not_quote [simp]: "nl \<noteq> CHR 0x22"
  by (simp add: nl_def)

lemma text_member_found_in: "text_after (key_pattern k) (text_member k v @ s) = Some (CHR '' '' # CHR 0x22 # escape_json v @ CHR 0x22 # s)"
  by (rule text_member_found)

lemma extract_member:
  "text_after (key_pattern k) obj = text_after (key_pattern k) (text_member k v @ s) \<Longrightarrow> extract_json_string obj k = escape_json v"
  using extract_found text_member_found by metis

lemma parsed_container_object:
  assumes "0 \<le> ac_created c" "ac_created c < 2 ^ 63"
  shows "parsed_container (container_object c) = received c"
proof -
  note skip = container_object_members text_after_skip text_member_skip raw_member_skip container_keys
  have "extract_json_string (container_object c) ''id'' = escape_json (ac_id c)" by (rule extract_member) (simp add: skip)
  moreover have "extract_json_string (container_object c) ''name'' = escape_json (ac_name c)" by (rule extract_member) (simp add: skip)
  moreover have "extract_json_string (container_object c) ''image'' = escape_json (ac_image c)" by (rule extract_member) (simp add: skip)
  moreover have "extract_json_string (container_object c) ''state'' = escape_json (ac_state c)" by (rule extract_member) (simp add: skip)
  moreover have "extract_json_string (container_object c) ''status'' = escape_json (ac_status c)" by (rule extract_member) (simp add: skip)
  moreover have "extract_json_string (container_object c) ''service_name'' = escape_json (ac_service_name c)"
    by (rule extract_member) (simp add: skip)
  moreover have "extract_json_string (container_object c) ''health_status'' = escape_json (ac_health_status c)"
    by (rule extract_member) (simp add: skip)
  moreover have "extract_json_string (container_object c) ''restart_policy'' = escape_json (ac_restart_policy c)"
    by (rule extract_member) (simp add: skip)
  moreover have "extract_json_int (container_object c) ''created'' = ac_created c"
    by (rule extract_int_found [OF _ assms, where c = "CHR '',''"]) (simp_all add: skip raw_member_found)
  ultimately show ?thesis by (simp add: parsed_container_def received_def)
qed

section \<open>Objects and arrays\<close>

lemma braced_flat: "CHR ''{'' \<notin> set x \<Longrightarrow> CHR ''}'' \<notin> set x \<Longrightarrow> braced 1 (x @ CHR ''}'' # r) = (x @ [CHR ''}''], r)"
proof (induction x)
  case Nil
  have "braced 0 r = ([], r)" by (cases r) simp_all
  then show ?case by simp
qed auto

lemma objects_none: "CHR ''{'' \<notin> set x \<Longrightarrow> objects x = []"
proof -
  assume "CHR ''{'' \<notin> set x"
  then have "dropWhile (\<lambda>c. c \<noteq> CHR ''{'') x = []" by (induction x) auto
  then show ?thesis by (subst objects.simps) (simp only: list.case)
qed

lemma objects_Cons:
  assumes "CHR ''{'' \<notin> set sep" "CHR ''{'' \<notin> set x" "CHR ''}'' \<notin> set x"
  shows "objects (sep @ CHR ''{'' # x @ CHR ''}'' # r) = (CHR ''{'' # x @ [CHR ''}'']) # objects r"
proof -
  have "dropWhile (\<lambda>c. c \<noteq> CHR ''{'') (sep @ t) = dropWhile (\<lambda>c. c \<noteq> CHR ''{'') t" for t
    using assms(1) by (induction sep) auto
  then show ?thesis using braced_flat [OF assms(2,3)] by (subst objects.simps) simp
qed

lemma objects_items:
  assumes "\<And>b. b \<in> set bodies \<Longrightarrow> CHR ''{'' \<notin> set b \<and> CHR ''}'' \<notin> set b" "CHR ''{'' \<notin> set pre" "CHR ''{'' \<notin> set tail"
  shows "objects (pre @ join_with ('','' @ [nl]) (map (\<lambda>b. ''    {'' @ b @ ''}'') bodies) @ tail) = map (\<lambda>b. CHR ''{'' # b @ [CHR ''}'']) bodies"
  using assms(1,2)
proof (induction bodies arbitrary: pre)
  case Nil
  then show ?case using assms(3) by (simp add: objects_none)
next
  case (Cons b bs)
  have b: "CHR ''{'' \<notin> set (pre @ ''    '')" "CHR ''{'' \<notin> set b" "CHR ''}'' \<notin> set b" using Cons.prems by auto
  show ?case
  proof (cases "bs = []")
    case True
    then show ?thesis using objects_Cons [OF b, of tail] objects_none [OF assms(3)] by simp
  next
    case False
    then show ?thesis using objects_Cons [OF b] Cons.IH [of "'','' @ [nl]"] Cons.prems by (simp add: nl_def)
  qed
qed

lemma bracketed_flat:
  "CHR ''['' \<notin> set x \<Longrightarrow> CHR '']'' \<notin> set x \<Longrightarrow> bracketed 1 (x @ CHR '']'' # r) = Some (x @ [CHR '']''])"
  by (induction x) auto

lemma extract_section:
  assumes "text_after (key_pattern k) json = Some (CHR '' '' # CHR ''['' # x @ CHR '']'' # r)" "CHR ''['' \<notin> set x" "CHR '']'' \<notin> set x"
  shows "array_objects json k = objects (x @ [CHR '']''])"
  using assms bracketed_flat [OF assms(2,3), of r]
  by (simp add: array_objects_def extract_json_array_def skip_blanks_def line_blanks_def nl_def)

text \<open>Container texts without brackets and braces.\<close>

definition flat_container :: "agent_container \<Rightarrow> bool" where
  "flat_container c \<longleftrightarrow> list_all flat [ac_id c, ac_name c, ac_image c, ac_state c, ac_status c, ac_service_name c, ac_health_status c,
     ac_restart_policy c] \<and> 0 \<le> ac_created c \<and> ac_created c < 2 ^ 63"

definition container_body :: "agent_container \<Rightarrow> string" where
  "container_body c = butlast (tl (container_object c))"

lemma container_body: "container_object c = CHR ''{'' # container_body c @ [CHR ''}'']" "container_json c = ''    {'' @ container_body c @ ''}''"
  by (simp_all add: container_body_def container_object_def container_json_def json_object_def butlast_append)

lemma flat_to_string: "flat (to_string i)"
  using printed_number_chars [of _ i] by (force simp: flat_def isdigit_def)

lemma flat_nl [simp]: "nl \<notin> {CHR ''['', CHR '']'', CHR ''{'', CHR ''}''}"
  by (simp add: nl_def)

lemma flat_body: "flat_container c \<Longrightarrow> flat (container_body c)"
  using flat_nl
  by (simp add: container_body_def container_object_members butlast_append flat_container_def text_member_def raw_member_def
      flat_escape flat_to_string)

lemma flat_items: "list_all flat ws \<Longrightarrow> flat sep \<Longrightarrow> flat (join_with sep ws)"
  by (induction ws) auto

lemma server_label_key: "plain_key ''server_label''" "plain_key ''timestamp''" "plain_key ''containers''"
  by (simp_all add: plain_key_def islower_def)

text \<open>The containers section is the first one, behind the label and the time.\<close>

lemma containers_section:
  obtains rest where "text_after (key_pattern ''containers'') (generate_full_scan_json W label) =
    Some (CHR '' '' # CHR ''['' # (nl # join_with ('','' @ [nl]) (map container_json (Agent_Scanner.list_containers W)) @ nl # ''  '') @ CHR '']'' # rest)"
proof -
  have t: "CHR 0x22 \<notin> set (to_string i)" for i using printed_number_chars [of "CHR 0x22" i] by (auto simp: isdigit_def)
  note k = server_label_key
  show ?thesis
    using text_after_other_key [OF k(3,1)] text_after_other_key [OF k(3,2)] text_after_quoted [OF k(3), of "CHR '',''"]
      text_after_skip_all [OF t] text_after_same_key [of "''containers''"]
    by (intro that) (simp add: generate_full_scan_json_def json_section_def text_after_skip)
qed

lemma flat_json_brackets:
  assumes "list_all flat_container cs"
  shows "CHR ''['' \<notin> set (join_with ('','' @ [nl]) (map container_json cs))" "CHR '']'' \<notin> set (join_with ('','' @ [nl]) (map container_json cs))"
  using assms flat_body by (induction cs) (auto simp: container_body(2) flat_def nl_def)

lemma scan_container_objects:
  assumes "list_all flat_container (Agent_Scanner.list_containers W)"
  shows "array_objects (generate_full_scan_json W label) ''containers'' = map container_object (Agent_Scanner.list_containers W)"
proof -
  let ?cs = "Agent_Scanner.list_containers W"
  let ?j = "join_with ('','' @ [nl]) (map container_json ?cs)"
  obtain rest where "text_after (key_pattern ''containers'') (generate_full_scan_json W label) =
      Some (CHR '' '' # CHR ''['' # (nl # ?j @ nl # ''  '') @ CHR '']'' # rest)" by (rule containers_section)
  then have "array_objects (generate_full_scan_json W label) ''containers'' = objects ((nl # ?j @ nl # ''  '') @ [CHR '']''])"
    using flat_json_brackets [OF assms] by (intro extract_section) (auto simp: nl_def)
  moreover have "objects ([nl] @ join_with ('','' @ [nl]) (map (\<lambda>b. ''    {'' @ b @ ''}'') (map container_body ?cs)) @ nl # ''  ]'') =
      map (\<lambda>b. CHR ''{'' # b @ [CHR ''}'']) (map container_body ?cs)"
    using assms flat_body by (intro objects_items) (auto simp: list_all_iff flat_def nl_def)
  moreover have "map container_json ?cs = map (\<lambda>b. ''    {'' @ b @ ''}'') (map container_body ?cs)"
    "map container_object ?cs = map (\<lambda>b. CHR ''{'' # b @ [CHR ''}'']) (map container_body ?cs)"
    by (simp_all add: map_eq_conv container_body)
  ultimately show ?thesis by simp
qed

lemma store_each_fold:
  "store_each key put objs c =
     (fold (\<lambda>obj c. fst (put obj c)) (filter (\<lambda>b. extract_json_string b key \<noteq> []) objs) c,
      int (length (filter (\<lambda>b. extract_json_string b key \<noteq> []) objs)))"
proof -
  have "fold (\<lambda>obj (c, n). if extract_json_string obj key = [] then (c, n) else (fst (put obj c), n + 1)) objs (c, n) =
      (fold (\<lambda>obj c. fst (put obj c)) (filter (\<lambda>b. extract_json_string b key \<noteq> []) objs) c,
       n + int (length (filter (\<lambda>b. extract_json_string b key \<noteq> []) objs)))" for n
    by (induction objs arbitrary: c n) auto
  then show ?thesis by (simp add: store_each_def)
qed

lemma received_id: "ct_id (received c) = [] \<longleftrightarrow> ac_id c = []"
  by (simp add: received_def escape_json_Nil)

text \<open>
  \<^bold>\<open>C13\<close> Containers survive the way to the control center: reading the text of a full scan whose container texts
  hold no brackets or braces gives back every container, in order and with all its fields as \<open>escape_json\<close> printed them
  (the reader does not undo the escapes). Each container with an identifier is given to \<open>upsert_container\<close> once,
  in this order, with exactly these fields, and nothing else is done to the database; the count that is reported is the number
  of these calls, whatever the store answers - also when it refuses a container.
\<close>

theorem containers_survive_the_wire:
  assumes "list_all flat_container (Agent_Scanner.list_containers W)"
  shows "map parsed_container (array_objects (generate_full_scan_json W label) ''containers'') = map received (Agent_Scanner.list_containers W) \<and>
    store_container_objects now sid (generate_full_scan_json W label) c =
      (let known = filter (\<lambda>i. ct_id i \<noteq> []) (map received (Agent_Scanner.list_containers W))
       in (fold (\<lambda>i c. fst (upsert_container now sid i c)) known c, int (length known)))"
proof -
  let ?cs = "Agent_Scanner.list_containers W"
  have p: "parsed_container (container_object c) = received c" if "c \<in> set ?cs" for c
    using that assms by (intro parsed_container_object) (auto simp: list_all_iff flat_container_def)
  then have i: "extract_json_string (container_object c) ''id'' = [] \<longleftrightarrow> ct_id (received c) = []" if "c \<in> set ?cs" for c
    using that by (metis container_info.select_convs(1) parsed_container_def)
  have objs: "map parsed_container (map container_object ?cs) = map received ?cs" using p by simp
  have kept: "filter (\<lambda>b. extract_json_string b ''id'' \<noteq> []) (map container_object ?cs) =
      map container_object (filter (\<lambda>c. ct_id (received c) \<noteq> []) ?cs)"
  proof -
    have "filter (\<lambda>x. extract_json_string (container_object x) ''id'' \<noteq> []) ?cs = filter (\<lambda>c. ct_id (received c) \<noteq> []) ?cs"
      by (rule filter_cong) (simp_all add: i)
    then show ?thesis unfolding filter_map comp_def by (rule arg_cong)
  qed
  have known: "filter (\<lambda>i. ct_id i \<noteq> []) (map received ?cs) = map received (filter (\<lambda>c. ct_id (received c) \<noteq> []) ?cs)"
    by (simp add: filter_map comp_def)
  have calls: "fold (\<lambda>obj c. fst (upsert_container now sid (parsed_container obj) c)) (map container_object xs) c =
      fold (\<lambda>i c. fst (upsert_container now sid i c)) (map received xs) c" if "set xs \<subseteq> set ?cs" for xs
    using that p by (induction xs arbitrary: c) auto
  have "store_container_objects now sid (generate_full_scan_json W label) c =
      (let known = filter (\<lambda>i. ct_id i \<noteq> []) (map received ?cs)
       in (fold (\<lambda>i c. fst (upsert_container now sid i c)) known c, int (length known)))"
    unfolding store_container_objects_def store_each_fold scan_container_objects [OF assms] kept known Let_def
    using calls [of "filter (\<lambda>c. ct_id (received c) \<noteq> []) ?cs"] by simp
  then show ?thesis unfolding scan_container_objects [OF assms] using objs by simp
qed

definition two_containers :: scan_world where
  "two_containers = \<lparr>sw_popen = \<lambda>cmd. if cmd = ps_command
       then Some (''{'' @ [CHR 0x22] @ ''ID'' @ [CHR 0x22, CHR '':'', CHR 0x22] @ ''0123456789abcdef'' @ [CHR 0x22] @ ''}'' @ [nl] @
         ''{'' @ [CHR 0x22] @ ''Names'' @ [CHR 0x22, CHR '':'', CHR 0x22] @ ''web'' @ [CHR 0x22] @ ''}'' @ [nl]) else None,
     sw_hostname = None, sw_walk = \<lambda>_. None, sw_read = \<lambda>_. None, sw_sha256 = \<lambda>_. [], sw_now = 5, sw_indeterminate = 0\<rparr>"

lemma two_containers_listed:
  "Agent_Scanner.list_containers two_containers =
     [(fresh_container two_containers)\<lparr>ac_id := ''0123456789ab''\<rparr>, (fresh_container two_containers)\<lparr>ac_name := ''web''\<rparr>]"
  by code_simp

theorem containers_survive_the_wire_witness:
  "store_container_objects 1 2 (generate_full_scan_json two_containers ''tank'') demo_server =
     (fst (upsert_container 1 2 (received ((fresh_container two_containers)\<lparr>ac_id := ''0123456789ab''\<rparr>)) demo_server), 1)"
proof -
  have "list_all flat_container (Agent_Scanner.list_containers two_containers)"
    unfolding two_containers_listed by (simp add: flat_container_def fresh_container_def two_containers_def)
  from containers_survive_the_wire [OF this, of "''tank''" 1 2 demo_server] show ?thesis
    unfolding two_containers_listed by (simp add: fresh_container_def received_id Let_def)
qed

end
