(* ===== verification/Git_Client.thy ===== *)
theory Git_Client
  imports System_Process
begin

text \<open>
  The wrapper around the \<open>git\<close> program (\<open>src/modules/git/src/client.cpp\<close>): the command lines it builds, and how it
  reads what \<open>git status\<close>, \<open>git remote\<close> and \<open>git config\<close> print. \<open>git\<close>, the shell and the file system are one state
  that commands change; a query leaves it as it is.
\<close>

section \<open>The world\<close>

record 's git_world =
  gw_system :: "string \<Rightarrow> 's \<Rightarrow> int \<times> 's"
  gw_popen :: "string \<Rightarrow> 's \<Rightarrow> string list option"
  gw_exists :: "string \<Rightarrow> 's \<Rightarrow> bool"

definition exec_cmd :: "'s git_world \<Rightarrow> string \<Rightarrow> 's \<Rightarrow> int \<times> 's" where
  "exec_cmd W cmd = gw_system W (c_string cmd)"

definition exec_output :: "'s git_world \<Rightarrow> string \<Rightarrow> 's \<Rightarrow> string" where
  "exec_output W cmd s =
     (case gw_popen W (c_string cmd) s of None \<Rightarrow> [] | Some chunks \<Rightarrow> trim_newline (concat (map c_string chunks)))"

definition exec_ok :: "'s git_world \<Rightarrow> string \<Rightarrow> 's \<Rightarrow> bool \<times> 's" where
  "exec_ok W cmd s = (case exec_cmd W cmd s of (rc, s') \<Rightarrow> (rc = 0, s'))"

definition cd_repo_prefix :: "string \<Rightarrow> string" where
  "cd_repo_prefix repo_path = ''cd '' @ shell_quote repo_path @ '' && ''"

section \<open>The state of a repository\<close>

datatype repo_state = NORMAL | MERGE | REBASE | REBASE_INTERACTIVE | REBASE_MERGE | CHERRY_PICK | REVERT | BISECT

definition detect_repo_state :: "'s git_world \<Rightarrow> string \<Rightarrow> 's \<Rightarrow> repo_state" where
  "detect_repo_state W repo_path s =
     (let git_dir = repo_path @ ''/.git'' in
      if gw_exists W (git_dir @ ''/rebase-merge'') s then REBASE_MERGE
      else if gw_exists W (git_dir @ ''/rebase-apply'') s then REBASE
      else if gw_exists W (git_dir @ ''/MERGE_HEAD'') s then MERGE
      else if gw_exists W (git_dir @ ''/CHERRY_PICK_HEAD'') s then CHERRY_PICK
      else if gw_exists W (git_dir @ ''/REVERT_HEAD'') s then REVERT
      else if gw_exists W (git_dir @ ''/BISECT_LOG'') s then BISECT
      else NORMAL)"

record git_status =
  gs_in_repo :: bool
  gs_has_commits :: bool
  gs_has_origin :: bool
  gs_branch :: string
  gs_upstream :: "string option"
  gs_modified :: int
  gs_staged :: int
  gs_untracked :: int
  gs_conflicted :: int
  gs_ahead :: int
  gs_behind :: int
  gs_origin_url :: "string option"
  gs_state :: repo_state
  gs_conflicted_files :: "string list"

definition fresh_status :: git_status where
  "fresh_status = \<lparr>gs_in_repo = False, gs_has_commits = False, gs_has_origin = False, gs_branch = [], gs_upstream = None,
     gs_modified = 0, gs_staged = 0, gs_untracked = 0, gs_conflicted = 0, gs_ahead = 0, gs_behind = 0, gs_origin_url = None,
     gs_state = NORMAL, gs_conflicted_files = []\<rparr>"

definition is_repo :: "'s git_world \<Rightarrow> string \<Rightarrow> 's \<Rightarrow> bool" where
  "is_repo W repo s = fst (exec_ok W (cd_repo_prefix repo @ ''git rev-parse --is-inside-work-tree >/dev/null 2>&1'') s)"

definition has_commits :: "'s git_world \<Rightarrow> string \<Rightarrow> 's \<Rightarrow> bool" where
  "has_commits W repo s = fst (exec_ok W (cd_repo_prefix repo @ ''git rev-parse HEAD >/dev/null 2>&1'') s)"

definition current_branch :: "'s git_world \<Rightarrow> string \<Rightarrow> 's \<Rightarrow> string" where
  "current_branch W repo s =
     (let branch = exec_output W (cd_repo_prefix repo @ ''git branch --show-current 2>/dev/null'') s
      in if branch = [] then ''main'' else branch)"

definition non_empty :: "string \<Rightarrow> string option" where
  "non_empty v = (if v = [] then None else Some v)"

definition get_origin :: "'s git_world \<Rightarrow> string \<Rightarrow> 's \<Rightarrow> string option" where
  "get_origin W repo s = non_empty (exec_output W (cd_repo_prefix repo @ ''git remote get-url origin 2>/dev/null'') s)"

section \<open>Reading \<open>git status --porcelain=v2 --branch\<close>\<close>

definition starts_with :: "string \<Rightarrow> string \<Rightarrow> bool" where
  "starts_with p s \<longleftrightarrow> take (length p) s = p"

definition find_from :: "char \<Rightarrow> nat \<Rightarrow> string \<Rightarrow> nat option" where
  "find_from c pos s = map_option (\<lambda>k. pos + k) (find_char c (drop pos s))"

definition or_zero :: "int option \<Rightarrow> int" where
  "or_zero i = (case i of None \<Rightarrow> 0 | Some n \<Rightarrow> n)"

definition ahead_behind :: "string \<Rightarrow> git_status \<Rightarrow> git_status" where
  "ahead_behind line st =
     (let plus = find_char (CHR ''+'') line;
          space_after_plus = (case plus of None \<Rightarrow> None | Some p \<Rightarrow> find_from (CHR '' '') p line);
          minus = find_from (CHR ''-'') (case space_after_plus of None \<Rightarrow> 0 | Some q \<Rightarrow> q) line;
          st1 = (case plus of
             None \<Rightarrow> st
           | Some p \<Rightarrow> st\<lparr>gs_ahead := or_zero (stoi (case space_after_plus of
                 Some q \<Rightarrow> substr line (p + 1) (q - p - 1) | None \<Rightarrow> drop (p + 1) line))\<rparr>)
      in case minus of None \<Rightarrow> st1 | Some m \<Rightarrow> st1\<lparr>gs_behind := or_zero (stoi (drop (m + 1) line))\<rparr>)"

text \<open>\<open>>>\<close> skips blanks and reads up to the next blank; what is left behind ten of them is the path.\<close>

definition skip_token :: "string \<Rightarrow> string" where
  "skip_token s = dropWhile (\<lambda>c. \<not> isspace c) (dropWhile isspace s)"

definition unmerged_path :: "string \<Rightarrow> string" where
  "unmerged_path line =
     (let rest = (skip_token ^^ 10) line
      in if rest \<noteq> [] \<and> hd rest = CHR '' '' then tl rest else rest)"

definition status_line :: "git_status \<Rightarrow> string \<Rightarrow> git_status" where
  "status_line st line =
     (if line = [] then st
      else if hd line = CHR ''#'' then
        (if starts_with ''# branch.head '' line then st\<lparr>gs_branch := drop 14 line\<rparr>
         else if starts_with ''# branch.upstream '' line then st\<lparr>gs_upstream := Some (drop 18 line)\<rparr>
         else if starts_with ''# branch.ab '' line then ahead_behind line st
         else st)
      else if hd line = CHR ''?'' then st\<lparr>gs_untracked := gs_untracked st + 1\<rparr>
      else if hd line = CHR ''!'' then st
      else if hd line = CHR ''u'' then
        (let st1 = st\<lparr>gs_conflicted := gs_conflicted st + 1\<rparr>; filename = unmerged_path line
         in if filename = [] then st1 else st1\<lparr>gs_conflicted_files := gs_conflicted_files st1 @ [filename]\<rparr>)
      else if 4 \<le> length line \<and> (hd line = CHR ''1'' \<or> hd line = CHR ''2'') then
        (let staged_code = line ! 2; worktree_code = line ! 3;
             st1 = (if staged_code \<noteq> CHR ''.'' \<and> staged_code \<noteq> CHR '' '' then st\<lparr>gs_staged := gs_staged st + 1\<rparr> else st)
         in if worktree_code \<noteq> CHR ''.'' \<and> worktree_code \<noteq> CHR '' '' then st1\<lparr>gs_modified := gs_modified st1 + 1\<rparr> else st1)
      else st)"

definition status :: "'s git_world \<Rightarrow> string \<Rightarrow> 's \<Rightarrow> git_status" where
  "status W repo s =
     (if \<not> is_repo W repo s then fresh_status
      else
        let origin = get_origin W repo s;
            st = fresh_status\<lparr>gs_in_repo := True, gs_has_commits := has_commits W repo s, gs_branch := current_branch W repo s,
              gs_origin_url := origin, gs_has_origin := (origin \<noteq> None), gs_state := detect_repo_state W repo s\<rparr>;
            status_out = exec_output W (cd_repo_prefix repo @ ''git status --porcelain=v2 --branch'') s;
            st' = foldl status_line st (getlines nl status_out)
        in if gs_branch st' = [] then st'\<lparr>gs_branch := current_branch W repo s\<rparr> else st')"

section \<open>Configuration\<close>

record git_config =
  gc_user_name :: "string option"
  gc_user_email :: "string option"
  gc_default_branch :: "string option"
  gc_core_editor :: "string option"
  gc_pull_rebase :: "string option"
  gc_push_default :: "string option"
  gc_color_ui :: "bool option"

definition no_config :: git_config where
  "no_config = \<lparr>gc_user_name = None, gc_user_email = None, gc_default_branch = None, gc_core_editor = None,
     gc_pull_rebase = None, gc_push_default = None, gc_color_ui = None\<rparr>"

definition get_config :: "'s git_world \<Rightarrow> 's \<Rightarrow> git_config" where
  "get_config W s = no_config\<lparr>gc_user_name := non_empty (exec_output W ''git config --global user.name'' s),
     gc_user_email := non_empty (exec_output W ''git config --global user.email'' s)\<rparr>"

definition in_repo_unless :: "bool \<Rightarrow> string \<Rightarrow> string \<Rightarrow> string" where
  "in_repo_unless global repo cmd = (if \<not> global \<and> repo \<noteq> [] then cd_repo_prefix repo @ cmd else cmd)"

definition scope_flag :: "bool \<Rightarrow> string" where
  "scope_flag global = (if global then ''--global'' else ''--local'')"

definition get_config_value :: "'s git_world \<Rightarrow> string \<Rightarrow> string \<Rightarrow> bool \<Rightarrow> 's \<Rightarrow> string option" where
  "get_config_value W repo key global s = non_empty (exec_output W
     (in_repo_unless global repo (''git config '' @ scope_flag global @ '' '' @ shell_quote key @ '' 2>/dev/null'')) s)"

definition set_config_value :: "'s git_world \<Rightarrow> string \<Rightarrow> string \<Rightarrow> string \<Rightarrow> bool \<Rightarrow> 's \<Rightarrow> bool \<times> 's" where
  "set_config_value W repo key v global = exec_ok W
     (in_repo_unless global repo (''git config '' @ scope_flag global @ '' '' @ shell_quote key @ '' '' @ shell_quote v))"

definition unset_config_value :: "'s git_world \<Rightarrow> string \<Rightarrow> string \<Rightarrow> bool \<Rightarrow> 's \<Rightarrow> bool \<times> 's" where
  "unset_config_value W repo key global = exec_ok W
     (in_repo_unless global repo (''git config '' @ scope_flag global @ '' --unset '' @ shell_quote key))"

definition get_full_config :: "'s git_world \<Rightarrow> string \<Rightarrow> bool \<Rightarrow> 's \<Rightarrow> git_config" where
  "get_full_config W repo global s =
     (let v = (\<lambda>key. get_config_value W repo key global s) in
      \<lparr>gc_user_name = v ''user.name'', gc_user_email = v ''user.email'', gc_default_branch = v ''init.defaultBranch'',
       gc_core_editor = v ''core.editor'', gc_pull_rebase = v ''pull.rebase'', gc_push_default = v ''push.default'',
       gc_color_ui = map_option (\<lambda>c. c = ''true'' \<or> c = ''auto'') (v ''color.ui'')\<rparr>)"

definition ensure_setting :: "'s git_world \<Rightarrow> string \<Rightarrow> string option \<Rightarrow> string \<Rightarrow> bool \<times> 's \<Rightarrow> bool \<times> 's" where
  "ensure_setting W key present v r =
     (if present = None \<or> present = Some [] then
        (case exec_ok W (''git config --global '' @ shell_quote key @ '' '' @ shell_quote v) (snd r) of (ok, s') \<Rightarrow> (fst r \<and> ok, s'))
      else r)"

definition ensure_identity :: "'s git_world \<Rightarrow> string \<Rightarrow> string \<Rightarrow> 's \<Rightarrow> bool \<times> 's" where
  "ensure_identity W name email s =
     (let cfg = get_config W s in
      ensure_setting W ''user.email'' (gc_user_email cfg) email (ensure_setting W ''user.name'' (gc_user_name cfg) name (True, s)))"

section \<open>Operations\<close>

definition init_command :: "string \<Rightarrow> string" where
  "init_command branch = ''git init'' @ (if branch = [] then [] else '' -b '' @ shell_quote branch)"

definition init :: "'s git_world \<Rightarrow> string \<Rightarrow> string \<Rightarrow> 's \<Rightarrow> bool \<times> 's" where
  "init W repo branch = exec_ok W (cd_repo_prefix repo @ init_command branch)"

definition add_command :: "string list \<Rightarrow> string" where
  "add_command fs = ''git add'' @ concat (map (\<lambda>f. '' '' @ shell_quote f) fs)"

definition add :: "'s git_world \<Rightarrow> string \<Rightarrow> string list \<Rightarrow> 's \<Rightarrow> bool \<times> 's" where
  "add W repo fs s = (if fs = [] then (True, s) else exec_ok W (cd_repo_prefix repo @ add_command fs) s)"

definition add_all :: "'s git_world \<Rightarrow> string \<Rightarrow> 's \<Rightarrow> bool \<times> 's" where
  "add_all W repo = exec_ok W (cd_repo_prefix repo @ ''git add -A'')"

definition commit_command :: "string \<Rightarrow> string" where
  "commit_command message = ''git commit -m '' @ shell_quote message"

definition commit :: "'s git_world \<Rightarrow> string \<Rightarrow> string \<Rightarrow> 's \<Rightarrow> bool \<times> 's" where
  "commit W repo message = exec_ok W (cd_repo_prefix repo @ commit_command message)"

text \<open>The text behind the directory prefix; \<open>current\<close> is the branch that is checked out.\<close>

definition push_command :: "string \<Rightarrow> string \<Rightarrow> string \<Rightarrow> string" where
  "push_command current remote branch =
     ''git push'' @ (if remote = [] then [] else '' '' @ shell_quote remote) @
     (if branch \<noteq> [] then '' '' @ shell_quote branch
      else if remote \<noteq> [] then '' -u '' @ shell_quote remote @ '' '' @ shell_quote current
      else [])"

definition push :: "'s git_world \<Rightarrow> string \<Rightarrow> string \<Rightarrow> string \<Rightarrow> 's \<Rightarrow> bool \<times> 's" where
  "push W repo remote branch s = exec_ok W (cd_repo_prefix repo @ push_command (current_branch W repo s) remote branch) s"

definition add_remote :: "'s git_world \<Rightarrow> string \<Rightarrow> string \<Rightarrow> string \<Rightarrow> 's \<Rightarrow> bool \<times> 's" where
  "add_remote W repo name url = exec_ok W (cd_repo_prefix repo @ ''git remote add '' @ shell_quote name @ '' '' @ shell_quote url)"

definition remove_remote :: "'s git_world \<Rightarrow> string \<Rightarrow> string \<Rightarrow> 's \<Rightarrow> bool \<times> 's" where
  "remove_remote W repo name = exec_ok W (cd_repo_prefix repo @ ''git remote remove '' @ shell_quote name)"

text \<open>A line gives a remote when it has three words and the third one contains \<open>fetch\<close>.\<close>

definition remote_of_line :: "string \<Rightarrow> (string \<times> string) option" where
  "remote_of_line line =
     (case words line of
        name # url # tp # _ \<Rightarrow> if \<exists>k \<in> set [0..<length tp]. starts_with ''fetch'' (drop k tp) then Some (name, url) else None
      | _ \<Rightarrow> None)"

definition list_remotes :: "'s git_world \<Rightarrow> string \<Rightarrow> 's \<Rightarrow> (string \<times> string) list" where
  "list_remotes W repo s =
     List.map_filter remote_of_line (getlines nl (exec_output W (cd_repo_prefix repo @ ''git remote -v'') s))"

end
