(* ===== verification/Git_Maintenance.thy ===== *)
theory Git_Maintenance
  imports Git_Client Nexus_Git_Store
begin

text \<open>
  Preparing repositories: ignore files and the first commit (\<open>src/modules/git/src/maintenance.cpp\<close>), bare
  repositories (\<open>src/modules/git/src/bare.cpp\<close>) and the records of migrations (\<open>src/modules/git/src/migration.cpp\<close>).
  Unlike \<^theory_text>\<open>Git_Client\<close> these files put texts between double quotes into their command lines.
\<close>

section \<open>Templates\<close>

datatype language = C | CPP | PYTHON | RUST | GO | JAVASCRIPT | UNKNOWN

definition common_ignores :: string where
  "common_ignores = unlines [
     ''# Common'', ''.DS_Store'', ''*.swp'', ''*.swo'', ''*~'', ''.direnv/'', ''.envrc'', []]"

definition c_ignores :: string where
  "c_ignores = unlines [
     ''# C/C++'', ''*.o'', ''*.a'', ''*.so'', ''*.dylib'', ''*.exe'', ''*.out'', ''build/'', ''.cache/'',
     ''compile_commands.json'']"

definition python_ignores :: string where
  "python_ignores = unlines [
     ''# Python'', ''__pycache__/'', ''*.py[cod]'', ''*$py.class'', ''*.so'', ''.Python'', ''.venv/'', ''venv/'',
     ''ENV/'', ''env/'', ''*.egg-info/'', ''dist/'', ''build/'', ''.pytest_cache/'', ''.coverage'', ''htmlcov/'']"

definition rust_ignores :: string where
  "rust_ignores = unlines [
     ''# Rust'', ''target/'', ''Cargo.lock'', ''**/*.rs.bk'']"

definition go_ignores :: string where
  "go_ignores = unlines [
     ''# Go'', ''*.exe'', ''*.exe~'', ''*.dll'', ''*.so'', ''*.dylib'', ''*.test'', ''*.out'', ''vendor/'']"

definition javascript_ignores :: string where
  "javascript_ignores = unlines [
     ''# JavaScript/Node'', ''node_modules/'', ''npm-debug.log*'', ''yarn-debug.log*'', ''yarn-error.log*'',
     ''.npm'', ''dist/'', ''build/'', ''.next/'']"

definition c_attributes :: string where
  "c_attributes = unlines [
     ''# C/C++'', ''*.c text'', ''*.cpp text'', ''*.h text'', ''*.hpp text'']"

definition python_attributes :: string where
  "python_attributes = unlines [
     ''# Python'', ''*.py text'', ''*.pyx text'', ''*.pyd binary'']"

definition get_gitignore_template :: "language \<Rightarrow> string" where
  "get_gitignore_template lang = common_ignores @
     (case lang of C \<Rightarrow> c_ignores | CPP \<Rightarrow> c_ignores | PYTHON \<Rightarrow> python_ignores | RUST \<Rightarrow> rust_ignores | GO \<Rightarrow> go_ignores
      | JAVASCRIPT \<Rightarrow> javascript_ignores | UNKNOWN \<Rightarrow> [])"

definition get_gitattributes_template :: "language \<Rightarrow> string" where
  "get_gitattributes_template lang =
     (case lang of C \<Rightarrow> c_attributes | CPP \<Rightarrow> c_attributes | PYTHON \<Rightarrow> python_attributes | _ \<Rightarrow> [])"

section \<open>Files\<close>

text \<open>Writing may fail (\<^const>\<open>None\<close>); creating directories and removing trees succeed or throw.\<close>

record 's repo_world = "'s git_world" +
  mw_is_file :: "string \<Rightarrow> 's \<Rightarrow> bool"
  mw_write :: "string \<Rightarrow> string \<Rightarrow> 's \<Rightarrow> 's option"
  mw_create_directories :: "string \<Rightarrow> 's \<Rightarrow> 's"
  mw_remove_all :: "string \<Rightarrow> 's \<Rightarrow> 's"
  mw_home :: "string option"

definition base :: "'s repo_world \<Rightarrow> 's git_world" where
  "base W = git_world.truncate W"

definition file_exists :: "'s repo_world \<Rightarrow> string \<Rightarrow> 's \<Rightarrow> bool" where
  "file_exists W path s \<longleftrightarrow> gw_exists W path s \<and> mw_is_file W path s"

definition write_template :: "'s repo_world \<Rightarrow> string \<Rightarrow> string \<Rightarrow> 's \<Rightarrow> bool \<times> 's" where
  "write_template W path content s = (case mw_write W path content s of None \<Rightarrow> (False, s) | Some s' \<Rightarrow> (True, s'))"

definition generate_gitignore :: "'s repo_world \<Rightarrow> language \<Rightarrow> string \<Rightarrow> 's \<Rightarrow> bool \<times> 's" where
  "generate_gitignore W lang repo_path s =
     (let path = repo_path @ ''/.gitignore'' in
      if file_exists W path s then (True, s) else write_template W path (get_gitignore_template lang) s)"

definition generate_gitattributes :: "'s repo_world \<Rightarrow> language \<Rightarrow> string \<Rightarrow> 's \<Rightarrow> bool \<times> 's" where
  "generate_gitattributes W lang repo_path s =
     (let path = repo_path @ ''/.gitattributes''; content = get_gitattributes_template lang in
      if file_exists W path s then (True, s)
      else if content = [] then (True, s)
      else write_template W path content s)"

definition double_quoted :: "string \<Rightarrow> string" where
  "double_quoted v = [CHR 0x22] @ v @ [CHR 0x22]"

definition cd_quoted :: "string \<Rightarrow> string" where
  "cd_quoted path = ''cd '' @ double_quoted path @ '' && ''"

definition initial_commit_command :: "string \<Rightarrow> string" where
  "initial_commit_command msg = ''git commit -m '' @ double_quoted msg"

definition ensure_initial_commit :: "'s repo_world \<Rightarrow> string \<Rightarrow> string \<Rightarrow> 's \<Rightarrow> bool \<times> 's" where
  "ensure_initial_commit W repo_path msg s =
     (case exec_cmd (base W) (cd_quoted repo_path @ ''git rev-parse HEAD >/dev/null 2>&1'') s of
        (rc, s1) \<Rightarrow>
          if rc = 0 then (True, s1)
          else exec_ok (base W) (cd_quoted repo_path @ ''git add -A && '' @ initial_commit_command msg) s1)"

section \<open>Bare repositories\<close>

definition get_home :: "'s repo_world \<Rightarrow> string" where
  "get_home W = (case mw_home W of None \<Rightarrow> ''/tmp'' | Some h \<Rightarrow> h)"

definition is_bare_repo :: "'s repo_world \<Rightarrow> string \<Rightarrow> 's \<Rightarrow> bool" where
  "is_bare_repo W path s \<longleftrightarrow> gw_exists W path s \<and>
     exec_output (base W) (cd_quoted path @ ''git rev-parse --is-bare-repository 2>/dev/null'') s = ''true''"

definition parent_of :: "string \<Rightarrow> string" where
  "parent_of path =
     (let p = rev (dropWhile (\<lambda>c. c = CHR ''/'') (dropWhile (\<lambda>c. c \<noteq> CHR ''/'') (rev path)))
      in if p = [] \<and> path \<noteq> [] \<and> hd path = CHR ''/'' then ''/'' else p)"

definition create_bare :: "'s repo_world \<Rightarrow> string \<Rightarrow> 's \<Rightarrow> bool \<times> 's" where
  "create_bare W path s =
     (if is_bare_repo W path s then (True, s)
      else
        let s1 = (if parent_of path \<noteq> [] then mw_create_directories W (parent_of path) s else s);
            s2 = (if gw_exists W path s1 then mw_remove_all W path s1 else s1)
        in exec_ok (base W) (''git init --bare '' @ double_quoted path) s2)"

definition link_to_bare :: "'s repo_world \<Rightarrow> string \<Rightarrow> string \<Rightarrow> 's \<Rightarrow> bool \<times> 's" where
  "link_to_bare W work_path bare_path s =
     (if \<not> is_bare_repo W bare_path s then (False, s)
      else
        let s1 = snd (exec_cmd (base W) (cd_quoted work_path @ ''git remote add origin '' @ double_quoted bare_path @ '' 2>/dev/null'') s)
        in exec_ok (base W) (cd_quoted work_path @ ''git remote set-url origin '' @ double_quoted bare_path) s1)"

definition clone_from_bare :: "'s repo_world \<Rightarrow> string \<Rightarrow> string \<Rightarrow> 's \<Rightarrow> bool \<times> 's" where
  "clone_from_bare W bare_path work_path s =
     (if \<not> is_bare_repo W bare_path s then (False, s)
      else exec_ok (base W) (''git clone '' @ double_quoted bare_path @ '' '' @ double_quoted work_path) s)"

definition default_bare_path :: "'s repo_world \<Rightarrow> string \<Rightarrow> 's \<Rightarrow> string \<times> 's" where
  "default_bare_path W project_name s =
     (let clones = get_home W @ ''/clones'' in (clones @ ''/'' @ project_name @ ''.git'', mw_create_directories W clones s))"

section \<open>Migrations\<close>

record local_repo =
  lr_name :: string
  lr_path :: string
  lr_branch_count :: int
  lr_tag_count :: int
  lr_size_bytes :: int

text \<open>\<open>entries\<close> are the directory's entries: name, path and whether each is a directory; \<^const>\<open>None\<close> when it is not there.\<close>

definition scan_local_repos :: "(string \<times> string \<times> bool) list option \<Rightarrow> local_repo list" where
  "scan_local_repos entries =
     (case entries of
        None \<Rightarrow> []
      | Some es \<Rightarrow> map (\<lambda>(name, path, _). \<lparr>lr_name = name, lr_path = path, lr_branch_count = 0, lr_tag_count = 0, lr_size_bytes = 0\<rparr>)
          (filter (\<lambda>(name, _, dir). dir \<and> 4 \<le> length name \<and> drop (length name - 4) name = ''.git'') es))"

definition fresh_migration :: repo_migration where
  "fresh_migration = \<lparr>rm_id = 0, rm_server_id = 0, rm_project_id = 0, rm_repo_name = [], rm_source_path = [], rm_started_at = 0,
     rm_completed_at = 0, rm_status = [], rm_branch_count = 0, rm_tag_count = 0, rm_size_bytes = 0, rm_error_message = []\<rparr>"

text \<open>The server is looked up with its token decrypted, of which only the identifier is used.\<close>

definition record_migration_start ::
  "aead \<Rightarrow> string \<Rightarrow> string \<Rightarrow> int \<Rightarrow> string \<Rightarrow> local_repo \<Rightarrow> string \<Rightarrow> int \<Rightarrow> sqlite option \<Rightarrow> sqlite option \<times> int" where
  "record_migration_start A secret salt now server_label repo source_path project_id store =
     (case store of
        None \<Rightarrow> (None, 0)
      | Some c \<Rightarrow>
          (case get_git_server A secret salt server_label c of
             None \<Rightarrow> (store, 0)
           | Some server \<Rightarrow>
               (case add_repo_migration now (fresh_migration\<lparr>rm_server_id := gs_id server, rm_project_id := project_id,
                   rm_repo_name := lr_name repo, rm_source_path := source_path, rm_branch_count := lr_branch_count repo,
                   rm_tag_count := lr_tag_count repo, rm_size_bytes := lr_size_bytes repo, rm_status := ''running'',
                   rm_started_at := now\<rparr>) c of (c', i) \<Rightarrow> (Some c', i))))"

definition record_migration_failure :: "int \<Rightarrow> string \<Rightarrow> sqlite option \<Rightarrow> sqlite option" where
  "record_migration_failure migration_id error_message store =
     (case store of
        None \<Rightarrow> None
      | Some c \<Rightarrow> if migration_id = 0 then Some c
          else Some (fst (update_repo_migration_status migration_id ''failed'' error_message c)))"

definition record_migration_success :: "int \<Rightarrow> int \<Rightarrow> sqlite option \<Rightarrow> sqlite option" where
  "record_migration_success now migration_id store =
     (case store of
        None \<Rightarrow> None
      | Some c \<Rightarrow> if migration_id = 0 then Some c else Some (fst (mark_repo_migration_completed now migration_id now c)))"

end
