(* ===== verification/Git_Facts.thy ===== *)
theory Git_Facts
  imports Git_Maintenance
begin

text \<open>
  What the command lines built around \<open>git\<close> say to the shell, and how faithfully the reports of \<open>git status\<close> are read.
\<close>

section \<open>Words of the command lines\<close>

lemma append_one: "(@) [] = id" "(@) [w] = (#) w"
  by (simp_all add: fun_eq_iff)

lemma scan_blank: "sh_scan Plain None (CHR '' '' # s) = sh_scan Plain None s"
  by (simp add: append_one option.map_id)

lemma scan_word_end:
  "sh_scan Plain (Some w) [] = Some [w]" "sh_scan Plain (Some w) (CHR '' '' # s) = map_option ((#) w) (sh_scan Plain None s)"
  by (simp_all add: append_one)

lemma scan_quoted_end:
  "sh_scan Plain None (shell_quote v) = Some [v]"
  "sh_scan Plain None (shell_quote v @ CHR '' '' # s) = map_option ((#) v) (sh_scan Plain None s)"
  using scan_shell_quote [of None v "[]"] scan_shell_quote [of None v "CHR '' '' # s"] by (simp_all add: append_one)

lemma scan_quoted_args: "sh_scan Plain (Some w) (concat (map (\<lambda>f. CHR '' '' # shell_quote f) fs)) = Some (w # fs)"
proof (induction fs arbitrary: w)
  case (Cons f fs)
  then show ?case using scan_shell_quote [of None f "concat (map (\<lambda>f. CHR '' '' # shell_quote f) fs)"] by (simp add: append_one)
qed simp

text \<open>
  Whatever the texts hold, the shell reads the git client's commands as the words meant: the files after
  \<open>git add\<close>, the whole msg after \<open>git commit -m\<close>, the branch after \<open>git init -b\<close>, and the repository after \<open>cd\<close>.
\<close>

lemma client_commands_words:
  "sh_read (add_command fs) = Some (''git'' # ''add'' # fs) \<and>
   sh_read (commit_command msg) = Some [''git'', ''commit'', ''-m'', msg] \<and>
   sh_read (init_command branch) = Some ([''git'', ''init''] @ (if branch = [] then [] else [''-b'', branch])) \<and>
   (\<exists>c. cd_repo_prefix repo = c @ '' && '' \<and> sh_read c = Some [''cd'', repo])"
proof (intro conjI)
  show "sh_read (add_command fs) = Some (''git'' # ''add'' # fs)"
    using scan_quoted_args [of "''add''" fs] by (simp add: sh_read_def add_command_def sh_special_def append_one)
  show "sh_read (commit_command msg) = Some [''git'', ''commit'', ''-m'', msg]"
    by (simp add: sh_read_def commit_command_def sh_special_def scan_quoted_end append_one)
  show "sh_read (init_command branch) = Some ([''git'', ''init''] @ (if branch = [] then [] else [''-b'', branch]))"
    by (simp add: sh_read_def init_command_def sh_special_def scan_quoted_end append_one)
  show "\<exists>c. cd_repo_prefix repo = c @ '' && '' \<and> sh_read c = Some [''cd'', repo]"
    by (intro exI [of _ "''cd '' @ shell_quote repo"]) (simp add: cd_repo_prefix_def sh_read_def sh_special_def scan_quoted_end append_one)
qed

text \<open>
  How \<open>git push\<close> takes its words: \<open>-u\<close> is an option wherever it stands, the first other word is the repository and the
  rest are the refs to push.
\<close>

definition push_operands :: "string list \<Rightarrow> (string \<times> string list) option" where
  "push_operands ws = (case filter (\<lambda>w. w \<noteq> ''-u'') (drop 2 ws) of [] \<Rightarrow> None | r # refs \<Rightarrow> Some (r, refs))"

text \<open>
  A push without a branch, as it is called by default, names the remote twice: the second time it stands where git
  takes a ref to push, before the current branch. With a branch given the command pushes exactly that branch.
\<close>

lemma default_push_pushes_remote_name:
  assumes "remote \<noteq> []" "remote \<noteq> ''-u''" "current \<noteq> ''-u''" "branch \<noteq> []" "branch \<noteq> ''-u''"
  shows "map_option push_operands (sh_read (push_command current remote [])) = Some (Some (remote, [remote, current])) \<and>
    map_option push_operands (sh_read (push_command current remote branch)) = Some (Some (remote, [branch]))"
proof -
  have "sh_read (push_command current remote []) = Some [''git'', ''push'', remote, ''-u'', remote, current]"
    using assms by (simp add: sh_read_def push_command_def sh_special_def scan_quoted_end append_one)
  moreover have "sh_read (push_command current remote branch) = Some [''git'', ''push'', remote, branch]"
    using assms by (simp add: sh_read_def push_command_def sh_special_def scan_quoted_end append_one)
  ultimately show ?thesis using assms by (simp add: push_operands_def)
qed

lemma default_push_pushes_remote_name_example:
  "map_option push_operands (sh_read (push_command ''main'' ''origin'' [])) = Some (Some (''origin'', [''origin'', ''main'']))"
  using default_push_pushes_remote_name [of "''origin''" "''main''" "''dev''"] by simp

section \<open>Double quotes\<close>

definition cur_length :: "string option \<Rightarrow> nat" where
  "cur_length w = (case w of None \<Rightarrow> 0 | Some x \<Rightarrow> length x)"

text \<open>A text that ends with a double quote loses a character when it is read.\<close>

lemma scan_loses_quote:
  "sh_scan mode w (s @ [CHR 0x22]) = Some ws \<Longrightarrow> sum_list (map length ws) \<le> cur_length w + length s"
proof (induction mode w s arbitrary: ws rule: sh_scan.induct)
  case (4 w c cs)
  then show ?case by (auto simp: Let_def cur_length_def split: if_splits option.splits) fastforce+
next
  case (5 w c cs)
  then show ?case by (auto simp: Let_def cur_length_def split: if_splits option.splits) fastforce+
next
  case (6 w c cs)
  then show ?case by (auto simp: Let_def cur_length_def split: if_splits option.splits) fastforce+
qed (auto simp: cur_length_def split: option.splits)

definition quote_safe :: "string \<Rightarrow> bool" where
  "quote_safe m \<longleftrightarrow> set m \<inter> {CHR 0x22, CHR ''$'', CHR 0x60, CHR 0x5C} = {}"

lemma scan_double_quoted: "sh_scan Double (Some w) (m @ [CHR 0x22]) = Some [w @ m] \<longleftrightarrow> quote_safe m"
proof (induction m arbitrary: w)
  case Nil
  then show ?case by (simp add: quote_safe_def)
next
  case (Cons c m)
  show ?case
  proof (cases "c = CHR 0x22")
    case True
    have "sh_scan Plain (Some w) (m @ [CHR 0x22]) \<noteq> Some [w @ CHR 0x22 # m]"
      using scan_loses_quote [of Plain "Some w" m "[w @ CHR 0x22 # m]"] by (auto simp: cur_length_def)
    then show ?thesis using True by (simp add: quote_safe_def)
  next
    case False
    then show ?thesis using Cons.IH [of "w @ [c]"] by (auto simp: quote_safe_def)
  qed
qed

text \<open>
  The first commit and the bare repositories quote with double quotes only: the shell reads the message, or the
  path, as the text given exactly when it holds no double quote, dollar sign, backquote or backslash. Every
  other text is cut, expanded or executed.
\<close>

lemma double_quotes_protect_plain_text_only:
  "(sh_read (initial_commit_command m) = Some [''git'', ''commit'', ''-m'', m] \<longleftrightarrow> quote_safe m) \<and>
   (sh_read (''git init --bare '' @ double_quoted m) = Some [''git'', ''init'', ''--bare'', m] \<longleftrightarrow> quote_safe m)"
proof -
  have d: "sh_scan Plain None (double_quoted m) = sh_scan Double (Some []) (m @ [CHR 0x22])" by (simp add: double_quoted_def)
  have e: "map_option ((#) x) r = Some (x # xs) \<longleftrightarrow> r = Some xs" for x :: string and r xs by (cases r) auto
  have "sh_read (initial_commit_command m) = map_option ((#) ''git'') (map_option ((#) ''commit'') (map_option ((#) ''-m'')
      (sh_scan Plain None (double_quoted m))))"
    by (simp add: sh_read_def initial_commit_command_def sh_special_def append_one)
  moreover have "sh_read (''git init --bare '' @ double_quoted m) = map_option ((#) ''git'') (map_option ((#) ''init'')
      (map_option ((#) ''--bare'') (sh_scan Plain None (double_quoted m))))"
    by (simp add: sh_read_def sh_special_def append_one)
  ultimately show ?thesis using scan_double_quoted [of "[]" m] by (simp only: e d append_Nil)
qed

section \<open>Status reports\<close>

text \<open>
  The lines of \<open>git status --porcelain=v2\<close> as git documents them: a changed file with the staged and the worktree code
  (a dot for an unmodified side), a renamed one, an unmerged one with ten fields before its path, an untracked and
  an ignored one.
\<close>

datatype change =
    Changed char char string
  | RenamedChange char char string
  | Unmerged "string list" string
  | Untracked string
  | Ignored string

primrec change_line :: "change \<Rightarrow> string" where
  "change_line (Changed x y rest) = ''1 '' @ [x, y] @ rest"
| "change_line (RenamedChange x y rest) = ''2 '' @ [x, y] @ rest"
| "change_line (Unmerged flds path) = ''u '' @ concat (map (\<lambda>f. f @ '' '') flds) @ path"
| "change_line (Untracked path) = ''? '' @ path"
| "change_line (Ignored path) = ''! '' @ path"

definition token :: "string \<Rightarrow> bool" where
  "token f \<longleftrightarrow> f \<noteq> [] \<and> list_all (\<lambda>c. \<not> isspace c) f"

primrec change_ok :: "change \<Rightarrow> bool" where
  "change_ok (Changed x y rest) \<longleftrightarrow> x \<noteq> CHR '' '' \<and> y \<noteq> CHR '' ''"
| "change_ok (RenamedChange x y rest) \<longleftrightarrow> x \<noteq> CHR '' '' \<and> y \<noteq> CHR '' ''"
| "change_ok (Unmerged flds path) \<longleftrightarrow> length flds = 9 \<and> list_all token flds \<and> path \<noteq> []"
| "change_ok (Untracked path) \<longleftrightarrow> True"
| "change_ok (Ignored path) \<longleftrightarrow> True"

primrec staged_change :: "change \<Rightarrow> bool" where
  "staged_change (Changed x y rest) \<longleftrightarrow> x \<noteq> CHR ''.''"
| "staged_change (RenamedChange x y rest) \<longleftrightarrow> x \<noteq> CHR ''.''"
| "staged_change (Unmerged flds path) \<longleftrightarrow> False"
| "staged_change (Untracked path) \<longleftrightarrow> False"
| "staged_change (Ignored path) \<longleftrightarrow> False"

primrec worktree_change :: "change \<Rightarrow> bool" where
  "worktree_change (Changed x y rest) \<longleftrightarrow> y \<noteq> CHR ''.''"
| "worktree_change (RenamedChange x y rest) \<longleftrightarrow> y \<noteq> CHR ''.''"
| "worktree_change (Unmerged flds path) \<longleftrightarrow> False"
| "worktree_change (Untracked path) \<longleftrightarrow> False"
| "worktree_change (Ignored path) \<longleftrightarrow> False"

definition is_untracked :: "change \<Rightarrow> bool" where
  "is_untracked e \<longleftrightarrow> (case e of Untracked _ \<Rightarrow> True | _ \<Rightarrow> False)"

definition unmerged_paths :: "change list \<Rightarrow> string list" where
  "unmerged_paths es = concat (map (\<lambda>e. case e of Unmerged _ p \<Rightarrow> [p] | _ \<Rightarrow> []) es)"

lemma isspace_blank [simp]: "isspace (CHR '' '')"
  by (simp add: isspace_def)

lemma skip_token_field:
  "token f \<Longrightarrow> skip_token (f @ CHR '' '' # s) = CHR '' '' # s" "token f \<Longrightarrow> skip_token (CHR '' '' # f @ CHR '' '' # s) = CHR '' '' # s"
proof -
  assume f: "token f"
  have "dropWhile isspace (f @ t) = f @ t" for t using f by (cases f) (auto simp: token_def)
  moreover have "dropWhile (\<lambda>c. \<not> isspace c) (f @ CHR '' '' # s) = CHR '' '' # s"
    using f by (simp add: token_def list_all_iff dropWhile_append3)
  ultimately show "skip_token (f @ CHR '' '' # s) = CHR '' '' # s" "skip_token (CHR '' '' # f @ CHR '' '' # s) = CHR '' '' # s"
    by (simp_all add: skip_token_def)
qed

lemma skip_fields:
  "list_all token fs \<Longrightarrow> (skip_token ^^ length fs) (CHR '' '' # concat (map (\<lambda>f. f @ '' '') fs) @ p) = CHR '' '' # p"
proof (induction fs)
  case (Cons f fs)
  then show ?case using skip_token_field(2) [of f "concat (map (\<lambda>f. f @ '' '') fs) @ p"]
    by (simp add: funpow_Suc_right del: funpow.simps)
qed simp

lemma unmerged_path_line:
  assumes "length flds = 9" "list_all token flds"
  shows "unmerged_path (''u '' @ concat (map (\<lambda>f. f @ '' '') flds) @ p) = p"
proof -
  let ?r = "concat (map (\<lambda>f. f @ '' '') flds) @ p"
  have "token ''u''" by (simp add: token_def isspace_def)
  then have "skip_token (''u'' @ CHR '' '' # ?r) = CHR '' '' # ?r" by (rule skip_token_field(1))
  then have "(skip_token ^^ Suc 9) (''u'' @ CHR '' '' # ?r) = CHR '' '' # p"
    using skip_fields [OF assms(2), of p] assms(1) by (simp only: funpow_Suc_right comp_def)
  then show ?thesis by (simp add: unmerged_path_def)
qed

definition count_if :: "('a \<Rightarrow> bool) \<Rightarrow> 'a list \<Rightarrow> int" where
  "count_if P xs = int (length (filter P xs))"

definition add_counts :: "change list \<Rightarrow> git_status \<Rightarrow> git_status" where
  "add_counts es st = st\<lparr>gs_staged := gs_staged st + count_if staged_change es, gs_modified := gs_modified st + count_if worktree_change es,
     gs_untracked := gs_untracked st + count_if is_untracked es,
     gs_conflicted := gs_conflicted st + int (length (unmerged_paths es)),
     gs_conflicted_files := gs_conflicted_files st @ unmerged_paths es\<rparr>"

lemma status_line_change: "change_ok e \<Longrightarrow> status_line st (change_line e) = add_counts [e] st"
proof (cases e)
  case (Unmerged flds path)
  moreover assume "change_ok e"
  ultimately have "unmerged_path (CHR ''u'' # CHR '' '' # concat (map (\<lambda>f. f @ '' '') flds) @ path) = path" "path \<noteq> []"
    using unmerged_path_line by simp_all
  then show ?thesis using Unmerged
    by (simp add: status_line_def add_counts_def count_if_def unmerged_paths_def is_untracked_def Let_def)
qed (auto simp: status_line_def add_counts_def count_if_def unmerged_paths_def is_untracked_def Let_def)

lemma add_counts_Cons: "add_counts es (add_counts [e] st) = add_counts (e # es) st"
  by (simp add: add_counts_def count_if_def unmerged_paths_def)

lemma status_lines_changes: "list_all change_ok es \<Longrightarrow> foldl status_line st (map change_line es) = add_counts es st"
proof (induction es arbitrary: st)
  case Nil
  then show ?case by (simp add: add_counts_def count_if_def unmerged_paths_def)
qed (simp add: status_line_change add_counts_Cons)

text \<open>The tracking line of a branch.\<close>

lemma find_char_in: "c \<notin> set s \<Longrightarrow> find_char c (s @ c # t) = Some (length s)"
  by (induction s) (auto simp: find_char_def)

lemma digits_free: "c \<in> {CHR ''+'', CHR '' ''} \<Longrightarrow> c \<notin> set (to_string (int n))"
proof -
  assume c: "c \<in> {CHR ''+'', CHR '' ''}"
  have "\<forall>d\<in>set (to_string (int n)). isdigit d" using nat_digits_props [of n] by (simp add: to_string_def)
  then show ?thesis using c by (auto simp: isdigit_def)
qed

lemma ahead_behind_line:
  assumes "n < 2 ^ 31" "m < 2 ^ 31"
  shows "ahead_behind (''# branch.ab +'' @ to_string (int n) @ '' -'' @ to_string (int m)) st = st\<lparr>gs_ahead := int n, gs_behind := int m\<rparr>"
proof -
  let ?a = "to_string (int n)" and ?b = "to_string (int m)"
  let ?l = "''# branch.ab +'' @ ?a @ '' -'' @ ?b"
  have plus: "find_char (CHR ''+'') ?l = Some 12"
    using find_char_in [of "CHR ''+''" "''# branch.ab ''" "?a @ '' -'' @ ?b"] by simp
  have d12: "drop 12 ?l = CHR ''+'' # ?a @ '' -'' @ ?b" by (simp add: eval_nat_numeral)
  have space: "find_from (CHR '' '') 12 ?l = Some (13 + length ?a)"
    using find_char_in [of "CHR '' ''" "CHR ''+'' # ?a" "CHR ''-'' # ?b"] digits_free [of "CHR '' ''" n] d12
    by (simp add: find_from_def)
  have dq: "drop (13 + length ?a) ?l = '' -'' @ ?b" by (simp add: eval_nat_numeral)
  have minus: "find_from (CHR ''-'') (13 + length ?a) ?l = Some (14 + length ?a)"
    using find_char_in [of "CHR ''-''" "'' ''" ?b] dq by (simp add: find_from_def)
  have sub: "substr ?l (12 + 1) (13 + length ?a - 12 - 1) = ?a" by (simp add: substr_def eval_nat_numeral)
  have rest: "drop (14 + length ?a + 1) ?l = ?b" by (simp add: eval_nat_numeral)
  have si: "stoi ?a = Some (int n)" "stoi ?b = Some (int m)" using assms by (simp_all add: stoi_to_string)
  show ?thesis unfolding ahead_behind_def plus option.case space minus sub rest Let_def si or_zero_def by simp
qed

text \<open>
  The report of \<open>git status --porcelain=v2 --branch\<close>: the commit and the branch, then the upstream and, when both
  ends have commits, the distance to it, then the number of stashes where git is configured to show it, then one
  line per change. Texts that git prints hold no line end (it quotes such paths) and no NUL byte.
\<close>

record git_report =
  rp_oid :: string
  rp_head :: string
  rp_upstream :: "string option"
  rp_distance :: "(nat \<times> nat) option"
  rp_stashes :: "nat option"
  rp_changes :: "change list"

definition header_lines :: "git_report \<Rightarrow> string list" where
  "header_lines p =
     [''# branch.oid '' @ rp_oid p, ''# branch.head '' @ rp_head p] @
     (case rp_upstream p of None \<Rightarrow> [] | Some u \<Rightarrow> [''# branch.upstream '' @ u]) @
     (case rp_distance p of None \<Rightarrow> [] | Some (n, m) \<Rightarrow> [''# branch.ab +'' @ to_string (int n) @ '' -'' @ to_string (int m)]) @
     (case rp_stashes p of None \<Rightarrow> [] | Some k \<Rightarrow> [''# stash '' @ to_string (int k)])"

definition report_lines :: "git_report \<Rightarrow> string list" where
  "report_lines p = header_lines p @ map change_line (rp_changes p)"

definition git_report_ok :: "git_report \<Rightarrow> bool" where
  "git_report_ok p \<longleftrightarrow> rp_head p \<noteq> [] \<and> (rp_upstream p = None \<longrightarrow> rp_distance p = None) \<and>
     (case rp_distance p of None \<Rightarrow> True | Some (n, m) \<Rightarrow> n < 2 ^ 31 \<and> m < 2 ^ 31) \<and>
     list_all change_ok (rp_changes p) \<and>
     list_all (\<lambda>l. nl \<notin> set l \<and> CHR 0x00 \<notin> set l) (report_lines p)"

definition after_headers :: "git_report \<Rightarrow> git_status \<Rightarrow> git_status" where
  "after_headers p st = (let st1 = st\<lparr>gs_branch := rp_head p\<rparr>;
       st2 = (case rp_upstream p of None \<Rightarrow> st1 | Some u \<Rightarrow> st1\<lparr>gs_upstream := Some u\<rparr>)
     in case rp_distance p of None \<Rightarrow> st2 | Some (n, m) \<Rightarrow> st2\<lparr>gs_ahead := int n, gs_behind := int m\<rparr>)"

lemma header_line_steps:
  "status_line st (''# branch.oid '' @ x) = st" "status_line st (''# stash '' @ x) = st"
  "status_line st (''# branch.head '' @ x) = st\<lparr>gs_branch := x\<rparr>"
  "status_line st (''# branch.upstream '' @ x) = st\<lparr>gs_upstream := Some x\<rparr>"
  "n < 2 ^ 31 \<Longrightarrow> m < 2 ^ 31 \<Longrightarrow> status_line st (''# branch.ab +'' @ to_string (int n) @ '' -'' @ to_string (int m)) =
      st\<lparr>gs_ahead := int n, gs_behind := int m\<rparr>"
  using ahead_behind_line [of n m st] by (simp_all add: status_line_def starts_with_def)

lemma status_lines_report:
  assumes "git_report_ok p"
  shows "foldl status_line st (report_lines p) = add_counts (rp_changes p) (after_headers p st)"
proof -
  have "foldl status_line st (header_lines p) = after_headers p st"
    using assms
    by (auto simp: header_lines_def after_headers_def git_report_ok_def Let_def header_line_steps simp del: append.simps
         split: option.splits)
  moreover have "list_all change_ok (rp_changes p)" using assms by (simp add: git_report_ok_def)
  ultimately show ?thesis by (simp add: report_lines_def status_lines_changes)
qed

lemma change_line_nonempty: "change_line e \<noteq> []" "[] \<noteq> change_line e"
  by (cases e; simp)+

lemma report_lines_nonempty: "l \<in> set (report_lines p) \<Longrightarrow> l \<noteq> []"
  by (auto simp: report_lines_def header_lines_def change_line_nonempty split: option.splits)

text \<open>The last line end is gone when the text is split into lines; no line is lost with it.\<close>

lemma getlines_trimmed:
  assumes "\<forall>l\<in>set ls. nl \<notin> set l \<and> l \<noteq> []"
  shows "getlines nl (trim_newline (unlines ls)) = ls"
proof (cases ls rule: rev_cases)
  case (snoc ms l)
  have "trim_newline (unlines ls) = unlines ms @ l" by (simp add: snoc unlines_def trim_newline_def butlast_append nl_def)
  moreover have "getlines nl (unlines ms @ l) = ms @ [l]" if "\<forall>m\<in>set ms. nl \<notin> set m" for ms
    using that by (induction ms) (use assms snoc in \<open>simp_all add: unlines_def getlines_Cons getlines_single\<close>)
  ultimately show ?thesis using assms snoc by simp
qed (simp add: unlines_def trim_newline_def)

lemma concat_c_strings: "CHR 0x00 \<notin> set (concat chunks) \<Longrightarrow> concat (map c_string chunks) = concat chunks"
  by (induction chunks) (auto intro: c_string_id)

text \<open>
  \<^bold>\<open>C29\<close> Status reports are read as git prints them: when \<open>git status --porcelain=v2 --branch\<close> gives a report, in
  whatever pieces the pipe delivers it, \<open>status\<close> returns its branch, its upstream, how far the branch is ahead and
  behind, exact counts of staged, modified, untracked and conflicted files and every conflicted path, blanks
  included; the commit, a stash count and ignored files change nothing, and commits, remote and state are those
  found beside the report.
\<close>

theorem status_reads_report:
  assumes "is_repo W repo s" "git_report_ok p"
    and "gw_popen W (c_string (cd_repo_prefix repo @ ''git status --porcelain=v2 --branch'')) s = Some chunks"
    and "concat chunks = unlines (report_lines p)"
  shows "status W repo s =
    \<lparr>gs_in_repo = True, gs_has_commits = has_commits W repo s, gs_has_origin = (get_origin W repo s \<noteq> None),
     gs_branch = rp_head p, gs_upstream = rp_upstream p,
     gs_modified = count_if worktree_change (rp_changes p), gs_staged = count_if staged_change (rp_changes p),
     gs_untracked = count_if is_untracked (rp_changes p), gs_conflicted = int (length (unmerged_paths (rp_changes p))),
     gs_ahead = (case rp_distance p of None \<Rightarrow> 0 | Some (n, m) \<Rightarrow> int n),
     gs_behind = (case rp_distance p of None \<Rightarrow> 0 | Some (n, m) \<Rightarrow> int m),
     gs_origin_url = get_origin W repo s, gs_state = detect_repo_state W repo s,
     gs_conflicted_files = unmerged_paths (rp_changes p)\<rparr>"
proof -
  let ?ls = "report_lines p"
  have ok: "\<forall>l\<in>set ?ls. nl \<notin> set l \<and> l \<noteq> []" "\<forall>l\<in>set ?ls. CHR 0x00 \<notin> set l"
    using assms(2) report_lines_nonempty by (auto simp: git_report_ok_def list_all_iff)
  have "CHR 0x00 \<notin> set (concat chunks)" using ok(2) by (auto simp: assms(4) unlines_def nl_def)
  then have "exec_output W (cd_repo_prefix repo @ ''git status --porcelain=v2 --branch'') s = trim_newline (unlines ?ls)"
    using concat_c_strings [of chunks] assms(4) by (simp add: exec_output_def assms(3))
  then have lines: "getlines nl (exec_output W (cd_repo_prefix repo @ ''git status --porcelain=v2 --branch'') s) = ?ls"
    using getlines_trimmed [OF ok(1)] by simp
  have "rp_head p \<noteq> []" using assms(2) by (simp add: git_report_ok_def)
  then show ?thesis using assms(1)
    by (simp add: status_def Let_def lines status_lines_report [OF assms(2)] add_counts_def after_headers_def
        fresh_status_def split: option.split prod.split)
qed

text \<open>A report with an upstream and a stash, delivered in two pieces that cut a line in the middle.\<close>

definition demo_report :: git_report where
  "demo_report = \<lparr>rp_oid = ''0a1b'', rp_head = ''main'', rp_upstream = Some ''origin/main'', rp_distance = Some (12, 3),
     rp_stashes = Some 2,
     rp_changes = [Changed (CHR ''M'') (CHR ''.'') '' N... a.c'', Untracked ''notes.txt'', Unmerged (replicate 9 ''x'') ''my file.c'']\<rparr>"

definition demo_git_world :: "unit git_world" where
  "demo_git_world = \<lparr>gw_system = (\<lambda>cmd s. (0, s)),
     gw_popen = (\<lambda>cmd s. Some [take 30 (unlines (report_lines demo_report)), drop 30 (unlines (report_lines demo_report))]),
     gw_exists = (\<lambda>path s. False)\<rparr>"

theorem status_reads_report_witness:
  "case status demo_git_world ''/r'' () of st \<Rightarrow>
     gs_branch st = ''main'' \<and> gs_upstream st = Some ''origin/main'' \<and> gs_ahead st = 12 \<and> gs_behind st = 3 \<and>
     gs_staged st = 1 \<and> gs_modified st = 0 \<and> gs_untracked st = 1 \<and> gs_conflicted_files st = [''my file.c'']"
proof -
  have "list_all token (replicate 9 ''x'')" by (simp add: list_all_iff token_def isspace_def)
  moreover have "list_all (\<lambda>l. nl \<notin> set l \<and> CHR 0x00 \<notin> set l) (report_lines demo_report)" by code_simp
  ultimately have ok: "git_report_ok demo_report" by (simp add: git_report_ok_def demo_report_def)
  have repo: "is_repo demo_git_world ''/r'' ()" by (simp add: is_repo_def exec_ok_def exec_cmd_def demo_git_world_def)
  have out: "gw_popen demo_git_world (c_string (cd_repo_prefix ''/r'' @ ''git status --porcelain=v2 --branch'')) () =
     Some [take 30 (unlines (report_lines demo_report)), drop 30 (unlines (report_lines demo_report))]"
    by (simp add: demo_git_world_def cd_repo_prefix_def c_string_def)
  have pieces: "concat [take 30 (unlines (report_lines demo_report)), drop 30 (unlines (report_lines demo_report))] =
     unlines (report_lines demo_report)" by simp
  show ?thesis unfolding status_reads_report [OF repo ok out pieces]
    by (simp add: demo_report_def count_if_def unmerged_paths_def is_untracked_def)
qed

end
