(* ===== verification/Brain_Snapshots.thy ===== *)
theory Brain_Snapshots
  imports Nexus_Crypto Nexus_Store Brain_Planner
begin

text \<open>
  Change detection (\<open>src/modules/brain/src/snapshot.cpp\<close>): the files below the project are hashed, sorted and hashed
  together, and the result is compared with the last one the database has. SHA-256 is an argument, and so are the
  regular files the directory walk finds, in its order and up to the error that ends it.
\<close>

section \<open>Files\<close>

record file_info =
  fi_path :: string
  fi_size :: int
  fi_hash :: string

record hash_world =
  hw_sha256 :: "string \<Rightarrow> string"
  hw_context_ok :: bool

record found_file =
  ff_path :: string
  ff_size :: int
  ff_content :: "string option"

definition is_prefix :: "string \<Rightarrow> string \<Rightarrow> bool" where
  "is_prefix p s \<longleftrightarrow> take (length p) s = p"

definition should_exclude :: "string \<Rightarrow> bool" where
  "should_exclude path \<longleftrightarrow>
     is_prefix ''build/'' path \<or> is_prefix ''build-'' path \<or> contains ''.cmake/'' path \<or>
     is_prefix ''.git/'' path \<or> is_prefix ''.svn/'' path \<or> is_prefix ''node_modules/'' path \<or>
     (is_prefix ''target/'' path \<and> contains ''rust'' path) \<or>
     contains ''.o'' path \<or> contains ''.a'' path \<or> contains ''.so'' path"

text \<open>A file that cannot be opened, or for which there is no digest context, keeps an empty hash.\<close>

definition file_info_of :: "hash_world \<Rightarrow> found_file \<Rightarrow> file_info" where
  "file_info_of W f = \<lparr>fi_path = ff_path f, fi_size = ff_size f,
     fi_hash = (case ff_content f of None \<Rightarrow> [] | Some data \<Rightarrow> if hw_context_ok W then to_hex (hw_sha256 W data) else [])\<rparr>"

definition scan_files :: "hash_world \<Rightarrow> found_file list \<Rightarrow> file_info list" where
  "scan_files W fs = sort_key fi_path (map (file_info_of W) (filter (\<lambda>f. \<not> should_exclude (ff_path f)) fs))"

definition hash_entry :: "file_info \<Rightarrow> string" where
  "hash_entry f = fi_path f @ '':'' @ fi_hash f"

definition compute_tree_hash :: "hash_world \<Rightarrow> file_info list \<Rightarrow> string" where
  "compute_tree_hash W fs = (if \<not> hw_context_ok W then [] else to_hex (hw_sha256 W (concat (map hash_entry fs))))"

section \<open>Snapshots\<close>

record snapshot_result =
  sn_tree_hash :: string
  sn_file_count :: int
  sn_total_bytes :: int
  sn_changed :: bool
  sn_previous_hash :: string

definition compute :: "hash_world \<Rightarrow> int \<Rightarrow> found_file list \<Rightarrow> sqlite option \<Rightarrow> snapshot_result" where
  "compute W project_id found store =
     (let fs = scan_files W found;
          result = \<lparr>sn_tree_hash = compute_tree_hash W fs, sn_file_count = int (length fs), sn_total_bytes = sum_list (map fi_size fs),
            sn_changed = False, sn_previous_hash = []\<rparr>
      in case store of
           None \<Rightarrow> result
         | Some c \<Rightarrow>
             (case latest_snapshot project_id c of
                None \<Rightarrow> result\<lparr>sn_changed := True\<rparr>
              | Some prev \<Rightarrow> result\<lparr>sn_previous_hash := tree_hash prev, sn_changed := (sn_tree_hash result \<noteq> tree_hash prev)\<rparr>))"

definition store_snapshot :: "int \<Rightarrow> int \<Rightarrow> snapshot_result \<Rightarrow> sqlite option \<Rightarrow> sqlite option \<times> int" where
  "store_snapshot now project_id result store =
     (case store of
        None \<Rightarrow> (None, - 1)
      | Some c \<Rightarrow>
          (case add_snapshot now project_id (sn_tree_hash result) (sn_file_count result) (sn_total_bytes result) c of
             (c', i) \<Rightarrow> (Some c', i)))"

section \<open>The order of the walk\<close>

definition same_files :: "found_file list \<Rightarrow> found_file list \<Rightarrow> bool" where
  "same_files fs gs \<longleftrightarrow> mset fs = mset gs \<and> distinct (map ff_path fs)"

lemma sort_key_mset:
  assumes "mset xs = mset ys" "inj_on f (set xs)"
  shows "sort_key f xs = sort_key f ys"
proof -
  have "sort (map f xs) = map f (sort_key f ys)" using assms(1) by (intro properties_for_sort) (simp_all add: mset_map)
  moreover have "sort (map f xs) = map f (sort_key f xs)" by (intro properties_for_sort) simp_all
  moreover have "set xs = set ys" using assms(1) by (rule mset_eq_setD)
  ultimately show ?thesis using assms(2) by (intro map_inj_on [of f]) simp_all
qed

lemma scan_files_order: "same_files fs gs \<Longrightarrow> scan_files W fs = scan_files W gs"
proof -
  assume a: "same_files fs gs"
  let ?f = "\<lambda>fs. map (file_info_of W) (filter (\<lambda>f. \<not> should_exclude (ff_path f)) fs)"
  have m: "mset (?f fs) = mset (?f gs)" using a by (simp add: same_files_def mset_map)
  have path: "fi_path \<circ> file_info_of W = ff_path" by (simp add: fun_eq_iff file_info_of_def)
  have d: "distinct (map ff_path (filter P fs))" for P using a by (simp add: same_files_def distinct_map_filter)
  have "inj_on fi_path (set (?f fs))" using d path by (metis distinct_map list.map_comp)
  then show ?thesis using m unfolding scan_files_def by (intro sort_key_mset)
qed

lemma snapshot_paths: "fi_path f \<in> ff_path ` {g \<in> set fs. \<not> should_exclude (ff_path g)}" if "f \<in> set (scan_files W fs)"
  using that by (auto simp: scan_files_def file_info_of_def)

lemma latest_snapshot_pair:
  assumes "healthy c" "\<not> io_fails c (stmts c)" "seq (tabs c ''snapshots'') < max_rowid"
    and "pid \<in> set (ids_of (tabs c ''projects''))"
    and "\<forall>r\<in>set (trows (tabs c ''snapshots'')). val r ''project_id'' = VInt pid \<longrightarrow> val r ''created_at'' < VInt now"
    and "- (2 ^ 63) \<le> now" "now < 2 ^ 63" "0 \<le> sn_total_bytes r" "sn_total_bytes r < 2 ^ 63" "0 \<le> sn_file_count r" "sn_file_count r < 2 ^ 31"
  shows "map_option tree_hash (latest_snapshot pid (fst (add_snapshot now pid (sn_tree_hash r) (sn_file_count r) (sn_total_bytes r) c))) =
    Some (c_string (sn_tree_hash r))"
  using latest_snapshot_after_add [OF assms(1-7), of "sn_total_bytes r" "sn_file_count r" "sn_tree_hash r"] assms(8-) by simp

lemma hex_digit_nonzero: "n < 16 \<Longrightarrow> hex_digit n \<noteq> CHR 0x00"
  using hex_value_digit [of n] by (auto simp: hex_value_def)

lemma to_hex_no_nul: "CHR 0x00 \<notin> set (to_hex bs)"
proof (induction bs)
  case (Cons b bs)
  have "of_char b div 16 < (16 :: nat)" "of_char b mod 16 < (16 :: nat)"
    using of_char_less [of b] by (simp_all add: less_mult_imp_div_less)
  then show ?case using Cons hex_digit_nonzero [of "of_char b div 16"] hex_digit_nonzero [of "of_char b mod 16"]
    by (auto simp: to_hex_def)
qed (simp add: to_hex_def)

lemma c_string_tree_hash: "c_string (compute_tree_hash W fs) = compute_tree_hash W fs"
proof -
  have "CHR 0x00 \<notin> set s \<Longrightarrow> c_string s = s" for s by (induction s) (auto simp: c_string_def)
  then show ?thesis using to_hex_no_nul by (simp add: compute_tree_hash_def)
qed

section \<open>Detecting changes\<close>

text \<open>What of a tree the hash is made of.\<close>

definition hashed_text :: "hash_world \<Rightarrow> found_file list \<Rightarrow> string" where
  "hashed_text W fs = concat (map hash_entry (scan_files W fs))"

lemma compute_tree: "sn_tree_hash (compute W pid fs store) = compute_tree_hash W (scan_files W fs)"
  by (simp add: compute_def Let_def split: option.splits)

lemma to_hex_eq: "to_hex a = to_hex b \<longleftrightarrow> a = b"
  by (metis from_hex_to_hex)

text \<open>
  \<^bold>\<open>C16\<close> Change detection across runs: after a snapshot was computed and stored, a later run over files \<open>gs\<close> reports a change
  exactly when SHA-256 tells the two hashed texts apart; in particular never for the same files, in whatever
  order the directory walk delivers them.
\<close>

theorem change_reported_iff_hash_differs:
  assumes "healthy c" "\<not> io_fails c (stmts c)" "seq (tabs c ''snapshots'') < max_rowid" "pid \<in> set (ids_of (tabs c ''projects''))"
    and "\<forall>r\<in>set (trows (tabs c ''snapshots'')). val r ''project_id'' = VInt pid \<longrightarrow> val r ''created_at'' < VInt now"
    and "- (2 ^ 63) \<le> now" "now < 2 ^ 63" "hw_context_ok W"
    and "0 \<le> sn_total_bytes (compute W pid fs (Some c))" "sn_total_bytes (compute W pid fs (Some c)) < 2 ^ 63"
    and "sn_file_count (compute W pid fs (Some c)) < 2 ^ 31"
  shows "(sn_changed (compute W pid gs (fst (store_snapshot now pid (compute W pid fs (Some c)) (Some c)))) \<longleftrightarrow>
      hw_sha256 W (hashed_text W gs) \<noteq> hw_sha256 W (hashed_text W fs)) \<and>
    (same_files fs gs \<longrightarrow> \<not> sn_changed (compute W pid gs (fst (store_snapshot now pid (compute W pid fs (Some c)) (Some c)))))"
proof -
  let ?r = "compute W pid fs (Some c)"
  have n: "0 \<le> sn_file_count ?r" by (simp add: compute_def Let_def split: option.splits)
  obtain c1 i where a: "add_snapshot now pid (sn_tree_hash ?r) (sn_file_count ?r) (sn_total_bytes ?r) c = (c1, i)" by fastforce
  obtain prev where p: "latest_snapshot pid (fst (add_snapshot now pid (sn_tree_hash ?r) (sn_file_count ?r) (sn_total_bytes ?r) c)) = Some prev"
    "tree_hash prev = c_string (sn_tree_hash ?r)"
    using latest_snapshot_pair [OF assms(1-7,9,10) n assms(11)] by auto
  have "sn_changed (compute W pid gs (fst (store_snapshot now pid ?r (Some c)))) \<longleftrightarrow>
      compute_tree_hash W (scan_files W gs) \<noteq> compute_tree_hash W (scan_files W fs)"
    using p a by (simp add: compute_def [of W pid gs] store_snapshot_def compute_tree c_string_tree_hash Let_def)
  also have "\<dots> \<longleftrightarrow> hw_sha256 W (hashed_text W gs) \<noteq> hw_sha256 W (hashed_text W fs)"
    using assms(8) by (simp add: compute_tree_hash_def to_hex_eq hashed_text_def)
  finally have i: "sn_changed (compute W pid gs (fst (store_snapshot now pid ?r (Some c)))) \<longleftrightarrow>
      hw_sha256 W (hashed_text W gs) \<noteq> hw_sha256 W (hashed_text W fs)" .
  moreover have "same_files fs gs \<Longrightarrow> hashed_text W gs = hashed_text W fs"
    using scan_files_order by (simp add: hashed_text_def)
  ultimately show ?thesis by metis
qed

definition weak_hash :: hash_world where
  "weak_hash = \<lparr>hw_sha256 = \<lambda>s. s, hw_context_ok = True\<rparr>"

definition two_files :: "string \<Rightarrow> found_file list" where
  "two_files text = [\<lparr>ff_path = ''src/b.c'', ff_size = 3, ff_content = Some text\<rparr>, \<lparr>ff_path = ''a.c'', ff_size = 2, ff_content = Some ''x''\<rparr>]"

theorem change_reported_iff_hash_differs_witness:
  "sn_changed (compute weak_hash 1 (two_files ''new'')
     (fst (store_snapshot 50 1 (compute weak_hash 1 (two_files ''old'') (Some demo_project)) (Some demo_project)))) \<longleftrightarrow>
   hw_sha256 weak_hash (hashed_text weak_hash (two_files ''new'')) \<noteq> hw_sha256 weak_hash (hashed_text weak_hash (two_files ''old''))"
proof -
  have d: "trows (tabs demo_project ''snapshots'') = []" "seq (tabs demo_project ''snapshots'') < max_rowid" by code_simp+
  have r: "sn_total_bytes (compute weak_hash 1 (two_files ''old'') (Some demo_project)) = 5"
    "sn_file_count (compute weak_hash 1 (two_files ''old'') (Some demo_project)) = 2"
    by code_simp+
  show ?thesis
    using change_reported_iff_hash_differs [of demo_project 1 50 weak_hash "two_files ''old''" "two_files ''new''"]
      healthy_demo(1) demo_project_values d r by (simp add: weak_hash_def)
qed

section \<open>What is not looked at\<close>

definition hidden :: "found_file \<Rightarrow> bool" where
  "hidden f \<longleftrightarrow> contains ''.a'' (ff_path f) \<or> contains ''.o'' (ff_path f)"

text \<open>
  Every path with \<open>.a\<close> or \<open>.o\<close> anywhere in it is left out, not only objects and archives: adding, changing or
  removing such files, like \<open>boot.asm\<close>, \<open>notes.org\<close> or all of \<open>my.app/\<close>, changes nothing in the result.
\<close>

lemma hidden_files_never_change:
  "compute W pid fs store = compute W pid (filter (\<lambda>f. \<not> hidden f) fs) store \<and>
   hidden \<lparr>ff_path = d @ ''boot.asm'', ff_size = n, ff_content = t\<rparr> \<and>
   hidden \<lparr>ff_path = ''my.app/'' @ d, ff_size = n, ff_content = t\<rparr>"
proof -
  have skip: "contains p s \<Longrightarrow> contains p (d @ s)" for p s :: string by (induction d) (auto split: if_splits)
  have "contains ''.a'' ''boot.asm''" by simp
  then have "hidden \<lparr>ff_path = d @ ''boot.asm'', ff_size = n, ff_content = t\<rparr>" using skip by (simp add: hidden_def)
  moreover have "hidden \<lparr>ff_path = ''my.app/'' @ d, ff_size = n, ff_content = t\<rparr>" by (simp add: hidden_def)
  moreover have "should_exclude (ff_path f)" if "hidden f" for f using that by (auto simp: hidden_def should_exclude_def)
  then have "filter (\<lambda>f. \<not> should_exclude (ff_path f)) (filter (\<lambda>f. \<not> hidden f) fs) = filter (\<lambda>f. \<not> should_exclude (ff_path f)) fs"
    by (simp add: filter_filter) (metis (mono_tags, lifting))
  then have "scan_files W (filter (\<lambda>f. \<not> hidden f) fs) = scan_files W fs" by (simp add: scan_files_def)
  ultimately show ?thesis by (simp add: compute_def)
qed

end
