(* ===== verification/Bot_Transport.thy ===== *)
theory Bot_Transport
  imports Agent_Session
begin

text \<open>
  How bots reach their hosts (\<open>src/modules/bot/src/transport.cpp\<close>, \<open>src/modules/bot/include/bot/types.hpp\<close>): over SSH,
  by a command line whose output is captured, or over the agent protocol, one connection per script.
\<close>

section \<open>Hosts and results\<close>

datatype bot_status = RUNNING | SUCCESS | WARNING | CRITICAL | ERROR

primrec status_to_string :: "bot_status \<Rightarrow> string" where
  "status_to_string RUNNING = ''running''"
| "status_to_string SUCCESS = ''success''"
| "status_to_string WARNING = ''warning''"
| "status_to_string CRITICAL = ''critical''"
| "status_to_string ERROR = ''error''"

definition string_to_status :: "string \<Rightarrow> bot_status" where
  "string_to_status s =
     (if s = ''ok'' \<or> s = ''success'' then SUCCESS
      else if s = ''running'' then RUNNING
      else if s = ''warning'' then WARNING
      else if s = ''critical'' then CRITICAL
      else ERROR)"

record bot_host =
  bh_label :: string
  bh_address :: string
  bh_ssh_key :: string
  bh_ssh_port :: int
  bh_agent_port :: int
  bh_services :: "string list"
  bh_extra_config :: "(string, string) std_map"

record run_result =
  rr_status :: bot_status
  rr_exit_code :: int
  rr_stdout_output :: string
  rr_stderr_output :: string
  rr_json_report :: string
  rr_duration_ms :: int

definition no_run :: run_result where
  "no_run = \<lparr>rr_status = ERROR, rr_exit_code = - 1, rr_stdout_output = [], rr_stderr_output = [], rr_json_report = [],
     rr_duration_ms = 0\<rparr>"

text \<open>
  The world of a transport: \<open>popen\<close> with the pieces \<open>fgets\<close> delivers and the status of \<open>pclose\<close>, whether some address
  of a host accepts on a port, which of the messages sent get through, and the pieces that arrive.
\<close>

record transport_world =
  tw_popen :: "string \<Rightarrow> (string list \<times> int) option"
  tw_connect :: "string \<Rightarrow> string \<Rightarrow> bool"
  tw_sent :: "nat \<Rightarrow> bool"
  tw_incoming :: "byte list list"
  tw_padding :: "byte list"

section \<open>SSH\<close>

definition build_ssh_prefix :: "bot_host \<Rightarrow> string" where
  "build_ssh_prefix h =
     ''ssh'' @
     (if bh_ssh_port h \<noteq> 22 then '' -p '' @ to_string (bh_ssh_port h) else []) @
     (if bh_ssh_key h \<noteq> [] then '' -i '' @ shell_quote (bh_ssh_key h) else []) @
     '' -o BatchMode=yes'' @ '' -o StrictHostKeyChecking=accept-new'' @ '' -o ConnectTimeout=10'' @
     '' '' @ shell_quote (bh_address h)"

definition run_pipe :: "transport_world \<Rightarrow> string \<Rightarrow> string \<times> int" where
  "run_pipe W cmd =
     (case tw_popen W (c_string cmd) of
        None \<Rightarrow> ([], - 1)
      | Some (chunks, status) \<Rightarrow> (concat (map c_string chunks), if WIFEXITED status then WEXITSTATUS status else - 1))"

definition ssh_execute_command :: "transport_world \<Rightarrow> bot_host \<Rightarrow> string \<Rightarrow> string \<times> int" where
  "ssh_execute_command W h command = run_pipe W (build_ssh_prefix h @ '' '' @ shell_quote command @ '' 2>&1'')"

definition ssh_script_command :: "bot_host \<Rightarrow> string \<Rightarrow> string" where
  "ssh_script_command h script =
     ''printf '' @ [CHR 0x27] @ ''%s'' @ [CHR 0x27] @ '' '' @ shell_quote script @ '' | '' @
     build_ssh_prefix h @ '' '' @ [CHR 0x27] @ ''bash -s'' @ [CHR 0x27] @ '' 2>&1''"

definition ssh_execute_script :: "transport_world \<Rightarrow> bot_host \<Rightarrow> string \<Rightarrow> string \<times> int" where
  "ssh_execute_script W h script = run_pipe W (ssh_script_command h script)"

definition connection_string :: "bot_host \<Rightarrow> string" where
  "connection_string h = bh_address h @ (if bh_ssh_port h \<noteq> 22 then '':'' @ to_string (bh_ssh_port h) else [])"

section \<open>The agent\<close>

definition extract_host :: "string \<Rightarrow> string" where
  "extract_host address = (case find_char (CHR ''@'') address of None \<Rightarrow> address | Some k \<Rightarrow> drop (k + 1) address)"

definition connect_socket :: "transport_world \<Rightarrow> bot_host \<Rightarrow> bool" where
  "connect_socket W h \<longleftrightarrow> tw_connect W (extract_host (bh_address h)) (to_string (bh_agent_port h))"

definition transport_packet :: "transport_world \<Rightarrow> message_type \<Rightarrow> string \<Rightarrow> byte list" where
  "transport_packet W t payload = encode (tw_padding W) \<lparr>hd_type = type_code t, hd_payload_size = 0\<rparr> payload"

text \<open>\<open>hello\<close> makes a single \<open>recv\<close> of at most 264 bytes.\<close>

definition hello :: "transport_world \<Rightarrow> bot_host \<Rightarrow> bool" where
  "hello W h \<longleftrightarrow> connect_socket W h \<and> tw_sent W 0 \<and>
     (case recv (sizeof_header + 256) (tw_incoming W) of
        None \<Rightarrow> False
      | Some (bytes, _) \<Rightarrow>
          (case decode bytes \<lparr>hd_type = type_code Error, hd_payload_size = 0\<rparr> [] of
             (ok, ack, _) \<Rightarrow> ok \<and> hd_type ack = type_code HelloAck))"

text \<open>The exit code is the number before the first newline of the result, the rest is the output.\<close>

definition parse_result :: "string \<Rightarrow> (int \<times> string) option" where
  "parse_result payload =
     (case find_char nl payload of
        None \<Rightarrow> None
      | Some k \<Rightarrow> (case stoi (take k payload) of None \<Rightarrow> None | Some code \<Rightarrow> Some (code, drop (k + 1) payload)))"

text \<open>The packets sent, and exit code and output, \<^const>\<open>None\<close> for \<open>false\<close>. Messages are read with the agent's loop.\<close>

definition agent_execute_script :: "transport_world \<Rightarrow> bot_host \<Rightarrow> string \<Rightarrow> byte list list \<times> (int \<times> string) option" where
  "agent_execute_script W h script =
     (if \<not> connect_socket W h then ([], None)
      else if \<not> tw_sent W 0 then ([], None)
      else
        let greeting = transport_packet W Hello ''nazg-controller'' in
        case read_message (tw_incoming W) of
          None \<Rightarrow> ([greeting], None)
        | Some ((ack, _), cs) \<Rightarrow>
            if hd_type ack \<noteq> type_code HelloAck then ([greeting], None)
            else if \<not> tw_sent W 1 then ([greeting], None)
            else
              let request = transport_packet W RunCommand script in
              case read_message cs of
                None \<Rightarrow> ([greeting, request], None)
              | Some ((result, payload), _) \<Rightarrow>
                  ([greeting, request], if hd_type result \<noteq> type_code Result then None else parse_result payload))"

section \<open>Results come back\<close>

lemma to_string_no_newline: "nl \<notin> set (to_string i)"
proof -
  have "isdigit c \<or> c = CHR ''-''" if "c \<in> set (to_string i)" for c
    using that nat_digits_props by (auto simp: to_string_def split: if_splits)
  then show ?thesis by (force simp: isdigit_def nl_def)
qed

lemma find_char_behind: "c \<notin> set s \<Longrightarrow> find_char c (s @ c # t) = Some (length s)"
  by (induction s) (auto simp: find_char_def)

lemma parse_result_printed: "- (2 ^ 31) \<le> i \<Longrightarrow> i < 2 ^ 31 \<Longrightarrow> parse_result (to_string i @ nl # out) = Some (i, out)"
  using find_char_behind [OF to_string_no_newline] by (simp add: parse_result_def stoi_to_string)

lemma run_script_code: "run_script W script fs = ((code, out), fs') \<Longrightarrow> - 1 \<le> code \<and> code < 256"
  by (auto simp: run_script_def WEXITSTATUS_def Let_def split: sum.splits option.splits if_splits)

definition packet_bytes :: "agent_event list \<Rightarrow> byte list" where
  "packet_bytes es = concat (map (\<lambda>e. case e of Packet b \<Rightarrow> b | RanScript _ \<Rightarrow> []) es)"

lemma packet_bytes_simps [simp]:
  "packet_bytes [] = []" "packet_bytes (send_packet W t body # es) = wire (rw_padding W, type_code t, body) @ packet_bytes es"
  "packet_bytes (RanScript s # es) = packet_bytes es"
  by (simp_all add: packet_bytes_def send_packet_def)

lemma transport_packet_wire: "transport_packet W t p = wire (tw_padding W, type_code t, p)"
  by (simp add: transport_packet_def)

lemma greeted_session:
  assumes "request_ok g" "hd_type (header_of g) = type_code Hello" "authenticated opts (payload_of g)"
    and "pieces_ok cs" "concat cs = wire g @ rest"
  obtains es where "fst (handle_client opts Ws cs fs) = send_packet (Ws 0) HelloAck ''nazg-agent/0.1'' # es"
    "\<And>m. request_ok m \<Longrightarrow> rest = wire m \<Longrightarrow> es = fst (respond opts (Ws 1) (header_of m) (payload_of m) fs)"
proof -
  obtain cs1 where r: "read_message cs = Some ((header_of g, payload_of g), cs1)" "pieces_ok cs1" "concat cs1 = rest"
    using read_message_wire [OF assms(1,4,5)] by auto
  have e: "fst (handle_client opts Ws cs fs) = send_packet (Ws 0) HelloAck ''nazg-agent/0.1'' # fst (serve opts Ws 1 cs1 fs)"
    using r(1) assms(2,3) by (simp add: handle_client_def split: prod.splits)
  show ?thesis
  proof (rule that [OF e])
    fix m assume m: "request_ok m" "rest = wire m"
    then obtain cs2 where c: "read_message cs1 = Some ((header_of m, payload_of m), cs2)" "pieces_ok cs2" "concat cs2 = []"
      using read_message_wire [of m cs1 "[]"] r(2,3) by auto
    have "serve opts Ws (Suc 1) cs2 fs' = ([], fs')" for fs'
      using read_message_end [OF c(2,3)] by (subst serve.simps) simp
    then show "fst (serve opts Ws 1 cs1 fs) = fst (respond opts (Ws 1) (header_of m) (payload_of m) fs)"
      using c(1) by (subst serve.simps) (simp split: prod.splits)
  qed
qed

lemma greeting_sent:
  "connect_socket W h \<Longrightarrow> tw_sent W 0 \<Longrightarrow>
     \<exists>rest. concat (fst (agent_execute_script W h script)) = wire (tw_padding W, type_code Hello, ''nazg-controller'') @ rest"
  by (auto simp: agent_execute_script_def Let_def transport_packet_wire simp del: wire.simps split: if_splits option.splits prod.splits)

text \<open>
  \<^bold>\<open>C14\<close> A script run through the agent: on an agent without a token, when the connection works and both messages are sent, the
  bot gets exactly the exit code and the output the agent's \<open>run_script\<close> produced, newlines and all, however the
  two streams are cut.
\<close>

theorem agent_script_result:
  assumes "ao_auth_token opts = []" "connect_socket W h" "tw_sent W 0" "tw_sent W 1"
    and pad: "length (tw_padding W) = 3" "length (rw_padding (Ws 0)) = 3" "length (rw_padding (Ws 1)) = 3"
    and script: "length script \<le> MAX_PAYLOAD_SIZE"
    and run: "run_script (Ws 1) script fs = ((code, out), fs')" "length (to_string code @ nl # out) \<le> MAX_PAYLOAD_SIZE"
    and cs: "pieces_ok cs" "concat cs = concat (fst (agent_execute_script W h script))"
    and answer: "pieces_ok (tw_incoming W)" "concat (tw_incoming W) = packet_bytes (fst (handle_client opts Ws cs fs))"
  shows "snd (agent_execute_script W h script) = Some (code, out)"
proof -
  let ?g = "(tw_padding W, type_code Hello, ''nazg-controller'')" and ?m = "(tw_padding W, type_code RunCommand, script)"
  let ?ack = "(rw_padding (Ws 0), type_code HelloAck, ''nazg-agent/0.1'')"
  let ?res = "(rw_padding (Ws 1), type_code Result, to_string code @ nl # out)"
  have ok: "request_ok ?g" "request_ok ?m" "request_ok ?ack" "request_ok ?res"
    using pad script run(2) by (simp_all add: MAX_PAYLOAD_SIZE_def)
  obtain rest where g: "concat cs = wire ?g @ rest"
    using greeting_sent [OF assms(2,3), of script] cs(2) by metis
  have auth: "authenticated opts (payload_of ?g)" using assms(1) by (simp add: authenticated_def)
  obtain es where es: "fst (handle_client opts Ws cs fs) = send_packet (Ws 0) HelloAck ''nazg-agent/0.1'' # es"
    "\<And>m. request_ok m \<Longrightarrow> rest = wire m \<Longrightarrow> es = fst (respond opts (Ws 1) (header_of m) (payload_of m) fs)"
    using greeted_session [OF ok(1) _ auth cs(1) g, of Ws fs thesis] by auto
  have "concat (tw_incoming W) = wire ?ack @ packet_bytes es" using answer(2) es(1) by simp
  from read_message_wire [OF ok(3) answer(1) this] obtain in1 where
    in1: "read_message (tw_incoming W) = Some ((header_of ?ack, payload_of ?ack), in1)" "pieces_ok in1" "concat in1 = packet_bytes es"
    by auto
  have "concat (fst (agent_execute_script W h script)) = wire ?g @ wire ?m"
    using assms(2-4) in1(1)
    by (simp add: agent_execute_script_def Let_def transport_packet_wire del: wire.simps split: option.splits prod.splits)
  then have "rest = wire ?m" using g cs(2) by simp
  then have "es = fst (respond opts (Ws 1) (header_of ?m) (payload_of ?m) fs)" by (rule es(2) [OF ok(2)])
  then have "es = [RanScript script, send_packet (Ws 1) Result (to_string code @ [nl] @ out)]"
    using run(1) by (simp add: respond_def)
  then have "concat in1 = wire ?res @ []" using in1(3) by (simp del: wire.simps)
  from read_message_wire [OF ok(4) in1(2) this] obtain in2 where
    "read_message in1 = Some ((header_of ?res, payload_of ?res), in2)" by auto
  moreover have "- (2 ^ 31) \<le> code" "code < 2 ^ 31" using run_script_code [OF run(1)] by simp_all
  ultimately show ?thesis using assms(2-4) in1(1) parse_result_printed
    by (simp add: agent_execute_script_def Let_def)
qed

section \<open>A concrete run\<close>

abbreviation bot_greeting :: request where
  "bot_greeting \<equiv> ([0, 0, 0], type_code Hello, ''nazg-controller'')"

abbreviation bot_request :: request where
  "bot_request \<equiv> ([0, 0, 0], type_code RunCommand, ''ls'')"

abbreviation bot_ack :: request where
  "bot_ack \<equiv> ([0, 0, 0], type_code HelloAck, ''nazg-agent/0.1'')"

abbreviation bot_answer :: request where
  "bot_answer \<equiv> ([0, 0, 0], type_code Result, to_string 1 @ nl # ''done'' @ [nl])"

definition demo_bot_host :: bot_host where
  "demo_bot_host = \<lparr>bh_label = ''tank'', bh_address = ''root@tank'', bh_ssh_key = [], bh_ssh_port = 22, bh_agent_port = 7070,
     bh_services = [], bh_extra_config = []\<rparr>"

definition demo_transport :: transport_world where
  "demo_transport = \<lparr>tw_popen = \<lambda>_. None, tw_connect = \<lambda>h _. h = ''tank'', tw_sent = \<lambda>_. True,
     tw_incoming = [wire bot_ack, wire bot_answer], tw_padding = [0, 0, 0]\<rparr>"

lemma wire_ne: "wire m \<noteq> []"
  by (cases m) (simp add: encode_def header_bytes_def Let_def)

lemma bot_requests_ok: "request_ok bot_greeting" "request_ok bot_request" "request_ok bot_ack" "request_ok bot_answer"
  by (simp_all add: MAX_PAYLOAD_SIZE_def to_string_def nat_digits.simps)

lemma demo_connect: "connect_socket demo_transport demo_bot_host"
  by (simp add: connect_socket_def demo_transport_def demo_bot_host_def extract_host_def find_char_def)

lemma demo_bot_sent: "concat (fst (agent_execute_script demo_transport demo_bot_host ''ls'')) = concat (map wire [bot_greeting, bot_request])"
proof -
  obtain cs where "read_message [wire bot_ack, wire bot_answer] = Some ((header_of bot_ack, payload_of bot_ack), cs)"
    using read_message_wire [OF bot_requests_ok(3), of "[wire bot_ack, wire bot_answer]" "wire bot_answer"]
      wire_ne [of bot_ack] wire_ne [of bot_answer] by (auto simp del: wire.simps)
  then show ?thesis using demo_connect
    by (simp add: agent_execute_script_def demo_transport_def transport_packet_wire Let_def del: wire.simps split: option.splits prod.splits)
qed

lemma demo_run: "run_script demo_request_world ''ls'' Map.empty = ((1, ''done'' @ [nl]), Map.empty)"
  by (simp add: run_script_def demo_request_world_def WIFEXITED_def WEXITSTATUS_def c_string_def Let_def fun_eq_iff nl_def)

lemma demo_agent_events:
  "packet_bytes (fst (handle_client default_options (\<lambda>_. demo_request_world) [wire bot_greeting, wire bot_request] Map.empty)) =
     wire bot_ack @ wire bot_answer"
proof -
  have "handle_client default_options (\<lambda>_. demo_request_world) [wire bot_greeting, wire bot_request] Map.empty =
      session default_options (\<lambda>_. demo_request_world) [bot_greeting, bot_request] Map.empty"
    using bot_requests_ok wire_ne [of bot_greeting] wire_ne [of bot_request]
    by (intro connection_session) (simp_all del: wire.simps request_ok.simps)
  then show ?thesis using demo_run
    by (simp add: default_options_def authenticated_def respond_def del: wire.simps) (simp add: demo_request_world_def)
qed

theorem agent_script_result_witness:
  "snd (agent_execute_script demo_transport demo_bot_host ''ls'') = Some (1, ''done'' @ [nl])"
proof (rule agent_script_result [OF _ demo_connect _ _ _ _ _ _ demo_run, where opts = default_options and cs = "[wire bot_greeting, wire bot_request]"])
  show "ao_auth_token default_options = []" by (simp add: default_options_def)
  show "tw_sent demo_transport 0" "tw_sent demo_transport 1" "length (tw_padding demo_transport) = 3"
    by (simp_all add: demo_transport_def)
  show "length (rw_padding demo_request_world) = 3" "length (rw_padding demo_request_world) = 3" by (simp_all add: demo_request_world_def)
  show "length ''ls'' \<le> MAX_PAYLOAD_SIZE" using bot_requests_ok(2) by simp
  show "length (to_string 1 @ nl # ''done'' @ [nl]) \<le> MAX_PAYLOAD_SIZE" using bot_requests_ok(4) by simp
  show "pieces_ok [wire bot_greeting, wire bot_request]" "pieces_ok (tw_incoming demo_transport)"
    using wire_ne [of bot_greeting] wire_ne [of bot_request] wire_ne [of bot_ack] wire_ne [of bot_answer]
    by (simp_all add: demo_transport_def del: wire.simps)
  show "concat [wire bot_greeting, wire bot_request] = concat (fst (agent_execute_script demo_transport demo_bot_host ''ls''))"
    unfolding demo_bot_sent by (simp del: wire.simps)
  show "concat (tw_incoming demo_transport) =
      packet_bytes (fst (handle_client default_options (\<lambda>_. demo_request_world) [wire bot_greeting, wire bot_request] Map.empty))"
    unfolding demo_agent_events by (simp add: demo_transport_def del: wire.simps)
qed

end
