(* ===== verification/Bot_Doctors.thy ===== *)
theory Bot_Doctors
  imports Complex_Main Bot_Transport Nexus_Git_Store
begin

text \<open>
  The bots (\<open>src/modules/bot/src/doctor.cpp\<close>, \<open>git_doctor.cpp\<close>, \<open>registry.cpp\<close>): they run a script on a host, over the agent
  when there is one and over SSH otherwise, and read the report it prints. The embedded scripts are arguments,
  and so is \<open>std::stod\<close>, whose values are rational.
\<close>

section \<open>Reading reports\<close>

record report_data =
  rp_host :: string
  rp_timestamp :: int
  rp_metrics :: "(string, string) std_map"
  rp_status :: bot_status
  rp_notes :: "string list"
  rp_raw_json :: string

definition fresh_report :: "string \<Rightarrow> report_data" where
  "fresh_report json = \<lparr>rp_host = [], rp_timestamp = 0, rp_metrics = [], rp_status = SUCCESS, rp_notes = [], rp_raw_json = json\<rparr>"

definition quoted_marker :: "string \<Rightarrow> string" where
  "quoted_marker key = [CHR 0x22] @ key @ [CHR 0x22] @ '': ''"

definition quoted_value :: "string \<Rightarrow> string \<Rightarrow> string option" where
  "quoted_value key json =
     (case text_after (quoted_marker key @ [CHR 0x22]) json of None \<Rightarrow> None | Some v \<Rightarrow> until_char (CHR 0x22) v)"

text \<open>The outer \<^const>\<open>None\<close> is the exception of \<open>std::stoll\<close>.\<close>

definition report_timestamp :: "string \<Rightarrow> int option option" where
  "report_timestamp json =
     (case text_after (quoted_marker ''timestamp'') json of
        None \<Rightarrow> Some None
      | Some v \<Rightarrow>
          if \<forall>c\<in>set v. c \<notin> {CHR '','', CHR ''}''} then Some None
          else map_option Some (stoll (takeWhile (\<lambda>c. c \<notin> {CHR '','', CHR ''}''}) v)))"

definition parse_header :: "string \<Rightarrow> report_data option" where
  "parse_header json =
     (let r0 = fresh_report json;
          r1 = (case quoted_value ''status'' json of None \<Rightarrow> r0 | Some s \<Rightarrow> r0\<lparr>rp_status := string_to_status s\<rparr>);
          r2 = (case quoted_value ''host'' json of None \<Rightarrow> r1 | Some h \<Rightarrow> r1\<lparr>rp_host := h\<rparr>)
      in case report_timestamp json of
           None \<Rightarrow> None
         | Some None \<Rightarrow> Some r2
         | Some (Some t) \<Rightarrow> Some (r2\<lparr>rp_timestamp := t\<rparr>))"

section \<open>The doctor\<close>

definition agent_available :: "bot_host \<Rightarrow> bool" where
  "agent_available h \<longleftrightarrow> map_get (bh_extra_config h) ''agent_available'' = Some ''true''"

definition doctor_script_content :: "string \<Rightarrow> bot_host \<Rightarrow> string" where
  "doctor_script_content script h =
     script @ (if bh_services h \<noteq> [] then '' --services '' @ join_with '','' (bh_services h) else [])"

text \<open>Output, exit code, and whether the agent delivered them.\<close>

definition run_on_host :: "transport_world \<Rightarrow> bot_host \<Rightarrow> string \<Rightarrow> (string \<times> int) \<times> bool" where
  "run_on_host W h script =
     (case (if agent_available h then snd (agent_execute_script W h script) else None) of
        Some (code, out) \<Rightarrow> ((out, code), True)
      | None \<Rightarrow> (ssh_execute_script W h script, False))"

text \<open>\<open>what\<close> is the text of the exception of \<open>std::stoll\<close>.\<close>

definition doctor_execute :: "transport_world \<Rightarrow> string \<Rightarrow> string \<Rightarrow> int \<Rightarrow> bot_host \<Rightarrow> run_result" where
  "doctor_execute W what script duration h =
     (case run_on_host W h script of
        ((output, exit_code), _) \<Rightarrow>
          let result = no_run\<lparr>rr_exit_code := exit_code, rr_duration_ms := duration, rr_stdout_output := output\<rparr> in
          if exit_code = 0 then
            (case parse_header output of
               None \<Rightarrow> result\<lparr>rr_status := ERROR, rr_stderr_output := ''Failed to parse report: '' @ what\<rparr>
             | Some report \<Rightarrow> result\<lparr>rr_status := rp_status report, rr_json_report := output\<rparr>)
          else result\<lparr>rr_status := ERROR, rr_stderr_output := output\<rparr>)"

section \<open>The git doctor\<close>

record git_doctor =
  gd_host :: bot_host
  gd_git_server_type :: string
  gd_repo_base_path :: string
  gd_config_path :: string
  gd_git_server_label :: string

definition config_or :: "bot_host \<Rightarrow> string \<Rightarrow> string \<Rightarrow> string" where
  "config_or h key d = (case map_get (bh_extra_config h) key of None \<Rightarrow> d | Some v \<Rightarrow> v)"

definition new_git_doctor :: "bot_host \<Rightarrow> git_doctor" where
  "new_git_doctor h = \<lparr>gd_host = h, gd_git_server_type = config_or h ''git_server_type'' ''cgit'',
     gd_repo_base_path = config_or h ''repo_base_path'' ''/srv/git'', gd_config_path = config_or h ''config_path'' ''/etc/cgitrc'',
     gd_git_server_label = config_or h ''git_server_label'' []\<rparr>"

definition assignment :: "string \<Rightarrow> string \<Rightarrow> string" where
  "assignment name v = name @ ''='' @ [CHR 0x22] @ v @ [CHR 0x22, nl]"

definition git_doctor_script_content :: "string \<Rightarrow> git_doctor \<Rightarrow> string" where
  "git_doctor_script_content script b =
     ''#!/usr/bin/env bash'' @ [nl] @ assignment ''GIT_TYPE'' (gd_git_server_type b) @
     assignment ''REPO_PATH'' (gd_repo_base_path b) @ assignment ''CONFIG_PATH'' (gd_config_path b) @ [nl] @
     (case find_char nl script of None \<Rightarrow> script | Some k \<Rightarrow> drop (k + 1) script)"

text \<open>From an opening to its closing bracket, \<^const>\<open>None\<close> when it is not closed.\<close>

fun balanced :: "char \<Rightarrow> char \<Rightarrow> int \<Rightarrow> string \<Rightarrow> string option" where
  "balanced a b depth [] = None"
| "balanced a b depth (c # s) =
     (if c = a then map_option ((#) c) (balanced a b (depth + 1) s)
      else if c = b then (if depth - 1 = 0 then Some [c] else map_option ((#) c) (balanced a b (depth - 1) s))
      else map_option ((#) c) (balanced a b depth s))"

definition extract_balanced :: "char \<Rightarrow> char \<Rightarrow> string \<Rightarrow> string \<Rightarrow> string" where
  "extract_balanced a b json key =
     (case text_after (quoted_marker key) json of
        None \<Rightarrow> []
      | Some v \<Rightarrow> (case balanced a b 0 (dropWhile (\<lambda>c. c \<noteq> a) v) of None \<Rightarrow> [] | Some x \<Rightarrow> x))"

definition extract_section :: "string \<Rightarrow> string \<Rightarrow> string" where
  "extract_section = extract_balanced (CHR ''{'') (CHR ''}'')"

definition extract_array :: "string \<Rightarrow> string \<Rightarrow> string" where
  "extract_array = extract_balanced (CHR ''['') (CHR '']'')"

definition find_bool :: "string \<Rightarrow> string \<Rightarrow> bool option" where
  "find_bool txt key =
     (case text_after ([CHR 0x22] @ key @ [CHR 0x22, CHR '':'']) txt of
        None \<Rightarrow> None
      | Some v \<Rightarrow>
          let w = dropWhile isspace v in
          if take 4 w = ''true'' then Some True else if take 5 w = ''false'' then Some False else None)"

definition find_string :: "string \<Rightarrow> string \<Rightarrow> string option" where
  "find_string txt key =
     (case text_after (quoted_marker key) txt of
        None \<Rightarrow> None
      | Some v \<Rightarrow> (case find_char (CHR 0x22) v of None \<Rightarrow> None | Some k \<Rightarrow> until_char (CHR 0x22) (drop (k + 1) v)))"

definition to_int64 :: "rat \<Rightarrow> int" where
  "to_int64 q = (if 0 \<le> q then \<lfloor>q\<rfloor> else \<lceil>q\<rceil>)"

definition find_number :: "(string \<Rightarrow> rat option) \<Rightarrow> string \<Rightarrow> string \<Rightarrow> int option" where
  "find_number stod txt key =
     (case text_after (quoted_marker key) txt of
        None \<Rightarrow> None
      | Some v \<Rightarrow>
          let digits = takeWhile (\<lambda>c. isdigit c \<or> c = CHR ''.'') (dropWhile isspace v)
          in if digits = [] then None else map_option to_int64 (stod digits))"

definition put_metric :: "string \<Rightarrow> string option \<Rightarrow> (string, string) std_map \<Rightarrow> (string, string) std_map" where
  "put_metric key v m = (case v of None \<Rightarrow> m | Some x \<Rightarrow> map_put key x m)"

definition bool_text :: "bool \<Rightarrow> string" where
  "bool_text b = (if b then ''true'' else ''false'')"

definition report_metrics :: "(string \<Rightarrow> rat option) \<Rightarrow> string \<Rightarrow> (string, string) std_map" where
  "report_metrics stod json =
     (let checks = extract_section json ''checks'';
          repositories = extract_section json ''repositories'';
          disk = extract_section json ''disk'';
          services = extract_section json ''services'';
          m1 = (if checks = [] then [] else
             put_metric ''fcgiwrap_socket_exists'' (map_option bool_text (find_bool checks ''fcgiwrap_socket_exists''))
             (put_metric ''git_user_exists'' (map_option bool_text (find_bool checks ''git_user_exists''))
             (put_metric ''http_clone_available'' (find_string checks ''http_clone_available'')
             (put_metric ''web_ui_reachable'' (map_option bool_text (find_bool checks ''web_ui_reachable'')) []))));
          m2 = (if repositories = [] then m1 else
             put_metric ''repo_path'' (find_string repositories ''path'')
             (put_metric ''total_size_mb'' (map_option to_string (find_number stod repositories ''total_size_mb''))
             (put_metric ''repo_count'' (map_option to_string (find_number stod repositories ''count'')) m1)));
          m3 = (if disk = [] then m2 else
             put_metric ''disk_free'' (find_string disk ''free'')
             (put_metric ''disk_used_pct'' (map_option to_string (find_number stod disk ''used_pct'')) m2))
      in if services = [] then m3 else map_put ''services_json'' services m3)"

definition trim_note :: "string \<Rightarrow> string" where
  "trim_note s =
     (let t = rev (dropWhile isspace (rev (dropWhile isspace s)))
      in if t \<noteq> [] \<and> hd t = CHR 0x22 \<and> last t = CHR 0x22 then butlast (tl t) else t)"

definition notes_of :: "string \<Rightarrow> string list" where
  "notes_of notes_json =
     filter (\<lambda>n. n \<noteq> []) (map trim_note (getlines (CHR '','') (substr notes_json 1 (length notes_json - 2))))"

definition git_parse_report :: "(string \<Rightarrow> rat option) \<Rightarrow> string \<Rightarrow> report_data option" where
  "git_parse_report stod json =
     (case parse_header json of
        None \<Rightarrow> None
      | Some r \<Rightarrow>
          let r1 = r\<lparr>rp_metrics := report_metrics stod json\<rparr>; notes_json = extract_array json ''notes''
          in Some (if notes_json = [] then r1
               else r1\<lparr>rp_metrics := map_put ''notes_json'' notes_json (rp_metrics r1), rp_notes := notes_of notes_json\<rparr>))"

definition to_int :: "string \<Rightarrow> int" where
  "to_int v = (case stoll v of None \<Rightarrow> 0 | Some i \<Rightarrow> i)"

definition size_factor :: "char \<Rightarrow> rat" where
  "size_factor suffix =
     (if suffix \<in> {CHR ''T'', CHR ''t''} then 1024 * 1024 * 1024 * 1024
      else if suffix \<in> {CHR ''G'', CHR ''g''} then 1024 * 1024 * 1024
      else if suffix \<in> {CHR ''M'', CHR ''m''} then 1024 * 1024
      else if suffix \<in> {CHR ''K'', CHR ''k''} then 1024
      else 1)"

definition parse_size :: "(string \<Rightarrow> rat option) \<Rightarrow> string \<Rightarrow> int" where
  "parse_size stod v =
     (if v = [] then 0
      else (case stod v of None \<Rightarrow> 0 | Some q \<Rightarrow> to_int64 (q * size_factor (last v))))"

definition metric_is :: "report_data \<Rightarrow> string \<Rightarrow> string \<Rightarrow> bool" where
  "metric_is r key v \<longleftrightarrow> map_get (rp_metrics r) key = Some v"

definition metric_or :: "report_data \<Rightarrow> string \<Rightarrow> (string \<Rightarrow> 'a) \<Rightarrow> 'a \<Rightarrow> 'a" where
  "metric_or r key f d = (case map_get (rp_metrics r) key of None \<Rightarrow> d | Some v \<Rightarrow> f v)"

definition health_record :: "(string \<Rightarrow> rat option) \<Rightarrow> int \<Rightarrow> int \<Rightarrow> report_data \<Rightarrow> git_health" where
  "health_record stod now sid report =
     \<lparr>gh_id = 0, gh_server_id = sid, gh_timestamp = (if rp_timestamp report \<noteq> 0 then rp_timestamp report else now),
      gh_status = status_to_string (rp_status report), gh_web_ui = metric_is report ''web_ui_reachable'' ''true'',
      gh_http_clone = metric_is report ''http_clone_available'' ''available'',
      gh_ssh_push = metric_is report ''git_user_exists'' ''true'',
      gh_service_status = metric_or report ''services_json'' (\<lambda>v. v) [],
      gh_repo_count = metric_or report ''repo_count'' (\<lambda>v. to_int32 (to_int v)) 0,
      gh_total_size = metric_or report ''total_size_mb'' (\<lambda>v. to_int v * 1024 * 1024) 0,
      gh_disk_used = metric_or report ''disk_used_pct'' (\<lambda>v. to_int32 (to_int v)) 0,
      gh_disk_free = metric_or report ''disk_free'' (parse_size stod) 0,
      gh_notes = (if rp_notes report \<noteq> [] then metric_or report ''notes_json'' (\<lambda>v. v) [] else [])\<rparr>"

text \<open>The key, the salt and the cipher are those of the stored administrator token, which is not used here.\<close>

definition store_health ::
  "aead \<Rightarrow> string \<Rightarrow> string \<Rightarrow> (string \<Rightarrow> rat option) \<Rightarrow> int \<Rightarrow> git_doctor \<Rightarrow> report_data \<Rightarrow> sqlite option \<Rightarrow> sqlite option" where
  "store_health A secret salt stod now b report store =
     (case store of
        None \<Rightarrow> None
      | Some c \<Rightarrow>
          let lookup_label = (if gd_git_server_label b \<noteq> [] then gd_git_server_label b else bh_label (gd_host b)) in
          if lookup_label = [] then Some c
          else (case get_git_server A secret salt lookup_label c of
              None \<Rightarrow> Some c
            | Some server \<Rightarrow> Some (fst (add_git_server_health (health_record stod now (gs_id server) report) c))))"

definition git_doctor_execute ::
  "transport_world \<Rightarrow> aead \<Rightarrow> string \<Rightarrow> string \<Rightarrow> (string \<Rightarrow> rat option) \<Rightarrow> string \<Rightarrow> string \<Rightarrow> int \<Rightarrow> int \<Rightarrow> git_doctor \<Rightarrow>
     sqlite option \<Rightarrow> sqlite option \<times> run_result" where
  "git_doctor_execute W A secret salt stod what script duration now b store =
     (case run_on_host W (gd_host b) (git_doctor_script_content script b) of
        ((output, exit_code), via_agent) \<Rightarrow>
          let result = no_run\<lparr>rr_exit_code := exit_code, rr_duration_ms := duration, rr_stdout_output := output,
                rr_stderr_output := (if via_agent then [] else output)\<rparr>
          in if exit_code = 0 then
               (case git_parse_report stod output of
                  None \<Rightarrow> (store, result\<lparr>rr_status := ERROR, rr_stderr_output := ''Failed to parse report: '' @ what\<rparr>)
                | Some report \<Rightarrow>
                    (store_health A secret salt stod now b report store,
                     result\<lparr>rr_status := rp_status report, rr_json_report := output\<rparr>))
             else (store, result\<lparr>rr_status := ERROR\<rparr>))"

section \<open>The registry\<close>

record bot_spec =
  bs_name :: string
  bs_description :: string
  bs_required_inputs :: "string list"
  bs_default_config :: "(string, string) std_map"

datatype bot = DoctorBot bot_host | GitDoctorBot git_doctor

type_synonym bot_registry = "(string, bot_spec \<times> (bot_host \<Rightarrow> bot)) std_map"

definition register_bot :: "bot_spec \<Rightarrow> (bot_host \<Rightarrow> bot) \<Rightarrow> bot_registry \<Rightarrow> bot_registry" where
  "register_bot spec factory r = map_put (bs_name spec) (spec, factory) r"

definition get_spec :: "string \<Rightarrow> bot_registry \<Rightarrow> bot_spec option" where
  "get_spec name r = map_option fst (map_get r name)"

definition list_bots :: "bot_registry \<Rightarrow> bot_spec list" where
  "list_bots r = map (fst \<circ> snd) r"

text \<open>An unknown name throws: \<^const>\<open>None\<close>.\<close>

definition create_bot :: "string \<Rightarrow> bot_host \<Rightarrow> bot_registry \<Rightarrow> bot option" where
  "create_bot name h r = map_option (\<lambda>(_, factory). factory h) (map_get r name)"

definition register_builtin_bots :: "bot_registry \<Rightarrow> bot_registry" where
  "register_builtin_bots r =
     register_bot \<lparr>bs_name = ''git-doctor'',
         bs_description = ''Git server infrastructure health (cgit/gitea, nginx, fcgiwrap, repos)'', bs_required_inputs = [],
         bs_default_config = []\<rparr> (\<lambda>h. GitDoctorBot (new_git_doctor h))
       (register_bot \<lparr>bs_name = ''doctor'',
         bs_description = ''System health diagnostics (CPU, memory, disk, services, network)'', bs_required_inputs = [],
         bs_default_config = []\<rparr> DoctorBot r)"

section \<open>What a run means\<close>

lemma quoted_value_None: "text_after (quoted_marker key) json = None \<Longrightarrow> quoted_value key json = None"
proof -
  assume a: "text_after (quoted_marker key) json = None"
  have "text_after p s = None \<Longrightarrow> text_after (p @ q) s = None" if "p \<noteq> []" for p q s :: string
    using that
  proof (induction s)
    case (Cons c s)
    then have "take (length p) (c # s) \<noteq> p" "text_after p s = None" by (auto split: if_splits)
    moreover have "take (length (p @ q)) (c # s) \<noteq> p @ q"
      using \<open>take (length p) (c # s) \<noteq> p\<close> by (metis append_eq_conv_conj take_take min.absorb1 length_append le_add1)
    ultimately show ?case using Cons by simp
  qed simp
  from this [OF _ a] have "text_after (quoted_marker key @ [CHR 0x22]) json = None" by (simp add: quoted_marker_def)
  then show ?thesis by (simp add: quoted_value_def)
qed

text \<open>
  A run that prints no report counts as a success: with exit code 0, any output without a status and a time, even
  none, gives the status \<open>success\<close>, both for the doctor and for the git doctor.
\<close>

lemma no_report_is_success:
  assumes "run_on_host W h script = ((out, 0), via)"
    and "text_after (quoted_marker ''status'') out = None" "text_after (quoted_marker ''timestamp'') out = None"
  shows "rr_status (doctor_execute W what script n h) = SUCCESS \<and>
    (run_on_host W (gd_host b) (git_doctor_script_content script' b) = ((out, 0), via) \<longrightarrow>
      rr_status (snd (git_doctor_execute W A secret salt stod what script' n now b store)) = SUCCESS)"
proof -
  obtain r where p: "parse_header out = Some r" "rp_status r = SUCCESS"
    using quoted_value_None [OF assms(2)] assms(3)
    by (auto simp: parse_header_def report_timestamp_def fresh_report_def Let_def split: option.splits)
  have "rr_status (doctor_execute W what script n h) = SUCCESS"
    using assms(1) p by (simp add: doctor_execute_def Let_def)
  moreover have "rr_status (snd (git_doctor_execute W A secret salt stod what script' n now b store)) = SUCCESS"
    if "run_on_host W (gd_host b) (git_doctor_script_content script' b) = ((out, 0), via)"
    using that p by (simp add: git_doctor_execute_def git_parse_report_def Let_def)
  ultimately show ?thesis by blast
qed

definition silent_transport :: transport_world where
  "silent_transport = \<lparr>tw_popen = \<lambda>_. Some ([], 0), tw_connect = \<lambda>_ _. False, tw_sent = \<lambda>_. True, tw_incoming = [],
     tw_padding = [0, 0, 0]\<rparr>"

lemma no_report_is_success_example:
  "rr_status (doctor_execute silent_transport [] ''true'' 5 demo_bot_host) = SUCCESS"
proof -
  have "run_on_host silent_transport demo_bot_host ''true'' = (([], 0), False)"
    by (simp add: run_on_host_def agent_available_def demo_bot_host_def map_get_def ssh_execute_script_def run_pipe_def
        silent_transport_def WIFEXITED_def WEXITSTATUS_def)
  from no_report_is_success [OF this] show ?thesis by (simp add: quoted_marker_def)
qed

text \<open>
  The services of a host are in \<open>get_script_content\<close> of the doctor, which \<open>execute\<close> does not call: the
  result does not depend on them.
\<close>

lemma doctor_ignores_services: "doctor_execute W what script n (h\<lparr>bh_services := ss\<rparr>) = doctor_execute W what script n h"
proof -
  have "agent_execute_script W (h\<lparr>bh_services := ss\<rparr>) script = agent_execute_script W h script"
    by (simp add: agent_execute_script_def connect_socket_def)
  moreover have "ssh_execute_script W (h\<lparr>bh_services := ss\<rparr>) script = ssh_execute_script W h script"
    by (simp add: ssh_execute_script_def ssh_script_command_def build_ssh_prefix_def)
  ultimately have "run_on_host W (h\<lparr>bh_services := ss\<rparr>) script = run_on_host W h script"
    by (simp add: run_on_host_def agent_available_def cong: option.case_cong)
  then show ?thesis by (simp add: doctor_execute_def)
qed

end
