(* ===== verification/Tui_Docker_View.thy ===== *)
theory Tui_Docker_View
  imports Tui_Docker_Menu Tui_Views
begin

text \<open>
  What the docker dashboard draws: the render functions of \<open>modules/tui/src/menus/docker_menu.cpp\<close>.
\<close>

definition is_sub :: "string \<Rightarrow> string \<Rightarrow> bool" where
  "is_sub p s \<longleftrightarrow> text_after p s \<noteq> None"

text \<open>A row of a list that is highlighted when it is selected; \<open>i\<close> is its place.\<close>

definition row :: "'e canvas \<Rightarrow> bool \<Rightarrow> 'e list \<Rightarrow> 'e" where
  "row D selected cells = (if selected then styled D [Bgcolor Blue] (dr_hbox D cells) else dr_hbox D cells)"

definition table :: "('a \<Rightarrow> bool \<Rightarrow> 'e) \<Rightarrow> int \<Rightarrow> 'a list \<Rightarrow> 'e list" where
  "table f selected xs = map (\<lambda>(i, x). f x (int i = selected)) (enumerate 0 xs)"

section \<open>The tabs of the dashboard\<close>

text \<open>Filter and stopped containers: the rows that \<open>render_containers_tab\<close> passes over.\<close>

definition container_shown :: "docker_menu \<Rightarrow> container_row \<Rightarrow> bool" where
  "container_shown m r \<longleftrightarrow>
     (dm_filter m = [] \<or> is_sub (dm_filter m) (co_name r) \<or> is_sub (dm_filter m) (co_image r)) \<and>
     (dm_show_stopped m \<or> co_state r = ''running'')"

definition state_look :: "string \<Rightarrow> colour \<times> string" where
  "state_look state =
     (if state = ''running'' then (Green, filled_circle)
      else if state = ''exited'' then (Red, filled_square)
      else if state = ''paused'' then (Yellow, pause_sign)
      else (Default, filled_circle))"

definition container_cells :: "'e canvas \<Rightarrow> container_row \<Rightarrow> bool \<Rightarrow> 'e list" where
  "container_cells D r selected =
     (case state_look (co_state r) of (colour, icon) \<Rightarrow>
        [sized D 30 (tx D (mark selected @ co_name r)),
         sized D 12 (dr_hbox D [styled D [Fgcolor colour] (tx D icon), tx D (CHR '' '' # co_state r)]),
         styled D [Dim] (sized D 35 (tx D (co_image r))),
         tx D (co_status r)])"

definition render_containers_tab :: "'e canvas \<Rightarrow> docker_menu \<Rightarrow> 'e list" where
  "render_containers_tab D m =
     (if dm_containers m = [] then
        (if dm_server_id m \<noteq> 0 then [styled D [Dim] (tx D ''No containers found'')] else [])
      else
        [styled D [Bold] (tx D (whale @ '' Containers:'')),
         styled D [Bold] (dr_hbox D [sized D 30 (tx D ''  NAME''), sized D 12 (tx D ''STATE''), sized D 35 (tx D ''IMAGE''), tx D ''STATUS''])] @
        map (\<lambda>(i, r). row D (int i = dm_container m) (container_cells D r (int i = dm_container m)))
          (filter (\<lambda>(i, r). container_shown m r) (enumerate 0 (dm_containers m))))"

definition render_images_tab :: "'e canvas \<Rightarrow> docker_menu \<Rightarrow> 'e list" where
  "render_images_tab D m =
     styled D [Bold] (tx D (disc @ '' Images:'')) #
     (if dm_images m = [] then [styled D [Dim] (tx D ''  No images found'')]
      else styled D [Bold] (dr_hbox D [sized D 40 (tx D ''  REPOSITORY''), sized D 20 (tx D ''TAG''), sized D 15 (tx D ''SIZE''), tx D ''CREATED'']) #
        table (\<lambda>x sel. row D sel [sized D 40 (tx D (mark sel @ im_repository x)), styled D [Fgcolor Cyan] (sized D 20 (tx D (im_tag x))),
            sized D 15 (tx D (im_size x)), styled D [Dim] (tx D (im_created x))]) (dm_image m) (dm_images m))"

definition render_volumes_tab :: "'e canvas \<Rightarrow> docker_menu \<Rightarrow> 'e list" where
  "render_volumes_tab D m =
     styled D [Bold] (tx D (floppy @ '' Volumes:'')) #
     (if dm_volumes m = [] then [styled D [Dim] (tx D ''  No volumes found'')]
      else styled D [Bold] (dr_hbox D [sized D 40 (tx D ''  NAME''), sized D 15 (tx D ''DRIVER''), tx D ''MOUNTPOINT'']) #
        table (\<lambda>x sel. row D sel [sized D 40 (tx D (mark sel @ vo_name x)), styled D [Fgcolor Cyan] (sized D 15 (tx D (vo_driver x))),
            styled D [Dim] (tx D (vo_mountpoint x))]) (dm_volume m) (dm_volumes m))"

definition render_networks_tab :: "'e canvas \<Rightarrow> docker_menu \<Rightarrow> 'e list" where
  "render_networks_tab D m =
     styled D [Bold] (tx D (globe @ '' Networks:'')) #
     (if dm_networks m = [] then [styled D [Dim] (tx D ''  No networks found'')]
      else styled D [Bold] (dr_hbox D [sized D 30 (tx D ''  NAME''), sized D 15 (tx D ''ID''), sized D 15 (tx D ''DRIVER''), tx D ''SCOPE'']) #
        table (\<lambda>x sel. row D sel [sized D 30 (tx D (mark sel @ ne_name x)), styled D [Dim] (sized D 15 (tx D (take 12 (ne_id x)))),
            styled D [Fgcolor Cyan] (sized D 15 (tx D (ne_driver x))), tx D (ne_scope x)]) (dm_network m) (dm_networks m))"

definition stack_line :: "stack_info \<Rightarrow> bool \<Rightarrow> string" where
  "stack_line x selected = mark selected @ package @ '' '' @ st_name x @ '' ('' @ to_string (st_service_count x) @ '' services)'' @
     (if st_description x = [] then [] else '' - '' @ st_description x)"

definition render_stacks_tab :: "'e canvas \<Rightarrow> docker_menu \<Rightarrow> 'e list" where
  "render_stacks_tab D m =
     styled D [Bold] (tx D (package @ '' Stacks:'')) #
     (if dm_stacks m = [] then [styled D [Dim] (tx D ''  No stacks found''),
          styled D [Dim] (tx D (''  Use '' @ [CHR 0x27] @ ''nazg docker stack create'' @ [CHR 0x27] @ '' to create stacks''))]
      else table (\<lambda>x sel. if sel then styled D [Bold, Bgcolor Blue] (tx D (stack_line x sel)) else tx D (stack_line x sel))
        (dm_stack m) (dm_stacks m))"

section \<open>The dashboard\<close>

definition make_tab :: "'e canvas \<Rightarrow> docker_menu \<Rightarrow> string \<Rightarrow> tab \<Rightarrow> 'e" where
  "make_tab D m name t =
     (if dm_tab m = t then styled D [Bold, Bgcolor Cyan, Fgcolor Black] (tx D (CHR '' '' # name @ '' ''))
      else styled D [Dim] (tx D (CHR '' '' # name @ '' '')))"

definition server_line :: "server_info \<Rightarrow> bool \<Rightarrow> string" where
  "server_line sv selected = ''  '' @ mark selected @ si_label sv @ '' ('' @ si_host sv @ '')'' @ '' - '' @ si_status sv @
     '' ['' @ to_string (si_container_count sv) @ '' containers]''"

definition wrap_width :: "int option \<Rightarrow> int" where
  "wrap_width dimx = (case dimx of None \<Rightarrow> 80
     | Some w \<Rightarrow> if 0 < w then max 20 (w - horizontal_overhead default_menu_frame_options) else 80)"

definition message_block :: "'e canvas \<Rightarrow> int option \<Rightarrow> docker_menu \<Rightarrow> 'e list" where
  "message_block D dimx m =
     (if dm_error m \<noteq> [] then
        [styled D [Fgcolor Red] (make_wrapped_block (drawing.truncate D) (cross @ '' '' @ dm_error m) (wrap_width dimx)), dr_separator D]
      else if dm_status m \<noteq> [] then
        [styled D [Fgcolor Cyan] (make_wrapped_block (drawing.truncate D) (info_sign @ ''  '' @ dm_status m) (wrap_width dimx)), dr_separator D]
      else [])"

definition render_servers :: "'e canvas \<Rightarrow> docker_menu \<Rightarrow> 'e list" where
  "render_servers D m =
     styled D [Bold] (tx D (antenna @ '' Server:'')) #
     (if dm_servers m = [] then [styled D [Dim] (tx D ''  No servers configured'')]
      else table (\<lambda>sv sel. if sel then styled D [Bold, Fgcolor Cyan] (tx D (server_line sv sel)) else tx D (server_line sv sel))
        (dm_server m) (dm_servers m))"

definition render_tab :: "'e canvas \<Rightarrow> docker_menu \<Rightarrow> 'e list" where
  "render_tab D m =
     (case dm_tab m of CONTAINERS \<Rightarrow> render_containers_tab D m | IMAGES \<Rightarrow> render_images_tab D m
      | VOLUMES \<Rightarrow> render_volumes_tab D m | NETWORKS \<Rightarrow> render_networks_tab D m | STACKS \<Rightarrow> render_stacks_tab D m
      | NoTab i \<Rightarrow> [])"

definition help_texts :: "tab \<Rightarrow> string list" where
  "help_texts t =
     [''Tab: Next tab'', ''Shift-Tab: Prev tab'', ''1-5: Tabs'', up_down @ '': Navigate'', left_right @ '': Server'', ''h: Hello-world''] @
     (if t = CONTAINERS then [''s: Start'', ''S: Stop'', ''r: Restart'', ''l: Logs'']
      else if t = STACKS then [''s: Start stack'', ''S: Stop stack'', ''r: Restart stack''] else []) @
     [''R: Refresh'', '':back: Exit'']"

fun separated :: "'e \<Rightarrow> 'e list \<Rightarrow> 'e list" where
  "separated s [] = []"
| "separated s [x] = [x]"
| "separated s (x # y # xs) = x # s # separated s (y # xs)"

definition render_dashboard :: "'e canvas \<Rightarrow> int option \<Rightarrow> docker_menu \<Rightarrow> 'e" where
  "render_dashboard D dimx m =
     dr_vbox D ([styled D [Bold, Center, Bgcolor Blue] (tx D (whale @ '' Docker Dashboard'')), dr_separator D,
       dr_hbox D (separated (tx D '' '') (map (\<lambda>t. make_tab D m (tab_label t) t) tab_order)), dr_separator D] @
       message_block D dimx m @ render_servers D m @ [dr_separator D] @ render_tab D m @ [dr_separator D] @
       [dr_hbox D (separated (styled D [Dim] (tx D '' | '')) (map (\<lambda>h. styled D [Dim] (tx D h)) (help_texts (dm_tab m))))])"

section \<open>What is drawn\<close>

lemma length_filter_enumerate: "length (filter (\<lambda>(i, x). P x) (enumerate n xs)) = length (filter P xs)"
  by (induction xs arbitrary: n) simp_all

lemma containers_tab_rows:
  "dm_containers m \<noteq> [] \<Longrightarrow> length (render_containers_tab D m) = 2 + length (filter (container_shown m) (dm_containers m))"
  by (simp add: render_containers_tab_def length_filter_enumerate)

lemma table_rows: "length (table f selected xs) = length xs"
  "i < length xs \<Longrightarrow> table f selected xs ! i = f (xs ! i) (int i = selected)"
  by (simp_all add: table_def nth_enumerate_eq)

lemma length_separated: "xs \<noteq> [] \<Longrightarrow> length (separated s xs) = 2 * length xs - 1"
  by (induction s xs rule: separated.induct) (auto simp: Suc_diff_le)

end
