(* ===== verification/Git_Gitea.thy ===== *)
theory Git_Gitea
  imports Agent_Scan_Facts
begin

text \<open>
  The client of the Gitea interface: class \<open>GiteaAPI\<close> in \<open>modules/git/include/git/gitea_api.hpp\<close> and
  \<open>modules/git/src/gitea_api.cpp\<close>: the JSON texts it prints, the readers of the answers, and one definition per operation.

  The HTTP library is the argument \<open>net\<close>: what comes of the last of the requests made so far. An operation returns its
  result and the requests made; a thrown exception is \<^const>\<open>None\<close> until the operation catches it. \<open>text_after p s\<close> is the
  text behind the first occurrence of \<open>p\<close>, as in \<open>Agent_Scanner\<close>. URLs and bodies are taken to contain no NUL byte.
\<close>

section \<open>Data\<close>

record user =
  us_id :: int
  us_username :: string
  us_email :: string
  us_full_name :: string
  us_is_admin :: bool

record organization =
  og_id :: int
  og_username :: string
  og_full_name :: string
  og_description :: string
  og_website :: string

record repository =
  rt_id :: int
  rt_name :: string
  rt_full_name :: string
  rt_description :: string
  rt_is_private :: bool
  rt_clone_url :: string
  rt_ssh_url :: string
  rt_html_url :: string

record webhook =
  wh_id :: int
  wh_type :: string
  wh_url :: string
  wh_content_type :: string
  wh_events :: "string list"
  wh_active :: bool

record ssh_key =
  sk_id :: int
  sk_title :: string
  sk_key :: string
  sk_fingerprint :: string

definition new_user :: user where
  "new_user = \<lparr>us_id = 0, us_username = [], us_email = [], us_full_name = [], us_is_admin = False\<rparr>"

definition new_organization :: organization where
  "new_organization = \<lparr>og_id = 0, og_username = [], og_full_name = [], og_description = [], og_website = []\<rparr>"

definition new_repository :: repository where
  "new_repository = \<lparr>rt_id = 0, rt_name = [], rt_full_name = [], rt_description = [], rt_is_private = True, rt_clone_url = [],
     rt_ssh_url = [], rt_html_url = []\<rparr>"

definition new_webhook :: webhook where
  "new_webhook = \<lparr>wh_id = 0, wh_type = [], wh_url = [], wh_content_type = [], wh_events = [], wh_active = True\<rparr>"

definition new_ssh_key :: ssh_key where
  "new_ssh_key = \<lparr>sk_id = 0, sk_title = [], sk_key = [], sk_fingerprint = []\<rparr>"

section \<open>Printing\<close>

text \<open>
  \<open>c < 0x20\<close> compares a signed \<open>char\<close>: a byte from 128 on is negative, and printed in hexadecimal as a 32-bit number.
\<close>

definition escape_char_impl :: "char \<Rightarrow> string" where
  "escape_char_impl c =
     (if c = CHR 0x22 then [CHR 0x5C, CHR 0x22]
      else if c = CHR 0x5C then [CHR 0x5C, CHR 0x5C]
      else if c = CHR 0x08 then [CHR 0x5C, CHR ''b'']
      else if c = CHR 0x0C then [CHR 0x5C, CHR ''f'']
      else if c = CHR 0x0A then [CHR 0x5C, CHR ''n'']
      else if c = CHR 0x0D then [CHR 0x5C, CHR ''r'']
      else if c = CHR 0x09 then [CHR 0x5C, CHR ''t'']
      else if of_char c < (32 :: nat) then CHR 0x5C # ''u00'' @ to_hex [c]
      else if (128 :: nat) \<le> of_char c then CHR 0x5C # ''uffffff'' @ to_hex [c]
      else [c])"

definition escape_json_impl :: "string \<Rightarrow> string" where
  "escape_json_impl s = concat (map escape_char_impl s)"

definition quoted :: "string \<Rightarrow> string" where
  "quoted s = CHR 0x22 # s @ [CHR 0x22]"

definition text_pair :: "string \<Rightarrow> string \<Rightarrow> string" where
  "text_pair k v = quoted k @ CHR '':'' # quoted (escape_json_impl v)"

definition bool_text :: "bool \<Rightarrow> string" where
  "bool_text b = (if b then ''true'' else ''false'')"

definition bool_pair :: "string \<Rightarrow> bool \<Rightarrow> string" where
  "bool_pair k b = quoted k @ CHR '':'' # bool_text b"

definition text_pair_if :: "string \<Rightarrow> string \<Rightarrow> string" where
  "text_pair_if k v = (if v = [] then [] else CHR '','' # text_pair k v)"

definition repo_to_json :: "repository \<Rightarrow> string" where
  "repo_to_json r =
     ''{'' @ text_pair ''name'' (rt_name r) @ text_pair_if ''description'' (rt_description r) @ '','' @
     bool_pair ''private'' (rt_is_private r) @ '','' @ bool_pair ''auto_init'' False @ ''}''"

definition user_to_json :: "user \<Rightarrow> string \<Rightarrow> string" where
  "user_to_json u password =
     ''{'' @ text_pair ''username'' (us_username u) @ '','' @ text_pair ''email'' (us_email u) @ '','' @
     text_pair ''password'' password @ text_pair_if ''full_name'' (us_full_name u) @ '','' @
     bool_pair ''must_change_password'' False @ ''}''"

definition org_to_json :: "organization \<Rightarrow> string" where
  "org_to_json g =
     ''{'' @ text_pair ''username'' (og_username g) @ text_pair_if ''full_name'' (og_full_name g) @
     text_pair_if ''description'' (og_description g) @ text_pair_if ''website'' (og_website g) @ ''}''"

definition webhook_to_json :: "webhook \<Rightarrow> string" where
  "webhook_to_json h =
     ''{'' @ text_pair ''type'' (wh_type h) @ '','' @ quoted ''config'' @ '':{'' @ text_pair ''url'' (wh_url h) @ '','' @
     text_pair ''content_type'' (wh_content_type h) @ ''}'' @ '','' @ quoted ''events'' @ '':['' @
     join_with '','' (map (\<lambda>e. quoted (escape_json_impl e)) (wh_events h)) @ '']'' @ '','' @ bool_pair ''active'' (wh_active h) @ ''}''"

section \<open>Reading\<close>

definition string_key :: "string \<Rightarrow> string" where
  "string_key k = quoted k @ [CHR '':'', CHR 0x22]"

definition spaced_string_key :: "string \<Rightarrow> string" where
  "spaced_string_key k = quoted k @ [CHR '':'', CHR '' '', CHR 0x22]"

definition extract_json_string :: "string \<Rightarrow> string \<Rightarrow> string option" where
  "extract_json_string json key =
     Option.bind (case text_after (string_key key) json of None \<Rightarrow> text_after (spaced_string_key key) json | Some t \<Rightarrow> Some t)
       (until_char (CHR 0x22))"

text \<open>
  The second search of the number and truth value readers looks for a longer pattern than the first one, so it never finds
  anything. \<open>stoll\<close> throws on a lone minus sign and on a number that is too large.
\<close>

definition value_key :: "string \<Rightarrow> string" where
  "value_key k = quoted k @ [CHR '':'']"

definition value_text :: "string \<Rightarrow> string \<Rightarrow> string option" where
  "value_text json key =
     map_option (dropWhile isspace)
       (case text_after (value_key key) json of None \<Rightarrow> text_after (value_key key @ [CHR '' '']) json | Some t \<Rightarrow> Some t)"

definition extract_json_int :: "string \<Rightarrow> string \<Rightarrow> int option option" where
  "extract_json_int json key =
     (case value_text json key of
        None \<Rightarrow> Some None
      | Some t \<Rightarrow>
          let num = takeWhile (\<lambda>c. isdigit c \<or> c = CHR ''-'') t
          in if num = [] then Some None else map_option Some (stoll num))"

definition extract_json_bool :: "string \<Rightarrow> string \<Rightarrow> bool option" where
  "extract_json_bool json key =
     Option.bind (value_text json key) (\<lambda>t. if take 4 t = ''true'' then Some True else if take 5 t = ''false'' then Some False else None)"

definition text_or :: "string \<Rightarrow> string \<Rightarrow> string \<Rightarrow> string" where
  "text_or d json key = (case extract_json_string json key of None \<Rightarrow> d | Some v \<Rightarrow> v)"

definition bool_or :: "bool \<Rightarrow> string \<Rightarrow> string \<Rightarrow> bool" where
  "bool_or d json key = (case extract_json_bool json key of None \<Rightarrow> d | Some v \<Rightarrow> v)"

definition int_or :: "int \<Rightarrow> string \<Rightarrow> string \<Rightarrow> int option" where
  "int_or d json key = map_option (\<lambda>v. case v of None \<Rightarrow> d | Some i \<Rightarrow> i) (extract_json_int json key)"

definition parse_repo_json :: "string \<Rightarrow> repository option" where
  "parse_repo_json json =
     map_option (\<lambda>i. \<lparr>rt_id = i, rt_name = text_or [] json ''name'', rt_full_name = text_or [] json ''full_name'',
         rt_description = text_or [] json ''description'', rt_is_private = bool_or True json ''private'',
         rt_clone_url = text_or [] json ''clone_url'', rt_ssh_url = text_or [] json ''ssh_url'',
         rt_html_url = text_or [] json ''html_url''\<rparr>) (int_or 0 json ''id'')"

definition parse_user_json :: "string \<Rightarrow> user option" where
  "parse_user_json json =
     map_option (\<lambda>i. \<lparr>us_id = i, us_username = text_or [] json ''username'', us_email = text_or [] json ''email'',
         us_full_name = text_or [] json ''full_name'', us_is_admin = bool_or False json ''is_admin''\<rparr>) (int_or 0 json ''id'')"

definition parse_org_json :: "string \<Rightarrow> organization option" where
  "parse_org_json json =
     map_option (\<lambda>i. \<lparr>og_id = i, og_username = text_or [] json ''username'', og_full_name = text_or [] json ''full_name'',
         og_description = text_or [] json ''description'', og_website = text_or [] json ''website''\<rparr>) (int_or 0 json ''id'')"

definition parse_key_json :: "string \<Rightarrow> ssh_key option" where
  "parse_key_json json =
     map_option (\<lambda>i. \<lparr>sk_id = i, sk_title = text_or [] json ''title'', sk_key = text_or [] json ''key'',
         sk_fingerprint = text_or [] json ''fingerprint''\<rparr>) (int_or 0 json ''id'')"

text \<open>The quoted strings of the events array.\<close>

function quoted_strings :: "string \<Rightarrow> string list" where
  "quoted_strings s =
     (case dropWhile (\<lambda>c. c \<noteq> CHR 0x22) s of
        [] \<Rightarrow> []
      | _ # r \<Rightarrow>
          (case dropWhile (\<lambda>c. c \<noteq> CHR 0x22) r of [] \<Rightarrow> [] | _ # t \<Rightarrow> takeWhile (\<lambda>c. c \<noteq> CHR 0x22) r # quoted_strings t))"
  by pat_completeness auto
termination
proof (relation "measure length", simp)
  fix s :: string and a r b t
  assume "dropWhile (\<lambda>c. c \<noteq> CHR 0x22) s = a # r" "dropWhile (\<lambda>c. c \<noteq> CHR 0x22) r = b # t"
  then show "(t, s) \<in> measure length"
    using length_dropWhile_le [of "\<lambda>c. c \<noteq> CHR 0x22" s] length_dropWhile_le [of "\<lambda>c. c \<noteq> CHR 0x22" r] by simp
qed

declare quoted_strings.simps [simp del]

definition events_of :: "string \<Rightarrow> string list" where
  "events_of json =
     (case text_after (quoted ''events'') json of
        None \<Rightarrow> []
      | Some t \<Rightarrow>
          (case dropWhile (\<lambda>c. c \<noteq> CHR ''['') t of
             [] \<Rightarrow> []
           | _ # r \<Rightarrow> if CHR '']'' \<in> set r then quoted_strings (takeWhile (\<lambda>c. c \<noteq> CHR '']'') r) else []))"

definition parse_webhook_json :: "string \<Rightarrow> webhook option" where
  "parse_webhook_json json =
     map_option (\<lambda>i.
       let conf = map_option (\<lambda>t. quoted ''config'' @ t) (text_after (quoted ''config'') json)
       in \<lparr>wh_id = i, wh_type = text_or [] json ''type'',
           wh_url = (case conf of None \<Rightarrow> [] | Some t \<Rightarrow> text_or [] t ''url''),
           wh_content_type = (case conf of None \<Rightarrow> [] | Some t \<Rightarrow> text_or [] t ''content_type''),
           wh_events = events_of json, wh_active = bool_or True json ''active''\<rparr>) (int_or 0 json ''id'')"

section \<open>Arrays\<close>

text \<open>
  From an opening brace to the one that closes it, counting braces wherever they stand; the loops stop at an object that
  does not end.
\<close>

fun balanced :: "nat \<Rightarrow> string \<Rightarrow> (string \<times> string) option" where
  "balanced n [] = (if n = 0 then Some ([], []) else None)"
| "balanced n (c # s) =
     (if n = 0 then Some ([], c # s)
      else map_option (apfst ((#) c)) (balanced (if c = CHR ''{'' then n + 1 else if c = CHR ''}'' then n - 1 else n) s))"

lemma balanced_length: "balanced n s = Some (a, r) \<Longrightarrow> length r \<le> length s"
  by (induction n s arbitrary: a r rule: balanced.induct) (fastforce split: if_splits)+

function object_texts :: "string \<Rightarrow> string list" where
  "object_texts s =
     (case dropWhile (\<lambda>c. c \<noteq> CHR ''{'') s of
        [] \<Rightarrow> []
      | c # r \<Rightarrow> (case balanced 1 r of None \<Rightarrow> [] | Some (a, t) \<Rightarrow> (c # a) # object_texts t))"
  by pat_completeness auto
termination
proof (relation "measure length", simp)
  fix s :: string and c r x a t
  assume "dropWhile (\<lambda>c. c \<noteq> CHR ''{'') s = c # r" "balanced 1 r = Some x" "(a, t) = x"
  then show "(t, s) \<in> measure length"
    using balanced_length [of 1 r a t] length_dropWhile_le [of "\<lambda>c. c \<noteq> CHR ''{''" s] by simp
qed

declare object_texts.simps [simp del]

fun all_or_none :: "'a option list \<Rightarrow> 'a list option" where
  "all_or_none [] = Some []"
| "all_or_none (x # xs) = Option.bind x (\<lambda>y. map_option ((#) y) (all_or_none xs))"

definition parse_repos_json :: "string \<Rightarrow> repository list option" where
  "parse_repos_json json = all_or_none (map parse_repo_json (object_texts json))"

definition parse_users_json :: "string \<Rightarrow> user list option" where
  "parse_users_json json = all_or_none (map parse_user_json (object_texts json))"

definition parse_orgs_json :: "string \<Rightarrow> organization list option" where
  "parse_orgs_json json = all_or_none (map parse_org_json (object_texts json))"

definition parse_webhooks_json :: "string \<Rightarrow> webhook list option" where
  "parse_webhooks_json json = all_or_none (map parse_webhook_json (object_texts json))"

definition parse_keys_json :: "string \<Rightarrow> ssh_key list option" where
  "parse_keys_json json = all_or_none (map parse_key_json (object_texts json))"

section \<open>Requests\<close>

record request =
  rq_method :: string
  rq_url :: string
  rq_headers :: "string list"
  rq_body :: "string option"

text \<open>No handle for the request, an error of the library, or an answer with its code and text.\<close>

datatype outcome = NoHandle | CurlFailed string | Answered int string

type_synonym net = "request list \<Rightarrow> outcome"

type_synonym 'a call = "request list \<Rightarrow> 'a option \<times> request list"

record gitea_api =
  ga_base_url :: string
  ga_token :: string

definition new_api :: "string \<Rightarrow> string \<Rightarrow> gitea_api" where
  "new_api base_url token =
     \<lparr>ga_base_url = (if base_url \<noteq> [] \<and> last base_url = CHR ''/'' then butlast base_url else base_url), ga_token = token\<rparr>"

definition make_request :: "gitea_api \<Rightarrow> string \<Rightarrow> string \<Rightarrow> string \<Rightarrow> request" where
  "make_request A rmethod endpoint body =
     \<lparr>rq_method = rmethod, rq_url = ga_base_url A @ endpoint,
      rq_headers = [''Authorization: token '' @ ga_token A, ''Content-Type: application/json'', ''Accept: application/json''],
      rq_body = (if rmethod \<in> {''POST'', ''PATCH''} \<and> body \<noteq> [] then Some body else None)\<rparr>"

definition http_request :: "net \<Rightarrow> gitea_api \<Rightarrow> string \<Rightarrow> string \<Rightarrow> string \<Rightarrow> string call" where
  "http_request net A rmethod endpoint body hist =
     (let hist' = hist @ [make_request A rmethod endpoint body] in
      case net hist' of
        NoHandle \<Rightarrow> (None, hist)
      | CurlFailed e \<Rightarrow> (None, hist')
      | Answered code response \<Rightarrow> (Some (if 400 \<le> code then [] else response), hist'))"

definition http_get :: "net \<Rightarrow> gitea_api \<Rightarrow> string \<Rightarrow> string call" where
  "http_get net A endpoint = http_request net A ''GET'' endpoint []"

definition http_post :: "net \<Rightarrow> gitea_api \<Rightarrow> string \<Rightarrow> string \<Rightarrow> string call" where
  "http_post net A endpoint body = http_request net A ''POST'' endpoint body"

definition http_delete :: "net \<Rightarrow> gitea_api \<Rightarrow> string \<Rightarrow> string call" where
  "http_delete net A endpoint = http_request net A ''DELETE'' endpoint []"

definition http_patch :: "net \<Rightarrow> gitea_api \<Rightarrow> string \<Rightarrow> string \<Rightarrow> string call" where
  "http_patch net A endpoint body = http_request net A ''PATCH'' endpoint body"

text \<open>
  The operations: \<open>fetched\<close> reads a nonempty answer and gives a default for an empty one and for an exception, \<open>posted\<close> is
  true for a nonempty answer, \<open>deleted\<close> whenever nothing was thrown.
\<close>

definition fetched :: "'a \<Rightarrow> (string \<Rightarrow> 'a option) \<Rightarrow> string option \<times> request list \<Rightarrow> 'a \<times> request list" where
  "fetched d read x =
     (case x of
        (None, hist) \<Rightarrow> (d, hist)
      | (Some response, hist) \<Rightarrow> (if response = [] then d else case read response of None \<Rightarrow> d | Some v \<Rightarrow> v, hist))"

definition posted :: "string option \<times> request list \<Rightarrow> bool \<times> request list" where
  "posted x = (case x of (None, hist) \<Rightarrow> (False, hist) | (Some response, hist) \<Rightarrow> (response \<noteq> [], hist))"

definition deleted :: "string option \<times> request list \<Rightarrow> bool \<times> request list" where
  "deleted x = (case x of (None, hist) \<Rightarrow> (False, hist) | (Some response, hist) \<Rightarrow> (True, hist))"

section \<open>Operations\<close>

definition get_user :: "net \<Rightarrow> gitea_api \<Rightarrow> string \<Rightarrow> request list \<Rightarrow> user option \<times> request list" where
  "get_user net A username hist = fetched None (map_option Some \<circ> parse_user_json) (http_get net A (''/users/'' @ username) hist)"

definition create_user :: "net \<Rightarrow> gitea_api \<Rightarrow> user \<Rightarrow> string \<Rightarrow> request list \<Rightarrow> bool \<times> request list" where
  "create_user net A u password hist = posted (http_post net A ''/admin/users'' (user_to_json u password) hist)"

definition list_users :: "net \<Rightarrow> gitea_api \<Rightarrow> request list \<Rightarrow> user list \<times> request list" where
  "list_users net A hist = fetched [] parse_users_json (http_get net A ''/admin/users'' hist)"

definition create_org :: "net \<Rightarrow> gitea_api \<Rightarrow> organization \<Rightarrow> request list \<Rightarrow> bool \<times> request list" where
  "create_org net A g hist = posted (http_post net A ''/orgs'' (org_to_json g) hist)"

definition list_orgs :: "net \<Rightarrow> gitea_api \<Rightarrow> request list \<Rightarrow> organization list \<times> request list" where
  "list_orgs net A hist = fetched [] parse_orgs_json (http_get net A ''/user/orgs'' hist)"

definition get_org :: "net \<Rightarrow> gitea_api \<Rightarrow> string \<Rightarrow> request list \<Rightarrow> organization option \<times> request list" where
  "get_org net A orgname hist = fetched None (map_option Some \<circ> parse_org_json) (http_get net A (''/orgs/'' @ orgname) hist)"

definition create_repo :: "net \<Rightarrow> gitea_api \<Rightarrow> string \<Rightarrow> repository \<Rightarrow> request list \<Rightarrow> bool \<times> request list" where
  "create_repo net A owner r hist =
     posted (http_post net A
       (if owner = [] \<or> owner = ''~'' \<or> owner = ''admin'' then ''/user/repos'' else ''/org/'' @ owner @ ''/repos'')
       (repo_to_json r) hist)"

definition delete_repo :: "net \<Rightarrow> gitea_api \<Rightarrow> string \<Rightarrow> string \<Rightarrow> request list \<Rightarrow> bool \<times> request list" where
  "delete_repo net A owner repo hist = deleted (http_delete net A (''/repos/'' @ owner @ ''/'' @ repo) hist)"

definition get_repo :: "net \<Rightarrow> gitea_api \<Rightarrow> string \<Rightarrow> string \<Rightarrow> request list \<Rightarrow> repository option \<times> request list" where
  "get_repo net A owner repo hist =
     fetched None (map_option Some \<circ> parse_repo_json) (http_get net A (''/repos/'' @ owner @ ''/'' @ repo) hist)"

definition list_repos :: "net \<Rightarrow> gitea_api \<Rightarrow> string \<Rightarrow> request list \<Rightarrow> repository list \<times> request list" where
  "list_repos net A owner hist =
     (if owner = [] then fetched [] parse_repos_json (http_get net A ''/user/repos'' hist)
      else case get_org net A owner hist of
        (org, hist') \<Rightarrow>
          fetched [] parse_repos_json
            (http_get net A ((if org \<noteq> None then ''/orgs/'' else ''/users/'') @ owner @ ''/repos'') hist'))"

definition create_webhook :: "net \<Rightarrow> gitea_api \<Rightarrow> string \<Rightarrow> string \<Rightarrow> webhook \<Rightarrow> request list \<Rightarrow> bool \<times> request list" where
  "create_webhook net A owner repo h hist =
     posted (http_post net A (''/repos/'' @ owner @ ''/'' @ repo @ ''/hooks'') (webhook_to_json h) hist)"

definition list_webhooks :: "net \<Rightarrow> gitea_api \<Rightarrow> string \<Rightarrow> string \<Rightarrow> request list \<Rightarrow> webhook list \<times> request list" where
  "list_webhooks net A owner repo hist =
     fetched [] parse_webhooks_json (http_get net A (''/repos/'' @ owner @ ''/'' @ repo @ ''/hooks'') hist)"

definition delete_webhook :: "net \<Rightarrow> gitea_api \<Rightarrow> string \<Rightarrow> string \<Rightarrow> int \<Rightarrow> request list \<Rightarrow> bool \<times> request list" where
  "delete_webhook net A owner repo hook_id hist =
     deleted (http_delete net A (''/repos/'' @ owner @ ''/'' @ repo @ ''/hooks/'' @ to_string hook_id) hist)"

definition mirror_repo :: "net \<Rightarrow> gitea_api \<Rightarrow> string \<Rightarrow> string \<Rightarrow> bool \<Rightarrow> request list \<Rightarrow> bool \<times> request list" where
  "mirror_repo net A remote_url name is_private hist =
     posted (http_post net A ''/repos/migrate''
       (''{'' @ text_pair ''clone_addr'' remote_url @ '','' @ text_pair ''repo_name'' name @ '','' @ bool_pair ''mirror'' True @ '','' @
        bool_pair ''private'' is_private @ ''}'') hist)"

definition add_ssh_key :: "net \<Rightarrow> gitea_api \<Rightarrow> string \<Rightarrow> string \<Rightarrow> request list \<Rightarrow> bool \<times> request list" where
  "add_ssh_key net A title key hist =
     posted (http_post net A ''/user/keys'' (''{'' @ text_pair ''title'' title @ '','' @ text_pair ''key'' key @ ''}'') hist)"

definition list_ssh_keys :: "net \<Rightarrow> gitea_api \<Rightarrow> request list \<Rightarrow> ssh_key list \<times> request list" where
  "list_ssh_keys net A hist = fetched [] parse_keys_json (http_get net A ''/user/keys'' hist)"

definition delete_ssh_key :: "net \<Rightarrow> gitea_api \<Rightarrow> int \<Rightarrow> request list \<Rightarrow> bool \<times> request list" where
  "delete_ssh_key net A key_id hist = deleted (http_delete net A (''/user/keys/'' @ to_string key_id) hist)"

definition ping :: "net \<Rightarrow> gitea_api \<Rightarrow> request list \<Rightarrow> bool \<times> request list" where
  "ping net A hist = posted (http_get net A ''/version'' hist)"

section \<open>Failures\<close>

lemma http_request_refused:
  assumes "net (hist @ [make_request A rmethod endpoint body]) = Answered code response" "400 \<le> code"
  shows "http_request net A rmethod endpoint body hist = (Some [], hist @ [make_request A rmethod endpoint body])"
  using assms by (simp add: http_request_def)

text \<open>A refused request is a failure for everything but deleting, which reports success.\<close>

lemma refused_deletion_is_success:
  assumes "\<And>rs. \<exists>code response. net rs = Answered code response \<and> 400 \<le> code"
  shows "fst (delete_repo net A owner repo hist)" "fst (delete_webhook net A owner repo i hist)" "fst (delete_ssh_key net A i hist)"
    and "\<not> fst (create_repo net A owner r hist)" "\<not> fst (create_webhook net A owner repo h hist)" "\<not> fst (add_ssh_key net A title key hist)"
    and "fst (get_repo net A owner repo hist) = None" "fst (list_repos net A owner hist) = []" "\<not> fst (ping net A hist)"
proof -
  have h: "http_request net A rmethod endpoint body hist = (Some [], hist @ [make_request A rmethod endpoint body])" for rmethod endpoint body hist
    using assms [of "hist @ [make_request A rmethod endpoint body]"] http_request_refused by blast
  note defs = http_delete_def http_post_def http_get_def h deleted_def posted_def fetched_def
  show "fst (delete_repo net A owner repo hist)" "fst (delete_webhook net A owner repo i hist)" "fst (delete_ssh_key net A i hist)"
    by (simp_all add: delete_repo_def delete_webhook_def delete_ssh_key_def defs)
  show "\<not> fst (create_repo net A owner r hist)" "\<not> fst (create_webhook net A owner repo h hist)" "\<not> fst (add_ssh_key net A title key hist)"
    by (simp_all add: create_repo_def create_webhook_def add_ssh_key_def defs)
  show "fst (get_repo net A owner repo hist) = None" "fst (list_repos net A owner hist) = []" "\<not> fst (ping net A hist)"
    by (simp_all add: get_repo_def list_repos_def get_org_def ping_def defs)
qed

end
