(* ===== verification/Git_Gitea_Facts.thy ===== *)
theory Git_Gitea_Facts
  imports Git_Gitea
begin

text \<open>
  Printed JSON of the Gitea client (\<open>Git_Gitea\<close>) and its readers: what the search for a key finds in a printed object, the
  webhooks that read back, and what happens to bytes outside of ASCII.
\<close>

section \<open>Plain texts\<close>

definition plain_char :: "char \<Rightarrow> bool" where
  "plain_char c \<longleftrightarrow> 32 \<le> (of_char c :: nat) \<and> of_char c < (128 :: nat) \<and>
     c \<notin> {CHR 0x22, CHR 0x5C, CHR ''['', CHR '']'', CHR ''{'', CHR ''}''}"

definition plain_text :: "string \<Rightarrow> bool" where
  "plain_text v \<longleftrightarrow> list_all plain_char v"

declare text_after.simps [simp del]

lemma printable_not_control: "32 \<le> (of_char c :: nat) \<Longrightarrow> c \<notin> {CHR 0x08, CHR 0x0C, CHR 0x0A, CHR 0x0D, CHR 0x09}"
  by (rule notI) (elim insertE emptyE; simp)

lemma escape_plain_char: "plain_char c \<Longrightarrow> escape_char_impl c = [c]"
  using printable_not_control [of c] by (simp add: plain_char_def escape_char_impl_def)

lemma escape_plain: "plain_text v \<Longrightarrow> escape_json_impl v = v"
  by (induction v) (auto simp: plain_text_def escape_json_impl_def escape_plain_char)

lemma plain_chars: "plain_text v \<Longrightarrow> CHR 0x22 \<notin> set v \<and> CHR ''['' \<notin> set v \<and> CHR '']'' \<notin> set v \<and> CHR ''{'' \<notin> set v \<and> CHR ''}'' \<notin> set v"
  by (auto simp: plain_text_def list_all_iff plain_char_def)

section \<open>Finding a quoted text\<close>

lemma take_quoted:
  "CHR 0x22 \<notin> set x \<Longrightarrow> CHR 0x22 \<notin> set k \<Longrightarrow>
     take (length k + Suc (length w)) (x @ CHR 0x22 # t) = k @ CHR 0x22 # w \<longleftrightarrow> x = k \<and> take (length w) t = w"
proof (induction x arbitrary: k)
  case Nil
  then show ?case by (cases k) auto
next
  case (Cons c x)
  then show ?case by (cases k) auto
qed

lemma text_after_Cons: "c \<noteq> hd p \<Longrightarrow> p \<noteq> [] \<Longrightarrow> text_after p (c # s) = text_after p s"
  by (cases p) (auto simp: text_after.simps)

lemma text_after_append: "hd p \<notin> set x \<Longrightarrow> p \<noteq> [] \<Longrightarrow> text_after p (x @ s) = text_after p s"
  by (induction x) (auto simp: text_after_Cons)

definition key_start :: "string \<Rightarrow> string \<Rightarrow> string" where
  "key_start k w = quoted k @ w"

lemma key_start_parts [simp]: "key_start k w \<noteq> []" "hd (key_start k w) = CHR 0x22"
  by (simp_all add: key_start_def quoted_def)

text \<open>A quoted text followed by a character that no key starts with: it matches, or the search goes on behind it.\<close>

lemma text_after_token:
  assumes x: "CHR 0x22 \<notin> set x" and k: "CHR 0x22 \<notin> set k" "k \<noteq> []" "c \<noteq> hd k"
  shows "text_after (key_start k w) (quoted x @ c # r) =
    (if x = k \<and> take (length w) (c # r) = w then Some (drop (length w) (c # r)) else text_after (key_start k w) (c # r))"
proof -
  let ?p = "key_start k w"
  have p: "?p = CHR 0x22 # k @ CHR 0x22 # w" by (simp add: key_start_def quoted_def)
  have t: "take (length ?p) (quoted x @ c # r) = ?p \<longleftrightarrow> x = k \<and> take (length w) (c # r) = w"
    using take_quoted [OF x k(1), of w "c # r"] by (simp add: p quoted_def)
  have d: "x = k \<Longrightarrow> drop (length ?p) (quoted x @ c # r) = drop (length w) (c # r)" by (simp add: p quoted_def)
  have "take (length ?p) (CHR 0x22 # c # r) \<noteq> ?p" using k(2,3) by (cases k) (simp_all add: key_start_def quoted_def)
  then have "text_after ?p (CHR 0x22 # c # r) = text_after ?p (c # r)" by (simp only: text_after.simps(2) if_False)
  then have s: "text_after ?p (x @ CHR 0x22 # c # r) = text_after ?p (c # r)" using text_after_append [of ?p x] x by simp
  have "text_after ?p (quoted x @ c # r) =
      (if take (length ?p) (quoted x @ c # r) = ?p then Some (drop (length ?p) (quoted x @ c # r)) else text_after ?p (x @ CHR 0x22 # c # r))"
    by (simp add: quoted_def text_after.simps)
  then show ?thesis using t d s by auto
qed

lemma text_after_other [simp]: "c \<noteq> CHR 0x22 \<Longrightarrow> text_after (key_start k w) (c # r) = text_after (key_start k w) r"
  by (simp add: text_after_Cons)

lemma text_after_key_Nil [simp]: "text_after (key_start k w) [] = None"
  by (simp add: key_start_def quoted_def text_after.simps)

lemma quoted_start [simp]: "take (Suc 0) (quoted x @ r) = [CHR 0x22]" "drop (Suc 0) (quoted x @ r) = x @ CHR 0x22 # r"
  by (simp_all add: quoted_def)

lemma key_starts:
  "string_key k = key_start k [CHR '':'', CHR 0x22]" "spaced_string_key k = key_start k [CHR '':'', CHR '' '', CHR 0x22]"
  "value_key k = key_start k [CHR '':'']" "value_key k @ [CHR '' ''] = key_start k [CHR '':'', CHR '' '']"
  by (simp_all add: string_key_def spaced_string_key_def value_key_def key_start_def)

lemma quoted_key: "text_after (quoted k) = text_after (key_start k [])"
  by (simp add: key_start_def)

text \<open>A list of quoted texts holds no key that is followed by a colon.\<close>

lemma text_after_list:
  assumes "list_all (\<lambda>x. CHR 0x22 \<notin> set x) xs" "CHR 0x22 \<notin> set k" "k \<noteq> []" "CHR '','' \<noteq> hd k" "CHR '']'' \<noteq> hd k"
  shows "text_after (key_start k (CHR '':'' # w)) (join_with '','' (map quoted xs) @ CHR '']'' # r) = text_after (key_start k (CHR '':'' # w)) r"
  using assms(1)
proof (induction xs)
  case (Cons x xs)
  then show ?case using assms(2-5) by (simp add: text_after_token)
qed simp

lemma until_quote [simp]: "CHR 0x22 \<notin> set v \<Longrightarrow> until_char (CHR 0x22) (v @ CHR 0x22 # r) = Some v"
  by (simp add: until_char_def find_char_first)

section \<open>Webhooks\<close>

lemma while_stops:
  assumes "z \<notin> set x"
  shows "dropWhile (\<lambda>c. c \<noteq> z) (x @ z # r) = z # r" "takeWhile (\<lambda>c. c \<noteq> z) (x @ z # r) = x"
  using assms by (induction x) auto

lemma quoted_strings_quoted: "CHR 0x22 \<notin> set x \<Longrightarrow> quoted_strings (quoted x @ r) = x # quoted_strings r"
  by (subst quoted_strings.simps) (simp add: quoted_def while_stops)

lemma quoted_strings_Cons: "c \<noteq> CHR 0x22 \<Longrightarrow> quoted_strings (c # r) = quoted_strings r"
  by (subst (1 2) quoted_strings.simps) simp

lemma quoted_strings_Nil [simp]: "quoted_strings [] = []"
  by (simp add: quoted_strings.simps)

lemma quoted_strings_list: "list_all (\<lambda>x. CHR 0x22 \<notin> set x) xs \<Longrightarrow> quoted_strings (join_with '','' (map quoted xs)) = xs"
proof (induction xs)
  case (Cons x xs)
  then show ?case
    using quoted_strings_quoted [of x "[]"] by (simp add: quoted_strings_quoted quoted_strings_Cons)
qed simp

lemma join_quoted_chars: "c \<in> set (join_with '','' (map quoted xs)) \<Longrightarrow> c = CHR 0x22 \<or> c = CHR '','' \<or> (\<exists>x\<in>set xs. c \<in> set x)"
  by (induction xs) (auto simp: quoted_def split: if_splits)

text \<open>
  The form in which Gitea answers (\<open>Hook\<close> of its API): the members in this order, the configuration as a map with its
  keys sorted, the moments as RFC 3339 texts. \<open>listed_hook\<close> is a webhook with the members this client does not read.
  Gitea prints \<open>&\<close>, \<open><\<close> and \<open>>\<close> as escapes, so the texts are those it prints unchanged.
\<close>

record listed_hook = webhook +
  lh_branch_filter :: string
  lh_authorization :: string
  lh_updated :: string
  lh_created :: string

definition server_text :: "string \<Rightarrow> bool" where
  "server_text v \<longleftrightarrow> plain_text v \<and> CHR ''&'' \<notin> set v \<and> CHR ''<'' \<notin> set v \<and> CHR ''>'' \<notin> set v"

definition hook_tail :: "listed_hook \<Rightarrow> string" where
  "hook_tail h = CHR '','' # quoted ''authorization_header'' @ CHR '':'' # quoted (lh_authorization h) @
     CHR '','' # quoted ''active'' @ CHR '':'' # bool_text (wh_active h) @
     CHR '','' # quoted ''updated_at'' @ CHR '':'' # quoted (lh_updated h) @
     CHR '','' # quoted ''created_at'' @ CHR '':'' # quoted (lh_created h) @ ''}''"

definition hook_config :: "listed_hook \<Rightarrow> string" where
  "hook_config h = CHR '':'' # CHR ''{'' # quoted ''content_type'' @ CHR '':'' # quoted (wh_content_type h) @
     CHR '','' # quoted ''url'' @ CHR '':'' # quoted (wh_url h) @ CHR ''}'' #
     CHR '','' # quoted ''events'' @ CHR '':'' # CHR ''['' # join_with '','' (map quoted (wh_events h)) @ CHR '']'' # hook_tail h"

definition server_hook :: "listed_hook \<Rightarrow> string" where
  "server_hook h = CHR ''{'' # quoted ''id'' @ CHR '':'' # to_string (wh_id h) @
     CHR '','' # quoted ''type'' @ CHR '':'' # quoted (wh_type h) @
     CHR '','' # quoted ''branch_filter'' @ CHR '':'' # quoted (lh_branch_filter h) @
     CHR '','' # quoted ''config'' @ hook_config h"

text \<open>
  What the readers can cope with: the search for \<open>"config"\<close> and \<open>"events"\<close> takes the first occurrence of the name in
  quotes, also when it is a value.
\<close>

definition hook_ok :: "listed_hook \<Rightarrow> bool" where
  "hook_ok h \<longleftrightarrow> 0 \<le> wh_id h \<and> wh_id h < 2 ^ 63 \<and>
     list_all server_text ([wh_type h, wh_url h, wh_content_type h, lh_branch_filter h, lh_authorization h, lh_updated h,
       lh_created h] @ wh_events h) \<and>
     ''config'' \<notin> {wh_type h, lh_branch_filter h} \<and>
     ''events'' \<notin> {wh_type h, lh_branch_filter h, wh_url h, wh_content_type h}"

lemma text_after_bool: "text_after (key_start k w) (bool_text b @ r) = text_after (key_start k w) r"
  by (simp add: bool_text_def)

lemma number_chars: "0 \<le> i \<Longrightarrow> c \<in> set (to_string i) \<Longrightarrow> isdigit c"
  using nat_digits_props [of "nat i"] by (simp add: to_string_def)

lemma text_after_number: "0 \<le> i \<Longrightarrow> text_after (key_start k w) (to_string i @ r) = text_after (key_start k w) r"
  using number_chars [of i "CHR 0x22"] by (intro text_after_append) (auto simp: isdigit_def)

lemma no_quotes:
  assumes "hook_ok h"
  shows "CHR 0x22 \<notin> set (wh_type h)" "CHR 0x22 \<notin> set (wh_url h)" "CHR 0x22 \<notin> set (wh_content_type h)"
    "list_all (\<lambda>x. CHR 0x22 \<notin> set x) (wh_events h)" "CHR 0x22 \<notin> set (lh_branch_filter h)"
    "CHR 0x22 \<notin> set (lh_authorization h)" "CHR 0x22 \<notin> set (lh_updated h)" "CHR 0x22 \<notin> set (lh_created h)"
  using assms plain_chars by (auto simp: hook_ok_def server_text_def list_all_iff)

lemma key_start_append: "key_start k w @ v = key_start k (w @ v)"
  by (simp add: key_start_def)

lemma hook_number: "hook_ok h \<Longrightarrow> 0 \<le> wh_id h" "hook_ok h \<Longrightarrow> wh_id h < 2 ^ 63"
  by (simp_all add: hook_ok_def)

lemmas key_search = key_start_append text_after_token text_after_list text_after_bool text_after_number hook_number
  key_starts server_hook_def hook_config_def hook_tail_def

lemma json_string_found:
  assumes "text_after (string_key k) json = Some (v @ CHR 0x22 # r)" "CHR 0x22 \<notin> set v"
  shows "text_or d json k = v"
  using assms by (simp add: text_or_def extract_json_string_def)

lemma hook_type: "hook_ok h \<Longrightarrow> text_or [] (server_hook h) ''type'' = wh_type h"
  by (rule json_string_found [where r = "CHR '','' # quoted ''branch_filter'' @ CHR '':'' # quoted (lh_branch_filter h) @
        CHR '','' # quoted ''config'' @ hook_config h"])
    (simp_all add: no_quotes key_search del: take_append drop_append)

lemma hook_names: "hook_ok h \<Longrightarrow> wh_type h \<noteq> ''config'' \<and> lh_branch_filter h \<noteq> ''config'' \<and> wh_type h \<noteq> ''events'' \<and>
    lh_branch_filter h \<noteq> ''events'' \<and> wh_url h \<noteq> ''events'' \<and> wh_content_type h \<noteq> ''events''"
  by (auto simp: hook_ok_def)

lemma hook_config_found: "hook_ok h \<Longrightarrow> text_after (quoted ''config'') (server_hook h) = Some (hook_config h)"
  by (simp add: server_hook_def no_quotes hook_names hook_number text_after_token text_after_number quoted_key hook_config_def)

lemma hook_url: "hook_ok h \<Longrightarrow> \<exists>r. text_after (string_key ''url'') (quoted ''config'' @ hook_config h) = Some (wh_url h @ CHR 0x22 # r)"
  by (simp add: key_search no_quotes del: take_append drop_append)

lemma hook_content_type:
  "hook_ok h \<Longrightarrow> \<exists>r. text_after (string_key ''content_type'') (quoted ''config'' @ hook_config h) = Some (wh_content_type h @ CHR 0x22 # r)"
  by (simp add: key_search no_quotes del: take_append drop_append)

lemma hook_active: "hook_ok h \<Longrightarrow> bool_or True (server_hook h) ''active'' = wh_active h"
  by (simp add: bool_or_def extract_json_bool_def value_text_def key_search no_quotes bool_text_def isspace_def)

lemma number_read:
  assumes "0 \<le> i" "i < 2 ^ 63"
  shows "takeWhile (\<lambda>c. isdigit c \<or> c = CHR ''-'') (to_string i @ CHR '','' # r) = to_string i"
    "dropWhile isspace (to_string i @ CHR '','' # r) = to_string i @ CHR '','' # r"
    "to_string i \<noteq> []" "stoll (to_string i) = Some i"
proof -
  show ne: "to_string i \<noteq> []" using nat_digits_props [of "nat i"] assms(1) by (simp add: to_string_def)
  show "takeWhile (\<lambda>c. isdigit c \<or> c = CHR ''-'') (to_string i @ CHR '','' # r) = to_string i"
    using number_chars [OF assms(1)] by (subst takeWhile_append2) (auto simp: isdigit_def)
  obtain c t where ct: "to_string i = c # t" using ne by (cases "to_string i") auto
  then have "isdigit c" using number_chars [OF assms(1), of c] by simp
  then have "\<not> isspace c" by (auto simp: isdigit_def isspace_def)
  then show "dropWhile isspace (to_string i @ CHR '','' # r) = to_string i @ CHR '','' # r" using ct by simp
  show "stoll (to_string i) = Some i" using assms by (intro stoll_to_string) simp_all
qed

lemma hook_id: "hook_ok h \<Longrightarrow> int_or 0 (server_hook h) ''id'' = Some (wh_id h)"
proof -
  assume h: "hook_ok h"
  have "\<exists>r. text_after (value_key ''id'') (server_hook h) = Some (to_string (wh_id h) @ CHR '','' # r)"
    by (simp add: server_hook_def text_after_token key_starts)
  then obtain r where "text_after (value_key ''id'') (server_hook h) = Some (to_string (wh_id h) @ CHR '','' # r)" by blast
  then show ?thesis using number_read(1,2) [OF hook_number [OF h], of r] number_read(3,4) [OF hook_number [OF h]]
    by (simp add: int_or_def extract_json_int_def value_text_def Let_def)
qed

lemma hook_events: "hook_ok h \<Longrightarrow> events_of (server_hook h) = wh_events h"
proof -
  assume h: "hook_ok h"
  have "CHR '']'' \<notin> set (join_with '','' (map quoted (wh_events h)))"
    using h plain_chars join_quoted_chars [of "CHR '']''" "wh_events h"] by (auto simp: hook_ok_def server_text_def list_all_iff)
  moreover have "text_after (quoted ''events'') (server_hook h) =
      Some (CHR '':'' # CHR ''['' # join_with '','' (map quoted (wh_events h)) @ CHR '']'' # hook_tail h)"
    using h by (simp add: server_hook_def no_quotes hook_names hook_number text_after_token text_after_number quoted_key hook_config_def)
  ultimately show ?thesis by (simp add: events_of_def while_stops quoted_strings_list no_quotes [OF h])
qed

lemma parse_webhook_listed:
  assumes "hook_ok h"
  shows "parse_webhook_json (server_hook h) = Some (webhook.truncate h)"
proof -
  obtain r s where "text_after (string_key ''url'') (quoted ''config'' @ hook_config h) = Some (wh_url h @ CHR 0x22 # r)"
    "text_after (string_key ''content_type'') (quoted ''config'' @ hook_config h) = Some (wh_content_type h @ CHR 0x22 # s)"
    using hook_url [OF assms] hook_content_type [OF assms] by blast
  from this [THEN json_string_found] no_quotes [OF assms]
  have "text_or [] (quoted ''config'' @ hook_config h) ''url'' = wh_url h"
    "text_or [] (quoted ''config'' @ hook_config h) ''content_type'' = wh_content_type h" by simp_all
  then show ?thesis
    by (simp add: parse_webhook_json_def hook_type hook_config_found hook_active hook_id hook_events webhook.truncate_def assms)
qed

section \<open>Lists of objects\<close>

lemma balanced_plain:
  "CHR ''{'' \<notin> set x \<Longrightarrow> CHR ''}'' \<notin> set x \<Longrightarrow> balanced (Suc n) (x @ s) = map_option (apfst ((@) x)) (balanced (Suc n) s)"
proof (induction x)
  case (Cons c x)
  then show ?case by (cases "balanced (Suc n) s") auto
qed (cases "balanced (Suc n) s"; auto)

lemma balanced_zero [simp]: "balanced 0 s = Some ([], s)"
  by (cases s) simp_all

lemma object_texts_Nil: "CHR ''{'' \<notin> set x \<Longrightarrow> object_texts x = []"
proof -
  assume "CHR ''{'' \<notin> set x"
  then have "dropWhile (\<lambda>c. c \<noteq> CHR ''{'') x = []" by (auto simp: dropWhile_eq_Nil_conv)
  then show ?thesis by (subst object_texts.simps) (simp only: list.case)
qed

lemma object_texts_skip: "c \<noteq> CHR ''{'' \<Longrightarrow> object_texts (c # s) = object_texts s"
  by (subst (1 2) object_texts.simps) simp

lemma object_texts_object: "balanced 1 s = Some (a, r) \<Longrightarrow> object_texts (CHR ''{'' # s) = (CHR ''{'' # a) # object_texts r"
  by (subst object_texts.simps) simp

definition braced_text :: "string \<Rightarrow> bool" where
  "braced_text w \<longleftrightarrow> (\<exists>a. w = CHR ''{'' # a \<and> (\<forall>r. balanced 1 (a @ r) = Some (a, r)))"

lemma object_texts_list:
  "list_all braced_text ws \<Longrightarrow> object_texts (CHR ''['' # join_with '','' ws @ '']'') = ws"
proof -
  assume "list_all braced_text ws"
  then have "object_texts (join_with '','' ws @ '']'') = ws"
  proof (induction ws)
    case (Cons w ws)
    then obtain a where "w = CHR ''{'' # a" "\<forall>r. balanced 1 (a @ r) = Some (a, r)" by (auto simp: braced_text_def)
    with Cons show ?case by (simp add: object_texts_object object_texts_skip object_texts_Nil)
  qed (simp add: object_texts_Nil)
  then show ?thesis by (simp add: object_texts_skip)
qed

definition no_brace :: "string \<Rightarrow> bool" where
  "no_brace x \<longleftrightarrow> CHR ''{'' \<notin> set x \<and> CHR ''}'' \<notin> set x"

lemma balanced_no_brace:
  assumes "no_brace x"
  shows "balanced (Suc n) (x @ CHR ''}'' # s) = map_option (apfst ((@) (x @ ''}''))) (balanced n s)"
    "balanced (Suc n) (x @ CHR ''{'' # s) = map_option (apfst ((@) (x @ ''{''))) (balanced (Suc (Suc n)) s)"
  using balanced_plain [of x n] assms
  by (cases "balanced n s"; cases "balanced (Suc (Suc n)) s"; auto simp: no_brace_def)+

lemma braced_nested:
  assumes "no_brace a" "no_brace b" "no_brace c"
  shows "braced_text (CHR ''{'' # a @ CHR ''{'' # b @ CHR ''}'' # c @ ''}'')"
proof -
  have "balanced (Suc 0) ((a @ CHR ''{'' # b @ CHR ''}'' # c @ ''}'') @ r) = Some (a @ CHR ''{'' # b @ CHR ''}'' # c @ ''}'', r)" for r
    using assms by (simp add: balanced_no_brace)
  then show ?thesis by (auto simp: braced_text_def)
qed

lemma no_brace_append [simp]:
  "no_brace (x @ y) \<longleftrightarrow> no_brace x \<and> no_brace y"
  "no_brace (c # x) \<longleftrightarrow> c \<noteq> CHR ''{'' \<and> c \<noteq> CHR ''}'' \<and> no_brace x" "no_brace []"
  "no_brace (quoted x) \<longleftrightarrow> no_brace x" "no_brace (bool_text b)"
  by (auto simp: no_brace_def quoted_def bool_text_def)

lemma server_text_no_brace: "server_text v \<Longrightarrow> no_brace v"
  using plain_chars by (simp add: server_text_def no_brace_def)

lemma join_no_brace: "list_all no_brace xs \<Longrightarrow> no_brace (join_with '','' (map quoted xs))"
  by (induction xs) auto

lemma no_braces:
  assumes "hook_ok h"
  shows "no_brace (wh_type h)" "no_brace (wh_url h)" "no_brace (wh_content_type h)" "no_brace (lh_branch_filter h)"
    "no_brace (lh_authorization h)" "no_brace (lh_updated h)" "no_brace (lh_created h)"
    "no_brace (join_with '','' (map quoted (wh_events h)))" "no_brace (to_string (wh_id h))"
proof -
  have t: "list_all no_brace ([wh_type h, wh_url h, wh_content_type h, lh_branch_filter h, lh_authorization h, lh_updated h,
       lh_created h] @ wh_events h)"
    using assms server_text_no_brace by (auto simp: hook_ok_def list_all_iff)
  then show "no_brace (wh_type h)" "no_brace (wh_url h)" "no_brace (wh_content_type h)" "no_brace (lh_branch_filter h)"
    "no_brace (lh_authorization h)" "no_brace (lh_updated h)" "no_brace (lh_created h)" by simp_all
  show "no_brace (join_with '','' (map quoted (wh_events h)))" using t by (intro join_no_brace) simp
  show "no_brace (to_string (wh_id h))"
    using number_chars [OF hook_number(1) [OF assms]] by (fastforce simp: no_brace_def isdigit_def)
qed

lemma webhook_braced:
  assumes "hook_ok h"
  shows "braced_text (server_hook h)"
proof -
  let ?a = "quoted ''id'' @ CHR '':'' # to_string (wh_id h) @ CHR '','' # quoted ''type'' @ CHR '':'' # quoted (wh_type h) @
     CHR '','' # quoted ''branch_filter'' @ CHR '':'' # quoted (lh_branch_filter h) @ CHR '','' # quoted ''config'' @ '':''"
  let ?b = "quoted ''content_type'' @ CHR '':'' # quoted (wh_content_type h) @ CHR '','' # quoted ''url'' @ CHR '':'' # quoted (wh_url h)"
  let ?c = "CHR '','' # quoted ''events'' @ CHR '':'' # CHR ''['' # join_with '','' (map quoted (wh_events h)) @ CHR '']'' #
     CHR '','' # quoted ''authorization_header'' @ CHR '':'' # quoted (lh_authorization h) @
     CHR '','' # quoted ''active'' @ CHR '':'' # bool_text (wh_active h) @
     CHR '','' # quoted ''updated_at'' @ CHR '':'' # quoted (lh_updated h) @
     CHR '','' # quoted ''created_at'' @ CHR '':'' # quoted (lh_created h)"
  have w: "server_hook h = CHR ''{'' # ?a @ CHR ''{'' # ?b @ CHR ''}'' # ?c @ ''}''"
    by (simp add: server_hook_def hook_config_def hook_tail_def)
  show ?thesis unfolding w by (rule braced_nested) (use no_braces [OF assms] in simp_all)
qed

lemma all_or_none_Some: "(\<And>x. x \<in> set xs \<Longrightarrow> f x = Some (g x)) \<Longrightarrow> all_or_none (map f xs) = Some (map g xs)"
  by (induction xs) auto


definition demo_hook :: listed_hook where
  "demo_hook = \<lparr>wh_id = 7, wh_type = ''gitea'', wh_url = ''http://ci/hook'', wh_content_type = ''json'',
     wh_events = [''push'', ''create''], wh_active = False, lh_branch_filter = ''*'', lh_authorization = [],
     lh_updated = ''2024-05-01T10:00:00Z'', lh_created = ''2024-05-01T09:00:00Z''\<rparr>"

definition demo_api :: gitea_api where
  "demo_api = new_api ''http://git/api/v1/'' ''t0ken''"


section \<open>Bytes outside of ASCII\<close>

text \<open>A UTF-8 byte is printed as an escape with eight digits, which no reader of JSON takes for the byte.\<close>

lemma utf8_escape_has_eight_digits: "escape_json_impl [CHR 0xC3] = CHR 0x5C # ''uffffffc3''"
  by code_simp

section \<open>Nested keys\<close>

text \<open>
  The readers search for the first occurrence of a key at any depth: in the answers of Gitea the owner of a repository
  stands before its names, so the owner's full name is taken for the repository's.
\<close>

lemma owner_name_taken:
  assumes "CHR 0x22 \<notin> set n"
  shows "text_or [] (''{'' @ quoted ''id'' @ '':7,'' @ quoted ''owner'' @ '':{'' @ quoted ''full_name'' @ CHR '':'' # quoted n @ ''},'' @
      quoted ''name'' @ CHR '':'' # quoted m @ CHR '','' # quoted ''full_name'' @ CHR '':'' # quoted f @ ''}'') ''full_name'' = n"
  by (rule json_string_found [where r = "''},'' @ quoted ''name'' @ CHR '':'' # quoted m @ CHR '','' # quoted ''full_name'' @ CHR '':'' # quoted f @ ''}''"])
    (simp_all add: assms key_search del: take_append drop_append)

end
