(* ===== verification/Git_Remote.thy ===== *)
theory Git_Remote
  imports Git_Registry Git_Gitea Brain_Planner System_Process "HOL-Library.State_Monad" "HOL-Library.Word"
begin

text \<open>
  What the two kinds of git servers (\<open>src/modules/git/src/cgit.cpp\<close>, \<open>src/modules/git/src/gitea.cpp\<close>) share: commands on
  the remote machine over \<open>ssh\<close>, copies with \<open>scp\<close>, temporary files, and the status they report.

  The methods are programs of the state monad over the list of everything done so far; what the operating system, the
  remote machine and the network answer is a function of that list, its last entry included. Files to be removed can be
  removed, and there is a directory for temporary files.
\<close>

section \<open>Actions\<close>

datatype action =
    System string
  | Popen string
  | MakeTemp string
  | WriteFile string string
  | RemoveFile string
  | Request request

type_synonym history = "action list"

record remote_world =
  ow_system :: "history \<Rightarrow> int"
  ow_popen :: "history \<Rightarrow> (string list \<times> int) option"
  ow_temp :: "history \<Rightarrow> string option"
  ow_write :: "history \<Rightarrow> bool"
  ow_read :: "history \<Rightarrow> string \<Rightarrow> string option"
  ow_exists :: "history \<Rightarrow> string \<Rightarrow> bool"
  ow_time :: "history \<Rightarrow> int"
  ow_draw :: "history \<Rightarrow> nat \<Rightarrow> 64 word"
  ow_net :: "history \<Rightarrow> outcome"
  ow_tmp_dir :: string
  ow_home :: "string option"

type_synonym 'a remote = "(history, 'a) state"

definition act :: "action \<Rightarrow> (history \<Rightarrow> 'a) \<Rightarrow> 'a remote" where
  "act a answer = State (\<lambda>h. (answer (h @ [a]), h @ [a]))"

definition ask :: "(history \<Rightarrow> 'a) \<Rightarrow> 'a remote" where
  "ask f = State (\<lambda>h. (f h, h))"

definition system :: "remote_world \<Rightarrow> string \<Rightarrow> int remote" where
  "system W cmd = act (System (c_string cmd)) (ow_system W)"

definition exec_output :: "remote_world \<Rightarrow> string \<Rightarrow> string remote" where
  "exec_output W cmd = act (Popen (c_string cmd))
     (\<lambda>h. case ow_popen W h of None \<Rightarrow> [] | Some (chunks, status) \<Rightarrow> concat (map c_string chunks))"

text \<open>\<open>run_command\<close> and \<open>run_command_capture\<close> of \<^theory_text>\<open>System_Process\<close> as actions.\<close>

definition run_command :: "remote_world \<Rightarrow> string \<Rightarrow> int remote" where
  "run_command W cmd = act (System (c_string cmd)) (\<lambda>h. System_Process.run_command (\<lambda>_. ow_system W h) cmd)"

definition run_command_capture :: "remote_world \<Rightarrow> string \<Rightarrow> command_result remote" where
  "run_command_capture W cmd = act (Popen (c_string cmd)) (\<lambda>h. System_Process.run_command_capture (\<lambda>_. ow_popen W h) cmd)"

definition write_file :: "remote_world \<Rightarrow> string \<Rightarrow> string \<Rightarrow> bool remote" where
  "write_file W path content = act (WriteFile path content) (ow_write W)"

definition remove_file :: "string \<Rightarrow> unit remote" where
  "remove_file path = act (RemoveFile path) (\<lambda>_. ())"

text \<open>A call of the HTTP client: its requests are added to what was done.\<close>

definition api_call :: "remote_world \<Rightarrow> (net \<Rightarrow> request list \<Rightarrow> 'a \<times> request list) \<Rightarrow> 'a remote" where
  "api_call W call =
     State (\<lambda>h. case call (\<lambda>rs. ow_net W (h @ map Request rs)) [] of (r, rs) \<Rightarrow> (r, h @ map Request rs))"

section \<open>Temporary files\<close>

definition path_slash :: "string \<Rightarrow> string \<Rightarrow> string" where
  "path_slash dir name = (if dir = [] \<or> last dir = CHR ''/'' then dir @ name else dir @ ''/'' @ name)"

text \<open>\<open>mkstemp\<close> replaces the last six characters of its argument, which have to be \<open>XXXXXX\<close>; otherwise it fails.\<close>

definition mkstemp :: "remote_world \<Rightarrow> string \<Rightarrow> string option remote" where
  "mkstemp W template =
     (if drop (length template - 6) template = ''XXXXXX''
      then act (MakeTemp template) (\<lambda>h. map_option (\<lambda>six. take (length template - 6) template @ six) (ow_temp W h))
      else State_Monad.return None)"

definition write_temp :: "remote_world \<Rightarrow> string \<Rightarrow> string \<Rightarrow> string option remote" where
  "write_temp W name content = do {
     tmp \<leftarrow> mkstemp W (path_slash (ow_tmp_dir W) name);
     case tmp of
       None \<Rightarrow> State_Monad.return None
     | Some path \<Rightarrow> do {
         ok \<leftarrow> write_file W path content;
         if ok then State_Monad.return (Some path)
         else do { remove_file path; State_Monad.return None } } }"

section \<open>The remote machine\<close>

definition sq :: "string \<Rightarrow> string" where
  "sq s = [CHR 0x27] @ s @ [CHR 0x27]"

definition trim :: "string \<Rightarrow> string" where
  "trim s = trim_of [CHR '' '', CHR 0x09, CHR 0x0A, CHR 0x0D] s"

definition ssh_connection :: "server_config \<Rightarrow> string" where
  "ssh_connection C = sc_ssh_user C @ ''@'' @ sc_host C"

definition ssh_command :: "server_config \<Rightarrow> string \<Rightarrow> string" where
  "ssh_command C cmd =
     ''ssh -o StrictHostKeyChecking=accept-new -p '' @ to_string (sc_ssh_port C) @ '' '' @ shell_quote (ssh_connection C) @
     '' '' @ shell_quote cmd @ '' 2>&1''"

definition scp_command :: "server_config \<Rightarrow> string \<Rightarrow> string \<Rightarrow> string" where
  "scp_command C local remote =
     ''scp -o StrictHostKeyChecking=accept-new -P '' @ to_string (sc_ssh_port C) @ '' '' @ shell_quote local @ '' '' @
     shell_quote (ssh_connection C @ '':'' @ remote) @ '' 2>&1''"

definition test_command :: "server_config \<Rightarrow> string \<Rightarrow> string" where
  "test_command C redirect =
     ''ssh -o ConnectTimeout=5 -o BatchMode=yes -o StrictHostKeyChecking=accept-new -p '' @ to_string (sc_ssh_port C) @ '' '' @
     shell_quote (ssh_connection C) @ '' '' @ sq ''echo connected'' @ '' '' @ redirect"

definition ssh_test_connection :: "remote_world \<Rightarrow> server_config \<Rightarrow> string \<Rightarrow> bool remote" where
  "ssh_test_connection W C redirect = do {
     out \<leftarrow> exec_output W (test_command C redirect);
     State_Monad.return (trim out = ''connected'') }"

text \<open>\<open>ssh_exec\<close> with and without a place for the output; with one it always succeeds.\<close>

definition ssh_output :: "remote_world \<Rightarrow> server_config \<Rightarrow> string \<Rightarrow> string remote" where
  "ssh_output W C cmd = exec_output W (ssh_command C cmd)"

definition ssh_exec :: "remote_world \<Rightarrow> server_config \<Rightarrow> string \<Rightarrow> bool remote" where
  "ssh_exec W C cmd = do { ret \<leftarrow> system W (ssh_command C cmd); State_Monad.return (ret = 0) }"

definition upload_file :: "remote_world \<Rightarrow> server_config \<Rightarrow> string \<Rightarrow> string \<Rightarrow> bool remote" where
  "upload_file W C local remote = do { ret \<leftarrow> system W (scp_command C local remote); State_Monad.return (ret = 0) }"

text \<open>Every step in order, up to the first that fails.\<close>

fun all_steps :: "bool remote list \<Rightarrow> bool remote" where
  "all_steps [] = State_Monad.return True"
| "all_steps (m # ms) = do { ok \<leftarrow> m; if ok then all_steps ms else State_Monad.return False }"

record server_status =
  ss_reachable :: bool
  ss_installed :: bool
  ss_version :: string
  ss_type :: string
  ss_repo_count :: int
  ss_error_message :: string

definition new_status :: server_status where
  "new_status = \<lparr>ss_reachable = False, ss_installed = False, ss_version = [], ss_type = [], ss_repo_count = 0, ss_error_message = []\<rparr>"

section \<open>Failing commands\<close>

text \<open>
  \<open>system_ok W h as\<close>: every command among the actions \<open>as\<close> that was given to \<open>system\<close> after \<open>h\<close> had status 0. A program is
  \<open>honest\<close> when this holds for everything it did whenever its result is good.
\<close>

fun system_ok :: "remote_world \<Rightarrow> history \<Rightarrow> action list \<Rightarrow> bool" where
  "system_ok W h [] \<longleftrightarrow> True"
| "system_ok W h (a # as) \<longleftrightarrow>
     (case a of System cmd \<Rightarrow> ow_system W (h @ [a]) = 0 | _ \<Rightarrow> True) \<and> system_ok W (h @ [a]) as"

lemma system_ok_append: "system_ok W h (as @ bs) \<longleftrightarrow> system_ok W h as \<and> system_ok W (h @ as) bs"
  by (induction as arbitrary: h) simp_all

definition honest :: "remote_world \<Rightarrow> ('a \<Rightarrow> bool) \<Rightarrow> 'a remote \<Rightarrow> bool" where
  "honest W good m \<longleftrightarrow> (\<forall>h r h'. run_state m h = (r, h') \<longrightarrow> good r \<longrightarrow> (\<exists>as. h' = h @ as \<and> system_ok W h as))"

lemma honestD: "honest W good m \<Longrightarrow> run_state m h = (r, h') \<Longrightarrow> good r \<Longrightarrow> \<exists>as. h' = h @ as \<and> system_ok W h as"
  unfolding honest_def by blast

lemma honest_return [simp]: "honest W good (State_Monad.return r)"
  by (auto simp: honest_def)

lemma honest_ask [simp]: "honest W good (ask f)"
  by (auto simp: honest_def ask_def)

lemma honest_act [simp]: "honest W good (act a answer) \<longleftrightarrow>
    (case a of System cmd \<Rightarrow> \<forall>h. good (answer (h @ [a])) \<longrightarrow> ow_system W (h @ [a]) = 0 | _ \<Rightarrow> True)"
  by (auto simp: honest_def act_def split: action.splits)

lemma honest_bind:
  assumes m: "honest W P m" and f: "\<And>x. P x \<Longrightarrow> honest W good (f x)" and bad: "\<And>x h. \<not> P x \<Longrightarrow> \<not> good (fst (run_state (f x) h))"
  shows "honest W good (State_Monad.bind m f)"
  unfolding honest_def
proof (intro allI impI)
  fix h r h'
  assume run: "run_state (State_Monad.bind m f) h = (r, h')" and r: "good r"
  obtain x h1 where x: "run_state m h = (x, h1)" by (cases "run_state m h")
  with run have fx: "run_state (f x) h1 = (r, h')" by simp
  have P: "P x" using bad [of x h1] fx r by auto
  from honestD [OF m x P] obtain as where as: "h1 = h @ as" "system_ok W h as" by blast
  from honestD [OF f [OF P] fx r] obtain bs where "h' = h1 @ bs" "system_ok W h1 bs" by blast
  with as show "\<exists>as. h' = h @ as \<and> system_ok W h as" by (intro exI [of _ "as @ bs"]) (simp add: system_ok_append)
qed

lemma honest_any: "honest W (\<lambda>_. True) m \<Longrightarrow> (\<And>x. honest W good (f x)) \<Longrightarrow> honest W good (State_Monad.bind m f)"
  by (erule honest_bind) simp_all

lemma honest_weaken: "honest W P m \<Longrightarrow> (\<And>r. good r \<Longrightarrow> P r) \<Longrightarrow> honest W good m"
  unfolding honest_def by blast

named_theorems honest_steps

lemma honest_output [honest_steps]: "honest W good (exec_output W cmd)" "honest W good (ssh_output W C cmd)"
  by (simp_all add: ssh_output_def exec_output_def)

lemma honest_files [honest_steps]: "honest W good (write_file W path content)" "honest W good' (remove_file path)"
  by (simp_all add: write_file_def remove_file_def)

lemma honest_test [honest_steps]: "honest W good (ssh_test_connection W C redirect)"
  unfolding ssh_test_connection_def by (rule honest_any) (simp_all add: honest_steps)

lemma honest_system: "honest W (\<lambda>ok. ok) (do { ret \<leftarrow> system W cmd; State_Monad.return (ret = 0) })"
  by (rule honest_bind [of _ "\<lambda>ret. ret = 0"]) (simp_all add: system_def)

lemma honest_exec [honest_steps]: "honest W (\<lambda>ok. ok) (ssh_exec W C cmd)" "honest W (\<lambda>ok. ok) (upload_file W C local remote)"
  by (simp_all only: ssh_exec_def upload_file_def honest_system)

lemma honest_steps_all [honest_steps]: "(\<And>m. m \<in> set ms \<Longrightarrow> honest W (\<lambda>ok. ok) m) \<Longrightarrow> honest W (\<lambda>ok. ok) (all_steps ms)"
proof (induction ms)
  case (Cons m ms)
  have "honest W (\<lambda>ok. ok) (all_steps ms)" using Cons by simp
  then show ?case using Cons.prems by (auto intro!: honest_bind [of W "\<lambda>ok. ok" m])
qed simp

end
