(* ===== verification/Git_Cgit.thy ===== *)
theory Git_Cgit
  imports Git_Remote
begin

text \<open>
  The cgit server (\<open>src/modules/git/src/cgit.cpp\<close>, class \<open>CgitServer\<close>): its configuration files, the installation in phases,
  the discovery of repositories and the copying of local ones.
\<close>

section \<open>Configuration files\<close>

definition new_cgit :: "server_config \<Rightarrow> server_config" where
  "new_cgit C =
     (let C1 = (if sc_config_path C = [] then C\<lparr>sc_config_path := ''/etc/cgitrc''\<rparr> else C)
      in if sc_web_url C1 = [] then C1\<lparr>sc_web_url := ''http://'' @ sc_host C1 @ ''/cgit''\<rparr> else C1)"

definition dot_git :: string where
  "dot_git = ''.git''"

definition without_git :: "string \<Rightarrow> string" where
  "without_git name =
     (if 4 < length name \<and> drop (length name - 4) name = dot_git then take (length name - 4) name else name)"

definition repo_section :: "server_config \<Rightarrow> string \<Rightarrow> string" where
  "repo_section C name = unlines [
     ''repo.url='' @ without_git name,
     ''repo.path='' @ sc_repo_base_path C @ ''/'' @ name,
     ''repo.desc='' @ without_git name @ '' repository'',
     []]"

definition cgitrc_head :: "server_config \<Rightarrow> string" where
  "cgitrc_head C = unlines [
     ''# Generated by nazg'',
     ''# cgit configuration for '' @ sc_host C,
     ''# Do not edit manually - regenerate with: nazg git server configure'', [],
     ''# Site info'',
     ''root-title=Git Repositories'',
     ''root-desc=Self-hosted git server via nazg'', [],
     ''# Repository scanning'',
     ''scan-path='' @ sc_repo_base_path C,
     ''enable-index-owner=1'',
     ''enable-index-links=1'', [],
     ''# Clone URLs (SSH + HTTP)'',
     ''clone-url=ssh://git@'' @ sc_host C @ sc_repo_base_path C @ ''/$CGIT_REPO_URL'',
     ''clone-url=http://'' @ sc_host C @ ''/git/$CGIT_REPO_URL'', [],
     ''# Enable HTTP clone support'',
     ''enable-http-clone=1'', [],
     ''# Caching (improves performance)'',
     ''cache-size=1000'',
     ''cache-root=/var/cache/cgit'',
     ''cache-repo-ttl=5'',
     ''cache-root-ttl=5'',
     ''cache-static-ttl=60'', [],
     ''# Static assets'',
     ''css=/cgit-css/cgit.css'',
     ''logo=/cgit-css/cgit.png'',
     ''favicon=/cgit-css/favicon.ico'', [],
     ''# UI settings'',
     ''enable-commit-graph=1'',
     ''enable-log-filecount=1'',
     ''enable-log-linecount=1'',
     ''max-stats=quarter'',
     ''branch-sort=age'', [],
     ''# Security'',
     ''snapshots=tar.gz zip'',
     ''enable-git-config=0'', []]"

definition generate_cgitrc :: "server_config \<Rightarrow> string list \<Rightarrow> string" where
  "generate_cgitrc C repo_names =
     cgitrc_head C @
     (if repo_names = [] then []
      else unlines [''# Repository-specific settings''] @ concat (map (repo_section C) repo_names))"

definition cgi_request :: "string list" where
  "cgi_request = [
     ''        fastcgi_param REQUEST_METHOD $request_method;'',
     ''        fastcgi_param CONTENT_TYPE $content_type;'',
     ''        fastcgi_param CONTENT_LENGTH $content_length;'']"

definition generate_nginx_config :: "server_config \<Rightarrow> string" where
  "generate_nginx_config C = unlines ([
     ''# Generated by nazg'',
     ''# cgit web interface with git-http-backend'', [],
     ''server {'',
     ''    listen 80;'',
     ''    server_name '' @ sc_host C @ '';'',
     ''    client_max_body_size 0;'', [],
     ''    # cgit static assets'',
     ''    location /cgit-css/ {'',
     ''        alias /usr/share/cgit/;'',
     ''    }'', [],
     ''    # cgit UI at /cgit'',
     ''    location /cgit {'',
     ''        include fastcgi_params;'',
     ''        fastcgi_param GATEWAY_INTERFACE CGI/1.1;'',
     ''        fastcgi_param SCRIPT_FILENAME /usr/lib/cgit/cgit.cgi;'',
     ''        fastcgi_param QUERY_STRING $args;''] @ cgi_request @ [
     ''        fastcgi_param SCRIPT_NAME /cgit;'',
     ''        fastcgi_param PATH_INFO $uri;'',
     ''        fastcgi_pass unix:/run/fcgiwrap.sock;'',
     ''    }'', [],
     ''    # Git smart HTTP at /git'',
     ''    location ~ ^/git(/.*)$ {'',
     ''        include fastcgi_params;'',
     ''        fastcgi_param GIT_PROJECT_ROOT '' @ sc_repo_base_path C @ '';'',
     ''        fastcgi_param GIT_HTTP_EXPORT_ALL '' @ [CHR 0x22, CHR 0x22] @ '';'',
     ''        fastcgi_param PATH_INFO $1;'',
     ''        fastcgi_param SCRIPT_FILENAME /usr/lib/git-core/git-http-backend;''] @ cgi_request @ [
     ''        fastcgi_pass unix:/run/fcgiwrap.sock;'',
     ''    }'',
     ''}''])"

section \<open>Status\<close>

definition is_installed :: "remote_world \<Rightarrow> server_config \<Rightarrow> bool remote" where
  "is_installed W C = do {
     connected \<leftarrow> ssh_test_connection W C ''2>&1'';
     if \<not> connected then State_Monad.return False
     else do { out \<leftarrow> ssh_output W C ''which cgit''; State_Monad.return (trim out \<noteq> []) } }"

text \<open>\<open>atoi\<close>, on numbers that fit an \<open>int\<close>.\<close>

definition atoi :: "string \<Rightarrow> int" where
  "atoi s = (case parse_int_prefix s of None \<Rightarrow> 0 | Some i \<Rightarrow> i)"

definition count_command :: "server_config \<Rightarrow> string" where
  "count_command C =
     ''find '' @ sc_repo_base_path C @ '' -maxdepth 1 -type d -name '' @ sq ''*.git'' @ '' 2>/dev/null | wc -l''"

definition get_status :: "remote_world \<Rightarrow> server_config \<Rightarrow> server_status remote" where
  "get_status W C = do {
     connected \<leftarrow> ssh_test_connection W C ''2>&1'';
     if \<not> connected
     then State_Monad.return (new_status\<lparr>ss_type := ''cgit'', ss_error_message := ''Cannot SSH to '' @ sc_host C\<rparr>)
     else do {
       which \<leftarrow> ssh_output W C ''which cgit'';
       if trim which = [] then State_Monad.return (new_status\<lparr>ss_type := ''cgit'', ss_reachable := True\<rparr>)
       else do {
         out \<leftarrow> ssh_output W C ''cgit -v 2>/dev/null || cgit 2>&1 | head -1'';
         count \<leftarrow> ssh_output W C (count_command C);
         State_Monad.return (new_status\<lparr>ss_type := ''cgit'', ss_reachable := True, ss_installed := True,
           ss_version := (if trim out \<noteq> [] \<and> \<not> contains ''command not found'' (trim out) \<and> \<not> contains ''usage'' (trim out)
                          then trim out else []),
           ss_repo_count := atoi (trim count)\<rparr>) } } }"

section \<open>Installation\<close>

definition install_command :: "string \<Rightarrow> string" where
  "install_command pkg_mgr =
     (if pkg_mgr = ''apt'' then ''sudo apt-get update && sudo apt-get install -y cgit fcgiwrap nginx''
      else if pkg_mgr = ''dnf'' then ''sudo dnf install -y cgit fcgiwrap nginx''
      else if pkg_mgr = ''pacman'' then ''sudo pacman -S --noconfirm cgit fcgiwrap nginx''
      else [])"

definition check_manager :: "string \<Rightarrow> string \<Rightarrow> string" where
  "check_manager program name = ''command -v '' @ program @ '' >/dev/null 2>&1 && echo '' @ name"

definition install_deps :: "remote_world \<Rightarrow> server_config \<Rightarrow> bool remote" where
  "install_deps W C = do {
     out \<leftarrow> ssh_output W C (check_manager ''apt-get'' ''apt'' @ '' || '' @ check_manager ''dnf'' ''dnf'' @ '' || '' @
       check_manager ''pacman'' ''pacman'');
     if trim out = [] then State_Monad.return False else ssh_exec W C (install_command (trim out)) }"

definition verify_fcgiwrap_socket :: "remote_world \<Rightarrow> server_config \<Rightarrow> bool remote" where
  "verify_fcgiwrap_socket W C = do {
     out \<leftarrow> ssh_output W C ''test -S /run/fcgiwrap.sock && echo exists'';
     if trim out = ''exists'' then State_Monad.return True
     else do {
       other \<leftarrow> ssh_output W C ''test -S /var/run/fcgiwrap.socket && echo exists'';
       State_Monad.return (trim other = ''exists'') } }"

definition setup_fcgiwrap :: "remote_world \<Rightarrow> server_config \<Rightarrow> bool remote" where
  "setup_fcgiwrap W C = do {
     out \<leftarrow> ssh_output W C ''command -v systemctl >/dev/null 2>&1 && echo systemd'';
     if trim out = ''systemd''
     then all_steps [
       ssh_exec W C ''sudo systemctl enable fcgiwrap.socket'',
       ssh_exec W C ''sudo systemctl start fcgiwrap.socket'',
       do { active \<leftarrow> ssh_output W C ''systemctl is-active fcgiwrap.socket''; State_Monad.return (trim active = ''active'') },
       verify_fcgiwrap_socket W C]
     else all_steps [ssh_exec W C ''sudo service fcgiwrap start'', verify_fcgiwrap_socket W C] }"

definition setup_git_user :: "remote_world \<Rightarrow> server_config \<Rightarrow> bool remote" where
  "setup_git_user W C = do {
     out \<leftarrow> ssh_output W C ''id git >/dev/null 2>&1 && echo exists'';
     all_steps ((if trim out = ''exists'' then []
       else [ssh_exec W C (''sudo useradd -r -m -d /srv/git -s /usr/bin/git-shell git 2>&1 || '' @
                           ''sudo useradd -r -m -d /srv/git -s /usr/local/bin/git-shell git'')]) @
       [ssh_exec W C (''sudo -u git mkdir -p /srv/git/.ssh && '' @ ''sudo -u git chmod 700 /srv/git/.ssh'')]) }"

definition expand_home :: "remote_world \<Rightarrow> string \<Rightarrow> string" where
  "expand_home W path =
     (case ow_home W of
        Some home \<Rightarrow> if path \<noteq> [] \<and> hd path = CHR ''~'' then home @ tl path else path
      | None \<Rightarrow> path)"

definition deploy_command :: "string \<Rightarrow> string" where
  "deploy_command remote_key =
     ''sudo -u git sh -c '' @ sq (''cat '' @ remote_key @ '' >> /srv/git/.ssh/authorized_keys'') @
     '' && sudo -u git chmod 600 /srv/git/.ssh/authorized_keys && sudo rm '' @ remote_key"

definition deploy_ssh_key :: "remote_world \<Rightarrow> server_config \<Rightarrow> string \<Rightarrow> bool remote" where
  "deploy_ssh_key W C public_key_path = do {
     key \<leftarrow> ask (\<lambda>h. ow_read W h (expand_home W public_key_path));
     case key of
       None \<Rightarrow> State_Monad.return False
     | Some public_key \<Rightarrow> do {
         tmp \<leftarrow> write_temp W ''nazg-git-key-XXXXXX.pub'' public_key;
         case tmp of
           None \<Rightarrow> State_Monad.return False
         | Some tmp_key \<Rightarrow> do {
             up \<leftarrow> upload_file W C tmp_key (''/tmp/'' @ filename tmp_key);
             ok \<leftarrow> (if up then ssh_exec W C (deploy_command (''/tmp/'' @ filename tmp_key)) else State_Monad.return False);
             remove_file tmp_key;
             State_Monad.return ok } } }"

fun deploy_first_key :: "remote_world \<Rightarrow> server_config \<Rightarrow> string list \<Rightarrow> bool remote" where
  "deploy_first_key W C [] = State_Monad.return False"
| "deploy_first_key W C (path # paths) = do {
     there \<leftarrow> ask (\<lambda>h. ow_exists W h (expand_home W path));
     done \<leftarrow> (if there then deploy_ssh_key W C (expand_home W path) else State_Monad.return False);
     if done then State_Monad.return True else deploy_first_key W C paths }"

definition create_repo_directory :: "remote_world \<Rightarrow> server_config \<Rightarrow> bool remote" where
  "create_repo_directory W C = ssh_exec W C
     (''sudo mkdir -p '' @ shell_quote (sc_repo_base_path C) @ '' && sudo chown -R '' @ shell_quote (sc_ssh_user C) @ '': '' @
      shell_quote (sc_repo_base_path C))"

definition activate_nginx :: "remote_world \<Rightarrow> server_config \<Rightarrow> string \<Rightarrow> bool remote" where
  "activate_nginx W C remote_conf = do {
     out \<leftarrow> ssh_output W C ''test -d /etc/nginx/conf.d && echo confd || echo sites'';
     all_steps ((if trim out = ''confd''
         then [ssh_exec W C (''sudo mv '' @ remote_conf @ '' /etc/nginx/conf.d/cgit.conf'')]
         else [ssh_exec W C (''sudo mv '' @ remote_conf @ '' /etc/nginx/sites-available/cgit''),
               ssh_exec W C ''sudo ln -sf /etc/nginx/sites-available/cgit /etc/nginx/sites-enabled/cgit'']) @
       [do { test \<leftarrow> ssh_output W C ''sudo nginx -t 2>&1'';
             State_Monad.return (contains ''syntax is ok'' test \<or> contains ''test is successful'' test) },
        ssh_exec W C ''sudo systemctl restart nginx'']) }"

definition setup_web_server :: "remote_world \<Rightarrow> server_config \<Rightarrow> bool remote" where
  "setup_web_server W C = do {
     tmp \<leftarrow> write_temp W ''nazg-cgit-nginx-XXXXXX'' (generate_nginx_config C);
     case tmp of
       None \<Rightarrow> State_Monad.return False
     | Some tmp_conf \<Rightarrow> do {
         up \<leftarrow> upload_file W C tmp_conf (''/tmp/'' @ filename tmp_conf);
         ok \<leftarrow> (if up then activate_nginx W C (''/tmp/'' @ filename tmp_conf) else State_Monad.return False);
         remove_file tmp_conf;
         State_Monad.return ok } }"

section \<open>Repositories\<close>

definition discovery_command :: "server_config \<Rightarrow> string" where
  "discovery_command C =
     ''if command -v find >/dev/null 2>&1; then find '' @ shell_quote (sc_repo_base_path C) @
     '' -maxdepth 1 -type d -name '' @ sq ''*.git'' @ '' -exec basename {} '' @ [CHR 0x5C] @ '';; else ls -1 '' @
     shell_quote (sc_repo_base_path C) @ '' 2>/dev/null; fi''"

definition stored_names :: "server_config \<Rightarrow> sqlite option \<Rightarrow> string list" where
  "stored_names C store =
     (case store of
        None \<Rightarrow> []
      | Some c \<Rightarrow> filter (\<lambda>name. name \<noteq> []) (map filename (list_bare_repo_paths_with_prefix (sc_repo_base_path C) c)))"

definition listed_names :: "string \<Rightarrow> string list" where
  "listed_names out =
     filter (\<lambda>name. 4 \<le> length name \<and> drop (length name - 4) name = dot_git) (map trim (getlines nl out))"

definition discover_repos :: "remote_world \<Rightarrow> server_config \<Rightarrow> sqlite option \<Rightarrow> string list remote" where
  "discover_repos W C store =
     (if stored_names C store \<noteq> [] then State_Monad.return (stored_names C store)
      else do { out \<leftarrow> ssh_output W C (discovery_command C); State_Monad.return (listed_names out) })"

definition configure :: "remote_world \<Rightarrow> server_config \<Rightarrow> sqlite option \<Rightarrow> bool remote" where
  "configure W C store = do {
     found \<leftarrow> discover_repos W C store;
     tmp \<leftarrow> write_temp W ''nazg-cgitrc-XXXXXX'' (generate_cgitrc C (remdups_adj (sort found)));
     case tmp of
       None \<Rightarrow> State_Monad.return False
     | Some tmp_path \<Rightarrow> do {
         up \<leftarrow> upload_file W C tmp_path (''/tmp/'' @ filename tmp_path);
         ok \<leftarrow> (if up then ssh_exec W C (''sudo mv '' @ ''/tmp/'' @ filename tmp_path @ '' '' @ sc_config_path C)
                else State_Monad.return False);
         remove_file tmp_path;
         State_Monad.return ok } }"

text \<open>A key that is not deployed and a configuration that fails do not stop the installation.\<close>

definition install :: "remote_world \<Rightarrow> server_config \<Rightarrow> sqlite option \<Rightarrow> bool remote" where
  "install W C store = all_steps [
     ssh_test_connection W C ''2>&1'',
     install_deps W C,
     setup_fcgiwrap W C,
     setup_git_user W C,
     do { deployed \<leftarrow> deploy_first_key W C [''~/.ssh/id_ed25519.pub'', ''~/.ssh/id_rsa.pub'']; State_Monad.return True },
     create_repo_directory W C,
     setup_web_server W C,
     do { configured \<leftarrow> configure W C store; State_Monad.return True }]"

definition rsync_command :: "server_config \<Rightarrow> string \<Rightarrow> string" where
  "rsync_command C local_path =
     ''rsync -avz --delete -e '' @ shell_quote (''ssh -o StrictHostKeyChecking=accept-new -p '' @ to_string (sc_ssh_port C)) @
     '' '' @ shell_quote (local_path @ ''/'') @ '' '' @
     shell_quote (ssh_connection C @ '':'' @ sc_repo_base_path C @ ''/'' @ filename local_path @ ''/'') @ '' 2>&1''"

fun sync_each :: "remote_world \<Rightarrow> server_config \<Rightarrow> string list \<Rightarrow> bool remote" where
  "sync_each W C [] = State_Monad.return True"
| "sync_each W C (path # paths) = do {
     ret \<leftarrow> system W (rsync_command C path);
     ok \<leftarrow> sync_each W C paths;
     State_Monad.return (ret = 0 \<and> ok) }"

definition sync_repos :: "remote_world \<Rightarrow> server_config \<Rightarrow> sqlite option \<Rightarrow> string list \<Rightarrow> bool remote" where
  "sync_repos W C store local_paths = do {
     all_ok \<leftarrow> sync_each W C local_paths;
     if all_ok then do { configured \<leftarrow> configure W C store; State_Monad.return True } else State_Monad.return False }"

end
