(* ===== verification/Git_Gitea_Server.thy ===== *)
theory Git_Gitea_Server
  imports Git_Cgit
begin

text \<open>
  The Gitea server (\<open>src/modules/git/src/gitea.cpp\<close>, class \<open>GiteaServer\<close>): installation over \<open>ssh\<close>, the administrator and
  the token, and the operations that go to the client of \<^theory_text>\<open>Git_Gitea\<close>; and \<open>create_server\<close> (\<open>server.cpp\<close>).
\<close>

section \<open>Paths and keys\<close>

definition default_app_ini_path :: string where
  "default_app_ini_path = ''/etc/gitea/app.ini''"

definition normalize_config_path :: "string \<Rightarrow> string" where
  "normalize_config_path configured =
     (if configured = [] then default_app_ini_path
      else if extension configured = [] then path_slash configured ''app.ini'' else configured)"

text \<open>\<open>fs::path::parent_path\<close>.\<close>

definition parent_path :: "string \<Rightarrow> string" where
  "parent_path p =
     (let parent = rev (dropWhile (\<lambda>c. c = CHR ''/'') (dropWhile (\<lambda>c. c \<noteq> CHR ''/'') (rev p)))
      in if parent = [] \<and> p \<noteq> [] \<and> hd p = CHR ''/'' then ''/'' else parent)"

definition config_directory_from_path :: "string \<Rightarrow> string" where
  "config_directory_from_path path = (if parent_path path = [] then ''/etc/gitea'' else parent_path path)"

text \<open>A number of 64 bits in sixteen hexadecimal digits, and four of them: the draws \<open>i\<close> to \<open>i + 3\<close> of the random device.\<close>

definition hex16 :: "64 word \<Rightarrow> string" where
  "hex16 w = map (\<lambda>k. hex_digit (unat (drop_bit (60 - 4 * k) w) mod 16)) [0..<16]"

definition generate_secret_key :: "(nat \<Rightarrow> 64 word) \<Rightarrow> nat \<Rightarrow> string" where
  "generate_secret_key draw i = concat (map (\<lambda>k. hex16 (draw (i + k))) [0..<4])"

section \<open>The server\<close>

record gitea_server =
  gv_config :: server_config
  gv_api :: "gitea_api option"
  gv_admin_token :: string
  gv_admin_password :: string

definition get_api_url :: "server_config \<Rightarrow> string" where
  "get_api_url C = sc_web_url C @ ''/api/v1''"

definition gitea_config :: "server_config \<Rightarrow> server_config" where
  "gitea_config C0 =
     (let C = C0\<lparr>sc_config_path := normalize_config_path (sc_config_path C0),
                 sc_repo_base_path := (if sc_repo_base_path C0 = [] then ''/var/lib/gitea/repositories'' else sc_repo_base_path C0),
                 sc_port := (if sc_port C0 = 80 then 3000 else sc_port C0)\<rparr>
      in if sc_web_url C = [] then C\<lparr>sc_web_url := ''http://'' @ sc_host C @ '':'' @ to_string (sc_port C)\<rparr> else C)"

definition new_gitea :: "server_config \<Rightarrow> gitea_server" where
  "new_gitea C0 =
     (let C = gitea_config C0; token = sc_admin_token C
      in \<lparr>gv_config = C, gv_api = (if token = [] then None else Some (new_api (get_api_url C) token)),
          gv_admin_token = token, gv_admin_password = []\<rparr>)"

definition generate_app_ini :: "(nat \<Rightarrow> 64 word) \<Rightarrow> server_config \<Rightarrow> string" where
  "generate_app_ini draw C = unlines [
     ''APP_NAME = Nazg Git Server'',
     ''RUN_MODE = prod'', [],
     ''[server]'',
     ''PROTOCOL = http'',
     ''DOMAIN = '' @ sc_host C,
     ''HTTP_PORT = '' @ to_string (sc_port C),
     ''ROOT_URL = '' @ sc_web_url C @ ''/'',
     ''DISABLE_SSH = false'',
     ''SSH_PORT = '' @ to_string (sc_ssh_port C),
     ''START_SSH_SERVER = true'',
     ''LFS_START_SERVER = true'', [],
     ''[database]'',
     ''DB_TYPE = sqlite3'',
     ''PATH = /var/lib/gitea/data/gitea.db'', [],
     ''[repository]'',
     ''ROOT = '' @ sc_repo_base_path C, [],
     ''[security]'',
     ''INSTALL_LOCK = true'',
     ''SECRET_KEY = '' @ generate_secret_key draw 0,
     ''INTERNAL_TOKEN = '' @ generate_secret_key draw 4, [],
     ''[service]'',
     ''DISABLE_REGISTRATION = true'',
     ''REQUIRE_SIGNIN_VIEW = false'',
     ''DEFAULT_KEEP_EMAIL_PRIVATE = true'', [],
     ''[log]'',
     ''MODE = file'',
     ''LEVEL = Info'',
     ''ROOT_PATH = /var/lib/gitea/log'', [],
     ''[actions]'',
     ''ENABLED = true'', []]"

section \<open>Status\<close>

definition binary_test :: string where
  "binary_test = ''test -f /usr/local/bin/gitea && echo '' @ sq ''found'' @ '' || echo '' @ sq ''not found''"

definition is_installed :: "remote_world \<Rightarrow> gitea_server \<Rightarrow> bool remote" where
  "is_installed W G = do {
     connected \<leftarrow> ssh_test_connection W (gv_config G) ''2>/dev/null'';
     if \<not> connected then State_Monad.return False
     else do { out \<leftarrow> ssh_output W (gv_config G) binary_test; State_Monad.return (trim out = ''found'') } }"

definition count_repos :: "remote_world \<Rightarrow> gitea_server \<Rightarrow> int remote" where
  "count_repos W G =
     (case gv_api G of
        Some A \<Rightarrow>
          if gv_admin_token G = [] then State_Monad.return 0
          else do { repos \<leftarrow> api_call W (\<lambda>net. list_repos net A []); State_Monad.return (int (length repos)) }
      | None \<Rightarrow> State_Monad.return 0)"

definition get_status :: "remote_world \<Rightarrow> gitea_server \<Rightarrow> server_status remote" where
  "get_status W G = do {
     connected \<leftarrow> ssh_test_connection W (gv_config G) ''2>/dev/null'';
     if \<not> connected
     then State_Monad.return (new_status\<lparr>ss_type := ''gitea'', ss_error_message := ''Cannot SSH to '' @ sc_host (gv_config G)\<rparr>)
     else do {
       found \<leftarrow> ssh_output W (gv_config G) binary_test;
       if trim found \<noteq> ''found'' then State_Monad.return (new_status\<lparr>ss_type := ''gitea'', ss_reachable := True\<rparr>)
       else do {
         version \<leftarrow> ssh_output W (gv_config G) ''/usr/local/bin/gitea --version | head -1'';
         active \<leftarrow> ssh_output W (gv_config G) (''systemctl is-active gitea 2>/dev/null || echo '' @ sq ''inactive'');
         count \<leftarrow> count_repos W G;
         State_Monad.return (new_status\<lparr>ss_type := ''gitea'', ss_reachable := True, ss_installed := True,
           ss_version := trim version,
           ss_error_message := (if trim active \<noteq> ''active'' then ''Gitea service not running'' else []),
           ss_repo_count := count\<rparr>) } } }"

section \<open>Installation\<close>

definition gitea_arch :: "string \<Rightarrow> string option" where
  "gitea_arch arch =
     (if arch = ''x86_64'' \<or> arch = ''amd64'' then Some ''linux-amd64''
      else if arch = ''aarch64'' \<or> arch = ''arm64'' then Some ''linux-arm64'' else None)"

definition download_command :: "string \<Rightarrow> string" where
  "download_command arch =
     ''wget -q -O /tmp/gitea https://github.com/go-gitea/gitea/releases/download/v1.21.0/gitea-1.21.0-'' @ arch @
     '' && sudo mv /tmp/gitea /usr/local/bin/gitea && sudo chmod +x /usr/local/bin/gitea''"

definition download_gitea_binary :: "remote_world \<Rightarrow> gitea_server \<Rightarrow> bool remote" where
  "download_gitea_binary W G = do {
     out \<leftarrow> ssh_output W (gv_config G) ''uname -m'';
     case gitea_arch (trim out) of
       None \<Rightarrow> State_Monad.return False
     | Some arch \<Rightarrow> ssh_exec W (gv_config G) (download_command arch) }"

definition create_gitea_user :: "remote_world \<Rightarrow> gitea_server \<Rightarrow> bool remote" where
  "create_gitea_user W G =
     (let dir = shell_quote (config_directory_from_path (sc_config_path (gv_config G))) in do {
     out \<leftarrow> ssh_output W (gv_config G) (''id -u git >/dev/null 2>&1 && echo '' @ sq ''exists'' @ '' || echo '' @ sq ''not found'');
     if trim out = ''exists'' then State_Monad.return True
     else all_steps [
       ssh_exec W (gv_config G) ''sudo useradd -r -m -d /var/lib/gitea -s /bin/bash git'',
       ssh_exec W (gv_config G) (''sudo mkdir -p /var/lib/gitea/{data,repositories,log} && sudo mkdir -p '' @ dir @
         '' && sudo chown -R git:git /var/lib/gitea '' @ dir)] })"

definition service_file :: "server_config \<Rightarrow> string" where
  "service_file C = unlines [
     ''[Unit]'',
     ''Description=Gitea (Git with a cup of tea)'',
     ''After=network.target'', [],
     ''[Service]'',
     ''Type=simple'',
     ''User=git'',
     ''Group=git'',
     ''WorkingDirectory=/var/lib/gitea'',
     ''ExecStart=/usr/local/bin/gitea web --config='' @ sc_config_path C,
     ''Restart=always'',
     ''Environment=USER=git HOME=/home/git GITEA_WORK_DIR=/var/lib/gitea'', [],
     ''[Install]'',
     ''WantedBy=multi-user.target'']"

text \<open>A local file with a text, copied to the remote machine and put in its place by a command; the local file is removed.\<close>

definition install_file :: "remote_world \<Rightarrow> gitea_server \<Rightarrow> string \<Rightarrow> (history \<Rightarrow> string) \<Rightarrow> string \<Rightarrow> string \<Rightarrow> bool remote" where
  "install_file W G name content remote cmd = do {
     body \<leftarrow> ask content;
     now \<leftarrow> ask (ow_time W);
     ok \<leftarrow> write_file W (name @ to_string now) body;
     if \<not> ok then State_Monad.return False
     else do {
       up \<leftarrow> upload_file W (gv_config G) (name @ to_string now) remote;
       done \<leftarrow> (if up then ssh_exec W (gv_config G) cmd else State_Monad.return False);
       remove_file (name @ to_string now);
       State_Monad.return done } }"

definition setup_systemd_service :: "remote_world \<Rightarrow> gitea_server \<Rightarrow> bool remote" where
  "setup_systemd_service W G = install_file W G ''/tmp/gitea_service_'' (\<lambda>h. service_file (gv_config G)) ''/tmp/gitea.service''
     ''sudo mv /tmp/gitea.service /etc/systemd/system/gitea.service && sudo systemctl daemon-reload && sudo systemctl enable gitea''"

definition place_app_ini :: "gitea_server \<Rightarrow> string" where
  "place_app_ini G =
     ''sudo mv /tmp/app.ini '' @ shell_quote (sc_config_path (gv_config G)) @ '' && sudo chown git:git '' @
     shell_quote (sc_config_path (gv_config G))"

definition upload_app_ini :: "remote_world \<Rightarrow> gitea_server \<Rightarrow> string \<Rightarrow> bool remote" where
  "upload_app_ini W G cmd =
     install_file W G ''/tmp/gitea_app_ini_'' (\<lambda>h. generate_app_ini (ow_draw W h) (gv_config G)) ''/tmp/app.ini'' cmd"

definition admin_command :: "server_config \<Rightarrow> string" where
  "admin_command C =
     ''cd /var/lib/gitea && sudo -u git /usr/local/bin/gitea admin user create '' @
     ''--admin --username admin --random-password --random-password-length 24 --email admin@'' @ sc_host C @
     '' --must-change-password=false 2>&1''"

definition password_marker :: string where
  "password_marker = ''generated random password is '' @ [CHR 0x27]"

definition generated_password :: "string \<Rightarrow> string option" where
  "generated_password out = Option.bind (text_after password_marker out) (until_char (CHR 0x27))"

definition password_after :: "string \<Rightarrow> string \<Rightarrow> string" where
  "password_after out password =
     (if contains ''already exists'' out then []
      else if contains ''created!'' out
      then (case generated_password out of Some p \<Rightarrow> p | None \<Rightarrow> password)
      else password)"

definition initialize_database :: "remote_world \<Rightarrow> gitea_server \<Rightarrow> (bool \<times> gitea_server) remote" where
  "initialize_database W G = do {
     ok \<leftarrow> ssh_exec W (gv_config G) ''cd /var/lib/gitea && sudo -u git /usr/local/bin/gitea migrate'';
     if \<not> ok then State_Monad.return (False, G)
     else do {
       out \<leftarrow> ssh_output W (gv_config G) (admin_command (gv_config G));
       State_Monad.return (True, G\<lparr>gv_admin_password := password_after out (gv_admin_password G)\<rparr>) } }"

definition token_command :: string where
  "token_command =
     ''cd /var/lib/gitea && sudo -u git /usr/local/bin/gitea admin user generate-access-token '' @
     ''--username admin --token-name nazg-management '' @
     ''--scopes write:admin,write:repository,write:organization,write:user 2>&1''"

text \<open>\<open>trim(output.substr(pos + 1))\<close>, where \<open>pos\<close> is the place of \<open>created:\<close>, or else of the first colon.\<close>

definition token_of :: "string \<Rightarrow> string option" where
  "token_of out =
     map_option (\<lambda>rest. trim (tl rest))
       (case text_after ''created:'' out of
          Some t \<Rightarrow> Some (''created:'' @ t)
        | None \<Rightarrow> map_option ((#) (CHR '':'')) (text_after '':'' out))"

definition with_token :: "string \<Rightarrow> gitea_server \<Rightarrow> gitea_server" where
  "with_token token G =
     G\<lparr>gv_admin_token := token, gv_config := (gv_config G)\<lparr>sc_admin_token := token\<rparr>,
       gv_api := Some (new_api (get_api_url (gv_config G)) token)\<rparr>"

definition create_admin_token :: "remote_world \<Rightarrow> gitea_server \<Rightarrow> (string option \<times> gitea_server) remote" where
  "create_admin_token W G = do {
     out \<leftarrow> ssh_output W (gv_config G) token_command;
     State_Monad.return (case token_of out of None \<Rightarrow> (None, G) | Some token \<Rightarrow> (Some token, with_token token G)) }"

definition install :: "remote_world \<Rightarrow> gitea_server \<Rightarrow> (bool \<times> gitea_server) remote" where
  "install W G = do {
     ready \<leftarrow> all_steps [
       ssh_test_connection W (gv_config G) ''2>/dev/null'',
       download_gitea_binary W G,
       create_gitea_user W G,
       upload_app_ini W G (place_app_ini G),
       setup_systemd_service W G];
     if \<not> ready then State_Monad.return (False, G)
     else do {
       (initialized, G1) \<leftarrow> initialize_database W G;
       if \<not> initialized then State_Monad.return (False, G1)
       else do {
         started \<leftarrow> ssh_exec W (gv_config G1) ''sudo systemctl start gitea'';
         if \<not> started then State_Monad.return (False, G1)
         else do { (token, G2) \<leftarrow> create_admin_token W G1; State_Monad.return (True, G2) } } } }"

definition configure :: "remote_world \<Rightarrow> gitea_server \<Rightarrow> bool remote" where
  "configure W G = upload_app_ini W G (place_app_ini G @ '' && sudo systemctl restart gitea'')"

section \<open>Repositories, users and hooks\<close>

definition repo_name_of :: "string \<Rightarrow> string" where
  "repo_name_of local_path =
     (let name = without_git (filename local_path) in if name = [] then filename (parent_path local_path) else name)"

definition new_private_repo :: "string \<Rightarrow> repository" where
  "new_private_repo name = new_repository\<lparr>rt_name := name, rt_is_private := True\<rparr>"

definition push_repo :: "remote_world \<Rightarrow> gitea_server \<Rightarrow> string \<Rightarrow> string \<Rightarrow> bool remote" where
  "push_repo W G name path =
     (let url = shell_quote (sc_web_url (gv_config G) @ ''/admin/'' @ name @ dot_git);
          git = ''git -C '' @ shell_quote path
      in do {
        added \<leftarrow> run_command W (git @ '' remote add gitea '' @ url @ '' 2>/dev/null; true'');
        changed \<leftarrow> run_command W (git @ '' remote set-url gitea '' @ url);
        pushed \<leftarrow> run_command_capture W (git @ '' push --mirror gitea 2>&1'');
        State_Monad.return (cr_exit_code pushed = 0) })"

definition sync_repo :: "remote_world \<Rightarrow> gitea_server \<Rightarrow> gitea_api \<Rightarrow> string \<Rightarrow> bool remote" where
  "sync_repo W G A path =
     (let name = repo_name_of path in do {
        existing \<leftarrow> api_call W (\<lambda>net. get_repo net A ''admin'' name);
        created \<leftarrow> (if existing \<noteq> None then State_Monad.return True
                    else api_call W (\<lambda>net. Git_Gitea.create_repo net A ''admin'' (new_private_repo name)));
        if created then push_repo W G name path else State_Monad.return False })"

fun sync_each :: "remote_world \<Rightarrow> gitea_server \<Rightarrow> gitea_api \<Rightarrow> string list \<Rightarrow> bool remote" where
  "sync_each W G A [] = State_Monad.return True"
| "sync_each W G A (path # paths) = do {
     ok \<leftarrow> sync_repo W G A path;
     rest \<leftarrow> sync_each W G A paths;
     State_Monad.return (ok \<and> rest) }"

definition with_api :: "remote_world \<Rightarrow> gitea_server \<Rightarrow> (gitea_api \<Rightarrow> bool remote) \<Rightarrow> bool remote" where
  "with_api W G f = (case gv_api G of None \<Rightarrow> State_Monad.return False | Some A \<Rightarrow> f A)"

definition sync_repos :: "remote_world \<Rightarrow> gitea_server \<Rightarrow> string list \<Rightarrow> bool remote" where
  "sync_repos W G local_paths = with_api W G (\<lambda>A. sync_each W G A local_paths)"

definition create_repo :: "remote_world \<Rightarrow> gitea_server \<Rightarrow> string \<Rightarrow> string \<Rightarrow> bool \<Rightarrow> bool remote" where
  "create_repo W G name owner is_private = with_api W G (\<lambda>A. api_call W (\<lambda>net.
     Git_Gitea.create_repo net A (if owner = [] then ''admin'' else owner) (new_repository\<lparr>rt_name := name, rt_is_private := is_private\<rparr>)))"

definition delete_repo :: "remote_world \<Rightarrow> gitea_server \<Rightarrow> string \<Rightarrow> string \<Rightarrow> bool remote" where
  "delete_repo W G owner repo = with_api W G (\<lambda>A. api_call W (\<lambda>net. Git_Gitea.delete_repo net A owner repo))"

definition create_user :: "remote_world \<Rightarrow> gitea_server \<Rightarrow> string \<Rightarrow> string \<Rightarrow> string \<Rightarrow> bool remote" where
  "create_user W G username email password = with_api W G (\<lambda>A. api_call W (\<lambda>net.
     Git_Gitea.create_user net A (new_user\<lparr>us_username := username, us_email := email\<rparr>) password))"

definition create_organization :: "remote_world \<Rightarrow> gitea_server \<Rightarrow> string \<Rightarrow> string \<Rightarrow> bool remote" where
  "create_organization W G name description = with_api W G (\<lambda>A. api_call W (\<lambda>net.
     create_org net A (new_organization\<lparr>og_username := name, og_full_name := name, og_description := description\<rparr>)))"

definition setup_webhook :: "remote_world \<Rightarrow> gitea_server \<Rightarrow> string \<Rightarrow> string \<Rightarrow> string \<Rightarrow> bool remote" where
  "setup_webhook W G owner repo url = with_api W G (\<lambda>A. api_call W (\<lambda>net.
     create_webhook net A owner repo (new_webhook\<lparr>wh_type := ''gitea'', wh_url := url, wh_content_type := ''json'',
       wh_events := [''push'', ''pull_request''], wh_active := True\<rparr>)))"

section \<open>Choosing the server\<close>

datatype server = Cgit server_config | Gitea gitea_server

text \<open>\<^const>\<open>None\<close> is the exception for an unknown type.\<close>

definition create_server :: "server_config \<Rightarrow> server option" where
  "create_server C =
     (if sc_type C = ''cgit'' then Some (Cgit (new_cgit C))
      else if sc_type C = ''gitea'' then Some (Gitea (new_gitea C)) else None)"

end
