(* ===== verification/Git_Server_Facts.thy ===== *)
theory Git_Server_Facts
  imports Git_Gitea_Server
begin

text \<open>
  What the git servers do: the configuration cgit publishes, the keys that are never deployed, the installation of Gitea that
  notices failing commands, and the token it reads.
\<close>

section \<open>Temporary files\<close>

lemma mkstemp_suffix:
  assumes "drop (length name - 6) name \<noteq> ''XXXXXX''" "6 \<le> length name"
  shows "mkstemp W (path_slash dir name) = State_Monad.return None"
proof -
  have "drop (length (x @ name) - 6) (x @ name) = drop (length name - 6) name" for x using assms(2) by simp
  then have "drop (length (x @ name) - 6) (x @ name) \<noteq> ''XXXXXX''" for x using assms(1) by metis
  from this [of dir] this [of "dir @ ''/''"] show ?thesis by (simp add: mkstemp_def path_slash_def)
qed

lemma mkstemp_run: "run_state (mkstemp W t) h = (Some p, h') \<Longrightarrow> h' = h @ [MakeTemp t]"
  by (auto simp: mkstemp_def act_def split: if_splits)

lemma write_temp_run:
  assumes "run_state (write_temp W name content) h = (Some p, h')"
  shows "h' = h @ [MakeTemp (path_slash (ow_tmp_dir W) name), WriteFile p content]"
  using assms
  by (auto simp: write_temp_def write_file_def remove_file_def act_def dest!: mkstemp_run split: prod.splits option.splits if_splits)

text \<open>
  The template for the key ends in \<open>.pub\<close>, so \<open>mkstemp\<close> refuses it: no key is ever deployed, and nothing is done for it.
\<close>

lemma key_never_deployed: "run_state (deploy_ssh_key W C path) h = (False, h)"
  by (simp add: deploy_ssh_key_def ask_def write_temp_def mkstemp_suffix split: option.splits)

lemma no_first_key: "run_state (deploy_first_key W C paths) h = (False, h)"
  by (induction paths) (simp_all add: key_never_deployed ask_def)


section \<open>The configuration of cgit\<close>

lemma strict_sorted_remdups_adj: "sorted xs \<Longrightarrow> sorted_wrt (<) (remdups_adj xs)" for xs :: "string list"
  by (induction xs rule: remdups_adj.induct) auto

text \<open>
  When \<open>configure\<close> succeeds, it has looked for the repositories, written the configuration that lists every one of them
  once and in order to a new file, copied that file to the server, moved it to its place and removed it, in this order.
\<close>

lemma configure_publishes_repositories:
  assumes "run_state (Git_Cgit.configure W C store) h = (True, h')" and "run_state (discover_repos W C store) h = (found, h1)"
  shows "\<exists>names p. sorted_wrt (<) names \<and> set names = set found \<and>
    h' = h1 @ [MakeTemp (path_slash (ow_tmp_dir W) ''nazg-cgitrc-XXXXXX''), WriteFile p (generate_cgitrc C names),
      System (c_string (scp_command C p (''/tmp/'' @ filename p))),
      System (c_string (ssh_command C (''sudo mv /tmp/'' @ filename p @ '' '' @ sc_config_path C))), RemoveFile p]"
proof -
  let ?names = "remdups_adj (sort found)"
  obtain tmp h2 where w: "run_state (write_temp W ''nazg-cgitrc-XXXXXX'' (generate_cgitrc C ?names)) h1 = (tmp, h2)"
    by (cases "run_state (write_temp W ''nazg-cgitrc-XXXXXX'' (generate_cgitrc C ?names)) h1")
  from assms w obtain p where p: "tmp = Some p" by (cases tmp) (auto simp: Git_Cgit.configure_def)
  from assms w p write_temp_run [of W _ _ h1 p h2] show ?thesis
    by (intro exI [of _ ?names] exI [of _ p])
      (auto simp: Git_Cgit.configure_def strict_sorted_remdups_adj [OF sorted_sort] upload_file_def ssh_exec_def system_def remove_file_def act_def
        split: if_splits)
qed

text \<open>A path with a slash at its end has no file name, so \<open>rsync --delete\<close> is given the directory of all repositories.\<close>

lemma trailing_slash_replaces_all:
  "rsync_command C (path @ ''/'') =
     ''rsync -avz --delete -e '' @ shell_quote (''ssh -o StrictHostKeyChecking=accept-new -p '' @ to_string (sc_ssh_port C)) @
     '' '' @ shell_quote (path @ ''//'') @ '' '' @ shell_quote (ssh_connection C @ '':'' @ sc_repo_base_path C @ ''//'') @ '' 2>&1''"
  by (simp add: rsync_command_def filename_def)

section \<open>The installation of Gitea\<close>

lemma system_ok_nth: "system_ok W h as \<Longrightarrow> k < length as \<Longrightarrow> as ! k = System cmd \<Longrightarrow> ow_system W (h @ take (Suc k) as) = 0"
proof (induction as arbitrary: h k)
  case (Cons a as)
  then show ?case using Cons.IH [of "h @ [a]" "k - 1"] by (cases k) auto
qed simp

lemma run_remove [simp]: "run_state (remove_file p) h = ((), h @ [RemoveFile p])"
  by (simp add: remove_file_def act_def)

lemmas honest_binds = honest_any [OF honest_output(2)] honest_any [OF honest_files(2)] honest_bind [of _ "\<lambda>ok. ok"]

lemma honest_install_file [honest_steps]: "honest W (\<lambda>ok. ok) (install_file W G name content remote cmd)"
  unfolding install_file_def
  by (rule honest_any, simp, rule honest_any, simp) (auto intro!: honest_binds honest_steps)

lemma honest_parts [honest_steps]:
  "honest W (\<lambda>ok. ok) (download_gitea_binary W G)" "honest W (\<lambda>ok. ok) (create_gitea_user W G)"
  "honest W (\<lambda>ok. ok) (upload_app_ini W G cmd)" "honest W (\<lambda>ok. ok) (setup_systemd_service W G)"
  by (auto simp: download_gitea_binary_def create_gitea_user_def upload_app_ini_def setup_systemd_service_def Let_def
      intro!: honest_binds honest_steps split: option.split)

lemma honest_database: "honest W fst (initialize_database W G)"
  by (auto simp: initialize_database_def intro!: honest_binds honest_steps)

lemma honest_token: "honest W good (create_admin_token W G)"
  by (auto simp: create_admin_token_def intro!: honest_binds)

lemma honest_install: "honest W fst (Git_Gitea_Server.install W G)"
  unfolding Git_Gitea_Server.install_def
  by (auto intro!: honest_bind [of W "\<lambda>ok. ok"] honest_bind [of W fst] honest_steps honest_database honest_any [OF honest_token]
      split: prod.splits)

text \<open>What an installation does, as actions: commands on the machine, and files that are copied there and put in place.\<close>

definition on_machine :: "server_config \<Rightarrow> string \<Rightarrow> string" where
  "on_machine C cmd = c_string (ssh_command C cmd)"

definition placed :: "server_config \<Rightarrow> string \<Rightarrow> string \<Rightarrow> string \<Rightarrow> string \<Rightarrow> action list" where
  "placed C file content remote cmd =
     [WriteFile file content, System (c_string (scp_command C file remote)), System (on_machine C cmd), RemoveFile file]"

definition user_actions :: "server_config \<Rightarrow> action list" where
  "user_actions C = [System (on_machine C ''sudo useradd -r -m -d /var/lib/gitea -s /bin/bash git''),
     System (on_machine C (''sudo mkdir -p /var/lib/gitea/{data,repositories,log} && sudo mkdir -p '' @
       shell_quote (config_directory_from_path (sc_config_path C)) @ '' && sudo chown -R git:git /var/lib/gitea '' @
       shell_quote (config_directory_from_path (sc_config_path C))))]"

definition enable_command :: string where
  "enable_command = ''sudo mv /tmp/gitea.service /etc/systemd/system/gitea.service && sudo systemctl daemon-reload && sudo systemctl enable gitea''"

definition installation :: "gitea_server \<Rightarrow> string \<Rightarrow> bool \<Rightarrow> string \<Rightarrow> string \<Rightarrow> string \<Rightarrow> action list" where
  "installation G arch known ini_file ini service =
     (let C = gv_config G in
      [Popen (c_string (test_command C ''2>/dev/null'')), Popen (on_machine C ''uname -m''),
       System (on_machine C (download_command arch)),
       Popen (on_machine C (''id -u git >/dev/null 2>&1 && echo '' @ sq ''exists'' @ '' || echo '' @ sq ''not found''))] @
      (if known then [] else user_actions C) @
      placed C ini_file ini ''/tmp/app.ini'' (place_app_ini G) @
      placed C service (service_file C) ''/tmp/gitea.service'' enable_command @
      [System (on_machine C ''cd /var/lib/gitea && sudo -u git /usr/local/bin/gitea migrate''),
       Popen (on_machine C (admin_command C)), System (on_machine C ''sudo systemctl start gitea''),
       Popen (on_machine C token_command)])"

lemma run_ssh_exec: "run_state (ssh_exec W C cmd) h = (ok, h') \<longleftrightarrow>
    h' = h @ [System (on_machine C cmd)] \<and> (ok \<longleftrightarrow> ow_system W h' = 0)"
  by (auto simp: ssh_exec_def system_def act_def on_machine_def)

lemma run_ssh_output: "run_state (ssh_output W C cmd) h = (out, h') \<Longrightarrow> h' = h @ [Popen (on_machine C cmd)]"
  by (auto simp: ssh_output_def exec_output_def act_def on_machine_def)

lemma run_test: "run_state (ssh_test_connection W C redirect) h = (ok, h') \<Longrightarrow> h' = h @ [Popen (c_string (test_command C redirect))]"
  by (auto simp: ssh_test_connection_def exec_output_def act_def)

lemma run_download: "run_state (download_gitea_binary W G) h = (True, h') \<Longrightarrow>
    \<exists>arch. arch \<in> {''linux-amd64'', ''linux-arm64''} \<and>
      h' = h @ [Popen (on_machine (gv_config G) ''uname -m''), System (on_machine (gv_config G) (download_command arch))]"
  by (auto simp: download_gitea_binary_def run_ssh_exec gitea_arch_def dest!: run_ssh_output split: prod.splits option.splits if_splits)

lemma run_all_steps: "run_state (all_steps (m # ms)) h = (True, h') \<Longrightarrow>
    \<exists>h1. run_state m h = (True, h1) \<and> run_state (all_steps ms) h1 = (True, h')"
  by (auto split: prod.splits if_splits)

lemma run_last_step: "run_state (all_steps [m]) h = (True, h') \<Longrightarrow> run_state m h = (True, h')"
  by (auto split: prod.splits if_splits)

lemma run_two_steps: "run_state (all_steps [m, m']) h = (True, h') \<Longrightarrow>
    \<exists>h1. run_state m h = (True, h1) \<and> run_state m' h1 = (True, h')"
  using run_all_steps run_last_step by blast

lemma run_user:
  assumes "run_state (create_gitea_user W G) h = (True, h')"
  shows "\<exists>known. h' = h @ Popen (on_machine (gv_config G) (''id -u git >/dev/null 2>&1 && echo '' @ sq ''exists'' @ '' || echo '' @ sq ''not found'')) #
      (if known then [] else user_actions (gv_config G))"
proof -
  let ?cmd = "''id -u git >/dev/null 2>&1 && echo '' @ sq ''exists'' @ '' || echo '' @ sq ''not found''"
  obtain out h1 where o: "run_state (ssh_output W (gv_config G) ?cmd) h = (out, h1)"
    by (cases "run_state (ssh_output W (gv_config G) ?cmd) h")
  note h1 = run_ssh_output [OF o]
  show ?thesis
  proof (cases "trim out = ''exists''")
    case True
    then have "h' = h1" using assms o by (simp add: create_gitea_user_def Let_def)
    then show ?thesis using h1 by (intro exI [of _ True]) simp
  next
    case False
    obtain c1 c2 where c: "user_actions (gv_config G) = [System (on_machine (gv_config G) c1), System (on_machine (gv_config G) c2)]"
      "run_state (all_steps [ssh_exec W (gv_config G) c1, ssh_exec W (gv_config G) c2]) h1 = (True, h')"
      using assms o False by (simp add: create_gitea_user_def Let_def user_actions_def del: all_steps.simps)
    from run_two_steps [OF c(2)] show ?thesis using h1 c(1) by (intro exI [of _ False]) (auto simp: run_ssh_exec)
  qed
qed

lemma run_install_file: "run_state (install_file W G name content remote cmd) h = (True, h') \<Longrightarrow>
    \<exists>t. h' = h @ placed (gv_config G) (name @ t) (content h) remote cmd"
  by (auto simp: install_file_def ask_def write_file_def upload_file_def system_def act_def run_ssh_exec placed_def
      split: prod.splits if_splits)

lemma run_database: "run_state (initialize_database W G) h = ((True, G'), h') \<Longrightarrow> gv_config G' = gv_config G \<and>
    h' = h @ [System (on_machine (gv_config G) ''cd /var/lib/gitea && sudo -u git /usr/local/bin/gitea migrate''),
      Popen (on_machine (gv_config G) (admin_command (gv_config G)))]"
  by (auto simp: initialize_database_def run_ssh_exec dest!: run_ssh_output split: prod.splits if_splits)

lemma run_token: "run_state (create_admin_token W G) h = (r, h') \<Longrightarrow> h' = h @ [Popen (on_machine (gv_config G) token_command)]"
  by (auto simp: create_admin_token_def dest!: run_ssh_output split: prod.splits option.splits)

lemma install_actions:
  assumes "run_state (Git_Gitea_Server.install W G) h = ((True, G'), h')"
  shows "\<exists>arch known t1 ini t2. arch \<in> {''linux-amd64'', ''linux-arm64''} \<and>
    h' = h @ installation G arch known (''/tmp/gitea_app_ini_'' @ t1) ini (''/tmp/gitea_service_'' @ t2)"
proof -
  let ?steps = "[ssh_test_connection W (gv_config G) ''2>/dev/null'', download_gitea_binary W G, create_gitea_user W G,
       upload_app_ini W G (place_app_ini G), setup_systemd_service W G]"
  obtain h5 where h5: "run_state (all_steps ?steps) h = (True, h5)"
    using assms by (cases "run_state (all_steps ?steps) h") (auto simp: Git_Gitea_Server.install_def simp del: all_steps.simps split: if_splits)
  then obtain h1 h2 h3 h4 where
    s: "run_state (ssh_test_connection W (gv_config G) ''2>/dev/null'') h = (True, h1)"
      "run_state (download_gitea_binary W G) h1 = (True, h2)" "run_state (create_gitea_user W G) h2 = (True, h3)"
      "run_state (upload_app_ini W G (place_app_ini G)) h3 = (True, h4)" "run_state (setup_systemd_service W G) h4 = (True, h5)"
    using run_all_steps run_last_step by meson
  obtain G1 h6 where d: "run_state (initialize_database W G) h5 = ((True, G1), h6)"
    using assms h5 by (cases "run_state (initialize_database W G) h5") 
      (auto simp: Git_Gitea_Server.install_def simp del: all_steps.simps split: if_splits prod.splits)
  obtain h7 where e: "run_state (ssh_exec W (gv_config G1) ''sudo systemctl start gitea'') h6 = (True, h7)"
    using assms h5 d by (cases "run_state (ssh_exec W (gv_config G1) ''sudo systemctl start gitea'') h6")
      (auto simp: Git_Gitea_Server.install_def simp del: all_steps.simps split: if_splits prod.splits)
  obtain tk where t: "run_state (create_admin_token W G1) h7 = (tk, h')"
    using assms h5 d e by (cases "run_state (create_admin_token W G1) h7")
      (auto simp: Git_Gitea_Server.install_def simp del: all_steps.simps split: if_splits prod.splits)
  from run_download [OF s(2)] obtain arch where arch: "arch \<in> {''linux-amd64'', ''linux-arm64''}"
    "h2 = h1 @ [Popen (on_machine (gv_config G) ''uname -m''), System (on_machine (gv_config G) (download_command arch))]" by blast
  from run_user [OF s(3)] obtain known where known: "h3 = h2 @ Popen (on_machine (gv_config G)
      (''id -u git >/dev/null 2>&1 && echo '' @ sq ''exists'' @ '' || echo '' @ sq ''not found'')) #
      (if known then [] else user_actions (gv_config G))" by blast
  from run_install_file [OF s(4) [unfolded upload_app_ini_def]] obtain t1 where t1: "h4 = h3 @ placed (gv_config G)
      (''/tmp/gitea_app_ini_'' @ t1) (generate_app_ini (ow_draw W h3) (gv_config G)) ''/tmp/app.ini'' (place_app_ini G)" by blast
  from run_install_file [OF s(5) [unfolded setup_systemd_service_def]] obtain t2 where t2: "h5 = h4 @ placed (gv_config G)
      (''/tmp/gitea_service_'' @ t2) (service_file (gv_config G)) ''/tmp/gitea.service'' enable_command"
    unfolding enable_command_def by blast
  have "h' = h @ installation G arch known (''/tmp/gitea_app_ini_'' @ t1) (generate_app_ini (ow_draw W h3) (gv_config G)) (''/tmp/gitea_service_'' @ t2)"
    using run_test [OF s(1)] arch(2) known t1 t2 run_database [OF d] e [unfolded run_ssh_exec] run_token [OF t]
    by (simp add: installation_def Let_def)
  then show ?thesis using arch(1) by blast
qed

text \<open>
  \<^bold>\<open>C31\<close> An installation of Gitea that reports success has done exactly this, in this order: tested the connection, asked
  for the architecture, downloaded the program, looked for the user \<open>git\<close> and, where it was not found, created it with its
  directories, copied and placed the configuration and the service, migrated the database, asked for an administrator,
  started the service and asked for a token; and each of these commands that is given to \<open>std::system\<close> ended with
  status 0. The others (the connection, the architecture, the user, the administrator and the token) are run for their
  output, their status is not looked at and may be a failure.
\<close>

theorem install_notices_failures:
  assumes "run_state (Git_Gitea_Server.install W G) h = ((True, G'), h')"
  shows "\<exists>arch known t1 ini t2 as. h' = h @ as \<and> arch \<in> {''linux-amd64'', ''linux-arm64''} \<and>
    as = installation G arch known (''/tmp/gitea_app_ini_'' @ t1) ini (''/tmp/gitea_service_'' @ t2) \<and>
    (\<forall>k cmd. k < length as \<longrightarrow> as ! k = System cmd \<longrightarrow> ow_system W (h @ take (Suc k) as) = 0)"
proof -
  from install_actions [OF assms] obtain arch known t1 ini t2 where i: "arch \<in> {''linux-amd64'', ''linux-arm64''}"
    "h' = h @ installation G arch known (''/tmp/gitea_app_ini_'' @ t1) ini (''/tmp/gitea_service_'' @ t2)" by blast
  from honestD [OF honest_install assms] obtain as where "h' = h @ as" "system_ok W h as" by auto
  with i(2) have ok: "system_ok W h (installation G arch known (''/tmp/gitea_app_ini_'' @ t1) ini (''/tmp/gitea_service_'' @ t2))" by simp
  show ?thesis
    by (intro exI [of _ arch] exI [of _ known] exI [of _ t1] exI [of _ ini] exI [of _ t2]
        exI [of _ "installation G arch known (''/tmp/gitea_app_ini_'' @ t1) ini (''/tmp/gitea_service_'' @ t2)"] conjI allI impI)
      (rule i(2), rule i(1), rule refl, rule system_ok_nth [OF ok])
qed

section \<open>The token\<close>

lemma strip_keeps_start:
  assumes "s \<noteq> []" "list_all (\<lambda>c. \<not> P c) s"
  shows "\<exists>u. strip P (s @ t) = s @ u"
proof -
  have d: "dropWhile P (s @ t) = s @ t" using assms by (cases s) auto
  have r: "dropWhile P (rev s) = rev s" using assms by (cases s rule: rev_cases) auto
  have "\<exists>u. rev (dropWhile P (rev t @ rev s)) = s @ u"
  proof (cases "list_all P t")
    case True
    then have "dropWhile P (rev t @ rev s) = dropWhile P (rev s)" by (intro dropWhile_append2) (simp add: list_all_iff)
    then show ?thesis using r by simp
  next
    case False
    then obtain x where "x \<in> set (rev t)" "\<not> P x" by (auto simp: list_all_iff)
    then have "dropWhile P (rev t @ rev s) = dropWhile P (rev t) @ rev s" by (rule dropWhile_append1)
    then show ?thesis by simp
  qed
  then show ?thesis by (simp only: strip_def d rev_append)
qed

text \<open>
  \<^bold>\<open>C32\<close> The token is read from one character behind the place of \<open>created:\<close>, not from behind the word: it always begins with
  \<open>reated:\<close>, and every later request of the client carries this text as its token.
\<close>

theorem token_keeps_the_message:
  assumes "run_state (create_admin_token W G) h = ((result, G'), h')"
    and "ow_popen W (h @ [Popen (c_string (ssh_command (gv_config G) token_command))]) = Some (chunks, status)"
    and "text_after ''created:'' (concat (map c_string chunks)) = Some t"
  shows "\<exists>u A. result = Some (''reated:'' @ u) \<and> gv_api G' = Some A \<and>
    hd (rq_headers (make_request A m endpoint body)) = ''Authorization: token reated:'' @ u"
proof -
  obtain u where "trim (''reated:'' @ t) = ''reated:'' @ u" 
    using strip_keeps_start [of "''reated:''" "\<lambda>x. x \<in> set [CHR '' '', CHR 0x09, CHR 0x0A, CHR 0x0D]" t]
    by (auto simp: trim_def trim_of_strip)
  then show ?thesis using assms
    by (auto simp: create_admin_token_def ssh_output_def exec_output_def act_def token_of_def with_token_def new_api_def make_request_def)
qed

section \<open>Examples\<close>

definition demo_remote :: "string list \<Rightarrow> remote_world" where
  "demo_remote chunks = \<lparr>ow_system = \<lambda>_. 0, ow_popen = \<lambda>_. Some (chunks, 0), ow_temp = \<lambda>_. Some ''a1b2c3'', ow_write = \<lambda>_. True,
     ow_read = \<lambda>_ _. None, ow_exists = \<lambda>_ _. False, ow_time = \<lambda>_. 7, ow_draw = \<lambda>_ _. 0, ow_net = \<lambda>_. NoHandle,
     ow_tmp_dir = ''/tmp'', ow_home = None\<rparr>"

lemma configure_publishes_repositories_example:
  "\<exists>names p. sorted_wrt (<) names \<and> set names = {''a.git'', ''b.git''} \<and>
     WriteFile p (generate_cgitrc default_config names)
       \<in> set (snd (run_state (Git_Cgit.configure (demo_remote [''b.git'' @ [nl], ''a.git'' @ [nl], ''b.git'' @ [nl]]) default_config None) []))"
proof -
  let ?W = "demo_remote [''b.git'' @ [nl], ''a.git'' @ [nl], ''b.git'' @ [nl]]"
  let ?h1 = "snd (run_state (discover_repos ?W default_config None) [])"
  have l: "listed_names (''b.git'' @ nl # ''a.git'' @ nl # ''b.git'' @ [nl]) = [''b.git'', ''a.git'', ''b.git'']" by code_simp
  have d: "run_state (discover_repos ?W default_config None) [] = ([''b.git'', ''a.git'', ''b.git''], ?h1)"
    using l by (simp add: discover_repos_def stored_names_def ssh_output_def exec_output_def act_def demo_remote_def c_string_def nl_def)
  have "fst (run_state (Git_Cgit.configure ?W default_config None) [])"
    by (simp add: Git_Cgit.configure_def discover_repos_def stored_names_def ssh_output_def exec_output_def act_def demo_remote_def
        write_temp_def mkstemp_def path_slash_def write_file_def upload_file_def ssh_exec_def system_def)
  then have c: "run_state (Git_Cgit.configure ?W default_config None) [] = (True, snd (run_state (Git_Cgit.configure ?W default_config None) []))"
    by (simp add: prod_eq_iff)
  from configure_publishes_repositories [OF c d] show ?thesis by fastforce
qed

text \<open>A machine on which the installation goes through; what it answers is chosen by the number of actions.\<close>

definition demo_machine :: remote_world where
  "demo_machine = (demo_remote [])\<lparr>ow_popen := \<lambda>h.
     Some ([if length h = 1 then ''connected'' else if length h = 2 then ''x86_64'' else if length h = 4 then ''exists''
            else ''Access token was successfully created: 0123abcd'' @ [nl]], 0)\<rparr>"

lemma demo_trims:
  "trim ''connected'' = ''connected''" "trim ''x86_64'' = ''x86_64''" "trim ''exists'' = ''exists''"
  by code_simp+

lemma demo_installs: "fst (fst (run_state (Git_Gitea_Server.install demo_machine (new_gitea default_config)) []))"
  by (simp add: Git_Gitea_Server.install_def ssh_test_connection_def download_gitea_binary_def create_gitea_user_def upload_app_ini_def
      setup_systemd_service_def install_file_def ask_def write_file_def upload_file_def ssh_exec_def ssh_output_def exec_output_def
      system_def act_def demo_machine_def demo_remote_def c_string_def demo_trims gitea_arch_def initialize_database_def
      create_admin_token_def Let_def split: prod.split option.split)

definition demo_run :: history where
  "demo_run = snd (run_state (Git_Gitea_Server.install demo_machine (new_gitea default_config)) [])"

definition demo_download :: string where
  "demo_download = c_string (ssh_command (gv_config (new_gitea default_config)) (download_command ''linux-amd64''))"

lemma demo_strings: "c_string ''connected'' = ''connected''" "c_string ''x86_64'' = ''x86_64''" "c_string ''exists'' = ''exists''"
  by code_simp+

lemma demo_downloads: "2 < length demo_run" "demo_run ! 2 = System demo_download"
  by (simp_all add: demo_run_def demo_download_def Git_Gitea_Server.install_def ssh_test_connection_def download_gitea_binary_def
      create_gitea_user_def upload_app_ini_def setup_systemd_service_def install_file_def ask_def write_file_def upload_file_def
      ssh_exec_def ssh_output_def exec_output_def system_def act_def demo_machine_def demo_remote_def demo_strings demo_trims
      gitea_arch_def initialize_database_def create_admin_token_def Let_def split: prod.split option.split)

theorem install_notices_failures_witness:
  "demo_run ! 2 = System demo_download \<and> ow_system demo_machine (take 3 demo_run) = 0 \<and>
   last demo_run = Popen (on_machine (gv_config (new_gitea default_config)) token_command)"
proof -
  let ?r = "run_state (Git_Gitea_Server.install demo_machine (new_gitea default_config)) []"
  have "?r = ((True, snd (fst ?r)), demo_run)" using demo_installs by (simp add: prod_eq_iff demo_run_def)
  from install_notices_failures [OF this] obtain arch known t1 ini t2 where as: 
    "demo_run = installation (new_gitea default_config) arch known (''/tmp/gitea_app_ini_'' @ t1) ini (''/tmp/gitea_service_'' @ t2)"
    "\<And>k cmd. k < length demo_run \<Longrightarrow> demo_run ! k = System cmd \<Longrightarrow> ow_system demo_machine (take (Suc k) demo_run) = 0" by auto
  have "last demo_run = Popen (on_machine (gv_config (new_gitea default_config)) token_command)"
    unfolding as(1) by (simp add: installation_def Let_def)
  with as(2) [of 2 demo_download] show ?thesis using demo_downloads by (simp add: numeral_3_eq_3)
qed

theorem token_keeps_the_message_witness:
  "\<exists>u. fst (fst (run_state (create_admin_token (demo_remote [''Access token was successfully created: 0123abcd'' @ [nl]])
     (new_gitea default_config)) [])) = Some (''reated:'' @ u)"
proof -
  let ?out = "''Access token was successfully created: 0123abcd'' @ [nl]"
  let ?r = "run_state (create_admin_token (demo_remote [?out]) (new_gitea default_config)) []"
  have c: "?r = ((fst (fst ?r), snd (fst ?r)), snd ?r)" by simp
  have t: "text_after ''created:'' (concat (map c_string [?out])) = Some ('' 0123abcd'' @ [nl])" by code_simp
  show ?thesis using token_keeps_the_message [OF c _ t] by (simp add: demo_remote_def) blast
qed

end
