(* ===== verification/Spec2Isabelle.thy ===== *)
theory Spec2Isabelle
  imports
    Tui_Builtin Tui_Reaper
    Docker_Start_Order Docker_Compose_Print Agent_Protocol System_Process Brain_Planner Task_Build
    Config_Store Brain_Patterns Directive_Registry Blackbox_Logger
    Nexus_Integrity Nexus_Migrator Workspace_Prune Test_Runner Brain_Recovery
    Docker_Issues Docker_Dependencies Git_Registry Agent_Cache Docker_Scan_Wire Docker_Scan_Parse
    Git_Facts Brain_Snapshots Tui_Text Bot_Doctors
    Tui_Docker_Facts Tui_Docker_View Git_Gitea_Facts Git_Server_Facts
begin

text \<open>
  \<^bold>\<open>nazg\<close>: a command line tool for developers with a terminal multiplexer, a project detector and
  build planner, a docker monitor with remote agents, a database of everything it learns, snapshots of
  the working directory, and a configuration and command framework around them. This development models the parts that hold the program's own logic, one theory per
  component, on top of one prelude; the sources are under \<open>src/modules/\<close>.

  \<^bold>\<open>How the parts interact.\<close> The multiplexer (\<open>tui\<close>) reads keys in \<open>TUIApp\<close>, which switches modes, edits
  the command bar, looks keys up in the key manager and runs named commands on the \<open>TUIContext\<close>; the
  context owns windows, menus and modes; a window owns panes and a layout tree, and hands closed panes
  to the reaper thread. The docker monitor reads compose files, extracts dependencies between services
  and computes the order to start them in; it talks to agents on other machines over a framed byte protocol:
  it sends scripts, the agent runs them, scans its containers and answers with JSON text, which the monitor reads
  back into the database. The bots use the same agents to run health checks. The git module wraps the git
  commands and keeps a registry of git servers in configuration and database. The
  brain detects what kind of project a directory holds, decides what to run, and the task module runs it
  through the shell with quoted arguments. The configuration store serves all of them (the multiplexer
  reads its default shell from it), the directive registry holds the commands of the command line. The
  nexus store keeps projects, facts, events, servers, containers, test runs, failures and snapshots in
  SQLite; the workspace manager records the files of a project in it, keeps copies below \<open>.nazg\<close> and puts them
  back.

  \<^bold>\<open>Theories.\<close>
  \<^item> \<open>Nazg_Prelude\<close>: strings and the standard library functions the sources call (\<open>getline\<close>, \<open>>>\<close>,
    \<open>find_first_not_of\<close>, \<open>to_string\<close>, \<open>stoi\<close>, \<open><cctype>\<close> in the C locale), \<open>std::map\<close> as an ordered
    association list, \<open>std::queue\<close> as a list, and the interfaces: the locales \<open>kv_table\<close>, \<open>kv_store\<close>,
    \<open>fifo_queue\<close>, \<open>step_invariant\<close> and \<open>codec\<close>, each interpreted in the theories that provide it.
  \<^item> \<open>Tui_Layout\<close> (\<open>tui/src/managers/layout.cpp\<close>): the binary split tree, positions, navigation and
    snapshots. Ratios are rational numbers. The rectangles tile the area, a split inserts next to the
    split pane, navigation finds the nearest pane, snapshots round trip.
  \<^item> \<open>Tui_Layout_Heap\<close>: \<open>Layout::remove_pane\<close> on an explicit heap of nodes with ownership, because its
    result depends on aliasing: the move assignment from an owned child reads freed memory. The heap
    program refines its tree level outcome on every branch: the result, the root pointer, the tree the heap then
    holds and the cells left alone, or the freed cell that is read.
  \<^item> \<open>Tui_Window\<close> (\<open>window.cpp\<close>): panes, active pane, zoom, saved layout; the window invariant holds along
    every sequence of operations, saving and restoring keeps the shape.
  \<^item> \<open>Tui_Modes\<close>, \<open>Tui_Keys\<close>, \<open>Tui_Commands\<close>, \<open>Tui_Menus\<close> (\<open>mode_manager.cpp\<close>, \<open>key_manager.cpp\<close>,
    \<open>command_manager.cpp\<close>, \<open>menu_manager.cpp\<close>): the four managers with their invariants, the key and
    command tables as instances of \<open>kv_store\<close>, back and forward navigation of menus. The hooks of a menu act on the
    menu and on the keys and the status message of the context.
  \<^item> \<open>Tui_Reaper\<close> (\<open>pane_reaper.cpp\<close>): the queue, its worker thread and the condition variable under all
    interleavings of the critical sections, notifications and spurious wakeups; every accepted pane is destroyed exactly
    once, shutdown wakes the worker and drains the queue.
  \<^item> \<open>Tui_Context\<close> (\<open>tui_context.cpp\<close>): the window list and the thirty built-in commands; every command
    keeps the context invariant. \<open>Tui_App\<close> (\<open>tui.cpp\<close>, \<open>command_bar.cpp\<close>): the input handler and the
    command bar over any menus; the locale \<open>context_invariant\<close> carries an invariant of the context through the handler;
    delivery of typed text, prefix commands. \<open>Tui_Builtin\<close> (\<open>menu_registry.cpp\<close>): the application with the main menu and
    the docker dashboard; the invariant of the whole application, with the keys and commands of the dashboard.
    \<open>Tui_Text\<close> (the wrapping in the panels of \<open>tui/src/menus\<close>): lines that fit the width.
  \<^item> \<open>Tui_Panes\<close> (\<open>pane.cpp\<close>, \<open>terminal.cpp\<close>): the buffer and scrollback of a pane, the child process of a terminal
    and the signals it gets. \<open>Tui_Views\<close> (\<open>window.cpp\<close>, \<open>statusbar.cpp\<close>, \<open>theme.cpp\<close>, \<open>menus/main_menu.cpp\<close>): what is drawn,
    as expressions over the operations of the drawing library. \<open>Tui_Docker_Menu\<close>, \<open>Tui_Docker_View\<close>, \<open>Tui_Docker_Facts\<close>
    (\<open>menus/docker_menu.cpp\<close>): the docker dashboard over the store; its selections stay inside its lists, and its keys are
    bound in the key table exactly while it is shown and run its commands.
  \<^item> \<open>Docker_Start_Order\<close> (\<open>docker_monitor/src/orchestrator.cpp\<close>): Kahn's algorithm and the start order.
    \<open>Docker_Compose\<close>, \<open>Docker_Compose_Print\<close> (\<open>compose_parser.cpp\<close>): the line based compose reader, the
    dependency extraction, and a printer for which reading is a left inverse.
    \<open>Docker_Orchestrator\<close>, \<open>Docker_Issues\<close>, \<open>Docker_Dependencies\<close> (the rest of \<open>orchestrator.cpp\<close>): stacks, their health
    and issues, the actions on services, and the dependencies found in compose files as rows of the store.
  \<^item> \<open>Agent_Protocol\<close> (\<open>agent/src/protocol.cpp\<close>): message framing on 8-bit words with the 32-bit size field.
    \<open>Agent_Runtime\<close>, \<open>Agent_Session\<close> (\<open>agent/src/runtime.cpp\<close>): the bytes a connection delivers in pieces, the handler of
    one client and the accept loop; the byte loop refines a session over whole messages, a token guards every
    request. \<open>Agent_Scanner\<close>, \<open>Agent_Scan_Facts\<close> (\<open>docker_scanner.cpp\<close>): reading docker's output in the pieces of
    a pipe (\<open>read_loop\<close>, whose end is proved; bytes behind a NUL in a piece are lost), printing JSON.
    \<open>Agent_Store\<close>, \<open>Agent_Cache\<close> (\<open>local_store.cpp\<close>): the agent's own database and what its cache returns.
  \<^item> \<open>Docker_Client\<close>, \<open>Docker_Scan_Wire\<close>, \<open>Docker_Scan_Parse\<close> (\<open>docker_monitor/src/client.cpp\<close>): the client of the agents:
    requests over a connection, and the reader of the JSON text of a scan, composed with the agent that printed it.
  \<^item> \<open>Git_Client\<close>, \<open>Git_Maintenance\<close>, \<open>Git_Facts\<close> (\<open>git/src/client.cpp\<close>, \<open>maintenance.cpp\<close>, \<open>bare.cpp\<close>): the commands given to
    git, the readers of its reports (with the header lines git prints, through the pipe), ignore files and bare repositories. \<open>Git_Registry\<close> (\<open>server_registry.cpp\<close>): the servers of
    the configuration and of the database, their conflicts and their synchronisation (the stored record in every setting), and the token. \<open>Git_Gitea\<close>,
    \<open>Git_Gitea_Facts\<close> (\<open>gitea_api.cpp\<close>): the requests to a Gitea server, the JSON printers and readers; webhooks in
    the form Gitea documents are read back. \<open>Git_Remote\<close>, \<open>Git_Cgit\<close>, \<open>Git_Gitea_Server\<close>, \<open>Git_Server_Facts\<close> (\<open>cgit.cpp\<close>,
    \<open>gitea.cpp\<close>): the git servers on other machines as programs of the state monad over the list of everything done; the actions of an
    installation and which failures it notices, what cgit publishes, and the token that is read.
  \<^item> \<open>Bot_Transport\<close> (\<open>bot/src/transport.cpp\<close>): running a script over ssh or the agent. \<open>Bot_Doctors\<close> (\<open>doctor.cpp\<close>,
    \<open>git_doctor.cpp\<close>, \<open>registry.cpp\<close>): the reports the health checks read.
  \<^item> \<open>System_Process\<close> (\<open>system/src/process.cpp\<close>): exit status decoding, the poll loop with its timeout,
    and \<open>shell_quote\<close> against a reader of the shell's quoting rules.
  \<^item> \<open>Brain_Planner\<close> (\<open>brain/src/detector.cpp\<close>, \<open>planner.cpp\<close>), \<open>Task_Build\<close> (\<open>task/src/executor.cpp\<close>,
    \<open>builder.cpp\<close>): from a directory tree to the plan and to the text given to the shell.
    \<open>Brain_Patterns\<close>, \<open>Brain_Matcher\<close> (\<open>pattern_matcher.cpp\<close>): edit distance, token similarity, patterns over the store.
    \<open>Brain_Learner\<close> (\<open>learner.cpp\<close>): signatures of error messages, recording of failures; \<open>Brain_Recurring\<close>: the third similar
    failure makes a pattern. \<open>Brain_Recovery\<close> (\<open>recovery.cpp\<close>): suggestions, their execution and the recover command.
    \<open>Brain_Snapshots\<close> (\<open>snapshot.cpp\<close>): the hash of a directory tree and when a change of it is reported.
  \<^item> \<open>Config_Store\<close> (\<open>config/src/config.cpp\<close>, \<open>parser.cpp\<close>): the configuration reader, typed getters and
    environment references. \<open>Directive_Registry\<close> (\<open>directive/src/registry.cpp\<close>): named commands.
  \<^item> \<open>Blackbox_Logger\<close> (\<open>blackbox/src/logger.cpp\<close>): levels, the place and name of the log file, the daily file,
    rotation by size and line formats. The files of a day hold a tail of everything logged, in order.
  \<^item> \<open>Nexus_Sql\<close>: the meaning of the SQL statements the store sends (INSERT, ON CONFLICT DO UPDATE, UPDATE,
    DELETE with its ON DELETE actions, SELECT with WHERE, ORDER BY and LIMIT), column affinities, NOT NULL, UNIQUE and
    foreign keys, and the driver around them (\<open>nexus/src/sqlite_driver.cpp\<close>, \<open>connection.cpp\<close>), which binds every
    parameter as text. \<open>Nexus_Schema\<close>: the tables of \<open>nexus/migrations/*.sql\<close>.
  \<^item> \<open>Nexus_Store\<close>, \<open>Nexus_Workspace_Store\<close>, \<open>Nexus_Brain_Store\<close>, \<open>Nexus_Docker_Store\<close>, \<open>Nexus_Bot_Store\<close>, \<open>Nexus_Git_Store\<close>
    (\<open>nexus/src/store.cpp\<close>): one definition per operation of \<open>Store\<close>. Facts and tags are keyed tables, projects are
    registered once, pruning keeps the newest rows, deleting a snapshot removes what belongs to it; several operations
    can never store a row, because an absent reference is bound as an empty text. \<open>Nexus_Crypto\<close>
    (\<open>crypto.cpp\<close>): the format of encrypted tokens over an authenticated cipher. \<open>Nexus_Integrity\<close>: the
    step relation of all operations and the integrity of the database along every run. \<open>Nexus_Migrator\<close>
    (\<open>migrator.cpp\<close>): which migrations a run applies.
  \<^item> \<open>Workspace_Files\<close>, \<open>Workspace_Manager\<close> (\<open>workspace/src/manager.cpp\<close>): directory trees, scans, hashes, recorded
    texts, comparison, and the manager's operations over the database and the directories. \<open>Workspace_Records\<close>: a
    created snapshot reads back as it was scanned. \<open>Workspace_Restore\<close>: a full restore gives the recorded files
    back, a smart one keeps source files that are still there. \<open>Workspace_Prune\<close>: pruning removes the oldest
    snapshots of the project, against a specification that orders them itself.
  \<^item> \<open>Std_Regex\<close>, \<open>Std_Regex_Replace\<close>: the part of \<open>std::regex\<close> the sources use, as an ordered backtracking matcher, complete for its
    language. \<open>Test_Adapters\<close> (\<open>testsuite/src/adapters/gtest.cpp\<close>, \<open>pytest.cpp\<close>): the readers of test output, which
    give the printed outcomes back. \<open>Test_Runner\<close> (\<open>runner.cpp\<close>): running the tests and recording the run in the store.

  \<^bold>\<open>State and effects.\<close> A class is a record of its members, a method a function that returns its result and
  the updated record; threads that interleave are step relations (\<open>reaper_step\<close>), with one
  step per critical section or notification; inputs are steps of the application (\<open>app_step\<close>, \<open>builtin_step\<close>). Undefined behaviour is a value (\<open>UndefinedBehaviour\<close>, \<^const>\<open>None\<close> of
  \<open>close_active\<close>, the flag \<open>tc_undefined\<close>). Files, the environment, the clock, the shell, poll results,
  the virtual methods of menus (given for the built-in ones in \<open>Tui_Builtin\<close>) and the cipher are arguments. Log lines are left out. SQL is a language of the
  sources, so its statements are modelled; what the database engine decides is a field of the connection:
  which statements fail for I/O reasons (\<open>io_fails\<close>) and in which order a query visits a table
  (\<open>visit\<close>, only assumed to visit every row once). The parameters of the workspace manager are the record \<open>os\<close>: the
  order of directory walks and hash sets (\<open>permutes\<close>), where a walk fails, which files can be read and how copies
  end (\<open>working\<close> when nothing fails).

  \<^bold>\<open>Termination.\<close> There is no fuel: every loop is a total function, with a measure where the recursion is
  not structural (unread lines for the compose reader, remaining work for Kahn's algorithm, remaining
  text for environment references), or a \<open>while_option\<close> whose end is proved (the pipe of \<open>Agent_Scanner\<close>). The poll loop runs over the list of events it receives and returns
  \<^const>\<open>None\<close> when the list ends before a decisive event.

  \<^bold>\<open>Not modelled.\<close> Floating point is replaced by rationals, so rounding is not covered; the tables and queries
  of the store that only hold REAL statistics (test coverage, failure relationships) are left out, the confidence of recovery actions
  is a parameter; opening and deleting the database file are left out. Sockets are
  modelled by the pieces their reads return, not by their set-up. Drawing ends at the operations of the drawing
  library, which are arguments. The set-up of pseudo terminals, the printing and argument reading of the command line in every module, the scaffold, prompt and package modules and the
  self-updater are left out: they call programs, services and a terminal. The shell scripts the bots carry are arguments.
\<close>

end
